(* ===== verification/Js_Prelude.thy ===== *)
theory Js_Prelude
  imports Main "HOL-Library.AList" "HOL-Library.Sublist"
begin

text \<open>
  The part of JavaScript the modelled sources use.

  \<^item> \<open>jsval\<close> is a dynamically typed value (\<open>any\<close>, \<open>unknown\<close> or parsed JSON). Numbers are the
    integers plus \<open>NaN\<close>: the sources only put sequence numbers, counts and epoch milliseconds
    in them. Objects are association lists in insertion order.
  \<^item> A string is a list of characters; one character is one code unit. Case mapping and
    white space are those of ASCII (white space also has the no-break space).
  \<^item> A \<open>Map\<close> or a plain object used as a dictionary is an association list with
    insertion order: \<open>set\<close> is \<open>AList.update\<close> (in place, or at the end for a new key),
    \<open>delete\<close> is \<open>AList.delete\<close> and \<open>get\<close> is \<open>map_of\<close>.
\<close>

named_theorems js_simps \<open>unfolding rules for the JavaScript primitives\<close>
named_theorems log_inv \<open>the log operations preserve the log invariant\<close>

section \<open>Values\<close>

datatype jsval =
    Undefined
  | Null
  | Bool bool
  | Num int
  | NaN
  | Str string
  | Arr "jsval list"
  | Obj "(string \<times> jsval) list"

type_synonym js_object = "(string \<times> jsval) list"

definition nullish :: "jsval \<Rightarrow> bool" where
  "nullish v \<longleftrightarrow> v = Undefined \<or> v = Null"

fun truthy :: "jsval \<Rightarrow> bool" where
  "truthy Undefined = False"
| "truthy Null = False"
| "truthy NaN = False"
| "truthy (Bool b) = b"
| "truthy (Num n) = (n \<noteq> 0)"
| "truthy (Str s) = (s \<noteq> [])"
| "truthy (Arr xs) = True"
| "truthy (Obj kvs) = True"

text \<open>The operators \<open>??\<close> and \<open>||\<close>.\<close>

definition coalesce :: "jsval \<Rightarrow> jsval \<Rightarrow> jsval" where
  "coalesce a b = (if nullish a then b else a)"

definition js_or :: "jsval \<Rightarrow> jsval \<Rightarrow> jsval" where
  "js_or a b = (if truthy a then a else b)"

text \<open>
  Property access with optional chaining, \<open>v?.k\<close>. A missing property is \<open>undefined\<close>.
\<close>

fun jget :: "jsval \<Rightarrow> string \<Rightarrow> jsval" where
  "jget (Obj kvs) k = (case map_of kvs k of Some v \<Rightarrow> v | None \<Rightarrow> Undefined)"
| "jget _ k = Undefined"

fun jhas :: "jsval \<Rightarrow> string \<Rightarrow> bool" where
  "jhas (Obj kvs) k = (map_of kvs k \<noteq> None)"
| "jhas _ k = False"

fun jentries :: "jsval \<Rightarrow> js_object" where
  "jentries (Obj kvs) = kvs"
| "jentries _ = []"

fun jarr :: "jsval \<Rightarrow> jsval list" where
  "jarr (Arr xs) = xs"
| "jarr _ = []"

text \<open>\<open>v?.length || 0\<close> for an array or a string.\<close>

fun jlen :: "jsval \<Rightarrow> nat" where
  "jlen (Arr xs) = length xs"
| "jlen (Str s) = length s"
| "jlen _ = 0"

text \<open>
  Strict equality. Two arrays or objects are compared by reference in JavaScript; the
  sources compare values of separate messages, which are never the same object.
\<close>

fun strict_eq :: "jsval \<Rightarrow> jsval \<Rightarrow> bool" where
  "strict_eq Undefined b = (b = Undefined)"
| "strict_eq Null b = (b = Null)"
| "strict_eq (Bool x) b = (b = Bool x)"
| "strict_eq (Num x) b = (b = Num x)"
| "strict_eq (Str x) b = (b = Str x)"
| "strict_eq _ b = False"

lemma strict_eq_sym: "strict_eq a b = strict_eq b a"
  by (cases a; cases b) auto

lemma strict_eq_imp_eq: "strict_eq a b \<Longrightarrow> a = b"
  by (cases a; cases b) auto

lemma strict_eq_trans: "strict_eq a b \<Longrightarrow> strict_eq b c \<Longrightarrow> strict_eq a c"
  by (auto dest: strict_eq_imp_eq)

text \<open>Object spread: the entries of the second object override or extend the first.\<close>

definition spread :: "js_object \<Rightarrow> js_object \<Rightarrow> js_object" where
  "spread a b = fold (\<lambda>(k, v) o'. AList.update k v o') b a"

lemma map_of_spread: "distinct (map fst b) \<Longrightarrow> map_of (spread a b) = map_of a ++ map_of b"
  unfolding spread_def
proof (induction b arbitrary: a)
  case Nil
  then show ?case by simp
next
  case (Cons p b)
  obtain k v where p: "p = (k, v)" by (cases p)
  from Cons.prems p have d: "distinct (map fst b)" and k: "map_of b k = None"
    by (auto simp: map_of_eq_None_iff)
  show ?case
    using Cons.IH[OF d, of "AList.update k v a"] k
    by (auto simp: p update_conv fun_eq_iff map_add_def split: option.splits)
qed

definition jset :: "string \<Rightarrow> jsval \<Rightarrow> jsval \<Rightarrow> jsval" where
  "jset k v o' = Obj (AList.update k v (jentries o'))"

lemma jget_jset [simp]: "jget (jset k v o') k' = (if k' = k then v else jget o' k')"
  by (cases o') (auto simp: jset_def update_conv)

lemma jset_inject: "jget (jset k v a) k = v"
  by simp

section \<open>Optional strings\<close>

definition truthy_str :: "string option \<Rightarrow> bool" where
  "truthy_str s = (case s of None \<Rightarrow> False | Some t \<Rightarrow> t \<noteq> [])"

lemma truthy_str_simps [simp]: "\<not> truthy_str None" "truthy_str (Some t) \<longleftrightarrow> t \<noteq> []"
  by (simp_all add: truthy_str_def)

definition the_default :: "'a \<Rightarrow> 'a option \<Rightarrow> 'a" where
  "the_default d x = (case x of None \<Rightarrow> d | Some y \<Rightarrow> y)"

lemma the_default_simps [simp]: "the_default d None = d" "the_default d (Some y) = y"
  by (simp_all add: the_default_def)

text \<open>\<open>list || []\<close> for an optional list.\<close>

abbreviation or_empty :: "'a list option \<Rightarrow> 'a list" where
  "or_empty \<equiv> the_default []"

section \<open>Numbers as text\<close>

definition digit_char :: "nat \<Rightarrow> char" where
  "digit_char d = char_of (48 + d)"

fun string_of_nat :: "nat \<Rightarrow> string" where
  "string_of_nat n = (if n < 10 then [digit_char n] else string_of_nat (n div 10) @ [digit_char (n mod 10)])"

declare string_of_nat.simps [simp del]

definition string_of_int :: "int \<Rightarrow> string" where
  "string_of_int i = (if i < 0 then CHR ''-'' # string_of_nat (nat (- i)) else string_of_nat (nat i))"

definition is_digit :: "char \<Rightarrow> bool" where
  "is_digit c \<longleftrightarrow> 48 \<le> (of_char c :: nat) \<and> (of_char c :: nat) \<le> 57"

definition digit_val :: "char \<Rightarrow> nat" where
  "digit_val c = of_char c - 48"

definition nat_of_digits :: "string \<Rightarrow> nat" where
  "nat_of_digits s = foldl (\<lambda>n c. 10 * n + digit_val c) 0 s"

lemma digit_char_digit: "d < 10 \<Longrightarrow> is_digit (digit_char d)"
  by (simp add: is_digit_def digit_char_def of_char_of)

lemma digit_val_digit_char: "d < 10 \<Longrightarrow> digit_val (digit_char d) = d"
  by (simp add: digit_val_def digit_char_def of_char_of)

lemma string_of_nat_digits: "\<forall>c \<in> set (string_of_nat n). is_digit c"
proof (induction n rule: string_of_nat.induct)
  case (1 n)
  then show ?case
    by (cases "n < 10") (simp_all add: string_of_nat.simps[of n] digit_char_digit)
qed

lemma string_of_nat_not_Nil [simp]: "string_of_nat n \<noteq> []"
  by (simp add: string_of_nat.simps[of n])

lemma nat_of_digits_string_of_nat: "nat_of_digits (string_of_nat n) = n"
proof (induction n rule: string_of_nat.induct)
  case (1 n)
  show ?case
  proof (cases "n < 10")
    case True
    then show ?thesis
      by (simp add: string_of_nat.simps[of n] nat_of_digits_def digit_val_digit_char)
  next
    case False
    with 1 have ih: "nat_of_digits (string_of_nat (n div 10)) = n div 10" by simp
    have "nat_of_digits (string_of_nat n) = 10 * (n div 10) + n mod 10"
      using False ih
      by (simp add: string_of_nat.simps[of n] nat_of_digits_def digit_val_digit_char)
    then show ?thesis by simp
  qed
qed

lemma string_of_nat_inj [simp]: "string_of_nat m = string_of_nat n \<longleftrightarrow> m = n"
  by (metis nat_of_digits_string_of_nat)

lemma is_digit_minus: "\<not> is_digit CHR ''-''"
  by (simp add: is_digit_def)

lemma is_digit_colon: "\<not> is_digit CHR '':''"
  by (simp add: is_digit_def)

lemma string_of_int_inj [simp]: "string_of_int i = string_of_int j \<longleftrightarrow> i = j"
proof
  assume eq: "string_of_int i = string_of_int j"
  have no_minus: "string_of_nat n \<noteq> CHR ''-'' # s" for n s
    using string_of_nat_digits[of n] is_digit_minus by (metis list.set_intros(1))
  show "i = j"
    using eq no_minus[symmetric] no_minus
    by (auto simp: string_of_int_def split: if_splits)
qed simp

lemma string_of_nat_no_colon: "CHR '':'' \<notin> set (string_of_nat n)"
  using string_of_nat_digits[of n] is_digit_colon by blast

lemma string_of_int_no_colon: "CHR '':'' \<notin> set (string_of_int i)"
  by (simp add: string_of_int_def string_of_nat_no_colon)

lemma string_of_int_not_Nil [simp]: "string_of_int i \<noteq> []"
  by (simp add: string_of_int_def)

section \<open>Strings\<close>

definition is_space :: "char \<Rightarrow> bool" where
  "is_space c \<longleftrightarrow> (let n = (of_char c :: nat) in 9 \<le> n \<and> n \<le> 13 \<or> n = 32 \<or> n = 160)"

definition trim_start :: "string \<Rightarrow> string" where
  "trim_start = dropWhile is_space"

definition trim_end :: "string \<Rightarrow> string" where
  "trim_end s = rev (dropWhile is_space (rev s))"

definition trim :: "string \<Rightarrow> string" where
  "trim s = trim_end (trim_start s)"

definition upper_char :: "char \<Rightarrow> char" where
  "upper_char c = (let n = (of_char c :: nat) in if 97 \<le> n \<and> n \<le> 122 then char_of (n - 32) else c)"

definition lower_char :: "char \<Rightarrow> char" where
  "lower_char c = (let n = (of_char c :: nat) in if 65 \<le> n \<and> n \<le> 90 then char_of (n + 32) else c)"

definition toUpperCase :: "string \<Rightarrow> string" where
  "toUpperCase = map upper_char"

definition toLowerCase :: "string \<Rightarrow> string" where
  "toLowerCase = map lower_char"

text \<open>\<open>\<backslash>w\<close> of a regular expression.\<close>

definition is_word_char :: "char \<Rightarrow> bool" where
  "is_word_char c \<longleftrightarrow> (let n = (of_char c :: nat) in
     48 \<le> n \<and> n \<le> 57 \<or> 65 \<le> n \<and> n \<le> 90 \<or> 97 \<le> n \<and> n \<le> 122 \<or> n = 95)"

definition startsWith :: "string \<Rightarrow> string \<Rightarrow> bool" where
  "startsWith s p \<longleftrightarrow> take (length p) s = p"

definition endsWith :: "string \<Rightarrow> string \<Rightarrow> bool" where
  "endsWith s p \<longleftrightarrow> startsWith (rev s) (rev p)"

lemma startsWith_iff_prefix: "startsWith s p \<longleftrightarrow> prefix p s"
  by (metis append_eq_conv_conj prefix_def startsWith_def)

lemma startsWith_append [simp]: "startsWith (p @ s) p"
  by (simp add: startsWith_def)

lemma trim_Nil [simp]: "trim [] = []"
  by (simp add: trim_def trim_start_def trim_end_def)

lemma trim_length: "length (trim s) \<le> length s"
  by (simp add: trim_def trim_start_def trim_end_def)
     (metis length_dropWhile_le length_rev order_trans)

lemma set_trim: "set (trim s) \<subseteq> set s"
proof
  fix x
  assume "x \<in> set (trim s)"
  then have "x \<in> set (dropWhile is_space (rev (dropWhile is_space s)))"
    by (simp add: trim_def trim_start_def trim_end_def)
  then have "x \<in> set (rev (dropWhile is_space s))" using set_dropWhileD by fastforce
  then show "x \<in> set s" using set_dropWhileD by fastforce
qed

lemma trim_ends: "trim s \<noteq> [] \<Longrightarrow> \<not> is_space (hd (trim s)) \<and> \<not> is_space (last (trim s))"
proof -
  assume ne: "trim s \<noteq> []"
  let ?t = "dropWhile is_space s"
  let ?u = "dropWhile is_space (rev ?t)"
  have u: "trim s = rev ?u" by (simp add: trim_def trim_start_def trim_end_def)
  with ne have "?u \<noteq> []" by simp
  then have "\<not> is_space (hd ?u)" by (rule hd_dropWhile)
  moreover have "last (trim s) = hd ?u" using u \<open>?u \<noteq> []\<close> by (simp add: last_rev)
  moreover have "hd (trim s) = last ?u" using u \<open>?u \<noteq> []\<close> by (simp add: hd_rev)
  moreover have "last ?u = last (rev ?t)" using \<open>?u \<noteq> []\<close>
    by (metis dropWhile_eq_drop last_drop length_drop length_greater_0_conv zero_less_diff)
  moreover have "?t \<noteq> []" using \<open>?u \<noteq> []\<close> by (metis dropWhile.simps(1) rev.simps(1))
  then have "\<not> is_space (hd ?t)" by (rule hd_dropWhile)
  moreover have "last (rev ?t) = hd ?t" using \<open>?t \<noteq> []\<close> by (simp add: last_rev)
  ultimately show ?thesis by simp
qed

text \<open>\<open>Array.from(s)\<close> on a string: the code points, each a string.\<close>

definition array_from :: "string \<Rightarrow> string list" where
  "array_from s = map (\<lambda>c. [c]) s"

lemma concat_array_from [simp]: "concat (array_from s) = s"
  by (induction s) (auto simp: array_from_def)

text \<open>\<open>s.split(sep)\<close> for a one-character separator: always at least one part.\<close>

fun split_on :: "char \<Rightarrow> string \<Rightarrow> string list" where
  "split_on c [] = [[]]"
| "split_on c (x # xs) =
     (if x = c then [] # split_on c xs
      else (case split_on c xs of [] \<Rightarrow> [[x]] | p # ps \<Rightarrow> (x # p) # ps))"

lemma split_on_not_Nil [simp]: "split_on c s \<noteq> []"
  by (induction s) (auto split: list.splits)

text \<open>\<open>parts.join(sep)\<close>.\<close>

fun join :: "string \<Rightarrow> string list \<Rightarrow> string" where
  "join sep [] = []"
| "join sep [x] = x"
| "join sep (x # xs) = x @ sep @ join sep xs"

lemma join_split_on: "join [c] (split_on c s) = s"
proof (induction s)
  case Nil
  then show ?case by simp
next
  case (Cons x xs)
  obtain p ps where ps: "split_on c xs = p # ps"
    using split_on_not_Nil[of c xs] by (cases "split_on c xs") auto
  with Cons show ?case
    by (cases ps) auto
qed

text \<open>\<open>String(v)\<close> and template interpolation; an array is its elements joined by commas.\<close>

fun js_String :: "jsval \<Rightarrow> string" where
  "js_String Undefined = ''undefined''"
| "js_String Null = ''null''"
| "js_String (Bool b) = (if b then ''true'' else ''false'')"
| "js_String (Num n) = string_of_int n"
| "js_String NaN = ''NaN''"
| "js_String (Str s) = s"
| "js_String (Arr xs) = join '','' (map (\<lambda>x. if nullish x then [] else js_String x) xs)"
| "js_String (Obj kvs) = ''[object Object]''"

text \<open>
  \<open>Number(s)\<close> for an optional string: \<open>None\<close> is \<open>NaN\<close>. An optional sign and decimal
  digits with surrounding white space; the empty string is 0 and \<open>undefined\<close> is \<open>NaN\<close>.
\<close>

definition js_Number :: "string option \<Rightarrow> int option" where
  "js_Number s = (case s of None \<Rightarrow> None | Some t \<Rightarrow>
     (let u = trim t in
      if u = [] then Some 0
      else if list_all is_digit u then Some (int (nat_of_digits u))
      else if hd u = CHR ''-'' \<and> tl u \<noteq> [] \<and> list_all is_digit (tl u)
        then Some (- int (nat_of_digits (tl u)))
      else if hd u = CHR ''+'' \<and> tl u \<noteq> [] \<and> list_all is_digit (tl u)
        then Some (int (nat_of_digits (tl u)))
      else None))"

lemma is_digit_not_space: "is_digit c \<Longrightarrow> \<not> is_space c"
  by (auto simp: is_digit_def is_space_def Let_def)

lemma trim_no_space: "\<forall>c \<in> set s. \<not> is_space c \<Longrightarrow> trim s = s"
proof -
  assume "\<forall>c \<in> set s. \<not> is_space c"
  then have "dropWhile is_space s = s" "dropWhile is_space (rev s) = rev s"
    by (cases s; simp; fail) (cases "rev s"; metis \<open>\<forall>c \<in> set s. \<not> is_space c\<close> dropWhile.simps list.set_intros(1) set_rev)
  then show ?thesis by (simp add: trim_def trim_start_def trim_end_def)
qed

lemma js_Number_string_of_int [simp]: "js_Number (Some (string_of_int n)) = Some n"
proof -
  have d: "list_all is_digit (string_of_nat k)" for k
    using string_of_nat_digits by (simp add: list_all_iff)
  have "\<forall>c \<in> set (string_of_int n). \<not> is_space c"
    using string_of_nat_digits is_digit_not_space
    by (auto simp: string_of_int_def is_space_def Let_def)
  then have "trim (string_of_int n) = string_of_int n" by (rule trim_no_space)
  with d show ?thesis
    by (auto simp: js_Number_def string_of_int_def nat_of_digits_string_of_nat is_digit_minus Let_def)
qed

lemma split_on_single: "c \<notin> set s \<Longrightarrow> split_on c s = [s]"
  by (induction s) auto

lemma split_on_append: "c \<notin> set a \<Longrightarrow> split_on c (a @ c # b) = a # split_on c b"
  by (induction a) auto

lemma split_on_join:
  "xs \<noteq> [] \<Longrightarrow> \<forall>x \<in> set xs. c \<notin> set x \<Longrightarrow> split_on c (join [c] xs) = xs"
proof (induction xs)
  case (Cons x xs)
  then show ?case by (cases xs) (simp_all add: split_on_single split_on_append)
qed simp

text \<open>A fold that never decreases reaches what one of its steps reaches.\<close>

lemma foldl_ge:
  fixes f :: "int \<Rightarrow> 'a \<Rightarrow> int"
  assumes "\<And>a y. a \<le> f a y" and "x \<in> set xs" and "\<And>a. k \<le> f a x"
  shows "k \<le> foldl f a xs"
proof -
  have mono: "a \<le> foldl f a ys" for a ys
    using assms(1) by (induction ys arbitrary: a) (auto intro: order_trans)
  from assms(2) obtain ys zs where "xs = ys @ x # zs" by (auto simp: in_set_conv_decomp)
  then have "foldl f a xs = foldl f (f (foldl f a ys) x) zs" by simp
  with assms(3) mono show ?thesis by (metis order_trans)
qed

text \<open>\<open>Number(v)\<close> for any value.\<close>

fun to_number :: "jsval \<Rightarrow> int option" where
  "to_number Undefined = None"
| "to_number Null = Some 0"
| "to_number (Bool b) = Some (if b then 1 else 0)"
| "to_number (Num n) = Some n"
| "to_number NaN = None"
| "to_number (Str s) = js_Number (Some s)"
| "to_number (Arr xs) = js_Number (Some (js_String (Arr xs)))"
| "to_number (Obj kvs) = None"

text \<open>\<open>s.replace(/\s+/g, ' ')\<close>: every run of white space becomes one blank.\<close>

fun collapse_from :: "bool \<Rightarrow> string \<Rightarrow> string" where
  "collapse_from in_run [] = []"
| "collapse_from in_run (c # cs) =
     (if is_space c then (if in_run then [] else '' '') @ collapse_from True cs
      else c # collapse_from False cs)"

definition collapse_spaces :: "string \<Rightarrow> string" where
  "collapse_spaces s = collapse_from False s"

abbreviation LF :: char where "LF \<equiv> CHR 0x0A"
abbreviation CR :: char where "CR \<equiv> CHR 0x0D"
abbreviation SQUOTE :: char where "SQUOTE \<equiv> CHR 0x27"
abbreviation DQUOTE :: char where "DQUOTE \<equiv> CHR 0x22"
abbreviation BACKTICK :: char where "BACKTICK \<equiv> CHR 0x60"
abbreviation BACKSLASH :: char where "BACKSLASH \<equiv> CHR 0x5C"

text \<open>\<open>s.replace(/\r\n/g, '\n')\<close>.\<close>

fun crlf_to_lf :: "string \<Rightarrow> string" where
  "crlf_to_lf (c # d # cs) =
     (if c = CHR 0x0D \<and> d = CHR 0x0A then CHR 0x0A # crlf_to_lf cs else c # crlf_to_lf (d # cs))"
| "crlf_to_lf cs = cs"

text \<open>\<open>text.split(/\r\n|\r|\n/)\<close>\<close>

fun split_line_breaks :: "string \<Rightarrow> string list" where
  "split_line_breaks [] = [[]]"
| "split_line_breaks (c # cs) =
     (if c = LF \<or> (c = CR \<and> (cs = [] \<or> hd cs \<noteq> LF)) then [] # split_line_breaks cs
      else if c = CR then split_line_breaks cs
      else case split_line_breaks cs of [] \<Rightarrow> [[c]] | l # ls \<Rightarrow> (c # l) # ls)"

lemma split_line_breaks_not_Nil [simp]: "split_line_breaks s \<noteq> []"
  by (induction s) (auto split: list.splits)

section \<open>Sets and lists in insertion order\<close>

text \<open>
  \<open>Array.from(new Set(xs))\<close>: the first occurrence of each element, in order.
\<close>

fun uniq_acc :: "'a list \<Rightarrow> 'a list \<Rightarrow> 'a list" where
  "uniq_acc seen [] = []"
| "uniq_acc seen (x # xs) = (if x \<in> set seen then uniq_acc seen xs else x # uniq_acc (x # seen) xs)"

definition uniq :: "'a list \<Rightarrow> 'a list" where
  "uniq xs = uniq_acc [] xs"

lemma set_uniq_acc: "set (uniq_acc seen xs) = set xs - set seen"
  by (induction seen xs rule: uniq_acc.induct) auto

lemma distinct_uniq_acc: "distinct (uniq_acc seen xs)"
  by (induction seen xs rule: uniq_acc.induct) (auto simp: set_uniq_acc)

lemma set_uniq [simp]: "set (uniq xs) = set xs"
  by (simp add: uniq_def set_uniq_acc)

lemma distinct_uniq [simp]: "distinct (uniq xs)"
  by (simp add: uniq_def distinct_uniq_acc)

text \<open>\<open>xs.slice(-n)\<close> for \<open>n > 0\<close>.\<close>

definition slice_last :: "nat \<Rightarrow> 'a list \<Rightarrow> 'a list" where
  "slice_last n xs = drop (length xs - n) xs"

lemma length_slice_last: "length (slice_last n xs) = min n (length xs)"
  by (auto simp: slice_last_def)

lemma set_slice_last_subset: "set (slice_last n xs) \<subseteq> set xs"
  by (auto simp: slice_last_def dest: in_set_dropD)

lemma slice_last_all: "length xs \<le> n \<Longrightarrow> slice_last n xs = xs"
  by (simp add: slice_last_def)

lemma distinct_slice_last: "distinct xs \<Longrightarrow> distinct (slice_last n xs)"
  by (simp add: slice_last_def)

lemma find_SomeD: "List.find P xs = Some x \<Longrightarrow> x \<in> set xs \<and> P x"
  by (induction xs) (auto split: if_splits)

lemma find_None_conv: "List.find P xs = None \<longleftrightarrow> (\<forall>x \<in> set xs. \<not> P x)"
  by (induction xs) auto

text \<open>\<open>findIndex\<close>, with \<open>None\<close> for \<open>-1\<close>.\<close>

definition find_index :: "('a \<Rightarrow> bool) \<Rightarrow> 'a list \<Rightarrow> nat option" where
  "find_index P xs = (let k = length (takeWhile (\<lambda>x. \<not> P x) xs) in if k < length xs then Some k else None)"

lemma find_index_bound: "find_index P xs = Some k \<Longrightarrow> k < length xs \<and> P (xs ! k)"
  using nth_length_takeWhile[of "\<lambda>x. \<not> P x" xs] by (auto simp: find_index_def Let_def split: if_splits)

lemma find_index_None: "find_index P xs = None \<longleftrightarrow> (\<forall>x \<in> set xs. \<not> P x)"
proof -
  have "length (takeWhile (\<lambda>x. \<not> P x) xs) < length xs \<longleftrightarrow> takeWhile (\<lambda>x. \<not> P x) xs \<noteq> xs"
    using length_takeWhile_le[of "\<lambda>x. \<not> P x" xs] takeWhile_dropWhile_id[of "\<lambda>x. \<not> P x" xs]
    by (metis append_Nil2 le_neq_implies_less length_append less_irrefl add_left_cancel list.size(3) length_0_conv nat_neq_iff)
  then show ?thesis by (auto simp: find_index_def Let_def takeWhile_eq_all_conv)
qed

text \<open>\<open>[...xs].reverse().find(P)\<close>: the last element that satisfies \<open>P\<close>.\<close>

abbreviation find_last :: "('a \<Rightarrow> bool) \<Rightarrow> 'a list \<Rightarrow> 'a option" where
  "find_last P xs \<equiv> List.find P (rev xs)"

section \<open>A dictionary interface\<close>

text \<open>
  What the components rely on of \<open>Map\<close>: lookup after \<open>set\<close> and \<open>delete\<close>.
  It is met by association lists with distinct keys.
\<close>

locale js_dictionary =
  fixes dget :: "'m \<Rightarrow> 'k \<Rightarrow> 'v option"
    and dset :: "'k \<Rightarrow> 'v \<Rightarrow> 'm \<Rightarrow> 'm"
    and ddelete :: "'k \<Rightarrow> 'm \<Rightarrow> 'm"
    and wf :: "'m \<Rightarrow> bool"
  assumes get_set: "dget (dset k v m) = (dget m)(k \<mapsto> v)"
    and get_delete: "dget (ddelete k m) = (dget m)(k := None)"
    and wf_set: "wf m \<Longrightarrow> wf (dset k v m)"
    and wf_delete: "wf m \<Longrightarrow> wf (ddelete k m)"
begin

lemma get_set_same: "dget (dset k v m) k = Some v"
  by (simp add: get_set)

lemma get_set_other: "k' \<noteq> k \<Longrightarrow> dget (dset k v m) k' = dget m k'"
  by (simp add: get_set)

lemma set_then_delete: "dget (ddelete k (dset k v m)) = dget (ddelete k m)"
  by (simp add: get_set get_delete fun_eq_iff)

lemma dom_delete: "dom (dget (ddelete k m)) = dom (dget m) - {k}"
  by (auto simp: get_delete)

end

interpretation js_map: js_dictionary map_of AList.update AList.delete "\<lambda>m. distinct (map fst m)"
proof unfold_locales
  fix m :: "('a \<times> 'b) list" and k :: 'a and v :: 'b
  show "map_of (AList.update k v m) = (map_of m)(k \<mapsto> v)" by (rule update_conv')
  show "map_of (AList.delete k m) = (map_of m)(k := None)" by (simp add: delete_conv')
  show "distinct (map fst m) \<Longrightarrow> distinct (map fst (AList.update k v m))"
    by (rule distinct_update)
  show "distinct (map fst m) \<Longrightarrow> distinct (map fst (AList.delete k m))"
    by (rule distinct_delete)
qed

section \<open>Machines driven by inputs\<close>

text \<open>
  Code that runs from one \<open>await\<close> or event to the next is a step function on inputs, and an
  interleaving is a list of inputs. An invariant may need that some inputs do not occur.
\<close>

locale guarded_machine =
  fixes step :: "'s \<Rightarrow> 'i \<Rightarrow> 's" and inv :: "'s \<Rightarrow> bool" and allowed :: "'i \<Rightarrow> bool"
  assumes allowed_keeps: "inv s \<Longrightarrow> allowed i \<Longrightarrow> inv (step s i)"
begin

lemma allowed_run_keeps: "inv s \<Longrightarrow> \<forall>i \<in> set is. allowed i \<Longrightarrow> inv (foldl step s is)"
  by (induction "is" arbitrary: s) (auto intro: allowed_keeps)

end

locale input_machine =
  fixes step :: "'s \<Rightarrow> 'i \<Rightarrow> 's" and inv :: "'s \<Rightarrow> bool"
  assumes step_keeps: "inv s \<Longrightarrow> inv (step s i)"

sublocale input_machine \<subseteq> unguarded: guarded_machine step inv "\<lambda>_. True"
  by unfold_locales (rule step_keeps)

context input_machine
begin

lemma run_keeps: "inv s \<Longrightarrow> inv (foldl step s is)"
  by (rule unguarded.allowed_run_keeps) auto

end

end
