(* ===== verification/Execution_Events.thy ===== *)
theory Execution_Events
  imports Js_Prelude
begin

text \<open>
  The data of the SQL execution log: the events of \<open>service/sqlExecutionStream.ts\<close>, the
  records, outputs and state of \<open>service/sqlExecutionLog.ts\<close>, and the small helpers that
  read untyped payloads. An optional property is an option; a property copied from an
  untyped payload is a \<open>jsval\<close>.
\<close>

section \<open>Events\<close>

datatype SqlExecutionEventType =
    EvStarted | EvStatementStarted | EvResultStarted | EvRows | EvUpdateCount | EvMessage
  | EvResultFinished | EvStatementFinished | EvFinished | EvFailed | EvCancelled

record SqlExecutionEvent =
  ev_executionId :: string
  ev_eventSequence :: "int option"
  ev_occurredAtEpochMs :: "int option"
  ev_eventType :: SqlExecutionEventType
  ev_statementSequence :: "int option"
  ev_resultSequence :: "int option"
  ev_resultKey :: "string option"
  ev_message :: jsval

datatype js_error = TypeError

section \<open>Log data\<close>

datatype SqlExecutionLogStatus = Running | Success | Failed | Cancelled

datatype LogLevel = INFO | WARN | ERROR

record SqlExecutionLogContext =
  ctx_dataSourceId :: "int option"
  ctx_dataSourceName :: "string option"
  ctx_databaseType :: "string option"
  ctx_databaseName :: "string option"
  ctx_schemaName :: "string option"

record SqlExecutionLogMessageOutput =
  mo_id :: string
  mo_occurredAtEpochMs :: int
  mo_level :: LogLevel
  mo_message :: string
  mo_errorCode :: jsval
  mo_sqlState :: jsval
  mo_source :: jsval

record SqlExecutionLogResultOutput =
  ro_id :: string
  ro_occurredAtEpochMs :: jsval
  ro_resultKey :: "string option"
  ro_resultSequence :: jsval
  ro_success :: bool
  ro_rowCount :: jsval
  ro_updateCount :: jsval
  ro_durationMs :: jsval
  ro_executionMetrics :: jsval
  ro_message :: "string option"

datatype SqlExecutionLogOutput =
    MessageOutput SqlExecutionLogMessageOutput
  | ResultOutput SqlExecutionLogResultOutput

fun output_id :: "SqlExecutionLogOutput \<Rightarrow> string" where
  "output_id (MessageOutput m) = mo_id m"
| "output_id (ResultOutput r) = ro_id r"

record SqlExecutionLogRecord =
  lr_id :: string
  lr_executionId :: string
  lr_executionSequence :: "int option"
  lr_statementSequence :: int
  lr_startedAtEpochMs :: int
  lr_finishedAtEpochMs :: "int option"
  lr_status :: SqlExecutionLogStatus
  lr_sql :: string
  lr_comment :: "string option"
  lr_context :: SqlExecutionLogContext
  lr_outputs :: "SqlExecutionLogOutput list"
  lr_pendingRowCounts :: "(string \<times> int) list"
  lr_durationMs :: "int option"
  lr_temporary :: "bool option"

record SqlExecutionLogState =
  records :: "SqlExecutionLogRecord list"
  activeExecutionIds :: "string list option"
  replacementExecutionId :: "string option"
  replacementRequestSequence :: "int option"
  supersededExecutionIds :: "string list option"

record WebSqlExecutionParams =
  wp_executionId :: string
  wp_executionSequence :: "int option"
  wp_sql :: string
  wp_context :: SqlExecutionLogContext
  wp_occurredAtEpochMs :: "int option"

definition MAX_RECORDS :: nat where "MAX_RECORDS = 200"
definition MAX_SUPERSEDED_EXECUTIONS :: nat where "MAX_SUPERSEDED_EXECUTIONS = MAX_RECORDS"
definition MAX_OUTPUTS_PER_RECORD :: nat where "MAX_OUTPUTS_PER_RECORD = 200"
definition MAX_MESSAGE_LENGTH :: nat where "MAX_MESSAGE_LENGTH = 8192"
definition MESSAGE_TRUNCATION_MARKER :: string where
  "MESSAGE_TRUNCATION_MARKER = CHR 0x0A # ''...[truncated]...'' @ [CHR 0x0A]"

section \<open>Reading payloads\<close>

fun text_of :: "jsval \<Rightarrow> string" where
  "text_of (Str s) = s"
| "text_of _ = []"

fun numeric :: "jsval \<Rightarrow> jsval" where
  "numeric (Num n) = Num n"
| "numeric _ = Undefined"

text \<open>A property whose declared type is an optional number or an optional string.\<close>

fun num_opt :: "jsval \<Rightarrow> int option" where
  "num_opt (Num n) = Some n"
| "num_opt _ = None"

fun str_opt :: "jsval \<Rightarrow> string option" where
  "str_opt (Str s) = Some s"
| "str_opt _ = None"

definition or_undefined :: "string \<Rightarrow> string option" where
  "or_undefined s = (if s = [] then None else Some s)"

text \<open>\<open>a || b\<close> on strings, with a missing left operand.\<close>

definition str_or :: "string option \<Rightarrow> string \<Rightarrow> string" where
  "str_or a b = (if truthy_str a then the a else b)"

text \<open>\<open>a ?? b\<close> on options.\<close>

definition opt_or :: "'a option \<Rightarrow> 'a option \<Rightarrow> 'a option" where
  "opt_or a b = (case a of None \<Rightarrow> b | Some x \<Rightarrow> Some x)"

definition num_or_undefined :: "int option \<Rightarrow> jsval" where
  "num_or_undefined x = (case x of None \<Rightarrow> Undefined | Some n \<Rightarrow> Num n)"

definition idFor :: "string \<Rightarrow> int \<Rightarrow> string" where
  "idFor executionId statementSequence = executionId @ '':'' @ string_of_int statementSequence"

definition levelOf :: "jsval \<Rightarrow> LogLevel" where
  "levelOf level =
     (let v = toUpperCase (text_of (js_or level (Str ''INFO''))) in
      if v = ''ERROR'' then ERROR
      else if v = ''WARN'' \<or> v = ''WARNING'' then WARN
      else INFO)"

fun is_object :: "jsval \<Rightarrow> bool" where
  "is_object (Obj kvs) = True"
| "is_object (Arr xs) = True"
| "is_object _ = False"

definition errorText :: "jsval \<Rightarrow> string" where
  "errorText err =
     (case err of
        Str s \<Rightarrow> s
      | _ \<Rightarrow>
        if \<not> is_object err then []
        else
          let message = jget err ''message'' in
          if is_object message
          then str_or (Some (text_of (jget message ''message''))) (text_of (jget message ''errorMessage''))
          else str_or (Some (text_of message)) (text_of (jget err ''errorMessage'')))"

definition isSqlExecutionCancellationError :: "jsval \<Rightarrow> bool" where
  "isSqlExecutionCancellationError err \<longleftrightarrow>
     is_object err \<and>
     (jget err ''name'' = Str ''AbortError'' \<or> jget err ''name'' = Str ''CanceledError''
      \<or> jget err ''code'' = Str ''ERR_CANCELED'')"

text \<open>The thrown value, if the function throws.\<close>

definition rethrowNonCancellationSqlExecutionError :: "jsval \<Rightarrow> jsval option" where
  "rethrowNonCancellationSqlExecutionError err =
     (if \<not> isSqlExecutionCancellationError err then Some err else None)"

text \<open>
  The expression \<open>/\<backslash>b(?:aborted|cancell?ed)\<backslash>b/i\<close>: one of the words at some position, with
  no word character before or after it.
\<close>

definition cancellation_words :: "string list" where
  "cancellation_words = [''aborted'', ''cancelled'', ''canceled'']"

definition word_here :: "string \<Rightarrow> bool" where
  "word_here s \<longleftrightarrow> list_ex (\<lambda>w. startsWith (toLowerCase s) w \<and>
     (case drop (length w) s of [] \<Rightarrow> True | c # _ \<Rightarrow> \<not> is_word_char c)) cancellation_words"

fun word_scan :: "bool \<Rightarrow> string \<Rightarrow> bool" where
  "word_scan boundary [] = False"
| "word_scan boundary (c # cs) = (boundary \<and> word_here (c # cs) \<or> word_scan (\<not> is_word_char c) cs)"

definition isCancellationMessage :: "string option \<Rightarrow> bool" where
  "isCancellationMessage message \<longleftrightarrow> truthy_str message \<and> word_scan True (the message)"

definition truncateMessage :: "string \<Rightarrow> string" where
  "truncateMessage v =
     (if length v \<le> MAX_MESSAGE_LENGTH then v
      else
        let characters = array_from v in
        if length characters \<le> MAX_MESSAGE_LENGTH then v
        else
          let retainedLength = MAX_MESSAGE_LENGTH - length MESSAGE_TRUNCATION_MARKER;
              prefixLength = (retainedLength + 1) div 2;
              suffixLength = retainedLength div 2
          in concat (take prefixLength characters) @ MESSAGE_TRUNCATION_MARKER
             @ concat (slice_last suffixLength characters))"

definition mergeContextName :: "string option \<Rightarrow> jsval \<Rightarrow> string \<Rightarrow> string option" where
  "mergeContextName currentValue executionContext key =
     (if \<not> jhas executionContext key then currentValue
      else case jget executionContext key of
        Str v \<Rightarrow> if length v > 0 then Some v else None
      | _ \<Rightarrow> None)"

definition mergeExecutionContext :: "SqlExecutionLogContext \<Rightarrow> jsval \<Rightarrow> SqlExecutionLogContext" where
  "mergeExecutionContext ctx executionContext =
     (if \<not> truthy executionContext then ctx
      else ctx\<lparr>ctx_databaseName := mergeContextName (ctx_databaseName ctx) executionContext ''databaseName'',
               ctx_schemaName := mergeContextName (ctx_schemaName ctx) executionContext ''schemaName''\<rparr>)"

definition eventResultSequence :: "SqlExecutionEvent \<Rightarrow> jsval" where
  "eventResultSequence event =
     coalesce (num_or_undefined (ev_resultSequence event))
       (coalesce (numeric (jget (ev_message event) ''resultSetId''))
         (coalesce (numeric (jget (jget (ev_message event) ''extra'') ''streamResultId'')) (Num 1)))"

definition totalDuration :: "jsval list \<Rightarrow> int option" where
  "totalDuration results =
     (let durations = List.map_filter
            (\<lambda>r. num_opt (jget (jget r ''executionMetrics'') ''totalDurationMs'')) results
      in if durations \<noteq> [] then Some (sum_list durations) else None)"

section \<open>Lemmas on identities and messages\<close>

lemma append_colon_inj:
  assumes "a @ CHR '':'' # x = b @ CHR '':'' # y" and "CHR '':'' \<notin> set x" and "CHR '':'' \<notin> set y"
  shows "a = b \<and> x = y"
proof -
  have "takeWhile (\<lambda>c. c \<noteq> CHR '':'') (rev (u @ CHR '':'' # v)) = rev v"
    if "CHR '':'' \<notin> set v" for u v
    using that by (auto simp: takeWhile_append2 takeWhile_tail)
  from this[OF assms(2), of a] this[OF assms(3), of b] assms(1) have "x = y" by simp
  with assms(1) show ?thesis by simp
qed

lemma idFor_eq_iff [simp]: "idFor e s = idFor e' s' \<longleftrightarrow> e = e' \<and> s = s'"
  using append_colon_inj[of e "string_of_int s" e' "string_of_int s'"]
  by (auto simp: idFor_def string_of_int_no_colon)

text \<open>
  Record ids identify statements: \<open>idFor\<close> is injective in the execution id and the
  statement sequence, for every execution id, also one that contains colons.
\<close>

theorem idFor_injective: "idFor e s = idFor e' s' \<longleftrightarrow> e = e' \<and> s = s'"
  by (rule idFor_eq_iff)

lemma idFor_not_Nil [simp]: "idFor e s \<noteq> []"
  by (simp add: idFor_def)

lemma concat_take_array_from: "concat (take n (array_from s)) = take n s"
  by (metis array_from_def concat_array_from take_map)

lemma concat_slice_array_from: "concat (slice_last n (array_from s)) = slice_last n s"
  unfolding slice_last_def by (metis array_from_def concat_array_from drop_map length_map)

lemma length_marker: "length MESSAGE_TRUNCATION_MARKER = 19"
  by (simp add: MESSAGE_TRUNCATION_MARKER_def)

lemma truncateMessage_long:
  "length v > MAX_MESSAGE_LENGTH \<Longrightarrow>
   truncateMessage v = take 4087 v @ MESSAGE_TRUNCATION_MARKER @ slice_last 4086 v"
  by (simp add: truncateMessage_def Let_def array_from_def[symmetric] concat_take_array_from
      concat_slice_array_from length_marker MAX_MESSAGE_LENGTH_def)
     (simp add: array_from_def)

lemma truncateMessage_Nil [simp]: "truncateMessage v = [] \<longleftrightarrow> v = []"
proof (cases "length v \<le> MAX_MESSAGE_LENGTH")
  case True
  then show ?thesis by (simp add: truncateMessage_def)
next
  case False
  then show ?thesis
    by (auto simp: truncateMessage_long MESSAGE_TRUNCATION_MARKER_def MAX_MESSAGE_LENGTH_def)
qed

text \<open>
  Message truncation. A message of at most 8192 characters is kept as it is; a longer one
  is cut to exactly 8192 characters that start with the message's first 4087 characters, end
  with its last 4086 and have the truncation marker between them. A message is never cut to
  nothing.
\<close>

theorem truncateMessage_bounded:
  "(length v \<le> 8192 \<longrightarrow> truncateMessage v = v)
   \<and> (length v > 8192 \<longrightarrow> length (truncateMessage v) = 8192
        \<and> truncateMessage v = take 4087 v @ MESSAGE_TRUNCATION_MARKER @ drop (length v - 4086) v)
   \<and> (truncateMessage v = [] \<longleftrightarrow> v = [])"
proof (cases "length v \<le> 8192")
  case True
  then show ?thesis by (simp add: truncateMessage_def MAX_MESSAGE_LENGTH_def)
next
  case False
  then have "truncateMessage v = take 4087 v @ MESSAGE_TRUNCATION_MARKER @ slice_last 4086 v"
    by (simp add: truncateMessage_long MAX_MESSAGE_LENGTH_def)
  with False show ?thesis by (auto simp: length_marker slice_last_def)
qed

theorem truncateMessage_bounded_witness:
  "truncateMessage ''ok'' = ''ok'' \<and> length (truncateMessage (replicate 9000 (CHR ''x''))) = 8192"
  using truncateMessage_bounded[of "''ok''"] truncateMessage_bounded[of "replicate 9000 (CHR ''x'')"]
  by (simp add: length_marker)

end
