(* ===== verification/Execution_Log.thy ===== *)
theory Execution_Log
  imports Execution_Events
begin

text \<open>
  The operations of the SQL execution log (\<open>service/sqlExecutionLog.ts\<close>): outputs and
  their retention, records and their eviction, the web execution path, the desktop event
  reducer and the history preference. \<open>Date.now()\<close> is the argument \<open>now\<close>.

  The source compares object identities in one place: \<open>updateRecord\<close> rewrites the record
  list only if an updater returned another object. An updater is therefore a function into
  an option, where \<open>None\<close> is "the same object".
\<close>

section \<open>Outputs\<close>

definition isCriticalOutput :: "SqlExecutionLogOutput \<Rightarrow> bool" where
  "isCriticalOutput output = (case output of
     MessageOutput m \<Rightarrow> mo_level m = ERROR | ResultOutput r \<Rightarrow> \<not> ro_success r)"

text \<open>
  The two loops of \<open>retainOutputs\<close>: from the last index down, while fewer than \<open>limit\<close>
  indexes are retained, retain the index if the test says so.
\<close>

fun retainScan :: "nat \<Rightarrow> (nat list \<Rightarrow> nat \<Rightarrow> bool) \<Rightarrow> nat \<Rightarrow> nat list \<Rightarrow> nat list" where
  "retainScan limit test 0 retained = retained"
| "retainScan limit test (Suc index) retained =
     (if length retained < limit
      then retainScan limit test index (if test retained index then index # retained else retained)
      else retained)"

definition retainOutputs :: "SqlExecutionLogOutput list \<Rightarrow> SqlExecutionLogOutput list" where
  "retainOutputs outputs =
     (if length outputs \<le> MAX_OUTPUTS_PER_RECORD then outputs
      else
        let critical = retainScan MAX_OUTPUTS_PER_RECORD
              (\<lambda>_ index. isCriticalOutput (outputs ! index)) (length outputs) [];
            retained = retainScan MAX_OUTPUTS_PER_RECORD
              (\<lambda>acc index. index \<notin> set acc) (length outputs) critical
        in nths outputs (set retained))"

text \<open>The filter over the additions, with the set of ids seen so far.\<close>

fun uniqueAdditions :: "string list \<Rightarrow> SqlExecutionLogOutput list \<Rightarrow> SqlExecutionLogOutput list" where
  "uniqueAdditions seen [] = []"
| "uniqueAdditions seen (x # xs) =
     (if output_id x \<in> set seen then uniqueAdditions seen xs
      else x # uniqueAdditions (output_id x # seen) xs)"

definition appendOutputs_ref ::
    "SqlExecutionLogRecord \<Rightarrow> SqlExecutionLogOutput list \<Rightarrow> SqlExecutionLogRecord option" where
  "appendOutputs_ref record additions =
     (if additions = [] then None
      else
        let unique = uniqueAdditions (map output_id (lr_outputs record)) additions in
        if unique = [] then None
        else Some (record\<lparr>lr_outputs := retainOutputs (lr_outputs record @ unique)\<rparr>))"

definition appendOutputs ::
    "SqlExecutionLogRecord \<Rightarrow> SqlExecutionLogOutput list \<Rightarrow> SqlExecutionLogRecord" where
  "appendOutputs record additions = the_default record (appendOutputs_ref record additions)"

definition nextMessageSequence :: "SqlExecutionLogRecord \<Rightarrow> int" where
  "nextMessageSequence record =
     (let pre = lr_id record @ '':message:'' in
      foldl (\<lambda>next output.
        if \<not> startsWith (output_id output) pre then next
        else
          let parts = split_on CHR '':'' (drop (length pre) (output_id output));
              sequence = js_Number (if 1 < length parts then Some (parts ! 1) else None)
          in case sequence of Some n \<Rightarrow> max next (n + 1) | None \<Rightarrow> next) 0 (lr_outputs record))"

definition nextResultSequence :: "SqlExecutionLogRecord \<Rightarrow> int" where
  "nextResultSequence record =
     foldl (\<lambda>next output. case output of
         ResultOutput r \<Rightarrow> (case ro_resultSequence r of Num n \<Rightarrow> max next (n + 1) | _ \<Rightarrow> next)
       | MessageOutput m \<Rightarrow> next) 1 (lr_outputs record)"

definition createMessageOutput ::
    "SqlExecutionLogRecord \<Rightarrow> jsval \<Rightarrow> int \<Rightarrow> string \<Rightarrow> string \<Rightarrow> SqlExecutionLogMessageOutput option" where
  "createMessageOutput record message occurredAt source sequence =
     (let messageText = truncateMessage (text_of (jget message ''message'')) in
      if messageText = [] then None
      else Some
        \<lparr>mo_id = lr_id record @ '':message:'' @ source @ '':'' @ sequence,
         mo_occurredAtEpochMs = occurredAt,
         mo_level = levelOf (jget message ''level''),
         mo_message = messageText,
         mo_errorCode = jget message ''errorCode'',
         mo_sqlState = jget message ''sqlState'',
         mo_source = jget message ''source''\<rparr>)"

definition message_outputs :: "SqlExecutionLogMessageOutput option \<Rightarrow> SqlExecutionLogOutput list" where
  "message_outputs output = (case output of None \<Rightarrow> [] | Some m \<Rightarrow> [MessageOutput m])"

definition appendMessage_ref ::
    "SqlExecutionLogRecord \<Rightarrow> jsval \<Rightarrow> int \<Rightarrow> string \<Rightarrow> int option \<Rightarrow> SqlExecutionLogRecord option" where
  "appendMessage_ref record message occurredAt source sequence =
     (case createMessageOutput record message occurredAt source
             (string_of_int (the_default (nextMessageSequence record) sequence)) of
        None \<Rightarrow> None
      | Some output \<Rightarrow> appendOutputs_ref record [MessageOutput output])"

definition appendMessage ::
    "SqlExecutionLogRecord \<Rightarrow> jsval \<Rightarrow> int \<Rightarrow> string \<Rightarrow> int option \<Rightarrow> SqlExecutionLogRecord" where
  "appendMessage record message occurredAt source sequence =
     the_default record (appendMessage_ref record message occurredAt source sequence)"

definition createResultOutput ::
    "SqlExecutionLogRecord \<Rightarrow> jsval \<Rightarrow> int \<Rightarrow> SqlExecutionEvent option \<Rightarrow> nat option
     \<Rightarrow> SqlExecutionLogResultOutput" where
  "createResultOutput record result occurredAt event fallbackSequence =
     (let extra = jget result ''extra'';
          metrics = jget result ''executionMetrics'';
          explicitResultSequence =
            coalesce (case event of None \<Rightarrow> Undefined | Some e \<Rightarrow> num_or_undefined (ev_resultSequence e))
             (coalesce (numeric (jget extra ''resultSequence''))
               (coalesce (numeric (jget extra ''streamResultId'')) (jget result ''resultSetId'')));
          resultSequence =
            coalesce explicitResultSequence
              (Num (case fallbackSequence of
                 None \<Rightarrow> nextResultSequence record | Some n \<Rightarrow> int n + 1));
          rawResultKey = or_undefined
            (str_or (Option.bind event ev_resultKey) (text_of (jget extra ''resultKey'')));
          resultKey = (if 1 < jlen (jget result ''headerList'') then rawResultKey else None);
          outputIdentity =
            (case rawResultKey of
               Some k \<Rightarrow> ''key:'' @ k
             | None \<Rightarrow>
               if explicitResultSequence \<noteq> Undefined
               then ''sequence:'' @ js_String explicitResultSequence
               else case Option.bind event ev_eventSequence of
                 Some n \<Rightarrow> ''event:'' @ string_of_int n
               | None \<Rightarrow> ''fallback:'' @ js_String resultSequence);
          rowCount =
            coalesce (jget metrics ''fetchedRowCount'')
             (coalesce (num_or_undefined (map_of (lr_pendingRowCounts record) (js_String resultSequence)))
               (if truthy (jget result ''dataList'')
                then Num (int (jlen (jget result ''dataList''))) else Undefined))
      in \<lparr>ro_id = lr_id record @ '':result:'' @ outputIdentity,
          ro_occurredAtEpochMs = coalesce (jget metrics ''finishedAtEpochMs'') (Num occurredAt),
          ro_resultKey = resultKey,
          ro_resultSequence = resultSequence,
          ro_success = (jget result ''success'' \<noteq> Bool False),
          ro_rowCount = rowCount,
          ro_updateCount = jget result ''updateCount'',
          ro_durationMs = jget metrics ''totalDurationMs'',
          ro_executionMetrics = metrics,
          ro_message = or_undefined (truncateMessage (text_of (jget result ''message'')))\<rparr>)"

section \<open>Records\<close>

definition createRecord ::
    "string \<Rightarrow> int option \<Rightarrow> int \<Rightarrow> string \<Rightarrow> string option \<Rightarrow> SqlExecutionLogContext \<Rightarrow> int
     \<Rightarrow> bool option \<Rightarrow> SqlExecutionLogRecord" where
  "createRecord executionId executionSequence statementSequence sql comment ctx startedAt temporary =
     \<lparr>lr_id = idFor executionId statementSequence,
      lr_executionId = executionId,
      lr_executionSequence = executionSequence,
      lr_statementSequence = statementSequence,
      lr_startedAtEpochMs = startedAt,
      lr_finishedAtEpochMs = None,
      lr_status = Running,
      lr_sql = sql,
      lr_comment = comment,
      lr_context = ctx,
      lr_outputs = [],
      lr_pendingRowCounts = [],
      lr_durationMs = None,
      lr_temporary = temporary\<rparr>"

definition addError :: "SqlExecutionLogRecord \<Rightarrow> jsval \<Rightarrow> int \<Rightarrow> SqlExecutionLogRecord" where
  "addError record err occurredAt =
     (let message = errorText err in
      if message \<noteq> []
      then appendMessage record (Obj [(''level'', Str ''ERROR''), (''message'', Str message)])
             occurredAt ''generated'' None
      else record)"

definition finishTerminal ::
    "SqlExecutionLogRecord \<Rightarrow> SqlExecutionEvent \<Rightarrow> int \<Rightarrow> SqlExecutionLogRecord" where
  "finishTerminal record event occurredAt =
     (let duration = max 0 (occurredAt - lr_startedAtEpochMs record) in
      if ev_eventType event = EvCancelled
      then record\<lparr>lr_temporary := Some False, lr_status := Cancelled,
             lr_outputs := filter (\<lambda>output. case output of
                 ResultOutput r \<Rightarrow> \<not> (\<not> ro_success r \<and> isCancellationMessage (ro_message r))
               | MessageOutput m \<Rightarrow> True) (lr_outputs record),
             lr_finishedAtEpochMs := Some occurredAt, lr_durationMs := Some duration\<rparr>
      else addError
             (record\<lparr>lr_temporary := Some False, lr_status := Failed,
                lr_finishedAtEpochMs := Some occurredAt, lr_durationMs := Some duration\<rparr>)
             (ev_message event) occurredAt)"

text \<open>The filter of \<open>setRecords\<close>, with its overflow counter.\<close>

fun evictFinished :: "nat \<Rightarrow> SqlExecutionLogRecord list \<Rightarrow> SqlExecutionLogRecord list" where
  "evictFinished overflow [] = []"
| "evictFinished overflow (r # rs) =
     (if 0 < overflow \<and> lr_status r \<noteq> Running then evictFinished (overflow - 1) rs
      else r # evictFinished overflow rs)"

definition setRecords ::
    "SqlExecutionLogState \<Rightarrow> SqlExecutionLogRecord list \<Rightarrow> SqlExecutionLogState" where
  "setRecords st rs =
     (if length rs \<le> MAX_RECORDS then st\<lparr>records := rs\<rparr>
      else st\<lparr>records := evictFinished (length rs - MAX_RECORDS) rs\<rparr>)"

definition updateRecord ::
    "SqlExecutionLogState \<Rightarrow> string option \<Rightarrow> (SqlExecutionLogRecord \<Rightarrow> SqlExecutionLogRecord option)
     \<Rightarrow> SqlExecutionLogState" where
  "updateRecord st i updater =
     (if \<not> truthy_str i then st
      else
        let changed = list_ex (\<lambda>r. Some (lr_id r) = i \<and> updater r \<noteq> None) (records st);
            rs = map (\<lambda>r. if Some (lr_id r) \<noteq> i then r else the_default r (updater r)) (records st)
        in if changed then setRecords st rs else st)"

definition latestRecord :: "SqlExecutionLogRecord list \<Rightarrow> string \<Rightarrow> SqlExecutionLogRecord option" where
  "latestRecord rs executionId = find_last (\<lambda>r. lr_executionId r = executionId) rs"

section \<open>Tracking executions\<close>

definition createSqlExecutionLogState :: SqlExecutionLogState where
  "createSqlExecutionLogState =
     \<lparr>records = [], activeExecutionIds = None, replacementExecutionId = None,
      replacementRequestSequence = None, supersededExecutionIds = None\<rparr>"

definition addExecutionId :: "string list option \<Rightarrow> string \<Rightarrow> string list option" where
  "addExecutionId executionIds executionId =
     (if executionId \<in> set (or_empty executionIds) then executionIds
      else Some (or_empty executionIds @ [executionId]))"

definition trackActiveExecution :: "SqlExecutionLogState \<Rightarrow> string \<Rightarrow> SqlExecutionLogState" where
  "trackActiveExecution st executionId =
     (let ids = addExecutionId (activeExecutionIds st) executionId in
      if ids = activeExecutionIds st then st else st\<lparr>activeExecutionIds := ids\<rparr>)"

definition finishActiveExecution :: "SqlExecutionLogState \<Rightarrow> string \<Rightarrow> SqlExecutionLogState" where
  "finishActiveExecution st executionId =
     (if executionId \<notin> set (or_empty (activeExecutionIds st)) then st
      else
        let ids = filter (\<lambda>a. a \<noteq> executionId) (or_empty (activeExecutionIds st))
        in st\<lparr>activeExecutionIds := (if ids \<noteq> [] then Some ids else None)\<rparr>)"

definition isSupersededExecution :: "SqlExecutionLogState \<Rightarrow> string \<Rightarrow> bool" where
  "isSupersededExecution st executionId \<longleftrightarrow>
     executionId \<in> set (or_empty (supersededExecutionIds st)) \<or>
     (truthy_str (replacementExecutionId st) \<and> replacementExecutionId st \<noteq> Some executionId)"

definition isSqlExecutionTracked :: "SqlExecutionLogState \<Rightarrow> string \<Rightarrow> bool" where
  "isSqlExecutionTracked st executionId \<longleftrightarrow>
     replacementExecutionId st = Some executionId \<or>
     executionId \<in> set (or_empty (activeExecutionIds st)) \<or>
     executionId \<in> set (or_empty (supersededExecutionIds st)) \<or>
     (\<exists>r \<in> set (records st). lr_executionId r = executionId)"

definition clearSqlExecutionLog :: "SqlExecutionLogState \<Rightarrow> SqlExecutionLogState" where
  "clearSqlExecutionLog st = st\<lparr>records :=
     map (\<lambda>r. r\<lparr>lr_outputs := []\<rparr>) (filter (\<lambda>r. lr_status r = Running) (records st))\<rparr>"

definition prepareSqlExecutionLogForExecution ::
    "SqlExecutionLogState \<Rightarrow> string \<Rightarrow> bool \<Rightarrow> SqlExecutionLogState" where
  "prepareSqlExecutionLogForExecution st executionId keepHistory =
     (if executionId \<in> set (or_empty (supersededExecutionIds st)) then st
      else
        let ids = addExecutionId (activeExecutionIds st) executionId in
        if keepHistory then
          if ids = activeExecutionIds st \<and> \<not> truthy_str (replacementExecutionId st) then st
          else st\<lparr>activeExecutionIds := ids, replacementExecutionId := None\<rparr>
        else if replacementExecutionId st = Some executionId then
          if ids = activeExecutionIds st then st else st\<lparr>activeExecutionIds := ids\<rparr>
        else
          let superseded = slice_last MAX_SUPERSEDED_EXECUTIONS (uniq
                (or_empty (supersededExecutionIds st)
                 @ filter (\<lambda>a. a \<noteq> executionId) (or_empty (activeExecutionIds st))
                 @ map lr_executionId (filter (\<lambda>r. lr_status r = Running \<and> lr_executionId r \<noteq> executionId)
                     (records st))))
          in st\<lparr>records := filter (\<lambda>r. lr_executionId r = executionId) (records st),
                activeExecutionIds := Some [executionId],
                replacementExecutionId := Some executionId,
                supersededExecutionIds := Some superseded\<rparr>)"

definition prepareDesktopSqlExecutionLogForRequest ::
    "SqlExecutionLogState \<Rightarrow> int \<Rightarrow> bool \<Rightarrow> SqlExecutionLogState" where
  "prepareDesktopSqlExecutionLogForRequest st requestSequence keepHistory =
     (if keepHistory then
        if truthy_str (replacementExecutionId st) then st\<lparr>replacementExecutionId := None\<rparr> else st
      else if requestSequence \<le> the_default 0 (replacementRequestSequence st) then st
      else
        let superseded = slice_last MAX_SUPERSEDED_EXECUTIONS (uniq
              (or_empty (supersededExecutionIds st)
               @ or_empty (activeExecutionIds st)
               @ map lr_executionId (filter (\<lambda>r. lr_status r = Running) (records st))))
        in st\<lparr>records := [], activeExecutionIds := None, replacementExecutionId := None,
              replacementRequestSequence := Some requestSequence,
              supersededExecutionIds := Some superseded\<rparr>)"

section \<open>Web executions\<close>

definition beginWebSqlExecution ::
    "SqlExecutionLogState \<Rightarrow> WebSqlExecutionParams \<Rightarrow> int \<Rightarrow> SqlExecutionLogState" where
  "beginWebSqlExecution st params now =
     (if isSupersededExecution st (wp_executionId params) then st
      else
        let tracked = trackActiveExecution st (wp_executionId params) in
        if \<exists>r \<in> set (records tracked). lr_executionId r = wp_executionId params then tracked
        else
          let startedAt = the_default now (wp_occurredAtEpochMs params) in
          setRecords tracked (records tracked @
            [createRecord (wp_executionId params) (wp_executionSequence params) 1 (wp_sql params) None
               (wp_context params) startedAt (Some True)]))"

text \<open>The grouping of results by statement sequence; \<open>index\<close> counts the results.\<close>

fun groupResults :: "nat \<Rightarrow> jsval list \<Rightarrow> (int \<times> jsval list) list \<Rightarrow> (int \<times> jsval list) list" where
  "groupResults index [] groups = groups"
| "groupResults index (result # rs) groups =
     (let sequence = the_default (int index + 1)
            (opt_or (num_opt (jget result ''statementSequence''))
               (num_opt (numeric (jget (jget result ''extra'') ''statementSequence''))))
      in groupResults (Suc index) rs
           (AList.update sequence (or_empty (map_of groups sequence) @ [result]) groups))"

text \<open>The outputs of one group, with the running message sequence.\<close>

fun webMessages ::
    "SqlExecutionLogRecord \<Rightarrow> int \<Rightarrow> nat \<Rightarrow> jsval list \<Rightarrow> SqlExecutionLogOutput list" where
  "webMessages record completedAt sequence [] = []"
| "webMessages record completedAt sequence (m # ms) =
     message_outputs (createMessageOutput record m completedAt ''web-result'' (string_of_nat sequence))
     @ webMessages record completedAt (Suc sequence) ms"

fun webOutputs ::
    "SqlExecutionLogRecord \<Rightarrow> int \<Rightarrow> nat \<Rightarrow> nat \<Rightarrow> jsval list \<Rightarrow> SqlExecutionLogOutput list" where
  "webOutputs record completedAt sequence resultIndex [] = []"
| "webOutputs record completedAt sequence resultIndex (result # rs) =
     (let messages = jarr (jget (jget result ''extra'') ''messages'') in
      webMessages record completedAt sequence messages
      @ ResultOutput (createResultOutput record result completedAt None (Some resultIndex))
      # webOutputs record completedAt (sequence + length messages) (Suc resultIndex) rs)"

definition webGroupRecord ::
    "WebSqlExecutionParams \<Rightarrow> SqlExecutionLogRecord option \<Rightarrow> int \<Rightarrow> int \<times> jsval list
     \<Rightarrow> SqlExecutionLogRecord" where
  "webGroupRecord params temporary completedAt grp =
     (case grp of (statementSequence, results) \<Rightarrow>
      let first = hd results;
          startedAt = the_default completedAt
            (opt_or (num_opt (jget (jget first ''executionMetrics'') ''startedAtEpochMs''))
               (map_option lr_startedAtEpochMs temporary));
          record = createRecord (wp_executionId params)
            (opt_or (wp_executionSequence params) (Option.bind temporary lr_executionSequence))
            statementSequence
            (str_or (str_opt (jget first ''originalSql'')) (wp_sql params))
            (str_opt (jget first ''comment''))
            (mergeExecutionContext (wp_context params) (jget first ''executionContext''))
            startedAt None;
          filled = appendOutputs record (webOutputs record completedAt 0 0 results);
          finishedAt = foldl (\<lambda>latest result. max latest
            (the_default 0 (num_opt (jget (jget result ''executionMetrics'') ''finishedAtEpochMs''))))
            completedAt results
      in filled\<lparr>
           lr_status := (if list_ex (\<lambda>result. jget result ''success'' = Bool False) results
                         then Failed else Success),
           lr_finishedAtEpochMs := Some finishedAt,
           lr_durationMs := Some (the_default (max 0 (finishedAt - startedAt)) (totalDuration results))\<rparr>)"

definition completeWebSqlExecution ::
    "SqlExecutionLogState \<Rightarrow> WebSqlExecutionParams \<Rightarrow> jsval list \<Rightarrow> int \<Rightarrow> SqlExecutionLogState" where
  "completeWebSqlExecution st params results now =
     (if isSupersededExecution st (wp_executionId params) then st
      else
        let completedAt = the_default now (wp_occurredAtEpochMs params);
            temporary = List.find (\<lambda>r. lr_executionId r = wp_executionId params
                          \<and> lr_temporary r = Some True) (records st)
        in if results = [] then
             finishActiveExecution
               (updateRecord st (map_option lr_id temporary) (\<lambda>r. Some (r\<lparr>
                  lr_temporary := Some False, lr_status := Success,
                  lr_finishedAtEpochMs := Some completedAt,
                  lr_durationMs := Some (max 0 (completedAt - lr_startedAtEpochMs r))\<rparr>)))
               (wp_executionId params)
           else
             finishActiveExecution
               (setRecords st
                  (filter (\<lambda>r. Some (lr_id r) \<noteq> map_option lr_id temporary) (records st)
                   @ map (webGroupRecord params temporary completedAt) (groupResults 0 results [])))
               (wp_executionId params))"

definition failWebSqlExecution ::
    "SqlExecutionLogState \<Rightarrow> WebSqlExecutionParams \<Rightarrow> jsval \<Rightarrow> int \<Rightarrow> SqlExecutionLogState" where
  "failWebSqlExecution st params err now =
     (if isSupersededExecution st (wp_executionId params) then st
      else
        let finishedAt = the_default now (wp_occurredAtEpochMs params);
            cancelled = isSqlExecutionCancellationError err;
            status = (if cancelled then Cancelled else Failed);
            withError = (\<lambda>r. if cancelled then r else addError r err finishedAt)
        in case latestRecord (records st) (wp_executionId params) of
             None \<Rightarrow>
               (let finished = (createRecord (wp_executionId params) (wp_executionSequence params) 1
                      (wp_sql params) None (wp_context params) finishedAt None)
                      \<lparr>lr_status := status, lr_finishedAtEpochMs := Some finishedAt, lr_durationMs := Some 0\<rparr>
                in finishActiveExecution (setRecords st (records st @ [withError finished]))
                     (wp_executionId params))
           | Some existing \<Rightarrow>
               finishActiveExecution
                 (updateRecord st (Some (lr_id existing)) (\<lambda>r. Some (withError (r\<lparr>
                    lr_temporary := Some False, lr_status := status,
                    lr_finishedAtEpochMs := Some finishedAt,
                    lr_durationMs := Some (max 0 (finishedAt - lr_startedAtEpochMs r))\<rparr>))))
                 (wp_executionId params))"

section \<open>Desktop events\<close>

definition addPendingRows :: "SqlExecutionEvent \<Rightarrow> SqlExecutionLogRecord \<Rightarrow> SqlExecutionLogRecord" where
  "addPendingRows event record =
     (let key = js_String (eventResultSequence event) in
      record\<lparr>lr_pendingRowCounts := AList.update key
        (the_default 0 (map_of (lr_pendingRowCounts record) key)
           + int (jlen (jget (ev_message event) ''dataList''))) (lr_pendingRowCounts record)\<rparr>)"

fun desktopMessages ::
    "SqlExecutionLogRecord \<Rightarrow> int \<Rightarrow> int \<Rightarrow> nat \<Rightarrow> jsval list \<Rightarrow> SqlExecutionLogOutput list" where
  "desktopMessages record occurredAt base index [] = []"
| "desktopMessages record occurredAt base index (m # ms) =
     message_outputs (createMessageOutput record m occurredAt ''desktop-result''
       (string_of_int base @ '':'' @ string_of_nat index))
     @ desktopMessages record occurredAt base (Suc index) ms"

definition recordResult ::
    "SqlExecutionEvent \<Rightarrow> int \<Rightarrow> SqlExecutionLogRecord \<Rightarrow> SqlExecutionLogRecord" where
  "recordResult event occurredAt record =
     (let contextual = record\<lparr>lr_context :=
            mergeExecutionContext (lr_context record) (jget (ev_message event) ''executionContext'')\<rparr>;
          base = the_default (nextMessageSequence contextual) (ev_eventSequence event);
          messages = desktopMessages contextual occurredAt base 0
            (jarr (jget (jget (ev_message event) ''extra'') ''messages''));
          resultOutput = createResultOutput contextual (ev_message event) occurredAt (Some event) None;
          duplicateFallbackEvent =
            startsWith (ro_id resultOutput) (lr_id contextual @ '':result:event:'')
            \<and> list_ex (\<lambda>output. output_id output = ro_id resultOutput) (lr_outputs contextual);
          next = (if duplicateFallbackEvent then contextual
                  else appendOutputs contextual (messages @ [ResultOutput resultOutput]))
      in if jget (ev_message event) ''success'' = Bool False then next\<lparr>lr_status := Failed\<rparr> else next)"

text \<open>The updater of the reducer, one equation per event type.\<close>

definition desktopUpdate ::
    "SqlExecutionEvent \<Rightarrow> int \<Rightarrow> SqlExecutionLogRecord \<Rightarrow> SqlExecutionLogRecord option" where
  "desktopUpdate event occurredAt record =
     (case ev_eventType event of
        EvResultStarted \<Rightarrow> Some (record\<lparr>lr_context :=
          mergeExecutionContext (lr_context record) (jget (ev_message event) ''executionContext'')\<rparr>)
      | EvRows \<Rightarrow> Some (addPendingRows event record)
      | EvMessage \<Rightarrow> appendMessage_ref record (ev_message event) occurredAt ''desktop-event''
          (ev_eventSequence event)
      | EvResultFinished \<Rightarrow> Some (recordResult event occurredAt record)
      | EvUpdateCount \<Rightarrow> Some (recordResult event occurredAt record)
      | EvStatementFinished \<Rightarrow> Some (record\<lparr>
          lr_status := (if lr_status record = Failed then Failed else Success),
          lr_finishedAtEpochMs := Some occurredAt,
          lr_durationMs := Some (the_default (max 0 (occurredAt - lr_startedAtEpochMs record))
            (num_opt (numeric (jget (ev_message event) ''duration''))))\<rparr>)
      | EvFailed \<Rightarrow> Some (finishTerminal record event occurredAt)
      | EvCancelled \<Rightarrow> Some (finishTerminal record event occurredAt)
      | EvFinished \<Rightarrow>
          (if lr_status record = Running
           then Some (record\<lparr>lr_status := Success, lr_finishedAtEpochMs := Some occurredAt,
                  lr_durationMs := Some (max 0 (occurredAt - lr_startedAtEpochMs record))\<rparr>)
           else None)
      | _ \<Rightarrow> None)"

text \<open>
  The event reducer. A result event reads \<open>event.message.extra\<close> without optional chaining,
  so a result event with an absent payload for a known record raises a \<open>TypeError\<close>.
\<close>

definition event_target :: "SqlExecutionLogState \<Rightarrow> SqlExecutionEvent \<Rightarrow> SqlExecutionLogRecord option" where
  "event_target tracked event =
     opt_or
       (case ev_statementSequence event of
          None \<Rightarrow> latestRecord (records tracked) (ev_executionId event)
        | Some s \<Rightarrow> List.find (\<lambda>r. lr_id r = idFor (ev_executionId event) s) (records tracked))
       (latestRecord (records tracked) (ev_executionId event))"

definition is_terminal_event :: "SqlExecutionEvent \<Rightarrow> bool" where
  "is_terminal_event event \<longleftrightarrow>
     ev_eventType event = EvFinished \<or> ev_eventType event = EvFailed \<or> ev_eventType event = EvCancelled"

definition reduceDesktopSqlExecutionEvent ::
    "SqlExecutionLogState \<Rightarrow> SqlExecutionEvent \<Rightarrow> SqlExecutionLogContext \<Rightarrow> int option \<Rightarrow> int
     \<Rightarrow> js_error + SqlExecutionLogState" where
  "reduceDesktopSqlExecutionEvent st event ctx executionSequence now =
     (if isSupersededExecution st (ev_executionId event) then Inr st
      else
        let tracked = trackActiveExecution st (ev_executionId event);
            occurredAt = the_default now (ev_occurredAtEpochMs event);
            statementSequence = the_default 1 (ev_statementSequence event);
            recordId = idFor (ev_executionId event) statementSequence;
            message = ev_message event
        in
        if ev_eventType event = EvStarted then Inr tracked
        else if ev_eventType event = EvStatementStarted then
          (if \<exists>r \<in> set (records tracked). lr_id r = recordId then Inr tracked
           else Inr (setRecords tracked (records tracked @
             [createRecord (ev_executionId event) executionSequence statementSequence
                (str_or (Some (text_of (jget message ''originalSql''))) (text_of (jget message ''sql'')))
                (or_undefined (text_of (jget message ''comment''))) ctx occurredAt None])))
        else case event_target tracked event of
          None \<Rightarrow>
            (if ev_eventType event = EvFailed \<or> ev_eventType event = EvCancelled then
               let record = createRecord (ev_executionId event) executionSequence statementSequence
                     [] None ctx occurredAt None
               in Inr (finishActiveExecution
                    (setRecords tracked (records tracked @ [finishTerminal record event occurredAt]))
                    (ev_executionId event))
             else if ev_eventType event = EvFinished
             then Inr (finishActiveExecution tracked (ev_executionId event))
             else Inr tracked)
        | Some target \<Rightarrow>
            (if (ev_eventType event = EvResultFinished \<or> ev_eventType event = EvUpdateCount)
                \<and> nullish message
             then Inl TypeError
             else
               let next = updateRecord tracked (Some (lr_id target)) (desktopUpdate event occurredAt)
               in Inr (if is_terminal_event event
                       then finishActiveExecution next (ev_executionId event) else next)))"

definition reduceDesktopSqlExecutionEventWithHistoryPreference ::
    "SqlExecutionLogState \<Rightarrow> SqlExecutionEvent \<Rightarrow> SqlExecutionLogContext \<Rightarrow> bool \<Rightarrow> int option
     \<Rightarrow> int option \<Rightarrow> int \<Rightarrow> js_error + SqlExecutionLogState" where
  "reduceDesktopSqlExecutionEventWithHistoryPreference st event ctx keepHistory requestSequence
       executionSequence now =
     (case requestSequence of
        Some n \<Rightarrow>
          (if (case replacementRequestSequence st of None \<Rightarrow> False | Some m \<Rightarrow> n < m) then Inr st
           else reduceDesktopSqlExecutionEvent st event ctx executionSequence now)
      | None \<Rightarrow>
          (let prepared =
             (if ev_eventType event = EvStarted \<or> \<not> isSqlExecutionTracked st (ev_executionId event)
              then prepareSqlExecutionLogForExecution st (ev_executionId event) keepHistory
              else st)
           in reduceDesktopSqlExecutionEvent prepared event ctx executionSequence now))"

end
