(* ===== verification/Log_Retention.thy ===== *)
theory Log_Retention
  imports Execution_Log
begin

text \<open>
  Retention in the execution log: which outputs of a record and which records survive the
  two limits of 200, and that an error is never lost to either.
\<close>

section \<open>The retention scan\<close>

lemma slice_last_0 [simp]: "slice_last 0 xs = []"
  by (simp add: slice_last_def)

lemma slice_last_snoc: "0 < n \<Longrightarrow> slice_last n (xs @ [x]) = slice_last (n - 1) xs @ [x]"
  by (cases "n \<le> length xs") (auto simp: slice_last_def Suc_diff_le)

lemma retainScan_pure:
  "retainScan m (\<lambda>_. P) k acc = slice_last (m - length acc) (filter P [0..<k]) @ acc"
proof (induction k arbitrary: acc)
  case 0
  then show ?case by (simp add: slice_last_def)
next
  case (Suc k)
  show ?case
  proof (cases "length acc < m")
    case True
    then have "0 < m - length acc" by simp
    from slice_last_snoc[OF this, of "filter P [0..<k]" k] show ?thesis
      using True by (simp add: Suc.IH)
  next
    case False
    then show ?thesis by simp
  qed
qed

lemma retainScan_fresh:
  assumes "\<forall>i < k. i \<in> set acc \<longleftrightarrow> i \<in> A"
  shows "retainScan m (\<lambda>a i. i \<notin> set a) k acc = retainScan m (\<lambda>_ i. i \<notin> A) k acc"
  using assms
proof (induction k arbitrary: acc)
  case 0
  then show ?case by simp
next
  case (Suc k)
  have "\<forall>i < k. i \<in> set (if k \<notin> set acc then k # acc else acc) \<longleftrightarrow> i \<in> A"
    using Suc.prems by auto
  from Suc.IH[OF this] Suc.prems show ?case by auto
qed

definition critical_indexes :: "SqlExecutionLogOutput list \<Rightarrow> nat list" where
  "critical_indexes outs = filter (\<lambda>i. isCriticalOutput (outs ! i)) [0..<length outs]"

definition retained_indexes :: "SqlExecutionLogOutput list \<Rightarrow> nat list" where
  "retained_indexes outs =
     (let crit = slice_last MAX_OUTPUTS_PER_RECORD (critical_indexes outs) in
      slice_last (MAX_OUTPUTS_PER_RECORD - length crit)
        (filter (\<lambda>i. i \<notin> set crit) [0..<length outs]) @ crit)"

lemma retainOutputs_eq:
  assumes "length outs > MAX_OUTPUTS_PER_RECORD"
  shows "retainOutputs outs = nths outs (set (retained_indexes outs))"
proof -
  let ?m = MAX_OUTPUTS_PER_RECORD
  have crit: "retainScan ?m (\<lambda>_ i. isCriticalOutput (outs ! i)) (length outs) []
      = slice_last ?m (critical_indexes outs)"
    by (simp add: retainScan_pure critical_indexes_def)
  have rest: "retainScan ?m (\<lambda>a i. i \<notin> set a) n acc
      = slice_last (?m - length acc) (filter (\<lambda>i. i \<notin> set acc) [0..<n]) @ acc" for n acc
    using retainScan_fresh[of n acc "set acc" ?m] by (simp add: retainScan_pure)
  from assms show ?thesis
    by (simp add: retainOutputs_def retained_indexes_def Let_def crit rest)
qed

lemma length_filter_critical:
  "length (filter isCriticalOutput outs) = length (critical_indexes outs)"
proof -
  have "set (critical_indexes outs) = {i. i < length outs \<and> isCriticalOutput (outs ! i)}"
    by (auto simp: critical_indexes_def)
  moreover have "distinct (critical_indexes outs)" by (simp add: critical_indexes_def)
  ultimately show ?thesis
    by (metis distinct_card length_filter_conv_card)
qed

lemma retained_indexes_less: "i \<in> set (retained_indexes outs) \<Longrightarrow> i < length outs"
  using set_slice_last_subset
  by (fastforce simp: retained_indexes_def critical_indexes_def Let_def)

lemma distinct_retained_indexes: "distinct (retained_indexes outs)"
proof -
  have "set (slice_last n (filter (\<lambda>i. i \<notin> A) xs)) \<inter> A = {}" for n and A :: "nat set" and xs
    using set_slice_last_subset[of n "filter (\<lambda>i. i \<notin> A) xs"] by auto
  then show ?thesis
    by (auto simp: retained_indexes_def critical_indexes_def Let_def distinct_slice_last)
qed

lemma length_retained_indexes:
  assumes "length outs > MAX_OUTPUTS_PER_RECORD"
  shows "length (retained_indexes outs) = MAX_OUTPUTS_PER_RECORD"
proof -
  let ?crit = "slice_last MAX_OUTPUTS_PER_RECORD (critical_indexes outs)"
  have sub: "set ?crit \<subseteq> set [0..<length outs]"
    using set_slice_last_subset[of _ "critical_indexes outs"] by (fastforce simp: critical_indexes_def)
  have d: "distinct ?crit" by (simp add: critical_indexes_def distinct_slice_last)
  have "set (filter (\<lambda>i. i \<notin> set ?crit) [0..<length outs]) = set [0..<length outs] - set ?crit" by auto
  then have "length (filter (\<lambda>i. i \<notin> set ?crit) [0..<length outs]) = card (set [0..<length outs] - set ?crit)"
    by (metis distinct_card distinct_filter distinct_upt)
  also have "\<dots> = length outs - length ?crit"
    using card_Diff_subset[OF finite_set sub] d by (simp add: distinct_card)
  finally show ?thesis
    using assms by (simp add: retained_indexes_def Let_def length_slice_last)
qed

lemma length_retainOutputs: "length (retainOutputs outs) = min MAX_OUTPUTS_PER_RECORD (length outs)"
proof (cases "length outs \<le> MAX_OUTPUTS_PER_RECORD")
  case True
  then show ?thesis by (simp add: retainOutputs_def)
next
  case False
  have "{i. i < length outs \<and> i \<in> set (retained_indexes outs)} = set (retained_indexes outs)"
    using retained_indexes_less by auto
  with False show ?thesis
    by (simp add: retainOutputs_eq length_nths distinct_card distinct_retained_indexes length_retained_indexes)
qed

lemma subseq_retainOutputs: "subseq (retainOutputs outs) outs"
proof (cases "length outs \<le> MAX_OUTPUTS_PER_RECORD")
  case True
  then show ?thesis by (simp add: retainOutputs_def)
next
  case False
  then show ?thesis unfolding subseq_conv_nths by (auto simp: retainOutputs_eq)
qed

lemma filter_nths_all:
  "(\<And>i. i < length xs \<Longrightarrow> P (xs ! i) \<Longrightarrow> i \<in> A) \<Longrightarrow> filter P (nths xs A) = filter P xs"
proof (induction xs arbitrary: A)
  case Nil
  then show ?case by simp
next
  case (Cons x xs)
  have "filter P (nths xs {j. Suc j \<in> A}) = filter P xs"
    using Cons.prems by (intro Cons.IH) fastforce
  moreover have "P x \<Longrightarrow> 0 \<in> A" using Cons.prems[of 0] by simp
  ultimately show ?case by (auto simp: nths_Cons)
qed

lemma retained_all_critical_kept:
  assumes "length (filter isCriticalOutput outs) \<le> MAX_OUTPUTS_PER_RECORD"
  shows "filter isCriticalOutput (retainOutputs outs) = filter isCriticalOutput outs"
proof (cases "length outs \<le> MAX_OUTPUTS_PER_RECORD")
  case True
  then show ?thesis by (simp add: retainOutputs_def)
next
  case False
  have "slice_last MAX_OUTPUTS_PER_RECORD (critical_indexes outs) = critical_indexes outs"
    using assms by (simp add: slice_last_all length_filter_critical)
  then have "i < length outs \<Longrightarrow> isCriticalOutput (outs ! i) \<Longrightarrow> i \<in> set (retained_indexes outs)" for i
    by (simp add: retained_indexes_def critical_indexes_def Let_def)
  with False show ?thesis by (simp add: retainOutputs_eq filter_nths_all)
qed

lemma retained_only_critical:
  assumes "length (filter isCriticalOutput outs) > MAX_OUTPUTS_PER_RECORD"
  shows "list_all isCriticalOutput (retainOutputs outs)"
proof -
  have len: "length outs > MAX_OUTPUTS_PER_RECORD"
    using assms length_filter_le order_less_le_trans by blast
  let ?crit = "slice_last MAX_OUTPUTS_PER_RECORD (critical_indexes outs)"
  have "length ?crit = MAX_OUTPUTS_PER_RECORD"
    using assms by (simp add: length_slice_last length_filter_critical)
  then have "retained_indexes outs = ?crit" by (simp add: retained_indexes_def Let_def)
  moreover have "set ?crit \<subseteq> {i. isCriticalOutput (outs ! i)}"
    using set_slice_last_subset[of _ "critical_indexes outs"] by (fastforce simp: critical_indexes_def)
  ultimately show ?thesis
    using len by (auto simp: retainOutputs_eq list_all_iff set_nths)
qed

text \<open>
  Retention of outputs. A record keeps at most 200 outputs, and exactly 200 of a longer
  list; the kept outputs stay in order; errors and failed results come first: all of them
  are kept while there are at most 200, and nothing else is kept when there are more.
\<close>

theorem retainOutputs_prefers_critical:
  "length (retainOutputs outs) = min 200 (length outs)
   \<and> subseq (retainOutputs outs) outs
   \<and> (length (filter isCriticalOutput outs) \<le> 200
        \<longrightarrow> filter isCriticalOutput (retainOutputs outs) = filter isCriticalOutput outs)
   \<and> (200 < length (filter isCriticalOutput outs)
        \<longrightarrow> list_all isCriticalOutput (retainOutputs outs))"
  using length_retainOutputs[of outs] subseq_retainOutputs[of outs]
    retained_all_critical_kept[of outs] retained_only_critical[of outs]
  by (simp add: MAX_OUTPUTS_PER_RECORD_def)

definition example_message :: "LogLevel \<Rightarrow> SqlExecutionLogOutput" where
  "example_message level = MessageOutput \<lparr>mo_id = ''m'', mo_occurredAtEpochMs = 0, mo_level = level,
     mo_message = ''text'', mo_errorCode = Undefined, mo_sqlState = Undefined, mo_source = Undefined\<rparr>"

theorem retainOutputs_prefers_critical_witness:
  "filter isCriticalOutput (retainOutputs (example_message ERROR # replicate 300 (example_message INFO)))
     = [example_message ERROR]
   \<and> length (retainOutputs (example_message ERROR # replicate 300 (example_message INFO))) = 200"
proof -
  let ?outs = "example_message ERROR # replicate 300 (example_message INFO)"
  have c: "filter isCriticalOutput ?outs = [example_message ERROR]"
    by (simp add: isCriticalOutput_def example_message_def filter_replicate)
  with retainOutputs_prefers_critical[of ?outs] show ?thesis by simp
qed

lemma last_critical_kept:
  assumes "isCriticalOutput x"
  shows "x \<in> set (retainOutputs (outs @ [x]))"
proof (cases "length (outs @ [x]) \<le> MAX_OUTPUTS_PER_RECORD")
  case True
  then show ?thesis by (simp add: retainOutputs_def)
next
  case False
  let ?all = "outs @ [x]"
  have "critical_indexes ?all = filter (\<lambda>i. isCriticalOutput (?all ! i)) [0..<length outs] @ [length outs]"
    using assms by (simp add: critical_indexes_def)
  then have "length outs \<in> set (slice_last MAX_OUTPUTS_PER_RECORD (critical_indexes ?all))"
    by (simp add: slice_last_snoc MAX_OUTPUTS_PER_RECORD_def)
  then have "length outs \<in> set (retained_indexes ?all)" by (simp add: retained_indexes_def Let_def)
  then have "?all ! length outs \<in> set (nths ?all (set (retained_indexes ?all)))"
    unfolding set_nths by force
  with False show ?thesis by (simp add: retainOutputs_eq)
qed

section \<open>Unique additions\<close>

lemma uniqueAdditions_subseq: "subseq (uniqueAdditions seen xs) xs"
  by (induction seen xs rule: uniqueAdditions.induct) auto

lemma uniqueAdditions_ids:
  "distinct (map output_id (uniqueAdditions seen xs))
   \<and> set (map output_id (uniqueAdditions seen xs)) = set (map output_id xs) - set seen"
  by (induction seen xs rule: uniqueAdditions.induct) auto

lemma subseq_map_distinct: "subseq xs ys \<Longrightarrow> distinct (map f ys) \<Longrightarrow> distinct (map f xs)"
  by (metis subseq_conv_nths nths_map distinct_nthsI)

definition outputs_ok :: "SqlExecutionLogOutput list \<Rightarrow> bool" where
  "outputs_ok outs \<longleftrightarrow> length outs \<le> MAX_OUTPUTS_PER_RECORD \<and> distinct (map output_id outs)"

lemma outputs_ok_Nil [simp]: "outputs_ok []"
  by (simp add: outputs_ok_def)

lemma outputs_ok_filter: "outputs_ok outs \<Longrightarrow> outputs_ok (filter P outs)"
  by (auto simp: outputs_ok_def distinct_map_filter intro: order_trans[OF length_filter_le])

lemma outputs_ok_retain:
  "distinct (map output_id outs) \<Longrightarrow> outputs_ok (retainOutputs outs)"
  using length_retainOutputs subseq_map_distinct[OF subseq_retainOutputs] by (simp add: outputs_ok_def)

lemma appendOutputs_ref_shape:
  assumes "outputs_ok (lr_outputs r)" and "appendOutputs_ref r xs = Some r'"
  shows "\<exists>outs. r' = r\<lparr>lr_outputs := outs\<rparr> \<and> outputs_ok outs"
proof -
  have "distinct (map output_id (lr_outputs r @ uniqueAdditions (map output_id (lr_outputs r)) xs))"
    using assms(1) uniqueAdditions_ids[of "map output_id (lr_outputs r)" xs]
    by (auto simp: outputs_ok_def)
  from outputs_ok_retain[OF this] assms(2) show ?thesis
    by (auto simp: appendOutputs_ref_def Let_def split: if_splits)
qed

lemma appendOutputs_shape:
  assumes "outputs_ok (lr_outputs r)"
  shows "\<exists>outs. appendOutputs r xs = r\<lparr>lr_outputs := outs\<rparr> \<and> outputs_ok outs"
proof (cases "appendOutputs_ref r xs")
  case None
  then have "appendOutputs r xs = r\<lparr>lr_outputs := lr_outputs r\<rparr>" by (simp add: appendOutputs_def)
  with assms show ?thesis by blast
next
  case (Some r')
  with appendOutputs_ref_shape[OF assms Some] show ?thesis by (simp add: appendOutputs_def)
qed

lemma appendMessage_ref_shape:
  assumes "outputs_ok (lr_outputs r)" and "appendMessage_ref r m t src n = Some r'"
  shows "\<exists>outs. r' = r\<lparr>lr_outputs := outs\<rparr> \<and> outputs_ok outs"
  using assms by (auto simp: appendMessage_ref_def dest!: appendOutputs_ref_shape split: option.splits)

lemma addError_shape:
  assumes "outputs_ok (lr_outputs r)"
  shows "\<exists>outs. addError r err t = r\<lparr>lr_outputs := outs\<rparr> \<and> outputs_ok outs"
proof (cases "addError r err t = r")
  case True
  then have "addError r err t = r\<lparr>lr_outputs := lr_outputs r\<rparr>" by simp
  with assms show ?thesis by blast
next
  case False
  then obtain m n where "appendMessage_ref r m t ''generated'' n = Some (addError r err t)"
    by (auto simp: addError_def appendMessage_def Let_def the_default_def split: if_splits option.splits)
  from appendMessage_ref_shape[OF assms this] show ?thesis .
qed

section \<open>Eviction of records\<close>

lemma evictFinished_subseq: "subseq (evictFinished k rs) rs"
  by (induction k rs rule: evictFinished.induct) auto

lemma evictFinished_running:
  "filter (\<lambda>r. lr_status r = Running) (evictFinished k rs) = filter (\<lambda>r. lr_status r = Running) rs"
  by (induction k rs rule: evictFinished.induct) auto

lemma evictFinished_length:
  "length (evictFinished k rs) = length rs - min k (length (filter (\<lambda>r. lr_status r \<noteq> Running) rs))"
proof (induction k rs rule: evictFinished.induct)
  case (2 k r rs)
  have "length (filter (\<lambda>r. lr_status r \<noteq> Running) rs) \<le> length rs" by simp
  then have "min k (length (filter (\<lambda>r. lr_status r \<noteq> Running) rs)) \<le> length rs" by (simp add: min.coboundedI2)
  with 2 show ?case
    by (cases "0 < k \<and> lr_status r \<noteq> Running"; cases k; auto simp: Suc_diff_le)
qed simp

lemma evictFinished_all_running:
  "list_all (\<lambda>r. lr_status r = Running) rs \<Longrightarrow> evictFinished k rs = rs"
  by (induction k rs rule: evictFinished.induct) auto

lemma evictFinished_dropped_finished:
  "k \<le> length (filter (\<lambda>r. lr_status r \<noteq> Running) rs) \<or> list_all (\<lambda>r. lr_status r = Running) (evictFinished k rs)"
  by (induction k rs rule: evictFinished.induct) auto

definition records_bounded :: "SqlExecutionLogRecord list \<Rightarrow> bool" where
  "records_bounded rs \<longleftrightarrow> length rs \<le> MAX_RECORDS \<or> list_all (\<lambda>r. lr_status r = Running) rs"

lemma setRecords_bounded: "records_bounded (records (setRecords st rs))"
proof (cases "length rs \<le> MAX_RECORDS")
  case True
  then show ?thesis by (simp add: setRecords_def records_bounded_def)
next
  case False
  with evictFinished_dropped_finished[of "length rs - MAX_RECORDS" rs] show ?thesis
    by (auto simp: setRecords_def records_bounded_def evictFinished_length min_def)
qed

lemma setRecords_subseq: "subseq (records (setRecords st rs)) rs"
  by (simp add: setRecords_def evictFinished_subseq)

lemma setRecords_same: "records_bounded rs \<Longrightarrow> setRecords st rs = st\<lparr>records := rs\<rparr>"
  by (auto simp: setRecords_def records_bounded_def evictFinished_all_running)

lemma setRecords_frame [simp]:
  "activeExecutionIds (setRecords st rs) = activeExecutionIds st"
  "replacementExecutionId (setRecords st rs) = replacementExecutionId st"
  "replacementRequestSequence (setRecords st rs) = replacementRequestSequence st"
  "supersededExecutionIds (setRecords st rs) = supersededExecutionIds st"
  by (simp_all add: setRecords_def)

lemma setRecords_running_kept:
  "r \<in> set rs \<Longrightarrow> lr_status r = Running \<Longrightarrow> r \<in> set (records (setRecords st rs))"
proof -
  assume "r \<in> set rs" "lr_status r = Running"
  then have "r \<in> set (filter (\<lambda>r. lr_status r = Running) rs)" by simp
  then have "r \<in> set (filter (\<lambda>r. lr_status r = Running) (evictFinished k rs))" for k
    by (simp only: evictFinished_running)
  with \<open>r \<in> set rs\<close> show ?thesis by (simp add: setRecords_def)
qed

text \<open>
  Eviction of records. The log keeps at most 200 records, and more only if every record
  it keeps is still running; a running record is never evicted, and the kept records stay in
  order. Only as many finished records are evicted as the limit asks for.
\<close>

theorem setRecords_evicts_only_finished:
  "subseq (records (setRecords st rs)) rs
   \<and> filter (\<lambda>r. lr_status r = Running) (records (setRecords st rs))
       = filter (\<lambda>r. lr_status r = Running) rs
   \<and> length (records (setRecords st rs))
       = max (min 200 (length rs)) (length (filter (\<lambda>r. lr_status r = Running) rs))"
proof -
  have split: "length rs = length (filter (\<lambda>r. lr_status r = Running) rs)
      + length (filter (\<lambda>r. lr_status r \<noteq> Running) rs)"
    by (rule sum_length_filter_compl[symmetric])
  show ?thesis
  proof (cases "length rs \<le> 200")
    case True
    with split show ?thesis by (simp add: setRecords_def MAX_RECORDS_def max_def)
  next
    case False
    then have "setRecords st rs = st\<lparr>records := evictFinished (length rs - 200) rs\<rparr>"
      by (simp add: setRecords_def MAX_RECORDS_def)
    moreover have "length rs - min (length rs - 200) (length (filter (\<lambda>r. lr_status r \<noteq> Running) rs))
        = max (min 200 (length rs)) (length (filter (\<lambda>r. lr_status r = Running) rs))"
      using False split by linarith
    ultimately show ?thesis
      by (simp add: evictFinished_subseq evictFinished_running evictFinished_length)
  qed
qed

end
