(* ===== verification/Log_Invariant.thy ===== *)
theory Log_Invariant
  imports Log_Retention
begin

text \<open>
  The invariant of the execution log: record ids name their statement and are distinct,
  outputs and records are bounded, and the lists of active and superseded executions have
  no repetition. Every operation keeps it, so it holds in every state the log can reach.
\<close>

section \<open>The invariant\<close>

definition wf_record :: "SqlExecutionLogRecord \<Rightarrow> bool" where
  "wf_record r \<longleftrightarrow> lr_id r = idFor (lr_executionId r) (lr_statementSequence r) \<and> outputs_ok (lr_outputs r)"

definition ids_ok :: "SqlExecutionLogState \<Rightarrow> bool" where
  "ids_ok st \<longleftrightarrow> distinct (or_empty (activeExecutionIds st)) \<and>
     distinct (or_empty (supersededExecutionIds st)) \<and>
     length (or_empty (supersededExecutionIds st)) \<le> MAX_SUPERSEDED_EXECUTIONS"

definition records_ok :: "SqlExecutionLogRecord list \<Rightarrow> bool" where
  "records_ok rs \<longleftrightarrow> (\<forall>r \<in> set rs. wf_record r) \<and> distinct (map lr_id rs)"

definition wf_log :: "SqlExecutionLogState \<Rightarrow> bool" where
  "wf_log st \<longleftrightarrow> records_ok (records st) \<and> records_bounded (records st) \<and> ids_ok st"

lemmas wf_log_defs = wf_log_def records_ok_def ids_ok_def

lemma records_ok_subseq: "subseq xs ys \<Longrightarrow> records_ok ys \<Longrightarrow> records_ok xs"
  using subseq_map_distinct set_nths_subset
  by (metis (no_types, lifting) records_ok_def subseq_conv_nths in_mono)

lemma records_ok_filter: "records_ok rs \<Longrightarrow> records_ok (filter P rs)"
  using records_ok_subseq subseq_filter_left by blast

lemma records_bounded_filter: "records_bounded rs \<Longrightarrow> records_bounded (filter P rs)"
  by (auto simp: records_bounded_def list_all_iff intro: order_trans[OF length_filter_le])

lemma wf_setRecords:
  "ids_ok st \<Longrightarrow> records_ok rs \<Longrightarrow> wf_log (setRecords st rs)"
  using records_ok_subseq[OF setRecords_subseq] setRecords_bounded
  by (simp add: wf_log_def ids_ok_def)

text \<open>An updater that keeps the identity of a record and its well-formedness.\<close>

definition wf_updater :: "(SqlExecutionLogRecord \<Rightarrow> SqlExecutionLogRecord option) \<Rightarrow> bool" where
  "wf_updater u \<longleftrightarrow> (\<forall>r r'. wf_record r \<longrightarrow> u r = Some r' \<longrightarrow>
     wf_record r' \<and> lr_id r' = lr_id r \<and> lr_executionId r' = lr_executionId r)"

lemma wf_updaterD:
  "wf_updater u \<Longrightarrow> wf_record r \<Longrightarrow>
   wf_record (the_default r (u r)) \<and> lr_id (the_default r (u r)) = lr_id r
   \<and> lr_executionId (the_default r (u r)) = lr_executionId r"
  unfolding wf_updater_def by (cases "u r"; simp only: the_default_simps; blast)

definition apply_update ::
    "string \<Rightarrow> (SqlExecutionLogRecord \<Rightarrow> SqlExecutionLogRecord option) \<Rightarrow> SqlExecutionLogRecord \<Rightarrow> SqlExecutionLogRecord" where
  "apply_update i u r = (if lr_id r \<noteq> i then r else the_default r (u r))"

lemma updateRecord_cases:
  "updateRecord st i u = st \<or>
   (\<exists>j. i = Some j \<and> updateRecord st i u = setRecords st (map (apply_update j u) (records st)))"
proof (cases i)
  case None
  then show ?thesis by (simp add: updateRecord_def)
next
  case (Some j)
  have "(\<lambda>r. if Some (lr_id r) \<noteq> Some j then r else the_default r (u r)) = apply_update j u"
    by (simp add: fun_eq_iff apply_update_def)
  with Some show ?thesis by (simp add: updateRecord_def Let_def)
qed

lemma records_ok_update:
  assumes "wf_updater u" and "records_ok rs"
  shows "records_ok (map (apply_update j u) rs)"
proof -
  have f: "wf_record (apply_update j u r) \<and> lr_id (apply_update j u r) = lr_id r" if "r \<in> set rs" for r
    using that assms wf_updaterD[of u r] by (auto simp: apply_update_def records_ok_def)
  then have "map lr_id (map (apply_update j u) rs) = map lr_id rs" by simp
  with f assms(2) show ?thesis by (simp add: records_ok_def del: map_map)
qed

lemma wf_updateRecord:
  assumes "wf_log st" and "wf_updater u"
  shows "wf_log (updateRecord st i u)"
  using updateRecord_cases[of st i u] assms records_ok_update[OF assms(2)] wf_setRecords
  by (auto simp: wf_log_def)

section \<open>The operations keep the invariant\<close>

lemma ids_ok_track: "ids_ok st \<Longrightarrow> ids_ok (trackActiveExecution st e)"
  by (auto simp: ids_ok_def trackActiveExecution_def addExecutionId_def Let_def)

lemma records_track [simp]: "records (trackActiveExecution st e) = records st"
  by (simp add: trackActiveExecution_def Let_def)

lemma wf_track [log_inv]: "wf_log st \<Longrightarrow> wf_log (trackActiveExecution st e)"
  by (simp add: wf_log_def ids_ok_track)

lemma records_finishActive [simp]: "records (finishActiveExecution st e) = records st"
  by (simp add: finishActiveExecution_def Let_def)

lemma wf_finishActive [log_inv]: "wf_log st \<Longrightarrow> wf_log (finishActiveExecution st e)"
  by (auto simp: wf_log_def ids_ok_def finishActiveExecution_def Let_def)

lemma wf_clear [log_inv]: "wf_log st \<Longrightarrow> wf_log (clearSqlExecutionLog st)"
proof -
  assume wf: "wf_log st"
  let ?f = "\<lambda>r. r\<lparr>lr_outputs := []\<rparr>"
  let ?run = "filter (\<lambda>r. lr_status r = Running) (records st)"
  have "records_ok ?run" using wf by (simp add: wf_log_def records_ok_filter)
  then have "records_ok (map ?f ?run)"
    by (auto simp: records_ok_def wf_record_def comp_def)
  moreover have "records_bounded (map ?f ?run)" by (auto simp: records_bounded_def list_all_iff)
  ultimately show ?thesis using wf by (simp add: wf_log_def clearSqlExecutionLog_def ids_ok_def)
qed

lemma wf_prepare [log_inv]:
  "wf_log st \<Longrightarrow> wf_log (prepareSqlExecutionLogForExecution st e keep)"
  by (auto simp: wf_log_def ids_ok_def prepareSqlExecutionLogForExecution_def addExecutionId_def Let_def
      records_ok_filter records_bounded_filter distinct_slice_last length_slice_last)

lemma wf_prepareDesktop [log_inv]:
  "wf_log st \<Longrightarrow> wf_log (prepareDesktopSqlExecutionLogForRequest st n keep)"
  by (auto simp: wf_log_def ids_ok_def records_ok_def records_bounded_def
      prepareDesktopSqlExecutionLogForRequest_def Let_def distinct_slice_last length_slice_last)

lemma wf_createRecord [simp]: "wf_record (createRecord e es s sql c ctx t tmp)"
  by (simp add: wf_record_def createRecord_def)

lemma createRecord_sel [simp]:
  "lr_id (createRecord e es s sql c ctx t tmp) = idFor e s"
  "lr_executionId (createRecord e es s sql c ctx t tmp) = e"
  "lr_statementSequence (createRecord e es s sql c ctx t tmp) = s"
  "lr_outputs (createRecord e es s sql c ctx t tmp) = []"
  "lr_status (createRecord e es s sql c ctx t tmp) = Running"
  by (simp_all add: createRecord_def)

lemma records_ok_snoc:
  assumes "records_ok rs" and "wf_record r" and "\<forall>x \<in> set rs. lr_id x \<noteq> lr_id r"
  shows "records_ok (rs @ [r])"
  using assms by (auto simp: records_ok_def)

lemma fresh_execution_id:
  assumes "records_ok rs" and "\<forall>x \<in> set rs. lr_executionId x \<noteq> e" and "x \<in> set rs"
  shows "lr_id x \<noteq> idFor e s"
  using assms by (auto simp: records_ok_def wf_record_def)

lemma latestRecord_None: "latestRecord rs e = None \<Longrightarrow> \<forall>x \<in> set rs. lr_executionId x \<noteq> e"
  by (simp add: latestRecord_def find_None_conv)

lemma latestRecord_Some: "latestRecord rs e = Some r \<Longrightarrow> r \<in> set rs \<and> lr_executionId r = e"
  unfolding latestRecord_def using find_SomeD by fastforce

lemma wf_begin [log_inv]: "wf_log st \<Longrightarrow> wf_log (beginWebSqlExecution st p now)"
proof -
  assume wf: "wf_log st"
  have "\<forall>x \<in> set (records st). lr_executionId x \<noteq> wp_executionId p \<Longrightarrow>
      records_ok (records st @ [createRecord (wp_executionId p) es 1 sql c ctx t tmp])" for es sql c ctx t tmp
    using wf fresh_execution_id by (intro records_ok_snoc) (auto simp: wf_log_def)
  then show ?thesis
    using wf wf_track[OF wf] by (auto simp: beginWebSqlExecution_def Let_def wf_log_def
        intro!: wf_setRecords[unfolded wf_log_def])
qed

lemma wf_addError:
  assumes "wf_record r"
  shows "wf_record (addError r err t) \<and> lr_id (addError r err t) = lr_id r
     \<and> lr_executionId (addError r err t) = lr_executionId r \<and> lr_status (addError r err t) = lr_status r"
  using assms addError_shape[of r err t] by (auto simp: wf_record_def)

lemma wf_finishTerminal:
  assumes "wf_record r"
  shows "wf_record (finishTerminal r ev t) \<and> lr_id (finishTerminal r ev t) = lr_id r
     \<and> lr_executionId (finishTerminal r ev t) = lr_executionId r"
proof (cases "ev_eventType ev = EvCancelled")
  case True
  with assms show ?thesis by (auto simp: finishTerminal_def Let_def wf_record_def outputs_ok_filter)
next
  case False
  let ?r = "r\<lparr>lr_temporary := Some False, lr_status := Failed, lr_finishedAtEpochMs := Some t,
     lr_durationMs := Some (max 0 (t - lr_startedAtEpochMs r))\<rparr>"
  have "wf_record ?r" using assms by (simp add: wf_record_def)
  from wf_addError[OF this, of "ev_message ev" t] False show ?thesis
    by (simp add: finishTerminal_def Let_def)
qed

lemma wf_fail [log_inv]: "wf_log st \<Longrightarrow> wf_log (failWebSqlExecution st p err now)"
proof -
  assume wf: "wf_log st"
  let ?e = "wp_executionId p"
  let ?t = "the_default now (wp_occurredAtEpochMs p)"
  let ?c = "isSqlExecutionCancellationError err"
  let ?w = "\<lambda>r. if ?c then r else addError r err ?t"
  have w: "wf_record (?w r) \<and> lr_id (?w r) = lr_id r \<and> lr_executionId (?w r) = lr_executionId r"
    if "wf_record r" for r
    using wf_addError[OF that] that by auto
  show ?thesis
  proof (cases "latestRecord (records st) ?e")
    case None
    let ?r = "(createRecord ?e (wp_executionSequence p) 1 (wp_sql p) None (wp_context p) ?t None)
       \<lparr>lr_status := if ?c then Cancelled else Failed, lr_finishedAtEpochMs := Some ?t, lr_durationMs := Some 0\<rparr>"
    have r: "wf_record ?r" "lr_id ?r = idFor ?e 1" by (simp_all add: wf_record_def)
    have "records_ok (records st @ [?w ?r])"
      using wf w[OF r(1)] r(2) fresh_execution_id[OF _ latestRecord_None[OF None]]
      by (intro records_ok_snoc) (auto simp: wf_log_def)
    with wf have "wf_log (setRecords st (records st @ [?w ?r]))"
      by (intro wf_setRecords) (simp_all add: wf_log_def)
    with None wf show ?thesis
      by (simp add: failWebSqlExecution_def Let_def wf_finishActive)
  next
    case (Some x)
    let ?u = "\<lambda>r. r\<lparr>lr_temporary := Some False,
         lr_status := if ?c then Cancelled else Failed, lr_finishedAtEpochMs := Some ?t,
         lr_durationMs := Some (max 0 (?t - lr_startedAtEpochMs r))\<rparr>"
    have u: "wf_record r \<Longrightarrow> wf_record (?u r)" for r by (simp add: wf_record_def)
    have "wf_updater (\<lambda>r. Some (?w (?u r)))"
      unfolding wf_updater_def using w[OF u] by (simp del: if_split_asm)
    from wf_updateRecord[OF wf this] Some wf show ?thesis
      by (simp add: failWebSqlExecution_def Let_def wf_finishActive)
  qed
qed

subsection \<open>Completing a web execution\<close>

lemma appendOutputs_sel [simp]:
  "lr_id (appendOutputs r xs) = lr_id r"
  "lr_executionId (appendOutputs r xs) = lr_executionId r"
  "lr_statementSequence (appendOutputs r xs) = lr_statementSequence r"
  "lr_status (appendOutputs r xs) = lr_status r"
  by (simp_all add: appendOutputs_def appendOutputs_ref_def Let_def the_default_def)

lemma outputs_ok_appendOutputs:
  "outputs_ok (lr_outputs r) \<Longrightarrow> outputs_ok (lr_outputs (appendOutputs r xs))"
  using appendOutputs_shape[of r xs] by auto

lemma groupResults_distinct:
  "distinct (map fst groups) \<Longrightarrow> distinct (map fst (groupResults n rs groups))"
  by (induction n rs groups rule: groupResults.induct) (simp_all add: Let_def distinct_update)

lemma webGroupRecord_identity:
  "wf_record (webGroupRecord p tmp t grp) \<and> lr_executionId (webGroupRecord p tmp t grp) = wp_executionId p
   \<and> lr_id (webGroupRecord p tmp t grp) = idFor (wp_executionId p) (fst grp)"
  by (cases grp) (simp add: webGroupRecord_def Let_def wf_record_def outputs_ok_appendOutputs)

text \<open>
  What the caller of \<open>completeWebSqlExecution\<close> provides: the only record of the execution is
  the temporary one that \<open>beginWebSqlExecution\<close> made.
\<close>

definition only_temporary :: "SqlExecutionLogState \<Rightarrow> string \<Rightarrow> bool" where
  "only_temporary st e \<longleftrightarrow> (\<forall>r \<in> set (records st). lr_executionId r = e \<longrightarrow>
     lr_temporary r = Some True \<and> lr_statementSequence r = 1)"

lemma only_temporary_removed:
  assumes "records_ok (records st)" and "only_temporary st e"
    and "tmp = List.find (\<lambda>r. lr_executionId r = e \<and> lr_temporary r = Some True) (records st)"
    and "r \<in> set (records st)" and "Some (lr_id r) \<noteq> map_option lr_id tmp"
  shows "lr_executionId r \<noteq> e"
proof
  assume e: "lr_executionId r = e"
  with assms(1,2,4) have r: "lr_id r = idFor e 1" "lr_temporary r = Some True"
    by (auto simp: only_temporary_def records_ok_def wf_record_def)
  have "tmp \<noteq> None" unfolding assms(3) find_None_conv using r e assms(4) by auto
  then obtain t where t: "tmp = Some t" by auto
  with assms(3) have "t \<in> set (records st)" "lr_executionId t = e"
    using find_SomeD[of _ "records st" t] by auto
  with assms(1,2) have "lr_id t = idFor e 1"
    by (auto simp: only_temporary_def records_ok_def wf_record_def)
  with r t assms(5) show False by simp
qed

lemma wf_complete [log_inv]:
  assumes wf: "wf_log st" and only: "only_temporary st (wp_executionId p)"
  shows "wf_log (completeWebSqlExecution st p results now)"
proof -
  let ?e = "wp_executionId p"
  let ?t = "the_default now (wp_occurredAtEpochMs p)"
  define tmp where "tmp = List.find (\<lambda>r. lr_executionId r = ?e \<and> lr_temporary r = Some True) (records st)"
  let ?keep = "filter (\<lambda>r. Some (lr_id r) \<noteq> map_option lr_id tmp) (records st)"
  let ?new = "map (webGroupRecord p tmp ?t) (groupResults 0 results [])"
  have ok: "records_ok (records st)" using wf by (simp add: wf_log_def)
  have "wf_updater (\<lambda>r. Some (r\<lparr>lr_temporary := Some False, lr_status := Success,
      lr_finishedAtEpochMs := Some ?t, lr_durationMs := Some (max 0 (?t - lr_startedAtEpochMs r))\<rparr>))"
    by (simp add: wf_updater_def wf_record_def)
  note empty = wf_finishActive[OF wf_updateRecord[OF wf this]]
  have keep: "records_ok ?keep" using ok by (rule records_ok_filter)
  have old: "\<forall>r \<in> set ?keep. lr_executionId r \<noteq> ?e"
    using only_temporary_removed[OF ok only tmp_def] by auto
  have "distinct (map fst (groupResults 0 results []))" by (simp add: groupResults_distinct)
  then have "distinct (map (\<lambda>g. idFor ?e (fst g)) (groupResults 0 results []))"
    by (simp add: distinct_map inj_on_def)
  then have "distinct (map lr_id ?new)" by (simp add: comp_def webGroupRecord_identity)
  then have new: "records_ok ?new" by (auto simp: records_ok_def webGroupRecord_identity)
  have "lr_id r \<noteq> lr_id r'" if "r \<in> set ?keep" "r' \<in> set ?new" for r r'
  proof -
    from that(2) obtain g where "lr_id r' = idFor ?e (fst g)" using webGroupRecord_identity by auto
    with fresh_execution_id[OF keep old that(1)] show ?thesis by simp
  qed
  then have "records_ok (?keep @ ?new)" using keep new by (auto simp: records_ok_def)
  then have "wf_log (setRecords st (?keep @ ?new))"
    using wf by (intro wf_setRecords) (simp_all add: wf_log_def)
  with wf empty show ?thesis
    by (simp add: completeWebSqlExecution_def Let_def tmp_def[symmetric] wf_finishActive)
qed

subsection \<open>Desktop events\<close>

lemma appendMessage_ref_sel:
  assumes "appendMessage_ref r m t src n = Some r'"
  shows "lr_id r' = lr_id r \<and> lr_executionId r' = lr_executionId r
     \<and> lr_statementSequence r' = lr_statementSequence r \<and> lr_status r' = lr_status r"
  using assms by (auto simp: appendMessage_ref_def appendOutputs_ref_def Let_def split: option.splits if_splits)

lemma recordResult_sel:
  "lr_id (recordResult ev t r) = lr_id r"
  "lr_executionId (recordResult ev t r) = lr_executionId r"
  "lr_statementSequence (recordResult ev t r) = lr_statementSequence r"
  "outputs_ok (lr_outputs r) \<Longrightarrow> outputs_ok (lr_outputs (recordResult ev t r))"
  by (simp_all add: recordResult_def Let_def outputs_ok_appendOutputs)

lemma wf_desktopUpdate: "wf_updater (desktopUpdate ev t)"
  unfolding wf_updater_def
proof (intro allI impI)
  fix r r'
  assume wf: "wf_record r" and u: "desktopUpdate ev t r = Some r'"
  show "wf_record r' \<and> lr_id r' = lr_id r \<and> lr_executionId r' = lr_executionId r"
  proof (cases "ev_eventType ev")
    case EvMessage
    with u have "appendMessage_ref r (ev_message ev) t ''desktop-event'' (ev_eventSequence ev) = Some r'"
      by (simp add: desktopUpdate_def)
    from appendMessage_ref_shape[OF _ this] appendMessage_ref_sel[OF this] wf show ?thesis
      by (auto simp: wf_record_def)
  next
    case EvFailed
    with u wf_finishTerminal[OF wf, of ev t] show ?thesis by (simp add: desktopUpdate_def)
  next
    case EvCancelled
    with u wf_finishTerminal[OF wf, of ev t] show ?thesis by (simp add: desktopUpdate_def)
  qed (use u wf in \<open>auto simp: desktopUpdate_def wf_record_def recordResult_sel addPendingRows_def Let_def
        split: if_splits\<close>)
qed

lemma event_target_None: "event_target st ev = None \<Longrightarrow> \<forall>x \<in> set (records st). lr_executionId x \<noteq> ev_executionId ev"
  by (auto simp: event_target_def opt_or_def split: option.splits dest: latestRecord_None)

lemma event_target_Some:
  assumes "records_ok (records st)" and "event_target st ev = Some r"
  shows "r \<in> set (records st) \<and> lr_executionId r = ev_executionId ev"
proof -
  have "r \<in> set (records st) \<and> lr_executionId r = ev_executionId ev"
    if "List.find (\<lambda>r. lr_id r = idFor (ev_executionId ev) s) (records st) = Some r" for s
    using find_SomeD[OF that] assms(1) by (auto simp: records_ok_def wf_record_def)
  with assms(2) show ?thesis
    using latestRecord_Some[of "records st" "ev_executionId ev" r]
    by (auto simp: event_target_def opt_or_def split: option.splits)
qed

lemma wf_reduce [log_inv]:
  assumes wf: "wf_log st" and red: "reduceDesktopSqlExecutionEvent st ev ctx es now = Inr st'"
  shows "wf_log st'"
proof -
  let ?tr = "trackActiveExecution st (ev_executionId ev)"
  let ?t = "the_default now (ev_occurredAtEpochMs ev)"
  let ?s = "the_default 1 (ev_statementSequence ev)"
  have tr: "wf_log ?tr" "ids_ok ?tr" "records_ok (records ?tr)"
    using wf_track[OF wf] by (simp_all add: wf_log_def)
  have started: "wf_log (setRecords ?tr (records st @
      [createRecord (ev_executionId ev) es ?s sql c ctx ?t None]))"
    if "\<not> (\<exists>r \<in> set (records st). lr_id r = idFor (ev_executionId ev) ?s)" for sql c
    using tr that by (intro wf_setRecords records_ok_snoc) auto
  have failed: "wf_log (setRecords ?tr (records st @
      [finishTerminal (createRecord (ev_executionId ev) es ?s [] None ctx ?t None) ev ?t]))"
    if "event_target ?tr ev = None"
    using tr fresh_execution_id[OF tr(3) event_target_None[OF that]]
      wf_finishTerminal[OF wf_createRecord, of _ _ _ _ _ _ _ _ ev ?t]
    by (intro wf_setRecords records_ok_snoc) auto
  have upd: "wf_log (updateRecord ?tr i (desktopUpdate ev ?t))" for i
    by (rule wf_updateRecord[OF tr(1) wf_desktopUpdate])
  from red wf show ?thesis
    by (auto simp: reduceDesktopSqlExecutionEvent_def Let_def tr(1) upd
        intro: started failed wf_finishActive split: if_splits option.splits)
qed

lemma wf_reducePreference [log_inv]:
  assumes "wf_log st"
    and "reduceDesktopSqlExecutionEventWithHistoryPreference st ev ctx keep rq es now = Inr st'"
  shows "wf_log st'"
  using assms wf_reduce wf_prepare
  by (fastforce simp: reduceDesktopSqlExecutionEventWithHistoryPreference_def Let_def
      split: option.splits if_splits)

section \<open>Reachable states\<close>

inductive log_step :: "SqlExecutionLogState \<Rightarrow> SqlExecutionLogState \<Rightarrow> bool" where
  log_clear: "log_step st (clearSqlExecutionLog st)"
| log_prepare: "log_step st (prepareSqlExecutionLogForExecution st e keep)"
| log_prepareDesktop: "log_step st (prepareDesktopSqlExecutionLogForRequest st n keep)"
| log_begin: "log_step st (beginWebSqlExecution st p now)"
| log_complete: "only_temporary st (wp_executionId p) \<Longrightarrow>
    log_step st (completeWebSqlExecution st p results now)"
| log_fail: "log_step st (failWebSqlExecution st p err now)"
| log_event: "reduceDesktopSqlExecutionEvent st ev ctx es now = Inr st' \<Longrightarrow> log_step st st'"
| log_event_preference:
    "reduceDesktopSqlExecutionEventWithHistoryPreference st ev ctx keep rq es now = Inr st' \<Longrightarrow>
     log_step st st'"

inductive log_reachable :: "SqlExecutionLogState \<Rightarrow> bool" where
  log_start: "log_reachable createSqlExecutionLogState"
| log_next: "log_reachable st \<Longrightarrow> log_step st st' \<Longrightarrow> log_reachable st'"

lemma wf_step: "log_step st st' \<Longrightarrow> wf_log st \<Longrightarrow> wf_log st'"
  by (induction rule: log_step.induct) (blast intro: log_inv)+

lemma wf_reachable: "log_reachable st \<Longrightarrow> wf_log st"
proof (induction rule: log_reachable.induct)
  case log_start
  show ?case
    by (simp add: wf_log_defs records_bounded_def createSqlExecutionLogState_def)
next
  case (log_next st st')
  then show ?case by (blast intro: wf_step)
qed

end
