(* ===== verification/Log_Properties.thy ===== *)
theory Log_Properties
  imports Log_Invariant
begin

text \<open>
  What the SQL execution log promises to its users: the invariant in every reachable
  state, isolation between executions, replacement of earlier executions, errors that are
  never lost, and replayed messages that change nothing.
\<close>

section \<open>Example data for the witnesses\<close>

definition example_context :: SqlExecutionLogContext where
  "example_context = \<lparr>ctx_dataSourceId = Some 1, ctx_dataSourceName = None, ctx_databaseType = None,
     ctx_databaseName = None, ctx_schemaName = None\<rparr>"

definition example_event :: "string \<Rightarrow> SqlExecutionEventType \<Rightarrow> int option \<Rightarrow> jsval \<Rightarrow> SqlExecutionEvent" where
  "example_event e ty n m = \<lparr>ev_executionId = e, ev_eventSequence = n, ev_occurredAtEpochMs = Some 10,
     ev_eventType = ty, ev_statementSequence = Some 1, ev_resultSequence = None, ev_resultKey = None,
     ev_message = m\<rparr>"

definition example_record :: "string \<Rightarrow> SqlExecutionLogRecord" where
  "example_record e = createRecord e None 1 ''select 1'' None example_context 10 None"

definition example_log :: SqlExecutionLogState where
  "example_log = \<lparr>records = [example_record ''a''], activeExecutionIds = Some [''a''],
     replacementExecutionId = None, replacementRequestSequence = None, supersededExecutionIds = None\<rparr>"

lemma example_log_step:
  "reduceDesktopSqlExecutionEvent createSqlExecutionLogState
     (example_event ''a'' EvStatementStarted None (Obj [(''sql'', Str ''select 1'')])) example_context None 0
   = Inr example_log"
  by (simp add: reduceDesktopSqlExecutionEvent_def createSqlExecutionLogState_def isSupersededExecution_def
      trackActiveExecution_def addExecutionId_def example_event_def example_log_def example_record_def
      setRecords_def MAX_RECORDS_def str_or_def or_undefined_def Let_def)

lemma example_log_reachable: "log_reachable example_log"
  using log_next[OF log_start log_event[OF example_log_step]] .

lemma example_log_wf: "wf_log example_log"
  by (rule wf_reachable[OF example_log_reachable])

section \<open>Invariant\<close>

text \<open>
  C2: In every state the log can reach, record ids are distinct, each record has at most
  200 outputs with distinct ids, the log holds at most 200 records or, when more than 200
  statements run at once, as many as are running and only those, no execution is listed
  as active twice, and at most 200 superseded executions are remembered, each once.
  Reachable are the states after any sequence of the log's operations in which a web
  execution is completed only while its temporary record is the only record it has, which
  is how the caller completes it.
\<close>

theorem log_reachable_bounded:
  assumes "log_reachable st"
  shows "distinct (map lr_id (records st))
     \<and> (\<forall>r \<in> set (records st). length (lr_outputs r) \<le> 200 \<and> distinct (map output_id (lr_outputs r)))
     \<and> length (records st) \<le> max 200 (length (filter (\<lambda>r. lr_status r = Running) (records st)))
     \<and> distinct (or_empty (activeExecutionIds st))
     \<and> distinct (or_empty (supersededExecutionIds st))
     \<and> length (or_empty (supersededExecutionIds st)) \<le> 200"
proof -
  have "length (records st) \<le> max 200 (length (filter (\<lambda>r. lr_status r = Running) (records st)))"
    using wf_reachable[OF assms] by (auto simp: wf_log_def records_bounded_def list_all_iff MAX_RECORDS_def)
  with wf_reachable[OF assms] show ?thesis
    by (simp add: wf_log_defs wf_record_def outputs_ok_def MAX_OUTPUTS_PER_RECORD_def
        MAX_SUPERSEDED_EXECUTIONS_def MAX_RECORDS_def)
qed

theorem log_reachable_bounded_witness:
  "distinct (map lr_id (records example_log)) \<and> length (records example_log) = 1"
  using log_reachable_bounded[OF example_log_reachable] by (simp add: example_log_def)

section \<open>Isolation between executions\<close>

text \<open>The records of the other executions, in the order of the log.\<close>

definition others :: "string \<Rightarrow> SqlExecutionLogRecord list \<Rightarrow> SqlExecutionLogRecord list" where
  "others e rs = filter (\<lambda>r. lr_executionId r \<noteq> e) rs"

lemma others_append [simp]: "others e (xs @ ys) = others e xs @ others e ys"
  by (simp add: others_def)

lemma evictFinished_others_running:
  "(\<And>r. r \<in> set rs \<Longrightarrow> lr_executionId r \<noteq> e \<Longrightarrow> lr_status r = Running) \<Longrightarrow>
   others e (evictFinished n rs) = others e rs"
  by (induction n rs rule: evictFinished.induct) (auto simp: others_def)

lemma evictFinished_others_length:
  "length (others e rs) \<le> length (others e (evictFinished n rs)) + n"
  by (induction n rs rule: evictFinished.induct) (force simp: others_def)+

lemma setRecords_others:
  assumes "records_bounded rs" and "length rs' \<le> Suc (length rs)" and "others e rs' = others e rs"
    and "length rs < 200 \<Longrightarrow> length rs' \<le> 200"
  shows "subseq (others e (records (setRecords st rs'))) (others e rs)"
    and "filter (\<lambda>r. lr_status r = Running) (others e (records (setRecords st rs')))
       = filter (\<lambda>r. lr_status r = Running) (others e rs)"
    and "length (others e rs) \<le> Suc (length (others e (records (setRecords st rs'))))"
    and "length rs < 200 \<Longrightarrow> others e (records (setRecords st rs')) = others e rs"
proof -
  let ?new = "records (setRecords st rs')"
  have "subseq (others e ?new) (others e rs')"
    unfolding others_def by (intro subseq_filter setRecords_subseq)
  with assms(3) show "subseq (others e ?new) (others e rs)" by simp
  have swap: "filter (\<lambda>r. lr_status r = Running) (others e xs)
      = others e (filter (\<lambda>r. lr_status r = Running) xs)" for xs
    unfolding others_def filter_filter by (simp add: conj_commute)
  have "filter (\<lambda>r. lr_status r = Running) ?new = filter (\<lambda>r. lr_status r = Running) rs'"
    by (simp add: setRecords_def evictFinished_running)
  then show "filter (\<lambda>r. lr_status r = Running) (others e ?new)
      = filter (\<lambda>r. lr_status r = Running) (others e rs)"
    by (metis swap assms(3))
  show "others e ?new = others e rs" if "length rs < 200"
    using assms(3,4) that by (simp add: setRecords_def MAX_RECORDS_def)
  show "length (others e rs) \<le> Suc (length (others e ?new))"
  proof (cases "length rs \<le> 200")
    case True
    with assms(2) have "length rs' - MAX_RECORDS \<le> 1" by (simp add: MAX_RECORDS_def)
    with evictFinished_others_length[of e rs' "length rs' - MAX_RECORDS"] assms(3) show ?thesis
      by (simp add: setRecords_def)
  next
    case False
    with assms(1) have "\<And>r. r \<in> set rs \<Longrightarrow> lr_status r = Running"
      by (auto simp: records_bounded_def MAX_RECORDS_def list_all_iff)
    then have "lr_status r = Running" if "r \<in> set rs'" "lr_executionId r \<noteq> e" for r
      using that set_mp[OF equalityD1[OF arg_cong[OF assms(3), of set]], of r] by (simp add: others_def)
    from evictFinished_others_running[OF this] assms(3) show ?thesis by (simp add: setRecords_def)
  qed
qed

text \<open>What an event does to the records: nothing, one more record, or one record updated.\<close>

lemma reduce_shape:
  assumes "reduceDesktopSqlExecutionEvent st ev ctx es now = Inr st'"
  defines "tr \<equiv> trackActiveExecution st (ev_executionId ev)"
  shows "records st' = records st
     \<or> (\<exists>x. lr_executionId x = ev_executionId ev \<and> records st' = records (setRecords tr (records st @ [x])))
     \<or> (\<exists>t u. event_target tr ev = Some t
          \<and> records st' = records (updateRecord tr (Some (lr_id t)) (desktopUpdate ev u)))"
proof -
  have fin: "lr_executionId (finishTerminal (createRecord e x s q c k t d) ev t') = e" for e x s q c k t d t'
    using wf_finishTerminal[OF wf_createRecord] by simp
  define P where "P rs \<longleftrightarrow> rs = records st
     \<or> (\<exists>x. lr_executionId x = ev_executionId ev \<and> rs = records (setRecords tr (records st @ [x])))
     \<or> (\<exists>t u. event_target tr ev = Some t
          \<and> rs = records (updateRecord tr (Some (lr_id t)) (desktopUpdate ev u)))" for rs
  have recs: "records tr = records st" by (simp add: tr_def)
  have same: "P (records st)" by (simp add: P_def)
  then have tr_same: "tr = st' \<Longrightarrow> P (records st')" using recs by simp
  have more: "lr_executionId x = ev_executionId ev \<Longrightarrow> P (records (setRecords tr (records st @ [x])))" for x
    unfolding P_def by blast
  have upd: "event_target tr ev = Some t \<Longrightarrow>
      P (records (updateRecord tr (Some (lr_id t)) (desktopUpdate ev u)))" for t u
    unfolding P_def by blast
  have "P (records st')"
    using assms(1) same tr_same more fin upd
    by (auto simp: reduceDesktopSqlExecutionEvent_def Let_def tr_def[symmetric] recs split: if_splits option.splits)
  then show ?thesis by (simp add: P_def)
qed

lemma updateRecord_others:
  assumes "wf_log st" and "t \<in> set (records st)" and "lr_executionId t = e" and "wf_updater u"
  shows "updateRecord st (Some (lr_id t)) u = st \<or>
    (\<exists>rs'. updateRecord st (Some (lr_id t)) u = setRecords st rs' \<and> length rs' = length (records st)
       \<and> others e rs' = others e (records st))"
proof -
  let ?f = "apply_update (lr_id t) u"
  have ok: "records_ok (records st)" using assms(1) by (simp add: wf_log_def)
  have f: "lr_executionId (?f r) = lr_executionId r" "lr_executionId r \<noteq> e \<Longrightarrow> ?f r = r"
    if "r \<in> set (records st)" for r
    using that ok assms(2,3) wf_updaterD[OF assms(4), of r]
    by (auto simp: apply_update_def records_ok_def wf_record_def)
  have "others e (map ?f rs) = others e rs" if "set rs \<subseteq> set (records st)" for rs
    using that by (induction rs) (auto simp: others_def f)
  then have "others e (map ?f (records st)) = others e (records st)" by simp
  with updateRecord_cases[of st "Some (lr_id t)" u] show ?thesis by auto
qed

text \<open>
  C1: Isolation. An event of one execution, applied to a log in any reachable state, does
  not alter, add or reorder records of the other executions. The only thing that can
  happen to them is eviction by the record limit: if the log holds fewer than 200 records
  all of them stay, otherwise at most one is removed, and never one that is still running.
\<close>

theorem event_isolation:
  assumes "log_reachable st"
    and "reduceDesktopSqlExecutionEvent st ev ctx es now = Inr st'"
  defines "before \<equiv> filter (\<lambda>r. lr_executionId r \<noteq> ev_executionId ev) (records st)"
    and "after \<equiv> filter (\<lambda>r. lr_executionId r \<noteq> ev_executionId ev) (records st')"
  shows "subseq after before
     \<and> (length (records st) < 200 \<longrightarrow> after = before)
     \<and> length before \<le> Suc (length after)
     \<and> filter (\<lambda>r. lr_status r = Running) after = filter (\<lambda>r. lr_status r = Running) before"
proof -
  let ?e = "ev_executionId ev"
  let ?tr = "trackActiveExecution st ?e"
  have wf: "wf_log ?tr" by (rule wf_track[OF wf_reachable[OF assms(1)]])
  then have ok: "records_ok (records ?tr)" and b: "records_bounded (records ?tr)"
    by (simp_all add: wf_log_def)
  have "records st' = records st \<or>
    (\<exists>rs'. records st' = records (setRecords ?tr rs') \<and> length rs' \<le> Suc (length (records st))
      \<and> others ?e rs' = others ?e (records st))"
    using reduce_shape[OF assms(2)]
  proof (elim disjE exE conjE)
    fix x
    assume "lr_executionId x = ?e" "records st' = records (setRecords ?tr (records st @ [x]))"
    then show ?thesis by (intro disjI2 exI[of _ "records st @ [x]"]) (simp add: others_def)
  next
    fix t u
    assume t: "event_target ?tr ev = Some t"
      and r: "records st' = records (updateRecord ?tr (Some (lr_id t)) (desktopUpdate ev u))"
    from event_target_Some[OF ok t] updateRecord_others[OF wf _ _ wf_desktopUpdate, of t ?e ev u] r
    show ?thesis by auto
  qed simp
  then show ?thesis
  proof (elim disjE exE conjE)
    fix rs'
    assume "records st' = records (setRecords ?tr rs')" "length rs' \<le> Suc (length (records st))"
      "others ?e rs' = others ?e (records st)"
    with setRecords_others[of "records st" rs' ?e ?tr] b show ?thesis
      unfolding before_def after_def others_def by auto
  qed (simp add: before_def after_def)
qed

theorem event_isolation_witness:
  "records (projr (reduceDesktopSqlExecutionEvent example_log
     (example_event ''b'' EvStatementStarted None Undefined) example_context None 0))
     \<noteq> [example_record ''a'']
   \<and> filter (\<lambda>r. lr_executionId r \<noteq> ''b'') (records (projr (reduceDesktopSqlExecutionEvent example_log
     (example_event ''b'' EvStatementStarted None Undefined) example_context None 0)))
     = [example_record ''a'']"
proof -
  let ?ev = "example_event ''b'' EvStatementStarted None Undefined"
  have "\<exists>st' r. reduceDesktopSqlExecutionEvent example_log ?ev example_context None 0 = Inr st'
      \<and> records st' = [example_record ''a'', r]"
    by (simp add: reduceDesktopSqlExecutionEvent_def Let_def example_event_def isSupersededExecution_def
        example_log_def example_record_def trackActiveExecution_def addExecutionId_def setRecords_def
        MAX_RECORDS_def)
  then obtain st' r where st': "reduceDesktopSqlExecutionEvent example_log ?ev example_context None 0 = Inr st'"
    "records st' = [example_record ''a'', r]" by blast
  from event_isolation[OF example_log_reachable st'(1)] st'(2) st'(1) show ?thesis
    by (simp add: example_log_def example_event_def example_record_def)
qed

section \<open>Replacement of earlier executions\<close>





lemma updateRecord_frame [simp]: "supersededExecutionIds (updateRecord st i u) = supersededExecutionIds st"
  by (simp add: updateRecord_def Let_def)

lemma track_frame [simp]: "supersededExecutionIds (trackActiveExecution st e) = supersededExecutionIds st"
  by (simp add: trackActiveExecution_def Let_def)

lemma finishActive_frame [simp]: "supersededExecutionIds (finishActiveExecution st e) = supersededExecutionIds st"
  by (simp add: finishActiveExecution_def Let_def)






















section \<open>Terminal events\<close>

lemma finishActive_inactive:
  "e \<notin> set (or_empty (activeExecutionIds (finishActiveExecution st e)))"
  by (auto simp: finishActiveExecution_def Let_def)

lemma finishTerminal_failed:
  assumes "wf_record r" and "ev_eventType ev = EvFailed"
  shows "lr_status (finishTerminal r ev t) = Failed"
proof -
  have "wf_record (r\<lparr>lr_temporary := Some False, lr_status := Failed, lr_finishedAtEpochMs := Some t,
      lr_durationMs := Some d\<rparr>)" for d
    using assms(1) by (simp add: wf_record_def)
  from wf_addError[OF this] assms(2) show ?thesis by (simp add: finishTerminal_def Let_def)
qed

lemma finishTerminal_cancelled:
  "ev_eventType ev = EvCancelled \<Longrightarrow> lr_status (finishTerminal r ev t) = Cancelled"
  by (simp add: finishTerminal_def Let_def)

text \<open>
  The status in which a terminal event leaves the record it is about, given the status the
  record had. A record that has already failed or succeeded keeps its status when the
  execution as a whole finishes.
\<close>

definition final_status :: "SqlExecutionEventType \<Rightarrow> SqlExecutionLogStatus \<Rightarrow> SqlExecutionLogStatus" where
  "final_status ty old = (case ty of EvFailed \<Rightarrow> Failed | EvCancelled \<Rightarrow> Cancelled
     | _ \<Rightarrow> if old = Running then Success else old)"

lemma terminal_update_status:
  assumes "is_terminal_event ev" and "wf_record r"
  shows "lr_status (the_default r (desktopUpdate ev t r)) = final_status (ev_eventType ev) (lr_status r)"
  using assms finishTerminal_failed finishTerminal_cancelled
  by (auto simp: is_terminal_event_def desktopUpdate_def final_status_def)

lemma updateRecord_room:
  assumes "length (records st) \<le> 200" and "i \<noteq> []"
  shows "records (updateRecord st (Some i) u) = map (apply_update i u) (records st)"
proof -
  have "map (apply_update i u) (records st) = records st"
    if "\<not> list_ex (\<lambda>r. lr_id r = i \<and> u r \<noteq> None) (records st)"
    using that by (auto simp: list_ex_iff apply_update_def intro!: map_idI)
  moreover have "(\<lambda>r. if Some (lr_id r) \<noteq> Some i then r else the_default r (u r)) = apply_update i u"
    by (simp add: fun_eq_iff apply_update_def)
  ultimately show ?thesis using assms by (simp add: updateRecord_def setRecords_def Let_def MAX_RECORDS_def)
qed

text \<open>
  C26: A terminal event (finished, failed or cancelled) of an execution that is not
  superseded always takes effect: it is never an error, and afterwards the execution is
  not active any more. If the log holds fewer than 200 records (so that nothing is
  evicted), the record the event is about, which is the one of its statement or else the
  newest one of the execution, is still there and is failed after a failure, cancelled
  after a cancellation, and after a finished event succeeded if it was still running and
  as it was otherwise; if the execution has no record, a failure or a cancellation adds
  one in that status and a finished event adds none.
\<close>

theorem terminal_event_ends_execution:
  assumes "log_reachable st" and "is_terminal_event ev" and "\<not> isSupersededExecution st (ev_executionId ev)"
  shows "\<exists>st'. reduceDesktopSqlExecutionEvent st ev ctx es now = Inr st'
     \<and> ev_executionId ev \<notin> set (or_empty (activeExecutionIds st'))
     \<and> (length (records st) < 200 \<longrightarrow>
         (case event_target st ev of
            Some target \<Rightarrow> \<exists>r \<in> set (records st'). lr_id r = lr_id target
              \<and> lr_status r = final_status (ev_eventType ev) (lr_status target)
          | None \<Rightarrow> if ev_eventType ev = EvFinished then records st' = records st
              else \<exists>r. records st' = records st @ [r] \<and> lr_executionId r = ev_executionId ev
                \<and> lr_status r = final_status (ev_eventType ev) Running))"
proof -
  let ?tr = "trackActiveExecution st (ev_executionId ev)"
  let ?t = "the_default now (ev_occurredAtEpochMs ev)"
  have tgt: "event_target ?tr ev = event_target st ev" by (simp add: event_target_def split: option.splits)
  show ?thesis
  proof (cases "event_target st ev")
    case None
    let ?r = "finishTerminal (createRecord (ev_executionId ev) es (the_default 1 (ev_statementSequence ev))
        [] None ctx ?t None) ev ?t"
    have "lr_executionId ?r = ev_executionId ev" "wf_record ?r"
      using wf_finishTerminal[OF wf_createRecord] by simp_all
    moreover have "lr_status ?r = final_status (ev_eventType ev) Running" if "ev_eventType ev \<noteq> EvFinished"
      using that assms(2) finishTerminal_failed[OF wf_createRecord] finishTerminal_cancelled
      by (auto simp: is_terminal_event_def final_status_def)
    ultimately show ?thesis using assms(2,3) None tgt
      by (auto simp: reduceDesktopSqlExecutionEvent_def Let_def is_terminal_event_def finishActive_inactive
          setRecords_def MAX_RECORDS_def)
  next
    case (Some target)
    have t: "target \<in> set (records st)" "wf_record target" "lr_id target \<noteq> []"
      using event_target_Some[OF _ Some] wf_reachable[OF assms(1)]
      by (auto simp: wf_log_defs wf_record_def)
    let ?st' = "finishActiveExecution (updateRecord ?tr (Some (lr_id target)) (desktopUpdate ev ?t))
        (ev_executionId ev)"
    have red: "reduceDesktopSqlExecutionEvent st ev ctx es now = Inr ?st'"
      using assms(2,3) Some tgt
      by (auto simp: reduceDesktopSqlExecutionEvent_def Let_def is_terminal_event_def)
    have "apply_update (lr_id target) (desktopUpdate ev ?t) target \<in> set (records ?st')"
      if "length (records st) < 200"
      using that t(1,3) by (simp add: updateRecord_room)
    moreover have "lr_id (apply_update (lr_id target) (desktopUpdate ev ?t) target) = lr_id target"
      using wf_updaterD[OF wf_desktopUpdate t(2)] by (simp add: apply_update_def)
    ultimately show ?thesis
      using red Some finishActive_inactive terminal_update_status[OF assms(2) t(2), of ?t]
      by (auto simp: apply_update_def)
  qed
qed

theorem terminal_event_ends_execution_witness:
  "''a'' \<notin> set (or_empty (activeExecutionIds (projr (reduceDesktopSqlExecutionEvent example_log
     (example_event ''a'' EvCancelled None Undefined) example_context None 0))))
   \<and> (\<exists>r \<in> set (records (projr (reduceDesktopSqlExecutionEvent example_log
     (example_event ''a'' EvCancelled None Undefined) example_context None 0))). lr_status r = Cancelled)"
proof -
  let ?ev = "example_event ''a'' EvCancelled None Undefined"
  have c: "is_terminal_event ?ev" "\<not> isSupersededExecution example_log (ev_executionId ?ev)"
    by (simp_all add: is_terminal_event_def example_event_def isSupersededExecution_def example_log_def)
  have "event_target example_log ?ev = Some (example_record ''a'')" "length (records example_log) < 200"
    "final_status (ev_eventType ?ev) s = Cancelled" "ev_executionId ?ev = ''a''" for s
    by (simp_all add: event_target_def example_log_def example_event_def example_record_def opt_or_def final_status_def)
  with terminal_event_ends_execution[OF example_log_reachable c, of example_context None 0] show ?thesis
    by auto
qed

section \<open>Errors are never lost\<close>

lemma nextMessageSequence_fresh:
  assumes "out \<in> set (lr_outputs r)"
    and "CHR '':'' \<notin> set src"
  shows "output_id out \<noteq> lr_id r @ '':message:'' @ src @ '':'' @ string_of_int (nextMessageSequence r)"
proof
  let ?pre = "lr_id r @ '':message:''"
  let ?n = "nextMessageSequence r"
  assume eq: "output_id out = lr_id r @ '':message:'' @ src @ '':'' @ string_of_int ?n"
  then have id: "output_id out = ?pre @ src @ CHR '':'' # string_of_int ?n" by simp
  have parts: "split_on CHR '':'' (src @ CHR '':'' # string_of_int ?n) = [src, string_of_int ?n]"
    using assms(2) by (simp add: split_on_append split_on_single string_of_int_no_colon)
  have "?n + 1 \<le> nextMessageSequence r"
    unfolding nextMessageSequence_def[of r] Let_def
  proof (rule foldl_ge[OF _ assms(1)], goal_cases)
    case (1 a y)
    show ?case by (auto split: option.splits)
  next
    case (2 a)
    have "startsWith (output_id out) ?pre" "drop (length ?pre) (output_id out) = src @ CHR '':'' # string_of_int ?n"
      unfolding id startsWith_def by simp_all
    then show ?case using parts unfolding nextMessageSequence_def[of r, symmetric, unfolded Let_def]
      by simp
  qed
  then show False by simp
qed

lemma addError_kept:
  assumes "errorText err \<noteq> []"
  shows "\<exists>m. MessageOutput m \<in> set (lr_outputs (addError r err t)) \<and> mo_level m = ERROR
     \<and> mo_message m = truncateMessage (errorText err) \<and> mo_occurredAtEpochMs m = t"
proof -
  let ?msg = "Obj [(''level'', Str ''ERROR''), (''message'', Str (errorText err))]"
  have "levelOf (Str ''ERROR'') = ERROR"
    by (simp add: levelOf_def js_or_def toUpperCase_def upper_char_def Let_def)
  with assms obtain m where m: "createMessageOutput r ?msg t ''generated'' (string_of_int (nextMessageSequence r)) = Some m"
    "mo_level m = ERROR" "mo_message m = truncateMessage (errorText err)" "mo_occurredAtEpochMs m = t"
    "mo_id m = lr_id r @ '':message:'' @ ''generated'' @ '':'' @ string_of_int (nextMessageSequence r)"
    by (simp add: createMessageOutput_def Let_def)
  have "output_id (MessageOutput m) \<notin> set (map output_id (lr_outputs r))"
  proof
    assume "output_id (MessageOutput m) \<in> set (map output_id (lr_outputs r))"
    then obtain out where "out \<in> set (lr_outputs r)" "output_id out = mo_id m" by auto
    with nextMessageSequence_fresh[of out r "''generated''"] m(5) show False by simp
  qed
  then have "addError r err t = r\<lparr>lr_outputs := retainOutputs (lr_outputs r @ [MessageOutput m])\<rparr>"
    using assms m(1) by (simp add: addError_def appendMessage_def appendMessage_ref_def appendOutputs_ref_def Let_def)
  moreover have "isCriticalOutput (MessageOutput m)" using m(2) by (simp add: isCriticalOutput_def)
  ultimately show ?thesis using last_critical_kept m(2-4) by auto
qed

lemma finishTerminal_error_kept:
  assumes "ev_eventType ev = EvFailed" and "errorText (ev_message ev) \<noteq> []"
  shows "\<exists>m. MessageOutput m \<in> set (lr_outputs (finishTerminal r ev t)) \<and> mo_level m = ERROR
     \<and> mo_message m = truncateMessage (errorText (ev_message ev))"
  using addError_kept[OF assms(2)] assms(1) by (fastforce simp: finishTerminal_def Let_def)

definition shows_error :: "string \<Rightarrow> string \<Rightarrow> SqlExecutionLogRecord \<Rightarrow> bool" where
  "shows_error e msg r \<longleftrightarrow> lr_executionId r = e \<and> lr_status r = Failed
     \<and> list_ex (\<lambda>out. case out of MessageOutput m \<Rightarrow> mo_level m = ERROR \<and> mo_message m = msg
                 | ResultOutput x \<Rightarrow> False) (lr_outputs r)"

lemma finishTerminal_shows_error:
  assumes "wf_record r" and "ev_eventType ev = EvFailed" and "errorText (ev_message ev) \<noteq> []"
  shows "shows_error (lr_executionId r) (truncateMessage (errorText (ev_message ev))) (finishTerminal r ev t)"
proof -
  obtain m where "MessageOutput m \<in> set (lr_outputs (finishTerminal r ev t))" "mo_level m = ERROR"
      "mo_message m = truncateMessage (errorText (ev_message ev))"
    using finishTerminal_error_kept[OF assms(2,3)] by blast
  then have "list_ex (\<lambda>out. case out of MessageOutput m \<Rightarrow> mo_level m = ERROR
      \<and> mo_message m = truncateMessage (errorText (ev_message ev)) | ResultOutput x \<Rightarrow> False)
      (lr_outputs (finishTerminal r ev t))"
    unfolding list_ex_iff by (intro bexI[of _ "MessageOutput m"]) simp_all
  then show ?thesis
    using finishTerminal_failed[OF assms(1,2)] wf_finishTerminal[OF assms(1)]
    by (simp add: shows_error_def)
qed

text \<open>
  A failure is always shown. If an execution that the log follows fails with an error
  text, and the log holds fewer than 200 records, then afterwards the log has a failed
  record of that execution with an error message of that text (cut to the message limit).
  Neither the removal of duplicate outputs nor the output limit can drop it.
\<close>

theorem failed_event_shows_error:
  assumes "log_reachable st" and "length (records st) < 200"
    and "\<not> isSupersededExecution st (ev_executionId ev)"
    and "ev_eventType ev = EvFailed" and "errorText (ev_message ev) \<noteq> []"
    and "reduceDesktopSqlExecutionEvent st ev ctx es now = Inr st'"
  shows "\<exists>r \<in> set (records st').
     shows_error (ev_executionId ev) (truncateMessage (errorText (ev_message ev))) r"
proof -
  let ?tr = "trackActiveExecution st (ev_executionId ev)"
  let ?t = "the_default now (ev_occurredAtEpochMs ev)"
  have ok: "records_ok (records ?tr)" using wf_reachable[OF assms(1)] by (simp add: wf_log_def)
  show ?thesis
  proof (cases "event_target ?tr ev")
    case None
    let ?r = "createRecord (ev_executionId ev) es (the_default 1 (ev_statementSequence ev)) [] None ctx ?t None"
    have "records st' = records st @ [finishTerminal ?r ev ?t]"
      using assms(2-4,6) None
      by (auto simp: reduceDesktopSqlExecutionEvent_def Let_def setRecords_def MAX_RECORDS_def)
    with finishTerminal_shows_error[OF wf_createRecord assms(4,5)] show ?thesis by fastforce
  next
    case (Some target)
    have t: "target \<in> set (records st)" "lr_executionId target = ev_executionId ev"
      using event_target_Some[OF ok Some] by auto
    then have wf: "wf_record target" and id: "lr_id target \<noteq> []"
      using ok by (auto simp: records_ok_def wf_record_def)
    have "list_ex (\<lambda>r. lr_id r = lr_id target \<and> desktopUpdate ev ?t r \<noteq> None) (records st)"
      using t(1) assms(4) by (auto simp: list_ex_iff desktopUpdate_def)
    then have "records st' = map (\<lambda>r. if lr_id r \<noteq> lr_id target then r
        else the_default r (desktopUpdate ev ?t r)) (records st)"
      using assms(2-4,6) Some id
      by (auto simp: reduceDesktopSqlExecutionEvent_def Let_def updateRecord_def setRecords_def
          MAX_RECORDS_def is_terminal_event_def)
    with t(1) have "finishTerminal target ev ?t \<in> set (records st')"
      using assms(4) by (force simp: desktopUpdate_def)
    with finishTerminal_shows_error[OF wf assms(4,5)] t(2) show ?thesis by auto
  qed
qed

theorem failed_event_shows_error_witness:
  "\<exists>r \<in> set (records (projr (reduceDesktopSqlExecutionEvent example_log
     (example_event ''a'' EvFailed None (Str ''boom'')) example_context None 0))).
     shows_error ''a'' ''boom'' r"
proof -
  let ?ev = "example_event ''a'' EvFailed None (Str ''boom'')"
  have c: "length (records example_log) < 200" "\<not> isSupersededExecution example_log (ev_executionId ?ev)"
    "ev_eventType ?ev = EvFailed" "errorText (ev_message ?ev) \<noteq> []"
    by (simp_all add: example_log_def example_event_def isSupersededExecution_def errorText_def)
  have "\<exists>st'. reduceDesktopSqlExecutionEvent example_log ?ev example_context None 0 = Inr st'"
    by (simp add: reduceDesktopSqlExecutionEvent_def Let_def example_event_def isSupersededExecution_def
        example_log_def split: option.splits)
  then obtain st' where st': "reduceDesktopSqlExecutionEvent example_log ?ev example_context None 0 = Inr st'" ..
  have "truncateMessage (errorText (ev_message ?ev)) = ''boom''" "ev_executionId ?ev = ''a''"
    by (simp_all add: example_event_def errorText_def truncateMessage_def MAX_MESSAGE_LENGTH_def)
  with failed_event_shows_error[OF example_log_reachable c st'] st' show ?thesis by simp
qed

section \<open>Replayed messages\<close>

lemma apply_twice_retained:
  assumes "outputs_ok outs" and "output_id x \<notin> set (map output_id (retainOutputs (outs @ [x])))"
  shows "retainOutputs (outs @ [x]) = outs"
proof -
  let ?res = "retainOutputs (outs @ [x])"
  have "x \<notin> set ?res" using assms(2) by auto
  moreover obtain us vs where "?res = us @ vs" "subseq us outs" "subseq vs [x]"
    using subseq_retainOutputs[of "outs @ [x]"] by (auto simp: subseq_append_iff)
  ultimately have "subseq ?res outs"
    by (cases vs) (auto elim: list_emb.cases)
  moreover have "length ?res = length outs"
  proof -
    have "length (outs @ [x]) > MAX_OUTPUTS_PER_RECORD"
    proof (rule ccontr)
      assume "\<not> ?thesis"
      then have "?res = outs @ [x]" by (simp add: retainOutputs_def)
      with \<open>x \<notin> set ?res\<close> show False by simp
    qed
    with assms(1) show ?thesis by (auto simp: length_retainOutputs outputs_ok_def)
  qed
  ultimately show ?thesis by (metis subseq_same_length)
qed

lemma appendOutputs_single_idem:
  assumes "outputs_ok (lr_outputs r)"
  shows "appendOutputs (appendOutputs r [x]) [x] = appendOutputs r [x]"
proof (cases "output_id x \<in> set (map output_id (lr_outputs r))")
  case True
  then have "appendOutputs r [x] = r" by (simp add: appendOutputs_def appendOutputs_ref_def Let_def)
  then show ?thesis by simp
next
  case False
  let ?res = "retainOutputs (lr_outputs r @ [x])"
  have r1: "appendOutputs r [x] = r\<lparr>lr_outputs := ?res\<rparr>"
    using False by (simp add: appendOutputs_def appendOutputs_ref_def Let_def)
  show ?thesis
  proof (cases "output_id x \<in> set (map output_id ?res)")
    case True
    then show ?thesis unfolding r1 by (simp add: appendOutputs_def appendOutputs_ref_def Let_def)
  next
    case False
    with apply_twice_retained[OF assms] have "?res = lr_outputs r" by blast
    with r1 show ?thesis by simp
  qed
qed

lemma updateRecord_as_map:
  assumes "records_bounded (records st)" and "i \<noteq> []"
    and "\<And>r. lr_status (the_default r (u r)) = lr_status r"
  shows "updateRecord st (Some i) u = st\<lparr>records := map (apply_update i u) (records st)\<rparr>"
proof -
  have "records_bounded (map (apply_update i u) (records st))"
    using assms(1,3) by (auto simp: records_bounded_def list_all_iff apply_update_def)
  note set = setRecords_same[OF this]
  have unchanged: "map (apply_update i u) (records st) = records st"
    if "\<not> list_ex (\<lambda>r. lr_id r = i \<and> u r \<noteq> None) (records st)"
    using that by (auto simp: list_ex_iff apply_update_def intro!: map_idI)
  have "(\<lambda>r. if Some (lr_id r) \<noteq> Some i then r else the_default r (u r)) = apply_update i u"
    by (simp add: fun_eq_iff apply_update_def)
  with assms(2) set unchanged show ?thesis by (auto simp: updateRecord_def Let_def)
qed

lemma message_update_eq:
  assumes "ev_eventType ev = EvMessage" and "ev_eventSequence ev = Some n"
  shows "the_default r (desktopUpdate ev t r) =
    (case createMessageOutput r (ev_message ev) t ''desktop-event'' (string_of_int n) of
       None \<Rightarrow> r | Some m \<Rightarrow> appendOutputs r [MessageOutput m])"
  using assms by (auto simp: desktopUpdate_def appendMessage_ref_def appendOutputs_def split: option.splits)

lemma createMessageOutput_cong:
  "lr_id r' = lr_id r \<Longrightarrow> createMessageOutput r' m t src n = createMessageOutput r m t src n"
  by (simp add: createMessageOutput_def)

lemma message_update_idem:
  fixes i :: string and t :: int and ev :: SqlExecutionEvent and r :: SqlExecutionLogRecord
  assumes "ev_eventType ev = EvMessage" and "ev_eventSequence ev = Some n" and "wf_record r"
  defines "f \<equiv> apply_update i (desktopUpdate ev t)"
  shows "f (f r) = f r" and "lr_id (f r) = lr_id r" and "lr_executionId (f r) = lr_executionId r"
    and "lr_status (f r) = lr_status r"
proof -
  have eq: "f x = (if lr_id x \<noteq> i then x else
      case createMessageOutput x (ev_message ev) t ''desktop-event'' (string_of_int n) of
        None \<Rightarrow> x | Some m \<Rightarrow> appendOutputs x [MessageOutput m])" for x
    unfolding f_def apply_update_def message_update_eq[OF assms(1,2)] ..
  show "lr_id (f r) = lr_id r" "lr_executionId (f r) = lr_executionId r" "lr_status (f r) = lr_status r"
    by (auto simp: eq split: option.splits)
  have "createMessageOutput (f r) m t src k = createMessageOutput r m t src k" for m src k
    by (rule createMessageOutput_cong) fact
  then show "f (f r) = f r"
    using assms(3) appendOutputs_single_idem[of r]
    by (auto simp: eq[of r] eq[of "appendOutputs r _"] wf_record_def split: option.splits)
qed

lemma track_idem: "trackActiveExecution (trackActiveExecution st e) e = trackActiveExecution st e"
  by (auto simp: trackActiveExecution_def addExecutionId_def Let_def)

lemma superseded_track [simp]: "isSupersededExecution (trackActiveExecution st e) e' = isSupersededExecution st e'"
  by (simp add: isSupersededExecution_def trackActiveExecution_def Let_def)

lemma track_records_update:
  "trackActiveExecution (st\<lparr>records := rs\<rparr>) e = (trackActiveExecution st e)\<lparr>records := rs\<rparr>"
  by (simp add: trackActiveExecution_def Let_def)

lemma event_target_map:
  assumes "\<And>r. r \<in> set (records st) \<Longrightarrow> lr_id (f r) = lr_id r \<and> lr_executionId (f r) = lr_executionId r"
  shows "event_target (st\<lparr>records := map f (records st)\<rparr>) ev = map_option f (event_target st ev)"
proof -
  have fm: "List.find P (map f xs) = map_option f (List.find P xs)"
    if "\<And>x. x \<in> set xs \<Longrightarrow> P (f x) = P x" for P xs
    using that by (induction xs) auto
  have "List.find (\<lambda>r. lr_executionId r = e) (map f (rev (records st)))
      = map_option f (List.find (\<lambda>r. lr_executionId r = e) (rev (records st)))" for e
    using assms by (intro fm) auto
  moreover have "List.find (\<lambda>r. lr_id r = i) (map f (records st))
      = map_option f (List.find (\<lambda>r. lr_id r = i) (records st))" for i
    using assms by (intro fm) auto
  ultimately show ?thesis
    by (auto simp: event_target_def latestRecord_def rev_map opt_or_def split: option.splits)
qed

text \<open>
  C27: Replay. Applying a numbered message event a second time changes nothing, whether the
  message was kept or already dropped by the output limit: at-least-once delivery of
  messages by the stream does not show in the log.
\<close>

theorem message_replay_idempotent:
  assumes "log_reachable st" and "ev_eventType ev = EvMessage" and "ev_eventSequence ev = Some n"
    and "ev_occurredAtEpochMs ev = Some t"
    and "reduceDesktopSqlExecutionEvent st ev ctx es now = Inr st1"
  shows "reduceDesktopSqlExecutionEvent st1 ev ctx es now' = Inr st1"
proof (cases "isSupersededExecution st (ev_executionId ev)")
  case True
  with assms(5) show ?thesis by (auto simp: reduceDesktopSqlExecutionEvent_def)
next
  case False
  let ?tr = "trackActiveExecution st (ev_executionId ev)"
  let ?u = "desktopUpdate ev t"
  have wf: "wf_log ?tr" by (rule wf_track[OF wf_reachable[OF assms(1)]])
  show ?thesis
  proof (cases "event_target ?tr ev")
    case None
    with False assms have "st1 = ?tr" by (auto simp: reduceDesktopSqlExecutionEvent_def Let_def)
    with None False assms(2) show ?thesis
      by (simp add: reduceDesktopSqlExecutionEvent_def Let_def track_idem)
  next
    case (Some target)
    define f where "f = apply_update (lr_id target) ?u"
    have ok: "r \<in> set (records ?tr) \<Longrightarrow> wf_record r" for r
      using wf by (simp add: wf_log_def records_ok_def)
    note idem = message_update_idem[OF assms(2,3) ok, of _ "lr_id target" t, folded f_def]
    have target: "target \<in> set (records ?tr)"
      using event_target_Some[OF _ Some] wf by (simp add: wf_log_def)
    have ne: "lr_id target \<noteq> []" using ok[OF target] by (simp add: wf_record_def)
    have upd: "updateRecord st2 (Some (lr_id target)) ?u = st2\<lparr>records := map f (records st2)\<rparr>"
      if "records_bounded (records st2)" for st2
      unfolding f_def
      by (rule updateRecord_as_map[OF that ne]) (auto simp: message_update_eq[OF assms(2,3)] split: option.splits)
    have st1: "st1 = ?tr\<lparr>records := map f (records ?tr)\<rparr>"
      using False Some assms(2,4,5) upd[of ?tr] wf
      by (simp add: reduceDesktopSqlExecutionEvent_def Let_def is_terminal_event_def wf_log_def)
    have b: "records_bounded (records st1)"
      using wf idem(4) by (auto simp: st1 wf_log_def records_bounded_def list_all_iff)
    have tr1: "trackActiveExecution st1 (ev_executionId ev) = st1"
      by (simp only: st1 track_records_update track_idem)
    have "isSupersededExecution st1 (ev_executionId ev) = isSupersededExecution ?tr (ev_executionId ev)"
      unfolding st1 by (simp add: isSupersededExecution_def)
    moreover have "event_target st1 ev = Some (f target)"
      using event_target_map[of ?tr f ev] idem(2,3) Some unfolding st1 by simp
    moreover have "updateRecord st1 (Some (lr_id (f target))) ?u = st1"
    proof -
      have "map f (records st1) = records st1" using idem(1) by (simp add: st1)
      with upd[OF b] idem(2)[OF target] show ?thesis by simp
    qed
    ultimately show ?thesis
      using False assms(2,4) by (simp add: reduceDesktopSqlExecutionEvent_def Let_def tr1 is_terminal_event_def)
  qed
qed

theorem message_replay_idempotent_witness:
  "\<exists>st1. reduceDesktopSqlExecutionEvent example_log
      (example_event ''a'' EvMessage (Some 7) (Obj [(''message'', Str ''hello'')])) example_context None 0 = Inr st1
    \<and> reduceDesktopSqlExecutionEvent st1
      (example_event ''a'' EvMessage (Some 7) (Obj [(''message'', Str ''hello'')])) example_context None 5 = Inr st1"
proof -
  let ?ev = "example_event ''a'' EvMessage (Some 7) (Obj [(''message'', Str ''hello'')])"
  have "\<exists>st'. reduceDesktopSqlExecutionEvent example_log ?ev example_context None 0 = Inr st'"
    by (simp add: reduceDesktopSqlExecutionEvent_def Let_def example_event_def isSupersededExecution_def
        example_log_def split: option.splits)
  then obtain st1 where st1: "reduceDesktopSqlExecutionEvent example_log ?ev example_context None 0 = Inr st1" ..
  have "ev_eventType ?ev = EvMessage" "ev_eventSequence ?ev = Some 7" "ev_occurredAtEpochMs ?ev = Some 10"
    by (simp_all add: example_event_def)
  from message_replay_idempotent[OF example_log_reachable this st1, of 5] st1 show ?thesis by blast
qed

end
