(* ===== verification/Request_Tracker.thy ===== *)
theory Request_Tracker
  imports Js_Prelude
begin

text \<open>
  Request generations (\<open>utils/latestRequest.ts\<close>) and the tracker that allows one SQL
  execution at a time (\<open>service/sqlExecutionRequestTracker.ts\<close>).
  The tracker is mutated by its operations; each operation here returns the new tracker
  next to its result.
\<close>

section \<open>Request generations\<close>

record RequestGenerationRef =
  gen_current :: int

definition beginLatestRequest :: "RequestGenerationRef \<Rightarrow> int \<times> RequestGenerationRef" where
  "beginLatestRequest g = (let g' = g\<lparr>gen_current := gen_current g + 1\<rparr> in (gen_current g', g'))"

definition invalidateLatestRequest :: "RequestGenerationRef \<Rightarrow> RequestGenerationRef" where
  "invalidateLatestRequest g = g\<lparr>gen_current := gen_current g + 1\<rparr>"

definition isLatestRequest :: "RequestGenerationRef \<Rightarrow> int \<Rightarrow> bool" where
  "isLatestRequest g generation \<longleftrightarrow> gen_current g = generation"

text \<open>
  The contract the clients of a generation counter rely on: the generation just begun is
  the latest one, no generation handed out before is, and invalidation ends them all.
\<close>

locale latest_request =
  fixes begin_request :: "'s \<Rightarrow> int \<times> 's"
    and invalidate :: "'s \<Rightarrow> 's"
    and is_latest :: "'s \<Rightarrow> int \<Rightarrow> bool"
    and issued :: "'s \<Rightarrow> int set"
  assumes begin_latest: "is_latest (snd (begin_request s)) (fst (begin_request s))"
    and begin_fresh: "fst (begin_request s) \<notin> issued s"
    and begin_issued: "issued (snd (begin_request s)) = insert (fst (begin_request s)) (issued s)"
    and latest_unique: "is_latest s a \<Longrightarrow> is_latest s b \<Longrightarrow> a = b"
    and invalidate_none: "a \<in> issued s \<Longrightarrow> \<not> is_latest (invalidate s) a"
begin

lemma begin_ends_earlier: "a \<in> issued s \<Longrightarrow> \<not> is_latest (snd (begin_request s)) a"
  using begin_latest begin_fresh latest_unique by metis

end

interpretation generation: latest_request beginLatestRequest invalidateLatestRequest
    isLatestRequest "\<lambda>g. {..gen_current g}"
proof unfold_locales
  fix s :: RequestGenerationRef and a :: int
  show "{..gen_current (snd (beginLatestRequest s))} = insert (fst (beginLatestRequest s)) {..gen_current s}"
    by (auto simp: beginLatestRequest_def)
qed (auto simp: beginLatestRequest_def invalidateLatestRequest_def isLatestRequest_def)

section \<open>The SQL execution request tracker\<close>

record SqlExecutionRequestTracker =
  generationRef :: RequestGenerationRef
  activeRequestSequence :: "int option"
  tr_executionId :: "string option"
  cancelRequested :: "bool option"

definition createSqlExecutionRequestTracker :: SqlExecutionRequestTracker where
  "createSqlExecutionRequestTracker =
     \<lparr>generationRef = \<lparr>gen_current = 0\<rparr>, activeRequestSequence = None,
      tr_executionId = None, cancelRequested = None\<rparr>"

definition canBeginSqlExecutionRequest :: "SqlExecutionRequestTracker \<Rightarrow> bool" where
  "canBeginSqlExecutionRequest tr \<longleftrightarrow> activeRequestSequence tr = None"

definition beginSqlExecutionRequest ::
    "SqlExecutionRequestTracker \<Rightarrow> int option \<times> SqlExecutionRequestTracker" where
  "beginSqlExecutionRequest tr =
     (if \<not> canBeginSqlExecutionRequest tr then (None, tr)
      else
        let tr1 = tr\<lparr>tr_executionId := None, cancelRequested := Some False\<rparr>;
            (requestSequence, g) = beginLatestRequest (generationRef tr1)
        in (Some requestSequence,
            tr1\<lparr>generationRef := g, activeRequestSequence := Some requestSequence\<rparr>))"

definition setSqlExecutionRequestId ::
    "SqlExecutionRequestTracker \<Rightarrow> int \<Rightarrow> string \<Rightarrow> bool \<times> SqlExecutionRequestTracker" where
  "setSqlExecutionRequestId tr requestSequence executionId =
     (if \<not> isLatestRequest (generationRef tr) requestSequence
         \<or> activeRequestSequence tr \<noteq> Some requestSequence
      then (False, tr)
      else (True, tr\<lparr>tr_executionId := Some executionId\<rparr>))"

definition finishSqlExecutionRequest ::
    "SqlExecutionRequestTracker \<Rightarrow> int \<Rightarrow> bool \<times> SqlExecutionRequestTracker" where
  "finishSqlExecutionRequest tr requestSequence =
     (if \<not> isLatestRequest (generationRef tr) requestSequence
         \<or> activeRequestSequence tr \<noteq> Some requestSequence
      then (False, tr)
      else (True, tr\<lparr>activeRequestSequence := None, tr_executionId := None,
                     cancelRequested := Some False\<rparr>))"

text \<open>
  \<open>request.finally(...)\<close>: what runs when the promise settles, either way. The first
  component says whether \<open>onFinished\<close> is called.
\<close>

definition finalizeSqlExecutionRequest ::
    "SqlExecutionRequestTracker \<Rightarrow> int \<Rightarrow> bool \<times> SqlExecutionRequestTracker" where
  "finalizeSqlExecutionRequest tr requestSequence =
     (let (finished, tr') = finishSqlExecutionRequest tr requestSequence in
      if finished then (True, tr') else (False, tr'))"

definition getActiveSqlExecutionId :: "SqlExecutionRequestTracker \<Rightarrow> string option" where
  "getActiveSqlExecutionId tr = tr_executionId tr"

definition requestSqlExecutionCancellation ::
    "SqlExecutionRequestTracker \<Rightarrow> string option \<times> SqlExecutionRequestTracker" where
  "requestSqlExecutionCancellation tr =
     (if activeRequestSequence tr = None then (None, tr)
      else let tr' = tr\<lparr>cancelRequested := Some True\<rparr> in (tr_executionId tr', tr'))"

definition isSqlExecutionCancellationRequested :: "SqlExecutionRequestTracker \<Rightarrow> int \<Rightarrow> bool" where
  "isSqlExecutionCancellationRequested tr requestSequence \<longleftrightarrow>
     activeRequestSequence tr = Some requestSequence \<and> cancelRequested tr = Some True"

text \<open>One step is one call; any call may be made in any state, with any arguments.\<close>

inductive tracker_step :: "SqlExecutionRequestTracker \<Rightarrow> SqlExecutionRequestTracker \<Rightarrow> bool" where
  step_begin: "tracker_step tr (snd (beginSqlExecutionRequest tr))"
| step_set: "tracker_step tr (snd (setSqlExecutionRequestId tr s e))"
| step_finish: "tracker_step tr (snd (finishSqlExecutionRequest tr s))"
| step_finalize: "tracker_step tr (snd (finalizeSqlExecutionRequest tr s))"
| step_cancel: "tracker_step tr (snd (requestSqlExecutionCancellation tr))"

inductive tracker_reachable :: "SqlExecutionRequestTracker \<Rightarrow> bool" where
  tracker_start: "tracker_reachable createSqlExecutionRequestTracker"
| tracker_next: "tracker_reachable tr \<Longrightarrow> tracker_step tr tr' \<Longrightarrow> tracker_reachable tr'"

definition tracker_inv :: "SqlExecutionRequestTracker \<Rightarrow> bool" where
  "tracker_inv tr \<longleftrightarrow>
     0 \<le> gen_current (generationRef tr) \<and>
     (case activeRequestSequence tr of
        None \<Rightarrow> tr_executionId tr = None \<and> cancelRequested tr \<noteq> Some True
      | Some s \<Rightarrow> s = gen_current (generationRef tr) \<and> 0 < s)"

lemmas tracker_defs = beginSqlExecutionRequest_def setSqlExecutionRequestId_def
  finishSqlExecutionRequest_def finalizeSqlExecutionRequest_def
  requestSqlExecutionCancellation_def canBeginSqlExecutionRequest_def
  beginLatestRequest_def isLatestRequest_def

lemma tracker_step_inv: "tracker_step tr tr' \<Longrightarrow> tracker_inv tr \<Longrightarrow> tracker_inv tr'"
  by (induction rule: tracker_step.induct)
     (auto simp: tracker_inv_def tracker_defs Let_def split: option.splits)

lemma tracker_step_generation_mono:
  "tracker_step tr tr' \<Longrightarrow> gen_current (generationRef tr) \<le> gen_current (generationRef tr')"
  by (induction rule: tracker_step.induct) (auto simp: tracker_defs Let_def)

lemma tracker_inv_reachable: "tracker_reachable tr \<Longrightarrow> tracker_inv tr"
proof (induction rule: tracker_reachable.induct)
  case tracker_start
  show ?case by (simp add: tracker_inv_def createSqlExecutionRequestTracker_def)
next
  case (tracker_next tr tr')
  then show ?case by (blast intro: tracker_step_inv)
qed

lemma tracker_after_begin_reachable:
  "tracker_reachable (snd (beginSqlExecutionRequest createSqlExecutionRequestTracker))"
  by (rule tracker_next[OF tracker_start step_begin])

definition example_running_tracker :: SqlExecutionRequestTracker where
  "example_running_tracker = snd (beginSqlExecutionRequest createSqlExecutionRequestTracker)"

lemma example_running_tracker_eq:
  "example_running_tracker = \<lparr>generationRef = \<lparr>gen_current = 1\<rparr>, activeRequestSequence = Some 1,
     tr_executionId = None, cancelRequested = Some False\<rparr>"
  by (simp add: example_running_tracker_def tracker_defs createSqlExecutionRequestTracker_def Let_def)

text \<open>
  In every state the tracker can reach by any sequence of calls, a recorded execution id
  or a pending cancellation belongs to an active request, and the active request is the
  latest generation issued; so there is never more than one request in flight.
\<close>

theorem tracker_active_is_latest:
  assumes "tracker_reachable tr"
  shows "(tr_executionId tr \<noteq> None \<or> cancelRequested tr = Some True
            \<longrightarrow> activeRequestSequence tr \<noteq> None)
     \<and> (\<forall>s. activeRequestSequence tr = Some s \<longrightarrow> isLatestRequest (generationRef tr) s)"
  using tracker_inv_reachable[OF assms]
  by (auto simp: tracker_inv_def isLatestRequest_def split: option.splits)

theorem tracker_active_is_latest_witness:
  "activeRequestSequence example_running_tracker = Some 1
     \<and> isLatestRequest (generationRef example_running_tracker) 1"
proof -
  have "activeRequestSequence example_running_tracker = Some 1"
    by (simp add: example_running_tracker_eq)
  with tracker_active_is_latest[OF tracker_after_begin_reachable] show ?thesis
    unfolding example_running_tracker_def by blast
qed

text \<open>Runs of the tracker: the reflexive and transitive closure of its steps.\<close>

lemma tracker_steps_generation_mono:
  "tracker_step\<^sup>*\<^sup>* tr tr' \<Longrightarrow> gen_current (generationRef tr) \<le> gen_current (generationRef tr')"
  by (induction rule: rtranclp_induct) (auto dest: tracker_step_generation_mono)

lemma tracker_step_finished:
  assumes "tracker_step tr tr'"
    and "s \<le> gen_current (generationRef tr)" and "activeRequestSequence tr \<noteq> Some s"
  shows "activeRequestSequence tr' \<noteq> Some s"
  using assms by (induction rule: tracker_step.induct) (auto simp: tracker_defs Let_def)

lemma tracker_steps_finished:
  assumes "tracker_step\<^sup>*\<^sup>* tr tr'"
    and "s \<le> gen_current (generationRef tr)" and "activeRequestSequence tr \<noteq> Some s"
  shows "activeRequestSequence tr' \<noteq> Some s"
  using assms
proof (induction rule: rtranclp_induct)
  case base
  then show ?case by simp
next
  case (step y z)
  then have "activeRequestSequence y \<noteq> Some s" by simp
  moreover have "s \<le> gen_current (generationRef y)"
    using step.prems(1) tracker_steps_generation_mono[OF step.hyps(1)] by simp
  ultimately show ?case using tracker_step_finished[OF step.hyps(2)] by blast
qed

text \<open>
  Once a request is over, a late response for it is rejected: after any further calls,
  attaching an execution id to it or finishing it reports \<open>false\<close> and changes nothing, and
  no cancellation is ever reported for it.
\<close>

theorem tracker_stale_request_ignored:
  assumes "finishSqlExecutionRequest tr s = (True, tr1)" and "tracker_step\<^sup>*\<^sup>* tr1 tr2"
  shows "setSqlExecutionRequestId tr2 s e = (False, tr2)
     \<and> finishSqlExecutionRequest tr2 s = (False, tr2)
     \<and> \<not> isSqlExecutionCancellationRequested tr2 s"
proof -
  from assms(1) have "s \<le> gen_current (generationRef tr1)" "activeRequestSequence tr1 \<noteq> Some s"
    by (auto simp: tracker_defs split: if_splits)
  then have "activeRequestSequence tr2 \<noteq> Some s"
    by (rule tracker_steps_finished[OF assms(2)])
  then show ?thesis
    by (simp add: tracker_defs isSqlExecutionCancellationRequested_def)
qed

theorem tracker_stale_request_ignored_witness:
  "setSqlExecutionRequestId (snd (finishSqlExecutionRequest example_running_tracker 1)) 1 ''x''
     = (False, snd (finishSqlExecutionRequest example_running_tracker 1))"
proof -
  let ?t1 = "snd (finishSqlExecutionRequest example_running_tracker 1)"
  have "finishSqlExecutionRequest example_running_tracker 1 = (True, ?t1)"
    by (simp add: tracker_defs example_running_tracker_eq)
  from tracker_stale_request_ignored[OF this rtranclp.rtrancl_refl, of "''x''"]
  show ?thesis by simp
qed

text \<open>
  One execution at a time. A second begin is refused, leaving the tracker as it is, until
  the active request is finished; finishing the active request always succeeds and the next
  begin then succeeds with a larger sequence number.
\<close>

theorem tracker_one_at_a_time:
  assumes "tracker_reachable tr" and "activeRequestSequence tr = Some s"
  shows "beginSqlExecutionRequest tr = (None, tr)
     \<and> (\<exists>tr'. finishSqlExecutionRequest tr s = (True, tr')
          \<and> (\<exists>s' tr''. beginSqlExecutionRequest tr' = (Some s', tr'') \<and> s < s'
               \<and> activeRequestSequence tr'' = Some s'))"
proof -
  from tracker_inv_reachable[OF assms(1)] assms(2)
  have "gen_current (generationRef tr) = s" by (simp add: tracker_inv_def)
  with assms(2) show ?thesis by (simp add: tracker_defs Let_def)
qed

theorem tracker_one_at_a_time_witness:
  "beginSqlExecutionRequest example_running_tracker = (None, example_running_tracker)"
proof -
  have "tracker_reachable example_running_tracker"
    by (simp add: example_running_tracker_def tracker_after_begin_reachable)
  moreover have "activeRequestSequence example_running_tracker = Some 1"
    by (simp add: example_running_tracker_eq)
  ultimately show ?thesis using tracker_one_at_a_time by blast
qed

end
