(* ===== verification/Result_Batches.thy ===== *)
theory Result_Batches
  imports Js_Prelude
begin

text \<open>
  Result history mode and retention of result batches (\<open>service/sqlExecutionBatch.ts\<close>).
  A result (\<open>IManageResultData\<close>) is a JavaScript object; its execution sequence is read
  from \<open>extra.executionSequence\<close>.
\<close>

section \<open>History mode\<close>

record SqlResultHistoryMode =
  keepHistory :: bool
  showResultCoordinates :: bool
  resetResultSessionOnNextExecution :: bool

datatype SqlResultHistoryModeAction = SetPreference bool | BeginExecution bool

definition createSqlResultHistoryMode :: "bool \<Rightarrow> SqlResultHistoryMode" where
  "createSqlResultHistoryMode keep =
     \<lparr>keepHistory = keep, showResultCoordinates = keep, resetResultSessionOnNextExecution = False\<rparr>"

fun reduceSqlResultHistoryMode ::
    "SqlResultHistoryMode \<Rightarrow> SqlResultHistoryModeAction \<Rightarrow> SqlResultHistoryMode" where
  "reduceSqlResultHistoryMode st (SetPreference keep) =
     (if keepHistory st = keep then st
      else st\<lparr>keepHistory := keep, resetResultSessionOnNextExecution := True\<rparr>)"
| "reduceSqlResultHistoryMode st (BeginExecution keep) =
     st\<lparr>showResultCoordinates := keep, resetResultSessionOnNextExecution := False\<rparr>"

definition getNextResultDisplayBatchSequence :: "int \<Rightarrow> bool \<Rightarrow> int" where
  "getNextResultDisplayBatchSequence currentSequence resetHistorySession =
     (if resetHistorySession then 1 else currentSequence + 1)"

definition shouldKeepExistingExecutionResults :: "bool \<Rightarrow> bool \<Rightarrow> bool" where
  "shouldKeepExistingExecutionResults keep resetResultSession \<longleftrightarrow> keep \<and> \<not> resetResultSession"

definition shouldAcceptExecutionResult :: "int \<Rightarrow> int option \<Rightarrow> bool" where
  "shouldAcceptExecutionResult executionSequence latestReplacement \<longleftrightarrow>
     the_default 0 latestReplacement \<le> executionSequence"

section \<open>SQL preview\<close>

definition getSqlResultPreview :: "string option \<Rightarrow> string" where
  "getSqlResultPreview sql =
     (let ls = filter (\<lambda>l. l \<noteq> []) (map trim (split_on CHR 0x0A (crlf_to_lf (the_default [] sql))));
          executableLines = filter (\<lambda>l. \<not> startsWith l ''--'') ls
      in trim (collapse_spaces (join '' '' (if executableLines \<noteq> [] then executableLines else ls))))"

section \<open>Batches\<close>

definition positiveInteger :: "jsval \<Rightarrow> int option" where
  "positiveInteger v = (case to_number v of
     Some n \<Rightarrow> if n > 0 then Some n else None | None \<Rightarrow> None)"

definition getResultExecutionSequence :: "jsval \<Rightarrow> int option" where
  "getResultExecutionSequence result = positiveInteger (jget (jget result ''extra'') ''executionSequence'')"

definition retainLatestResultBatches :: "jsval list \<Rightarrow> int \<Rightarrow> jsval list" where
  "retainLatestResultBatches resultDataList limit =
     (if limit \<le> 0 then []
      else
        let existingSequences = uniq (List.map_filter getResultExecutionSequence resultDataList)
        in if int (length existingSequences) \<le> limit then resultDataList
           else
             let retainedSequences = take (nat limit) (rev (sort existingSequences))
             in filter (\<lambda>result. case getResultExecutionSequence result of
                          None \<Rightarrow> True | Some sequence \<Rightarrow> sequence \<in> set retainedSequences)
                  resultDataList)"

text \<open>The batch numbers of a list of results.\<close>

definition batch_numbers :: "jsval list \<Rightarrow> int set" where
  "batch_numbers rs = {s. \<exists>r \<in> set rs. getResultExecutionSequence r = Some s}"

lemma set_map_filter_seq:
  "set (List.map_filter getResultExecutionSequence rs) = batch_numbers rs"
  by (force simp: map_filter_def batch_numbers_def)

lemma take_rev_sort_largest:
  fixes xs :: "int list"
  assumes "x \<in> set (take n (rev (sort xs)))" and "y \<in> set xs" and "y \<notin> set (take n (rev (sort xs)))"
  shows "y \<le> x"
proof -
  let ?d = "rev (sort xs)"
  have "y \<in> set (take n ?d @ drop n ?d)" using assms(2) by (simp only: append_take_drop_id) simp
  with assms(3) have "y \<in> set (drop n ?d)" unfolding set_append by blast
  moreover have "sorted_wrt (\<ge>) (take n ?d @ drop n ?d)"
    by (simp only: append_take_drop_id) (simp add: sorted_wrt_rev)
  ultimately show ?thesis using assms(1) by (auto simp only: sorted_wrt_append)
qed

lemma retain_filter_numbers:
  "batch_numbers (filter (\<lambda>r. case getResultExecutionSequence r of
       None \<Rightarrow> True | Some s \<Rightarrow> s \<in> A) rs) = batch_numbers rs \<inter> A"
  by (auto simp: batch_numbers_def split: option.splits)

text \<open>
  Retention keeps the newest result batches. For a positive limit, the kept results are a
  subsequence of the given ones, hold at most that many batches, every result without a
  batch number is kept, and a dropped batch is never newer than a kept one.
\<close>

theorem retainLatestResultBatches_newest:
  fixes rs :: "jsval list" and limit :: int
  assumes "0 < limit"
  defines "kept \<equiv> retainLatestResultBatches rs limit"
  shows "subseq kept rs
     \<and> card (batch_numbers kept) \<le> nat limit
     \<and> filter (\<lambda>r. getResultExecutionSequence r = None) kept
         = filter (\<lambda>r. getResultExecutionSequence r = None) rs
     \<and> (\<forall>s \<in> batch_numbers kept. \<forall>d \<in> batch_numbers rs - batch_numbers kept. d \<le> s)"
proof (cases "int (length (uniq (List.map_filter getResultExecutionSequence rs))) \<le> limit")
  case True
  then have k: "kept = rs" using assms by (simp add: retainLatestResultBatches_def Let_def)
  have "card (batch_numbers rs) = length (uniq (List.map_filter getResultExecutionSequence rs))"
    by (metis set_map_filter_seq set_uniq distinct_uniq distinct_card)
  with True k show ?thesis by simp
next
  case False
  let ?e = "uniq (List.map_filter getResultExecutionSequence rs)"
  let ?top = "take (nat limit) (rev (sort ?e))"
  have k: "kept = filter (\<lambda>r. case getResultExecutionSequence r of
      None \<Rightarrow> True | Some s \<Rightarrow> s \<in> set ?top) rs"
    using False assms by (simp add: retainLatestResultBatches_def Let_def)
  have n: "batch_numbers kept = batch_numbers rs \<inter> set ?top"
    unfolding k by (rule retain_filter_numbers)
  have "card (batch_numbers kept) \<le> card (set ?top)"
    unfolding n by (rule card_mono) auto
  also have "\<dots> \<le> nat limit" by (rule order_trans[OF card_length]) simp
  finally have c: "card (batch_numbers kept) \<le> nat limit" .
  have e: "set ?e = batch_numbers rs" by (simp add: set_map_filter_seq)
  have "d \<le> s" if "s \<in> batch_numbers kept" "d \<in> batch_numbers rs - batch_numbers kept" for s d
    using that take_rev_sort_largest[of s "nat limit" ?e d] unfolding n e by blast
  moreover have "filter (\<lambda>r. getResultExecutionSequence r = None) kept
      = filter (\<lambda>r. getResultExecutionSequence r = None) rs"
    unfolding k by (auto simp: filter_filter intro!: filter_cong split: option.splits)
  moreover have "subseq kept rs" unfolding k by (rule subseq_filter_left)
  ultimately show ?thesis using c by blast
qed

definition example_result :: "int \<Rightarrow> jsval" where
  "example_result n = Obj [(''extra'', Obj [(''executionSequence'', Num n)])]"

theorem retainLatestResultBatches_newest_witness:
  "retainLatestResultBatches [example_result 1, example_result 3, example_result 2] 2
     = [example_result 3, example_result 2]
   \<and> subseq [example_result 3, example_result 2] [example_result 1, example_result 3, example_result 2]"
proof -
  have eq: "retainLatestResultBatches [example_result 1, example_result 3, example_result 2] 2
     = [example_result 3, example_result 2]"
    by code_simp
  from retainLatestResultBatches_newest[of 2 "[example_result 1, example_result 3, example_result 2]"]
  show ?thesis using eq by simp
qed

section \<open>Preview lemmas\<close>

definition single_line :: "string \<Rightarrow> bool" where
  "single_line s \<longleftrightarrow> (\<forall>c \<in> set s. is_space c \<longrightarrow> c = CHR '' '') \<and>
     (s \<noteq> [] \<longrightarrow> \<not> is_space (hd s) \<and> \<not> is_space (last s))"

lemma set_collapse_from:
  "c \<in> set (collapse_from b s) \<Longrightarrow> is_space c \<Longrightarrow> c = CHR '' ''"
  by (induction b s rule: collapse_from.induct) (auto split: if_splits)

lemma set_collapse_spaces:
  "c \<in> set (collapse_spaces s) \<Longrightarrow> is_space c \<Longrightarrow> c = CHR '' ''"
  by (simp add: collapse_spaces_def set_collapse_from)

text \<open>
  A SQL preview is one trimmed line: it has no line break or tab (its only white space is
  the blank), and it neither starts nor ends with white space.
\<close>

theorem getSqlResultPreview_single_line: "single_line (getSqlResultPreview sql)"
  unfolding single_line_def getSqlResultPreview_def Let_def
  using set_trim set_collapse_spaces trim_ends by blast

end
