(* ===== verification/Js_Sort.thy ===== *)
theory Js_Sort
  imports Js_Prelude "HOL-Library.Multiset"
begin

text \<open>
  \<open>Array.prototype.sort\<close> with a comparator. The language requires a stable sort whenever the
  comparator is consistent; \<open>js_sort\<close> is insertion sort, and the locale \<open>comparator\<close> shows
  that for a consistent comparator it is the stable sort: sorted, a permutation, and equal
  elements in their old order. A comparator result of \<open>NaN\<close> counts as 0.
\<close>

fun insert_cmp :: "('a \<Rightarrow> 'a \<Rightarrow> int) \<Rightarrow> 'a \<Rightarrow> 'a list \<Rightarrow> 'a list" where
  "insert_cmp cmp x [] = [x]"
| "insert_cmp cmp x (y # ys) = (if cmp y x < 0 then y # insert_cmp cmp x ys else x # y # ys)"

definition js_sort :: "('a \<Rightarrow> 'a \<Rightarrow> int) \<Rightarrow> 'a list \<Rightarrow> 'a list" where
  "js_sort cmp xs = foldr (insert_cmp cmp) xs []"

lemma mset_insert_cmp [simp]: "mset (insert_cmp cmp x ys) = add_mset x (mset ys)"
  by (induction ys) auto

lemma mset_js_sort [simp]: "mset (js_sort cmp xs) = mset xs"
  unfolding js_sort_def by (induction xs) auto

lemma set_insert_cmp [simp]: "set (insert_cmp cmp x ys) = insert x (set ys)"
  by (induction ys) auto

lemma set_js_sort [simp]: "set (js_sort cmp xs) = set xs"
  unfolding js_sort_def by (induction xs) auto

lemma length_js_sort [simp]: "length (js_sort cmp xs) = length xs"
  by (metis mset_js_sort size_mset)

text \<open>
  A comparator that is consistent on the values that satisfy \<open>dom\<close>. Two values with
  comparison 0 are interchangeable for the sort.
\<close>

locale comparator =
  fixes cmp :: "'a \<Rightarrow> 'a \<Rightarrow> int" and dom_ok :: "'a \<Rightarrow> bool"
  assumes antisym: "dom_ok x \<Longrightarrow> dom_ok y \<Longrightarrow> cmp x y < 0 \<longleftrightarrow> cmp y x > 0"
    and trans: "dom_ok x \<Longrightarrow> dom_ok y \<Longrightarrow> dom_ok z \<Longrightarrow> cmp x y \<le> 0 \<Longrightarrow> cmp y z \<le> 0 \<Longrightarrow> cmp x z \<le> 0"
begin

lemma le_total: "dom_ok x \<Longrightarrow> dom_ok y \<Longrightarrow> \<not> cmp x y < 0 \<Longrightarrow> cmp y x \<le> 0"
  using antisym by force

lemma sorted_insert:
  "dom_ok x \<Longrightarrow> \<forall>y \<in> set ys. dom_ok y \<Longrightarrow> sorted_wrt (\<lambda>a b. cmp a b \<le> 0) ys
    \<Longrightarrow> sorted_wrt (\<lambda>a b. cmp a b \<le> 0) (insert_cmp cmp x ys)"
proof (induction ys)
  case Nil
  then show ?case by simp
next
  case (Cons y ys)
  show ?case
  proof (cases "cmp y x < 0")
    case True
    with Cons show ?thesis by auto
  next
    case False
    with Cons.prems have xy: "cmp x y \<le> 0" by (intro le_total) auto
    with Cons.prems have "cmp x z \<le> 0" if "z \<in> set ys" for z
      using that trans[of x y z] by auto
    with False Cons.prems xy show ?thesis by auto
  qed
qed

lemma sorted_sort:
  "\<forall>x \<in> set xs. dom_ok x \<Longrightarrow> sorted_wrt (\<lambda>a b. cmp a b \<le> 0) (js_sort cmp xs)"
proof (induction xs)
  case (Cons x xs)
  then show ?case
    using sorted_insert[of x "js_sort cmp xs"] by (simp add: js_sort_def) (metis js_sort_def set_js_sort)
qed (simp add: js_sort_def)

text \<open>Stability: the elements equal to a given one keep their order.\<close>

lemma filter_insert:
  assumes "dom_ok k" "dom_ok x" "\<forall>y \<in> set ys. dom_ok y"
  shows "filter (\<lambda>y. cmp k y = 0) (insert_cmp cmp x ys) = filter (\<lambda>y. cmp k y = 0) (x # ys)"
  using assms(3)
proof (induction ys)
  case (Cons y ys)
  show ?case
  proof (cases "cmp y x < 0 \<and> cmp k x = 0 \<and> cmp k y = 0")
    case True
    then have "cmp x k \<le> 0" "cmp k y \<le> 0"
      using assms antisym[of k x] antisym[of x k] by force+
    then have "cmp x y \<le> 0" using trans[of x k y] assms Cons.prems by simp
    with True antisym[of y x] assms Cons.prems show ?thesis by auto
  next
    case False
    with Cons show ?thesis by auto
  qed
qed simp

lemma stable_sort:
  assumes "\<forall>x \<in> set xs. dom_ok x" "dom_ok k"
  shows "filter (\<lambda>y. cmp k y = 0) (js_sort cmp xs) = filter (\<lambda>y. cmp k y = 0) xs"
  using assms(1)
proof (induction xs)
  case (Cons x xs)
  then have "filter (\<lambda>y. cmp k y = 0) (insert_cmp cmp x (js_sort cmp xs))
      = filter (\<lambda>y. cmp k y = 0) (x # js_sort cmp xs)"
    using assms(2) by (intro filter_insert) auto
  with Cons show ?case by (simp add: js_sort_def)
qed (simp add: js_sort_def)

end

section \<open>The values of a dictionary, counted\<close>

lemma mset_concat_update:
  "distinct (map fst m) \<Longrightarrow>
     mset (concat (map g (map snd (AList.update k v m)))) + mset (case map_of m k of None \<Rightarrow> [] | Some x \<Rightarrow> g x)
     = mset (concat (map g (map snd m))) + mset (g v)"
proof (induction m)
  case (Cons p m)
  obtain k' v' where p: "p = (k', v')" by (cases p)
  show ?case
  proof (cases "k' = k")
    case True
    then show ?thesis by (simp add: p)
  next
    case False
    with Cons show ?thesis by (simp add: p add.assoc)
  qed
qed simp

lemma mset_concat_delete:
  "distinct (map fst m) \<Longrightarrow>
     mset (concat (map g (map snd (AList.delete k m)))) + mset (case map_of m k of None \<Rightarrow> [] | Some x \<Rightarrow> g x)
     = mset (concat (map g (map snd m)))"
proof (induction m)
  case (Cons p m)
  obtain k' v' where p: "p = (k', v')" by (cases p)
  show ?case
  proof (cases "k' = k")
    case True
    with Cons.prems p have "map_of m k = None" by (auto simp: map_of_eq_None_iff)
    with True Cons show ?thesis by (simp add: p)
  next
    case False
    with Cons show ?thesis by (simp add: p add.assoc)
  qed
qed simp

lemma distinct_concat_disjoint:
  assumes "distinct (concat (map g (map snd m)))" and "map_of m k = Some a" and "map_of m k' = Some b" and "k \<noteq> k'"
  shows "set (g a) \<inter> set (g b) = {}"
  using assms
proof (induction m)
  case (Cons p m)
  obtain j v where p: "p = (j, v)" by (cases p)
  have elem: "set (g x) \<subseteq> set (concat (map g (map snd m)))" if "map_of m i = Some x" for i x
    using map_of_SomeD[OF that] by force
  from Cons.prems(1) p have d: "set (g v) \<inter> set (concat (map g (map snd m))) = {}" by simp
  show ?case
  proof (cases "j = k \<or> j = k'")
    case True
    with Cons.prems(2-4) p d elem[of k a] elem[of k' b] show ?thesis by (auto split: if_splits)
  next
    case False
    with Cons p show ?thesis by (auto split: if_splits)
  qed
qed simp

section \<open>Comparing strings\<close>

text \<open>
  \<open>a.localeCompare(b)\<close> depends on the collation of the host. A collation is given by its sort
  keys (\<open>collationKey\<close>, a parameter wherever it is used): two strings compare as their keys do.
\<close>

fun key_cmp :: "nat list \<Rightarrow> nat list \<Rightarrow> int" where
  "key_cmp [] [] = 0"
| "key_cmp [] (y # ys) = -1"
| "key_cmp (x # xs) [] = 1"
| "key_cmp (x # xs) (y # ys) = (if x < y then -1 else if y < x then 1 else key_cmp xs ys)"

definition localeCompare :: "(string \<Rightarrow> nat list) \<Rightarrow> string \<Rightarrow> string \<Rightarrow> int" where
  "localeCompare collationKey a b = key_cmp (collationKey a) (collationKey b)"

lemma key_cmp_antisym: "key_cmp xs ys = - key_cmp ys xs"
  by (induction xs ys rule: key_cmp.induct) auto

lemma key_cmp_trans: "key_cmp xs ys \<le> 0 \<Longrightarrow> key_cmp ys zs \<le> 0 \<Longrightarrow> key_cmp xs zs \<le> 0"
proof (induction xs ys arbitrary: zs rule: key_cmp.induct)
  case 1
  then show ?case by simp
next
  case (2 y ys)
  show ?case by (cases zs) simp_all
next
  case (3 x xs)
  then show ?case by simp
next
  case (4 x xs y ys)
  show ?case
  proof (cases zs)
    case Nil
    with "4.prems" show ?thesis by simp
  next
    case (Cons z zs')
    consider "x < z" | "x = y" "y = z"
      using "4.prems" Cons by (force split: if_splits)
    then show ?thesis
    proof cases
      case 1
      with Cons show ?thesis by simp
    next
      case 2
      with "4.IH"[of zs'] "4.prems" Cons show ?thesis by simp
    qed
  qed
qed

lemma key_cmp_refl [simp]: "key_cmp xs xs = 0"
  by (induction xs) auto

interpretation collation: comparator "localeCompare collationKey" "\<lambda>_. True" for collationKey
proof unfold_locales
  show "localeCompare collationKey x y < 0 \<longleftrightarrow> localeCompare collationKey y x > 0" for x y
    using key_cmp_antisym[of "collationKey x" "collationKey y"] by (auto simp: localeCompare_def)
  show "localeCompare collationKey x y \<le> 0 \<Longrightarrow> localeCompare collationKey y z \<le> 0
      \<Longrightarrow> localeCompare collationKey x z \<le> 0" for x y z
    unfolding localeCompare_def by (rule key_cmp_trans)
qed

end
