(* ===== verification/Result_Stream.thy ===== *)
theory Result_Stream
  imports Execution_Events Js_Sort
begin

text \<open>
  The results of a streamed execution, \<open>service/sqlExecutionStream.ts\<close>: which results a user has
  closed, how result, row and finish events merge into the list of results, the accumulation of
  rows outside of that list, and the order of results. A result (\<open>IManageResultData\<close>) is a
  \<open>jsval\<close> object, as its fields come from untyped messages.
\<close>

section \<open>Closed results\<close>

record SqlExecutionResultIdentity =
  si_executionId :: string
  si_resultKey :: string

text \<open>A \<open>Map\<close> from execution ids to sets of result keys; a set is the list of its elements.\<close>

type_synonym ClosedSqlExecutionResults = "(string \<times> string list) list"

definition set_add :: "'a \<Rightarrow> 'a list \<Rightarrow> 'a list" where
  "set_add x xs = (if x \<in> set xs then xs else xs @ [x])"

definition markSqlExecutionResultsClosed ::
  "ClosedSqlExecutionResults \<Rightarrow> SqlExecutionResultIdentity list \<Rightarrow> ClosedSqlExecutionResults" where
  "markSqlExecutionResultsClosed closedResults identities =
     foldl (\<lambda>m i. let resultKeys = or_empty (map_of m (si_executionId i))
                  in AList.update (si_executionId i) (set_add (si_resultKey i) resultKeys) m)
       closedResults identities"

definition isSqlExecutionResultClosed :: "ClosedSqlExecutionResults \<Rightarrow> string \<Rightarrow> string \<Rightarrow> bool" where
  "isSqlExecutionResultClosed closedResults executionId resultKey \<longleftrightarrow>
     (case map_of closedResults executionId of None \<Rightarrow> False | Some keys \<Rightarrow> resultKey \<in> set keys)"

definition clearClosedSqlExecutionResults ::
  "ClosedSqlExecutionResults \<Rightarrow> string option \<Rightarrow> ClosedSqlExecutionResults" where
  "clearClosedSqlExecutionResults closedResults executionId =
     (if truthy_str executionId then AList.delete (the executionId) closedResults else [])"

section \<open>Cancelling\<close>

text \<open>
  The handler calls of one cancellation. The transport (\<open>cancelRequest\<close>) answers with a
  boolean or an error; an error thrown by \<open>onExecutionMissing\<close> is caught as well.
\<close>

datatype CancelHandlerCall = OnExecutionMissing | OnError jsval

definition cancelSqlExecutionWithReconciliation ::
  "string \<Rightarrow> jsval option \<Rightarrow> (string \<Rightarrow> jsval + bool) \<Rightarrow> CancelHandlerCall list" where
  "cancelSqlExecutionWithReconciliation executionId onExecutionMissingThrows cancelRequest =
     (case cancelRequest executionId of
        Inl error \<Rightarrow> [OnError error]
      | Inr cancelled \<Rightarrow>
          if \<not> cancelled
          then OnExecutionMissing # (case onExecutionMissingThrows of None \<Rightarrow> [] | Some e \<Rightarrow> [OnError e])
          else [])"

section \<open>Identity of results\<close>

abbreviation extra_of :: "jsval \<Rightarrow> string \<Rightarrow> jsval" where
  "extra_of r k \<equiv> jget (jget r ''extra'') k"

abbreviation defined :: "jsval \<Rightarrow> bool" where
  "defined v \<equiv> v \<noteq> Undefined"

text \<open>The comparison \<open>a !== undefined && b !== undefined && a === b\<close> of the sources.\<close>

definition both_eq :: "jsval \<Rightarrow> jsval \<Rightarrow> bool" where
  "both_eq a b \<longleftrightarrow> defined a \<and> defined b \<and> strict_eq a b"

definition isSameExecutionResult :: "jsval \<Rightarrow> jsval \<Rightarrow> bool" where
  "isSameExecutionResult left right =
     (let lk = extra_of left ''resultKey''; rk = extra_of right ''resultKey'';
          le = extra_of left ''executionId''; re = extra_of right ''executionId'';
          ls = extra_of left ''statementSequence''; rs = extra_of right ''statementSequence'';
          lr = extra_of left ''resultSequence''; rr = extra_of right ''resultSequence''
      in if defined lk \<and> defined rk \<and> strict_eq lk rk then True
         else if defined lk \<and> defined rk \<and> both_eq le re then False
         else if both_eq le re \<and> both_eq ls rs \<and> defined lr \<and> defined rr then strict_eq lr rr
         else both_eq le re \<and> both_eq ls rs)"

definition isSameResult :: "jsval \<Rightarrow> jsval \<Rightarrow> bool" where
  "isSameResult left right =
     (let lk = extra_of left ''resultKey''; rk = extra_of right ''resultKey'';
          le = extra_of left ''executionId''; re = extra_of right ''executionId'';
          lh = extra_of left ''historyKey''; rh = extra_of right ''historyKey'';
          ls = extra_of left ''statementSequence''; rs = extra_of right ''statementSequence'';
          lr = extra_of left ''resultSequence''; rr = extra_of right ''resultSequence'';
          lt = extra_of left ''streamResultId''; rt = extra_of right ''streamResultId''
      in if defined lk \<and> defined rk \<and> strict_eq lk rk then True
         else if defined lk \<and> defined rk \<and> both_eq le re then False
         else if defined lh \<and> defined rh \<and> strict_eq lh rh then True
         else if defined lh \<and> defined rh \<and> defined le \<and> defined re \<and> \<not> strict_eq le re then False
         else if both_eq le re \<and> both_eq ls rs \<and> defined lr \<and> defined rr then strict_eq lr rr
         else if defined le \<and> defined re \<and> \<not> strict_eq le re then False
         else if defined lt \<and> defined rt then strict_eq lt rt
         else if defined le \<and> defined re \<and> defined ls \<and> defined rs
           then strict_eq le re \<and> strict_eq ls rs
         else if defined (jget left ''resultSetId'') \<and> defined (jget right ''resultSetId'')
           then strict_eq (jget left ''resultSetId'') (jget right ''resultSetId'')
             \<and> strict_eq (jget left ''originalSql'') (jget right ''originalSql'')
         else strict_eq (jget left ''originalSql'') (jget right ''originalSql'')
             \<and> strict_eq (jget left ''sql'') (jget right ''sql''))"

section \<open>Normalising and merging results\<close>

text \<open>The object literal \<open>{ ...o, k: v, ... }\<close>.\<close>

definition with_fields :: "jsval \<Rightarrow> js_object \<Rightarrow> jsval" where
  "with_fields o' kvs = Obj (spread (jentries o') kvs)"

definition ensureResultData :: "jsval \<Rightarrow> jsval" where
  "ensureResultData normalized = with_fields normalized
     [(''description'', js_or (jget normalized ''description'') (Str [])),
      (''sql'', js_or (js_or (jget normalized ''sql'') (jget normalized ''originalSql'')) (Str [])),
      (''originalSql'', js_or (js_or (jget normalized ''originalSql'') (jget normalized ''sql'')) (Str [])),
      (''success'', coalesce (jget normalized ''success'') (Bool True)),
      (''headerList'', js_or (jget normalized ''headerList'') (Arr [])),
      (''dataList'', js_or (jget normalized ''dataList'') (Arr [])),
      (''sqlType'', js_or (jget normalized ''sqlType'') (Str ''OTHER'')),
      (''refreshTargets'', js_or (jget normalized ''refreshTargets'') (Arr [])),
      (''pageNo'', js_or (jget normalized ''pageNo'') (Num 1)),
      (''pageSize'', js_or (jget normalized ''pageSize'') (Num 0)),
      (''fuzzyTotal'', js_or (jget normalized ''fuzzyTotal'') (Str ''0'')),
      (''hasNextPage'', coalesce (jget normalized ''hasNextPage'') (Bool False))]"

text \<open>\<open>flatMap\<close> flattens an array and keeps any other value as one element.\<close>

fun flat_group :: "jsval \<Rightarrow> jsval list" where
  "flat_group (Arr xs) = xs"
| "flat_group v = (if truthy v then [v] else [])"

definition mergeExecutionMessages :: "jsval list \<Rightarrow> jsval" where
  "mergeExecutionMessages messageGroups =
     (let messages = concat (map flat_group messageGroups)
      in if messages = [] then Undefined else Arr (filter truthy messages))"

definition attachExecutionIdentity :: "jsval \<Rightarrow> string \<Rightarrow> int option \<Rightarrow> jsval" where
  "attachExecutionIdentity result executionId statementSequence =
     with_fields result [(''extra'', with_fields (jget result ''extra'')
        [(''executionId'', Str executionId), (''statementSequence'', num_or_undefined statementSequence)])]"

datatype MergeMode = Prepend | Append

definition place :: "MergeMode \<Rightarrow> 'a list \<Rightarrow> 'a \<Rightarrow> 'a list" where
  "place mode current r = (case mode of Append \<Rightarrow> current @ [r] | Prepend \<Rightarrow> r # current)"

definition startedItem :: "jsval \<Rightarrow> jsval \<Rightarrow> jsval" where
  "startedItem normalizedResult item = with_fields normalizedResult
     [(''uuid'', jget item ''uuid''), (''displayName'', jget item ''displayName''),
      (''extra'', with_fields (jget normalizedResult ''extra'')
         [(''messages'', mergeExecutionMessages
             [extra_of item ''messages'', extra_of normalizedResult ''messages''])])]"

definition mergeResultStartedWithMode :: "jsval list \<Rightarrow> jsval \<Rightarrow> MergeMode \<Rightarrow> jsval list" where
  "mergeResultStartedWithMode current result mode =
     (let normalizedResult = ensureResultData result;
          matched = list_ex (\<lambda>item. isSameResult item normalizedResult) current
      in if matched
         then map (\<lambda>item. if isSameResult item normalizedResult
                            then startedItem normalizedResult item else item) current
         else place mode current normalizedResult)"

definition mergeResultStarted :: "jsval list \<Rightarrow> jsval \<Rightarrow> jsval list" where
  "mergeResultStarted current result = mergeResultStartedWithMode current result Prepend"

definition appendResultStarted :: "jsval list \<Rightarrow> jsval \<Rightarrow> jsval list" where
  "appendResultStarted current result = mergeResultStartedWithMode current result Append"

definition appendRowsTo :: "jsval \<Rightarrow> jsval \<Rightarrow> jsval" where
  "appendRowsTo normalizedChunk item = with_fields item
     [(''dataList'', Arr (jarr (jget item ''dataList'') @ jarr (jget normalizedChunk ''dataList'')))]"

definition mergeRows :: "jsval list \<Rightarrow> jsval \<Rightarrow> jsval list" where
  "mergeRows current chunk =
     (let normalizedChunk = ensureResultData chunk;
          matched = list_ex (\<lambda>item. isSameResult item chunk) current;
          next = map (\<lambda>item. if isSameResult item chunk then appendRowsTo normalizedChunk item else item) current
      in if matched then next else next @ [normalizedChunk])"

definition finishedItem :: "jsval \<Rightarrow> jsval \<Rightarrow> jsval" where
  "finishedItem result item = with_fields (ensureResultData result)
     [(''uuid'', jget item ''uuid''), (''displayName'', jget item ''displayName''),
      (''dataList'', if jlen (jget item ''dataList'') \<noteq> 0 then jget item ''dataList'' else jget result ''dataList''),
      (''extra'', with_fields (jget result ''extra'')
         [(''messages'', mergeExecutionMessages [extra_of item ''messages'', extra_of result ''messages''])])]"

definition mergeResultFinishedWithMode :: "jsval list \<Rightarrow> jsval \<Rightarrow> MergeMode \<Rightarrow> jsval list" where
  "mergeResultFinishedWithMode current result mode =
     (if list_ex (\<lambda>item. isSameResult item result) current
      then map (\<lambda>item. if isSameResult item result then finishedItem result item else item) current
      else place mode current (ensureResultData result))"

definition mergeResultFinished :: "jsval list \<Rightarrow> jsval \<Rightarrow> jsval list" where
  "mergeResultFinished current result = mergeResultFinishedWithMode current result Prepend"

definition appendResultFinished :: "jsval list \<Rightarrow> jsval \<Rightarrow> jsval list" where
  "appendResultFinished current result = mergeResultFinishedWithMode current result Append"

datatype ResultStage = StageStarted | StageFinished

definition upsertItem :: "jsval \<Rightarrow> ResultStage \<Rightarrow> jsval \<Rightarrow> jsval" where
  "upsertItem normalizedResult stage item =
     (let mergeCurrentResult = isSameExecutionResult item normalizedResult;
          messages = (if mergeCurrentResult
            then mergeExecutionMessages [extra_of item ''messages'', extra_of normalizedResult ''messages'']
            else extra_of normalizedResult ''messages'');
          head = [(''uuid'', jget item ''uuid''),
                  (''displayName'', js_or (jget normalizedResult ''displayName'') (jget item ''displayName''))];
          tail = [(''extra'', with_fields (jget normalizedResult ''extra'') [(''messages'', messages)])]
      in case stage of
           StageFinished \<Rightarrow> with_fields normalizedResult
             (head @ [(''dataList'', if mergeCurrentResult \<and> jlen (jget item ''dataList'') \<noteq> 0
                        then jget item ''dataList'' else jget normalizedResult ''dataList'')] @ tail)
         | StageStarted \<Rightarrow> with_fields normalizedResult (head @ tail))"

text \<open>The map with the flag \<open>matched\<close>: only the first match is replaced.\<close>

fun upsertFirst :: "jsval \<Rightarrow> ResultStage \<Rightarrow> jsval list \<Rightarrow> jsval list option" where
  "upsertFirst normalizedResult stage [] = None"
| "upsertFirst normalizedResult stage (item # items) =
     (if isSameResult item normalizedResult then Some (upsertItem normalizedResult stage item # items)
      else map_option ((#) item) (upsertFirst normalizedResult stage items))"

definition upsertResult :: "jsval list \<Rightarrow> jsval \<Rightarrow> ResultStage \<Rightarrow> jsval list" where
  "upsertResult current result stage =
     (let normalizedResult = ensureResultData result
      in case upsertFirst normalizedResult stage current of
           Some next \<Rightarrow> next
         | None \<Rightarrow> current @ [normalizedResult])"

definition upsertResultStarted :: "jsval list \<Rightarrow> jsval \<Rightarrow> jsval list" where
  "upsertResultStarted current result = upsertResult current result StageStarted"

definition upsertResultFinished :: "jsval list \<Rightarrow> jsval \<Rightarrow> jsval list" where
  "upsertResultFinished current result = upsertResult current result StageFinished"

section \<open>Pending rows\<close>

type_synonym PendingSqlExecutionRows = "(string \<times> jsval) list"

definition appendRowsToPendingResult ::
  "PendingSqlExecutionRows \<Rightarrow> string \<Rightarrow> jsval \<Rightarrow> nat \<times> PendingSqlExecutionRows" where
  "appendRowsToPendingResult pendingRows resultKey chunk =
     (let rows = jarr (jget chunk ''dataList'')
      in case map_of pendingRows resultKey of
           None \<Rightarrow> (length rows,
             AList.update resultKey (with_fields chunk [(''dataList'', Arr rows)]) pendingRows)
         | Some existing \<Rightarrow>
             let dataList = jarr (jget existing ''dataList'') @ rows
             in (length dataList,
                 AList.update resultKey (jset ''dataList'' (Arr dataList) existing) pendingRows))"

definition discardPendingRowsForExecution ::
  "PendingSqlExecutionRows \<Rightarrow> string \<Rightarrow> PendingSqlExecutionRows" where
  "discardPendingRowsForExecution pendingRows executionId =
     filter (\<lambda>(resultKey, result). \<not> strict_eq (extra_of result ''executionId'') (Str executionId)) pendingRows"

section \<open>Order of results\<close>

definition getResultSortIdentity :: "jsval \<Rightarrow> jsval" where
  "getResultSortIdentity item =
     js_or (js_or (js_or (js_or (js_or (extra_of item ''resultKey'') (extra_of item ''historyKey''))
       (jget item ''uuid'')) (jget item ''originalSql'')) (jget item ''sql'')) (Str [])"

definition executionNumber :: "jsval \<Rightarrow> int option" where
  "executionNumber r = to_number (js_or (extra_of r ''executionSequence'') (Num 0))"

definition statementNumber :: "jsval \<Rightarrow> int option" where
  "statementNumber r = to_number
     (coalesce (coalesce (extra_of r ''statementSequence'') (jget r ''statementSequence'')) (Num 0))"

definition resultNumber :: "jsval \<Rightarrow> int option" where
  "resultNumber r = to_number (js_or (js_or (js_or (extra_of r ''resultSequence'')
     (extra_of r ''streamResultId'')) (jget r ''resultSetId'')) (Num 0))"

text \<open>\<open>if (a !== b) return a - b\<close>: a difference with \<open>NaN\<close> is \<open>NaN\<close>, which counts as 0.\<close>

definition by_number :: "int option \<Rightarrow> int option \<Rightarrow> int \<Rightarrow> int" where
  "by_number a b otherwise = (case (a, b) of
     (Some x, Some y) \<Rightarrow> if x \<noteq> y then x - y else otherwise
   | _ \<Rightarrow> 0)"

definition compareExecutionResults :: "(string \<Rightarrow> nat list) \<Rightarrow> jsval \<Rightarrow> jsval \<Rightarrow> int" where
  "compareExecutionResults collationKey left right =
     by_number (executionNumber left) (executionNumber right)
      (by_number (statementNumber left) (statementNumber right)
        (by_number (resultNumber left) (resultNumber right)
          (localeCompare collationKey (js_String (getResultSortIdentity left))
             (js_String (getResultSortIdentity right)))))"

definition sortExecutionResults :: "(string \<Rightarrow> nat list) \<Rightarrow> jsval list \<Rightarrow> jsval list" where
  "sortExecutionResults collationKey current = js_sort (compareExecutionResults collationKey) current"

end
