(* ===== verification/Result_Stream_Properties.thy ===== *)
theory Result_Stream_Properties
  imports Result_Stream
begin

text \<open>
  Properties of the streamed results: closed results, the equivalence of accumulating rows outside
  the list with merging every chunk, replacement in place, and the order of results.
\<close>

section \<open>Closed results\<close>

lemma set_set_add [simp]: "set (set_add x xs) = insert x (set xs)"
  by (auto simp: set_add_def)

lemma mark_one_closed:
  "isSqlExecutionResultClosed (AList.update e (set_add k (or_empty (map_of m e))) m) e' k'
    \<longleftrightarrow> isSqlExecutionResultClosed m e' k' \<or> (e', k') = (e, k)"
  by (cases "e' = e"; cases "map_of m e")
     (auto simp: isSqlExecutionResultClosed_def js_map.get_set split: option.splits)

lemma mark_closed_iff:
  "isSqlExecutionResultClosed (markSqlExecutionResultsClosed m ids) e k \<longleftrightarrow>
     isSqlExecutionResultClosed m e k \<or> (\<exists>i \<in> set ids. si_executionId i = e \<and> si_resultKey i = k)"
proof (induction ids arbitrary: m)
  case Nil
  then show ?case by (simp add: markSqlExecutionResultsClosed_def)
next
  case (Cons i ids)
  then show ?case
    by (auto simp: markSqlExecutionResultsClosed_def Let_def mark_one_closed)
qed

text \<open>
  A result is closed exactly when it was marked closed and its execution was not cleared
  afterwards. Marking a list of results closes these and no others; clearing one execution
  reopens its results and no others; clearing without an id (or with an empty one) reopens all.
\<close>
theorem closed_results_spec:
  "(isSqlExecutionResultClosed (markSqlExecutionResultsClosed m ids) e k \<longleftrightarrow>
      isSqlExecutionResultClosed m e k \<or> \<lparr>si_executionId = e, si_resultKey = k\<rparr> \<in> set ids)
   \<and> (isSqlExecutionResultClosed (clearClosedSqlExecutionResults m x) e k \<longleftrightarrow>
      isSqlExecutionResultClosed m e k \<and> truthy_str x \<and> x \<noteq> Some e)"
proof
  have eq: "si_executionId i = e \<and> si_resultKey i = k \<longleftrightarrow> i = \<lparr>si_executionId = e, si_resultKey = k\<rparr>" for i
    by (cases i) auto
  show "isSqlExecutionResultClosed (markSqlExecutionResultsClosed m ids) e k \<longleftrightarrow>
     isSqlExecutionResultClosed m e k \<or> \<lparr>si_executionId = e, si_resultKey = k\<rparr> \<in> set ids"
    unfolding mark_closed_iff eq by auto
  show "isSqlExecutionResultClosed (clearClosedSqlExecutionResults m x) e k \<longleftrightarrow>
     isSqlExecutionResultClosed m e k \<and> truthy_str x \<and> x \<noteq> Some e"
    by (cases x)
       (auto simp: isSqlExecutionResultClosed_def clearClosedSqlExecutionResults_def js_map.get_delete)
qed

section \<open>Objects\<close>

lemma jget_with_fields:
  "distinct (map fst kvs) \<Longrightarrow>
     jget (with_fields r kvs) k = (case map_of kvs k of Some v \<Rightarrow> v | None \<Rightarrow> jget r k)"
  by (cases r) (auto simp: with_fields_def map_of_spread map_add_def split: option.splits)

lemma with_fields_single: "with_fields r [(k, v)] = jset k v r"
  by (simp add: with_fields_def jset_def spread_def)

lemma jset_jset [simp]: "jset k v (jset k w r) = jset k v r"
  by (simp add: jset_def)

lemma update_commute_present:
  "k \<in> fst ` set a \<Longrightarrow> k \<noteq> k' \<Longrightarrow>
     AList.update k v (AList.update k' v' a) = AList.update k' v' (AList.update k v a)"
  by (induction a) auto

lemma spread_update_present:
  assumes "k \<in> fst ` set a"
  shows "spread (AList.update k v a) (map (\<lambda>(k', v'). (k', if k' = k then v else v')) b)
    = AList.update k v (spread a b)"
  using assms
proof (induction b arbitrary: a)
  case Nil
  then show ?case by (simp add: spread_def)
next
  case (Cons p b)
  obtain k' v' where p: "p = (k', v')" by (cases p)
  have dom: "k \<in> fst ` set (AList.update k' v' a)" using Cons.prems by (simp add: dom_update)
  show ?case
    using Cons.IH[OF dom] Cons.prems update_commute_present[of k a k' v v']
    by (cases "k' = k") (simp_all add: p spread_def)
qed

section \<open>Identity\<close>

definition result_ident :: "jsval \<Rightarrow> jsval \<times> jsval \<times> jsval \<times> jsval" where
  "result_ident r = (jget r ''extra'', jget r ''resultSetId'', jget r ''originalSql'', jget r ''sql'')"

lemma isSameResult_cong:
  assumes "result_ident a = result_ident a'" and "result_ident b = result_ident b'"
  shows "isSameResult a b = isSameResult a' b'"
proof -
  have eqs: "jget a ''extra'' = jget a' ''extra''" "jget b ''extra'' = jget b' ''extra''"
    "jget a ''resultSetId'' = jget a' ''resultSetId''" "jget b ''resultSetId'' = jget b' ''resultSetId''"
    "jget a ''originalSql'' = jget a' ''originalSql''" "jget b ''originalSql'' = jget b' ''originalSql''"
    "jget a ''sql'' = jget a' ''sql''" "jget b ''sql'' = jget b' ''sql''"
    using assms by (simp_all add: result_ident_def)
  show ?thesis unfolding isSameResult_def eqs ..
qed

lemma ident_jset_dataList [simp]: "result_ident (jset ''dataList'' v r) = result_ident r"
  by (simp add: result_ident_def)

lemma both_eq_sym: "both_eq a b = both_eq b a"
  by (auto simp: both_eq_def strict_eq_sym)

text \<open>
  Whether two results are the same one does not depend on which of them arrives first: the
  cascade of comparisons on result keys, history keys, executions, statements and stream ids is
  symmetric. Two results of one execution with different result keys are never the same, and
  two results with the same result key always are.
\<close>
theorem isSameResult_symmetric:
  "isSameResult a b = isSameResult b a
   \<and> (both_eq (extra_of a ''resultKey'') (extra_of b ''resultKey'') \<longrightarrow> isSameResult a b)
   \<and> (defined (extra_of a ''resultKey'') \<and> defined (extra_of b ''resultKey'')
        \<and> \<not> strict_eq (extra_of a ''resultKey'') (extra_of b ''resultKey'')
        \<and> both_eq (extra_of a ''executionId'') (extra_of b ''executionId'') \<longrightarrow> \<not> isSameResult a b)"
proof (intro conjI impI)
  show "isSameResult a b = isSameResult b a"
    by (simp only: isSameResult_def Let_def both_eq_def strict_eq_sym conj_commute conj_left_commute)
next
  assume "both_eq (extra_of a ''resultKey'') (extra_of b ''resultKey'')"
  then show "isSameResult a b"
    by (simp only: isSameResult_def Let_def both_eq_def simp_thms if_True)
next
  assume "defined (extra_of a ''resultKey'') \<and> defined (extra_of b ''resultKey'')
        \<and> \<not> strict_eq (extra_of a ''resultKey'') (extra_of b ''resultKey'')
        \<and> both_eq (extra_of a ''executionId'') (extra_of b ''executionId'')"
  then show "\<not> isSameResult a b"
    by (simp only: isSameResult_def Let_def simp_thms if_True if_False)
qed

section \<open>Accumulating rows\<close>

definition rows_of :: "jsval \<Rightarrow> jsval list" where
  "rows_of r = jarr (jget r ''dataList'')"

definition add_rows :: "jsval \<Rightarrow> jsval list \<Rightarrow> jsval" where
  "add_rows r rows = jset ''dataList'' (Arr (rows_of r @ rows)) r"

lemma rows_of_add_rows [simp]: "rows_of (add_rows r rows) = rows_of r @ rows"
  by (simp add: rows_of_def add_rows_def)

lemma add_rows_add_rows [simp]: "add_rows (add_rows r xs) ys = add_rows r (xs @ ys)"
  by (simp add: add_rows_def rows_of_def)

lemma ident_add_rows [simp]: "result_ident (add_rows r xs) = result_ident r"
  by (simp add: add_rows_def)

lemma rows_of_ensure [simp]: "rows_of (ensureResultData c) = rows_of c"
proof -
  have "jarr (js_or v (Arr [])) = jarr v" for v
    by (cases v) (auto simp: js_or_def)
  then show ?thesis
    by (simp add: rows_of_def ensureResultData_def jget_with_fields)
qed

lemma extra_ensure [simp]: "jget (ensureResultData c) ''extra'' = jget c ''extra''"
  by (simp add: ensureResultData_def jget_with_fields)

lemma appendRowsTo_eq: "appendRowsTo (ensureResultData c) item = add_rows item (rows_of c)"
  using rows_of_ensure[of c]
  by (simp add: appendRowsTo_def with_fields_single add_rows_def rows_of_def)

lemma mergeRows_eq:
  "mergeRows current chunk =
     (let next = map (\<lambda>item. if isSameResult item chunk then add_rows item (rows_of chunk) else item) current
      in if list_ex (\<lambda>item. isSameResult item chunk) current then next else next @ [ensureResultData chunk])"
  by (simp add: mergeRows_def appendRowsTo_eq Let_def)

text \<open>A chunk of rows has its rows in an array.\<close>

definition is_chunk :: "jsval \<Rightarrow> bool" where
  "is_chunk c \<longleftrightarrow> jget c ''dataList'' = Arr (rows_of c)"

lemma is_chunkE:
  assumes "is_chunk c"
  obtains kvs ds where "c = Obj kvs" and "map_of kvs ''dataList'' = Some (Arr ds)"
  using assms by (cases c) (auto simp: is_chunk_def split: option.splits)

lemma is_chunk_add_rows: "is_chunk (add_rows c rows)"
  by (simp add: is_chunk_def add_rows_def rows_of_def)

lemma add_rows_Nil: "is_chunk c \<Longrightarrow> add_rows c [] = c"
  by (auto elim!: is_chunkE simp: add_rows_def jset_def rows_of_def update_triv)

lemma ensure_add_rows:
  assumes "is_chunk c"
  shows "ensureResultData (add_rows c rows) = add_rows (ensureResultData c) rows"
proof -
  from assms obtain kvs ds where c: "c = Obj kvs" and ds: "map_of kvs ''dataList'' = Some (Arr ds)"
    by (rule is_chunkE)
  from ds have dom: "''dataList'' \<in> fst ` set kvs" by (force dest: map_of_SomeD)
  have g: "jget (add_rows c rows) k = (if k = ''dataList'' then Arr (ds @ rows) else jget c k)" for k
    using c ds by (simp add: add_rows_def rows_of_def)
  have d: "js_or (Arr xs) y = Arr xs" for xs y by (simp add: js_or_def)
  have "rows_of c = ds" using c ds by (simp add: rows_of_def)
  then have rows: "rows_of (ensureResultData c) = ds" by simp
  have entries: "jentries (add_rows c rows) = AList.update ''dataList'' (Arr (ds @ rows)) kvs"
    using c ds by (simp add: add_rows_def jset_def rows_of_def)
  show ?thesis
    unfolding add_rows_def[of "ensureResultData c"] rows jset_def
    unfolding ensureResultData_def with_fields_def entries jentries.simps c
    unfolding spread_update_present[OF dom, symmetric]
    using g entries by (simp add: c ds d)
qed

lemma merge_two_chunks:
  assumes "result_ident c' = result_ident c" and "is_chunk c" and "extra_of c ''resultKey'' = Str k"
  shows "mergeRows (mergeRows current c) c' = mergeRows current (add_rows c (rows_of c'))"
proof -
  have same: "isSameResult item c' = isSameResult item c"
    "isSameResult item (add_rows c xs) = isSameResult item c"
    "isSameResult (add_rows item xs) c = isSameResult item c" for item xs
    by (rule isSameResult_cong; simp add: assms(1))+
  have new: "isSameResult (ensureResultData c) c"
    using assms(3) by (simp add: isSameResult_def)
  show ?thesis
  proof (cases "list_ex (\<lambda>item. isSameResult item c) current")
    case True
    then obtain item where item: "item \<in> set current" "isSameResult item c"
      by (auto simp: list_ex_iff)
    then have "add_rows item (rows_of c) \<in> set (mergeRows current c)"
      using True by (auto simp: mergeRows_eq Let_def)
    moreover have "isSameResult (add_rows item (rows_of c)) c" using item by (simp add: same)
    ultimately have "list_ex (\<lambda>item. isSameResult item c) (mergeRows current c)"
      by (auto simp: list_ex_iff)
    with True show ?thesis by (auto simp: mergeRows_eq same Let_def)
  next
    case False
    then have "map (\<lambda>item. if isSameResult item c then f item else item) current = current" for f
      by (intro map_idI) (auto simp: list_ex_iff)
    with False new show ?thesis
      by (simp add: mergeRows_eq same Let_def ensure_add_rows[OF assms(2)])
  qed
qed

definition accumulate :: "PendingSqlExecutionRows \<Rightarrow> string \<Rightarrow> jsval list \<Rightarrow> PendingSqlExecutionRows" where
  "accumulate pending key chunks = foldl (\<lambda>p c. snd (appendRowsToPendingResult p key c)) pending chunks"

lemma accumulate_existing:
  "map_of p key = Some e \<Longrightarrow>
     map_of (accumulate p key cs) key = Some (foldl (\<lambda>e c. add_rows e (rows_of c)) e cs)"
proof (induction cs arbitrary: p e)
  case (Cons c cs)
  have "map_of (snd (appendRowsToPendingResult p key c)) key = Some (add_rows e (rows_of c))"
    using Cons.prems
    by (simp add: appendRowsToPendingResult_def Let_def js_map.get_set add_rows_def rows_of_def)
  from Cons.IH[OF this] show ?case by (simp add: accumulate_def)
qed (simp add: accumulate_def)

lemma foldl_add_rows:
  "add_rows c [] = c \<Longrightarrow> foldl (\<lambda>e c. add_rows e (rows_of c)) c cs = add_rows c (concat (map rows_of cs))"
proof (induction cs arbitrary: c)
  case (Cons c' cs)
  from Cons.IH[of "add_rows c (rows_of c')"] show ?case by simp
qed simp

lemma merge_chunks:
  assumes "\<forall>c' \<in> set cs. result_ident c' = result_ident c" and "is_chunk c"
    and "extra_of c ''resultKey'' = Str k"
  shows "foldl mergeRows (mergeRows current c) cs
    = mergeRows current (foldl (\<lambda>e c. add_rows e (rows_of c)) c cs)"
  using assms
proof (induction cs arbitrary: c)
  case (Cons c' cs)
  have ident: "result_ident (add_rows c (rows_of c')) = result_ident c" by simp
  have key: "extra_of (add_rows c (rows_of c')) ''resultKey'' = Str k"
    using Cons.prems(3) ident by (simp add: result_ident_def)
  have "foldl mergeRows (mergeRows current (add_rows c (rows_of c'))) cs
      = mergeRows current (foldl (\<lambda>e c. add_rows e (rows_of c)) (add_rows c (rows_of c')) cs)"
    using Cons.prems ident key by (intro Cons.IH) (auto intro: is_chunk_add_rows)
  with Cons.prems merge_two_chunks[of c' c k current] show ?case by simp
qed simp

text \<open>
  C38: The row accumulation is a correct optimisation. Collecting the row chunks of one result
  outside the list (from an empty slot) and merging the collected result once gives exactly the
  list that merging every chunk as it arrives would give, whether the result is already in the
  list or not; no row is lost, duplicated or reordered. The chunks belong to one result (same
  \<open>extra\<close> with a string result key, same SQL), and each carries its rows in an array.
\<close>
theorem pending_rows_equiv:
  assumes "map_of pending key = None"
    and "\<forall>c' \<in> set cs. result_ident c' = result_ident c"
    and "is_chunk c" and "extra_of c ''resultKey'' = Str k"
  shows "\<exists>collected. map_of (accumulate pending key (c # cs)) key = Some collected
    \<and> mergeRows current collected = foldl mergeRows current (c # cs)
    \<and> jget collected ''dataList'' = Arr (concat (map rows_of (c # cs)))"
proof -
  let ?all = "foldl (\<lambda>e c. add_rows e (rows_of c)) c cs"
  have c: "jset ''dataList'' (Arr (rows_of c)) c = c"
    using add_rows_Nil[OF assms(3)] by (simp add: add_rows_def)
  have "map_of (snd (appendRowsToPendingResult pending key c)) key = Some c"
    using assms(1) c
    by (simp add: appendRowsToPendingResult_def Let_def js_map.get_set with_fields_single rows_of_def)
  from accumulate_existing[OF this, of cs]
  have "map_of (accumulate pending key (c # cs)) key = Some ?all" by (simp add: accumulate_def)
  moreover have "mergeRows current ?all = foldl mergeRows current (c # cs)"
    using merge_chunks[OF assms(2-4)] by simp
  moreover have "?all = add_rows c (concat (map rows_of cs))"
    by (rule foldl_add_rows) (rule add_rows_Nil[OF assms(3)])
  then have "jget ?all ''dataList'' = Arr (concat (map rows_of (c # cs)))" by (simp add: add_rows_def)
  ultimately show ?thesis by blast
qed

definition example_chunk :: "int \<Rightarrow> jsval" where
  "example_chunk n = Obj [(''extra'', Obj [(''resultKey'', Str ''e1:1:1''), (''executionId'', Str ''e1'')]),
     (''originalSql'', Str ''select n from t''), (''dataList'', Arr [Arr [Num n]])]"

theorem pending_rows_equiv_witness:
  "\<exists>collected. map_of (accumulate [] ''e1:1:1'' [example_chunk 1, example_chunk 2]) ''e1:1:1'' = Some collected
    \<and> mergeRows [Obj []] collected = foldl mergeRows [Obj []] [example_chunk 1, example_chunk 2]
    \<and> jget collected ''dataList'' = Arr [Arr [Num 1], Arr [Num 2]]"
  using pending_rows_equiv[of "[]" "''e1:1:1''" "[example_chunk 2]" "example_chunk 1" "''e1:1:1''" "[Obj []]"]
  by (simp add: example_chunk_def result_ident_def is_chunk_def rows_of_def)

theorem isSameResult_symmetric_witness:
  "isSameResult (example_chunk 1) (example_chunk 2)
    \<and> \<not> isSameResult (example_chunk 1)
       (Obj [(''extra'', Obj [(''resultKey'', Str ''e1:1:2''), (''executionId'', Str ''e1'')])])"
  using isSameResult_symmetric[of "example_chunk 1" "example_chunk 2", THEN conjunct2]
    isSameResult_symmetric[of "example_chunk 1"
      "Obj [(''extra'', Obj [(''resultKey'', Str ''e1:1:2''), (''executionId'', Str ''e1'')])]", THEN conjunct2]
  by (simp add: example_chunk_def both_eq_def)

section \<open>Replacing a result in place\<close>

lemma upsertFirst_None: "upsertFirst n stage items = None \<longleftrightarrow> (\<forall>item \<in> set items. \<not> isSameResult item n)"
  by (induction items) auto

lemma upsertFirst_Some:
  "upsertFirst n stage items = Some out \<Longrightarrow>
     \<exists>pre item post. items = pre @ item # post \<and> (\<forall>x \<in> set pre. \<not> isSameResult x n)
       \<and> isSameResult item n \<and> out = pre @ upsertItem n stage item # post"
proof (induction items arbitrary: out)
  case (Cons x items)
  show ?case
  proof (cases "isSameResult x n")
    case True
    with Cons.prems show ?thesis by (intro exI[of _ "[]"]) auto
  next
    case False
    with Cons.prems obtain out' where o: "upsertFirst n stage items = Some out'" "out = x # out'" by auto
    from Cons.IH[OF o(1)] obtain pre item post where
      "items = pre @ item # post" "\<forall>x \<in> set pre. \<not> isSameResult x n" "isSameResult item n"
      "out' = pre @ upsertItem n stage item # post" by blast
    with False o(2) show ?thesis by (intro exI[of _ "x # pre"]) auto
  qed
qed simp

lemma jget_upsertItem:
  "jget (upsertItem n stage item) ''uuid'' = jget item ''uuid''"
  "stage = StageFinished \<Longrightarrow> isSameExecutionResult item n \<Longrightarrow> jlen (jget item ''dataList'') \<noteq> 0 \<Longrightarrow>
     jget (upsertItem n stage item) ''dataList'' = jget item ''dataList''"
  by (cases stage; simp add: upsertItem_def Let_def jget_with_fields)+

text \<open>
  A started or finished result is merged in place. If no result of the list is the same one,
  the new one goes to the end; otherwise only the first match is replaced, at its position,
  every other result stays untouched, and the replacement keeps the \<open>uuid\<close> the view knows. When
  a finished result belongs to the same execution, rows that were already streamed are kept.
\<close>
theorem upsertResult_in_place:
  fixes n :: jsval and result :: jsval
  defines "n \<equiv> ensureResultData result"
  shows "(\<forall>item \<in> set current. \<not> isSameResult item n) \<and> upsertResult current result stage = current @ [n]
    \<or> (\<exists>pre item post item'. current = pre @ item # post \<and> (\<forall>x \<in> set pre. \<not> isSameResult x n)
        \<and> isSameResult item n \<and> upsertResult current result stage = pre @ item' # post
        \<and> jget item' ''uuid'' = jget item ''uuid''
        \<and> (stage = StageFinished \<and> isSameExecutionResult item n \<and> jlen (jget item ''dataList'') \<noteq> 0
            \<longrightarrow> jget item' ''dataList'' = jget item ''dataList''))"
proof (cases "upsertFirst n stage current")
  case None
  then have "upsertResult current result stage = current @ [n]" by (simp add: upsertResult_def n_def)
  with None show ?thesis unfolding upsertFirst_None by blast
next
  case (Some out)
  from upsertFirst_Some[OF this] obtain pre item post where
    split: "current = pre @ item # post" "\<forall>x \<in> set pre. \<not> isSameResult x n" "isSameResult item n"
    and out: "out = pre @ upsertItem n stage item # post" by blast
  have "upsertResult current result stage = pre @ upsertItem n stage item # post"
    using Some out by (simp add: upsertResult_def n_def)
  with split jget_upsertItem[where n = n and item = item and stage = stage] show ?thesis by blast
qed

theorem upsertResult_in_place_witness:
  "\<exists>item'. upsertResult [Obj [], jset ''uuid'' (Str ''u'') (example_chunk 1)] (example_chunk 2) StageFinished = [Obj [], item']
     \<and> jget item' ''uuid'' = Str ''u'' \<and> jget item' ''dataList'' = Arr [Arr [Num 1]]"
proof -
  let ?old = "jset ''uuid'' (Str ''u'') (example_chunk 1)"
  let ?n = "ensureResultData (example_chunk 2)"
  have same: "isSameResult ?old ?n" "isSameExecutionResult ?old ?n"
    by (simp_all add: isSameResult_def isSameExecutionResult_def example_chunk_def)
  have other: "\<not> isSameResult (Obj []) ?n"
    by (simp add: isSameResult_def example_chunk_def ensureResultData_def jget_with_fields js_or_def)
  have "\<not> (\<forall>item \<in> set [Obj [], ?old]. \<not> isSameResult item ?n)" using same by simp
  with upsertResult_in_place[of "[Obj [], ?old]" "example_chunk 2" StageFinished]
  obtain pre item post item' where split: "[Obj [], ?old] = pre @ item # post" "isSameResult item ?n"
    and res: "upsertResult [Obj [], ?old] (example_chunk 2) StageFinished = pre @ item' # post"
      "jget item' ''uuid'' = jget item ''uuid''"
      "isSameExecutionResult item ?n \<and> jlen (jget item ''dataList'') \<noteq> 0 \<longrightarrow>
         jget item' ''dataList'' = jget item ''dataList''" by blast
  from split other have "pre = [Obj []]" "item = ?old" "post = []"
    by (auto simp: Cons_eq_append_conv)
  with res same show ?thesis by (simp add: example_chunk_def)
qed

section \<open>Order\<close>

definition numeric_keys :: "jsval \<Rightarrow> bool" where
  "numeric_keys r \<longleftrightarrow> executionNumber r \<noteq> None \<and> statementNumber r \<noteq> None \<and> resultNumber r \<noteq> None"

lemma by_number_antisym:
  "a \<noteq> None \<Longrightarrow> b \<noteq> None \<Longrightarrow> x = - y \<Longrightarrow> by_number a b x = - by_number b a y"
  by (auto simp: by_number_def)

lemma by_number_le:
  "by_number (Some x) (Some y) z \<le> 0 \<longleftrightarrow> x < y \<or> x = y \<and> z \<le> 0"
  by (auto simp: by_number_def)

interpretation result_order: comparator "compareExecutionResults collationKey" numeric_keys for collationKey
proof unfold_locales
  fix x y z
  assume ok: "numeric_keys x" "numeric_keys y"
  have "compareExecutionResults collationKey x y = - compareExecutionResults collationKey y x"
    using ok unfolding compareExecutionResults_def numeric_keys_def localeCompare_def
    by (intro by_number_antisym key_cmp_antisym) auto
  then show "compareExecutionResults collationKey x y < 0 \<longleftrightarrow> compareExecutionResults collationKey y x > 0"
    by auto
  assume "numeric_keys z" "compareExecutionResults collationKey x y \<le> 0"
    "compareExecutionResults collationKey y z \<le> 0"
  with ok show "compareExecutionResults collationKey x z \<le> 0"
    unfolding compareExecutionResults_def numeric_keys_def
    by (auto simp: by_number_le intro: collation.trans)
qed

lemma compare_execution:
  "compareExecutionResults collationKey x y \<le> 0 \<Longrightarrow> numeric_keys x \<Longrightarrow> numeric_keys y \<Longrightarrow>
     the (executionNumber x) \<le> the (executionNumber y)"
  by (auto simp: compareExecutionResults_def numeric_keys_def by_number_le)

text \<open>
  Results are shown in execution order. For results with numeric sequence numbers the sort
  is a permutation, ordered by execution, then statement, then result number, then identity,
  and two results that compare as equal keep their order; whatever the collation of the host.
\<close>
theorem sortExecutionResults_ordered:
  assumes "\<forall>r \<in> set rs. numeric_keys r"
  shows "mset (sortExecutionResults collationKey rs) = mset rs
    \<and> sorted_wrt (\<lambda>a b. compareExecutionResults collationKey a b \<le> 0) (sortExecutionResults collationKey rs)
    \<and> sorted (map (the \<circ> executionNumber) (sortExecutionResults collationKey rs))
    \<and> (\<forall>k \<in> set rs. filter (\<lambda>r. compareExecutionResults collationKey k r = 0) (sortExecutionResults collationKey rs)
         = filter (\<lambda>r. compareExecutionResults collationKey k r = 0) rs)"
proof (intro conjI)
  show s: "sorted_wrt (\<lambda>a b. compareExecutionResults collationKey a b \<le> 0) (sortExecutionResults collationKey rs)"
    unfolding sortExecutionResults_def by (rule result_order.sorted_sort[OF assms])
  have "sorted_wrt (\<lambda>a b. the (executionNumber a) \<le> the (executionNumber b)) (sortExecutionResults collationKey rs)"
    using assms by (intro sorted_wrt_mono_rel[OF compare_execution s]) (auto simp: sortExecutionResults_def)
  then show "sorted (map (the \<circ> executionNumber) (sortExecutionResults collationKey rs))"
    by (simp add: sorted_map)
  show "\<forall>k \<in> set rs. filter (\<lambda>r. compareExecutionResults collationKey k r = 0) (sortExecutionResults collationKey rs)
      = filter (\<lambda>r. compareExecutionResults collationKey k r = 0) rs"
    unfolding sortExecutionResults_def using assms by (intro ballI result_order.stable_sort) auto
qed (simp add: sortExecutionResults_def)

definition example_batch :: "int \<Rightarrow> jsval" where
  "example_batch n = Obj [(''extra'', Obj [(''executionSequence'', Num n)])]"

theorem sortExecutionResults_ordered_witness:
  "sorted (map (the \<circ> executionNumber) (sortExecutionResults (map of_char) [example_batch 2, example_batch 1]))"
  using sortExecutionResults_ordered[of "[example_batch 2, example_batch 1]" "map of_char"]
  by (simp add: example_batch_def numeric_keys_def executionNumber_def statementNumber_def resultNumber_def
        js_or_def coalesce_def nullish_def)

end
