(* ===== verification/Execution_Snapshots.thy ===== *)
theory Execution_Snapshots
  imports Result_Stream
begin

text \<open>
  The registry of data source snapshots, \<open>service/dataSourceExecutionSnapshot.ts\<close>: what an execution
  was started against is captured when it starts, found again by its sequence number or by the
  execution id the backend assigns later, and released when it is over. The registry object is
  passed and returned; \<open>Object.freeze\<close> has no effect on values.
\<close>

record DataSourceExecutionSnapshotRegistry =
  snapshotsBySequence :: "(int \<times> jsval) list"
  sequenceByExecutionId :: "(string \<times> int) list"

record ExecutionIdentity =
  id_executionSequence :: "int option"
  id_executionId :: "string option"

definition createDataSourceExecutionSnapshotRegistry :: DataSourceExecutionSnapshotRegistry where
  "createDataSourceExecutionSnapshotRegistry = \<lparr>snapshotsBySequence = [], sequenceByExecutionId = []\<rparr>"

definition createDataSourceExecutionBoundInfo :: "jsval \<Rightarrow> jsval" where
  "createDataSourceExecutionBoundInfo boundInfo = with_fields boundInfo
     [(''environment'', if truthy (jget boundInfo ''environment'')
        then with_fields (jget boundInfo ''environment'') [] else jget boundInfo ''environment'')]"

definition createDataSourceExecutionSnapshot :: "jsval \<Rightarrow> int \<Rightarrow> jsval" where
  "createDataSourceExecutionSnapshot boundInfo startedAt =
     (let environment = jget boundInfo ''environment''
      in Obj [(''dataSourceId'', jget boundInfo ''dataSourceId''),
              (''dataSourceName'', jget boundInfo ''dataSourceName''),
              (''environmentId'', coalesce (jget boundInfo ''environmentId'') (jget environment ''id'')),
              (''environmentName'', jget environment ''name''),
              (''environmentShortName'', jget environment ''shortName''),
              (''databaseName'', jget boundInfo ''databaseName''),
              (''schemaName'', jget boundInfo ''schemaName''),
              (''databaseType'', jget boundInfo ''databaseType''),
              (''connectable'', jget boundInfo ''connectable''),
              (''startedAt'', Num startedAt)])"

definition registerDataSourceExecutionSnapshot ::
  "DataSourceExecutionSnapshotRegistry \<Rightarrow> int \<Rightarrow> jsval \<Rightarrow> jsval \<times> DataSourceExecutionSnapshotRegistry" where
  "registerDataSourceExecutionSnapshot registry executionSequence snapshot =
     (snapshot, registry\<lparr>snapshotsBySequence :=
        AList.update executionSequence snapshot (snapshotsBySequence registry)\<rparr>)"

definition captureDataSourceExecutionSnapshot ::
  "DataSourceExecutionSnapshotRegistry \<Rightarrow> int \<Rightarrow> jsval \<Rightarrow> int \<Rightarrow> jsval \<times> DataSourceExecutionSnapshotRegistry" where
  "captureDataSourceExecutionSnapshot registry executionSequence boundInfo startedAt =
     registerDataSourceExecutionSnapshot registry executionSequence
       (createDataSourceExecutionSnapshot boundInfo startedAt)"

definition attachDataSourceExecutionId ::
  "DataSourceExecutionSnapshotRegistry \<Rightarrow> int \<Rightarrow> string \<Rightarrow> jsval option \<times> DataSourceExecutionSnapshotRegistry" where
  "attachDataSourceExecutionId registry executionSequence executionId =
     (case map_of (snapshotsBySequence registry) executionSequence of
        None \<Rightarrow> (None, registry)
      | Some snapshot \<Rightarrow> (Some snapshot, registry\<lparr>sequenceByExecutionId :=
          AList.update executionId executionSequence (sequenceByExecutionId registry)\<rparr>))"

definition identitySequence :: "DataSourceExecutionSnapshotRegistry \<Rightarrow> ExecutionIdentity \<Rightarrow> int option" where
  "identitySequence registry identity =
     (case id_executionSequence identity of
        Some s \<Rightarrow> Some s
      | None \<Rightarrow> if truthy_str (id_executionId identity)
          then map_of (sequenceByExecutionId registry) (the (id_executionId identity)) else None)"

definition getDataSourceExecutionSnapshot ::
  "DataSourceExecutionSnapshotRegistry \<Rightarrow> ExecutionIdentity \<Rightarrow> jsval option" where
  "getDataSourceExecutionSnapshot registry identity =
     (case identitySequence registry identity of
        None \<Rightarrow> None
      | Some executionSequence \<Rightarrow> map_of (snapshotsBySequence registry) executionSequence)"

definition releaseDataSourceExecutionSnapshot ::
  "DataSourceExecutionSnapshotRegistry \<Rightarrow> ExecutionIdentity \<Rightarrow> DataSourceExecutionSnapshotRegistry" where
  "releaseDataSourceExecutionSnapshot registry identity =
     (let executionSequence = identitySequence registry identity;
          registry1 = (if truthy_str (id_executionId identity)
            then registry\<lparr>sequenceByExecutionId :=
              AList.delete (the (id_executionId identity)) (sequenceByExecutionId registry)\<rparr>
            else registry)
      in case executionSequence of
           None \<Rightarrow> registry1
         | Some s \<Rightarrow> registry1\<lparr>
             snapshotsBySequence := AList.delete s (snapshotsBySequence registry1),
             sequenceByExecutionId := filter (\<lambda>(executionId, sequence). sequence \<noteq> s) (sequenceByExecutionId registry1)\<rparr>)"

text \<open>\<open>v?.trim()\<close> of an optional string.\<close>

fun trimmed :: "jsval \<Rightarrow> string" where
  "trimmed (Str s) = trim s"
| "trimmed _ = []"

definition getDataSourceExecutionTargetLabel :: "jsval \<Rightarrow> string" where
  "getDataSourceExecutionTargetLabel target =
     (if \<not> truthy target then []
      else join '' / '' (filter (\<lambda>v. v \<noteq> [])
        [if trimmed (jget target ''environmentShortName'') \<noteq> []
           then trimmed (jget target ''environmentShortName'') else trimmed (jget target ''environmentName''),
         trimmed (jget target ''dataSourceName''),
         trimmed (jget target ''databaseName''),
         trimmed (jget target ''schemaName'')]))"

section \<open>Reachable registries\<close>

inductive registry_reachable :: "DataSourceExecutionSnapshotRegistry \<Rightarrow> bool" where
  create: "registry_reachable createDataSourceExecutionSnapshotRegistry"
| register: "registry_reachable r \<Longrightarrow> registry_reachable (snd (registerDataSourceExecutionSnapshot r s snap))"
| capture: "registry_reachable r \<Longrightarrow> registry_reachable (snd (captureDataSourceExecutionSnapshot r s b t))"
| attach: "registry_reachable r \<Longrightarrow> registry_reachable (snd (attachDataSourceExecutionId r s e))"
| release: "registry_reachable r \<Longrightarrow> registry_reachable (releaseDataSourceExecutionSnapshot r i)"

definition registry_inv :: "DataSourceExecutionSnapshotRegistry \<Rightarrow> bool" where
  "registry_inv r \<longleftrightarrow> distinct (map fst (sequenceByExecutionId r))
     \<and> (\<forall>e s. map_of (sequenceByExecutionId r) e = Some s \<longrightarrow> map_of (snapshotsBySequence r) s \<noteq> None)"

lemma map_of_filter_value:
  "distinct (map fst m) \<Longrightarrow> map_of (filter (\<lambda>(e, s). s \<noteq> x) m) e =
     (if map_of m e = Some x then None else map_of m e)"
proof (induction m)
  case (Cons p m)
  obtain e' s where p: "p = (e', s)" by (cases p)
  from Cons.prems p have "map_of m e' = None" by (auto simp: map_of_eq_None_iff)
  with Cons p show ?case by (cases "e = e'") (simp_all del: map_of_eq_Some_iff)
qed simp

lemma distinct_filter_keys: "distinct (map fst m) \<Longrightarrow> distinct (map fst (filter P m))"
  by (induction m) auto

lemma registry_inv_register: "registry_inv r \<Longrightarrow> registry_inv (snd (registerDataSourceExecutionSnapshot r s snap))"
  by (auto simp: registry_inv_def registerDataSourceExecutionSnapshot_def js_map.get_set)

lemma registry_inv_release: "registry_inv r \<Longrightarrow> registry_inv (releaseDataSourceExecutionSnapshot r i)"
  by (auto simp: registry_inv_def releaseDataSourceExecutionSnapshot_def Let_def js_map.get_delete
      map_of_filter_value js_map.wf_delete distinct_filter_keys
      simp del: map_of_eq_Some_iff split: option.splits if_splits)

lemma registry_inv_reachable: "registry_reachable r \<Longrightarrow> registry_inv r"
proof (induction rule: registry_reachable.induct)
  case create
  then show ?case by (simp add: registry_inv_def createDataSourceExecutionSnapshotRegistry_def)
next
  case (attach r s e)
  then show ?case
    by (auto simp: registry_inv_def attachDataSourceExecutionId_def js_map.get_set js_map.wf_set
        simp del: map_of_eq_Some_iff split: option.splits if_splits)
qed (simp_all add: registry_inv_release registry_inv_register captureDataSourceExecutionSnapshot_def)

text \<open>
  The registry never loses track of an execution. In every reachable registry an execution id
  that was attached and not released finds a snapshot, and releasing an execution by its
  sequence number or its id removes the snapshot and every id of that execution, so that
  nothing leaks, and leaves every other execution's ids and snapshots as they were.
\<close>
theorem registry_release_complete:
  assumes "registry_reachable r"
    and "identitySequence r i = Some s"
    and "truthy_str (id_executionId i) \<longrightarrow> map_of (sequenceByExecutionId r) (the (id_executionId i)) = Some s"
  defines "r' \<equiv> releaseDataSourceExecutionSnapshot r i"
  shows "map_of (snapshotsBySequence r') s = None
    \<and> (\<forall>e. map_of (sequenceByExecutionId r') e =
         (if map_of (sequenceByExecutionId r) e = Some s then None else map_of (sequenceByExecutionId r) e))
    \<and> (\<forall>t. t \<noteq> s \<longrightarrow> map_of (snapshotsBySequence r') t = map_of (snapshotsBySequence r) t)
    \<and> (\<forall>e t. map_of (sequenceByExecutionId r') e = Some t \<longrightarrow> map_of (snapshotsBySequence r') t \<noteq> None)"
proof -
  have inv: "registry_inv r" by (rule registry_inv_reachable[OF assms(1)])
  have inv': "registry_inv r'" unfolding r'_def by (rule registry_inv_release[OF inv])
  have "map_of (sequenceByExecutionId r') e =
      (if map_of (sequenceByExecutionId r) e = Some s then None else map_of (sequenceByExecutionId r) e)" for e
    using assms(2,3) inv
    by (auto simp: r'_def releaseDataSourceExecutionSnapshot_def Let_def map_of_filter_value js_map.wf_delete
        js_map.get_delete registry_inv_def simp del: map_of_eq_Some_iff)
  moreover have "map_of (snapshotsBySequence r') = (map_of (snapshotsBySequence r))(s := None)"
    using assms(2) by (simp add: r'_def releaseDataSourceExecutionSnapshot_def Let_def js_map.get_delete)
  ultimately show ?thesis using inv' by (auto simp: registry_inv_def)
qed

definition example_registry :: DataSourceExecutionSnapshotRegistry where
  "example_registry = snd (attachDataSourceExecutionId
     (snd (captureDataSourceExecutionSnapshot createDataSourceExecutionSnapshotRegistry 1 (Obj []) 0)) 1 ''e1'')"

lemma example_registry_reachable: "registry_reachable example_registry"
  unfolding example_registry_def by (intro registry_reachable.intros)

lemma example_registry_value: "map_of (sequenceByExecutionId example_registry) ''e1'' = Some 1"
  by (simp add: example_registry_def attachDataSourceExecutionId_def captureDataSourceExecutionSnapshot_def
      registerDataSourceExecutionSnapshot_def createDataSourceExecutionSnapshotRegistry_def)

theorem registry_release_complete_witness:
  "map_of (snapshotsBySequence (releaseDataSourceExecutionSnapshot example_registry
     \<lparr>id_executionSequence = None, id_executionId = Some ''e1''\<rparr>)) 1 = None"
  using registry_release_complete[OF example_registry_reachable,
      of "\<lparr>id_executionSequence = None, id_executionId = Some ''e1''\<rparr>" 1] example_registry_value
  by (simp add: identitySequence_def)

text \<open>
  What an execution was started against can be looked up by its sequence number, and, once
  the backend's id is attached, by that id, with the values captured at the start; the lookups
  of other sequence numbers and ids do not change.
\<close>
theorem registry_capture_lookup:
  fixes r :: DataSourceExecutionSnapshotRegistry and b :: jsval and t s :: int and e :: string
  assumes "e \<noteq> []"
  defines "snap \<equiv> createDataSourceExecutionSnapshot b t"
    and "r' \<equiv> snd (attachDataSourceExecutionId (snd (captureDataSourceExecutionSnapshot r s b t)) s e)"
  shows "getDataSourceExecutionSnapshot r' \<lparr>id_executionSequence = Some s, id_executionId = x\<rparr> = Some snap
    \<and> getDataSourceExecutionSnapshot r' \<lparr>id_executionSequence = None, id_executionId = Some e\<rparr> = Some snap
    \<and> (s' \<noteq> s \<longrightarrow> getDataSourceExecutionSnapshot r' \<lparr>id_executionSequence = Some s', id_executionId = x\<rparr>
         = getDataSourceExecutionSnapshot r \<lparr>id_executionSequence = Some s', id_executionId = x\<rparr>)
    \<and> (e' \<noteq> e \<and> map_of (sequenceByExecutionId r) e' \<noteq> Some s \<longrightarrow>
         getDataSourceExecutionSnapshot r' \<lparr>id_executionSequence = None, id_executionId = Some e'\<rparr>
         = getDataSourceExecutionSnapshot r \<lparr>id_executionSequence = None, id_executionId = Some e'\<rparr>)"
proof -
  have "snapshotsBySequence r' = AList.update s snap (snapshotsBySequence r)"
    "sequenceByExecutionId r' = AList.update e s (sequenceByExecutionId r)"
    by (simp_all add: r'_def snap_def captureDataSourceExecutionSnapshot_def registerDataSourceExecutionSnapshot_def
        attachDataSourceExecutionId_def js_map.get_set)
  with assms(1) show ?thesis
    by (auto simp: getDataSourceExecutionSnapshot_def identitySequence_def js_map.get_set split: option.splits)
qed

theorem registry_capture_lookup_witness:
  "getDataSourceExecutionSnapshot example_registry \<lparr>id_executionSequence = None, id_executionId = Some ''e1''\<rparr>
     = Some (createDataSourceExecutionSnapshot (Obj []) 0)"
  using registry_capture_lookup[of "''e1''" createDataSourceExecutionSnapshotRegistry 1 "Obj []" 0]
  unfolding example_registry_def by simp

end
