(* ===== verification/Observer.thy ===== *)
theory Observer
  imports Js_Prelude
begin

text \<open>
  The reconnecting observers of the backend client: \<open>observeOperation\<close>
  (\<open>apps/frontend/src/backend/operation.ts\<close>) and \<open>observeAgentRun\<close> (\<open>agent.ts\<close>). Both follow one
  runtime activity through an event stream, and after a disconnect fetch a snapshot and subscribe
  again from the last sequence seen, a bounded number of times.

  The closures of the source share the variables of one record. What happens to the observer from
  outside (stream callbacks, promise results, the loop resuming after an \<open>await\<close>, \<open>close\<close>) is an
  input, and \<open>observe_step\<close> runs the code up to the next \<open>await\<close>; any interleaving is a list of
  inputs. \<open>ob_log\<close> holds the calls the observer makes, oldest first. The two sources are one
  text up to their messages and the terminal statuses, which are an \<open>observer_config\<close>. The user's
  \<open>onEvent\<close> and \<open>onSnapshot\<close> may call \<open>close\<close> or throw (\<open>reaction\<close>); \<open>onError\<close> and
  \<open>onClose\<close> do neither.
\<close>

section \<open>Data\<close>

record EventEnvelope =
  ee_sequence :: string
  ee_type :: string
  ee_payload :: jsval

record RuntimeSnapshot =
  sn_id :: string
  sn_lastSequence :: string
  sn_status :: string

datatype ApiError =
    ProtocolError string
  | ReconnectExhausted string
  | ClientError jsval

text \<open>A rejected promise: an \<open>Error\<close>, or (\<open>None\<close>) a value that is not one.\<close>

type_synonym rejection = "ApiError option"

datatype StreamOutcome = OutcomeTerminal | OutcomeEnd | OutcomeError ApiError

fun outcome_error :: "StreamOutcome \<Rightarrow> ApiError option" where
  "outcome_error (OutcomeError e) = Some e"
| "outcome_error _ = None"

datatype effect =
    Subscribe "string option"
  | CloseSubscription nat
  | AbortSignal
  | RequestSnapshot
  | DeliverEvent EventEnvelope
  | DeliverSnapshot RuntimeSnapshot
  | NotifyError ApiError
  | NotifyClose

text \<open>
  Where the asynchronous body waits: for the stream (with its outcome once it is settled), for
  the snapshot (with the outcome of the stream before), or nowhere.
\<close>

datatype phase = Streaming "StreamOutcome option" | Recovering StreamOutcome | Done

record observer =
  ob_id :: string
  ob_maxReconnectAttempts :: nat
  ob_stopped :: bool
  ob_closeNotified :: bool
  ob_currentSubscription :: "nat option"
  ob_cursor :: "nat option"
  ob_reconnectAttempts :: nat
  ob_stream :: nat
  ob_phase :: phase
  ob_log :: "effect list"

record observer_config =
  oc_isTerminalSnapshot :: "RuntimeSnapshot \<Rightarrow> bool"
  oc_eventLabel :: string
  oc_cursorLabel :: string
  oc_snapshotLabel :: string
  oc_streamFailed :: string
  oc_recoveryFailed :: string
  oc_otherSnapshot :: string
  oc_staleSnapshot :: string
  oc_observationFailed :: string
  oc_reconnectExhausted :: ApiError

definition DEFAULT_MAX_RECONNECT_ATTEMPTS :: int where
  "DEFAULT_MAX_RECONNECT_ATTEMPTS = 3"

section \<open>Helpers\<close>

definition isTerminalEvent :: "EventEnvelope \<Rightarrow> bool" where
  "isTerminalEvent event \<longleftrightarrow>
     ee_type event = ''completed'' \<or> ee_type event = ''failed'' \<or> ee_type event = ''cancelled''"

text \<open>The pattern \<open>^(0|[1-9]\d*)$\<close>.\<close>

definition canonical_number :: "string \<Rightarrow> bool" where
  "canonical_number s \<longleftrightarrow> s = ''0'' \<or> s \<noteq> [] \<and> list_all is_digit s \<and> hd s \<noteq> CHR ''0''"

definition runtimeSequence :: "string \<Rightarrow> string \<Rightarrow> ApiError + nat" where
  "runtimeSequence value label =
     (if canonical_number value then Inr (nat_of_digits value)
      else Inl (ProtocolError (''The runtime returned an invalid '' @ label)))"

definition emit :: "effect \<Rightarrow> observer \<Rightarrow> observer" where
  "emit e ob = ob\<lparr>ob_log := ob_log ob @ [e]\<rparr>"

definition releaseCurrentSubscription :: "observer \<Rightarrow> observer" where
  "releaseCurrentSubscription ob =
     (case ob_currentSubscription ob of
        None \<Rightarrow> ob
      | Some h \<Rightarrow> emit (CloseSubscription h) (ob\<lparr>ob_currentSubscription := None\<rparr>))"

definition notifyClose :: "observer \<Rightarrow> observer" where
  "notifyClose ob = (if ob_closeNotified ob then ob else emit NotifyClose (ob\<lparr>ob_closeNotified := True\<rparr>))"

definition close_observer :: "observer \<Rightarrow> observer" where
  "close_observer ob =
     (if ob_stopped ob then ob
      else notifyClose (releaseCurrentSubscription (emit AbortSignal (ob\<lparr>ob_stopped := True\<rparr>))))"

definition fail_observer :: "ApiError \<Rightarrow> observer \<Rightarrow> observer" where
  "fail_observer e ob = (if ob_stopped ob then ob else close_observer (emit (NotifyError e) ob))"

text \<open>The \<open>finally\<close> block; the body returns.\<close>

definition finish_observer :: "observer \<Rightarrow> observer" where
  "finish_observer ob = (notifyClose (releaseCurrentSubscription ob))\<lparr>ob_phase := Done\<rparr>"

definition settle :: "StreamOutcome \<Rightarrow> observer \<Rightarrow> observer" where
  "settle outcome ob = (if ob_phase ob = Streaming None then ob\<lparr>ob_phase := Streaming (Some outcome)\<rparr> else ob)"

definition consumeStream :: "observer \<Rightarrow> observer" where
  "consumeStream ob = emit (Subscribe (map_option string_of_nat (ob_cursor ob)))
     (ob\<lparr>ob_stream := ob_stream ob + 1, ob_phase := Streaming None\<rparr>)"

definition error_or :: "string \<Rightarrow> rejection \<Rightarrow> ApiError" where
  "error_or msg r = the_default (ProtocolError msg) r"

definition behind :: "nat \<Rightarrow> nat option \<Rightarrow> bool" where
  "behind n cursor \<longleftrightarrow> (case cursor of None \<Rightarrow> False | Some c \<Rightarrow> n < c)"

section \<open>Inputs\<close>

datatype reaction = NoReaction | CallsClose | Throws rejection

datatype observer_input =
    StreamEvent nat EventEnvelope reaction
  | StreamError nat ApiError
  | StreamClosed nat
  | Subscribed nat nat
  | SubscribeRejected nat rejection
  | ResumeLoop
  | SnapshotFailed rejection
  | SnapshotArrived RuntimeSnapshot reaction
  | CallClose

definition onStreamEvent :: "observer_config \<Rightarrow> EventEnvelope \<Rightarrow> reaction \<Rightarrow> observer \<Rightarrow> observer" where
  "onStreamEvent cfg event reaction ob =
     (if ob_phase ob \<noteq> Streaming None \<or> ob_stopped ob then ob
      else case runtimeSequence (ee_sequence event) (oc_eventLabel cfg) of
        Inl e \<Rightarrow> settle (OutcomeError e) ob
      | Inr sequence \<Rightarrow>
          if (case ob_cursor ob of None \<Rightarrow> False | Some c \<Rightarrow> sequence \<le> c) then ob
          else
            let delivered = emit (DeliverEvent event) (ob\<lparr>ob_cursor := Some sequence\<rparr>)
            in case reaction of
                 Throws _ \<Rightarrow> delivered
               | CallsClose \<Rightarrow>
                   (if isTerminalEvent event then settle OutcomeTerminal (close_observer delivered)
                    else close_observer delivered)
               | NoReaction \<Rightarrow>
                   (if isTerminalEvent event then settle OutcomeTerminal delivered else delivered))"

definition onSubscribed :: "nat \<Rightarrow> observer \<Rightarrow> observer" where
  "onSubscribed h ob =
     (if ob_phase ob \<noteq> Streaming None \<or> ob_stopped ob then emit (CloseSubscription h) ob
      else ob\<lparr>ob_currentSubscription := Some h\<rparr>)"

text \<open>After \<open>await consumeStream(...)\<close>.\<close>

definition resumeLoop :: "observer \<Rightarrow> observer" where
  "resumeLoop ob = (case ob_phase ob of
     Streaming (Some outcome) \<Rightarrow>
       let released = releaseCurrentSubscription ob
       in if ob_stopped released \<or> outcome = OutcomeTerminal then finish_observer released
          else emit RequestSnapshot (released\<lparr>ob_phase := Recovering outcome\<rparr>)
   | _ \<Rightarrow> ob)"

text \<open>After \<open>await client.operationSnapshot(...)\<close>, by its two results.\<close>

definition snapshotFailed :: "observer_config \<Rightarrow> rejection \<Rightarrow> observer \<Rightarrow> observer" where
  "snapshotFailed cfg rejected ob = (case ob_phase ob of
     Recovering outcome \<Rightarrow>
       finish_observer
         (if \<not> ob_stopped ob then fail_observer (error_or (oc_recoveryFailed cfg) rejected) ob else ob)
   | _ \<Rightarrow> ob)"

definition continueLoop :: "observer_config \<Rightarrow> StreamOutcome \<Rightarrow> RuntimeSnapshot \<Rightarrow> observer \<Rightarrow> observer" where
  "continueLoop cfg outcome snapshot ob =
     (if oc_isTerminalSnapshot cfg snapshot then finish_observer ob
      else if ob_reconnectAttempts ob \<ge> ob_maxReconnectAttempts ob
        then finish_observer (fail_observer (the_default (oc_reconnectExhausted cfg) (outcome_error outcome)) ob)
      else
        let next = ob\<lparr>ob_reconnectAttempts := ob_reconnectAttempts ob + 1\<rparr>
        in if ob_stopped next then finish_observer next else consumeStream next)"

definition snapshotArrived ::
  "observer_config \<Rightarrow> RuntimeSnapshot \<Rightarrow> reaction \<Rightarrow> observer \<Rightarrow> observer" where
  "snapshotArrived cfg snapshot reaction ob = (case ob_phase ob of
     Recovering outcome \<Rightarrow>
       if ob_stopped ob then finish_observer ob
       else if sn_id snapshot \<noteq> ob_id ob
         then finish_observer (fail_observer (ProtocolError (oc_otherSnapshot cfg)) ob)
       else (case runtimeSequence (sn_lastSequence snapshot) (oc_snapshotLabel cfg) of
           Inl e \<Rightarrow> finish_observer (fail_observer e ob)
         | Inr snapshotSequence \<Rightarrow>
             if behind snapshotSequence (ob_cursor ob)
             then finish_observer (fail_observer (ProtocolError (oc_staleSnapshot cfg)) ob)
             else
               let delivered = emit (DeliverSnapshot snapshot) (ob\<lparr>ob_cursor := Some snapshotSequence\<rparr>)
               in case reaction of
                    Throws r \<Rightarrow> finish_observer (fail_observer (error_or (oc_observationFailed cfg) r) delivered)
                  | CallsClose \<Rightarrow> continueLoop cfg outcome snapshot (close_observer delivered)
                  | NoReaction \<Rightarrow> continueLoop cfg outcome snapshot delivered)
   | _ \<Rightarrow> ob)"

text \<open>
  Callbacks of an earlier stream find their own \<open>settled\<close> flag set: the loop only goes on once
  it is.
\<close>

fun observe_step :: "observer_config \<Rightarrow> observer \<Rightarrow> observer_input \<Rightarrow> observer" where
  "observe_step cfg ob (StreamEvent n event reaction) =
     (if n = ob_stream ob then onStreamEvent cfg event reaction ob else ob)"
| "observe_step cfg ob (StreamError n e) = (if n = ob_stream ob then settle (OutcomeError e) ob else ob)"
| "observe_step cfg ob (StreamClosed n) = (if n = ob_stream ob then settle OutcomeEnd ob else ob)"
| "observe_step cfg ob (Subscribed n h) =
     (if n = ob_stream ob then onSubscribed h ob else emit (CloseSubscription h) ob)"
| "observe_step cfg ob (SubscribeRejected n r) =
     (if n = ob_stream ob then settle (OutcomeError (error_or (oc_streamFailed cfg) r)) ob else ob)"
| "observe_step cfg ob ResumeLoop = resumeLoop ob"
| "observe_step cfg ob (SnapshotFailed r) = snapshotFailed cfg r ob"
| "observe_step cfg ob (SnapshotArrived snapshot reaction) = snapshotArrived cfg snapshot reaction ob"
| "observe_step cfg ob CallClose = close_observer ob"

section \<open>Starting an observer\<close>

record observer_options =
  oo_afterSequence :: "string option"
  oo_aborted :: bool
  oo_maxReconnectAttempts :: "int option"

definition observe_start :: "observer_config \<Rightarrow> string \<Rightarrow> observer_options \<Rightarrow> observer" where
  "observe_start cfg i options =
     (let ob0 = \<lparr>ob_id = i,
            ob_maxReconnectAttempts =
              nat (max 0 (the_default DEFAULT_MAX_RECONNECT_ATTEMPTS (oo_maxReconnectAttempts options))),
            ob_stopped = False, ob_closeNotified = False, ob_currentSubscription = None,
            ob_cursor = None, ob_reconnectAttempts = 0, ob_stream = 0, ob_phase = Done, ob_log = []\<rparr>;
          ob1 = (if oo_aborted options then close_observer ob0 else ob0);
          run = (\<lambda>ob. if ob_stopped ob then finish_observer ob else consumeStream ob)
      in case oo_afterSequence options of
           None \<Rightarrow> run ob1
         | Some after \<Rightarrow>
             (case runtimeSequence after (oc_cursorLabel cfg) of
                Inl e \<Rightarrow> finish_observer (fail_observer e ob1)
              | Inr c \<Rightarrow> run (ob1\<lparr>ob_cursor := Some c\<rparr>)))"

section \<open>The two observers\<close>

definition isTerminalOperationSnapshot :: "RuntimeSnapshot \<Rightarrow> bool" where
  "isTerminalOperationSnapshot snapshot \<longleftrightarrow> sn_status snapshot \<noteq> ''running''"

definition isTerminalAgentSnapshot :: "RuntimeSnapshot \<Rightarrow> bool" where
  "isTerminalAgentSnapshot snapshot \<longleftrightarrow>
     sn_status snapshot = ''completed'' \<or> sn_status snapshot = ''failed'' \<or> sn_status snapshot = ''cancelled''"

definition operation_config :: observer_config where
  "operation_config = \<lparr>oc_isTerminalSnapshot = isTerminalOperationSnapshot,
     oc_eventLabel = ''operation event sequence'', oc_cursorLabel = ''operation replay cursor'',
     oc_snapshotLabel = ''operation snapshot sequence'', oc_streamFailed = ''Operation stream failed'',
     oc_recoveryFailed = ''Operation recovery failed'',
     oc_otherSnapshot = ''The runtime returned a snapshot for another operation'',
     oc_staleSnapshot = ''The runtime returned a stale operation snapshot'',
     oc_observationFailed = ''Operation observation failed'',
     oc_reconnectExhausted = ReconnectExhausted ''operation_stream_reconnect_exhausted''\<rparr>"

definition agent_config :: observer_config where
  "agent_config = \<lparr>oc_isTerminalSnapshot = isTerminalAgentSnapshot,
     oc_eventLabel = ''agent event sequence'', oc_cursorLabel = ''agent replay cursor'',
     oc_snapshotLabel = ''agent snapshot sequence'', oc_streamFailed = ''Agent stream failed'',
     oc_recoveryFailed = ''Agent recovery failed'',
     oc_otherSnapshot = ''The runtime returned a snapshot for another agent run'',
     oc_staleSnapshot = ''The runtime returned a stale agent snapshot'',
     oc_observationFailed = ''Agent observation failed'',
     oc_reconnectExhausted = ReconnectExhausted ''agent_stream_reconnect_exhausted''\<rparr>"

definition observeOperation :: "string \<Rightarrow> observer_options \<Rightarrow> observer_input list \<Rightarrow> observer" where
  "observeOperation operationId options inputs =
     foldl (observe_step operation_config) (observe_start operation_config operationId options) inputs"

definition observeAgentRun :: "string \<Rightarrow> observer_options \<Rightarrow> observer_input list \<Rightarrow> observer" where
  "observeAgentRun runId options inputs =
     foldl (observe_step agent_config) (observe_start agent_config runId options) inputs"

end
