(* ===== verification/Observer_Properties.thy ===== *)
theory Observer_Properties
  imports Observer
begin

text \<open>
  What a client of an observer can rely on, for every configuration and every interleaving of
  inputs; stated for the two observers of the program.
\<close>

lemmas observer_ops = emit_def releaseCurrentSubscription_def notifyClose_def close_observer_def
  fail_observer_def finish_observer_def settle_def consumeStream_def

section \<open>Order of what is delivered\<close>

text \<open>Following a log from a cursor: events are newer than the cursor, snapshots not older.\<close>

fun log_from :: "nat option \<Rightarrow> effect list \<Rightarrow> nat option option" where
  "log_from c [] = Some c"
| "log_from c (DeliverEvent ev # es) =
     (case runtimeSequence (ee_sequence ev) [] of
        Inl _ \<Rightarrow> None
      | Inr n \<Rightarrow> if (case c of None \<Rightarrow> True | Some m \<Rightarrow> m < n) then log_from (Some n) es else None)"
| "log_from c (DeliverSnapshot s # es) =
     (case runtimeSequence (sn_lastSequence s) [] of
        Inl _ \<Rightarrow> None
      | Inr n \<Rightarrow> if (case c of None \<Rightarrow> True | Some m \<Rightarrow> m \<le> n) then log_from (Some n) es else None)"
| "log_from c (_ # es) = log_from c es"

lemma log_from_append: "log_from c (es @ fs) = Option.bind (log_from c es) (\<lambda>c'. log_from c' fs)"
  by (induction c es rule: log_from.induct) (auto split: sum.splits)

lemma runtimeSequence_label: "runtimeSequence v l = Inr n \<Longrightarrow> runtimeSequence v l' = Inr n"
  by (auto simp: runtimeSequence_def split: if_splits)

text \<open>The numbers of the delivered events, in the order of delivery.\<close>

fun event_numbers :: "effect list \<Rightarrow> nat list" where
  "event_numbers [] = []"
| "event_numbers (DeliverEvent ev # es) = nat_of_digits (ee_sequence ev) # event_numbers es"
| "event_numbers (_ # es) = event_numbers es"

definition newer :: "nat option \<Rightarrow> nat \<Rightarrow> bool" where
  "newer c n \<longleftrightarrow> (case c of None \<Rightarrow> True | Some m \<Rightarrow> m < n)"

lemma log_from_increasing:
  "log_from c es \<noteq> None \<Longrightarrow> sorted_wrt (<) (event_numbers es) \<and> (\<forall>n \<in> set (event_numbers es). newer c n)"
proof (induction c es rule: log_from.induct)
  case (2 c ev es)
  then show ?case
    by (fastforce simp: runtimeSequence_def newer_def split: if_splits option.splits)
next
  case (3 c s es)
  then show ?case
    by (fastforce simp: newer_def split: sum.splits if_splits option.splits)
qed (auto simp: newer_def)

definition ordered :: "nat option \<Rightarrow> observer \<Rightarrow> bool" where
  "ordered c ob \<longleftrightarrow> log_from c (ob_log ob) = Some (ob_cursor ob)"

lemma ordered_basic [simp]:
  "ordered c (releaseCurrentSubscription ob) = ordered c ob"
  "ordered c (notifyClose ob) = ordered c ob"
  "ordered c (close_observer ob) = ordered c ob"
  "ordered c (fail_observer e ob) = ordered c ob"
  "ordered c (finish_observer ob) = ordered c ob"
  "ordered c (settle out ob) = ordered c ob"
  "ordered c (consumeStream ob) = ordered c ob"
  "ordered c (ob\<lparr>ob_phase := p\<rparr>) = ordered c ob"
  "ordered c (ob\<lparr>ob_reconnectAttempts := n\<rparr>) = ordered c ob"
  "ordered c (ob\<lparr>ob_currentSubscription := h\<rparr>) = ordered c ob"
  "ordered c (emit RequestSnapshot ob) = ordered c ob"
  "ordered c (emit (CloseSubscription k) ob) = ordered c ob"
  by (auto simp: ordered_def observer_ops log_from_append bind_eq_Some_conv split: option.splits)

lemma ordered_event:
  "ordered c ob \<Longrightarrow> runtimeSequence (ee_sequence ev) l = Inr n \<Longrightarrow> newer (ob_cursor ob) n
    \<Longrightarrow> ordered c (emit (DeliverEvent ev) (ob\<lparr>ob_cursor := Some n\<rparr>))"
  using runtimeSequence_label[of "ee_sequence ev" l n "[]"]
  by (auto simp: ordered_def emit_def log_from_append newer_def split: option.splits)

lemma ordered_snapshot:
  "ordered c ob \<Longrightarrow> runtimeSequence (sn_lastSequence s) l = Inr n \<Longrightarrow> \<not> behind n (ob_cursor ob)
    \<Longrightarrow> ordered c (emit (DeliverSnapshot s) (ob\<lparr>ob_cursor := Some n\<rparr>))"
  using runtimeSequence_label[of "sn_lastSequence s" l n "[]"]
  by (auto simp: ordered_def emit_def log_from_append behind_def split: option.splits)

lemma ordered_onStreamEvent: "ordered c ob \<Longrightarrow> ordered c (onStreamEvent cfg ev re ob)"
  using ordered_event[of c ob ev "oc_eventLabel cfg"]
  by (auto simp: onStreamEvent_def Let_def newer_def not_le
      split: sum.splits option.splits reaction.splits)

lemma ordered_continueLoop: "ordered c ob \<Longrightarrow> ordered c (continueLoop cfg out s ob)"
  by (simp add: continueLoop_def Let_def)

lemma ordered_snapshotArrived: "ordered c ob \<Longrightarrow> ordered c (snapshotArrived cfg s re ob)"
  using ordered_snapshot[of c ob s "oc_snapshotLabel cfg"]
  by (auto simp: snapshotArrived_def Let_def ordered_continueLoop
      split: phase.splits sum.splits reaction.splits)

interpretation order_machine: input_machine "observe_step cfg" "ordered c" for cfg c
proof unfold_locales
  fix s i
  assume "ordered c s"
  then show "ordered c (observe_step cfg s i)"
    by (cases i) (auto simp: ordered_onStreamEvent ordered_snapshotArrived onSubscribed_def
        resumeLoop_def snapshotFailed_def Let_def split: phase.splits option.splits)
qed

text \<open>The replay cursor the observer starts from.\<close>

definition replay_cursor :: "observer_options \<Rightarrow> nat option" where
  "replay_cursor options = (case oo_afterSequence options of None \<Rightarrow> None | Some a \<Rightarrow>
     if canonical_number a then Some (nat_of_digits a) else None)"

lemma ordered_start: "ordered (replay_cursor options) (observe_start cfg i options)"
proof -
  have "ordered c (if b then close_observer ob else ob) = ordered c ob" for b ob c by simp
  moreover have "ordered c (ob\<lparr>ob_cursor := d\<rparr>) \<longleftrightarrow> log_from c (ob_log ob) = Some d" for c ob d
    by (simp add: ordered_def)
  moreover have "log_from c [AbortSignal, NotifyClose] = Some c" for c by simp
  ultimately show ?thesis
    by (auto simp: observe_start_def Let_def replay_cursor_def runtimeSequence_def ordered_def observer_ops
        split: option.splits)
qed

definition increasing_from :: "nat option \<Rightarrow> effect list \<Rightarrow> bool" where
  "increasing_from c log \<longleftrightarrow> sorted_wrt (<) (event_numbers log) \<and> list_all (newer c) (event_numbers log)"

lemma ordered_increasing: "ordered c ob \<Longrightarrow> increasing_from c (ob_log ob)"
  using log_from_increasing[of c "ob_log ob"] by (simp add: ordered_def increasing_from_def list_all_iff)

text \<open>
  C3: No event is delivered twice or out of order. In any interleaving of stream callbacks,
  reconnects, snapshots and close calls, the sequence numbers of the events handed to
  \<open>onEvent\<close> are strictly increasing and all newer than the replay cursor, for operations and
  for agent runs; the reconnects may replay events and the snapshots may skip ahead.
\<close>
theorem observer_events_increasing:
  "increasing_from (replay_cursor options) (ob_log (observeOperation i options inputs))
   \<and> increasing_from (replay_cursor options) (ob_log (observeAgentRun i options inputs))"
  unfolding observeOperation_def observeAgentRun_def
  by (intro conjI ordered_increasing order_machine.run_keeps ordered_start)

section \<open>Silence after closing\<close>

fun is_callback :: "effect \<Rightarrow> bool" where
  "is_callback (DeliverEvent _) = True"
| "is_callback (DeliverSnapshot _) = True"
| "is_callback (NotifyError _) = True"
| "is_callback NotifyClose = True"
| "is_callback _ = False"

text \<open>After \<open>onClose\<close> no callback of the user is called any more, \<open>onClose\<close> included.\<close>

fun silent_after_close :: "effect list \<Rightarrow> bool" where
  "silent_after_close [] = True"
| "silent_after_close (e # es) =
     (if e = NotifyClose then list_all (\<lambda>e. \<not> is_callback e) es else silent_after_close es)"

lemma silent_append:
  "silent_after_close (es @ fs) \<longleftrightarrow> silent_after_close es \<and>
     (if NotifyClose \<in> set es then list_all (\<lambda>e. \<not> is_callback e) fs else silent_after_close fs)"
  by (induction es) auto

definition close_inv :: "observer \<Rightarrow> bool" where
  "close_inv ob \<longleftrightarrow> silent_after_close (ob_log ob)
     \<and> (ob_closeNotified ob \<longleftrightarrow> NotifyClose \<in> set (ob_log ob))
     \<and> (ob_closeNotified ob \<longleftrightarrow> ob_stopped ob \<or> ob_phase ob = Done)"

text \<open>The same without the condition on the phase, which does not hold inside a step.\<close>

definition close_pre :: "observer \<Rightarrow> bool" where
  "close_pre ob \<longleftrightarrow> silent_after_close (ob_log ob)
     \<and> (ob_closeNotified ob \<longleftrightarrow> NotifyClose \<in> set (ob_log ob))
     \<and> (ob_closeNotified ob \<longleftrightarrow> ob_stopped ob)"

lemma close_inv_pre: "close_inv ob \<Longrightarrow> ob_phase ob \<noteq> Done \<Longrightarrow> close_pre ob"
  by (auto simp: close_inv_def close_pre_def)

lemma close_pre_inv: "close_pre ob \<Longrightarrow> ob_phase ob \<noteq> Done \<Longrightarrow> close_inv ob"
  by (auto simp: close_inv_def close_pre_def)

lemma close_pre_basic [simp]:
  "close_pre (releaseCurrentSubscription ob) = close_pre ob"
  "close_pre (ob\<lparr>ob_phase := p\<rparr>) = close_pre ob"
  "close_pre (ob\<lparr>ob_cursor := c\<rparr>) = close_pre ob"
  "close_pre (ob\<lparr>ob_reconnectAttempts := n\<rparr>) = close_pre ob"
  "close_pre (ob\<lparr>ob_currentSubscription := h\<rparr>) = close_pre ob"
  "close_pre (ob\<lparr>ob_stream := k\<rparr>) = close_pre ob"
  by (auto simp: close_pre_def observer_ops silent_append split: option.splits)

lemma close_pre_emit: "close_pre ob \<Longrightarrow> e \<noteq> NotifyClose \<Longrightarrow> \<not> ob_stopped ob \<or> \<not> is_callback e \<Longrightarrow> close_pre (emit e ob)"
  by (auto simp: close_pre_def emit_def silent_append)

lemma close_pre_close: "close_pre ob \<Longrightarrow> close_pre (close_observer ob)"
  by (auto simp: close_pre_def observer_ops silent_append split: option.splits)

lemma close_pre_fail: "close_pre ob \<Longrightarrow> close_pre (fail_observer e ob)"
  by (simp add: fail_observer_def close_pre_close close_pre_emit)

lemma finish_inv: "close_pre ob \<Longrightarrow> close_inv (finish_observer ob)"
  by (auto simp: close_pre_def close_inv_def observer_ops silent_append split: option.splits)

lemma phase_basic [simp]:
  "ob_phase (close_observer ob) = ob_phase ob" "ob_phase (fail_observer e ob) = ob_phase ob"
  "ob_phase (emit ef ob) = ob_phase ob" "ob_phase (releaseCurrentSubscription ob) = ob_phase ob"
  "ob_phase (finish_observer ob) = Done" "ob_phase (consumeStream ob) = Streaming None"
  by (auto simp: observer_ops split: option.splits)

lemma stopped_basic [simp]:
  "ob_stopped (close_observer ob)" "ob_stopped (emit e ob) = ob_stopped ob"
  "ob_stopped (releaseCurrentSubscription ob) = ob_stopped ob"
  by (auto simp: observer_ops split: option.splits)

lemma close_inv_consume: "close_pre ob \<Longrightarrow> close_inv (consumeStream ob)"
  by (rule close_pre_inv) (auto simp: consumeStream_def intro!: close_pre_emit)

lemma close_inv_settle: "close_inv ob \<Longrightarrow> close_inv (settle out ob)"
  by (auto simp: settle_def close_inv_def)

lemma close_inv_close: "close_inv ob \<Longrightarrow> close_inv (close_observer ob)"
  by (auto simp: close_inv_def observer_ops silent_append split: option.splits)

lemma close_inv_quiet: "close_inv ob \<Longrightarrow> \<not> is_callback e \<Longrightarrow> close_inv (emit e ob)"
  by (cases e) (auto simp: close_inv_def emit_def silent_append)

lemma close_inv_deliver:
  "close_inv ob \<Longrightarrow> ob_phase ob \<noteq> Done \<Longrightarrow> \<not> ob_stopped ob \<Longrightarrow> e \<noteq> NotifyClose
    \<Longrightarrow> close_inv (emit e (ob\<lparr>ob_cursor := c\<rparr>))"
  by (auto simp: close_inv_def emit_def silent_append)

lemma close_inv_event: "close_inv ob \<Longrightarrow> close_inv (onStreamEvent cfg ev re ob)"
  using close_inv_deliver[of ob "DeliverEvent ev"]
  by (auto simp: onStreamEvent_def Let_def close_inv_settle close_inv_close
      split: sum.splits reaction.splits)

lemma close_inv_continue: "close_pre ob \<Longrightarrow> close_inv (continueLoop cfg out s ob)"
  by (simp add: continueLoop_def Let_def finish_inv close_pre_fail close_inv_consume)

lemma close_inv_snapshot: "close_inv ob \<Longrightarrow> close_inv (snapshotArrived cfg s re ob)"
proof (cases "\<exists>out. ob_phase ob = Recovering out")
  case True
  assume "close_inv ob"
  with True have pre: "close_pre ob" by (intro close_inv_pre) auto
  then have "\<not> ob_stopped ob \<Longrightarrow> close_pre (emit (DeliverSnapshot s) (ob\<lparr>ob_cursor := Some n\<rparr>))" for n
    by (intro close_pre_emit) auto
  with True pre show ?thesis
    by (auto simp: snapshotArrived_def Let_def finish_inv close_pre_fail close_pre_close close_inv_continue
        split: sum.splits reaction.splits)
qed (auto simp: snapshotArrived_def split: phase.splits)

lemma close_inv_resume: "close_inv ob \<Longrightarrow> close_inv (resumeLoop ob)"
  by (auto simp: resumeLoop_def Let_def intro!: finish_inv close_pre_inv close_pre_emit dest: close_inv_pre
      split: phase.splits option.splits)

interpretation close_machine: input_machine "observe_step cfg" close_inv for cfg
proof unfold_locales
  fix s i
  assume inv: "close_inv s"
  then have "close_inv (snapshotFailed cfg r s)" for r
    by (auto simp: snapshotFailed_def intro!: finish_inv close_pre_fail dest: close_inv_pre split: phase.splits)
  moreover have "close_inv (s\<lparr>ob_currentSubscription := h\<rparr>)" for h
    using inv by (auto simp: close_inv_def)
  ultimately show "close_inv (observe_step cfg s i)"
    using inv
    by (cases i) (auto simp: close_inv_event close_inv_snapshot close_inv_resume close_inv_settle
        close_inv_close close_inv_quiet onSubscribed_def)
qed

lemma close_inv_start: "close_inv (observe_start cfg i options)"
proof -
  let ?max = "nat (max 0 (the_default DEFAULT_MAX_RECONNECT_ATTEMPTS (oo_maxReconnectAttempts options)))"
  let ?ob0 = "\<lparr>ob_id = i, ob_maxReconnectAttempts = ?max, ob_stopped = False, ob_closeNotified = False,
    ob_currentSubscription = None, ob_cursor = None, ob_reconnectAttempts = 0, ob_stream = 0,
    ob_phase = Done, ob_log = []\<rparr>"
  have "close_pre (?ob0\<lparr>ob_cursor := c\<rparr>)" for c by (simp add: close_pre_def)
  moreover have "close_pre ?ob0" by (simp add: close_pre_def)
  then have "close_pre (if oo_aborted options then close_observer ?ob0 else ?ob0)"
    by (simp add: close_pre_close)
  ultimately show ?thesis
    unfolding observe_start_def Let_def
    by (auto intro!: finish_inv close_inv_consume close_pre_fail simp: close_pre_close split: option.splits sum.splits)
qed

lemma closed_when_done:
  "close_inv ob \<Longrightarrow> silent_after_close (ob_log ob) \<and> (ob_phase ob = Done \<longrightarrow> NotifyClose \<in> set (ob_log ob))"
  by (auto simp: close_inv_def)

text \<open>
  \<open>onClose\<close> is called exactly when observation ends, and it is the last callback: whatever the
  interleaving, after \<open>onClose\<close> no event, snapshot, error or second \<open>onClose\<close> reaches the user,
  and an observation whose body has returned has called it. This covers stream callbacks that
  arrive late, closing from inside a callback and a client that rejects its promises.
\<close>
theorem observer_silent_after_close:
  "silent_after_close (ob_log (observeOperation i options inputs))
   \<and> (ob_phase (observeOperation i options inputs) = Done
        \<longrightarrow> NotifyClose \<in> set (ob_log (observeOperation i options inputs)))
   \<and> silent_after_close (ob_log (observeAgentRun i options inputs))
   \<and> (ob_phase (observeAgentRun i options inputs) = Done
        \<longrightarrow> NotifyClose \<in> set (ob_log (observeAgentRun i options inputs)))"
  using closed_when_done[OF close_machine.run_keeps[OF close_inv_start]]
  unfolding observeOperation_def observeAgentRun_def by blast

definition example_options :: observer_options where
  "example_options = \<lparr>oo_afterSequence = Some ''4'', oo_aborted = False, oo_maxReconnectAttempts = None\<rparr>"

definition example_envelope :: "string \<Rightarrow> string \<Rightarrow> EventEnvelope" where
  "example_envelope n ty = \<lparr>ee_sequence = n, ee_type = ty, ee_payload = Null\<rparr>"

definition example_terminal_run :: "observer_input list" where
  "example_terminal_run = [Subscribed 1 7, StreamEvent 1 (example_envelope ''5'' ''completed'') NoReaction,
     StreamEvent 1 (example_envelope ''6'' ''progress'') NoReaction, ResumeLoop]"

lemma example_run_done: "ob_phase (observeOperation ''op'' example_options example_terminal_run) = Done"
  by (simp add: observeOperation_def example_terminal_run_def example_options_def example_envelope_def
      observe_start_def runtimeSequence_def canonical_number_def is_digit_def nat_of_digits_def digit_val_def
      onStreamEvent_def onSubscribed_def isTerminalEvent_def resumeLoop_def observer_ops)

theorem observer_silent_after_close_witness:
  "NotifyClose \<in> set (ob_log (observeOperation ''op'' example_options example_terminal_run))"
  using observer_silent_after_close[of "''op''" example_options example_terminal_run] example_run_done by blast

section \<open>Bounded reconnects\<close>

fun is_subscribe :: "effect \<Rightarrow> bool" where
  "is_subscribe (Subscribe _) = True"
| "is_subscribe _ = False"

definition count_effects :: "(effect \<Rightarrow> bool) \<Rightarrow> observer \<Rightarrow> nat" where
  "count_effects P ob = length (filter P (ob_log ob))"

text \<open>One subscription per round, and a snapshot is only requested after a subscription.\<close>

definition bound_inv :: "nat \<Rightarrow> observer \<Rightarrow> bool" where
  "bound_inv m ob \<longleftrightarrow> ob_maxReconnectAttempts ob = m \<and> ob_reconnectAttempts ob \<le> m
     \<and> count_effects is_subscribe ob \<le> ob_reconnectAttempts ob + 1
     \<and> count_effects ((=) RequestSnapshot) ob + (case ob_phase ob of Streaming _ \<Rightarrow> 1 | _ \<Rightarrow> 0)
         \<le> ob_reconnectAttempts ob + 1"

lemma bound_basic:
  "bound_inv m ob \<Longrightarrow> bound_inv m (releaseCurrentSubscription ob)"
  "bound_inv m ob \<Longrightarrow> bound_inv m (close_observer ob)"
  "bound_inv m ob \<Longrightarrow> bound_inv m (fail_observer e ob)"
  "bound_inv m ob \<Longrightarrow> bound_inv m (finish_observer ob)"
  "bound_inv m ob \<Longrightarrow> bound_inv m (settle out ob)"
  "bound_inv m ob \<Longrightarrow> bound_inv m (ob\<lparr>ob_cursor := c\<rparr>)"
  "bound_inv m ob \<Longrightarrow> bound_inv m (ob\<lparr>ob_currentSubscription := h\<rparr>)"
  "bound_inv m ob \<Longrightarrow> \<not> is_subscribe ef \<Longrightarrow> ef \<noteq> RequestSnapshot \<Longrightarrow> bound_inv m (emit ef ob)"
  by (auto simp: bound_inv_def observer_ops count_effects_def split: option.splits phase.splits)

lemma bound_consume:
  "bound_inv m ob \<Longrightarrow> ob_reconnectAttempts ob < m \<Longrightarrow> ob_phase ob = Recovering out
    \<Longrightarrow> bound_inv m (consumeStream (ob\<lparr>ob_reconnectAttempts := ob_reconnectAttempts ob + 1\<rparr>))"
  by (auto simp: bound_inv_def observer_ops count_effects_def)

lemma bound_request:
  "bound_inv m ob \<Longrightarrow> ob_phase ob = Streaming x \<Longrightarrow>
     bound_inv m (emit RequestSnapshot (ob\<lparr>ob_phase := Recovering out\<rparr>))"
  by (auto simp: bound_inv_def emit_def count_effects_def)

lemma bound_more: "bound_inv m ob \<Longrightarrow> ob_reconnectAttempts ob < m
    \<Longrightarrow> bound_inv m (ob\<lparr>ob_reconnectAttempts := ob_reconnectAttempts ob + 1\<rparr>)"
  by (auto simp: bound_inv_def count_effects_def)

lemma bound_event: "bound_inv m ob \<Longrightarrow> bound_inv m (onStreamEvent cfg ev re ob)"
  by (auto simp: onStreamEvent_def Let_def bound_basic split: sum.splits reaction.splits)

lemma bound_continue:
  "bound_inv m ob \<Longrightarrow> ob_phase ob = Recovering out' \<Longrightarrow> bound_inv m (continueLoop cfg out s ob)"
  using bound_more[of m ob] bound_consume[of m ob out']
  by (auto simp: continueLoop_def Let_def bound_basic not_le bound_inv_def[of m ob])

lemma bound_snapshot: "bound_inv m ob \<Longrightarrow> bound_inv m (snapshotArrived cfg s re ob)"
  by (auto simp: snapshotArrived_def Let_def bound_basic intro!: bound_continue
      split: phase.splits sum.splits reaction.splits)

interpretation bound_machine: input_machine "observe_step cfg" "bound_inv m" for cfg m
proof unfold_locales
  fix s i
  assume inv: "bound_inv m s"
  then have "bound_inv m (resumeLoop s)"
    by (auto simp: resumeLoop_def Let_def intro!: bound_basic bound_request split: phase.splits option.splits)
  moreover have "bound_inv m (snapshotFailed cfg r s)" for r
    using inv by (auto simp: snapshotFailed_def bound_basic split: phase.splits)
  ultimately show "bound_inv m (observe_step cfg s i)"
    using inv by (cases i) (auto simp: bound_event bound_snapshot bound_basic onSubscribed_def)
qed

definition reconnect_limit :: "observer_options \<Rightarrow> nat" where
  "reconnect_limit options = nat (the_default 3 (oo_maxReconnectAttempts options))"

lemma bound_start: "bound_inv (reconnect_limit options) (observe_start cfg i options)"
  by (auto simp: observe_start_def Let_def bound_inv_def observer_ops count_effects_def reconnect_limit_def
      DEFAULT_MAX_RECONNECT_ATTEMPTS_def split: option.splits sum.splits)

lemma bound_inv_limit:
  "bound_inv m ob \<Longrightarrow> count_effects is_subscribe ob \<le> m + 1 \<and> count_effects ((=) RequestSnapshot) ob \<le> m + 1"
  by (auto simp: bound_inv_def)

text \<open>
  Reconnecting is bounded. However the runtime behaves, an observer subscribes at most once
  more than its reconnect limit (3 by default, and never less than 0), and asks for at most
  that many snapshots.
\<close>
theorem observer_reconnects_bounded:
  "count_effects is_subscribe (observeOperation i options inputs) \<le> reconnect_limit options + 1
   \<and> count_effects ((=) RequestSnapshot) (observeOperation i options inputs) \<le> reconnect_limit options + 1
   \<and> count_effects is_subscribe (observeAgentRun i options inputs) \<le> reconnect_limit options + 1
   \<and> count_effects ((=) RequestSnapshot) (observeAgentRun i options inputs) \<le> reconnect_limit options + 1"
  using bound_inv_limit[OF bound_machine.run_keeps[OF bound_start]]
  unfolding observeOperation_def observeAgentRun_def by blast

section \<open>Termination\<close>

text \<open>
  A round of the loop: callbacks of the stream and close calls in any order, the end of the
  stream, and the answer to the snapshot request.
\<close>

fun is_stream_callback :: "observer_input \<Rightarrow> bool" where
  "is_stream_callback ResumeLoop = False"
| "is_stream_callback (SnapshotFailed _) = False"
| "is_stream_callback (SnapshotArrived _ _) = False"
| "is_stream_callback _ = True"

fun is_snapshot_answer :: "observer_input \<Rightarrow> bool" where
  "is_snapshot_answer (SnapshotFailed _) = True"
| "is_snapshot_answer (SnapshotArrived _ _) = True"
| "is_snapshot_answer _ = False"

fun rounds_from :: "nat \<Rightarrow> (observer_input list \<times> observer_input) list \<Rightarrow> observer_input list" where
  "rounds_from n [] = []"
| "rounds_from n ((callbacks, answer) # rest) =
     callbacks @ [StreamClosed n, ResumeLoop, answer] @ rounds_from (n + 1) rest"

definition at_round :: "nat \<Rightarrow> nat \<Rightarrow> observer \<Rightarrow> bool" where
  "at_round m k ob \<longleftrightarrow> ob_phase ob = Done \<or>
     (\<exists>out. ob_phase ob = Streaming out) \<and> ob_stream ob = k + 1 \<and> ob_reconnectAttempts ob = k
       \<and> ob_maxReconnectAttempts ob = m \<and> k \<le> m"

lemma done_stays: "ob_phase ob = Done \<Longrightarrow> ob_phase (observe_step cfg ob i) = Done"
  by (cases i) (auto simp: onStreamEvent_def onSubscribed_def resumeLoop_def snapshotFailed_def
      snapshotArrived_def settle_def)

lemma counters_basic [simp]:
  "ob_stream (close_observer ob) = ob_stream ob"
  "ob_reconnectAttempts (close_observer ob) = ob_reconnectAttempts ob"
  "ob_maxReconnectAttempts (close_observer ob) = ob_maxReconnectAttempts ob"
  "ob_stream (emit ef ob) = ob_stream ob"
  "ob_reconnectAttempts (emit ef ob) = ob_reconnectAttempts ob"
  "ob_maxReconnectAttempts (emit ef ob) = ob_maxReconnectAttempts ob"
  "ob_stream (settle out ob) = ob_stream ob"
  "ob_reconnectAttempts (settle out ob) = ob_reconnectAttempts ob"
  "ob_maxReconnectAttempts (settle out ob) = ob_maxReconnectAttempts ob"
  "ob_stream (releaseCurrentSubscription ob) = ob_stream ob"
  "ob_reconnectAttempts (releaseCurrentSubscription ob) = ob_reconnectAttempts ob"
  "ob_maxReconnectAttempts (releaseCurrentSubscription ob) = ob_maxReconnectAttempts ob"
  by (auto simp: observer_ops split: option.splits)

lemma settle_streaming: "ob_phase ob = Streaming out \<Longrightarrow> \<exists>out'. ob_phase (settle r ob) = Streaming out'"
  by (auto simp: settle_def)

lemma callback_keeps_round: "at_round m k ob \<Longrightarrow> is_stream_callback i \<Longrightarrow> at_round m k (observe_step cfg ob i)"
  using done_stays[of ob cfg i]
  by (cases i) (auto simp: at_round_def onStreamEvent_def onSubscribed_def Let_def settle_def
      split: sum.splits reaction.splits)

lemma callbacks_keep_round:
  "at_round m k ob \<Longrightarrow> list_all is_stream_callback is \<Longrightarrow> at_round m k (foldl (observe_step cfg) ob is)"
  by (induction "is" arbitrary: ob) (auto intro: callback_keeps_round)

lemma answer_ends_round:
  assumes "ob_phase ob = Recovering out" "ob_stream ob = k + 1" "ob_reconnectAttempts ob = k"
    "ob_maxReconnectAttempts ob = m" "is_snapshot_answer answer"
  shows "at_round m (k + 1) (observe_step cfg ob answer)"
proof -
  have "at_round m (k + 1) (continueLoop cfg out s ob')"
    if "ob_stream ob' = k + 1" "ob_reconnectAttempts ob' = k" "ob_maxReconnectAttempts ob' = m" for ob' s out
    using that by (auto simp: at_round_def continueLoop_def Let_def consumeStream_def emit_def)
  moreover have "at_round m (k + 1) (finish_observer ob')" for ob' by (simp add: at_round_def)
  ultimately show ?thesis
    using assms
    by (cases answer) (auto simp: snapshotArrived_def snapshotFailed_def Let_def split: sum.splits reaction.splits)
qed

lemma round_end:
  assumes "at_round m k ob" and "is_snapshot_answer answer"
  shows "at_round m (k + 1) (foldl (observe_step cfg) ob [StreamClosed (k + 1), ResumeLoop, answer])"
proof (cases "ob_phase ob = Done")
  case True
  then have "ob_phase (foldl (observe_step cfg) ob [StreamClosed (k + 1), ResumeLoop, answer]) = Done"
    unfolding foldl_Cons foldl_Nil by (intro done_stays)
  then show ?thesis by (simp add: at_round_def)
next
  case False
  let ?a = "observe_step cfg ob (StreamClosed (k + 1))"
  let ?b = "resumeLoop ?a"
  have a: "\<exists>out. ob_phase ?a = Streaming (Some out)" "ob_stream ?a = k + 1" "ob_reconnectAttempts ?a = k"
    "ob_maxReconnectAttempts ?a = m"
    using False assms(1) by (auto simp: at_round_def settle_def split: option.splits)
  then have "ob_phase ?b = Done \<or> (\<exists>out. ob_phase ?b = Recovering out) \<and> ob_stream ?b = k + 1
      \<and> ob_reconnectAttempts ?b = k \<and> ob_maxReconnectAttempts ?b = m"
    by (auto simp: resumeLoop_def Let_def)
  then show ?thesis
  proof
    assume "ob_phase ?b = Done"
    then show ?thesis using done_stays[of ?b cfg answer] by (simp add: at_round_def)
  next
    assume "(\<exists>out. ob_phase ?b = Recovering out) \<and> ob_stream ?b = k + 1
      \<and> ob_reconnectAttempts ?b = k \<and> ob_maxReconnectAttempts ?b = m"
    then show ?thesis using answer_ends_round[of ?b _ k m answer cfg] assms(2) by auto
  qed
qed

lemma rounds_advance:
  "at_round m k ob \<Longrightarrow> list_all (\<lambda>(cs, a). list_all is_stream_callback cs \<and> is_snapshot_answer a) rs
    \<Longrightarrow> at_round m (k + length rs) (foldl (observe_step cfg) ob (rounds_from (k + 1) rs))"
proof (induction rs arbitrary: k ob)
  case (Cons r rs)
  obtain cs a where r: "r = (cs, a)" by (cases r)
  let ?ob = "foldl (observe_step cfg) (foldl (observe_step cfg) ob cs) [StreamClosed (k + 1), ResumeLoop, a]"
  have "at_round m (k + 1) ?ob"
    using Cons.prems r by (intro round_end callbacks_keep_round) auto
  from Cons.IH[OF this] Cons.prems r show ?case by simp
qed simp

lemma start_round: "at_round (reconnect_limit options) 0 (observe_start cfg i options)"
  by (auto simp: observe_start_def Let_def at_round_def consumeStream_def emit_def reconnect_limit_def
      DEFAULT_MAX_RECONNECT_ATTEMPTS_def split: option.splits sum.splits)

text \<open>
  C34: Observation ends. If every stream eventually ends and every snapshot request is answered,
  whatever the streams deliver, the answers say and the user does meanwhile, then one round
  more than the reconnect limit is enough for the observer to be finished, with \<open>onClose\<close> called.
\<close>
theorem observer_terminates:
  assumes "list_all (\<lambda>(cs, a). list_all is_stream_callback cs \<and> is_snapshot_answer a) rounds"
    and "length rounds > reconnect_limit options"
  shows "ob_phase (observeOperation i options (rounds_from 1 rounds)) = Done
    \<and> NotifyClose \<in> set (ob_log (observeOperation i options (rounds_from 1 rounds)))
    \<and> ob_phase (observeAgentRun i options (rounds_from 1 rounds)) = Done
    \<and> NotifyClose \<in> set (ob_log (observeAgentRun i options (rounds_from 1 rounds)))"
proof -
  have ended: "ob_phase (foldl (observe_step cfg) (observe_start cfg i options) (rounds_from 1 rounds)) = Done" for cfg
    using rounds_advance[OF start_round assms(1), of options cfg cfg i] assms(2)
    by (simp add: at_round_def)
  then show ?thesis
    using closed_when_done[OF close_machine.run_keeps[OF close_inv_start]]
    unfolding observeOperation_def observeAgentRun_def by blast
qed

definition example_rounds :: "(observer_input list \<times> observer_input) list" where
  "example_rounds = replicate 4 ([], SnapshotArrived \<lparr>sn_id = ''op'', sn_lastSequence = ''9'', sn_status = ''running''\<rparr> NoReaction)"

theorem observer_terminates_witness:
  "ob_phase (observeOperation ''op'' example_options (rounds_from 1 example_rounds)) = Done"
  using observer_terminates[of example_rounds example_options "''op''"]
  by (simp add: example_rounds_def reconnect_limit_def example_options_def list_all_iff)

end
