(* ===== verification/Tab_Layout.thy ===== *)
theory Tab_Layout
  imports Js_Sort
begin

text \<open>
  The split layout of the workspace tabs: \<open>workspaceTabLayout.ts\<close>, \<open>workspaceTabSelection.ts\<close> and
  \<open>workspaceTabContentLayout.ts\<close> of \<open>pages/main/workspace/components/WorkspaceTabs\<close>. Panes form a
  binary tree; each pane has an ordered list of tab ids and an active tab.

  Objects keyed by pane ids are association lists (pane ids are not integer-like, so property
  order is insertion order). The sources share unchanged subtrees by reference, which values do
  not show. The module variable \<open>splitNodeSequence\<close> and the clock, from which fresh node ids are
  made, are passed and the sequence is returned.
\<close>

section \<open>Data\<close>

datatype tab_id = TabName string | TabNumber int

datatype WorkspaceTabSplitDirection = Horizontal | Vertical

datatype pane_size = Pixels int | Share string

datatype IWorkspaceTabPaneNode =
    Pane string
  | Split "string option" WorkspaceTabSplitDirection "pane_size option" IWorkspaceTabPaneNode IWorkspaceTabPaneNode

text \<open>
  An optional and nullable tab id (\<open>lastNonTerminalActiveTabId?: id | null\<close>) is \<open>undefined\<close>
  (\<open>None\<close>), \<open>null\<close> (\<open>Some None\<close>) or an id.
\<close>

record IWorkspaceTabSplitLayout =
  direction :: WorkspaceTabSplitDirection
  activePane :: string
  lastNonTerminalActiveTabId :: "tab_id option option"
  paneTabIds :: "(string \<times> tab_id list) list"
  activeTabIds :: "(string \<times> tab_id option) list"
  root :: "IWorkspaceTabPaneNode option"

datatype WorkspaceTabType = TerminalTab | OtherTab string

datatype TerminalOpenPosition = PositionTab | PositionBottom | PositionRight

record IWorkspaceTab =
  tab_id :: tab_id
  tab_type :: WorkspaceTabType
  tab_terminalOpenPosition :: "TerminalOpenPosition option"

section \<open>workspaceTabLayout.ts\<close>

definition pane_tabs :: "IWorkspaceTabSplitLayout \<Rightarrow> string \<Rightarrow> tab_id list" where
  "pane_tabs layout paneId = or_empty (map_of (paneTabIds layout) paneId)"

definition appendWorkspaceTabToPane ::
  "IWorkspaceTabSplitLayout \<Rightarrow> tab_id \<Rightarrow> string option \<Rightarrow> IWorkspaceTabSplitLayout" where
  "appendWorkspaceTabToPane layout tabId pane =
     (let paneId = the_default (activePane layout) pane;
          ids = pane_tabs layout paneId
      in layout\<lparr>activePane := paneId,
           paneTabIds := AList.update paneId (if tabId \<in> set ids then ids else ids @ [tabId]) (paneTabIds layout),
           activeTabIds := AList.update paneId (Some tabId) (activeTabIds layout)\<rparr>)"

definition createSplitNodeId :: "int \<Rightarrow> nat \<Rightarrow> string \<times> nat" where
  "createSplitNodeId now splitNodeSequence =
     (''split_'' @ string_of_int now @ ''_'' @ string_of_nat (splitNodeSequence + 1), splitNodeSequence + 1)"

definition createWorkspaceTabSplitNode ::
  "int \<Rightarrow> nat \<Rightarrow> WorkspaceTabSplitDirection \<Rightarrow> IWorkspaceTabPaneNode \<Rightarrow> IWorkspaceTabPaneNode \<Rightarrow> pane_size option
    \<Rightarrow> IWorkspaceTabPaneNode \<times> nat" where
  "createWorkspaceTabSplitNode now sq dir first second sz =
     (let (nodeId, sq') = createSplitNodeId now sq in (Split (Some nodeId) dir sz first second, sq'))"

fun ensureWorkspaceTabSplitNodeIds ::
  "int \<Rightarrow> nat \<Rightarrow> IWorkspaceTabPaneNode \<Rightarrow> IWorkspaceTabPaneNode \<times> nat" where
  "ensureWorkspaceTabSplitNodeIds now sq (Pane i) = (Pane i, sq)"
| "ensureWorkspaceTabSplitNodeIds now sq (Split nodeId dir sz l r) =
     (let (first, sq1) = ensureWorkspaceTabSplitNodeIds now sq l;
          (second, sq2) = ensureWorkspaceTabSplitNodeIds now sq1 r
      in if truthy_str nodeId then (Split nodeId dir sz first second, sq2)
         else let (fresh, sq3) = createSplitNodeId now sq2 in (Split (Some fresh) dir sz first second, sq3))"

fun collectPaneIds :: "IWorkspaceTabPaneNode \<Rightarrow> string list" where
  "collectPaneIds (Pane i) = [i]"
| "collectPaneIds (Split _ _ _ first second) = collectPaneIds first @ collectPaneIds second"

definition collectWorkspaceTabPaneIds :: "IWorkspaceTabPaneNode option \<Rightarrow> string list" where
  "collectWorkspaceTabPaneIds node = (case node of None \<Rightarrow> [] | Some n \<Rightarrow> collectPaneIds n)"

fun replaceWorkspaceTabPaneNode ::
  "IWorkspaceTabPaneNode \<Rightarrow> string \<Rightarrow> IWorkspaceTabPaneNode \<Rightarrow> IWorkspaceTabPaneNode" where
  "replaceWorkspaceTabPaneNode (Pane i) paneId replacement = (if i = paneId then replacement else Pane i)"
| "replaceWorkspaceTabPaneNode (Split nodeId dir sz first second) paneId replacement =
     Split nodeId dir sz (replaceWorkspaceTabPaneNode first paneId replacement)
       (replaceWorkspaceTabPaneNode second paneId replacement)"

fun updateWorkspaceTabSplitNodeSize ::
  "IWorkspaceTabPaneNode \<Rightarrow> string \<Rightarrow> pane_size \<Rightarrow> IWorkspaceTabPaneNode" where
  "updateWorkspaceTabSplitNodeSize (Pane i) nodeId sz = Pane i"
| "updateWorkspaceTabSplitNodeSize (Split n dir oldSize first second) nodeId sz =
     (if n = Some nodeId then Split n dir (Some sz) first second
      else Split n dir oldSize (updateWorkspaceTabSplitNodeSize first nodeId sz)
        (updateWorkspaceTabSplitNodeSize second nodeId sz))"

fun pruneWorkspaceTabPaneNode ::
  "IWorkspaceTabPaneNode \<Rightarrow> string set \<Rightarrow> IWorkspaceTabPaneNode option" where
  "pruneWorkspaceTabPaneNode (Pane i) validPaneIds = (if i \<in> validPaneIds then Some (Pane i) else None)"
| "pruneWorkspaceTabPaneNode (Split nodeId dir sz l r) validPaneIds =
     (case (pruneWorkspaceTabPaneNode l validPaneIds, pruneWorkspaceTabPaneNode r validPaneIds) of
        (Some first, Some second) \<Rightarrow> Some (Split nodeId dir sz first second)
      | (Some first, None) \<Rightarrow> Some first
      | (None, second) \<Rightarrow> second)"

fun paneNodesEqual :: "IWorkspaceTabPaneNode \<Rightarrow> IWorkspaceTabPaneNode \<Rightarrow> bool" where
  "paneNodesEqual (Pane i) (Pane j) = (i = j)"
| "paneNodesEqual (Split n d s l r) (Split n' d' s' l' r') =
     (n = n' \<and> d = d' \<and> s = s' \<and> paneNodesEqual l l' \<and> paneNodesEqual r r')"
| "paneNodesEqual _ _ = False"

definition rootsEqual :: "IWorkspaceTabPaneNode option \<Rightarrow> IWorkspaceTabPaneNode option \<Rightarrow> bool" where
  "rootsEqual left right = (case (left, right) of
     (None, None) \<Rightarrow> True | (Some l, Some r) \<Rightarrow> paneNodesEqual l r | _ \<Rightarrow> False)"

definition recordOfIdsEqual :: "(string \<times> tab_id list) list \<Rightarrow> (string \<times> tab_id list) list \<Rightarrow> bool" where
  "recordOfIdsEqual left right \<longleftrightarrow> length left = length right \<and>
     list_all (\<lambda>key. map_of right key \<noteq> None \<and>
       (let leftIds = or_empty (map_of left key); rightIds = or_empty (map_of right key)
        in length leftIds = length rightIds \<and> list_all2 (=) leftIds rightIds)) (map fst left)"

definition areWorkspaceTabSplitLayoutsEqual ::
  "IWorkspaceTabSplitLayout option \<Rightarrow> IWorkspaceTabSplitLayout option \<Rightarrow> bool" where
  "areWorkspaceTabSplitLayoutsEqual left right = (case (left, right) of
     (None, None) \<Rightarrow> True
   | (Some l, Some r) \<Rightarrow>
       direction l = direction r \<and> activePane l = activePane r
       \<and> lastNonTerminalActiveTabId l = lastNonTerminalActiveTabId r
       \<and> rootsEqual (root l) (root r)
       \<and> recordOfIdsEqual (paneTabIds l) (paneTabIds r)
       \<and> length (activeTabIds l) = length (activeTabIds r)
       \<and> list_all (\<lambda>key. map_of (activeTabIds r) key \<noteq> None
            \<and> map_of (activeTabIds l) key = map_of (activeTabIds r) key) (map fst (activeTabIds l))
   | _ \<Rightarrow> False)"

section \<open>workspaceTabSelection.ts\<close>

text \<open>The candidates in the pane of the closed tab and elsewhere, in the order they are tried.\<close>

definition nextTabCandidates ::
  "(tab_id \<Rightarrow> bool) \<Rightarrow> IWorkspaceTabSplitLayout \<Rightarrow> string \<Rightarrow> tab_id \<Rightarrow> tab_id option list" where
  "nextTabCandidates isAvailableTabId layout activePaneId active =
     (let ids = pane_tabs layout activePaneId;
          before = takeWhile (\<lambda>i. i \<noteq> active) ids;
          after = drop (length before + 1) ids
      in [List.find isAvailableTabId (rev before),
          List.find isAvailableTabId after,
          List.find isAvailableTabId ids,
          (case lastNonTerminalActiveTabId layout of
             Some (Some i) \<Rightarrow> if isAvailableTabId i then Some i else None | _ \<Rightarrow> None),
          List.find isAvailableTabId
            (List.map_filter (\<lambda>(paneId, t). if paneId \<noteq> activePaneId then t else None) (activeTabIds layout)),
          List.find isAvailableTabId
            (concat (map snd (filter (\<lambda>(paneId, ts). paneId \<noteq> activePaneId) (paneTabIds layout))))])"

definition getNextActiveWorkspaceTabIdAfterClose ::
  "tab_id option \<Rightarrow> tab_id set \<Rightarrow> IWorkspaceTabSplitLayout option \<Rightarrow> IWorkspaceTab list \<Rightarrow> tab_id option" where
  "getNextActiveWorkspaceTabIdAfterClose activeConsoleId closeTabIds layoutOpt orderedNextWorkspaceTabList =
     (case activeConsoleId of
        None \<Rightarrow> None
      | Some active \<Rightarrow>
        if active \<notin> closeTabIds then Some active
        else if orderedNextWorkspaceTabList = [] then None
        else
          let availableTabIds = tab_id ` set orderedNextWorkspaceTabList;
              isAvailableTabId = (\<lambda>i. i \<notin> closeTabIds \<and> i \<in> availableTabIds);
              lastTab = Some (tab_id (last orderedNextWorkspaceTabList))
          in case layoutOpt of
               None \<Rightarrow> lastTab
             | Some layout \<Rightarrow>
               (case List.find (\<lambda>p. active \<in> set (pane_tabs layout p)) (map fst (paneTabIds layout)) of
                  None \<Rightarrow> lastTab
                | Some activePaneId \<Rightarrow>
                  if activePaneId = [] then lastTab
                  else case List.find (\<lambda>c. c \<noteq> None)
                      (nextTabCandidates isAvailableTabId layout activePaneId active) of
                    Some c \<Rightarrow> c | None \<Rightarrow> lastTab))"

section \<open>workspaceTabContentLayout.ts\<close>

record WorkspacePaneContentBounds =
  b_left :: int
  b_top :: int
  b_width :: int
  b_height :: int

definition resolveActiveWorkspaceTabPaneIds ::
  "tab_id option \<Rightarrow> (string \<times> tab_id option) list option \<Rightarrow> string \<Rightarrow> (tab_id \<times> string) list" where
  "resolveActiveWorkspaceTabPaneIds activeConsoleId paneActiveTabIds mainPaneId =
     (case paneActiveTabIds of
        Some entries \<Rightarrow>
          foldl (\<lambda>m (paneId, t). case t of None \<Rightarrow> m | Some i \<Rightarrow> AList.update i paneId m) [] entries
      | None \<Rightarrow> (case activeConsoleId of None \<Rightarrow> [] | Some i \<Rightarrow> [(i, mainPaneId)]))"

definition resolveWorkspacePaneContentBounds ::
  "WorkspacePaneContentBounds \<Rightarrow> WorkspacePaneContentBounds \<Rightarrow> WorkspacePaneContentBounds" where
  "resolveWorkspacePaneContentBounds containerRect paneRect =
     \<lparr>b_left = b_left paneRect - b_left containerRect, b_top = b_top paneRect - b_top containerRect,
      b_width = b_width paneRect, b_height = b_height paneRect\<rparr>"

definition areWorkspacePaneContentBoundsEqual ::
  "(string \<times> WorkspacePaneContentBounds) list \<Rightarrow> (string \<times> WorkspacePaneContentBounds) list \<Rightarrow> bool" where
  "areWorkspacePaneContentBoundsEqual left right \<longleftrightarrow> length left = length right \<and>
     list_all (\<lambda>paneId. case (map_of left paneId, map_of right paneId) of
        (Some l, Some r) \<Rightarrow> b_left l = b_left r \<and> b_top l = b_top r \<and> b_width l = b_width r \<and> b_height l = b_height r
      | _ \<Rightarrow> False) (map fst left)"

section \<open>The tree of panes\<close>

lemma collect_not_Nil [simp]: "collectPaneIds n \<noteq> []"
  by (induction n) auto

text \<open>
  Pruning removes exactly the panes that are not valid: the panes of the pruned tree are the
  valid panes of the old one, in their order, there is no tree left exactly when no pane is
  valid, and a tree whose panes are all valid is kept as it is.
\<close>
theorem prune_keeps_valid_panes:
  "collectWorkspaceTabPaneIds (pruneWorkspaceTabPaneNode n valid)
      = filter (\<lambda>i. i \<in> valid) (collectWorkspaceTabPaneIds (Some n))
   \<and> (pruneWorkspaceTabPaneNode n valid = None \<longleftrightarrow> set (collectPaneIds n) \<inter> valid = {})
   \<and> (set (collectPaneIds n) \<subseteq> valid \<longrightarrow> pruneWorkspaceTabPaneNode n valid = Some n)"
  by (induction n) (auto simp: collectWorkspaceTabPaneIds_def split: option.splits)

theorem prune_keeps_valid_panes_witness:
  "pruneWorkspaceTabPaneNode (Split None Vertical None (Pane ''main'') (Pane ''p'')) {''main'', ''p''}
    = Some (Split None Vertical None (Pane ''main'') (Pane ''p''))"
  using prune_keeps_valid_panes[of "Split None Vertical None (Pane ''main'') (Pane ''p'')" "{''main'', ''p''}"]
  by simp

lemma replace_absent: "paneId \<notin> set (collectPaneIds n) \<Longrightarrow> replaceWorkspaceTabPaneNode n paneId r = n"
  by (induction n) auto

lemma replace_collect:
  "distinct (collectPaneIds n) \<Longrightarrow> paneId \<in> set (collectPaneIds n) \<Longrightarrow>
     \<exists>pre post. collectPaneIds n = pre @ paneId # post
       \<and> collectPaneIds (replaceWorkspaceTabPaneNode n paneId r) = pre @ collectPaneIds r @ post"
proof (induction n)
  case (Split nodeId dir sz l r')
  show ?case
  proof (cases "paneId \<in> set (collectPaneIds l)")
    case True
    with Split.prems have "replaceWorkspaceTabPaneNode r' paneId r = r'"
      by (intro replace_absent) auto
    with True Split show ?thesis by fastforce
  next
    case False
    with Split.prems have "paneId \<in> set (collectPaneIds r')" by simp
    with Split obtain pre post where "collectPaneIds r' = pre @ paneId # post"
      "collectPaneIds (replaceWorkspaceTabPaneNode r' paneId r) = pre @ collectPaneIds r @ post" by auto
    with replace_absent[OF False] have
      "collectPaneIds (Split nodeId dir sz l r') = (collectPaneIds l @ pre) @ paneId # post"
      "collectPaneIds (replaceWorkspaceTabPaneNode (Split nodeId dir sz l r') paneId r)
        = (collectPaneIds l @ pre) @ collectPaneIds r @ post" by simp_all
    then show ?thesis by blast
  qed
qed (force simp: Cons_eq_append_conv)

section \<open>Comparing layouts\<close>

lemma paneNodesEqual_iff: "paneNodesEqual a b \<longleftrightarrow> a = b"
  by (induction a b rule: paneNodesEqual.induct) auto

lemma rootsEqual_iff: "rootsEqual a b \<longleftrightarrow> a = b"
  by (auto simp: rootsEqual_def paneNodesEqual_iff split: option.splits)

text \<open>Two dictionaries of the same size with equal values at the keys of one are equal.\<close>

lemma same_size_dictionaries:
  assumes "distinct (map fst a)" "distinct (map fst b)"
  shows "length a = length b \<and> (\<forall>k \<in> set (map fst a). map_of a k = map_of b k) \<longleftrightarrow> map_of a = map_of b"
proof
  assume eq: "length a = length b \<and> (\<forall>k \<in> set (map fst a). map_of a k = map_of b k)"
  have "set (map fst a) \<subseteq> set (map fst b)"
  proof
    fix k assume k: "k \<in> set (map fst a)"
    then have "map_of a k \<noteq> None" by (metis map_of_eq_None_iff set_map)
    with eq k have "map_of b k \<noteq> None" by metis
    then show "k \<in> set (map fst b)" by (metis map_of_eq_None_iff set_map)
  qed
  moreover have "card (set (map fst a)) = card (set (map fst b))"
    using eq assms by (metis distinct_card length_map)
  ultimately have "set (map fst a) = set (map fst b)" by (metis List.finite_set card_subset_eq)
  with eq show "map_of a = map_of b" by (metis map_of_eq_None_iff set_map ext)
next
  assume eq: "map_of a = map_of b"
  then have "dom (map_of a) = dom (map_of b)" by simp
  then have "set (map fst a) = set (map fst b)" by (simp add: dom_map_of_conv_image_fst)
  with assms eq show "length a = length b \<and> (\<forall>k \<in> set (map fst a). map_of a k = map_of b k)"
    by (metis distinct_card length_map)
qed

definition layout_value where
  "layout_value l = (direction l, activePane l, lastNonTerminalActiveTabId l, root l,
     map_of (paneTabIds l), map_of (activeTabIds l))"

text \<open>Keys of an object are distinct.\<close>

definition object_keys_ok :: "IWorkspaceTabSplitLayout \<Rightarrow> bool" where
  "object_keys_ok l \<longleftrightarrow> distinct (map fst (paneTabIds l)) \<and> distinct (map fst (activeTabIds l))"

lemma or_empty_pair:
  "x \<noteq> None \<Longrightarrow> y \<noteq> None \<Longrightarrow> or_empty x = or_empty y \<longleftrightarrow> x = y"
  by auto

lemma recordOfIdsEqual_iff:
  assumes "distinct (map fst a)" "distinct (map fst b)"
  shows "recordOfIdsEqual a b \<longleftrightarrow> map_of a = map_of b"
proof -
  have pt: "map_of b k \<noteq> None \<and> length (or_empty (map_of a k)) = length (or_empty (map_of b k))
      \<and> list_all2 (=) (or_empty (map_of a k)) (or_empty (map_of b k)) \<longleftrightarrow> map_of a k = map_of b k"
    if "k \<in> set (map fst a)" for k
  proof -
    have "map_of a k \<noteq> None" using that by (metis map_of_eq_None_iff set_map)
    then show ?thesis by (cases "map_of b k") (auto simp: list_all2_eq[symmetric])
  qed
  have "recordOfIdsEqual a b \<longleftrightarrow> length a = length b \<and> (\<forall>k \<in> set (map fst a). map_of a k = map_of b k)"
    unfolding recordOfIdsEqual_def list_all_iff Let_def using pt by blast
  also have "\<dots> \<longleftrightarrow> map_of a = map_of b" by (rule same_size_dictionaries[OF assms])
  finally show ?thesis .
qed

text \<open>
  The comparison that decides whether a layout needs to be stored is exact: it holds exactly
  when the two layouts have the same direction, active pane, last non-terminal tab, pane tree,
  tab lists and active tabs, independent of the order in which panes were added.
\<close>
theorem layouts_equal_iff_same_value:
  assumes "object_keys_ok l" and "object_keys_ok r"
  shows "areWorkspaceTabSplitLayoutsEqual (Some l) (Some r) \<longleftrightarrow> layout_value l = layout_value r"
proof -
  have "map_of (activeTabIds r) k \<noteq> None \<and> map_of (activeTabIds l) k = map_of (activeTabIds r) k
      \<longleftrightarrow> map_of (activeTabIds l) k = map_of (activeTabIds r) k"
    if "k \<in> set (map fst (activeTabIds l))" for k
    using that by (metis map_of_eq_None_iff set_map)
  then have active: "length (activeTabIds l) = length (activeTabIds r)
      \<and> list_all (\<lambda>key. map_of (activeTabIds r) key \<noteq> None
            \<and> map_of (activeTabIds l) key = map_of (activeTabIds r) key) (map fst (activeTabIds l))
      \<longleftrightarrow> map_of (activeTabIds l) = map_of (activeTabIds r)"
    using same_size_dictionaries[of "activeTabIds l" "activeTabIds r"] assms
    unfolding list_all_iff object_keys_ok_def by blast
  show ?thesis
    using assms recordOfIdsEqual_iff[of "paneTabIds l" "paneTabIds r"] active
    unfolding areWorkspaceTabSplitLayoutsEqual_def layout_value_def object_keys_ok_def
    by (simp add: rootsEqual_iff)
qed

definition example_layout :: IWorkspaceTabSplitLayout where
  "example_layout = \<lparr>direction = Vertical, activePane = ''main'', lastNonTerminalActiveTabId = None,
     paneTabIds = [(''main'', [TabNumber 1, TabNumber 2]), (''p'', [TabName ''t''])],
     activeTabIds = [(''main'', Some (TabNumber 2)), (''p'', Some (TabName ''t''))],
     root = Some (Split None Vertical None (Pane ''main'') (Pane ''p''))\<rparr>"

theorem layouts_equal_iff_same_value_witness:
  "areWorkspaceTabSplitLayoutsEqual (Some example_layout)
     (Some (example_layout\<lparr>paneTabIds := rev (paneTabIds example_layout)\<rparr>))"
proof -
  have "layout_value example_layout = layout_value (example_layout\<lparr>paneTabIds := rev (paneTabIds example_layout)\<rparr>)"
    by (auto simp: layout_value_def example_layout_def)
  then show ?thesis
    using layouts_equal_iff_same_value[of example_layout "example_layout\<lparr>paneTabIds := rev (paneTabIds example_layout)\<rparr>"]
    by (simp add: object_keys_ok_def example_layout_def)
qed

section \<open>The next active tab\<close>

lemma candidates_available:
  assumes "List.find (\<lambda>c. c \<noteq> None) (nextTabCandidates ok layout p a) = Some c"
  shows "\<exists>i. c = Some i \<and> ok i"
proof -
  from find_SomeD[OF assms] obtain i where i: "c = Some i" "Some i \<in> set (nextTabCandidates ok layout p a)" by auto
  have found: "Some i = List.find ok xs \<Longrightarrow> ok i" for xs using find_SomeD[of ok xs i] by simp
  from i(2) have "ok i"
    by (auto simp: nextTabCandidates_def Let_def dest: found split: option.splits if_splits)
  with i(1) show ?thesis by simp
qed

text \<open>
  Closing tabs never leaves a closed tab active. If the active tab is closed and some tab
  remains, the next active tab is one of the remaining tabs; if none remains, there is none;
  and if the active tab is not closed, it stays active.
\<close>
theorem next_active_tab_available:
  assumes "closeTabIds \<inter> tab_id ` set remaining = {}"
  shows "case getNextActiveWorkspaceTabIdAfterClose active closeTabIds layout remaining of
      None \<Rightarrow> active = None \<or> remaining = []
    | Some i \<Rightarrow> i \<notin> closeTabIds \<and> (active = Some i \<or> i \<in> tab_id ` set remaining)"
proof (cases "active = None \<or> the active \<notin> closeTabIds \<or> remaining = []")
  case True
  then show ?thesis by (auto simp: getNextActiveWorkspaceTabIdAfterClose_def split: option.splits)
next
  case False
  then obtain a where a: "active = Some a" "a \<in> closeTabIds" and ne: "remaining \<noteq> []" by auto
  let ?ok = "\<lambda>i. i \<notin> closeTabIds \<and> i \<in> tab_id ` set remaining"
  have last: "?ok (tab_id (last remaining))" using assms ne by auto
  have "\<exists>i. getNextActiveWorkspaceTabIdAfterClose active closeTabIds layout remaining = Some i \<and> ?ok i"
  proof (cases layout)
    case None
    with a ne last show ?thesis by (simp add: getNextActiveWorkspaceTabIdAfterClose_def Let_def)
  next
    case (Some l)
    show ?thesis
      using a ne last
      by (auto simp: getNextActiveWorkspaceTabIdAfterClose_def Let_def Some
          simp del: not_None_eq split: option.splits dest: candidates_available)
  qed
  then show ?thesis by auto
qed

theorem next_active_tab_available_witness:
  "case getNextActiveWorkspaceTabIdAfterClose (Some (TabNumber 2)) {TabNumber 2} (Some example_layout)
       [\<lparr>tab_id = TabNumber 1, tab_type = OtherTab ''console'', tab_terminalOpenPosition = None\<rparr>] of
     None \<Rightarrow> False | Some i \<Rightarrow> i \<noteq> TabNumber 2"
  using next_active_tab_available[of "{TabNumber 2}"
      "[\<lparr>tab_id = TabNumber 1, tab_type = OtherTab ''console'', tab_terminalOpenPosition = None\<rparr>]"
      "Some (TabNumber 2)" "Some example_layout"]
  by (simp split: option.splits)

section \<open>Appending a tab\<close>

text \<open>
  Opening a tab in a pane puts it there once and makes it the active tab of the active pane;
  opening it again changes nothing, the tabs of other panes stay as they are, and a tab that
  was already in the pane keeps its place.
\<close>
theorem append_tab_once:
  fixes layout :: IWorkspaceTabSplitLayout and t :: tab_id and p :: string
  defines "l1 \<equiv> appendWorkspaceTabToPane layout t (Some p)"
  shows "activePane l1 = p \<and> map_of (activeTabIds l1) p = Some (Some t) \<and> t \<in> set (pane_tabs l1 p)
    \<and> count_list (pane_tabs l1 p) t = max 1 (count_list (pane_tabs layout p) t)
    \<and> prefix (pane_tabs layout p) (pane_tabs l1 p)
    \<and> (\<forall>q. q \<noteq> p \<longrightarrow> map_of (paneTabIds l1) q = map_of (paneTabIds layout) q)
    \<and> appendWorkspaceTabToPane l1 t (Some p) = l1"
proof -
  have ids: "pane_tabs l1 p = (if t \<in> set (pane_tabs layout p) then pane_tabs layout p else pane_tabs layout p @ [t])"
    by (simp add: l1_def appendWorkspaceTabToPane_def Let_def pane_tabs_def js_map.get_set)
  have cnt: "t \<in> set xs \<Longrightarrow> count_list xs t \<ge> 1" for xs by (metis count_list_0_iff less_one not_le)
  have "appendWorkspaceTabToPane l1 t (Some p) = l1"
    using ids
    by (simp add: l1_def appendWorkspaceTabToPane_def Let_def pane_tabs_def js_map.get_set)
  with ids cnt[of "pane_tabs layout p"] show ?thesis
    by (auto simp: l1_def appendWorkspaceTabToPane_def Let_def js_map.get_set max_def)
qed

theorem append_tab_once_witness:
  "map_of (paneTabIds (appendWorkspaceTabToPane example_layout (TabNumber 9) (Some ''p''))) ''main''
     = Some [TabNumber 1, TabNumber 2]"
  using append_tab_once[where layout = example_layout and t = "TabNumber 9" and p = "''p''"]
  by (simp add: example_layout_def)

end
