(* ===== verification/Js_Uri.thy ===== *)
theory Js_Uri
  imports Js_Prelude
begin

text \<open>
  \<open>encodeURIComponent\<close> and \<open>decodeURIComponent\<close> of the language, on characters below
  256: unreserved characters stay, others become the percent-encoded bytes of their UTF-8 form;
  decoding fails (\<open>None\<close>) on malformed text and on characters outside of this range.
\<close>

definition unreserved :: "char \<Rightarrow> bool" where
  "unreserved c \<longleftrightarrow> (is_word_char c \<or> c \<in> set ''-.!~*()'' \<or> c = CHR 0x27)"

definition hex_char :: "nat \<Rightarrow> char" where
  "hex_char d = (if d < 10 then char_of (48 + d) else char_of (55 + d))"

definition hex_val :: "char \<Rightarrow> nat option" where
  "hex_val c = (let n = (of_char c :: nat) in
     if 48 \<le> n \<and> n \<le> 57 then Some (n - 48)
     else if 65 \<le> n \<and> n \<le> 70 then Some (n - 55)
     else if 97 \<le> n \<and> n \<le> 102 then Some (n - 87) else None)"

definition percent :: "nat \<Rightarrow> string" where
  "percent n = [CHR 0x25, hex_char (n div 16), hex_char (n mod 16)]"

definition encode_char :: "char \<Rightarrow> string" where
  "encode_char c = (let n = of_char c in
     if unreserved c then [c] else if n < 128 then percent n
     else percent (192 + n div 64) @ percent (128 + n mod 64))"

definition encodeURIComponent :: "string \<Rightarrow> string" where
  "encodeURIComponent s = concat (map encode_char s)"

fun percent_byte :: "string \<Rightarrow> (nat \<times> string) option" where
  "percent_byte (p # a # b # rest) =
     (if p = CHR 0x25 then (case (hex_val a, hex_val b) of (Some x, Some y) \<Rightarrow> Some (16 * x + y, rest) | _ \<Rightarrow> None)
      else None)"
| "percent_byte _ = None"

lemma percent_byte_shorter: "percent_byte s = Some (n, rest) \<Longrightarrow> length rest < length s"
  by (induction s rule: percent_byte.induct) (auto split: if_splits option.splits)

function decodeURIComponent :: "string \<Rightarrow> string option" where
  "decodeURIComponent [] = Some []"
| "decodeURIComponent (c # cs) =
     (if c \<noteq> CHR 0x25 then map_option ((#) c) (decodeURIComponent cs)
      else case percent_byte (c # cs) of
        None \<Rightarrow> None
      | Some (n, rest) \<Rightarrow>
          if n < 128 then map_option ((#) (char_of n)) (decodeURIComponent rest)
          else if n = 194 \<or> n = 195 then
            (case percent_byte rest of
               Some (m, rest') \<Rightarrow>
                 if 128 \<le> m \<and> m < 192
                 then map_option ((#) (char_of ((n - 192) * 64 + (m - 128)))) (decodeURIComponent rest')
                 else None
             | None \<Rightarrow> None)
          else None)"
  by pat_completeness auto
termination
  by (relation "measure length") (auto dest!: percent_byte_shorter)

lemma hex_val_char: "d < 16 \<Longrightarrow> hex_val (hex_char d) = Some d"
  by (auto simp: hex_val_def hex_char_def of_char_of Let_def)

lemma percent_byte_percent: "n < 256 \<Longrightarrow> percent_byte (percent n @ rest) = Some (n, rest)"
  by (simp add: percent_def hex_val_char less_mult_imp_div_less)

lemma percent_Cons: "\<exists>a b. percent n = [CHR 0x25, a, b]"
  by (simp add: percent_def)

lemma decode_percent:
  "n < 128 \<Longrightarrow> decodeURIComponent (percent n @ s) = map_option ((#) (char_of n)) (decodeURIComponent s)"
  using percent_byte_percent[of n s] by (simp add: percent_def)

lemma decode_two_bytes:
  assumes "128 \<le> n" "n < 256"
  shows "decodeURIComponent (percent (192 + n div 64) @ percent (128 + n mod 64) @ s)
    = map_option ((#) (char_of n)) (decodeURIComponent s)"
proof -
  let ?a = "192 + n div 64" and ?b = "128 + n mod 64"
  have d: "n div 64 = 2 \<or> n div 64 = 3" using assms by auto
  have "percent_byte (percent ?a @ percent ?b @ s) = Some (?a, percent ?b @ s)"
    "percent_byte (percent ?b @ s) = Some (?b, s)"
    using assms by (auto intro!: percent_byte_percent)
  moreover have "?b < 192" by simp
  moreover have "(?a - 192) * 64 + (?b - 128) = n" by simp
  moreover obtain a b where "percent ?a = [CHR 0x25, a, b]" using percent_Cons by blast
  ultimately show ?thesis using d by auto
qed

lemma unreserved_not_percent: "unreserved c \<Longrightarrow> c \<noteq> CHR 0x25"
  by (auto simp: unreserved_def is_word_char_def Let_def)

lemma decode_encode: "decodeURIComponent (encodeURIComponent s) = Some s"
proof (induction s)
  case (Cons c s)
  have "decodeURIComponent (encode_char c @ t) = map_option ((#) c) (decodeURIComponent t)" for t
  proof (cases "unreserved c")
    case True
    then show ?thesis by (simp add: encode_char_def unreserved_not_percent)
  next
    case False
    have "of_char c < (256 :: nat)" by (rule nat_of_char_less_256)
    with False show ?thesis
      using decode_percent[of "of_char c" t] decode_two_bytes[of "of_char c" t]
      by (simp add: encode_char_def Let_def)
  qed
  with Cons show ?case by (simp add: encodeURIComponent_def)
qed (simp add: encodeURIComponent_def)

lemma encode_inject [simp]: "encodeURIComponent s = encodeURIComponent t \<longleftrightarrow> s = t"
  by (metis decode_encode option.inject)

lemma hex_char_not_slash: "d < 16 \<Longrightarrow> hex_char d \<noteq> CHR ''/''"
  by (auto simp: hex_char_def dest!: arg_cong[of _ _ "of_char :: char \<Rightarrow> nat"] simp: of_char_of split: if_splits)

lemma percent_no_slash: "n < 256 \<Longrightarrow> CHR ''/'' \<notin> set (percent n)"
  using hex_char_not_slash[of "n div 16"] hex_char_not_slash[of "n mod 16"] less_mult_imp_div_less[of n 16 16]
  by (auto simp: percent_def)

lemma encode_no_slash: "CHR ''/'' \<notin> set (encodeURIComponent s)"
proof -
  have u: "\<not> unreserved CHR ''/''" by code_simp
  have "CHR ''/'' \<notin> set (encode_char c)" for c
  proof -
    have "192 + (of_char c :: nat) div 64 < 256" using less_mult_imp_div_less[of "of_char c" 4 64] by simp
    moreover have "128 + (of_char c :: nat) mod 64 < 256" using mod_less_divisor[of 64 "of_char c :: nat"] by linarith
    ultimately have "CHR ''/'' \<notin> set (percent (192 + of_char c div 64))" "CHR ''/'' \<notin> set (percent (128 + of_char c mod 64))"
      using percent_no_slash by blast+
    then show ?thesis using u percent_no_slash[of "of_char c"] by (auto simp: encode_char_def Let_def)
  qed
  then show ?thesis by (simp add: encodeURIComponent_def)
qed

end
