(* ===== verification/Tab_Drop.thy ===== *)
theory Tab_Drop
  imports Tab_Layout Js_Uri
begin

text \<open>
  Dropping a tab on the edge of a pane, \<open>workspaceTabDrop.ts\<close>: the ids of the drop zones and the
  layout after a tab was moved into a new pane beside the target pane.
\<close>

section \<open>Drop zones\<close>

datatype WorkspaceTabDropPosition = Top | Right | Bottom | Left

fun position_name :: "WorkspaceTabDropPosition \<Rightarrow> string" where
  "position_name Top = ''top''"
| "position_name Right = ''right''"
| "position_name Bottom = ''bottom''"
| "position_name Left = ''left''"

definition WORKSPACE_TAB_EDGE_DROP_PREFIX :: string where
  "WORKSPACE_TAB_EDGE_DROP_PREFIX = ''workspace-tab-edge:''"

definition WORKSPACE_TAB_DROP_POSITIONS :: "WorkspaceTabDropPosition list" where
  "WORKSPACE_TAB_DROP_POSITIONS = [Top, Right, Bottom, Left]"

definition getWorkspaceTabEdgeDropId :: "string \<Rightarrow> WorkspaceTabDropPosition \<Rightarrow> string" where
  "getWorkspaceTabEdgeDropId paneId position =
     WORKSPACE_TAB_EDGE_DROP_PREFIX @ encodeURIComponent paneId @ '':'' @ position_name position"

text \<open>The text before and after the last colon (\<open>lastIndexOf\<close> and the two slices).\<close>

definition split_last_colon :: "string \<Rightarrow> (string \<times> string) option" where
  "split_last_colon s =
     (if CHR '':'' \<notin> set s then None
      else let after = rev (takeWhile (\<lambda>c. c \<noteq> CHR '':'') (rev s))
           in Some (take (length s - length after - 1) s, after))"

definition getWorkspaceTabEdgeDropTarget :: "string \<Rightarrow> (string \<times> WorkspaceTabDropPosition) option" where
  "getWorkspaceTabEdgeDropTarget i =
     (if \<not> startsWith i WORKSPACE_TAB_EDGE_DROP_PREFIX then None
      else case split_last_colon (drop (length WORKSPACE_TAB_EDGE_DROP_PREFIX) i) of
        None \<Rightarrow> None
      | Some (before, after) \<Rightarrow>
          (case List.find (\<lambda>p. position_name p = after) WORKSPACE_TAB_DROP_POSITIONS of
             None \<Rightarrow> None
           | Some position \<Rightarrow>
               (case decodeURIComponent before of
                  None \<Rightarrow> None
                | Some paneId \<Rightarrow> if paneId \<noteq> [] then Some (paneId, position) else None)))"

lemma split_last_colon_append:
  assumes "CHR '':'' \<notin> set b"
  shows "split_last_colon (a @ CHR '':'' # b) = Some (a, b)"
proof -
  have "takeWhile (\<lambda>c. c \<noteq> CHR '':'') (rev b @ CHR '':'' # rev a) = rev b"
    using assms by (subst takeWhile_append2) auto
  then show ?thesis by (simp add: split_last_colon_def)
qed

text \<open>
  The id of a drop zone identifies its pane and edge: decoding the id made for any pane
  (whatever characters its id has, colons included) and any edge gives that pane and edge back.
\<close>
theorem edge_drop_id_roundtrip:
  assumes "paneId \<noteq> []"
  shows "getWorkspaceTabEdgeDropTarget (getWorkspaceTabEdgeDropId paneId position) = Some (paneId, position)"
proof -
  have nc: "CHR '':'' \<notin> set (position_name position)" by (cases position) auto
  have find: "List.find (\<lambda>p. position_name p = position_name position) WORKSPACE_TAB_DROP_POSITIONS = Some position"
    by (cases position) (simp_all add: WORKSPACE_TAB_DROP_POSITIONS_def)
  show ?thesis
    using assms split_last_colon_append[OF nc, of "encodeURIComponent paneId"]
    by (simp add: getWorkspaceTabEdgeDropTarget_def getWorkspaceTabEdgeDropId_def find decode_encode)
qed

theorem edge_drop_id_roundtrip_witness:
  "getWorkspaceTabEdgeDropTarget (getWorkspaceTabEdgeDropId ''terminal-panel:right'' Bottom)
     = Some (''terminal-panel:right'', Bottom)"
  by (rule edge_drop_id_roundtrip) simp

section \<open>Splitting a pane\<close>

datatype PanePlacement = PlaceFirst | PlaceSecond

definition getWorkspaceTabDropPlacement ::
  "WorkspaceTabDropPosition \<Rightarrow> WorkspaceTabSplitDirection \<times> PanePlacement" where
  "getWorkspaceTabDropPlacement position =
     (if position = Left \<or> position = Right then Vertical else Horizontal,
      if position = Left \<or> position = Top then PlaceFirst else PlaceSecond)"

fun hasPaneNode :: "IWorkspaceTabPaneNode \<Rightarrow> string \<Rightarrow> bool" where
  "hasPaneNode (Pane i) paneId = (i = paneId)"
| "hasPaneNode (Split _ _ _ first second) paneId = (hasPaneNode first paneId \<or> hasPaneNode second paneId)"

text \<open>The current active id may be missing (\<open>undefined\<close>) or \<open>null\<close>; the result may be \<open>null\<close>.\<close>

definition getActiveTabId :: "tab_id list \<Rightarrow> tab_id option option \<Rightarrow> tab_id option" where
  "getActiveTabId tabIds currentActiveTabId =
     (case currentActiveTabId of
        Some (Some i) \<Rightarrow> if i \<in> set tabIds then Some i else (case tabIds of [] \<Rightarrow> None | t # _ \<Rightarrow> Some t)
      | _ \<Rightarrow> (case tabIds of [] \<Rightarrow> None | t # _ \<Rightarrow> Some t))"

fun split_direction :: "IWorkspaceTabPaneNode \<Rightarrow> WorkspaceTabSplitDirection \<Rightarrow> WorkspaceTabSplitDirection" where
  "split_direction (Split _ d _ _ _) _ = d"
| "split_direction (Pane _) d = d"

record EdgeSplitParams =
  es_currentRoot :: IWorkspaceTabPaneNode
  es_sourcePaneId :: string
  es_sourceTabId :: tab_id
  es_targetPaneId :: string
  es_newPaneId :: string
  es_position :: WorkspaceTabDropPosition

definition createWorkspaceTabEdgeSplitLayout ::
  "int \<Rightarrow> nat \<Rightarrow> IWorkspaceTabSplitLayout \<Rightarrow> EdgeSplitParams \<Rightarrow> IWorkspaceTabSplitLayout option \<times> nat" where
  "createWorkspaceTabEdgeSplitLayout now sq currentLayout p =
     (let source = es_sourcePaneId p; target = es_targetPaneId p; newPane = es_newPaneId p; tab = es_sourceTabId p;
          sourcePaneTabIds = pane_tabs currentLayout source;
          targetPaneTabIds = pane_tabs currentLayout target
      in if tab \<notin> set sourcePaneTabIds \<or> \<not> hasPaneNode (es_currentRoot p) target
            \<or> source = target \<and> length sourcePaneTabIds \<le> 1
         then (None, sq)
         else
           let (dir, newPanePlacement) = getWorkspaceTabDropPlacement (es_position p);
               (replacement, sq') = createWorkspaceTabSplitNode now sq dir
                 (if newPanePlacement = PlaceFirst then Pane newPane else Pane target)
                 (if newPanePlacement = PlaceSecond then Pane newPane else Pane target) None;
               nextRoot = replaceWorkspaceTabPaneNode (es_currentRoot p) target replacement;
               nextSource = filter (\<lambda>i. i \<noteq> tab) sourcePaneTabIds;
               nextTarget = (if source = target then nextSource else filter (\<lambda>i. i \<noteq> tab) targetPaneTabIds)
           in (Some (currentLayout\<lparr>
                 direction := split_direction nextRoot dir,
                 root := Some nextRoot,
                 activePane := newPane,
                 paneTabIds := AList.update newPane [tab] (AList.update target nextTarget
                   (AList.update source nextSource (paneTabIds currentLayout))),
                 activeTabIds := AList.update newPane (Some tab)
                   (AList.update target (getActiveTabId nextTarget (map_of (activeTabIds currentLayout) target))
                     (AList.update source (getActiveTabId nextSource (map_of (activeTabIds currentLayout) source))
                       (activeTabIds currentLayout)))\<rparr>), sq'))"

section \<open>Well-formed layouts\<close>

definition all_tabs :: "(string \<times> tab_id list) list \<Rightarrow> tab_id list" where
  "all_tabs m = concat (map snd m)"

text \<open>Pane ids of the tree and of the tab lists do not repeat, and no tab is in two places.\<close>

definition wf_layout :: "IWorkspaceTabPaneNode \<Rightarrow> IWorkspaceTabSplitLayout \<Rightarrow> bool" where
  "wf_layout tree l \<longleftrightarrow> distinct (collectPaneIds tree) \<and> distinct (map fst (paneTabIds l))
     \<and> distinct (all_tabs (paneTabIds l))"

lemma hasPaneNode_iff: "hasPaneNode n i \<longleftrightarrow> i \<in> set (collectPaneIds n)"
  by (induction n) auto

lemma mset_update_tabs:
  "distinct (map fst m) \<Longrightarrow>
     mset (all_tabs (AList.update k v m)) + mset (or_empty (map_of m k)) = mset (all_tabs m) + mset v"
  using mset_concat_update[of m "\<lambda>v. v" k v] by (cases "map_of m k") (simp_all add: all_tabs_def)

lemma set_pane_tabs: "set (or_empty (map_of m k)) \<subseteq> set (all_tabs m)"
  by (cases "map_of m k") (auto simp: all_tabs_def dest!: map_of_SomeD)

lemma count_pane_tabs:
  "distinct (all_tabs m) \<Longrightarrow> k \<noteq> k' \<Longrightarrow> set (or_empty (map_of m k)) \<inter> set (or_empty (map_of m k')) = {}"
  using distinct_concat_disjoint[of "\<lambda>v. v" m k _ k']
  by (cases "map_of m k"; cases "map_of m k'") (simp_all add: all_tabs_def)

lemma distinct_pane_tabs: "distinct (all_tabs m) \<Longrightarrow> distinct (or_empty (map_of m k))"
  by (induction m) (auto simp: all_tabs_def)

lemma filter_neq_absent: "t \<notin> set xs \<Longrightarrow> filter (\<lambda>i. i \<noteq> t) xs = xs"
  by (metis (mono_tags, lifting) filter_True)

lemma mset_filter_once:
  assumes "distinct xs" and "t \<in> set xs"
  shows "mset (filter (\<lambda>i. i \<noteq> t) xs) + {#t#} = mset xs"
proof -
  from assms(2) obtain ys zs where xs: "xs = ys @ t # zs" by (auto simp: in_set_conv_decomp)
  with assms(1) have "t \<notin> set ys" "t \<notin> set zs" by auto
  then have "filter (\<lambda>i. i \<noteq> t) xs = ys @ zs" by (simp add: xs filter_neq_absent)
  then show ?thesis by (simp add: xs)
qed

text \<open>Taking the tab out of its pane, then putting it into a fresh pane.\<close>

lemma move_tab_mset:
  assumes "distinct (map fst m)" "distinct (all_tabs m)" "t \<in> set (or_empty (map_of m source))"
    and "map_of m newPane = None" "newPane \<noteq> source" "newPane \<noteq> target"
    and "nextSource = filter (\<lambda>i. i \<noteq> t) (or_empty (map_of m source))"
    and "nextTarget = (if source = target then nextSource else filter (\<lambda>i. i \<noteq> t) (or_empty (map_of m target)))"
  shows "mset (all_tabs (AList.update newPane [t] (AList.update target nextTarget (AList.update source nextSource m))))
    = mset (all_tabs m)"
proof -
  let ?m1 = "AList.update source nextSource m"
  let ?m2 = "AList.update target nextTarget ?m1"
  have d1: "distinct (map fst ?m1)" and d2: "distinct (map fst ?m2)"
    using assms(1) by (auto intro: js_map.wf_set)
  have t_target: "source \<noteq> target \<Longrightarrow> t \<notin> set (or_empty (map_of m target))"
    using count_pane_tabs[OF assms(2), of source target] assms(3) by blast
  have m2: "mset (all_tabs ?m2) = mset (all_tabs ?m1)"
  proof (cases "source = target")
    case True
    then show ?thesis using assms(8) by simp
  next
    case False
    then have "nextTarget = or_empty (map_of ?m1 target)"
      using assms(8) t_target by (simp add: js_map.get_set filter_neq_absent)
    with mset_update_tabs[OF d1, of target nextTarget] show ?thesis by simp
  qed
  have "mset nextSource + {#t#} = mset (or_empty (map_of m source))"
    unfolding assms(7) by (rule mset_filter_once[OF distinct_pane_tabs[OF assms(2)] assms(3)])
  with mset_update_tabs[OF assms(1), of source nextSource]
  have "mset (all_tabs ?m1) + (mset nextSource + {#t#}) = mset (all_tabs m) + mset nextSource" by simp
  then have m1: "mset (all_tabs ?m1) + {#t#} = mset (all_tabs m)" by simp
  have "map_of ?m2 newPane = None" using assms(4-6) by (simp add: js_map.get_set)
  with mset_update_tabs[OF d2, of newPane "[t]"]
  have "mset (all_tabs (AList.update newPane [t] ?m2)) = mset (all_tabs ?m2) + {#t#}" by simp
  with m1 m2 show ?thesis by simp
qed

text \<open>
  Dropping a tab on an edge moves that tab and loses nothing. For a well-formed layout and a
  fresh pane id, the new pane holds exactly the dropped tab and is active, it stands next to
  the target pane in the tree on the side of the drop, the tabs of all panes together are the same
  as before (no tab lost or shown twice), panes that take no part keep their tabs, and the
  result is well-formed again.
\<close>
theorem edge_split_moves_tab:
  assumes "createWorkspaceTabEdgeSplitLayout now sq l p = (Some l', sq')"
    and "wf_layout (es_currentRoot p) l"
    and "es_newPaneId p \<notin> set (collectPaneIds (es_currentRoot p))" and "map_of (paneTabIds l) (es_newPaneId p) = None"
  shows "pane_tabs l' (es_newPaneId p) = [es_sourceTabId p] \<and> activePane l' = es_newPaneId p
    \<and> mset (all_tabs (paneTabIds l')) = mset (all_tabs (paneTabIds l))
    \<and> (\<forall>q. q \<notin> {es_newPaneId p, es_sourcePaneId p, es_targetPaneId p} \<longrightarrow> pane_tabs l' q = pane_tabs l q)
    \<and> (\<exists>tree pre post. root l' = Some tree \<and> wf_layout tree l'
        \<and> collectPaneIds (es_currentRoot p) = pre @ es_targetPaneId p # post
        \<and> collectPaneIds tree = pre @ (if es_position p = Left \<or> es_position p = Top
            then [es_newPaneId p, es_targetPaneId p] else [es_targetPaneId p, es_newPaneId p]) @ post)"
proof -
  let ?s = "es_sourcePaneId p" and ?t = "es_targetPaneId p" and ?n = "es_newPaneId p" and ?tab = "es_sourceTabId p"
  let ?m = "paneTabIds l"
  let ?ns = "filter (\<lambda>i. i \<noteq> ?tab) (pane_tabs l ?s)"
  let ?nt = "if ?s = ?t then ?ns else filter (\<lambda>i. i \<noteq> ?tab) (pane_tabs l ?t)"
  let ?m' = "AList.update ?n [?tab] (AList.update ?t ?nt (AList.update ?s ?ns ?m))"
  obtain dir place where place: "getWorkspaceTabDropPlacement (es_position p) = (dir, place)"
    by (cases "getWorkspaceTabDropPlacement (es_position p)")
  obtain repl sq1 where repl: "createWorkspaceTabSplitNode now sq dir
      (if place = PlaceFirst then Pane ?n else Pane ?t) (if place = PlaceSecond then Pane ?n else Pane ?t) None = (repl, sq1)"
    by (cases "createWorkspaceTabSplitNode now sq dir
      (if place = PlaceFirst then Pane ?n else Pane ?t) (if place = PlaceSecond then Pane ?n else Pane ?t) None")
  let ?tree = "replaceWorkspaceTabPaneNode (es_currentRoot p) ?t repl"
  from assms(1) have guards: "?tab \<in> set (pane_tabs l ?s)" "?t \<in> set (collectPaneIds (es_currentRoot p))"
    by (auto simp: createWorkspaceTabEdgeSplitLayout_def Let_def hasPaneNode_iff split: if_splits)
  have l': "paneTabIds l' = ?m'" "activePane l' = ?n" "root l' = Some ?tree"
    using assms(1) by (auto simp: createWorkspaceTabEdgeSplitLayout_def Let_def place repl split: if_splits)
  have m: "distinct (map fst ?m)" "distinct (all_tabs ?m)" and tree: "distinct (collectPaneIds (es_currentRoot p))"
    using assms(2) by (auto simp: wf_layout_def)
  have ne: "?n \<noteq> ?t" "?n \<noteq> ?s" using guards assms(3,4) by (auto simp: pane_tabs_def)
  have ms: "mset (all_tabs ?m') = mset (all_tabs ?m)"
    using guards(1) assms(4) ne m by (intro move_tab_mset) (auto simp: pane_tabs_def)
  have ids: "collectPaneIds repl = (if es_position p = Left \<or> es_position p = Top then [?n, ?t] else [?t, ?n])"
    using repl place
    by (cases "es_position p") (auto simp: getWorkspaceTabDropPlacement_def createWorkspaceTabSplitNode_def
        Let_def split: prod.splits)
  from replace_collect[OF tree guards(2), of repl] obtain pre post where
    pp: "collectPaneIds (es_currentRoot p) = pre @ ?t # post" "collectPaneIds ?tree = pre @ collectPaneIds repl @ post"
    by blast
  have "distinct (collectPaneIds ?tree)" using pp tree ids assms(3) ne by auto
  moreover have "distinct (map fst ?m')" using m(1) by (intro js_map.wf_set)
  moreover have "distinct (all_tabs ?m')" using ms m(2) by (metis mset_eq_imp_distinct_iff)
  ultimately have "wf_layout ?tree l'" by (simp add: wf_layout_def l'(1))
  moreover have "\<forall>q. q \<notin> {?n, ?s, ?t} \<longrightarrow> pane_tabs l' q = pane_tabs l q"
    by (simp add: pane_tabs_def l'(1) js_map.get_set)
  moreover have "pane_tabs l' ?n = [?tab]" by (simp add: pane_tabs_def l'(1) js_map.get_set)
  ultimately show ?thesis using ms l' pp ids by auto
qed

definition example_drop :: EdgeSplitParams where
  "example_drop = \<lparr>es_currentRoot = Split None Vertical None (Pane ''main'') (Pane ''p''), es_sourcePaneId = ''main'',
     es_sourceTabId = TabNumber 2, es_targetPaneId = ''p'', es_newPaneId = ''new'', es_position = Bottom\<rparr>"

lemma example_drop_ok:
  "\<exists>l' sq'. createWorkspaceTabEdgeSplitLayout 0 0 example_layout example_drop = (Some l', sq')"
  by (simp add: createWorkspaceTabEdgeSplitLayout_def example_layout_def example_drop_def pane_tabs_def Let_def
      split: prod.splits)

theorem edge_split_moves_tab_witness:
  "\<exists>l' sq'. createWorkspaceTabEdgeSplitLayout 0 0 example_layout example_drop = (Some l', sq')
     \<and> pane_tabs l' ''new'' = [TabNumber 2]
     \<and> mset (all_tabs (paneTabIds l')) = mset (all_tabs (paneTabIds example_layout))"
proof -
  obtain l' sq' where run: "createWorkspaceTabEdgeSplitLayout 0 0 example_layout example_drop = (Some l', sq')"
    using example_drop_ok by blast
  have "wf_layout (es_currentRoot example_drop) example_layout"
    "es_newPaneId example_drop \<notin> set (collectPaneIds (es_currentRoot example_drop))"
    "map_of (paneTabIds example_layout) (es_newPaneId example_drop) = None"
    by (simp_all add: example_drop_def example_layout_def wf_layout_def all_tabs_def)
  from edge_split_moves_tab[OF run this] run show ?thesis by (auto simp: example_drop_def)
qed

end
