(* ===== verification/Terminal_Placement.thy ===== *)
theory Terminal_Placement
  imports Tab_Drop
begin

text \<open>
  Where terminal tabs open, \<open>terminalTabPlacement.ts\<close>: a terminal that is to be docked at the
  bottom or at the right gets a dock pane in the split layout, created when it is missing. The
  clock and the sequence of split node ids are threaded as in \<open>Tab_Layout\<close>.
\<close>

definition MAIN_WORKSPACE_TAB_PANE :: string where
  "MAIN_WORKSPACE_TAB_PANE = ''main''"

text \<open>The dock panes; there is none for the position \<open>tab\<close>.\<close>

fun TERMINAL_PANE_IDS :: "TerminalOpenPosition \<Rightarrow> string option" where
  "TERMINAL_PANE_IDS PositionBottom = Some ''terminal-panel:bottom''"
| "TERMINAL_PANE_IDS PositionRight = Some ''terminal-panel:right''"
| "TERMINAL_PANE_IDS PositionTab = None"

definition isTerminalDockPosition :: "TerminalOpenPosition option \<Rightarrow> bool" where
  "isTerminalDockPosition v \<longleftrightarrow> v = Some PositionBottom \<or> v = Some PositionRight"

definition isTerminalDockPaneId :: "string \<Rightarrow> bool" where
  "isTerminalDockPaneId paneId \<longleftrightarrow>
     Some paneId \<in> {TERMINAL_PANE_IDS PositionBottom, TERMINAL_PANE_IDS PositionRight}"

definition createRootFromLayout ::
  "int \<Rightarrow> nat \<Rightarrow> IWorkspaceTabSplitLayout \<Rightarrow> IWorkspaceTabPaneNode \<times> nat" where
  "createRootFromLayout now sq layout =
     (case root layout of
        Some r \<Rightarrow> (r, sq)
      | None \<Rightarrow>
          let paneIds = filter (\<lambda>p. pane_tabs layout p \<noteq> []) (map fst (paneTabIds layout));
              firstPaneId = (case paneIds of [] \<Rightarrow> MAIN_WORKSPACE_TAB_PANE
                | p # _ \<Rightarrow> if p = [] then MAIN_WORKSPACE_TAB_PANE else p)
          in foldl (\<lambda>(r, s) paneId. createWorkspaceTabSplitNode now s (direction layout) r (Pane paneId) None)
               (Pane firstPaneId, sq) (tl paneIds))"

definition getTerminalActiveTabId :: "tab_id list \<Rightarrow> tab_id option \<Rightarrow> tab_id option" where
  "getTerminalActiveTabId tabIds activeTabId =
     (case activeTabId of
        Some i \<Rightarrow> if i \<in> set tabIds then Some i else (case tabIds of [] \<Rightarrow> None | t # _ \<Rightarrow> Some t)
      | None \<Rightarrow> (case tabIds of [] \<Rightarrow> None | t # _ \<Rightarrow> Some t))"

definition resolveLastNonTerminalActiveTabId ::
  "IWorkspaceTab list \<Rightarrow> tab_id option \<Rightarrow> tab_id option \<Rightarrow> tab_id option" where
  "resolveLastNonTerminalActiveTabId workspaceTabs activeTabId fallbackTabId =
     (let usable = (\<lambda>i. case List.find (\<lambda>t. Some (tab_id t) = i) workspaceTabs of
            Some t \<Rightarrow> if tab_type t \<noteq> TerminalTab then Some (tab_id t) else None
          | None \<Rightarrow> None)
      in case usable activeTabId of
           Some i \<Rightarrow> Some i
         | None \<Rightarrow>
             (case usable fallbackTabId of
                Some i \<Rightarrow> Some i
              | None \<Rightarrow> map_option tab_id (List.find (\<lambda>t. tab_type t \<noteq> TerminalTab) workspaceTabs)))"

definition dockDirection :: "TerminalOpenPosition \<Rightarrow> WorkspaceTabSplitDirection" where
  "dockDirection position = (if position = PositionRight then Vertical else Horizontal)"

definition dockSize :: "TerminalOpenPosition \<Rightarrow> pane_size" where
  "dockSize position = (if position = PositionRight then Share ''70%'' else Share ''65%'')"

definition isDockedTerminal :: "IWorkspaceTab \<Rightarrow> bool" where
  "isDockedTerminal t \<longleftrightarrow> tab_type t = TerminalTab \<and> isTerminalDockPosition (tab_terminalOpenPosition t)"

definition pendingTerminalTabs :: "IWorkspaceTabSplitLayout option \<Rightarrow> IWorkspaceTab list \<Rightarrow> IWorkspaceTab list" where
  "pendingTerminalTabs layout workspaceTabs =
     (let assignedTabIds = (case layout of None \<Rightarrow> {} | Some l \<Rightarrow> set (all_tabs (paneTabIds l)))
      in filter (\<lambda>t. isDockedTerminal t \<and> tab_id t \<notin> assignedTabIds) workspaceTabs)"

text \<open>One round of the \<open>forEach\<close>. The root is always set there and the position is a dock.\<close>

definition placeTerminalTab ::
  "int \<Rightarrow> IWorkspaceTabSplitLayout \<times> nat \<Rightarrow> IWorkspaceTab \<Rightarrow> IWorkspaceTabSplitLayout \<times> nat" where
  "placeTerminalTab now = (\<lambda>(l, sq) t.
     case (root l, tab_terminalOpenPosition t) of
       (Some r, Some position) \<Rightarrow>
         (case TERMINAL_PANE_IDS position of
            None \<Rightarrow> (l, sq)
          | Some paneId \<Rightarrow>
              let (l1, sq1) =
                (if paneId \<in> set (collectPaneIds r)
                 then (l\<lparr>paneTabIds := AList.update paneId (pane_tabs l paneId @ [tab_id t]) (paneTabIds l)\<rparr>, sq)
                 else
                   let (nextRoot, sq') = createWorkspaceTabSplitNode now sq (dockDirection position) r (Pane paneId)
                         (Some (dockSize position))
                   in (l\<lparr>direction := dockDirection position, root := Some nextRoot,
                          paneTabIds := AList.update paneId [tab_id t] (paneTabIds l)\<rparr>, sq'))
              in (l1\<lparr>activePane := paneId, activeTabIds := AList.update paneId (Some (tab_id t)) (activeTabIds l1)\<rparr>, sq1))
     | _ \<Rightarrow> (l, sq))"

text \<open>The pane of the active tab becomes the active pane.\<close>

definition activateTab :: "tab_id option \<Rightarrow> IWorkspaceTabSplitLayout \<Rightarrow> IWorkspaceTabSplitLayout" where
  "activateTab activeTabId l =
     (case activeTabId of
        None \<Rightarrow> l
      | Some a \<Rightarrow>
          (case List.find (\<lambda>p. a \<in> set (pane_tabs l p)) (map fst (paneTabIds l)) of
             None \<Rightarrow> l
           | Some p \<Rightarrow> if p = [] then l
               else l\<lparr>activePane := p, activeTabIds := AList.update p (Some a) (activeTabIds l)\<rparr>))"

definition applyTerminalTabOpenPositions ::
  "int \<Rightarrow> nat \<Rightarrow> IWorkspaceTabSplitLayout option \<Rightarrow> IWorkspaceTab list \<Rightarrow> tab_id option
    \<Rightarrow> IWorkspaceTabSplitLayout option \<times> nat" where
  "applyTerminalTabOpenPositions now sq layout workspaceTabs activeTabId =
     (let pending = pendingTerminalTabs layout workspaceTabs
      in if pending = [] then (layout, sq)
         else
           let start = (case layout of
               Some l \<Rightarrow> (let (r, sq1) = createRootFromLayout now sq l in Some (l\<lparr>root := Some r\<rparr>, sq1))
             | None \<Rightarrow>
                 let mainTabIds = map tab_id (filter (\<lambda>t. tab_id t \<notin> tab_id ` set pending) workspaceTabs)
                 in if mainTabIds = [] then None
                    else Some (\<lparr>direction = Vertical, activePane = MAIN_WORKSPACE_TAB_PANE,
                        lastNonTerminalActiveTabId =
                          Some (resolveLastNonTerminalActiveTabId workspaceTabs activeTabId None),
                        paneTabIds = [(MAIN_WORKSPACE_TAB_PANE, mainTabIds)],
                        activeTabIds = [(MAIN_WORKSPACE_TAB_PANE, getTerminalActiveTabId mainTabIds activeTabId)],
                        root = Some (Pane MAIN_WORKSPACE_TAB_PANE)\<rparr>, sq))
           in case start of
                None \<Rightarrow> (None, sq)
              | Some s \<Rightarrow> (let (l, sq') = foldl (placeTerminalTab now) s pending in (Some (activateTab activeTabId l), sq')))"

definition prepareTerminalTabLayout ::
  "int \<Rightarrow> nat \<Rightarrow> IWorkspaceTabSplitLayout option \<Rightarrow> IWorkspaceTab list \<Rightarrow> tab_id option \<Rightarrow> TerminalOpenPosition
    \<Rightarrow> IWorkspaceTabSplitLayout option \<times> nat" where
  "prepareTerminalTabLayout now sq layout workspaceTabs activeTabId preferredOpenPosition =
     (let prepared = map_option (\<lambda>l. l\<lparr>lastNonTerminalActiveTabId := Some (resolveLastNonTerminalActiveTabId
            workspaceTabs activeTabId (the_default None (lastNonTerminalActiveTabId l)))\<rparr>) layout;
          dockedTerminalIds = tab_id ` set (filter isDockedTerminal workspaceTabs);
          mainTabIds = map tab_id (filter (\<lambda>t. tab_id t \<notin> dockedTerminalIds) workspaceTabs);
          (prepared', sq') = (case TERMINAL_PANE_IDS preferredOpenPosition of
             None \<Rightarrow> (prepared, sq)
           | Some paneId \<Rightarrow>
               if mainTabIds = [] then (prepared, sq)
               else let dir = dockDirection preferredOpenPosition; sz = Some (dockSize preferredOpenPosition)
               in (case prepared of
                 None \<Rightarrow>
                   let (r, sq1) = createWorkspaceTabSplitNode now sq dir (Pane MAIN_WORKSPACE_TAB_PANE) (Pane paneId) sz
                   in (Some \<lparr>direction = dir, activePane = MAIN_WORKSPACE_TAB_PANE,
                        lastNonTerminalActiveTabId =
                          Some (resolveLastNonTerminalActiveTabId workspaceTabs activeTabId None),
                        paneTabIds = [(MAIN_WORKSPACE_TAB_PANE, mainTabIds), (paneId, [])],
                        activeTabIds = [(MAIN_WORKSPACE_TAB_PANE, getTerminalActiveTabId mainTabIds activeTabId),
                          (paneId, None)],
                        root = Some r\<rparr>, sq1)
               | Some l \<Rightarrow>
                   let (r, sq1) = createRootFromLayout now sq l
                   in if paneId \<in> set (collectPaneIds r) then (Some l, sq1)
                      else let (r', sq2) = createWorkspaceTabSplitNode now sq1 dir r (Pane paneId) sz
                        in (Some (l\<lparr>direction := dir, root := Some r',
                              paneTabIds := AList.update paneId [] (paneTabIds l),
                              activeTabIds := AList.update paneId None (activeTabIds l)\<rparr>), sq2)))
      in applyTerminalTabOpenPositions now sq' prepared' workspaceTabs activeTabId)"

section \<open>Placing terminals loses no tab\<close>

text \<open>The panes that hold tabs are panes of the tree.\<close>

definition covered :: "IWorkspaceTabPaneNode \<Rightarrow> IWorkspaceTabSplitLayout \<Rightarrow> bool" where
  "covered r l \<longleftrightarrow> (\<forall>k. pane_tabs l k \<noteq> [] \<longrightarrow> k \<in> set (collectPaneIds r))"

definition placement_inv :: "IWorkspaceTabSplitLayout \<Rightarrow> bool" where
  "placement_inv l \<longleftrightarrow> (\<exists>r. root l = Some r \<and> distinct (collectPaneIds r) \<and> covered r l)
     \<and> distinct (map fst (paneTabIds l))"

lemma collect_split_node [simp]:
  "createWorkspaceTabSplitNode now sq d a b sz = (n, sq') \<Longrightarrow> collectPaneIds n = collectPaneIds a @ collectPaneIds b"
  by (auto simp: createWorkspaceTabSplitNode_def createSplitNodeId_def)

lemma placement_inv_place:
  assumes "placement_inv l" and "isDockedTerminal t" and "placeTerminalTab now (l, sq) t = (l', sq')"
  shows "placement_inv l' \<and> mset (all_tabs (paneTabIds l')) = mset (all_tabs (paneTabIds l)) + {#tab_id t#}
    \<and> (\<forall>k. set (pane_tabs l k) \<subseteq> set (pane_tabs l' k))
    \<and> (\<forall>paneId. (\<exists>pos. tab_terminalOpenPosition t = Some pos \<and> TERMINAL_PANE_IDS pos = Some paneId)
          \<longrightarrow> tab_id t \<in> set (pane_tabs l' paneId))"
proof -
  from assms(1) obtain r where r: "root l = Some r" "distinct (collectPaneIds r)" "covered r l"
    and keys: "distinct (map fst (paneTabIds l))" by (auto simp: placement_inv_def)
  from assms(2) obtain pos paneId where pos: "tab_terminalOpenPosition t = Some pos" "TERMINAL_PANE_IDS pos = Some paneId"
    by (auto simp: isDockedTerminal_def isTerminalDockPosition_def)
  have in_pane: "map_of (AList.update paneId v (paneTabIds l)) k
      = (if k = paneId then Some v else map_of (paneTabIds l) k)" for v k by (simp add: js_map.get_set)
  note upd = mset_update_tabs[OF keys, of paneId]
  show ?thesis
  proof (cases "paneId \<in> set (collectPaneIds r)")
    case True
    let ?v = "pane_tabs l paneId @ [tab_id t]"
    have l': "root l' = root l" "paneTabIds l' = AList.update paneId ?v (paneTabIds l)"
      using assms(3) r pos True by (auto simp: placeTerminalTab_def)
    have "mset (all_tabs (paneTabIds l')) = mset (all_tabs (paneTabIds l)) + {#tab_id t#}"
      using upd[of ?v] by (simp add: l' pane_tabs_def)
    moreover have "covered r l'" using r(3) True by (auto simp: covered_def l' pane_tabs_def js_map.get_set)
    ultimately show ?thesis
      using r keys pos by (auto simp: placement_inv_def l' pane_tabs_def js_map.get_set js_map.wf_set)
  next
    case False
    then have empty: "pane_tabs l paneId = []" using r(3) by (auto simp: covered_def)
    obtain n s where n: "createWorkspaceTabSplitNode now sq (dockDirection pos) r (Pane paneId) (Some (dockSize pos)) = (n, s)"
      by (cases "createWorkspaceTabSplitNode now sq (dockDirection pos) r (Pane paneId) (Some (dockSize pos))")
    have l': "root l' = Some n" "paneTabIds l' = AList.update paneId [tab_id t] (paneTabIds l)"
      using assms(3) r pos False n by (auto simp: placeTerminalTab_def)
    have "mset (all_tabs (paneTabIds l')) = mset (all_tabs (paneTabIds l)) + {#tab_id t#}"
      using upd[of "[tab_id t]"] empty by (simp add: l' pane_tabs_def)
    moreover have "covered n l'" using r(3) n by (auto simp: covered_def l' pane_tabs_def js_map.get_set)
    ultimately show ?thesis
      using r keys pos False n empty
      by (auto simp: placement_inv_def l' pane_tabs_def js_map.get_set js_map.wf_set)
  qed
qed

definition in_dock_pane :: "IWorkspaceTabSplitLayout \<Rightarrow> IWorkspaceTab \<Rightarrow> bool" where
  "in_dock_pane l t \<longleftrightarrow> (\<exists>pos paneId. tab_terminalOpenPosition t = Some pos \<and> TERMINAL_PANE_IDS pos = Some paneId
     \<and> tab_id t \<in> set (pane_tabs l paneId))"

lemma docked_position:
  "isDockedTerminal t \<Longrightarrow> \<exists>pos paneId. tab_terminalOpenPosition t = Some pos \<and> TERMINAL_PANE_IDS pos = Some paneId"
  by (auto simp: isDockedTerminal_def isTerminalDockPosition_def)

lemma placement_inv_fold:
  assumes "placement_inv l" and "list_all isDockedTerminal ts" and "foldl (placeTerminalTab now) (l, sq) ts = (l', sq')"
  shows "placement_inv l' \<and> mset (all_tabs (paneTabIds l')) = mset (all_tabs (paneTabIds l)) + mset (map tab_id ts)
    \<and> (\<forall>k. set (pane_tabs l k) \<subseteq> set (pane_tabs l' k)) \<and> list_all (in_dock_pane l') ts"
  using assms
proof (induction ts arbitrary: l sq)
  case (Cons t ts)
  obtain l1 s1 where one: "placeTerminalTab now (l, sq) t = (l1, s1)" by (cases "placeTerminalTab now (l, sq) t")
  from Cons.prems have t: "isDockedTerminal t" and ts: "list_all isDockedTerminal ts" by auto
  note p = placement_inv_place[OF Cons.prems(1) t one]
  from Cons.prems(3) one have "foldl (placeTerminalTab now) (l1, s1) ts = (l', sq')" by simp
  from Cons.IH[OF _ ts this] p have ih: "placement_inv l'"
    "mset (all_tabs (paneTabIds l')) = mset (all_tabs (paneTabIds l1)) + mset (map tab_id ts)"
    "\<forall>k. set (pane_tabs l1 k) \<subseteq> set (pane_tabs l' k)" "list_all (in_dock_pane l') ts" by auto
  have "in_dock_pane l' t" using docked_position[OF t] p ih(3) unfolding in_dock_pane_def by blast
  with ih p show ?case by (auto dest: subsetD)
qed simp

lemma activate_basic [simp]:
  "paneTabIds (activateTab a l) = paneTabIds l" "root (activateTab a l) = root l"
  by (auto simp: activateTab_def split: option.splits)

lemma activate_inv [simp]: "placement_inv (activateTab a l) = placement_inv l"
  by (simp add: placement_inv_def covered_def pane_tabs_def)

lemma activate_dock [simp]: "in_dock_pane (activateTab a l) t = in_dock_pane l t"
  by (simp add: in_dock_pane_def pane_tabs_def)

lemma dock_assigned: "in_dock_pane l t \<Longrightarrow> tab_id t \<in> set (all_tabs (paneTabIds l))"
  using set_pane_tabs[of "paneTabIds l"] by (auto simp: in_dock_pane_def pane_tabs_def)

lemma pending_docked: "list_all isDockedTerminal (pendingTerminalTabs layout tabs)"
  by (simp add: pendingTerminalTabs_def list_all_iff Let_def)

lemma start_inv_main: "xs \<noteq> [] \<Longrightarrow> placement_inv \<lparr>direction = d, activePane = ap, lastNonTerminalActiveTabId = la,
    paneTabIds = [(m, xs)], activeTabIds = ac, root = Some (Pane m)\<rparr>"
  by (auto simp: placement_inv_def covered_def pane_tabs_def)

text \<open>
  A consistent layout: each pane has one list of tabs, and if there is a tree, its panes are distinct and every pane with
  tabs is in it. A layout without a tree is fine as it is; its tree is made of the panes with tabs. (The name of a pane
  is not empty.)
\<close>

definition layout_ok :: "IWorkspaceTabSplitLayout \<Rightarrow> bool" where
  "layout_ok l \<longleftrightarrow> distinct (map fst (paneTabIds l)) \<and>
     (case root l of
        Some r \<Rightarrow> distinct (collectPaneIds r) \<and> (\<forall>k. pane_tabs l k \<noteq> [] \<longrightarrow> k \<in> set (collectPaneIds r))
      | None \<Rightarrow> pane_tabs l [] = [])"

lemma placement_inv_ok: "placement_inv l \<Longrightarrow> layout_ok l"
  by (auto simp: placement_inv_def layout_ok_def covered_def)

lemma collect_split_nodes:
  "foldl (\<lambda>(r, s) paneId. createWorkspaceTabSplitNode now s d r (Pane paneId) None) (r0, sq) ps = (r, sq')
   \<Longrightarrow> collectPaneIds r = collectPaneIds r0 @ ps"
proof (induction ps arbitrary: r0 sq)
  case (Cons p ps)
  obtain r1 s1 where one: "createWorkspaceTabSplitNode now sq d r0 (Pane p) None = (r1, s1)" by fastforce
  with Cons.prems have "collectPaneIds r = collectPaneIds r1 @ ps" by (intro Cons.IH) simp
  with collect_split_node[OF one] show ?case by simp
qed simp

lemma pane_tabs_key: "pane_tabs l k \<noteq> [] \<Longrightarrow> k \<in> fst ` set (paneTabIds l)"
  by (cases "map_of (paneTabIds l) k") (auto simp: pane_tabs_def intro: map_of_SomeD rev_image_eqI)

lemma created_root_inv:
  assumes "layout_ok l" and "createRootFromLayout now sq l = (r, sq')"
  shows "placement_inv (l\<lparr>root := Some r\<rparr>)"
proof (cases "root l")
  case (Some r0)
  with assms show ?thesis
    by (auto simp: createRootFromLayout_def layout_ok_def placement_inv_def covered_def pane_tabs_def)
next
  case None
  define ps where "ps = filter (\<lambda>p. pane_tabs l p \<noteq> []) (map fst (paneTabIds l))"
  have named: "[] \<notin> set ps" using assms(1) None by (simp add: layout_ok_def ps_def)
  have distinct: "distinct ps" using assms(1) by (simp add: layout_ok_def ps_def)
  have all: "k \<in> set ps" if "pane_tabs l k \<noteq> []" for k using that pane_tabs_key[OF that] by (auto simp: ps_def)
  have "collectPaneIds r = (if ps = [] then [MAIN_WORKSPACE_TAB_PANE] else ps)"
  proof (cases ps)
    case Nil
    with assms(2) None show ?thesis by (auto simp: createRootFromLayout_def ps_def[symmetric])
  next
    case (Cons p ps')
    with named have "p \<noteq> []" by auto
    with assms(2) None Cons collect_split_nodes[of now "direction l" "Pane p" sq ps' r sq'] show ?thesis
      by (simp add: createRootFromLayout_def ps_def[symmetric])
  qed
  with all distinct have "distinct (collectPaneIds r)" "covered r l" unfolding covered_def by (auto, fastforce)
  with assms(1) show ?thesis by (simp add: placement_inv_def layout_ok_def covered_def pane_tabs_def)
qed

text \<open>
  C39: Docking terminals loses no tab. Take a consistent layout: with a tree of distinct panes in which every pane with tabs
  occurs, or without a tree. Whenever its terminals are placed, the tabs of all panes are those from before plus exactly the
  docked terminals that were not yet assigned, each in the dock pane of its own position; the layout stays consistent and has
  a tree if anything was placed; and doing it again changes nothing, so that a terminal is never opened twice.
\<close>
theorem docking_conserves_tabs:
  assumes "layout_ok l"
  shows "\<exists>l' sq'. applyTerminalTabOpenPositions now sq (Some l) tabs active = (Some l', sq')
    \<and> layout_ok l' \<and> (pendingTerminalTabs (Some l) tabs \<noteq> [] \<longrightarrow> root l' \<noteq> None)
    \<and> mset (all_tabs (paneTabIds l')) = mset (all_tabs (paneTabIds l)) + mset (map tab_id (pendingTerminalTabs (Some l) tabs))
    \<and> list_all (in_dock_pane l') (pendingTerminalTabs (Some l) tabs)
    \<and> applyTerminalTabOpenPositions now' sq'' (Some l') tabs active' = (Some l', sq'')"
proof -
  let ?p = "pendingTerminalTabs (Some l) tabs"
  obtain r s0 where r: "createRootFromLayout now sq l = (r, s0)" by fastforce
  let ?l0 = "l\<lparr>root := Some r\<rparr>"
  obtain l1 s1 where f: "foldl (placeTerminalTab now) (?l0, s0) ?p = (l1, s1)" by fastforce
  let ?l = "if ?p = [] then l else activateTab active l1"
  have run: "applyTerminalTabOpenPositions now sq (Some l) tabs active = (Some ?l, if ?p = [] then sq else s1)"
    using r f by (auto simp: applyTerminalTabOpenPositions_def Let_def)
  note inv = placement_inv_fold[OF created_root_inv[OF assms r] pending_docked f]
  have "placement_inv (activateTab active l1)" using inv by simp
  then have ok: "layout_ok ?l" "?p \<noteq> [] \<longrightarrow> root ?l \<noteq> None"
    using assms placement_inv_ok by (auto simp: placement_inv_def)
  have facts: "list_all (in_dock_pane ?l) ?p"
    "mset (all_tabs (paneTabIds ?l)) = mset (all_tabs (paneTabIds l)) + mset (map tab_id ?p)"
    using inv by (auto simp: list_all_iff)
  have "set (all_tabs (paneTabIds ?l)) = set (all_tabs (paneTabIds l)) \<union> tab_id ` set ?p"
    using arg_cong[OF facts(2), of set_mset] by simp
  then have "pendingTerminalTabs (Some ?l) tabs = []"
    by (auto simp: pendingTerminalTabs_def filter_empty_conv)
  then have "applyTerminalTabOpenPositions now' sq'' (Some ?l) tabs active' = (Some ?l, sq'')"
    by (simp add: applyTerminalTabOpenPositions_def)
  with run ok facts show ?thesis by blast
qed

definition example_terminal :: IWorkspaceTab where
  "example_terminal = \<lparr>tab_id = TabName ''sh'', tab_type = TerminalTab, tab_terminalOpenPosition = Some PositionBottom\<rparr>"

theorem docking_conserves_tabs_witness:
  "\<exists>l' sq'. applyTerminalTabOpenPositions 0 0 (Some example_layout) [example_terminal] None = (Some l', sq')
    \<and> TabName ''sh'' \<in> set (pane_tabs l' ''terminal-panel:bottom'')"
proof -
  have "layout_ok example_layout"
    by (rule placement_inv_ok) (auto simp: placement_inv_def covered_def example_layout_def pane_tabs_def split: if_splits)
  from docking_conserves_tabs[OF this, of 0 0 "[example_terminal]" None 0 0 None]
  show ?thesis
    by (auto simp: pendingTerminalTabs_def example_layout_def example_terminal_def all_tabs_def isDockedTerminal_def
        isTerminalDockPosition_def in_dock_pane_def)
qed

lemma docked_id:
  "distinct (map tab_id tabs) \<Longrightarrow> t \<in> set tabs \<Longrightarrow> tab_id t \<in> tab_id ` set (filter P tabs) \<longleftrightarrow> P t"
  by (auto simp: distinct_map inj_on_def)

lemma map_docked_partition:
  assumes "distinct (map tab_id tabs)"
  shows "mset (map tab_id (filter (\<lambda>t. tab_id t \<notin> tab_id ` set (filter P tabs)) tabs)) + mset (map tab_id (filter P tabs))
    = mset (map tab_id tabs)"
proof -
  have "filter (\<lambda>t. tab_id t \<notin> tab_id ` set (filter P tabs)) tabs = filter (\<lambda>t. \<not> P t) tabs"
    using docked_id[OF assms] by (intro filter_cong) auto
  moreover have "mset (map f (filter (\<lambda>t. \<not> P t) xs)) + mset (map f (filter P xs)) = mset (map f xs)" for f :: "'x \<Rightarrow> 'y" and P xs
    by (induction xs) auto
  ultimately show ?thesis by simp
qed

text \<open>
  The first docked terminal splits the workspace. Without a layout, and with at least one
  tab that is not a docked terminal, placing the terminals gives a consistent layout in which
  every workspace tab is in exactly one pane, with each docked terminal in its dock pane; if all
  tabs are docked terminals (or none is) there is still no split.
\<close>
theorem docking_first_layout:
  assumes "distinct (map tab_id tabs)"
  shows "if (\<exists>t \<in> set tabs. isDockedTerminal t) \<and> (\<exists>t \<in> set tabs. \<not> isDockedTerminal t)
      then \<exists>l' sq'. applyTerminalTabOpenPositions now sq None tabs active = (Some l', sq') \<and> placement_inv l'
         \<and> mset (all_tabs (paneTabIds l')) = mset (map tab_id tabs)
         \<and> list_all (in_dock_pane l') (filter isDockedTerminal tabs)
      else applyTerminalTabOpenPositions now sq None tabs active = (None, sq)"
proof -
  let ?p = "filter isDockedTerminal tabs"
  let ?main = "map tab_id (filter (\<lambda>t. tab_id t \<notin> tab_id ` set ?p) tabs)"
  have p: "pendingTerminalTabs None tabs = ?p" by (simp add: pendingTerminalTabs_def)
  have main: "?main = [] \<longleftrightarrow> \<not> (\<exists>t \<in> set tabs. \<not> isDockedTerminal t)"
    using docked_id[OF assms, of _ isDockedTerminal] by (auto simp: filter_empty_conv)
  show ?thesis
  proof (cases "?p = [] \<or> ?main = []")
    case True
    with main show ?thesis
      by (auto simp: applyTerminalTabOpenPositions_def p Let_def filter_empty_conv)
  next
    case False
    let ?l = "\<lparr>direction = Vertical, activePane = MAIN_WORKSPACE_TAB_PANE,
      lastNonTerminalActiveTabId = Some (resolveLastNonTerminalActiveTabId tabs active None),
      paneTabIds = [(MAIN_WORKSPACE_TAB_PANE, ?main)],
      activeTabIds = [(MAIN_WORKSPACE_TAB_PANE, getTerminalActiveTabId ?main active)],
      root = Some (Pane MAIN_WORKSPACE_TAB_PANE)\<rparr>"
    obtain l1 s1 where f: "foldl (placeTerminalTab now) (?l, sq) ?p = (l1, s1)"
      by (cases "foldl (placeTerminalTab now) (?l, sq) ?p")
    have run: "applyTerminalTabOpenPositions now sq None tabs active = (Some (activateTab active l1), s1)"
      using False f unfolding applyTerminalTabOpenPositions_def p Let_def by simp
    have inv: "placement_inv ?l" using False by (intro start_inv_main) simp
    have docked: "list_all isDockedTerminal ?p" by (simp add: list_all_iff)
    have "mset (all_tabs (paneTabIds ?l)) + mset (map tab_id ?p) = mset (map tab_id tabs)"
      using map_docked_partition[OF assms, of isDockedTerminal] by (simp add: all_tabs_def)
    with placement_inv_fold[OF inv docked f] run False main show ?thesis
      by (auto simp: list_all_iff filter_empty_conv)
  qed
qed

theorem docking_first_layout_witness:
  "\<exists>l' sq'. applyTerminalTabOpenPositions 0 0 None
       [example_terminal, example_terminal\<lparr>tab_id := TabNumber 1, tab_type := OtherTab ''console''\<rparr>] None = (Some l', sq')
     \<and> mset (all_tabs (paneTabIds l')) = {#TabName ''sh'', TabNumber 1#}"
  using docking_first_layout[of "[example_terminal, example_terminal\<lparr>tab_id := TabNumber 1, tab_type := OtherTab ''console''\<rparr>]" 0 0 None]
  by (auto simp: example_terminal_def isDockedTerminal_def isTerminalDockPosition_def)

end
