(* ===== verification/Terminal_Attachment.thy ===== *)
theory Terminal_Attachment
  imports Js_Prelude
begin

text \<open>
  Leases on terminal sessions, \<open>terminalAttachmentLifecycle.ts\<close>. The first lease of a session
  attaches a consumer; when the last lease is released a detach is scheduled, and it is cancelled
  if the session is leased again before it runs, as when a pane is moved.

  Entries are mutable objects shared by the map \<open>entries\<close>, the leases and the scheduled
  callbacks: they live in a heap (\<open>tl_heap\<close>) and are referred to by their index. Callbacks may run
  at any time, a cancelled one included (\<open>clearTimeout\<close> is not relied on). The consumer id that
  \<open>createConsumerId\<close> returns is an argument of \<open>acquire\<close>. \<open>tl_detached\<close> lists the entries whose detach
  was started; \<open>detach\<close> itself is called once the attach promise has settled.
\<close>

record TerminalAttachmentEntry =
  ta_sessionId :: string
  ta_consumerId :: string
  ta_leaseCount :: int
  ta_scheduledDetach :: "nat option"
  ta_attachSettled :: bool

datatype terminal_call =
    AttachCall string string
  | DetachCall string string
  | ScheduleDetach nat
  | CancelScheduledDetach nat

record TerminalLifecycle =
  tl_entries :: "(string \<times> nat) list"
  tl_heap :: "TerminalAttachmentEntry list"
  tl_leases :: "(nat \<times> bool) list"
  tl_timers :: "nat list"
  tl_detached :: "nat list"
  tl_calls :: "terminal_call list"

definition createTerminalAttachmentLifecycle :: TerminalLifecycle where
  "createTerminalAttachmentLifecycle =
     \<lparr>tl_entries = [], tl_heap = [], tl_leases = [], tl_timers = [], tl_detached = [], tl_calls = []\<rparr>"

definition record_call :: "terminal_call \<Rightarrow> TerminalLifecycle \<Rightarrow> TerminalLifecycle" where
  "record_call c st = st\<lparr>tl_calls := tl_calls st @ [c]\<rparr>"

definition update_entry :: "nat \<Rightarrow> (TerminalAttachmentEntry \<Rightarrow> TerminalAttachmentEntry) \<Rightarrow> TerminalLifecycle \<Rightarrow> TerminalLifecycle" where
  "update_entry e f st = st\<lparr>tl_heap := (tl_heap st)[e := f (tl_heap st ! e)]\<rparr>"

text \<open>The entry of a session, created and attached if there is none.\<close>

definition ensure_entry :: "string \<Rightarrow> string \<Rightarrow> TerminalLifecycle \<Rightarrow> nat \<times> TerminalLifecycle" where
  "ensure_entry sessionId consumerId st =
     (case map_of (tl_entries st) sessionId of
        Some e \<Rightarrow> (e, st)
      | None \<Rightarrow>
          let e = length (tl_heap st);
              entry = \<lparr>ta_sessionId = sessionId, ta_consumerId = consumerId, ta_leaseCount = 0,
                ta_scheduledDetach = None, ta_attachSettled = False\<rparr>
          in (e, record_call (AttachCall sessionId consumerId)
                (st\<lparr>tl_heap := tl_heap st @ [entry], tl_entries := AList.update sessionId e (tl_entries st)\<rparr>)))"

definition acquire :: "string \<Rightarrow> string \<Rightarrow> TerminalLifecycle \<Rightarrow> nat \<times> TerminalLifecycle" where
  "acquire sessionId consumerId st =
     (let (e, st1) = ensure_entry sessionId consumerId st;
          st2 = (case ta_scheduledDetach (tl_heap st1 ! e) of
             None \<Rightarrow> st1
           | Some handle \<Rightarrow> update_entry e (ta_scheduledDetach_update (\<lambda>_. None))
               (record_call (CancelScheduledDetach handle) st1));
          st3 = update_entry e (\<lambda>en. en\<lparr>ta_leaseCount := ta_leaseCount en + 1\<rparr>) st2
      in (length (tl_leases st3), st3\<lparr>tl_leases := tl_leases st3 @ [(e, False)]\<rparr>))"

text \<open>\<open>lease.release()\<close>; a timer is its index in \<open>tl_timers\<close>, which holds its entry.\<close>

definition release :: "nat \<Rightarrow> TerminalLifecycle \<Rightarrow> TerminalLifecycle" where
  "release l st =
     (if l \<ge> length (tl_leases st) \<or> snd (tl_leases st ! l) then st
      else
        let e = fst (tl_leases st ! l);
            st1 = update_entry e (\<lambda>en. en\<lparr>ta_leaseCount := ta_leaseCount en - 1\<rparr>)
              (st\<lparr>tl_leases := (tl_leases st)[l := (e, True)]\<rparr>);
            entry = tl_heap st1 ! e
        in if ta_leaseCount entry > 0 \<or> ta_scheduledDetach entry \<noteq> None then st1
           else
             let handle = length (tl_timers st1)
             in record_call (ScheduleDetach handle)
                  (update_entry e (ta_scheduledDetach_update (\<lambda>_. Some handle))
                    (st1\<lparr>tl_timers := tl_timers st1 @ [e]\<rparr>)))"

definition call_detach :: "nat \<Rightarrow> TerminalLifecycle \<Rightarrow> TerminalLifecycle" where
  "call_detach e st = record_call (DetachCall (ta_sessionId (tl_heap st ! e)) (ta_consumerId (tl_heap st ! e))) st"

text \<open>The scheduled callback.\<close>

definition runScheduledDetach :: "nat \<Rightarrow> TerminalLifecycle \<Rightarrow> TerminalLifecycle" where
  "runScheduledDetach handle st =
     (if handle \<ge> length (tl_timers st) then st
      else
        let e = tl_timers st ! handle; entry = tl_heap st ! e
        in if ta_scheduledDetach entry \<noteq> Some handle \<or> ta_leaseCount entry > 0 then st
           else
             let st1 = update_entry e (ta_scheduledDetach_update (\<lambda>_. None)) st;
                 st2 = st1\<lparr>tl_entries := AList.delete (ta_sessionId entry) (tl_entries st1),
                   tl_detached := tl_detached st1 @ [e]\<rparr>
             in if ta_attachSettled entry then call_detach e st2 else st2)"

text \<open>The attach promise resolves or rejects; a detach that waits for it goes ahead.\<close>

definition settleAttach :: "nat \<Rightarrow> TerminalLifecycle \<Rightarrow> TerminalLifecycle" where
  "settleAttach e st =
     (if e \<ge> length (tl_heap st) \<or> ta_attachSettled (tl_heap st ! e) then st
      else
        let st1 = update_entry e (ta_attachSettled_update (\<lambda>_. True)) st
        in if e \<in> set (tl_detached st1) then call_detach e st1 else st1)"

inductive terminal_reachable :: "TerminalLifecycle \<Rightarrow> bool" where
  create: "terminal_reachable createTerminalAttachmentLifecycle"
| acquire: "terminal_reachable st \<Longrightarrow> terminal_reachable (snd (acquire s c st))"
| release: "terminal_reachable st \<Longrightarrow> terminal_reachable (release l st)"
| run_detach: "terminal_reachable st \<Longrightarrow> terminal_reachable (runScheduledDetach h st)"
| settle: "terminal_reachable st \<Longrightarrow> terminal_reachable (settleAttach e st)"

section \<open>Invariant\<close>

definition open_leases :: "TerminalLifecycle \<Rightarrow> nat \<Rightarrow> nat" where
  "open_leases st e = length (filter (\<lambda>l. l = (e, False)) (tl_leases st))"

definition mapped :: "TerminalLifecycle \<Rightarrow> nat \<Rightarrow> bool" where
  "mapped st e \<longleftrightarrow> map_of (tl_entries st) (ta_sessionId (tl_heap st ! e)) = Some e"

text \<open>
  Indices are valid, sessions point to their own entry, the lease counters are the numbers of
  open leases, and an entry that is not in the map has no lease and no scheduled detach, while an
  entry in the map was never detached.
\<close>

definition terminal_inv :: "TerminalLifecycle \<Rightarrow> bool" where
  "terminal_inv st \<longleftrightarrow>
     (\<forall>s e. map_of (tl_entries st) s = Some e \<longrightarrow> e < length (tl_heap st) \<and> ta_sessionId (tl_heap st ! e) = s)
     \<and> (\<forall>l \<in> set (tl_leases st). fst l < length (tl_heap st))
     \<and> (\<forall>e \<in> set (tl_timers st). e < length (tl_heap st))
     \<and> (\<forall>e \<in> set (tl_detached st). e < length (tl_heap st))
     \<and> (\<forall>e < length (tl_heap st). ta_leaseCount (tl_heap st ! e) = int (open_leases st e))
     \<and> (\<forall>e < length (tl_heap st). \<not> mapped st e \<longrightarrow> open_leases st e = 0 \<and> ta_scheduledDetach (tl_heap st ! e) = None)
     \<and> (\<forall>e < length (tl_heap st). mapped st e \<longrightarrow> e \<notin> set (tl_detached st))
     \<and> distinct (tl_detached st)"

lemma open_leases_append: "open_leases (st\<lparr>tl_leases := tl_leases st @ [(e, False)]\<rparr>) e'
    = open_leases st e' + (if e' = e then 1 else 0)"
  by (auto simp: open_leases_def)

lemma filter_update_length:
  "l < length xs \<Longrightarrow> length (filter P (xs[l := y])) + (if P (xs ! l) then 1 else 0)
     = length (filter P xs) + (if P y then 1 else 0)"
proof (induction xs arbitrary: l)
  case (Cons x xs)
  then show ?case by (cases l) auto
qed simp

lemma open_leases_release:
  assumes "l < length (tl_leases st)" and "tl_leases st ! l = (e, False)"
  shows "open_leases (st\<lparr>tl_leases := (tl_leases st)[l := (e, True)]\<rparr>) e' + (if e' = e then 1 else 0) = open_leases st e'"
  using filter_update_length[OF assms(1), of "\<lambda>x. x = (e', False)" "(e, True)"] assms(2)
  by (auto simp: open_leases_def)

lemma open_leases_cong [simp]:
  "open_leases (record_call c st) = open_leases st"
  "open_leases (update_entry i f st) = open_leases st"
  "open_leases (st\<lparr>tl_timers := ts\<rparr>) = open_leases st"
  by (simp_all add: open_leases_def record_call_def update_entry_def fun_eq_iff)

text \<open>The invariant without the lease counters, over the parts of the state it depends on.\<close>

lemma terminal_invI:
  assumes "\<And>s e. map_of (tl_entries st) s = Some e \<Longrightarrow> e < length (tl_heap st) \<and> ta_sessionId (tl_heap st ! e) = s"
    and "\<And>l. l \<in> set (tl_leases st) \<Longrightarrow> fst l < length (tl_heap st)"
    and "\<And>e. e \<in> set (tl_timers st) \<Longrightarrow> e < length (tl_heap st)"
    and "\<And>e. e \<in> set (tl_detached st) \<Longrightarrow> e < length (tl_heap st)"
    and "\<And>e. e < length (tl_heap st) \<Longrightarrow> ta_leaseCount (tl_heap st ! e) = int (open_leases st e)"
    and "\<And>e. e < length (tl_heap st) \<Longrightarrow> \<not> mapped st e \<Longrightarrow> open_leases st e = 0 \<and> ta_scheduledDetach (tl_heap st ! e) = None"
    and "\<And>e. e < length (tl_heap st) \<Longrightarrow> mapped st e \<Longrightarrow> e \<notin> set (tl_detached st)"
    and "distinct (tl_detached st)"
  shows "terminal_inv st"
  using assms unfolding terminal_inv_def by blast

lemma terminal_invD:
  assumes "terminal_inv st"
  shows "map_of (tl_entries st) s = Some e \<Longrightarrow> e < length (tl_heap st) \<and> ta_sessionId (tl_heap st ! e) = s"
    and "l \<in> set (tl_leases st) \<Longrightarrow> fst l < length (tl_heap st)"
    and "e \<in> set (tl_timers st) \<Longrightarrow> e < length (tl_heap st)"
    and "e \<in> set (tl_detached st) \<Longrightarrow> e < length (tl_heap st)"
    and "e < length (tl_heap st) \<Longrightarrow> ta_leaseCount (tl_heap st ! e) = int (open_leases st e)"
    and "e < length (tl_heap st) \<Longrightarrow> \<not> mapped st e \<Longrightarrow> open_leases st e = 0 \<and> ta_scheduledDetach (tl_heap st ! e) = None"
    and "e < length (tl_heap st) \<Longrightarrow> mapped st e \<Longrightarrow> e \<notin> set (tl_detached st)"
    and "distinct (tl_detached st)"
  using assms unfolding terminal_inv_def by blast+

lemma inv_record_call [simp]: "terminal_inv (record_call c st) = terminal_inv st"
  by (simp add: terminal_inv_def record_call_def mapped_def open_leases_def)

lemma nth_update_entry: "tl_heap (update_entry e f st) ! e' =
    (if e' = e \<and> e < length (tl_heap st) then f (tl_heap st ! e) else tl_heap st ! e')"
  by (cases "e < length (tl_heap st)") (auto simp: update_entry_def nth_list_update list_update_beyond)

lemma mapped_update_entry:
  "(\<And>en. ta_sessionId (f en) = ta_sessionId en) \<Longrightarrow> mapped (update_entry e f st) e' = mapped st e'"
  by (auto simp: mapped_def nth_update_entry) (auto simp: update_entry_def)

lemma update_entry_other [simp]:
  "tl_entries (update_entry e f st) = tl_entries st" "tl_leases (update_entry e f st) = tl_leases st"
  "tl_timers (update_entry e f st) = tl_timers st" "tl_detached (update_entry e f st) = tl_detached st"
  "length (tl_heap (update_entry e f st)) = length (tl_heap st)"
  by (simp_all add: update_entry_def)

text \<open>Changes that keep sessions and counters keep the invariant, if they schedule a detach only for a mapped entry.\<close>

lemma inv_update_entry:
  assumes "terminal_inv st"
    and "\<And>en. ta_sessionId (f en) = ta_sessionId en" "\<And>en. ta_leaseCount (f en) = ta_leaseCount en"
    and "mapped st e \<or> ta_scheduledDetach (f (tl_heap st ! e)) = None"
  shows "terminal_inv (update_entry e f st)"
  using terminal_invD[OF assms(1)] assms(2-4)
  by (intro terminal_invI) (auto simp: nth_update_entry mapped_update_entry)

lemma inv_ensure:
  assumes inv: "terminal_inv st" and e: "ensure_entry s c st = (e, st')"
  shows "terminal_inv st' \<and> e < length (tl_heap st') \<and> map_of (tl_entries st') s = Some e
    \<and> ta_sessionId (tl_heap st' ! e) = s"
proof (cases "map_of (tl_entries st) s")
  case (Some e')
  with e terminal_invD(1)[OF inv Some] inv show ?thesis by (auto simp: ensure_entry_def)
next
  case None
  let ?n = "length (tl_heap st)"
  let ?entry = "\<lparr>ta_sessionId = s, ta_consumerId = c, ta_leaseCount = 0, ta_scheduledDetach = None, ta_attachSettled = False\<rparr>"
  let ?st = "st\<lparr>tl_heap := tl_heap st @ [?entry], tl_entries := AList.update s ?n (tl_entries st)\<rparr>"
  have st': "st' = record_call (AttachCall s c) ?st" "e = ?n" using None e by (auto simp: ensure_entry_def Let_def)
  have leases: "open_leases ?st e = open_leases st e" for e by (simp add: open_leases_def)
  have new: "open_leases st ?n = 0"
    using terminal_invD(2)[OF inv] by (fastforce simp: open_leases_def filter_empty_conv)
  have old: "mapped ?st e' \<longleftrightarrow> mapped st e'" if "e' < ?n" for e'
    using that None by (auto simp: mapped_def nth_append js_map.get_set)
  have "terminal_inv ?st"
  proof (rule terminal_invI, goal_cases)
    case (1 s' e')
    then show ?case using terminal_invD(1)[OF inv, of s' e'] by (auto simp: js_map.get_set nth_append split: if_splits)
  next
    case (2 l)
    then show ?case using terminal_invD(2)[OF inv, of l] by simp
  next
    case (3 e')
    then show ?case using terminal_invD(3)[OF inv, of e'] by simp
  next
    case (4 e')
    then show ?case using terminal_invD(4)[OF inv, of e'] by simp
  next
    case (5 e')
    then show ?case using terminal_invD(5)[OF inv, of e'] new by (cases "e' < ?n") (auto simp: leases nth_append less_Suc_eq)
  next
    case (6 e')
    then show ?case using terminal_invD(6)[OF inv, of e'] old new
      by (cases "e' < ?n") (auto simp: leases nth_append less_Suc_eq)
  next
    case (7 e')
    then show ?case using terminal_invD(7)[OF inv, of e'] old terminal_invD(4)[OF inv, of e']
      by (cases "e' < ?n") (auto simp: less_Suc_eq)
  next
    case 8
    then show ?case using terminal_invD(8)[OF inv] by simp
  qed
  then have "terminal_inv st'" unfolding st'(1) inv_record_call .
  then show ?thesis by (simp add: st' record_call_def js_map.get_set)
qed

lemma inv_lease:
  assumes "terminal_inv st" and "e < length (tl_heap st)" and "mapped st e"
  shows "terminal_inv ((update_entry e (\<lambda>en. en\<lparr>ta_leaseCount := ta_leaseCount en + 1\<rparr>) st)\<lparr>tl_leases := tl_leases st @ [(e, False)]\<rparr>)"
    (is "terminal_inv ?st")
proof -
  have leases: "open_leases ?st e' = open_leases st e' + (if e' = e then 1 else 0)" for e'
    by (auto simp: open_leases_def)
  have m: "mapped ?st e' = mapped st e'" for e'
    using mapped_update_entry[of "\<lambda>en. en\<lparr>ta_leaseCount := ta_leaseCount en + 1\<rparr>" e st e'] by (simp add: mapped_def)
  show ?thesis
    using terminal_invD[OF assms(1)] assms(2,3)
    by (intro terminal_invI) (auto simp: nth_update_entry leases m)
qed

lemma inv_acquire: "terminal_inv st \<Longrightarrow> terminal_inv (snd (acquire s c st))"
proof -
  assume inv: "terminal_inv st"
  obtain e st1 where e: "ensure_entry s c st = (e, st1)" by (cases "ensure_entry s c st")
  note en = inv_ensure[OF inv e]
  let ?st2 = "case ta_scheduledDetach (tl_heap st1 ! e) of None \<Rightarrow> st1
     | Some handle \<Rightarrow> update_entry e (ta_scheduledDetach_update (\<lambda>_. None)) (record_call (CancelScheduledDetach handle) st1)"
  have "terminal_inv ?st2" using en by (auto intro!: inv_update_entry split: option.splits)
  moreover have "e < length (tl_heap ?st2)" "mapped ?st2 e"
    using en by (auto simp: mapped_def nth_update_entry record_call_def split: option.splits)
  ultimately show ?thesis
    using inv_lease[of ?st2 e] by (simp add: acquire_def e Let_def)
qed

lemma inv_timers:
  assumes inv: "terminal_inv st" and e: "e < length (tl_heap st)"
  shows "terminal_inv (st\<lparr>tl_timers := tl_timers st @ [e]\<rparr>)"
proof -
  have "mapped (st\<lparr>tl_timers := tl_timers st @ [e]\<rparr>) e' = mapped st e'" for e' by (simp add: mapped_def)
  with terminal_invD[OF inv] e show ?thesis by (intro terminal_invI) auto
qed

lemma inv_release: "terminal_inv st \<Longrightarrow> terminal_inv (release l st)"
proof (cases "l \<ge> length (tl_leases st) \<or> snd (tl_leases st ! l)")
  case False
  assume inv: "terminal_inv st"
  define e where "e = fst (tl_leases st ! l)"
  let ?dec = "\<lambda>en. en\<lparr>ta_leaseCount := ta_leaseCount en - 1\<rparr>"
  let ?st1 = "update_entry e ?dec (st\<lparr>tl_leases := (tl_leases st)[l := (e, True)]\<rparr>)"
  have l: "l < length (tl_leases st)" "tl_leases st ! l = (e, False)"
    using False by (auto simp: e_def prod_eq_iff)
  then have "(e, False) \<in> set (tl_leases st)" by (metis nth_mem)
  with terminal_invD(2)[OF inv] have e: "e < length (tl_heap st)" by force
  note cnt = open_leases_release[OF l]
  have pos: "open_leases st e > 0" using cnt[of e] by simp
  then have mapped: "mapped st e" using terminal_invD(6)[OF inv e] by auto
  have m: "mapped ?st1 e' = mapped st e'" for e'
    using mapped_update_entry[of ?dec e "st\<lparr>tl_leases := (tl_leases st)[l := (e, True)]\<rparr>" e'] by (simp add: mapped_def)
  have leases: "fst x < length (tl_heap st)" if "x \<in> set ((tl_leases st)[l := (e, True)])" for x
    using that terminal_invD(2)[OF inv, of x] e set_update_subset_insert[of "tl_leases st" l "(e, True)"] by auto
  have inv1: "terminal_inv ?st1"
  proof (rule terminal_invI, goal_cases)
    case (5 e')
    then show ?case using terminal_invD(5)[OF inv, of e'] cnt[of e'] by (auto simp: nth_update_entry)
  next
    case (6 e')
    then show ?case using terminal_invD(6)[OF inv, of e'] cnt[of e'] m mapped by (auto simp: nth_update_entry)
  next
    case (7 e')
    then show ?case using terminal_invD(7)[OF inv, of e'] m by auto
  qed (use terminal_invD(1,3,4,8)[OF inv] leases in \<open>auto simp: nth_update_entry\<close>)
  have "terminal_inv (update_entry e (ta_scheduledDetach_update (\<lambda>_. Some h)) (?st1\<lparr>tl_timers := tl_timers ?st1 @ [e]\<rparr>))" for h
  proof (rule inv_update_entry)
    show "terminal_inv (?st1\<lparr>tl_timers := tl_timers ?st1 @ [e]\<rparr>)" using e by (intro inv_timers[OF inv1]) simp
    show "mapped (?st1\<lparr>tl_timers := tl_timers ?st1 @ [e]\<rparr>) e \<or> ta_scheduledDetach
        (ta_scheduledDetach_update (\<lambda>_. Some h) (tl_heap (?st1\<lparr>tl_timers := tl_timers ?st1 @ [e]\<rparr>) ! e)) = None"
      using mapped m[of e] by (simp add: mapped_def)
  qed simp_all
  with inv1 False show ?thesis
    by (simp add: release_def Let_def e_def[symmetric])
qed (auto simp: release_def)

lemma inv_call_detach [simp]: "terminal_inv (call_detach e st) = terminal_inv st"
  by (simp add: call_detach_def)

text \<open>A mapped entry without leases leaves the map.\<close>

lemma inv_detach:
  assumes inv: "terminal_inv st" and e: "mapped st e" "e < length (tl_heap st)" "open_leases st e = 0"
    and none: "ta_scheduledDetach (tl_heap st ! e) = None"
  shows "terminal_inv (st\<lparr>tl_entries := AList.delete (ta_sessionId (tl_heap st ! e)) (tl_entries st),
    tl_detached := tl_detached st @ [e]\<rparr>)" (is "terminal_inv ?st")
proof -
  have m: "mapped ?st e' \<longleftrightarrow> mapped st e' \<and> e' \<noteq> e" for e'
    using e(1) by (auto simp: mapped_def js_map.get_delete)
  have o: "open_leases ?st = open_leases st" by (simp add: open_leases_def fun_eq_iff)
  show ?thesis
  proof (rule terminal_invI, goal_cases)
    case (1 s e')
    then show ?case using terminal_invD(1)[OF inv, of s e'] by (auto simp: js_map.get_delete split: if_splits)
  next
    case (6 e')
    then show ?case using terminal_invD(6)[OF inv, of e'] m[of e'] o e none by auto
  next
    case (7 e')
    then show ?case using terminal_invD(7)[OF inv, of e'] m[of e'] by auto
  next
    case 8
    then show ?case using terminal_invD(7)[OF inv e(2,1)] terminal_invD(8)[OF inv] by simp
  qed (use terminal_invD(2-5)[OF inv] e(2) o in auto)
qed

lemma inv_run_detach:
  assumes inv: "terminal_inv st"
  shows "terminal_inv (runScheduledDetach h st)"
proof (cases "h < length (tl_timers st)")
  case True
  define e where "e = tl_timers st ! h"
  let ?st1 = "update_entry e (ta_scheduledDetach_update (\<lambda>_. None)) st"
  have e: "e < length (tl_heap st)" using terminal_invD(3)[OF inv, of e] True by (simp add: e_def)
  show ?thesis
  proof (cases "ta_scheduledDetach (tl_heap st ! e) \<noteq> Some h \<or> ta_leaseCount (tl_heap st ! e) > 0")
    case True
    then show ?thesis using inv by (simp add: runScheduledDetach_def Let_def e_def)
  next
    case False
    then have "mapped st e" "open_leases st e = 0"
      using terminal_invD(5,6)[OF inv e] by auto
    moreover have "terminal_inv ?st1" using inv by (intro inv_update_entry) auto
    ultimately have "terminal_inv (?st1\<lparr>tl_entries := AList.delete (ta_sessionId (tl_heap ?st1 ! e)) (tl_entries ?st1),
        tl_detached := tl_detached ?st1 @ [e]\<rparr>)"
      using e by (intro inv_detach) (auto simp: mapped_update_entry nth_update_entry)
    with False True e show ?thesis
      by (simp add: runScheduledDetach_def Let_def e_def[symmetric] nth_update_entry)
  qed
qed (simp add: runScheduledDetach_def inv)

lemma inv_settle: "terminal_inv st \<Longrightarrow> terminal_inv (settleAttach e st)"
proof -
  assume inv: "terminal_inv st"
  show ?thesis
  proof (cases "e \<ge> length (tl_heap st) \<or> ta_attachSettled (tl_heap st ! e)")
    case False
    then have "mapped st e \<or> ta_scheduledDetach (tl_heap st ! e) = None"
      using terminal_invD(6)[OF inv, of e] by force
    then have "terminal_inv (update_entry e (ta_attachSettled_update (\<lambda>_. True)) st)"
      using inv by (intro inv_update_entry) auto
    with False show ?thesis by (simp add: settleAttach_def Let_def)
  qed (simp add: settleAttach_def inv)
qed

lemma inv_terminal_reachable: "terminal_reachable st \<Longrightarrow> terminal_inv st"
proof (induction rule: terminal_reachable.induct)
  case create
  then show ?case by (simp add: terminal_inv_def createTerminalAttachmentLifecycle_def)
qed (auto intro: inv_acquire inv_release inv_run_detach inv_settle)

text \<open>
  C16: A terminal session is never detached under a component that still uses it. In every
  reachable state, an open lease refers to the session's current entry, whose detach was not
  started, and the lease counter is the number of open leases; and every attachment is detached
  at most once. This holds for releases called twice, timers that fire late or after they were
  cancelled, and sessions that are leased again while an earlier detach is still on its way.
\<close>
theorem leased_session_stays_attached:
  assumes "terminal_reachable st"
  shows "distinct (tl_detached st)
    \<and> (\<forall>e. (e, False) \<in> set (tl_leases st) \<longrightarrow>
         map_of (tl_entries st) (ta_sessionId (tl_heap st ! e)) = Some e \<and> e \<notin> set (tl_detached st)
         \<and> ta_leaseCount (tl_heap st ! e) = int (open_leases st e) \<and> open_leases st e > 0)"
proof -
  note inv = terminal_invD[OF inv_terminal_reachable[OF assms]]
  have "mapped st e \<and> e \<notin> set (tl_detached st) \<and> ta_leaseCount (tl_heap st ! e) = int (open_leases st e)
      \<and> open_leases st e > 0" if "(e, False) \<in> set (tl_leases st)" for e
  proof -
    have e: "e < length (tl_heap st)" using inv(2)[OF that] by simp
    have "filter (\<lambda>l. l = (e, False)) (tl_leases st) \<noteq> []" using that by (auto simp: filter_empty_conv)
    then have pos: "open_leases st e > 0" by (simp add: open_leases_def)
    then have "mapped st e" using inv(6)[OF e] by auto
    with pos inv(5)[OF e] inv(7)[OF e] show ?thesis by simp
  qed
  with inv(8) show ?thesis by (auto simp: mapped_def)
qed

definition example_terminals :: TerminalLifecycle where
  "example_terminals = snd (acquire ''s'' ''c1'' createTerminalAttachmentLifecycle)"

lemma example_terminals_reachable: "terminal_reachable example_terminals"
  unfolding example_terminals_def by (intro terminal_reachable.intros)

lemma example_terminals_value:
  "tl_leases example_terminals = [(0, False)]" "map_of (tl_entries example_terminals) ''s'' = Some 0"
  "ta_sessionId (tl_heap example_terminals ! 0) = ''s''" "length (tl_heap example_terminals) = 1"
  "tl_calls example_terminals = [AttachCall ''s'' ''c1'']"
  by (simp_all add: example_terminals_def acquire_def ensure_entry_def createTerminalAttachmentLifecycle_def
      record_call_def update_entry_def Let_def)

theorem leased_session_stays_attached_witness:
  "0 \<notin> set (tl_detached example_terminals) \<and> open_leases example_terminals 0 > 0"
  using leased_session_stays_attached[OF example_terminals_reachable] example_terminals_value by simp

section \<open>Remounting\<close>

lemma release_keeps_map: "tl_entries (release l st) = tl_entries st"
  by (simp add: release_def Let_def record_call_def)

lemma release_calls:
  "tl_calls (release l st) = tl_calls st \<or> (\<exists>h. tl_calls (release l st) = tl_calls st @ [ScheduleDetach h])"
  by (simp add: release_def Let_def record_call_def update_entry_def)

lemma acquire_existing:
  assumes "map_of (tl_entries st) s = Some e"
  shows "tl_entries (snd (acquire s c st)) = tl_entries st" and "(e, False) \<in> set (tl_leases (snd (acquire s c st)))"
    and "tl_calls (snd (acquire s c st)) = tl_calls st
      \<or> (\<exists>h. tl_calls (snd (acquire s c st)) = tl_calls st @ [CancelScheduledDetach h])"
  using assms
  by (auto simp: acquire_def ensure_entry_def Let_def update_entry_def record_call_def split: option.splits)

lemma leased_callback_ignored:
  assumes "terminal_inv st" and "(e, False) \<in> set (tl_leases st)" and "tl_timers st ! h = e"
  shows "runScheduledDetach h st = st"
proof -
  have e: "e < length (tl_heap st)" using terminal_invD(2)[OF assms(1,2)] by simp
  have "filter (\<lambda>l. l = (e, False)) (tl_leases st) \<noteq> []" using assms(2) by (auto simp: filter_empty_conv)
  then have "ta_leaseCount (tl_heap st ! e) > 0"
    using terminal_invD(5)[OF assms(1) e] by (simp add: open_leases_def)
  then show ?thesis using assms(3) by (simp add: runScheduledDetach_def Let_def)
qed

text \<open>
  Moving a pane keeps the attachment. If the only lease of a session is released and the
  session is leased again before the scheduled detach ran, then no attach or detach is called,
  the session keeps its entry, and whatever scheduled callback fires afterwards does nothing.
\<close>
theorem remount_keeps_attachment:
  fixes c s :: string
  assumes "terminal_reachable st" and "l < length (tl_leases st)" and "tl_leases st ! l = (e, False)"
    and "s = ta_sessionId (tl_heap st ! e)"
  defines "st2 \<equiv> snd (acquire s c (release l st))"
  shows "map_of (tl_entries st2) s = Some e
    \<and> (\<forall>s' c'. AttachCall s' c' \<in> set (tl_calls st2) \<longrightarrow> AttachCall s' c' \<in> set (tl_calls st))
    \<and> (\<forall>s' c'. DetachCall s' c' \<in> set (tl_calls st2) \<longrightarrow> DetachCall s' c' \<in> set (tl_calls st))
    \<and> (\<forall>h. h < length (tl_timers st2) \<and> tl_timers st2 ! h = e \<longrightarrow> runScheduledDetach h st2 = st2)"
proof -
  have lease: "(e, False) \<in> set (tl_leases st)" using assms(2,3) by (metis nth_mem)
  have inv: "terminal_inv st" by (rule inv_terminal_reachable[OF assms(1)])
  have e: "e < length (tl_heap st)" using terminal_invD(2)[OF inv lease] by simp
  have "filter (\<lambda>l. l = (e, False)) (tl_leases st) \<noteq> []" using lease by (auto simp: filter_empty_conv)
  then have "mapped st e" using terminal_invD(6)[OF inv e] by (auto simp: open_leases_def)
  then have map: "map_of (tl_entries (release l st)) s = Some e"
    by (simp add: release_keeps_map mapped_def assms(4))
  note acq = acquire_existing[OF map, of c, folded st2_def]
  have inv2: "terminal_inv st2" unfolding st2_def by (intro inv_acquire inv_release inv)
  have "\<forall>h. h < length (tl_timers st2) \<and> tl_timers st2 ! h = e \<longrightarrow> runScheduledDetach h st2 = st2"
    using leased_callback_ignored[OF inv2 acq(2)] by blast
  moreover have "x \<in> set (tl_calls st2) \<Longrightarrow> x \<in> set (tl_calls st) \<or> (\<exists>h. x = ScheduleDetach h \<or> x = CancelScheduledDetach h)" for x
    using acq(3) release_calls[of l st] by auto
  ultimately show ?thesis using map acq(1) by (metis terminal_call.distinct(3,5,7,9))
qed

theorem remount_keeps_attachment_witness:
  "map_of (tl_entries (snd (acquire ''s'' ''c2'' (release 0 example_terminals)))) ''s'' = Some 0
    \<and> AttachCall ''s'' ''c2'' \<notin> set (tl_calls (snd (acquire ''s'' ''c2'' (release 0 example_terminals))))"
  using remount_keeps_attachment[OF example_terminals_reachable, of 0 0 "''s''" "''c2''"] example_terminals_value
  by auto

end
