(* ===== verification/Column_State.thy ===== *)
theory Column_State
  imports Js_Sort
begin

text \<open>
  Visible, hidden, frozen and ordered columns of a result table,
  \<open>blocks/SearchResult/components/ResultSetTable/columnState.ts\<close>. Sets of fields are lists without
  duplicates in insertion order. The header of the table widget (\<open>getHeaderField\<close>) is a parameter.
\<close>

section \<open>Fields\<close>

record ResultColumnLike =
  rc_field :: jsval
  rc_hide :: "bool option"
  rc_originalName :: "string option"

definition normalizeField :: "jsval \<Rightarrow> string option" where
  "normalizeField field = (case field of
     Str s \<Rightarrow> if s = [] then None else Some s
   | Num n \<Rightarrow> Some (string_of_int n)
   | NaN \<Rightarrow> Some ''NaN''
   | _ \<Rightarrow> None)"

definition getResultColumnFields :: "ResultColumnLike list \<Rightarrow> string list" where
  "getResultColumnFields columns = List.map_filter (\<lambda>c. normalizeField (rc_field c)) columns"

definition getVisibleResultColumnFields :: "ResultColumnLike list \<Rightarrow> string list" where
  "getVisibleResultColumnFields columns =
     List.map_filter (\<lambda>c. normalizeField (rc_field c)) (filter (\<lambda>c. rc_hide c \<noteq> Some True) columns)"

section \<open>Hiding columns\<close>

definition reconcileHiddenResultColumnFields :: "string list \<Rightarrow> string list \<Rightarrow> string list" where
  "reconcileHiddenResultColumnFields flds hiddenFields =
     (let kept = filter (\<lambda>f. f \<in> set flds) hiddenFields
      in if flds \<noteq> [] \<and> length kept \<ge> length flds then filter (\<lambda>f. f \<noteq> last flds) kept else kept)"

definition canHideResultColumns :: "string list \<Rightarrow> string list \<Rightarrow> string list \<Rightarrow> bool" where
  "canHideResultColumns flds hiddenFields targetFields =
     (let reconciledHiddenFields = reconcileHiddenResultColumnFields flds hiddenFields;
          visibleFields = filter (\<lambda>f. f \<notin> set reconciledHiddenFields) flds;
          visibleTargetCount = length (filter (\<lambda>f. f \<in> set targetFields) visibleFields)
      in visibleTargetCount > 0 \<and> visibleTargetCount < length visibleFields)"

definition canHideResultColumn :: "string list \<Rightarrow> string list \<Rightarrow> string \<Rightarrow> bool" where
  "canHideResultColumn flds hiddenFields field = canHideResultColumns flds hiddenFields [field]"

definition set_insert :: "string \<Rightarrow> string list \<Rightarrow> string list" where
  "set_insert x xs = (if x \<in> set xs then xs else xs @ [x])"

definition hideResultColumnFields :: "string list \<Rightarrow> string list \<Rightarrow> string list \<Rightarrow> string list" where
  "hideResultColumnFields flds hiddenFields targetFields =
     (let kept = reconcileHiddenResultColumnFields flds hiddenFields
      in if \<not> canHideResultColumns flds kept targetFields then kept
         else foldl (\<lambda>s f. if f \<in> set targetFields then set_insert f s else s) kept flds)"

definition updateHiddenResultColumnFields :: "string list \<Rightarrow> string list \<Rightarrow> string \<Rightarrow> bool \<Rightarrow> string list" where
  "updateHiddenResultColumnFields flds hiddenFields field visible =
     (let kept = reconcileHiddenResultColumnFields flds hiddenFields
      in if field \<notin> set flds then kept
         else if visible then filter (\<lambda>f. f \<noteq> field) kept
         else hideResultColumnFields flds kept [field])"

section \<open>Freezing columns\<close>

definition getNextFrozenResultColumnFields :: "ResultColumnLike list \<Rightarrow> string list \<Rightarrow> string list \<Rightarrow> string list" where
  "getNextFrozenResultColumnFields columns frozenFields targetFields =
     (let visibleFields = getVisibleResultColumnFields columns
      in filter (\<lambda>f. f \<in> set targetFields) visibleFields
         @ filter (\<lambda>f. f \<notin> set targetFields \<and> f \<in> set visibleFields) frozenFields)"

definition canFreezeResultColumns :: "ResultColumnLike list \<Rightarrow> string list \<Rightarrow> string list \<Rightarrow> bool" where
  "canFreezeResultColumns columns frozenFields targetFields =
     (let visibleFields = getVisibleResultColumnFields columns;
          kept = getNextFrozenResultColumnFields columns frozenFields targetFields
      in if kept = [] \<or> length kept \<ge> length visibleFields then False
         else let current = filter (\<lambda>f. f \<in> set visibleFields) frozenFields
           in length kept \<noteq> length current \<or> \<not> list_all2 (=) kept current)"

definition canFreezeResultColumn :: "ResultColumnLike list \<Rightarrow> string \<Rightarrow> bool" where
  "canFreezeResultColumn columns field = canFreezeResultColumns columns [] [field]"

definition getResultFrozenColumnCount :: "ResultColumnLike list \<Rightarrow> string list \<Rightarrow> nat" where
  "getResultFrozenColumnCount columns frozenFields =
     (let visibleFields = getVisibleResultColumnFields columns;
          visibleFrozenCount = length (filter (\<lambda>f. f \<in> set visibleFields) frozenFields)
      in 1 + min visibleFrozenCount (length visibleFields - 1))"

section \<open>Ordering columns\<close>

text \<open>\<open>new Map(orderedFields.map((field, index) => [field, index]))\<close>: the last index of a field counts.\<close>

definition order_index :: "string list \<Rightarrow> string \<Rightarrow> int option" where
  "order_index orderedFields f = map_of (rev (zip orderedFields (map int [0..<length orderedFields]))) f"

definition MAX_SAFE_INTEGER :: int where
  "MAX_SAFE_INTEGER = 9007199254740991"

definition column_order :: "string list \<Rightarrow> ResultColumnLike \<Rightarrow> int" where
  "column_order orderedFields c =
     the_default MAX_SAFE_INTEGER (order_index orderedFields (the_default [] (normalizeField (rc_field c))))"

definition compareColumns ::
  "string list \<Rightarrow> ResultColumnLike \<times> nat \<Rightarrow> ResultColumnLike \<times> nat \<Rightarrow> int" where
  "compareColumns orderedFields left right =
     (let d = column_order orderedFields (fst left) - column_order orderedFields (fst right)
      in if d \<noteq> 0 then d else int (snd left) - int (snd right))"

definition orderResultColumns :: "ResultColumnLike list \<Rightarrow> string list \<Rightarrow> ResultColumnLike list" where
  "orderResultColumns columns orderedFields =
     map fst (js_sort (compareColumns orderedFields) (zip columns [0..<length columns]))"

definition getResultColumnDisplayOrder :: "string list \<Rightarrow> string list \<Rightarrow> string list" where
  "getResultColumnDisplayOrder baseOrder frozenFields =
     filter (\<lambda>f. f \<in> set baseOrder) frozenFields @ filter (\<lambda>f. f \<notin> set frozenFields) baseOrder"

text \<open>The loop over the displayed fields: new movable fields in the order of display.\<close>

definition movableFields :: "string list \<Rightarrow> string list \<Rightarrow> string list \<Rightarrow> string list" where
  "movableFields baseOrder displayOrder frozenFields =
     foldl (\<lambda>movable f. if f \<notin> set baseOrder \<or> f \<in> set frozenFields \<or> f \<in> set movable then movable
       else movable @ [f]) [] displayOrder"

text \<open>The map over the base order with the running \<open>movableIndex\<close>; a missing or empty field is replaced.\<close>

fun fillMovable :: "string list \<Rightarrow> string list \<Rightarrow> string list \<Rightarrow> nat \<Rightarrow> string list \<Rightarrow> string list" where
  "fillMovable movable movableSet frozenFields i [] = []"
| "fillMovable movable movableSet frozenFields i (f # fs) =
     (if f \<in> set frozenFields \<or> f \<notin> set movableSet then f # fillMovable movable movableSet frozenFields i fs
      else (if i < length movable \<and> movable ! i \<noteq> [] then movable ! i else f)
        # fillMovable movable movableSet frozenFields (i + 1) fs)"

definition mergeResultColumnOrderFromDisplay :: "string list \<Rightarrow> string list \<Rightarrow> string list \<Rightarrow> string list" where
  "mergeResultColumnOrderFromDisplay baseOrder displayOrder frozenFields =
     (let movable = movableFields baseOrder displayOrder frozenFields
      in fillMovable movable movable frozenFields 0 baseOrder)"

section \<open>Looking up a column of the table\<close>

definition getResultFieldAtTableColumn :: "(int \<Rightarrow> int \<Rightarrow> jsval) \<Rightarrow> int \<Rightarrow> int \<Rightarrow> string option" where
  "getResultFieldAtTableColumn getHeaderField col row = normalizeField (getHeaderField col row)"

definition getResultColumnAtTableColumn ::
  "(int \<Rightarrow> int \<Rightarrow> jsval) \<Rightarrow> ResultColumnLike list \<Rightarrow> int \<Rightarrow> int \<Rightarrow> ResultColumnLike option" where
  "getResultColumnAtTableColumn getHeaderField columns col row =
     (case getResultFieldAtTableColumn getHeaderField col row of
        None \<Rightarrow> None
      | Some field \<Rightarrow> List.find (\<lambda>c. normalizeField (rc_field c) = Some field) columns)"

definition getResultColumnNameAtTableColumn ::
  "(int \<Rightarrow> int \<Rightarrow> jsval) \<Rightarrow> ResultColumnLike list \<Rightarrow> int \<Rightarrow> int \<Rightarrow> string option" where
  "getResultColumnNameAtTableColumn getHeaderField columns col row =
     Option.bind (getResultColumnAtTableColumn getHeaderField columns col row) rc_originalName"

definition getResultCellMetaAtTableColumn ::
  "(int \<Rightarrow> int \<Rightarrow> jsval) \<Rightarrow> 'cell list option \<Rightarrow> int \<Rightarrow> int \<Rightarrow> 'cell option" where
  "getResultCellMetaAtTableColumn getHeaderField cells col row =
     (case getResultFieldAtTableColumn getHeaderField col row of
        None \<Rightarrow> None
      | Some field \<Rightarrow>
          (case (js_Number (Some field), cells) of
             (Some i, Some cs) \<Rightarrow> if 0 \<le> i \<and> nat i < length cs then Some (cs ! nat i) else None
           | _ \<Rightarrow> None))"

section \<open>Some column always stays visible\<close>

definition visible_fields :: "string list \<Rightarrow> string list \<Rightarrow> string list" where
  "visible_fields flds hidden = filter (\<lambda>f. f \<notin> set hidden) flds"

lemma set_insert_set [simp]: "set (set_insert x xs) = insert x (set xs)"
  by (auto simp: set_insert_def)

lemma distinct_set_insert [simp]: "distinct (set_insert x xs) = distinct xs"
  by (auto simp: set_insert_def)

lemma hide_fold_set:
  "set (foldl (\<lambda>s f. if P f then set_insert f s else s) s fs) = set s \<union> {f \<in> set fs. P f}"
  by (induction fs arbitrary: s) auto

lemma hide_fold_distinct:
  "distinct s \<Longrightarrow> distinct (foldl (\<lambda>s f. if P f then set_insert f s else s) s fs)"
  by (induction fs arbitrary: s) auto

lemma reconcile_props:
  assumes "distinct hidden"
  shows "distinct (reconcileHiddenResultColumnFields flds hidden)"
    and "set (reconcileHiddenResultColumnFields flds hidden) \<subseteq> set flds \<inter> set hidden"
  using assms by (auto simp: reconcileHiddenResultColumnFields_def Let_def)

lemma reconcile_leaves_one:
  assumes "distinct hidden" and "flds \<noteq> []" and "distinct flds"
  shows "visible_fields flds (reconcileHiddenResultColumnFields flds hidden) \<noteq> []"
proof (cases "length (filter (\<lambda>f. f \<in> set flds) hidden) \<ge> length flds")
  case True
  with assms(2) have "last flds \<notin> set (reconcileHiddenResultColumnFields flds hidden)"
    by (simp add: reconcileHiddenResultColumnFields_def)
  with assms(2) show ?thesis by (auto simp: visible_fields_def filter_empty_conv intro!: bexI[of _ "last flds"])
next
  case False
  let ?kept = "filter (\<lambda>f. f \<in> set flds) hidden"
  have "\<not> set flds \<subseteq> set ?kept"
  proof
    assume "set flds \<subseteq> set ?kept"
    then have "card (set flds) \<le> card (set ?kept)" by (intro card_mono) auto
    moreover have "card (set ?kept) = length ?kept" using assms(1) by (intro distinct_card) simp
    moreover have "card (set flds) = length flds" using assms(3) by (rule distinct_card)
    ultimately show False using False by simp
  qed
  with False show ?thesis
    by (auto simp: visible_fields_def filter_empty_conv reconcileHiddenResultColumnFields_def)
qed

lemma hide_leaves_one:
  assumes "distinct hidden" and "flds \<noteq> []" and "distinct flds"
  shows "visible_fields flds (hideResultColumnFields flds hidden targets) \<noteq> []"
proof -
  let ?r = "reconcileHiddenResultColumnFields flds hidden"
  have r: "distinct ?r" by (rule reconcile_props[OF assms(1)])
  have vis: "visible_fields flds ?r \<noteq> []" by (rule reconcile_leaves_one[OF assms])
  show ?thesis
  proof (cases "canHideResultColumns flds ?r targets")
    case False
    with vis show ?thesis by (simp add: hideResultColumnFields_def)
  next
    case True
    let ?rr = "reconcileHiddenResultColumnFields flds ?r"
    let ?v = "filter (\<lambda>f. f \<notin> set ?rr) flds"
    have "?rr = ?r"
    proof -
      have "set ?r \<noteq> set flds" using vis by (auto simp: visible_fields_def filter_empty_conv)
      then have "length ?r < length flds"
        using reconcile_props(2)[OF assms(1), of flds] r assms(3)
        by (metis List.finite_set distinct_card psubset_card_mono psubsetI le_infE)
      moreover have "filter (\<lambda>f. f \<in> set flds) ?r = ?r"
        using reconcile_props(2)[OF assms(1), of flds] by (auto simp: filter_id_conv)
      ultimately show ?thesis by (simp add: reconcileHiddenResultColumnFields_def[of flds ?r])
    qed
    with True have "length (filter (\<lambda>f. f \<in> set targets) ?v) < length ?v"
      by (simp add: canHideResultColumns_def Let_def)
    then obtain f where "f \<in> set ?v" "f \<notin> set targets" using length_filter_less by (metis filter_True less_irrefl)
    with \<open>?rr = ?r\<close> True show ?thesis
      by (auto simp: hideResultColumnFields_def Let_def hide_fold_set visible_fields_def filter_empty_conv)
  qed
qed

text \<open>
  A result table never loses its last column. Whatever the hidden fields were before (fields
  of an earlier result included), after reconciling, hiding any set of columns, or showing or
  hiding one column, at least one column is visible, the hidden fields are columns of the table,
  and the requested column is visible after it was shown.
\<close>
theorem some_column_stays_visible:
  assumes "distinct hidden" and "flds \<noteq> []" and "distinct flds"
  shows "visible_fields flds (reconcileHiddenResultColumnFields flds hidden) \<noteq> []
    \<and> visible_fields flds (hideResultColumnFields flds hidden targets) \<noteq> []
    \<and> visible_fields flds (updateHiddenResultColumnFields flds hidden field visible) \<noteq> []
    \<and> set (updateHiddenResultColumnFields flds hidden field visible) \<subseteq> set flds
    \<and> field \<notin> set (updateHiddenResultColumnFields flds hidden field True)"
proof -
  let ?r = "reconcileHiddenResultColumnFields flds hidden"
  note rp = reconcile_props[OF assms(1), of flds]
  have one: "visible_fields flds ?r \<noteq> []" by (rule reconcile_leaves_one[OF assms])
  have hide: "visible_fields flds (hideResultColumnFields flds hidden targets) \<noteq> []"
    by (rule hide_leaves_one[OF assms])
  have hide1: "visible_fields flds (hideResultColumnFields flds ?r [field]) \<noteq> []"
    by (rule hide_leaves_one[OF rp(1) assms(2,3)])
  have show1: "visible_fields flds (filter (\<lambda>f. f \<noteq> field) ?r) \<noteq> []"
    using one by (auto simp: visible_fields_def filter_empty_conv)
  have sub: "set (hideResultColumnFields flds ?r [field]) \<subseteq> set flds"
    using reconcile_props(2)[OF rp(1), of flds] by (auto simp: hideResultColumnFields_def Let_def hide_fold_set)
  show ?thesis
    using one hide hide1 show1 sub rp(2)
    by (auto simp: updateHiddenResultColumnFields_def Let_def)
qed

theorem some_column_stays_visible_witness:
  "visible_fields [''1'', ''2''] (updateHiddenResultColumnFields [''1'', ''2''] [''1''] ''2'' False) \<noteq> []"
  using some_column_stays_visible[of "[''1'']" "[''1'', ''2'']" "[]" "''2''" False] by simp

section \<open>Moving columns\<close>

interpretation column_cmp: comparator "compareColumns orderedFields" "\<lambda>_. True" for orderedFields
  by unfold_locales (auto simp: compareColumns_def Let_def split: if_splits)

lemma movable_props:
  "distinct (movableFields base display frozen)"
  "set (movableFields base display frozen) = (set base \<inter> set display) - set frozen"
proof -
  let ?step = "\<lambda>movable f. if f \<notin> set base \<or> f \<in> set frozen \<or> f \<in> set movable then movable else movable @ [f]"
  have "distinct m \<Longrightarrow> distinct (foldl ?step m display)
      \<and> set (foldl ?step m display) = set m \<union> ((set base \<inter> set display) - set frozen)" for m
    by (induction display arbitrary: m) auto
  from this[of "[]"] show "distinct (movableFields base display frozen)"
    "set (movableFields base display frozen) = (set base \<inter> set display) - set frozen"
    by (simp_all add: movableFields_def)
qed

text \<open>The slots of the base order take the movable fields from \<open>i\<close> on.\<close>

lemma fill_movable:
  assumes "[] \<notin> set m" and "i + length (filter (\<lambda>f. f \<in> set m) fs) \<le> length m" and "set m \<inter> set frozen = {}"
  shows "filter (\<lambda>f. f \<in> set m) (fillMovable m m frozen i fs) = take (length (filter (\<lambda>f. f \<in> set m) fs)) (drop i m)
    \<and> filter (\<lambda>f. f \<notin> set m) (fillMovable m m frozen i fs) = filter (\<lambda>f. f \<notin> set m) fs
    \<and> length (fillMovable m m frozen i fs) = length fs
    \<and> (\<forall>j < length fs. fs ! j \<notin> set m \<longrightarrow> fillMovable m m frozen i fs ! j = fs ! j)"
  using assms
proof (induction fs arbitrary: i)
  case (Cons f fs)
  show ?case
  proof (cases "f \<in> set m")
    case False
    with Cons show ?thesis by (auto simp: nth_Cons')
  next
    case True
    then have i: "i < length m" and nf: "f \<notin> set frozen" using Cons.prems by auto
    then have mi: "m ! i \<noteq> []" "m ! i \<in> set m" using Cons.prems(1) by (metis nth_mem)+
    have d: "drop i m = m ! i # drop (i + 1) m" using i by (metis Cons_nth_drop_Suc Suc_eq_plus1)
    have "i + 1 + length (filter (\<lambda>f. f \<in> set m) fs) \<le> length m" using Cons.prems True by simp
    from Cons.IH[OF Cons.prems(1) this Cons.prems(3)] show ?thesis
      using True nf i mi d by (auto simp: nth_Cons')
  qed
qed simp

lemma mset_partition: "mset (filter P xs) + mset (filter (\<lambda>x. \<not> P x) xs) = mset xs"
  by (induction xs) auto

text \<open>
  Moving columns only moves columns. The order merged from what the table displays is a
  permutation of the base order (distinct, non-empty fields); frozen columns and columns that
  are not displayed keep their positions, and the others appear in the order of the display.
  Sorting the columns by an order never drops or duplicates one.
\<close>
theorem column_order_merge:
  fixes base display frozen :: "string list"
  defines "r \<equiv> mergeResultColumnOrderFromDisplay base display frozen"
    and "m \<equiv> movableFields base display frozen"
  assumes "distinct base" and "[] \<notin> set base"
  shows "mset r = mset base \<and> filter (\<lambda>f. f \<in> set m) r = m
    \<and> (\<forall>j < length base. base ! j \<in> set frozen \<or> base ! j \<notin> set display \<longrightarrow> r ! j = base ! j)
    \<and> mset (orderResultColumns columns r) = mset columns"
proof -
  have m: "distinct m" "set m = (set base \<inter> set display) - set frozen" unfolding m_def by (rule movable_props)+
  have same: "mset (filter (\<lambda>f. f \<in> set m) base) = mset m"
    using m assms(3) by (intro set_eq_iff_mset_eq_distinct[THEN iffD1]) auto
  then have len: "length (filter (\<lambda>f. f \<in> set m) base) = length m" by (metis size_mset)
  note fill = fill_movable[of m 0 base frozen]
  have r: "r = fillMovable m m frozen 0 base" by (simp add: r_def m_def mergeResultColumnOrderFromDisplay_def Let_def)
  have pre: "[] \<notin> set m" "set m \<inter> set frozen = {}" using m(2) assms(4) by auto
  have f: "filter (\<lambda>f. f \<in> set m) r = m" "filter (\<lambda>f. f \<notin> set m) r = filter (\<lambda>f. f \<notin> set m) base"
    "\<forall>j < length base. base ! j \<notin> set m \<longrightarrow> r ! j = base ! j"
    using fill pre len by (auto simp: r)
  have "mset r = mset (filter (\<lambda>f. f \<in> set m) base) + mset (filter (\<lambda>f. f \<notin> set m) base)"
    using mset_partition[of "\<lambda>f. f \<in> set m" r] f(1,2) same by simp
  then have "mset r = mset base" using mset_partition[of "\<lambda>f. f \<in> set m" base] by simp
  moreover have "mset (orderResultColumns columns r) = mset (map fst (zip columns [0..<length columns]))"
    unfolding orderResultColumns_def by (metis mset_js_sort mset_map)
  ultimately show ?thesis using f m(2) by (auto simp: map_fst_zip)
qed

theorem column_order_merge_witness:
  "mset (mergeResultColumnOrderFromDisplay [''1'', ''2'', ''3''] [''3'', ''2'', ''1''] [''2'']) = {#''1'', ''2'', ''3''#}"
  using column_order_merge[of "[''1'', ''2'', ''3'']" "[''3'', ''2'', ''1'']" "[''2'']" "[]"] by simp

end
