(* ===== verification/File_Save.thy ===== *)
theory File_Save
  imports Js_Sort
begin

text \<open>
  Saving local files, \<open>utils/localFileSaveCoordinator.ts\<close>. Saves of one file run one after another;
  while one is running, later requests for the same file are merged into one pending save that
  carries the newest content and everybody who waits for it.

  A promise is its number, in the order of the calls; \<open>fc_log\<close> records the requests, the calls of
  the mutation, and how promises settle, oldest first. \<open>drain\<close> runs up to its \<open>await\<close>; the end of
  a mutation is the operation \<open>mutationSettled\<close>. \<open>fs_current\<close> is the local variable \<open>pending\<close> of
  \<open>drain\<close>.
\<close>

section \<open>The key of a file\<close>

definition is_alpha :: "char \<Rightarrow> bool" where
  "is_alpha c \<longleftrightarrow> (let n = (of_char c :: nat) in 65 \<le> n \<and> n \<le> 90 \<or> 97 \<le> n \<and> n \<le> 122)"

definition is_line_break :: "char \<Rightarrow> bool" where
  "is_line_break c \<longleftrightarrow> c = CHR 0x0A \<or> c = CHR 0x0D"

text \<open>The match of \<open>/^([a-zA-Z]:)(\/?)(.*)$/\<close>: the drive, whether a slash follows, and the rest.\<close>

fun drive_match :: "string \<Rightarrow> (string \<times> bool \<times> string) option" where
  "drive_match (d # c # rest) =
     (if is_alpha d \<and> c = CHR '':'' \<and> \<not> list_ex is_line_break rest
      then (case rest of
          s # rest' \<Rightarrow> if s = CHR ''/'' then Some ([d, c], True, rest') else Some ([d, c], False, rest)
        | [] \<Rightarrow> Some ([d, c], False, []))
      else None)"
| "drive_match _ = None"

definition strip_slashes :: "string \<Rightarrow> string" where
  "strip_slashes = dropWhile (\<lambda>c. c = CHR ''/'')"

text \<open>The loop over the segments, with the segments kept so far.\<close>

definition add_segment :: "bool \<Rightarrow> nat \<Rightarrow> string list \<Rightarrow> string \<Rightarrow> string list" where
  "add_segment absolute minimumDepth segments segment =
     (if segment = [] \<or> segment = ''.'' then segments
      else if segment = ''..'' then
        (if length segments > minimumDepth \<and> last segments \<noteq> ''..'' then butlast segments
         else if \<not> absolute then segments @ [segment] else segments)
      else segments @ [segment])"

definition getLocalFileSaveKey :: "bool \<Rightarrow> string \<Rightarrow> string" where
  "getLocalFileSaveKey isWindows filePath =
     (let path = (if isWindows then map (\<lambda>c. if c = CHR 0x5C then CHR ''/'' else c) filePath else filePath);
          drive = (if isWindows then drive_match path else None);
          unc = isWindows \<and> startsWith path ''//'';
          absolute = unc \<or> (case drive of Some (_, slash, _) \<Rightarrow> slash | None \<Rightarrow> startsWith path ''/'');
          pref = (if unc then ''//'' else case drive of Some (d, _, _) \<Rightarrow> d
            | None \<Rightarrow> if absolute then ''/'' else []);
          remainder = (if unc then strip_slashes path else case drive of Some (_, _, rest) \<Rightarrow> rest
            | None \<Rightarrow> strip_slashes path);
          segments = foldl (add_segment absolute (if unc then 2 else 0)) [] (split_on CHR ''/'' remainder);
          separator = (if drive \<noteq> None \<and> absolute then ''/'' else []);
          normalizedPath = pref @ separator @ join ''/'' segments
      in if isWindows then toLowerCase normalizedPath else normalizedPath)"

section \<open>The coordinator\<close>

record LocalFileSaveRequest =
  sr_filePath :: string
  sr_fileContent :: string
  sr_charset :: "string option"
  sr_bom :: "bool option"

record PendingSave =
  ps_request :: LocalFileSaveRequest
  ps_waiters :: "nat list"

record FileSaveState =
  fs_pending :: "PendingSave option"
  fs_draining :: bool
  fs_current :: "PendingSave option"

datatype save_event =
    Requested string LocalFileSaveRequest nat
  | MutationCall string LocalFileSaveRequest
  | ResolvedWith nat LocalFileSaveRequest
  | RejectedWith nat jsval
  | IdleResolved string

record FileSaveCoordinator =
  fc_states :: "(string \<times> FileSaveState) list"
  fc_promises :: nat
  fc_log :: "save_event list"

definition createLocalFileSaveCoordinator :: FileSaveCoordinator where
  "createLocalFileSaveCoordinator = \<lparr>fc_states = [], fc_promises = 0, fc_log = []\<rparr>"

text \<open>Entering the loop of \<open>drain\<close> with a pending save.\<close>

definition startMutation :: "string \<Rightarrow> PendingSave \<Rightarrow> FileSaveCoordinator \<Rightarrow> FileSaveCoordinator" where
  "startMutation key p c = c\<lparr>
     fc_states := AList.update key \<lparr>fs_pending = None, fs_draining = True, fs_current = Some p\<rparr> (fc_states c),
     fc_log := fc_log c @ [MutationCall key (ps_request p)]\<rparr>"

definition save_file :: "bool \<Rightarrow> LocalFileSaveRequest \<Rightarrow> FileSaveCoordinator \<Rightarrow> nat \<times> FileSaveCoordinator" where
  "save_file isWindows request c =
     (let key = getLocalFileSaveKey isWindows (sr_filePath request);
          state = the_default \<lparr>fs_pending = None, fs_draining = False, fs_current = None\<rparr> (map_of (fc_states c) key);
          promise = fc_promises c;
          pending = (case fs_pending state of
             Some p \<Rightarrow> \<lparr>ps_request = request, ps_waiters = ps_waiters p @ [promise]\<rparr>
           | None \<Rightarrow> \<lparr>ps_request = request, ps_waiters = [promise]\<rparr>);
          c1 = c\<lparr>fc_states := AList.update key (state\<lparr>fs_pending := Some pending\<rparr>) (fc_states c),
                 fc_promises := promise + 1,
                 fc_log := fc_log c @ [Requested key request promise]\<rparr>
      in (promise, if \<not> fs_draining state then startMutation key pending c1 else c1))"

definition settlements :: "jsval option \<Rightarrow> PendingSave \<Rightarrow> save_event list" where
  "settlements err p = map (\<lambda>w. case err of None \<Rightarrow> ResolvedWith w (ps_request p) | Some e \<Rightarrow> RejectedWith w e) (ps_waiters p)"

text \<open>The mutation of a key resolves (\<open>None\<close>) or rejects.\<close>

definition mutationSettled :: "string \<Rightarrow> jsval option \<Rightarrow> FileSaveCoordinator \<Rightarrow> FileSaveCoordinator" where
  "mutationSettled key err c =
     (case map_of (fc_states c) key of
        None \<Rightarrow> c
      | Some state \<Rightarrow>
          (case (fs_current state, fs_pending state) of
             (None, _) \<Rightarrow> c
           | (Some p, Some q) \<Rightarrow> startMutation key (q\<lparr>ps_waiters := ps_waiters q @ ps_waiters p\<rparr>) c
           | (Some p, None) \<Rightarrow>
               c\<lparr>fc_states := AList.delete key (fc_states c),
                 fc_log := fc_log c @ settlements err p @ [IdleResolved key]\<rparr>))"

text \<open>\<open>waitForIdle\<close> resolves at once exactly when the file has no state.\<close>

definition isIdle :: "bool \<Rightarrow> string \<Rightarrow> FileSaveCoordinator \<Rightarrow> bool" where
  "isIdle isWindows filePath c \<longleftrightarrow> map_of (fc_states c) (getLocalFileSaveKey isWindows filePath) = None"

inductive save_reachable :: "bool \<Rightarrow> FileSaveCoordinator \<Rightarrow> bool" for w where
  create: "save_reachable w createLocalFileSaveCoordinator"
| save: "save_reachable w c \<Longrightarrow> save_reachable w (snd (save_file w request c))"
| settled: "save_reachable w c \<Longrightarrow> save_reachable w (mutationSettled key err c)"

section \<open>What the log says\<close>

fun requested_of :: "string \<Rightarrow> save_event \<Rightarrow> LocalFileSaveRequest option" where
  "requested_of k (Requested k' r _) = (if k' = k then Some r else None)"
| "requested_of k _ = None"

fun called_of :: "string \<Rightarrow> save_event \<Rightarrow> LocalFileSaveRequest option" where
  "called_of k (MutationCall k' r) = (if k' = k then Some r else None)"
| "called_of k _ = None"

fun settled_of :: "save_event \<Rightarrow> nat option" where
  "settled_of (ResolvedWith w _) = Some w"
| "settled_of (RejectedWith w _) = Some w"
| "settled_of _ = None"

text \<open>The last request for a key, and the last content handed to the mutation.\<close>

definition last_of :: "(save_event \<Rightarrow> 'a option) \<Rightarrow> save_event list \<Rightarrow> 'a option" where
  "last_of f es = (case rev (List.map_filter f es) of [] \<Rightarrow> None | x # _ \<Rightarrow> Some x)"

lemma last_of_simps [simp]:
  "last_of f [] = None"
  "last_of f (e # es) = (case last_of f es of None \<Rightarrow> f e | Some x \<Rightarrow> Some x)"
  by (auto simp: last_of_def map_filter_def split: option.splits list.splits)

lemma last_of_append: "last_of f (es @ fs) = (case last_of f fs of None \<Rightarrow> last_of f es | Some x \<Rightarrow> Some x)"
  by (induction es) (auto split: option.splits)

lemma last_of_none: "(\<And>e. e \<in> set es \<Longrightarrow> f e = None) \<Longrightarrow> last_of f es = None"
  by (induction es) auto

definition settled_promises :: "FileSaveCoordinator \<Rightarrow> nat list" where
  "settled_promises c = List.map_filter settled_of (fc_log c)"

definition state_waiters :: "FileSaveState \<Rightarrow> nat list" where
  "state_waiters s = (case fs_pending s of None \<Rightarrow> [] | Some p \<Rightarrow> ps_waiters p)
     @ (case fs_current s of None \<Rightarrow> [] | Some p \<Rightarrow> ps_waiters p)"

definition all_waiters :: "(string \<times> FileSaveState) list \<Rightarrow> nat list" where
  "all_waiters m = concat (map state_waiters (map snd m))"

text \<open>The newest request of a state: the pending one, or the one that is being written.\<close>

definition newest_request :: "FileSaveState \<Rightarrow> LocalFileSaveRequest option" where
  "newest_request s = (case fs_pending s of Some p \<Rightarrow> Some (ps_request p) | None \<Rightarrow> map_option ps_request (fs_current s))"

definition save_inv :: "FileSaveCoordinator \<Rightarrow> bool" where
  "save_inv c \<longleftrightarrow> distinct (map fst (fc_states c))
     \<and> (\<forall>k s. map_of (fc_states c) k = Some s \<longrightarrow> fs_draining s
          \<and> (\<exists>p. fs_current s = Some p \<and> last_of (called_of k) (fc_log c) = Some (ps_request p))
          \<and> last_of (requested_of k) (fc_log c) = newest_request s)
     \<and> (\<forall>k. map_of (fc_states c) k = None \<longrightarrow> last_of (requested_of k) (fc_log c) = last_of (called_of k) (fc_log c))
     \<and> mset (all_waiters (fc_states c)) + mset (settled_promises c) = mset [0..<fc_promises c]"

section \<open>Reachable coordinators\<close>

lemma waiters_update:
  "distinct (map fst m) \<Longrightarrow> mset (all_waiters (AList.update k s m))
     + mset (case map_of m k of None \<Rightarrow> [] | Some x \<Rightarrow> state_waiters x) = mset (all_waiters m) + mset (state_waiters s)"
  unfolding all_waiters_def by (rule mset_concat_update)

lemma waiters_delete:
  "distinct (map fst m) \<Longrightarrow> mset (all_waiters (AList.delete k m))
     + mset (case map_of m k of None \<Rightarrow> [] | Some x \<Rightarrow> state_waiters x) = mset (all_waiters m)"
  unfolding all_waiters_def by (rule mset_concat_delete)

lemma map_filter_snoc: "List.map_filter f (xs @ ys) = List.map_filter f xs @ List.map_filter f ys"
  by (simp add: map_filter_def)

lemma settled_append:
  "List.map_filter settled_of (settlements err p @ [IdleResolved k]) = ps_waiters p"
  by (cases err) (simp_all add: settlements_def map_filter_def comp_def)

lemma save_invD:
  assumes "save_inv c"
  shows "distinct (map fst (fc_states c))"
    and "map_of (fc_states c) k = Some s \<Longrightarrow> fs_draining s"
    and "map_of (fc_states c) k = Some s \<Longrightarrow> \<exists>p. fs_current s = Some p \<and> last_of (called_of k) (fc_log c) = Some (ps_request p)"
    and "map_of (fc_states c) k = Some s \<Longrightarrow> last_of (requested_of k) (fc_log c) = newest_request s"
    and "map_of (fc_states c) k = None \<Longrightarrow> last_of (requested_of k) (fc_log c) = last_of (called_of k) (fc_log c)"
    and "mset (all_waiters (fc_states c)) + mset (settled_promises c) = mset [0..<fc_promises c]"
  using assms unfolding save_inv_def by blast+

lemma save_invI:
  assumes "distinct (map fst (fc_states c))"
    and "\<And>k s. map_of (fc_states c) k = Some s \<Longrightarrow> fs_draining s
      \<and> (\<exists>p. fs_current s = Some p \<and> last_of (called_of k) (fc_log c) = Some (ps_request p))
      \<and> last_of (requested_of k) (fc_log c) = newest_request s"
    and "\<And>k. map_of (fc_states c) k = None \<Longrightarrow> last_of (requested_of k) (fc_log c) = last_of (called_of k) (fc_log c)"
    and "mset (all_waiters (fc_states c)) + mset (settled_promises c) = mset [0..<fc_promises c]"
  shows "save_inv c"
  using assms unfolding save_inv_def by blast

lemma inv_save_file: "save_inv c \<Longrightarrow> save_inv (snd (save_file w request c))"
proof -
  assume inv: "save_inv c"
  define key where "key = getLocalFileSaveKey w (sr_filePath request)"
  note d = save_invD[OF inv]
  show ?thesis
  proof (cases "map_of (fc_states c) key")
    case None
    let ?p = "\<lparr>ps_request = request, ps_waiters = [fc_promises c]\<rparr>"
    let ?s = "\<lparr>fs_pending = None, fs_draining = True, fs_current = Some ?p\<rparr>"
    have res: "fc_states (snd (save_file w request c)) = AList.update key ?s (fc_states c)"
      "fc_log (snd (save_file w request c)) = fc_log c @ [Requested key request (fc_promises c), MutationCall key request]"
      "fc_promises (snd (save_file w request c)) = fc_promises c + 1"
      using None by (simp_all add: save_file_def startMutation_def Let_def key_def[symmetric])
    have "mset (all_waiters (AList.update key ?s (fc_states c))) = mset (all_waiters (fc_states c)) + {#fc_promises c#}"
      using waiters_update[OF d(1), of key ?s] None by (simp add: state_waiters_def)
    then show ?thesis
      using d(6) by (intro save_invI) (auto simp: res js_map.wf_set[OF d(1)] js_map.get_set last_of_append newest_request_def
        settled_promises_def map_filter_snoc d(2-5) split: if_splits)
  next
    case (Some s)
    let ?p = "case fs_pending s of Some p \<Rightarrow> \<lparr>ps_request = request, ps_waiters = ps_waiters p @ [fc_promises c]\<rparr>
       | None \<Rightarrow> \<lparr>ps_request = request, ps_waiters = [fc_promises c]\<rparr>"
    let ?s = "s\<lparr>fs_pending := Some ?p\<rparr>"
    have dr: "fs_draining s" by (rule d(2)[OF Some])
    have res: "fc_states (snd (save_file w request c)) = AList.update key ?s (fc_states c)"
      "fc_log (snd (save_file w request c)) = fc_log c @ [Requested key request (fc_promises c)]"
      "fc_promises (snd (save_file w request c)) = fc_promises c + 1"
      using Some dr by (simp_all add: save_file_def Let_def key_def[symmetric])
    have req: "ps_request ?p = request" by (simp split: option.split)
    have "mset (state_waiters ?s) = mset (state_waiters s) + {#fc_promises c#}"
      by (auto simp: state_waiters_def split: option.splits)
    then have "mset (all_waiters (AList.update key ?s (fc_states c))) = mset (all_waiters (fc_states c)) + {#fc_promises c#}"
      using waiters_update[OF d(1), of key ?s] Some by simp
    then show ?thesis
      using d(6) dr req d(3)[OF Some] by (intro save_invI) (auto simp: res js_map.wf_set[OF d(1)] js_map.get_set last_of_append
        newest_request_def settled_promises_def map_filter_snoc d(2-5) split: if_splits)
  qed
qed

lemma inv_startMutation:
  assumes inv: "save_inv c" and s: "map_of (fc_states c) key = Some s" "fs_current s = Some p" "fs_pending s = Some q"
    and q': "ps_request q' = ps_request q" "mset (ps_waiters q') = mset (ps_waiters q) + mset (ps_waiters p)"
  shows "save_inv (startMutation key q' c)"
proof -
  note d = save_invD[OF inv]
  let ?s = "\<lparr>fs_pending = None, fs_draining = True, fs_current = Some q'\<rparr>"
  have "mset (state_waiters ?s) = mset (state_waiters s)" using s q' by (simp add: state_waiters_def)
  then have "mset (all_waiters (AList.update key ?s (fc_states c))) = mset (all_waiters (fc_states c))"
    using waiters_update[OF d(1), of key ?s] s(1) by simp
  then show ?thesis
    using d(6) d(4)[OF s(1)] s q'
    by (intro save_invI) (auto simp: startMutation_def js_map.wf_set[OF d(1)] js_map.get_set last_of_append
        newest_request_def settled_promises_def map_filter_snoc d(2-5) split: if_splits)
qed

lemma inv_finish:
  assumes inv: "save_inv c" and s: "map_of (fc_states c) key = Some s" "fs_current s = Some p" "fs_pending s = None"
  shows "save_inv (c\<lparr>fc_states := AList.delete key (fc_states c),
    fc_log := fc_log c @ settlements err p @ [IdleResolved key]\<rparr>)" (is "save_inv ?c")
proof -
  note d = save_invD[OF inv]
  have quiet: "last_of (called_of k) (settlements err p) = None" "last_of (requested_of k) (settlements err p) = None" for k
    by (rule last_of_none; cases err; auto simp: settlements_def)+
  have same: "last_of (requested_of key) (fc_log c) = last_of (called_of key) (fc_log c)"
    using d(3,4)[OF s(1)] s by (simp add: newest_request_def)
  have "settled_promises ?c = settled_promises c @ ps_waiters p"
    using settled_append[of err p key] by (simp add: settled_promises_def map_filter_snoc)
  moreover have "mset (all_waiters (AList.delete key (fc_states c))) + mset (ps_waiters p) = mset (all_waiters (fc_states c))"
    using waiters_delete[OF d(1), of key] s by (simp add: state_waiters_def)
  ultimately have "mset (all_waiters (fc_states ?c)) + mset (settled_promises ?c) = mset [0..<fc_promises ?c]"
    using d(6)[symmetric] by (simp add: add.assoc add.commute[of "mset (ps_waiters p)"] flip: add.assoc)
  then show ?thesis
    using same d by (intro save_invI) (auto simp: js_map.wf_delete js_map.get_delete last_of_append quiet split: if_splits)
qed

lemma inv_settled: "save_inv c \<Longrightarrow> save_inv (mutationSettled key err c)"
  by (auto simp: mutationSettled_def intro!: inv_startMutation inv_finish split: option.splits)

lemma save_reachable_inv: "save_reachable w c \<Longrightarrow> save_inv c"
proof (induction rule: save_reachable.induct)
  case create
  then show ?case
    by (simp add: save_inv_def createLocalFileSaveCoordinator_def all_waiters_def settled_promises_def map_filter_def)
qed (auto intro: inv_save_file inv_settled)

text \<open>
  C9: The newest content always reaches the file. In every reachable state, for every file: when
  the file is idle the last content written is that of the last request, and while it is busy
  exactly one write is under way, the last one started, and the last request is either that
  write or the pending one; and a promise that is resolved when a write ends is resolved with
  the file's last request, so that nobody is told that an outdated version was saved.
\<close>
theorem newest_content_is_saved:
  assumes "save_reachable w c"
  shows "case map_of (fc_states c) key of
      None \<Rightarrow> last_of (called_of key) (fc_log c) = last_of (requested_of key) (fc_log c)
    | Some s \<Rightarrow> last_of (requested_of key) (fc_log c) = newest_request s
        \<and> (\<exists>p. fs_current s = Some p \<and> last_of (called_of key) (fc_log c) = Some (ps_request p))
        \<and> (\<forall>x r. ResolvedWith x r \<in> set (drop (length (fc_log c)) (fc_log (mutationSettled key err c)))
             \<longrightarrow> last_of (requested_of key) (fc_log c) = Some r)"
proof (cases "map_of (fc_states c) key")
  case None
  then show ?thesis using save_invD(5)[OF save_reachable_inv[OF assms] None] by simp
next
  case (Some s)
  note d = save_invD(3,4)[OF save_reachable_inv[OF assms] Some]
  then obtain p where p: "fs_current s = Some p" by blast
  have "last_of (requested_of key) (fc_log c) = Some r"
    if "ResolvedWith x r \<in> set (drop (length (fc_log c)) (fc_log (mutationSettled key err c)))" for x r
  proof (cases "fs_pending s")
    case None
    with that Some p have "r = ps_request p"
      by (cases err) (auto simp: mutationSettled_def settlements_def)
    with None p d(2) show ?thesis by (simp add: newest_request_def)
  next
    case (Some q)
    with that \<open>map_of (fc_states c) key = Some s\<close> p show ?thesis
      by (simp add: mutationSettled_def startMutation_def)
  qed
  with Some d show ?thesis by auto
qed

definition example_save :: "string \<Rightarrow> LocalFileSaveRequest" where
  "example_save text = \<lparr>sr_filePath = ''/a'', sr_fileContent = text, sr_charset = None, sr_bom = None\<rparr>"

definition example_saving :: FileSaveCoordinator where
  "example_saving = snd (save_file False (example_save ''v1'') createLocalFileSaveCoordinator)"

lemma example_saving_reachable: "save_reachable False example_saving"
  unfolding example_saving_def by (intro save_reachable.intros)

lemma example_saving_state:
  "fc_states example_saving = [(''/a'', \<lparr>fs_pending = None, fs_draining = True,
     fs_current = Some \<lparr>ps_request = example_save ''v1'', ps_waiters = [0]\<rparr>\<rparr>)]"
  by (simp add: example_saving_def save_file_def startMutation_def createLocalFileSaveCoordinator_def example_save_def
      getLocalFileSaveKey_def startsWith_def strip_slashes_def add_segment_def Let_def)

theorem newest_content_is_saved_witness:
  "last_of (requested_of ''/a'') (fc_log example_saving) = Some (example_save ''v1'')"
  using newest_content_is_saved[OF example_saving_reachable, of "''/a''"]
  by (simp add: example_saving_state newest_request_def)

text \<open>
  No save is forgotten. In every reachable state every promise handed out is either settled,
  exactly once, or still waiting at exactly one file; and two completed writes, successful or
  not, are enough to bring a file without new requests to rest with nobody waiting for it.
\<close>
theorem saves_are_settled_once:
  assumes "save_reachable w c"
  shows "distinct (all_waiters (fc_states c) @ settled_promises c)
    \<and> set (all_waiters (fc_states c) @ settled_promises c) = {0..<fc_promises c}
    \<and> map_of (fc_states (mutationSettled key e2 (mutationSettled key e1 c))) key = None"
proof -
  note inv = save_reachable_inv[OF assms]
  have ms: "mset (all_waiters (fc_states c) @ settled_promises c) = mset [0..<fc_promises c]"
    using save_invD(6)[OF inv] by simp
  have "distinct (all_waiters (fc_states c) @ settled_promises c)"
    using mset_eq_imp_distinct_iff[OF ms] by simp
  moreover have "set (all_waiters (fc_states c) @ settled_promises c) = {0..<fc_promises c}"
    using mset_eq_setD[OF ms] by simp
  moreover have "map_of (fc_states (mutationSettled key e2 (mutationSettled key e1 c))) key = None"
  proof (cases "map_of (fc_states c) key")
    case None
    then show ?thesis by (simp add: mutationSettled_def)
  next
    case (Some s)
    with save_invD(3)[OF inv Some] show ?thesis
      by (cases "fs_pending s") (auto simp: mutationSettled_def startMutation_def js_map.get_set js_map.get_delete)
  qed
  ultimately show ?thesis by blast
qed

theorem saves_are_settled_once_witness:
  "map_of (fc_states (mutationSettled ''/a'' None (mutationSettled ''/a'' None example_saving))) ''/a'' = None"
  using saves_are_settled_once[OF example_saving_reachable, of "''/a''" None None] by simp

end
