(* ===== verification/Console_Mutations.thy ===== *)
theory Console_Mutations
  imports Js_Sort
begin

text \<open>
  Saves and removals of stored consoles, \<open>store/workspace/utils/savedConsoleMutationCoordinator.ts\<close>.
  The mutations of one console run one after another; every manual save or removal starts a new
  generation, and a mutation that finishes after a newer intent reports that it is not current.

  The promise chain \<open>tail\<close> with the handlers attached to it is the queue \<open>cm_queue\<close>; its head is the
  mutation that runs. \<open>cm_pending\<close> is the counter of the source. A mutation settles by
  \<open>mutationFinished\<close>; the promises of the callers are numbered, and \<open>cc_results\<close> records how they settle.
\<close>

datatype SavedConsoleSaveMode = Manual | Automatic

datatype mutation_kind = ManualSave | AutomaticSave | Removal

record ConsoleJob =
  cj_id :: nat
  cj_kind :: mutation_kind
  cj_generation :: nat
  cj_previousPublish :: bool
  cj_previousRetain :: bool

record SavedConsoleMutationState =
  cm_queue :: "ConsoleJob list"
  cm_generation :: nat
  cm_publishDesired :: bool
  cm_retainDraftBlock :: bool
  cm_pending :: int

datatype mutation_result = NotExecuted | Executed bool | MutationFailed jsval

record ConsoleCoordinator =
  cc_states :: "(int \<times> SavedConsoleMutationState) list"
  cc_promises :: nat
  cc_results :: "(nat \<times> mutation_result) list"

definition createSavedConsoleMutationCoordinator :: ConsoleCoordinator where
  "createSavedConsoleMutationCoordinator = \<lparr>cc_states = [], cc_promises = 0, cc_results = []\<rparr>"

definition new_state :: SavedConsoleMutationState where
  "new_state = \<lparr>cm_queue = [], cm_generation = 0, cm_publishDesired = True, cm_retainDraftBlock = False, cm_pending = 0\<rparr>"

definition getState :: "int \<Rightarrow> ConsoleCoordinator \<Rightarrow> SavedConsoleMutationState" where
  "getState consoleId c = the_default new_state (map_of (cc_states c) consoleId)"

definition enqueue :: "int \<Rightarrow> SavedConsoleMutationState \<Rightarrow> mutation_kind \<Rightarrow> bool \<Rightarrow> bool \<Rightarrow> ConsoleCoordinator \<Rightarrow> ConsoleCoordinator" where
  "enqueue consoleId state kind previousPublish previousRetain c =
     (let job = \<lparr>cj_id = cc_promises c, cj_kind = kind, cj_generation = cm_generation state,
            cj_previousPublish = previousPublish, cj_previousRetain = previousRetain\<rparr>
      in c\<lparr>cc_states := AList.update consoleId
             (state\<lparr>cm_pending := cm_pending state + 1, cm_queue := cm_queue state @ [job]\<rparr>) (cc_states c),
           cc_promises := cc_promises c + 1\<rparr>)"

definition save_console :: "int \<Rightarrow> SavedConsoleSaveMode \<Rightarrow> ConsoleCoordinator \<Rightarrow> ConsoleCoordinator" where
  "save_console consoleId mode c =
     (let state = getState consoleId c
      in case mode of
           Automatic \<Rightarrow>
             if \<not> cm_publishDesired state
             then c\<lparr>cc_states := AList.update consoleId state (cc_states c),
                    cc_promises := cc_promises c + 1,
                    cc_results := cc_results c @ [(cc_promises c, NotExecuted)]\<rparr>
             else enqueue consoleId state AutomaticSave (cm_publishDesired state) (cm_retainDraftBlock state) c
         | Manual \<Rightarrow>
             enqueue consoleId (state\<lparr>cm_generation := cm_generation state + 1, cm_publishDesired := True,
                 cm_retainDraftBlock := False\<rparr>)
               ManualSave (cm_publishDesired state) (cm_retainDraftBlock state) c)"

definition remove_console :: "int \<Rightarrow> bool \<Rightarrow> ConsoleCoordinator \<Rightarrow> ConsoleCoordinator" where
  "remove_console consoleId retainDraftBlock c =
     (let state = getState consoleId c
      in enqueue consoleId (state\<lparr>cm_generation := cm_generation state + 1, cm_publishDesired := False,
             cm_retainDraftBlock := retainDraftBlock\<rparr>)
           Removal (cm_publishDesired state) (cm_retainDraftBlock state) c)"

text \<open>The callbacks \<open>isCurrent\<close> and \<open>onError\<close> of a queued mutation.\<close>

definition isCurrent :: "ConsoleJob \<Rightarrow> SavedConsoleMutationState \<Rightarrow> bool" where
  "isCurrent job state \<longleftrightarrow> cm_generation state = cj_generation job
     \<and> (if cj_kind job = Removal then \<not> cm_publishDesired state else cm_publishDesired state)"

definition onMutationError :: "ConsoleJob \<Rightarrow> SavedConsoleMutationState \<Rightarrow> SavedConsoleMutationState" where
  "onMutationError job state =
     (if cj_kind job \<noteq> AutomaticSave \<and> isCurrent job state
      then state\<lparr>cm_publishDesired := cj_previousPublish job, cm_retainDraftBlock := cj_previousRetain job\<rparr>
      else state)"

definition finish_mutation :: "int \<Rightarrow> SavedConsoleMutationState \<Rightarrow> ConsoleCoordinator \<Rightarrow> ConsoleCoordinator" where
  "finish_mutation consoleId state c =
     (let state1 = state\<lparr>cm_pending := cm_pending state - 1\<rparr>
      in if cm_pending state1 = 0 \<and> (cm_publishDesired state1 \<or> \<not> cm_retainDraftBlock state1)
         then c\<lparr>cc_states := AList.delete consoleId (cc_states c)\<rparr>
         else c\<lparr>cc_states := AList.update consoleId state1 (cc_states c)\<rparr>)"

text \<open>The running mutation of a console resolves (\<open>None\<close>) or rejects.\<close>

definition mutationFinished :: "int \<Rightarrow> jsval option \<Rightarrow> ConsoleCoordinator \<Rightarrow> ConsoleCoordinator" where
  "mutationFinished consoleId err c =
     (case map_of (cc_states c) consoleId of
        None \<Rightarrow> c
      | Some state \<Rightarrow>
          (case cm_queue state of
             [] \<Rightarrow> c
           | job # rest \<Rightarrow>
               let state1 = (case err of None \<Rightarrow> state | Some e \<Rightarrow> onMutationError job state);
                   result = (case err of None \<Rightarrow> Executed (isCurrent job state) | Some e \<Rightarrow> MutationFailed e);
                   c1 = finish_mutation consoleId (state1\<lparr>cm_queue := rest\<rparr>) c
               in c1\<lparr>cc_results := cc_results c1 @ [(cj_id job, result)]\<rparr>))"

inductive console_step :: "ConsoleCoordinator \<Rightarrow> ConsoleCoordinator \<Rightarrow> bool" where
  step_save: "console_step c (save_console k mode c)"
| step_remove: "console_step c (remove_console k retain c)"
| step_finish: "console_step c (mutationFinished k err c)"

inductive console_reachable :: "ConsoleCoordinator \<Rightarrow> bool" where
  init: "console_reachable createSavedConsoleMutationCoordinator"
| more: "console_reachable c \<Longrightarrow> console_step c c' \<Longrightarrow> console_reachable c'"

section \<open>Invariant\<close>

definition queued_ids :: "ConsoleCoordinator \<Rightarrow> nat list" where
  "queued_ids c = concat (map (\<lambda>s. map cj_id (cm_queue s)) (map snd (cc_states c)))"

definition console_inv :: "ConsoleCoordinator \<Rightarrow> bool" where
  "console_inv c \<longleftrightarrow> distinct (map fst (cc_states c))
     \<and> (\<forall>k s. map_of (cc_states c) k = Some s \<longrightarrow> cm_pending s = int (length (cm_queue s))
          \<and> (cm_queue s = [] \<longrightarrow> \<not> cm_publishDesired s \<and> cm_retainDraftBlock s)
          \<and> (\<forall>j \<in> set (cm_queue s). cj_generation j \<le> cm_generation s))
     \<and> mset (queued_ids c) + mset (map fst (cc_results c)) = mset [0..<cc_promises c]"

lemma queued_update:
  "distinct (map fst (cc_states c)) \<Longrightarrow>
     mset (queued_ids (c\<lparr>cc_states := AList.update k s (cc_states c)\<rparr>))
     + mset (case map_of (cc_states c) k of None \<Rightarrow> [] | Some x \<Rightarrow> map cj_id (cm_queue x))
     = mset (queued_ids c) + mset (map cj_id (cm_queue s))"
  using mset_concat_update[of "cc_states c" "\<lambda>s. map cj_id (cm_queue s)" k s]
  by (simp add: queued_ids_def cong: option.case_cong)

lemma queued_delete:
  "distinct (map fst (cc_states c)) \<Longrightarrow>
     mset (queued_ids (c\<lparr>cc_states := AList.delete k (cc_states c)\<rparr>))
     + mset (case map_of (cc_states c) k of None \<Rightarrow> [] | Some x \<Rightarrow> map cj_id (cm_queue x)) = mset (queued_ids c)"
  using mset_concat_delete[of "cc_states c" "\<lambda>s. map cj_id (cm_queue s)" k]
  by (simp add: queued_ids_def cong: option.case_cong)

lemma queued_cong [simp]:
  "queued_ids (c\<lparr>cc_results := r\<rparr>) = queued_ids c" "queued_ids (c\<lparr>cc_promises := p\<rparr>) = queued_ids c"
  by (simp_all add: queued_ids_def)

lemma console_invD:
  assumes "console_inv c"
  shows "distinct (map fst (cc_states c))"
    and "map_of (cc_states c) k = Some s \<Longrightarrow> cm_pending s = int (length (cm_queue s))"
    and "map_of (cc_states c) k = Some s \<Longrightarrow> cm_queue s = [] \<Longrightarrow> \<not> cm_publishDesired s \<and> cm_retainDraftBlock s"
    and "map_of (cc_states c) k = Some s \<Longrightarrow> j \<in> set (cm_queue s) \<Longrightarrow> cj_generation j \<le> cm_generation s"
    and "mset (queued_ids c) + mset (map fst (cc_results c)) = mset [0..<cc_promises c]"
  using assms unfolding console_inv_def by blast+

text \<open>What every operation does to a state: it keeps the counter and the generations in order.\<close>

definition state_ok :: "SavedConsoleMutationState \<Rightarrow> bool" where
  "state_ok s \<longleftrightarrow> cm_pending s = int (length (cm_queue s)) \<and> (\<forall>j \<in> set (cm_queue s). cj_generation j \<le> cm_generation s)"

lemma state_ok_get: "console_inv c \<Longrightarrow> state_ok (getState k c)"
  by (cases "map_of (cc_states c) k")
     (auto simp: state_ok_def getState_def new_state_def dest: console_invD)

lemma get_queue:
  "(case map_of (cc_states c) k of None \<Rightarrow> [] | Some x \<Rightarrow> map cj_id (cm_queue x)) = map cj_id (cm_queue (getState k c))"
  by (cases "map_of (cc_states c) k") (simp_all add: getState_def new_state_def)

lemma inv_enqueue:
  assumes inv: "console_inv c" and s: "state_ok s" "cm_queue s = cm_queue (getState k c)"
  shows "console_inv (enqueue k s kind pp pr c)"
proof -
  note d = console_invD[OF inv]
  let ?job = "\<lparr>cj_id = cc_promises c, cj_kind = kind, cj_generation = cm_generation s,
    cj_previousPublish = pp, cj_previousRetain = pr\<rparr>"
  let ?s = "s\<lparr>cm_pending := cm_pending s + 1, cm_queue := cm_queue s @ [?job]\<rparr>"
  have "mset (queued_ids (c\<lparr>cc_states := AList.update k ?s (cc_states c)\<rparr>)) = mset (queued_ids c) + {#cc_promises c#}"
    using queued_update[OF d(1), of k ?s] s(2) unfolding get_queue by simp
  then have "mset (queued_ids (enqueue k s kind pp pr c)) + mset (map fst (cc_results c)) = mset [0..<cc_promises c + 1]"
    using d(5) by (simp add: enqueue_def Let_def)
  then show ?thesis
    using s(1) d(1-4) unfolding console_inv_def
    by (auto simp: enqueue_def Let_def js_map.wf_set js_map.get_set state_ok_def simp del: map_of_eq_Some_iff split: if_splits)
qed

lemma mset_move: "A + {#x#} = Q \<Longrightarrow> Q + mset R = P \<Longrightarrow> A + mset (R @ [x]) = P"
  by (auto simp: ac_simps)

lemma state_ok_simps [simp]:
  "state_ok s \<Longrightarrow> state_ok (s\<lparr>cm_generation := Suc (cm_generation s), cm_publishDesired := b, cm_retainDraftBlock := r\<rparr>)"
  by (auto simp: state_ok_def intro: le_SucI)

lemma inv_skip:
  assumes inv: "console_inv c" and "\<not> cm_publishDesired (getState k c)"
  shows "console_inv (c\<lparr>cc_states := AList.update k (getState k c) (cc_states c), cc_promises := Suc (cc_promises c),
    cc_results := cc_results c @ [(cc_promises c, NotExecuted)]\<rparr>)"
proof -
  have "map_of (cc_states c) k = Some (getState k c)"
    using assms(2) by (cases "map_of (cc_states c) k") (simp_all add: getState_def new_state_def)
  then have "AList.update k (getState k c) (cc_states c) = cc_states c" by (rule update_triv)
  with inv show ?thesis by (simp add: console_inv_def queued_ids_def)
qed

lemma inv_save_console: "console_inv c \<Longrightarrow> console_inv (save_console k mode c)"
  by (cases mode) (auto simp: save_console_def Let_def intro!: inv_enqueue inv_skip state_ok_get state_ok_simps)

lemma inv_remove_console: "console_inv c \<Longrightarrow> console_inv (remove_console k retain c)"
  by (auto simp: remove_console_def Let_def intro!: inv_enqueue state_ok_get state_ok_simps)

lemma onMutationError_basic [simp]:
  "cm_queue (onMutationError j s) = cm_queue s" "cm_generation (onMutationError j s) = cm_generation s"
  "cm_pending (onMutationError j s) = cm_pending s"
  by (simp_all add: onMutationError_def)

lemma inv_finish_mutation:
  assumes inv: "console_inv c" and s: "map_of (cc_states c) k = Some s" "cm_queue s = j # rest"
    and s1: "cm_generation s1 = cm_generation s" "cm_pending s1 = cm_pending s"
  shows "console_inv ((finish_mutation k (s1\<lparr>cm_queue := rest\<rparr>) c)\<lparr>cc_results := cc_results c @ [(cj_id j, r)]\<rparr>)"
proof -
  note d = console_invD[OF inv]
  let ?s = "s1\<lparr>cm_queue := rest, cm_pending := cm_pending s1 - 1\<rparr>"
  have pend: "cm_pending s1 - 1 = int (length rest)" using d(2)[OF s(1)] s(2) s1(2) by simp
  have gens: "\<forall>x \<in> set rest. cj_generation x \<le> cm_generation s1" using d(4)[OF s(1)] s(2) s1(1) by simp
  have upd: "mset (queued_ids (c\<lparr>cc_states := AList.update k ?s (cc_states c)\<rparr>)) + {#cj_id j#} = mset (queued_ids c)"
    using queued_update[OF d(1), of k ?s] s by simp
  have del: "rest = [] \<Longrightarrow> mset (queued_ids (c\<lparr>cc_states := AList.delete k (cc_states c)\<rparr>)) + {#cj_id j#} = mset (queued_ids c)"
    using queued_delete[OF d(1), of k] s by simp
  show ?thesis
  proof (cases "rest = [] \<and> (cm_publishDesired s1 \<or> \<not> cm_retainDraftBlock s1)")
    case True
    then have "mset (queued_ids (c\<lparr>cc_states := AList.delete k (cc_states c)\<rparr>)) + mset (map fst (cc_results c @ [(cj_id j, r)]))
        = mset [0..<cc_promises c]" using mset_move[OF del d(5)] by simp
    with True pend d show ?thesis
      unfolding console_inv_def finish_mutation_def Let_def
      by (auto simp: js_map.wf_delete js_map.get_delete simp del: map_of_eq_Some_iff split: if_splits)
  next
    case False
    then have "mset (queued_ids (c\<lparr>cc_states := AList.update k ?s (cc_states c)\<rparr>)) + mset (map fst (cc_results c @ [(cj_id j, r)]))
        = mset [0..<cc_promises c]" using mset_move[OF upd d(5)] by simp
    with False pend gens d show ?thesis
      unfolding console_inv_def finish_mutation_def Let_def
      by (auto simp: js_map.wf_set js_map.get_set simp del: map_of_eq_Some_iff split: if_splits)
  qed
qed

lemma inv_mutationFinished: "console_inv c \<Longrightarrow> console_inv (mutationFinished k err c)"
proof -
  assume inv: "console_inv c"
  have res: "cc_results (finish_mutation k x c) = cc_results c" for x
    by (simp add: finish_mutation_def Let_def)
  show ?thesis
    using inv inv_finish_mutation[OF inv, of k]
    by (auto simp: mutationFinished_def Let_def res split: option.splits list.splits)
qed

lemma inv_step: "console_step c c' \<Longrightarrow> console_inv c \<Longrightarrow> console_inv c'"
  by (induction rule: console_step.induct) (auto intro: inv_save_console inv_remove_console inv_mutationFinished)

lemma inv_console_reachable: "console_reachable c \<Longrightarrow> console_inv c"
proof (induction rule: console_reachable.induct)
  case init
  then show ?case by (simp add: console_inv_def createSavedConsoleMutationCoordinator_def queued_ids_def)
qed (auto intro: inv_step)

text \<open>
  The coordinator keeps its books. In every reachable state every request is either queued
  once or has settled once, the counter of a console is the length of its queue, and a console
  without queued mutations is only remembered while its removed draft has to stay blocked, so
  that states of consoles do not pile up.
\<close>
theorem console_requests_settle_once:
  assumes "console_reachable c"
  shows "distinct (queued_ids c @ map fst (cc_results c))
    \<and> set (queued_ids c @ map fst (cc_results c)) = {0..<cc_promises c}
    \<and> (\<forall>k s. map_of (cc_states c) k = Some s \<longrightarrow> cm_pending s = int (length (cm_queue s))
         \<and> (cm_queue s = [] \<longrightarrow> \<not> cm_publishDesired s \<and> cm_retainDraftBlock s))"
proof -
  note d = console_invD[OF inv_console_reachable[OF assms]]
  have ms: "mset (queued_ids c @ map fst (cc_results c)) = mset [0..<cc_promises c]" using d(5) by simp
  show ?thesis
    using mset_eq_imp_distinct_iff[OF ms] mset_eq_setD[OF ms] d(2,3) by auto
qed

section \<open>Newer intents\<close>

text \<open>
  The requests \<open>ids\<close> are outdated: they have not reported that they are current, and those still
  queued belong to an earlier generation of their console.
\<close>

definition outdated :: "nat set \<Rightarrow> ConsoleCoordinator \<Rightarrow> bool" where
  "outdated ids c \<longleftrightarrow> (\<forall>i \<in> ids. i < cc_promises c \<and> (i, Executed True) \<notin> set (cc_results c))
     \<and> (\<forall>k' s j. map_of (cc_states c) k' = Some s \<longrightarrow> j \<in> set (cm_queue s) \<longrightarrow> cj_id j \<in> ids
          \<longrightarrow> cj_generation j < cm_generation s)"

lemma outdated_enqueue:
  assumes "outdated ids c" and "cm_queue s = cm_queue (getState k' c)" and "cm_generation (getState k' c) \<le> cm_generation s"
  shows "outdated ids (enqueue k' s kind pp pr c)"
proof -
  have "cj_generation j < cm_generation s" if "j \<in> set (cm_queue (getState k' c))" "cj_id j \<in> ids" for j
  proof (cases "map_of (cc_states c) k'")
    case None
    with that show ?thesis by (simp add: getState_def new_state_def)
  next
    case (Some x)
    with assms(1) that have "cj_generation j < cm_generation x" unfolding outdated_def by (auto simp: getState_def simp del: map_of_eq_Some_iff)
    with assms(3) Some show ?thesis by (simp add: getState_def)
  qed
  with assms show ?thesis
    unfolding outdated_def
    by (auto simp: enqueue_def Let_def js_map.get_set less_Suc_eq simp del: map_of_eq_Some_iff split: if_splits)
qed

lemma outdated_save: "outdated ids c \<Longrightarrow> outdated ids (save_console k' mode c)"
proof (cases "mode = Automatic \<and> \<not> cm_publishDesired (getState k' c)")
  case True
  assume o: "outdated ids c"
  have "map_of (cc_states c) k' = Some (getState k' c)"
    using True by (cases "map_of (cc_states c) k'") (simp_all add: getState_def new_state_def)
  then have "AList.update k' (getState k' c) (cc_states c) = cc_states c" by (rule update_triv)
  with True o show ?thesis by (force simp: save_console_def outdated_def Let_def)
next
  case False
  assume "outdated ids c"
  with False show ?thesis
    by (cases mode) (auto simp: save_console_def Let_def intro!: outdated_enqueue)
qed

lemma outdated_remove: "outdated ids c \<Longrightarrow> outdated ids (remove_console k' retain c)"
  by (auto simp: remove_console_def Let_def intro!: outdated_enqueue)

lemma outdated_finish:
  assumes "outdated ids c"
  shows "outdated ids (mutationFinished k err c)"
proof (cases "\<exists>s j rest. map_of (cc_states c) k = Some s \<and> cm_queue s = j # rest")
  case True
  then obtain s j rest where s: "map_of (cc_states c) k = Some s" "cm_queue s = j # rest" by blast
  define s1 where "s1 = (case err of None \<Rightarrow> s | Some e \<Rightarrow> onMutationError j s)"
  have s1: "cm_generation s1 = cm_generation s" by (simp add: s1_def split: option.splits)
  have old: "cj_id x \<in> ids \<Longrightarrow> x \<in> set (j # rest) \<Longrightarrow> cj_generation x < cm_generation s" for x
    using assms s unfolding outdated_def by (metis list.set_intros(1))
  have stale: "cj_id j \<in> ids \<Longrightarrow> \<not> isCurrent j s" using old[of j] by (auto simp: isCurrent_def)
  let ?c1 = "finish_mutation k (s1\<lparr>cm_queue := rest\<rparr>) c"
  let ?r = "case err of None \<Rightarrow> Executed (isCurrent j s) | Some e \<Rightarrow> MutationFailed e"
  have c': "mutationFinished k err c = ?c1\<lparr>cc_results := cc_results c @ [(cj_id j, ?r)]\<rparr>"
    by (simp add: mutationFinished_def s s1_def Let_def finish_mutation_def)
  have res: "(i, Executed True) \<notin> set (cc_results c @ [(cj_id j, ?r)]) \<and> i < cc_promises c" if "i \<in> ids" for i
    using assms that stale by (auto simp: outdated_def split: option.splits)
  have p: "cc_promises ?c1 = cc_promises c" by (simp add: finish_mutation_def Let_def)
  have q: "cj_generation x < cm_generation t"
    if "map_of (cc_states ?c1) k' = Some t" "x \<in> set (cm_queue t)" "cj_id x \<in> ids" for k' t x
  proof (cases "k' = k")
    case True
    with that(1) have "t = s1\<lparr>cm_queue := rest, cm_pending := cm_pending s1 - 1\<rparr>"
      by (auto simp: finish_mutation_def Let_def js_map.get_set js_map.get_delete simp del: map_of_eq_Some_iff split: if_splits)
    with that(2,3) old[of x] s1 show ?thesis by simp
  next
    case False
    with that(1) have "map_of (cc_states c) k' = Some t"
      by (auto simp: finish_mutation_def Let_def js_map.get_set js_map.get_delete simp del: map_of_eq_Some_iff split: if_splits)
    with assms that(2,3) show ?thesis unfolding outdated_def by blast
  qed
  show ?thesis
    unfolding outdated_def c' using res p q by simp
next
  case False
  then have "mutationFinished k err c = c"
    by (auto simp: mutationFinished_def simp del: map_of_eq_Some_iff split: option.splits list.splits)
  with assms show ?thesis by simp
qed

lemma outdated_steps: "console_step\<^sup>*\<^sup>* c c' \<Longrightarrow> outdated ids c \<Longrightarrow> outdated ids c'"
proof (induction rule: rtranclp_induct)
  case (step b d)
  from step.hyps(2) step.IH[OF step.prems] show ?case
    by cases (auto intro: outdated_save outdated_remove outdated_finish)
qed

lemma outdated_intent:
  assumes inv: "console_inv c"
  shows "outdated (cj_id ` set (cm_queue (getState k c)))
    (enqueue k ((getState k c)\<lparr>cm_generation := cm_generation (getState k c) + 1, cm_publishDesired := b,
      cm_retainDraftBlock := r\<rparr>) kind pp pr c)" (is "outdated ?ids ?c")
proof -
  note d = console_invD[OF inv]
  have ms: "mset (queued_ids c @ map fst (cc_results c)) = mset [0..<cc_promises c]" using d(5) by simp
  have dist: "distinct (queued_ids c)" "set (queued_ids c) \<inter> fst ` set (cc_results c) = {}"
    "set (queued_ids c) \<subseteq> {0..<cc_promises c}"
    using mset_eq_imp_distinct_iff[OF ms] mset_eq_setD[OF ms] by auto
  have sub: "?ids \<subseteq> set (queued_ids c)"
    using map_of_SomeD[of "cc_states c" k]
    by (cases "map_of (cc_states c) k") (force simp: getState_def new_state_def queued_ids_def)+
  have other: "cj_id j \<notin> ?ids" if "map_of (cc_states c) k' = Some s" "k' \<noteq> k" "j \<in> set (cm_queue s)" for k' s j
  proof (cases "map_of (cc_states c) k")
    case None
    then show ?thesis by (simp add: getState_def new_state_def)
  next
    case (Some t)
    from distinct_concat_disjoint[OF dist(1)[unfolded queued_ids_def] that(1) Some that(2)] that(3) Some
    show ?thesis by (auto simp: getState_def)
  qed
  have own: "cj_generation j \<le> cm_generation (getState k c)" if "j \<in> set (cm_queue (getState k c))" for j
    using state_ok_get[OF inv, of k] that by (simp add: state_ok_def)
  have fresh: "i < cc_promises c \<and> (i, Executed True) \<notin> set (cc_results c)" if "i \<in> ?ids" for i
    using that sub dist by force
  then have new: "cc_promises c \<notin> ?ids" by blast
  have own': "cj_generation j < cm_generation (getState k c) + 1" if "j \<in> set (cm_queue (getState k c))" for j
    using own[OF that] by simp
  show ?thesis
    unfolding outdated_def
    using fresh other own' new
    by (auto simp: enqueue_def Let_def js_map.get_set less_Suc_eq simp del: map_of_eq_Some_iff split: if_splits)
qed

text \<open>
  C10: A newer intent wins. Once a console is saved by hand or removed, every mutation of that
  console that was queued before, whenever it finishes and whatever else is requested meanwhile,
  is reported as not current: a slow autosave can never bring a removed console back, and a
  slow removal never hides a console that was saved again.
\<close>
theorem newer_intent_wins:
  assumes "console_reachable c" and "j \<in> set (cm_queue (getState k c))"
    and "console_step\<^sup>*\<^sup>* (save_console k Manual c) c2 \<or> console_step\<^sup>*\<^sup>* (remove_console k retain c) c2"
  shows "(cj_id j, Executed True) \<notin> set (cc_results c2)"
proof -
  note inv = inv_console_reachable[OF assms(1)]
  let ?ids = "cj_id ` set (cm_queue (getState k c))"
  have "outdated ?ids (save_console k Manual c)" "outdated ?ids (remove_console k retain c)"
    unfolding save_console_def remove_console_def Let_def SavedConsoleSaveMode.case
    by (rule outdated_intent[OF inv])+
  with assms(3) have "outdated ?ids c2" by (elim disjE) (erule outdated_steps, assumption)+
  with assms(2) show ?thesis by (auto simp: outdated_def)
qed

definition example_autosave :: ConsoleCoordinator where
  "example_autosave = save_console 1 Automatic createSavedConsoleMutationCoordinator"

lemma example_autosave_reachable: "console_reachable example_autosave"
  unfolding example_autosave_def by (rule console_reachable.more[OF console_reachable.init console_step.step_save])

lemma example_autosave_state:
  "cc_states example_autosave = [(1, \<lparr>cm_queue = [\<lparr>cj_id = 0, cj_kind = AutomaticSave, cj_generation = 0,
     cj_previousPublish = True, cj_previousRetain = False\<rparr>], cm_generation = 0, cm_publishDesired = True,
     cm_retainDraftBlock = False, cm_pending = 1\<rparr>)]"
  by (simp add: example_autosave_def save_console_def createSavedConsoleMutationCoordinator_def getState_def new_state_def
      enqueue_def Let_def)

theorem newer_intent_wins_witness:
  "(0, Executed True) \<notin> set (cc_results (mutationFinished 1 None (remove_console 1 False example_autosave)))"
proof -
  let ?j = "\<lparr>cj_id = 0, cj_kind = AutomaticSave, cj_generation = 0, cj_previousPublish = True, cj_previousRetain = False\<rparr>"
  have "?j \<in> set (cm_queue (getState 1 example_autosave))" by (simp add: getState_def example_autosave_state)
  moreover have "console_step\<^sup>*\<^sup>* (remove_console 1 False example_autosave)
      (mutationFinished 1 None (remove_console 1 False example_autosave))"
    by (intro r_into_rtranclp console_step.intros)
  ultimately show ?thesis using newer_intent_wins[OF example_autosave_reachable, of ?j 1] by auto
qed

theorem console_requests_settle_once_witness:
  "set (queued_ids example_autosave @ map fst (cc_results example_autosave)) = {0..<cc_promises example_autosave}"
  using console_requests_settle_once[OF example_autosave_reachable] by blast

end
