(* ===== verification/Option_Requests.thy ===== *)
theory Option_Requests
  imports Request_Tracker
begin

text \<open>
  Loading the options of the database and schema selectors,
  \<open>hooks/selectDatabaseRequestLifecycle.ts\<close>: only the answer of the latest request of a mounted
  selector is shown. The request objects are passed and returned. A run is its begin, which issues
  a generation, and its end, when the promise of \<open>load\<close> settles; the end lists the callbacks
  called. The callback \<open>onSuccess\<close> may throw, which the source treats like a failed load.
\<close>

record LatestOptionRequest =
  lo_active :: bool
  lo_generationRef :: RequestGenerationRef

record SelectDatabaseRequestLifecycle =
  sl_database :: LatestOptionRequest
  sl_schema :: LatestOptionRequest

definition createLatestOptionRequest :: LatestOptionRequest where
  "createLatestOptionRequest = \<lparr>lo_active = True, lo_generationRef = \<lparr>gen_current = 0\<rparr>\<rparr>"

definition createSelectDatabaseRequestLifecycle :: SelectDatabaseRequestLifecycle where
  "createSelectDatabaseRequestLifecycle =
     \<lparr>sl_database = createLatestOptionRequest, sl_schema = createLatestOptionRequest\<rparr>"

definition activateLatestOptionRequest :: "LatestOptionRequest \<Rightarrow> LatestOptionRequest" where
  "activateLatestOptionRequest request = request\<lparr>lo_active := True\<rparr>"

definition invalidateLatestOptionRequest :: "LatestOptionRequest \<Rightarrow> LatestOptionRequest" where
  "invalidateLatestOptionRequest request =
     request\<lparr>lo_generationRef := invalidateLatestRequest (lo_generationRef request)\<rparr>"

definition disposeLatestOptionRequest :: "LatestOptionRequest \<Rightarrow> LatestOptionRequest" where
  "disposeLatestOptionRequest request = invalidateLatestOptionRequest (request\<lparr>lo_active := False\<rparr>)"

definition activateSelectDatabaseRequests :: "SelectDatabaseRequestLifecycle \<Rightarrow> SelectDatabaseRequestLifecycle" where
  "activateSelectDatabaseRequests lifecycle = lifecycle\<lparr>
     sl_database := activateLatestOptionRequest (sl_database lifecycle),
     sl_schema := activateLatestOptionRequest (sl_schema lifecycle)\<rparr>"

definition invalidateDataSourceOptionRequests :: "SelectDatabaseRequestLifecycle \<Rightarrow> SelectDatabaseRequestLifecycle" where
  "invalidateDataSourceOptionRequests lifecycle = lifecycle\<lparr>
     sl_database := invalidateLatestOptionRequest (sl_database lifecycle),
     sl_schema := invalidateLatestOptionRequest (sl_schema lifecycle)\<rparr>"

definition invalidateDatabaseOptionRequests :: "SelectDatabaseRequestLifecycle \<Rightarrow> SelectDatabaseRequestLifecycle" where
  "invalidateDatabaseOptionRequests lifecycle = lifecycle\<lparr>
     sl_schema := invalidateLatestOptionRequest (sl_schema lifecycle)\<rparr>"

definition disposeSelectDatabaseRequests :: "SelectDatabaseRequestLifecycle \<Rightarrow> SelectDatabaseRequestLifecycle" where
  "disposeSelectDatabaseRequests lifecycle = lifecycle\<lparr>
     sl_database := disposeLatestOptionRequest (sl_database lifecycle),
     sl_schema := disposeLatestOptionRequest (sl_schema lifecycle)\<rparr>"

definition hasApplicableDatabaseNameChange :: "jsval \<Rightarrow> bool option \<Rightarrow> bool" where
  "hasApplicableDatabaseNameChange changedValues supportDatabase \<longleftrightarrow>
     supportDatabase \<noteq> Some False \<and> jhas changedValues ''databaseName''"

section \<open>Running a request\<close>

text \<open>Up to the \<open>await\<close>: no generation if the request is not active.\<close>

definition beginOptionRequest :: "LatestOptionRequest \<Rightarrow> int option \<times> LatestOptionRequest" where
  "beginOptionRequest request =
     (if \<not> lo_active request then (None, request)
      else let (generation, ref) = beginLatestRequest (lo_generationRef request)
           in (Some generation, request\<lparr>lo_generationRef := ref\<rparr>))"

datatype 'a option_callback = OnSuccess 'a | OnLoadError

text \<open>
  After the \<open>await\<close>: the callbacks that are called, and the value of the promise (whether the
  answer was used). \<open>loaded\<close> is the loaded value, or \<open>None\<close> for a rejected promise.
\<close>

definition finishOptionRequest ::
  "LatestOptionRequest \<Rightarrow> int \<Rightarrow> 'a option \<Rightarrow> bool \<Rightarrow> 'a option_callback list \<times> bool" where
  "finishOptionRequest request generation loaded onSuccessThrows =
     (let isCurrent = lo_active request \<and> isLatestRequest (lo_generationRef request) generation
      in if \<not> isCurrent then ([], False)
         else case loaded of
           Some v \<Rightarrow> if onSuccessThrows then ([OnSuccess v, OnLoadError], True) else ([OnSuccess v], True)
         | None \<Rightarrow> ([OnLoadError], True))"

definition runDatabaseOptionRequest ::
  "SelectDatabaseRequestLifecycle \<Rightarrow> int option \<times> SelectDatabaseRequestLifecycle" where
  "runDatabaseOptionRequest lifecycle =
     (let (g, r) = beginOptionRequest (sl_database lifecycle) in (g, lifecycle\<lparr>sl_database := r\<rparr>))"

definition runSchemaOptionRequest ::
  "SelectDatabaseRequestLifecycle \<Rightarrow> int option \<times> SelectDatabaseRequestLifecycle" where
  "runSchemaOptionRequest lifecycle =
     (let (g, r) = beginOptionRequest (sl_schema lifecycle) in (g, lifecycle\<lparr>sl_schema := r\<rparr>))"

section \<open>Options from tree nodes\<close>

record TreeNodeData =
  tn_treeNodeType :: string
  tn_originalTitle :: "string option"
  tn_extraParams :: jsval

record SelectDatabaseOption =
  so_value :: string
  so_label :: string

definition normalizeDataSourceOptions :: "TreeNodeData list \<Rightarrow> (jsval \<times> string option \<times> jsval) list" where
  "normalizeDataSourceOptions nodes = List.map_filter (\<lambda>node.
     let dataSourceId = jget (tn_extraParams node) ''dataSourceId'';
         databaseType = jget (tn_extraParams node) ''databaseType''
     in if tn_treeNodeType node \<noteq> ''dataSource'' \<or> dataSourceId = Undefined \<or> \<not> truthy databaseType then None
        else Some (dataSourceId, tn_originalTitle node, databaseType)) nodes"

definition option_label :: "TreeNodeData \<Rightarrow> string \<Rightarrow> string" where
  "option_label node v =
     (case tn_originalTitle node of None \<Rightarrow> v | Some t \<Rightarrow> if trim t \<noteq> [] then trim t else v)"

fun collectNamedOptions :: "string \<Rightarrow> string \<Rightarrow> string list \<Rightarrow> TreeNodeData list \<Rightarrow> SelectDatabaseOption list" where
  "collectNamedOptions expectedNodeType field seenValues [] = []"
| "collectNamedOptions expectedNodeType field seenValues (node # nodes) =
     (case jget (tn_extraParams node) field of
        Str v \<Rightarrow>
          if tn_treeNodeType node \<noteq> expectedNodeType \<or> trim v = [] \<or> v \<in> set seenValues
          then collectNamedOptions expectedNodeType field seenValues nodes
          else \<lparr>so_value = v, so_label = option_label node v\<rparr>
            # collectNamedOptions expectedNodeType field (v # seenValues) nodes
      | _ \<Rightarrow> collectNamedOptions expectedNodeType field seenValues nodes)"

definition normalizeNamedOptions :: "TreeNodeData list \<Rightarrow> string \<Rightarrow> string \<Rightarrow> SelectDatabaseOption list" where
  "normalizeNamedOptions nodes expectedNodeType field = collectNamedOptions expectedNodeType field [] nodes"

definition normalizeDatabaseOptions :: "TreeNodeData list \<Rightarrow> SelectDatabaseOption list" where
  "normalizeDatabaseOptions nodes = normalizeNamedOptions nodes ''database'' ''databaseName''"

definition normalizeSchemaOptions :: "TreeNodeData list \<Rightarrow> SelectDatabaseOption list" where
  "normalizeSchemaOptions nodes = normalizeNamedOptions nodes ''schema'' ''schemaName''"

lemma collect_named_spec:
  "distinct (map so_value (collectNamedOptions ty f seen nodes))
   \<and> set (map so_value (collectNamedOptions ty f seen nodes))
     = {v. v \<notin> set seen \<and> trim v \<noteq> [] \<and> (\<exists>n \<in> set nodes. tn_treeNodeType n = ty \<and> jget (tn_extraParams n) f = Str v)}"
  by (induction ty f seen nodes rule: collectNamedOptions.induct) (auto split: jsval.splits if_splits)

text \<open>
  The selector offers every database once: the values of the database options are exactly the
  non-blank database names of the database nodes of the tree, without duplicates; and likewise
  for schemas.
\<close>
theorem named_options_exact:
  "distinct (map so_value (normalizeDatabaseOptions nodes)) \<and> distinct (map so_value (normalizeSchemaOptions nodes))
   \<and> set (map so_value (normalizeDatabaseOptions nodes)) = {v. trim v \<noteq> [] \<and>
        (\<exists>n \<in> set nodes. tn_treeNodeType n = ''database'' \<and> jget (tn_extraParams n) ''databaseName'' = Str v)}
   \<and> set (map so_value (normalizeSchemaOptions nodes)) = {v. trim v \<noteq> [] \<and>
        (\<exists>n \<in> set nodes. tn_treeNodeType n = ''schema'' \<and> jget (tn_extraParams n) ''schemaName'' = Str v)}"
  using collect_named_spec[of "''database''" "''databaseName''" "[]" nodes]
    collect_named_spec[of "''schema''" "''schemaName''" "[]" nodes]
  by (simp add: normalizeDatabaseOptions_def normalizeSchemaOptions_def normalizeNamedOptions_def)

section \<open>Stale answers\<close>

text \<open>An active option request is a generation counter in the sense of \<open>latest_request\<close>.\<close>

interpretation option_request: latest_request
    "\<lambda>r. (fst (beginLatestRequest (lo_generationRef r)), r\<lparr>lo_generationRef := snd (beginLatestRequest (lo_generationRef r))\<rparr>)"
    invalidateLatestOptionRequest "\<lambda>r. isLatestRequest (lo_generationRef r)" "\<lambda>r. {..gen_current (lo_generationRef r)}"
proof unfold_locales
  fix r :: LatestOptionRequest and a b :: int
  show "isLatestRequest (lo_generationRef r) a \<Longrightarrow> isLatestRequest (lo_generationRef r) b \<Longrightarrow> a = b"
    by (rule generation.latest_unique)
  show "a \<in> {..gen_current (lo_generationRef r)} \<Longrightarrow> \<not> isLatestRequest (lo_generationRef (invalidateLatestOptionRequest r)) a"
    using generation.invalidate_none[of a "lo_generationRef r"] by (simp add: invalidateLatestOptionRequest_def)
qed (use generation.begin_latest generation.begin_fresh generation.begin_issued in simp_all)

inductive option_step :: "LatestOptionRequest \<Rightarrow> LatestOptionRequest \<Rightarrow> bool" where
  step_activate: "option_step r (activateLatestOptionRequest r)"
| step_invalidate: "option_step r (invalidateLatestOptionRequest r)"
| step_dispose: "option_step r (disposeLatestOptionRequest r)"
| step_begin: "option_step r (snd (beginOptionRequest r))"

lemma option_step_mono: "option_step r r' \<Longrightarrow> gen_current (lo_generationRef r) \<le> gen_current (lo_generationRef r')"
  by (induction rule: option_step.induct)
     (auto simp: activateLatestOptionRequest_def invalidateLatestOptionRequest_def disposeLatestOptionRequest_def
       invalidateLatestRequest_def beginOptionRequest_def beginLatestRequest_def Let_def)

lemma option_steps_mono:
  "option_step\<^sup>*\<^sup>* r r' \<Longrightarrow> gen_current (lo_generationRef r) \<le> gen_current (lo_generationRef r')"
  by (induction rule: rtranclp_induct) (auto dest: option_step_mono)

text \<open>
  Only the newest answer is shown. Once an option request was started, an answer to it that
  arrives after a newer request of the same selector, an invalidation or the disposal of the
  selector is dropped: no callback is called, however the selector was used or mounted again
  meanwhile, and whether the load succeeded or failed.
\<close>
theorem stale_option_answer_dropped:
  assumes "beginOptionRequest r = (Some g, r1)" and "option_step\<^sup>*\<^sup>* r1 r2"
    and "(lo_active r2 \<and> r3 = snd (beginOptionRequest r2)) \<or> r3 = invalidateLatestOptionRequest r2
      \<or> r3 = disposeLatestOptionRequest r2"
    and "option_step\<^sup>*\<^sup>* r3 r4"
  shows "finishOptionRequest r4 g loaded throws = ([], False)"
proof -
  have "g = gen_current (lo_generationRef r1)"
    using assms(1) by (auto simp: beginOptionRequest_def beginLatestRequest_def Let_def split: if_splits)
  also have "\<dots> \<le> gen_current (lo_generationRef r2)" by (rule option_steps_mono[OF assms(2)])
  also have "\<dots> < gen_current (lo_generationRef r3)"
    using assms(3) by (auto simp: invalidateLatestOptionRequest_def disposeLatestOptionRequest_def
        invalidateLatestRequest_def beginOptionRequest_def beginLatestRequest_def Let_def)
  also have "\<dots> \<le> gen_current (lo_generationRef r4)" by (rule option_steps_mono[OF assms(4)])
  finally have "\<not> isLatestRequest (lo_generationRef r4) g" by (simp add: isLatestRequest_def)
  then show ?thesis by (simp add: finishOptionRequest_def)
qed

theorem stale_option_answer_dropped_witness:
  "finishOptionRequest (activateLatestOptionRequest (disposeLatestOptionRequest (snd (beginOptionRequest createLatestOptionRequest))))
     1 (Some ''db'') False = ([], False)"
proof (rule stale_option_answer_dropped)
  show "beginOptionRequest createLatestOptionRequest = (Some 1, snd (beginOptionRequest createLatestOptionRequest))"
    by (simp add: beginOptionRequest_def createLatestOptionRequest_def beginLatestRequest_def)
  show "option_step\<^sup>*\<^sup>* (snd (beginOptionRequest createLatestOptionRequest)) (snd (beginOptionRequest createLatestOptionRequest))"
    by simp
qed (auto intro: option_step.intros)

end
