(* ===== verification/Content_Diff.thy ===== *)
theory Content_Diff
  imports Js_Prelude "HOL-Library.Word"
begin

text \<open>
  The difference between the saved and the edited text of an editor,
  \<open>components/SQLEditor/editor/MonacoEditor/contentDiff.ts\<close>: lines are aligned by a longest common
  subsequence, found with a table, and runs of changed lines become hunks.

  The two-dimensional array is a list of rows, updated in place; line numbers count from 1. The
  variables that the closures of \<open>compactDiffOps\<close> share are the record \<open>CompactState\<close>.
\<close>

section \<open>Data\<close>

datatype ContentDiffKind = Added | Deleted | Modified | Equal

record ContentDiffRange =
  startLineNumber :: nat
  endLineNumber :: nat

record ContentDiffHunk =
  hk_id :: string
  hk_kind :: ContentDiffKind
  hk_baselineRange :: ContentDiffRange
  hk_currentRange :: ContentDiffRange
  hk_baselineLineCount :: nat
  hk_currentLineCount :: nat
  hk_displayLineCount :: nat
  hk_baselineText :: string
  hk_currentText :: string
  hk_anchorLineNumber :: nat

datatype DiffOp = EqualOp nat nat string | DeletedOp nat string | AddedOp nat string

definition MAX_DIFF_MATRIX_CELLS :: nat where
  "MAX_DIFF_MATRIX_CELLS = 250000"

section \<open>Lines\<close>

definition splitLines :: "string \<Rightarrow> string list" where
  "splitLines s = (if s = [] then [] else split_line_breaks s)"

definition isBlankLine :: "string \<Rightarrow> bool" where
  "isBlankLine line \<longleftrightarrow> trim line = []"

section \<open>Alignment\<close>

definition table_cell :: "string list \<Rightarrow> string list \<Rightarrow> nat \<Rightarrow> nat \<Rightarrow> nat list list \<Rightarrow> nat list list" where
  "table_cell b c i j t =
     t[i := (t ! i)[j := if b ! (i - 1) = c ! (j - 1) then t ! (i - 1) ! (j - 1) + 1
                         else max (t ! (i - 1) ! j) (t ! i ! (j - 1))]]"

definition diff_table :: "string list \<Rightarrow> string list \<Rightarrow> nat list list" where
  "diff_table b c =
     fold (\<lambda>i. fold (table_cell b c i) [1..<length c + 1]) [1..<length b + 1]
       (replicate (length b + 1) (replicate (length c + 1) 0))"

text \<open>The \<open>while\<close> loop, with the operations pushed so far.\<close>

function backtrack :: "nat list list \<Rightarrow> string list \<Rightarrow> string list \<Rightarrow> nat \<Rightarrow> nat \<Rightarrow> DiffOp list \<Rightarrow> DiffOp list" where
  "backtrack t b c i j ops =
     (if i = 0 \<and> j = 0 then ops
      else if 0 < i \<and> 0 < j \<and> b ! (i - 1) = c ! (j - 1)
      then backtrack t b c (i - 1) (j - 1) (ops @ [EqualOp i j (b ! (i - 1))])
      else if 0 < j \<and> (i = 0 \<or> t ! i ! (j - 1) \<ge> t ! (i - 1) ! j)
      then backtrack t b c i (j - 1) (ops @ [AddedOp j (c ! (j - 1))])
      else backtrack t b c (i - 1) j (ops @ [DeletedOp i (b ! (i - 1))]))"
  by pat_completeness auto
termination by (relation "measure (\<lambda>(t, b, c, i, j, ops). i + j)") auto

declare backtrack.simps [simp del]

definition buildDiffOps :: "string list \<Rightarrow> string list \<Rightarrow> DiffOp list" where
  "buildDiffOps b c = rev (backtrack (diff_table b c) b c (length b) (length c) [])"

section \<open>Hunks\<close>

text \<open>\<open>hash = (hash * 31 + code) | 0\<close> wraps to 32 bits; the product is below \<open>2 ^ 53\<close> and exact.\<close>

definition hash_step :: "char \<Rightarrow> 32 word \<Rightarrow> 32 word" where
  "hash_step c h = h * 31 + word_of_nat (of_char c)"

definition digit36 :: "nat \<Rightarrow> char" where
  "digit36 d = (if d < 10 then char_of (48 + d) else char_of (87 + d))"

fun string_of_nat36 :: "nat \<Rightarrow> string" where
  "string_of_nat36 n = (if n < 36 then [digit36 n] else string_of_nat36 (n div 36) @ [digit36 (n mod 36)])"

declare string_of_nat36.simps [simp del]

definition hashText :: "string \<Rightarrow> string" where
  "hashText s = string_of_nat36 (nat \<bar>sint (fold hash_step s 0)\<bar>)"

definition clamp :: "nat \<Rightarrow> nat \<Rightarrow> nat \<Rightarrow> nat" where
  "clamp value lo hi = min (max value lo) hi"

fun kind_name :: "ContentDiffKind \<Rightarrow> string" where
  "kind_name Added = ''added''"
| "kind_name Deleted = ''deleted''"
| "kind_name Modified = ''modified''"
| "kind_name Equal = ''equal''"

definition createHunk :: "ContentDiffKind \<Rightarrow> nat \<Rightarrow> nat \<Rightarrow> string list \<Rightarrow> string list \<Rightarrow> nat \<Rightarrow> nat option
    \<Rightarrow> ContentDiffHunk" where
  "createHunk kind baselineStartLine currentStartLine baselineLines currentLines currentLineCount displayLineCount =
     (let baselineEndLine = max baselineStartLine (baselineStartLine + length baselineLines - 1);
          currentEndLine = max currentStartLine (currentStartLine + length currentLines - 1);
          anchorLineNumber = clamp currentStartLine 1 (max 1 currentLineCount);
          baselineText = join [LF] baselineLines;
          currentText = join [LF] currentLines
      in \<lparr>hk_id = kind_name kind @ '':'' @ string_of_nat baselineStartLine @ '':'' @ string_of_nat baselineEndLine
             @ '':'' @ string_of_nat currentStartLine @ '':'' @ string_of_nat currentEndLine
             @ '':'' @ hashText (baselineText @ [LF] @ ''---'' @ [LF] @ currentText),
          hk_kind = kind,
          hk_baselineRange = \<lparr>startLineNumber = baselineStartLine, endLineNumber = baselineEndLine\<rparr>,
          hk_currentRange =
            \<lparr>startLineNumber = (if kind = Deleted then anchorLineNumber else currentStartLine),
             endLineNumber = (if kind = Deleted then anchorLineNumber else currentEndLine)\<rparr>,
          hk_baselineLineCount = length baselineLines,
          hk_currentLineCount = length currentLines,
          hk_displayLineCount =
            the_default (max (max (length baselineLines) (length currentLines)) 1) displayLineCount,
          hk_baselineText = baselineText,
          hk_currentText = currentText,
          hk_anchorLineNumber = anchorLineNumber\<rparr>)"

definition getDisplayLineCount :: "ContentDiffKind \<Rightarrow> string list \<Rightarrow> string list \<Rightarrow> nat \<Rightarrow> nat" where
  "getDisplayLineCount kind deletedLines addedLines trailing =
     (if kind = Added then length addedLines else max (max (length deletedLines) (length addedLines)) 1) + trailing"

record CompactState =
  cs_hunks :: "ContentDiffHunk list"
  cs_baselineCursor :: nat
  cs_currentCursor :: nat
  cs_baselineStartLine :: nat
  cs_currentStartLine :: nat
  cs_deletedLines :: "string list"
  cs_addedLines :: "string list"
  cs_trailingBlank :: nat

definition init_compact :: CompactState where
  "init_compact = \<lparr>cs_hunks = [], cs_baselineCursor = 1, cs_currentCursor = 1, cs_baselineStartLine = 1,
     cs_currentStartLine = 1, cs_deletedLines = [], cs_addedLines = [], cs_trailingBlank = 0\<rparr>"

definition flush :: "nat \<Rightarrow> CompactState \<Rightarrow> CompactState" where
  "flush currentLineCount s =
     (if cs_deletedLines s = [] \<and> cs_addedLines s = [] then s
      else
        let kind = (if cs_deletedLines s \<noteq> [] \<and> cs_addedLines s \<noteq> [] then Modified
              else if cs_deletedLines s \<noteq> [] then Deleted else Added);
            hunk = createHunk kind (cs_baselineStartLine s) (cs_currentStartLine s) (cs_deletedLines s)
              (cs_addedLines s) currentLineCount
              (Some (getDisplayLineCount kind (cs_deletedLines s) (cs_addedLines s) (cs_trailingBlank s)))
        in s\<lparr>cs_hunks := cs_hunks s @ [hunk], cs_deletedLines := [], cs_addedLines := [],
             cs_trailingBlank := 0\<rparr>)"

text \<open>The start lines are set when the first changed line of a run is met.\<close>

definition begin_run :: "CompactState \<Rightarrow> CompactState" where
  "begin_run s =
     (if cs_deletedLines s = [] \<and> cs_addedLines s = []
      then s\<lparr>cs_baselineStartLine := cs_baselineCursor s, cs_currentStartLine := cs_currentCursor s\<rparr> else s)"

fun compact_op :: "nat \<Rightarrow> DiffOp \<Rightarrow> CompactState \<Rightarrow> CompactState" where
  "compact_op n (EqualOp i j line) s =
     (if cs_deletedLines s \<noteq> [] \<and> isBlankLine line
      then s\<lparr>cs_trailingBlank := cs_trailingBlank s + 1, cs_baselineCursor := cs_baselineCursor s + 1,
             cs_currentCursor := cs_currentCursor s + 1\<rparr>
      else let f = flush n s; bc = cs_baselineCursor f + 1; cc = cs_currentCursor f + 1
           in f\<lparr>cs_baselineCursor := bc, cs_currentCursor := cc, cs_baselineStartLine := bc,
               cs_currentStartLine := cc\<rparr>)"
| "compact_op n (DeletedOp i line) s =
     (let r = begin_run s
      in r\<lparr>cs_deletedLines := cs_deletedLines r @ [line], cs_baselineCursor := cs_baselineCursor r + 1,
          cs_trailingBlank := 0\<rparr>)"
| "compact_op n (AddedOp j line) s =
     (let r = begin_run s
      in r\<lparr>cs_addedLines := cs_addedLines r @ [line], cs_currentCursor := cs_currentCursor r + 1,
          cs_trailingBlank := 0\<rparr>)"

definition compactDiffOps :: "DiffOp list \<Rightarrow> nat \<Rightarrow> ContentDiffHunk list" where
  "compactDiffOps ops currentLineCount =
     cs_hunks (flush currentLineCount (fold (compact_op currentLineCount) ops init_compact))"

definition buildContentDiffHunks :: "string \<Rightarrow> string \<Rightarrow> ContentDiffHunk list" where
  "buildContentDiffHunks baselineText currentText =
     (if baselineText = currentText then []
      else
        let b = splitLines baselineText; c = splitLines currentText
        in if b = [] \<and> c \<noteq> [] then [createHunk Added 1 1 [] c (length c) None]
           else if b \<noteq> [] \<and> c = [] then [createHunk Deleted 1 1 b [] 0 None]
           else if length b * length c > MAX_DIFF_MATRIX_CELLS
           then [createHunk Modified 1 1 b c (length c) None]
           else compactDiffOps (buildDiffOps b c) (length c))"

section \<open>The table holds the lengths of longest common subsequences\<close>

text \<open>The recurrence, on the prefixes of lengths \<open>i\<close> and \<open>j\<close>.\<close>

fun lcs_len :: "'a list \<Rightarrow> 'a list \<Rightarrow> nat \<Rightarrow> nat \<Rightarrow> nat" where
  "lcs_len b c 0 j = 0"
| "lcs_len b c i 0 = 0"
| "lcs_len b c (Suc i) (Suc j) =
     (if b ! i = c ! j then lcs_len b c i j + 1 else max (lcs_len b c i (Suc j)) (lcs_len b c (Suc i) j))"

lemma lcs_len_0 [simp]: "lcs_len b c i 0 = 0"
  by (cases i) auto

text \<open>The cells before column \<open>j\<close> of row \<open>i\<close> are computed, the others still 0.\<close>

definition cells_done :: "string list \<Rightarrow> string list \<Rightarrow> nat \<Rightarrow> nat \<Rightarrow> nat list list \<Rightarrow> bool" where
  "cells_done b c i j t \<longleftrightarrow> length t = Suc (length b) \<and> (\<forall>r \<le> length b. length (t ! r) = Suc (length c)
     \<and> (\<forall>k \<le> length c. t ! r ! k = (if r < i \<or> (r = i \<and> k < j) then lcs_len b c r k else 0)))"

lemma cells_init: "cells_done b c 1 1 (replicate (length b + 1) (replicate (length c + 1) 0))"
  by (auto simp: cells_done_def nth_append simp del: replicate_Suc)

lemma cells_cell:
  assumes "cells_done b c i j t" and "0 < i" "i \<le> length b" "0 < j" "j \<le> length c"
  shows "cells_done b c i (Suc j) (table_cell b c i j t)"
proof -
  obtain i' j' where ij: "i = Suc i'" "j = Suc j'" using assms(2,4) by (meson gr0_implies_Suc)
  have v: "(if b ! (i - 1) = c ! (j - 1) then t ! (i - 1) ! (j - 1) + 1
      else max (t ! (i - 1) ! j) (t ! i ! (j - 1))) = lcs_len b c i j"
    using assms by (auto simp: cells_done_def ij)
  have row: "table_cell b c i j t ! r ! k = (if r = i \<and> k = j then lcs_len b c i j else t ! r ! k)
      \<and> length (table_cell b c i j t ! r) = length (t ! r)" if "k \<le> length c" for r k
    unfolding table_cell_def v using assms that by (cases "r = i"; cases "k = j") (auto simp: cells_done_def)
  have "length (table_cell b c i j t) = Suc (length b)"
    using assms(1) by (simp add: cells_done_def table_cell_def)
  then show ?thesis using assms(1) row row[of 0] by (auto simp: cells_done_def less_Suc_eq)
qed

lemma cells_row:
  assumes "cells_done b c i 1 t" and "0 < i" "i \<le> length b" "k \<le> length c"
  shows "cells_done b c i (Suc k) (fold (table_cell b c i) [1..<k + 1] t)"
  using assms(4)
proof (induction k)
  case 0
  then show ?case using assms(1) by simp
next
  case (Suc k)
  then show ?case using cells_cell[of b c i "Suc k"] assms(2,3) by simp
qed

lemma cells_next_row: "cells_done b c i (Suc (length c)) t \<Longrightarrow> cells_done b c (Suc i) 1 t"
  by (auto simp: cells_done_def less_Suc_eq)

lemma cells_rows:
  assumes "n \<le> length b"
  shows "cells_done b c (Suc n) 1 (fold (\<lambda>i. fold (table_cell b c i) [1..<length c + 1]) [1..<n + 1]
           (replicate (length b + 1) (replicate (length c + 1) 0)))"
  using assms
proof (induction n)
  case 0
  then show ?case using cells_init by simp
next
  case (Suc n)
  then show ?case using cells_next_row[OF cells_row[of b c "Suc n" _ "length c"]] by simp
qed

lemma diff_table_lcs: "i \<le> length b \<Longrightarrow> j \<le> length c \<Longrightarrow> diff_table b c ! i ! j = lcs_len b c i j"
  using cells_rows[of "length b" b c] by (simp add: diff_table_def cells_done_def)

lemma subseq_snocD:
  assumes "subseq (s @ [y]) (xs @ [x])"
  shows "subseq s xs" and "y \<noteq> x \<Longrightarrow> subseq (s @ [y]) xs"
proof -
  obtain a d where d: "s @ [y] = a @ d" "subseq a xs" "subseq d [x]"
    using assms by (auto simp: subseq_append_iff)
  have "d = [] \<or> d = [x]" using d(3) by (cases d) (auto split: if_splits dest: subseq_same_length)
  then show "subseq s xs" "y \<noteq> x \<Longrightarrow> subseq (s @ [y]) xs"
    using d(1,2) by (auto intro: subseq_order.trans[of s "s @ [y]"])
qed

lemma lcs_len_upper:
  "i \<le> length b \<Longrightarrow> j \<le> length c \<Longrightarrow> subseq s (take i b) \<Longrightarrow> subseq s (take j c) \<Longrightarrow> length s \<le> lcs_len b c i j"
proof (induction b c i j arbitrary: s rule: lcs_len.induct)
  case (3 b c i j)
  show ?case
  proof (cases s rule: rev_cases)
    case (snoc s' y)
    have tb: "take (Suc i) b = take i b @ [b ! i]" and tc: "take (Suc j) c = take j c @ [c ! j]"
      using 3(4,5) by (auto simp: take_Suc_conv_app_nth)
    note sb = subseq_snocD[OF 3(6)[unfolded snoc tb]] and sc = subseq_snocD[OF 3(7)[unfolded snoc tc]]
    show ?thesis
    proof (cases "b ! i = c ! j")
      case True
      then show ?thesis using 3(1)[OF True _ _ sb(1) sc(1)] 3(4,5) snoc by simp
    next
      case False
      consider "y \<noteq> b ! i" | "y \<noteq> c ! j" using False by blast
      then show ?thesis
      proof cases
        case 1
        then show ?thesis using 3(2)[OF False _ _ sb(2)[OF 1]] 3(4,5,7) snoc False by simp
      next
        case 2
        then show ?thesis using 3(3)[OF False _ _ _ sc(2)[OF 2]] 3(4,5,6) snoc False by simp
      qed
    qed
  qed simp
qed auto

section \<open>The alignment\<close>

definition baseline_of :: "DiffOp list \<Rightarrow> (nat \<times> string) list" where
  "baseline_of = List.map_filter (\<lambda>op. case op of EqualOp i j l \<Rightarrow> Some (i, l) | DeletedOp i l \<Rightarrow> Some (i, l) | AddedOp j l \<Rightarrow> None)"

definition current_of :: "DiffOp list \<Rightarrow> (nat \<times> string) list" where
  "current_of = List.map_filter (\<lambda>op. case op of EqualOp i j l \<Rightarrow> Some (j, l) | AddedOp j l \<Rightarrow> Some (j, l) | DeletedOp i l \<Rightarrow> None)"

definition unchanged_of :: "DiffOp list \<Rightarrow> string list" where
  "unchanged_of = List.map_filter (\<lambda>op. case op of EqualOp i j l \<Rightarrow> Some l | _ \<Rightarrow> None)"

lemma ops_of_simps [simp]:
  "baseline_of [] = []" "current_of [] = []" "unchanged_of [] = []"
  "baseline_of (ops @ ops') = baseline_of ops @ baseline_of ops'"
  "current_of (ops @ ops') = current_of ops @ current_of ops'"
  "unchanged_of (ops @ ops') = unchanged_of ops @ unchanged_of ops'"
  "baseline_of (EqualOp i j l # ops) = (i, l) # baseline_of ops"
  "baseline_of (DeletedOp i l # ops) = (i, l) # baseline_of ops"
  "baseline_of (AddedOp j l # ops) = baseline_of ops"
  "current_of (EqualOp i j l # ops) = (j, l) # current_of ops"
  "current_of (DeletedOp i l # ops) = current_of ops"
  "current_of (AddedOp j l # ops) = (j, l) # current_of ops"
  "unchanged_of (EqualOp i j l # ops) = l # unchanged_of ops"
  "unchanged_of (DeletedOp i l # ops) = unchanged_of ops"
  "unchanged_of (AddedOp j l # ops) = unchanged_of ops"
  by (simp_all add: baseline_of_def current_of_def unchanged_of_def map_filter_def)

definition aligns :: "string list \<Rightarrow> string list \<Rightarrow> nat \<Rightarrow> nat \<Rightarrow> DiffOp list \<Rightarrow> bool" where
  "aligns b c i j ops \<longleftrightarrow> baseline_of ops = enumerate 1 (take i b) \<and> current_of ops = enumerate 1 (take j c)
     \<and> length (unchanged_of ops) = lcs_len b c i j
     \<and> subseq (unchanged_of ops) (take i b) \<and> subseq (unchanged_of ops) (take j c)"

lemma aligns_step:
  "i < length b \<Longrightarrow> j < length c \<Longrightarrow> b ! i = c ! j \<Longrightarrow> aligns b c i j ops
    \<Longrightarrow> aligns b c (Suc i) (Suc j) (ops @ [EqualOp (Suc i) (Suc j) (b ! i)])"
  "j < length c \<Longrightarrow> aligns b c i j ops \<Longrightarrow> lcs_len b c i (Suc j) = lcs_len b c i j
    \<Longrightarrow> aligns b c i (Suc j) (ops @ [AddedOp (Suc j) (c ! j)])"
  "i < length b \<Longrightarrow> aligns b c i j ops \<Longrightarrow> lcs_len b c (Suc i) j = lcs_len b c i j
    \<Longrightarrow> aligns b c (Suc i) j (ops @ [DeletedOp (Suc i) (b ! i)])"
  by (auto simp: aligns_def enumerate_append_eq take_Suc_conv_app_nth intro: list_emb_append_mono)

lemma backtrack_aligns:
  assumes "i \<le> length b" "j \<le> length c"
  shows "\<exists>ops'. backtrack (diff_table b c) b c i j ops = ops @ ops' \<and> aligns b c i j (rev ops')"
  using assms
proof (induction "diff_table b c" b c i j ops rule: backtrack.induct)
  case (1 b c i j ops)
  consider (stop) "i = 0" "j = 0"
    | (eq) i' j' where "i = Suc i'" "j = Suc j'" "b ! i' = c ! j'"
    | (add) j' where "j = Suc j'" "\<not> (0 < i \<and> b ! (i - 1) = c ! j')" "i = 0 \<or> lcs_len b c i j' \<ge> lcs_len b c (i - 1) j"
    | (del) i' where "i = Suc i'" "\<not> (0 < j \<and> b ! i' = c ! (j - 1))" "\<not> (0 < j \<and> lcs_len b c i (j - 1) \<ge> lcs_len b c i' j)"
    by (cases i; cases j) (simp_all, metis not_le_imp_less)
  then show ?case
  proof cases
    case stop
    then show ?thesis by (simp add: backtrack.simps aligns_def)
  next
    case eq
    then have "backtrack (diff_table b c) b c i j ops
        = backtrack (diff_table b c) b c i' j' (ops @ [EqualOp i j (b ! i')])"
      by (subst backtrack.simps) simp
    moreover obtain ops' where "backtrack (diff_table b c) b c i' j' (ops @ [EqualOp i j (b ! i')])
        = (ops @ [EqualOp i j (b ! i')]) @ ops'" "aligns b c i' j' (rev ops')"
      using 1(1,4,5) eq by auto
    ultimately show ?thesis using aligns_step(1)[of i' b j' c "rev ops'"] eq 1(4,5)
      by (intro exI[of _ "EqualOp i j (b ! i') # ops'"]) simp
  next
    case add
    have l: "lcs_len b c i (Suc j') = lcs_len b c i j'" using add by (cases i) auto
    have test: "i = 0 \<or> diff_table b c ! i ! (j - 1) \<ge> diff_table b c ! (i - 1) ! j"
      using add 1(4,5) by (simp add: diff_table_lcs)
    then have "backtrack (diff_table b c) b c i j ops
        = backtrack (diff_table b c) b c i j' (ops @ [AddedOp j (c ! j')])"
      using add by (subst backtrack.simps) auto
    moreover obtain ops' where "backtrack (diff_table b c) b c i j' (ops @ [AddedOp j (c ! j')])
        = (ops @ [AddedOp j (c ! j')]) @ ops'" "aligns b c i j' (rev ops')"
      using 1(2,4,5) add test by auto
    ultimately show ?thesis using aligns_step(2)[of j' c b i "rev ops'"] add(1) l 1(4,5)
      by (intro exI[of _ "AddedOp j (c ! j') # ops'"]) simp
  next
    case del
    have l: "lcs_len b c (Suc i') j = lcs_len b c i' j" using del by (cases j) auto
    have test: "\<not> (0 < j \<and> (i = 0 \<or> diff_table b c ! i ! (j - 1) \<ge> diff_table b c ! (i - 1) ! j))"
      using del 1(4,5) by (auto simp: diff_table_lcs)
    then have "backtrack (diff_table b c) b c i j ops
        = backtrack (diff_table b c) b c i' j (ops @ [DeletedOp i (b ! i')])"
      using del by (subst backtrack.simps) auto
    moreover obtain ops' where "backtrack (diff_table b c) b c i' j (ops @ [DeletedOp i (b ! i')])
        = (ops @ [DeletedOp i (b ! i')]) @ ops'" "aligns b c i' j (rev ops')"
      using 1(3,4,5) del test by auto
    ultimately show ?thesis using aligns_step(3)[of i' b c j "rev ops'"] del(1) l 1(4,5)
      by (intro exI[of _ "DeletedOp i (b ! i') # ops'"]) simp
  qed
qed

lemma buildDiffOps_aligns: "aligns b c (length b) (length c) (buildDiffOps b c)"
  using backtrack_aligns[of "length b" b "length c" c "[]"] by (auto simp: buildDiffOps_def)

text \<open>
  C25: The alignment of two texts is right and the best possible. The kept and deleted lines of the
  operations are the lines of the saved text, numbered from 1 and in order; the kept and added
  lines are those of the edited text; and the kept lines are a longest common subsequence of the
  two texts: no alignment keeps more lines.
\<close>
theorem diff_ops_optimal:
  "baseline_of (buildDiffOps b c) = enumerate 1 b \<and> current_of (buildDiffOps b c) = enumerate 1 c
   \<and> subseq (unchanged_of (buildDiffOps b c)) b \<and> subseq (unchanged_of (buildDiffOps b c)) c
   \<and> (\<nexists>s. subseq s b \<and> subseq s c \<and> length s > length (unchanged_of (buildDiffOps b c)))"
  using buildDiffOps_aligns[of b c] lcs_len_upper[of "length b" b "length c" c]
  by (fastforce simp: aligns_def)

section \<open>Hunks count every change once\<close>

definition deleted_total :: "CompactState \<Rightarrow> nat" where
  "deleted_total s = sum_list (map hk_baselineLineCount (cs_hunks s)) + length (cs_deletedLines s)"

definition added_total :: "CompactState \<Rightarrow> nat" where
  "added_total s = sum_list (map hk_currentLineCount (cs_hunks s)) + length (cs_addedLines s)"

lemma createHunk_simps [simp]:
  "hk_baselineLineCount (createHunk k bs cs dels adds n d) = length dels"
  "hk_currentLineCount (createHunk k bs cs dels adds n d) = length adds"
  "hk_baselineText (createHunk k bs cs dels adds n d) = join [LF] dels"
  "hk_currentText (createHunk k bs cs dels adds n d) = join [LF] adds"
  "hk_kind (createHunk k bs cs dels adds n d) = k"
  "startLineNumber (hk_baselineRange (createHunk k bs cs dels adds n d)) = bs"
  "k \<noteq> Deleted \<Longrightarrow> startLineNumber (hk_currentRange (createHunk k bs cs dels adds n d)) = cs"
  by (simp_all add: createHunk_def Let_def)

lemma flush_totals [simp]:
  "deleted_total (flush n s) = deleted_total s" "added_total (flush n s) = added_total s"
  "cs_deletedLines (flush n s) = []" "cs_addedLines (flush n s) = []"
  by (auto simp: deleted_total_def added_total_def flush_def Let_def)

lemma compact_op_totals:
  "deleted_total (compact_op n op s) + length (unchanged_of [op]) = deleted_total s + length (baseline_of [op])
   \<and> added_total (compact_op n op s) + length (unchanged_of [op]) = added_total s + length (current_of [op])"
proof (cases op)
  case (EqualOp i j l)
  then show ?thesis using flush_totals[of n s] by (auto simp: deleted_total_def added_total_def Let_def)
qed (auto simp: deleted_total_def added_total_def begin_run_def Let_def)

lemma compact_fold_totals:
  "deleted_total (fold (compact_op n) ops s) + length (unchanged_of ops) = deleted_total s + length (baseline_of ops)
   \<and> added_total (fold (compact_op n) ops s) + length (unchanged_of ops) = added_total s + length (current_of ops)"
proof (induction ops arbitrary: s)
  case (Cons op ops)
  then show ?case using Cons[of "compact_op n op s"] compact_op_totals[of n op s] by (cases op) auto
qed simp

lemma compact_totals:
  "sum_list (map hk_baselineLineCount (compactDiffOps ops n)) + length (unchanged_of ops) = length (baseline_of ops)
   \<and> sum_list (map hk_currentLineCount (compactDiffOps ops n)) + length (unchanged_of ops) = length (current_of ops)"
proof -
  let ?s = "fold (compact_op n) ops init_compact"
  have "deleted_total init_compact = 0" "added_total init_compact = 0"
    by (simp_all add: deleted_total_def added_total_def init_compact_def)
  then show ?thesis
    using compact_fold_totals[of n ops init_compact] flush_totals[of n ?s]
    by (simp add: compactDiffOps_def deleted_total_def added_total_def)
qed

section \<open>Where hunks are\<close>

definition located :: "nat \<Rightarrow> 'a list \<Rightarrow> 'a list \<Rightarrow> bool" where
  "located start xs ls \<longleftrightarrow> (\<exists>u v. ls = u @ xs @ v \<and> length u + 1 = start)"

lemma located_append: "located start xs ls \<Longrightarrow> located start xs (ls @ zs)"
  unfolding located_def by (metis append.assoc)

lemma located_take: "located start xs ls \<Longrightarrow> take (length xs) (drop (start - 1) ls) = xs"
  by (auto simp: located_def)

definition hunk_ok :: "nat \<Rightarrow> string list \<Rightarrow> string list \<Rightarrow> ContentDiffHunk \<Rightarrow> bool" where
  "hunk_ok n b c h \<longleftrightarrow> (\<exists>k bs cs dels adds d. h = createHunk k bs cs dels adds n d \<and> located bs dels b
     \<and> located cs adds c \<and> dels @ adds \<noteq> [])"

definition run_ok :: "nat \<Rightarrow> string list \<Rightarrow> string list \<Rightarrow> CompactState \<Rightarrow> bool" where
  "run_ok n b c s \<longleftrightarrow> cs_baselineCursor s = length b + 1 \<and> cs_currentCursor s = length c + 1
     \<and> (cs_deletedLines s @ cs_addedLines s \<noteq> [] \<longrightarrow>
          (\<exists>u. b = u @ cs_deletedLines s \<and> length u + 1 = cs_baselineStartLine s)
        \<and> (\<exists>u. c = u @ cs_addedLines s \<and> length u + 1 = cs_currentStartLine s))
     \<and> (\<forall>h \<in> set (cs_hunks s). hunk_ok n b c h)"

lemma hunk_ok_append: "hunk_ok n b c h \<Longrightarrow> hunk_ok n (b @ b') (c @ c') h"
  unfolding hunk_ok_def by (blast intro: located_append)

lemma hunk_ok_append1: "hunk_ok n b c h \<Longrightarrow> hunk_ok n (b @ b') c h" "hunk_ok n b c h \<Longrightarrow> hunk_ok n b (c @ c') h"
  using hunk_ok_append[of n b c h b' "[]"] hunk_ok_append[of n b c h "[]" c'] by simp_all

lemma run_ok_flush: "run_ok n b c s \<Longrightarrow> run_ok n b c (flush n s)"
proof (cases "cs_deletedLines s @ cs_addedLines s = []")
  case False
  assume ok: "run_ok n b c s"
  then obtain u w where u: "b = u @ cs_deletedLines s" "length u + 1 = cs_baselineStartLine s"
      "c = w @ cs_addedLines s" "length w + 1 = cs_currentStartLine s"
    using False by (auto simp: run_ok_def)
  have "located (cs_baselineStartLine s) (cs_deletedLines s) b" "located (cs_currentStartLine s) (cs_addedLines s) c"
    using u unfolding located_def by (metis append_Nil2)+
  then have "hunk_ok n b c (createHunk k (cs_baselineStartLine s) (cs_currentStartLine s) (cs_deletedLines s)
      (cs_addedLines s) n d)" for k d
    using False unfolding hunk_ok_def by blast
  then show ?thesis using ok False by (auto simp: run_ok_def flush_def Let_def)
qed (simp add: flush_def)

lemma run_ok_op:
  assumes "run_ok n b c s" and "\<And>i j l. op = EqualOp i j l \<Longrightarrow> \<not> isBlankLine l"
  shows "run_ok n (b @ map snd (baseline_of [op])) (c @ map snd (current_of [op])) (compact_op n op s)"
proof (cases op)
  case (EqualOp i j l)
  then show ?thesis
    using run_ok_flush[OF assms(1)] assms(2) by (auto simp: run_ok_def Let_def intro: hunk_ok_append)
next
  case (DeletedOp i l)
  then show ?thesis
    using assms(1) by (auto simp: run_ok_def begin_run_def Let_def intro: hunk_ok_append1)
next
  case (AddedOp j l)
  then show ?thesis
    using assms(1) by (auto simp: run_ok_def begin_run_def Let_def intro: hunk_ok_append1)
qed

lemma run_ok_fold:
  assumes "run_ok n b c s" and "\<And>i j l. EqualOp i j l \<in> set ops \<Longrightarrow> \<not> isBlankLine l"
  shows "run_ok n (b @ map snd (baseline_of ops)) (c @ map snd (current_of ops)) (fold (compact_op n) ops s)"
  using assms
proof (induction ops arbitrary: b c s)
  case (Cons op ops)
  have "run_ok n (b @ map snd (baseline_of [op])) (c @ map snd (current_of [op])) (compact_op n op s)"
    using Cons.prems by (intro run_ok_op) auto
  from Cons.IH[OF this] have "run_ok n ((b @ map snd (baseline_of [op])) @ map snd (baseline_of ops))
      ((c @ map snd (current_of [op])) @ map snd (current_of ops)) (fold (compact_op n) ops (compact_op n op s))"
    using Cons.prems(2) by (meson list.set_intros(2))
  then show ?case using ops_of_simps(4,5)[of "[op]" ops] by simp
qed simp

lemma located_whole: "located 1 xs xs"
  by (auto simp: located_def)

lemma located_nil: "located 1 [] xs"
  by (auto simp: located_def)

lemma subseq_set_mem: "subseq xs ys \<Longrightarrow> x \<in> set xs \<Longrightarrow> x \<in> set ys"
  by (induction rule: list_emb.induct) auto

text \<open>A line that an operation keeps is a line of both texts.\<close>

lemma kept_in_both:
  assumes "EqualOp i j l \<in> set (buildDiffOps b c)"
  shows "l \<in> set b \<inter> set c"
proof -
  have "l \<in> set (unchanged_of (buildDiffOps b c))"
    using assms by (force simp: unchanged_of_def map_filter_def)
  then show ?thesis
    using buildDiffOps_aligns[of b c] by (auto simp: aligns_def dest: subseq_set_mem)
qed

lemma diff_hunks_ok:
  assumes "\<forall>l \<in> set b \<inter> set c. \<not> isBlankLine l" and "h \<in> set (compactDiffOps (buildDiffOps b c) (length c))"
  shows "hunk_ok (length c) b c h"
proof -
  have "run_ok (length c) [] [] init_compact" by (simp add: run_ok_def init_compact_def)
  from run_ok_flush[OF run_ok_fold[OF this, of "buildDiffOps b c"]]
  have "run_ok (length c) b c (flush (length c) (fold (compact_op (length c)) (buildDiffOps b c) init_compact))"
    using kept_in_both[of _ _ _ b c] assms(1) buildDiffOps_aligns[of b c] by (simp add: aligns_def)
  then show ?thesis using assms(2) by (simp add: run_ok_def compactDiffOps_def)
qed

lemma hunks_not_empty:
  "\<forall>h \<in> set (cs_hunks s). 0 < hk_baselineLineCount h + hk_currentLineCount h
   \<Longrightarrow> \<forall>h \<in> set (cs_hunks (flush n s)). 0 < hk_baselineLineCount h + hk_currentLineCount h"
  "\<forall>h \<in> set (cs_hunks s). 0 < hk_baselineLineCount h + hk_currentLineCount h
   \<Longrightarrow> \<forall>h \<in> set (cs_hunks (fold (compact_op n) ops s)). 0 < hk_baselineLineCount h + hk_currentLineCount h"
proof -
  show flush: "\<forall>h \<in> set (cs_hunks s). 0 < hk_baselineLineCount h + hk_currentLineCount h
      \<Longrightarrow> \<forall>h \<in> set (cs_hunks (flush n s)). 0 < hk_baselineLineCount h + hk_currentLineCount h" for s
    by (auto simp: flush_def Let_def)
  show "\<forall>h \<in> set (cs_hunks s). 0 < hk_baselineLineCount h + hk_currentLineCount h
      \<Longrightarrow> \<forall>h \<in> set (cs_hunks (fold (compact_op n) ops s)). 0 < hk_baselineLineCount h + hk_currentLineCount h"
  proof (induction ops arbitrary: s)
    case (Cons op ops)
    have "\<forall>h \<in> set (cs_hunks (compact_op n op s)). 0 < hk_baselineLineCount h + hk_currentLineCount h"
      using Cons.prems flush[OF Cons.prems] by (cases op) (auto simp: Let_def begin_run_def)
    then show ?case using Cons.IH by simp
  qed simp
qed

lemma no_hunks_iff_no_changes: "compactDiffOps (buildDiffOps b c) n = [] \<longleftrightarrow> b = c"
proof
  let ?ops = "buildDiffOps b c"
  note al = buildDiffOps_aligns[of b c, unfolded aligns_def]
  note tot = compact_totals[of ?ops n]
  {
    assume "compactDiffOps ?ops n = []"
    then have "length (unchanged_of ?ops) = length b" "length (unchanged_of ?ops) = length c" using tot al by auto
    then show "b = c" using al by (metis subseq_same_length take_all_iff order_refl)
  }
  assume "b = c"
  then have "length b \<le> length (unchanged_of ?ops)" using lcs_len_upper[of "length b" b "length c" c b] al by simp
  then have "sum_list (map hk_baselineLineCount (compactDiffOps ?ops n)) = 0"
      "sum_list (map hk_currentLineCount (compactDiffOps ?ops n)) = 0"
    using tot al \<open>b = c\<close> by (simp_all del: sum_list_eq_0_iff)
  then have "\<forall>h \<in> set (compactDiffOps ?ops n). hk_baselineLineCount h = 0 \<and> hk_currentLineCount h = 0"
    by (simp add: sum_list_eq_0_iff)
  moreover have "\<forall>h \<in> set (compactDiffOps ?ops n). 0 < hk_baselineLineCount h + hk_currentLineCount h"
    unfolding compactDiffOps_def by (intro hunks_not_empty) (simp add: init_compact_def)
  ultimately show "compactDiffOps ?ops n = []" by (metis add_0 less_irrefl list.set_intros(1) neq_Nil_conv)
qed

lemma splitLines_Nil [simp]: "splitLines s = [] \<longleftrightarrow> s = []"
  by (simp add: splitLines_def)

text \<open>
  The hunks of a difference account for every change, and only for changes. When the texts are
  aligned, the deleted lines of all hunks together with the kept lines are as many as the saved
  text has, and the added lines with the kept lines as many as the edited text has. There is
  no hunk exactly if the texts are the same, or differ only in their kind of line breaks and are
  small enough to be aligned.
\<close>
theorem hunks_account_for_changes:
  "sum_list (map hk_baselineLineCount (compactDiffOps (buildDiffOps b c) n)) + length (unchanged_of (buildDiffOps b c)) = length b
   \<and> sum_list (map hk_currentLineCount (compactDiffOps (buildDiffOps b c) n)) + length (unchanged_of (buildDiffOps b c)) = length c
   \<and> (buildContentDiffHunks x y = [] \<longleftrightarrow>
        x = y \<or> (splitLines x = splitLines y \<and> length (splitLines x) * length (splitLines y) \<le> MAX_DIFF_MATRIX_CELLS))"
  using compact_totals[of "buildDiffOps b c" n] buildDiffOps_aligns[of b c]
    splitLines_Nil[of x] splitLines_Nil[of y]
  by (auto simp: aligns_def buildContentDiffHunks_def Let_def no_hunks_iff_no_changes simp del: splitLines_Nil)

text \<open>
  A hunk is where it says it is. If no line that occurs in both texts is blank, the text that a
  hunk gives for the saved version is that of its range of the saved lines, and unless it is a pure
  deletion its new text is that of its range of the edited lines; no hunk is empty.
\<close>
theorem hunks_are_located:
  assumes "\<forall>l \<in> set (splitLines x) \<inter> set (splitLines y). \<not> isBlankLine l" and "h \<in> set (buildContentDiffHunks x y)"
  shows "hk_baselineText h = join [LF] (take (hk_baselineLineCount h)
        (drop (startLineNumber (hk_baselineRange h) - 1) (splitLines x)))
    \<and> (hk_kind h = Deleted \<or> hk_currentText h = join [LF] (take (hk_currentLineCount h)
        (drop (startLineNumber (hk_currentRange h) - 1) (splitLines y))))
    \<and> hk_baselineLineCount h + hk_currentLineCount h > 0"
proof -
  let ?b = "splitLines x" and ?c = "splitLines y"
  consider "h = createHunk Added 1 1 [] ?c (length ?c) None" "?c \<noteq> []"
    | "h = createHunk Deleted 1 1 ?b [] 0 None" "?b \<noteq> []"
    | "h = createHunk Modified 1 1 ?b ?c (length ?c) None" "?b \<noteq> []"
    | "hunk_ok (length ?c) ?b ?c h"
    using assms(2) diff_hunks_ok[OF assms(1)]
    by (auto simp: buildContentDiffHunks_def Let_def MAX_DIFF_MATRIX_CELLS_def split: if_splits)
  then show ?thesis
  proof cases
    case 4
    then obtain k bs cs dels adds d where h: "h = createHunk k bs cs dels adds (length ?c) d"
        "located bs dels ?b" "located cs adds ?c" "dels @ adds \<noteq> []" unfolding hunk_ok_def by blast
    then show ?thesis using located_take[OF h(2)] located_take[OF h(3)] by (cases "k = Deleted") auto
  qed auto
qed

lemma example_ops:
  "buildDiffOps [''a'', ''b''] [''a'', ''c''] = [EqualOp 1 1 ''a'', DeletedOp 2 ''b'', AddedOp 2 ''c'']"
  "buildDiffOps [''a'', [], ''b''] [''x'', [], ''y'']
     = [DeletedOp 1 ''a'', AddedOp 1 ''x'', EqualOp 2 2 [], DeletedOp 3 ''b'', AddedOp 3 ''y'']"
  by code_simp+

lemma example_lines:
  "splitLines (''a'' @ [LF] @ ''b'') = [''a'', ''b'']" "splitLines (''a'' @ [LF] @ ''c'') = [''a'', ''c'']"
  "splitLines (''a'' @ [LF, LF] @ ''b'') = [''a'', [], ''b'']"
  "splitLines (''x'' @ [LF, LF] @ ''y'') = [''x'', [], ''y'']"
  by code_simp+

lemmas compact_defs = compactDiffOps_def init_compact_def flush_def begin_run_def Let_def isBlankLine_def

lemma example_hunk:
  "\<exists>d. buildContentDiffHunks (''a'' @ [LF] @ ''b'') (''a'' @ [LF] @ ''c'')
     = [createHunk Modified 2 2 [''b''] [''c''] 2 (Some d)]"
proof -
  have "\<not> isBlankLine ''a''" by code_simp
  then show ?thesis
    using example_ops(1) unfolding buildContentDiffHunks_def example_lines
    by (simp add: MAX_DIFF_MATRIX_CELLS_def compact_defs numeral_2_eq_2 exI[of _ "getDisplayLineCount Modified [''b''] [''c''] 0"])
qed

theorem hunks_are_located_witness:
  "hk_baselineText (hd (buildContentDiffHunks (''a'' @ [LF] @ ''b'') (''a'' @ [LF] @ ''c''))) = ''b''"
proof -
  let ?x = "''a'' @ [LF] @ ''b''" and ?y = "''a'' @ [LF] @ ''c''"
  obtain d where h: "buildContentDiffHunks ?x ?y = [createHunk Modified 2 2 [''b''] [''c''] 2 (Some d)]"
    using example_hunk by blast
  have "\<forall>l \<in> set (splitLines ?x) \<inter> set (splitLines ?y). \<not> isBlankLine l" by code_simp
  from hunks_are_located[OF this, of "createHunk Modified 2 2 [''b''] [''c''] 2 (Some d)"] show ?thesis
    unfolding h example_lines by simp
qed

text \<open>
  Across a kept blank line two runs of changes become one hunk, and its ranges and texts no longer
  belong together: here the saved text of the hunk are the lines 1 and 3, its range the lines 1 to 2.
\<close>

lemma blank_line_hunk_mismatch:
  "map (\<lambda>h. (hk_baselineText h, startLineNumber (hk_baselineRange h), hk_baselineLineCount h))
     (buildContentDiffHunks (''a'' @ [LF, LF] @ ''b'') (''x'' @ [LF, LF] @ ''y'')) = [(''a'' @ [LF] @ ''b'', 1, 2)]"
  using example_ops(2) unfolding buildContentDiffHunks_def example_lines
  by (simp add: MAX_DIFF_MATRIX_CELLS_def compact_defs)

end
