(* ===== verification/Content_Guard.thy ===== *)
theory Content_Guard
  imports Content_Diff
begin

text \<open>
  When the difference of an editor is shown at all, \<open>components/SQLEditor/helper/contentDiffGuard.ts\<close>
  with the editor types of \<open>components/SQLEditor/type.ts\<close>: the identity of the saved source, limits on
  the size of texts and hunks, and surfaces the user has switched off. The content of
  \<open>localStorage\<close> is an argument, \<open>None\<close> if it is missing or cannot be read.
\<close>

section \<open>Sources\<close>

datatype EditorType = ConsoleEditor | FunctionEditor | ProcedureEditor | TriggerEditor | ViewEditor | LocalSQLFileEditor

fun editor_type_name :: "EditorType \<Rightarrow> string" where
  "editor_type_name ConsoleEditor = ''console''"
| "editor_type_name FunctionEditor = ''function''"
| "editor_type_name ProcedureEditor = ''procedure''"
| "editor_type_name TriggerEditor = ''trigger''"
| "editor_type_name ViewEditor = ''view''"
| "editor_type_name LocalSQLFileEditor = ''LocalSQLFile''"

definition isContentDiffEditableDDLType :: "EditorType \<Rightarrow> bool" where
  "isContentDiffEditableDDLType ty \<longleftrightarrow> ty \<in> set [ViewEditor, FunctionEditor, ProcedureEditor, TriggerEditor]"

definition isContentDiffSavedSQLType :: "EditorType \<Rightarrow> bool" where
  "isContentDiffSavedSQLType ty \<longleftrightarrow> ty \<in> set [ConsoleEditor]"

definition isContentDiffLocalSQLFileType :: "EditorType \<Rightarrow> bool" where
  "isContentDiffLocalSQLFileType ty \<longleftrightarrow> ty \<in> set [LocalSQLFileEditor]"

datatype console_id = ConsoleName string | ConsoleNumber int

record ContentDiffBoundInfo =
  bi_consoleId :: "console_id option"
  bi_dataSourceId :: "int option"
  bi_databaseName :: "string option"
  bi_schemaName :: "string option"
  bi_filePath :: "string option"
  bi_viewName :: "string option"
  bi_tableName :: "string option"
  bi_functionName :: "string option"
  bi_procedureName :: "string option"
  bi_triggerName :: "string option"

datatype ContentDiffSourceKind = EditableDDL | SavedSQL | LocalSQLFileSource

datatype ContentDiffDenyReason =
  Disabled | Unchanged | UnsupportedType | MissingSource | UnsavedSQL | TextTooLarge | TooManyHunks | TooManyDecorations

text \<open>\<open>allow\<close> with the kind and id of the source, or \<open>deny\<close> with the reason.\<close>

type_synonym ContentDiffEligibility = "ContentDiffDenyReason + (ContentDiffSourceKind \<times> string)"

definition allow :: "ContentDiffSourceKind \<Rightarrow> string \<Rightarrow> ContentDiffEligibility" where
  "allow kind sourceId = Inr (kind, sourceId)"

definition deny :: "ContentDiffDenyReason \<Rightarrow> ContentDiffEligibility" where
  "deny reason = Inl reason"

text \<open>\<open>a || b\<close> on optional strings, and \<open>String(v || '')\<close>.\<close>

definition or_str :: "string option \<Rightarrow> string option \<Rightarrow> string option" where
  "or_str a b = (if truthy_str a then a else b)"

definition str_or_empty :: "string option \<Rightarrow> string" where
  "str_or_empty v = (case v of None \<Rightarrow> [] | Some s \<Rightarrow> s)"

definition num_or_empty :: "int option \<Rightarrow> string" where
  "num_or_empty v = (case v of None \<Rightarrow> [] | Some n \<Rightarrow> if n = 0 then [] else string_of_int n)"

definition getContentDiffDDLObjectName :: "EditorType \<Rightarrow> ContentDiffBoundInfo \<Rightarrow> string" where
  "getContentDiffDDLObjectName editorType info =
     str_or_empty (case editorType of
       ViewEditor \<Rightarrow> or_str (bi_viewName info) (bi_tableName info)
     | FunctionEditor \<Rightarrow> bi_functionName info
     | ProcedureEditor \<Rightarrow> bi_procedureName info
     | TriggerEditor \<Rightarrow> bi_triggerName info
     | _ \<Rightarrow> None)"

definition ddl_source_values :: "ContentDiffBoundInfo \<Rightarrow> (string \<times> string) list" where
  "ddl_source_values info =
     [(''dataSourceId'', num_or_empty (bi_dataSourceId info)), (''databaseName'', str_or_empty (bi_databaseName info)),
      (''schemaName'', str_or_empty (bi_schemaName info)), (''viewName'', str_or_empty (bi_viewName info)),
      (''functionName'', str_or_empty (bi_functionName info)), (''procedureName'', str_or_empty (bi_procedureName info)),
      (''triggerName'', str_or_empty (bi_triggerName info))]"

definition buildContentDiffDDLSourceId :: "EditorType \<Rightarrow> ContentDiffBoundInfo \<Rightarrow> string" where
  "buildContentDiffDDLSourceId editorType info =
     (let objectName = getContentDiffDDLObjectName editorType info
      in if objectName = [] then []
         else join ''|'' (map (\<lambda>(key, v). key @ '':'' @ v) (ddl_source_values info)
           @ [''type:'' @ editor_type_name editorType, ''object:'' @ objectName]))"

fun isTemporaryContentDiffId :: "console_id \<Rightarrow> bool" where
  "isTemporaryContentDiffId (ConsoleName s) = startsWith s ''chat2db_temporary''"
| "isTemporaryContentDiffId (ConsoleNumber n) = False"

fun console_id_text :: "console_id \<Rightarrow> string" where
  "console_id_text (ConsoleName s) = s"
| "console_id_text (ConsoleNumber n) = string_of_int n"

definition getContentDiffEligibility :: "EditorType \<Rightarrow> ContentDiffBoundInfo \<Rightarrow> bool \<Rightarrow> ContentDiffEligibility" where
  "getContentDiffEligibility editorType info savedSqlRecord =
     (if isContentDiffEditableDDLType editorType then
        let sourceId = buildContentDiffDDLSourceId editorType info
        in if sourceId \<noteq> [] then allow EditableDDL sourceId else deny MissingSource
      else if isContentDiffSavedSQLType editorType then
        (case bi_consoleId info of
           None \<Rightarrow> deny UnsavedSQL
         | Some i \<Rightarrow> if \<not> savedSqlRecord \<or> isTemporaryContentDiffId i then deny UnsavedSQL
                     else allow SavedSQL (''console:'' @ console_id_text i))
      else if isContentDiffLocalSQLFileType editorType then
        (if truthy_str (bi_filePath info) then allow LocalSQLFileSource (''file:'' @ str_or_empty (bi_filePath info))
         else deny MissingSource)
      else deny UnsupportedType)"

definition shouldEnableContentDiff :: "EditorType \<Rightarrow> ContentDiffBoundInfo \<Rightarrow> bool \<Rightarrow> bool" where
  "shouldEnableContentDiff editorType info savedSqlRecord =
     (case getContentDiffEligibility editorType info savedSqlRecord of Inl _ \<Rightarrow> False | Inr _ \<Rightarrow> True)"

section \<open>Limits\<close>

definition CONTENT_DIFF_MAX_TEXT_LENGTH :: nat where "CONTENT_DIFF_MAX_TEXT_LENGTH = 200000"
definition CONTENT_DIFF_MAX_HUNK_COUNT :: nat where "CONTENT_DIFF_MAX_HUNK_COUNT = 500"
definition CONTENT_DIFF_MAX_DECORATION_COUNT :: nat where "CONTENT_DIFF_MAX_DECORATION_COUNT = 1000"

definition hashContentDiffText :: "string \<Rightarrow> string" where
  "hashContentDiffText s = string_of_nat36 (nat \<bar>sint (fold hash_step s 0)\<bar>)"

record ContentDiffTextGuard =
  tg_enabled :: bool
  tg_baselineHash :: string
  tg_currentHash :: string
  tg_reason :: "ContentDiffDenyReason option"

definition guardContentDiffTexts :: "string \<Rightarrow> string \<Rightarrow> ContentDiffTextGuard" where
  "guardContentDiffTexts baselineText currentText =
     (let baselineHash = hashContentDiffText baselineText; currentHash = hashContentDiffText currentText;
          result = (\<lambda>enabled reason. \<lparr>tg_enabled = enabled, tg_baselineHash = baselineHash,
            tg_currentHash = currentHash, tg_reason = reason\<rparr>)
      in if baselineHash = currentHash \<and> baselineText = currentText then result False (Some Unchanged)
         else if length baselineText > CONTENT_DIFF_MAX_TEXT_LENGTH \<or> length currentText > CONTENT_DIFF_MAX_TEXT_LENGTH
         then result False (Some TextTooLarge)
         else result True None)"

definition getContentDiffOpenBlockReason :: "string \<Rightarrow> string \<Rightarrow> ContentDiffDenyReason option" where
  "getContentDiffOpenBlockReason baselineText currentText =
     (if length baselineText > CONTENT_DIFF_MAX_TEXT_LENGTH \<or> length currentText > CONTENT_DIFF_MAX_TEXT_LENGTH
      then Some TextTooLarge else None)"

definition isContentDiffHunkBudgetExceeded :: "nat \<Rightarrow> nat \<Rightarrow> bool" where
  "isContentDiffHunkBudgetExceeded hunkCount decorationCount \<longleftrightarrow>
     hunkCount > CONTENT_DIFF_MAX_HUNK_COUNT \<or> decorationCount > CONTENT_DIFF_MAX_DECORATION_COUNT"

definition getContentDiffDecorationCount :: "ContentDiffHunk list \<Rightarrow> nat" where
  "getContentDiffDecorationCount hunks =
     fold (\<lambda>hunk count. count + max (endLineNumber (hk_currentRange hunk) - startLineNumber (hk_currentRange hunk) + 1) 1)
       hunks 0"

definition getContentDiffDisabledSurfaces :: "string option \<Rightarrow> string list" where
  "getContentDiffDisabledSurfaces stored =
     uniq (filter (\<lambda>item. item \<noteq> []) (map trim (split_on CHR '','' (str_or_empty stored))))"

definition isContentDiffSurfaceEnabled :: "string option \<Rightarrow> string \<Rightarrow> bool" where
  "isContentDiffSurfaceEnabled stored surface \<longleftrightarrow> surface \<notin> set (getContentDiffDisabledSurfaces stored)"

section \<open>Properties\<close>

lemma join_inj:
  assumes "join [c] xs = join [c] ys" "xs \<noteq> []" "ys \<noteq> []" "\<forall>x \<in> set xs \<union> set ys. c \<notin> set x"
  shows "xs = ys"
proof -
  have "split_on c (join [c] xs) = xs" "split_on c (join [c] ys) = ys"
    using assms(2-4) by (simp_all add: split_on_join)
  then show ?thesis using assms(1) by metis
qed

lemma editor_type_name_inj: "editor_type_name a = editor_type_name b \<longleftrightarrow> a = b"
  by (cases a; cases b) auto

lemma editor_type_name_plain: "CHR ''|'' \<notin> set (editor_type_name a)"
  by (cases a) auto

text \<open>The parts of a source id.\<close>

definition ddl_source_parts :: "EditorType \<Rightarrow> ContentDiffBoundInfo \<Rightarrow> string list" where
  "ddl_source_parts ty info = map (\<lambda>(key, v). key @ '':'' @ v) (ddl_source_values info)
     @ [''type:'' @ editor_type_name ty, ''object:'' @ getContentDiffDDLObjectName ty info]"

lemma ddl_source_parts_plain:
  assumes "\<forall>v \<in> snd ` set (ddl_source_values info). CHR ''|'' \<notin> set v" "CHR ''|'' \<notin> set (getContentDiffDDLObjectName ty info)"
  shows "\<forall>x \<in> set (ddl_source_parts ty info). CHR ''|'' \<notin> set x"
  using assms editor_type_name_plain[of ty] by (simp add: ddl_source_parts_def ddl_source_values_def)

text \<open>
  A source id names one source. If two editors of routine or view definitions get the same
  source id, they show the same type of object with the same name in the same data source,
  database and schema (names without the separator \<open>|\<close>), so that the saved text of one object is
  never compared with the edited text of another.
\<close>
theorem ddl_source_id_identifies:
  assumes "getContentDiffEligibility ty info saved = Inr (EditableDDL, i)"
    and "getContentDiffEligibility ty' info' saved' = Inr (EditableDDL, i)"
    and "\<forall>v \<in> snd ` set (ddl_source_values info @ ddl_source_values info'). CHR ''|'' \<notin> set v"
    and "CHR ''|'' \<notin> set (getContentDiffDDLObjectName ty info) \<union> set (getContentDiffDDLObjectName ty' info')"
  shows "ty = ty' \<and> getContentDiffDDLObjectName ty info = getContentDiffDDLObjectName ty' info'
    \<and> ddl_source_values info = ddl_source_values info'"
proof -
  have i: "i = join ''|'' (ddl_source_parts ty info)" "i = join ''|'' (ddl_source_parts ty' info')"
    using assms(1,2) by (auto simp: getContentDiffEligibility_def buildContentDiffDDLSourceId_def Let_def allow_def
        deny_def ddl_source_parts_def split: if_splits option.splits)
  have "ddl_source_parts ty info = ddl_source_parts ty' info'"
  proof (rule join_inj)
    show "join ''|'' (ddl_source_parts ty info) = join ''|'' (ddl_source_parts ty' info')" using i by simp
    show "\<forall>x \<in> set (ddl_source_parts ty info) \<union> set (ddl_source_parts ty' info'). CHR ''|'' \<notin> set x"
      using ddl_source_parts_plain[of info ty] ddl_source_parts_plain[of info' ty'] assms(3,4) by (metis Un_iff image_Un set_append)
  qed (simp_all add: ddl_source_parts_def)
  then show ?thesis by (auto simp: ddl_source_parts_def ddl_source_values_def editor_type_name_inj)
qed

definition example_view :: "string \<Rightarrow> ContentDiffBoundInfo" where
  "example_view name = \<lparr>bi_consoleId = None, bi_dataSourceId = Some 1, bi_databaseName = Some ''db'', bi_schemaName = None,
     bi_filePath = None, bi_viewName = Some name, bi_tableName = None, bi_functionName = None, bi_procedureName = None,
     bi_triggerName = None\<rparr>"

theorem ddl_source_id_identifies_witness:
  "ddl_source_values (example_view ''v'') = ddl_source_values (example_view ''v''\<lparr>bi_tableName := Some ''t''\<rparr>)"
proof -
  let ?v = "example_view ''v''"
  let ?w = "?v\<lparr>bi_tableName := Some ''t''\<rparr>"
  let ?i = "buildContentDiffDDLSourceId ViewEditor ?v"
  have e: "getContentDiffEligibility ViewEditor ?v True = Inr (EditableDDL, ?i)" by code_simp
  have e': "getContentDiffEligibility ViewEditor ?w True = Inr (EditableDDL, ?i)" by code_simp
  have "\<forall>v \<in> snd ` set (ddl_source_values ?v @ ddl_source_values ?w). CHR ''|'' \<notin> set v"
    "CHR ''|'' \<notin> set (getContentDiffDDLObjectName ViewEditor ?v) \<union> set (getContentDiffDDLObjectName ViewEditor ?w)"
    by code_simp+
  from ddl_source_id_identifies[OF e e' this] show ?thesis by blast
qed

text \<open>Texts are compared themselves: equal hashes of different texts do not hide a change.\<close>

lemma guard_enabled_iff:
  "tg_enabled (guardContentDiffTexts x y) \<longleftrightarrow>
     x \<noteq> y \<and> length x \<le> CONTENT_DIFF_MAX_TEXT_LENGTH \<and> length y \<le> CONTENT_DIFF_MAX_TEXT_LENGTH"
  by (auto simp: guardContentDiffTexts_def Let_def)

end
