(* ===== verification/Task_Merge.thy ===== *)
theory Task_Merge
  imports Js_Sort
begin

text \<open>
  The functions behind the task center of imports and exports, \<open>store/importExport/taskCenterUtils.ts\<close>:
  generations of list requests, paging, merging of task versions that arrive from several requests, and
  which completed tasks are announced.

  A date is a number of milliseconds or a text; what \<open>Date\<close> makes of a text is the parameter
  \<open>parseDate\<close> (\<open>None\<close> for an invalid date). A \<open>Map\<close> is an association list in insertion order.
\<close>

section \<open>Tasks\<close>

datatype ImportExportTaskStatus = PENDING | RUNNING | SUCCESS | FAILED | CANCELLED

datatype ImportExportTaskType = QUERY_RESULT_EXPORT | SQL_EXPORT | TABLE_DATA_EXPORT | DATA_FILE_IMPORT | SQL_FILE_IMPORT

datatype task_date = Millis int | DateText string

record task_target =
  tg_dataSourceId :: "int option"
  tg_tableName :: "string option"

record ImportExportTaskDetails =
  tk_id :: int
  tk_type :: ImportExportTaskType
  tk_status :: ImportExportTaskStatus
  tk_target :: "task_target option"
  tk_createdAt :: task_date
  tk_startedAt :: "task_date option"
  tk_finishedAt :: "task_date option"
  tk_updatedAt :: "task_date option"

type_synonym date_parser = "string \<Rightarrow> int option"

text \<open>\<open>new Date(d).getTime() || 0\<close>; a time value has at most \<open>8.64e15\<close> milliseconds.\<close>

fun time_of :: "date_parser \<Rightarrow> task_date \<Rightarrow> int" where
  "time_of parseDate (Millis n) = (if \<bar>n\<bar> \<le> 8640000000000000 then n else 0)"
| "time_of parseDate (DateText s) = the_default 0 (parseDate s)"

definition TERMINAL_TASK_STATUSES :: "ImportExportTaskStatus list" where
  "TERMINAL_TASK_STATUSES = [SUCCESS, FAILED, CANCELLED]"

definition IMPORT_TASK_TYPES :: "ImportExportTaskType list" where
  "IMPORT_TASK_TYPES = [DATA_FILE_IMPORT, SQL_FILE_IMPORT]"

definition ACTIVE_TASK_STATUSES :: "ImportExportTaskStatus list" where
  "ACTIVE_TASK_STATUSES = [PENDING, RUNNING]"

definition is_terminal :: "ImportExportTaskDetails \<Rightarrow> bool" where
  "is_terminal task \<longleftrightarrow> tk_status task \<in> set TERMINAL_TASK_STATUSES"

definition TASK_LIST_PAGE_SIZE :: int where "TASK_LIST_PAGE_SIZE = 100"
definition TASK_CENTER_PAGE_SIZE :: int where "TASK_CENTER_PAGE_SIZE = 10"
definition ACTIVE_TASK_POLL_INTERVAL :: int where "ACTIVE_TASK_POLL_INTERVAL = 1000"
definition FAILED_TASK_POLL_INTERVAL :: int where "FAILED_TASK_POLL_INTERVAL = 1500"

section \<open>Generations of list requests\<close>

record TaskListRequestCoordinator =
  co_stateGeneration :: int
  co_loadMoreRequestGeneration :: int

record TaskListLoadMoreRequest =
  lm_stateGeneration :: int
  lm_requestGeneration :: int

definition createTaskListRequestCoordinator :: TaskListRequestCoordinator where
  "createTaskListRequestCoordinator = \<lparr>co_stateGeneration = 0, co_loadMoreRequestGeneration = 0\<rparr>"

definition invalidateState :: "TaskListRequestCoordinator \<Rightarrow> TaskListRequestCoordinator" where
  "invalidateState co = co\<lparr>co_stateGeneration := co_stateGeneration co + 1\<rparr>"

definition beginLoadMoreRequest :: "TaskListRequestCoordinator \<Rightarrow> TaskListLoadMoreRequest \<times> TaskListRequestCoordinator" where
  "beginLoadMoreRequest co =
     (let co' = co\<lparr>co_loadMoreRequestGeneration := co_loadMoreRequestGeneration co + 1\<rparr>
      in (\<lparr>lm_stateGeneration = co_stateGeneration co', lm_requestGeneration = co_loadMoreRequestGeneration co'\<rparr>, co'))"

definition canApplyLoadMoreResponse :: "TaskListRequestCoordinator \<Rightarrow> TaskListLoadMoreRequest \<Rightarrow> bool" where
  "canApplyLoadMoreResponse co request \<longleftrightarrow>
     lm_stateGeneration request = co_stateGeneration co
     \<and> lm_requestGeneration request = co_loadMoreRequestGeneration co"

definition isLatestLoadMoreRequest :: "TaskListRequestCoordinator \<Rightarrow> TaskListLoadMoreRequest \<Rightarrow> bool" where
  "isLatestLoadMoreRequest co request \<longleftrightarrow> lm_requestGeneration request = co_loadMoreRequestGeneration co"

section \<open>Paging\<close>

record TaskPage =
  pg_data :: "ImportExportTaskDetails list option"
  pg_hasNextPage :: "bool option"

text \<open>
  The loop asks for pages until one has no successor, which depends on the server: \<open>None\<close> stands
  for a loop that does not end. A page that fails to load (\<open>Inl\<close>) rejects the whole request.
\<close>

partial_function (option) list_pages ::
    "(int \<Rightarrow> jsval + TaskPage) \<Rightarrow> int \<Rightarrow> ImportExportTaskDetails list \<Rightarrow> (jsval + ImportExportTaskDetails list) option" where
  "list_pages loadPage pageNo tasks =
     (case loadPage pageNo of
        Inl err \<Rightarrow> Some (Inl err)
      | Inr page \<Rightarrow>
          (let tasks' = tasks @ or_empty (pg_data page)
           in if pg_hasNextPage page = Some True then list_pages loadPage (pageNo + 1) tasks' else Some (Inr tasks')))"

definition listAllTasksByStatus ::
    "(int \<Rightarrow> int \<Rightarrow> ImportExportTaskStatus \<Rightarrow> jsval + TaskPage) \<Rightarrow> ImportExportTaskStatus \<Rightarrow> int
     \<Rightarrow> (jsval + ImportExportTaskDetails list) option" where
  "listAllTasksByStatus loadPage status pageSize = list_pages (\<lambda>pageNo. loadPage pageNo pageSize status) 1 []"

section \<open>Merging versions of tasks\<close>

definition taskUpdateTime :: "date_parser \<Rightarrow> ImportExportTaskDetails \<Rightarrow> int" where
  "taskUpdateTime parseDate task =
     time_of parseDate (case tk_updatedAt task of Some d \<Rightarrow> d | None \<Rightarrow>
       (case tk_finishedAt task of Some d \<Rightarrow> d | None \<Rightarrow>
         (case tk_startedAt task of Some d \<Rightarrow> d | None \<Rightarrow> tk_createdAt task)))"

text \<open>The early returns: an older version does not replace the one that is kept.\<close>

definition keeps_previous :: "date_parser \<Rightarrow> ImportExportTaskDetails \<Rightarrow> ImportExportTaskDetails \<Rightarrow> bool" where
  "keeps_previous parseDate previous task \<longleftrightarrow>
     (is_terminal previous \<and> \<not> is_terminal task)
     \<or> (is_terminal previous = is_terminal task \<and> taskUpdateTime parseDate task < taskUpdateTime parseDate previous)"

definition merge_task :: "date_parser \<Rightarrow> ImportExportTaskDetails \<Rightarrow> (int \<times> ImportExportTaskDetails) list
    \<Rightarrow> (int \<times> ImportExportTaskDetails) list" where
  "merge_task parseDate task tasksById =
     (case map_of tasksById (tk_id task) of
        Some previous \<Rightarrow> if keeps_previous parseDate previous task then tasksById
                         else AList.update (tk_id task) task tasksById
      | None \<Rightarrow> AList.update (tk_id task) task tasksById)"

definition compareCreated :: "date_parser \<Rightarrow> ImportExportTaskDetails \<Rightarrow> ImportExportTaskDetails \<Rightarrow> int" where
  "compareCreated parseDate left right = time_of parseDate (tk_createdAt right) - time_of parseDate (tk_createdAt left)"

definition mergeTasks :: "date_parser \<Rightarrow> ImportExportTaskDetails list list \<Rightarrow> ImportExportTaskDetails list" where
  "mergeTasks parseDate taskGroups =
     js_sort (compareCreated parseDate) (map snd (fold (merge_task parseDate) (concat taskGroups) []))"

text \<open>
  \<open>Promise.all\<close> over the details of the missing tasks: \<open>loadDetails\<close> gives a task, or \<open>None\<close> when
  the request fails.
\<close>

definition missing_task_ids :: "int list \<Rightarrow> ImportExportTaskDetails list \<Rightarrow> int list" where
  "missing_task_ids trackedTaskIds visibleTasks = filter (\<lambda>i. i \<notin> set (map tk_id visibleTasks)) trackedTaskIds"

definition loadMissingTrackedTasks ::
    "int list \<Rightarrow> ImportExportTaskDetails list \<Rightarrow> (int \<Rightarrow> ImportExportTaskDetails option)
     \<Rightarrow> ImportExportTaskDetails list \<times> int list" where
  "loadMissingTrackedTasks trackedTaskIds visibleTasks loadDetails =
     (let missingTaskIds = missing_task_ids trackedTaskIds visibleTasks;
          tasks = List.map_filter loadDetails missingTaskIds
      in (tasks, filter (\<lambda>i. i \<notin> set (map tk_id tasks)) missingTaskIds))"

section \<open>Announcing completed tasks\<close>

record TaskNotificationCursor =
  nc_createdAt :: int
  nc_taskId :: int

definition cursor_after :: "TaskNotificationCursor \<Rightarrow> TaskNotificationCursor option \<Rightarrow> bool" where
  "cursor_after c previous \<longleftrightarrow> (case previous of
      None \<Rightarrow> True
    | Some p \<Rightarrow> nc_createdAt c > nc_createdAt p \<or> (nc_createdAt c = nc_createdAt p \<and> nc_taskId c > nc_taskId p))"

record notification_update =
  nu_statuses :: "(string \<times> ImportExportTaskStatus) list"
  nu_newlyCompletedTaskIds :: "int list"
  nu_cursor :: "TaskNotificationCursor option"

text \<open>The body of the \<open>forEach\<close>.\<close>

definition notify_task :: "date_parser \<Rightarrow> (string \<times> ImportExportTaskStatus) list \<Rightarrow> bool \<Rightarrow> TaskNotificationCursor option
    \<Rightarrow> ImportExportTaskDetails \<Rightarrow> notification_update \<Rightarrow> notification_update" where
  "notify_task parseDate previousStatuses initialized previousCursor task u =
     (let taskId = string_of_int (tk_id task);
          previousStatus = map_of previousStatuses taskId;
          taskCursor = \<lparr>nc_createdAt = time_of parseDate (tk_createdAt task), nc_taskId = tk_id task\<rparr>;
          newly = initialized \<and> is_terminal task
            \<and> ((previousStatus = None \<and> cursor_after taskCursor previousCursor)
               \<or> (\<exists>s \<in> set_option previousStatus. s \<notin> set TERMINAL_TASK_STATUSES))
      in u\<lparr>nu_statuses := AList.update taskId (tk_status task) (nu_statuses u),
          nu_newlyCompletedTaskIds := nu_newlyCompletedTaskIds u @ (if newly then [tk_id task] else []),
          nu_cursor := (if cursor_after taskCursor (nu_cursor u) then Some taskCursor else nu_cursor u)\<rparr>)"

definition reconcileCompletedTaskNotifications ::
    "date_parser \<Rightarrow> (string \<times> ImportExportTaskStatus) list \<Rightarrow> ImportExportTaskDetails list \<Rightarrow> bool
     \<Rightarrow> TaskNotificationCursor option \<Rightarrow> notification_update" where
  "reconcileCompletedTaskNotifications parseDate previousStatuses tasks initialized previousCursor =
     fold (notify_task parseDate previousStatuses initialized previousCursor) tasks
       \<lparr>nu_statuses = [], nu_newlyCompletedTaskIds = [], nu_cursor = previousCursor\<rparr>"

section \<open>Events, polling and refreshing\<close>

record ImportExportTaskEvent =
  te_sequence :: int
  te_message :: string

definition mergeTaskEvents :: "ImportExportTaskEvent list \<Rightarrow> ImportExportTaskEvent list \<Rightarrow> ImportExportTaskEvent list" where
  "mergeTaskEvents currentEvents incomingEvents =
     js_sort (\<lambda>left right. te_sequence left - te_sequence right)
       (map snd (fold (\<lambda>event. AList.update (te_sequence event) event) (currentEvents @ incomingEvents) []))"

definition getTaskPollingDelay :: "nat \<Rightarrow> bool \<Rightarrow> int option" where
  "getTaskPollingDelay activeTaskCount failed =
     (if failed then Some FAILED_TASK_POLL_INTERVAL
      else if activeTaskCount > 0 then Some ACTIVE_TASK_POLL_INTERVAL else None)"

definition shouldKeepTaskPolling :: "bool \<Rightarrow> nat \<Rightarrow> bool" where
  "shouldKeepTaskPolling taskCenterOpen activeTaskCount \<longleftrightarrow> taskCenterOpen \<or> activeTaskCount > 0"

definition NON_RETRYABLE_POLLING_ERRORS :: "string list" where
  "NON_RETRYABLE_POLLING_ERRORS = [''common.needLoggedIn'', ''api.invalidTrial'', ''api.invalidDevice'',
     ''api.trialExpired'', ''api.licenseExpired'', ''ai.licenseNotSupported'']"

fun shouldRetryTaskPolling :: "jsval \<Rightarrow> bool" where
  "shouldRetryTaskPolling (Obj kvs) =
     (case map_of kvs ''errorCode'' of
        Some (Str errorCode) \<Rightarrow> errorCode \<notin> set NON_RETRYABLE_POLLING_ERRORS
      | _ \<Rightarrow> True)"
| "shouldRetryTaskPolling _ = True"

definition shouldRefreshImportTargetTable :: "ImportExportTaskDetails option \<Rightarrow> ImportExportTaskDetails \<Rightarrow> bool" where
  "shouldRefreshImportTargetTable previousTask currentTask =
     (if tk_type currentTask \<notin> set IMPORT_TASK_TYPES then False
      else if (case tk_target currentTask of None \<Rightarrow> True
               | Some t \<Rightarrow> the_default 0 (tg_dataSourceId t) = 0 \<or> \<not> truthy_str (tg_tableName t)) then False
      else if tk_status currentTask \<noteq> SUCCESS then False
      else case previousTask of
             Some p \<Rightarrow> if tk_id p \<noteq> tk_id currentTask then False else tk_status p \<noteq> SUCCESS
           | None \<Rightarrow> True)"

section \<open>The newest version is kept\<close>

text \<open>Versions of a task are ordered by whether they are final, then by the time of their update.\<close>

definition version_le :: "date_parser \<Rightarrow> ImportExportTaskDetails \<Rightarrow> ImportExportTaskDetails \<Rightarrow> bool" where
  "version_le pd t r \<longleftrightarrow> (\<not> is_terminal t \<and> is_terminal r)
     \<or> (is_terminal t = is_terminal r \<and> taskUpdateTime pd t \<le> taskUpdateTime pd r)"

lemma version_le_refl [simp]: "version_le pd t t"
  by (simp add: version_le_def)

lemma version_le_trans: "version_le pd a b \<Longrightarrow> version_le pd b c \<Longrightarrow> version_le pd a c"
  by (auto simp: version_le_def)

lemma keeps_previous_iff: "keeps_previous pd p t \<longleftrightarrow> \<not> version_le pd p t"
  by (auto simp: keeps_previous_def version_le_def)

lemma not_version_le: "\<not> version_le pd p t \<Longrightarrow> version_le pd t p"
  by (auto simp: version_le_def)

definition by_id :: "(int \<times> ImportExportTaskDetails) list \<Rightarrow> bool" where
  "by_id m \<longleftrightarrow> distinct (map fst m) \<and> (\<forall>k t. map_of m k = Some t \<longrightarrow> tk_id t = k)"

lemma merge_task_props:
  assumes "by_id m"
  shows "by_id (merge_task pd t m)" and "dom (map_of (merge_task pd t m)) = insert (tk_id t) (dom (map_of m))"
    and "map_of (merge_task pd t m) k = Some r \<Longrightarrow> r = t \<or> map_of m k = Some r"
    and "\<exists>r. map_of (merge_task pd t m) (tk_id t) = Some r \<and> version_le pd t r"
    and "map_of m k = Some p \<Longrightarrow> \<exists>r. map_of (merge_task pd t m) k = Some r \<and> version_le pd p r"
  using assms
  by (auto simp: merge_task_def by_id_def js_map.get_set keeps_previous_iff not_version_le distinct_update
      simp del: map_of_eq_Some_iff split: option.splits if_splits)

lemma fold_merge_props:
  assumes "by_id m"
  shows "by_id (fold (merge_task pd) ts m)"
    and "dom (map_of (fold (merge_task pd) ts m)) = tk_id ` set ts \<union> dom (map_of m)"
    and "map_of (fold (merge_task pd) ts m) k = Some r \<Longrightarrow> r \<in> set ts \<or> map_of m k = Some r"
    and "map_of m k = Some p \<Longrightarrow> \<exists>r. map_of (fold (merge_task pd) ts m) k = Some r \<and> version_le pd p r"
    and "t \<in> set ts \<Longrightarrow> \<exists>r. map_of (fold (merge_task pd) ts m) (tk_id t) = Some r \<and> version_le pd t r"
proof -
  have "by_id (fold (merge_task pd) ts m)
      \<and> dom (map_of (fold (merge_task pd) ts m)) = tk_id ` set ts \<union> dom (map_of m)
      \<and> (\<forall>k r. map_of (fold (merge_task pd) ts m) k = Some r \<longrightarrow> r \<in> set ts \<or> map_of m k = Some r)
      \<and> (\<forall>k p. map_of m k = Some p \<longrightarrow> (\<exists>r. map_of (fold (merge_task pd) ts m) k = Some r \<and> version_le pd p r))
      \<and> (\<forall>t \<in> set ts. \<exists>r. map_of (fold (merge_task pd) ts m) (tk_id t) = Some r \<and> version_le pd t r)"
    using assms
  proof (induction ts arbitrary: m)
    case (Cons t ts)
    note st = merge_task_props[OF Cons.prems, where pd = pd and t = t]
    note ih = Cons.IH[OF st(1)]
    have new: "\<exists>r. map_of (fold (merge_task pd) ts (merge_task pd t m)) (tk_id t) = Some r \<and> version_le pd t r"
      using st(4) ih by (meson version_le_trans)
    have old: "\<exists>r. map_of (fold (merge_task pd) ts (merge_task pd t m)) k = Some r \<and> version_le pd p r"
      if "map_of m k = Some p" for k p
      using st(5)[OF that] ih by (meson version_le_trans)
    show ?case using ih new old st(2,3) by (simp add: Un_assoc del: map_of_eq_Some_iff) blast
  qed simp
  then show "by_id (fold (merge_task pd) ts m)"
    "dom (map_of (fold (merge_task pd) ts m)) = tk_id ` set ts \<union> dom (map_of m)"
    "map_of (fold (merge_task pd) ts m) k = Some r \<Longrightarrow> r \<in> set ts \<or> map_of m k = Some r"
    "map_of m k = Some p \<Longrightarrow> \<exists>r. map_of (fold (merge_task pd) ts m) k = Some r \<and> version_le pd p r"
    "t \<in> set ts \<Longrightarrow> \<exists>r. map_of (fold (merge_task pd) ts m) (tk_id t) = Some r \<and> version_le pd t r"
    by blast+
qed

lemma by_id_values:
  assumes "by_id m"
  shows "distinct (map tk_id (map snd m))" and "set (map snd m) = ran (map_of m)"
proof -
  have "map (tk_id \<circ> snd) m = map fst m"
    using assms by (intro map_cong) (auto simp: by_id_def)
  moreover have "distinct (map fst m)" using assms by (simp add: by_id_def)
  ultimately show "distinct (map tk_id (map snd m))" by (metis map_map)
  show "set (map snd m) = ran (map_of m)" using assms by (simp add: by_id_def ran_distinct)
qed

interpretation created_cmp: comparator "compareCreated parseDate" "\<lambda>_. True" for parseDate
  by unfold_locales (auto simp: compareCreated_def)

text \<open>What the store relies on.\<close>

lemma mergeTasks_props:
  shows "distinct (map tk_id (mergeTasks pd gs))" and "tk_id ` set (mergeTasks pd gs) = tk_id ` set (concat gs)"
    and "set (mergeTasks pd gs) \<subseteq> set (concat gs)"
    and "t \<in> set (concat gs) \<Longrightarrow> \<exists>r \<in> set (mergeTasks pd gs). tk_id r = tk_id t \<and> version_le pd t r"
    and "sorted_wrt (\<lambda>a b. time_of pd (tk_createdAt a) \<ge> time_of pd (tk_createdAt b)) (mergeTasks pd gs)"
proof -
  let ?m = "fold (merge_task pd) (concat gs) []"
  have m0: "by_id []" by (simp add: by_id_def)
  note fm = fold_merge_props[OF m0, where pd = pd and ts = "concat gs"]
  note v = by_id_values[OF fm(1)]
  have ms: "mset (mergeTasks pd gs) = mset (map snd ?m)" by (simp add: mergeTasks_def)
  show "distinct (map tk_id (mergeTasks pd gs))"
    using v(1) ms by (metis distinct_map mset_eq_imp_distinct_iff mset_eq_setD mset_map)
  have st: "set (mergeTasks pd gs) = ran (map_of ?m)" using v(2) ms by (metis mset_eq_setD)
  show sub: "set (mergeTasks pd gs) \<subseteq> set (concat gs)"
    unfolding st using fm(3) by (auto simp: ran_def simp del: map_of_eq_Some_iff)
  show all: "\<exists>r \<in> set (mergeTasks pd gs). tk_id r = tk_id t \<and> version_le pd t r" if "t \<in> set (concat gs)" for t
    using fm(5)[OF that] fm(1) unfolding st by (auto simp: ran_def by_id_def simp del: map_of_eq_Some_iff)
  show "tk_id ` set (mergeTasks pd gs) = tk_id ` set (concat gs)" 
    using image_mono[OF sub, of tk_id] all by (metis (no_types, lifting) image_subset_iff rev_image_eqI subset_antisym)
  show "sorted_wrt (\<lambda>a b. time_of pd (tk_createdAt a) \<ge> time_of pd (tk_createdAt b)) (mergeTasks pd gs)"
    using created_cmp.sorted_sort[where parseDate = pd and xs = "map snd ?m"] by (simp add: mergeTasks_def compareCreated_def)
qed

text \<open>
  Merging keeps the newest version of every task. Whatever versions of tasks arrive from
  different requests and in whatever order, the merged list has every task once, newest creation
  first, and each in a version that arrived and that none of the others supersedes: a finished task is never
  shown as running again, and among equally final versions the latest update wins.
\<close>
theorem merge_keeps_newest_version:
  assumes "r \<in> set (mergeTasks parseDate taskGroups)" and "t \<in> set (concat taskGroups)" and "tk_id t = tk_id r"
  shows "distinct (map tk_id (mergeTasks parseDate taskGroups)) \<and> r \<in> set (concat taskGroups)
    \<and> \<not> (is_terminal t \<and> \<not> is_terminal r)
    \<and> (is_terminal t \<noteq> is_terminal r \<or> taskUpdateTime parseDate t \<le> taskUpdateTime parseDate r)
    \<and> sorted_wrt (\<lambda>a b. time_of parseDate (tk_createdAt a) \<ge> time_of parseDate (tk_createdAt b))
        (mergeTasks parseDate taskGroups)"
proof -
  obtain r' where r': "r' \<in> set (mergeTasks parseDate taskGroups)" "tk_id r' = tk_id t" "version_le parseDate t r'"
    using mergeTasks_props(4)[OF assms(2)] by blast
  have "r' = r"
    using r'(1,2) assms(1,3) mergeTasks_props(1)[of parseDate taskGroups] by (metis distinct_map inj_onD)
  then show ?thesis using r' assms(1) mergeTasks_props(1,3,5)[of parseDate taskGroups] by (auto simp: version_le_def)
qed

definition example_task :: "int \<Rightarrow> ImportExportTaskStatus \<Rightarrow> int \<Rightarrow> ImportExportTaskDetails" where
  "example_task i s n = \<lparr>tk_id = i, tk_type = SQL_EXPORT, tk_status = s, tk_target = None, tk_createdAt = Millis 1,
     tk_startedAt = None, tk_finishedAt = None, tk_updatedAt = Some (Millis n)\<rparr>"

theorem merge_keeps_newest_version_witness:
  "\<not> (is_terminal (example_task 7 SUCCESS 2) \<and> \<not> is_terminal (example_task 7 SUCCESS 2))
   \<and> example_task 7 SUCCESS 2 \<in> set (mergeTasks (\<lambda>_. None) [[example_task 7 SUCCESS 2], [example_task 7 RUNNING 3]])"
proof -
  let ?g = "[[example_task 7 SUCCESS 2], [example_task 7 RUNNING 3]]"
  have "example_task 7 SUCCESS 2 \<in> set (mergeTasks (\<lambda>_. None) ?g)" by code_simp
  moreover have "example_task 7 RUNNING 3 \<in> set (concat ?g)" by simp
  ultimately show ?thesis
    using merge_keeps_newest_version[of "example_task 7 SUCCESS 2" "\<lambda>_. None" ?g "example_task 7 RUNNING 3"]
    by (simp add: example_task_def)
qed

text \<open>
  Listing all tasks ends if the server ends. If one page fails or says that there is no next
  one, the loop over the pages returns: an error exactly if a page before that failed, and
  otherwise the tasks of all pages, in order.
\<close>
theorem listing_ends:
  assumes "\<And>n. n < last_page \<Longrightarrow> \<exists>p. loadPage (1 + int n) pageSize status = Inr p \<and> pg_hasNextPage p = Some True"
    and "\<And>p. loadPage (1 + int last_page) pageSize status = Inr p \<Longrightarrow> pg_hasNextPage p \<noteq> Some True"
  shows "listAllTasksByStatus loadPage status pageSize
    = Some (case loadPage (1 + int last_page) pageSize status of
        Inl err \<Rightarrow> Inl err
      | Inr _ \<Rightarrow> Inr (concat (map (\<lambda>n. case loadPage (1 + int n) pageSize status of Inr p \<Rightarrow> or_empty (pg_data p) | Inl _ \<Rightarrow> [])
          [0..<Suc last_page])))"
proof -
  let ?load = "\<lambda>n. loadPage n pageSize status"
  let ?data = "\<lambda>n. case ?load (1 + int n) of Inr p \<Rightarrow> or_empty (pg_data p) | Inl _ \<Rightarrow> []"
  have "list_pages ?load (1 + int k) ts
      = Some (case ?load (1 + int last_page) of Inl err \<Rightarrow> Inl err | Inr _ \<Rightarrow> Inr (ts @ concat (map ?data [k..<Suc last_page])))"
    if "k \<le> last_page" for k ts
    using that
  proof (induction "last_page - k" arbitrary: k ts)
    case 0
    then show ?case using assms(2) by (subst list_pages.simps) (auto split: sum.splits)
  next
    case (Suc d)
    then have k: "k < last_page" by simp
    then obtain p where p: "?load (1 + int k) = Inr p" "pg_hasNextPage p = Some True" using assms(1) by blast
    have "list_pages ?load (1 + int k) ts = list_pages ?load (1 + int (Suc k)) (ts @ or_empty (pg_data p))"
      using p by (subst list_pages.simps) (simp add: add.commute)
    also have "\<dots> = Some (case ?load (1 + int last_page) of Inl err \<Rightarrow> Inl err
        | Inr _ \<Rightarrow> Inr ((ts @ or_empty (pg_data p)) @ concat (map ?data [Suc k..<Suc last_page])))"
      using Suc k by (intro Suc.hyps(1)) auto
    finally show ?case
      using p k upt_conv_Cons[of k "Suc last_page"] by (simp del: upt_Suc split: sum.split)
  qed
  from this[of 0 "[]"] show ?thesis by (simp add: listAllTasksByStatus_def split: sum.split)
qed

definition example_pages :: "int \<Rightarrow> int \<Rightarrow> ImportExportTaskStatus \<Rightarrow> jsval + TaskPage" where
  "example_pages n pageSize status = Inr \<lparr>pg_data = Some [example_task n status 0], pg_hasNextPage = Some (n < 2)\<rparr>"

theorem listing_ends_witness:
  "listAllTasksByStatus example_pages RUNNING 100 = Some (Inr [example_task 1 RUNNING 0, example_task 2 RUNNING 0])"
  using listing_ends[of 1 example_pages 100 RUNNING] by (simp add: example_pages_def)

section \<open>What is announced\<close>

definition is_newly :: "date_parser \<Rightarrow> (string \<times> ImportExportTaskStatus) list \<Rightarrow> bool \<Rightarrow> TaskNotificationCursor option
    \<Rightarrow> ImportExportTaskDetails \<Rightarrow> bool" where
  "is_newly pd statuses initialized cursor t \<longleftrightarrow> initialized \<and> is_terminal t
     \<and> (case map_of statuses (string_of_int (tk_id t)) of
          None \<Rightarrow> cursor_after \<lparr>nc_createdAt = time_of pd (tk_createdAt t), nc_taskId = tk_id t\<rparr> cursor
        | Some s \<Rightarrow> s \<notin> set TERMINAL_TASK_STATUSES)"

lemma notify_task_simps:
  "nu_newlyCompletedTaskIds (notify_task pd ps ini pc t u)
     = nu_newlyCompletedTaskIds u @ (if is_newly pd ps ini pc t then [tk_id t] else [])"
  "nu_statuses (notify_task pd ps ini pc t u) = AList.update (string_of_int (tk_id t)) (tk_status t) (nu_statuses u)"
  by (auto simp: notify_task_def is_newly_def Let_def split: option.splits)

lemma notify_fold:
  "nu_newlyCompletedTaskIds (fold (notify_task pd ps ini pc) ts u)
     = nu_newlyCompletedTaskIds u @ map tk_id (filter (is_newly pd ps ini pc) ts)"
  "distinct (map tk_id ts) \<Longrightarrow> t \<in> set ts
     \<Longrightarrow> map_of (nu_statuses (fold (notify_task pd ps ini pc) ts u)) (string_of_int (tk_id t)) = Some (tk_status t)"
  "i \<notin> tk_id ` set ts \<Longrightarrow> map_of (nu_statuses (fold (notify_task pd ps ini pc) ts u)) (string_of_int i)
     = map_of (nu_statuses u) (string_of_int i)"
proof -
  show "nu_newlyCompletedTaskIds (fold (notify_task pd ps ini pc) ts u)
      = nu_newlyCompletedTaskIds u @ map tk_id (filter (is_newly pd ps ini pc) ts)" for u
    by (induction ts arbitrary: u) (auto simp: notify_task_simps)
  show other: "i \<notin> tk_id ` set ts \<Longrightarrow> map_of (nu_statuses (fold (notify_task pd ps ini pc) ts u)) (string_of_int i)
      = map_of (nu_statuses u) (string_of_int i)" for i ts u
    by (induction ts arbitrary: u) (auto simp: notify_task_simps js_map.get_set)
  show "distinct (map tk_id ts) \<Longrightarrow> t \<in> set ts
      \<Longrightarrow> map_of (nu_statuses (fold (notify_task pd ps ini pc) ts u)) (string_of_int (tk_id t)) = Some (tk_status t)"
  proof (induction ts arbitrary: u)
    case (Cons t' ts)
    then show ?case
      using other[of "tk_id t" ts "notify_task pd ps ini pc t' u"]
      by (auto simp: notify_task_simps js_map.get_set)
  qed simp
qed

lemma notifications_props:
  shows "nu_newlyCompletedTaskIds (reconcileCompletedTaskNotifications pd ps ts ini pc) = map tk_id (filter (is_newly pd ps ini pc) ts)"
    and "distinct (map tk_id ts) \<Longrightarrow> t \<in> set ts
      \<Longrightarrow> map_of (nu_statuses (reconcileCompletedTaskNotifications pd ps ts ini pc)) (string_of_int (tk_id t)) = Some (tk_status t)"
    and "i \<notin> tk_id ` set ts \<Longrightarrow> map_of (nu_statuses (reconcileCompletedTaskNotifications pd ps ts ini pc)) (string_of_int i) = None"
  unfolding reconcileCompletedTaskNotifications_def by (simp_all add: notify_fold)

end
