(* ===== verification/Task_Center.thy ===== *)
theory Task_Center
  imports Task_Merge
begin

text \<open>
  The store of the task center, \<open>store/importExport/index.ts\<close>: it polls the list of tasks while some
  are active, announces completed tasks, and loads further pages on demand.

  The state of the store, the module variables beside it, and the requests under way form one
  record. A request goes through two waits, for the pages and for the details of tasks that
  are tracked but not listed; its continuation is an entry of \<open>tc_requests\<close>. What happens to the store is a
  \<open>task_input\<close>: a call of an action, the answer to a request, or the timer. A timer is its delay;
  \<open>tc_announced\<close> records the task ids announced, oldest first, and \<open>tc_removed\<close> the ids removed.
\<close>

section \<open>State\<close>

record ListRequest =
  rq_generation :: int
  rq_previousActiveTaskIds :: "int list"
  rq_visible :: "(bool \<times> ImportExportTaskDetails list) option"

record LoadMore =
  lq_request :: TaskListLoadMoreRequest
  lq_nextPageSize :: int

record TaskCenter =
  tc_runSqlBoundInfo :: jsval
  tc_importExportDataBoundInfo :: jsval
  tc_taskList :: "ImportExportTaskDetails list"
  tc_taskListPageSize :: int
  tc_taskListHasNextPage :: bool
  tc_taskListLoadingMore :: bool
  tc_getTaskListTimer :: "int option"
  tc_activeTaskCount :: nat
  tc_logModalTaskId :: "int option"
  tc_unreadCompletedTaskCount :: nat
  tc_unreadCompletedTaskIds :: "int list"
  tc_taskCenterOpen :: bool
  tc_taskNotificationsInitialized :: bool
  tc_taskNotificationCursor :: "TaskNotificationCursor option"
  tc_taskStatusById :: "(string \<times> ImportExportTaskStatus) list"
  tc_activeTaskIds :: "int list"
  tc_taskListRequestGeneration :: int
  tc_coordinator :: TaskListRequestCoordinator
  tc_requests :: "ListRequest list"
  tc_loadMores :: "LoadMore list"
  tc_announced :: "int list"
  tc_removed :: "int list"

definition initial_task_center :: TaskCenter where
  "initial_task_center = \<lparr>tc_runSqlBoundInfo = Null, tc_importExportDataBoundInfo = Null, tc_taskList = [],
     tc_taskListPageSize = TASK_CENTER_PAGE_SIZE, tc_taskListHasNextPage = False, tc_taskListLoadingMore = False,
     tc_getTaskListTimer = None, tc_activeTaskCount = 0, tc_logModalTaskId = None, tc_unreadCompletedTaskCount = 0,
     tc_unreadCompletedTaskIds = [], tc_taskCenterOpen = False, tc_taskNotificationsInitialized = False,
     tc_taskNotificationCursor = None, tc_taskStatusById = [], tc_activeTaskIds = [], tc_taskListRequestGeneration = 0,
     tc_coordinator = createTaskListRequestCoordinator, tc_requests = [], tc_loadMores = [], tc_announced = [],
     tc_removed = []\<rparr>"

section \<open>Polling\<close>

definition getTaskList :: "TaskCenter \<Rightarrow> TaskCenter" where
  "getTaskList st =
     (let requestGeneration = tc_taskListRequestGeneration st + 1
      in st\<lparr>tc_taskListRequestGeneration := requestGeneration, tc_getTaskListTimer := None,
           tc_requests := tc_requests st @ [\<lparr>rq_generation = requestGeneration,
             rq_previousActiveTaskIds = tc_activeTaskIds st, rq_visible = None\<rparr>]\<rparr>)"

text \<open>The requests under way without the one that has been answered: its continuation has run.\<close>

definition drop_answered :: "nat \<Rightarrow> 'a list \<Rightarrow> 'a list" where
  "drop_answered i xs = take i xs @ drop (Suc i) xs"

text \<open>The three lists have arrived; the details of missing tasks are asked for next.\<close>

definition pagesArrived :: "date_parser \<Rightarrow> nat \<Rightarrow> TaskPage \<Rightarrow> ImportExportTaskDetails list \<Rightarrow> ImportExportTaskDetails list
    \<Rightarrow> TaskCenter \<Rightarrow> TaskCenter" where
  "pagesArrived parseDate i recentPage pendingTasks runningTasks st =
     (if i \<ge> length (tc_requests st) \<or> rq_visible (tc_requests st ! i) \<noteq> None then st
      else let r = tc_requests st ! i
      in if rq_generation r \<noteq> tc_taskListRequestGeneration st then st\<lparr>tc_requests := drop_answered i (tc_requests st)\<rparr>
         else
           let activeTasks = mergeTasks parseDate [pendingTasks, runningTasks];
               visibleTasks = mergeTasks parseDate [or_empty (pg_data recentPage), activeTasks]
           in st\<lparr>tc_requests := (tc_requests st)[i := r\<lparr>rq_visible :=
                Some (pg_hasNextPage recentPage = Some True, visibleTasks)\<rparr>]\<rparr>)"

text \<open>The first promise of the request is rejected.\<close>

definition listFailed :: "nat \<Rightarrow> jsval \<Rightarrow> TaskCenter \<Rightarrow> TaskCenter" where
  "listFailed i err st =
     (if i \<ge> length (tc_requests st) \<or> rq_visible (tc_requests st ! i) \<noteq> None then st
      else
        let r = tc_requests st ! i; st' = st\<lparr>tc_requests := drop_answered i (tc_requests st)\<rparr>
        in if rq_generation r \<noteq> tc_taskListRequestGeneration st then st'
           else st'\<lparr>tc_getTaskListTimer :=
             (if shouldRetryTaskPolling err \<and> shouldKeepTaskPolling (tc_taskCenterOpen st) (length (tc_activeTaskIds st))
              then getTaskPollingDelay 0 True else None)\<rparr>)"

text \<open>The details have arrived: the new state of the store.\<close>

definition applyTaskList :: "date_parser \<Rightarrow> bool \<Rightarrow> ImportExportTaskDetails list \<Rightarrow> ImportExportTaskDetails list \<times> int list
    \<Rightarrow> TaskCenter \<Rightarrow> TaskCenter" where
  "applyTaskList parseDate recentHasNextPage visibleTasks recovered st =
     (let taskList = mergeTasks parseDate [tc_taskList st, visibleTasks, fst recovered];
          activeTaskIds = map tk_id (filter (\<lambda>t. tk_status t \<in> set ACTIVE_TASK_STATUSES) taskList)
            @ filter (\<lambda>i. i \<notin> set (map tk_id taskList)) (snd recovered);
          update = reconcileCompletedTaskNotifications parseDate (tc_taskStatusById st) taskList
            (tc_taskNotificationsInitialized st) (tc_taskNotificationCursor st);
          unread = (if tc_taskCenterOpen st then []
            else uniq (tc_unreadCompletedTaskIds st @ nu_newlyCompletedTaskIds update))
      in st\<lparr>tc_activeTaskCount := length activeTaskIds, tc_taskList := taskList,
           tc_taskListHasNextPage := (if tc_taskListPageSize st = TASK_CENTER_PAGE_SIZE then recentHasNextPage
             else tc_taskListHasNextPage st),
           tc_unreadCompletedTaskCount := length unread, tc_unreadCompletedTaskIds := unread,
           tc_taskNotificationsInitialized := True, tc_taskNotificationCursor := nu_cursor update,
           tc_taskStatusById := nu_statuses update, tc_activeTaskIds := activeTaskIds,
           tc_getTaskListTimer := getTaskPollingDelay (length activeTaskIds) False,
           tc_announced := tc_announced st @ nu_newlyCompletedTaskIds update\<rparr>)"

definition detailsArrived :: "date_parser \<Rightarrow> nat \<Rightarrow> (int \<Rightarrow> ImportExportTaskDetails option) \<Rightarrow> TaskCenter \<Rightarrow> TaskCenter" where
  "detailsArrived parseDate i loadDetails st =
     (if i \<ge> length (tc_requests st) then st
      else case rq_visible (tc_requests st ! i) of
        None \<Rightarrow> st
      | Some (recentHasNextPage, visibleTasks) \<Rightarrow>
          let r = tc_requests st ! i; st' = st\<lparr>tc_requests := drop_answered i (tc_requests st)\<rparr>
          in if rq_generation r \<noteq> tc_taskListRequestGeneration st then st'
             else applyTaskList parseDate recentHasNextPage visibleTasks
               (loadMissingTrackedTasks (rq_previousActiveTaskIds r) visibleTasks loadDetails) st')"

definition timerFired :: "TaskCenter \<Rightarrow> TaskCenter" where
  "timerFired st = (if tc_getTaskListTimer st = None then st else getTaskList st)"

section \<open>Further pages\<close>

definition loadMoreTasks :: "TaskCenter \<Rightarrow> TaskCenter" where
  "loadMoreTasks st =
     (if \<not> tc_taskListHasNextPage st \<or> tc_taskListLoadingMore st then st
      else
        let (request, co) = beginLoadMoreRequest (tc_coordinator st)
        in st\<lparr>tc_coordinator := co, tc_taskListLoadingMore := True,
             tc_loadMores := tc_loadMores st @
               [\<lparr>lq_request = request, lq_nextPageSize = tc_taskListPageSize st + TASK_CENTER_PAGE_SIZE\<rparr>]\<rparr>)"

text \<open>\<open>page\<close> is the answer, or \<open>None\<close> if the request fails; \<open>finally\<close> runs in both cases.\<close>

definition loadMoreArrived :: "date_parser \<Rightarrow> nat \<Rightarrow> TaskPage option \<Rightarrow> TaskCenter \<Rightarrow> TaskCenter" where
  "loadMoreArrived parseDate i page st =
     (if i \<ge> length (tc_loadMores st) then st
      else
        let q = tc_loadMores st ! i;
            st1 = st\<lparr>tc_loadMores := drop_answered i (tc_loadMores st)\<rparr>;
            st2 = (case page of
                None \<Rightarrow> st1
              | Some p \<Rightarrow>
                  if \<not> canApplyLoadMoreResponse (tc_coordinator st) (lq_request q) then st1
                  else st1\<lparr>tc_taskList := mergeTasks parseDate [or_empty (pg_data p), tc_taskList st],
                         tc_taskListPageSize := lq_nextPageSize q,
                         tc_taskListHasNextPage := pg_hasNextPage p = Some True\<rparr>)
        in if isLatestLoadMoreRequest (tc_coordinator st) (lq_request q) then st2\<lparr>tc_taskListLoadingMore := False\<rparr> else st2)"

section \<open>Other actions\<close>

definition stopTaskListPolling :: "TaskCenter \<Rightarrow> TaskCenter" where
  "stopTaskListPolling st = st\<lparr>tc_taskListRequestGeneration := tc_taskListRequestGeneration st + 1,
     tc_coordinator := invalidateState (tc_coordinator st), tc_getTaskListTimer := None, tc_taskListLoadingMore := False\<rparr>"

definition removeTask :: "int \<Rightarrow> TaskCenter \<Rightarrow> TaskCenter" where
  "removeTask taskId st =
     (let unread = filter (\<lambda>i. i \<noteq> taskId) (tc_unreadCompletedTaskIds st)
      in st\<lparr>tc_taskListRequestGeneration := tc_taskListRequestGeneration st + 1,
           tc_coordinator := invalidateState (tc_coordinator st),
           tc_taskList := filter (\<lambda>t. tk_id t \<noteq> taskId) (tc_taskList st),
           tc_taskListPageSize := max TASK_CENTER_PAGE_SIZE (tc_taskListPageSize st - 1),
           tc_taskListLoadingMore := False, tc_unreadCompletedTaskIds := unread,
           tc_unreadCompletedTaskCount := length unread,
           tc_taskStatusById := AList.delete (string_of_int taskId) (tc_taskStatusById st),
           tc_activeTaskIds := filter (\<lambda>i. i \<noteq> taskId) (tc_activeTaskIds st),
           tc_removed := tc_removed st @ [taskId]\<rparr>)"

definition openLogModal :: "int option \<Rightarrow> TaskCenter \<Rightarrow> TaskCenter" where
  "openLogModal taskId st = st\<lparr>tc_logModalTaskId := taskId\<rparr>"

definition setRunSqlBoundInfo :: "jsval \<Rightarrow> TaskCenter \<Rightarrow> TaskCenter" where
  "setRunSqlBoundInfo info st = st\<lparr>tc_runSqlBoundInfo := info\<rparr>"

definition setImportExportDataBoundInfo :: "jsval \<Rightarrow> TaskCenter \<Rightarrow> TaskCenter" where
  "setImportExportDataBoundInfo info st = st\<lparr>tc_importExportDataBoundInfo := info\<rparr>"

definition setTaskCenterOpen :: "bool \<Rightarrow> TaskCenter \<Rightarrow> TaskCenter" where
  "setTaskCenterOpen isOpen st =
     (let idle = \<not> isOpen \<and> tc_activeTaskIds st = []
      in st\<lparr>tc_coordinator := (if isOpen then tc_coordinator st else invalidateState (tc_coordinator st)),
           tc_taskListRequestGeneration := tc_taskListRequestGeneration st + (if idle then 1 else 0),
           tc_taskCenterOpen := isOpen,
           tc_taskListLoadingMore := (if isOpen then tc_taskListLoadingMore st else False),
           tc_unreadCompletedTaskCount := (if isOpen then 0 else tc_unreadCompletedTaskCount st),
           tc_unreadCompletedTaskIds := (if isOpen then [] else tc_unreadCompletedTaskIds st),
           tc_getTaskListTimer := (if idle then None else tc_getTaskListTimer st)\<rparr>)"

section \<open>Runs\<close>

datatype task_input =
    GetTaskList
  | PagesArrived nat TaskPage "ImportExportTaskDetails list" "ImportExportTaskDetails list"
  | ListFailed nat jsval
  | DetailsArrived nat "int \<Rightarrow> ImportExportTaskDetails option"
  | TimerFired
  | LoadMore
  | LoadMoreArrived nat "TaskPage option"
  | StopPolling
  | RemoveTask int
  | OpenLogModal "int option"
  | SetRunSql jsval
  | SetImportExport jsval
  | SetOpen bool

fun task_step :: "date_parser \<Rightarrow> TaskCenter \<Rightarrow> task_input \<Rightarrow> TaskCenter" where
  "task_step pd st GetTaskList = getTaskList st"
| "task_step pd st (PagesArrived i recent pending running) = pagesArrived pd i recent pending running st"
| "task_step pd st (ListFailed i err) = listFailed i err st"
| "task_step pd st (DetailsArrived i loadDetails) = detailsArrived pd i loadDetails st"
| "task_step pd st TimerFired = timerFired st"
| "task_step pd st LoadMore = loadMoreTasks st"
| "task_step pd st (LoadMoreArrived i page) = loadMoreArrived pd i page st"
| "task_step pd st StopPolling = stopTaskListPolling st"
| "task_step pd st (RemoveTask i) = removeTask i st"
| "task_step pd st (OpenLogModal i) = openLogModal i st"
| "task_step pd st (SetRunSql info) = setRunSqlBoundInfo info st"
| "task_step pd st (SetImportExport info) = setImportExportDataBoundInfo info st"
| "task_step pd st (SetOpen b) = setTaskCenterOpen b st"

definition task_run :: "date_parser \<Rightarrow> task_input list \<Rightarrow> TaskCenter" where
  "task_run pd inputs = foldl (task_step pd) initial_task_center inputs"

section \<open>Finished tasks stay finished\<close>

definition finished_ids :: "TaskCenter \<Rightarrow> int set" where
  "finished_ids st = tk_id ` {t \<in> set (tc_taskList st). is_terminal t}"

lemma merge_finished:
  assumes "t \<in> set (concat gs)" "is_terminal t"
  shows "tk_id t \<in> tk_id ` {t \<in> set (mergeTasks pd gs). is_terminal t}"
proof -
  obtain r where "r \<in> set (mergeTasks pd gs)" "tk_id r = tk_id t" "version_le pd t r"
    using mergeTasks_props(4)[OF assms(1)] by blast
  then show ?thesis using assms(2) by (metis (mono_tags, lifting) imageI mem_Collect_eq version_le_def)
qed

lemma merge_finished_group:
  "i \<in> tk_id ` {t \<in> set ts. is_terminal t} \<Longrightarrow> ts \<in> set gs \<Longrightarrow> i \<in> tk_id ` {t \<in> set (mergeTasks pd gs). is_terminal t}"
  using merge_finished[of _ gs pd] by fastforce

lemmas task_ops = getTaskList_def pagesArrived_def listFailed_def detailsArrived_def applyTaskList_def timerFired_def
  loadMoreTasks_def loadMoreArrived_def stopTaskListPolling_def removeTask_def openLogModal_def setRunSqlBoundInfo_def
  setImportExportDataBoundInfo_def setTaskCenterOpen_def Let_def

text \<open>Where the list of tasks comes from.\<close>

lemma taskList_step:
  "tc_taskList (task_step pd st inp) = tc_taskList st
   \<or> (\<exists>gs. tc_taskList (task_step pd st inp) = mergeTasks pd gs \<and> tc_taskList st \<in> set gs)
   \<or> (\<exists>i. inp = RemoveTask i \<and> tc_taskList (task_step pd st inp) = filter (\<lambda>t. tk_id t \<noteq> i) (tc_taskList st))"
proof (cases inp)
  case (DetailsArrived i loadDetails)
  then show ?thesis
    by (simp add: detailsArrived_def applyTaskList_def Let_def split: option.splits) (metis list.set_intros(1))
next
  case (LoadMoreArrived i page)
  then show ?thesis by (simp add: loadMoreArrived_def Let_def split: option.splits) (metis list.set_intros)
qed (auto simp: task_ops split: prod.splits)

interpretation finished_machine: guarded_machine "task_step pd" "\<lambda>st. i \<in> finished_ids st" "\<lambda>inp. inp \<noteq> RemoveTask i" for pd i
proof unfold_locales
  fix st inp assume a: "i \<in> finished_ids st" "inp \<noteq> RemoveTask i"
  consider "tc_taskList (task_step pd st inp) = tc_taskList st"
    | gs where "tc_taskList (task_step pd st inp) = mergeTasks pd gs" "tc_taskList st \<in> set gs"
    | j where "j \<noteq> i" "tc_taskList (task_step pd st inp) = filter (\<lambda>t. tk_id t \<noteq> j) (tc_taskList st)"
    using taskList_step[of pd st inp] a(2) by blast
  then show "i \<in> finished_ids (task_step pd st inp)"
  proof cases
    case 2
    then show ?thesis using a(1) merge_finished_group[of i "tc_taskList st" gs pd] by (simp add: finished_ids_def)
  qed (use a(1) in \<open>auto simp: finished_ids_def\<close>)
qed

text \<open>
  C17: A finished task stays finished. Once the task center shows a task as succeeded, failed or
  cancelled, it keeps showing it so, whatever answers of slow or repeated requests arrive later
  and in whatever order, until the task is removed.
\<close>
theorem finished_task_stays_finished:
  assumes "t \<in> set (tc_taskList (task_run pd inputs))" and "is_terminal t" and "RemoveTask (tk_id t) \<notin> set later"
  shows "\<exists>t' \<in> set (tc_taskList (task_run pd (inputs @ later))). tk_id t' = tk_id t \<and> is_terminal t'"
proof -
  have "tk_id t \<in> finished_ids (task_run pd inputs)" using assms(1,2) by (auto simp: finished_ids_def)
  then have "tk_id t \<in> finished_ids (foldl (task_step pd) (task_run pd inputs) later)"
    using assms(3) by (intro finished_machine.allowed_run_keeps) auto
  then show ?thesis by (auto simp: finished_ids_def task_run_def)
qed

definition example_run :: "task_input list" where
  "example_run = [GetTaskList, PagesArrived 0 \<lparr>pg_data = Some [example_task 7 RUNNING 1], pg_hasNextPage = None\<rparr> [] [],
     DetailsArrived 0 (\<lambda>_. None), TimerFired,
     PagesArrived 0 \<lparr>pg_data = Some [example_task 7 SUCCESS 2], pg_hasNextPage = None\<rparr> [] [], DetailsArrived 0 (\<lambda>_. None)]"

definition example_later :: "task_input list" where
  "example_later = [GetTaskList, PagesArrived 0 \<lparr>pg_data = None, pg_hasNextPage = None\<rparr> [] [example_task 7 RUNNING 3],
     DetailsArrived 0 (\<lambda>_. None)]"

lemma example_run_list: "tc_taskList (task_run (\<lambda>_. None) example_run) = [example_task 7 SUCCESS 2]"
  by code_simp

theorem finished_task_stays_finished_witness:
  "\<exists>t' \<in> set (tc_taskList (task_run (\<lambda>_. None) (example_run @ example_later))). tk_id t' = 7 \<and> is_terminal t'"
  using finished_task_stays_finished[of "example_task 7 SUCCESS 2" "\<lambda>_. None" example_run example_later]
  by (simp add: example_run_list example_later_def example_task_def is_terminal_def TERMINAL_TASK_STATUSES_def)

section \<open>Every completion is announced once\<close>

definition announced_ok :: "TaskCenter \<Rightarrow> bool" where
  "announced_ok st \<longleftrightarrow> distinct (filter (\<lambda>i. i \<notin> set (tc_removed st)) (tc_announced st))
     \<and> (\<forall>i \<in> set (tc_announced st) - set (tc_removed st). i \<in> finished_ids st
          \<and> (\<exists>s \<in> set TERMINAL_TASK_STATUSES. map_of (tc_taskStatusById st) (string_of_int i) = Some s))"

definition unread_ok :: "TaskCenter \<Rightarrow> bool" where
  "unread_ok st \<longleftrightarrow> tc_unreadCompletedTaskCount st = length (tc_unreadCompletedTaskIds st)
     \<and> distinct (tc_unreadCompletedTaskIds st) \<and> set (tc_unreadCompletedTaskIds st) \<subseteq> set (tc_announced st)
     \<and> (tc_taskCenterOpen st \<longrightarrow> tc_unreadCompletedTaskIds st = [])"

definition tasks_ok :: "TaskCenter \<Rightarrow> bool" where
  "tasks_ok st \<longleftrightarrow> distinct (map tk_id (tc_taskList st)) \<and> announced_ok st \<and> unread_ok st"

lemma tasks_ok_apply:
  assumes "tasks_ok st"
  shows "tasks_ok (applyTaskList pd hasNext visible recovered st)"
proof -
  let ?st = "applyTaskList pd hasNext visible recovered st"
  let ?tl = "mergeTasks pd [tc_taskList st, visible, fst recovered]"
  let ?newly = "is_newly pd (tc_taskStatusById st) (tc_taskNotificationsInitialized st) (tc_taskNotificationCursor st)"
  have tl: "tc_taskList ?st = ?tl" "distinct (map tk_id ?tl)" "tc_removed ?st = tc_removed st"
    by (simp_all add: applyTaskList_def Let_def mergeTasks_props)
  have ann: "tc_announced ?st = tc_announced st @ map tk_id (filter ?newly ?tl)"
    by (simp add: applyTaskList_def Let_def notifications_props)
  have status: "map_of (tc_taskStatusById ?st) (string_of_int (tk_id t)) = Some (tk_status t)" if "t \<in> set ?tl" for t
    using that tl(2) by (simp add: applyTaskList_def Let_def notifications_props)
  have old: "i \<in> finished_ids ?st" if "i \<in> finished_ids st" for i
    using that merge_finished_group[of i "tc_taskList st" "[tc_taskList st, visible, fst recovered]" pd]
    by (simp add: finished_ids_def tl)
  have fin: "\<exists>s \<in> set TERMINAL_TASK_STATUSES. map_of (tc_taskStatusById ?st) (string_of_int i) = Some s"
    if "i \<in> finished_ids ?st" for i
    using that status by (auto simp: finished_ids_def tl is_terminal_def)
  have new: "i \<in> finished_ids ?st" if "i \<in> tk_id ` set (filter ?newly ?tl)" for i
    using that by (auto simp: finished_ids_def tl is_newly_def)
  have fresh: "i \<notin> tk_id ` set (filter ?newly ?tl)" if "i \<in> set (tc_announced st) - set (tc_removed st)" for i
  proof -
    have "\<exists>s \<in> set TERMINAL_TASK_STATUSES. map_of (tc_taskStatusById st) (string_of_int i) = Some s"
      using that assms by (simp add: tasks_ok_def announced_ok_def)
    then show ?thesis by (auto simp: is_newly_def)
  qed
  have "distinct (map tk_id (filter ?newly ?tl))" using tl(2) by (rule distinct_map_filter)
  then have "distinct (filter (\<lambda>i. i \<notin> set (tc_removed st)) (tc_announced ?st))"
    using assms fresh unfolding ann by (auto simp: tasks_ok_def announced_ok_def)
  moreover have "i \<in> finished_ids ?st" if "i \<in> set (tc_announced ?st) - set (tc_removed st)" for i
  proof (cases "i \<in> set (tc_announced st)")
    case True
    then show ?thesis using that assms old by (simp add: tasks_ok_def announced_ok_def)
  next
    case False
    then show ?thesis using that new[of i] unfolding ann by simp
  qed
  ultimately have "announced_ok ?st" using fin by (simp add: announced_ok_def tl(3))
  moreover have "unread_ok ?st"
    using assms by (auto simp: tasks_ok_def unread_ok_def applyTaskList_def Let_def)
  ultimately show ?thesis using tl by (simp add: tasks_ok_def)
qed

text \<open>A merged list keeps what was announced.\<close>

lemma tasks_ok_merge:
  assumes "tasks_ok st" "tc_taskList st \<in> set gs"
  shows "tasks_ok (st\<lparr>tc_taskList := mergeTasks pd gs\<rparr>)"
  using assms merge_finished_group[OF _ assms(2), where pd = pd] mergeTasks_props(1)[of pd gs]
  by (simp add: tasks_ok_def announced_ok_def unread_ok_def finished_ids_def)

lemma distinct_filter_both: "distinct (filter P xs) \<Longrightarrow> distinct (filter P (filter Q xs))"
  by (induction xs) auto

lemma tasks_ok_remove: "tasks_ok st \<Longrightarrow> tasks_ok (removeTask k st)"
  by (auto simp: tasks_ok_def announced_ok_def unread_ok_def finished_ids_def removeTask_def Let_def js_map.get_delete
      distinct_map_filter distinct_filter_both simp flip: filter_filter)

text \<open>The parts of the state the invariant looks at.\<close>

lemma tasks_ok_cong:
  assumes "tasks_ok st" "tc_taskList st' = tc_taskList st" "tc_announced st' = tc_announced st"
    "tc_removed st' = tc_removed st" "tc_taskStatusById st' = tc_taskStatusById st"
    "tc_unreadCompletedTaskCount st' = tc_unreadCompletedTaskCount st"
    "tc_unreadCompletedTaskIds st' = tc_unreadCompletedTaskIds st" "tc_taskCenterOpen st' = tc_taskCenterOpen st"
  shows "tasks_ok st'"
  using assms by (simp add: tasks_ok_def announced_ok_def unread_ok_def finished_ids_def)

lemma tasks_ok_loadMore: "tasks_ok st \<Longrightarrow> tasks_ok (loadMoreArrived pd i page st)"
proof -
  assume ok: "tasks_ok st"
  have "tc_taskList (loadMoreArrived pd i page st) = tc_taskList st
      \<or> (\<exists>x. tc_taskList (loadMoreArrived pd i page st) = mergeTasks pd [x, tc_taskList st])"
    by (cases page) (auto simp: loadMoreArrived_def Let_def)
  then consider "tc_taskList (loadMoreArrived pd i page st) = tc_taskList st"
    | x where "tc_taskList (loadMoreArrived pd i page st) = mergeTasks pd [x, tc_taskList st]" by blast
  then show ?thesis
  proof cases
    case 1
    then show ?thesis using ok by (elim tasks_ok_cong) (auto simp: loadMoreArrived_def Let_def split: option.splits)
  next
    case 2
    have "tasks_ok (st\<lparr>tc_taskList := mergeTasks pd [x, tc_taskList st]\<rparr>)"
      by (rule tasks_ok_merge[OF ok]) simp
    then show ?thesis using 2 by (elim tasks_ok_cong) (auto simp: loadMoreArrived_def Let_def split: option.splits)
  qed
qed

lemma tasks_ok_open: "tasks_ok st \<Longrightarrow> tasks_ok (setTaskCenterOpen b st)"
  by (simp add: tasks_ok_def announced_ok_def unread_ok_def finished_ids_def setTaskCenterOpen_def Let_def)

lemma tasks_ok_details: "tasks_ok st \<Longrightarrow> tasks_ok (detailsArrived pd i loadDetails st)"
  by (auto simp: detailsArrived_def Let_def intro!: tasks_ok_apply elim: tasks_ok_cong split: option.splits)

lemma tasks_ok_quiet:
  assumes "tasks_ok st"
  shows "tasks_ok (getTaskList st)" "tasks_ok (pagesArrived pd i recent pending running st)" "tasks_ok (listFailed i err st)"
    "tasks_ok (timerFired st)" "tasks_ok (loadMoreTasks st)" "tasks_ok (stopTaskListPolling st)" "tasks_ok (openLogModal k st)"
    "tasks_ok (setRunSqlBoundInfo info st)" "tasks_ok (setImportExportDataBoundInfo info st)"
  by (rule tasks_ok_cong[OF assms]; simp add: task_ops split: prod.splits)+

interpretation announce_machine: input_machine "task_step pd" tasks_ok for pd
proof unfold_locales
  fix st inp assume "tasks_ok st"
  then show "tasks_ok (task_step pd st inp)"
    by (cases inp) (simp_all add: tasks_ok_remove tasks_ok_loadMore tasks_ok_open tasks_ok_details tasks_ok_quiet)
qed

text \<open>
  C32: Every completion is announced once. In every run, a task is announced as completed at most
  once (unless it was removed from the list in between), only tasks that are shown as finished
  are announced, and the badge counts exactly the announced tasks that the user has not seen, each once.
\<close>
theorem completions_announced_once:
  "distinct (filter (\<lambda>i. i \<notin> set (tc_removed (task_run pd inputs))) (tc_announced (task_run pd inputs)))
   \<and> set (tc_announced (task_run pd inputs)) - set (tc_removed (task_run pd inputs)) \<subseteq> finished_ids (task_run pd inputs)
   \<and> tc_unreadCompletedTaskCount (task_run pd inputs) = card (set (tc_unreadCompletedTaskIds (task_run pd inputs)))
   \<and> set (tc_unreadCompletedTaskIds (task_run pd inputs)) \<subseteq> set (tc_announced (task_run pd inputs))"
proof -
  have "tasks_ok initial_task_center"
    by (simp add: tasks_ok_def announced_ok_def unread_ok_def initial_task_center_def)
  then have "tasks_ok (task_run pd inputs)" unfolding task_run_def by (rule announce_machine.run_keeps)
  then show ?thesis by (auto simp: tasks_ok_def announced_ok_def unread_ok_def distinct_card)
qed

section \<open>Polling goes on\<close>

definition current_request :: "TaskCenter \<Rightarrow> bool" where
  "current_request st \<longleftrightarrow> (\<exists>r \<in> set (tc_requests st). rq_generation r = tc_taskListRequestGeneration st)"

definition polling_ok :: "TaskCenter \<Rightarrow> bool" where
  "polling_ok st \<longleftrightarrow> tc_activeTaskIds st = [] \<or> tc_getTaskListTimer st \<noteq> None \<or> current_request st"

text \<open>What ends the polling on purpose, or restarts it elsewhere.\<close>

fun ends_polling :: "task_input \<Rightarrow> bool" where
  "ends_polling StopPolling = True"
| "ends_polling (RemoveTask i) = True"
| "ends_polling (ListFailed i err) = (\<not> shouldRetryTaskPolling err)"
| "ends_polling _ = False"

lemma current_drop_answered:
  "rq_generation (tc_requests st ! i) \<noteq> tc_taskListRequestGeneration st \<Longrightarrow> current_request st
   \<Longrightarrow> current_request (st\<lparr>tc_requests := drop_answered i (tc_requests st)\<rparr>)"
  unfolding current_request_def drop_answered_def
  by (simp add: set_append) (metis Un_iff append_take_drop_id id_take_nth_drop list.set_intros(2) not_le
      drop_answered_def set_ConsD set_append drop_all take_all append_Nil2)

lemma polling_ok_requests:
  "polling_ok st \<Longrightarrow> polling_ok (getTaskList st)"
  "polling_ok st \<Longrightarrow> polling_ok (pagesArrived pd i recent pending running st)"
  "polling_ok st \<Longrightarrow> shouldRetryTaskPolling err \<Longrightarrow> polling_ok (listFailed i err st)"
  "polling_ok st \<Longrightarrow> polling_ok (detailsArrived pd i loadDetails st)"
proof -
  show "polling_ok (getTaskList st)" by (simp add: polling_ok_def current_request_def getTaskList_def Let_def)
  assume ok: "polling_ok st"
  have drop: "polling_ok (st\<lparr>tc_requests := drop_answered i (tc_requests st)\<rparr>)"
    if "rq_generation (tc_requests st ! i) \<noteq> tc_taskListRequestGeneration st"
    using ok current_drop_answered[OF that] by (auto simp: polling_ok_def)
  show "polling_ok (pagesArrived pd i recent pending running st)"
  proof (cases "i < length (tc_requests st) \<and> rq_generation (tc_requests st ! i) = tc_taskListRequestGeneration st")
    case True
    then have "current_request (st\<lparr>tc_requests := (tc_requests st)[i := (tc_requests st ! i)\<lparr>rq_visible := v\<rparr>]\<rparr>)" for v
      by (auto simp: current_request_def intro!: bexI[of _ "(tc_requests st ! i)\<lparr>rq_visible := v\<rparr>"] set_update_memI)
    then show ?thesis using True ok by (simp add: pagesArrived_def Let_def polling_ok_def)
  qed (use ok drop in \<open>auto simp: pagesArrived_def Let_def\<close>)
  show "polling_ok (detailsArrived pd i loadDetails st)"
    using ok drop by (auto simp: detailsArrived_def applyTaskList_def polling_ok_def getTaskPollingDelay_def Let_def
        split: option.splits)
  assume "shouldRetryTaskPolling err"
  then show "polling_ok (listFailed i err st)"
    using ok drop by (auto simp: listFailed_def polling_ok_def getTaskPollingDelay_def shouldKeepTaskPolling_def Let_def)
qed

lemma polling_ok_others:
  assumes "polling_ok st"
  shows "polling_ok (loadMoreTasks st)" "polling_ok (loadMoreArrived pd i page st)" "polling_ok (openLogModal k st)"
    "polling_ok (setRunSqlBoundInfo info st)" "polling_ok (setImportExportDataBoundInfo info st)" "polling_ok (setTaskCenterOpen b st)"
  using assms by (auto simp: polling_ok_def current_request_def task_ops split: prod.splits option.splits)

interpretation polling_machine: guarded_machine "task_step pd" polling_ok "\<lambda>inp. \<not> ends_polling inp" for pd
proof unfold_locales
  fix st inp assume "polling_ok st" "\<not> ends_polling inp"
  then show "polling_ok (task_step pd st inp)"
    by (cases inp) (simp_all add: polling_ok_requests polling_ok_others timerFired_def)
qed

text \<open>
  Active tasks are polled until they end. As long as polling is not stopped, no task is
  removed and no request fails for a reason that makes retrying pointless, whenever the
  store tracks an active task the timer for the next request is set or a request is under
  way whose answer will be used: no stale answer, failure, page load or opening and closing of the task center
  silences it.
\<close>
theorem polling_continues:
  assumes "\<forall>inp \<in> set inputs. \<not> ends_polling inp" and "tc_activeTaskIds (task_run pd inputs) \<noteq> []"
  shows "(\<exists>t. tc_getTaskListTimer (task_run pd inputs) = Some t)
    \<or> (\<exists>r \<in> set (tc_requests (task_run pd inputs)). rq_generation r = tc_taskListRequestGeneration (task_run pd inputs))"
proof -
  have "polling_ok initial_task_center" by (simp add: polling_ok_def initial_task_center_def)
  then have "polling_ok (task_run pd inputs)"
    unfolding task_run_def using assms(1) by (rule polling_machine.allowed_run_keeps)
  then show ?thesis using assms(2) by (simp add: polling_ok_def current_request_def)
qed

theorem polling_continues_witness:
  "(\<exists>t. tc_getTaskListTimer (task_run (\<lambda>_. None) (take 3 example_run)) = Some t)
   \<or> (\<exists>r \<in> set (tc_requests (task_run (\<lambda>_. None) (take 3 example_run))).
        rq_generation r = tc_taskListRequestGeneration (task_run (\<lambda>_. None) (take 3 example_run)))"
proof (rule polling_continues)
  show "\<forall>inp \<in> set (take 3 example_run). \<not> ends_polling inp" by (simp add: example_run_def)
  show "tc_activeTaskIds (task_run (\<lambda>_. None) (take 3 example_run)) \<noteq> []" by code_simp
qed

end
