(* ===== verification/Editor_Close.thy ===== *)
theory Editor_Close
  imports Js_Prelude
begin

text \<open>
  What has to happen before editors are closed, \<open>utils/editorCloseGuard.ts\<close>: pending saves are
  awaited, then the user decides about every editor with unsaved changes; on exit of the
  application some editors persist themselves instead.

  The methods of an editor and the user's decision belong to the environment. Their outcome
  may depend on everything that happened before: they are functions of the history, a list of
  \<open>close_event\<close>s, oldest first. \<open>Inl\<close> is a rejected promise, which rejects the whole operation; a missing method is \<open>None\<close>.
\<close>

section \<open>Editors and tabs\<close>

datatype EditorCloseDecision = SaveIt | SavedIt | DiscardIt | CancelIt

datatype close_event =
    Waited string
  | Asked string EditorCloseDecision
  | SaveCalled string bool
  | PersistCalled string bool

type_synonym history = "close_event list"

record EditorCloseGuardRef =
  eg_hasUnsavedChangesBeforeClose :: "(history \<Rightarrow> bool) option"
  eg_saveBeforeClose :: "(history \<Rightarrow> jsval + bool) option"
  eg_waitForPendingSave :: "(history \<Rightarrow> jsval option) option"
  eg_persistBeforeApplicationExit :: "(history \<Rightarrow> jsval + bool) option"

record guarded_tab =
  gt_id :: string
  gt_type :: string
  gt_filePreviewMimeType :: "string option"

type_synonym EditorCloseGuardMap = "(string \<times> EditorCloseGuardRef) list"
type_synonym decider = "guarded_tab \<Rightarrow> history \<Rightarrow> jsval + EditorCloseDecision"

definition requiresEditorCloseGuard :: "guarded_tab \<Rightarrow> bool" where
  "requiresEditorCloseGuard tab \<longleftrightarrow> gt_type tab = ''console''
     \<or> (gt_type tab = ''LocalSQLFile'' \<and> \<not> truthy_str (gt_filePreviewMimeType tab))"

definition isEditorCloseConfirmationEnabled :: "bool option \<Rightarrow> bool" where
  "isEditorCloseConfirmationEnabled confirmBeforeClose = the_default True confirmBeforeClose"

section \<open>Waiting and asking\<close>

fun waitForPendingEditorTabs :: "guarded_tab list \<Rightarrow> EditorCloseGuardMap \<Rightarrow> history \<Rightarrow> history \<times> (jsval + bool)" where
  "waitForPendingEditorTabs [] editorList h = (h, Inr True)"
| "waitForPendingEditorTabs (tab # tabs) editorList h =
     (case map_of editorList (gt_id tab) of
        None \<Rightarrow> if requiresEditorCloseGuard tab then (h, Inr False) else waitForPendingEditorTabs tabs editorList h
      | Some editor \<Rightarrow>
          (case eg_waitForPendingSave editor of
             None \<Rightarrow> waitForPendingEditorTabs tabs editorList h
           | Some wait \<Rightarrow>
               (case wait h of
                  Some err \<Rightarrow> (h, Inl err)
                | None \<Rightarrow> waitForPendingEditorTabs tabs editorList (h @ [Waited (gt_id tab)]))))"

definition has_unsaved :: "EditorCloseGuardRef \<Rightarrow> history \<Rightarrow> bool" where
  "has_unsaved editor h = (case eg_hasUnsavedChangesBeforeClose editor of None \<Rightarrow> False | Some f \<Rightarrow> f h)"

fun confirmDirtyEditorTabsAfterPending ::
    "guarded_tab list \<Rightarrow> EditorCloseGuardMap \<Rightarrow> decider \<Rightarrow> history \<Rightarrow> history \<times> (jsval + bool)" where
  "confirmDirtyEditorTabsAfterPending [] editorList requestDecision h = (h, Inr True)"
| "confirmDirtyEditorTabsAfterPending (tab # tabs) editorList requestDecision h =
     (case map_of editorList (gt_id tab) of
        None \<Rightarrow> confirmDirtyEditorTabsAfterPending tabs editorList requestDecision h
      | Some editor \<Rightarrow>
          if \<not> has_unsaved editor h then confirmDirtyEditorTabsAfterPending tabs editorList requestDecision h
          else
            (case requestDecision tab h of
               Inl err \<Rightarrow> (h, Inl err)
             | Inr decision \<Rightarrow>
                 let h1 = h @ [Asked (gt_id tab) decision]
                 in (case decision of
                       CancelIt \<Rightarrow> (h1, Inr False)
                     | SaveIt \<Rightarrow>
                         (case eg_saveBeforeClose editor of
                            None \<Rightarrow> (h1, Inr False)
                          | Some save \<Rightarrow>
                              (case save h1 of
                                 Inl err \<Rightarrow> (h1, Inl err)
                               | Inr ok \<Rightarrow>
                                   let h2 = h1 @ [SaveCalled (gt_id tab) ok]
                                   in if \<not> ok then (h2, Inr False)
                                      else confirmDirtyEditorTabsAfterPending tabs editorList requestDecision h2))
                     | _ \<Rightarrow> confirmDirtyEditorTabsAfterPending tabs editorList requestDecision h1)))"

definition confirmDirtyEditorTabs ::
    "guarded_tab list \<Rightarrow> EditorCloseGuardMap \<Rightarrow> decider \<Rightarrow> history \<Rightarrow> history \<times> (jsval + bool)" where
  "confirmDirtyEditorTabs tabs editorList requestDecision h =
     (case waitForPendingEditorTabs tabs editorList h of
        (h1, Inl err) \<Rightarrow> (h1, Inl err)
      | (h1, Inr False) \<Rightarrow> (h1, Inr False)
      | (h1, Inr True) \<Rightarrow> confirmDirtyEditorTabsAfterPending tabs editorList requestDecision h1)"

text \<open>The loop over the editors that persist themselves; the tabs left over need a confirmation.\<close>

fun persistEditors :: "guarded_tab list \<Rightarrow> EditorCloseGuardMap \<Rightarrow> history \<Rightarrow> guarded_tab list
    \<Rightarrow> history \<times> (jsval + guarded_tab list option)" where
  "persistEditors [] editorList h rest = (h, Inr (Some rest))"
| "persistEditors (tab # tabs) editorList h rest =
     (case map_of editorList (gt_id tab) of
        Some editor \<Rightarrow>
          (case eg_persistBeforeApplicationExit editor of
             Some persist \<Rightarrow>
               (case persist h of
                  Inl err \<Rightarrow> (h, Inl err)
                | Inr ok \<Rightarrow>
                    let h1 = h @ [PersistCalled (gt_id tab) ok]
                    in if \<not> ok then (h1, Inr None) else persistEditors tabs editorList h1 rest)
           | None \<Rightarrow> persistEditors tabs editorList h (rest @ [tab]))
      | None \<Rightarrow> persistEditors tabs editorList h (rest @ [tab]))"

definition prepareEditorsForApplicationExit ::
    "guarded_tab list \<Rightarrow> EditorCloseGuardMap \<Rightarrow> decider \<Rightarrow> bool \<Rightarrow> history \<Rightarrow> history \<times> (jsval + bool)" where
  "prepareEditorsForApplicationExit tabs editorList requestDecision confirmDirtyEditors h =
     (case waitForPendingEditorTabs tabs editorList h of
        (h1, Inl err) \<Rightarrow> (h1, Inl err)
      | (h1, Inr False) \<Rightarrow> (h1, Inr False)
      | (h1, Inr True) \<Rightarrow>
          (case persistEditors tabs editorList h1 [] of
             (h2, Inl err) \<Rightarrow> (h2, Inl err)
           | (h2, Inr None) \<Rightarrow> (h2, Inr False)
           | (h2, Inr (Some rest)) \<Rightarrow>
               if \<not> confirmDirtyEditors then (h2, Inr True)
               else confirmDirtyEditorTabsAfterPending rest editorList requestDecision h2))"

section \<open>Nothing is lost silently\<close>

text \<open>Where an editor stands when it may be closed, looking back from the history \<open>h\<close> to its beginning \<open>start\<close>.\<close>

definition settled_editor :: "history \<Rightarrow> string \<Rightarrow> EditorCloseGuardRef \<Rightarrow> history \<Rightarrow> bool" where
  "settled_editor start i editor h \<longleftrightarrow> (\<exists>h0. prefix start h0 \<and> prefix h0 h \<and> (\<not> has_unsaved editor h0
      \<or> prefix (h0 @ [Asked i DiscardIt]) h \<or> prefix (h0 @ [Asked i SavedIt]) h
      \<or> prefix (h0 @ [Asked i SaveIt, SaveCalled i True]) h))"

definition persisted_editor :: "string \<Rightarrow> history \<Rightarrow> bool" where
  "persisted_editor i h \<longleftrightarrow> PersistCalled i True \<in> set h"

lemma settled_earlier: "settled_editor start i e h \<Longrightarrow> prefix start' start \<Longrightarrow> settled_editor start' i e h"
  unfolding settled_editor_def by (meson prefix_order.trans)

lemma wait_prefix: "waitForPendingEditorTabs tabs es h = (h', r) \<Longrightarrow> prefix h h'"
  by (induction tabs es h rule: waitForPendingEditorTabs.induct)
    (auto split: option.splits if_splits dest: append_prefixD)

lemma wait_guarded:
  "waitForPendingEditorTabs tabs es h = (h', Inr True) \<Longrightarrow> tab \<in> set tabs \<Longrightarrow> map_of es (gt_id tab) = None
   \<Longrightarrow> \<not> requiresEditorCloseGuard tab"
  by (induction tabs es h rule: waitForPendingEditorTabs.induct) (auto split: option.splits if_splits)

lemma confirm_prefix: "confirmDirtyEditorTabsAfterPending tabs es d h = (h', r) \<Longrightarrow> prefix h h'"
proof (induction tabs arbitrary: h)
  case (Cons tab tabs)
  then show ?case
    by (auto simp: Let_def split: option.splits if_splits sum.splits EditorCloseDecision.splits dest!: Cons.IH dest: append_prefixD)
qed simp

lemma confirm_settles:
  "confirmDirtyEditorTabsAfterPending tabs es d h = (h', Inr True) \<Longrightarrow> tab \<in> set tabs
   \<Longrightarrow> map_of es (gt_id tab) = Some e \<Longrightarrow> settled_editor h (gt_id tab) e h'"
proof (induction tabs arbitrary: h)
  case (Cons tab' tabs)
  show ?case
  proof (cases "gt_id tab' = gt_id tab")
    case False
    then show ?thesis using Cons.prems
      by (auto simp: Let_def split: option.splits if_splits sum.splits EditorCloseDecision.splits
          dest!: Cons.IH intro: settled_earlier)
  next
    case True
    then have m: "map_of es (gt_id tab') = Some e" using Cons.prems by simp
    show ?thesis
    proof (cases "has_unsaved e h")
      case False
      then have "confirmDirtyEditorTabsAfterPending tabs es d h = (h', Inr True)" using Cons.prems(1) m by simp
      then show ?thesis using False confirm_prefix unfolding settled_editor_def by blast
    next
      case dirty: True
      then obtain h1 where h1: "confirmDirtyEditorTabsAfterPending tabs es d h1 = (h', Inr True)"
          "h1 = h @ [Asked (gt_id tab) DiscardIt] \<or> h1 = h @ [Asked (gt_id tab) SavedIt]
            \<or> h1 = h @ [Asked (gt_id tab) SaveIt, SaveCalled (gt_id tab) True]"
        using Cons.prems(1) m True by (auto simp: Let_def split: option.splits if_splits sum.splits EditorCloseDecision.splits)
      then have "prefix h1 h'" using confirm_prefix by blast
      moreover from this have "prefix h h'" using h1(2) by (auto dest: append_prefixD)
      ultimately show ?thesis using h1(2) unfolding settled_editor_def by (intro exI[of _ h]) auto
    qed
  qed
qed simp

lemma persist_prefix: "persistEditors tabs es h rest = (h', r) \<Longrightarrow> prefix h h'"
proof (induction tabs arbitrary: h rest)
  case (Cons tab tabs)
  then show ?case
    by (auto simp: Let_def split: option.splits if_splits sum.splits dest!: Cons.IH dest: append_prefixD)
qed simp

lemma persist_settles:
  "persistEditors tabs es h rest = (h', Inr (Some rest')) \<Longrightarrow> tab \<in> set tabs
   \<Longrightarrow> persisted_editor (gt_id tab) h' \<or> tab \<in> set rest'"
  "persistEditors tabs es h rest = (h', Inr (Some rest')) \<Longrightarrow> set rest \<subseteq> set rest'"
proof -
  show keep: "persistEditors tabs es h rest = (h', Inr (Some rest')) \<Longrightarrow> set rest \<subseteq> set rest'" for tabs h rest
    by (induction tabs arbitrary: h rest) (fastforce simp: Let_def split: option.splits if_splits sum.splits)+
  show "persistEditors tabs es h rest = (h', Inr (Some rest')) \<Longrightarrow> tab \<in> set tabs
      \<Longrightarrow> persisted_editor (gt_id tab) h' \<or> tab \<in> set rest'"
  proof (induction tabs arbitrary: h rest)
    case (Cons tab' tabs)
    show ?case
    proof (cases "tab = tab'")
      case False
      then show ?thesis using Cons by (auto simp: Let_def split: option.splits if_splits sum.splits)
    next
      case True
      consider h1 where "persistEditors tabs es h1 rest = (h', Inr (Some rest'))" "h1 = h @ [PersistCalled (gt_id tab) True]"
        | "persistEditors tabs es h (rest @ [tab]) = (h', Inr (Some rest'))"
        using Cons.prems(1) True by (auto simp: Let_def split: option.splits if_splits sum.splits)
      then show ?thesis
      proof cases
        case 1
        then have "prefix (h @ [PersistCalled (gt_id tab) True]) h'" using persist_prefix by blast
        then show ?thesis by (auto simp: persisted_editor_def prefix_def)
      next
        case 2
        then show ?thesis using keep[OF 2] by auto
      qed
    qed
  qed simp
qed

lemma wait_waited:
  "waitForPendingEditorTabs tabs es h = (h', Inr True) \<Longrightarrow> tab \<in> set tabs \<Longrightarrow> map_of es (gt_id tab) = Some e
   \<Longrightarrow> eg_waitForPendingSave e \<noteq> None \<Longrightarrow> Waited (gt_id tab) \<in> set h'"
proof (induction tabs arbitrary: h)
  case (Cons tab' tabs)
  show ?case
  proof (cases "tab' = tab")
    case True
    with Cons.prems have "waitForPendingEditorTabs tabs es (h @ [Waited (gt_id tab)]) = (h', Inr True)"
      by (auto split: option.splits)
    then show ?thesis using wait_prefix by (fastforce simp: prefix_def)
  next
    case False
    with Cons show ?thesis by (auto split: option.splits if_splits)
  qed
qed simp

lemma persist_persisted:
  "persistEditors tabs es h rest = (h', Inr (Some rest')) \<Longrightarrow> tab \<in> set tabs \<Longrightarrow> map_of es (gt_id tab) = Some e
   \<Longrightarrow> eg_persistBeforeApplicationExit e \<noteq> None \<Longrightarrow> persisted_editor (gt_id tab) h'"
proof (induction tabs arbitrary: h rest)
  case (Cons tab' tabs)
  show ?case
  proof (cases "tab' = tab")
    case True
    with Cons.prems have "persistEditors tabs es (h @ [PersistCalled (gt_id tab) True]) rest = (h', Inr (Some rest'))"
      by (auto simp: Let_def split: option.splits sum.splits if_splits)
    from persist_prefix[OF this] show ?thesis by (auto simp: persisted_editor_def prefix_def)
  next
    case False
    with Cons show ?thesis by (auto simp: Let_def split: option.splits if_splits sum.splits)
  qed
qed simp

text \<open>What an approved exit has done, with or without the confirmation of the user.\<close>

lemma approved_exit_prepares:
  assumes tab: "tab \<in> set tabs" and p: "prepareEditorsForApplicationExit tabs editors decide confirm h = (h', Inr True)"
  shows "map_of editors (gt_id tab) = None \<Longrightarrow> \<not> requiresEditorCloseGuard tab"
    and "map_of editors (gt_id tab) = Some e \<Longrightarrow> eg_waitForPendingSave e \<noteq> None \<Longrightarrow> Waited (gt_id tab) \<in> set h'"
    and "map_of editors (gt_id tab) = Some e \<Longrightarrow> eg_persistBeforeApplicationExit e \<noteq> None \<Longrightarrow> persisted_editor (gt_id tab) h'"
proof -
  obtain h1 where w: "waitForPendingEditorTabs tabs editors h = (h1, Inr True)"
    using p by (auto simp: prepareEditorsForApplicationExit_def split: prod.splits sum.splits bool.splits)
  obtain h2 rest where r: "persistEditors tabs editors h1 [] = (h2, Inr (Some rest))"
      "h2 = h' \<or> confirmDirtyEditorTabsAfterPending rest editors decide h2 = (h', Inr True)"
    using p w by (auto simp: prepareEditorsForApplicationExit_def split: prod.splits sum.splits option.splits if_splits)
  have "prefix h1 h2" "prefix h2 h'" using persist_prefix[OF r(1)] r(2) confirm_prefix by blast+
  then have later: "set h1 \<subseteq> set h'" "set h2 \<subseteq> set h'" by (auto simp: prefix_def)
  show "map_of editors (gt_id tab) = None \<Longrightarrow> \<not> requiresEditorCloseGuard tab" by (rule wait_guarded[OF w tab])
  show "map_of editors (gt_id tab) = Some e \<Longrightarrow> eg_waitForPendingSave e \<noteq> None \<Longrightarrow> Waited (gt_id tab) \<in> set h'"
    using wait_waited[OF w tab] later by blast
  show "map_of editors (gt_id tab) = Some e \<Longrightarrow> eg_persistBeforeApplicationExit e \<noteq> None \<Longrightarrow> persisted_editor (gt_id tab) h'"
    using persist_persisted[OF r(1) tab] later by (auto simp: persisted_editor_def)
qed

lemma approved_exit_settles:
  assumes tab: "tab \<in> set tabs" and p: "prepareEditorsForApplicationExit tabs editors decide True h = (h', Inr True)"
  shows "case map_of editors (gt_id tab) of
      None \<Rightarrow> \<not> requiresEditorCloseGuard tab
    | Some editor \<Rightarrow> settled_editor h (gt_id tab) editor h' \<or> persisted_editor (gt_id tab) h'"
proof -
  obtain h1 where w: "waitForPendingEditorTabs tabs editors h = (h1, Inr True)"
    using p by (auto simp: prepareEditorsForApplicationExit_def split: prod.splits sum.splits bool.splits)
  obtain h2 rest where r: "persistEditors tabs editors h1 [] = (h2, Inr (Some rest))"
      "confirmDirtyEditorTabsAfterPending rest editors decide h2 = (h', Inr True)"
    using p w by (auto simp: prepareEditorsForApplicationExit_def split: prod.splits sum.splits option.splits)
  show ?thesis
  proof (cases "map_of editors (gt_id tab)")
    case None
    then show ?thesis using wait_guarded[OF w tab] by simp
  next
    case (Some e)
    have "persisted_editor (gt_id tab) h2 \<Longrightarrow> persisted_editor (gt_id tab) h'"
      using confirm_prefix[OF r(2)] by (auto simp: persisted_editor_def prefix_def)
    then show ?thesis
      using persist_settles(1)[OF r(1) tab] settled_earlier[OF confirm_settles[OF r(2) _ Some]]
        wait_prefix[OF w] persist_prefix[OF r(1)] Some by (auto dest: prefix_order.trans)
  qed
qed

text \<open>
  No edit is lost silently. If closing a set of tabs is approved, every editor among them has
  had no unsaved changes at some point of the operation, or the user was asked about it and decided to discard
  its changes, had saved them, or had them saved successfully; and a tab that needs a guard has its editor.
  If exiting the application is approved with confirmation, the same holds for every editor that did not
  persist itself successfully.
\<close>
theorem no_edit_lost_silently:
  assumes "tab \<in> set tabs"
    and "confirmDirtyEditorTabs tabs editors decide h = (h', Inr True)
      \<or> prepareEditorsForApplicationExit tabs editors decide True h = (h', Inr True)"
  shows "case map_of editors (gt_id tab) of
      None \<Rightarrow> \<not> requiresEditorCloseGuard tab
    | Some editor \<Rightarrow> settled_editor h (gt_id tab) editor h'
        \<or> (prepareEditorsForApplicationExit tabs editors decide True h = (h', Inr True) \<and> persisted_editor (gt_id tab) h')"
proof -
  obtain h1 where w: "waitForPendingEditorTabs tabs editors h = (h1, Inr True)"
    using assms(2) by (auto simp: confirmDirtyEditorTabs_def prepareEditorsForApplicationExit_def
        split: prod.splits sum.splits bool.splits)
  show ?thesis
  proof (cases "map_of editors (gt_id tab)")
    case None
    then show ?thesis using wait_guarded[OF w assms(1)] by simp
  next
    case (Some e)
    show ?thesis
      using assms(2)
    proof
      assume "confirmDirtyEditorTabs tabs editors decide h = (h', Inr True)"
      then have "confirmDirtyEditorTabsAfterPending tabs editors decide h1 = (h', Inr True)"
        using w by (simp add: confirmDirtyEditorTabs_def)
      then have "settled_editor h1 (gt_id tab) e h'" using confirm_settles assms(1) Some by blast
      then show ?thesis using Some wait_prefix[OF w] by (auto intro: settled_earlier)
    next
      assume p: "prepareEditorsForApplicationExit tabs editors decide True h = (h', Inr True)"
      then show ?thesis using approved_exit_settles[OF assms(1) p] Some by simp
    qed
  qed
qed

definition example_editor :: EditorCloseGuardRef where
  "example_editor = \<lparr>eg_hasUnsavedChangesBeforeClose = Some (\<lambda>h. SaveCalled ''c1'' True \<notin> set h),
     eg_saveBeforeClose = Some (\<lambda>h. Inr True), eg_waitForPendingSave = Some (\<lambda>h. None), eg_persistBeforeApplicationExit = None\<rparr>"

definition example_tab :: guarded_tab where
  "example_tab = \<lparr>gt_id = ''c1'', gt_type = ''console'', gt_filePreviewMimeType = None\<rparr>"

theorem no_edit_lost_silently_witness:
  "settled_editor [] ''c1'' example_editor [Waited ''c1'', Asked ''c1'' SaveIt, SaveCalled ''c1'' True]"
proof -
  have "confirmDirtyEditorTabs [example_tab] [(''c1'', example_editor)] (\<lambda>_ _. Inr SaveIt) []
      = ([Waited ''c1'', Asked ''c1'' SaveIt, SaveCalled ''c1'' True], Inr True)"
    by (simp add: confirmDirtyEditorTabs_def example_tab_def example_editor_def has_unsaved_def)
  then show ?thesis
    using no_edit_lost_silently[of example_tab "[example_tab]" "[(''c1'', example_editor)]" "\<lambda>_ _. Inr SaveIt" "[]"
        "[Waited ''c1'', Asked ''c1'' SaveIt, SaveCalled ''c1'' True]"]
    by (simp add: example_tab_def persisted_editor_def)
qed

end
