(* ===== verification/Sse_Stream.thy ===== *)
theory Sse_Stream
  imports Js_Prelude
begin

text \<open>
  The parser of server-sent events, \<open>components/SSERequest/sseStream.ts\<close>: a text that arrives in
  chunks is cut into parts at blank lines, and a part into fields. The byte decoder is the
  environment; a chunk is decoded text. A transform stream is the fold of its \<open>transform\<close> over the chunks, followed by
  \<open>flush\<close>; what it enqueues is the list it returns.
\<close>

definition isValidString :: "string \<Rightarrow> bool" where
  "isValidString s \<longleftrightarrow> trim s \<noteq> []"

section \<open>Parts\<close>

text \<open>\<open>buffer.split('\n\n')\<close>\<close>

fun split_blank_lines :: "string \<Rightarrow> string list" where
  "split_blank_lines [] = [[]]"
| "split_blank_lines [c] = [[c]]"
| "split_blank_lines (c # d # cs) =
     (if c = LF \<and> d = LF then [] # split_blank_lines cs
      else case split_blank_lines (d # cs) of [] \<Rightarrow> [[c]] | p # ps \<Rightarrow> (c # p) # ps)"

text \<open>\<open>transform\<close> of \<open>splitStream\<close>: the parts enqueued and the new buffer.\<close>

definition split_transform :: "string \<Rightarrow> string \<Rightarrow> string list \<times> string" where
  "split_transform buffer streamChunk =
     (let parts = split_blank_lines (buffer @ crlf_to_lf streamChunk)
      in (filter isValidString (butlast parts), last parts))"

definition split_flush :: "string \<Rightarrow> string list" where
  "split_flush buffer = (if isValidString buffer then [buffer] else [])"

fun split_chunks :: "string \<Rightarrow> string list \<Rightarrow> string list" where
  "split_chunks buffer [] = split_flush buffer"
| "split_chunks buffer (chunk # chunks) =
     (let (parts, buffer') = split_transform buffer chunk in parts @ split_chunks buffer' chunks)"

definition splitStream :: "string list \<Rightarrow> string list" where
  "splitStream chunks = split_chunks [] chunks"

section \<open>Fields\<close>

type_synonym SSEOutput = "(string \<times> string) list"

text \<open>The key before the first colon, and the value after it.\<close>

definition add_field :: "SSEOutput \<Rightarrow> string \<Rightarrow> SSEOutput" where
  "add_field acc line =
     (if CHR '':'' \<notin> set line then acc
      else
        let key = takeWhile (\<lambda>c. c \<noteq> CHR '':'') line
        in if \<not> isValidString key then acc else AList.update key (drop (length key + 1) line) acc)"

definition splitPart :: "string \<Rightarrow> SSEOutput list" where
  "splitPart partChunk =
     (let sseEvent = foldl add_field [] (split_on LF partChunk)
      in if sseEvent = [] then [] else [sseEvent])"

definition SSEStream :: "string list \<Rightarrow> SSEOutput list" where
  "SSEStream chunks = concat (map splitPart (splitStream chunks))"

section \<open>Chunks do not matter\<close>

lemma split_blank_not_Nil [simp]: "split_blank_lines s \<noteq> []"
  by (induction s rule: split_blank_lines.induct) (auto split: list.splits)

lemma split_blank_single: "split_blank_lines s = [p] \<Longrightarrow> p = s"
  by (induction s arbitrary: p rule: split_blank_lines.induct) (auto split: if_splits list.splits)

text \<open>The scan of a longer text resumes at its last part.\<close>

lemma split_blank_append:
  "split_blank_lines (s @ t) = butlast (split_blank_lines s) @ split_blank_lines (last (split_blank_lines s) @ t)"
proof (induction s rule: split_blank_lines.induct)
  case (3 c d cs)
  show ?case
  proof (cases "c = LF \<and> d = LF")
    case False
    obtain p ps where ps: "split_blank_lines (d # cs) = p # ps"
      by (meson neq_Nil_conv split_blank_not_Nil)
    have whole: "split_blank_lines (c # d # x) = (case split_blank_lines (d # x) of [] \<Rightarrow> [[c]] | p # ps \<Rightarrow> (c # p) # ps)" for x
      by (simp only: split_blank_lines.simps if_not_P[OF False])
    show ?thesis
    proof (cases ps)
      case Nil
      then show ?thesis using split_blank_single[of "d # cs" p] ps whole[of cs] by simp
    next
      case (Cons q qs)
      then show ?thesis using 3(2)[OF False] ps whole[of cs] whole[of "cs @ t"] by simp
    qed
  qed (use 3 in simp)
qed auto

lemma crlf_Cons: "c \<noteq> CR \<Longrightarrow> crlf_to_lf (c # t) = c # crlf_to_lf t"
  by (cases t) auto

lemma crlf_append:
  "s = [] \<or> last s \<noteq> CR \<Longrightarrow> crlf_to_lf (s @ t) = crlf_to_lf s @ crlf_to_lf t"
  by (induction s rule: crlf_to_lf.induct) (auto simp: crlf_Cons split: if_splits)

lemma crlf_concat:
  "\<forall>chunk \<in> set chunks. chunk = [] \<or> last chunk \<noteq> CR \<Longrightarrow> concat (map crlf_to_lf chunks) = crlf_to_lf (concat chunks)"
  by (induction chunks) (auto simp: crlf_append)

text \<open>The last part is not cut any further.\<close>

lemma split_blank_last: "split_blank_lines (last (split_blank_lines s)) = [last (split_blank_lines s)]"
proof -
  have "butlast (split_blank_lines s) @ split_blank_lines (last (split_blank_lines s))
      = butlast (split_blank_lines s) @ [last (split_blank_lines s)]"
    using split_blank_append[of s "[]"] by simp
  then show ?thesis by (simp only: same_append_eq)
qed

lemma split_chunks_whole:
  "split_blank_lines buffer = [buffer]
   \<Longrightarrow> split_chunks buffer chunks = filter isValidString (split_blank_lines (buffer @ concat (map crlf_to_lf chunks)))"
proof (induction chunks arbitrary: buffer)
  case Nil
  then show ?case by (simp add: split_flush_def)
next
  case (Cons chunk chunks)
  let ?s = "buffer @ crlf_to_lf chunk"
  show ?case
    using Cons.IH[OF split_blank_last[of ?s]] split_blank_append[of ?s "concat (map crlf_to_lf chunks)"]
    by (simp add: split_transform_def Let_def)
qed

lemma splitStream_whole: "splitStream chunks = filter isValidString (split_blank_lines (concat (map crlf_to_lf chunks)))"
  using split_chunks_whole[of "[]" chunks] by (simp add: splitStream_def)

text \<open>
  How the network cuts an answer does not matter. As long as no chunk ends between the two
  characters of a line break (no chunk ends with a carriage return), the events parsed from the
  chunks are those parsed from the whole text.
\<close>
theorem sse_chunking_irrelevant:
  assumes "\<forall>chunk \<in> set chunks. chunk = [] \<or> last chunk \<noteq> CR"
  shows "SSEStream chunks = SSEStream [concat chunks]"
  using crlf_concat[OF assms] by (simp add: SSEStream_def splitStream_whole)

theorem sse_chunking_irrelevant_witness:
  "SSEStream [''data: a'' @ [LF], LF # ''da'', ''ta: b''] = [[(''data'', '' a'')], [(''data'', '' b'')]]"
proof -
  have "\<forall>chunk \<in> set [''data: a'' @ [LF], LF # ''da'', ''ta: b'']. chunk = [] \<or> last chunk \<noteq> CR" by code_simp
  moreover have "SSEStream [concat [''data: a'' @ [LF], LF # ''da'', ''ta: b'']] = [[(''data'', '' a'')], [(''data'', '' b'')]]"
    by code_simp
  ultimately show ?thesis by (metis sse_chunking_irrelevant)
qed

text \<open>
  A chunk that ends inside of a line break loses an event: the blank line between the two events
  is not seen, and the second value of the field replaces the first.
\<close>

lemma sse_split_line_break:
  "SSEStream [''data: a'' @ [CR, LF, CR, LF] @ ''data: b''] = [[(''data'', '' a'')], [(''data'', '' b'')]]"
  "SSEStream [''data: a'' @ [CR, LF, CR], LF # ''data: b''] = [[(''data'', '' b'')]]"
  by code_simp+

section \<open>Printed events come back\<close>

definition sse_field :: "string \<times> string \<Rightarrow> string" where
  "sse_field = (\<lambda>(key, v). key @ '':'' @ v)"

text \<open>An event as a server writes it: a line for each field and a blank line.\<close>

definition sse_print :: "SSEOutput \<Rightarrow> string" where
  "sse_print e = concat (map (\<lambda>f. sse_field f @ [LF]) e) @ [LF]"

definition sse_event_ok :: "SSEOutput \<Rightarrow> bool" where
  "sse_event_ok e \<longleftrightarrow> e \<noteq> [] \<and> distinct (map fst e) \<and> (\<forall>(key, v) \<in> set e. isValidString key
     \<and> CHR '':'' \<notin> set key \<and> LF \<notin> set (key @ v) \<and> CR \<notin> set (key @ v))"

lemma all_dropWhile: "(\<forall>x \<in> set (dropWhile P s). P x) \<longleftrightarrow> (\<forall>x \<in> set s. P x)"
  by (induction s) auto

lemma isValidString_iff: "isValidString s \<longleftrightarrow> (\<exists>c \<in> set s. \<not> is_space c)"
  using all_dropWhile[of is_space s]
  by (simp add: isValidString_def trim_def trim_start_def trim_end_def dropWhile_eq_Nil_conv)

lemma split_blank_line:
  "LF \<notin> set l \<Longrightarrow> split_blank_lines (l @ r) = (l @ hd (split_blank_lines r)) # tl (split_blank_lines r)"
proof (induction l)
  case (Cons c l)
  have "split_blank_lines (c # x) = (c # hd (split_blank_lines x)) # tl (split_blank_lines x)" for x
    using Cons.prems by (cases x) (auto split: list.splits)
  then show ?case using Cons by simp
qed simp

lemma split_blank_lines_part:
  "ls \<noteq> [] \<Longrightarrow> \<forall>l \<in> set ls. l \<noteq> [] \<and> LF \<notin> set l
   \<Longrightarrow> split_blank_lines (join [LF] ls @ LF # LF # t) = join [LF] ls # split_blank_lines t"
proof (induction ls)
  case (Cons l ls)
  show ?case
  proof (cases ls)
    case Nil
    then show ?thesis using Cons.prems by (simp add: split_blank_line)
  next
    case (Cons l' ls')
    then obtain d x where d: "join [LF] ls @ LF # LF # t = d # x" "d \<noteq> LF"
      using Cons.prems by (cases l'; cases ls') auto
    have "split_blank_lines (d # x) = join [LF] ls # split_blank_lines t"
      using Cons.IH Cons.prems Cons d by simp
    then have "split_blank_lines (LF # d # x) = (LF # join [LF] ls) # split_blank_lines t" using d(2) by simp
    then show ?thesis using Cons.prems Cons d by (simp add: split_blank_line)
  qed
qed simp

lemma sse_print_join: "e \<noteq> [] \<Longrightarrow> sse_print e = join [LF] (map sse_field e) @ [LF, LF]"
proof (induction e)
  case (Cons f e)
  then show ?case by (cases e) (simp_all add: sse_print_def)
qed simp

lemma add_field_print:
  assumes "isValidString key" "CHR '':'' \<notin> set key" "key \<notin> fst ` set acc"
  shows "add_field acc (sse_field (key, v)) = acc @ [(key, v)]"
proof -
  have "takeWhile (\<lambda>c. c \<noteq> CHR '':'') (key @ '':'' @ v) = key"
    using assms(2) by (induction key) auto
  moreover have "AList.update key v acc = acc @ [(key, v)]" using assms(3) by (induction acc) auto
  ultimately show ?thesis using assms(1) by (simp add: add_field_def sse_field_def Let_def)
qed

lemma fields_print:
  "distinct (map fst (acc @ e)) \<Longrightarrow> \<forall>(key, v) \<in> set e. isValidString key \<and> CHR '':'' \<notin> set key
   \<Longrightarrow> foldl add_field acc (map sse_field e) = acc @ e"
proof (induction e arbitrary: acc)
  case (Cons f e)
  then show ?case using Cons.IH[of "acc @ [f]"] by (cases f) (auto simp: add_field_print)
qed simp

lemma splitPart_print:
  assumes "sse_event_ok e"
  shows "splitPart (join [LF] (map sse_field e)) = [e]"
proof -
  have "split_on LF (join [LF] (map sse_field e)) = map sse_field e"
    using assms by (intro split_on_join) (auto simp: sse_event_ok_def sse_field_def)
  moreover have "foldl add_field [] (map sse_field e) = e"
    using fields_print[of "[]" e] assms by (auto simp: sse_event_ok_def)
  ultimately show ?thesis using assms by (simp add: splitPart_def sse_event_ok_def)
qed

lemma part_valid:
  assumes "sse_event_ok e"
  shows "isValidString (join [LF] (map sse_field e))"
proof -
  obtain key v e' where "e = (key, v) # e'" "isValidString key"
    using assms by (cases e) (auto simp: sse_event_ok_def)
  then show ?thesis by (cases e') (auto simp: isValidString_iff sse_field_def)
qed

lemma parts_print:
  "\<forall>e \<in> set es. sse_event_ok e \<Longrightarrow>
     concat (map splitPart (filter isValidString (split_blank_lines (concat (map sse_print es))))) = es"
proof (induction es)
  case Nil
  then show ?case by (simp add: isValidString_def)
next
  case (Cons e es)
  have ok: "sse_event_ok e" using Cons.prems by simp
  then have "\<forall>l \<in> set (map sse_field e). l \<noteq> [] \<and> LF \<notin> set l" and ne: "e \<noteq> []"
    by (auto simp: sse_event_ok_def sse_field_def)
  then have "split_blank_lines (concat (map sse_print (e # es)))
      = join [LF] (map sse_field e) # split_blank_lines (concat (map sse_print es))"
    using split_blank_lines_part[of "map sse_field e"] by (simp add: sse_print_join)
  then show ?case using Cons ok by (simp add: part_valid splitPart_print)
qed

text \<open>
  Every event the server sends arrives, once, in order and unchanged, however the answer is
  cut into chunks: if the chunks together are the printed form of a list of events (distinct
  field names without colons, and no line breaks in names and values), the parser yields
  exactly these events.
\<close>
theorem sse_events_delivered:
  assumes "\<forall>e \<in> set es. sse_event_ok e" and "concat chunks = concat (map sse_print es)"
  shows "SSEStream chunks = es"
proof -
  have "CR \<notin> set (sse_print e)" if "sse_event_ok e" for e
    using that by (auto simp: sse_print_def sse_field_def sse_event_ok_def)
  then have "CR \<notin> set (concat (map sse_print es))" using assms(1) by auto
  then have cr: "CR \<notin> set chunk" if "chunk \<in> set chunks" for chunk using assms(2) that by (metis UN_I set_concat)
  have id: "crlf_to_lf s = s" if "CR \<notin> set s" for s
    using that by (induction s rule: crlf_to_lf.induct) auto
  have "map crlf_to_lf chunks = chunks" using cr id by (simp add: map_idI)
  then show ?thesis using parts_print[OF assms(1)] assms(2) by (simp add: SSEStream_def splitStream_whole)
qed

theorem sse_events_delivered_witness:
  "SSEStream [''event:de'', ''lta'' @ [LF] @ ''data:x'' @ [LF], LF # ''data:y'' @ [LF, LF]]
     = [[(''event'', ''delta''), (''data'', ''x'')], [(''data'', ''y'')]]"
proof (rule sse_events_delivered)
  show "\<forall>e \<in> set [[(''event'', ''delta''), (''data'', ''x'')], [(''data'', ''y'')]]. sse_event_ok e" by code_simp
  show "concat [''event:de'', ''lta'' @ [LF] @ ''data:x'' @ [LF], LF # ''data:y'' @ [LF, LF]]
      = concat (map sse_print [[(''event'', ''delta''), (''data'', ''x'')], [(''data'', ''y'')]])" by code_simp
qed

end
