(* ===== verification/Sse_Requests.thy ===== *)
theory Sse_Requests
  imports Js_Prelude
begin

text \<open>
  Requests with streamed answers, \<open>components/SSERequest\<close>: errors of a stream (\<open>requestHandle.ts\<close>), the
  handle of a request whose answer arrives as messages of an event bus (\<open>clientRequestHandle.ts\<close>).

  \<open>JSON.parse\<close> is the parameter \<open>parseJson\<close>, with \<open>None\<close> for a syntax error; the check of a message for a business error
  (\<open>handleErrorPayload\<close>, an option of the source) is a parameter as well. The user's callbacks belong to the
  environment: a \<open>callback_reaction\<close> says whether the callback returns, throws, or calls \<open>stop\<close> of the
  handle. A log holds the calls of callbacks and how the promise \<open>done\<close> settles.
\<close>

section \<open>Errors\<close>

text \<open>What is thrown: an \<open>Error\<close> with its message, one with the name \<open>AbortError\<close>, or a value that is no error.\<close>

datatype thrown = ThrownError string | ThrownAbort string | ThrownOther

fun normalizeError :: "thrown \<Rightarrow> thrown" where
  "normalizeError ThrownOther = ThrownError ''Unknown error!''"
| "normalizeError err = err"

type_synonym json_parser = "string \<Rightarrow> jsval option"

fun is_object :: "jsval \<Rightarrow> bool" where
  "is_object (Arr xs) = True"
| "is_object (Obj kvs) = True"
| "is_object _ = False"

definition parseJsonObject :: "json_parser \<Rightarrow> jsval \<Rightarrow> jsval option" where
  "parseJsonObject parseJson v =
     (case v of
        Str s \<Rightarrow> (case parseJson s of Some parsed \<Rightarrow> if is_object parsed then Some parsed else None | None \<Rightarrow> None)
      | _ \<Rightarrow> if is_object v then Some v else None)"

definition createSSEStreamError :: "json_parser \<Rightarrow> jsval \<Rightarrow> thrown option" where
  "createSSEStreamError parseJson output =
     (case jget output ''event'' of
        Str e \<Rightarrow>
          if trim e \<noteq> ''error'' then None
          else
            let content = (case parseJsonObject parseJson (jget output ''data'') of
                  Some payload \<Rightarrow> jget payload ''content'' | None \<Rightarrow> Undefined)
            in Some (ThrownError (case content of Str c \<Rightarrow> if trim c \<noteq> [] then c else ''AI stream failed'' | _ \<Rightarrow> ''AI stream failed''))
      | _ \<Rightarrow> None)"

definition parseDonePayload :: "json_parser \<Rightarrow> jsval \<Rightarrow> jsval option" where
  "parseDonePayload parseJson data =
     (case parseJsonObject parseJson data of
        Some parsed \<Rightarrow> if jget parsed ''type'' = Str ''done'' then Some parsed else None
      | None \<Rightarrow> None)"

section \<open>A request on the event bus\<close>

datatype callback_reaction = Returns | Throws thrown | CallsStop

datatype request_effect =
    OnUpdate jsval
  | OnSuccess "jsval list"
  | OnError thrown
  | OnStop
  | DoneResolved
  | DoneRejected thrown

record ClientRequest =
  cr_settled :: bool
  cr_listening :: bool
  cr_log :: "request_effect list"

text \<open>How the callbacks react during one input; \<open>onError\<close> can only matter by throwing.\<close>

record reactions =
  re_onUpdate :: callback_reaction
  re_onFinish :: callback_reaction
  re_onError :: "thrown option"

definition log_effect :: "request_effect \<Rightarrow> ClientRequest \<Rightarrow> ClientRequest" where
  "log_effect e r = r\<lparr>cr_log := cr_log r @ [e]\<rparr>"

definition notifyError :: "reactions \<Rightarrow> thrown \<Rightarrow> ClientRequest \<Rightarrow> ClientRequest" where
  "notifyError re err r =
     log_effect (DoneRejected (case re_onError re of None \<Rightarrow> err | Some callbackError \<Rightarrow> normalizeError callbackError))
       (log_effect (OnError err) r)"

text \<open>\<open>finish\<close>; a \<open>stop\<close> called by the callback finds the request settled.\<close>

definition finish_request :: "reactions \<Rightarrow> request_effect \<Rightarrow> ClientRequest \<Rightarrow> ClientRequest" where
  "finish_request re onFinish r =
     (if cr_settled r then r
      else
        let r1 = log_effect onFinish (r\<lparr>cr_settled := True, cr_listening := False\<rparr>)
        in case re_onFinish re of Throws err \<Rightarrow> notifyError re (normalizeError err) r1 | _ \<Rightarrow> log_effect DoneResolved r1)"

definition fail_request :: "reactions \<Rightarrow> thrown \<Rightarrow> ClientRequest \<Rightarrow> ClientRequest" where
  "fail_request re err r =
     (if cr_settled r then r
      else notifyError re (normalizeError err) (r\<lparr>cr_settled := True, cr_listening := False\<rparr>))"

text \<open>
  Calling \<open>onUpdate\<close> and then, unless it throws, \<open>continue\<close>; what it throws is caught by the listener.
\<close>

definition call_update :: "reactions \<Rightarrow> jsval \<Rightarrow> (ClientRequest \<Rightarrow> ClientRequest) \<Rightarrow> ClientRequest \<Rightarrow> ClientRequest" where
  "call_update re chunk continue r =
     (let r1 = log_effect (OnUpdate chunk) r
      in case re_onUpdate re of
           Returns \<Rightarrow> continue r1
         | CallsStop \<Rightarrow> continue (finish_request re OnStop r1)
         | Throws err \<Rightarrow> fail_request re err r1)"

definition listener :: "json_parser \<Rightarrow> (jsval \<Rightarrow> bool) \<Rightarrow> reactions \<Rightarrow> jsval \<Rightarrow> ClientRequest \<Rightarrow> ClientRequest" where
  "listener parseJson handleErrorPayload re sseOutput r =
     (if \<not> truthy sseOutput then finish_request re (OnSuccess []) r
      else case createSSEStreamError parseJson sseOutput of
        Some streamError \<Rightarrow> call_update re sseOutput (fail_request re streamError) r
      | None \<Rightarrow>
          if jget sseOutput ''data'' = Str ''[DONE]'' then finish_request re (OnSuccess [sseOutput]) r
          else case parseDonePayload parseJson (jget sseOutput ''data'') of
            Some payload \<Rightarrow>
              let doneChunk = jset ''data'' payload sseOutput
              in call_update re doneChunk (finish_request re (OnSuccess [doneChunk])) r
          | None \<Rightarrow>
              if handleErrorPayload sseOutput then finish_request re (OnSuccess [sseOutput]) r
              else call_update re sseOutput id r)"

text \<open>Creating the handle; \<open>subscribing\<close> is what \<open>eventBus.on\<close> throws, if it does.\<close>

definition createClientRequestHandle :: "reactions \<Rightarrow> thrown option \<Rightarrow> ClientRequest" where
  "createClientRequestHandle re subscribing =
     (let r = \<lparr>cr_settled = False, cr_listening = True, cr_log = []\<rparr>
      in case subscribing of None \<Rightarrow> r | Some err \<Rightarrow> fail_request re err r)"

text \<open>The event bus calls the listener only while it is registered; \<open>stop\<close> may be called at any time.\<close>

datatype request_input = BusMessage jsval reactions | StopRequest reactions

fun request_step :: "json_parser \<Rightarrow> (jsval \<Rightarrow> bool) \<Rightarrow> ClientRequest \<Rightarrow> request_input \<Rightarrow> ClientRequest" where
  "request_step pj hep r (BusMessage m re) = (if cr_listening r then listener pj hep re m r else r)"
| "request_step pj hep r (StopRequest re) = finish_request re OnStop r"

section \<open>How a request ends\<close>

definition is_update :: "request_effect \<Rightarrow> bool" where
  "is_update e \<longleftrightarrow> (\<exists>c. e = OnUpdate c)"

text \<open>The possible ends: a success or a stop with the promise resolved, or an error with the promise rejected.\<close>

definition is_end :: "request_effect list \<Rightarrow> bool" where
  "is_end es \<longleftrightarrow> (\<exists>cs. es = [OnSuccess cs, DoneResolved]) \<or> es = [OnStop, DoneResolved]
     \<or> (\<exists>m m'. es = [OnError m, DoneRejected m'])
     \<or> (\<exists>cs m m'. es = [OnSuccess cs, OnError m, DoneRejected m']) \<or> (\<exists>m m'. es = [OnStop, OnError m, DoneRejected m'])"

definition ended_log :: "bool \<Rightarrow> request_effect list \<Rightarrow> bool" where
  "ended_log settled es \<longleftrightarrow> (\<exists>us end. es = us @ end \<and> (\<forall>u \<in> set us. is_update u) \<and> (if settled then is_end end else end = []))"

definition request_ok :: "ClientRequest \<Rightarrow> bool" where
  "request_ok r \<longleftrightarrow> ended_log (cr_settled r) (cr_log r) \<and> cr_listening r = (\<not> cr_settled r)"

lemma ended_open: "ended_log False es \<longleftrightarrow> (\<forall>u \<in> set es. is_update u)"
  by (auto simp: ended_log_def)

lemma ended_close: "ended_log False us \<Longrightarrow> is_end end \<Longrightarrow> ended_log True (us @ end)"
  by (auto simp: ended_log_def)

lemmas end_defs = finish_request_def fail_request_def notifyError_def log_effect_def

lemma ok_finish: "request_ok r \<Longrightarrow> onFinish = OnStop \<or> (\<exists>cs. onFinish = OnSuccess cs) \<Longrightarrow> request_ok (finish_request re onFinish r)"
  using ended_close[of "cr_log r"]
  by (cases "re_onFinish re") (auto simp: request_ok_def end_defs Let_def is_end_def)

lemma ok_fail: "request_ok r \<Longrightarrow> request_ok (fail_request re err r)"
  using ended_close[of "cr_log r"] by (auto simp: request_ok_def end_defs is_end_def)

lemma ok_update:
  assumes "request_ok r" "\<not> cr_settled r" "\<And>r. request_ok r \<Longrightarrow> request_ok (continue r)"
  shows "request_ok (call_update re chunk continue r)"
proof -
  have "request_ok (log_effect (OnUpdate chunk) r)"
    using assms(1,2) by (simp add: request_ok_def log_effect_def ended_open is_update_def)
  then show ?thesis
    using assms(3) ok_finish ok_fail by (simp add: call_update_def Let_def split: callback_reaction.split)
qed

lemma ok_listener: "request_ok r \<Longrightarrow> \<not> cr_settled r \<Longrightarrow> request_ok (listener pj hep re m r)"
  by (auto simp: listener_def Let_def intro!: ok_finish ok_update intro: ok_fail split: option.splits)

interpretation request_machine: input_machine "request_step pj hep" request_ok for pj hep
proof unfold_locales
  fix r i assume "request_ok r"
  then show "request_ok (request_step pj hep r i)"
    by (cases i) (auto simp: request_ok_def[of r] intro!: ok_listener ok_finish)
qed

text \<open>The messages that end a request.\<close>

definition ends_request :: "json_parser \<Rightarrow> (jsval \<Rightarrow> bool) \<Rightarrow> jsval \<Rightarrow> bool" where
  "ends_request pj hep m \<longleftrightarrow> \<not> truthy m \<or> createSSEStreamError pj m \<noteq> None \<or> jget m ''data'' = Str ''[DONE]''
     \<or> parseDonePayload pj (jget m ''data'') \<noteq> None \<or> hep m"

lemma finish_settles [simp]: "cr_settled (finish_request re e r)"
  by (simp add: end_defs Let_def split: callback_reaction.split)

lemma fail_settles [simp]: "cr_settled (fail_request re e r)"
  by (simp add: end_defs)

lemma update_settles: "(\<And>r. cr_settled (k r)) \<Longrightarrow> cr_settled (call_update re c k r)"
  by (simp add: call_update_def Let_def split: callback_reaction.split)

lemma listener_settles: "ends_request pj hep m \<Longrightarrow> cr_settled (listener pj hep re m r)"
  by (auto simp: ends_request_def listener_def Let_def update_settles split: option.splits)

lemma ok_create: "request_ok (createClientRequestHandle re sub)"
  by (auto simp: createClientRequestHandle_def Let_def request_ok_def ended_open split: option.split
      intro!: ok_fail[unfolded request_ok_def, simplified])

text \<open>
  A streamed request ends exactly once. For every sequence of messages and stops, and however
  the callbacks behave (return, throw, or stop the request themselves), the calls are updates followed by
  at most one end: success or stop with the promise resolved, or an error with the promise rejected (an
  error also follows if the success or stop callback itself throws). A stop, and a message that
  ends requests, leave the request ended.
\<close>
theorem request_ends_once:
  assumes "r = foldl (request_step pj hep) (createClientRequestHandle re sub) inputs"
    and "i = StopRequest re' \<or> i = BusMessage m re' \<and> ends_request pj hep m"
  shows "ended_log (cr_settled r) (cr_log r) \<and> ended_log True (cr_log (request_step pj hep r i))"
proof -
  have ok: "request_ok r" unfolding assms(1) using ok_create by (rule request_machine.run_keeps)
  then have "request_ok (request_step pj hep r i)" by (rule request_machine.step_keeps)
  moreover have "cr_settled (request_step pj hep r i)"
    using assms(2) ok by (auto simp: request_ok_def listener_settles)
  ultimately show ?thesis using ok by (simp add: request_ok_def)
qed

theorem request_ends_once_witness:
  "ended_log True (cr_log (request_step (\<lambda>s. None) (\<lambda>v. False)
       (foldl (request_step (\<lambda>s. None) (\<lambda>v. False))
         (createClientRequestHandle \<lparr>re_onUpdate = Returns, re_onFinish = Returns, re_onError = None\<rparr> None)
         [BusMessage (Obj [(''data'', Str ''a'')]) \<lparr>re_onUpdate = Returns, re_onFinish = Returns, re_onError = None\<rparr>])
       (BusMessage Null \<lparr>re_onUpdate = Returns, re_onFinish = Returns, re_onError = None\<rparr>)))"
  by (rule request_ends_once[where m = Null
        and re' = "\<lparr>re_onUpdate = Returns, re_onFinish = Returns, re_onError = None\<rparr>", THEN conjunct2, OF refl])
     (simp add: ends_request_def)

end
