(* ===== verification/Sse_Http.thy ===== *)
theory Sse_Http
  imports Sse_Stream Sse_Requests
begin

text \<open>
  Streamed answers over HTTP, \<open>components/SSERequest\<close>: the detection of business errors in a message
  (\<open>errorPayload.ts\<close>), the handlers of an answer (\<open>sseHttpsRequest.ts\<close>), the checks of a
  response (\<open>sseFetch.ts\<close>), and the handle that can be aborted (\<open>createAbortableRequestHandle\<close> of
  \<open>requestHandle.ts\<close>). \<open>fetch\<close> and \<open>JSON.parse\<close> are parameters. A callback is described by what it throws
  for a call, if it does.
\<close>

section \<open>Business errors\<close>

definition FreeTrialUSageLimit :: string where
  "FreeTrialUSageLimit = ''FREE_TRIAL_USAGE_LIMIT''"

definition ErrorCodesWithoutToast :: "string list" where
  "ErrorCodesWithoutToast =
     [''common.needLoggedIn'', ''NO_DATA_ACCESS_PERMISSION'', ''NO_SCRIPT_PERMISSION'', FreeTrialUSageLimit,
      ''api.invalidDevice'', ''api.invalidTrial'', ''api.trialExpired'', ''api.licenseExpired'', ''api.networkError'',
      ''api.licenseBindCountExceeds'', ''ai.licenseNotSupported'']"

definition tryParseJson :: "json_parser \<Rightarrow> jsval \<Rightarrow> jsval" where
  "tryParseJson parseJson v =
     (case v of Str s \<Rightarrow> (case parseJson s of Some parsed \<Rightarrow> parsed | None \<Rightarrow> v) | _ \<Rightarrow> v)"

text \<open>The text from the first opening to the last closing brace, if the braces come in this order.\<close>

definition brace_slice :: "string \<Rightarrow> string option" where
  "brace_slice s =
     (let from_first = dropWhile (\<lambda>c. c \<noteq> CHR ''{'') s;
          to_last = rev (dropWhile (\<lambda>c. c \<noteq> CHR ''}'') (rev from_first))
      in if to_last = [] then None else Some to_last)"

definition tryExtractEmbeddedJson :: "json_parser \<Rightarrow> jsval \<Rightarrow> jsval option" where
  "tryExtractEmbeddedJson parseJson v =
     (case v of
        Str s \<Rightarrow>
          (case brace_slice s of
             None \<Rightarrow> None
           | Some possibleJson \<Rightarrow>
               let parsedValue = tryParseJson parseJson (Str possibleJson)
               in if is_object parsedValue then Some parsedValue else None)
      | _ \<Rightarrow> None)"

text \<open>
  \<open>normalizeErrorPayload\<close> calls itself on embedded, nested and reported values; \<open>None\<close> stands for a call
  that does not return.
\<close>

partial_function (option) normalizeErrorPayload :: "json_parser \<Rightarrow> jsval \<Rightarrow> jsval option option" where
  "normalizeErrorPayload parseJson v =
     (if v = Str FreeTrialUSageLimit
      then Some (Some (Obj [(''success'', Bool False), (''errorCode'', Str FreeTrialUSageLimit)]))
      else
        let parsedValue = tryParseJson parseJson v
        in if \<not> is_object parsedValue
           then (case tryExtractEmbeddedJson parseJson parsedValue of
                   Some embeddedPayload \<Rightarrow> normalizeErrorPayload parseJson embeddedPayload
                 | None \<Rightarrow> Some None)
           else
             Option.bind (if jhas parsedValue ''data'' then normalizeErrorPayload parseJson (jget parsedValue ''data'') else Some None)
               (\<lambda>nested. case nested of Some p \<Rightarrow> Some (Some p) | None \<Rightarrow>
             Option.bind (if js_or (jget parsedValue ''messageType'') (jget parsedValue ''type'') = Str ''error'' \<and> jhas parsedValue ''content''
                   then normalizeErrorPayload parseJson (jget parsedValue ''content'') else Some None)
               (\<lambda>nested. case nested of Some p \<Rightarrow> Some (Some p) | None \<Rightarrow>
             (case jget parsedValue ''errorCode'' of Str c \<Rightarrow> Some (Some parsedValue) | _ \<Rightarrow> Some None))))"

text \<open>What \<open>handleSSEErrorPayload\<close> does for a payload: the error code for the interceptor, and the message shown.\<close>

definition handlePayload :: "jsval option \<Rightarrow> bool \<times> (jsval \<times> jsval) option \<times> jsval option" where
  "handlePayload payload =
     (case payload of
        None \<Rightarrow> (False, None, None)
      | Some p \<Rightarrow>
          if \<not> truthy (jget p ''errorCode'') then (False, None, None)
          else (True, Some (jget p ''errorCode'', js_or (jget p ''errorMessage'') (Str [])),
                if jget p ''errorCode'' \<notin> Str ` set ErrorCodesWithoutToast \<and> truthy (jget p ''errorMessage'')
                then Some (jget p ''errorMessage'') else None))"

definition handleSSEErrorPayload :: "json_parser \<Rightarrow> jsval \<Rightarrow> (bool \<times> (jsval \<times> jsval) option \<times> jsval option) option" where
  "handleSSEErrorPayload parseJson v = map_option handlePayload (normalizeErrorPayload parseJson v)"

definition parseSSEChunkData :: "json_parser \<Rightarrow> jsval \<Rightarrow> jsval option" where
  "parseSSEChunkData parseJson v =
     (let parsedValue = tryParseJson parseJson v in if is_object parsedValue then Some parsedValue else None)"

section \<open>Termination of the search for an error\<close>

text \<open>
  A JSON text is at least as long as the value it denotes is large: every string needs its characters
  and quotes, every array and object its brackets.
\<close>

fun value_size :: "jsval \<Rightarrow> nat" where
  "value_size (Str s) = length s + 1"
| "value_size (Arr xs) = sum_list (map value_size xs) + 1"
| "value_size (Obj kvs) = sum_list (map (\<lambda>kv. value_size (snd kv)) kvs) + 1"
| "value_size _ = 1"

definition json_text_bounds :: "json_parser \<Rightarrow> bool" where
  "json_text_bounds parseJson \<longleftrightarrow> (\<forall>s v. parseJson s = Some v \<longrightarrow> value_size v \<le> length s)"

lemma value_size_field: "jhas v k \<Longrightarrow> value_size (jget v k) < value_size v"
proof (cases v)
  case (Obj kvs)
  assume "jhas v k"
  then obtain w where "map_of kvs k = Some w" using Obj by auto
  then have "(k, w) \<in> set kvs" by (rule map_of_SomeD)
  then have "value_size w \<le> sum_list (map (\<lambda>kv. value_size (snd kv)) kvs)"
    using member_le_sum_list[of "value_size w" "map (\<lambda>kv. value_size (snd kv)) kvs"] by force
  then show ?thesis using Obj \<open>map_of kvs k = Some w\<close> by simp
qed auto

lemma brace_slice_length: "brace_slice s = Some t \<Longrightarrow> length t \<le> length s"
  unfolding brace_slice_def Let_def
  by (auto split: if_splits) (metis length_dropWhile_le length_rev order_trans)

lemma tryParse_size:
  "json_text_bounds pj \<Longrightarrow> value_size (tryParseJson pj v) \<le> value_size v"
  "json_text_bounds pj \<Longrightarrow> tryParseJson pj (Str s) \<noteq> Str s \<Longrightarrow> value_size (tryParseJson pj (Str s)) \<le> length s"
  by (auto simp: tryParseJson_def json_text_bounds_def le_SucI split: jsval.splits option.splits)

lemma embedded_size:
  assumes "json_text_bounds pj" "tryExtractEmbeddedJson pj v = Some w"
  shows "value_size w < value_size v"
proof -
  obtain s t where v: "v = Str s" and t: "brace_slice s = Some t" and w: "w = tryParseJson pj (Str t)" "is_object w"
    using assms(2) by (auto simp: tryExtractEmbeddedJson_def Let_def split: jsval.splits option.splits if_splits)
  then have "value_size w \<le> length t" using tryParse_size(2)[OF assms(1), of t] by fastforce
  then show ?thesis using brace_slice_length[OF t] v by simp
qed

text \<open>
  The search for a business error in a message always returns, for a JSON parser whose values
  are no larger than their texts, whatever is nested or embedded in the message.
\<close>
theorem error_search_returns:
  assumes "json_text_bounds pj"
  shows "\<exists>payload. normalizeErrorPayload pj v = Some payload"
proof (induction "value_size v" arbitrary: v rule: less_induct)
  case less
  let ?p = "tryParseJson pj v"
  have p: "value_size ?p \<le> value_size v" by (rule tryParse_size(1)[OF assms])
  have emb: "\<exists>r. normalizeErrorPayload pj w = Some r" if "tryExtractEmbeddedJson pj ?p = Some w" for w
    using less embedded_size[OF assms that] p by (meson less_le_trans)
  have field: "\<exists>r. normalizeErrorPayload pj (jget ?p k) = Some r" if "jhas ?p k" for k
    using less value_size_field[OF that] p by (meson less_le_trans)
  show ?case
    using emb field[of "''data''"] field[of "''content''"]
    by (subst normalizeErrorPayload.simps) (auto simp: Let_def split: option.splits jsval.splits)
qed

theorem error_search_returns_witness:
  "\<exists>payload. normalizeErrorPayload
      (\<lambda>s. if s = ''{\"errorCode\":\"x\"}'' then Some (Obj [(''errorCode'', Str ''x'')]) else None)
      (Str ''failed: {\"errorCode\":\"x\"}'') = Some payload"
  by (rule error_search_returns) (simp add: json_text_bounds_def)

section \<open>Handlers of an answer\<close>

text \<open>
  A handler yields the calls it makes and what it throws. \<open>call\<close> makes one call, and goes on unless the
  callback throws.
\<close>

type_synonym callbacks = "request_effect \<Rightarrow> thrown option"
type_synonym handled = "request_effect list \<times> thrown option"

definition call :: "callbacks \<Rightarrow> request_effect \<Rightarrow> handled \<Rightarrow> handled" where
  "call cb e rest = (case cb e of Some t \<Rightarrow> ([e], Some t) | None \<Rightarrow> (e # fst rest, snd rest))"

text \<open>
  The body as the loop reads it: the outputs read, and then the end of the stream or what reading throws
  (a lost connection, or an abort).
\<close>

fun customResponseHandler :: "callbacks \<Rightarrow> jsval list \<Rightarrow> jsval list \<Rightarrow> thrown option \<Rightarrow> handled" where
  "customResponseHandler cb chunks [] (Some t) = ([], Some t)"
| "customResponseHandler cb chunks [] None = call cb (OnSuccess chunks) ([], None)"
| "customResponseHandler cb chunks (chunk # rest) failure =
     call cb (OnUpdate chunk) (customResponseHandler cb (chunks @ [chunk]) rest failure)"

fun sseResponseHandler ::
    "json_parser \<Rightarrow> (jsval \<Rightarrow> bool) \<Rightarrow> callbacks \<Rightarrow> jsval list \<Rightarrow> jsval list \<Rightarrow> thrown option \<Rightarrow> handled" where
  "sseResponseHandler pj hep cb chunks [] (Some t) = ([], Some t)"
| "sseResponseHandler pj hep cb chunks [] None = call cb (OnSuccess chunks) ([], None)"
| "sseResponseHandler pj hep cb chunks (chunk # rest) failure =
     (case createSSEStreamError pj chunk of
        Some streamError \<Rightarrow> call cb (OnUpdate chunk) ([], Some streamError)
      | None \<Rightarrow>
          if hep chunk then call cb (OnSuccess chunks) ([], None)
          else if jget chunk ''data'' = Str ''[DONE]'' then call cb (OnSuccess chunks) ([], None)
          else call cb (OnUpdate chunk) (sseResponseHandler pj hep cb (chunks @ [chunk]) rest failure))"

text \<open>\<open>json\<close> is what \<open>response.json()\<close> yields or throws.\<close>

definition jsonResponseHandler :: "(jsval \<Rightarrow> bool) \<Rightarrow> callbacks \<Rightarrow> thrown + jsval \<Rightarrow> handled" where
  "jsonResponseHandler hep cb json =
     (case json of
        Inl t \<Rightarrow> ([], Some t)
      | Inr chunk \<Rightarrow>
          if hep chunk then call cb (OnSuccess []) ([], None)
          else call cb (OnUpdate chunk) (call cb (OnSuccess [chunk]) ([], None)))"

section \<open>The request\<close>

text \<open>
  A response: its status, whether it has a body, its content type, and the body under the
  three ways to read it. The text of an event stream arrives in chunks; a broken body has the
  outputs read before it broke, and what reading then throws.
\<close>

datatype sse_body = BodyText "string list" | BodyBroken "jsval list" thrown

record http_response =
  resp_ok :: bool
  status_text :: string
  has_body :: bool
  content_type :: "string option"
  event_body :: sse_body
  custom_body :: "jsval list \<times> thrown option"
  json_body :: "thrown + jsval"

definition sse_value :: "SSEOutput \<Rightarrow> jsval" where
  "sse_value e = Obj (map (\<lambda>(k, v). (k, Str v)) e)"

definition SSEFetch :: "thrown + http_response \<Rightarrow> thrown + http_response" where
  "SSEFetch fetched =
     (case fetched of
        Inl t \<Rightarrow> Inl t
      | Inr response \<Rightarrow>
          if \<not> resp_ok response then Inl (ThrownError (''Fetch failed with status '' @ status_text response))
          else if \<not> has_body response then Inl (ThrownError ''The response body is empty.'')
          else Inr response)"

definition mimeType :: "string \<Rightarrow> string" where
  "mimeType contentType = trim (hd (split_on (CHR '';'') contentType))"

text \<open>The function that \<open>create\<close> passes to the handle; \<open>custom\<close> says whether a stream transformer was given.\<close>

definition execute_request ::
    "json_parser \<Rightarrow> (jsval \<Rightarrow> bool) \<Rightarrow> callbacks \<Rightarrow> bool \<Rightarrow> thrown + http_response \<Rightarrow> handled" where
  "execute_request pj hep cb custom fetched =
     (case SSEFetch fetched of
        Inl t \<Rightarrow> ([], Some t)
      | Inr response \<Rightarrow>
          if custom then customResponseHandler cb [] (fst (custom_body response)) (snd (custom_body response))
          else
            let contentType = the_default [] (content_type response)
            in if mimeType contentType = ''text/event-stream''
               then (case event_body response of
                       BodyText chunks \<Rightarrow> sseResponseHandler pj hep cb [] (map sse_value (SSEStream chunks)) None
                     | BodyBroken rd fl \<Rightarrow> sseResponseHandler pj hep cb [] rd (Some fl))
               else if mimeType contentType = ''application/json'' then jsonResponseHandler hep cb (json_body response)
               else ([], Some (ThrownError (''The response content-type: '' @ contentType @ '' is not support!''))))"

definition createAbortableRequestHandle :: "callbacks \<Rightarrow> handled \<Rightarrow> request_effect list" where
  "createAbortableRequestHandle cb executed =
     fst executed @
     (case snd executed of
        None \<Rightarrow> [DoneResolved]
      | Some (ThrownAbort m) \<Rightarrow> OnStop # (case cb OnStop of None \<Rightarrow> [DoneResolved] | Some t \<Rightarrow> [DoneRejected t])
      | Some t \<Rightarrow>
          let normalizedError = normalizeError t
          in OnError normalizedError #
             (case cb (OnError normalizedError) of None \<Rightarrow> [DoneRejected normalizedError] | Some t' \<Rightarrow> [DoneRejected t']))"

definition create_request ::
    "json_parser \<Rightarrow> (jsval \<Rightarrow> bool) \<Rightarrow> callbacks \<Rightarrow> bool \<Rightarrow> thrown + http_response \<Rightarrow> request_effect list" where
  "create_request pj hep cb custom fetched = createAbortableRequestHandle cb (execute_request pj hep cb custom fetched)"

section \<open>What arrives\<close>

text \<open>An event that is neither an error nor the end of the stream.\<close>

definition plain_event :: "json_parser \<Rightarrow> (jsval \<Rightarrow> bool) \<Rightarrow> SSEOutput \<Rightarrow> bool" where
  "plain_event pj hep e \<longleftrightarrow> createSSEStreamError pj (sse_value e) = None \<and> \<not> hep (sse_value e)
     \<and> map_of e ''data'' \<noteq> Some ''[DONE]''"

lemma sse_value_data: "jget (sse_value e) k = (case map_of e k of None \<Rightarrow> Undefined | Some v \<Rightarrow> Str v)"
  by (induction e) (auto simp: sse_value_def)

lemma plain_events_handled:
  assumes "\<forall>e \<in> set es. plain_event pj hep e" "\<And>e. cb e = None"
  shows "sseResponseHandler pj hep cb chunks (map sse_value es @ rest) failure =
     (let later = sseResponseHandler pj hep cb (chunks @ map sse_value es) rest failure
      in (map (\<lambda>e. OnUpdate (sse_value e)) es @ fst later, snd later))"
  using assms
proof (induction es arbitrary: chunks)
  case (Cons e es)
  then have "createSSEStreamError pj (sse_value e) = None" "\<not> hep (sse_value e)" "jget (sse_value e) ''data'' \<noteq> Str ''[DONE]''"
    by (auto simp: plain_event_def sse_value_data split: option.split)
  then show ?case using Cons by (simp add: call_def Let_def)
qed simp

definition done_event :: SSEOutput where
  "done_event = [(''data'', ''[DONE]'')]"

text \<open>
  C23: An answer streamed over HTTP reaches the user complete, however the network cuts it into chunks. Let the body of an accepted response of type \<open>text/event-stream\<close>
  arrive unbroken, and let its chunks together be the printed form of events: lines that end with a line feed, each field on one line and at most once in an event, an empty
  line after each event; let none of the events be an error, and let them be optionally followed by the end marker, written exactly \<open>data:[DONE]\<close> without a
  blank, and any further events. If no callback throws, then every event before the marker is reported once and in order, the success reports all
  of them, and the promise is resolved.
\<close>

theorem streamed_answer_delivered:
  assumes "concat chunks = concat (map sse_print (es @ rest))" "rest = [] \<or> hd rest = done_event"
    and "\<forall>e \<in> set (es @ rest). sse_event_ok e" "\<forall>e \<in> set es. plain_event pj hep e" "\<not> hep (sse_value done_event)"
    and "\<And>e. cb e = None"
    and "resp_ok response" "has_body response" "mimeType (the_default [] (content_type response)) = ''text/event-stream''"
    and "event_body response = BodyText chunks"
  shows "create_request pj hep cb False (Inr response) =
     map (\<lambda>e. OnUpdate (sse_value e)) es @ [OnSuccess (map sse_value es), DoneResolved]"
proof -
  have outs: "SSEStream chunks = es @ rest" using assms(1,3) by (intro sse_events_delivered) auto
  have "createSSEStreamError pj (sse_value done_event) = None"
    by (simp add: createSSEStreamError_def sse_value_data done_event_def)
  then have "sseResponseHandler pj hep cb cs (map sse_value rest) None = ([OnSuccess cs], None)" for cs
    using assms(2,5,6) by (cases rest) (auto simp: call_def sse_value_data done_event_def)
  then have "sseResponseHandler pj hep cb [] (map sse_value (SSEStream chunks)) None
      = (map (\<lambda>e. OnUpdate (sse_value e)) es @ [OnSuccess (map sse_value es)], None)"
    using plain_events_handled[OF assms(4,6)] outs by (simp add: Let_def)
  then show ?thesis
    using assms(7-10)
    by (simp add: create_request_def createAbortableRequestHandle_def execute_request_def SSEFetch_def)
qed

theorem streamed_answer_delivered_witness:
  "create_request (\<lambda>s. None) (\<lambda>v. False) (\<lambda>e. None) False
     (Inr \<lparr>resp_ok = True, status_text = ''200'', has_body = True, content_type = Some ''text/event-stream; charset=UTF-8'',
        event_body = BodyText [''data:he'', ''llo'' @ [LF], LF # ''data:[DONE]'' @ [LF, LF]],
        custom_body = ([], None), json_body = Inl ThrownOther\<rparr>)
   = [OnUpdate (Obj [(''data'', Str ''hello'')]), OnSuccess [Obj [(''data'', Str ''hello'')]], DoneResolved]"
proof -
  let ?e = "[(''data'', ''hello'')]"
  have "concat [''data:he'', ''llo'' @ [LF], LF # ''data:[DONE]'' @ [LF, LF]] = concat (map sse_print ([?e] @ [done_event]))"
    by code_simp
  moreover have "\<forall>e \<in> set ([?e] @ [done_event]). sse_event_ok e" by code_simp
  moreover have "\<forall>e \<in> set [?e]. plain_event (\<lambda>s. None) (\<lambda>v. False) e" by code_simp
  moreover have "mimeType (the_default [] (Some ''text/event-stream; charset=UTF-8'')) = ''text/event-stream''" by code_simp
  ultimately show ?thesis
    by (subst streamed_answer_delivered[where es = "[?e]" and rest = "[done_event]"
          and chunks = "[''data:he'', ''llo'' @ [LF], LF # ''data:[DONE]'' @ [LF, LF]]"])
       (simp_all add: sse_value_def)
qed

text \<open>
  The end marker is compared with the field value as it was sent. A server that writes the usual blank
  after the colon sends a marker that is not recognised: it is reported as an event of the answer.
\<close>

lemma spaced_done_is_reported:
  "sseResponseHandler (\<lambda>s. None) (\<lambda>v. False) (\<lambda>e. None) [] (map sse_value (SSEStream [''data: [DONE]'' @ [LF, LF]])) None
   = ([OnUpdate (Obj [(''data'', Str '' [DONE]'')]), OnSuccess [Obj [(''data'', Str '' [DONE]'')]]], None)"
  by code_simp

end
