(* ===== verification/Sse_Hook.thy ===== *)
theory Sse_Hook
  imports Sse_Http Request_Tracker
begin

text \<open>
  The streamed request of a component: the owner of the active request (\<open>components/SSERequest/requestOwner.ts\<close>)
  and the hook that shows its progress (\<open>hooks/useSSERequest.ts\<close>).

  A handle is a number. \<open>ow_stops\<close> holds the handles whose \<open>stop\<close> was called. The variables of a call of \<open>request\<close> are
  a record that is kept under its generation, because the call goes on while it waits for its promise. The input of
  the machine are calls of the user, of the transport (callbacks, and the promise that settles), and the end of
  the component.
\<close>

section \<open>The owner\<close>

record SSERequestOwner =
  ow_generation :: int
  ow_active :: "(int \<times> nat) option"
  ow_stops :: "nat list"

definition new_owner :: SSERequestOwner where
  "new_owner = \<lparr>ow_generation = 0, ow_active = None, ow_stops = []\<rparr>"

definition stop_active :: "SSERequestOwner \<Rightarrow> SSERequestOwner" where
  "stop_active ow = ow\<lparr>ow_active := None,
     ow_stops := ow_stops ow @ (case ow_active ow of None \<Rightarrow> [] | Some (g, h) \<Rightarrow> [h])\<rparr>"

definition owner_begin :: "SSERequestOwner \<Rightarrow> int \<times> SSERequestOwner" where
  "owner_begin ow =
     (let ow' = ow\<lparr>ow_generation := ow_generation ow + 1\<rparr> in (ow_generation ow', stop_active ow'))"

definition isCurrentGeneration :: "SSERequestOwner \<Rightarrow> int \<Rightarrow> bool" where
  "isCurrentGeneration ow generation \<longleftrightarrow> ow_generation ow = generation"

definition attach :: "SSERequestOwner \<Rightarrow> int \<Rightarrow> nat \<Rightarrow> bool \<times> SSERequestOwner" where
  "attach ow generation handle =
     (if \<not> isCurrentGeneration ow generation then (False, ow\<lparr>ow_stops := ow_stops ow @ [handle]\<rparr>)
      else (True, ow\<lparr>ow_active := Some (generation, handle)\<rparr>))"

definition isActive :: "SSERequestOwner \<Rightarrow> int \<Rightarrow> nat \<Rightarrow> bool" where
  "isActive ow generation handle \<longleftrightarrow> isCurrentGeneration ow generation \<and> ow_active ow = Some (generation, handle)"

definition owns :: "SSERequestOwner \<Rightarrow> int \<Rightarrow> nat option \<Rightarrow> bool" where
  "owns ow generation handle =
     (case handle of Some h \<Rightarrow> isActive ow generation h | None \<Rightarrow> isCurrentGeneration ow generation)"

definition owner_release :: "SSERequestOwner \<Rightarrow> int \<Rightarrow> nat \<Rightarrow> SSERequestOwner" where
  "owner_release ow generation handle = (if isActive ow generation handle then ow\<lparr>ow_active := None\<rparr> else ow)"

definition owner_stop :: "SSERequestOwner \<Rightarrow> bool \<times> SSERequestOwner" where
  "owner_stop ow = (ow_active ow \<noteq> None, stop_active (ow\<lparr>ow_generation := ow_generation ow + 1\<rparr>))"

interpretation owner: latest_request owner_begin "\<lambda>ow. snd (owner_stop ow)" isCurrentGeneration "\<lambda>ow. {..ow_generation ow}"
proof unfold_locales
  fix s :: SSERequestOwner
  show "{..ow_generation (snd (owner_begin s))} = insert (fst (owner_begin s)) {..ow_generation s}"
    by (auto simp: owner_begin_def stop_active_def Let_def)
qed (auto simp: owner_begin_def owner_stop_def stop_active_def isCurrentGeneration_def Let_def)

section \<open>The hook\<close>

datatype SSERequestStatus = ERROR | FINISH | IDLE | LOADING | THINKING

record request_locals =
  lr_handle :: "nat option"
  lr_awaiting :: bool
  lr_chunks :: "jsval list"
  accumulatedContent :: string
  callbackHandledError :: bool
  terminalCallbackFired :: bool

definition new_locals :: request_locals where
  "new_locals = \<lparr>lr_handle = None, lr_awaiting = False, lr_chunks = [], accumulatedContent = [],
     callbackHandledError = False, terminalCallbackFired = False\<rparr>"

record SSEHook =
  requestOwner :: SSERequestOwner
  hk_mounted :: bool
  hk_status :: SSERequestStatus
  hk_content :: string
  hk_error :: "thrown option"
  hk_calls :: "int \<rightharpoonup> request_locals"

definition new_hook :: SSEHook where
  "new_hook = \<lparr>requestOwner = new_owner, hk_mounted = True, hk_status = IDLE, hk_content = [], hk_error = None,
     hk_calls = Map.empty\<rparr>"

text \<open>
  The callbacks of the hook. \<open>coerce\<close> is the conversion of a content to a text; a hook with a \<open>transformer\<close>
  passes the parsed data on and keeps no content.
\<close>

record hook_env =
  env_json :: json_parser
  env_coerce :: "jsval \<Rightarrow> string"
  env_transformer :: bool

datatype hook_callback = CbSuccess | CbError thrown | CbUpdate jsval | CbStop

fun run_callback :: "hook_env \<Rightarrow> int \<Rightarrow> request_locals \<Rightarrow> hook_callback \<Rightarrow> SSEHook \<Rightarrow> SSEHook" where
  "run_callback env g l CbSuccess st =
     st\<lparr>hk_calls := (hk_calls st)(g \<mapsto> l\<lparr>terminalCallbackFired := True\<rparr>), hk_status := FINISH\<rparr>"
| "run_callback env g l (CbError err) st =
     st\<lparr>hk_calls := (hk_calls st)(g \<mapsto> l\<lparr>terminalCallbackFired := True, callbackHandledError := True\<rparr>),
        hk_status := ERROR, hk_error := Some err\<rparr>"
| "run_callback env g l (CbUpdate chunk) st =
     (let l1 = l\<lparr>lr_chunks := lr_chunks l @ [chunk]\<rparr>
      in case parseSSEChunkData (env_json env) (jget chunk ''data'') of
           None \<Rightarrow> st\<lparr>hk_calls := (hk_calls st)(g \<mapsto> l1)\<rparr>
         | Some parsedData \<Rightarrow>
             if env_transformer env then st\<lparr>hk_calls := (hk_calls st)(g \<mapsto> l1)\<rparr>
             else
               let newContent = env_coerce env (js_or (jget parsedData ''content'') (Str []));
                   l2 = l1\<lparr>accumulatedContent := accumulatedContent l1 @ newContent\<rparr>
               in st\<lparr>hk_calls := (hk_calls st)(g \<mapsto> l2), hk_content := accumulatedContent l2\<rparr>)"
| "run_callback env g l CbStop st =
     st\<lparr>hk_calls := (hk_calls st)(g \<mapsto> l\<lparr>terminalCallbackFired := True\<rparr>), hk_status := FINISH\<rparr>"

text \<open>\<open>guardSSERequestCallbacks\<close> with \<open>isActiveRequest\<close>.\<close>

definition guarded_callback :: "hook_env \<Rightarrow> int \<Rightarrow> SSEHook \<Rightarrow> hook_callback \<Rightarrow> SSEHook" where
  "guarded_callback env g st c =
     (case hk_calls st g of
        None \<Rightarrow> st
      | Some l \<Rightarrow> if hk_mounted st \<and> owns (requestOwner st) g (lr_handle l) then run_callback env g l c st else st)"

text \<open>The \<open>catch\<close> and the \<open>finally\<close> of \<open>request\<close>.\<close>

definition request_catch :: "int \<Rightarrow> request_locals \<Rightarrow> thrown \<Rightarrow> SSEHook \<Rightarrow> SSEHook" where
  "request_catch g l err st =
     (if \<not> hk_mounted st \<or> \<not> isCurrentGeneration (requestOwner st) g \<or> callbackHandledError l then st
      else st\<lparr>hk_status := ERROR,
              hk_error := Some (case err of ThrownOther \<Rightarrow> ThrownError ''Unknown error'' | _ \<Rightarrow> err)\<rparr>)"

definition request_finally :: "int \<Rightarrow> request_locals \<Rightarrow> SSEHook \<Rightarrow> SSEHook" where
  "request_finally g l st =
     (let st1 = (if \<not> terminalCallbackFired l \<and> hk_mounted st \<and> isCurrentGeneration (requestOwner st) g
                 then st\<lparr>hk_status := ERROR\<rparr> else st)
      in case lr_handle l of
           Some h \<Rightarrow> st1\<lparr>requestOwner := owner_release (requestOwner st1) g h\<rparr>
         | None \<Rightarrow> st1)"

text \<open>How \<open>instance.create\<close> ends: it throws, or it returns a handle after some callbacks.\<close>

datatype create_result = CreateThrew thrown | Created nat "hook_callback list"

definition request :: "hook_env \<Rightarrow> create_result \<Rightarrow> SSEHook \<Rightarrow> SSEHook" where
  "request env created st =
     (let (generation, ow) = owner_begin (requestOwner st);
          st1 = st\<lparr>requestOwner := ow, hk_status := LOADING, hk_error := None,
                   hk_calls := (hk_calls st)(generation \<mapsto> new_locals)\<rparr>
      in case created of
           CreateThrew err \<Rightarrow> request_finally generation new_locals (request_catch generation new_locals err st1)
         | Created h cbs \<Rightarrow>
             let st2 = foldl (guarded_callback env generation) st1 cbs;
                 l = (the (hk_calls st2 generation))\<lparr>lr_handle := Some h\<rparr>;
                 (attached, ow2) = attach (requestOwner st2) generation h;
                 st3 = st2\<lparr>requestOwner := ow2\<rparr>
             in if attached then st3\<lparr>hk_calls := (hk_calls st3)(generation \<mapsto> l\<lparr>lr_awaiting := True\<rparr>)\<rparr>
                else request_finally generation l (st3\<lparr>hk_calls := (hk_calls st3)(generation \<mapsto> l)\<rparr>))"

text \<open>The promise of a call settles, with an error or without.\<close>

definition request_settled :: "int \<Rightarrow> thrown option \<Rightarrow> SSEHook \<Rightarrow> SSEHook" where
  "request_settled g outcome st =
     (case hk_calls st g of
        None \<Rightarrow> st
      | Some l \<Rightarrow>
          if \<not> lr_awaiting l then st
          else
            let st1 = st\<lparr>hk_calls := (hk_calls st)(g \<mapsto> l\<lparr>lr_awaiting := False\<rparr>)\<rparr>;
                st2 = (case outcome of None \<Rightarrow> st1 | Some err \<Rightarrow> request_catch g l err st1)
            in request_finally g l st2)"

definition stop_hook :: "SSEHook \<Rightarrow> SSEHook" where
  "stop_hook st =
     (let (stopped, ow) = owner_stop (requestOwner st);
          st1 = st\<lparr>requestOwner := ow\<rparr>
      in if stopped \<and> hk_mounted st1 then st1\<lparr>hk_status := FINISH\<rparr> else st1)"

definition unmount_hook :: "SSEHook \<Rightarrow> SSEHook" where
  "unmount_hook st = st\<lparr>hk_mounted := False, requestOwner := snd (owner_stop (requestOwner st))\<rparr>"

datatype hook_input =
    RequestCalled create_result
  | CallbackCalled int hook_callback
  | PromiseSettled int "thrown option"
  | StopCalled
  | Unmounted

fun hook_step :: "hook_env \<Rightarrow> SSEHook \<Rightarrow> hook_input \<Rightarrow> SSEHook" where
  "hook_step env st (RequestCalled created) = request env created st"
| "hook_step env st (CallbackCalled g c) = guarded_callback env g st c"
| "hook_step env st (PromiseSettled g outcome) = request_settled g outcome st"
| "hook_step env st StopCalled = stop_hook st"
| "hook_step env st Unmounted = unmount_hook st"

section \<open>One request at a time\<close>

text \<open>While the hook shows \<open>LOADING\<close>, the active request waits for its promise and has not reported an end.\<close>

definition loading_ok :: "SSEHook \<Rightarrow> bool" where
  "loading_ok st \<longleftrightarrow> (\<exists>h l. ow_active (requestOwner st) = Some (ow_generation (requestOwner st), h)
     \<and> hk_calls st (ow_generation (requestOwner st)) = Some l
     \<and> lr_handle l = Some h \<and> lr_awaiting l \<and> \<not> terminalCallbackFired l)"

text \<open>Every call that still waits is the active one or was stopped, and the active request is current.\<close>

definition waiting_ok :: "SSEHook \<Rightarrow> bool" where
  "waiting_ok st \<longleftrightarrow>
     (\<forall>g l h. hk_calls st g = Some l \<and> lr_awaiting l \<and> lr_handle l = Some h
        \<longrightarrow> ow_active (requestOwner st) = Some (g, h) \<or> h \<in> set (ow_stops (requestOwner st)))
     \<and> (\<forall>g l. hk_calls st g = Some l \<and> lr_awaiting l \<longrightarrow> lr_handle l \<noteq> None)
     \<and> (\<forall>g h. ow_active (requestOwner st) = Some (g, h) \<longrightarrow> g = ow_generation (requestOwner st))
     \<and> (\<forall>g > ow_generation (requestOwner st). hk_calls st g = None)"

definition hook_ok :: "SSEHook \<Rightarrow> bool" where
  "hook_ok st \<longleftrightarrow> waiting_ok st \<and> (hk_mounted st \<and> hk_status st = LOADING \<longrightarrow> loading_ok st)"

lemma waiting_cong: "requestOwner a = requestOwner b \<Longrightarrow> hk_calls a = hk_calls b \<Longrightarrow> waiting_ok a = waiting_ok b"
  by (simp add: waiting_ok_def)

lemma waiting_handle:
  assumes "waiting_ok st" "hk_calls st g = Some l" "lr_awaiting l"
  shows "\<exists>h. lr_handle l = Some h \<and> (ow_active (requestOwner st) = Some (g, h) \<or> h \<in> set (ow_stops (requestOwner st)))"
proof -
  have "lr_handle l \<noteq> None" using assms unfolding waiting_ok_def by metis
  then show ?thesis using assms unfolding waiting_ok_def by blast
qed

lemma run_callback_frame:
  "requestOwner (run_callback env g l c st) = requestOwner st"
  "hk_mounted (run_callback env g l c st) = hk_mounted st"
  "\<exists>l'. hk_calls (run_callback env g l c st) = (hk_calls st)(g \<mapsto> l') \<and> lr_handle l' = lr_handle l \<and> lr_awaiting l' = lr_awaiting l
     \<and> (hk_status (run_callback env g l c st) = LOADING \<longrightarrow> hk_status st = LOADING \<and> terminalCallbackFired l' = terminalCallbackFired l)"
  by (cases c; auto simp: Let_def split: option.split)+

lemma guarded_callback_frame [simp]:
  "requestOwner (guarded_callback env g st c) = requestOwner st"
  "hk_mounted (guarded_callback env g st c) = hk_mounted st"
  by (auto simp: guarded_callback_def run_callback_frame split: option.split)

lemma guarded_callback_calls:
  obtains (same) "guarded_callback env g st c = st"
  | (update) l l' where "hk_calls st g = Some l" "hk_calls (guarded_callback env g st c) = (hk_calls st)(g \<mapsto> l')"
      "lr_handle l' = lr_handle l" "lr_awaiting l' = lr_awaiting l"
      "hk_status (guarded_callback env g st c) = LOADING \<longrightarrow> hk_status st = LOADING \<and> terminalCallbackFired l' = terminalCallbackFired l"
proof (cases "hk_calls st g")
  case None
  then show ?thesis using same by (simp add: guarded_callback_def)
next
  case (Some l)
  then show ?thesis
    using same update[OF Some] run_callback_frame(3)[of env g l c st]
    by (cases "hk_mounted st \<and> owns (requestOwner st) g (lr_handle l)") (auto simp: guarded_callback_def)
qed

lemma ok_callback: "hook_ok st \<Longrightarrow> hook_ok (guarded_callback env g st c)"
proof (cases rule: guarded_callback_calls[of env g st c])
  case (update l l')
  assume "hook_ok st"
  then have w: "waiting_ok st" and ld: "hk_mounted st \<and> hk_status st = LOADING \<longrightarrow> loading_ok st" by (simp_all add: hook_ok_def)
  have "waiting_ok (guarded_callback env g st c)"
    using w update(1-4) unfolding waiting_ok_def by (auto split: if_splits)
  moreover have "loading_ok (guarded_callback env g st c)" if "hk_mounted st" "hk_status (guarded_callback env g st c) = LOADING"
    using that ld update unfolding loading_ok_def by auto
  ultimately show ?thesis by (simp add: hook_ok_def)
qed simp

lemma owner_simps [simp]:
  "ow_generation (stop_active ow) = ow_generation ow" "ow_active (stop_active ow) = None"
  "set (ow_stops (stop_active ow)) = set (ow_stops ow) \<union> (case ow_active ow of None \<Rightarrow> {} | Some (g, h) \<Rightarrow> {h})"
  by (auto simp: stop_active_def split: option.splits)

text \<open>Ending the active request, with a new generation.\<close>

lemma waiting_invalidate:
  "waiting_ok st \<Longrightarrow> requestOwner st' = stop_active ((requestOwner st)\<lparr>ow_generation := ow_generation (requestOwner st) + 1\<rparr>)
   \<Longrightarrow> hk_calls st' = hk_calls st \<Longrightarrow> waiting_ok st'"
  unfolding waiting_ok_def by (fastforce split: option.splits)

lemma ok_stop: "hook_ok st \<Longrightarrow> hook_ok (stop_hook st)"
  by (auto simp: hook_ok_def stop_hook_def owner_stop_def Let_def loading_ok_def intro!: waiting_invalidate[of st])

lemma ok_unmount: "hook_ok st \<Longrightarrow> hook_ok (unmount_hook st)"
  by (auto simp: hook_ok_def unmount_hook_def owner_stop_def intro!: waiting_invalidate[of st])

lemma finally_status: "hk_mounted st \<Longrightarrow> hk_status (request_finally g l st) = LOADING
    \<Longrightarrow> hk_status st = LOADING \<and> (terminalCallbackFired l \<or> ow_generation (requestOwner st) \<noteq> g)"
  by (auto simp: request_finally_def Let_def isCurrentGeneration_def split: option.splits if_splits)

lemma catch_frame [simp]:
  "requestOwner (request_catch g l err st) = requestOwner st" "hk_mounted (request_catch g l err st) = hk_mounted st"
  "hk_calls (request_catch g l err st) = hk_calls st"
  "hk_status (request_catch g l err st) = LOADING \<Longrightarrow> hk_status st = LOADING"
  by (auto simp: request_catch_def split: if_splits)

lemma finally_frame [simp]:
  "hk_mounted (request_finally g l st) = hk_mounted st" "hk_calls (request_finally g l st) = hk_calls st"
  "requestOwner (request_finally g l st) = (case lr_handle l of Some h \<Rightarrow> owner_release (requestOwner st) g h | None \<Rightarrow> requestOwner st)"
  by (auto simp: request_finally_def Let_def split: option.splits)

lemma waiting_settled:
  assumes "waiting_ok st" "hk_calls st g = Some l"
    "hk_calls st' = (hk_calls st)(g \<mapsto> l\<lparr>lr_awaiting := False\<rparr>)"
    "requestOwner st' = (case lr_handle l of Some h \<Rightarrow> owner_release (requestOwner st) g h | None \<Rightarrow> requestOwner st)"
  shows "waiting_ok st'"
  using assms unfolding waiting_ok_def
  by (auto simp: owner_release_def isActive_def isCurrentGeneration_def split: option.splits if_splits)

lemma ok_settled:
  assumes "hook_ok st"
  shows "hook_ok (request_settled g outcome st)"
proof (cases "\<exists>l. hk_calls st g = Some l \<and> lr_awaiting l")
  case True
  then obtain l where l: "hk_calls st g = Some l" "lr_awaiting l" by blast
  define st1 where "st1 = st\<lparr>hk_calls := (hk_calls st)(g \<mapsto> l\<lparr>lr_awaiting := False\<rparr>)\<rparr>"
  define st2 where "st2 = (case outcome of None \<Rightarrow> st1 | Some err \<Rightarrow> request_catch g l err st1)"
  have step: "request_settled g outcome st = request_finally g l st2"
    using l unfolding st2_def st1_def by (simp add: request_settled_def Let_def)
  have st2: "requestOwner st2 = requestOwner st" "hk_mounted st2 = hk_mounted st" "hk_calls st2 = hk_calls st1"
      "hk_status st2 = LOADING \<Longrightarrow> hk_status st = LOADING"
    by (auto simp: st2_def st1_def split: option.splits dest: catch_frame(4))
  have w: "waiting_ok (request_finally g l st2)"
    by (rule waiting_settled[of st g l]) (use assms l(1) in \<open>simp_all add: hook_ok_def st2 st1_def split: option.split\<close>)
  have "loading_ok (request_finally g l st2)" if m: "hk_mounted st" and ld: "hk_status (request_finally g l st2) = LOADING"
  proof -
    have old: "loading_ok st" and *: "terminalCallbackFired l \<or> ow_generation (requestOwner st) \<noteq> g"
      using finally_status[OF _ ld] m st2 assms by (auto simp: hook_ok_def)
    then have "ow_generation (requestOwner st) \<noteq> g" using l(1) by (auto simp: loading_ok_def)
    then show ?thesis
      using old by (auto simp: loading_ok_def st2 st1_def owner_release_def isActive_def isCurrentGeneration_def split: option.split)
  qed
  then show ?thesis using w st2 by (simp add: hook_ok_def step)
next
  case False
  then show ?thesis using assms by (auto simp: request_settled_def split: option.split)
qed

text \<open>A call whose \<open>create\<close> has not returned yet: the callbacks only touch its own variables.\<close>

definition creating :: "SSERequestOwner \<Rightarrow> bool \<Rightarrow> (int \<rightharpoonup> request_locals) \<Rightarrow> int \<Rightarrow> SSEHook \<Rightarrow> bool" where
  "creating ow m calls g st \<longleftrightarrow> requestOwner st = ow \<and> hk_mounted st = m
     \<and> (\<exists>l. hk_calls st = calls(g \<mapsto> l) \<and> lr_handle l = None \<and> \<not> lr_awaiting l
          \<and> (hk_status st = LOADING \<longrightarrow> \<not> terminalCallbackFired l))"

interpretation creation: input_machine "guarded_callback env g" "creating ow m calls g" for env g ow m calls
proof unfold_locales
  fix st c assume cr: "creating ow m calls g st"
  then show "creating ow m calls g (guarded_callback env g st c)"
  proof (cases rule: guarded_callback_calls[of env g st c])
    case (update l l')
    have "hk_calls (guarded_callback env g st c) = calls(g \<mapsto> l')"
      using cr update(1,2) by (auto simp: creating_def)
    then show ?thesis using cr update by (auto simp: creating_def)
  qed simp
qed

lemma callbacks_creating:
  "creating ow (hk_mounted st) (hk_calls st) g
     (foldl (guarded_callback env g)
        (st\<lparr>requestOwner := ow, hk_status := LOADING, hk_error := None, hk_calls := (hk_calls st)(g \<mapsto> new_locals)\<rparr>) cbs)"
proof (rule creation.run_keeps)
  have "lr_handle new_locals = None \<and> \<not> lr_awaiting new_locals \<and> \<not> terminalCallbackFired new_locals"
    by (simp add: new_locals_def)
  then show "creating ow (hk_mounted st) (hk_calls st) g
      (st\<lparr>requestOwner := ow, hk_status := LOADING, hk_error := None, hk_calls := (hk_calls st)(g \<mapsto> new_locals)\<rparr>)"
    unfolding creating_def by auto
qed

lemma request_owner:
  "ow_generation (requestOwner (request env created st)) = fst (owner_begin (requestOwner st))"
  "ow_stops (requestOwner (request env created st)) = ow_stops (snd (owner_begin (requestOwner st)))"
proof -
  obtain g ow where b: "owner_begin (requestOwner st) = (g, ow)" by fastforce
  then have cur: "ow_generation ow = g" by (auto simp: owner_begin_def Let_def)
  have "ow_generation (requestOwner (request env created st)) = g \<and> ow_stops (requestOwner (request env created st)) = ow_stops ow"
  proof (cases created)
    case (CreateThrew err)
    then show ?thesis using cur by (simp add: request_def b new_locals_def)
  next
    case (Created h cbs)
    then show ?thesis
      using callbacks_creating[of ow st g env cbs] cur
      by (simp add: request_def b Let_def creating_def attach_def isCurrentGeneration_def)
  qed
  then show "ow_generation (requestOwner (request env created st)) = fst (owner_begin (requestOwner st))"
    "ow_stops (requestOwner (request env created st)) = ow_stops (snd (owner_begin (requestOwner st)))"
    by (simp_all add: b)
qed

lemma ok_request:
  assumes "hook_ok st"
  shows "hook_ok (request env created st)"
proof -
  define g where "g = ow_generation (requestOwner st) + 1"
  define ow where "ow = stop_active ((requestOwner st)\<lparr>ow_generation := g\<rparr>)"
  define st1 where "st1 = st\<lparr>requestOwner := ow, hk_status := LOADING, hk_error := None, hk_calls := (hk_calls st)(g \<mapsto> new_locals)\<rparr>"
  have b: "owner_begin (requestOwner st) = (g, ow)" by (simp add: owner_begin_def g_def ow_def)
  have cur: "ow_generation ow = g" "ow_active ow = None" by (simp_all add: ow_def)
  have w0: "waiting_ok (st\<lparr>requestOwner := ow\<rparr>)"
    by (rule waiting_invalidate[of st]) (use assms in \<open>simp_all add: hook_ok_def ow_def g_def\<close>)
  then have w1: "waiting_ok st1" by (auto simp: waiting_ok_def st1_def new_locals_def cur)
  show ?thesis
  proof (cases created)
    case (CreateThrew err)
    let ?st = "request_finally g new_locals (request_catch g new_locals err st1)"
    have "request env created st = ?st" by (simp add: request_def b CreateThrew st1_def)
    moreover have "waiting_ok ?st" using w1 waiting_cong[of ?st st1] by (simp add: new_locals_def)
    moreover have "hk_status ?st \<noteq> LOADING" if "hk_mounted st"
    proof
      assume "hk_status ?st = LOADING"
      then have "terminalCallbackFired new_locals \<or> ow_generation (requestOwner st1) \<noteq> g"
        using finally_status[of "request_catch g new_locals err st1"] that by (simp add: st1_def)
      then show False by (simp add: new_locals_def st1_def cur)
    qed
    ultimately show ?thesis by (auto simp: hook_ok_def st1_def)
  next
    case (Created h cbs)
    define st2 where "st2 = foldl (guarded_callback env g) st1 cbs"
    have "creating ow (hk_mounted st) (hk_calls st) g st2"
      unfolding st2_def st1_def by (rule callbacks_creating)
    then obtain l' where l': "hk_calls st2 = (hk_calls st)(g \<mapsto> l')" "lr_handle l' = None" "\<not> lr_awaiting l'"
        "hk_status st2 = LOADING \<longrightarrow> \<not> terminalCallbackFired l'" and o2: "requestOwner st2 = ow" "hk_mounted st2 = hk_mounted st"
      by (auto simp: creating_def)
    let ?st = "st2\<lparr>requestOwner := ow\<lparr>ow_active := Some (g, h)\<rparr>,
        hk_calls := (hk_calls st2)(g \<mapsto> l'\<lparr>lr_handle := Some h, lr_awaiting := True\<rparr>)\<rparr>"
    have "request env created st = ?st"
      using l' o2 cur by (simp add: request_def b Created st1_def[symmetric] st2_def[symmetric] attach_def isCurrentGeneration_def)
    moreover have "waiting_ok ?st"
      using w0 l' cur by (auto simp: waiting_ok_def)
    moreover have "hk_status st2 = LOADING \<longrightarrow> loading_ok ?st" using l' cur by (simp add: loading_ok_def)
    ultimately show ?thesis by (simp add: hook_ok_def)
  qed
qed

interpretation sse_hook: input_machine "hook_step env" hook_ok for env
proof unfold_locales
  fix st i assume "hook_ok st"
  then show "hook_ok (hook_step env st i)"
    by (cases i) (simp_all add: ok_request ok_callback ok_settled ok_stop ok_unmount)
qed

lemma hook_reachable_ok: "hook_ok (foldl (hook_step env) new_hook inputs)"
  by (rule sse_hook.run_keeps) (simp add: hook_ok_def waiting_ok_def new_hook_def new_owner_def)

text \<open>
  A component never keeps waiting for an answer that cannot come. Whenever the hook shows
  \<open>LOADING\<close>, its active request still waits for its promise; however the promise settles, \<open>LOADING\<close> ends; and \<open>stop\<close>
  ends it at once, and stops the handle of the request.
\<close>
theorem loading_always_ends:
  assumes "st = foldl (hook_step env) new_hook inputs" "hk_mounted st" "hk_status st = LOADING"
  shows "\<exists>h. ow_active (requestOwner st) = Some (ow_generation (requestOwner st), h)
     \<and> hk_status (hook_step env st (PromiseSettled (ow_generation (requestOwner st)) outcome)) \<noteq> LOADING
     \<and> hk_status (hook_step env st StopCalled) = FINISH
     \<and> h \<in> set (ow_stops (requestOwner (hook_step env st StopCalled)))"
proof -
  let ?g = "ow_generation (requestOwner st)"
  obtain h l where l: "ow_active (requestOwner st) = Some (?g, h)" "hk_calls st ?g = Some l" "lr_handle l = Some h"
      "lr_awaiting l" "\<not> terminalCallbackFired l"
    using hook_reachable_ok[of env inputs] assms by (auto simp: hook_ok_def loading_ok_def)
  have "hk_status (request_settled ?g outcome st) \<noteq> LOADING"
  proof
    assume "hk_status (request_settled ?g outcome st) = LOADING"
    then show False
      using l assms(2) by (auto simp: request_settled_def Let_def dest!: finally_status[rotated] split: option.splits)
  qed
  moreover have "hk_status (stop_hook st) = FINISH" "h \<in> set (ow_stops (requestOwner (stop_hook st)))"
    using l(1) assms(2) by (simp_all add: stop_hook_def owner_stop_def Let_def)
  ultimately show ?thesis using l(1) by simp
qed

definition sample_env :: hook_env where
  "sample_env = \<lparr>env_json = (\<lambda>s. None), env_coerce = (\<lambda>v. []), env_transformer = False\<rparr>"

theorem loading_always_ends_witness:
  "hk_status (hook_step sample_env (foldl (hook_step sample_env) new_hook
      [RequestCalled (Created 7 []), RequestCalled (Created 8 [])]) StopCalled) = FINISH"
proof -
  let ?st = "foldl (hook_step sample_env) new_hook [RequestCalled (Created 7 []), RequestCalled (Created 8 [])]"
  have "hk_mounted ?st" "hk_status ?st = LOADING" by code_simp+
  then show ?thesis using loading_always_ends[OF refl, of sample_env "[RequestCalled (Created 7 []), RequestCalled (Created 8 [])]"]
    by blast
qed

text \<open>The visible part of the hook.\<close>

definition hook_view :: "SSEHook \<Rightarrow> SSERequestStatus \<times> string \<times> thrown option" where
  "hook_view st = (hk_status st, hk_content st, hk_error st)"

lemma not_current_silent:
  assumes "\<not> isCurrentGeneration (requestOwner st) g"
  shows "hook_view (guarded_callback env g st c) = hook_view st" "hook_view (request_settled g outcome st) = hook_view st"
proof -
  have "\<not> owns (requestOwner st) g h" for h
    using assms by (simp add: owns_def isActive_def split: option.split)
  then show "hook_view (guarded_callback env g st c) = hook_view st"
    by (simp add: guarded_callback_def split: option.split)
  have fin: "hook_view (request_finally g l s) = hook_view s" if "requestOwner s = requestOwner st" for l s
    using that assms by (simp add: request_finally_def hook_view_def split: option.split)
  have "request_catch g l err s = s" if "requestOwner s = requestOwner st" for l err s
    using that assms by (simp add: request_catch_def)
  then have "hook_view (case outcome of None \<Rightarrow> s | Some err \<Rightarrow> request_catch g l err s) = hook_view s
      \<and> requestOwner (case outcome of None \<Rightarrow> s | Some err \<Rightarrow> request_catch g l err s) = requestOwner st"
    if "requestOwner s = requestOwner st" for l s
    using that by (simp split: option.split)
  then show "hook_view (request_settled g outcome st) = hook_view st"
    by (simp add: request_settled_def Let_def fin hook_view_def[of "hk_calls_update _ st"] split: option.split) (simp add: hook_view_def)
qed

text \<open>
  A new request takes over completely. After \<open>request\<close> is called, every earlier request is
  silent: no callback and no settled promise of it changes the status, the content or the error shown; and
  every earlier request that still waits has been stopped.
\<close>
theorem superseded_request_silent:
  assumes "st = foldl (hook_step env) new_hook inputs" "g \<le> ow_generation (requestOwner st)"
    and "st' = hook_step env st (RequestCalled created)"
  shows "hook_view (hook_step env st' (CallbackCalled g c)) = hook_view st'
    \<and> hook_view (hook_step env st' (PromiseSettled g outcome)) = hook_view st'
    \<and> (case hk_calls st g of Some l \<Rightarrow> lr_awaiting l \<longrightarrow> (\<exists>h. lr_handle l = Some h \<and> h \<in> set (ow_stops (requestOwner st'))) | None \<Rightarrow> True)"
proof -
  have old: "\<not> isCurrentGeneration (requestOwner st') g"
    using owner.begin_ends_earlier[of g "requestOwner st"] assms(2,3) by (simp add: isCurrentGeneration_def request_owner owner_begin_def Let_def)
  have "\<exists>h. lr_handle l = Some h \<and> h \<in> set (ow_stops (requestOwner st'))" if l: "hk_calls st g = Some l" "lr_awaiting l" for l
  proof -
    have w: "waiting_ok st" using hook_reachable_ok assms(1) by (simp add: hook_ok_def)
    from waiting_handle[OF w l] obtain h where h: "lr_handle l = Some h"
        "ow_active (requestOwner st) = Some (g, h) \<or> h \<in> set (ow_stops (requestOwner st))" by blast
    show ?thesis using h assms(3) by (auto simp: request_owner owner_begin_def Let_def)
  qed
  then show ?thesis using not_current_silent[OF old] by (simp split: option.split)
qed

theorem superseded_request_silent_witness:
  "hook_view (hook_step sample_env (hook_step sample_env (hook_step sample_env new_hook (RequestCalled (Created 7 [])))
        (RequestCalled (Created 8 []))) (CallbackCalled 1 (CbError ThrownOther)))
    = (LOADING, [], None)"
proof -
  let ?st = "foldl (hook_step sample_env) new_hook [RequestCalled (Created 7 [])]"
  let ?st' = "hook_step sample_env ?st (RequestCalled (Created 8 []))"
  have "(1 :: int) \<le> ow_generation (requestOwner ?st)" by code_simp
  then have "hook_view (hook_step sample_env ?st' (CallbackCalled 1 (CbError ThrownOther))) = hook_view ?st'"
    using superseded_request_silent[OF refl, of 1 sample_env "[RequestCalled (Created 7 [])]" ?st'] by blast
  moreover have "hook_view ?st' = (LOADING, [], None)" by code_simp
  ultimately show ?thesis by simp
qed

end
