(* ===== verification/Redis_Keys.thy ===== *)
theory Redis_Keys
  imports Js_Sort Js_Uri
begin

text \<open>
  The keys of a Redis database, \<open>blocks/RedisAllData\<close>: identities of rows (\<open>redisRowIdentity.ts\<close>), the tree
  of keys grouped at colons (\<open>redisKeyTree.ts\<close>), and loaded details (\<open>redisDetail.ts\<close>).

  The mutable groups of the source form a tree without sharing, so a group is a value. The
  collation of names is the parameter \<open>collate\<close>.
\<close>

section \<open>Rows\<close>

datatype RedisFieldType = STRING | LIST | SET | ZSET | HASH | STREAM

text \<open>A field that may be \<open>null\<close> or missing is a dynamic value.\<close>

record RedisDataItem =
  rd_name :: "string option"
  rd_type :: RedisFieldType
  rd_ttl :: int
  rd_value :: jsval
  rd_listValues :: jsval
  rd_values :: jsval
  rd_zsValues :: jsval
  rd_hashValues :: jsval
  rd_streamValues :: jsval
  rd_detailLoaded :: "bool option"
  rd_isDraftFE :: bool

type_synonym RedisRowIdentity = string

definition REDIS_DRAFT_ROW_IDENTITY :: RedisRowIdentity where
  "REDIS_DRAFT_ROW_IDENTITY = ''redis-draft:active''"

definition redisKeyRowIdentity :: "string \<Rightarrow> RedisRowIdentity" where
  "redisKeyRowIdentity redisKey = ''redis-key:'' @ encodeURIComponent redisKey"

definition getRedisDataItemIdentity :: "RedisDataItem \<Rightarrow> RedisRowIdentity option" where
  "getRedisDataItemIdentity item =
     (case rd_name item of
        Some name \<Rightarrow> Some (redisKeyRowIdentity name)
      | None \<Rightarrow> if rd_isDraftFE item then Some REDIS_DRAFT_ROW_IDENTITY else None)"

definition resolveRedisDataItem ::
    "RedisDataItem list option \<Rightarrow> RedisRowIdentity option \<Rightarrow> (RedisDataItem \<times> nat) option" where
  "resolveRedisDataItem items identity =
     (case (items, identity) of
        (Some xs, Some ident) \<Rightarrow>
          if ident = [] then None
          else map_option (\<lambda>(i, x). (x, i)) (List.find (\<lambda>(i, x). getRedisDataItemIdentity x = Some ident) (enumerate 0 xs))
      | _ \<Rightarrow> None)"

definition hasRedisDetailPayload :: "RedisDataItem \<Rightarrow> bool" where
  "hasRedisDetailPayload item =
     (case rd_type item of
        STRING \<Rightarrow> \<not> nullish (rd_value item)
      | LIST \<Rightarrow> \<not> nullish (rd_listValues item)
      | SET \<Rightarrow> \<not> nullish (rd_values item)
      | ZSET \<Rightarrow> \<not> nullish (rd_zsValues item)
      | HASH \<Rightarrow> \<not> nullish (rd_hashValues item)
      | STREAM \<Rightarrow> \<not> nullish (rd_streamValues item))"

definition isRedisDataItemLoaded :: "RedisDataItem \<Rightarrow> bool" where
  "isRedisDataItemLoaded item =
     (if rd_isDraftFE item then True
      else if rd_detailLoaded item = Some False then False
      else hasRedisDetailPayload item)"

datatype RedisDetailLoadStatus = DetailIdle | DetailLoading | DetailLoaded | DetailFailed

definition shouldRetryRedisDetail ::
    "RedisRowIdentity option \<Rightarrow> RedisRowIdentity option \<Rightarrow> RedisDetailLoadStatus \<Rightarrow> bool" where
  "shouldRetryRedisDetail currentIdentity nextIdentity status \<longleftrightarrow>
     truthy_str nextIdentity \<and> currentIdentity = nextIdentity \<and> status = DetailFailed"

section \<open>The tree of keys\<close>

definition REDIS_KEY_SEPARATOR :: char where
  "REDIS_KEY_SEPARATOR = CHR '':''"

datatype RedisKeyTreeNode =
    GroupNode (node_key: string) (node_name: string) (node_count: int) (node_children: "RedisKeyTreeNode list")
  | KeyNode (node_key: string) (node_name: string) (rowIndex: nat) (node_type: RedisFieldType) (node_ttl: int)

datatype MutableRedisKeyGroup =
  MutableGroup (mg_key: string) (mg_title: string) (mg_count: int)
    (mg_groups: "(string \<times> MutableRedisKeyGroup) list") (mg_leaves: "RedisKeyTreeNode list")

definition groupNodeKey :: "string list \<Rightarrow> string" where
  "groupNodeKey path = ''redis-group:'' @ join ''/'' (map encodeURIComponent path)"

definition is_group :: "RedisKeyTreeNode \<Rightarrow> bool" where
  "is_group node = (case node of GroupNode k n c cs \<Rightarrow> True | _ \<Rightarrow> False)"

definition getRedisTreeRowIndex :: "RedisKeyTreeNode \<Rightarrow> nat option" where
  "getRedisTreeRowIndex node = (case node of KeyNode k n i ty t \<Rightarrow> Some i | _ \<Rightarrow> None)"

definition createMutableGroup :: "string \<Rightarrow> string \<Rightarrow> MutableRedisKeyGroup" where
  "createMutableGroup key title = MutableGroup key title 0 [] []"

definition compareTreeNodes :: "(string \<Rightarrow> string \<Rightarrow> int) \<Rightarrow> RedisKeyTreeNode \<Rightarrow> RedisKeyTreeNode \<Rightarrow> int" where
  "compareTreeNodes collate left right =
     (if is_group left \<noteq> is_group right then (if is_group left then - 1 else 1)
      else collate (node_name left) (node_name right))"

function finalizeGroup :: "(string \<Rightarrow> string \<Rightarrow> int) \<Rightarrow> MutableRedisKeyGroup \<Rightarrow> RedisKeyTreeNode" where
  "finalizeGroup collate (MutableGroup key title n groups leaves) =
     GroupNode key title n
       (js_sort (compareTreeNodes collate) (map (\<lambda>(s, g). finalizeGroup collate g) groups @ leaves))"
  by pat_completeness auto

lemma subgroup_size: "(s, g) \<in> set groups \<Longrightarrow> size g < size (MutableGroup key title n groups leaves)"
  by (induction groups) auto

termination finalizeGroup
  by (relation "measure (\<lambda>(collate, g). size g)") (auto dest: subgroup_size)

text \<open>\<open>group.count += 1\<close>\<close>

definition counted :: "MutableRedisKeyGroup \<Rightarrow> MutableRedisKeyGroup" where
  "counted g = (case g of MutableGroup k t c gs ls \<Rightarrow> MutableGroup k t (c + 1) gs ls)"

text \<open>
  The walk of one key: \<open>path\<close> are the segments walked so far, and \<open>parent\<close> is the group the walk is in.
\<close>

fun add_leaf :: "string list \<Rightarrow> string list \<Rightarrow> RedisKeyTreeNode \<Rightarrow> MutableRedisKeyGroup \<Rightarrow> MutableRedisKeyGroup" where
  "add_leaf path [] leaf (MutableGroup key title n groups leaves) =
     MutableGroup key title n groups (leaves @ [leaf])"
| "add_leaf path (segment # segments) leaf (MutableGroup key title n groups leaves) =
     (let path' = path @ [segment];
          group = (case map_of groups segment of None \<Rightarrow> createMutableGroup (groupNodeKey path') segment | Some g \<Rightarrow> g)
      in MutableGroup key title n (AList.update segment (add_leaf path' segments leaf (counted group)) groups) leaves)"

definition groupSegments :: "string \<Rightarrow> string list" where
  "groupSegments name =
     (let segs = butlast (split_on REDIS_KEY_SEPARATOR name)
      in if segs \<noteq> [] \<and> list_all (\<lambda>s. s \<noteq> []) segs then segs else [])"

definition key_leaf :: "RedisDataItem \<Rightarrow> string \<Rightarrow> nat \<Rightarrow> RedisKeyTreeNode" where
  "key_leaf item name index = KeyNode (redisKeyRowIdentity name) name index (rd_type item) (rd_ttl item)"

definition add_item :: "MutableRedisKeyGroup \<Rightarrow> nat \<times> RedisDataItem \<Rightarrow> MutableRedisKeyGroup" where
  "add_item root = (\<lambda>(index, item).
     (case rd_name item of
        None \<Rightarrow> root
      | Some name \<Rightarrow> add_leaf [] (groupSegments name) (key_leaf item name index) root))"

definition buildRedisKeyTree :: "(string \<Rightarrow> string \<Rightarrow> int) \<Rightarrow> RedisDataItem list \<Rightarrow> RedisKeyTreeNode list" where
  "buildRedisKeyTree collate items =
     (let root = foldl add_item (createMutableGroup ''redis-root'' []) (enumerate 0 items)
      in js_sort (compareTreeNodes collate) (map (\<lambda>(s, g). finalizeGroup collate g) (mg_groups root) @ mg_leaves root))"

function collectRedisGroupKeys :: "RedisKeyTreeNode list \<Rightarrow> string list" where
  "collectRedisGroupKeys [] = []"
| "collectRedisGroupKeys (KeyNode k n i ty t # nodes) = collectRedisGroupKeys nodes"
| "collectRedisGroupKeys (GroupNode k n c children # nodes) =
     k # collectRedisGroupKeys children @ collectRedisGroupKeys nodes"
  by pat_completeness auto
termination by size_change

function collectRedisBranchGroupKeys :: "RedisKeyTreeNode list \<Rightarrow> string list" where
  "collectRedisBranchGroupKeys [] = []"
| "collectRedisBranchGroupKeys (KeyNode k n i ty t # nodes) = collectRedisBranchGroupKeys nodes"
| "collectRedisBranchGroupKeys (GroupNode k n c children # nodes) =
     (let childGroups = filter is_group children
      in if childGroups = [] then collectRedisBranchGroupKeys nodes
         else k # collectRedisBranchGroupKeys childGroups @ collectRedisBranchGroupKeys nodes)"
  by pat_completeness auto

lemma size_filter_nodes: "size_list size (filter P nodes) \<le> size_list size nodes"
  by (induction nodes) auto

termination collectRedisBranchGroupKeys
  by (relation "measure (size_list size)") (auto simp: le_imp_less_Suc trans_le_add1 size_filter_nodes le_SucI)

section \<open>What the tree holds\<close>

text \<open>The keys of a forest, each with the names of the groups it stands in.\<close>

function forest_rows :: "string list \<Rightarrow> RedisKeyTreeNode list \<Rightarrow> (string list \<times> RedisKeyTreeNode) multiset" where
  "forest_rows path [] = {#}"
| "forest_rows path (KeyNode k n i ty t # nodes) = add_mset (path, KeyNode k n i ty t) (forest_rows path nodes)"
| "forest_rows path (GroupNode k n c children # nodes) = forest_rows (path @ [n]) children + forest_rows path nodes"
  by pat_completeness auto
termination by size_change

text \<open>
  A well-formed forest at a path: the groups have different names, the key that belongs to their path, and count
  the keys below them.
\<close>

function forest_ok :: "string list \<Rightarrow> RedisKeyTreeNode list \<Rightarrow> bool" where
  "forest_ok path [] \<longleftrightarrow> True"
| "forest_ok path (KeyNode k n i ty t # nodes) \<longleftrightarrow> forest_ok path nodes"
| "forest_ok path (GroupNode k n c children # nodes) \<longleftrightarrow>
     k = groupNodeKey (path @ [n]) \<and> c = int (size (forest_rows (path @ [n]) children)) \<and> 0 < c
     \<and> n \<notin> node_name ` set (filter is_group nodes)
     \<and> forest_ok (path @ [n]) children \<and> forest_ok path nodes"
  by pat_completeness auto
termination by size_change

text \<open>The same of the groups while the tree is built.\<close>

function group_rows :: "string list \<Rightarrow> MutableRedisKeyGroup \<Rightarrow> (string list \<times> RedisKeyTreeNode) multiset" where
  "group_rows path (MutableGroup key title n groups leaves) =
     sum_list (map (\<lambda>(s, g). group_rows (path @ [s]) g) groups) + image_mset (Pair path) (mset leaves)"
  by pat_completeness auto
termination by (relation "measure (\<lambda>(path, g). size g)") (auto dest: subgroup_size)

function group_ok :: "string list \<Rightarrow> MutableRedisKeyGroup \<Rightarrow> bool" where
  "group_ok path (MutableGroup key title n groups leaves) \<longleftrightarrow>
     distinct (map fst groups) \<and> (\<forall>leaf \<in> set leaves. \<not> is_group leaf)
     \<and> (\<forall>(s, g) \<in> set groups. mg_title g = s \<and> mg_key g = groupNodeKey (path @ [s])
          \<and> mg_count g = int (size (group_rows (path @ [s]) g)) \<and> 0 < mg_count g \<and> group_ok (path @ [s]) g)"
  by pat_completeness auto
termination by (relation "measure (\<lambda>(path, g). size g)") (auto dest: subgroup_size)

lemma sum_update:
  fixes f :: "'k \<times> 'v \<Rightarrow> 'a multiset"
  assumes "distinct (map fst m)"
  shows "sum_list (map f (AList.update k v m)) + (case map_of m k of None \<Rightarrow> {#} | Some w \<Rightarrow> f (k, w))
     = sum_list (map f m) + f (k, v)"
  using assms
proof (induction m)
  case (Cons p m)
  obtain a b where p: "p = (a, b)" by (cases p)
  show ?case
  proof (cases "a = k")
    case True
    then show ?thesis using p by (simp add: ac_simps)
  next
    case False
    then show ?thesis using Cons p by (simp add: ac_simps split: option.splits)
  qed
qed simp

lemma in_update:
  "distinct (map fst m) \<Longrightarrow> (a, b) \<in> set (AList.update k v m) \<longleftrightarrow> (if a = k then b = v else (a, b) \<in> set m)"
  by (metis (no_types, lifting) distinct_update fun_upd_apply map_of_eq_Some_iff option.inject update_conv')

lemma counted_simps [simp]:
  "mg_title (counted g) = mg_title g" "mg_key (counted g) = mg_key g" "mg_count (counted g) = mg_count g + 1"
  "group_rows path (counted g) = group_rows path g" "group_ok path (counted g) = group_ok path g"
  by (cases g; simp add: counted_def)+

lemma add_leaf_frame [simp]:
  "mg_title (add_leaf path segs leaf g) = mg_title g" "mg_key (add_leaf path segs leaf g) = mg_key g"
  "mg_count (add_leaf path segs leaf g) = mg_count g"
  by (cases g; cases segs; simp add: Let_def)+

text \<open>Adding a key adds exactly that key, at its path, and keeps the groups well formed.\<close>

lemma add_leaf_refines:
  assumes "group_ok path g" "\<not> is_group leaf"
  shows "group_rows path (add_leaf path segs leaf g) = add_mset (path @ segs, leaf) (group_rows path g)
       \<and> group_ok path (add_leaf path segs leaf g)"
  using assms
proof (induction segs arbitrary: path g)
  case Nil
  then show ?case by (cases g) (auto simp: ac_simps)
next
  case (Cons segment segs)
  obtain key title n groups leaves where g: "g = MutableGroup key title n groups leaves" by (cases g)
  let ?p = "path @ [segment]"
  define sub where "sub = (case map_of groups segment of None \<Rightarrow> createMutableGroup (groupNodeKey ?p) segment | Some h \<Rightarrow> h)"
  define new where "new = add_leaf ?p segs leaf (counted sub)"
  have d: "distinct (map fst groups)" using Cons.prems(1) g by simp
  have sub: "group_ok ?p sub" "mg_title sub = segment" "mg_key sub = groupNodeKey ?p" "mg_count sub = int (size (group_rows ?p sub))"
      "group_rows ?p sub = (case map_of groups segment of None \<Rightarrow> {#} | Some h \<Rightarrow> group_rows ?p h)"
    using Cons.prems(1) g by (auto simp: sub_def createMutableGroup_def split: option.split dest!: map_of_SomeD)
  have new: "group_rows ?p new = add_mset (path @ segment # segs, leaf) (group_rows ?p sub)" "group_ok ?p new"
    using Cons.IH[of ?p "counted sub"] sub(1) Cons.prems(2) by (simp_all add: new_def)
  have new_frame: "mg_title new = segment" "mg_key new = groupNodeKey ?p" "mg_count new = mg_count sub + 1"
    using sub(2,3) by (simp_all add: new_def)
  have step: "add_leaf path (segment # segs) leaf g = MutableGroup key title n (AList.update segment new groups) leaves"
    by (simp add: g Let_def sub_def new_def)
  have "group_rows path (add_leaf path (segment # segs) leaf g) = add_mset (path @ segment # segs, leaf) (group_rows path g)"
    using sum_update[OF d, of "\<lambda>(s, g). group_rows (path @ [s]) g" segment new] new(1) sub(5)
    unfolding step by (simp add: g ac_simps split: option.splits)
  moreover have "group_ok path (add_leaf path (segment # segs) leaf g)"
    unfolding step using Cons.prems(1) sub(2-4) new d new_frame
    by (auto simp: g in_update distinct_update split: if_splits)
  ultimately show ?case by simp
qed

text \<open>The order of siblings matters for neither.\<close>

lemma forest_rows_sum: "forest_rows path nodes = sum_list (map (\<lambda>x. forest_rows path [x]) nodes)"
proof (induction nodes)
  case (Cons x nodes)
  then show ?case by (cases x) simp_all
qed simp

lemma forest_rows_perm: "mset xs = mset ys \<Longrightarrow> forest_rows path xs = forest_rows path ys"
  by (metis forest_rows_sum mset_map sum_mset_sum_list)

lemma forest_ok_iff:
  "forest_ok path nodes \<longleftrightarrow> distinct (map node_name (filter is_group nodes)) \<and> (\<forall>x \<in> set nodes. forest_ok path [x])"
proof (induction nodes)
  case (Cons x nodes)
  then show ?case by (cases x) (auto simp: is_group_def)
qed simp

lemma forest_ok_sort: "forest_ok path (js_sort cmp nodes) = forest_ok path nodes"
proof -
  have "mset (map node_name (filter is_group (js_sort cmp nodes))) = mset (map node_name (filter is_group nodes))" by simp
  then have "distinct (map node_name (filter is_group (js_sort cmp nodes))) = distinct (map node_name (filter is_group nodes))"
    by (rule mset_eq_imp_distinct_iff)
  then show ?thesis unfolding forest_ok_iff[of path "js_sort cmp nodes"] forest_ok_iff[of path nodes] by simp
qed

lemma leaf_rows: "\<forall>x \<in> set ls. \<not> is_group x \<Longrightarrow> sum_list (map (\<lambda>x. forest_rows path [x]) ls) = image_mset (Pair path) (mset ls)"
proof (induction ls)
  case (Cons x ls)
  then show ?case by (cases x) (simp_all add: is_group_def)
qed simp

definition level :: "(string \<Rightarrow> string \<Rightarrow> int) \<Rightarrow> MutableRedisKeyGroup \<Rightarrow> RedisKeyTreeNode list" where
  "level collate g = js_sort (compareTreeNodes collate) (map (\<lambda>(s, h). finalizeGroup collate h) (mg_groups g) @ mg_leaves g)"

lemma finalize_level: "finalizeGroup collate g = GroupNode (mg_key g) (mg_title g) (mg_count g) (level collate g)"
  by (cases g) (simp add: level_def)

text \<open>Finalising keeps the rows, and yields a well-formed forest.\<close>

lemma level_refines:
  "group_ok path g \<Longrightarrow> forest_rows path (level collate g) = group_rows path g \<and> forest_ok path (level collate g)"
proof (induction path g rule: group_rows.induct)
  case (1 path key title n groups leaves)
  let ?fin = "\<lambda>(s, h). finalizeGroup collate h"
  have sub: "forest_rows path [?fin (s, h)] = group_rows (path @ [s]) h" "forest_ok path [?fin (s, h)]"
      "node_name (?fin (s, h)) = s" "is_group (?fin (s, h))"
    if "(s, h) \<in> set groups" for s h
    using 1(1)[OF that refl] 1(2) that by (auto simp: finalize_level is_group_def)
  have "sum_list (map (\<lambda>x. forest_rows path [?fin x]) groups) = sum_list (map (\<lambda>(s, h). group_rows (path @ [s]) h) groups)"
    using sub(1) by (intro arg_cong[of _ _ sum_list] map_cong) auto
  then have rows: "forest_rows path (map ?fin groups @ leaves) = group_rows path (MutableGroup key title n groups leaves)"
    using 1(2) leaf_rows[of leaves path] by (simp add: forest_rows_sum[of path "map ?fin groups @ leaves"] o_def)
  have "filter is_group (map ?fin groups @ leaves) = map ?fin groups"
    using sub(4) 1(2) by (auto simp: filter_empty_conv intro!: filter_True)
  moreover have "map node_name (map ?fin groups) = map fst groups"
    using sub(3) by (auto simp: map_eq_conv)
  ultimately have "distinct (map node_name (filter is_group (map ?fin groups @ leaves)))"
    using 1(2) by (simp only: group_ok.simps)
  moreover have "\<not> is_group x \<Longrightarrow> forest_ok path [x]" for x
    by (cases x) (simp_all add: is_group_def)
  ultimately have "forest_ok path (map ?fin groups @ leaves)"
    using sub(2) 1(2) unfolding forest_ok_iff[of path "map ?fin groups @ leaves"] by auto
  then show ?case using rows forest_rows_perm[of "level collate (MutableGroup key title n groups leaves)" "map ?fin groups @ leaves" path]
    by (simp add: level_def forest_ok_sort)
qed

text \<open>What the tree should hold: a row for every named item, with its group path.\<close>

definition key_rows :: "(nat \<times> RedisDataItem) list \<Rightarrow> (string list \<times> RedisKeyTreeNode) list" where
  "key_rows = List.map_filter (\<lambda>(index, item).
     map_option (\<lambda>name. (groupSegments name, key_leaf item name index)) (rd_name item))"

lemma add_items_refine:
  "group_ok [] g \<Longrightarrow> group_ok [] (foldl add_item g xs)
     \<and> group_rows [] (foldl add_item g xs) = group_rows [] g + mset (key_rows xs)"
proof (induction xs arbitrary: g)
  case Nil
  then show ?case by (simp add: key_rows_def map_filter_simps)
next
  case (Cons x xs)
  obtain index item where x: "x = (index, item)" by (cases x)
  have leaf: "\<not> is_group (key_leaf item name index)" for name by (simp add: is_group_def key_leaf_def)
  have "group_ok [] (add_item g x) \<and> group_rows [] (add_item g x) = group_rows [] g + mset (key_rows [x])"
    using add_leaf_refines[OF Cons.prems leaf] Cons.prems
    by (simp add: add_item_def x key_rows_def map_filter_simps split: option.split)
  then show ?case using Cons.IH[of "add_item g x"]
    by (simp add: key_rows_def map_filter_simps x ac_simps split: option.split)
qed

lemma tree_refines:
  "forest_rows [] (buildRedisKeyTree collate items) = mset (key_rows (enumerate 0 items))
   \<and> forest_ok [] (buildRedisKeyTree collate items)"
proof -
  define root where "root = foldl add_item (createMutableGroup ''redis-root'' []) (enumerate 0 items)"
  have "group_ok [] root \<and> group_rows [] root = mset (key_rows (enumerate 0 items))"
    using add_items_refine[of "createMutableGroup ''redis-root'' []" "enumerate 0 items"]
    by (simp add: root_def createMutableGroup_def)
  then show ?thesis using level_refines[of "[]" root collate]
    by (simp add: buildRedisKeyTree_def Let_def root_def[symmetric] level_def)
qed

text \<open>
  C24: The tree of keys holds exactly the keys of the list. Every named item is found once, under
  the groups its name spells (the segments before the last colon, or none if one of them is
  empty), with its row index; nothing else is in the tree; groups have distinct names among their
  siblings, carry the key of their path, are never empty, and count the keys below them.
\<close>
theorem redis_tree_refines_rows:
  "forest_rows [] (buildRedisKeyTree collate items) = mset (key_rows (enumerate 0 items))
   \<and> forest_ok [] (buildRedisKeyTree collate items)"
  using tree_refines by blast

section \<open>Keys of groups and order of nodes\<close>

function forest_paths :: "string list \<Rightarrow> RedisKeyTreeNode list \<Rightarrow> string list list" where
  "forest_paths path [] = []"
| "forest_paths path (KeyNode k n i ty t # nodes) = forest_paths path nodes"
| "forest_paths path (GroupNode k n c children # nodes) =
     (path @ [n]) # forest_paths (path @ [n]) children @ forest_paths path nodes"
  by pat_completeness auto
termination by size_change

lemma collect_paths: "forest_ok path nodes \<Longrightarrow> collectRedisGroupKeys nodes = map groupNodeKey (forest_paths path nodes)"
  by (induction path nodes rule: forest_ok.induct) auto

lemma paths_below:
  "p \<in> set (forest_paths path nodes) \<Longrightarrow> \<exists>x \<in> set (filter is_group nodes). prefix (path @ [node_name x]) p"
proof (induction path nodes rule: forest_paths.induct)
  case (3 path k n c children nodes)
  then consider "p = path @ [n]" | "p \<in> set (forest_paths (path @ [n]) children)" | "p \<in> set (forest_paths path nodes)" by auto
  then show ?case
  proof cases
    case 2
    then have "prefix (path @ [n]) p" using 3(1) by (meson append_prefixD)
    then show ?thesis by (simp add: is_group_def)
  qed (use 3(2) in \<open>auto simp: is_group_def\<close>)
qed (auto simp: is_group_def)

lemma prefix_snoc_unique: "prefix (path @ [a]) p \<Longrightarrow> prefix (path @ [b]) p \<Longrightarrow> a = b"
  by (auto simp: prefix_def)

lemma distinct_paths: "forest_ok path nodes \<Longrightarrow> distinct (forest_paths path nodes)"
proof (induction path nodes rule: forest_ok.induct)
  case (3 path k n c children nodes)
  then have d: "distinct (forest_paths (path @ [n]) children)" "distinct (forest_paths path nodes)"
    and n: "n \<notin> node_name ` set (filter is_group nodes)" by simp_all
  have child: "prefix (path @ [n]) p \<and> p \<noteq> path @ [n]" if "p \<in> set (forest_paths (path @ [n]) children)" for p
    using paths_below[OF that] by (auto simp: prefix_def)
  have other: "\<not> prefix (path @ [n]) p" if "p \<in> set (forest_paths path nodes)" for p
    using paths_below[OF that] n prefix_snoc_unique by (metis image_eqI)
  show ?case using d child other by auto
qed simp_all

lemma groupNodeKey_inject: "p \<noteq> [] \<Longrightarrow> q \<noteq> [] \<Longrightarrow> groupNodeKey p = groupNodeKey q \<longleftrightarrow> p = q"
proof
  assume ne: "p \<noteq> []" "q \<noteq> []" and eq: "groupNodeKey p = groupNodeKey q"
  have "split_on CHR ''/'' (join ''/'' (map encodeURIComponent r)) = map encodeURIComponent r" if "r \<noteq> []" for r
    using that encode_no_slash by (intro split_on_join) auto
  then have "map encodeURIComponent p = map encodeURIComponent q"
    using eq ne by (metis groupNodeKey_def same_append_eq)
  then show "p = q" by (simp add: inj_on_def inj_map_eq_map)
qed simp

text \<open>
  Nodes of the tree can be told apart. The keys of the groups are distinct, whatever the names
  of the keys contain; the keys of the leaves identify their names, and are no keys of groups or of the draft row.
\<close>
theorem redis_node_keys_distinct:
  "distinct (collectRedisGroupKeys (buildRedisKeyTree collate items))
   \<and> (redisKeyRowIdentity a = redisKeyRowIdentity b \<longleftrightarrow> a = b)
   \<and> redisKeyRowIdentity a \<noteq> REDIS_DRAFT_ROW_IDENTITY \<and> redisKeyRowIdentity a \<noteq> groupNodeKey path"
proof -
  let ?t = "buildRedisKeyTree collate items"
  have ok: "forest_ok [] ?t" using tree_refines by blast
  have "inj_on groupNodeKey (set (forest_paths [] ?t))"
  proof (rule inj_onI)
    fix p q assume "p \<in> set (forest_paths [] ?t)" "q \<in> set (forest_paths [] ?t)" "groupNodeKey p = groupNodeKey q"
    moreover from this(1,2) have "p \<noteq> []" "q \<noteq> []" by (auto dest!: paths_below)
    ultimately show "p = q" by (simp add: groupNodeKey_inject)
  qed
  then have "distinct (collectRedisGroupKeys ?t)"
    using collect_paths[OF ok] distinct_paths[OF ok] by (simp add: distinct_map)
  then show ?thesis by (simp add: redisKeyRowIdentity_def REDIS_DRAFT_ROW_IDENTITY_def groupNodeKey_def)
qed

text \<open>Siblings are sorted: groups before keys, and each kind by the collation of its names.\<close>

interpretation tree_cmp: comparator "compareTreeNodes (localeCompare collationKey)" "\<lambda>_. True" for collationKey
proof unfold_locales
  fix x y z :: RedisKeyTreeNode
  let ?c = "compareTreeNodes (localeCompare collationKey)"
  show "?c x y < 0 \<longleftrightarrow> ?c y x > 0"
    using collation.antisym[where x = "node_name x" and y = "node_name y" and collationKey = collationKey] by (auto simp: compareTreeNodes_def)
  show "?c x y \<le> 0 \<Longrightarrow> ?c y z \<le> 0 \<Longrightarrow> ?c x z \<le> 0"
    using collation.trans[where x = "node_name x" and y = "node_name y" and z = "node_name z" and collationKey = collationKey]
    by (auto simp: compareTreeNodes_def split: if_splits)
qed

lemma tree_level_sorted:
  "sorted_wrt (\<lambda>a b. compareTreeNodes (localeCompare collationKey) a b \<le> 0) (buildRedisKeyTree (localeCompare collationKey) items)"
  "sorted_wrt (\<lambda>a b. compareTreeNodes (localeCompare collationKey) a b \<le> 0) (node_children (finalizeGroup (localeCompare collationKey) g))"
  unfolding buildRedisKeyTree_def Let_def finalize_level[of _ g] RedisKeyTreeNode.sel level_def
  by (rule tree_cmp.sorted_sort; simp)+

end
