(* ===== verification/Redis_View.thy ===== *)
theory Redis_View
  imports Redis_Keys
begin

text \<open>
  The state of the Redis view, \<open>blocks/RedisAllData\<close>: which groups of the key tree are expanded
  (\<open>redisExpansion.ts\<close>), edit sessions of rows (\<open>redisEditSession.ts\<close>), and the stored view mode (\<open>redisViewMode.ts\<close>).
  Sets built from a list are used only for membership, so a \<open>Set\<close> is the list it is built from.
\<close>

section \<open>Expanded groups\<close>

record RedisExpansionState =
  expandedKeys :: "string list"
  userExpandedKeys :: "string list"
  userCollapsedKeys :: "string list"
  searchCollapsedKeys :: "string list"
  searchKey :: string
  ex_initialized :: bool

datatype RedisExpansionAction =
    Reconcile (re_active: bool) (validGroupKeys: "string list") (automaticExpandedKeys: "string list") (re_searchKey: string)
  | UserChange "string list"

definition INITIAL_REDIS_EXPANSION_STATE :: RedisExpansionState where
  "INITIAL_REDIS_EXPANSION_STATE =
     \<lparr>expandedKeys = [], userExpandedKeys = [], userCollapsedKeys = [], searchCollapsedKeys = [], searchKey = [],
      ex_initialized = False\<rparr>"

abbreviation uniqueKeys :: "string list \<Rightarrow> string list" where
  "uniqueKeys \<equiv> uniq"

definition equalKeys :: "string list \<Rightarrow> string list \<Rightarrow> bool" where
  "equalKeys left right \<longleftrightarrow> length left = length right \<and> list_all (\<lambda>(a, b). a = b) (zip left right)"

definition updateIntentKeys :: "string list \<Rightarrow> string list \<Rightarrow> string list \<Rightarrow> string list" where
  "updateIntentKeys current added removed = uniqueKeys (filter (\<lambda>k. k \<notin> set removed) current @ added)"

definition reconcileExpandedKeys :: "string list \<Rightarrow> string list \<Rightarrow> string list \<Rightarrow> string list \<Rightarrow> string list" where
  "reconcileExpandedKeys automatic userExpanded userCollapsed valid =
     filter (\<lambda>k. k \<in> set valid \<and> k \<notin> set userCollapsed) (uniqueKeys (automatic @ userExpanded))"

fun redisExpansionReducer :: "RedisExpansionState \<Rightarrow> RedisExpansionAction \<Rightarrow> RedisExpansionState" where
  "redisExpansionReducer st (UserChange keys) =
     (let expanded = uniqueKeys keys
      in if equalKeys (expandedKeys st) expanded then st
         else
           let openedKeys = filter (\<lambda>k. k \<notin> set (expandedKeys st)) expanded;
               collapsedKeys = filter (\<lambda>k. k \<notin> set expanded) (expandedKeys st)
           in if searchKey st \<noteq> []
              then st\<lparr>expandedKeys := expanded,
                      searchCollapsedKeys := updateIntentKeys (searchCollapsedKeys st) collapsedKeys openedKeys\<rparr>
              else st\<lparr>expandedKeys := expanded,
                      userExpandedKeys := updateIntentKeys (userExpandedKeys st) openedKeys collapsedKeys,
                      userCollapsedKeys := updateIntentKeys (userCollapsedKeys st) collapsedKeys openedKeys\<rparr>)"
| "redisExpansionReducer st (Reconcile active valid automatic key) =
     (if \<not> active then (if ex_initialized st \<or> expandedKeys st \<noteq> [] then INITIAL_REDIS_EXPANSION_STATE else st)
      else
        let automatic' = uniqueKeys (filter (\<lambda>k. k \<in> set valid) automatic);
            searchChanged = (searchKey st \<noteq> key);
            searchCollapsed = (if key \<noteq> [] \<and> \<not> searchChanged then searchCollapsedKeys st else []);
            expanded = (if key \<noteq> [] then reconcileExpandedKeys automatic' [] searchCollapsed valid
                        else reconcileExpandedKeys automatic' (userExpandedKeys st) (userCollapsedKeys st) valid)
        in if equalKeys (expandedKeys st) expanded \<and> equalKeys (searchCollapsedKeys st) searchCollapsed
              \<and> searchKey st = key \<and> ex_initialized st
           then st
           else st\<lparr>expandedKeys := expanded, searchCollapsedKeys := searchCollapsed, searchKey := key, ex_initialized := True\<rparr>)"

lemma equalKeys_iff [simp]: "equalKeys xs ys \<longleftrightarrow> xs = ys"
proof -
  have "length xs = length ys \<Longrightarrow> list_all (\<lambda>(a, b). a = b) (zip xs ys) \<longleftrightarrow> xs = ys"
    by (induction xs ys rule: list_induct2) auto
  then show ?thesis by (auto simp: equalKeys_def list_all_iff)
qed

text \<open>An action that changes what the user wants of a group: opening or closing it while browsing, or leaving the view.\<close>

fun touches :: "string \<Rightarrow> RedisExpansionState \<Rightarrow> RedisExpansionAction \<Rightarrow> bool" where
  "touches k st (UserChange keys) \<longleftrightarrow> searchKey st = [] \<and> (k \<in> set (expandedKeys st)) \<noteq> (k \<in> set keys)"
| "touches k st (Reconcile active valid automatic key) \<longleftrightarrow> \<not> active"

fun undisturbed :: "string \<Rightarrow> RedisExpansionState \<Rightarrow> RedisExpansionAction list \<Rightarrow> bool" where
  "undisturbed k st [] \<longleftrightarrow> True"
| "undisturbed k st (a # as) \<longleftrightarrow> \<not> touches k st a \<and> undisturbed k (redisExpansionReducer st a) as"

lemma set_updateIntentKeys [simp]: "set (updateIntentKeys current added removed) = (set current - set removed) \<union> set added"
  by (auto simp: updateIntentKeys_def)

lemma untouched_step:
  "\<not> touches k st a \<Longrightarrow> (k \<in> set (userExpandedKeys (redisExpansionReducer st a)) \<longleftrightarrow> k \<in> set (userExpandedKeys st))
     \<and> (k \<in> set (userCollapsedKeys (redisExpansionReducer st a)) \<longleftrightarrow> k \<in> set (userCollapsedKeys st))"
  by (cases a) (auto simp: Let_def)

lemma untouched_run:
  "undisturbed k st as \<Longrightarrow> (k \<in> set (userExpandedKeys (foldl redisExpansionReducer st as)) \<longleftrightarrow> k \<in> set (userExpandedKeys st))
     \<and> (k \<in> set (userCollapsedKeys (foldl redisExpansionReducer st as)) \<longleftrightarrow> k \<in> set (userCollapsedKeys st))"
  by (induction "as" arbitrary: st) (simp_all add: untouched_step)

lemma toggle_intent:
  "searchKey st = [] \<Longrightarrow> (k \<in> set (expandedKeys st)) \<noteq> (k \<in> set keys)
   \<Longrightarrow> (k \<in> set (userExpandedKeys (redisExpansionReducer st (UserChange keys))) \<longleftrightarrow> k \<in> set keys)
     \<and> (k \<in> set (userCollapsedKeys (redisExpansionReducer st (UserChange keys))) \<longleftrightarrow> k \<notin> set keys)"
  by (cases "expandedKeys st = uniq keys") (auto simp: Let_def)

lemma browse_expanded:
  "set (expandedKeys (redisExpansionReducer st (Reconcile True valid automatic []))) =
     {k \<in> set valid. (k \<in> set automatic \<or> k \<in> set (userExpandedKeys st)) \<and> k \<notin> set (userCollapsedKeys st)}"
  by (auto simp: Let_def reconcileExpandedKeys_def)

text \<open>
  C33: The view respects what the user opens and closes. After the user opens or closes a group while
  browsing, reloads of the keys, searches, and other groups being opened and closed, in any number
  and order, do not change it: when the groups are next computed for browsing, the group is
  expanded exactly if the user had opened it and it still exists, also where it would be expanded automatically.
\<close>
theorem expansion_intent_survives:
  assumes "searchKey st = []" "(k \<in> set (expandedKeys st)) \<noteq> (k \<in> set keys)"
    and "undisturbed k (redisExpansionReducer st (UserChange keys)) as"
    and "st' = foldl redisExpansionReducer (redisExpansionReducer st (UserChange keys)) as"
  shows "k \<in> set (expandedKeys (redisExpansionReducer st' (Reconcile True valid automatic []))) \<longleftrightarrow> k \<in> set keys \<and> k \<in> set valid"
  using toggle_intent[OF assms(1,2)] untouched_run[OF assms(3)] browse_expanded[of st' valid automatic] assms(4) by auto

theorem expansion_intent_survives_witness:
  "''g'' \<notin> set (expandedKeys (redisExpansionReducer
      (foldl redisExpansionReducer
         (redisExpansionReducer (redisExpansionReducer INITIAL_REDIS_EXPANSION_STATE (Reconcile True [''g''] [''g''] [])) (UserChange []))
         [Reconcile True [''g''] [''g''] ''find'', UserChange [''g'']])
      (Reconcile True [''g''] [''g''] [])))"
proof -
  let ?st = "redisExpansionReducer INITIAL_REDIS_EXPANSION_STATE (Reconcile True [''g''] [''g''] [])"
  let ?as = "[Reconcile True [''g''] [''g''] ''find'', UserChange [''g'']]"
  have "searchKey ?st = []" "(''g'' \<in> set (expandedKeys ?st)) \<noteq> (''g'' \<in> set [])"
    "undisturbed ''g'' (redisExpansionReducer ?st (UserChange [])) ?as" by code_simp+
  from expansion_intent_survives[OF this refl, of "[''g'']" "[''g'']"] show ?thesis
    by (simp only: list.set empty_iff simp_thms)
qed

section \<open>Edit sessions\<close>

record RedisEditSessionToken =
  es_identity :: RedisRowIdentity
  es_generation :: int
  es_resetGeneration :: int

record RedisEditSessionRegistry =
  nextGeneration :: int
  resetGeneration :: int
  latestGenerationByIdentity :: "(RedisRowIdentity \<times> int) list"

definition new_registry :: RedisEditSessionRegistry where
  "new_registry = \<lparr>nextGeneration = 0, resetGeneration = 0, latestGenerationByIdentity = []\<rparr>"

definition begin_session :: "RedisRowIdentity \<Rightarrow> RedisEditSessionRegistry \<Rightarrow> RedisEditSessionToken \<times> RedisEditSessionRegistry" where
  "begin_session identity r =
     (let generation = nextGeneration r + 1
      in (\<lparr>es_identity = identity, es_generation = generation, es_resetGeneration = resetGeneration r\<rparr>,
          r\<lparr>nextGeneration := generation,
            latestGenerationByIdentity := AList.update identity generation (latestGenerationByIdentity r)\<rparr>))"

definition invalidateAll :: "RedisEditSessionRegistry \<Rightarrow> RedisEditSessionRegistry" where
  "invalidateAll r = r\<lparr>resetGeneration := resetGeneration r + 1, latestGenerationByIdentity := []\<rparr>"

definition isLatest_session :: "RedisEditSessionRegistry \<Rightarrow> RedisEditSessionToken option \<Rightarrow> bool" where
  "isLatest_session r session =
     (case session of None \<Rightarrow> False
      | Some t \<Rightarrow> es_resetGeneration t = resetGeneration r
          \<and> map_of (latestGenerationByIdentity r) (es_identity t) = Some (es_generation t))"

datatype session_op = BeginSession RedisRowIdentity | InvalidateAll

fun session_step :: "RedisEditSessionRegistry \<Rightarrow> session_op \<Rightarrow> RedisEditSessionRegistry" where
  "session_step r (BeginSession i) = snd (begin_session i r)"
| "session_step r InvalidateAll = invalidateAll r"

text \<open>A token that is not the latest one never becomes it: later generations are greater.\<close>

definition stale :: "RedisEditSessionToken \<Rightarrow> RedisEditSessionRegistry \<Rightarrow> bool" where
  "stale t r \<longleftrightarrow> es_generation t \<le> nextGeneration r \<and> es_resetGeneration t \<le> resetGeneration r
     \<and> (es_resetGeneration t < resetGeneration r \<or> map_of (latestGenerationByIdentity r) (es_identity t) \<noteq> Some (es_generation t))"

interpretation stale_token: input_machine session_step "stale t" for t
proof unfold_locales
  fix r op assume "stale t r"
  then show "stale t (session_step r op)"
    by (cases op) (auto simp: stale_def begin_session_def invalidateAll_def Let_def update_conv')
qed

definition fresh_token :: "RedisEditSessionToken \<Rightarrow> RedisEditSessionRegistry \<Rightarrow> bool" where
  "fresh_token t r \<longleftrightarrow> isLatest_session r (Some t) \<and> es_generation t \<le> nextGeneration r"

lemma fresh_step:
  assumes "fresh_token t r"
  shows "if op = BeginSession (es_identity t) \<or> op = InvalidateAll then stale t (session_step r op) else fresh_token t (session_step r op)"
  using assms by (cases op) (auto simp: fresh_token_def stale_def isLatest_session_def begin_session_def invalidateAll_def Let_def update_conv')

lemma fresh_run:
  "fresh_token t r \<Longrightarrow> isLatest_session (foldl session_step r ops) (Some t)
     \<longleftrightarrow> BeginSession (es_identity t) \<notin> set ops \<and> InvalidateAll \<notin> set ops"
proof (induction ops arbitrary: r)
  case Nil
  then show ?case by (simp add: fresh_token_def)
next
  case (Cons op ops)
  show ?case
  proof (cases "op = BeginSession (es_identity t) \<or> op = InvalidateAll")
    case True
    then have "stale t (session_step r op)" using fresh_step[OF Cons.prems, of op] by simp
    then have "stale t (foldl session_step (session_step r op) ops)" by (rule stale_token.run_keeps)
    then show ?thesis using True by (auto simp: stale_def isLatest_session_def)
  next
    case False
    then show ?thesis using Cons.IH[of "session_step r op"] fresh_step[OF Cons.prems, of op] by auto
  qed
qed

text \<open>
  An answer for an edited row is accepted exactly as long as its session lasts. A session is
  the latest one after any sequence of later operations if and only if none of them begins a session of the
  same row and none invalidates all sessions.
\<close>
theorem edit_session_latest:
  "isLatest_session (foldl session_step (snd (begin_session i r)) ops) (Some (fst (begin_session i r)))
     \<longleftrightarrow> BeginSession i \<notin> set ops \<and> InvalidateAll \<notin> set ops"
  using fresh_run[of "fst (begin_session i r)" "snd (begin_session i r)" ops]
  by (simp add: fresh_token_def isLatest_session_def begin_session_def Let_def update_conv')

section \<open>The stored view mode\<close>

datatype RedisKeyViewMode = ListMode | TreeMode

text \<open>A storage, when there is one; reading and writing may throw.\<close>

record RedisViewModeStorage =
  stored_items :: "(string \<times> string) list"
  read_throws :: bool
  write_throws :: bool

fun mode_text :: "RedisKeyViewMode \<Rightarrow> string" where
  "mode_text ListMode = ''list''"
| "mode_text TreeMode = ''tree''"

definition createRedisKeyViewModeStorageKey :: "string \<Rightarrow> string \<Rightarrow> string" where
  "createRedisKeyViewModeStorageKey clientEdition runtimeEnv =
     ''chat2db.'' @ clientEdition @ ''.'' @ runtimeEnv @ ''.redis.key-view-mode.v1''"

definition readRedisKeyViewMode :: "RedisViewModeStorage option \<Rightarrow> string \<Rightarrow> RedisKeyViewMode" where
  "readRedisKeyViewMode storage key =
     (case storage of
        None \<Rightarrow> ListMode
      | Some s \<Rightarrow> if read_throws s then ListMode
                  else if map_of (stored_items s) key = Some ''tree'' then TreeMode else ListMode)"

definition persistRedisKeyViewMode ::
    "RedisViewModeStorage option \<Rightarrow> string \<Rightarrow> RedisKeyViewMode \<Rightarrow> RedisViewModeStorage option" where
  "persistRedisKeyViewMode storage key mode =
     map_option (\<lambda>s. if write_throws s then s else s\<lparr>stored_items := AList.update key (mode_text mode) (stored_items s)\<rparr>) storage"

lemma view_mode_roundtrip:
  "\<not> read_throws s \<Longrightarrow> \<not> write_throws s \<Longrightarrow> readRedisKeyViewMode (persistRedisKeyViewMode (Some s) key mode) key = mode"
  by (cases mode) (auto simp: readRedisKeyViewMode_def persistRedisKeyViewMode_def update_conv')

end
