(* ===== verification/Sql_Statements.thy ===== *)
theory Sql_Statements
  imports Js_Prelude
begin

text \<open>
  Statements as the SQL parser of the backend reports them, \<open>typings/sqlParser.ts\<close>, with the fields the
  modelled helpers of the editor read. Rows and columns count from 1; a missing number is \<open>None\<close> where the type allows it,
  and 0 where it does not.
\<close>

datatype InsertValueMappingStatusEnum = MATCHED | UNMAPPED_COLUMN | UNMAPPED_VALUE

record SimpleInsertValueMapping =
  columnStartRowNum :: "int option"
  columnStartColNum :: "int option"
  columnEndRowNum :: "int option"
  columnEndColNum :: "int option"
  valueStartRowNum :: "int option"
  valueStartColNum :: "int option"
  valueEndRowNum :: "int option"
  valueEndColNum :: "int option"
  rowStartRowNum :: "int option"
  rowStartColNum :: "int option"
  rowEndRowNum :: "int option"
  rowEndColNum :: "int option"
  mp_rowIndex :: int
  mp_columnIndex :: int
  mappingStatus :: InsertValueMappingStatusEnum

record ISimpleColumnVO =
  columnName :: "string option"
  dataType :: "string option"

record SimpleIdentifier =
  id_name :: string
  id_alias :: string
  id_type :: string
  identifierDatabase :: string
  identifierSchema :: string
  identifierTable :: string
  identifierStartRowNum :: int
  identifierStartColNum :: int
  identifierEndRowNum :: int
  identifierEndColNum :: int
  aliasStartRowNum :: int
  aliasStartColNum :: int
  aliasEndRowNum :: int
  aliasEndColNum :: int

datatype StatementValidTypeEnum = VALID | INVALID

record SqlStatement =
  st_sql :: string
  sqlStartRowNum :: int
  sqlStartColNum :: int
  sqlEndRowNum :: int
  sqlEndColNum :: int
  st_type :: string
  statementType :: StatementValidTypeEnum
  identifiers :: "SimpleIdentifier list"
  tableColumns :: "ISimpleColumnVO list option list option"
  insertValueMappings :: "SimpleInsertValueMapping list option"

end
