(* ===== verification/Insert_Hints.thy ===== *)
theory Insert_Hints
  imports Js_Sort Sql_Statements
begin

text \<open>
  Hints for the values of an \<open>INSERT\<close> statement, \<open>components/SQLEditor/helper/insertValueHighlight.ts\<close>: which
  ranges are highlighted for a selection, what is known of the value at the cursor, and markers for
  rows with too few or too many values.

  The mappings of columns to values come from the SQL parser of the backend. A missing number
  is \<open>None\<close>. The text of the editor is the parameter \<open>getTextInRange\<close>.
\<close>

section \<open>Positions and ranges\<close>

record TextRange =
  startLineNumber :: int
  startColumn :: int
  endLineNumber :: int
  endColumn :: int

record TextPosition =
  lineNumber :: int
  column :: int

definition comparePosition :: "int \<Rightarrow> int \<Rightarrow> int \<Rightarrow> int \<Rightarrow> int" where
  "comparePosition lineA colA lineB colB = (if lineA \<noteq> lineB then lineA - lineB else colA - colB)"

definition hasValidRange :: "TextRange \<Rightarrow> bool" where
  "hasValidRange r \<longleftrightarrow> 0 < startLineNumber r \<and> 0 < startColumn r \<and> 0 < endLineNumber r \<and> 0 < endColumn r
     \<and> comparePosition (startLineNumber r) (startColumn r) (endLineNumber r) (endColumn r) \<le> 0"

definition merge_two :: "TextRange \<Rightarrow> TextRange \<Rightarrow> TextRange" where
  "merge_two merged rg =
     \<lparr>startLineNumber = (if comparePosition (startLineNumber rg) (startColumn rg) (startLineNumber merged) (startColumn merged) < 0
        then startLineNumber rg else startLineNumber merged),
      startColumn = (if comparePosition (startLineNumber rg) (startColumn rg) (startLineNumber merged) (startColumn merged) < 0
        then startColumn rg else startColumn merged),
      endLineNumber = (if comparePosition (endLineNumber rg) (endColumn rg) (endLineNumber merged) (endColumn merged) > 0
        then endLineNumber rg else endLineNumber merged),
      endColumn = (if comparePosition (endLineNumber rg) (endColumn rg) (endLineNumber merged) (endColumn merged) > 0
        then endColumn rg else endColumn merged)\<rparr>"

definition mergeRanges :: "TextRange list \<Rightarrow> TextRange option" where
  "mergeRanges ranges =
     (case filter hasValidRange ranges of [] \<Rightarrow> None | r # rs \<Rightarrow> Some (foldl merge_two r rs))"

definition rangesIntersect :: "TextRange \<Rightarrow> TextRange \<Rightarrow> bool" where
  "rangesIntersect a b \<longleftrightarrow>
     comparePosition (startLineNumber a) (startColumn a) (endLineNumber b) (endColumn b) < 0
     \<and> comparePosition (startLineNumber b) (startColumn b) (endLineNumber a) (endColumn a) < 0"

definition isCollapsedRange :: "TextRange \<Rightarrow> bool" where
  "isCollapsedRange r \<longleftrightarrow> startLineNumber r = endLineNumber r \<and> startColumn r = endColumn r"

definition isPositionInRange :: "int \<Rightarrow> int \<Rightarrow> TextRange \<Rightarrow> bool" where
  "isPositionInRange line col r \<longleftrightarrow>
     comparePosition (startLineNumber r) (startColumn r) line col \<le> 0
     \<and> comparePosition line col (endLineNumber r) (endColumn r) \<le> 0"

definition rangesTouch :: "TextRange \<Rightarrow> TextRange \<Rightarrow> bool" where
  "rangesTouch a b =
     (if isCollapsedRange a then isPositionInRange (startLineNumber a) (startColumn a) b
      else if isCollapsedRange b then isPositionInRange (startLineNumber b) (startColumn b) a
      else rangesIntersect a b)"

section \<open>Ranges of a mapping\<close>

definition getColumnRange :: "SimpleInsertValueMapping \<Rightarrow> TextRange" where
  "getColumnRange m = \<lparr>startLineNumber = the_default 0 (columnStartRowNum m), startColumn = the_default 0 (columnStartColNum m),
     endLineNumber = the_default 0 (columnEndRowNum m), endColumn = the_default 0 (columnEndColNum m)\<rparr>"

definition getValueRange :: "SimpleInsertValueMapping \<Rightarrow> TextRange" where
  "getValueRange m = \<lparr>startLineNumber = the_default 0 (valueStartRowNum m), startColumn = the_default 0 (valueStartColNum m),
     endLineNumber = the_default 0 (valueEndRowNum m), endColumn = the_default 0 (valueEndColNum m)\<rparr>"

definition getRowRange :: "SimpleInsertValueMapping \<Rightarrow> TextRange" where
  "getRowRange m = \<lparr>startLineNumber = the_default 0 (rowStartRowNum m), startColumn = the_default 0 (rowStartColNum m),
     endLineNumber = the_default 0 (rowEndRowNum m), endColumn = the_default 0 (rowEndColNum m)\<rparr>"

section \<open>Highlighted ranges\<close>

definition isHighlightMapping :: "SimpleInsertValueMapping \<Rightarrow> bool" where
  "isHighlightMapping m \<longleftrightarrow> mappingStatus m = MATCHED \<and> hasValidRange (getColumnRange m) \<and> hasValidRange (getValueRange m)"

definition getInsertValueHighlightRanges :: "SqlStatement option \<Rightarrow> TextRange option \<Rightarrow> TextRange list" where
  "getInsertValueHighlightRanges statement selection =
     (case (statement, selection) of
        (Some st, Some sel) \<Rightarrow>
          if st_type st \<noteq> ''INSERT'' then []
          else
            let mappings = filter isHighlightMapping (or_empty (insertValueMappings st))
            in (case List.find (\<lambda>m. rangesTouch (getColumnRange m) sel) mappings of
                  Some selectedColumn \<Rightarrow>
                    filter hasValidRange (map getValueRange
                      (filter (\<lambda>m. mp_columnIndex m = mp_columnIndex selectedColumn) mappings))
                | None \<Rightarrow>
                    (case List.find (\<lambda>m. rangesTouch (getValueRange m) sel) mappings of
                       None \<Rightarrow> []
                     | Some selectedValue \<Rightarrow> filter hasValidRange [getColumnRange selectedValue]))
      | _ \<Rightarrow> [])"

section \<open>The hint at the cursor\<close>

record InsertValueHintItem =
  it_rowIndex :: int
  it_columnIndex :: int
  it_fieldName :: string
  it_fieldType :: "string option"
  it_label :: string
  it_range :: TextRange
  it_active :: bool

record InsertValueHintContext =
  cx_rowIndex :: int
  cx_columnIndex :: int
  cx_fieldName :: string
  cx_fieldType :: "string option"
  cx_hints :: "InsertValueHintItem list"
  cx_highlightRanges :: "TextRange list"
  cx_rowRange :: TextRange
  cx_valueRange :: "TextRange option"
  cx_editingValue :: bool

type_synonym GetTextInRange = "(TextRange \<Rightarrow> string option) option"

definition getCurrentInsertValueMapping ::
    "SimpleInsertValueMapping list \<Rightarrow> TextPosition \<Rightarrow> SimpleInsertValueMapping option" where
  "getCurrentInsertValueMapping mappings cursor =
     (case List.find (\<lambda>m. hasValidRange (getValueRange m) \<and> isPositionInRange (lineNumber cursor) (column cursor) (getValueRange m)) mappings of
        Some m \<Rightarrow> Some m
      | None \<Rightarrow>
          (case List.find (\<lambda>m. mappingStatus m = UNMAPPED_COLUMN) mappings of
             Some m \<Rightarrow> Some m
           | None \<Rightarrow>
               let valueMappings = filter (\<lambda>m. hasValidRange (getValueRange m)) mappings
               in if valueMappings = [] then List.find (\<lambda>m. mappingStatus m \<noteq> UNMAPPED_VALUE) mappings
                  else (case List.find (\<lambda>m. comparePosition (lineNumber cursor) (column cursor)
                                (endLineNumber (getValueRange m)) (endColumn (getValueRange m)) \<le> 0) valueMappings of
                          Some m \<Rightarrow> Some m
                        | None \<Rightarrow> Some (last valueMappings))))"

definition isFollowedByValueDelimiter :: "string \<Rightarrow> bool" where
  "isFollowedByValueDelimiter s \<longleftrightarrow> (case trim_start s of [] \<Rightarrow> False | c # cs \<Rightarrow> c = CHR '','' \<or> c = CHR '')'')"

definition isEditingInsertValueSlot ::
    "SimpleInsertValueMapping \<Rightarrow> TextPosition \<Rightarrow> TextRange \<Rightarrow> string \<Rightarrow> string \<Rightarrow> bool" where
  "isEditingInsertValueSlot m cursor valueRange valueText textAfterCursor =
     (if mappingStatus m = UNMAPPED_COLUMN then True
      else if \<not> hasValidRange valueRange then False
      else if \<not> isPositionInRange (lineNumber cursor) (column cursor) valueRange then False
      else if isCollapsedRange valueRange then True
      else if trim valueText = [] then True
      else if comparePosition (lineNumber cursor) (column cursor) (endLineNumber valueRange) (endColumn valueRange) < 0 then True
      else \<not> isFollowedByValueDelimiter textAfterCursor)"

text \<open>The text of a range, taken from the statement; one line at a time.\<close>

definition statement_line :: "SqlStatement \<Rightarrow> TextRange \<Rightarrow> int \<Rightarrow> string" where
  "statement_line st r n =
     (let sqlLines = split_line_breaks (st_sql st);
          lineIndex = n - sqlStartRowNum st;
          line = (if 0 \<le> lineIndex \<and> nat lineIndex < length sqlLines then sqlLines ! nat lineIndex else []);
          baseColumn = (if n = sqlStartRowNum st then sqlStartColNum st else 1);
          startCol = (if n = startLineNumber r then startColumn r else baseColumn);
          endCol = (if n = endLineNumber r then endColumn r else baseColumn + int (length line))
      in drop (nat (startCol - baseColumn)) (take (nat (endCol - baseColumn)) line))"

definition getStatementTextInRange :: "SqlStatement \<Rightarrow> TextRange \<Rightarrow> string" where
  "getStatementTextInRange st r = join [LF] (map (statement_line st r) [startLineNumber r .. endLineNumber r])"

definition strip_comma :: "string \<Rightarrow> string" where
  "strip_comma s = (if s \<noteq> [] \<and> last s = CHR '','' then butlast s else s)"

definition getColumnName :: "SqlStatement \<Rightarrow> TextRange \<Rightarrow> GetTextInRange \<Rightarrow> string" where
  "getColumnName st r getText =
     (let shown = (case getText of None \<Rightarrow> None | Some f \<Rightarrow> f r)
      in trim (strip_comma (trim (the_default (getStatementTextInRange st r) shown))))"

definition quoted_by :: "char \<Rightarrow> char \<Rightarrow> string \<Rightarrow> bool" where
  "quoted_by a b s \<longleftrightarrow> startsWith s [a] \<and> endsWith s [b]"

definition normalizeIdentifier :: "string option \<Rightarrow> string" where
  "normalizeIdentifier identifier =
     (let s = trim (the_default [] identifier)
      in if s = [] then []
         else if quoted_by (CHR 0x60) (CHR 0x60) s \<or> quoted_by (CHR 0x22) (CHR 0x22) s \<or> quoted_by (CHR 0x27) (CHR 0x27) s
              \<or> quoted_by (CHR ''['') (CHR '']'') s
         then toLowerCase (butlast (tl s))
         else toLowerCase s)"

definition getColumnType :: "SqlStatement \<Rightarrow> string \<Rightarrow> string option" where
  "getColumnType st name =
     (let normalized = normalizeIdentifier (Some name)
      in if normalized = [] then None
         else
           let columns = concat (map or_empty (or_empty (tableColumns st)))
           in case List.find (\<lambda>c. normalizeIdentifier (columnName c) = normalized) columns of
                None \<Rightarrow> None
              | Some c \<Rightarrow> if truthy_str (dataType c) then dataType c else None)"

definition getInsertValueHintItem ::
    "SqlStatement \<Rightarrow> SimpleInsertValueMapping \<Rightarrow> SimpleInsertValueMapping \<Rightarrow> GetTextInRange \<Rightarrow> InsertValueHintItem option" where
  "getInsertValueHintItem st m current getText =
     (let columnRange = getColumnRange m
      in if \<not> hasValidRange columnRange \<or> mappingStatus m = UNMAPPED_VALUE then None
         else
           let fieldName = getColumnName st columnRange getText
           in if fieldName = [] then None
              else
                let fieldType = getColumnType st fieldName
                in Some \<lparr>it_rowIndex = mp_rowIndex m, it_columnIndex = mp_columnIndex m, it_fieldName = fieldName,
                      it_fieldType = fieldType,
                      it_label = (case fieldType of Some t \<Rightarrow> fieldName @ '':'' @ t | None \<Rightarrow> fieldName),
                      it_range = columnRange, it_active = (mp_columnIndex m = mp_columnIndex current)\<rparr>)"

definition getInsertValueHintContext ::
    "SqlStatement option \<Rightarrow> TextPosition option \<Rightarrow> GetTextInRange \<Rightarrow> InsertValueHintContext option" where
  "getInsertValueHintContext statement cursorPosition getText =
     (case (statement, cursorPosition) of
        (Some st, Some cursor) \<Rightarrow>
          if st_type st \<noteq> ''INSERT'' \<or> or_empty (insertValueMappings st) = [] then None
          else
            let inRow = (\<lambda>r. hasValidRange r \<and> isPositionInRange (lineNumber cursor) (column cursor) r);
                mappings = or_empty (insertValueMappings st)
            in (case List.find (\<lambda>m. inRow (getRowRange m)) mappings of
                  None \<Rightarrow> None
                | Some rowMapping \<Rightarrow>
                    let rowRange = getRowRange rowMapping;
                        rowMappings = js_sort (\<lambda>a b. mp_columnIndex a - mp_columnIndex b)
                          (filter (\<lambda>m. mp_rowIndex m = mp_rowIndex rowMapping) mappings)
                    in (case getCurrentInsertValueMapping rowMappings cursor of
                          None \<Rightarrow> None
                        | Some current \<Rightarrow>
                            if mappingStatus current = UNMAPPED_VALUE then None
                            else
                              let hintItems = List.map_filter (\<lambda>m. getInsertValueHintItem st m current getText) rowMappings
                              in (case List.find (\<lambda>i. it_columnIndex i = mp_columnIndex current) hintItems of
                                    None \<Rightarrow> None
                                  | Some currentHint \<Rightarrow>
                                      let valueRange = getValueRange current;
                                          textIn = (\<lambda>r. case getText of None \<Rightarrow> [] | Some f \<Rightarrow> the_default [] (f r));
                                          valueText = (if hasValidRange valueRange then textIn valueRange else []);
                                          after = (if isPositionInRange (lineNumber cursor) (column cursor) rowRange
                                            then textIn \<lparr>startLineNumber = lineNumber cursor, startColumn = column cursor,
                                                   endLineNumber = endLineNumber rowRange, endColumn = endColumn rowRange\<rparr> else [])
                                      in Some \<lparr>cx_rowIndex = mp_rowIndex current, cx_columnIndex = mp_columnIndex current,
                                            cx_fieldName = it_fieldName currentHint, cx_fieldType = it_fieldType currentHint,
                                            cx_hints = hintItems, cx_highlightRanges = filter hasValidRange [getColumnRange current],
                                            cx_rowRange = rowRange,
                                            cx_valueRange = (if hasValidRange valueRange then Some valueRange else None),
                                            cx_editingValue = isEditingInsertValueSlot current cursor valueRange valueText after\<rparr>)))
      | _ \<Rightarrow> None)"

definition shouldAutoShowInsertValueHint :: "InsertValueHintContext option \<Rightarrow> bool" where
  "shouldAutoShowInsertValueHint context = (case context of None \<Rightarrow> False | Some c \<Rightarrow> cx_editingValue c)"

section \<open>Hints from the completion service\<close>

text \<open>Numbers of the service may be missing or texts, so they are dynamic values.\<close>

record ISqlEditorHintRangeVO =
  vo_startLineNumber :: jsval
  vo_startColumn :: jsval
  vo_endLineNumber :: jsval
  vo_endColumn :: jsval

record ISqlEditorHintItemVO =
  vo_rowIndex :: jsval
  vo_columnIndex :: jsval
  vo_fieldName :: "string option"
  vo_fieldType :: "string option"
  vo_defaultValue :: "string option"
  vo_label :: "string option"
  vo_range :: "ISqlEditorHintRangeVO option"
  vo_active :: "bool option"

record ISqlEditorHintVO =
  vo_type :: string
  vo_statementRange :: "ISqlEditorHintRangeVO option"
  vo_rowRange :: "ISqlEditorHintRangeVO option"
  vo_valueRange :: "ISqlEditorHintRangeVO option"
  vo_items :: "ISqlEditorHintItemVO list option"

definition toFiniteNumber :: "jsval \<Rightarrow> int \<Rightarrow> int" where
  "toFiniteNumber v fallback = the_default fallback (to_number v)"

definition toTextRange :: "ISqlEditorHintRangeVO option \<Rightarrow> TextRange option" where
  "toTextRange rng =
     (case rng of
        None \<Rightarrow> None
      | Some r \<Rightarrow>
          let textRange = \<lparr>startLineNumber = toFiniteNumber (vo_startLineNumber r) 0, startColumn = toFiniteNumber (vo_startColumn r) 0,
                endLineNumber = toFiniteNumber (vo_endLineNumber r) 0, endColumn = toFiniteNumber (vo_endColumn r) 0\<rparr>
          in if hasValidRange textRange then Some textRange else None)"

text \<open>The first that is there, \<open>a || b\<close>.\<close>

definition or_else :: "'a option \<Rightarrow> 'a option \<Rightarrow> 'a option" where
  "or_else a b = (case a of Some x \<Rightarrow> Some x | None \<Rightarrow> b)"

definition non_empty :: "string option \<Rightarrow> string option" where
  "non_empty s = (if truthy_str s then s else None)"

definition hint_from_service :: "TextRange option \<Rightarrow> TextRange option \<Rightarrow> ISqlEditorHintItemVO \<Rightarrow> InsertValueHintItem option" where
  "hint_from_service valueRange rowRange item =
     (case (or_else (non_empty (vo_fieldName item)) (non_empty (vo_label item)),
            or_else (toTextRange (vo_range item)) (or_else valueRange rowRange)) of
        (Some fieldName, Some rng) \<Rightarrow>
          let fieldType = non_empty (vo_fieldType item)
          in Some \<lparr>it_rowIndex = toFiniteNumber (vo_rowIndex item) 0, it_columnIndex = toFiniteNumber (vo_columnIndex item) 0,
                it_fieldName = fieldName, it_fieldType = fieldType,
                it_label = (case non_empty (vo_label item) of Some l \<Rightarrow> l
                  | None \<Rightarrow> (case fieldType of Some t \<Rightarrow> fieldName @ '':'' @ t | None \<Rightarrow> fieldName)),
                it_range = rng, it_active = the_default False (vo_active item)\<rparr>
      | _ \<Rightarrow> None)"

definition insertValueHintContextFromEditorHint :: "ISqlEditorHintVO option \<Rightarrow> InsertValueHintContext option" where
  "insertValueHintContextFromEditorHint editorHint =
     (case editorHint of
        None \<Rightarrow> None
      | Some h \<Rightarrow>
          if vo_type h \<noteq> ''INSERT_VALUE'' \<or> or_empty (vo_items h) = [] then None
          else
            let rowRange = or_else (toTextRange (vo_rowRange h)) (toTextRange (vo_statementRange h));
                valueRange = toTextRange (vo_valueRange h);
                hints = List.map_filter (hint_from_service valueRange rowRange) (or_empty (vo_items h))
            in if hints = [] then None
               else
                 let currentHint = the_default (hd hints) (List.find it_active hints)
                 in Some \<lparr>cx_rowIndex = it_rowIndex currentHint, cx_columnIndex = it_columnIndex currentHint,
                       cx_fieldName = it_fieldName currentHint, cx_fieldType = it_fieldType currentHint, cx_hints = hints,
                       cx_highlightRanges = filter hasValidRange [it_range currentHint],
                       cx_rowRange = the_default (it_range currentHint) rowRange, cx_valueRange = valueRange,
                       cx_editingValue = it_active currentHint\<rparr>)"

section \<open>Markers of mismatched rows\<close>

record MarkMessage =
  startLineNum :: int
  startColNum :: int
  endLineNum :: int
  endColNum :: int
  mk_message :: string
  mk_type :: string

record InsertRowValueCount =
  expectedCount :: nat
  actualCount :: nat

record InsertValueMismatchGroup =
  mg_rowIndex :: int
  mg_mappingStatus :: InsertValueMappingStatusEnum
  mg_ranges :: "TextRange list"

definition add_mismatch ::
    "((int \<times> InsertValueMappingStatusEnum) \<times> InsertValueMismatchGroup) list \<Rightarrow> SimpleInsertValueMapping
     \<Rightarrow> ((int \<times> InsertValueMappingStatusEnum) \<times> InsertValueMismatchGroup) list" where
  "add_mismatch groups m =
     (if mappingStatus m = MATCHED then groups
      else
        let rng = (if mappingStatus m = UNMAPPED_COLUMN then getColumnRange m else getValueRange m)
        in if \<not> hasValidRange rng then groups
           else
             let key = (mp_rowIndex m, mappingStatus m);
                 group = the_default \<lparr>mg_rowIndex = mp_rowIndex m, mg_mappingStatus = mappingStatus m, mg_ranges = []\<rparr> (map_of groups key)
             in AList.update key (group\<lparr>mg_ranges := mg_ranges group @ [rng]\<rparr>) groups)"

definition getInsertValueMismatchGroups where
  "getInsertValueMismatchGroups mappings = foldl add_mismatch [] mappings"

definition count_mapping :: "(int \<times> InsertRowValueCount) list \<Rightarrow> SimpleInsertValueMapping \<Rightarrow> (int \<times> InsertRowValueCount) list" where
  "count_mapping counts m =
     (let c = the_default \<lparr>expectedCount = 0, actualCount = 0\<rparr> (map_of counts (mp_rowIndex m));
          c1 = (if mappingStatus m = MATCHED \<or> mappingStatus m = UNMAPPED_COLUMN then c\<lparr>expectedCount := expectedCount c + 1\<rparr> else c);
          c2 = (if mappingStatus m = MATCHED \<or> mappingStatus m = UNMAPPED_VALUE then c1\<lparr>actualCount := actualCount c1 + 1\<rparr> else c1)
      in AList.update (mp_rowIndex m) c2 counts)"

definition getInsertRowValueCounts :: "SimpleInsertValueMapping list \<Rightarrow> (int \<times> InsertRowValueCount) list" where
  "getInsertRowValueCounts mappings = foldl count_mapping [] mappings"

definition getInsertValueMismatchMarker ::
    "InsertValueMismatchGroup \<Rightarrow> ((nat \<times> nat) option \<Rightarrow> string) \<Rightarrow> InsertRowValueCount option \<Rightarrow> MarkMessage option" where
  "getInsertValueMismatchMarker grp getMessage rowValueCount =
     (let message = getMessage (map_option (\<lambda>c. (expectedCount c, actualCount c)) rowValueCount)
      in case mergeRanges (mg_ranges grp) of
           None \<Rightarrow> None
         | Some r \<Rightarrow> Some \<lparr>startLineNum = startLineNumber r, startColNum = startColumn r, endLineNum = endLineNumber r,
               endColNum = endColumn r, mk_message = message, mk_type = ''warning''\<rparr>)"

definition statement_markers :: "((nat \<times> nat) option \<Rightarrow> string) \<Rightarrow> SqlStatement \<Rightarrow> MarkMessage list" where
  "statement_markers getMessage st =
     (let mappings = or_empty (insertValueMappings st)
      in if st_type st \<noteq> ''INSERT'' \<or> mappings = [] then []
         else
           let rowValueCounts = getInsertRowValueCounts mappings
           in List.map_filter (\<lambda>(key, grp). getInsertValueMismatchMarker grp getMessage (map_of rowValueCounts (mg_rowIndex grp)))
                (getInsertValueMismatchGroups mappings))"

definition getInsertValueMismatchMarkersWithMessage ::
    "SqlStatement list option \<Rightarrow> ((nat \<times> nat) option \<Rightarrow> string) \<Rightarrow> MarkMessage list" where
  "getInsertValueMismatchMarkersWithMessage statementList getMessage =
     concat (map (statement_markers getMessage) (or_empty statementList))"

definition getInsertValueMismatchMarkers :: "SqlStatement list option \<Rightarrow> MarkMessage list" where
  "getInsertValueMismatchMarkers statementList =
     getInsertValueMismatchMarkersWithMessage statementList (\<lambda>counts. case counts of
        Some (e, a) \<Rightarrow> ''INSERT value count mismatch: expected '' @ string_of_nat e @ '', got '' @ string_of_nat a
      | None \<Rightarrow> ''INSERT value count mismatch'')"

section \<open>Merged ranges\<close>

named_theorems position_simps \<open>comparison of positions as a lexicographic order\<close>

lemma comparePosition_iff [position_simps]:
  "comparePosition a b c d < 0 \<longleftrightarrow> a < c \<or> a = c \<and> b < d"
  "comparePosition a b c d \<le> 0 \<longleftrightarrow> a < c \<or> a = c \<and> b \<le> d"
  "0 < comparePosition a b c d \<longleftrightarrow> c < a \<or> a = c \<and> d < b"
  by (auto simp: comparePosition_def)

definition covers :: "TextRange \<Rightarrow> TextRange \<Rightarrow> bool" where
  "covers a b \<longleftrightarrow> isPositionInRange (startLineNumber b) (startColumn b) a \<and> isPositionInRange (endLineNumber b) (endColumn b) a"

definition same_start :: "TextRange \<Rightarrow> TextRange \<Rightarrow> bool" where
  "same_start a b \<longleftrightarrow> startLineNumber a = startLineNumber b \<and> startColumn a = startColumn b"

definition same_end :: "TextRange \<Rightarrow> TextRange \<Rightarrow> bool" where
  "same_end a b \<longleftrightarrow> endLineNumber a = endLineNumber b \<and> endColumn a = endColumn b"

lemmas range_defs = covers_def same_start_def same_end_def isPositionInRange_def hasValidRange_def

lemma merge_two_props:
  assumes "hasValidRange a" "hasValidRange b"
  shows "hasValidRange (merge_two a b)" "covers (merge_two a b) a" "covers (merge_two a b) b"
    "same_start (merge_two a b) a \<or> same_start (merge_two a b) b" "same_end (merge_two a b) a \<or> same_end (merge_two a b) b"
proof -
  let ?before = "comparePosition (startLineNumber b) (startColumn b) (startLineNumber a) (startColumn a) < 0"
  let ?after = "0 < comparePosition (endLineNumber b) (endColumn b) (endLineNumber a) (endColumn a)"
  note cases = range_defs merge_two_def position_simps
  show "hasValidRange (merge_two a b)" "covers (merge_two a b) a" "covers (merge_two a b) b"
    using assms by (cases ?before; cases ?after; simp add: cases; linarith)+
  show "same_start (merge_two a b) a \<or> same_start (merge_two a b) b" "same_end (merge_two a b) a \<or> same_end (merge_two a b) b"
    by (simp_all add: merge_two_def same_start_def same_end_def)
qed

lemma comparePosition_trans:
  "comparePosition a b c d \<le> 0 \<Longrightarrow> comparePosition c d e f \<le> 0 \<Longrightarrow> comparePosition a b e f \<le> 0"
  by (auto simp: position_simps)

lemma covers_trans: "covers a b \<Longrightarrow> covers b c \<Longrightarrow> covers a c"
  unfolding covers_def isPositionInRange_def by (blast intro: comparePosition_trans)

lemma covers_refl: "hasValidRange a \<Longrightarrow> covers a a"
  by (auto simp: range_defs position_simps)

lemma same_trans: "same_start a b \<Longrightarrow> same_start b c \<Longrightarrow> same_start a c" "same_end a b \<Longrightarrow> same_end b c \<Longrightarrow> same_end a c"
  by (simp_all add: range_defs)

lemma merge_fold:
  assumes "hasValidRange r" "\<forall>x \<in> set rs. hasValidRange x"
  shows "hasValidRange (foldl merge_two r rs) \<and> (\<forall>x \<in> set (r # rs). covers (foldl merge_two r rs) x)
     \<and> (\<exists>x \<in> set (r # rs). same_start (foldl merge_two r rs) x) \<and> (\<exists>x \<in> set (r # rs). same_end (foldl merge_two r rs) x)"
  using assms
proof (induction rs arbitrary: r)
  case Nil
  then show ?case by (auto simp: covers_refl) (auto simp: range_defs)
next
  case (Cons x rs)
  let ?m = "merge_two r x"
  note two = merge_two_props[of r x]
  have "hasValidRange ?m" using Cons.prems two by simp
  with Cons have IH: "hasValidRange (foldl merge_two ?m rs) \<and> (\<forall>y \<in> set (?m # rs). covers (foldl merge_two ?m rs) y)
     \<and> (\<exists>y \<in> set (?m # rs). same_start (foldl merge_two ?m rs) y) \<and> (\<exists>y \<in> set (?m # rs). same_end (foldl merge_two ?m rs) y)"
    by simp
  have "covers (foldl merge_two ?m rs) r" "covers (foldl merge_two ?m rs) x"
    using IH two Cons.prems covers_trans[of "foldl merge_two ?m rs" ?m] by auto
  moreover have "\<exists>y \<in> set (r # x # rs). same_start (foldl merge_two ?m rs) y"
    using IH two(4) Cons.prems by (auto dest: same_trans(1))
  moreover have "\<exists>y \<in> set (r # x # rs). same_end (foldl merge_two ?m rs) y"
    using IH two(5) Cons.prems by (auto dest: same_trans(2))
  ultimately show ?case using IH by simp
qed

definition is_hull :: "TextRange \<Rightarrow> TextRange list \<Rightarrow> bool" where
  "is_hull m rs \<longleftrightarrow> hasValidRange m \<and> (\<forall>x \<in> set rs. covers m x) \<and> (\<exists>x \<in> set rs. same_start m x) \<and> (\<exists>x \<in> set rs. same_end m x)"

lemma mergeRanges_hull:
  assumes "\<forall>x \<in> set rs. hasValidRange x" "rs \<noteq> []"
  shows "\<exists>m. mergeRanges rs = Some m \<and> is_hull m rs"
proof -
  have "filter hasValidRange rs = rs" using assms(1) by simp
  then show ?thesis using merge_fold assms by (cases rs) (auto simp: mergeRanges_def is_hull_def)
qed

section \<open>Markers\<close>

definition problem_range :: "SimpleInsertValueMapping \<Rightarrow> TextRange" where
  "problem_range m = (if mappingStatus m = UNMAPPED_COLUMN then getColumnRange m else getValueRange m)"

text \<open>The places of a row that have a column without a value, or a value without a column.\<close>

definition problems :: "int \<Rightarrow> InsertValueMappingStatusEnum \<Rightarrow> SimpleInsertValueMapping list \<Rightarrow> TextRange list" where
  "problems row status ms =
     (if status = MATCHED then []
      else map problem_range (filter (\<lambda>m. mp_rowIndex m = row \<and> mappingStatus m = status \<and> hasValidRange (problem_range m)) ms))"

definition row_columns :: "int \<Rightarrow> SimpleInsertValueMapping list \<Rightarrow> nat" where
  "row_columns row ms = length (filter (\<lambda>m. mp_rowIndex m = row \<and> mappingStatus m \<noteq> UNMAPPED_VALUE) ms)"

definition row_values :: "int \<Rightarrow> SimpleInsertValueMapping list \<Rightarrow> nat" where
  "row_values row ms = length (filter (\<lambda>m. mp_rowIndex m = row \<and> mappingStatus m \<noteq> UNMAPPED_COLUMN) ms)"

definition mismatch_group :: "SimpleInsertValueMapping list \<Rightarrow> int \<times> InsertValueMappingStatusEnum \<Rightarrow> InsertValueMismatchGroup option" where
  "mismatch_group ms key =
     (if problems (fst key) (snd key) ms = [] then None
      else Some \<lparr>mg_rowIndex = fst key, mg_mappingStatus = snd key, mg_ranges = problems (fst key) (snd key) ms\<rparr>)"

lemma problems_snoc:
  "problems row status (ms @ [m]) = problems row status ms
     @ (if status \<noteq> MATCHED \<and> mp_rowIndex m = row \<and> mappingStatus m = status \<and> hasValidRange (problem_range m) then [problem_range m] else [])"
  by (simp add: problems_def)

lemma groups_spec: "map_of (getInsertValueMismatchGroups ms) = mismatch_group ms \<and> distinct (map fst (getInsertValueMismatchGroups ms))"
  unfolding getInsertValueMismatchGroups_def
proof (induction ms rule: rev_induct)
  case Nil
  then show ?case by (auto simp: mismatch_group_def problems_def fun_eq_iff)
next
  case (snoc m ms)
  let ?gs = "foldl add_mismatch [] ms" and ?key = "(mp_rowIndex m, mappingStatus m)"
  show ?case
  proof (cases "mappingStatus m \<noteq> MATCHED \<and> hasValidRange (problem_range m)")
    case False
    have "mismatch_group (ms @ [m]) = mismatch_group ms"
      using False by (auto simp: mismatch_group_def problems_snoc fun_eq_iff)
    moreover have "add_mismatch ?gs m = ?gs" using False by (auto simp: add_mismatch_def problem_range_def Let_def)
    ultimately show ?thesis using snoc by simp
  next
    case True
    define g where "g = the_default \<lparr>mg_rowIndex = mp_rowIndex m, mg_mappingStatus = mappingStatus m, mg_ranges = []\<rparr> (map_of ?gs ?key)"
    have step: "add_mismatch ?gs m = AList.update ?key (g\<lparr>mg_ranges := mg_ranges g @ [problem_range m]\<rparr>) ?gs"
      using True by (simp add: add_mismatch_def problem_range_def g_def Let_def)
    have "mg_rowIndex g = mp_rowIndex m \<and> mg_mappingStatus g = mappingStatus m \<and> mg_ranges g = problems (mp_rowIndex m) (mappingStatus m) ms"
      using snoc by (simp add: g_def mismatch_group_def)
    then have "mismatch_group (ms @ [m]) ?key = Some (g\<lparr>mg_ranges := mg_ranges g @ [problem_range m]\<rparr>)"
      using True by (simp add: mismatch_group_def problems_snoc)
    moreover have "mismatch_group (ms @ [m]) k = mismatch_group ms k" if "k \<noteq> ?key" for k
      using that by (cases k) (auto simp: mismatch_group_def problems_snoc)
    ultimately have "mismatch_group (ms @ [m]) = (mismatch_group ms)(?key \<mapsto> g\<lparr>mg_ranges := mg_ranges g @ [problem_range m]\<rparr>)"
      by (auto simp: fun_eq_iff)
    then show ?thesis using snoc by (simp add: step update_conv' distinct_update)
  qed
qed

lemma counts_spec:
  "map_of (getInsertRowValueCounts ms) row =
     (if \<exists>m \<in> set ms. mp_rowIndex m = row then Some \<lparr>expectedCount = row_columns row ms, actualCount = row_values row ms\<rparr> else None)"
  unfolding getInsertRowValueCounts_def
proof (induction ms rule: rev_induct)
  case (snoc m ms)
  have status: "(mappingStatus m = MATCHED \<or> mappingStatus m = UNMAPPED_COLUMN) \<longleftrightarrow> mappingStatus m \<noteq> UNMAPPED_VALUE"
    "(mappingStatus m = MATCHED \<or> mappingStatus m = UNMAPPED_VALUE) \<longleftrightarrow> mappingStatus m \<noteq> UNMAPPED_COLUMN"
    by (cases "mappingStatus m"; simp)+
  have none: "row_columns row ms = 0 \<and> row_values row ms = 0" if "\<not> (\<exists>m \<in> set ms. mp_rowIndex m = row)" for row
    using that by (auto simp: row_columns_def row_values_def)
  show ?case
    using snoc none unfolding foldl_append foldl.simps count_mapping_def Let_def status
    by (auto simp: update_conv' row_columns_def row_values_def)
qed simp

definition marker :: "TextRange \<Rightarrow> string \<Rightarrow> MarkMessage" where
  "marker r message = \<lparr>startLineNum = startLineNumber r, startColNum = startColumn r, endLineNum = endLineNumber r,
     endColNum = endColumn r, mk_message = message, mk_type = ''warning''\<rparr>"

lemma problems_valid: "x \<in> set (problems row status ms) \<Longrightarrow> hasValidRange x"
  by (auto simp: problems_def split: if_splits)

lemma problems_row: "problems row status ms \<noteq> [] \<Longrightarrow> \<exists>m \<in> set ms. mp_rowIndex m = row"
  by (auto simp: problems_def filter_empty_conv split: if_splits)

lemma hull_unique:
  assumes "is_hull a rs" "is_hull b rs"
  shows "a = b"
proof -
  have le: "comparePosition (startLineNumber a) (startColumn a) (startLineNumber b) (startColumn b) \<le> 0
      \<and> comparePosition (endLineNumber b) (endColumn b) (endLineNumber a) (endColumn a) \<le> 0"
    if "is_hull a rs" "is_hull b rs" for a b
    using that unfolding is_hull_def by (fastforce simp: range_defs)
  have "startLineNumber a = startLineNumber b \<and> startColumn a = startColumn b \<and> endLineNumber a = endLineNumber b \<and> endColumn a = endColumn b"
    using le[OF assms] le[OF assms(2,1)] unfolding comparePosition_iff by linarith
  then show ?thesis by simp
qed

text \<open>The marker of a group.\<close>

lemma group_marker:
  "problems row status ms \<noteq> [] \<and> getInsertValueMismatchMarker \<lparr>mg_rowIndex = row, mg_mappingStatus = status, mg_ranges = problems row status ms\<rparr>
       getMessage (map_of (getInsertRowValueCounts ms) row) = Some mk
   \<longleftrightarrow> (\<exists>r. is_hull r (problems row status ms) \<and> mk = marker r (getMessage (Some (row_columns row ms, row_values row ms))))"
proof (cases "problems row status ms = []")
  case True
  then show ?thesis by (simp add: is_hull_def)
next
  case False
  obtain r where r: "mergeRanges (problems row status ms) = Some r" "is_hull r (problems row status ms)"
    using mergeRanges_hull[OF _ False] problems_valid by blast
  moreover have "map_of (getInsertRowValueCounts ms) row = Some \<lparr>expectedCount = row_columns row ms, actualCount = row_values row ms\<rparr>"
    using problems_row[OF False] by (simp add: counts_spec)
  ultimately have "getInsertValueMismatchMarker \<lparr>mg_rowIndex = row, mg_mappingStatus = status, mg_ranges = problems row status ms\<rparr>
       getMessage (map_of (getInsertRowValueCounts ms) row) = Some (marker r (getMessage (Some (row_columns row ms, row_values row ms))))"
    by (simp add: getInsertValueMismatchMarker_def marker_def)
  then have "(problems row status ms \<noteq> [] \<and> getInsertValueMismatchMarker \<lparr>mg_rowIndex = row, mg_mappingStatus = status, mg_ranges = problems row status ms\<rparr>
       getMessage (map_of (getInsertRowValueCounts ms) row) = Some mk)
     \<longleftrightarrow> mk = marker r (getMessage (Some (row_columns row ms, row_values row ms)))"
    using False by (metis option.inject)
  then show ?thesis using r(2) hull_unique[OF r(2)] by metis
qed

lemma markers_of_groups:
  "set (List.map_filter (\<lambda>(key, grp). f grp) gs) = {k. \<exists>key grp. (key, grp) \<in> set gs \<and> f grp = Some k}"
  by (force simp: List.map_filter_def)

text \<open>
  Markers show exactly the rows with a problem. For an \<open>INSERT\<close> statement there is one marker for every
  row and kind of problem (columns without a value, values without a column) that has a place in
  the text; it covers all these places, begins with the first and ends with the last of them, and its
  message has the number of columns and of values of the row.
\<close>
theorem mismatch_markers_exact:
  assumes "st_type st = ''INSERT''" "insertValueMappings st = Some ms"
  shows "mk \<in> set (statement_markers getMessage st) \<longleftrightarrow>
     (\<exists>row status r. is_hull r (problems row status ms) \<and> mk = marker r (getMessage (Some (row_columns row ms, row_values row ms))))"
proof -
  let ?gs = "getInsertValueMismatchGroups ms"
  let ?f = "\<lambda>grp. getInsertValueMismatchMarker grp getMessage (map_of (getInsertRowValueCounts ms) (mg_rowIndex grp))"
  have "statement_markers getMessage st = List.map_filter (\<lambda>(key, grp). ?f grp) ?gs"
    using assms by (cases ms) (simp_all add: statement_markers_def Let_def getInsertValueMismatchGroups_def)
  moreover have "(key, grp) \<in> set ?gs \<longleftrightarrow> mismatch_group ms key = Some grp" for key grp
    using groups_spec[of ms] by (metis map_of_eq_Some_iff)
  ultimately have "mk \<in> set (statement_markers getMessage st) \<longleftrightarrow> (\<exists>key grp. mismatch_group ms key = Some grp \<and> ?f grp = Some mk)"
    by (simp only: markers_of_groups mem_Collect_eq)
  also have "\<dots> \<longleftrightarrow> (\<exists>row status. problems row status ms \<noteq> [] \<and>
      ?f \<lparr>mg_rowIndex = row, mg_mappingStatus = status, mg_ranges = problems row status ms\<rparr> = Some mk)"
    by (auto simp: mismatch_group_def split: if_splits)
  finally show ?thesis using group_marker[of _ _ ms getMessage mk] by simp
qed

definition sample_mapping :: "int \<Rightarrow> int \<Rightarrow> InsertValueMappingStatusEnum \<Rightarrow> int \<Rightarrow> int \<Rightarrow> SimpleInsertValueMapping" where
  "sample_mapping row col status c v =
     \<lparr>columnStartRowNum = Some 1, columnStartColNum = Some c, columnEndRowNum = Some 1, columnEndColNum = Some (c + 2),
      valueStartRowNum = Some 1, valueStartColNum = Some v, valueEndRowNum = Some 1, valueEndColNum = Some (v + 2),
      rowStartRowNum = Some 1, rowStartColNum = Some 40, rowEndRowNum = Some 1, rowEndColNum = Some 60,
      mp_rowIndex = row, mp_columnIndex = col, mappingStatus = status\<rparr>"

definition sample_statement :: "SimpleInsertValueMapping list \<Rightarrow> SqlStatement" where
  "sample_statement ms = \<lparr>st_sql = [], sqlStartRowNum = 1, sqlStartColNum = 1, sqlEndRowNum = 1, sqlEndColNum = 60,
     st_type = ''INSERT'', statementType = VALID, identifiers = [], tableColumns = None, insertValueMappings = Some ms\<rparr>"

theorem mismatch_markers_exact_witness:
  "marker \<lparr>startLineNumber = 1, startColumn = 20, endLineNumber = 1, endColumn = 32\<rparr> ''3/1''
     \<in> set (statement_markers (\<lambda>c. case c of Some (e, a) \<Rightarrow> string_of_nat e @ ''/'' @ string_of_nat a | None \<Rightarrow> [])
         (sample_statement [sample_mapping 0 0 MATCHED 10 40, sample_mapping 0 1 UNMAPPED_COLUMN 30 0, sample_mapping 0 2 UNMAPPED_COLUMN 20 0]))"
proof -
  let ?ms = "[sample_mapping 0 0 MATCHED 10 40, sample_mapping 0 1 UNMAPPED_COLUMN 30 0, sample_mapping 0 2 UNMAPPED_COLUMN 20 0]"
  let ?r = "\<lparr>startLineNumber = 1, startColumn = 20, endLineNumber = 1, endColumn = 32\<rparr> :: TextRange"
  let ?msg = "\<lambda>c. case c of Some (e, a) \<Rightarrow> string_of_nat e @ ''/'' @ string_of_nat a | None \<Rightarrow> []"
  have "st_type (sample_statement ?ms) = ''INSERT''" "insertValueMappings (sample_statement ?ms) = Some ?ms"
    by (simp_all add: sample_statement_def)
  note mismatch_markers_exact[OF this, of "marker ?r ''3/1''" ?msg]
  moreover have "is_hull ?r (problems 0 UNMAPPED_COLUMN ?ms)" by code_simp
  moreover have "marker ?r ''3/1'' = marker ?r (?msg (Some (row_columns 0 ?ms, row_values 0 ?ms)))" by code_simp
  ultimately show ?thesis by blast
qed

section \<open>Columns and values\<close>

lemma rangesTouch_self: "hasValidRange r \<Longrightarrow> rangesTouch r r"
  by (auto simp: rangesTouch_def isCollapsedRange_def rangesIntersect_def range_defs position_simps)

lemma find_unique:
  "m \<in> set ms \<Longrightarrow> P m \<Longrightarrow> \<exists>m'. List.find P ms = Some m' \<and> m' \<in> set ms \<and> P m'"
  by (induction ms) auto

text \<open>
  Columns and values point at each other. In an \<open>INSERT\<close> statement whose columns lie apart and whose
  values lie apart from each other and from the columns, selecting a value highlights its column, and selecting
  that column highlights the values of this column in all rows, this value among them.
\<close>
theorem insert_highlight_links_back:
  assumes "st_type st = ''INSERT''" "insertValueMappings st = Some ms" "m \<in> set ms" "isHighlightMapping m"
    and "\<forall>a \<in> set ms. \<forall>b \<in> set ms. rangesTouch (getColumnRange a) (getColumnRange b) \<longrightarrow> mp_columnIndex a = mp_columnIndex b"
    and "\<forall>a \<in> set ms. \<forall>b \<in> set ms. rangesTouch (getValueRange a) (getValueRange b) \<longrightarrow> getColumnRange a = getColumnRange b"
    and "\<forall>a \<in> set ms. \<forall>b \<in> set ms. \<not> rangesTouch (getColumnRange a) (getValueRange b)"
  shows "getInsertValueHighlightRanges (Some st) (Some (getValueRange m)) = [getColumnRange m]
    \<and> set (getInsertValueHighlightRanges (Some st) (Some (getColumnRange m)))
        = getValueRange ` {a \<in> set ms. isHighlightMapping a \<and> mp_columnIndex a = mp_columnIndex m}"
proof -
  let ?ms = "filter isHighlightMapping ms"
  have m: "m \<in> set ?ms" "hasValidRange (getColumnRange m)" "hasValidRange (getValueRange m)"
    using assms(3,4) by (auto simp: isHighlightMapping_def)
  obtain c where c: "List.find (\<lambda>a. rangesTouch (getColumnRange a) (getColumnRange m)) ?ms = Some c" "c \<in> set ?ms"
      "rangesTouch (getColumnRange c) (getColumnRange m)"
    using find_unique[OF m(1), of "\<lambda>a. rangesTouch (getColumnRange a) (getColumnRange m)"] rangesTouch_self[OF m(2)] by auto
  obtain v where v: "List.find (\<lambda>a. rangesTouch (getValueRange a) (getValueRange m)) ?ms = Some v" "v \<in> set ?ms"
      "rangesTouch (getValueRange v) (getValueRange m)"
    using find_unique[OF m(1), of "\<lambda>a. rangesTouch (getValueRange a) (getValueRange m)"] rangesTouch_self[OF m(3)] by auto
  have same: "mp_columnIndex c = mp_columnIndex m" "getColumnRange v = getColumnRange m"
    using c(2,3) v(2,3) assms(3,5,6) by auto
  have none: "List.find (\<lambda>a. rangesTouch (getColumnRange a) (getValueRange m)) ?ms = None"
    using assms(3,7) by (simp add: find_None_conv)
  have "getInsertValueHighlightRanges (Some st) (Some (getValueRange m)) = [getColumnRange m]"
    using assms(1,2) v(1) none same m(2) by (simp add: getInsertValueHighlightRanges_def Let_def)
  moreover have "set (getInsertValueHighlightRanges (Some st) (Some (getColumnRange m)))
      = getValueRange ` {a \<in> set ms. isHighlightMapping a \<and> mp_columnIndex a = mp_columnIndex m}"
    using assms(1,2) c(1) same by (auto simp: getInsertValueHighlightRanges_def Let_def isHighlightMapping_def)
  ultimately show ?thesis by blast
qed

theorem insert_highlight_links_back_witness:
  "getInsertValueHighlightRanges (Some (sample_statement [sample_mapping 0 0 MATCHED 10 40, sample_mapping 1 0 MATCHED 10 50]))
       (Some (getValueRange (sample_mapping 1 0 MATCHED 10 50)))
     = [getColumnRange (sample_mapping 1 0 MATCHED 10 50)]"
proof -
  let ?ms = "[sample_mapping 0 0 MATCHED 10 40, sample_mapping 1 0 MATCHED 10 50]"
  have "\<forall>a \<in> set ?ms. \<forall>b \<in> set ?ms. rangesTouch (getColumnRange a) (getColumnRange b) \<longrightarrow> mp_columnIndex a = mp_columnIndex b"
    "\<forall>a \<in> set ?ms. \<forall>b \<in> set ?ms. rangesTouch (getValueRange a) (getValueRange b) \<longrightarrow> getColumnRange a = getColumnRange b"
    "\<forall>a \<in> set ?ms. \<forall>b \<in> set ?ms. \<not> rangesTouch (getColumnRange a) (getValueRange b)"
    "isHighlightMapping (sample_mapping 1 0 MATCHED 10 50)" by code_simp+
  note apart = this
  have "st_type (sample_statement ?ms) = ''INSERT''" "insertValueMappings (sample_statement ?ms) = Some ?ms"
    "sample_mapping 1 0 MATCHED 10 50 \<in> set ?ms" by (simp_all add: sample_statement_def)
  from insert_highlight_links_back[OF this apart(4,1-3)] show ?thesis by (rule conjunct1)
qed

end
