(* ===== verification/Table_Identifiers.thy ===== *)
theory Table_Identifiers
  imports Sql_Statements
begin

text \<open>
  Names of tables, views and routines in a statement, \<open>components/SQLEditor/helper/tableIdentifier.ts\<close>: which of them
  are underlined as links, and which object a click opens.

  The regular expression for qualified names is a matcher: \<open>match_part\<close> for one part, with the backtracking of a quoted
  part spelled out, and \<open>match_identifier\<close> for parts joined by dots. The global search of the source visits the matches from
  left to right.
\<close>

section \<open>Ranges\<close>

record PositionRange =
  startRow :: int
  startCol :: int
  endRow :: int
  endCol :: int

record IPosition =
  ps_lineNumber :: int
  ps_column :: int

definition isPositionIn :: "IPosition \<Rightarrow> PositionRange \<Rightarrow> bool" where
  "isPositionIn p r =
     (if startRow r = 0 \<or> endRow r = 0 then False
      else (ps_lineNumber p > startRow r \<or> ps_lineNumber p = startRow r \<and> ps_column p \<ge> startCol r)
         \<and> (ps_lineNumber p < endRow r \<or> ps_lineNumber p = endRow r \<and> ps_column p \<le> endCol r))"

definition isRangeIntersect :: "PositionRange \<Rightarrow> PositionRange \<Rightarrow> bool" where
  "isRangeIntersect left right \<longleftrightarrow>
     isPositionIn \<lparr>ps_lineNumber = startRow left, ps_column = startCol left\<rparr> right
     \<or> isPositionIn \<lparr>ps_lineNumber = endRow left, ps_column = endCol left\<rparr> right
     \<or> isPositionIn \<lparr>ps_lineNumber = startRow right, ps_column = startCol right\<rparr> left
     \<or> isPositionIn \<lparr>ps_lineNumber = endRow right, ps_column = endCol right\<rparr> left"

definition isPositionInStatement :: "IPosition \<Rightarrow> SqlStatement \<Rightarrow> bool" where
  "isPositionInStatement p st \<longleftrightarrow>
     (ps_lineNumber p > sqlStartRowNum st \<or> ps_lineNumber p = sqlStartRowNum st \<and> ps_column p \<ge> sqlStartColNum st)
     \<and> (ps_lineNumber p < sqlEndRowNum st \<or> ps_lineNumber p = sqlEndRowNum st \<and> ps_column p \<le> sqlEndColNum st)"

definition getAliasIdentifierRange :: "SimpleIdentifier \<Rightarrow> PositionRange" where
  "getAliasIdentifierRange i = \<lparr>startRow = aliasStartRowNum i, startCol = aliasStartColNum i, endRow = aliasEndRowNum i, endCol = aliasEndColNum i\<rparr>"

definition getParserIdentifierRange :: "SimpleIdentifier \<Rightarrow> PositionRange" where
  "getParserIdentifierRange i = \<lparr>startRow = identifierStartRowNum i, startCol = identifierStartColNum i,
     endRow = identifierEndRowNum i, endCol = identifierEndColNum i\<rparr>"

section \<open>Names\<close>

definition enclosed :: "char \<Rightarrow> char \<Rightarrow> string \<Rightarrow> bool" where
  "enclosed a b s \<longleftrightarrow> startsWith s [a] \<and> endsWith s [b]"


definition isQuotedIdentifier :: "string \<Rightarrow> bool" where
  "isQuotedIdentifier v \<longleftrightarrow>
     enclosed BACKTICK BACKTICK (trim v) \<or> enclosed DQUOTE DQUOTE (trim v) \<or> enclosed (CHR ''['') (CHR '']'') (trim v)"

definition normalizeIdentifierName :: "string \<Rightarrow> string" where
  "normalizeIdentifierName v = (if isQuotedIdentifier v then butlast (tl (trim v)) else trim v)"

definition isOracleLikeDatabase :: "string option \<Rightarrow> bool" where
  "isOracleLikeDatabase databaseType \<longleftrightarrow> databaseType = Some ''ORACLE'' \<or> databaseType = Some ''OCEANBASE_ORACLE''"

definition normalizeIdentifierNameByDatabaseType :: "string \<Rightarrow> string option \<Rightarrow> bool \<Rightarrow> string" where
  "normalizeIdentifierNameByDatabaseType v databaseType quoted =
     (let name = normalizeIdentifierName v
      in if name \<noteq> [] \<and> isOracleLikeDatabase databaseType \<and> \<not> quoted then toUpperCase name else name)"

definition isIdentifierNameMatch :: "string option \<Rightarrow> string option \<Rightarrow> bool" where
  "isIdentifierNameMatch candidate name \<longleftrightarrow>
     candidate = name \<or> truthy_str candidate \<and> truthy_str name \<and> map_option toLowerCase candidate = map_option toLowerCase name"

text \<open>The loop of \<open>splitQualifiedIdentifier\<close>: the mark that ends the open quote or bracket, the current part, and the rest.\<close>

fun split_parts :: "char option \<Rightarrow> string \<Rightarrow> string \<Rightarrow> string list" where
  "split_parts mark current [] = [trim current]"
| "split_parts (Some q) current (c # cs) = split_parts (if c = q then None else Some q) (current @ [c]) cs"
| "split_parts None current (c # cs) =
     (if c = DQUOTE \<or> c = BACKTICK then split_parts (Some c) (current @ [c]) cs
      else if c = CHR ''['' then split_parts (Some (CHR '']'')) (current @ [c]) cs
      else if c = CHR ''.'' then trim current # split_parts None [] cs
      else split_parts None (current @ [c]) cs)"

definition splitQualifiedIdentifier :: "string \<Rightarrow> string list" where
  "splitQualifiedIdentifier v = filter (\<lambda>p. p \<noteq> []) (split_parts None [] v)"

record qualified_part =
  part_rawValue :: string
  part_name :: string
  part_quoted :: bool

definition createQualifiedIdentifierPart :: "string \<Rightarrow> qualified_part" where
  "createQualifiedIdentifierPart raw =
     \<lparr>part_rawValue = raw, part_name = normalizeIdentifierName raw, part_quoted = isQuotedIdentifier raw\<rparr>"

section \<open>Qualified names in a line\<close>

text \<open>
  The rest after a quoted part whose opening mark was read: doubled marks belong to the name; if the text
  ends without a closing mark, the last doubled mark closes it instead.
\<close>

fun quote_rest :: "char \<Rightarrow> string \<Rightarrow> string option" where
  "quote_rest q [] = None"
| "quote_rest q [c] = (if c = q then Some [] else None)"
| "quote_rest q (c # d # cs) =
     (if c \<noteq> q then quote_rest q (d # cs)
      else if d \<noteq> q then Some (d # cs)
      else case quote_rest q cs of Some r \<Rightarrow> Some r | None \<Rightarrow> Some (d # cs))"

definition bracket_rest :: "string \<Rightarrow> string option" where
  "bracket_rest s =
     (if s = [] \<or> hd s = CHR '']'' then None
      else case dropWhile (\<lambda>c. c \<noteq> CHR '']'') s of [] \<Rightarrow> None | c # cs \<Rightarrow> Some cs)"

definition match_part :: "string \<Rightarrow> string option" where
  "match_part s =
     (case s of
        [] \<Rightarrow> None
      | c # cs \<Rightarrow>
          if c = DQUOTE \<or> c = BACKTICK then quote_rest c cs
          else if c = CHR ''['' then bracket_rest cs
          else if is_word_char c \<and> \<not> is_digit c then Some (dropWhile (\<lambda>d. is_word_char d \<or> d = CHR ''$'') cs)
          else None)"

lemma quote_rest_shorter: "quote_rest q s = Some r \<Longrightarrow> length r < length s"
  by (induction q s arbitrary: r rule: quote_rest.induct) (fastforce split: if_splits option.splits)+

lemma match_part_shorter:
  assumes "match_part s = Some r"
  shows "length r < length s"
proof (cases s)
  case (Cons c cs)
  have "length (dropWhile P cs) \<le> length cs" for P by (rule length_dropWhile_le)
  moreover have "length r \<le> length cs" if "bracket_rest cs = Some r"
    using that calculation[of "\<lambda>c. c \<noteq> CHR '']''"] by (auto simp: bracket_rest_def split: if_splits list.splits)
  ultimately show ?thesis
    using assms Cons quote_rest_shorter[of c cs r] by (auto simp: match_part_def less_Suc_eq_le split: if_splits)
qed (use assms in \<open>simp add: match_part_def\<close>)

function more_parts :: "string \<Rightarrow> string" where
  "more_parts s =
     (case dropWhile is_space s of
        c # cs \<Rightarrow>
          if c = CHR ''.'' then (case match_part (dropWhile is_space cs) of Some r \<Rightarrow> more_parts r | None \<Rightarrow> s) else s
      | [] \<Rightarrow> s)"
  by pat_completeness auto
termination
proof (relation "measure length")
  fix s c cs r
  assume "dropWhile is_space s = c # cs" "match_part (dropWhile is_space cs) = Some r"
  then have "length r < length (dropWhile is_space cs)" "length (c # cs) \<le> length s"
    using match_part_shorter length_dropWhile_le by metis+
  moreover have "length (dropWhile is_space cs) \<le> length cs" by (rule length_dropWhile_le)
  ultimately show "(r, s) \<in> measure length" by simp
qed simp

declare more_parts.simps [simp del]

definition match_identifier :: "string \<Rightarrow> string option" where
  "match_identifier s = map_option more_parts (match_part s)"

lemma more_parts_shorter: "length (more_parts s) \<le> length s"
proof (induction s rule: more_parts.induct)
  case (1 s)
  have "length r \<le> length s" if "dropWhile is_space s = c # cs" "match_part (dropWhile is_space cs) = Some r" for c cs r
    using that match_part_shorter[OF that(2)] length_dropWhile_le[of is_space s] length_dropWhile_le[of is_space cs] by simp
  then show ?case using 1 by (subst more_parts.simps) (fastforce split: list.splits option.splits)
qed

lemma match_identifier_shorter: "match_identifier s = Some r \<Longrightarrow> length r < length s"
  using match_part_shorter more_parts_shorter by (fastforce simp: match_identifier_def intro: le_less_trans)

text \<open>The matches of the global search, with their offsets.\<close>

function matches :: "nat \<Rightarrow> string \<Rightarrow> (nat \<times> string) list" where
  "matches i [] = []"
| "matches i (c # cs) =
     (case match_identifier (c # cs) of
        Some r \<Rightarrow> (i, take (length (c # cs) - length r) (c # cs)) # matches (i + (length (c # cs) - length r)) r
      | None \<Rightarrow> matches (i + 1) cs)"
  by pat_completeness auto
termination by (relation "measure (\<lambda>(i, s). length s)") (auto dest: match_identifier_shorter)

text \<open>\<open>sql.split(/\r?\n/)\<close>\<close>

fun split_unix_lines :: "string \<Rightarrow> string list" where
  "split_unix_lines [] = [[]]"
| "split_unix_lines (c # cs) =
     (if c = LF then [] # split_unix_lines cs
      else if c = CR \<and> cs \<noteq> [] \<and> hd cs = LF then split_unix_lines cs
      else case split_unix_lines cs of [] \<Rightarrow> [[c]] | l # ls \<Rightarrow> (c # l) # ls)"

definition getStatementLine :: "SqlStatement \<Rightarrow> int \<Rightarrow> string" where
  "getStatementLine st row =
     (let ls = split_unix_lines (st_sql st); index = row - sqlStartRowNum st
      in if 0 \<le> index \<and> nat index < length ls then ls ! nat index else [])"

definition getSqlQualifiedIdentifierRange :: "SqlStatement \<Rightarrow> SimpleIdentifier \<Rightarrow> PositionRange \<Rightarrow> PositionRange option" where
  "getSqlQualifiedIdentifierRange st i parserRange =
     (if st_sql st = [] \<or> startRow parserRange = 0 \<or> endRow parserRange = 0 \<or> startRow parserRange \<noteq> endRow parserRange then None
      else
        let line = getStatementLine st (startRow parserRange);
            tableName = normalizeIdentifierName (if identifierTable i \<noteq> [] then identifierTable i else id_name i);
            candidate = (\<lambda>(index, s). \<lparr>startRow = startRow parserRange, startCol = int index + 1,
               endRow = startRow parserRange, endCol = int index + int (length s) + 1\<rparr>);
            lastPart = (\<lambda>(index, s). case map normalizeIdentifierName (splitQualifiedIdentifier s) of [] \<Rightarrow> None | ps \<Rightarrow> Some (last ps))
        in map_option candidate (List.find (\<lambda>m. isIdentifierNameMatch (lastPart m) (Some tableName)
             \<and> isRangeIntersect parserRange (candidate m)) (matches 0 line)))"

definition getTableIdentifierRange :: "SqlStatement \<Rightarrow> SimpleIdentifier \<Rightarrow> PositionRange" where
  "getTableIdentifierRange st i =
     (let parserRange = getParserIdentifierRange i
      in the_default parserRange (getSqlQualifiedIdentifierRange st i parserRange))"

definition getQualifiedIdentifierParts :: "SqlStatement \<Rightarrow> SimpleIdentifier \<Rightarrow> qualified_part list" where
  "getQualifiedIdentifierParts st i =
     (case getSqlQualifiedIdentifierRange st i (getParserIdentifierRange i) of
        None \<Rightarrow> []
      | Some r \<Rightarrow>
          if startRow r \<noteq> endRow r then []
          else
            let line = getStatementLine st (startRow r)
            in if line = [] then []
               else map createQualifiedIdentifierPart
                 (splitQualifiedIdentifier (drop (nat (startCol r - 1)) (take (nat (endCol r - 1)) line))))"

section \<open>Which identifiers are links\<close>

datatype EditorDatabaseObjectType = TABLE | VIEW | FUNCTION | PROCEDURE

definition isSupportedDatabaseObjectIdentifier :: "SimpleIdentifier \<Rightarrow> bool" where
  "isSupportedDatabaseObjectIdentifier i \<longleftrightarrow>
     toUpperCase (id_type i) \<in> set [''TABLE'', ''VIEW'', ''FUNCTION'', ''UDF_FUNCTION'', ''PROCEDURE'']"

definition isRelationIdentifier :: "SimpleIdentifier \<Rightarrow> bool" where
  "isRelationIdentifier i \<longleftrightarrow> toUpperCase (id_type i) \<in> set [''TABLE'', ''VIEW'']"

definition getRelationAliasNames :: "SqlStatement \<Rightarrow> string list" where
  "getRelationAliasNames st =
     filter (\<lambda>n. n \<noteq> []) (map (\<lambda>i. normalizeIdentifierName (id_alias i)) (filter isRelationIdentifier (identifiers st)))"

definition getRelationAliasRanges :: "SqlStatement \<Rightarrow> PositionRange list" where
  "getRelationAliasRanges st =
     filter (\<lambda>r. startRow r \<noteq> 0 \<and> endRow r \<noteq> 0)
       (map getAliasIdentifierRange (filter (\<lambda>i. isRelationIdentifier i \<and> id_alias i \<noteq> []) (identifiers st)))"

definition isIdentifierFollowedByDot :: "SqlStatement \<Rightarrow> PositionRange \<Rightarrow> bool" where
  "isIdentifierFollowedByDot st r =
     (if endRow r = 0 \<or> startRow r \<noteq> endRow r \<or> endCol r < 1 then False
      else case dropWhile is_space (drop (nat (endCol r - 1)) (getStatementLine st (endRow r))) of
             c # cs \<Rightarrow> c = CHR ''.'' | [] \<Rightarrow> False)"

definition isAliasQualifierIdentifier :: "SqlStatement \<Rightarrow> SimpleIdentifier \<Rightarrow> bool" where
  "isAliasQualifierIdentifier st i =
     (if \<not> isRelationIdentifier i then False
      else
        let identifierName = normalizeIdentifierName (id_name i)
        in if \<not> list_ex (\<lambda>a. isIdentifierNameMatch (Some a) (Some identifierName)) (getRelationAliasNames st) then False
           else
             let parserRange = getParserIdentifierRange i
             in if list_ex (\<lambda>r. isRangeIntersect r parserRange) (getRelationAliasRanges st) then True
                else isIdentifierFollowedByDot st parserRange)"

definition getEditorDatabaseObjectType :: "string \<Rightarrow> EditorDatabaseObjectType" where
  "getEditorDatabaseObjectType ty =
     (let normalizedType = toUpperCase ty
      in if normalizedType = ''VIEW'' then VIEW
         else if normalizedType = ''FUNCTION'' \<or> normalizedType = ''UDF_FUNCTION'' then FUNCTION
         else if normalizedType = ''PROCEDURE'' then PROCEDURE
         else TABLE)"

definition getCreateStatementTargetObjectType :: "string \<Rightarrow> EditorDatabaseObjectType option" where
  "getCreateStatementTargetObjectType ty =
     (if ty = ''CREATE_TABLE'' then Some TABLE
      else if ty = ''CREATE_VIEW'' then Some VIEW
      else if ty = ''CREATE_FUNCTION'' then Some FUNCTION
      else if ty = ''CREATE_PROCEDURE'' then Some PROCEDURE
      else None)"

definition isStatementDefinitionIdentifier :: "SqlStatement \<Rightarrow> SimpleIdentifier \<Rightarrow> bool" where
  "isStatementDefinitionIdentifier st i =
     (case getCreateStatementTargetObjectType (st_type st) of
        None \<Rightarrow> False
      | Some target \<Rightarrow>
          (case List.find (\<lambda>j. getEditorDatabaseObjectType (id_type j) = target) (identifiers st) of
             None \<Rightarrow> False
           | Some j \<Rightarrow> getParserIdentifierRange j = getParserIdentifierRange i))"

definition isNavigableDatabaseObjectIdentifier :: "SqlStatement \<Rightarrow> SimpleIdentifier \<Rightarrow> bool" where
  "isNavigableDatabaseObjectIdentifier st i =
     (if id_name i = [] \<or> \<not> isSupportedDatabaseObjectIdentifier i then False
      else \<not> isAliasQualifierIdentifier st i \<and> \<not> isStatementDefinitionIdentifier st i)"

definition statement_links :: "SqlStatement \<Rightarrow> PositionRange list" where
  "statement_links st =
     filter (\<lambda>r. startRow r \<noteq> 0 \<and> endRow r \<noteq> 0)
       (map (getTableIdentifierRange st) (filter (isNavigableDatabaseObjectIdentifier st) (identifiers st)))"

definition getTableIdentifierUnderlineRanges :: "SqlStatement list \<Rightarrow> PositionRange list" where
  "getTableIdentifierUnderlineRanges sqlStatementList =
     concat (map statement_links (filter (\<lambda>st. statementType st = VALID) sqlStatementList))"

section \<open>The object at a position\<close>

record EditorBoundInfo =
  eb_dataSourceId :: "int option"
  eb_dataSourceName :: "string option"
  eb_databaseType :: "string option"
  eb_databaseName :: "string option"
  eb_schemaName :: "string option"

record EditorTableIdentifier =
  te_dataSourceId :: int
  te_dataSourceName :: "string option"
  te_databaseType :: "string option"
  te_databaseName :: "string option"
  te_schemaName :: "string option"
  te_objectType :: EditorDatabaseObjectType
  te_tableName :: string
  te_identifier :: SimpleIdentifier
  te_identifierQuoted :: bool

definition getDatabaseName :: "string list \<Rightarrow> string" where
  "getDatabaseName parts = (if length parts \<ge> 3 then parts ! (length parts - 3) else [])"

definition getSchemaName :: "string list \<Rightarrow> string \<Rightarrow> string" where
  "getSchemaName parts database =
     (if length parts \<ge> 3 then parts ! (length parts - 2)
      else if length parts = 2 \<and> database = [] then parts ! 0
      else [])"

text \<open>\<open>a || b || c\<close> for two texts and an optional text.\<close>

definition first_name :: "string \<Rightarrow> string \<Rightarrow> string option \<Rightarrow> string option" where
  "first_name a b c = (if a \<noteq> [] then Some a else if b \<noteq> [] then Some b else c)"

definition findTableIdentifierAtPosition ::
    "IPosition option \<Rightarrow> SqlStatement list \<Rightarrow> EditorBoundInfo \<Rightarrow> EditorTableIdentifier option" where
  "findTableIdentifierAtPosition position sqlStatementList dbInfo =
     (case (position, eb_dataSourceId dbInfo) of
        (Some p, Some dataSourceId) \<Rightarrow>
          if dataSourceId = 0 then None
          else (case List.find (\<lambda>st. statementType st = VALID \<and> isPositionInStatement p st) sqlStatementList of
            None \<Rightarrow> None
          | Some st \<Rightarrow>
              (case List.find (\<lambda>i. isNavigableDatabaseObjectIdentifier st i \<and> isPositionIn p (getTableIdentifierRange st i)) (identifiers st) of
                 None \<Rightarrow> None
               | Some i \<Rightarrow>
                   if id_name i = [] then None
                   else
                     let dbType = eb_databaseType dbInfo;
                         parts = getQualifiedIdentifierParts st i;
                         names = map (\<lambda>q. normalizeIdentifierNameByDatabaseType (part_name q) dbType (part_quoted q)) parts;
                         lastName = (if parts = [] then [] else last names);
                         byType = (\<lambda>n. normalizeIdentifierNameByDatabaseType n dbType (isQuotedIdentifier n))
                     in Some \<lparr>te_dataSourceId = dataSourceId, te_dataSourceName = eb_dataSourceName dbInfo, te_databaseType = dbType,
                          te_databaseName = first_name (getDatabaseName names) (byType (identifierDatabase i)) (eb_databaseName dbInfo),
                          te_schemaName = first_name (getSchemaName names (identifierDatabase i)) (byType (identifierSchema i)) (eb_schemaName dbInfo),
                          te_objectType = getEditorDatabaseObjectType (id_type i),
                          te_tableName = (if lastName \<noteq> [] then lastName else byType (id_name i)),
                          te_identifier = i,
                          te_identifierQuoted = (parts \<noteq> [] \<and> part_quoted (last parts) \<or> isQuotedIdentifier (id_name i))\<rparr>))
      | _ \<Rightarrow> None)"

section \<open>Links and clicks\<close>

lemma find_ex: "(\<exists>x. List.find P xs = Some x) \<longleftrightarrow> (\<exists>x \<in> set xs. P x)"
  by (induction xs) auto

text \<open>
  What is underlined is what can be clicked. In the statement at a position (of a bound data
  source), a click finds an object exactly if the position lies in an underlined range of this statement, and the object
  found is the one of an identifier whose range has the position.
\<close>
theorem links_are_clickable:
  assumes "eb_dataSourceId db = Some d" "d \<noteq> 0"
    and "List.find (\<lambda>st. statementType st = VALID \<and> isPositionInStatement p st) sts = Some st"
  shows "((\<exists>obj. findTableIdentifierAtPosition (Some p) sts db = Some obj)
        \<longleftrightarrow> (\<exists>r \<in> set (getTableIdentifierUnderlineRanges [st]). isPositionIn p r))
    \<and> (case findTableIdentifierAtPosition (Some p) sts db of
         Some obj \<Rightarrow> te_identifier obj \<in> set (identifiers st) \<and> isNavigableDatabaseObjectIdentifier st (te_identifier obj)
           \<and> isPositionIn p (getTableIdentifierRange st (te_identifier obj))
       | None \<Rightarrow> True)"
proof -
  let ?P = "\<lambda>i. isNavigableDatabaseObjectIdentifier st i \<and> isPositionIn p (getTableIdentifierRange st i)"
  have valid: "statementType st = VALID" using find_SomeD[OF assms(3)] by simp
  have named: "id_name i \<noteq> []" if "?P i" for i using that by (auto simp: isNavigableDatabaseObjectIdentifier_def split: if_splits)
  have rows: "startRow r \<noteq> 0 \<and> endRow r \<noteq> 0" if "isPositionIn p r" for r using that by (auto simp: isPositionIn_def split: if_splits)
  have "(\<exists>r \<in> set (getTableIdentifierUnderlineRanges [st]). isPositionIn p r) \<longleftrightarrow> (\<exists>i \<in> set (identifiers st). ?P i)"
    using valid rows by (auto simp: getTableIdentifierUnderlineRanges_def statement_links_def)
  moreover have found: "map_option te_identifier (findTableIdentifierAtPosition (Some p) sts db) = List.find ?P (identifiers st)"
    using assms named by (auto simp: findTableIdentifierAtPosition_def Let_def dest!: find_SomeD split: option.split)
  then have "(\<exists>obj. findTableIdentifierAtPosition (Some p) sts db = Some obj) \<longleftrightarrow> (\<exists>i. List.find ?P (identifiers st) = Some i)"
    by (metis map_option_is_None not_None_eq)
  moreover have "te_identifier obj \<in> set (identifiers st) \<and> ?P (te_identifier obj)"
    if "findTableIdentifierAtPosition (Some p) sts db = Some obj" for obj
    using found that find_SomeD[of ?P "identifiers st" "te_identifier obj"] by simp
  ultimately show ?thesis by (simp add: find_ex split: option.split)
qed

definition sample_identifier :: SimpleIdentifier where
  "sample_identifier = \<lparr>id_name = ''users'', id_alias = [], id_type = ''TABLE'', identifierDatabase = [], identifierSchema = [],
     identifierTable = ''users'', identifierStartRowNum = 1, identifierStartColNum = 19, identifierEndRowNum = 1, identifierEndColNum = 24,
     aliasStartRowNum = 0, aliasStartColNum = 0, aliasEndRowNum = 0, aliasEndColNum = 0\<rparr>"

definition sample_select :: SqlStatement where
  "sample_select = \<lparr>st_sql = ''select * from app.users'', sqlStartRowNum = 1, sqlStartColNum = 1, sqlEndRowNum = 1, sqlEndColNum = 24,
     st_type = ''SELECT'', statementType = VALID, identifiers = [sample_identifier], tableColumns = None, insertValueMappings = None\<rparr>"

definition sample_bound :: EditorBoundInfo where
  "sample_bound = \<lparr>eb_dataSourceId = Some 7, eb_dataSourceName = None, eb_databaseType = None, eb_databaseName = None, eb_schemaName = None\<rparr>"

theorem links_are_clickable_witness:
  "\<exists>obj. findTableIdentifierAtPosition (Some \<lparr>ps_lineNumber = 1, ps_column = 16\<rparr>) [sample_select] sample_bound = Some obj"
proof -
  let ?p = "\<lparr>ps_lineNumber = 1, ps_column = 16\<rparr> :: IPosition"
  have "List.find (\<lambda>st. statementType st = VALID \<and> isPositionInStatement ?p st) [sample_select] = Some sample_select"
    by (simp add: isPositionInStatement_def sample_select_def)
  moreover have "\<exists>r \<in> set (getTableIdentifierUnderlineRanges [sample_select]). isPositionIn ?p r" by code_simp
  moreover have "eb_dataSourceId sample_bound = Some 7" by (simp add: sample_bound_def)
  ultimately show ?thesis using links_are_clickable[of sample_bound 7 ?p "[sample_select]" sample_select] by simp
qed

section \<open>Names come back\<close>

text \<open>A part of a name as it is written.\<close>

datatype name_part = Plain string | Quoted char string | Bracketed string

fun doubled :: "char \<Rightarrow> string \<Rightarrow> bool" where
  "doubled q [] = True"
| "doubled q [c] = (c \<noteq> q)"
| "doubled q (c # d # cs) = (if c = q then d = q \<and> doubled q cs else doubled q (d # cs))"

fun part_ok :: "name_part \<Rightarrow> bool" where
  "part_ok (Plain w) = (case w of [] \<Rightarrow> False | c # cs \<Rightarrow> is_word_char c \<and> \<not> is_digit c \<and> list_all (\<lambda>d. is_word_char d \<or> d = CHR ''$'') cs)"
| "part_ok (Quoted q b) = ((q = DQUOTE \<or> q = BACKTICK) \<and> doubled q b)"
| "part_ok (Bracketed b) = (b \<noteq> [] \<and> CHR '']'' \<notin> set b)"

fun print_part :: "name_part \<Rightarrow> string" where
  "print_part (Plain w) = w"
| "print_part (Quoted q b) = q # b @ [q]"
| "print_part (Bracketed b) = CHR ''['' # b @ [CHR '']'']"

fun name_of :: "name_part \<Rightarrow> string" where
  "name_of (Plain w) = w"
| "name_of (Quoted q b) = b"
| "name_of (Bracketed b) = b"

fun is_quoted :: "name_part \<Rightarrow> bool" where
  "is_quoted (Plain w) = False"
| "is_quoted _ = True"

lemma quote_rest_body:
  "doubled q b \<Longrightarrow> post = [] \<or> hd post \<noteq> q \<Longrightarrow> quote_rest q (b @ q # post) = Some post"
proof (induction q b rule: doubled.induct)
  case (1 q)
  then show ?case by (cases post) auto
next
  case (2 q c)
  then show ?case by (cases post) auto
qed auto

lemma split_quoted:
  "doubled q b \<Longrightarrow> q = DQUOTE \<or> q = BACKTICK \<Longrightarrow> split_parts (Some q) cur (b @ q # rest) = split_parts None (cur @ b @ [q]) rest"
proof (induction q b arbitrary: cur rule: doubled.induct)
  case (3 q c d cs)
  show ?case
  proof (cases "c = q")
    case True
    then show ?thesis using 3(1)[of "cur @ [q, q]"] 3(3,4) by auto
  next
    case False
    then show ?thesis using 3(2)[of "cur @ [c]"] 3(3,4) by simp
  qed
qed auto

lemma split_bracketed:
  "q \<notin> set b \<Longrightarrow> split_parts (Some q) cur (b @ q # rest) = split_parts None (cur @ b @ [q]) rest"
  by (induction b arbitrary: cur) auto

lemma word_not_special: "is_word_char c \<or> c = CHR ''$'' \<Longrightarrow> c \<noteq> DQUOTE \<and> c \<noteq> BACKTICK \<and> c \<noteq> CHR ''['' \<and> c \<noteq> CHR ''.'' \<and> \<not> is_space c"
  by (auto simp: is_word_char_def is_space_def Let_def)

lemma split_word:
  "list_all (\<lambda>d. is_word_char d \<or> d = CHR ''$'') w \<Longrightarrow> split_parts None cur (w @ rest) = split_parts None (cur @ w) rest"
proof (induction w arbitrary: cur)
  case (Cons d w)
  then have "is_word_char d \<or> d = CHR ''$''" by simp
  from word_not_special[OF this] show ?case using Cons by simp
qed simp

lemma plain_word: "part_ok (Plain w) \<Longrightarrow> list_all (\<lambda>d. is_word_char d \<or> d = CHR ''$'') w"
  by (cases w) auto

lemma split_printed: "part_ok p \<Longrightarrow> split_parts None cur (print_part p @ rest) = split_parts None (cur @ print_part p) rest"
proof (cases p)
  case (Plain w)
  assume "part_ok p"
  then show ?thesis using Plain split_word[OF plain_word, of w cur rest] by simp
next
  case (Quoted q b)
  assume "part_ok p"
  then show ?thesis using Quoted split_quoted[of q b "cur @ [q]" rest] by auto
next
  case (Bracketed b)
  assume "part_ok p"
  then show ?thesis using Bracketed split_bracketed[of "CHR '']''" b "cur @ [CHR ''['']" rest] by simp
qed

lemma trim_fixed: "s \<noteq> [] \<Longrightarrow> \<not> is_space (hd s) \<Longrightarrow> \<not> is_space (last s) \<Longrightarrow> trim s = s"
proof -
  assume s: "s \<noteq> []" "\<not> is_space (hd s)" "\<not> is_space (last s)"
  then have "dropWhile is_space s = s" "dropWhile is_space (rev s) = rev s"
    by (simp_all add: dropWhile_eq_self_iff hd_rev)
  then show ?thesis by (simp add: trim_def trim_start_def trim_end_def)
qed

lemma print_trim: "part_ok p \<Longrightarrow> print_part p \<noteq> [] \<and> trim (print_part p) = print_part p"
proof (cases p)
  case (Plain w)
  assume ok: "part_ok p"
  then have "\<forall>c \<in> set w. \<not> is_space c" using Plain plain_word[of w] word_not_special by (auto simp: list_all_iff)
  then show ?thesis using ok Plain trim_no_space[of w] by (cases w) auto
next
  case (Quoted q b)
  assume "part_ok p"
  then have "\<not> is_space q" using Quoted by (auto simp: is_space_def)
  then show ?thesis using Quoted trim_fixed[of "q # b @ [q]"] by simp
next
  case (Bracketed b)
  have "\<not> is_space (CHR ''['')" "\<not> is_space (CHR '']'')" by (simp_all add: is_space_def)
  then show ?thesis using Bracketed trim_fixed[of "CHR ''['' # b @ [CHR '']'']"] by simp
qed

lemma split_join: "ps \<noteq> [] \<Longrightarrow> \<forall>p \<in> set ps. part_ok p \<Longrightarrow> split_parts None [] (join ''.'' (map print_part ps)) = map print_part ps"
proof (induction ps)
  case (Cons p ps)
  then have p: "part_ok p" "trim (print_part p) = print_part p" using print_trim by auto
  show ?case
  proof (cases ps)
    case Nil
    then show ?thesis using split_printed[OF p(1), of "[]" "[]"] p(2) by simp
  next
    case (Cons q qs)
    then show ?thesis
      using Cons.IH Cons.prems split_printed[OF p(1), of "[]" "CHR ''.'' # join ''.'' (map print_part ps)"] p(2) by simp
  qed
qed simp

text \<open>What may follow a name so that it ends there: no more letters, no quote, and no dot after white space.\<close>

definition part_stops :: "string \<Rightarrow> bool" where
  "part_stops post \<longleftrightarrow> post = [] \<or> \<not> is_word_char (hd post) \<and> hd post \<noteq> CHR ''$'' \<and> hd post \<noteq> DQUOTE \<and> hd post \<noteq> BACKTICK"

definition name_ends :: "string \<Rightarrow> bool" where
  "name_ends post \<longleftrightarrow> part_stops post \<and> (case dropWhile is_space post of [] \<Rightarrow> True | c # cs \<Rightarrow> c \<noteq> CHR ''.'')"

lemma name_ends_stops: "name_ends post \<Longrightarrow> more_parts post = post \<and> part_stops post"
  by (cases "dropWhile is_space post") (simp_all add: name_ends_def more_parts.simps[of post] del: dropWhile_eq_Nil_conv)

lemma match_printed: "part_ok p \<Longrightarrow> part_stops post \<Longrightarrow> match_part (print_part p @ post) = Some post"
proof (cases p)
  case (Plain w)
  assume ok: "part_ok p" and stop: "part_stops post"
  then obtain c cs where w: "w = c # cs" "is_word_char c" "\<not> is_digit c" "\<forall>d \<in> set cs. is_word_char d \<or> d = CHR ''$''"
    using Plain by (cases w) (auto simp: list_all_iff)
  have "dropWhile (\<lambda>d. is_word_char d \<or> d = CHR ''$'') (cs @ post) = post"
    using w(4) stop by (auto simp: dropWhile_append2 part_stops_def dropWhile_eq_self_iff)
  then show ?thesis using w word_not_special[of c] Plain by (simp add: match_part_def)
next
  case (Quoted q b)
  assume "part_ok p" "part_stops post"
  then show ?thesis using Quoted quote_rest_body[of q b post] by (auto simp: match_part_def part_stops_def)
next
  case (Bracketed b)
  assume ok: "part_ok p"
  then have "dropWhile (\<lambda>c. c \<noteq> CHR '']'') (b @ CHR '']'' # post) = CHR '']'' # post"
    using Bracketed by (subst dropWhile_append2) auto
  then show ?thesis using Bracketed ok by (cases b) (auto simp: match_part_def bracket_rest_def)
qed

lemma print_start: "part_ok p \<Longrightarrow> dropWhile is_space (print_part p @ s) = print_part p @ s"
  using print_trim[of p] trim_ends[of "print_part p"] by (cases "print_part p") auto

lemma more_printed:
  "ps \<noteq> [] \<Longrightarrow> \<forall>p \<in> set ps. part_ok p \<Longrightarrow> name_ends post
   \<Longrightarrow> more_parts (CHR ''.'' # join ''.'' (map print_part ps) @ post) = post"
proof (induction ps)
  case (Cons p ps)
  have dot: "\<not> is_space (CHR ''.'')" "part_stops (CHR ''.'' # s)" for s
    by (simp_all add: is_space_def part_stops_def is_word_char_def)
  show ?case
  proof (cases ps)
    case Nil
    show ?thesis
      using Cons.prems Nil dot match_printed[of p post] name_ends_stops[OF Cons.prems(3)] print_start[of p post] by (subst more_parts.simps) simp
  next
    case (Cons q qs)
    let ?rest = "CHR ''.'' # join ''.'' (map print_part ps) @ post"
    have "match_part (print_part p @ ?rest) = Some ?rest" using Cons.prems dot by (intro match_printed) auto
    then show ?thesis
      using Cons.IH Cons.prems Cons dot print_start[of p ?rest] by (subst more_parts.simps) simp
  qed
qed simp

lemma names_printed: "part_ok p \<Longrightarrow> isQuotedIdentifier (print_part p) = is_quoted p \<and> normalizeIdentifierName (print_part p) = name_of p"
proof (cases p)
  case (Plain w)
  assume ok: "part_ok p"
  have "\<not> is_word_char DQUOTE" "\<not> is_word_char BACKTICK" "\<not> is_word_char CHR ''[''" by (simp_all add: is_word_char_def)
  then have "\<not> isQuotedIdentifier w"
    using ok Plain print_trim[of p] by (cases w) (auto simp: isQuotedIdentifier_def enclosed_def startsWith_def)
  then show ?thesis using Plain print_trim[OF ok] by (simp add: normalizeIdentifierName_def)
next
  case (Quoted q b)
  assume ok: "part_ok p"
  then show ?thesis using Quoted print_trim[OF ok]
    by (auto simp: isQuotedIdentifier_def enclosed_def startsWith_def endsWith_def normalizeIdentifierName_def)
next
  case (Bracketed b)
  assume ok: "part_ok p"
  then show ?thesis using Bracketed print_trim[OF ok]
    by (auto simp: isQuotedIdentifier_def enclosed_def startsWith_def endsWith_def normalizeIdentifierName_def)
qed

text \<open>
  Qualified names are read as they are written. A name of any number of parts (plain, in double quotes or
  backticks with doubled quotes inside, or in brackets), joined by dots and followed by something that ends a
  name, is matched exactly, and split into its parts with their names and whether they are quoted, also if
  quoted parts contain dots, blanks or quotes.
\<close>
theorem qualified_name_recognised:
  assumes "ps \<noteq> []" "\<forall>p \<in> set ps. part_ok p" "name_ends post"
  shows "match_identifier (join ''.'' (map print_part ps) @ post) = Some post
    \<and> map createQualifiedIdentifierPart (splitQualifiedIdentifier (join ''.'' (map print_part ps)))
      = map (\<lambda>p. \<lparr>part_rawValue = print_part p, part_name = name_of p, part_quoted = is_quoted p\<rparr>) ps"
proof -
  obtain p qs where ps: "ps = p # qs" using assms(1) by (cases ps) auto
  have "match_identifier (join ''.'' (map print_part ps) @ post) = Some post"
  proof (cases qs)
    case Nil
    then show ?thesis using match_printed[of p post] name_ends_stops[OF assms(3)] assms(2) ps by (simp add: match_identifier_def)
  next
    case (Cons r rs)
    let ?rest = "CHR ''.'' # join ''.'' (map print_part qs) @ post"
    have "part_stops ?rest" by (simp add: part_stops_def is_word_char_def)
    then have "match_part (print_part p @ ?rest) = Some ?rest" using assms(2) ps by (intro match_printed) auto
    then show ?thesis using more_printed[of qs post] assms(2,3) ps Cons by (simp add: match_identifier_def)
  qed
  moreover have "splitQualifiedIdentifier (join ''.'' (map print_part ps)) = map print_part ps"
    using split_join[OF assms(1,2)] assms(2) print_trim by (auto simp: splitQualifiedIdentifier_def filter_id_conv)
  moreover have "createQualifiedIdentifierPart (print_part p) = \<lparr>part_rawValue = print_part p, part_name = name_of p, part_quoted = is_quoted p\<rparr>"
    if "p \<in> set ps" for p using names_printed[of p] assms(2) that by (simp add: createQualifiedIdentifierPart_def)
  ultimately show ?thesis by simp
qed

theorem qualified_name_recognised_witness:
  "match_identifier (join ''.'' (map print_part [Plain ''app'', Quoted DQUOTE ''my.table'']) @ '' where'') = Some '' where''"
proof (rule qualified_name_recognised[THEN conjunct1])
  show "\<forall>p \<in> set [Plain ''app'', Quoted DQUOTE ''my.table'']. part_ok p" by code_simp
  show "name_ends '' where''" by code_simp
qed simp

end
