(* ===== verification/Sql_Punctuation.thy ===== *)
theory Sql_Punctuation
  imports Js_Prelude
begin

text \<open>
  Punctuation of foreign keyboards in the SQL editor, \<open>components/SQLEditor/helper/sqlInputPunctuation.ts\<close>: full-width
  characters are replaced by the ones of SQL, unless the cursor is in a string, a quoted name or a comment.

  The text of an input event is a list of code units, because the characters in question are above 255; the
  SQL before the cursor only matters for its ASCII delimiters and is a string.
\<close>

section \<open>Tables\<close>

definition normalPunctuationByCode :: "(string \<times> char) list" where
  "normalPunctuationByCode =
     [(''Backquote'', CHR 0x60), (''Minus'', CHR ''-''), (''Equal'', CHR ''=''), (''BracketLeft'', CHR ''[''),
      (''BracketRight'', CHR '']''), (''Backslash'', CHR 0x5C), (''IntlBackslash'', CHR 0x5C), (''Semicolon'', CHR '';''),
      (''Quote'', CHR 0x27), (''Comma'', CHR '',''), (''Period'', CHR ''.''), (''Slash'', CHR ''/''),
      (''NumpadAdd'', CHR ''+''), (''NumpadSubtract'', CHR ''-''), (''NumpadMultiply'', CHR ''*''), (''NumpadDivide'', CHR ''/''),
      (''NumpadDecimal'', CHR ''.''), (''NumpadComma'', CHR '',''), (''NumpadEqual'', CHR ''='')]"

definition shiftPunctuationByCode :: "(string \<times> char) list" where
  "shiftPunctuationByCode =
     [(''Backquote'', CHR ''~''), (''Digit1'', CHR ''!''), (''Digit2'', CHR ''@''), (''Digit3'', CHR ''#''),
      (''Digit4'', CHR ''$''), (''Digit5'', CHR ''%''), (''Digit6'', CHR ''^''), (''Digit7'', CHR ''&''),
      (''Digit8'', CHR ''*''), (''Digit9'', CHR ''(''), (''Digit0'', CHR '')''), (''Minus'', CHR ''_''),
      (''Equal'', CHR ''+''), (''BracketLeft'', CHR ''{''), (''BracketRight'', CHR ''}''), (''Backslash'', CHR ''|''),
      (''IntlBackslash'', CHR ''|''), (''Semicolon'', CHR '':''), (''Quote'', CHR 0x22), (''Comma'', CHR ''<''),
      (''Period'', CHR ''>''), (''Slash'', CHR ''?'')]"

definition normalizedSqlPunctuation :: "(nat \<times> char) list" where
  "normalizedSqlPunctuation =
     [(0x3002, CHR ''.''), (0xFF0E, CHR ''.''), (0xFF61, CHR ''.''), (0xFF0C, CHR '',''), (0xFF64, CHR '',''),
      (0xFF1B, CHR '';''), (0xFF1A, CHR '':''), (0xFF08, CHR ''(''), (0xFF09, CHR '')''), (0xFF3B, CHR ''[''),
      (0xFF3D, CHR '']''), (0x3010, CHR ''[''), (0x3011, CHR '']''), (0xFF5B, CHR ''{''), (0xFF5D, CHR ''}''),
      (0x3001, CHR ''/''), (0xFF0F, CHR ''/''), (0xFF3C, CHR 0x5C), (0xFF40, CHR 0x60), (0xFF5E, CHR ''~''),
      (0xFF01, CHR ''!''), (0xFF1F, CHR ''?''), (0xFF20, CHR ''@''), (0xFF03, CHR ''#''), (0xFF04, CHR ''$''),
      (0xFF05, CHR ''%''), (0xFF3E, CHR ''^''), (0xFF06, CHR ''&''), (0xFF0A, CHR ''*''), (0xFF0D, CHR ''-''),
      (0xFF3F, CHR ''_''), (0xFF1D, CHR ''=''), (0xFF0B, CHR ''+''), (0xFF1C, CHR ''<''), (0xFF1E, CHR ''>''),
      (0xFF5C, CHR ''|''), (0xFF02, CHR 0x22), (0x201C, CHR 0x22), (0x201D, CHR 0x22), (0xFF07, CHR 0x27),
      (0x2018, CHR 0x27), (0x2019, CHR 0x27)]"

section \<open>Input events\<close>

type_synonym code_units = "nat list"

abbreviation units :: "string \<Rightarrow> code_units" where
  "units \<equiv> map of_char"

record KeyboardLikeEvent =
  altKey :: bool
  ctrlKey :: bool
  metaKey :: bool
  shiftKey :: bool
  isComposing :: bool
  ev_key :: code_units
  ev_code :: string

definition normalizeSqlInputPunctuation :: "code_units option \<Rightarrow> char option" where
  "normalizeSqlInputPunctuation text =
     (case text of
        Some [u] \<Rightarrow>
          (case map_of normalizedSqlPunctuation u of
             Some c \<Rightarrow> if of_char c \<noteq> u then Some c else None
           | None \<Rightarrow> None)
      | _ \<Rightarrow> None)"

definition sqlPunctuationFromKeyboardEvent :: "KeyboardLikeEvent option \<Rightarrow> char option" where
  "sqlPunctuationFromKeyboardEvent event =
     (case event of
        None \<Rightarrow> None
      | Some e \<Rightarrow>
          if metaKey e \<or> ctrlKey e \<or> altKey e \<or> isComposing e then None
          else (case normalizeSqlInputPunctuation (Some (ev_key e)) of
                  Some c \<Rightarrow> Some c
                | None \<Rightarrow>
                    if ev_key e \<notin> {units ''Process'', units ''Unidentified'', units ''Dead''} then None
                    else map_of (if shiftKey e then shiftPunctuationByCode else normalPunctuationByCode) (ev_code e)))"

section \<open>The context of the cursor\<close>

datatype SqlPunctuationContext =
  InSql | SingleQuoteString | DoubleQuoteString | BacktickIdentifier | BracketIdentifier | LineComment | BlockComment


text \<open>
  One round of the loop: the new context, and whether the next character is skipped. \<open>escaped\<close> is
  \<open>isBackslashEscaped\<close> at the character.
\<close>

fun context_step :: "bool \<Rightarrow> SqlPunctuationContext \<Rightarrow> char \<Rightarrow> char option \<Rightarrow> SqlPunctuationContext \<times> bool" where
  "context_step escaped InSql c nxt =
     (if c = SQUOTE then (SingleQuoteString, False)
      else if c = DQUOTE then (DoubleQuoteString, False)
      else if c = BACKTICK then (BacktickIdentifier, False)
      else if c = CHR ''['' then (BracketIdentifier, False)
      else if c = CHR ''-'' \<and> nxt = Some (CHR ''-'') then (LineComment, True)
      else if c = CHR ''/'' \<and> nxt = Some (CHR ''*'') then (BlockComment, True)
      else (InSql, False))"
| "context_step escaped SingleQuoteString c nxt =
     (if c = SQUOTE \<and> nxt = Some SQUOTE then (SingleQuoteString, True)
      else if c = SQUOTE \<and> \<not> escaped then (InSql, False)
      else (SingleQuoteString, False))"
| "context_step escaped DoubleQuoteString c nxt =
     (if c = DQUOTE \<and> nxt = Some DQUOTE then (DoubleQuoteString, True)
      else if c = DQUOTE \<and> \<not> escaped then (InSql, False)
      else (DoubleQuoteString, False))"
| "context_step escaped BacktickIdentifier c nxt =
     (if c = BACKTICK \<and> nxt = Some BACKTICK then (BacktickIdentifier, True)
      else if c = BACKTICK then (InSql, False)
      else (BacktickIdentifier, False))"
| "context_step escaped BracketIdentifier c nxt =
     (if c = CHR '']'' \<and> nxt = Some (CHR '']'') then (BracketIdentifier, True)
      else if c = CHR '']'' then (InSql, False)
      else (BracketIdentifier, False))"
| "context_step escaped LineComment c nxt = (if c = LF \<or> c = CR then (InSql, False) else (LineComment, False))"
| "context_step escaped BlockComment c nxt =
     (if c = CHR ''*'' \<and> nxt = Some (CHR ''/'') then (InSql, True) else (BlockComment, False))"

definition isBackslashEscaped :: "string \<Rightarrow> nat \<Rightarrow> bool" where
  "isBackslashEscaped sql index \<longleftrightarrow> length (takeWhile (\<lambda>c. c = BACKSLASH) (rev (take index sql))) mod 2 = 1"

definition char_at :: "string \<Rightarrow> nat \<Rightarrow> char option" where
  "char_at s i = (if i < length s then Some (s ! i) else None)"

function context_loop :: "string \<Rightarrow> nat \<Rightarrow> nat \<Rightarrow> SqlPunctuationContext \<Rightarrow> SqlPunctuationContext" where
  "context_loop sql safeOffset index context =
     (if safeOffset \<le> index then context
      else
        let (context', skip) = context_step (isBackslashEscaped sql index) context (sql ! index) (char_at sql (index + 1))
        in context_loop sql safeOffset (if skip then index + 2 else index + 1) context')"
  by pat_completeness auto
termination by (relation "measure (\<lambda>(sql, n, i, c). n - i)") (auto split: if_splits)

declare context_loop.simps [simp del]

definition sqlPunctuationContextAtOffset :: "string \<Rightarrow> int \<Rightarrow> SqlPunctuationContext" where
  "sqlPunctuationContextAtOffset sql offset =
     context_loop sql (nat (max 0 (min offset (int (length sql))))) 0 InSql"

definition shouldNormalizeSqlInputPunctuation :: "string option \<Rightarrow> int \<Rightarrow> bool" where
  "shouldNormalizeSqlInputPunctuation sql offset \<longleftrightarrow> sqlPunctuationContextAtOffset (the_default [] sql) offset = InSql"

section \<open>The loop as an automaton\<close>

text \<open>
  A single pass over the text that remembers whether the next character is escaped instead of
  looking back.
\<close>

fun automaton :: "bool \<Rightarrow> SqlPunctuationContext \<Rightarrow> nat \<Rightarrow> string \<Rightarrow> SqlPunctuationContext" where
  "automaton esc context 0 s = context"
| "automaton esc context (Suc k) [] = context"
| "automaton esc context (Suc k) (c # cs) =
     (case context_step esc context c (char_at cs 0) of
        (context', True) \<Rightarrow> automaton False context' (k - 1) (tl cs)
      | (context', False) \<Rightarrow> automaton (c = BACKSLASH \<and> \<not> esc) context' k cs)"

lemma char_at_drop [simp]: "char_at (drop i s) 0 = char_at s i"
  by (simp add: char_at_def)

lemma char_at_Cons [simp]: "char_at (c # s) 0 = Some c" "char_at [] i = None"
  by (simp_all add: char_at_def)

lemma isBackslashEscaped_0 [simp]: "\<not> isBackslashEscaped sql 0"
  by (simp add: isBackslashEscaped_def)

lemma isBackslashEscaped_Suc:
  assumes "i < length sql"
  shows "isBackslashEscaped sql (Suc i) \<longleftrightarrow> sql ! i = BACKSLASH \<and> \<not> isBackslashEscaped sql i"
proof -
  have "(Suc k mod 2 = 1) = (k mod 2 \<noteq> 1)" for k :: nat
    by presburger
  then show ?thesis
    using assms by (simp add: isBackslashEscaped_def take_Suc_conv_app_nth)
qed

text \<open>A character that is skipped is the second one of a pair, and never a backslash.\<close>

lemma context_step_skips:
  assumes "context_step esc c x nxt = (c', True)"
  obtains y where "nxt = Some y" "y \<noteq> BACKSLASH"
  using assms by (cases c) (auto split: if_splits)

lemma context_loop_automaton:
  assumes "n \<le> length sql"
  shows "context_loop sql n i c = automaton (isBackslashEscaped sql i) c (n - i) (drop i sql)"
  using assms
proof (induction sql n i c rule: context_loop.induct)
  case (1 sql n i c)
  show ?case
  proof (cases "n \<le> i")
    case False
    obtain c' skip where step: "context_step (isBackslashEscaped sql i) c (sql ! i) (char_at sql (i + 1)) = (c', skip)"
      by fastforce
    have i: "i < length sql" and k: "n - i = Suc (n - Suc i)"
      using False 1(2) by auto
    have drop: "drop i sql = sql ! i # drop (Suc i) sql"
      using i by (simp add: Cons_nth_drop_Suc)
    have tl2: "tl (drop (Suc i) sql) = drop (Suc (Suc i)) sql"
      by (simp add: tl_drop drop_Suc)
    have IH: "context_loop sql n (if skip then i + 2 else i + 1) c' =
        automaton (isBackslashEscaped sql (if skip then i + 2 else i + 1)) c'
          (n - (if skip then i + 2 else i + 1)) (drop (if skip then i + 2 else i + 1) sql)"
      by (rule 1(1)[OF False step[symmetric]]) (use 1(2) in auto)
    have loop: "context_loop sql n i c = context_loop sql n (if skip then i + 2 else i + 1) c'"
      using False step by (subst context_loop.simps) simp
    show ?thesis
    proof (cases skip)
      case True
      then have "\<exists>y. char_at sql (Suc i) = Some y \<and> y \<noteq> BACKSLASH"
        using step by (auto elim: context_step_skips)
      then have "Suc i < length sql" "sql ! Suc i \<noteq> BACKSLASH"
        by (auto simp: char_at_def split: if_splits)
      then have "\<not> isBackslashEscaped sql (i + 2)"
        by (simp add: isBackslashEscaped_Suc)
      then show ?thesis
        using True step IH tl2 by (simp add: loop k drop)
    next
      case False
      then show ?thesis
        using step IH i by (simp add: loop k drop isBackslashEscaped_Suc)
    qed
  qed (simp add: context_loop.simps)
qed

lemma automaton_Nil [simp]: "automaton esc c n [] = c"
  by (cases n) simp_all

lemma automaton_beyond: "length s \<le> n \<Longrightarrow> automaton esc c n s = automaton esc c (length s) s"
proof (induction esc c n s rule: automaton.induct)
  case (3 esc c k x xs)
  obtain c' skip where step: "context_step esc c x (char_at xs 0) = (c', skip)"
    by fastforce
  show ?case
  proof (cases skip)
    case True
    then show ?thesis
      using 3(1)[OF step[symmetric]] 3(3) step by simp
  next
    case False
    then show ?thesis
      using 3(2)[OF step[symmetric]] 3(3) step by simp
  qed
qed simp_all

lemma automaton_min: "automaton esc c (min n (length s)) s = automaton esc c n s"
  using automaton_beyond[of s n esc c] by (cases "n \<le> length s") (simp_all add: min_def)

lemma punctuation_context_pass:
  "sqlPunctuationContextAtOffset sql offset = automaton False InSql (nat offset) sql"
proof -
  have "nat (max 0 (min offset (int (length sql)))) = min (nat offset) (length sql)"
    by simp
  then show ?thesis
    by (simp add: sqlPunctuationContextAtOffset_def context_loop_automaton automaton_min)
qed

text \<open>
  The context of the cursor, for which the source looks back at the backslashes before every quote, is
  the one a single pass with one bit of memory computes, for every text and every offset, outside of the text too.
\<close>

theorem punctuation_context_automaton:
  "sqlPunctuationContextAtOffset sql offset = automaton False InSql (nat offset) sql"
  by (rule punctuation_context_pass)

section \<open>Texts of complete tokens\<close>

text \<open>
  SQL as a person reads it: characters of code, strings and quoted names, in which the closing delimiter is written
  twice to stand for itself, and comments. In a string a backslash makes the next character stand for itself too.
\<close>

datatype text_part = Plain char | DoubledQuote | Escaped char

datatype sql_token =
  Code char
| Quoted SqlPunctuationContext string
| Text SqlPunctuationContext "text_part list"
| Line_Comment string char
| Block_Comment string

fun closing_delimiter :: "SqlPunctuationContext \<Rightarrow> char option" where
  "closing_delimiter SingleQuoteString = Some SQUOTE"
| "closing_delimiter DoubleQuoteString = Some DQUOTE"
| "closing_delimiter BacktickIdentifier = Some BACKTICK"
| "closing_delimiter BracketIdentifier = Some (CHR '']'')"
| "closing_delimiter _ = None"

definition opening_delimiter :: "SqlPunctuationContext \<Rightarrow> char" where
  "opening_delimiter kind =
     (if kind = BracketIdentifier then CHR ''['' else the (closing_delimiter kind))"

definition doubled :: "char \<Rightarrow> string \<Rightarrow> string" where
  "doubled q body = concat (map (\<lambda>c. if c = q then [q, q] else [c]) body)"

fun render_part :: "char \<Rightarrow> text_part \<Rightarrow> string" where
  "render_part q (Plain c) = [c]"
| "render_part q DoubledQuote = [q, q]"
| "render_part q (Escaped c) = [BACKSLASH, c]"

abbreviation render_parts :: "char \<Rightarrow> text_part list \<Rightarrow> string" where
  "render_parts q parts \<equiv> concat (map (render_part q) parts)"

fun render_token :: "sql_token \<Rightarrow> string" where
  "render_token (Code c) = [c]"
| "render_token (Text kind parts) =
     opening_delimiter kind # render_parts (the (closing_delimiter kind)) parts @ [the (closing_delimiter kind)]"
| "render_token (Quoted kind body) =
     opening_delimiter kind # doubled (the (closing_delimiter kind)) body @ [the (closing_delimiter kind)]"
| "render_token (Line_Comment body br) = ''--'' @ body @ [br]"
| "render_token (Block_Comment body) = ''/*'' @ body @ ''*/''"

abbreviation render :: "sql_token list \<Rightarrow> string" where
  "render \<equiv> \<lambda>ts. concat (map render_token ts)"

fun closes_comment :: "string \<Rightarrow> bool" where
  "closes_comment (a # b # s) \<longleftrightarrow> a = CHR ''*'' \<and> b = CHR ''/'' \<or> closes_comment (b # s)"
| "closes_comment _ \<longleftrightarrow> False"

text \<open>An escaped quote is not followed at once by another quote: that is where the source goes wrong.\<close>

fun parts_ok :: "char \<Rightarrow> text_part list \<Rightarrow> bool" where
  "parts_ok q [] \<longleftrightarrow> True"
| "parts_ok q (p # ps) \<longleftrightarrow>
     (case p of Plain c \<Rightarrow> c \<noteq> q \<and> c \<noteq> BACKSLASH | DoubledQuote \<Rightarrow> True
      | Escaped c \<Rightarrow> c \<noteq> q \<or> ps \<noteq> [] \<and> hd ps \<noteq> DoubledQuote) \<and> parts_ok q ps"

fun token_ok :: "sql_token \<Rightarrow> bool" where
  "token_ok (Code c) \<longleftrightarrow> c \<notin> {SQUOTE, DQUOTE, BACKTICK, CHR ''[''}"
| "token_ok (Quoted kind body) \<longleftrightarrow> kind \<in> {BacktickIdentifier, BracketIdentifier}"
| "token_ok (Text kind parts) \<longleftrightarrow>
     kind \<in> {SingleQuoteString, DoubleQuoteString} \<and> parts_ok (the (closing_delimiter kind)) parts"
| "token_ok (Line_Comment body br) \<longleftrightarrow> br \<in> {LF, CR} \<and> LF \<notin> set body \<and> CR \<notin> set body"
| "token_ok (Block_Comment body) \<longleftrightarrow> \<not> closes_comment body"

text \<open>What follows a token must not change its reading.\<close>

fun ends_before :: "sql_token \<Rightarrow> string \<Rightarrow> bool" where
  "ends_before (Code c) rest \<longleftrightarrow>
     \<not> (c = CHR ''-'' \<and> char_at rest 0 = Some (CHR ''-'')) \<and> \<not> (c = CHR ''/'' \<and> char_at rest 0 = Some (CHR ''*''))"
| "ends_before (Quoted kind body) rest \<longleftrightarrow> char_at rest 0 \<noteq> closing_delimiter kind"
| "ends_before (Text kind parts) rest \<longleftrightarrow> char_at rest 0 \<noteq> closing_delimiter kind"
| "ends_before _ rest \<longleftrightarrow> True"

fun tokens_ok :: "sql_token list \<Rightarrow> string \<Rightarrow> bool" where
  "tokens_ok [] rest \<longleftrightarrow> True"
| "tokens_ok (t # ts) rest \<longleftrightarrow> token_ok t \<and> ends_before t (render ts @ rest) \<and> tokens_ok ts rest"

fun token_context :: "sql_token \<Rightarrow> SqlPunctuationContext" where
  "token_context (Code c) = InSql"
| "token_context (Quoted kind body) = kind"
| "token_context (Text kind parts) = kind"
| "token_context (Line_Comment body br) = LineComment"
| "token_context (Block_Comment body) = BlockComment"

text \<open>The length of a token without the delimiter that closes it.\<close>

fun open_length :: "sql_token \<Rightarrow> nat" where
  "open_length (Code c) = 1"
| "open_length (Block_Comment body) = length body + 2"
| "open_length t = length (render_token t) - 1"

lemma doubled_simps [simp]:
  "doubled q [] = []"
  "doubled q (c # body) = (if c = q then q # q # doubled q body else c # doubled q body)"
  by (simp_all add: doubled_def)

lemma automaton_InSql: "automaton e1 InSql n s = automaton e2 InSql n s"
proof (induction n arbitrary: e1 e2 s)
  case (Suc n)
  show ?case
  proof (cases s)
    case (Cons c cs)
    then show ?thesis
      using Suc[of "c = BACKSLASH \<and> \<not> e1" cs "c = BACKSLASH \<and> \<not> e2"]
      by simp
  qed simp
qed simp

text \<open>Reading a string or a quoted name up to its end.\<close>

lemma quoted_step:
  assumes "closing_delimiter kind = Some q"
  shows "context_step esc kind c nxt =
    (if c = q \<and> nxt = Some q then (kind, True)
     else if c = q \<and> (kind \<in> {BacktickIdentifier, BracketIdentifier} \<or> \<not> esc) then (InSql, False)
     else (kind, False))"
  using assms by (cases kind) auto

lemma opening_step:
  assumes "closing_delimiter kind \<noteq> None"
  shows "context_step esc InSql (opening_delimiter kind) nxt = (kind, False)" "opening_delimiter kind \<noteq> BACKSLASH"
  using assms by (cases kind; simp add: opening_delimiter_def)+

lemma quoted_body:
  assumes "closing_delimiter kind = Some q" and "char_at rest 0 \<noteq> Some q"
    and "kind \<in> {BacktickIdentifier, BracketIdentifier} \<or> \<not> esc \<and> BACKSLASH \<notin> set body"
  shows "automaton esc kind n (doubled q body @ q # rest) =
    (if n \<le> length (doubled q body) then kind
     else automaton False InSql (n - Suc (length (doubled q body))) rest)"
  using assms(3)
proof (induction body arbitrary: esc n)
  case Nil
  then show ?case
    using assms(1,2) automaton_InSql[of "q = BACKSLASH \<and> \<not> esc" "n - 1" rest False] by (cases n) (auto simp: quoted_step)
next
  case (Cons c body)
  have "q \<noteq> BACKSLASH"
    using assms(1) by (cases kind) auto
  show ?case
  proof (cases n)
    case (Suc m)
    show ?thesis
    proof (cases "c = q")
      case True
      then show ?thesis
        using Suc Cons.IH[of False "m - 1"] Cons.prems assms(1) by (auto simp: quoted_step)
    next
      case False
      then show ?thesis
        using Suc Cons.IH[of "c = BACKSLASH \<and> \<not> esc" m] Cons.prems assms(1) by (auto simp: quoted_step)
    qed
  qed simp
qed

lemma text_body:
  assumes "closing_delimiter kind = Some q" and "char_at rest 0 \<noteq> Some q" and "parts_ok q parts"
    and "kind \<notin> {BacktickIdentifier, BracketIdentifier}"
  shows "automaton False kind n (render_parts q parts @ q # rest) =
    (if n \<le> length (render_parts q parts) then kind
     else automaton False InSql (n - Suc (length (render_parts q parts))) rest)"
  using assms(3)
proof (induction parts arbitrary: n)
  case Nil
  then show ?case
    using assms(1,2) automaton_InSql[of "q = BACKSLASH" "n - 1" rest False] by (cases n) (auto simp: quoted_step)
next
  case (Cons p ps)
  have q: "q \<noteq> BACKSLASH" using assms(1) by (cases kind) auto
  note IH = Cons.IH[OF conjunct2[OF Cons.prems[unfolded parts_ok.simps]]]
  show ?case
  proof (cases p)
    case (Plain c)
    with Cons.prems IH assms(1) show ?thesis by (cases n) (simp_all add: quoted_step)
  next
    case DoubledQuote
    with IH[of "n - 2"] assms(1) show ?thesis by (cases n; cases "n - 1") (simp_all add: quoted_step)
  next
    case (Escaped c)
    have "\<not> (c = q \<and> char_at (render_parts q ps @ q # rest) 0 = Some q)"
    proof (cases ps)
      case (Cons p' ps')
      with Escaped \<open>parts_ok q (p # ps)\<close> q show ?thesis by (cases p') auto
    qed (use Escaped Cons.prems in auto)
    with assms(1,4) have "context_step True kind c (char_at (render_parts q ps @ q # rest) 0) = (kind, False)"
      by (auto simp: quoted_step)
    moreover have "context_step False kind BACKSLASH x = (kind, False)" for x using assms(1) q by (simp add: quoted_step)
    ultimately show ?thesis
      using Escaped IH[of "n - 2"] by (cases n; cases "n - 1") (simp_all del: context_step.simps)
  qed
qed

text \<open>Reading a comment up to its end.\<close>

lemma line_comment_body:
  assumes "br \<in> {LF, CR}" and "LF \<notin> set body" "CR \<notin> set body"
  shows "automaton esc LineComment n (body @ br # rest) =
    (if n \<le> length body then LineComment else automaton False InSql (n - Suc (length body)) rest)"
  using assms(2,3)
proof (induction body arbitrary: esc n)
  case Nil
  then show ?case
    using assms(1) automaton_InSql by (cases n) auto
next
  case (Cons c body)
  then show ?case
    by (cases n) auto
qed

lemma block_comment_body:
  assumes "\<not> closes_comment body"
  shows "automaton esc BlockComment n (body @ ''*/'' @ rest) =
    (if n \<le> length body then BlockComment else automaton False InSql (n - (length body + 2)) rest)"
  using assms
proof (induction body arbitrary: esc n)
  case Nil
  then show ?case
    by (cases n) auto
next
  case (Cons c body)
  have "\<not> (c = CHR ''*'' \<and> char_at (body @ ''*/'' @ rest) 0 = Some (CHR ''/''))" "\<not> closes_comment body"
    using Cons.prems by (cases body; auto)+
  then show ?case
    using Cons.IH by (cases n) auto
qed

text \<open>A whole token is read as one, and inside it the context is that of the token.\<close>

lemma token_read:
  assumes "token_ok t" and "ends_before t rest"
  shows "automaton False InSql n (render_token t @ rest) =
    (if n = 0 then InSql else if n \<le> open_length t then token_context t
     else automaton False InSql (n - length (render_token t)) rest)"
proof (cases n)
  case (Suc m)
  show ?thesis
  proof (cases t)
    case (Code c)
    then have "context_step False InSql c (char_at rest 0) = (InSql, False)"
      using assms by auto
    then have "automaton False InSql n (c # rest) = automaton False InSql m rest"
      using Suc automaton_InSql[of "c = BACKSLASH" m rest False] by (simp del: context_step.simps)
    then show ?thesis
      using Code Suc by auto
  next
    case (Quoted kind body)
    then obtain q where q: "closing_delimiter kind = Some q" "q \<noteq> BACKSLASH"
      using assms(1) by (cases kind) auto
    then have "automaton False InSql n (render_token t @ rest) = automaton False kind m (doubled q body @ q # rest)"
      using Suc Quoted opening_step[of kind] by (simp del: context_step.simps)
    also have "\<dots> = (if m \<le> length (doubled q body) then kind
        else automaton False InSql (m - Suc (length (doubled q body))) rest)"
      by (rule quoted_body) (use assms Quoted q in auto)
    finally show ?thesis
      using Suc Quoted q by simp
  next
    case (Text kind parts)
    then obtain q where q: "closing_delimiter kind = Some q" "q \<noteq> BACKSLASH" "kind \<in> {SingleQuoteString, DoubleQuoteString}"
      using assms(1) by (cases kind) auto
    then have "automaton False InSql n (render_token t @ rest) = automaton False kind m (render_parts q parts @ q # rest)"
      using Suc Text opening_step[of kind] by (simp del: context_step.simps)
    also have "\<dots> = (if m \<le> length (render_parts q parts) then kind
        else automaton False InSql (m - Suc (length (render_parts q parts))) rest)"
      by (rule text_body) (use assms Text q in auto)
    finally show ?thesis
      using Suc Text q by simp
  next
    case (Line_Comment body br)
    then show ?thesis
      using assms Suc line_comment_body[of br body False "m - 1" rest] by auto
  next
    case (Block_Comment body)
    then show ?thesis
      using assms Suc block_comment_body[of body False "m - 1" rest] by auto
  qed
qed simp

lemma token_passed:
  assumes "token_ok t" and "ends_before t rest"
  shows "automaton False InSql (length (render_token t) + k) (render_token t @ rest) = automaton False InSql k rest"
  using token_read[OF assms, of "length (render_token t) + k"] by (cases t) (auto split: if_splits)

lemma tokens_passed:
  "tokens_ok ts rest \<Longrightarrow> automaton False InSql (length (render ts) + k) (render ts @ rest) = automaton False InSql k rest"
  by (induction ts) (simp_all add: token_passed add.assoc)

lemma tokens_ok_append:
  "tokens_ok (ts @ us) rest \<longleftrightarrow> tokens_ok ts (render us @ rest) \<and> tokens_ok us rest"
  by (induction ts) auto

text \<open>
  C40: In a text of complete tokens the context is found right: between two tokens it is SQL, so that foreign
  punctuation is replaced there, and inside a token, from behind its first character up to before its closing delimiter, it is the
  context of that token. Strings may hold doubled quotes, escaped characters and what looks like comments, comments may hold quotes.
  Excepted are a string in which an escaped quote is followed at once by another quote, and the offset between the two characters
  that close a block comment.
\<close>

theorem punctuation_context_of_tokens:
  assumes "tokens_ok (ts @ [t]) rest" and "0 < k" "k \<le> open_length t"
    and "sql = render ts @ render_token t @ rest"
  shows "shouldNormalizeSqlInputPunctuation (Some sql) (int (length (render ts))) \<and>
    sqlPunctuationContextAtOffset sql (int (length (render ts) + k)) = token_context t"
proof -
  have ok: "tokens_ok ts (render_token t @ rest)" "token_ok t" "ends_before t rest"
    using assms(1) by (simp_all add: tokens_ok_append)
  have "shouldNormalizeSqlInputPunctuation (Some sql) (int (length (render ts)))"
    using tokens_passed[OF ok(1), of 0]
    by (simp add: shouldNormalizeSqlInputPunctuation_def punctuation_context_pass assms(4))
  moreover have "sqlPunctuationContextAtOffset sql (int (length (render ts) + k)) = token_context t"
    using tokens_passed[OF ok(1), of k] token_read[OF ok(2,3), of k] assms(2,3)
    by (simp add: punctuation_context_pass assms(4) nat_int_add)
  ultimately show ?thesis ..
qed

theorem punctuation_context_of_tokens_witness:
  "shouldNormalizeSqlInputPunctuation
     (Some [CHR ''a'', CHR ''='', SQUOTE, CHR ''-'', CHR ''-'', BACKSLASH, SQUOTE, CHR ''b'', SQUOTE, CHR '';'']) 2 \<and>
   sqlPunctuationContextAtOffset
     [CHR ''a'', CHR ''='', SQUOTE, CHR ''-'', CHR ''-'', BACKSLASH, SQUOTE, CHR ''b'', SQUOTE, CHR '';''] 7 = SingleQuoteString"
proof -
  let ?ts = "[Code (CHR ''a''), Code (CHR ''='')]"
    and ?t = "Text SingleQuoteString [Plain (CHR ''-''), Plain (CHR ''-''), Escaped SQUOTE, Plain (CHR ''b'')]"
  have ok: "tokens_ok (?ts @ [?t]) [CHR '';'']" "5 \<le> open_length ?t"
    by code_simp+
  show ?thesis
    using punctuation_context_of_tokens[OF ok(1) _ ok(2) refl] by (simp add: opening_delimiter_def)
qed

text \<open>
  A string that ends with an escaped quote is thought to go on: the escaped quote and the closing one are taken
  for a doubled quote. And between the two characters that close a block comment the cursor is thought to be in SQL.
\<close>

lemma escaped_quote_before_end:
  "sqlPunctuationContextAtOffset [SQUOTE, CHR ''a'', BACKSLASH, SQUOTE, SQUOTE, CHR '';''] 6 = SingleQuoteString"
  by code_simp

lemma inside_comment_end: "sqlPunctuationContextAtOffset ''/*a*/x'' 4 = InSql"
  by code_simp

end
