(* ===== verification/Tree_Loads.thy ===== *)
theory Tree_Loads
  imports Js_Prelude
begin

text \<open>
  Loading of the parts of the database tree, \<open>store/tree/loadNamespaceTree.ts\<close>. A \<open>LatestLoadCoordinator\<close> keeps one load per key;
  a new load may supersede the one under way, and then the promise of the old one follows the promise of the new one.

  Objects that are compared by identity live in two heaps: state objects, which hold the latest entry of a key, and entries.
  An entry is named by its position; the variables its closures capture are fields. The call of the
  loader ends a step, so that it may call the coordinator itself, and the two callbacks on its promise are steps of their own.
\<close>

section \<open>Data\<close>

datatype ('v, 'e) load_promise = Waiting | Resolved 'v | Rejected 'e | Follows nat

text \<open>\<open>Loading\<close>: the promise of the loader is not settled; \<open>Completed\<close>: it is, and the \<open>finally\<close> callback is still to run.\<close>

datatype load_phase = Loading | Completed | Cleaned

record ('k, 'v, 'e) LatestLoadEntry =
  le_pending :: bool
  le_priority :: int
  le_publicPromise :: "('v, 'e) load_promise"
  settledOrRedirected :: bool
  le_key :: 'k
  le_state :: nat
  le_phase :: load_phase

record ('k, 'v, 'e) LatestLoadCoordinator =
  lc_states :: "('k \<times> nat) list"
  lc_objects :: "nat option list"
  lc_entries :: "('k, 'v, 'e) LatestLoadEntry list"

definition new_coordinator :: "('k, 'v, 'e) LatestLoadCoordinator" where
  "new_coordinator = \<lparr>lc_states = [], lc_objects = [], lc_entries = []\<rparr>"

definition update_entry where
  "update_entry i f st = st\<lparr>lc_entries := (lc_entries st)[i := f (lc_entries st ! i)]\<rparr>"

definition latestEntry :: "('k, 'v, 'e) LatestLoadCoordinator \<Rightarrow> 'k \<Rightarrow> nat option" where
  "latestEntry st key = (case map_of (lc_states st) key of Some s \<Rightarrow> lc_objects st ! s | None \<Rightarrow> None)"

definition isCurrentEntry :: "('k, 'v, 'e) LatestLoadCoordinator \<Rightarrow> nat \<Rightarrow> bool" where
  "isCurrentEntry st i \<longleftrightarrow>
     (let entry = lc_entries st ! i
      in map_of (lc_states st) (le_key entry) = Some (le_state entry) \<and> lc_objects st ! le_state entry = Some i)"

section \<open>Operations\<close>

definition redirect_entry where
  "redirect_entry i target st =
     update_entry i (\<lambda>entry.
       if \<not> settledOrRedirected entry
       then entry\<lparr>settledOrRedirected := True, le_publicPromise := Follows target\<rparr>
       else entry) st"

definition invalidate_entry where
  "invalidate_entry invalidated i st =
     update_entry i (\<lambda>entry.
       if \<not> settledOrRedirected entry
       then entry\<lparr>settledOrRedirected := True, le_pending := False, le_publicPromise := Resolved invalidated\<rparr>
       else entry) st"

text \<open>\<open>run\<close> up to the call of the loader, and the entry whose promise it returns.\<close>

definition joins_latest where
  "joins_latest supersede priority st key =
     (case latestEntry st key of
        Some i \<Rightarrow> if \<not> supersede \<or> le_priority (lc_entries st ! i) > the_default 0 priority then Some i else None
      | None \<Rightarrow> None)"

definition state_of_key where
  "state_of_key key st =
     (case map_of (lc_states st) key of
        Some s \<Rightarrow> (s, st)
      | None \<Rightarrow>
          let s = length (lc_objects st)
          in (s, st\<lparr>lc_states := AList.update key s (lc_states st), lc_objects := lc_objects st @ [None]\<rparr>))"

definition run_load where
  "run_load key supersede priority st =
     (case joins_latest supersede priority st key of
        Some i \<Rightarrow> (i, st)
      | None \<Rightarrow>
          let (s, st1) = state_of_key key st;
              i = length (lc_entries st1);
              entry = \<lparr>le_pending = True, le_priority = the_default 0 priority, le_publicPromise = Waiting,
                settledOrRedirected = False, le_key = key, le_state = s, le_phase = Loading\<rparr>;
              previousEntry = lc_objects st1 ! s;
              st2 = st1\<lparr>lc_entries := lc_entries st1 @ [entry], lc_objects := (lc_objects st1)[s := Some i]\<rparr>
          in (i, case previousEntry of Some p \<Rightarrow> redirect_entry p i st2 | None \<Rightarrow> st2))"

definition load_settled where
  "load_settled i outcome st =
     update_entry i (\<lambda>entry.
       (if \<not> settledOrRedirected entry
        then entry\<lparr>settledOrRedirected := True, le_publicPromise := (case outcome of Inr v \<Rightarrow> Resolved v | Inl e \<Rightarrow> Rejected e)\<rparr>
        else entry)\<lparr>le_phase := Completed\<rparr>) st"

definition load_finally where
  "load_finally i st =
     (let st' = update_entry i (\<lambda>entry. entry\<lparr>le_pending := False, le_phase := Cleaned\<rparr>) st
      in if isCurrentEntry st' i
         then st'\<lparr>lc_states := AList.delete (le_key (lc_entries st ! i)) (lc_states st')\<rparr>
         else st')"

definition hasPending where
  "hasPending key st \<longleftrightarrow> (case latestEntry st key of Some i \<Rightarrow> le_pending (lc_entries st ! i) | None \<Rightarrow> False)"

definition invalidate_load where
  "invalidate_load invalidated key st =
     (let st' = st\<lparr>lc_states := AList.delete key (lc_states st)\<rparr>
      in case latestEntry st key of Some i \<Rightarrow> invalidate_entry invalidated i st' | None \<Rightarrow> st')"

definition invalidateMatching where
  "invalidateMatching invalidated matches st =
     fold (\<lambda>key st. if matches key then invalidate_load invalidated key st else st) (map fst (lc_states st)) st"

definition invalidateAll_loads where
  "invalidateAll_loads invalidated st = fold (invalidate_load invalidated) (map fst (lc_states st)) st"

text \<open>A request of the backend as the loader runs it: a failure becomes a value.\<close>

datatype ('t, 'e) NamespaceTreeLoadResult = Loaded "'t list" | Failed 'e

definition loadNamespaceTree :: "'e + 't list \<Rightarrow> ('t, 'e) NamespaceTreeLoadResult" where
  "loadNamespaceTree request = (case request of Inr items \<Rightarrow> Loaded items | Inl error \<Rightarrow> Failed error)"

section \<open>Runs\<close>

datatype ('k, 'v, 'e) load_input =
  Run 'k bool "int option"
| Load_Settled nat "'e + 'v"
| Load_Finally nat
| Invalidate 'k
| Invalidate_Matching "'k \<Rightarrow> bool"
| Invalidate_All

text \<open>A promise is settled once, and its \<open>finally\<close> callback runs once after that.\<close>

fun load_step :: "'v \<Rightarrow> ('k, 'v, 'e) LatestLoadCoordinator \<Rightarrow> ('k, 'v, 'e) load_input \<Rightarrow> ('k, 'v, 'e) LatestLoadCoordinator" where
  "load_step v0 st (Run key supersede priority) = snd (run_load key supersede priority st)"
| "load_step v0 st (Load_Settled i outcome) =
     (if i < length (lc_entries st) \<and> le_phase (lc_entries st ! i) = Loading then load_settled i outcome st else st)"
| "load_step v0 st (Load_Finally i) =
     (if i < length (lc_entries st) \<and> le_phase (lc_entries st ! i) = Completed then load_finally i st else st)"
| "load_step v0 st (Invalidate key) = invalidate_load v0 key st"
| "load_step v0 st (Invalidate_Matching matches) = invalidateMatching v0 matches st"
| "load_step v0 st Invalidate_All = invalidateAll_loads v0 st"

text \<open>What a promise answers: the value of the promise at the end of the chain.\<close>

function root :: "('k, 'v, 'e) LatestLoadCoordinator \<Rightarrow> nat \<Rightarrow> nat" where
  "root st i =
     (if i < length (lc_entries st)
      then (case le_publicPromise (lc_entries st ! i) of Follows j \<Rightarrow> if i < j then root st j else i | _ \<Rightarrow> i)
      else i)"
  by pat_completeness auto
termination by (relation "measure (\<lambda>(st, i). length (lc_entries st) - i)") auto

declare root.simps [simp del]

definition answer :: "('k, 'v, 'e) LatestLoadCoordinator \<Rightarrow> nat \<Rightarrow> ('e + 'v) option" where
  "answer st i =
     (if root st i < length (lc_entries st)
      then (case le_publicPromise (lc_entries st ! root st i) of
              Resolved v \<Rightarrow> Some (Inr v) | Rejected e \<Rightarrow> Some (Inl e) | _ \<Rightarrow> None)
      else None)"

section \<open>The invariant\<close>

text \<open>
  The latest entry of a key belongs to it. A promise that is not settled is the one of the latest entry, and its loader is
  under way; a promise that follows another follows a later one of the same key.
\<close>

definition key_ok :: "('k, 'v, 'e) LatestLoadCoordinator \<Rightarrow> 'k \<Rightarrow> nat \<Rightarrow> bool" where
  "key_ok st k s \<longleftrightarrow> s < length (lc_objects st) \<and>
     (\<exists>i < length (lc_entries st). lc_objects st ! s = Some i \<and> le_key (lc_entries st ! i) = k \<and> le_state (lc_entries st ! i) = s)"

definition promise_ok :: "('k, 'v, 'e) LatestLoadCoordinator \<Rightarrow> nat \<Rightarrow> bool" where
  "promise_ok st i \<longleftrightarrow>
     (case le_publicPromise (lc_entries st ! i) of
        Waiting \<Rightarrow> \<not> settledOrRedirected (lc_entries st ! i)
      | Follows j \<Rightarrow> settledOrRedirected (lc_entries st ! i) \<and> i < j \<and> j < length (lc_entries st)
          \<and> le_key (lc_entries st ! j) = le_key (lc_entries st ! i)
      | _ \<Rightarrow> settledOrRedirected (lc_entries st ! i))"

definition undone_ok :: "('k, 'v, 'e) LatestLoadCoordinator \<Rightarrow> nat \<Rightarrow> bool" where
  "undone_ok st i \<longleftrightarrow> settledOrRedirected (lc_entries st ! i) \<or> le_phase (lc_entries st ! i) = Loading \<and> isCurrentEntry st i"

definition loads_ok :: "('k, 'v, 'e) LatestLoadCoordinator \<Rightarrow> bool" where
  "loads_ok st \<longleftrightarrow> distinct (map fst (lc_states st))
     \<and> (\<forall>k s. map_of (lc_states st) k = Some s \<longrightarrow> key_ok st k s)
     \<and> (\<forall>i < length (lc_entries st). le_state (lc_entries st ! i) < length (lc_objects st) \<and> promise_ok st i \<and> undone_ok st i)"

lemma loads_okD:
  assumes "loads_ok st"
  shows "distinct (map fst (lc_states st))"
    and "map_of (lc_states st) k = Some s \<Longrightarrow> key_ok st k s"
    and "i < length (lc_entries st) \<Longrightarrow> le_state (lc_entries st ! i) < length (lc_objects st)"
    and "i < length (lc_entries st) \<Longrightarrow> promise_ok st i"
    and "i < length (lc_entries st) \<Longrightarrow> undone_ok st i"
  using assms unfolding loads_ok_def by blast+

lemma new_coordinator_ok: "loads_ok new_coordinator"
  by (simp add: loads_ok_def new_coordinator_def)

lemma latestEntry_current:
  assumes "loads_ok st"
  shows "latestEntry st k = Some i \<longleftrightarrow> i < length (lc_entries st) \<and> le_key (lc_entries st ! i) = k \<and> isCurrentEntry st i"
  using loads_okD(2)[OF assms, of k]
  by (auto simp: latestEntry_def isCurrentEntry_def Let_def key_ok_def split: option.splits)

text \<open>Steps that change the fields of entries, but neither their keys nor their states.\<close>

definition same_places :: "('k, 'v, 'e) LatestLoadCoordinator \<Rightarrow> ('k, 'v, 'e) LatestLoadCoordinator \<Rightarrow> bool" where
  "same_places st st' \<longleftrightarrow> lc_objects st' = lc_objects st
     \<and> map le_key (lc_entries st') = map le_key (lc_entries st) \<and> map le_state (lc_entries st') = map le_state (lc_entries st)"

lemma same_placesD:
  assumes "same_places st st'"
  shows "lc_objects st' = lc_objects st" and "length (lc_entries st') = length (lc_entries st)"
    and "i < length (lc_entries st) \<Longrightarrow> le_key (lc_entries st' ! i) = le_key (lc_entries st ! i)"
    and "i < length (lc_entries st) \<Longrightarrow> le_state (lc_entries st' ! i) = le_state (lc_entries st ! i)"
  using assms unfolding same_places_def by (auto dest: map_eq_imp_length_eq) (metis length_map nth_map)+

lemma loads_ok_same_places:
  assumes ok: "loads_ok st" and same: "same_places st st'"
    and keys: "distinct (map fst (lc_states st'))" "\<And>k s. map_of (lc_states st') k = Some s \<Longrightarrow> map_of (lc_states st) k = Some s"
    and entries: "\<And>i. i < length (lc_entries st) \<Longrightarrow> promise_ok st' i \<and> undone_ok st' i"
  shows "loads_ok st'"
  unfolding loads_ok_def
proof (intro conjI allI impI)
  fix k s assume "map_of (lc_states st') k = Some s"
  then have "key_ok st k s"
    using keys(2) loads_okD(2)[OF ok] by blast
  then show "key_ok st' k s"
    using same_placesD[OF same] by (auto simp: key_ok_def)
qed (use keys(1) entries loads_okD(3)[OF ok] same_placesD[OF same] in auto)

lemma update_entry_places:
  assumes "i < length (lc_entries st)" "le_key (f (lc_entries st ! i)) = le_key (lc_entries st ! i)"
    "le_state (f (lc_entries st ! i)) = le_state (lc_entries st ! i)"
  shows "same_places st (update_entry i f st)"
  using assms by (simp add: same_places_def update_entry_def map_update) (metis list_update_id nth_map)

lemma isCurrentEntry_places:
  assumes "same_places st st'" "i < length (lc_entries st)"
  shows "isCurrentEntry st' i \<longleftrightarrow> map_of (lc_states st') (le_key (lc_entries st ! i)) = Some (le_state (lc_entries st ! i))
      \<and> lc_objects st ! le_state (lc_entries st ! i) = Some i"
  using same_placesD[OF assms(1)] assms(2) by (simp add: isCurrentEntry_def)

lemma nth_load_entry:
  "i < length (lc_entries st) \<Longrightarrow> j < length (lc_entries st) \<Longrightarrow>
    lc_entries (update_entry i f st) ! j = (if j = i then f (lc_entries st ! i) else lc_entries st ! j)"
  "lc_states (update_entry i f st) = lc_states st" "lc_objects (update_entry i f st) = lc_objects st"
  "length (lc_entries (update_entry i f st)) = length (lc_entries st)"
  by (simp_all add: update_entry_def nth_list_update)

lemma promise_ok_unchanged:
  assumes "promise_ok st i" "i < length (lc_entries st)" "same_places st st'"
    and "le_publicPromise (lc_entries st' ! i) = le_publicPromise (lc_entries st ! i)"
    and "settledOrRedirected (lc_entries st' ! i) = settledOrRedirected (lc_entries st ! i)"
  shows "promise_ok st' i"
  using assms same_placesD[OF assms(3)] by (auto simp: promise_ok_def split: load_promise.splits)

lemma load_settled_ok:
  assumes ok: "loads_ok st" and i: "i < length (lc_entries st)"
  shows "loads_ok (load_settled i outcome st)"
proof (rule loads_ok_same_places[OF ok])
  show same: "same_places st (load_settled i outcome st)"
    unfolding load_settled_def by (rule update_entry_places[OF i]) simp_all
  show "distinct (map fst (lc_states (load_settled i outcome st)))"
    using loads_okD(1)[OF ok] by (simp add: load_settled_def nth_load_entry)
  fix j assume j: "j < length (lc_entries st)"
  have "promise_ok (load_settled i outcome st) i"
  proof (cases "settledOrRedirected (lc_entries st ! i)")
    case True
    then show ?thesis
      by (intro promise_ok_unchanged[OF loads_okD(4)[OF ok i] i same]) (simp_all add: load_settled_def nth_load_entry i)
  qed (use i in \<open>auto simp: promise_ok_def load_settled_def nth_load_entry split: sum.splits\<close>)
  moreover have "promise_ok (load_settled i outcome st) j" if "j \<noteq> i"
    by (rule promise_ok_unchanged[OF loads_okD(4)[OF ok j] j same]) (use that in \<open>simp_all add: load_settled_def nth_load_entry i j\<close>)
  moreover have "undone_ok (load_settled i outcome st) j"
    using loads_okD(5)[OF ok j] isCurrentEntry_places[OF same j] j i
    by (auto simp: undone_ok_def load_settled_def nth_load_entry isCurrentEntry_def Let_def)
  ultimately show "promise_ok (load_settled i outcome st) j \<and> undone_ok (load_settled i outcome st) j"
    by metis
qed (simp add: load_settled_def nth_load_entry)

lemma current_unique:
  "isCurrentEntry st i \<Longrightarrow> isCurrentEntry st j \<Longrightarrow> le_key (lc_entries st ! i) = le_key (lc_entries st ! j) \<Longrightarrow> i = j"
  by (simp add: isCurrentEntry_def Let_def)

text \<open>Deleting the key of an entry that is done.\<close>

lemma delete_key_ok:
  assumes ok: "loads_ok st" and "\<And>i. latestEntry st key = Some i \<Longrightarrow> settledOrRedirected (lc_entries st ! i)"
  shows "loads_ok (st\<lparr>lc_states := AList.delete key (lc_states st)\<rparr>)"
proof (rule loads_ok_same_places[OF ok])
  let ?st = "st\<lparr>lc_states := AList.delete key (lc_states st)\<rparr>"
  show same: "same_places st ?st"
    by (simp add: same_places_def)
  show "distinct (map fst (lc_states ?st))"
    using loads_okD(1)[OF ok] by (simp add: distinct_delete)
  show "map_of (lc_states ?st) k = Some s \<Longrightarrow> map_of (lc_states st) k = Some s" for k s
    by (auto simp: delete_conv split: if_splits)
  fix i assume i: "i < length (lc_entries st)"
  have "undone_ok ?st i"
  proof (cases "settledOrRedirected (lc_entries st ! i)")
    case False
    then have "isCurrentEntry st i" "le_phase (lc_entries st ! i) = Loading" "latestEntry st key \<noteq> Some i"
      using loads_okD(5)[OF ok i] assms(2)[of i] by (auto simp: undone_ok_def)
    then show ?thesis
      using i latestEntry_current[OF ok, of "le_key (lc_entries st ! i)" i]
      by (auto simp: undone_ok_def isCurrentEntry_def Let_def delete_conv)
  qed (simp add: undone_ok_def)
  then show "promise_ok ?st i \<and> undone_ok ?st i"
    using promise_ok_unchanged[OF loads_okD(4)[OF ok i] i same] by simp
qed

lemma load_finally_ok:
  assumes ok: "loads_ok st" and i: "i < length (lc_entries st)" and phase: "le_phase (lc_entries st ! i) = Completed"
  shows "loads_ok (load_finally i st)"
proof -
  let ?st = "update_entry i (\<lambda>entry. entry\<lparr>le_pending := False, le_phase := Cleaned\<rparr>) st"
  have same: "same_places st ?st"
    by (rule update_entry_places[OF i]) simp_all
  have settled: "settledOrRedirected (lc_entries st ! i)"
    using loads_okD(5)[OF ok i] phase by (auto simp: undone_ok_def)
  have ok': "loads_ok ?st"
  proof (rule loads_ok_same_places[OF ok same])
    fix j assume j: "j < length (lc_entries st)"
    have "promise_ok ?st j"
      by (rule promise_ok_unchanged[OF loads_okD(4)[OF ok j] j same]) (use i j in \<open>simp_all add: nth_load_entry\<close>)
    moreover have "undone_ok ?st j"
      using loads_okD(5)[OF ok j] isCurrentEntry_places[OF same j] settled i j
      by (auto simp: undone_ok_def nth_load_entry isCurrentEntry_def Let_def)
    ultimately show "promise_ok ?st j \<and> undone_ok ?st j" ..
  qed (use loads_okD(1)[OF ok] in \<open>simp_all add: nth_load_entry\<close>)
  have "loads_ok (?st\<lparr>lc_states := AList.delete (le_key (lc_entries st ! i)) (lc_states ?st)\<rparr>)" if current: "isCurrentEntry ?st i"
  proof (rule delete_key_ok[OF ok'])
    fix j assume "latestEntry ?st (le_key (lc_entries st ! i)) = Some j"
    then have "le_key (lc_entries ?st ! j) = le_key (lc_entries st ! i)" "isCurrentEntry ?st j"
      using latestEntry_current[OF ok'] by blast+
    then have "j = i"
      using current_unique[OF current] same_placesD(3)[OF same i] by metis
    then show "settledOrRedirected (lc_entries ?st ! j)"
      using settled i by (simp add: nth_load_entry)
  qed
  then show ?thesis
    using ok' by (simp add: load_finally_def Let_def)
qed

lemma invalidate_load_ok:
  assumes ok: "loads_ok st"
  shows "loads_ok (invalidate_load v0 key st)"
proof (cases "latestEntry st key")
  case None
  then show ?thesis
    using delete_key_ok[OF ok, of key] by (simp add: invalidate_load_def)
next
  case (Some i)
  let ?st = "invalidate_entry v0 i st"
  have i: "i < length (lc_entries st)"
    using latestEntry_current[OF ok] Some by blast
  have same: "same_places st ?st"
    unfolding invalidate_entry_def by (rule update_entry_places[OF i]) simp_all
  have ok': "loads_ok ?st"
  proof (rule loads_ok_same_places[OF ok same])
    fix j assume j: "j < length (lc_entries st)"
    have "promise_ok ?st j"
    proof (cases "j = i \<and> \<not> settledOrRedirected (lc_entries st ! i)")
      case True
      then show ?thesis
        using i by (auto simp: promise_ok_def invalidate_entry_def nth_load_entry)
    next
      case False
      show ?thesis
        by (rule promise_ok_unchanged[OF loads_okD(4)[OF ok j] j same])
          (use False i j in \<open>auto simp: invalidate_entry_def nth_load_entry\<close>)
    qed
    moreover have "undone_ok ?st j"
      using loads_okD(5)[OF ok j] isCurrentEntry_places[OF same j] i j
      by (auto simp: undone_ok_def invalidate_entry_def nth_load_entry isCurrentEntry_def Let_def)
    ultimately show "promise_ok ?st j \<and> undone_ok ?st j" ..
  qed (use loads_okD(1)[OF ok] in \<open>simp_all add: invalidate_entry_def nth_load_entry\<close>)
  have "latestEntry ?st key = Some i" "settledOrRedirected (lc_entries ?st ! i)"
    using Some i by (simp_all add: latestEntry_def invalidate_entry_def nth_load_entry cong: option.case_cong)
  then have "loads_ok (?st\<lparr>lc_states := AList.delete key (lc_states ?st)\<rparr>)"
    by (intro delete_key_ok[OF ok']) simp
  moreover have "invalidate_load v0 key st = ?st\<lparr>lc_states := AList.delete key (lc_states ?st)\<rparr>"
    using Some by (simp add: invalidate_load_def invalidate_entry_def update_entry_def)
  ultimately show ?thesis
    by simp
qed

lemma fold_keeps: "(\<And>x s. x \<in> set xs \<Longrightarrow> P s \<Longrightarrow> P (f x s)) \<Longrightarrow> P s \<Longrightarrow> P (fold f xs s)"
  by (induction xs arbitrary: s) auto

lemma invalidate_many_ok:
  assumes "loads_ok st"
  shows "loads_ok (invalidateMatching v0 matches st)" "loads_ok (invalidateAll_loads v0 st)"
  unfolding invalidateMatching_def invalidateAll_loads_def
  by (rule fold_keeps; use assms in \<open>simp add: invalidate_load_ok\<close>)+

text \<open>A new entry: the key has a state object, and its latest entry follows the new one.\<close>

lemma state_owner:
  assumes "loads_ok st" "map_of (lc_states st) k = Some s" "map_of (lc_states st) l = Some s"
  shows "k = l"
  using loads_okD(2)[OF assms(1,2)] loads_okD(2)[OF assms(1,3)] by (auto simp: key_ok_def)

lemma state_of_key_ok:
  assumes ok: "loads_ok st" and st1: "state_of_key key st = (s, st1)"
  shows "lc_entries st1 = lc_entries st \<and> map_of (lc_states st1) = (map_of (lc_states st))(key \<mapsto> s) \<and> s < length (lc_objects st1)
      \<and> distinct (map fst (lc_states st1)) \<and> lc_objects st1 ! s = latestEntry st key
      \<and> (\<forall>r < length (lc_objects st). r < length (lc_objects st1) \<and> lc_objects st1 ! r = lc_objects st ! r)
      \<and> (\<forall>k r. k \<noteq> key \<longrightarrow> map_of (lc_states st) k = Some r \<longrightarrow> r \<noteq> s)"
proof (cases "map_of (lc_states st) key")
  case None
  then have "s = length (lc_objects st)"
    "st1 = st\<lparr>lc_states := AList.update key s (lc_states st), lc_objects := lc_objects st @ [None]\<rparr>"
    using st1 by (auto simp: state_of_key_def Let_def)
  then show ?thesis
    using None loads_okD(1)[OF ok] loads_okD(2)[OF ok]
    by (auto simp: update_conv' distinct_update latestEntry_def nth_append key_ok_def)
next
  case (Some r)
  then have r: "s = r" "st1 = st"
    using st1 by (auto simp: state_of_key_def)
  have "(map_of (lc_states st))(key \<mapsto> s) = map_of (lc_states st)"
    using Some r by (simp add: fun_upd_idem)
  moreover have "\<forall>k l. k \<noteq> key \<longrightarrow> map_of (lc_states st) k = Some l \<longrightarrow> l \<noteq> s"
    using state_owner[OF ok] Some r by metis
  moreover have "key_ok st key s"
    using loads_okD(2)[OF ok] Some r by blast
  ultimately show ?thesis
    using Some r loads_okD(1)[OF ok] by (simp add: latestEntry_def key_ok_def)
qed

definition redirected where
  "redirected st key j =
     (let entry = lc_entries st ! j
      in if latestEntry st key = Some j \<and> \<not> settledOrRedirected entry
         then entry\<lparr>settledOrRedirected := True, le_publicPromise := Follows (length (lc_entries st))\<rparr>
         else entry)"

lemma run_load_shape:
  assumes ok: "loads_ok st" and new: "joins_latest supersede priority st key = None" and st': "run_load key supersede priority st = (n, st')"
  obtains s objs where
    "n = length (lc_entries st)" "length (lc_entries st') = Suc n" "length objs = length (lc_objects st')"
    "lc_entries st' ! n = \<lparr>le_pending = True, le_priority = the_default 0 priority, le_publicPromise = Waiting,
       settledOrRedirected = False, le_key = key, le_state = s, le_phase = Loading\<rparr>"
    "\<forall>j < n. lc_entries st' ! j = redirected st key j"
    "map_of (lc_states st') = (map_of (lc_states st))(key \<mapsto> s)" "distinct (map fst (lc_states st'))"
    "lc_objects st' = objs[s := Some n]" "s < length objs" "objs ! s = latestEntry st key"
    "\<forall>r < length (lc_objects st). r < length objs \<and> objs ! r = lc_objects st ! r"
    "\<forall>k r. k \<noteq> key \<longrightarrow> map_of (lc_states st) k = Some r \<longrightarrow> r \<noteq> s"
proof -
  obtain s st1 where st1: "state_of_key key st = (s, st1)"
    by fastforce
  note facts = state_of_key_ok[OF ok st1]
  have latest: "latestEntry st key = Some p \<Longrightarrow> p < length (lc_entries st)" for p
    using latestEntry_current[OF ok] by blast
  show thesis
    using st' new st1 facts latest
    by (intro that[where s = s and objs = "lc_objects st1"])
      (auto simp: run_load_def Let_def redirected_def redirect_entry_def update_entry_def nth_append nth_list_update split: option.splits)
qed

lemma run_load_ok:
  assumes ok: "loads_ok st"
  shows "loads_ok (snd (run_load key supersede priority st))"
proof (cases "joins_latest supersede priority st key")
  case None
  obtain n st' where st': "run_load key supersede priority st = (n, st')"
    by fastforce
  obtain s objs where shape:
    "n = length (lc_entries st)" "length (lc_entries st') = Suc n" "length objs = length (lc_objects st')"
    "lc_entries st' ! n = \<lparr>le_pending = True, le_priority = the_default 0 priority, le_publicPromise = Waiting,
       settledOrRedirected = False, le_key = key, le_state = s, le_phase = Loading\<rparr>"
    "\<forall>j < n. lc_entries st' ! j = redirected st key j"
    "map_of (lc_states st') = (map_of (lc_states st))(key \<mapsto> s)" "distinct (map fst (lc_states st'))"
    "lc_objects st' = objs[s := Some n]" "s < length objs" "objs ! s = latestEntry st key"
    "\<forall>r < length (lc_objects st). r < length objs \<and> objs ! r = lc_objects st ! r"
    "\<forall>k r. k \<noteq> key \<longrightarrow> map_of (lc_states st) k = Some r \<longrightarrow> r \<noteq> s"
    by (rule run_load_shape[OF ok None st'])
  have place: "le_key (redirected st key j) = le_key (lc_entries st ! j)" "le_state (redirected st key j) = le_state (lc_entries st ! j)"
    "le_phase (redirected st key j) = le_phase (lc_entries st ! j)" for j
    by (simp_all add: redirected_def Let_def)
  have "loads_ok st'"
    unfolding loads_ok_def
  proof (intro conjI allI impI)
    show "distinct (map fst (lc_states st'))"
      by (rule shape)
  next
    fix k r assume k: "map_of (lc_states st') k = Some r"
    show "key_ok st' k r"
    proof (cases "k = key")
      case False
      then have "key_ok st k r" "r \<noteq> s"
        using k shape loads_okD(2)[OF ok] by auto
      then show ?thesis
        using shape place by (auto simp: key_ok_def less_Suc_eq)
    qed (use k shape in \<open>auto simp: key_ok_def intro!: exI[of _ n]\<close>)
  next
    fix j assume "j < length (lc_entries st')"
    then consider "j = n" | "j < n"
      using shape by linarith
    note j = this
    show "le_state (lc_entries st' ! j) < length (lc_objects st')"
      using j shape place loads_okD(3)[OF ok] by cases auto
    show "promise_ok st' j"
    proof (use j in cases)
      case 2
      have key_j: "le_key (lc_entries st' ! k) = le_key (lc_entries st ! k)" if "k < n" for k
        using shape(5) place(1) that by simp
      show ?thesis
      proof (cases "latestEntry st key = Some j \<and> \<not> settledOrRedirected (lc_entries st ! j)")
        case True
        then have "le_key (lc_entries st ! j) = key"
          using latestEntry_current[OF ok] by blast
        moreover have "lc_entries st' ! j = (lc_entries st ! j)\<lparr>settledOrRedirected := True, le_publicPromise := Follows n\<rparr>"
          using True 2 shape(1,5) by (simp add: redirected_def)
        ultimately show ?thesis
          using 2 shape(2,4) by (simp add: promise_ok_def)
      next
        case False
        then have "lc_entries st' ! j = lc_entries st ! j"
          using 2 shape(5) by (auto simp: redirected_def Let_def)
        moreover have "promise_ok st j"
          using 2 loads_okD(4)[OF ok] shape(1) by simp
        ultimately show ?thesis
          using 2 shape(1,2) key_j by (simp add: promise_ok_def split: load_promise.splits)
      qed
    qed (use shape in \<open>simp add: promise_ok_def\<close>)
    show "undone_ok st' j"
    proof (use j in cases)
      case 2
      show ?thesis
      proof (cases "settledOrRedirected (redirected st key j)")
        case False
        then have same: "redirected st key j = lc_entries st ! j" and undone: "\<not> settledOrRedirected (lc_entries st ! j)"
          by (auto simp: redirected_def Let_def split: if_splits)
        have current: "isCurrentEntry st j" "le_phase (lc_entries st ! j) = Loading"
          using undone loads_okD(5)[OF ok, of j] 2 shape(1) by (auto simp: undone_ok_def)
        have "le_key (lc_entries st ! j) \<noteq> key"
          using False undone current latestEntry_current[OF ok, of key j] 2 shape(1) by (auto simp: redirected_def Let_def)
        then show ?thesis
          using 2 same current shape loads_okD(3)[OF ok, of j] by (auto simp: undone_ok_def isCurrentEntry_def Let_def)
      qed (use 2 shape in \<open>simp add: undone_ok_def\<close>)
    qed (use shape in \<open>simp add: undone_ok_def isCurrentEntry_def\<close>)
  qed
  then show ?thesis
    using st' by simp
qed (use ok in \<open>simp add: run_load_def\<close>)

interpretation load_machine: input_machine "load_step v0" loads_ok for v0
proof unfold_locales
  show "loads_ok st \<Longrightarrow> loads_ok (load_step v0 st inp)" for st :: "('k, 'v, 'e) LatestLoadCoordinator" and v0 inp
    by (cases inp) (simp_all add: run_load_ok load_settled_ok load_finally_ok invalidate_load_ok invalidate_many_ok)
qed

section \<open>Promises keep their course\<close>

text \<open>What later steps leave: settled promises, and the keys of entries.\<close>

definition later :: "('k, 'v, 'e) LatestLoadCoordinator \<Rightarrow> ('k, 'v, 'e) LatestLoadCoordinator \<Rightarrow> bool" where
  "later st st' \<longleftrightarrow> length (lc_entries st) \<le> length (lc_entries st') \<and>
     (\<forall>i < length (lc_entries st). settledOrRedirected (lc_entries st ! i) \<longrightarrow>
        settledOrRedirected (lc_entries st' ! i) \<and> le_publicPromise (lc_entries st' ! i) = le_publicPromise (lc_entries st ! i))"

lemma later_refl: "later st st"
  by (simp add: later_def)

lemma later_trans: "later st st' \<Longrightarrow> later st' st'' \<Longrightarrow> later st st''"
  by (force simp: later_def)

lemma later_entries: "lc_entries st' = lc_entries st \<Longrightarrow> later st st'"
  by (simp add: later_def)

lemma nth_list_update_any: "xs[i := x] ! j = (if i = j \<and> j < length xs then x else xs ! j)"
  by (cases "i < length xs") (auto simp: nth_list_update list_update_beyond not_less)

lemma later_invalidate: "later st (invalidate_load v0 key st)"
  by (auto simp: invalidate_load_def invalidate_entry_def update_entry_def later_def nth_list_update_any Let_def split: option.splits)

lemma later_invalidate_many:
  "later st (invalidateMatching v0 matches st)" "later st (invalidateAll_loads v0 st)"
  unfolding invalidateMatching_def invalidateAll_loads_def
  by (rule fold_keeps; auto intro: later_refl later_trans[OF _ later_invalidate])+

lemma later_step:
  assumes "loads_ok st"
  shows "later st (load_step v0 st inp)"
proof (cases inp)
  case (Run key supersede priority)
  show ?thesis
  proof (cases "joins_latest supersede priority st key")
    case None
    obtain n st' where st': "run_load key supersede priority st = (n, st')"
      by fastforce
    show ?thesis
      by (rule run_load_shape[OF assms None st']) (use Run st' in \<open>auto simp: later_def redirected_def Let_def\<close>)
  qed (use Run in \<open>simp add: run_load_def later_refl\<close>)
next
  case (Load_Settled i outcome)
  then show ?thesis
    by (auto simp: load_settled_def update_entry_def nth_list_update_any later_def split: sum.splits)
next
  case (Load_Finally i)
  then show ?thesis
    by (auto simp: load_finally_def update_entry_def nth_list_update_any later_def Let_def)
qed (simp_all add: later_invalidate later_invalidate_many)

lemma later_run: "loads_ok st \<Longrightarrow> later st (foldl (load_step v0) st inps)"
proof (induction inps arbitrary: st)
  case (Cons inp inps)
  then show ?case
    using later_trans[OF later_step] load_machine.step_keeps by (metis foldl_Cons)
qed (simp add: later_refl)

lemma root_cases:
  assumes "loads_ok st" "i < length (lc_entries st)"
  shows "root st i = (case le_publicPromise (lc_entries st ! i) of Follows j \<Rightarrow> root st j | _ \<Rightarrow> i)"
  using loads_okD(4)[OF assms] assms(2) by (subst root.simps) (auto simp: promise_ok_def split: load_promise.splits)

lemma chain_induct [consumes 2, case_names End Follow]:
  assumes ok: "loads_ok st" and "i < length (lc_entries st)"
    and at_end: "\<And>i. i < length (lc_entries st) \<Longrightarrow> root st i = i \<Longrightarrow> \<forall>j. le_publicPromise (lc_entries st ! i) \<noteq> Follows j \<Longrightarrow> P i"
    and follow: "\<And>i j. i < length (lc_entries st) \<Longrightarrow> le_publicPromise (lc_entries st ! i) = Follows j \<Longrightarrow> root st i = root st j
      \<Longrightarrow> settledOrRedirected (lc_entries st ! i) \<Longrightarrow> i < j \<Longrightarrow> j < length (lc_entries st)
      \<Longrightarrow> le_key (lc_entries st ! j) = le_key (lc_entries st ! i) \<Longrightarrow> P j \<Longrightarrow> P i"
  shows "P i"
  using assms(2)
proof (induction i rule: measure_induct_rule[where f = "\<lambda>i. length (lc_entries st) - i"])
  case (less i)
  show ?case
  proof (cases "le_publicPromise (lc_entries st ! i)")
    case (Follows j)
    then have "i < j" "j < length (lc_entries st)" "le_key (lc_entries st ! j) = le_key (lc_entries st ! i)"
      "settledOrRedirected (lc_entries st ! i)"
      using loads_okD(4)[OF ok less.prems] by (auto simp: promise_ok_def)
    then show ?thesis
      using Follows less root_cases[OF ok less.prems] by (intro follow[of i j]) auto
  qed (use at_end less root_cases[OF ok less.prems] in auto)
qed

text \<open>The chain of a promise ends at a promise of the same key which follows no other, and later steps only extend it.\<close>

lemma root_ok:
  assumes "loads_ok st" and "i < length (lc_entries st)"
  shows "root st i < length (lc_entries st) \<and> le_key (lc_entries st ! root st i) = le_key (lc_entries st ! i)
    \<and> (\<forall>j. le_publicPromise (lc_entries st ! root st i) \<noteq> Follows j)"
  using assms by (induction rule: chain_induct) auto

lemma root_later:
  assumes "loads_ok st" "i < length (lc_entries st)" and "loads_ok st'" "later st st'"
  shows "root st' i = root st' (root st i)"
  using assms(1,2)
proof (induction rule: chain_induct)
  case (Follow i j)
  then have "le_publicPromise (lc_entries st' ! i) = Follows j" "i < length (lc_entries st')"
    using assms(4) by (auto simp: later_def)
  then show ?case
    using Follow root_cases[OF assms(3), of i] by simp
qed simp

lemma answer_root:
  assumes "loads_ok st" "i < length (lc_entries st)"
  shows "answer st i = answer st (root st i)"
  using root_later[OF assms assms(1) later_refl] by (simp add: answer_def)

lemma waiting_iff:
  assumes ok: "loads_ok st" and i: "i < length (lc_entries st)"
  shows "answer st i = None \<longleftrightarrow> \<not> settledOrRedirected (lc_entries st ! root st i)"
  using root_ok[OF ok i] loads_okD(4)[OF ok, of "root st i"]
  by (auto simp: answer_def promise_ok_def split: load_promise.splits)

lemma waiting_is_latest:
  assumes ok: "loads_ok st" and i: "i < length (lc_entries st)" and "answer st i = None"
  shows "latestEntry st (le_key (lc_entries st ! i)) = Some (root st i)" "le_phase (lc_entries st ! root st i) = Loading"
proof -
  let ?r = "root st i"
  have r: "?r < length (lc_entries st)" "le_key (lc_entries st ! ?r) = le_key (lc_entries st ! i)" "\<not> settledOrRedirected (lc_entries st ! ?r)"
    using root_ok[OF ok i] waiting_iff[OF ok i] assms(3) by auto
  then show "latestEntry st (le_key (lc_entries st ! i)) = Some ?r" "le_phase (lc_entries st ! ?r) = Loading"
    using latestEntry_current[OF ok] loads_okD(5)[OF ok r(1)] by (auto simp: undone_ok_def)
qed

section \<open>Properties\<close>

text \<open>
  C29: No caller waits in vain. In every run, whatever loads are superseded, fail or are invalidated and in whatever
  order their promises settle, a promise that has no answer yet waits for the latest load of its key, which is under
  way; and when that load settles, the promise has its outcome as the answer.
\<close>

theorem load_callers_answered:
  assumes "st = foldl (load_step v0) new_coordinator inps" and "i < length (lc_entries st)" and "answer st i = None"
  shows "latestEntry st (le_key (lc_entries st ! i)) = Some (root st i) \<and> le_phase (lc_entries st ! root st i) = Loading
    \<and> answer (load_step v0 st (Load_Settled (root st i) outcome)) i = Some outcome"
proof -
  have ok: "loads_ok st"
    using load_machine.run_keeps[OF new_coordinator_ok] assms(1) by simp
  let ?r = "root st i" and ?st = "load_step v0 st (Load_Settled (root st i) outcome)"
  have r: "?r < length (lc_entries st)" "\<not> settledOrRedirected (lc_entries st ! ?r)" "le_phase (lc_entries st ! ?r) = Loading"
    using root_ok[OF ok assms(2)] waiting_iff[OF ok assms(2)] waiting_is_latest[OF ok assms(2,3)] assms(3) by auto
  have ok': "loads_ok ?st" and later: "later st ?st"
    using load_machine.step_keeps[OF ok] later_step[OF ok] by blast+
  have "length (lc_entries ?st) = length (lc_entries st)"
    "le_publicPromise (lc_entries ?st ! ?r) = (case outcome of Inr v \<Rightarrow> Resolved v | Inl e \<Rightarrow> Rejected e)"
    using r by (simp_all add: load_settled_def nth_load_entry)
  then have "answer ?st ?r = Some outcome"
    using root_cases[OF ok', of ?r] r by (auto simp: answer_def split: sum.splits)
  moreover have "root ?st i = root ?st ?r"
    by (rule root_later[OF ok assms(2) ok' later])
  ultimately have "answer ?st i = Some outcome"
    by (simp only: answer_def)
  then show ?thesis
    using waiting_is_latest[OF ok assms(2,3)] by blast
qed

definition sample_loads :: "(nat, nat, nat) load_input list" where
  "sample_loads = [Run 1 False None, Run 1 True (Some 2), Run 2 False None, Run 1 True (Some 1)]"

theorem load_callers_answered_witness:
  "latestEntry (foldl (load_step 0) new_coordinator sample_loads) 1 = Some 1
    \<and> answer (load_step 0 (foldl (load_step 0) new_coordinator sample_loads) (Load_Settled 1 (Inr 7))) 0 = Some (Inr 7)"
proof -
  let ?st = "foldl (load_step 0) new_coordinator sample_loads"
  have facts: "0 < length (lc_entries ?st)" "answer ?st 0 = None" "root ?st 0 = 1" "le_key (lc_entries ?st ! 0) = 1"
    by code_simp+
  show ?thesis
    using load_callers_answered[OF refl facts(1,2), of "Inr 7"] facts(3,4) by (simp only: simp_thms)
qed

text \<open>
  C30: A superseding load answers for the loads before it. If a new load of a key is started, every promise of the
  key without an answer has from then on the answer of the new load, in every continuation: the outcome of a load that
  was overtaken is never seen, even if it arrives first or last.
\<close>

theorem superseding_load_answers:
  assumes "st = foldl (load_step v0) new_coordinator inps"
    and "i < length (lc_entries st)" "le_key (lc_entries st ! i) = key" "answer st i = None"
    and "run_load key supersede priority st = (n, st1)" "n = length (lc_entries st)"
  shows "answer (foldl (load_step v0) st1 rest) i = answer (foldl (load_step v0) st1 rest) n"
proof -
  have ok: "loads_ok st"
    using load_machine.run_keeps[OF new_coordinator_ok] assms(1) by simp
  have ok1: "loads_ok st1" and later1: "later st st1"
    using run_load_ok[OF ok, of key supersede priority] later_step[OF ok, of v0 "Run key supersede priority"] assms(5) by auto
  let ?st2 = "foldl (load_step v0) st1 rest"
  have ok2: "loads_ok ?st2" and later2: "later st1 ?st2"
    using load_machine.run_keeps[OF ok1] later_run[OF ok1] by blast+
  have new: "joins_latest supersede priority st key = None"
  proof (cases "joins_latest supersede priority st key")
    case (Some j)
    then have "latestEntry st key = Some j" "j = n"
      using assms(5) by (auto simp: joins_latest_def run_load_def split: option.splits if_splits)
    then show ?thesis
      using latestEntry_current[OF ok] assms(6) by blast
  qed
  have r: "root st i < length (lc_entries st)" "latestEntry st key = Some (root st i)" "\<not> settledOrRedirected (lc_entries st ! root st i)"
    using root_ok[OF ok assms(2)] waiting_is_latest[OF ok assms(2,4)] waiting_iff[OF ok assms(2)] assms(3,4) by auto
  have "lc_entries st1 ! root st i = redirected st key (root st i)" "length (lc_entries st1) = Suc n"
    by (rule run_load_shape[OF ok new assms(5)], use r(1) assms(6) in simp)+
  then have "le_publicPromise (lc_entries ?st2 ! root st i) = Follows n" "root st i < length (lc_entries ?st2)"
    using r later2 assms(6) by (auto simp: later_def redirected_def Let_def)
  then have "root ?st2 (root st i) = root ?st2 n"
    using root_cases[OF ok2, of "root st i"] by simp
  moreover have "root ?st2 i = root ?st2 (root st i)"
    by (rule root_later[OF ok assms(2) ok2 later_trans[OF later1 later2]])
  ultimately show ?thesis
    by (simp only: answer_def)
qed

theorem superseding_load_answers_witness:
  "answer (foldl (load_step 0) (snd (run_load 1 True (Some 2) (foldl (load_step 0) new_coordinator sample_loads)))
      [Load_Settled 0 (Inr 5), Load_Settled 3 (Inr 7), Load_Settled 1 (Inr 6)]) 0 = Some (Inr 7)"
proof -
  let ?st = "foldl (load_step 0) new_coordinator sample_loads"
  let ?more = "[Load_Settled 0 (Inr 5), Load_Settled 3 (Inr 7), Load_Settled 1 (Inr 6)]"
  have facts: "0 < length (lc_entries ?st)" "le_key (lc_entries ?st ! 0) = 1" "answer ?st 0 = None"
    "fst (run_load 1 True (Some 2) ?st) = length (lc_entries ?st)" "length (lc_entries ?st) = 3"
    "answer (foldl (load_step 0) (snd (run_load 1 True (Some 2) ?st)) ?more) 3 = Some (Inr 7)"
    by code_simp+
  have "run_load 1 True (Some 2) ?st = (3, snd (run_load 1 True (Some 2) ?st))"
    using facts(4,5) by (metis prod.collapse)
  from superseding_load_answers[OF refl facts(1,2,3) this facts(5)[symmetric], of ?more] facts(6)
  show ?thesis
    by (simp only:)
qed

end
