(* ===== verification/Hidden_Nodes.thy ===== *)
theory Hidden_Nodes
  imports Js_Prelude
begin

text \<open>
  The hidden nodes of the database tree, \<open>store/tree/hiddenTreeNodeState.ts\<close>: a coordinator that orders reads of the stored
  state after the writes before them and writes after a read under way, and the changes a write applies.

  Every call of \<open>initialize\<close> or \<open>write\<close> that does something makes a job, named by its position. A job waits for the promises it is
  chained to, which are those of earlier jobs. What the environment decides (when a job gets its turn, what \<open>read\<close> and the
  operation of a write return) is an input.
\<close>

section \<open>Data\<close>

datatype job_kind = Initialization int | Write

text \<open>\<open>Settling\<close> is an initialization whose \<open>finally\<close> callback is still to run; the flag says whether the promise is fulfilled.\<close>

datatype job_phase = Waiting | Running | Settling bool | Settled bool

record job =
  jb_kind :: job_kind
  jb_after :: "nat option"   \<comment> \<open>the write at the end of the queue\<close>
  jb_init :: "nat option"    \<comment> \<open>for a write, the initialization it waits for\<close>
  jb_phase :: job_phase

record 'v HiddenTreeNodeStateCoordinator =
  hc_revision :: int
  hc_initialized :: bool
  hc_pendingInitialization :: "nat option"
  hc_writeQueue :: "nat option"
  hc_jobs :: "job list"
  hc_commits :: "'v list"

definition new_hidden_coordinator :: "'v HiddenTreeNodeStateCoordinator" where
  "new_hidden_coordinator = \<lparr>hc_revision = 0, hc_initialized = False, hc_pendingInitialization = None, hc_writeQueue = None,
     hc_jobs = [], hc_commits = []\<rparr>"

section \<open>Operations\<close>

text \<open>The promise that is returned: the one of a job, or one that is fulfilled with \<open>false\<close>.\<close>

definition initialize_hidden where
  "initialize_hidden force st =
     (let st1 = (if force then st\<lparr>hc_initialized := False\<rparr> else st)
      in case hc_pendingInitialization st1 of
           Some i \<Rightarrow> (Some i, st1)
         | None \<Rightarrow>
             if hc_initialized st1 then (None, st1)
             else
               let i = length (hc_jobs st1);
                   initialization = \<lparr>jb_kind = Initialization (hc_revision st1), jb_after = hc_writeQueue st1, jb_init = None, jb_phase = Waiting\<rparr>
               in (Some i, st1\<lparr>hc_jobs := hc_jobs st1 @ [initialization], hc_pendingInitialization := Some i\<rparr>))"

definition write_hidden where
  "write_hidden st =
     (let i = length (hc_jobs st);
          result = \<lparr>jb_kind = Write, jb_after = hc_writeQueue st, jb_init = hc_pendingInitialization st, jb_phase = Waiting\<rparr>
      in (i, st\<lparr>hc_jobs := hc_jobs st @ [result], hc_writeQueue := Some i\<rparr>))"

definition invalidatePendingInitialization where
  "invalidatePendingInitialization st = st\<lparr>hc_revision := hc_revision st + 1, hc_pendingInitialization := None\<rparr>"

definition reset_hidden where
  "reset_hidden st = (invalidatePendingInitialization st)\<lparr>hc_initialized := False\<rparr>"

definition set_phase where
  "set_phase i p st = st\<lparr>hc_jobs := (hc_jobs st)[i := (hc_jobs st ! i)\<lparr>jb_phase := p\<rparr>]\<rparr>"

text \<open>The callback on the write queue, up to the call of \<open>read\<close>.\<close>

definition begin_read where
  "begin_read i revision st = set_phase i (if revision \<noteq> hc_revision st then Settling True else Running) st"

text \<open>
  What comes of \<open>read\<close>: nothing, if it is rejected, or a value, with whether the callback \<open>commit\<close> returns when it is called
  with the value. If it throws, the initialization fails and does not count.
\<close>

definition end_read where
  "end_read i revision outcome st =
     (case outcome of
        None \<Rightarrow> set_phase i (Settling False) st
      | Some (v, returns) \<Rightarrow>
          if revision \<noteq> hc_revision st then set_phase i (Settling True) st
          else set_phase i (Settling returns)
            (st\<lparr>hc_commits := hc_commits st @ [v], hc_initialized := hc_initialized st \<or> returns\<rparr>))"

definition finally_read where
  "finally_read i ok st =
     (let st1 = set_phase i (Settled ok) st
      in if hc_pendingInitialization st1 = Some i then st1\<lparr>hc_pendingInitialization := None\<rparr> else st1)"

text \<open>A write that waited for an initialization which failed fails with it.\<close>

definition begin_write where
  "begin_write i st =
     (case jb_init (hc_jobs st ! i) of
        Some k \<Rightarrow> set_phase i (if jb_phase (hc_jobs st ! k) = Settled False then Settled False else Running) st
      | None \<Rightarrow> set_phase i Running st)"

section \<open>Changes of the hidden nodes\<close>

record HiddenTreeNodeChanges =
  ch_add :: "string option list"
  ch_delete :: "string option list"

definition set_add :: "'a \<Rightarrow> 'a list \<Rightarrow> 'a list" where
  "set_add x xs = (if x \<in> set xs then xs else xs @ [x])"

definition applyHiddenTreeNodeChanges :: "string list \<Rightarrow> HiddenTreeNodeChanges option \<Rightarrow> string list" where
  "applyHiddenTreeNodeChanges currentIds changedKeys =
     (let nextIds = fold set_add currentIds []
      in case changedKeys of
           None \<Rightarrow> nextIds
         | Some ch \<Rightarrow>
             fold (\<lambda>key ids. case key of Some k \<Rightarrow> filter (\<lambda>x. x \<noteq> k) ids | None \<Rightarrow> ids) (ch_delete ch)
               (fold (\<lambda>key ids. case key of Some k \<Rightarrow> set_add k ids | None \<Rightarrow> ids) (ch_add ch) nextIds))"

section \<open>Runs\<close>

definition is_settled :: "job list \<Rightarrow> nat option \<Rightarrow> bool" where
  "is_settled jobs p = (case p of None \<Rightarrow> True | Some i \<Rightarrow> (case jb_phase (jobs ! i) of Settled _ \<Rightarrow> True | _ \<Rightarrow> False))"

definition ready :: "job list \<Rightarrow> nat \<Rightarrow> bool" where
  "ready jobs i \<longleftrightarrow> jb_phase (jobs ! i) = Waiting \<and> is_settled jobs (jb_after (jobs ! i)) \<and> is_settled jobs (jb_init (jobs ! i))"

datatype 'v hidden_input =
  Initialize bool
| Write_Call
| Reset
| Turn nat                \<comment> \<open>a job gets its turn: its promises are settled, or its \<open>finally\<close> callback runs\<close>
| Read_Returns nat "('v \<times> bool) option"
| Write_Returns nat bool

definition take_turn where
  "take_turn i st =
     (case (jb_kind (hc_jobs st ! i), jb_phase (hc_jobs st ! i)) of
        (Initialization revision, Waiting) \<Rightarrow> if ready (hc_jobs st) i then begin_read i revision st else st
      | (Write, Waiting) \<Rightarrow> if ready (hc_jobs st) i then begin_write i st else st
      | (Initialization revision, Settling ok) \<Rightarrow> finally_read i ok st
      | _ \<Rightarrow> st)"

definition read_returns where
  "read_returns i outcome st =
     (case (jb_kind (hc_jobs st ! i), jb_phase (hc_jobs st ! i)) of
        (Initialization revision, Running) \<Rightarrow> end_read i revision outcome st
      | _ \<Rightarrow> st)"

definition write_returns where
  "write_returns i ok st =
     (case (jb_kind (hc_jobs st ! i), jb_phase (hc_jobs st ! i)) of
        (Write, Running) \<Rightarrow> set_phase i (Settled ok) st
      | _ \<Rightarrow> st)"

fun hidden_step :: "'v HiddenTreeNodeStateCoordinator \<Rightarrow> 'v hidden_input \<Rightarrow> 'v HiddenTreeNodeStateCoordinator" where
  "hidden_step st (Initialize force) = snd (initialize_hidden force st)"
| "hidden_step st Write_Call = snd (write_hidden st)"
| "hidden_step st Reset = reset_hidden st"
| "hidden_step st (Turn i) = (if i < length (hc_jobs st) then take_turn i st else st)"
| "hidden_step st (Read_Returns i outcome) = (if i < length (hc_jobs st) then read_returns i outcome st else st)"
| "hidden_step st (Write_Returns i ok) = (if i < length (hc_jobs st) then write_returns i ok st else st)"

section \<open>The invariant\<close>

definition unsettled :: "job list \<Rightarrow> nat \<Rightarrow> bool" where
  "unsettled jobs i \<longleftrightarrow> \<not> is_settled jobs (Some i)"

text \<open>The queue before a position: the last write, if there is one.\<close>

definition queue_at :: "job list \<Rightarrow> nat \<Rightarrow> nat option \<Rightarrow> bool" where
  "queue_at jobs n q \<longleftrightarrow>
     (case q of
        None \<Rightarrow> \<forall>w < n. jb_kind (jobs ! w) \<noteq> Write
      | Some a \<Rightarrow> a < n \<and> jb_kind (jobs ! a) = Write \<and> (\<forall>w. a < w \<and> w < n \<longrightarrow> jb_kind (jobs ! w) \<noteq> Write))"

definition job_ok :: "job list \<Rightarrow> nat \<Rightarrow> bool" where
  "job_ok jobs j \<longleftrightarrow> queue_at jobs j (jb_after (jobs ! j))
     \<and> (case jb_init (jobs ! j) of None \<Rightarrow> True | Some k \<Rightarrow> k < j)
     \<and> (jb_phase (jobs ! j) \<noteq> Waiting \<longrightarrow> is_settled jobs (jb_after (jobs ! j)) \<and> is_settled jobs (jb_init (jobs ! j)))
     \<and> (jb_kind (jobs ! j) = Write \<longrightarrow> (\<forall>ok. jb_phase (jobs ! j) \<noteq> Settling ok))"

text \<open>Of the initializations with the current revision only the pending one is not settled, and writes issued after it wait for it.\<close>

definition pending_ok :: "'v HiddenTreeNodeStateCoordinator \<Rightarrow> bool" where
  "pending_ok st \<longleftrightarrow>
     (case hc_pendingInitialization st of
        None \<Rightarrow> \<forall>i < length (hc_jobs st). jb_kind (hc_jobs st ! i) = Initialization (hc_revision st) \<longrightarrow> \<not> unsettled (hc_jobs st) i
      | Some p \<Rightarrow> p < length (hc_jobs st) \<and> jb_kind (hc_jobs st ! p) = Initialization (hc_revision st) \<and> unsettled (hc_jobs st) p
          \<and> (\<forall>i < length (hc_jobs st). jb_kind (hc_jobs st ! i) = Initialization (hc_revision st) \<longrightarrow> i = p \<or> \<not> unsettled (hc_jobs st) i)
          \<and> (\<forall>w < length (hc_jobs st). p < w \<longrightarrow> jb_kind (hc_jobs st ! w) = Write \<longrightarrow> jb_init (hc_jobs st ! w) = Some p))"

definition hidden_ok :: "'v HiddenTreeNodeStateCoordinator \<Rightarrow> bool" where
  "hidden_ok st \<longleftrightarrow> (\<forall>j < length (hc_jobs st). job_ok (hc_jobs st) j) \<and> queue_at (hc_jobs st) (length (hc_jobs st)) (hc_writeQueue st)
     \<and> pending_ok st \<and> (\<forall>i < length (hc_jobs st). \<forall>r. jb_kind (hc_jobs st ! i) = Initialization r \<longrightarrow> r \<le> hc_revision st)"

lemma hidden_okD:
  assumes "hidden_ok st"
  shows "j < length (hc_jobs st) \<Longrightarrow> job_ok (hc_jobs st) j" and "queue_at (hc_jobs st) (length (hc_jobs st)) (hc_writeQueue st)"
    and "pending_ok st" and "i < length (hc_jobs st) \<Longrightarrow> jb_kind (hc_jobs st ! i) = Initialization r \<Longrightarrow> r \<le> hc_revision st"
  using assms unfolding hidden_ok_def by blast+

lemma new_hidden_coordinator_ok: "hidden_ok new_hidden_coordinator"
  by (simp add: hidden_ok_def new_hidden_coordinator_def queue_at_def pending_ok_def)

text \<open>Appending a job leaves the others as they are.\<close>

lemma append_job:
  assumes "i < length jobs"
  shows "(jobs @ [jb]) ! i = jobs ! i"
  using assms by (simp add: nth_append)

lemma queue_at_append: "n \<le> length jobs \<Longrightarrow> queue_at (jobs @ [jb]) n q \<longleftrightarrow> queue_at jobs n q"
  by (auto simp: queue_at_def nth_append split: option.splits)

lemma job_settled_append: "(\<And>i. p = Some i \<Longrightarrow> i < length jobs) \<Longrightarrow> is_settled (jobs @ [jb]) p \<longleftrightarrow> is_settled jobs p"
  by (cases p) (auto simp: is_settled_def nth_append)

lemma job_ok_append:
  assumes "job_ok jobs j" "j < length jobs"
  shows "job_ok (jobs @ [jb]) j"
proof -
  have "jb_after (jobs ! j) = Some i \<Longrightarrow> i < length jobs" "jb_init (jobs ! j) = Some i \<Longrightarrow> i < length jobs" for i
    using assms by (auto simp: job_ok_def queue_at_def split: option.splits)
  then show ?thesis
    using assms job_settled_append[of "jb_after (jobs ! j)" jobs jb] job_settled_append[of "jb_init (jobs ! j)" jobs jb]
    by (simp add: job_ok_def append_job queue_at_append)
qed

lemma unsettled_append: "i < length jobs \<Longrightarrow> unsettled (jobs @ [jb]) i \<longleftrightarrow> unsettled jobs i"
  by (simp add: unsettled_def is_settled_def append_job)

lemma unsettled_new: "jb_phase jb = Waiting \<Longrightarrow> unsettled (jobs @ [jb]) (length jobs)"
  by (simp add: unsettled_def is_settled_def)

lemma new_job_ok:
  assumes "queue_at jobs (length jobs) (jb_after jb)" "jb_phase jb = Waiting" "\<And>k. jb_init jb = Some k \<Longrightarrow> k < length jobs"
  shows "job_ok (jobs @ [jb]) (length jobs)"
  using assms by (auto simp: job_ok_def queue_at_append split: option.splits)

lemma initialize_ok:
  assumes ok: "hidden_ok st"
  shows "hidden_ok (snd (initialize_hidden force st))"
proof -
  let ?st = "if force then st\<lparr>hc_initialized := False\<rparr> else st"
  let ?jb = "\<lparr>jb_kind = Initialization (hc_revision st), jb_after = hc_writeQueue st, jb_init = None, jb_phase = Waiting\<rparr>"
  let ?new = "?st\<lparr>hc_jobs := hc_jobs st @ [?jb], hc_pendingInitialization := Some (length (hc_jobs st))\<rparr>"
  have same: "hidden_ok ?st"
    using ok by (cases "hc_pendingInitialization st") (simp_all add: hidden_ok_def pending_ok_def)
  have "hidden_ok ?new" if none: "hc_pendingInitialization st = None"
  proof -
    have "job_ok (hc_jobs st @ [?jb]) j" if "j < Suc (length (hc_jobs st))" for j
      using that job_ok_append[OF hidden_okD(1)[OF ok], of j ?jb] new_job_ok[of "hc_jobs st" ?jb] hidden_okD(2)[OF ok]
      by (auto simp: less_Suc_eq)
    moreover have "queue_at (hc_jobs st @ [?jb]) (Suc (length (hc_jobs st))) (hc_writeQueue st)"
      using hidden_okD(2)[OF ok] by (auto simp: queue_at_def nth_append split: option.splits)
    moreover have "pending_ok ?new"
      using hidden_okD(3)[OF ok] none unsettled_new[of ?jb "hc_jobs st"]
      by (auto simp: pending_ok_def less_Suc_eq append_job unsettled_append)
    ultimately show ?thesis
      using hidden_okD(4)[OF ok] by (auto simp: hidden_ok_def less_Suc_eq append_job)
  qed
  then show ?thesis
    using same by (cases force; cases "hc_pendingInitialization st") (simp_all add: initialize_hidden_def Let_def)
qed

lemma write_ok:
  assumes ok: "hidden_ok st"
  shows "hidden_ok (snd (write_hidden st))"
proof -
  let ?jb = "\<lparr>jb_kind = Write, jb_after = hc_writeQueue st, jb_init = hc_pendingInitialization st, jb_phase = Waiting\<rparr>"
  let ?new = "st\<lparr>hc_jobs := hc_jobs st @ [?jb], hc_writeQueue := Some (length (hc_jobs st))\<rparr>"
  have "job_ok (hc_jobs st @ [?jb]) j" if "j < Suc (length (hc_jobs st))" for j
    using that job_ok_append[OF hidden_okD(1)[OF ok], of j ?jb] new_job_ok[of "hc_jobs st" ?jb] hidden_okD(2,3)[OF ok]
    by (auto simp: less_Suc_eq pending_ok_def split: option.splits)
  moreover have "pending_ok ?new"
    using hidden_okD(3)[OF ok]
    by (auto simp: pending_ok_def less_Suc_eq append_job unsettled_append split: option.splits)
  moreover have "queue_at (hc_jobs ?new) (length (hc_jobs ?new)) (hc_writeQueue ?new)"
    by (auto simp: queue_at_def)
  ultimately have "hidden_ok ?new"
    using hidden_okD(4)[OF ok] by (auto simp: hidden_ok_def less_Suc_eq append_job)
  then show ?thesis
    by (simp add: write_hidden_def Let_def)
qed

lemma reset_ok:
  assumes ok: "hidden_ok st"
  shows "hidden_ok (reset_hidden st)"
proof -
  have "jb_kind (hc_jobs st ! i) \<noteq> Initialization (hc_revision st + 1)" if "i < length (hc_jobs st)" for i
    using hidden_okD(4)[OF ok that, of "hc_revision st + 1"] by auto
  then show ?thesis
    using ok by (auto simp: hidden_ok_def pending_ok_def reset_hidden_def invalidatePendingInitialization_def intro: order_trans)
qed

text \<open>Moving on one job.\<close>

lemma set_phase_simps [simp]:
  "length (hc_jobs (set_phase i p st)) = length (hc_jobs st)"
  "hc_revision (set_phase i p st) = hc_revision st" "hc_pendingInitialization (set_phase i p st) = hc_pendingInitialization st"
  "hc_writeQueue (set_phase i p st) = hc_writeQueue st"
  by (simp_all add: set_phase_def)

lemma set_phase_fields [simp]:
  "jb_kind (hc_jobs (set_phase i p st) ! j) = jb_kind (hc_jobs st ! j)"
  "jb_after (hc_jobs (set_phase i p st) ! j) = jb_after (hc_jobs st ! j)"
  "jb_init (hc_jobs (set_phase i p st) ! j) = jb_init (hc_jobs st ! j)"
  "i < length (hc_jobs st) \<Longrightarrow> jb_phase (hc_jobs (set_phase i p st) ! j) = (if j = i then p else jb_phase (hc_jobs st ! j))"
  by (cases "i < length (hc_jobs st)"; cases "j = i"; simp add: set_phase_def list_update_beyond)+

lemma settled_set_phase:
  assumes "i < length (hc_jobs st)" "unsettled (hc_jobs st) i" "is_settled (hc_jobs st) q"
  shows "is_settled (hc_jobs (set_phase i p st)) q"
  using assms by (cases q) (auto simp: is_settled_def unsettled_def)

lemma queue_at_set_phase [simp]: "queue_at (hc_jobs (set_phase i p st)) n q \<longleftrightarrow> queue_at (hc_jobs st) n q"
  by (cases q) (simp_all add: queue_at_def)

lemma jobs_set_phase:
  assumes ok: "hidden_ok st" and i: "i < length (hc_jobs st)" and "unsettled (hc_jobs st) i"
    and "jb_kind (hc_jobs st ! i) = Write \<longrightarrow> (\<forall>ok. p \<noteq> Settling ok)"
    and "ready (hc_jobs st) i \<or> jb_phase (hc_jobs st ! i) \<noteq> Waiting" and j: "j < length (hc_jobs st)"
  shows "job_ok (hc_jobs (set_phase i p st)) j"
  using hidden_okD(1)[OF ok j] settled_set_phase[OF i assms(3)] assms(4,5) i
  by (cases "j = i") (auto simp: job_ok_def ready_def)

text \<open>If the job does not settle, what is pending stays pending.\<close>

lemma hidden_ok_set_phase:
  assumes ok: "hidden_ok st" and i: "i < length (hc_jobs st)" and "unsettled (hc_jobs st) i"
    and "jb_kind (hc_jobs st ! i) = Write \<longrightarrow> (\<forall>ok. p \<noteq> Settling ok)"
    and "ready (hc_jobs st) i \<or> jb_phase (hc_jobs st ! i) \<noteq> Waiting"
    and keeps: "jb_kind (hc_jobs st ! i) = Write \<or> (\<forall>ok. p \<noteq> Settled ok)"
  shows "hidden_ok (set_phase i p st)"
proof -
  have same: "unsettled (hc_jobs (set_phase i p st)) j \<longleftrightarrow> unsettled (hc_jobs st) j" if "jb_kind (hc_jobs st ! j) = Initialization r" for j r
    using that keeps assms(3) i by (cases p) (auto simp: unsettled_def is_settled_def split: job_phase.splits)
  have "pending_ok (set_phase i p st)"
    using hidden_okD(3)[OF ok] by (auto simp: pending_ok_def same split: option.splits)
  then show ?thesis
    using jobs_set_phase[OF assms(1-5)] hidden_okD(2,4)[OF ok] by (auto simp: hidden_ok_def)
qed

lemma finally_read_ok:
  assumes ok: "hidden_ok st" and i: "i < length (hc_jobs st)" and "jb_kind (hc_jobs st ! i) = Initialization r" "jb_phase (hc_jobs st ! i) = Settling b"
  shows "hidden_ok (finally_read i b st)"
proof -
  let ?st = "finally_read i b st"
  have un: "unsettled (hc_jobs st) i"
    using assms(4) by (simp add: unsettled_def is_settled_def)
  have jobs: "hc_jobs ?st = hc_jobs (set_phase i (Settled b) st)" "hc_writeQueue ?st = hc_writeQueue st" "hc_revision ?st = hc_revision st"
    "hc_pendingInitialization ?st = (if hc_pendingInitialization st = Some i then None else hc_pendingInitialization st)"
    by (simp_all add: finally_read_def Let_def)
  have "job_ok (hc_jobs ?st) j" if "j < length (hc_jobs st)" for j
    using jobs_set_phase[OF ok i un, of "Settled b" j] assms(3,4) that by (simp add: jobs)
  moreover have settles: "unsettled (hc_jobs (set_phase i (Settled b) st)) j \<longleftrightarrow> j \<noteq> i \<and> unsettled (hc_jobs st) j" for j
    using i by (auto simp: unsettled_def is_settled_def)
  have "pending_ok ?st"
    using hidden_okD(3)[OF ok] by (auto simp: pending_ok_def jobs settles split: option.splits)
  ultimately show ?thesis
    using hidden_okD(2,4)[OF ok] by (auto simp: hidden_ok_def jobs)
qed

lemma hidden_ok_commits: "hidden_ok (st\<lparr>hc_commits := c, hc_initialized := b\<rparr>) \<longleftrightarrow> hidden_ok st"
  by (simp add: hidden_ok_def pending_ok_def cong: option.case_cong)

interpretation hidden_machine: input_machine hidden_step hidden_ok
proof unfold_locales
  fix st :: "'v HiddenTreeNodeStateCoordinator" and inp assume ok: "hidden_ok st"
  show "hidden_ok (hidden_step st inp)"
  proof (cases inp)
    case (Turn i)
    then show ?thesis
      using ok hidden_ok_set_phase[OF ok, of i] finally_read_ok[OF ok, of i]
      by (auto simp: take_turn_def begin_read_def begin_write_def unsettled_def is_settled_def ready_def
          split: job_kind.splits job_phase.splits option.splits)
  next
    case (Read_Returns i outcome)
    then show ?thesis
      using ok hidden_ok_set_phase[OF ok, of i] hidden_ok_set_phase[of "st\<lparr>hc_commits := _, hc_initialized := _\<rparr>" i]
      by (auto simp: read_returns_def end_read_def unsettled_def is_settled_def hidden_ok_commits
          split: job_kind.splits job_phase.splits option.splits)
  next
    case (Write_Returns i b)
    then show ?thesis
      using ok hidden_ok_set_phase[OF ok, of i]
      by (auto simp: write_returns_def unsettled_def is_settled_def split: job_kind.splits job_phase.splits)
  qed (use ok in \<open>simp_all add: initialize_ok write_ok reset_ok\<close>)
qed

section \<open>Properties\<close>

text \<open>A job only begins when all writes before it are settled.\<close>

lemma writes_before:
  assumes ok: "hidden_ok st"
  shows "j < length (hc_jobs st) \<Longrightarrow> jb_phase (hc_jobs st ! j) \<noteq> Waiting \<Longrightarrow> w < j \<Longrightarrow> jb_kind (hc_jobs st ! w) = Write
    \<Longrightarrow> \<not> unsettled (hc_jobs st) w"
proof (induction j arbitrary: w rule: less_induct)
  case (less j)
  obtain a where a: "jb_after (hc_jobs st ! j) = Some a" "w \<le> a" "a < j" "jb_kind (hc_jobs st ! a) = Write"
    using hidden_okD(1)[OF ok less.prems(1)] less.prems(3,4) by (fastforce simp: job_ok_def queue_at_def not_less[symmetric] split: option.splits)
  have settled: "is_settled (hc_jobs st) (Some a)"
    using hidden_okD(1)[OF ok less.prems(1)] less.prems(2) a(1) by (auto simp: job_ok_def)
  show ?case
  proof (cases "w = a")
    case False
    then show ?thesis
      using less.IH[of a w] less.prems a settled by (auto simp: is_settled_def split: job_phase.splits)
  qed (use settled in \<open>simp add: unsettled_def\<close>)
qed

text \<open>A read of the current revision keeps the writes after it waiting.\<close>

lemma writes_after:
  assumes ok: "hidden_ok st" and i: "i < length (hc_jobs st)" "jb_kind (hc_jobs st ! i) = Initialization (hc_revision st)" "unsettled (hc_jobs st) i"
    and w: "w < length (hc_jobs st)" "i < w" "jb_kind (hc_jobs st ! w) = Write"
  shows "jb_phase (hc_jobs st ! w) = Waiting"
proof -
  have "hc_pendingInitialization st = Some i"
    using hidden_okD(3)[OF ok] i by (cases "hc_pendingInitialization st") (auto simp: pending_ok_def)
  then have "jb_init (hc_jobs st ! w) = Some i"
    using hidden_okD(3)[OF ok] w by (simp add: pending_ok_def)
  then show ?thesis
    using hidden_okD(1)[OF ok w(1)] i(3) by (auto simp: job_ok_def unsettled_def)
qed

text \<open>
  C31: A value is only committed if no write can have changed it. In every run, whenever a step commits a value, it is the one a read
  of the current revision returns; every write issued before that read is settled, and every write issued after it has not begun. So
  a read never overlaps a write, and after a reset an old read commits nothing.
\<close>

theorem commits_do_not_overlap_writes:
  assumes "st = foldl hidden_step new_hidden_coordinator inps" and "hc_commits (hidden_step st inp) \<noteq> hc_commits st"
  shows "\<exists>i v returns. inp = Read_Returns i (Some (v, returns)) \<and> hc_commits (hidden_step st inp) = hc_commits st @ [v]
    \<and> jb_kind (hc_jobs st ! i) = Initialization (hc_revision st)
    \<and> (\<forall>w < length (hc_jobs st). jb_kind (hc_jobs st ! w) = Write \<longrightarrow>
          (if w < i then is_settled (hc_jobs st) (Some w) else jb_phase (hc_jobs st ! w) = Waiting))"
proof -
  have ok: "hidden_ok st"
    using hidden_machine.run_keeps[OF new_hidden_coordinator_ok] assms(1) by simp
  have phase: "hc_commits (set_phase i p st') = hc_commits st'" for i p and st' :: "'a HiddenTreeNodeStateCoordinator"
    by (simp add: set_phase_def)
  obtain i v returns where i: "inp = Read_Returns i (Some (v, returns))" "i < length (hc_jobs st)" "jb_kind (hc_jobs st ! i) = Initialization (hc_revision st)"
      "jb_phase (hc_jobs st ! i) = Running" "hc_commits (hidden_step st inp) = hc_commits st @ [v]"
    using assms(2)
    by (cases inp) (auto simp: initialize_hidden_def write_hidden_def reset_hidden_def invalidatePendingInitialization_def take_turn_def
        begin_read_def begin_write_def finally_read_def read_returns_def end_read_def write_returns_def phase Let_def
        split: option.splits job_kind.splits job_phase.splits if_splits)
  have "is_settled (hc_jobs st) (Some w)" if "w < i" "jb_kind (hc_jobs st ! w) = Write" for w
    using writes_before[OF ok i(2) _ that] i(4) by (auto simp: unsettled_def)
  moreover have "jb_phase (hc_jobs st ! w) = Waiting" if "w < length (hc_jobs st)" "\<not> w < i" "jb_kind (hc_jobs st ! w) = Write" for w
    using writes_after[OF ok i(2,3), of w] that i(3,4) by (cases "w = i") (auto simp: unsettled_def is_settled_def)
  ultimately show ?thesis
    using i by auto
qed

definition sample_hidden :: "nat hidden_input list" where
  "sample_hidden = [Write_Call, Initialize False, Write_Call, Turn 0, Turn 1, Write_Returns 0 True, Turn 1, Turn 2]"

theorem commits_do_not_overlap_writes_witness:
  "\<exists>i v returns. (Read_Returns 1 (Some (5, True)) :: nat hidden_input) = Read_Returns i (Some (v, returns))
    \<and> hc_commits (hidden_step (foldl hidden_step new_hidden_coordinator sample_hidden) (Read_Returns 1 (Some (5, True))))
      = hc_commits (foldl hidden_step new_hidden_coordinator sample_hidden) @ [v]"
proof -
  let ?st = "foldl hidden_step new_hidden_coordinator sample_hidden"
  have "hc_commits (hidden_step ?st (Read_Returns 1 (Some (5, True)))) \<noteq> hc_commits ?st"
    by code_simp
  from commits_do_not_overlap_writes[OF refl this] show ?thesis
    by blast
qed

text \<open>
  Writes run one at a time and in the order in which they were issued: when a write begins, every earlier one is settled.
\<close>

theorem writes_run_in_order:
  assumes "st = foldl hidden_step new_hidden_coordinator inps"
    and "v < w" "w < length (hc_jobs st)" "jb_kind (hc_jobs st ! v) = Write" "jb_kind (hc_jobs st ! w) = Write"
    and "jb_phase (hc_jobs st ! w) \<noteq> Waiting"
  shows "is_settled (hc_jobs st) (Some v)"
proof -
  have "hidden_ok st"
    using hidden_machine.run_keeps[OF new_hidden_coordinator_ok] assms(1) by simp
  then show ?thesis
    using writes_before[of st w v] assms by (simp add: unsettled_def)
qed

theorem writes_run_in_order_witness:
  "is_settled (hc_jobs (foldl hidden_step new_hidden_coordinator
     (sample_hidden @ [Read_Returns 1 (None :: (nat \<times> bool) option), Turn 1, Write_Call, Turn 2, Turn 3]))) (Some 2)"
proof -
  let ?st = "foldl hidden_step new_hidden_coordinator (sample_hidden @ [Read_Returns 1 (None :: (nat \<times> bool) option), Turn 1, Write_Call, Turn 2, Turn 3])"
  have facts: "(2::nat) < 3" "3 < length (hc_jobs ?st)" "jb_kind (hc_jobs ?st ! 2) = Write" "jb_kind (hc_jobs ?st ! 3) = Write"
    "jb_phase (hc_jobs ?st ! 3) \<noteq> Waiting"
    by code_simp+
  show ?thesis
    by (rule writes_run_in_order[OF refl facts])
qed

text \<open>
  The queue never blocks. In every run, if a job is not settled, some job up to it is under way (so that the environment
  will answer) or can take its turn, and taking it changes the state.
\<close>

theorem hidden_queue_moves_on:
  assumes "st = foldl hidden_step new_hidden_coordinator inps" and "i < length (hc_jobs st)" "\<not> is_settled (hc_jobs st) (Some i)"
  shows "\<exists>k \<le> i. jb_phase (hc_jobs st ! k) = Running
    \<or> jb_phase (hc_jobs (hidden_step st (Turn k)) ! k) \<noteq> jb_phase (hc_jobs st ! k)"
proof -
  have ok: "hidden_ok st"
    using hidden_machine.run_keeps[OF new_hidden_coordinator_ok] assms(1) by simp
  have "unsettled (hc_jobs st) i"
    using assms(3) by (simp add: unsettled_def)
  then obtain k where "k \<le> i" "\<forall>j < k. \<not> unsettled (hc_jobs st) j" "unsettled (hc_jobs st) k"
    using ex_least_nat_le[of "unsettled (hc_jobs st)" i] by blast
  then have k: "unsettled (hc_jobs st) k" "k \<le> i" "\<And>j. j < k \<Longrightarrow> is_settled (hc_jobs st) (Some j)"
    by (auto simp: unsettled_def)
  have len: "k < length (hc_jobs st)"
    using k(2) assms(2) by simp
  have "jb_after (hc_jobs st ! k) = Some j \<Longrightarrow> j < k" "jb_init (hc_jobs st ! k) = Some j \<Longrightarrow> j < k" for j
    using hidden_okD(1)[OF ok len] by (auto simp: job_ok_def queue_at_def)
  then have "is_settled (hc_jobs st) (jb_after (hc_jobs st ! k))" "is_settled (hc_jobs st) (jb_init (hc_jobs st ! k))"
    using k(3) by (metis is_settled_def option.case(1) option.exhaust)+
  then have "jb_phase (hc_jobs st ! k) = Waiting \<Longrightarrow> ready (hc_jobs st) k"
    by (simp add: ready_def)
  moreover have "jb_phase (hc_jobs (finally_read k b st) ! k) = Settled b" for b
    using len by (simp add: finally_read_def Let_def)
  ultimately have "jb_phase (hc_jobs st ! k) = Running \<or> jb_phase (hc_jobs (hidden_step st (Turn k)) ! k) \<noteq> jb_phase (hc_jobs st ! k)"
    using len k(1) hidden_okD(1)[OF ok len]
    by (cases "jb_phase (hc_jobs st ! k)"; cases "jb_kind (hc_jobs st ! k)")
      (auto simp: take_turn_def begin_read_def begin_write_def unsettled_def is_settled_def job_ok_def split: option.splits)
  then show ?thesis
    using k(2) by blast
qed

theorem hidden_queue_moves_on_witness:
  "\<exists>k \<le> 2. jb_phase (hc_jobs (foldl hidden_step new_hidden_coordinator sample_hidden) ! k) = Running
    \<or> jb_phase (hc_jobs (hidden_step (foldl hidden_step new_hidden_coordinator sample_hidden) (Turn k)) ! k)
      \<noteq> jb_phase (hc_jobs (foldl hidden_step new_hidden_coordinator sample_hidden) ! k)"
proof -
  have facts: "2 < length (hc_jobs (foldl hidden_step new_hidden_coordinator sample_hidden))"
    "\<not> is_settled (hc_jobs (foldl hidden_step new_hidden_coordinator sample_hidden)) (Some 2)"
    by code_simp+
  show ?thesis
    by (rule hidden_queue_moves_on[OF refl facts])
qed

lemma fold_set_add: "set (fold set_add xs ys) = set ys \<union> set xs" "distinct ys \<Longrightarrow> distinct (fold set_add xs ys)"
  by (induction xs arbitrary: ys) (auto simp: set_add_def)

lemma fold_add_some:
  "set (fold (\<lambda>key ids. case key of Some k \<Rightarrow> set_add k ids | None \<Rightarrow> ids) ks ids) = set ids \<union> {k. Some k \<in> set ks}"
  "distinct ids \<Longrightarrow> distinct (fold (\<lambda>key ids. case key of Some k \<Rightarrow> set_add k ids | None \<Rightarrow> ids) ks ids)"
  by (induction ks arbitrary: ids) (auto simp: set_add_def split: option.splits)

lemma fold_delete_some:
  "fold (\<lambda>key ids. case key of Some k \<Rightarrow> filter (\<lambda>x. x \<noteq> k) ids | None \<Rightarrow> ids) ks ids = filter (\<lambda>x. Some x \<notin> set ks) ids"
  by (induction ks arbitrary: ids) (auto simp: filter_filter split: option.splits intro: filter_cong)

text \<open>
  Changes of hidden nodes act as on a set: the result holds what was hidden or is added, without what is deleted, each once.
\<close>

theorem hidden_changes_as_sets:
  "set (applyHiddenTreeNodeChanges ids (Some ch)) = (set ids \<union> {k. Some k \<in> set (ch_add ch)}) - {k. Some k \<in> set (ch_delete ch)}
   \<and> distinct (applyHiddenTreeNodeChanges ids (Some ch)) \<and> set (applyHiddenTreeNodeChanges ids None) = set ids"
  by (auto simp: applyHiddenTreeNodeChanges_def Let_def fold_set_add fold_add_some fold_delete_some)

end
