(* ===== verification/Data_Source_State.thy ===== *)
theory Data_Source_State
  imports Js_Prelude
begin

text \<open>
  What an editor knows of its data source: \<open>utils/editorDataSourceLifecycle.ts\<close> (availability with a generation per data source,
  the state of the data source, the fields copied from it) and \<open>utils/dataSourceWatermark.ts\<close>.
\<close>

section \<open>Availability\<close>

datatype DataSourceRuntimeAvailability = Available | Unavailable

type_synonym DataSourceRuntimeAvailabilityById = "(int \<times> DataSourceRuntimeAvailability) list"
type_synonym DataSourceRuntimeAvailabilityGenerationById = "(int \<times> int) list"

record DataSourceRuntimeAvailabilityState =
  runtimeAvailabilityByDataSourceId :: DataSourceRuntimeAvailabilityById
  runtimeAvailabilityGenerationByDataSourceId :: DataSourceRuntimeAvailabilityGenerationById

definition getDataSourceRuntimeAvailabilityGeneration :: "DataSourceRuntimeAvailabilityGenerationById \<Rightarrow> int \<Rightarrow> int" where
  "getDataSourceRuntimeAvailabilityGeneration generations dataSourceId = the_default 0 (map_of generations dataSourceId)"

definition transitionDataSourceRuntimeAvailability ::
  "DataSourceRuntimeAvailabilityState \<Rightarrow> int \<Rightarrow> DataSourceRuntimeAvailability option \<Rightarrow> int option \<Rightarrow> DataSourceRuntimeAvailabilityState option" where
  "transitionDataSourceRuntimeAvailability state dataSourceId availability expectedGeneration =
     (let currentGeneration = getDataSourceRuntimeAvailabilityGeneration (runtimeAvailabilityGenerationByDataSourceId state) dataSourceId
      in if expectedGeneration \<noteq> None \<and> expectedGeneration \<noteq> Some currentGeneration then None
         else Some \<lparr>runtimeAvailabilityByDataSourceId =
                (case availability of
                   Some a \<Rightarrow> AList.update dataSourceId a (runtimeAvailabilityByDataSourceId state)
                 | None \<Rightarrow> AList.delete dataSourceId (runtimeAvailabilityByDataSourceId state)),
              runtimeAvailabilityGenerationByDataSourceId =
                AList.update dataSourceId (currentGeneration + 1) (runtimeAvailabilityGenerationByDataSourceId state)\<rparr>)"

section \<open>The state of the data source of an editor\<close>

datatype EditorDataSourceState = Unbound | Loading | AvailableSource | UnavailableSource | Deleted

text \<open>The list holds the ids of the items.\<close>

definition resolveEditorDataSourceState ::
  "int option \<Rightarrow> int option list option \<Rightarrow> DataSourceRuntimeAvailabilityById \<Rightarrow> EditorDataSourceState" where
  "resolveEditorDataSourceState dataSourceId dataSourceList availability =
     (case dataSourceId of
        None \<Rightarrow> Unbound
      | Some d \<Rightarrow>
          (case dataSourceList of
             None \<Rightarrow> Loading
           | Some ids \<Rightarrow>
               if \<not> list_ex (\<lambda>i. i = Some d) ids then Deleted
               else if map_of availability d = Some Unavailable then UnavailableSource else AvailableSource))"

definition resolveEditorDataSourceConnectable :: "EditorDataSourceState \<Rightarrow> bool option \<Rightarrow> bool option" where
  "resolveEditorDataSourceConnectable state fallbackConnectable =
     (if state = Loading then fallbackConnectable else Some (state = AvailableSource))"

datatype SqlExecutionBlockReason = MissingDataSource | DeletedDataSource

definition getSqlExecutionBlockReason :: "int option \<Rightarrow> EditorDataSourceState \<Rightarrow> SqlExecutionBlockReason option" where
  "getSqlExecutionBlockReason dataSourceId state =
     (if dataSourceId = None then Some MissingDataSource
      else if state = Deleted then Some DeletedDataSource else None)"

section \<open>Fields copied from the data source\<close>

record IConnectionEnv =
  env_id :: int
  env_name :: string
  env_shortName :: string
  env_color :: string

record LiveDataSourceContext =
  ctx_dataSourceId :: "int option"
  ctx_dataSourceName :: "string option"
  ctx_environmentId :: "int option"
  ctx_environment :: "IConnectionEnv option"
  ctx_identityColor :: "string option"
  ctx_watermarkEnabled :: "bool option"
  ctx_watermarkContent :: "string option"
  ctx_connectable :: "bool option"

text \<open>The bound information of an editor adds the fields that are its own.\<close>

record IBoundInfo = LiveDataSourceContext +
  bi_consoleId :: "int option"
  bi_databaseName :: "string option"
  bi_schemaName :: "string option"

definition mergeLiveDataSourceContext :: "IBoundInfo \<Rightarrow> LiveDataSourceContext \<Rightarrow> IBoundInfo" where
  "mergeLiveDataSourceContext current live =
     (if ctx_dataSourceId current = ctx_dataSourceId live \<and> ctx_dataSourceName current = ctx_dataSourceName live
         \<and> ctx_environmentId current = ctx_environmentId live \<and> ctx_environment current = ctx_environment live
         \<and> ctx_identityColor current = ctx_identityColor live \<and> ctx_watermarkEnabled current = ctx_watermarkEnabled live
         \<and> ctx_watermarkContent current = ctx_watermarkContent live \<and> ctx_connectable current = ctx_connectable live
      then current
      else current\<lparr>ctx_dataSourceId := ctx_dataSourceId live, ctx_dataSourceName := ctx_dataSourceName live,
             ctx_environmentId := ctx_environmentId live, ctx_environment := ctx_environment live,
             ctx_identityColor := ctx_identityColor live, ctx_watermarkEnabled := ctx_watermarkEnabled live,
             ctx_watermarkContent := ctx_watermarkContent live, ctx_connectable := ctx_connectable live\<rparr>)"

section \<open>Watermarks\<close>

record DataSourceWatermarkLayout =
  itemCount :: nat
  wl_columns :: nat
  wl_rows :: nat

definition LARGE_WATERMARK_MIN_WIDTH :: int where "LARGE_WATERMARK_MIN_WIDTH = 720"
definition LARGE_WATERMARK_MIN_HEIGHT :: int where "LARGE_WATERMARK_MIN_HEIGHT = 360"
definition DENSE_WATERMARK_MIN_HEIGHT :: int where "DENSE_WATERMARK_MIN_HEIGHT = 480"

definition getDataSourceWatermarkLayout :: "int option \<Rightarrow> int option \<Rightarrow> DataSourceWatermarkLayout" where
  "getDataSourceWatermarkLayout width height =
     (let w = the_default 0 width; h = the_default 0 height
      in if w = 0 \<or> h = 0 then \<lparr>itemCount = 1, wl_columns = 1, wl_rows = 1\<rparr>
         else if LARGE_WATERMARK_MIN_WIDTH \<le> w \<and> DENSE_WATERMARK_MIN_HEIGHT \<le> h then \<lparr>itemCount = 9, wl_columns = 3, wl_rows = 3\<rparr>
         else if LARGE_WATERMARK_MIN_WIDTH \<le> w \<and> LARGE_WATERMARK_MIN_HEIGHT \<le> h then \<lparr>itemCount = 4, wl_columns = 2, wl_rows = 2\<rparr>
         else if h \<le> w then \<lparr>itemCount = 2, wl_columns = 2, wl_rows = 1\<rparr>
         else \<lparr>itemCount = 1, wl_columns = 1, wl_rows = 1\<rparr>)"

record DataSourceWatermarkContent =
  wm_title :: string
  wm_subtitle :: "string option"
  wm_connectionUnavailable :: "bool option"

definition normalizeWatermarkPart :: "string option \<Rightarrow> string option" where
  "normalizeWatermarkPart v =
     (case v of None \<Rightarrow> None | Some s \<Rightarrow> let normalizedValue = trim s in if normalizedValue = [] then None else Some normalizedValue)"

definition getDataSourceWatermarkContent :: "IBoundInfo \<Rightarrow> EditorDataSourceState option \<Rightarrow> DataSourceWatermarkContent option" where
  "getDataSourceWatermarkContent boundInfo dataSourceState =
     (let unavailable = (if dataSourceState = Some UnavailableSource then Some True else None)
      in if ctx_watermarkEnabled boundInfo \<noteq> Some True then None
         else case normalizeWatermarkPart (ctx_watermarkContent boundInfo) of
                Some customContent \<Rightarrow> Some \<lparr>wm_title = customContent, wm_subtitle = None, wm_connectionUnavailable = unavailable\<rparr>
              | None \<Rightarrow>
                  let environmentShortName = normalizeWatermarkPart (map_option env_shortName (ctx_environment boundInfo));
                      environmentName = normalizeWatermarkPart (map_option env_name (ctx_environment boundInfo));
                      dataSourceName = normalizeWatermarkPart (ctx_dataSourceName boundInfo);
                      databaseName = normalizeWatermarkPart (bi_databaseName boundInfo);
                      schemaName = normalizeWatermarkPart (bi_schemaName boundInfo);
                      environmentTitle = (if environmentShortName \<noteq> None then environmentShortName else environmentName)
                  in case (if environmentTitle \<noteq> None then environmentTitle else dataSourceName) of
                       None \<Rightarrow> None
                     | Some title \<Rightarrow>
                         let subtitleParts = (if environmentTitle \<noteq> None then [dataSourceName, databaseName, schemaName] else [databaseName, schemaName]);
                             subtitle = join '' / '' (List.map_filter (\<lambda>v. v) subtitleParts)
                         in Some \<lparr>wm_title = title, wm_subtitle = (if subtitle = [] then None else Some subtitle),
                              wm_connectionUnavailable = unavailable\<rparr>)"

section \<open>Properties\<close>

abbreviation generation_of :: "DataSourceRuntimeAvailabilityState \<Rightarrow> int \<Rightarrow> int" where
  "generation_of st d \<equiv> getDataSourceRuntimeAvailabilityGeneration (runtimeAvailabilityGenerationByDataSourceId st) d"

lemma transition_generation:
  assumes "transitionDataSourceRuntimeAvailability st d a e = Some st'"
  shows "generation_of st' d' = (if d' = d then generation_of st d + 1 else generation_of st d')"
  using assms by (auto simp: transitionDataSourceRuntimeAvailability_def getDataSourceRuntimeAvailabilityGeneration_def update_conv' Let_def
      split: if_splits)

lemma transition_availability:
  assumes "transitionDataSourceRuntimeAvailability st d a e = Some st'"
  shows "map_of (runtimeAvailabilityByDataSourceId st') d' = (if d' = d then a else map_of (runtimeAvailabilityByDataSourceId st) d')"
  using assms by (auto simp: transitionDataSourceRuntimeAvailability_def update_conv' delete_conv Let_def split: if_splits option.splits)

text \<open>A history of transitions, in which those that do not apply are skipped.\<close>

fun transitions :: "(int \<times> DataSourceRuntimeAvailability option \<times> int option) list \<Rightarrow> DataSourceRuntimeAvailabilityState \<Rightarrow> DataSourceRuntimeAvailabilityState" where
  "transitions [] st = st"
| "transitions ((d, a, e) # ts) st = transitions ts (the_default st (transitionDataSourceRuntimeAvailability st d a e))"

lemma transitions_monotone: "generation_of st d \<le> generation_of (transitions ts st) d"
proof (induction ts st rule: transitions.induct)
  case (2 d' a e ts st)
  have "generation_of st d \<le> generation_of (the_default st (transitionDataSourceRuntimeAvailability st d' a e)) d"
    by (cases "transitionDataSourceRuntimeAvailability st d' a e") (auto dest: transition_generation[where d' = d])
  then show ?case
    using 2 by simp
qed simp

text \<open>
  A late answer about a data source is dropped. When the availability of a data source was changed, an answer to a question asked before
  (it expects the generation of that time) never applies any more, whatever was recorded for this and other data sources in the meantime.
\<close>

theorem stale_availability_dropped:
  assumes "transitionDataSourceRuntimeAvailability st d a e = Some st1"
  shows "transitionDataSourceRuntimeAvailability (transitions ts st1) d a' (Some (generation_of st d)) = None
    \<and> map_of (runtimeAvailabilityByDataSourceId st1) d = a \<and> (d' \<noteq> d \<longrightarrow> map_of (runtimeAvailabilityByDataSourceId st1) d' = map_of (runtimeAvailabilityByDataSourceId st) d')"
proof -
  have "generation_of st d < generation_of (transitions ts st1) d"
    using transitions_monotone[of st1 d ts] transition_generation[OF assms, of d] by simp
  then show ?thesis
    using transition_availability[OF assms] by (simp add: transitionDataSourceRuntimeAvailability_def Let_def)
qed

definition no_availability :: DataSourceRuntimeAvailabilityState where
  "no_availability = \<lparr>runtimeAvailabilityByDataSourceId = [], runtimeAvailabilityGenerationByDataSourceId = []\<rparr>"

theorem stale_availability_dropped_witness:
  "transitionDataSourceRuntimeAvailability
     (transitions [(2, Some Available, None)] (the (transitionDataSourceRuntimeAvailability no_availability 1 (Some Unavailable) None)))
     1 (Some Available) (Some 0) = None"
proof -
  have "transitionDataSourceRuntimeAvailability no_availability 1 (Some Unavailable) None
      = Some (the (transitionDataSourceRuntimeAvailability no_availability 1 (Some Unavailable) None))"
    by code_simp
  from stale_availability_dropped[OF this, of "[(2, Some Available, None)]" "Some Available", THEN conjunct1]
  show ?thesis
    by (simp add: no_availability_def getDataSourceRuntimeAvailabilityGeneration_def)
qed

text \<open>The shortcut for unchanged fields is only that: the result has the fields of the data source and keeps those of the editor.\<close>

lemma mergeLiveDataSourceContext_fields:
  "LiveDataSourceContext.truncate (mergeLiveDataSourceContext current live) = live
   \<and> IBoundInfo.more (mergeLiveDataSourceContext current live) = IBoundInfo.more current
   \<and> bi_databaseName (mergeLiveDataSourceContext current live) = bi_databaseName current"
  by (simp add: mergeLiveDataSourceContext_def LiveDataSourceContext.defs)

text \<open>A statement may be executed exactly if the editor has a data source that was not deleted; loading or unavailable sources do not block it.\<close>

lemma execution_blocked_iff:
  "getSqlExecutionBlockReason d (resolveEditorDataSourceState d sources availability) = None \<longleftrightarrow>
     (\<exists>i. d = Some i \<and> (case sources of None \<Rightarrow> True | Some ids \<Rightarrow> Some i \<in> set ids))"
  by (auto simp: getSqlExecutionBlockReason_def resolveEditorDataSourceState_def list_ex_iff split: option.splits)

lemma watermark_fills_grid: "itemCount (getDataSourceWatermarkLayout w h) = wl_columns (getDataSourceWatermarkLayout w h) * wl_rows (getDataSourceWatermarkLayout w h)"
  by (simp add: getDataSourceWatermarkLayout_def Let_def)

end
