(* ===== verification/Tree_Data.thy ===== *)
theory Tree_Data
  imports Data_Source_State
begin

text \<open>
  The data of the database tree and its updates: \<open>treeDataUpdate.ts\<close>, \<open>backgroundRefresh.ts\<close>, \<open>dataSourceList.ts\<close>,
  \<open>dataSourceIdentity.ts\<close> and \<open>treeNodeLoadState.ts\<close> of \<open>store/tree\<close>.

  The sources return the given array itself if nothing changed; here the flag of such a function says whether it is a
  new array.
\<close>

section \<open>Nodes\<close>

record 'p node_fields =
  nd_key :: string
  nd_treeNodeType :: string
  nd_dataSourceId :: "int option"
  nd_identityColor :: "string option"
  nd_environmentId :: "int option"
  nd_environment :: "'p option"
  nd_isLeaf :: "bool option"
  nd_childCount :: "int option"
  nd_payload :: 'p   \<comment> \<open>the fields that no function here reads or writes\<close>

datatype 'p TreeNodeData = Node (fields_of: "'p node_fields") (children_of: "'p TreeNodeData list option")

abbreviation key_of :: "'p TreeNodeData \<Rightarrow> string" where
  "key_of n \<equiv> nd_key (fields_of n)"

lemma size_or_empty [termination_simp]:
  "size_list size (or_empty ch) < Suc (size_option (size_list size) ch + k)"
  by (cases ch) simp_all

section \<open>Loaded data\<close>

definition appendExpandedTreeKey :: "string list \<Rightarrow> string \<Rightarrow> string list" where
  "appendExpandedTreeKey expandedKeys key = (if key \<in> set expandedKeys then expandedKeys else expandedKeys @ [key])"

definition isDataSourceTreeNodeKey :: "string \<Rightarrow> int \<Rightarrow> bool" where
  "isDataSourceTreeNodeKey key dataSourceId \<longleftrightarrow>
     (let dataSourceKey = ''dataSource_'' @ string_of_int dataSourceId
      in key = dataSourceKey \<or> startsWith key (dataSourceKey @ ''-''))"

fun remove_nodes :: "string \<Rightarrow> 'p TreeNodeData list \<Rightarrow> 'p TreeNodeData list \<times> bool" where
  "remove_nodes key [] = ([], False)"
| "remove_nodes key (Node f ch # ns) =
     (let (rest, changed) = remove_nodes key ns
      in if nd_key f = key then (rest, True)
         else case ch of
                None \<Rightarrow> (Node f None # rest, changed)
              | Some cs \<Rightarrow>
                  let (cs', c) = remove_nodes key cs
                  in if c then (Node f (Some cs') # rest, True) else (Node f (Some cs) # rest, changed))"

definition removeTreeNodeByKey :: "'p TreeNodeData list \<Rightarrow> string \<Rightarrow> 'p TreeNodeData list" where
  "removeTreeNodeByKey treeData key =
     (let (nextTreeData, changed) = remove_nodes key treeData in if changed then nextTreeData else treeData)"

fun index_nodes :: "'p TreeNodeData list \<Rightarrow> (string \<times> 'p TreeNodeData) list \<Rightarrow> (string \<times> 'p TreeNodeData) list" where
  "index_nodes [] m = m"
| "index_nodes (Node f ch # ns) m =
     index_nodes ns (index_nodes (or_empty ch) (AList.update (nd_key f) (Node f ch) m))"

fun merge_nodes :: "(string \<times> 'p TreeNodeData) list \<Rightarrow> 'p TreeNodeData list \<Rightarrow> 'p TreeNodeData list" where
  "merge_nodes m [] = []"
| "merge_nodes m (Node f ch # ns) =
     (case (map_of m (nd_key f), ch) of
        (None, None) \<Rightarrow> Node f None
      | (None, Some cs) \<Rightarrow> Node f (Some (merge_nodes m cs))
      | (Some current, Some cs) \<Rightarrow> Node f (Some (merge_nodes m cs))
      | (Some current, None) \<Rightarrow> Node f (children_of current)) # merge_nodes m ns"

definition mergeLoadedTreeData :: "'p TreeNodeData list \<Rightarrow> 'p TreeNodeData list option \<Rightarrow> 'p TreeNodeData list" where
  "mergeLoadedTreeData freshTreeData currentTreeData =
     (if or_empty currentTreeData = [] then freshTreeData
      else merge_nodes (index_nodes (or_empty currentTreeData) []) freshTreeData)"

definition resolveLoadedTreeData :: "'p TreeNodeData list \<Rightarrow> 'p TreeNodeData list option \<Rightarrow> bool \<Rightarrow> 'p TreeNodeData list" where
  "resolveLoadedTreeData freshTreeData currentTreeData authoritative =
     (if authoritative then freshTreeData else mergeLoadedTreeData freshTreeData currentTreeData)"

section \<open>Refreshing in the background\<close>

record 'p TreeNodeRefreshResult =
  rr_children :: "'p TreeNodeData list"
  rr_total :: "int option"

text \<open>A number is undefined if it is missing; the value null cannot be told from it in the result.\<close>

definition createSavedConsoleTreeNodeKey :: "int option \<Rightarrow> string option \<Rightarrow> string option \<Rightarrow> int option \<Rightarrow> string" where
  "createSavedConsoleTreeNodeKey dataSourceId databaseName schemaName consoleId =
     (let num = (\<lambda>n. case n of Some i \<Rightarrow> string_of_int i | None \<Rightarrow> ''undefined'');
          text = (\<lambda>s. if truthy_str s then the s else ''undefined'')
      in join ''-'' [''dataSource_'' @ num dataSourceId, ''database_'' @ text databaseName,
                     ''schema_'' @ text schemaName, ''console_'' @ num consoleId])"

fun findTreeNode :: "string \<Rightarrow> 'p TreeNodeData list \<Rightarrow> 'p TreeNodeData option" where
  "findTreeNode key [] = None"
| "findTreeNode key (Node f ch # ns) =
     (if nd_key f = key then Some (Node f ch)
      else case (case ch of Some cs \<Rightarrow> findTreeNode key cs | None \<Rightarrow> None) of
             Some child \<Rightarrow> Some child
           | None \<Rightarrow> findTreeNode key ns)"

definition reconcileTreeInteractionAfterRefresh ::
  "'p TreeNodeData list \<Rightarrow> string list \<Rightarrow> 'p TreeNodeData option \<Rightarrow> string list \<times> 'p TreeNodeData option" where
  "reconcileTreeInteractionAfterRefresh treeData selectedKeys currentTreeNode =
     (let retained = filter (\<lambda>key. findTreeNode key treeData \<noteq> None) selectedKeys
      in (if length retained = length selectedKeys then selectedKeys else retained,
          case currentTreeNode of Some n \<Rightarrow> findTreeNode (key_of n) treeData | None \<Rightarrow> None))"

record 'p tree_state =
  ts_selectedKeys :: "string list"
  ts_currentTreeNode :: "'p TreeNodeData option"
  ts_expandedKeys :: "string list"
  ts_scrollTargetKey :: "string option"

definition reconcileTreeStateAfterRefresh ::
  "'p TreeNodeData list \<Rightarrow> string list \<Rightarrow> 'p TreeNodeData option \<Rightarrow> string list \<Rightarrow> string option \<Rightarrow> 'p tree_state" where
  "reconcileTreeStateAfterRefresh treeData selectedKeys currentTreeNode expandedKeys scrollTargetKey =
     (let (selected, current) = reconcileTreeInteractionAfterRefresh treeData selectedKeys currentTreeNode
      in \<lparr>ts_selectedKeys = selected, ts_currentTreeNode = current,
          ts_expandedKeys = filter (\<lambda>key. case findTreeNode key treeData of Some n \<Rightarrow> children_of n \<noteq> None | None \<Rightarrow> False) expandedKeys,
          ts_scrollTargetKey = (if truthy_str scrollTargetKey \<and> findTreeNode (the scrollTargetKey) treeData \<noteq> None
            then scrollTargetKey else None)\<rparr>)"

fun refresh_nodes :: "string \<Rightarrow> 'p TreeNodeRefreshResult \<Rightarrow> 'p TreeNodeData list \<Rightarrow> 'p TreeNodeData list \<times> bool" where
  "refresh_nodes key result [] = ([], False)"
| "refresh_nodes key result (Node f ch # ns) =
     (let (rest, changed) = refresh_nodes key result ns
      in if nd_key f = key
         then (Node (f\<lparr>nd_isLeaf := Some False,
                   nd_childCount := (case rr_total result of None \<Rightarrow> nd_childCount f | Some t \<Rightarrow> Some t)\<rparr>)
                 (Some (rr_children result)) # rest, True)
         else case ch of
                None \<Rightarrow> (Node f None # rest, changed)
              | Some cs \<Rightarrow>
                  let (cs', c) = refresh_nodes key result cs
                  in if c then (Node f (Some cs') # rest, True) else (Node f (Some cs) # rest, changed))"

definition applyExistingTreeNodeRefresh :: "'p TreeNodeData list \<Rightarrow> string \<Rightarrow> 'p TreeNodeRefreshResult \<Rightarrow> 'p TreeNodeData list" where
  "applyExistingTreeNodeRefresh treeData key result =
     (let (nextTreeData, changed) = refresh_nodes key result treeData in if changed then nextTreeData else treeData)"

section \<open>Data sources\<close>

fun collectDataSourceNodes :: "'p TreeNodeData list \<Rightarrow> 'p TreeNodeData list" where
  "collectDataSourceNodes [] = []"
| "collectDataSourceNodes (Node f ch # ns) =
     (if nd_treeNodeType f = ''dataSource'' then [Node f ch] else []) @ collectDataSourceNodes (or_empty ch) @ collectDataSourceNodes ns"

definition pruneDataSourceRuntimeAvailability ::
  "'p TreeNodeData list \<Rightarrow> DataSourceRuntimeAvailabilityById \<Rightarrow> DataSourceRuntimeAvailabilityById" where
  "pruneDataSourceRuntimeAvailability dataSourceList availability =
     filter (\<lambda>(dataSourceId, _). Some dataSourceId \<in> (\<lambda>n. nd_dataSourceId (fields_of n)) ` set dataSourceList) availability"

definition shouldReuseTreeNodeChildren :: "'a list option \<Rightarrow> bool \<Rightarrow> bool \<Rightarrow> DataSourceRuntimeAvailability option \<Rightarrow> bool" where
  "shouldReuseTreeNodeChildren children refresh isDataSourceRoot runtimeAvailability =
     (if refresh \<or> children = None then False
      else if \<not> isDataSourceRoot then True
      else runtimeAvailability = Some Available)"

text \<open>A field that is in the patch is \<open>Some\<close>, with the value \<open>None\<close> for null or undefined.\<close>

record 'p DataSourceIdentityColorPatch =
  pt_id :: int
  pt_identityColor :: "string option option"
  pt_environmentId :: "int option option"
  pt_environment :: "'p option option"

definition patch_fields :: "'p DataSourceIdentityColorPatch \<Rightarrow> 'p node_fields \<Rightarrow> 'p node_fields" where
  "patch_fields patch f =
     f\<lparr>nd_identityColor := the_default (nd_identityColor f) (pt_identityColor patch),
       nd_environmentId := the_default (nd_environmentId f) (pt_environmentId patch),
       nd_environment := the_default (nd_environment f) (pt_environment patch)\<rparr>"

fun patch_nodes :: "'p DataSourceIdentityColorPatch \<Rightarrow> 'p TreeNodeData list \<Rightarrow> 'p TreeNodeData list \<times> bool" where
  "patch_nodes patch [] = ([], False)"
| "patch_nodes patch (Node f ch # ns) =
     (let matchesDataSource = (nd_dataSourceId f = Some (pt_id patch));
          (nextChildren, childrenChanged) =
            (case ch of Some cs \<Rightarrow> (let (cs', c) = patch_nodes patch cs in (Some (if c then cs' else cs), c)) | None \<Rightarrow> (None, False));
          (rest, changed) = patch_nodes patch ns
      in if \<not> matchesDataSource \<and> \<not> childrenChanged then (Node f ch # rest, changed)
         else (Node (if matchesDataSource then patch_fields patch f else f) nextChildren # rest, True))"

definition patchDataSourceIdentityTree :: "'p TreeNodeData list option \<Rightarrow> 'p DataSourceIdentityColorPatch \<Rightarrow> 'p TreeNodeData list option" where
  "patchDataSourceIdentityTree treeData patch =
     (case treeData of
        None \<Rightarrow> None
      | Some ns \<Rightarrow> let (nextTreeData, changed) = patch_nodes patch ns in Some (if changed then nextTreeData else ns))"

section \<open>Views of a tree\<close>

text \<open>All nodes in the order a search visits them, and all nodes with the keys on the way to them, their own first.\<close>

fun preorder :: "'p TreeNodeData list \<Rightarrow> 'p TreeNodeData list" where
  "preorder [] = []"
| "preorder (Node f ch # ns) = Node f ch # preorder (or_empty ch) @ preorder ns"

fun paths :: "string list \<Rightarrow> 'p TreeNodeData list \<Rightarrow> (string list \<times> 'p node_fields) list" where
  "paths up [] = []"
| "paths up (Node f ch # ns) = (nd_key f # up, f) # paths (nd_key f # up) (or_empty ch) @ paths up ns"

definition keys :: "'p TreeNodeData list \<Rightarrow> string list" where
  "keys ns = map key_of (preorder ns)"

lemma keys_simps [simp]:
  "keys [] = []" "keys (Node f ch # ns) = nd_key f # keys (or_empty ch) @ keys ns"
  by (simp_all add: keys_def)

lemma find_append: "List.find P (xs @ ys) = (case List.find P xs of Some x \<Rightarrow> Some x | None \<Rightarrow> List.find P ys)"
  by (induction xs) auto

lemma findTreeNode_preorder: "findTreeNode key ns = List.find (\<lambda>n. key_of n = key) (preorder ns)"
  by (induction key ns rule: findTreeNode.induct) (auto simp: find_append split: option.splits)

lemma collectDataSourceNodes_preorder:
  "collectDataSourceNodes ns = filter (\<lambda>n. nd_treeNodeType (fields_of n) = ''dataSource'') (preorder ns)"
  by (induction ns rule: collectDataSourceNodes.induct) auto

lemma findTreeNode_None: "findTreeNode key ns = None \<longleftrightarrow> key \<notin> set (keys ns)"
  by (auto simp: findTreeNode_preorder keys_def find_None_iff)

lemma findTreeNode_Some: "findTreeNode key ns = Some n \<Longrightarrow> n \<in> set (preorder ns) \<and> key_of n = key"
  by (auto simp: findTreeNode_preorder find_Some_iff)

section \<open>Removing and refreshing\<close>

lemma remove_nodes_changed: "snd (remove_nodes key ns) \<longleftrightarrow> key \<in> set (keys ns)"
  by (induction ns rule: preorder.induct) (auto split: prod.splits option.splits)

lemma remove_nodes_unchanged: "\<not> snd (remove_nodes key ns) \<Longrightarrow> fst (remove_nodes key ns) = ns"
  by (induction ns rule: preorder.induct) (auto split: prod.splits option.splits if_splits)

lemma node_paths_below: "(p, f) \<in> set (paths up ns) \<Longrightarrow> set up \<subseteq> set p"
  by (induction up ns rule: paths.induct) auto

lemma filter_paths_above: "key \<in> set up \<Longrightarrow> filter (\<lambda>(p, f). key \<notin> set p) (paths up ns) = []"
  using node_paths_below by (fastforce simp: filter_empty_conv)

lemma remove_nodes_paths:
  "key \<notin> set up \<Longrightarrow> paths up (fst (remove_nodes key ns)) = filter (\<lambda>(p, f). key \<notin> set p) (paths up ns)"
proof (induction ns arbitrary: up rule: preorder.induct)
  case (2 f ch ns)
  show ?case
  proof (cases "nd_key f = key")
    case True
    then show ?thesis
      using 2 by (auto simp: filter_paths_above split: prod.splits)
  next
    case False
    then show ?thesis
      using 2 remove_nodes_unchanged[of key "or_empty ch"] by (cases ch) (auto split: prod.splits)
  qed
qed simp

text \<open>
  Removing a key removes exactly the nodes with this key and those below them: the other nodes stay, with their fields, in
  their places and in their order.
\<close>

theorem remove_exactly_below:
  "paths [] (removeTreeNodeByKey treeData key) = filter (\<lambda>(p, f). key \<notin> set p) (paths [] treeData)"
  using remove_nodes_paths[of key "[]" treeData] remove_nodes_unchanged[of key treeData]
  by (auto simp: removeTreeNodeByKey_def split: prod.splits)

lemma refresh_nodes_changed: "snd (refresh_nodes key result ns) \<longleftrightarrow> key \<in> set (keys ns)"
  by (induction ns rule: preorder.induct) (auto split: prod.splits option.splits)

lemma refresh_nodes_unchanged: "\<not> snd (refresh_nodes key result ns) \<Longrightarrow> fst (refresh_nodes key result ns) = ns"
  by (induction ns rule: preorder.induct) (auto split: prod.splits option.splits if_splits)

lemma apply_refresh_nodes: "applyExistingTreeNodeRefresh ns key result = fst (refresh_nodes key result ns)"
  using refresh_nodes_unchanged[of key result ns] by (auto simp: applyExistingTreeNodeRefresh_def split: prod.splits)

lemma refresh_nodes_paths:
  "key \<notin> set up \<Longrightarrow>
    filter (\<lambda>(p, f). key \<notin> set p) (paths up (fst (refresh_nodes key result ns))) = filter (\<lambda>(p, f). key \<notin> set p) (paths up ns)"
proof (induction ns arbitrary: up rule: preorder.induct)
  case (2 f ch ns)
  show ?case
  proof (cases "nd_key f = key")
    case True
    then show ?thesis
      using 2 by (auto simp: filter_paths_above split: prod.splits)
  next
    case False
    then show ?thesis
      using 2 refresh_nodes_unchanged[of key result "or_empty ch"] by (cases ch) (auto split: prod.splits)
  qed
qed simp

definition refreshed :: "'p TreeNodeRefreshResult \<Rightarrow> 'p TreeNodeData \<Rightarrow> 'p TreeNodeData" where
  "refreshed result n =
     Node ((fields_of n)\<lparr>nd_isLeaf := Some False,
         nd_childCount := (case rr_total result of None \<Rightarrow> nd_childCount (fields_of n) | Some t \<Rightarrow> Some t)\<rparr>)
       (Some (rr_children result))"

lemma refresh_nodes_find:
  "findTreeNode key (fst (refresh_nodes key result ns)) = map_option (refreshed result) (findTreeNode key ns)"
proof (induction ns rule: preorder.induct)
  case (2 f ch ns)
  then show ?case
    using refresh_nodes_unchanged[of key result "or_empty ch"]
    by (cases ch) (auto simp: refreshed_def split: prod.splits option.splits)
qed simp

text \<open>
  A refresh in the background touches only the node it is for: that node gets the loaded children and their number, everything that
  is neither the node nor below it stays as it is, and if the node is gone the tree is unchanged.
\<close>

theorem refresh_is_local:
  "findTreeNode key (applyExistingTreeNodeRefresh treeData key result) = map_option (refreshed result) (findTreeNode key treeData)
   \<and> filter (\<lambda>(p, f). key \<notin> set p) (paths [] (applyExistingTreeNodeRefresh treeData key result))
     = filter (\<lambda>(p, f). key \<notin> set p) (paths [] treeData)
   \<and> (findTreeNode key treeData = None \<longleftrightarrow> applyExistingTreeNodeRefresh treeData key result = treeData \<and> key \<notin> set (keys treeData))"
  using refresh_nodes_find[of key result treeData] refresh_nodes_paths[of key "[]" result treeData]
    refresh_nodes_unchanged[of key result treeData] refresh_nodes_changed[of key result treeData]
  by (auto simp: apply_refresh_nodes findTreeNode_None)

section \<open>Merging a reload\<close>

lemma index_nodes_lookup:
  "map_of (index_nodes ns m) k = map_of (rev (map (\<lambda>n. (key_of n, n)) (preorder ns)) @ m) k"
proof (induction ns arbitrary: m rule: preorder.induct)
  case (2 f ch ns)
  have "map_of (AList.update (nd_key f) (Node f ch) m) k = (if k = nd_key f then Some (Node f ch) else map_of m k)"
    by (simp add: update_conv')
  then show ?case
    by (simp add: 2 map_add_def split: option.splits)
qed simp

text \<open>With distinct keys the index finds what a search finds.\<close>

lemma index_nodes_find:
  assumes "distinct (keys ns)"
  shows "map_of (index_nodes ns []) k = findTreeNode k ns"
proof -
  let ?kv = "map (\<lambda>n. (key_of n, n)) (preorder ns)"
  have "map_of (rev ?kv) = map_of ?kv"
    using assms by (subst map_of_inject_set) (simp_all add: keys_def comp_def rev_map[symmetric])
  moreover have "map_of (map (\<lambda>n. (key_of n, n)) xs) k = List.find (\<lambda>n. key_of n = k) xs" for xs :: "'a TreeNodeData list"
    by (induction xs) auto
  ultimately show ?thesis
    by (simp add: index_nodes_lookup findTreeNode_preorder)
qed

lemma merge_nodes_loaded:
  "Node f None \<in> set (preorder fresh) \<Longrightarrow> map_of m (nd_key f) = Some current \<Longrightarrow>
    Node f (children_of current) \<in> set (preorder (merge_nodes m fresh))"
proof (induction fresh rule: preorder.induct)
  case (2 g ch ns)
  then show ?case
    by (cases ch) (auto split: option.splits)
qed simp

lemma merge_nodes_paths: "set (paths up fresh) \<subseteq> set (paths up (merge_nodes m fresh))"
proof (induction fresh arbitrary: up rule: preorder.induct)
  case (2 f ch ns)
  then show ?case
    by (cases ch; cases "map_of m (nd_key f)") auto
qed simp

lemma merge_nodes_top: "map fields_of (merge_nodes m fresh) = map fields_of fresh"
  by (induction m fresh rule: merge_nodes.induct) (auto split: option.splits)

text \<open>
  A reload that is not authoritative keeps what was loaded before. If the keys of the current tree are distinct, every node
  of the reload is in the merged tree, in its place and with its new fields; and one that comes without children has the
  children that were loaded for its key.
\<close>

theorem reload_keeps_loaded_children:
  assumes "distinct (keys current)" and "Node f None \<in> set (preorder fresh)" and "findTreeNode (nd_key f) current = Some n"
  shows "Node f (children_of n) \<in> set (preorder (resolveLoadedTreeData fresh (Some current) False))
    \<and> set (paths [] fresh) \<subseteq> set (paths [] (resolveLoadedTreeData fresh (Some current) False))
    \<and> map fields_of (resolveLoadedTreeData fresh (Some current) False) = map fields_of fresh"
  using assms merge_nodes_loaded[OF assms(2), of "index_nodes current []" n] merge_nodes_paths[of "[]" fresh] merge_nodes_top
  by (cases current) (simp_all add: resolveLoadedTreeData_def mergeLoadedTreeData_def index_nodes_find)

definition sample_node :: "string \<Rightarrow> nat TreeNodeData list option \<Rightarrow> nat TreeNodeData" where
  "sample_node k ch = Node \<lparr>nd_key = k, nd_treeNodeType = ''dataSource'', nd_dataSourceId = None, nd_identityColor = None, nd_environmentId = None,
     nd_environment = None, nd_isLeaf = None, nd_childCount = None, nd_payload = 0\<rparr> ch"

theorem reload_keeps_loaded_children_witness:
  "sample_node ''a'' (Some [sample_node ''b'' None])
     \<in> set (preorder (resolveLoadedTreeData [sample_node ''a'' None, sample_node ''c'' None]
           (Some [sample_node ''a'' (Some [sample_node ''b'' None])]) False))"
proof -
  let ?cur = "[sample_node ''a'' (Some [sample_node ''b'' None])]" and ?fresh = "[sample_node ''a'' None, sample_node ''c'' None]"
  let ?f = "fields_of (sample_node ''a'' None)"
  have facts: "distinct (keys ?cur)" "Node ?f None \<in> set (preorder ?fresh)"
    "findTreeNode (nd_key ?f) ?cur = Some (sample_node ''a'' (Some [sample_node ''b'' None]))"
    by (simp_all add: sample_node_def)
  show ?thesis
    using reload_keeps_loaded_children[OF facts, THEN conjunct1] by (simp add: sample_node_def)
qed

section \<open>State that refers to the tree\<close>

text \<open>
  After a refresh the state of the view refers to nothing that is gone: the selection keeps, in order, the keys that are still in
  the tree, the current node is a node of the new tree, only nodes with children are expanded, the view scrolls only to a
  node that is there, and reconciling again changes nothing.
\<close>

theorem view_refers_to_tree:
  "let st = reconcileTreeStateAfterRefresh treeData selected current expanded scroll
   in ts_selectedKeys st = filter (\<lambda>k. k \<in> set (keys treeData)) selected
      \<and> set_option (ts_currentTreeNode st) \<subseteq> set (preorder treeData)
      \<and> set (ts_expandedKeys st) \<subseteq> key_of ` {n \<in> set (preorder treeData). children_of n \<noteq> None}
      \<and> set_option (ts_scrollTargetKey st) \<subseteq> set (keys treeData)
      \<and> reconcileTreeStateAfterRefresh treeData (ts_selectedKeys st) (ts_currentTreeNode st) (ts_expandedKeys st) (ts_scrollTargetKey st) = st"
proof -
  have kept: "length (filter P ks) = length ks \<Longrightarrow> filter P ks = ks" for P and ks :: "string list"
    by (metis length_filter_less filter_True less_irrefl)
  have selected: "reconcileTreeInteractionAfterRefresh treeData ks cur =
      (filter (\<lambda>k. k \<in> set (keys treeData)) ks, Option.bind cur (\<lambda>n. findTreeNode (key_of n) treeData))" for ks cur
    using kept[of "\<lambda>k. k \<in> set (keys treeData)" ks]
    by (cases cur) (auto simp: reconcileTreeInteractionAfterRefresh_def Let_def findTreeNode_None)
  have again: "findTreeNode (key_of m) treeData = Some m" if "findTreeNode k treeData = Some m" for k m
    using that findTreeNode_Some[OF that] by simp
  let ?cur = "Option.bind current (\<lambda>n. findTreeNode (key_of n) treeData)"
  let ?open = "\<lambda>k. case findTreeNode k treeData of Some n \<Rightarrow> children_of n \<noteq> None | None \<Rightarrow> False"
  have cur: "set_option ?cur \<subseteq> set (preorder treeData)" "Option.bind ?cur (\<lambda>n. findTreeNode (key_of n) treeData) = ?cur"
    by (auto simp: bind_eq_Some_conv dest: findTreeNode_Some)
      (cases current; auto dest: again split: Option.bind_splits)
  have expanded: "set (filter ?open expanded) \<subseteq> key_of ` {n \<in> set (preorder treeData). children_of n \<noteq> None}"
    using findTreeNode_Some by (fastforce split: option.splits)
  show ?thesis
    using cur expanded
    by (simp add: Let_def reconcileTreeStateAfterRefresh_def selected findTreeNode_None) (cases scroll; simp)
qed

section \<open>Data sources in the tree\<close>

fun map_nodes :: "('p node_fields \<Rightarrow> 'p node_fields) \<Rightarrow> 'p TreeNodeData list \<Rightarrow> 'p TreeNodeData list" where
  "map_nodes g [] = []"
| "map_nodes g (Node f ch # ns) =
     Node (g f) (case ch of None \<Rightarrow> None | Some cs \<Rightarrow> Some (map_nodes g cs)) # map_nodes g ns"

definition patched :: "'p DataSourceIdentityColorPatch \<Rightarrow> 'p node_fields \<Rightarrow> 'p node_fields" where
  "patched patch f = (if nd_dataSourceId f = Some (pt_id patch) then patch_fields patch f else f)"

lemma patch_nodes_map:
  "fst (patch_nodes patch ns) = map_nodes (patched patch) ns \<and> (\<not> snd (patch_nodes patch ns) \<longrightarrow> map_nodes (patched patch) ns = ns)"
proof (induction ns rule: preorder.induct)
  case (2 f ch ns)
  then show ?case
    by (cases ch) (auto simp: patched_def Let_def split: prod.splits if_splits)
qed simp

text \<open>
  The update that reuses unchanged parts of the tree is the plain one: every node of the data source gets the fields of the patch,
  no other node and no children change.
\<close>

theorem identity_patch_reference:
  "patchDataSourceIdentityTree (Some treeData) patch = Some (map_nodes (patched patch) treeData)"
  using patch_nodes_map[of patch treeData] by (auto simp: patchDataSourceIdentityTree_def split: prod.splits)

text \<open>Availability is kept for exactly the data sources in the tree.\<close>

lemma prune_lookup:
  "map_of (pruneDataSourceRuntimeAvailability (collectDataSourceNodes treeData) av) d =
     (if \<exists>n \<in> set (preorder treeData). nd_treeNodeType (fields_of n) = ''dataSource'' \<and> nd_dataSourceId (fields_of n) = Some d
      then map_of av d else None)"
  by (induction av)
    (auto simp: pruneDataSourceRuntimeAvailability_def collectDataSourceNodes_preorder image_iff split: prod.splits) 

end
