(* ===== verification/Value_Defaults.thy ===== *)
theory Value_Defaults
  imports Insert_Hints Js_Sort
begin

text \<open>
  Default values of \<open>INSERT\<close> statements, \<open>components/SQLEditor/helper/sqlInsertValueDefaults.ts\<close>: what is filled in after
  \<open>VALUES (\<close>, where the values are in the text, and where hints are after the text was edited.

  Offsets are counted from 0, lines and columns from 1. Numbers of ranges and the col index of an item are numbers here, as
  their type says.
\<close>

section \<open>Characters\<close>

definition as_number :: "jsval \<Rightarrow> int" where
  "as_number v = the_default 0 (to_number v)"

definition substring :: "string \<Rightarrow> nat \<Rightarrow> nat \<Rightarrow> string" where
  "substring s i j = take (j - i) (drop i s)"

definition next_char :: "string \<Rightarrow> char option" where
  "next_char s = (case s of [] \<Rightarrow> None | c # _ \<Rightarrow> Some c)"

definition clamp_offset :: "int \<Rightarrow> string \<Rightarrow> nat" where
  "clamp_offset offset s = nat (max 0 (min offset (int (length s))))"

text \<open>\<open>[A-Za-z_][A-Za-z0-9_]*\<close> and \<open>$tag$\<close> at the beginning of a text.\<close>

definition is_name_start :: "char \<Rightarrow> bool" where
  "is_name_start c \<longleftrightarrow> is_word_char c \<and> \<not> is_digit c"

definition dollar_delimiter :: "string \<Rightarrow> string option" where
  "dollar_delimiter s =
     (case s of
        c # rest \<Rightarrow>
          if c = CHR ''$'' then
            let tag = takeWhile is_word_char rest
            in if next_char (drop (length tag) rest) = Some (CHR ''$'') \<and> (tag = [] \<or> is_name_start (hd tag))
               then Some (CHR ''$'' # tag @ ''$'') else None
          else None
      | [] \<Rightarrow> None)"

definition dollarQuoteDelimiterAt :: "char option \<Rightarrow> string \<Rightarrow> string option" where
  "dollarQuoteDelimiterAt previous rest =
     (if (case previous of Some p \<Rightarrow> is_word_char p \<or> p = CHR ''$'' | None \<Rightarrow> False) then None else dollar_delimiter rest)"

section \<open>Which characters are code\<close>

datatype mask_mode = CodeMode | LineMode | BlockMode | DollarMode string | QuoteMode char

lemma dollar_delimiter_length: "dollar_delimiter s = Some d \<Longrightarrow> 0 < length d \<and> length d \<le> length s"
proof -
  assume a: "dollar_delimiter s = Some d"
  then obtain rest tag where s: "s = CHR ''$'' # rest" "tag = takeWhile is_word_char rest" "d = CHR ''$'' # tag @ ''$''"
      "next_char (drop (length tag) rest) = Some (CHR ''$'')"
    by (auto simp: dollar_delimiter_def Let_def split: list.splits if_splits)
  have "length tag < length rest"
    using s(4) by (cases "length tag < length rest") (simp_all add: next_char_def)
  then show ?thesis
    using s by simp
qed

lemma delimiter_length: "dollarQuoteDelimiterAt p s = Some d \<Longrightarrow> 0 < length d \<and> length d \<le> length s"
  by (auto simp: dollarQuoteDelimiterAt_def dest: dollar_delimiter_length split: if_splits)

lemma drop_shorter: "0 < n \<Longrightarrow> length (drop n (c # cs)) < Suc (length cs)"
  by simp

text \<open>
  The loop of \<open>sqlCodeMask\<close> from one position on: the mode, the character before the position, the rest of the text. The flags
  of the source are one mode, because at most one of them is set.
\<close>

function code_mask :: "mask_mode \<Rightarrow> char option \<Rightarrow> string \<Rightarrow> bool list" where
  "code_mask mode previous [] = []"
| "code_mask LineMode previous (c # cs) = False # code_mask (if c = LF then CodeMode else LineMode) (Some c) cs"
| "code_mask BlockMode previous (c # cs) =
     (if c = CHR ''*'' \<and> next_char cs = Some (CHR ''/'')
      then False # False # code_mask CodeMode (Some (CHR ''/'')) (tl cs)
      else False # code_mask BlockMode (Some c) cs)"
| "code_mask (DollarMode d) previous (c # cs) =
     (if d \<noteq> [] \<and> startsWith (c # cs) d
      then replicate (length d) False @ code_mask CodeMode (Some (CHR ''$'')) (drop (length d) (c # cs))
      else False # code_mask (DollarMode d) (Some c) cs)"
| "code_mask (QuoteMode q) previous (c # cs) =
     (if (q = SQUOTE \<and> c = BACKSLASH \<and> cs \<noteq> []) \<or> (c = q \<and> next_char cs = Some q)
      then False # False # code_mask (QuoteMode q) (next_char cs) (tl cs)
      else False # code_mask (if c = q then CodeMode else QuoteMode q) (Some c) cs)"
| "code_mask CodeMode previous (c # cs) =
     (case dollarQuoteDelimiterAt previous (c # cs) of
        Some d \<Rightarrow> replicate (length d) False @ code_mask (DollarMode d) (Some (CHR ''$'')) (drop (length d) (c # cs))
      | None \<Rightarrow>
          if c = CHR ''-'' \<and> next_char cs = Some (CHR ''-'') then False # False # code_mask LineMode (next_char cs) (tl cs)
          else if c = CHR ''/'' \<and> next_char cs = Some (CHR ''*'') then False # False # code_mask BlockMode (next_char cs) (tl cs)
          else if c = CHR ''#'' \<and> (case previous of None \<Rightarrow> True | Some p \<Rightarrow> is_space p) then False # code_mask LineMode (Some c) cs
          else if c = SQUOTE \<or> c = DQUOTE \<or> c = BACKTICK then False # code_mask (QuoteMode c) (Some c) cs
          else if c = CHR ''['' then False # code_mask (QuoteMode (CHR '']'')) (Some c) cs
          else True # code_mask CodeMode (Some c) cs)"
  by pat_completeness auto
termination
  by (relation "measure (\<lambda>(mode, p, s). length s)")
    (auto dest: delimiter_length simp: drop_shorter length_tl simp del: length_drop)

definition sqlCodeMask :: "string \<Rightarrow> bool list" where
  "sqlCodeMask sql = code_mask CodeMode None sql"

section \<open>Rows of values\<close>

record OffsetRange =
  of_start :: nat
  of_end :: nat

function trim_left_offset :: "string \<Rightarrow> nat \<Rightarrow> nat \<Rightarrow> nat" where
  "trim_left_offset sql i j = (if i < j \<and> is_space (sql ! i) then trim_left_offset sql (Suc i) j else i)"
  by pat_completeness auto
termination by (relation "measure (\<lambda>(sql, i, j). j - i)") auto

declare trim_left_offset.simps [simp del]

fun trim_right_offset :: "string \<Rightarrow> nat \<Rightarrow> nat \<Rightarrow> nat" where
  "trim_right_offset sql i 0 = 0"
| "trim_right_offset sql i (Suc j) = (if i < Suc j \<and> is_space (sql ! j) then trim_right_offset sql i j else Suc j)"

definition trimOffsetRange :: "string \<Rightarrow> nat \<Rightarrow> nat \<Rightarrow> OffsetRange" where
  "trimOffsetRange sql i j =
     (let trimmedStart = trim_left_offset sql i j
      in \<lparr>of_start = trimmedStart, of_end = trim_right_offset sql trimmedStart j\<rparr>)"

function scan_values :: "string \<Rightarrow> bool list \<Rightarrow> nat \<Rightarrow> nat \<Rightarrow> nat \<Rightarrow> OffsetRange list" where
  "scan_values sql codeMask valueStart depth index =
     (if length sql \<le> index then [trimOffsetRange sql valueStart (length sql)]
      else if \<not> codeMask ! index then scan_values sql codeMask valueStart depth (Suc index)
      else
        let current = sql ! index
        in if current = CHR ''('' \<or> current = CHR ''['' then scan_values sql codeMask valueStart (Suc depth) (Suc index)
           else if (current = CHR '')'' \<or> current = CHR '']'') \<and> 0 < depth then scan_values sql codeMask valueStart (depth - 1) (Suc index)
           else if current = CHR '','' \<and> depth = 0
           then trimOffsetRange sql valueStart index # scan_values sql codeMask (Suc index) depth (Suc index)
           else if current = CHR '')'' \<and> depth = 0 then [trimOffsetRange sql valueStart index]
           else scan_values sql codeMask valueStart depth (Suc index))"
  by pat_completeness auto
termination by (relation "measure (\<lambda>(sql, codeMask, valueStart, depth, index). length sql - index)") auto

declare scan_values.simps [simp del]

definition scanValuesRow :: "string \<Rightarrow> nat \<Rightarrow> bool list \<Rightarrow> OffsetRange list" where
  "scanValuesRow sql rowStart codeMask = scan_values sql codeMask rowStart 0 rowStart"

text \<open>\<open>values?\s*\(\<close>, without regard to case, at the beginning of a text: the length of the match.\<close>

definition match_values :: "string \<Rightarrow> nat option" where
  "match_values s =
     (if toLowerCase (take 5 s) \<noteq> ''value'' then None
      else
        let word = (if map_option lower_char (next_char (drop 5 s)) = Some (CHR ''s'') then 6 else 5);
            blanks = length (takeWhile is_space (drop word s))
        in if next_char (drop (word + blanks) s) = Some (CHR ''('') then Some (word + blanks + 1) else None)"

definition at_boundary :: "char option \<Rightarrow> bool" where
  "at_boundary previous = (case previous of None \<Rightarrow> True | Some p \<Rightarrow> \<not> is_word_char p)"

text \<open>All matches from left to right, each with its index and the index behind it.\<close>

function values_matches :: "nat \<Rightarrow> char option \<Rightarrow> string \<Rightarrow> (nat \<times> nat) list" where
  "values_matches index previous [] = []"
| "values_matches index previous (c # cs) =
     (case (if at_boundary previous then match_values (c # cs) else None) of
        Some n \<Rightarrow> (index, index + max 1 n) # values_matches (index + max 1 n) (Some (CHR ''('')) (drop (max 1 n) (c # cs))
      | None \<Rightarrow> values_matches (Suc index) (Some c) cs)"
  by pat_completeness auto
termination by (relation "measure (\<lambda>(index, previous, s). length s)") auto

definition findValuesRows :: "string \<Rightarrow> OffsetRange list list" where
  "findValuesRows sql =
     (let codeMask = sqlCodeMask sql
      in List.map_filter (\<lambda>(index, lastIndex).
           if codeMask ! index \<and> codeMask ! (lastIndex - 1)
           then (let ranges = scanValuesRow sql lastIndex codeMask in if ranges \<noteq> [] then Some ranges else None)
           else None) (values_matches 0 None sql))"

fun nearest_from :: "OffsetRange list list \<Rightarrow> int \<Rightarrow> nat \<Rightarrow> nat \<Rightarrow> OffsetRange list list \<Rightarrow> nat" where
  "nearest_from rows preferredOffset closest i [] = closest"
| "nearest_from rows preferredOffset closest i (candidate # rest) =
     nearest_from rows preferredOffset
       (if \<bar>int (of_start (hd candidate)) - preferredOffset\<bar> < \<bar>int (of_start (hd (rows ! closest))) - preferredOffset\<bar> then i else closest)
       (Suc i) rest"

text \<open>The index of the nearest row, or none for \<open>-1\<close>.\<close>

definition nearestRowIndex :: "OffsetRange list list \<Rightarrow> int \<Rightarrow> nat option" where
  "nearestRowIndex rows preferredOffset =
     (if rows = [] then None else Some (nearest_from rows preferredOffset 0 0 rows))"

section \<open>Comparing values\<close>

datatype normal_mode = PlainMode | SingleMode | DoubleMode | DollarQuoted string

function normalize_from :: "normal_mode \<Rightarrow> char option \<Rightarrow> string \<Rightarrow> string" where
  "normalize_from mode previous [] = []"
| "normalize_from (DollarQuoted d) previous (c # cs) =
     (if d \<noteq> [] \<and> startsWith (c # cs) d then d @ normalize_from PlainMode (Some (CHR ''$'')) (drop (length d) (c # cs))
      else c # normalize_from (DollarQuoted d) (Some c) cs)"
| "normalize_from SingleMode previous (c # cs) =
     (if c = BACKSLASH \<and> cs \<noteq> [] then c # hd cs # normalize_from SingleMode (next_char cs) (tl cs)
      else if c = SQUOTE then
        (if next_char cs = Some SQUOTE then c # hd cs # normalize_from SingleMode (next_char cs) (tl cs)
         else c # normalize_from PlainMode (Some c) cs)
      else c # normalize_from SingleMode (Some c) cs)"
| "normalize_from DoubleMode previous (c # cs) =
     (if c = DQUOTE then
        (if next_char cs = Some DQUOTE then c # hd cs # normalize_from DoubleMode (next_char cs) (tl cs)
         else c # normalize_from PlainMode (Some c) cs)
      else c # normalize_from DoubleMode (Some c) cs)"
| "normalize_from PlainMode previous (c # cs) =
     (case dollarQuoteDelimiterAt previous (c # cs) of
        Some d \<Rightarrow> d @ normalize_from (DollarQuoted d) (Some (CHR ''$'')) (drop (length d) (c # cs))
      | None \<Rightarrow>
          if c = SQUOTE then c # normalize_from SingleMode (Some c) cs
          else if c = DQUOTE then c # normalize_from DoubleMode (Some c) cs
          else if is_space c then normalize_from PlainMode (Some c) cs
          else lower_char c # normalize_from PlainMode (Some c) cs)"
  by pat_completeness auto
termination
  by (relation "measure (\<lambda>(mode, p, s). length s)")
    (auto dest: delimiter_length simp: drop_shorter length_tl simp del: length_drop)

definition normalizeSqlValue :: "string \<Rightarrow> string" where
  "normalizeSqlValue v = normalize_from PlainMode None v"

definition findValuesRow :: "string \<Rightarrow> string list \<Rightarrow> int option \<Rightarrow> OffsetRange list option" where
  "findValuesRow sql expectedValues preferredOffset =
     (let rows = findValuesRows sql;
          matchingRows = filter (\<lambda>ranges. length ranges = length expectedValues \<and>
            list_all2 (\<lambda>r v. normalizeSqlValue (substring sql (of_start r) (of_end r)) = normalizeSqlValue v) ranges expectedValues) rows;
          candidates = (if preferredOffset = None \<and> matchingRows \<noteq> [] then matchingRows else rows)
      in if candidates = [] then None
         else case preferredOffset of
                None \<Rightarrow> Some (hd candidates)
              | Some p \<Rightarrow> map_option (\<lambda>i. candidates ! i) (nearestRowIndex candidates p))"

section \<open>Offsets and positions\<close>

fun position_from :: "int \<Rightarrow> int \<Rightarrow> nat \<Rightarrow> string \<Rightarrow> int \<times> int" where
  "position_from line col 0 s = (line, col)"
| "position_from line col (Suc n) [] = (line, col)"
| "position_from line col (Suc n) (c # cs) =
     (if c = LF then position_from (line + 1) 1 n cs else position_from line (col + 1) n cs)"

definition positionAtOffset :: "string \<Rightarrow> int \<Rightarrow> int \<times> int" where
  "positionAtOffset sql offset = position_from 1 1 (clamp_offset offset sql) sql"

fun line_offset :: "int \<Rightarrow> int \<Rightarrow> string \<Rightarrow> nat" where
  "line_offset currentLine targetLine [] = 0"
| "line_offset currentLine targetLine (c # cs) =
     (if currentLine < targetLine then Suc (line_offset (if c = LF then currentLine + 1 else currentLine) targetLine cs) else 0)"

definition offsetAtPosition :: "string \<Rightarrow> int \<Rightarrow> int \<Rightarrow> int" where
  "offsetAtPosition sql lineNo col =
     min (int (length sql)) (int (line_offset 1 (max 1 lineNo) sql) + max 1 col - 1)"

definition rangeAtOffsets :: "string \<Rightarrow> int \<Rightarrow> int \<Rightarrow> ISqlEditorHintRangeVO" where
  "rangeAtOffsets sql startOffset endOffset =
     (let start = positionAtOffset sql startOffset; stop = positionAtOffset sql endOffset
      in \<lparr>vo_startLineNumber = Num (fst start), vo_startColumn = Num (snd start),
          vo_endLineNumber = Num (fst stop), vo_endColumn = Num (snd stop)\<rparr>)"

definition isEmptyRange :: "ISqlEditorHintRangeVO option \<Rightarrow> bool" where
  "isEmptyRange rng =
     (case rng of
        None \<Rightarrow> False
      | Some r \<Rightarrow> strict_eq (vo_startLineNumber r) (vo_endLineNumber r) \<and> strict_eq (vo_startColumn r) (vo_endColumn r))"

section \<open>Filling in and following the values\<close>

record InsertValueAutoFill =
  af_text :: string
  af_firstValueLength :: nat
  af_valuesTextLength :: nat

text \<open>\<open>\bvalues?\s*\(\s*$\<close> on a text: the index of the match and of the parenthesis.\<close>

definition match_at_end :: "string \<Rightarrow> (nat \<times> nat) option" where
  "match_at_end s =
     (let body = trim_end s
      in case List.find (\<lambda>(index, lastIndex). lastIndex = length body) (values_matches 0 None body) of
           Some (index, lastIndex) \<Rightarrow> Some (index, lastIndex - 1)
         | None \<Rightarrow> None)"

definition compareItems :: "ISqlEditorHintItemVO \<Rightarrow> ISqlEditorHintItemVO \<Rightarrow> int" where
  "compareItems left right = as_number (vo_columnIndex left) - as_number (vo_columnIndex right)"

definition ordered_items :: "ISqlEditorHintVO option \<Rightarrow> ISqlEditorHintItemVO list" where
  "ordered_items hint = js_sort compareItems (or_empty (Option.bind hint vo_items))"

definition has_default :: "ISqlEditorHintItemVO \<Rightarrow> bool" where
  "has_default item \<longleftrightarrow> truthy_str (vo_defaultValue item)"

definition is_active_insert :: "ISqlEditorHintVO \<Rightarrow> bool" where
  "is_active_insert hint \<longleftrightarrow>
     vo_type hint = ''INSERT_VALUE'' \<and> list_ex (\<lambda>item. vo_active item = Some True) (or_empty (vo_items hint))"

definition getInsertValueAutoFill :: "string \<Rightarrow> int \<Rightarrow> ISqlEditorHintVO list option \<Rightarrow> InsertValueAutoFill option" where
  "getInsertValueAutoFill sql cursor editorHints =
     (let safeCursor = clamp_offset cursor sql; codeMask = sqlCodeMask sql
      in case match_at_end (take safeCursor sql) of
           None \<Rightarrow> None
         | Some (index, openingParenthesis) \<Rightarrow>
             if \<not> codeMask ! index \<or> \<not> codeMask ! openingParenthesis then None
             else
               let hint = List.find (\<lambda>h. is_active_insert h \<and> isEmptyRange (vo_valueRange h)) (or_empty editorHints);
                   items = ordered_items hint
               in if items = [] \<or> \<not> list_all has_default items then None
                  else
                    let values = map (\<lambda>item. the (vo_defaultValue item)) items;
                        valuesText = join '', '' values;
                        hasClosingParenthesis = (next_char (trim_start (drop safeCursor sql)) = Some (CHR '')''))
                    in Some \<lparr>af_text = valuesText @ (if hasClosingParenthesis then [] else '')''),
                         af_firstValueLength = length (hd values), af_valuesTextLength = length valuesText\<rparr>)"

text \<open>Where the values are that begin at an offset and are joined by commas and blanks, and the offset behind them.\<close>

fun value_ranges :: "int \<Rightarrow> string list \<Rightarrow> (int \<times> int) list" where
  "value_ranges valueOffset [] = []"
| "value_ranges valueOffset (v # vs) =
     (valueOffset, valueOffset + int (length v)) # value_ranges (valueOffset + int (length v) + (if vs = [] then 0 else 2)) vs"

fun values_end :: "int \<Rightarrow> string list \<Rightarrow> int" where
  "values_end valueOffset [] = valueOffset"
| "values_end valueOffset (v # vs) = values_end (valueOffset + int (length v) + (if vs = [] then 0 else 2)) vs"

definition range_map :: "string \<Rightarrow> ISqlEditorHintItemVO list \<Rightarrow> (int \<times> int) list \<Rightarrow> (jsval \<times> ISqlEditorHintRangeVO) list" where
  "range_map sql items ranges =
     fold (\<lambda>(item, (i, j)) m. AList.update (vo_columnIndex item) (rangeAtOffsets sql i j) m) (zip items ranges) []"

text \<open>The hints are compared by identity: the first one that qualifies is replaced.\<close>

fun replace_first :: "('a \<Rightarrow> bool) \<Rightarrow> ('a \<Rightarrow> 'a) \<Rightarrow> 'a list \<Rightarrow> 'a list" where
  "replace_first P f [] = []"
| "replace_first P f (x # xs) = (if P x then f x # xs else x # replace_first P f xs)"

definition materializeInsertValueAutoFillHints :: "string \<Rightarrow> int \<Rightarrow> ISqlEditorHintVO list option \<Rightarrow> ISqlEditorHintVO list" where
  "materializeInsertValueAutoFillHints sql insertionOffset editorHints =
     (let hints = or_empty editorHints;
          targetHint = List.find is_active_insert hints;
          orderedItems = ordered_items targetHint
      in if targetHint = None \<or> orderedItems = [] \<or> \<not> list_all has_default orderedItems then hints
         else
           let values = map (\<lambda>item. the (vo_defaultValue item)) orderedItems;
               valueOffset = int (clamp_offset insertionOffset sql);
               rangesByColumnIndex = range_map sql orderedItems (value_ranges valueOffset values);
               items = map (\<lambda>item. item\<lparr>vo_range := or_else (map_of rangesByColumnIndex (vo_columnIndex item)) (vo_range item)\<rparr>)
                 (or_empty (vo_items (the targetHint)))
           in replace_first is_active_insert (\<lambda>hint. hint\<lparr>
                vo_rowRange := Some (rangeAtOffsets sql insertionOffset (values_end valueOffset values)),
                vo_valueRange := map_of rangesByColumnIndex (vo_columnIndex (hd orderedItems)),
                vo_items := Some items\<rparr>) hints)"

definition hintRowStartOffset :: "string \<Rightarrow> ISqlEditorHintVO \<Rightarrow> int" where
  "hintRowStartOffset sql hint =
     (case vo_rowRange hint of
        None \<Rightarrow> 2 ^ 53 - 1
      | Some r \<Rightarrow> offsetAtPosition sql (as_number (vo_startLineNumber r)) (as_number (vo_startColumn r)))"

definition row_ranges :: "string \<Rightarrow> ISqlEditorHintItemVO list \<Rightarrow> OffsetRange list \<Rightarrow> (jsval \<times> ISqlEditorHintRangeVO) list" where
  "row_ranges sql items ranges =
     fold (\<lambda>(item, r) m.
         if of_start r < of_end r
         then AList.update (vo_columnIndex item) (rangeAtOffsets sql (int (of_start r)) (int (of_end r))) m else m)
       (zip items ranges) []"

definition rematerializeInsertValueHint :: "string \<Rightarrow> ISqlEditorHintVO \<Rightarrow> OffsetRange list option \<Rightarrow> ISqlEditorHintVO list" where
  "rematerializeInsertValueHint sql targetHint assignedRanges =
     (let orderedItems = ordered_items (Some targetHint)
      in if orderedItems = [] \<or> \<not> list_all has_default orderedItems then []
         else
           let preferredOffset = map_option (\<lambda>r. offsetAtPosition sql (as_number (vo_startLineNumber r)) (as_number (vo_startColumn r)))
                 (vo_rowRange targetHint)
           in case or_else assignedRanges (findValuesRow sql (map (\<lambda>item. the (vo_defaultValue item)) orderedItems) preferredOffset) of
                None \<Rightarrow> []
              | Some matchingRanges \<Rightarrow>
                  let rangesByColumnIndex = row_ranges sql orderedItems matchingRanges
                  in [targetHint\<lparr>
                       vo_rowRange := Some (rangeAtOffsets sql (int (of_start (hd matchingRanges))) (int (of_end (last matchingRanges)))),
                       vo_valueRange := map_of rangesByColumnIndex (vo_columnIndex (hd orderedItems)),
                       vo_items := Some (map (\<lambda>item. item\<lparr>vo_range := map_of rangesByColumnIndex (vo_columnIndex item)\<rparr>)
                         (or_empty (vo_items targetHint)))\<rparr>])"

definition has_insert_items :: "ISqlEditorHintVO \<Rightarrow> bool" where
  "has_insert_items hint \<longleftrightarrow> vo_type hint = ''INSERT_VALUE'' \<and> or_empty (vo_items hint) \<noteq> []"

definition row_at :: "OffsetRange list list \<Rightarrow> nat option \<Rightarrow> OffsetRange list option" where
  "row_at rows index = (case index of Some i \<Rightarrow> if i < length rows then Some (rows ! i) else None | None \<Rightarrow> None)"

definition rematerializeInsertValueHints :: "string \<Rightarrow> ISqlEditorHintVO list option \<Rightarrow> string option \<Rightarrow> ISqlEditorHintVO list" where
  "rematerializeInsertValueHints sql editorHints previousSql =
     (let targetHints = filter has_insert_items (or_empty editorHints)
      in if \<not> truthy_str previousSql \<or> previousSql = Some sql
         then concat (map (\<lambda>hint. rematerializeInsertValueHint sql hint None) targetHints)
         else
           let previous = the previousSql; previousRows = findValuesRows previous; currentRows = findValuesRows sql
           in concat (map (\<lambda>hint.
                rematerializeInsertValueHint sql hint
                  (row_at currentRows (nearestRowIndex previousRows (hintRowStartOffset previous hint)))) targetHints))"

definition merge_hint :: "string \<Rightarrow> ISqlEditorHintVO \<Rightarrow> ISqlEditorHintVO list \<Rightarrow> ISqlEditorHintVO list" where
  "merge_hint sql incomingHint merged =
     (let same = (\<lambda>hint. hintRowStartOffset sql hint = hintRowStartOffset sql incomingHint)
      in if list_ex same merged then replace_first same (\<lambda>_. incomingHint) merged else merged @ [incomingHint])"

definition compareHints :: "string \<Rightarrow> ISqlEditorHintVO \<Rightarrow> ISqlEditorHintVO \<Rightarrow> int" where
  "compareHints sql left right = hintRowStartOffset sql left - hintRowStartOffset sql right"

definition mergeInsertValueHints :: "string \<Rightarrow> ISqlEditorHintVO list option \<Rightarrow> ISqlEditorHintVO list option \<Rightarrow> ISqlEditorHintVO list" where
  "mergeInsertValueHints sql existingHints incomingHints =
     (let merged = rematerializeInsertValueHints sql existingHints None
      in js_sort (compareHints sql) (fold (merge_hint sql) (filter has_insert_items (or_empty incomingHints)) merged))"

section \<open>Offsets and positions are inverse\<close>

lemma line_offset_reached: "target \<le> current \<Longrightarrow> line_offset current target s = 0"
  by (cases s) simp_all

lemma position_from_line: "position_from line col n s = (l, c) \<Longrightarrow> line \<le> l"
  by (induction line col n s rule: position_from.induct) (force split: if_splits)+

lemma position_from_offset:
  "n \<le> length s \<Longrightarrow> position_from line col n s = (l, c) \<Longrightarrow>
    int (line_offset line l s) + c = int n + (if l = line then col else 1)"
proof (induction line col n s rule: position_from.induct)
  case (3 line col n x xs)
  show ?case
  proof (cases "x = LF")
    case True
    then have "position_from (line + 1) 1 n xs = (l, c)"
      using 3 by simp
    then have "int (line_offset (line + 1) l xs) + c = int n + 1" "line < l"
      using 3 True position_from_line[of "line + 1" 1 n xs l c] by (auto split: if_splits)
    then show ?thesis
      using True by simp
  next
    case False
    then have "position_from line (col + 1) n xs = (l, c)"
      using 3 by simp
    then show ?thesis
      using 3 False position_from_line[of line "col + 1" n xs l c] line_offset_reached[of l line xs] by auto
  qed
qed (auto simp: line_offset_reached)

lemma position_from_pos: "1 \<le> line \<Longrightarrow> 1 \<le> col \<Longrightarrow> position_from line col n s = (l, c) \<Longrightarrow> 1 \<le> l \<and> 1 \<le> c"
  by (induction line col n s rule: position_from.induct) (auto split: if_splits)

lemma offset_of_position:
  assumes "0 \<le> offset" "offset \<le> int (length sql)" and "positionAtOffset sql offset = (l, c)"
  shows "offsetAtPosition sql l c = offset"
proof -
  have n: "clamp_offset offset sql = nat offset"
    using assms by (simp add: clamp_offset_def)
  have pos: "position_from 1 1 (nat offset) sql = (l, c)"
    using assms(3) n by (simp add: positionAtOffset_def)
  have "int (line_offset 1 l sql) + c = int (nat offset) + 1" "1 \<le> l" "1 \<le> c"
    using position_from_offset[OF _ pos] position_from_pos[OF _ _ pos] assms by auto
  then show ?thesis
    using assms by (simp add: offsetAtPosition_def max_def)
qed

section \<open>The filled-in values are where the hints say\<close>

text \<open>The text a range of a hint stands for.\<close>

definition text_at :: "string \<Rightarrow> ISqlEditorHintRangeVO \<Rightarrow> string" where
  "text_at sql r =
     substring sql (nat (offsetAtPosition sql (as_number (vo_startLineNumber r)) (as_number (vo_startColumn r))))
       (nat (offsetAtPosition sql (as_number (vo_endLineNumber r)) (as_number (vo_endColumn r))))"

lemma text_at_offsets:
  assumes "0 \<le> i" "i \<le> j" "j \<le> int (length sql)"
  shows "text_at sql (rangeAtOffsets sql i j) = substring sql (nat i) (nat j)"
proof -
  obtain l c l' c' where pos: "positionAtOffset sql i = (l, c)" "positionAtOffset sql j = (l', c')"
    by fastforce
  have "offsetAtPosition sql l c = i" "offsetAtPosition sql l' c' = j"
    using offset_of_position[OF _ _ pos(1)] offset_of_position[OF _ _ pos(2)] assms by auto
  then show ?thesis
    by (simp add: text_at_def rangeAtOffsets_def pos as_number_def)
qed

lemma value_ranges_text:
  assumes "sql = pre @ join '', '' vs @ post"
  shows "map (\<lambda>(i, j). substring sql (nat i) (nat j)) (value_ranges (int (length pre)) vs) = vs
    \<and> (\<forall>(i, j) \<in> set (value_ranges (int (length pre)) vs). 0 \<le> i \<and> i \<le> j \<and> j \<le> int (length sql))"
  using assms
proof (induction vs arbitrary: pre)
  case (Cons v vs)
  show ?case
  proof (cases vs)
    case Nil
    then show ?thesis
      using Cons.prems by (auto simp: substring_def)
  next
    case (Cons w ws)
    then have sql: "sql = (pre @ v @ '', '') @ join '', '' vs @ post"
      using Cons.prems by simp
    have "value_ranges (int (length pre)) (v # vs)
        = (int (length pre), int (length pre) + int (length v)) # value_ranges (int (length (pre @ v @ '', ''))) vs"
      using Cons by (simp add: add.commute add.left_commute)
    moreover have "substring sql (nat (int (length pre))) (nat (int (length pre) + int (length v))) = v"
      using sql by (simp add: substring_def nat_int_add)
    moreover have "length pre + length v \<le> length sql"
      using sql by simp
    ultimately show ?thesis
      using Cons.IH[OF sql] by (simp add: split_def)
  qed
qed simp

lemma fold_update_lookup:
  assumes "distinct (map (\<lambda>p. k (fst p)) ps)" "p \<in> set ps"
  shows "map_of (fold (\<lambda>p. AList.update (k (fst p)) (g (snd p))) ps m) (k (fst p)) = Some (g (snd p))"
  using assms
proof (induction ps arbitrary: m)
  case (Cons q ps)
  have keep: "k (fst q) \<notin> (\<lambda>p. k (fst p)) ` set xs \<Longrightarrow>
      map_of (fold (\<lambda>p. AList.update (k (fst p)) (g (snd p))) xs m') (k (fst q)) = map_of m' (k (fst q))" for xs m'
    by (induction xs arbitrary: m') (auto simp: update_conv')
  show ?case
    using Cons keep[of ps] by (auto simp: update_conv')
qed simp

lemma range_map_lookup:
  assumes "distinct (map vo_columnIndex items)" "length ranges = length items" "n < length items"
  shows "map_of (range_map sql items ranges) (vo_columnIndex (items ! n)) = Some (rangeAtOffsets sql (fst (ranges ! n)) (snd (ranges ! n)))"
proof -
  have "map vo_columnIndex (map fst (zip items ranges)) = map vo_columnIndex items"
    using assms(2) by simp
  then have "map (\<lambda>p. vo_columnIndex (fst p)) (zip items ranges) = map vo_columnIndex items"
    by (simp only: map_map comp_def)
  moreover have "(items ! n, ranges ! n) \<in> set (zip items ranges)"
    using assms(2,3) by (metis in_set_zip fst_conv snd_conv)
  ultimately show ?thesis
    using fold_update_lookup[of vo_columnIndex "zip items ranges" "(items ! n, ranges ! n)" "\<lambda>(i, j). rangeAtOffsets sql i j" "[]"] assms(1)
    by (simp add: range_map_def split_def)
qed

lemma value_ranges_length [simp]: "length (value_ranges offset vs) = length vs"
  by (induction offset vs rule: value_ranges.induct) auto

lemma ordered_items_mset: "mset (ordered_items (Some h)) = mset (or_empty (vo_items h))"
  by (simp add: ordered_items_def)

abbreviation defaults :: "ISqlEditorHintVO \<Rightarrow> string list" where
  "defaults h \<equiv> map (\<lambda>item. the (vo_defaultValue item)) (ordered_items (Some h))"

lemma materialized_ranges:
  assumes sql: "sql = pre @ join '', '' (defaults h) @ post"
    and items: "item \<in> set (or_empty (vo_items h))" "distinct (map vo_columnIndex (or_empty (vo_items h)))" "list_all has_default (ordered_items (Some h))"
  obtains r where "map_of (range_map sql (ordered_items (Some h)) (value_ranges (int (length pre)) (defaults h))) (vo_columnIndex item) = Some r"
    "Some (text_at sql r) = vo_defaultValue item"
proof -
  let ?items = "ordered_items (Some h)" and ?ranges = "value_ranges (int (length pre)) (defaults h)"
  have "item \<in> set ?items" "distinct (map vo_columnIndex ?items)"
    using items(1,2) ordered_items_mset[of h] by (metis mset_eq_setD, metis mset_map mset_eq_imp_distinct_iff)
  then obtain n where n: "n < length ?items" "item = ?items ! n" and dist: "distinct (map vo_columnIndex ?items)"
    by (metis in_set_conv_nth)
  obtain i j where ij: "?ranges ! n = (i, j)"
    by fastforce
  have "map (\<lambda>(i, j). substring sql (nat i) (nat j)) ?ranges ! n = defaults h ! n"
    using value_ranges_text[OF sql] by simp
  then have val: "substring sql (nat i) (nat j) = the (vo_defaultValue item)"
    using n ij by simp
  have "(i, j) \<in> set ?ranges"
    using n ij by (metis length_map nth_mem value_ranges_length)
  then have bounds: "0 \<le> i" "i \<le> j" "j \<le> int (length sql)"
    using value_ranges_text[OF sql] by auto
  have "has_default item"
    using items(3) n by (simp add: list_all_iff)
  then have "vo_defaultValue item = Some (substring sql (nat i) (nat j))"
    using val by (cases "vo_defaultValue item") (simp_all add: has_default_def)
  then show thesis
    using range_map_lookup[OF dist, of ?ranges n sql] n ij text_at_offsets[OF bounds] that by simp
qed

lemma find_replace_first:
  "List.find P xs = Some x \<Longrightarrow> f x \<in> set (replace_first P f xs)"
  by (induction xs) (auto split: if_splits)

lemma filled_values_are_located:
  assumes "List.find is_active_insert hints = Some h" and "or_empty (vo_items h) \<noteq> []"
    and "list_all has_default (or_empty (vo_items h))" and "distinct (map vo_columnIndex (or_empty (vo_items h)))"
    and "sql = pre @ join '', '' (defaults h) @ post"
  shows "\<exists>h' \<in> set (materializeInsertValueAutoFillHints sql (int (length pre)) (Some hints)).
    map (\<lambda>item. map_option (text_at sql) (vo_range item)) (or_empty (vo_items h')) = map vo_defaultValue (or_empty (vo_items h))"
proof -
  have ordered: "ordered_items (Some h) \<noteq> []" "list_all has_default (ordered_items (Some h))"
    using assms(2,3) ordered_items_mset[of h] by (metis mset_zero_iff, metis list_all_iff mset_eq_setD)
  have clamped: "int (clamp_offset (int (length pre)) sql) = int (length pre)"
    using assms(5) by (simp add: clamp_offset_def)
  let ?m = "range_map sql (ordered_items (Some h)) (value_ranges (int (length pre)) (defaults h))"
  let ?items = "map (\<lambda>item. item\<lparr>vo_range := or_else (map_of ?m (vo_columnIndex item)) (vo_range item)\<rparr>) (or_empty (vo_items h))"
  let ?f = "\<lambda>hint. hint\<lparr>vo_rowRange := Some (rangeAtOffsets sql (int (length pre)) (values_end (int (length pre)) (defaults h))),
      vo_valueRange := map_of ?m (vo_columnIndex (hd (ordered_items (Some h)))), vo_items := Some ?items\<rparr>"
  have "materializeInsertValueAutoFillHints sql (int (length pre)) (Some hints) = replace_first is_active_insert ?f hints"
    using assms(1) ordered clamped by (simp add: materializeInsertValueAutoFillHints_def Let_def)
  then have "?f h \<in> set (materializeInsertValueAutoFillHints sql (int (length pre)) (Some hints))"
    using find_replace_first[OF assms(1), of ?f] by (simp only:)
  moreover have "map_option (text_at sql) (or_else (map_of ?m (vo_columnIndex item)) (vo_range item)) = vo_defaultValue item"
    if "item \<in> set (or_empty (vo_items h))" for item
    using materialized_ranges[OF assms(5) that assms(4) ordered(2)] by (metis option.simps(9) option.case(2) or_else_def)
  ultimately show ?thesis
    by (intro bexI[of _ "?f h"]) simp_all
qed

lemma find_both:
  assumes "List.find P xs = Some x" "Q x"
  shows "List.find (\<lambda>x. P x \<and> Q x) xs = Some x"
  using assms by (induction xs) (auto split: if_splits)

text \<open>
  After the default values are filled in, every hint stands at its value. When the text offered for \<open>VALUES (\<close> is inserted at the cursor
  and the hints are materialised there, the range of each item of the active hint covers exactly the text of its default value.
\<close>

theorem autofill_hints_located:
  assumes "getInsertValueAutoFill sql cursor (Some hints) = Some af" and "0 \<le> cursor" "cursor \<le> int (length sql)"
    and "List.find is_active_insert hints = Some h" "isEmptyRange (vo_valueRange h)" "distinct (map vo_columnIndex (or_empty (vo_items h)))"
    and "edited = take (nat cursor) sql @ af_text af @ drop (nat cursor) sql"
  shows "\<exists>h' \<in> set (materializeInsertValueAutoFillHints edited cursor (Some hints)).
    map (\<lambda>item. map_option (text_at edited) (vo_range item)) (or_empty (vo_items h')) = map vo_defaultValue (or_empty (vo_items h))"
proof -
  have target: "List.find (\<lambda>h. is_active_insert h \<and> isEmptyRange (vo_valueRange h)) hints = Some h"
    by (rule find_both[where P = is_active_insert and Q = "\<lambda>h. isEmptyRange (vo_valueRange h)", OF assms(4,5)])
  then obtain close where filled: "ordered_items (Some h) \<noteq> []" "list_all has_default (ordered_items (Some h))"
      "af_text af = join '', '' (defaults h) @ close"
    using assms(1) by (auto simp: getInsertValueAutoFill_def Let_def split: option.splits if_splits)
  have items: "or_empty (vo_items h) \<noteq> []" "list_all has_default (or_empty (vo_items h))"
    using filled(1,2) ordered_items_mset[of h] by (metis mset_zero_iff, metis list_all_iff mset_eq_setD)
  let ?pre = "take (nat cursor) sql"
  have "edited = ?pre @ join '', '' (defaults h) @ close @ drop (nat cursor) sql" "int (length ?pre) = cursor"
    using assms(2,3,7) filled(3) by auto
  then show ?thesis
    using filled_values_are_located[OF assms(4) items assms(6), of edited ?pre "close @ drop (nat cursor) sql"] by simp
qed

definition sample_item :: "int \<Rightarrow> string \<Rightarrow> ISqlEditorHintItemVO" where
  "sample_item k d = \<lparr>vo_rowIndex = Num 0, vo_columnIndex = Num k, vo_fieldName = None, vo_fieldType = None, vo_defaultValue = Some d,
     vo_label = None, vo_range = None, vo_active = Some True\<rparr>"

definition sample_hint :: ISqlEditorHintVO where
  "sample_hint = \<lparr>vo_type = ''INSERT_VALUE'', vo_statementRange = None, vo_rowRange = None,
     vo_valueRange = Some \<lparr>vo_startLineNumber = Num 1, vo_startColumn = Num 1, vo_endLineNumber = Num 1, vo_endColumn = Num 1\<rparr>,
     vo_items = Some [sample_item 2 ''NULL'', sample_item 1 ''0'']\<rparr>"

theorem autofill_hints_located_witness:
  "\<exists>h' \<in> set (materializeInsertValueAutoFillHints ''insert into t values (0, NULL)'' 22 (Some [sample_hint])).
     map (\<lambda>item. map_option (text_at ''insert into t values (0, NULL)'') (vo_range item)) (or_empty (vo_items h')) = [Some ''NULL'', Some ''0'']"
proof -
  let ?sql = "''insert into t values (''"
  let ?af = "\<lparr>af_text = ''0, NULL)'', af_firstValueLength = 1, af_valuesTextLength = 7\<rparr>"
  have facts: "getInsertValueAutoFill ?sql 22 (Some [sample_hint]) = Some ?af" "List.find is_active_insert [sample_hint] = Some sample_hint"
    "isEmptyRange (vo_valueRange sample_hint)" "distinct (map vo_columnIndex (or_empty (vo_items sample_hint)))"
    "''insert into t values (0, NULL)'' = take (nat 22) ?sql @ af_text ?af @ drop (nat 22) ?sql"
    "(22 :: int) \<le> int (length ?sql)" "map vo_defaultValue (or_empty (vo_items sample_hint)) = [Some ''NULL'', Some ''0'']"
    by code_simp+
  show ?thesis
    using autofill_hints_located[OF facts(1) _ facts(6) facts(2-5)] unfolding facts(7) by simp
qed

section \<open>Rows lie in the text\<close>

definition row_ok :: "string \<Rightarrow> nat \<Rightarrow> OffsetRange list \<Rightarrow> bool" where
  "row_ok sql i ranges \<longleftrightarrow>
     (\<forall>r \<in> set ranges. i \<le> of_start r \<and> of_start r \<le> of_end r \<and> of_end r \<le> length sql)
     \<and> sorted_wrt (\<lambda>a b. of_end a < of_start b) ranges"

lemma trim_left_bounds: "i \<le> j \<Longrightarrow> i \<le> trim_left_offset sql i j \<and> trim_left_offset sql i j \<le> j"
  by (induction sql i j rule: trim_left_offset.induct) (subst (1 2) trim_left_offset.simps, auto)

lemma trim_right_bounds: "i \<le> j \<Longrightarrow> i \<le> trim_right_offset sql i j \<and> trim_right_offset sql i j \<le> j"
  by (induction sql i j rule: trim_right_offset.induct) auto

lemma trimOffsetRange_bounds:
  assumes "i \<le> j"
  shows "i \<le> of_start (trimOffsetRange sql i j) \<and> of_start (trimOffsetRange sql i j) \<le> of_end (trimOffsetRange sql i j)
    \<and> of_end (trimOffsetRange sql i j) \<le> j"
  using trim_left_bounds[OF assms, of sql] trim_right_bounds[of "trim_left_offset sql i j" j sql] by (simp add: trimOffsetRange_def Let_def)

lemma scan_values_row:
  "i \<le> index \<Longrightarrow> index \<le> length sql \<Longrightarrow> row_ok sql i (scan_values sql cm i depth index)"
proof (induction sql cm i depth index rule: scan_values.induct)
  case (1 sql cm i depth index)
  note bounds = trimOffsetRange_bounds[of i index sql] trimOffsetRange_bounds[of i "length sql" sql]
  have single: "row_ok sql i [trimOffsetRange sql i index]" "row_ok sql i [trimOffsetRange sql i (length sql)]"
    using 1(6,7) bounds by (auto simp: row_ok_def)
  show ?case
  proof (cases "index < length sql")
    case False
    then show ?thesis
      using single by (subst scan_values.simps) simp
  next
    case inside: True
    let ?c = "sql ! index"
    have IH: "row_ok sql (Suc index) (scan_values sql cm (Suc index) depth (Suc index))"
      if "cm ! index" "?c = CHR '',''" "depth = 0"
      using 1(4)[of ?c] that inside by simp
    consider "\<not> cm ! index" | "cm ! index" "?c = CHR ''('' \<or> ?c = CHR ''[''"
      | "cm ! index" "?c = CHR '')'' \<or> ?c = CHR '']''" "0 < depth" | "cm ! index" "?c = CHR '',''" "depth = 0"
      | "cm ! index" "?c = CHR '')''" "depth = 0"
      | "cm ! index" "?c \<noteq> CHR ''(''" "?c \<noteq> CHR ''[''" "\<not> ((?c = CHR '')'' \<or> ?c = CHR '']'') \<and> 0 < depth)"
          "\<not> (?c = CHR '','' \<and> depth = 0)" "\<not> (?c = CHR '')'' \<and> depth = 0)"
      by blast
    then show ?thesis
    proof cases
      case 4
      then show ?thesis
        using IH bounds 1(6,7) inside by (subst scan_values.simps) (force simp: row_ok_def)
    next
      case c: 1
      then have "scan_values sql cm i depth index = scan_values sql cm i depth (Suc index)"
        using inside by (subst scan_values.simps) simp
      then show ?thesis
        using 1(1) c inside 1(6,7) by simp
    next
      case c: 2
      then have "scan_values sql cm i depth index = scan_values sql cm i (Suc depth) (Suc index)"
        using inside by (subst scan_values.simps) auto
      then show ?thesis
        using 1(2)[of ?c] c inside 1(6,7) by simp
    next
      case c: 3
      then have "scan_values sql cm i depth index = scan_values sql cm i (depth - 1) (Suc index)"
        using inside by (subst scan_values.simps) auto
      then show ?thesis
        using 1(3)[of ?c] c inside 1(6,7) by auto
    next
      case c: 5
      then have "scan_values sql cm i depth index = [trimOffsetRange sql i index]"
        using inside by (subst scan_values.simps) simp
      then show ?thesis
        using single by simp
    next
      case c: 6
      then have "scan_values sql cm i depth index = scan_values sql cm i depth (Suc index)"
        using inside by (subst scan_values.simps) auto
      then show ?thesis
        using 1(5)[of ?c] c inside 1(6,7) by simp
    qed
  qed
qed

lemma match_values_length: "match_values s = Some n \<Longrightarrow> 1 \<le> n \<and> n \<le> length s"
proof -
  have inside: "next_char (drop k s) = Some c \<Longrightarrow> Suc k \<le> length s" for k c
    by (cases "k < length s") (simp_all add: next_char_def)
  show "match_values s = Some n \<Longrightarrow> 1 \<le> n \<and> n \<le> length s"
    by (auto simp: match_values_def Let_def dest: inside split: if_splits)
qed

lemma values_matches_bounds:
  "(i, j) \<in> set (values_matches index previous s) \<Longrightarrow> index \<le> i \<and> i < j \<and> j \<le> index + length s"
proof (induction index previous s rule: values_matches.induct)
  case (2 index previous c cs)
  show ?case
  proof (cases "if at_boundary previous then match_values (c # cs) else None")
    case None
    then show ?thesis
      using 2 by fastforce
  next
    case (Some n)
    then have "1 \<le> n" "n \<le> Suc (length cs)"
      using match_values_length[of "c # cs" n] by (auto split: if_splits)
    then show ?thesis
      using 2(2)[OF Some] 2(3) Some by (auto simp: max_def)
  qed
qed simp

text \<open>
  Every row of values that is found lies in the text: it has at least one value, the values are inside of the text, in
  order and apart from each other, so that no offset is out of range.
\<close>

theorem value_rows_in_text:
  "list_all (\<lambda>row. row \<noteq> [] \<and> row_ok sql 0 row) (findValuesRows sql)"
proof -
  have weaken: "row_ok sql j row \<Longrightarrow> row_ok sql 0 row" for j row
    by (simp add: row_ok_def)
  have "row_ok sql j (scanValuesRow sql j (sqlCodeMask sql))" if "(i, j) \<in> set (values_matches 0 None sql)" for i j
    using scan_values_row[of j j sql] values_matches_bounds[OF that] by (simp add: scanValuesRow_def)
  then show ?thesis
    by (auto simp: findValuesRows_def list_all_iff List.map_filter_def Let_def split: if_splits intro: weaken)
qed

section \<open>Merged hints are ordered\<close>

interpretation hint_cmp: comparator "compareHints sql" "\<lambda>_. True" for sql
  by unfold_locales (auto simp: compareHints_def)

lemma merged_hints_sorted:
  "sorted_wrt (\<lambda>a b. hintRowStartOffset sql a \<le> hintRowStartOffset sql b) (mergeInsertValueHints sql existing incoming)"
  using hint_cmp.sorted_sort[of _ sql] by (simp add: mergeInsertValueHints_def Let_def compareHints_def)

end
