(* ===== verification/Routine_Hints.thy ===== *)
theory Routine_Hints
  imports Value_Defaults
begin

text \<open>
  Hints for the parameters of a routine, \<open>routineParameterHint.ts\<close> and \<open>parameterHint.ts\<close> of
  \<open>components/SQLEditor/helper\<close>: the parameters a routine declares, the call around the cursor and its arguments, and
  the one list of hints that is shown for a position. The functions on ranges that the files repeat are those of \<open>Insert_Hints\<close>.
\<close>

section \<open>Scanning brackets and quotes\<close>

definition is_quote :: "char \<Rightarrow> bool" where
  "is_quote c \<longleftrightarrow> c = SQUOTE \<or> c = DQUOTE \<or> c = BACKTICK"

definition char_at_is :: "string \<Rightarrow> nat \<Rightarrow> char \<Rightarrow> bool" where
  "char_at_is s i c \<longleftrightarrow> i < length s \<and> s ! i = c"

text \<open>Inside of a quote: the next index to look at, and the quote there.\<close>

definition quote_step :: "string \<Rightarrow> nat \<Rightarrow> char \<Rightarrow> nat \<times> char option" where
  "quote_step s index q =
     (if s ! index = BACKSLASH then (index + 2, Some q)
      else if s ! index = q then (if char_at_is s (index + 1) q then (index + 2, Some q) else (index + 1, None))
      else (index + 1, Some q))"

lemma quote_step_later: "index < fst (quote_step s index q)"
  by (simp add: quote_step_def)

function find_matching :: "string \<Rightarrow> nat \<Rightarrow> int \<Rightarrow> char option \<Rightarrow> nat option" where
  "find_matching s index depth quote =
     (if length s \<le> index then None
      else
        case quote of
          Some q \<Rightarrow> find_matching s (fst (quote_step s index q)) depth (snd (quote_step s index q))
        | None \<Rightarrow>
            if is_quote (s ! index) then find_matching s (index + 1) depth (Some (s ! index))
            else if s ! index = CHR ''('' then find_matching s (index + 1) (depth + 1) None
            else if s ! index = CHR '')'' then (if depth - 1 = 0 then Some index else find_matching s (index + 1) (depth - 1) None)
            else find_matching s (index + 1) depth None)"
  by pat_completeness auto
termination
  by (relation "measure (\<lambda>(s, index, depth, quote). length s - index)")
    (auto simp: not_le intro: diff_less_mono2 quote_step_later)

declare find_matching.simps [simp del]

definition findMatchingParenthesis :: "string \<Rightarrow> nat \<Rightarrow> nat option" where
  "findMatchingParenthesis s openIndex = find_matching s openIndex 0 None"

text \<open>The commas outside of brackets and quotes, which are where \<open>splitTopLevel\<close> calls \<open>onSplit\<close>.\<close>

function split_points :: "string \<Rightarrow> nat \<Rightarrow> nat \<Rightarrow> nat \<Rightarrow> char option \<Rightarrow> nat list" where
  "split_points s endIndex index depth quote =
     (if endIndex \<le> index \<or> length s \<le> index then []
      else
        case quote of
          Some q \<Rightarrow> split_points s endIndex (fst (quote_step s index q)) depth (snd (quote_step s index q))
        | None \<Rightarrow>
            if is_quote (s ! index) then split_points s endIndex (index + 1) depth (Some (s ! index))
            else if s ! index = CHR ''('' \<or> s ! index = CHR ''['' then split_points s endIndex (index + 1) (depth + 1) None
            else if s ! index = CHR '')'' \<or> s ! index = CHR '']'' then split_points s endIndex (index + 1) (depth - 1) None
            else if s ! index = CHR '','' \<and> depth = 0 then index # split_points s endIndex (index + 1) depth None
            else split_points s endIndex (index + 1) depth None)"
  by pat_completeness auto
termination
  by (relation "measure (\<lambda>(s, endIndex, index, depth, quote). length s - index)")
    (auto simp: not_le intro: diff_less_mono2 quote_step_later)

declare split_points.simps [simp del]

fun segments :: "nat \<Rightarrow> nat list \<Rightarrow> nat \<Rightarrow> (nat \<times> nat) list" where
  "segments segmentStart [] endIndex = [(segmentStart, endIndex)]"
| "segments segmentStart (p # ps) endIndex = (segmentStart, p) # segments (p + 1) ps endIndex"

definition splitTopLevel :: "string \<Rightarrow> nat \<Rightarrow> nat \<Rightarrow> string list" where
  "splitTopLevel s startIndex endIndex =
     map (\<lambda>(i, j). substring s i j) (segments startIndex (split_points s endIndex startIndex 0 None) endIndex)"

definition splitTopLevelRanges :: "string \<Rightarrow> nat \<Rightarrow> nat \<Rightarrow> OffsetRange list" where
  "splitTopLevelRanges s startIndex endIndex =
     filter (\<lambda>r. of_start r \<le> of_end r)
       (map (\<lambda>(i, j). trimOffsetRange s i j) (segments startIndex (split_points s endIndex startIndex 0 None) endIndex))"

definition stripOuterParentheses :: "string \<Rightarrow> string" where
  "stripOuterParentheses detail =
     (if \<not> startsWith detail ''('' \<or> \<not> endsWith detail '')'' then detail
      else if findMatchingParenthesis detail 0 = Some (length detail - 1) then trim (butlast (tl detail)) else detail)"

section \<open>Declared parameters\<close>

record ParsedRoutineParameter =
  pp_parameterName :: string
  pp_parameterType :: "string option"

fun words_from :: "bool \<Rightarrow> string \<Rightarrow> string \<Rightarrow> string list" where
  "words_from blank w [] = [w]"
| "words_from blank w (c # cs) =
     (if is_space c then (if blank then words_from True w cs else w # words_from True [] cs)
      else words_from False (w @ [c]) cs)"

text \<open>\<open>s.split(/\s+/)\<close>.\<close>

definition split_spaces :: "string \<Rightarrow> string list" where
  "split_spaces s = words_from False [] s"

definition parseRoutineParameterSegment :: "string \<Rightarrow> ParsedRoutineParameter option" where
  "parseRoutineParameterSegment segment =
     (let trimmedSegment = trim segment
      in if trimmedSegment = [] then None
         else if CHR '':'' \<in> set trimmedSegment then
           (let parameterName = trim (takeWhile (\<lambda>c. c \<noteq> CHR '':'') trimmedSegment);
                parameterType = trim (tl (dropWhile (\<lambda>c. c \<noteq> CHR '':'') trimmedSegment))
            in if parameterName = [] then None
               else Some \<lparr>pp_parameterName = parameterName, pp_parameterType = (if parameterType = [] then None else Some parameterType)\<rparr>)
         else
           (let parts = split_spaces trimmedSegment; parameterType = join '' '' (tl parts)
            in if hd parts = [] then None
               else Some \<lparr>pp_parameterName = hd parts, pp_parameterType = (if parameterType = [] then None else Some parameterType)\<rparr>))"

definition parseRoutineParameterDetail :: "string option \<Rightarrow> ParsedRoutineParameter list" where
  "parseRoutineParameterDetail detail =
     (let normalizedDetail = stripOuterParentheses (trim (the_default [] detail))
      in if normalizedDetail = [] then []
         else List.map_filter parseRoutineParameterSegment (splitTopLevel normalizedDetail 0 (length normalizedDetail)))"

section \<open>The call around the cursor\<close>

record RoutineParameterHintPayload =
  pl_routineName :: "string option"
  pl_routineType :: "string option"
  pl_detail :: "string option"
  pl_insertText :: "string option"

definition isRoutineParameterHintPayload :: "RoutineParameterHintPayload option \<Rightarrow> bool" where
  "isRoutineParameterHintPayload v =
     (case v of None \<Rightarrow> False | Some payload \<Rightarrow> parseRoutineParameterDetail (pl_detail payload) \<noteq> [])"

record call_range =
  cr_nameIndex :: nat
  cr_openIndex :: nat
  cr_closeIndex :: nat

definition getLastNamePart :: "string option \<Rightarrow> string" where
  "getLastNamePart name = (if truthy_str name then last (split_on (CHR ''.'') (the name)) else [])"

definition stripSqlIdentifierQuote :: "string option \<Rightarrow> string" where
  "stripSqlIdentifierQuote identifier =
     (let t = trim (the_default [] identifier);
          wrapped = (\<lambda>a b. startsWith t [a] \<and> endsWith t [b])
      in if wrapped BACKTICK BACKTICK \<or> wrapped DQUOTE DQUOTE \<or> wrapped SQUOTE SQUOTE \<or> wrapped (CHR ''['') (CHR '']'')
         then butlast (tl t) else t)"

definition getRoutineNameCandidates :: "string option \<Rightarrow> string list" where
  "getRoutineNameCandidates routineName =
     uniq (filter (\<lambda>n. n \<noteq> []) (map trim
       [the_default [] routineName, stripSqlIdentifierQuote routineName, stripSqlIdentifierQuote (Some (getLastNamePart routineName))]))"

definition getNextOpenParenthesisIndex :: "string \<Rightarrow> nat \<Rightarrow> nat option" where
  "getNextOpenParenthesisIndex lineContent fromIndex =
     (let index = fromIndex + length (takeWhile is_space (drop fromIndex lineContent))
      in if char_at_is lineContent index (CHR ''('') then Some index else None)"

text \<open>\<open>indexOf\<close> from an index on.\<close>

definition index_of_from :: "string \<Rightarrow> string \<Rightarrow> nat \<Rightarrow> nat option" where
  "index_of_from s p i = List.find (\<lambda>k. startsWith (drop k s) p) [i..<Suc (length s)]"

lemma index_of_from_bounds: "index_of_from s p i = Some k \<Longrightarrow> i \<le> k \<and> k \<le> length s"
  by (auto simp: index_of_from_def simp del: upt_Suc dest!: find_SomeD)

function name_calls :: "string \<Rightarrow> string \<Rightarrow> nat \<Rightarrow> nat \<Rightarrow> call_range list" where
  "name_calls lineContent name cursorIndex fromIndex =
     (if name = [] \<or> length lineContent \<le> fromIndex then []
      else
        case index_of_from (toLowerCase lineContent) (toLowerCase name) fromIndex of
          None \<Rightarrow> []
        | Some nameIndex \<Rightarrow>
            (case getNextOpenParenthesisIndex lineContent (nameIndex + length name) of
               None \<Rightarrow> []
             | Some openIndex \<Rightarrow>
                 (case findMatchingParenthesis lineContent openIndex of
                    None \<Rightarrow> []
                  | Some closeIndex \<Rightarrow>
                      if openIndex \<le> cursorIndex \<and> cursorIndex \<le> closeIndex + 1
                      then [\<lparr>cr_nameIndex = nameIndex, cr_openIndex = openIndex, cr_closeIndex = closeIndex\<rparr>] else []))
            @ name_calls lineContent name cursorIndex (nameIndex + length name))"
  by pat_completeness auto
termination
  by (relation "measure (\<lambda>(lineContent, name, cursorIndex, fromIndex). length lineContent - fromIndex)")
    (auto simp: toLowerCase_def neq_Nil_conv dest!: index_of_from_bounds)

declare name_calls.simps [simp del]

fun nearest_call :: "string \<Rightarrow> nat \<Rightarrow> nat \<Rightarrow> call_range option" where
  "nearest_call lineContent cursorIndex 0 = None"
| "nearest_call lineContent cursorIndex (Suc index) =
     (case (if char_at_is lineContent index (CHR ''('') then findMatchingParenthesis lineContent index else None) of
        Some closeIndex \<Rightarrow>
          if cursorIndex \<le> closeIndex + 1
          then Some \<lparr>cr_nameIndex = index, cr_openIndex = index, cr_closeIndex = closeIndex\<rparr>
          else nearest_call lineContent cursorIndex index
      | None \<Rightarrow> nearest_call lineContent cursorIndex index)"

definition getNearestCallRange :: "string \<Rightarrow> nat \<Rightarrow> call_range option" where
  "getNearestCallRange lineContent cursorIndex =
     (if lineContent = [] then None else nearest_call lineContent cursorIndex (Suc (min cursorIndex (length lineContent - 1))))"

definition compareCalls :: "call_range \<Rightarrow> call_range \<Rightarrow> int" where
  "compareCalls a b = int (cr_nameIndex b) - int (cr_nameIndex a)"

definition getRoutineCallRange :: "string \<Rightarrow> int \<Rightarrow> string option \<Rightarrow> call_range option" where
  "getRoutineCallRange lineContent cursorColumn routineName =
     (let cursorIndex = nat (max 0 (cursorColumn - 1));
          routineNames = getRoutineNameCandidates routineName;
          candidates = concat (map (\<lambda>name. name_calls lineContent name cursorIndex 0) routineNames)
      in if candidates \<noteq> [] then Some (hd (js_sort compareCalls candidates))
         else if routineNames \<noteq> [] then None else getNearestCallRange lineContent cursorIndex)"

definition getRoutineArgumentRanges :: "string \<Rightarrow> int \<Rightarrow> nat \<Rightarrow> nat \<Rightarrow> TextRange list" where
  "getRoutineArgumentRanges lineContent line openIndex closeIndex =
     (if closeIndex \<le> openIndex then []
      else map (\<lambda>r. \<lparr>startLineNumber = line, startColumn = int (of_start r) + 1, endLineNumber = line, endColumn = int (of_end r) + 1\<rparr>)
        (splitTopLevelRanges lineContent (openIndex + 1) closeIndex))"

section \<open>Hints\<close>

definition getActiveArgumentIndex :: "TextPosition \<Rightarrow> TextRange list \<Rightarrow> nat \<Rightarrow> nat" where
  "getActiveArgumentIndex cursor argumentRanges parameterCount =
     (case find_index (isPositionInRange (lineNumber cursor) (column cursor)) argumentRanges of
        Some matchedIndex \<Rightarrow> min matchedIndex (parameterCount - 1)
      | None \<Rightarrow>
          (case find_index (\<lambda>r. comparePosition (lineNumber cursor) (column cursor) (startLineNumber r) (startColumn r) < 0) argumentRanges of
             Some nextIndex \<Rightarrow> min nextIndex (parameterCount - 1)
           | None \<Rightarrow> min (length argumentRanges - 1) (parameterCount - 1)))"

record RoutineParameterHintItem =
  ri_parameterIndex :: int
  ri_parameterName :: string
  ri_parameterType :: "string option"
  ri_label :: string
  ri_range :: TextRange
  ri_active :: bool

record RoutineParameterHintContext =
  rc_routineName :: "string option"
  rc_routineType :: "string option"
  rc_hints :: "RoutineParameterHintItem list"
  rc_anchorRange :: TextRange

definition collapsedRange :: "TextPosition \<Rightarrow> TextRange" where
  "collapsedRange p = \<lparr>startLineNumber = lineNumber p, startColumn = column p, endLineNumber = lineNumber p, endColumn = column p\<rparr>"

definition nth_or :: "'a \<Rightarrow> 'a list \<Rightarrow> nat \<Rightarrow> 'a" where
  "nth_or d xs i = (if i < length xs then xs ! i else d)"

definition hint_label :: "string \<Rightarrow> string option \<Rightarrow> string" where
  "hint_label name type = (case type of Some t \<Rightarrow> name @ '':'' @ t | None \<Rightarrow> name)"

definition routine_hints :: "ParsedRoutineParameter list \<Rightarrow> TextRange list \<Rightarrow> TextRange \<Rightarrow> nat \<Rightarrow> RoutineParameterHintItem list" where
  "routine_hints parameters argumentRanges fallbackRange activeIndex =
     map (\<lambda>(index, p). \<lparr>ri_parameterIndex = int index, ri_parameterName = pp_parameterName p, ri_parameterType = pp_parameterType p,
         ri_label = hint_label (pp_parameterName p) (pp_parameterType p), ri_range = nth_or fallbackRange argumentRanges index,
         ri_active = (index = activeIndex)\<rparr>) (List.enumerate 0 parameters)"

definition getRoutineParameterHintContext ::
  "RoutineParameterHintPayload option \<Rightarrow> TextPosition option \<Rightarrow> (int \<Rightarrow> string option) option \<Rightarrow> RoutineParameterHintContext option" where
  "getRoutineParameterHintContext payload cursorPosition getLineContent =
     (case (payload, cursorPosition) of
        (Some pl, Some cursor) \<Rightarrow>
          let parameters = parseRoutineParameterDetail (pl_detail pl)
          in if parameters = [] then None
             else
               let lineContent = the_default [] (case getLineContent of Some f \<Rightarrow> f (lineNumber cursor) | None \<Rightarrow> None);
                   callRange = (if lineContent \<noteq> [] then getRoutineCallRange lineContent (column cursor) (pl_routineName pl) else None)
               in if lineContent \<noteq> [] \<and> callRange = None then None
                  else
                    let argumentRanges = (case callRange of
                          Some r \<Rightarrow> getRoutineArgumentRanges lineContent (lineNumber cursor) (cr_openIndex r) (cr_closeIndex r)
                        | None \<Rightarrow> []);
                        fallbackRange = nth_or (collapsedRange cursor) argumentRanges 0;
                        activeIndex = getActiveArgumentIndex cursor argumentRanges (length parameters)
                    in Some \<lparr>rc_routineName = pl_routineName pl, rc_routineType = pl_routineType pl,
                         rc_hints = routine_hints parameters argumentRanges fallbackRange activeIndex,
                         rc_anchorRange = nth_or fallbackRange argumentRanges activeIndex\<rparr>
      | _ \<Rightarrow> None)"

definition routine_hint_from_service :: "TextRange option \<Rightarrow> ISqlEditorHintItemVO \<Rightarrow> RoutineParameterHintItem option" where
  "routine_hint_from_service valueRange item =
     (case (or_else (non_empty (vo_fieldName item)) (non_empty (vo_label item)), or_else (toTextRange (vo_range item)) valueRange) of
        (Some parameterName, Some rng) \<Rightarrow>
          let parameterType = non_empty (vo_fieldType item)
          in Some \<lparr>ri_parameterIndex = toFiniteNumber (vo_columnIndex item) 0, ri_parameterName = parameterName, ri_parameterType = parameterType,
                ri_label = the_default (hint_label parameterName parameterType) (non_empty (vo_label item)),
                ri_range = rng, ri_active = the_default False (vo_active item)\<rparr>
      | _ \<Rightarrow> None)"

definition routineParameterHintContextFromEditorHint :: "ISqlEditorHintVO option \<Rightarrow> RoutineParameterHintContext option" where
  "routineParameterHintContextFromEditorHint editorHint =
     (case editorHint of
        None \<Rightarrow> None
      | Some h \<Rightarrow>
          if vo_type h \<noteq> ''ROUTINE_PARAMETER'' \<or> or_empty (vo_items h) = [] then None
          else
            let valueRange = toTextRange (vo_valueRange h);
                hints = List.map_filter (routine_hint_from_service valueRange) (or_empty (vo_items h))
            in if hints = [] then None
               else
                 let activeHint = the_default (hd hints) (List.find ri_active hints)
                 in Some \<lparr>rc_routineName = None, rc_routineType = None, rc_hints = hints,
                      rc_anchorRange = the_default (ri_range activeHint) valueRange\<rparr>)"

section \<open>One list of hints for a position\<close>

datatype ParameterHintSource = INSERT_VALUE | ROUTINE_PARAMETER

record ParameterHintItem =
  ph_index :: int
  ph_fieldName :: string
  ph_fieldType :: "string option"
  ph_label :: string
  ph_range :: TextRange
  ph_active :: bool

record ParameterHintContext =
  pc_source :: ParameterHintSource
  pc_anchorRange :: TextRange
  pc_rowRange :: "TextRange option"
  pc_valueRange :: "TextRange option"
  pc_items :: "ParameterHintItem list"

definition parameterHintContextFromInsertValue :: "InsertValueHintContext option \<Rightarrow> ParameterHintContext option" where
  "parameterHintContextFromInsertValue context =
     (case context of
        None \<Rightarrow> None
      | Some cx \<Rightarrow>
          if cx_hints cx = [] then None
          else Some \<lparr>pc_source = INSERT_VALUE, pc_anchorRange = the_default (cx_rowRange cx) (cx_valueRange cx),
                 pc_rowRange = Some (cx_rowRange cx), pc_valueRange = cx_valueRange cx,
                 pc_items = map (\<lambda>hint. \<lparr>ph_index = it_columnIndex hint, ph_fieldName = it_fieldName hint, ph_fieldType = non_empty (it_fieldType hint),
                   ph_label = it_label hint, ph_range = it_range hint, ph_active = it_active hint\<rparr>) (cx_hints cx)\<rparr>)"

definition parameterHintContextFromRoutine :: "RoutineParameterHintContext option \<Rightarrow> ParameterHintContext option" where
  "parameterHintContextFromRoutine context =
     (case context of
        None \<Rightarrow> None
      | Some rc \<Rightarrow>
          if rc_hints rc = [] then None
          else Some \<lparr>pc_source = ROUTINE_PARAMETER, pc_anchorRange = rc_anchorRange rc, pc_rowRange = None, pc_valueRange = None,
                 pc_items = map (\<lambda>hint. \<lparr>ph_index = ri_parameterIndex hint, ph_fieldName = ri_parameterName hint,
                   ph_fieldType = non_empty (ri_parameterType hint), ph_label = ri_label hint, ph_range = ri_range hint,
                   ph_active = ri_active hint\<rparr>) (rc_hints rc)\<rparr>)"

definition starts_before :: "TextPosition \<Rightarrow> TextRange \<Rightarrow> bool" where
  "starts_before p r \<longleftrightarrow> comparePosition (lineNumber p) (column p) (startLineNumber r) (startColumn r) < 0"

definition compareIndexedItems :: "nat \<times> ParameterHintItem \<Rightarrow> nat \<times> ParameterHintItem \<Rightarrow> int" where
  "compareIndexedItems left right =
     comparePosition (startLineNumber (ph_range (snd left))) (startColumn (ph_range (snd left)))
       (startLineNumber (ph_range (snd right))) (startColumn (ph_range (snd right)))"

definition getActiveParameterHintItemIndex :: "ParameterHintItem list \<Rightarrow> TextPosition \<Rightarrow> nat option" where
  "getActiveParameterHintItemIndex items position =
     (case find_index (\<lambda>item. isPositionInRange (lineNumber position) (column position) (ph_range item)) items of
        Some directIndex \<Rightarrow> Some directIndex
      | None \<Rightarrow>
          let sortedItems = js_sort compareIndexedItems (List.enumerate 0 items)
          in case List.find (\<lambda>(index, item). starts_before position (ph_range item)) sortedItems of
               Some (index, item) \<Rightarrow> Some index
             | None \<Rightarrow> if sortedItems = [] then None else Some (fst (last sortedItems)))"

definition markActiveParameterHintItem :: "TextPosition option \<Rightarrow> ParameterHintContext option \<Rightarrow> ParameterHintContext option" where
  "markActiveParameterHintItem position context =
     (case (context, position) of
        (Some cx, Some p) \<Rightarrow>
          (case getActiveParameterHintItemIndex (pc_items cx) p of
             None \<Rightarrow> Some cx
           | Some activeIndex \<Rightarrow>
               Some (cx\<lparr>pc_anchorRange := ph_range (pc_items cx ! activeIndex),
                 pc_items := map (\<lambda>(index, item). item\<lparr>ph_active := (index = activeIndex)\<rparr>) (List.enumerate 0 (pc_items cx))\<rparr>))
      | _ \<Rightarrow> context)"

definition plain_range :: "ISqlEditorHintRangeVO \<Rightarrow> TextRange" where
  "plain_range r = \<lparr>startLineNumber = as_number (vo_startLineNumber r), startColumn = as_number (vo_startColumn r),
     endLineNumber = as_number (vo_endLineNumber r), endColumn = as_number (vo_endColumn r)\<rparr>"

definition isEditorHintActiveAtPosition :: "TextPosition option \<Rightarrow> ISqlEditorHintVO \<Rightarrow> bool" where
  "isEditorHintActiveAtPosition position editorHint =
     (case position of
        None \<Rightarrow> True
      | Some p \<Rightarrow>
          (case (if vo_type editorHint = ''ROUTINE_PARAMETER'' then vo_rowRange editorHint
                 else or_else (vo_valueRange editorHint) (vo_rowRange editorHint)) of
             None \<Rightarrow> True
           | Some rng \<Rightarrow> isPositionInRange (lineNumber p) (column p) (plain_range rng)))"

text \<open>The first context there is.\<close>

definition first_context :: "ParameterHintContext option list \<Rightarrow> ParameterHintContext option" where
  "first_context cs = (case List.map_filter (\<lambda>c. c) cs of [] \<Rightarrow> None | c # _ \<Rightarrow> Some c)"

definition parameterHintContextFromEditorHints :: "ISqlEditorHintVO list option \<Rightarrow> TextPosition option \<Rightarrow> ParameterHintContext option" where
  "parameterHintContextFromEditorHints editorHints position =
     (let hints = filter (isEditorHintActiveAtPosition position) (or_empty editorHints);
          routineHint = first_context (map (\<lambda>h. markActiveParameterHintItem position
            (parameterHintContextFromRoutine (routineParameterHintContextFromEditorHint (Some h)))) hints)
      in if routineHint \<noteq> None then routineHint
         else first_context (map (\<lambda>h. markActiveParameterHintItem position
            (parameterHintContextFromInsertValue (insertValueHintContextFromEditorHint (Some h)))) hints))"

section \<open>Splitting loses nothing\<close>

definition cuts :: "string \<Rightarrow> nat \<Rightarrow> nat \<Rightarrow> nat list \<Rightarrow> bool" where
  "cuts s i j ps \<longleftrightarrow> set ps \<subseteq> {i..<j} \<and> sorted_wrt (<) ps \<and> (\<forall>p \<in> set ps. s ! p = CHR '','')"

lemma cuts_later: "cuts s i' j ps \<Longrightarrow> i \<le> i' \<Longrightarrow> cuts s i j ps"
  by (auto simp: cuts_def)

lemma cuts_Nil [simp]: "cuts s i j []"
  by (simp add: cuts_def)

lemma cuts_Cons: "cuts s i j (p # ps) \<longleftrightarrow> i \<le> p \<and> p < j \<and> s ! p = CHR '','' \<and> cuts s (p + 1) j ps"
  by (auto simp: cuts_def Suc_le_eq subset_iff)

lemma split_points_cuts: "cuts s index endIndex (split_points s endIndex index depth quote)"
proof (induction s endIndex index depth quote rule: split_points.induct)
  case (1 s endIndex index depth quote)
  note step = split_points.simps[of s endIndex index depth]
  show ?case
  proof (cases "endIndex \<le> index \<or> length s \<le> index")
    case True
    then show ?thesis by (simp add: step)
  next
    case False
    show ?thesis
    proof (cases quote)
      case (Some q)
      have "cuts s index endIndex (split_points s endIndex (fst (quote_step s index q)) depth (snd (quote_step s index q)))"
        using 1(6)[OF False Some] quote_step_later[of index s q] by (auto intro: cuts_later)
      then show ?thesis using False Some by (simp add: step)
    next
      case None
      note next_char = 1(1-5)[OF False None]
      have later: "cuts s (index + 1) endIndex ps \<Longrightarrow> cuts s index endIndex ps" for ps by (erule cuts_later) simp
      show ?thesis
        unfolding step None using False next_char by (simp add: later cuts_Cons del: One_nat_def add_Suc_right Nat.add_0_right)
    qed
  qed
qed

lemma substring_split:
  assumes "i \<le> p" "p < j" "j \<le> length s"
  shows "substring s i p @ s ! p # substring s (p + 1) j = substring s i j"
proof -
  have "take (j - p) (drop p s) = s ! p # substring s (p + 1) j"
    using assms by (simp add: substring_def Cons_nth_drop_Suc[symmetric] take_Cons')
  moreover have "take (j - i) (drop i s) = take (p - i) (drop i s) @ take (j - p) (drop (p - i) (drop i s))"
    using assms take_add[of "p - i" "j - p" "drop i s"] by simp
  ultimately show ?thesis using assms by (simp add: substring_def)
qed

lemma segments_not_empty: "segments i ps j \<noteq> []"
  by (cases ps) auto

lemma join_Cons: "xs \<noteq> [] \<Longrightarrow> join sep (x # xs) = x @ sep @ join sep xs"
  by (cases xs) auto

lemma join_segments:
  "cuts s i j ps \<Longrightarrow> i \<le> j \<Longrightarrow> j \<le> length s
   \<Longrightarrow> join '','' (map (\<lambda>(i, j). substring s i j) (segments i ps j)) = substring s i j"
proof (induction ps arbitrary: i)
  case (Cons p ps)
  then show ?case using substring_split[of i p j s] by (auto simp: cuts_Cons join_Cons segments_not_empty)
qed simp

text \<open>
  the parameter list of a routine is cut at its top-level commas and nothing else is lost: joining the segments of
  \<open>splitTopLevel\<close> with commas gives the text back, whatever brackets and quotes it has.
\<close>

theorem top_level_segments_join: "join '','' (splitTopLevel s 0 (length s)) = s"
  using join_segments[OF split_points_cuts[of s 0 "length s" 0 None]] by (simp add: splitTopLevel_def substring_def)

section \<open>The matching bracket\<close>

text \<open>What stands between a bracket and its match: text in which brackets are balanced and do not count inside of quotes.\<close>

inductive quoted :: "char \<Rightarrow> string \<Rightarrow> bool" for q where
  quoted_end: "quoted q []"
| quoted_char: "c \<noteq> q \<Longrightarrow> c \<noteq> BACKSLASH \<Longrightarrow> quoted q b \<Longrightarrow> quoted q (c # b)"
| quoted_escape: "quoted q b \<Longrightarrow> quoted q (BACKSLASH # c # b)"
| quoted_double: "quoted q b \<Longrightarrow> quoted q (q # q # b)"

inductive balanced :: "string \<Rightarrow> bool" where
  balanced_end: "balanced []"
| balanced_char: "\<not> is_quote c \<Longrightarrow> c \<noteq> CHR ''('' \<Longrightarrow> c \<noteq> CHR '')'' \<Longrightarrow> balanced r \<Longrightarrow> balanced (c # r)"
| balanced_quote: "is_quote q \<Longrightarrow> quoted q b \<Longrightarrow> balanced r \<Longrightarrow> \<not> startsWith r [q] \<Longrightarrow> balanced (q # b @ q # r)"
| balanced_group: "balanced a \<Longrightarrow> balanced r \<Longrightarrow> balanced (CHR ''('' # a @ CHR '')'' # r)"

lemma quote_not_backslash: "is_quote q \<Longrightarrow> q \<noteq> BACKSLASH"
  by (auto simp: is_quote_def)

lemma char_at_append: "char_at_is (pre @ c # post) (length pre) d \<longleftrightarrow> c = d"
  by (simp add: char_at_is_def)

lemma find_matching_quoted:
  "quoted q b \<Longrightarrow> is_quote q \<Longrightarrow> \<not> startsWith post [q] \<Longrightarrow>
     find_matching (pre @ b @ q # post) (length pre) d (Some q)
     = find_matching (pre @ b @ q # post) (length pre + length b + 1) d None"
proof (induction arbitrary: pre rule: quoted.induct)
  case quoted_end
  have "\<not> char_at_is (pre @ q # post) (Suc (length pre)) q"
    using quoted_end by (cases post) (auto simp: char_at_is_def nth_append startsWith_def)
  then show ?case
    using quote_not_backslash[OF quoted_end(1)] by (subst find_matching.simps) (simp add: quote_step_def nth_append)
next
  case (quoted_char c b)
  show ?case
    using quoted_char.IH[OF quoted_char.prems, of "pre @ [c]"] quoted_char.hyps
    by (subst find_matching.simps) (simp add: quote_step_def nth_append)
next
  case (quoted_escape b c)
  show ?case
    using quoted_escape.IH[OF quoted_escape.prems, of "pre @ [BACKSLASH, c]"]
    by (subst find_matching.simps) (simp add: quote_step_def nth_append)
next
  case (quoted_double b)
  show ?case
    using quoted_double.IH[OF quoted_double.prems, of "pre @ [q, q]"] quote_not_backslash[OF quoted_double.prems(1)]
    by (subst find_matching.simps) (simp add: quote_step_def nth_append char_at_is_def)
qed

lemma find_matching_balanced:
  "balanced b \<Longrightarrow> (\<forall>q. is_quote q \<longrightarrow> \<not> startsWith post [q]) \<Longrightarrow> 1 \<le> d \<Longrightarrow>
     find_matching (pre @ b @ post) (length pre) d None = find_matching (pre @ b @ post) (length pre + length b) d None"
proof (induction arbitrary: pre post d rule: balanced.induct)
  case (balanced_char c r)
  show ?case
    using balanced_char.IH[OF balanced_char.prems, of "pre @ [c]"] balanced_char.hyps
    by (subst find_matching.simps) (simp add: nth_append)
next
  case (balanced_quote q b r)
  have "\<not> startsWith (r @ post) [q]"
    using balanced_quote.hyps balanced_quote.prems by (cases r) (auto simp: startsWith_def)
  then have "find_matching (pre @ (q # b @ q # r) @ post) (length pre) d None
      = find_matching (pre @ (q # b @ q # r) @ post) (length (pre @ q # b @ [q])) d None"
    using find_matching_quoted[of q b "r @ post" "pre @ [q]" d] balanced_quote.hyps
    by (subst find_matching.simps) (simp add: nth_append)
  also have "\<dots> = find_matching (pre @ (q # b @ q # r) @ post) (length pre + length (q # b @ q # r)) d None"
    using balanced_quote.IH[OF balanced_quote.prems, of "pre @ q # b @ [q]"] by (simp add: add.assoc)
  finally show ?case .
next
  case (balanced_group a r)
  let ?s = "pre @ (CHR ''('' # a @ CHR '')'' # r) @ post"
  have "find_matching ?s (length pre) d None = find_matching ?s (length (pre @ [CHR ''(''])) (d + 1) None"
    by (subst find_matching.simps) (simp add: nth_append is_quote_def)
  also have "\<dots> = find_matching ?s (length (pre @ CHR ''('' # a)) (d + 1) None"
    using balanced_group.IH(1)[of "CHR '')'' # r @ post" "d + 1" "pre @ [CHR ''('']"] balanced_group.prems
    by (simp add: startsWith_def is_quote_def)
  also have "\<dots> = find_matching ?s (length (pre @ CHR ''('' # a @ [CHR '')''])) d None"
    using balanced_group.prems by (subst find_matching.simps) (simp add: nth_append is_quote_def)
  also have "\<dots> = find_matching ?s (length pre + length (CHR ''('' # a @ CHR '')'' # r)) d None"
    using balanced_group.IH(2)[OF balanced_group.prems, of "pre @ CHR ''('' # a @ [CHR '')'']"] by (simp add: add.assoc)
  finally show ?case .
qed simp

text \<open>
  \<open>findMatchingParenthesis\<close> finds the bracket that closes the one it starts at. Between the two stands any text in
  which brackets are balanced, with brackets, doubled quotes and escapes inside of quotes not counted.
\<close>

theorem matching_parenthesis_found:
  assumes "balanced b"
  shows "findMatchingParenthesis (pre @ CHR ''('' # b @ CHR '')'' # post) (length pre) = Some (length pre + length b + 1)"
proof -
  let ?s = "pre @ CHR ''('' # b @ CHR '')'' # post"
  have "findMatchingParenthesis ?s (length pre) = find_matching ?s (length (pre @ [CHR ''(''])) 1 None"
    unfolding findMatchingParenthesis_def by (subst find_matching.simps) (simp add: nth_append is_quote_def)
  also have "\<dots> = find_matching ?s (length (pre @ CHR ''('' # b)) 1 None"
    using find_matching_balanced[OF assms, of "CHR '')'' # post" 1 "pre @ [CHR ''('']"] by (simp add: startsWith_def is_quote_def)
  also have "\<dots> = Some (length pre + length b + 1)"
    by (subst find_matching.simps) (simp add: nth_append is_quote_def)
  finally show ?thesis .
qed

lemma balanced_sample: "balanced (''a(b),'' @ [SQUOTE, CHR '')'', SQUOTE])"
proof -
  have "balanced (SQUOTE # [CHR '')''] @ SQUOTE # [])"
    by (rule balanced_quote) (auto intro: balanced_end quoted.intros simp: is_quote_def startsWith_def)
  then have "balanced ('','' @ [SQUOTE, CHR '')'', SQUOTE])" by (auto intro: balanced_char simp: is_quote_def)
  moreover have "balanced ''b''" by (auto intro: balanced_char balanced_end simp: is_quote_def)
  ultimately have "balanced (CHR ''('' # ''b'' @ CHR '')'' # ('','' @ [SQUOTE, CHR '')'', SQUOTE]))" by (rule balanced_group[rotated])
  then show ?thesis by (auto intro: balanced_char simp: is_quote_def)
qed

theorem matching_parenthesis_found_witness:
  "balanced (''a(b),'' @ [SQUOTE, CHR '')'', SQUOTE])
   \<and> findMatchingParenthesis (''f(a(b),'' @ [SQUOTE, CHR '')'', SQUOTE] @ '')+g()'') 1 = Some 10"
  using matching_parenthesis_found[OF balanced_sample, of "''f''" "''+g()''"] balanced_sample by simp

section \<open>One active hint\<close>

lemma enumerate_snd: "(i, x) \<in> set (List.enumerate 0 xs) \<longleftrightarrow> i < length xs \<and> x = xs ! i"
  by (auto simp: in_set_enumerate_eq)

lemma active_item_in_list:
  assumes "getActiveParameterHintItemIndex items p = Some k"
  shows "k < length items"
proof (cases "find_index (\<lambda>item. isPositionInRange (lineNumber p) (column p) (ph_range item)) items")
  case None
  let ?sorted = "js_sort compareIndexedItems (List.enumerate 0 items)"
  have members: "(i, x) \<in> set ?sorted \<Longrightarrow> i < length items" for i x by (simp add: enumerate_snd)
  show ?thesis
    using assms None members last_in_set[of ?sorted]
    by (auto simp: getActiveParameterHintItemIndex_def Let_def split: option.splits prod.splits if_splits dest!: find_SomeD) (metis prod.collapse)
qed (use assms find_index_bound in \<open>auto simp: getActiveParameterHintItemIndex_def\<close>)

lemma active_item_exists: "items \<noteq> [] \<Longrightarrow> getActiveParameterHintItemIndex items p \<noteq> None"
  by (auto simp: getActiveParameterHintItemIndex_def Let_def split: option.splits prod.splits dest: arg_cong[of _ _ length])

text \<open>What the marks of a context say of a position.\<close>

definition marked_for :: "TextPosition \<Rightarrow> ParameterHintContext \<Rightarrow> bool" where
  "marked_for p cx \<longleftrightarrow>
     (\<exists>k < length (pc_items cx).
        (\<forall>i < length (pc_items cx). ph_active (pc_items cx ! i) \<longleftrightarrow> i = k)
        \<and> pc_anchorRange cx = ph_range (pc_items cx ! k)
        \<and> ((\<exists>item \<in> set (pc_items cx). isPositionInRange (lineNumber p) (column p) (ph_range item))
             \<longrightarrow> isPositionInRange (lineNumber p) (column p) (ph_range (pc_items cx ! k))))"

lemma active_item_contains:
  "getActiveParameterHintItemIndex items p = Some k \<Longrightarrow> item \<in> set items \<Longrightarrow> isPositionInRange (lineNumber p) (column p) (ph_range item)
   \<Longrightarrow> isPositionInRange (lineNumber p) (column p) (ph_range (items ! k))"
  by (auto simp: getActiveParameterHintItemIndex_def find_index_None dest: find_index_bound split: option.splits)

lemma mark_marks:
  assumes "markActiveParameterHintItem (Some p) (Some c) = Some cx" "pc_items c \<noteq> []"
  shows "marked_for p cx"
proof -
  obtain k where k: "getActiveParameterHintItemIndex (pc_items c) p = Some k" using active_item_exists[OF assms(2)] by auto
  have cx: "cx = c\<lparr>pc_anchorRange := ph_range (pc_items c ! k),
      pc_items := map (\<lambda>(index, item). item\<lparr>ph_active := (index = k)\<rparr>) (List.enumerate 0 (pc_items c))\<rparr>"
    using assms(1) k by (simp add: markActiveParameterHintItem_def)
  have "k < length (pc_items c)" by (rule active_item_in_list[OF k])
  moreover have "isPositionInRange (lineNumber p) (column p) (ph_range (pc_items c ! k))"
    if "i < length (pc_items c)" "isPositionInRange (lineNumber p) (column p) (ph_range (pc_items c ! i))" for i
    using active_item_contains[OF k, of "pc_items c ! i"] that by simp
  ultimately show ?thesis
    unfolding marked_for_def by (intro exI[of _ k]) (auto simp: cx nth_enumerate_eq in_set_conv_nth)
qed

lemma first_context_in:
  assumes "first_context cs = Some c"
  shows "Some c \<in> set cs"
proof -
  have "c \<in> set (List.map_filter (\<lambda>c. c) cs)" using assms by (auto simp: first_context_def split: list.splits)
  then show ?thesis by (auto simp: List.map_filter_def)
qed

lemma from_routine_items: "parameterHintContextFromRoutine rc = Some c \<Longrightarrow> pc_items c \<noteq> []"
  by (auto simp: parameterHintContextFromRoutine_def split: option.splits if_splits)

lemma from_insert_items: "parameterHintContextFromInsertValue ic = Some c \<Longrightarrow> pc_items c \<noteq> []"
  by (auto simp: parameterHintContextFromInsertValue_def split: option.splits if_splits)

lemma mark_of_None [simp]: "markActiveParameterHintItem p None = None"
  by (simp add: markActiveParameterHintItem_def)

text \<open>
  the hints that are shown for a cursor position, of a routine or of an insert and whatever marks the service sent, have
  exactly one active item; the widget is anchored at its range, and when the cursor lies in the range of some item, it lies in that of the active one.
\<close>

theorem one_hint_active:
  assumes "parameterHintContextFromEditorHints editorHints (Some p) = Some cx"
  shows "marked_for p cx"
proof -
  let ?hints = "filter (isEditorHintActiveAtPosition (Some p)) (or_empty editorHints)"
  have "Some cx \<in> set (map (\<lambda>h. markActiveParameterHintItem (Some p)
            (parameterHintContextFromRoutine (routineParameterHintContextFromEditorHint (Some h)))) ?hints)
        \<or> Some cx \<in> set (map (\<lambda>h. markActiveParameterHintItem (Some p)
            (parameterHintContextFromInsertValue (insertValueHintContextFromEditorHint (Some h)))) ?hints)"
    using assms by (auto simp only: parameterHintContextFromEditorHints_def Let_def split: if_splits dest!: first_context_in)
  then obtain c where "Some cx = markActiveParameterHintItem (Some p) (Some c)" "pc_items c \<noteq> []"
    by (auto dest!: sym[of "Some cx"]) (metis from_routine_items from_insert_items mark_of_None option.exhaust option.distinct(1))+
  then show ?thesis using mark_marks by metis
qed

definition call_hint :: ISqlEditorHintVO where
  "call_hint =
     (let rng = (\<lambda>a b. Some \<lparr>vo_startLineNumber = Num 1, vo_startColumn = Num a, vo_endLineNumber = Num 1, vo_endColumn = Num b\<rparr>);
          item = (\<lambda>i name a b. \<lparr>vo_rowIndex = Num 0, vo_columnIndex = Num i, vo_fieldName = Some name, vo_fieldType = Some ''int'',
            vo_defaultValue = None, vo_label = None, vo_range = rng a b, vo_active = None\<rparr>)
      in \<lparr>vo_type = ''ROUTINE_PARAMETER'', vo_statementRange = None, vo_rowRange = rng 1 12, vo_valueRange = None,
           vo_items = Some [item 0 ''a'' 6 7, item 1 ''b'' 9 10]\<rparr>)"

theorem one_hint_active_witness:
  "\<exists>cx. parameterHintContextFromEditorHints (Some [call_hint]) (Some \<lparr>lineNumber = 1, column = 9\<rparr>) = Some cx
     \<and> marked_for \<lparr>lineNumber = 1, column = 9\<rparr> cx"
proof -
  have "parameterHintContextFromEditorHints (Some [call_hint]) (Some \<lparr>lineNumber = 1, column = 9\<rparr>) \<noteq> None" by code_simp
  then show ?thesis using one_hint_active by blast
qed

lemma routine_hints_nth:
  "i < length parameters \<Longrightarrow> ri_active (routine_hints parameters ranges d k ! i) = (i = k)
     \<and> ri_range (routine_hints parameters ranges d k ! i) = nth_or d ranges i"
  by (simp add: routine_hints_def nth_enumerate_eq)

lemma active_argument_bound: "0 < n \<Longrightarrow> getActiveArgumentIndex cursor ranges n < n"
  by (auto simp: getActiveArgumentIndex_def split: option.splits)

text \<open>
  the hints for a call that the client works out itself have exactly one active parameter, also when the call has more or
  fewer arguments than the routine has parameters, and the widget is anchored at the argument of that parameter.
\<close>

theorem routine_call_one_active:
  assumes "getRoutineParameterHintContext payload cursor getLine = Some cx"
  shows "\<exists>k < length (rc_hints cx). (\<forall>i < length (rc_hints cx). ri_active (rc_hints cx ! i) \<longleftrightarrow> i = k)
           \<and> rc_anchorRange cx = ri_range (rc_hints cx ! k)"
proof -
  obtain parameters ranges d cur where cx: "parameters \<noteq> []"
      "rc_hints cx = routine_hints parameters ranges d (getActiveArgumentIndex cur ranges (length parameters))"
      "rc_anchorRange cx = nth_or d ranges (getActiveArgumentIndex cur ranges (length parameters))"
    using assms by (auto simp: getRoutineParameterHintContext_def Let_def split: option.splits if_splits)
  let ?k = "getActiveArgumentIndex cur ranges (length parameters)"
  have "length (rc_hints cx) = length parameters" by (simp add: cx(2) routine_hints_def)
  moreover have "?k < length parameters" using cx(1) by (intro active_argument_bound) simp
  ultimately show ?thesis by (intro exI[of _ ?k]) (simp add: cx(2,3) routine_hints_nth)
qed

theorem routine_call_one_active_witness:
  "\<exists>cx. getRoutineParameterHintContext
       (Some \<lparr>pl_routineName = Some ''db.f'', pl_routineType = None, pl_detail = Some ''(a int, b decimal(5,2))'', pl_insertText = None\<rparr>)
       (Some \<lparr>lineNumber = 1, column = 17\<rparr>) (Some (\<lambda>_. Some ''select F (g(1,2), 3) x'')) = Some cx
     \<and> map ri_label (rc_hints cx) = [''a:int'', ''b:decimal(5,2)'']
     \<and> (\<exists>k < length (rc_hints cx). (\<forall>i < length (rc_hints cx). ri_active (rc_hints cx ! i) \<longleftrightarrow> i = k)
           \<and> rc_anchorRange cx = ri_range (rc_hints cx ! k))"
    (is "\<exists>cx. ?f = Some cx \<and> _")
proof -
  have "?f \<noteq> None" "map_option (\<lambda>cx. map ri_label (rc_hints cx)) ?f = Some [''a:int'', ''b:decimal(5,2)'']" by code_simp+
  then show ?thesis using routine_call_one_active by fastforce
qed

end
