(* ===== verification/Result_Edits.thy ===== *)
theory Result_Edits
  imports Column_State "HOL-Library.AList"
begin

text \<open>
  Editing of result data before it is submitted: \<open>hooks/useOperationRecord.tsx\<close>, \<open>hooks/operationRecord.ts\<close> and
  \<open>event/onChangeCellValue\<close> of \<open>blocks/SearchResult/components/ResultSetTable\<close>, with \<open>blocks/CanvasTable/utils\<close> and
  \<open>blocks/SearchResult/utils.tsx\<close>. The table itself is a third-party component: its methods are the fields of \<open>vtable\<close>, over
  an unknown state, and \<open>vtable_laws\<close> is what the code relies on. A cell holds a string or \<open>null\<close>.
\<close>

section \<open>Rows and the table\<close>

type_synonym cell_value = "string option"

record ResultRow =
  row_number :: string
  row_cells :: "(string \<times> cell_value) list"
  row_meta :: "jsval list option"

definition cell_of :: "ResultRow \<Rightarrow> string \<Rightarrow> cell_value option" where
  "cell_of row f = map_of (row_cells row) f"

definition set_cell :: "string \<Rightarrow> cell_value \<Rightarrow> ResultRow \<Rightarrow> ResultRow" where
  "set_cell f v row = row\<lparr>row_cells := AList.update f v (row_cells row)\<rparr>"

text \<open>Assignment to an index of an array, which extends the array when it lies behind its end.\<close>

definition array_set :: "nat \<Rightarrow> jsval \<Rightarrow> jsval list \<Rightarrow> jsval list" where
  "array_set n v xs = (if n < length xs then xs[n := v] else xs @ replicate (n - length xs) Undefined @ [v])"

record SelectedCell =
  sel_row :: int
  sel_field :: string
  sel_origin :: "ResultRow option"

datatype style_target = StyleCell int int | StyleRange int int int int

record TableHeader =
  th_autoIncrement :: bool
  th_defaultValue :: "string option"

record TableColumn =
  tc_field :: "string option"
  tc_header :: "TableHeader option"
  tc_hide :: bool

record 't vtable =
  vt_records :: "'t \<Rightarrow> ResultRow list"
  vt_with_records :: "ResultRow list \<Rightarrow> 't \<Rightarrow> 't"
  vt_indexed :: "'t \<Rightarrow> nat list option"
  vt_columns :: "'t \<Rightarrow> TableColumn list"
  vt_colCount :: "'t \<Rightarrow> int"
  vt_getTableIndexByField :: "'t \<Rightarrow> string \<Rightarrow> int"
  vt_getHeaderField :: "'t \<Rightarrow> int \<Rightarrow> int \<Rightarrow> jsval"
  vt_getRecordByCell :: "'t \<Rightarrow> int \<Rightarrow> int \<Rightarrow> ResultRow option"
  vt_changeCellValue :: "int \<Rightarrow> int \<Rightarrow> cell_value \<Rightarrow> 't \<Rightarrow> 't"
  vt_addRecords :: "ResultRow list \<Rightarrow> 't \<Rightarrow> 't"
  vt_deleteRecords :: "int list \<Rightarrow> 't \<Rightarrow> 't"
  vt_getSelectedCellInfos :: "'t \<Rightarrow> SelectedCell list list"
  vt_arrangeCustomCellStyle :: "style_target \<Rightarrow> string \<Rightarrow> 't \<Rightarrow> 't"
  vt_resetArrangement :: "'t \<Rightarrow> 't"
  vt_clearSelected :: "'t \<Rightarrow> 't"
  vt_scrollToCell :: "nat \<Rightarrow> 't \<Rightarrow> 't"

definition getRowOriginData :: "'t vtable \<Rightarrow> 't \<Rightarrow> string \<Rightarrow> ResultRow option" where
  "getRowOriginData vt t rowId = List.find (\<lambda>r. row_number r = rowId) (vt_records vt t)"

definition getSortedOrFilteredData :: "'t vtable \<Rightarrow> 't \<Rightarrow> ResultRow option list" where
  "getSortedOrFilteredData vt t =
     (case vt_indexed vt t of
        None \<Rightarrow> []
      | Some indexes \<Rightarrow> map (\<lambda>i. if i < length (vt_records vt t) then Some (vt_records vt t ! i) else None) indexes)"

definition findRowNumberById :: "'t vtable \<Rightarrow> 't \<Rightarrow> string \<Rightarrow> int" where
  "findRowNumberById vt t rowId =
     (case find_index (\<lambda>r. map_option row_number r = Some rowId) (getSortedOrFilteredData vt t) of Some i \<Rightarrow> int i + 1 | None \<Rightarrow> 0)"

definition findRowNumbersByIds :: "'t vtable \<Rightarrow> 't \<Rightarrow> string list \<Rightarrow> int list" where
  "findRowNumbersByIds vt t ids = map (findRowNumberById vt t) ids"

definition findColNumberById :: "'t vtable \<Rightarrow> 't \<Rightarrow> string \<Rightarrow> int" where
  "findColNumberById vt t f = vt_getTableIndexByField vt t f"

definition getRowOriginDataAsArray :: "TableColumn list \<Rightarrow> ResultRow list \<Rightarrow> cell_value list list" where
  "getRowOriginDataAsArray columns rows =
     (let shown = filter (\<lambda>c. \<not> tc_hide c) columns
      in map (\<lambda>row. map (\<lambda>c. the_default None (Option.bind (tc_field c) (cell_of row))) shown) rows)"

definition isSelected :: "int \<Rightarrow> int \<Rightarrow> (int \<times> int) list list \<Rightarrow> bool" where
  "isSelected row col selectedCells = list_ex (list_ex (\<lambda>c. c = (row, col))) selectedCells"

text \<open>The objects of the rows are mutated in place, also through the table.\<close>

fun update_row :: "string \<Rightarrow> (ResultRow \<Rightarrow> ResultRow) \<Rightarrow> ResultRow list \<Rightarrow> ResultRow list" where
  "update_row rowId f [] = []"
| "update_row rowId f (r # rs) = (if row_number r = rowId then f r # rs else r # update_row rowId f rs)"

definition mutate_row :: "'t vtable \<Rightarrow> string \<Rightarrow> (ResultRow \<Rightarrow> ResultRow) \<Rightarrow> 't \<Rightarrow> 't" where
  "mutate_row vt rowId f t = vt_with_records vt (update_row rowId f (vt_records vt t)) t"

section \<open>Values of new rows and pasting\<close>

definition GENERATED_VALUE :: string where
  "GENERATED_VALUE = ''CHAT2DB_UPDATE_TABLE_DATA_USER_FILLED_GENERATED''"

definition DEFAULT_VALUE :: string where
  "DEFAULT_VALUE = ''CHAT2DB_UPDATE_TABLE_DATA_USER_FILLED_DEFAULT''"

definition getBlankCreateCellValue :: "TableHeader \<Rightarrow> cell_value" where
  "getBlankCreateCellValue header =
     (if th_autoIncrement header then Some GENERATED_VALUE else if th_defaultValue header = None then None else Some DEFAULT_VALUE)"

definition getClonedCreateCellValue :: "TableHeader \<Rightarrow> cell_value option \<Rightarrow> cell_value option" where
  "getClonedCreateCellValue header v = (if th_autoIncrement header then Some (Some GENERATED_VALUE) else v)"

definition normalizePasteTargetCell :: "int \<times> int \<Rightarrow> int \<times> int" where
  "normalizePasteTargetCell c = (if fst c = 0 then 1 else fst c, if snd c = 0 then 1 else snd c)"

record PasteRange =
  pr_col :: int
  pr_row :: int
  pr_maxCol :: int
  pr_maxRow :: int

definition normalizePasteTargetRange :: "int \<Rightarrow> int \<Rightarrow> int \<Rightarrow> int \<Rightarrow> PasteRange" where
  "normalizePasteTargetRange startCol startRow endCol endRow =
     (let s = normalizePasteTargetCell (min startRow endRow, min startCol endCol);
          e = normalizePasteTargetCell (max startRow endRow, max startCol endCol)
      in \<lparr>pr_col = snd s, pr_row = fst s, pr_maxCol = max (snd s) (snd e), pr_maxRow = max (fst s) (fst e)\<rparr>)"

definition paste_value ::
  "TableColumn list \<Rightarrow> (int \<Rightarrow> int \<Rightarrow> string option) \<Rightarrow> (string option \<Rightarrow> bool) \<Rightarrow> int \<Rightarrow> int \<Rightarrow> cell_value \<Rightarrow> cell_value" where
  "paste_value columns getRowId isCreateRow targetRow targetCol v =
     (if \<not> isCreateRow (getRowId targetRow targetCol) then v
      else case (if 1 \<le> targetCol \<and> nat (targetCol - 1) < length columns then tc_header (columns ! nat (targetCol - 1)) else None) of
        None \<Rightarrow> v
      | Some header \<Rightarrow> the_default v (getClonedCreateCellValue header (Some v)))"

definition normalizeCreateRowPasteValues ::
  "cell_value list list \<Rightarrow> int \<Rightarrow> int \<Rightarrow> TableColumn list \<Rightarrow> (int \<Rightarrow> int \<Rightarrow> string option) \<Rightarrow> (string option \<Rightarrow> bool) option \<Rightarrow> cell_value list list" where
  "normalizeCreateRowPasteValues vs startCol startRow columns getRowId isCreateRow =
     (case isCreateRow of
        None \<Rightarrow> vs
      | Some isCreate \<Rightarrow>
          map (\<lambda>(rowIndex, rowValues).
              map (\<lambda>(colIndex, v). paste_value columns getRowId isCreate (startRow + int rowIndex) (startCol + int colIndex) v)
                (List.enumerate 0 rowValues))
            (List.enumerate 0 vs))"

section \<open>The state of the hook\<close>

record ICellChangeRecord =
  cg_field :: string
  cg_rowId :: string
  cg_currentValue :: cell_value
  cg_changedValue :: cell_value
  cg_restoreValue :: "cell_value option"
  cg_restoreCellMeta :: "jsval option"

text \<open>The table, the references that hold the newest lists, the lists as React has them, and whether changes are listened to.\<close>

record 't EditState =
  es_table :: 't
  es_cells :: "ICellChangeRecord list"
  es_creates :: "string list"
  es_deletes :: "string list"
  es_cellState :: "ICellChangeRecord list"
  es_createState :: "string list"
  es_deleteState :: "string list"
  es_listen :: bool

definition set_cells :: "ICellChangeRecord list \<Rightarrow> 't EditState \<Rightarrow> 't EditState" where
  "set_cells xs st = st\<lparr>es_cells := xs, es_cellState := xs\<rparr>"

definition set_creates :: "string list \<Rightarrow> 't EditState \<Rightarrow> 't EditState" where
  "set_creates xs st = st\<lparr>es_creates := xs, es_createState := xs\<rparr>"

definition set_deletes :: "string list \<Rightarrow> 't EditState \<Rightarrow> 't EditState" where
  "set_deletes xs st = st\<lparr>es_deletes := xs, es_deleteState := xs\<rparr>"

definition hasOperationRecord :: "'t EditState \<Rightarrow> bool" where
  "hasOperationRecord st \<longleftrightarrow> es_cellState st \<noteq> [] \<or> es_createState st \<noteq> [] \<or> es_deleteState st \<noteq> []"

definition isCreateRow :: "'t EditState \<Rightarrow> string option \<Rightarrow> bool" where
  "isCreateRow st rowId = (case rowId of None \<Rightarrow> False | Some i \<Rightarrow> i \<in> set (es_creates st))"

section \<open>Changes of cells\<close>

text \<open>
  What the listener of \<open>change_cell_value\<close> does with an event: nothing, put the old value back (frozen columns and large values cannot
  be edited), report the change, or throw when the cell belongs to no row. The event it causes itself is ignored.
\<close>

datatype listener_action = IgnoreChange | RestoreValue | ReportChange ICellChangeRecord | MissingRow

definition is_large :: "jsval \<Rightarrow> bool" where
  "is_large meta = truthy (jget meta ''largeValue'')"

definition onChangeCellValue :: "'t vtable \<Rightarrow> string set \<Rightarrow> 't \<Rightarrow> int \<Rightarrow> int \<Rightarrow> cell_value \<Rightarrow> cell_value \<Rightarrow> listener_action" where
  "onChangeCellValue vt readOnlyFields t col row currentValue changedValue =
     (if currentValue = changedValue then IgnoreChange
      else
        let originData = vt_getRecordByCell vt t col row;
            cellMeta = getResultCellMetaAtTableColumn (vt_getHeaderField vt t) (Option.bind originData row_meta) col row;
            headerField = js_String (vt_getHeaderField vt t col row)
        in if headerField \<in> readOnlyFields \<or> (case cellMeta of Some m \<Rightarrow> is_large m | None \<Rightarrow> False) then RestoreValue
           else case originData of
             None \<Rightarrow> MissingRow
           | Some r \<Rightarrow> ReportChange \<lparr>cg_field = headerField, cg_rowId = row_number r, cg_currentValue = currentValue,
               cg_changedValue = changedValue, cg_restoreValue = None, cg_restoreCellMeta = None\<rparr>)"

definition value_at :: "'t vtable \<Rightarrow> 't \<Rightarrow> int \<Rightarrow> int \<Rightarrow> cell_value" where
  "value_at vt t col row =
     the_default None (Option.bind (vt_getRecordByCell vt t col row) (\<lambda>r. cell_of r (js_String (vt_getHeaderField vt t col row))))"

text \<open>
  A call of \<open>changeCellValue\<close> while tracking is paused: the report is ignored, but the listener may still put the old value back. The rows
  for which this is called are selected ones, so there is a row.
\<close>

definition change_while_paused :: "'t vtable \<Rightarrow> string set \<Rightarrow> int \<Rightarrow> int \<Rightarrow> cell_value \<Rightarrow> 't \<Rightarrow> 't" where
  "change_while_paused vt readOnlyFields col row v t =
     (let t' = vt_changeCellValue vt col row v t
      in case onChangeCellValue vt readOnlyFields t' col row (value_at vt t col row) v of
           RestoreValue \<Rightarrow> vt_changeCellValue vt col row (value_at vt t col row) t'
         | _ \<Rightarrow> t')"

definition handleRevocationCellStyle ::
  "'t vtable \<Rightarrow> string set \<Rightarrow> string \<Rightarrow> string \<Rightarrow> cell_value option \<Rightarrow> jsval option \<Rightarrow> 't \<Rightarrow> 't" where
  "handleRevocationCellStyle vt readOnlyFields f rowId v cellMeta t =
     (let rowNumber = findRowNumberById vt t rowId;
          colNumber = findColNumberById vt t f;
          originData = getRowOriginData vt t rowId;
          t1 = (if colNumber \<ge> 1 then vt_arrangeCustomCellStyle vt (StyleCell colNumber rowNumber) [] t else t);
          t2 = (case v of
                  None \<Rightarrow> t1
                | Some w \<Rightarrow>
                    if colNumber \<ge> 1 then change_while_paused vt readOnlyFields colNumber rowNumber w t1
                    else if originData \<noteq> None then mutate_row vt rowId (set_cell f w) t1
                    else t1)
      in case (cellMeta, Option.bind originData row_meta, js_Number (Some f)) of
           (Some meta, Some _, Some n) \<Rightarrow>
             if 0 \<le> n then mutate_row vt rowId (\<lambda>r. r\<lparr>row_meta := map_option (array_set (nat n) meta) (row_meta r)\<rparr>) t2 else t2
         | _ \<Rightarrow> t2)"

definition handleRevocationRowStyle :: "'t vtable \<Rightarrow> string \<Rightarrow> 't \<Rightarrow> 't" where
  "handleRevocationRowStyle vt rowId t =
     (let rowNumber = findRowNumberById vt t rowId
      in vt_arrangeCustomCellStyle vt (StyleRange rowNumber 0 rowNumber (max 0 (vt_colCount vt t - 1))) [] t)"

definition same_cell :: "ICellChangeRecord \<Rightarrow> ICellChangeRecord \<Rightarrow> bool" where
  "same_cell a b \<longleftrightarrow> cg_field a = cg_field b \<and> cg_rowId a = cg_rowId b"

definition splice_out :: "nat \<Rightarrow> 'a list \<Rightarrow> 'a list" where
  "splice_out i xs = take i xs @ drop (Suc i) xs"

text \<open>The second edit of a cell keeps what the first one remembered.\<close>

definition merge_change :: "ICellChangeRecord \<Rightarrow> ICellChangeRecord \<Rightarrow> ICellChangeRecord" where
  "merge_change previous r =
     r\<lparr>cg_currentValue := cg_currentValue previous,
       cg_restoreValue := (if cg_restoreValue r \<noteq> None then cg_restoreValue r else cg_restoreValue previous),
       cg_restoreCellMeta := (if cg_restoreCellMeta r \<noteq> None then cg_restoreCellMeta r else cg_restoreCellMeta previous)\<rparr>"

text \<open>\<open>None\<close>: the row is not in the table, and reading its number throws.\<close>

definition handleCellValueChange :: "'t vtable \<Rightarrow> string set \<Rightarrow> ICellChangeRecord \<Rightarrow> 't EditState \<Rightarrow> 't EditState option" where
  "handleCellValueChange vt readOnlyFields r st =
     (if \<not> es_listen st then Some st
      else case getRowOriginData vt (es_table st) (cg_rowId r) of
        None \<Rightarrow> None
      | Some originData \<Rightarrow>
          if row_number originData \<in> set (es_creates st) then Some st
          else
            let st1 = (if row_number originData \<in> set (es_deletes st)
                  then set_deletes (filter (\<lambda>i. i \<noteq> row_number originData) (es_deletes st))
                         (st\<lparr>es_table := handleRevocationRowStyle vt (row_number originData) (es_table st)\<rparr>)
                  else st)
            in Some (case find_index (same_cell r) (es_cells st1) of
                 None \<Rightarrow> set_cells (es_cells st1 @ [r]) st1
               | Some index \<Rightarrow>
                   let newRecord = merge_change (es_cells st1 ! index) r;
                       others = splice_out index (es_cells st1)
                   in if cg_currentValue newRecord = cg_changedValue r
                      then set_cells others (st1\<lparr>es_table := handleRevocationCellStyle vt readOnlyFields (cg_field newRecord) (cg_rowId newRecord)
                             (cg_restoreValue newRecord) (cg_restoreCellMeta newRecord) (es_table st1)\<rparr>)
                      else set_cells (others @ [newRecord]) st1))"

text \<open>An edit in the table: its editor changes the value, and the listener reports the change.\<close>

definition edit_cell :: "'t vtable \<Rightarrow> string set \<Rightarrow> int \<Rightarrow> int \<Rightarrow> cell_value \<Rightarrow> 't EditState \<Rightarrow> 't EditState option" where
  "edit_cell vt readOnlyFields col row v st =
     (let t = es_table st; t' = vt_changeCellValue vt col row v t
      in case onChangeCellValue vt readOnlyFields t' col row (value_at vt t col row) v of
           IgnoreChange \<Rightarrow> Some (st\<lparr>es_table := t'\<rparr>)
         | RestoreValue \<Rightarrow> Some (st\<lparr>es_table := vt_changeCellValue vt col row (value_at vt t col row) t'\<rparr>)
         | MissingRow \<Rightarrow> None
         | ReportChange r \<Rightarrow> handleCellValueChange vt readOnlyFields r (st\<lparr>es_table := t'\<rparr>))"

section \<open>Rows\<close>

definition handleCreateRowRecord :: "string list \<Rightarrow> 't EditState \<Rightarrow> 't EditState" where
  "handleCreateRowRecord rows st = set_creates (es_creates st @ rows) st"

text \<open>Rows that are deleted already are looked up in the list from before the call.\<close>

fun delete_row_records :: "string list \<Rightarrow> string list \<Rightarrow> 't EditState \<Rightarrow> 't EditState" where
  "delete_row_records deleted [] st = st"
| "delete_row_records deleted (row # rows) st =
     delete_row_records deleted rows
       (if row \<in> set (es_creates st) then set_creates (remove1 row (es_creates st)) st
        else if row \<in> set deleted then st
        else st\<lparr>es_deletes := es_deletes st @ [row]\<rparr>)"

definition handleDeleteRowRecord :: "string list \<Rightarrow> 't EditState \<Rightarrow> 't EditState" where
  "handleDeleteRowRecord rows st =
     (let st' = delete_row_records (es_deletes st) rows st in set_deletes (es_deletes st') st')"

definition selected_row_id :: "SelectedCell list \<Rightarrow> string option" where
  "selected_row_id cells = (case cells of [] \<Rightarrow> None | c # _ \<Rightarrow> map_option row_number (sel_origin c))"

definition undo_value :: "ICellChangeRecord \<Rightarrow> cell_value" where
  "undo_value r = the_default (cg_currentValue r) (cg_restoreValue r)"

definition restore_cell :: "'t vtable \<Rightarrow> string set \<Rightarrow> ICellChangeRecord \<Rightarrow> 't \<Rightarrow> 't" where
  "restore_cell vt readOnlyFields r t =
     handleRevocationCellStyle vt readOnlyFields (cg_field r) (cg_rowId r) (Some (undo_value r)) (cg_restoreCellMeta r) t"

text \<open>\<open>forEach\<close> over a list from which the visited element is cut out: the one behind it is skipped.\<close>

function undo_item :: "'t vtable \<Rightarrow> string set \<Rightarrow> SelectedCell \<Rightarrow> nat \<Rightarrow> ICellChangeRecord list \<Rightarrow> 't \<Rightarrow> ICellChangeRecord list \<times> 't" where
  "undo_item vt readOnlyFields item i recs t =
     (if length recs \<le> i then (recs, t)
      else if cg_field (recs ! i) = sel_field item \<and> Some (cg_rowId (recs ! i)) = map_option row_number (sel_origin item)
      then undo_item vt readOnlyFields item (Suc i) (splice_out i recs) (restore_cell vt readOnlyFields (recs ! i) t)
      else undo_item vt readOnlyFields item (Suc i) recs t)"
  by pat_completeness auto
termination by (relation "measure (\<lambda>(vt, ro, item, i, recs, t). length recs - i)") (auto simp: splice_out_def)

declare undo_item.simps [simp del]

record 't UndoState =
  un_creates :: "string list"
  un_deletes :: "string list"
  un_cells :: "ICellChangeRecord list"
  un_deleteRows :: "string list"
  un_table :: 't

definition undo_row :: "'t vtable \<Rightarrow> string set \<Rightarrow> SelectedCell list \<Rightarrow> 't UndoState \<Rightarrow> 't UndoState" where
  "undo_row vt readOnlyFields cells u =
     (case selected_row_id cells of
        None \<Rightarrow> u
      | Some rowId \<Rightarrow>
          if rowId \<in> set (un_creates u) then
            u\<lparr>un_creates := remove1 rowId (un_creates u), un_deleteRows := un_deleteRows u @ [rowId],
              un_table := handleRevocationRowStyle vt rowId (un_table u)\<rparr>
          else if rowId \<in> set (un_deletes u) then
            u\<lparr>un_deletes := remove1 rowId (un_deletes u), un_table := handleRevocationRowStyle vt rowId (un_table u)\<rparr>
          else
            (let (recs, t) = fold (\<lambda>item (recs, t). undo_item vt readOnlyFields item 0 recs t) cells (un_cells u, un_table u)
             in u\<lparr>un_cells := recs, un_table := t\<rparr>))"

definition handleRevocation :: "'t vtable \<Rightarrow> string set \<Rightarrow> 't EditState \<Rightarrow> 't EditState" where
  "handleRevocation vt readOnlyFields st =
     (let cells = vt_getSelectedCellInfos vt (es_table st)
      in if cells = [] then st
         else
           let u = fold (undo_row vt readOnlyFields) cells
                 \<lparr>un_creates = es_creates st, un_deletes = es_deletes st, un_cells = es_cells st, un_deleteRows = [], un_table = es_table st\<rparr>;
               t = (if un_deleteRows u = [] then un_table u
                    else vt_deleteRecords vt (map (\<lambda>row. row - 1) (findRowNumbersByIds vt (un_table u) (un_deleteRows u))) (un_table u))
           in set_cells (un_cells u) (set_creates (un_creates u) (set_deletes (un_deletes u) (st\<lparr>es_table := t\<rparr>))))"

definition handleDeleteRow :: "'t vtable \<Rightarrow> string set \<Rightarrow> 't EditState \<Rightarrow> 't EditState" where
  "handleDeleteRow vt readOnlyFields st =
     (let cells = vt_getSelectedCellInfos vt (es_table st)
      in if cells = [] then st
         else
           let curDeleteRows = List.map_filter selected_row_id cells;
               rowsToDelete = filter (\<lambda>row. row \<in> set (es_creates st)) curDeleteRows;
               rowsToDeleteRows = List.map_filter (\<lambda>item. map_option (\<lambda>target. sel_row (hd target) - 1)
                 (List.find (\<lambda>c. selected_row_id c = Some item) cells)) rowsToDelete;
               t1 = (if rowsToDeleteRows \<noteq> [] then vt_deleteRecords vt rowsToDeleteRows (es_table st) else es_table st);
               revoked = filter (\<lambda>r. cg_rowId r \<in> set curDeleteRows) (es_cells st);
               remaining = filter (\<lambda>r. cg_rowId r \<notin> set curDeleteRows) (es_cells st);
               st1 = handleDeleteRowRecord curDeleteRows (st\<lparr>es_table := t1\<rparr>);
               st2 = (if revoked \<noteq> [] then set_cells remaining st1 else st1)
           in st2\<lparr>es_table := fold (restore_cell vt readOnlyFields) revoked (es_table st2)\<rparr>)"

definition clone_cells :: "TableColumn list \<Rightarrow> (string \<times> cell_value) list \<Rightarrow> (string \<times> cell_value) list" where
  "clone_cells columns cells =
     fold (\<lambda>c row. case (tc_field c, tc_header c) of
         (Some f, Some header) \<Rightarrow>
           if f = [] then row
           else (case getClonedCreateCellValue header (map_of row f) of Some v \<Rightarrow> AList.update f v row | None \<Rightarrow> row)
       | _ \<Rightarrow> row) columns cells"

definition cloned_row :: "TableColumn list \<Rightarrow> string \<Rightarrow> SelectedCell list \<Rightarrow> ResultRow" where
  "cloned_row columns uuid cells =
     (case cells of
        c # _ \<Rightarrow> (case sel_origin c of
            Some r \<Rightarrow> r\<lparr>row_number := uuid, row_cells := clone_cells columns (row_cells r)\<rparr>
          | None \<Rightarrow> \<lparr>row_number = uuid, row_cells = clone_cells columns [], row_meta = None\<rparr>)
      | [] \<Rightarrow> \<lparr>row_number = uuid, row_cells = clone_cells columns [], row_meta = None\<rparr>)"

definition handleCloneRow :: "'t vtable \<Rightarrow> (nat \<Rightarrow> string) \<Rightarrow> 't EditState \<Rightarrow> 't EditState" where
  "handleCloneRow vt uuids st =
     (let t = es_table st;
          cells = vt_getSelectedCellInfos vt t;
          ids = map uuids [0..<length cells];
          rows = map (\<lambda>(uuid, row). cloned_row (vt_columns vt t) uuid row) (zip ids cells)
      in handleCreateRowRecord ids (st\<lparr>es_table := vt_scrollToCell vt (length (vt_records vt t)) (vt_addRecords vt rows t)\<rparr>))"

definition handleAddBlankRow :: "'t vtable \<Rightarrow> ResultRow \<Rightarrow> string \<Rightarrow> 't EditState \<Rightarrow> 't EditState" where
  "handleAddBlankRow vt blankRow rowId st =
     (let t = es_table st
      in handleCreateRowRecord [rowId] (st\<lparr>es_table := vt_scrollToCell vt (length (vt_records vt t)) (vt_addRecords vt [blankRow] t)\<rparr>))"

definition clearOperationRecord :: "'t vtable \<Rightarrow> 't EditState \<Rightarrow> 't EditState" where
  "clearOperationRecord vt st =
     (let t = es_table st; rowLength = length (vt_records vt t); colLength = max 0 (vt_colCount vt t - 1)
      in set_cells [] (set_creates [] (set_deletes [] (st\<lparr>es_table :=
           (if rowLength = 0 \<or> colLength = 0 then t
            else vt_arrangeCustomCellStyle vt (StyleRange 0 0 (int rowLength) colLength) [] t)\<rparr>))))"

section \<open>Styles\<close>

definition style_rows :: "'t vtable \<Rightarrow> string \<Rightarrow> string list \<Rightarrow> 't \<Rightarrow> 't" where
  "style_rows vt style ids t =
     fold (\<lambda>row t. vt_arrangeCustomCellStyle vt (StyleRange row 0 row (max 0 (vt_colCount vt t - 1))) style t)
       (findRowNumbersByIds vt t ids) t"

definition style_cell :: "'t vtable \<Rightarrow> ICellChangeRecord \<Rightarrow> 't \<Rightarrow> 't" where
  "style_cell vt r t =
     (let rowNumber = findRowNumberById vt t (cg_rowId r); colNumber = findColNumberById vt t (cg_field r)
      in if rowNumber = 0 \<or> colNumber < 1 then t
         else vt_arrangeCustomCellStyle vt (StyleCell colNumber rowNumber) ''custom-update-cell'' t)"

text \<open>The three effects that run after a render.\<close>

definition arrange_effect :: "'t vtable \<Rightarrow> 't EditState \<Rightarrow> 't EditState" where
  "arrange_effect vt st =
     st\<lparr>es_table :=
       style_rows vt ''custom-delete-cell'' (es_deleteState st)
         (style_rows vt ''custom-create-cell'' (es_createState st)
           (fold (style_cell vt) (es_cellState st) (vt_resetArrangement vt (es_table st))))\<rparr>"

definition create_style_effect :: "'t vtable \<Rightarrow> 't EditState \<Rightarrow> 't EditState" where
  "create_style_effect vt st = st\<lparr>es_table := style_rows vt ''custom-create-cell'' (es_createState st) (es_table st)\<rparr>"

definition delete_style_effect :: "'t vtable \<Rightarrow> 't EditState \<Rightarrow> 't EditState" where
  "delete_style_effect vt st = st\<lparr>es_table := style_rows vt ''custom-delete-cell'' (es_deleteState st) (es_table st)\<rparr>"

definition style_effect :: "'t vtable \<Rightarrow> 't EditState \<Rightarrow> 't EditState" where
  "style_effect vt st = delete_style_effect vt (create_style_effect vt (arrange_effect vt st))"

definition reCalculateCellStyle :: "'t vtable \<Rightarrow> 't EditState \<Rightarrow> 't EditState" where
  "reCalculateCellStyle vt st =
     (if es_cells st = [] \<and> es_creates st = [] \<and> es_deletes st = [] then st
      else let t = es_table st
        in set_cells (es_cells st) (set_creates (es_creates st) (set_deletes (es_deletes st)
             (st\<lparr>es_table := vt_arrangeCustomCellStyle vt
                (StyleRange 0 0 (int (length (vt_records vt t))) (max 0 (vt_colCount vt t - 1))) [] t\<rparr>))))"

section \<open>What is submitted\<close>

datatype operation_type = UPDATE | DELETE | CREATE

record ResultOperation =
  ro_rowId :: string
  ro_type :: operation_type
  ro_dataList :: "ResultRow option"
  ro_oldDataList :: "ResultRow option"
  ro_selectCols :: "string list"

definition buildUpdateOperation :: "string \<Rightarrow> ResultRow \<Rightarrow> ICellChangeRecord list \<Rightarrow> ResultOperation" where
  "buildUpdateOperation rowId originData recs =
     (let mine = filter (\<lambda>r. cg_rowId r = rowId) recs
      in \<lparr>ro_rowId = rowId, ro_type = UPDATE,
          ro_dataList = Some (fold (\<lambda>r. set_cell (cg_field r) (cg_changedValue r)) mine originData),
          ro_oldDataList = Some (fold (\<lambda>r. set_cell (cg_field r) (cg_currentValue r)) mine originData), ro_selectCols = []\<rparr>)"

definition PARTIAL_VALUE :: string where
  "PARTIAL_VALUE = ''CHAT2DB_LARGE_VALUE_PREVIEW:PARTIAL''"

definition has_partial :: "ResultRow option \<Rightarrow> bool" where
  "has_partial row =
     (case row of None \<Rightarrow> False | Some r \<Rightarrow> 
        row_number r = PARTIAL_VALUE \<or> list_ex (\<lambda>(f, v). cell_of r f = Some (Some PARTIAL_VALUE)) (row_cells r))"

text \<open>An absent row spreads to an object without properties.\<close>

definition absent_row :: ResultRow where
  "absent_row = \<lparr>row_number = [], row_cells = [], row_meta = None\<rparr>"

definition getOperationChangeDetail :: "'t vtable \<Rightarrow> 't EditState \<Rightarrow> ResultOperation list \<times> 't EditState" where
  "getOperationChangeDetail vt st =
     (let t = es_table st;
          updateRows = uniq (map cg_rowId (es_cells st));
          updates = filter (\<lambda>op. \<not> has_partial (ro_dataList op))
            (map (\<lambda>rowId. buildUpdateOperation rowId (the_default absent_row (getRowOriginData vt t rowId)) (es_cells st)) updateRows);
          deletes = map (\<lambda>rowId. \<lparr>ro_rowId = rowId, ro_type = DELETE, ro_dataList = None, ro_oldDataList = getRowOriginData vt t rowId,
              ro_selectCols = []\<rparr>)
            (es_deletes st);
          creates = map (\<lambda>rowId. \<lparr>ro_rowId = rowId, ro_type = CREATE, ro_dataList = getRowOriginData vt t rowId, ro_oldDataList = None,
              ro_selectCols = []\<rparr>)
            (filter (\<lambda>rowId. \<not> has_partial (getRowOriginData vt t rowId)) (es_creates st))
      in (updates @ deletes @ creates, st\<lparr>es_table := vt_clearSelected vt t\<rparr>))"

definition transformRowData :: "ResultRow \<Rightarrow> nat \<Rightarrow> string option \<Rightarrow> cell_value option list" where
  "transformRowData rowData headerCount rowNumber =
     (case headerCount of 0 \<Rightarrow> [] | Suc n \<Rightarrow>
        (case rowNumber of Some i \<Rightarrow> [Some (Some i)] | None \<Rightarrow> []) @ map (\<lambda>i. cell_of rowData (string_of_nat i)) [1..<Suc n])"

record SubmittedOperation =
  so_rowId :: string
  so_type :: operation_type
  so_dataList :: "cell_value option list option"
  so_oldDataList :: "cell_value option list option"
  so_selectCols :: "nat list"

definition transformOperations :: "ResultOperation list \<Rightarrow> nat \<Rightarrow> SubmittedOperation list" where
  "transformOperations operations headerCount =
     map (\<lambda>op. \<lparr>so_rowId = ro_rowId op, so_type = ro_type op,
       so_dataList = map_option (\<lambda>r. transformRowData r headerCount (Some (ro_rowId op))) (ro_dataList op),
       so_oldDataList = map_option (\<lambda>r. transformRowData r headerCount (Some (ro_rowId op))) (ro_oldDataList op),
       so_selectCols = List.map_filter (\<lambda>f. find_index (\<lambda>i. string_of_nat i = f) [0..<headerCount]) (ro_selectCols op)\<rparr>) operations"

end
