(* ===== verification/Result_Edit_Properties.thy ===== *)
theory Result_Edit_Properties
  imports Result_Edits
begin

text \<open>
  What edits, deletions, new rows and their undoing keep: the lists of the hook describe exactly how the rows of the table differ from
  those that were loaded. \<open>vtable_laws\<close> states the behaviour of the table that the code relies on.
\<close>

section \<open>What is relied on of the table\<close>

definition shown_at :: "'t vtable \<Rightarrow> 't \<Rightarrow> int \<Rightarrow> ResultRow \<Rightarrow> bool" where
  "shown_at vt t row r \<longleftrightarrow>
     1 \<le> row \<and> nat (row - 1) < length (getSortedOrFilteredData vt t) \<and> getSortedOrFilteredData vt t ! nat (row - 1) = Some r"

text \<open>Everything but the rows is the same.\<close>

definition same_view :: "'t vtable \<Rightarrow> 't \<Rightarrow> 't \<Rightarrow> bool" where
  "same_view vt t t' \<longleftrightarrow> vt_indexed vt t' = vt_indexed vt t \<and> vt_getTableIndexByField vt t' = vt_getTableIndexByField vt t
     \<and> vt_getHeaderField vt t' = vt_getHeaderField vt t"

definition row_ids :: "'t vtable \<Rightarrow> 't \<Rightarrow> string list" where
  "row_ids vt t = map row_number (vt_records vt t)"

definition shown_position :: "'t vtable \<Rightarrow> 't \<Rightarrow> int \<Rightarrow> ResultRow option" where
  "shown_position vt t p =
     (if 0 \<le> p \<and> nat p < length (getSortedOrFilteredData vt t) then getSortedOrFilteredData vt t ! nat p else None)"

text \<open>Writing rows back and styling change nothing else.\<close>

definition laws_of_rows :: "'t vtable \<Rightarrow> bool" where
  "laws_of_rows vt \<longleftrightarrow>
     (\<forall>t rs. length rs = length (vt_records vt t) \<longrightarrow>
          vt_records vt (vt_with_records vt rs t) = rs \<and> same_view vt t (vt_with_records vt rs t))
     \<and> (\<forall>t target style. vt_records vt (vt_arrangeCustomCellStyle vt target style t) = vt_records vt t
          \<and> same_view vt t (vt_arrangeCustomCellStyle vt target style t))
     \<and> (\<forall>t. vt_records vt (vt_resetArrangement vt t) = vt_records vt t \<and> same_view vt t (vt_resetArrangement vt t))
     \<and> (\<forall>t n. vt_records vt (vt_scrollToCell vt n t) = vt_records vt t)"

text \<open>A change of a cell changes the field of its column in the row that is shown there.\<close>

definition laws_of_cells :: "'t vtable \<Rightarrow> bool" where
  "laws_of_cells vt \<longleftrightarrow>
     (\<forall>t f row. 1 \<le> vt_getTableIndexByField vt t f \<longrightarrow> f \<noteq> [] \<and> vt_getHeaderField vt t (vt_getTableIndexByField vt t f) row = Str f)
     \<and> (\<forall>t col row r. shown_at vt t row r \<longrightarrow> vt_getRecordByCell vt t col row = Some r)
     \<and> (\<forall>t col row r v. shown_at vt t row r \<longrightarrow> 1 \<le> col \<longrightarrow> distinct (row_ids vt t) \<longrightarrow>
          vt_records vt (vt_changeCellValue vt col row v t)
            = update_row (row_number r) (set_cell (js_String (vt_getHeaderField vt t col row)) v) (vt_records vt t)
          \<and> same_view vt t (vt_changeCellValue vt col row v t))"

text \<open>New rows come last; rows are deleted by the position they are shown at, and the others stay shown.\<close>

definition laws_of_lists :: "'t vtable \<Rightarrow> bool" where
  "laws_of_lists vt \<longleftrightarrow>
     (\<forall>t rs. vt_records vt (vt_addRecords vt rs t) = vt_records vt t @ rs)
     \<and> (\<forall>t ps. distinct (row_ids vt t) \<longrightarrow>
          (let gone = List.map_filter (shown_position vt t) ps
           in vt_records vt (vt_deleteRecords vt ps t) = filter (\<lambda>r. r \<notin> set gone) (vt_records vt t)
              \<and> getSortedOrFilteredData vt (vt_deleteRecords vt ps t) = filter (\<lambda>r. r \<notin> Some ` set gone) (getSortedOrFilteredData vt t)
              \<and> vt_getTableIndexByField vt (vt_deleteRecords vt ps t) = vt_getTableIndexByField vt t
              \<and> vt_getHeaderField vt (vt_deleteRecords vt ps t) = vt_getHeaderField vt t))"

text \<open>A selection lists the cells by row; all cells of a row name it, a row is listed once, and cells of the header name no row.\<close>

definition laws_of_selection :: "'t vtable \<Rightarrow> bool" where
  "laws_of_selection vt \<longleftrightarrow>
     (\<forall>t. distinct (List.map_filter selected_row_id (vt_getSelectedCellInfos vt t))
        \<and> (\<forall>cells \<in> set (vt_getSelectedCellInfos vt t). \<forall>c \<in> set cells.
             sel_origin c = sel_origin (hd cells) \<and> (\<forall>r. sel_origin c = Some r \<longrightarrow> shown_at vt t (sel_row c) r)))"

definition vtable_laws :: "'t vtable \<Rightarrow> bool" where
  "vtable_laws vt \<longleftrightarrow> laws_of_rows vt \<and> laws_of_cells vt \<and> laws_of_lists vt \<and> laws_of_selection vt"

section \<open>Rows by their number\<close>

lemma set_cell_number [simp]: "row_number (set_cell f v r) = row_number r" "row_meta (set_cell f v r) = row_meta r"
  by (simp_all add: set_cell_def)

lemma cell_of_set_cell: "cell_of (set_cell f v r) g = (if g = f then Some v else cell_of r g)"
  by (simp add: cell_of_def set_cell_def update_conv')

lemma update_row_map:
  "distinct (map row_number rs) \<Longrightarrow> update_row i g rs = map (\<lambda>r. if row_number r = i then g r else r) rs"
proof (induction rs)
  case (Cons r rs)
  show ?case
  proof (cases "row_number r = i")
    case True
    then have "\<forall>x \<in> set rs. row_number x \<noteq> i" using Cons.prems by (auto simp: image_iff)
    then have "map (\<lambda>r. if row_number r = i then g r else r) rs = rs" by (simp add: map_idI)
    then show ?thesis using True by simp
  qed (use Cons in simp)
qed simp

lemma length_update_row [simp]: "length (update_row i g rs) = length rs"
  by (induction rs) auto

lemma update_row_numbers: "(\<And>r. row_number (g r) = row_number r) \<Longrightarrow> map row_number (update_row i g rs) = map row_number rs"
  by (induction rs) auto

lemma row_unique: "distinct (map row_number rs) \<Longrightarrow> r \<in> set rs \<Longrightarrow> r' \<in> set rs \<Longrightarrow> row_number r = row_number r' \<Longrightarrow> r = r'"
  by (auto simp: distinct_map inj_on_def)

lemma find_by_number:
  assumes "distinct (map row_number rs)"
  shows "List.find (\<lambda>r. row_number r = i) rs = Some r \<longleftrightarrow> r \<in> set rs \<and> row_number r = i"
proof
  assume r: "r \<in> set rs \<and> row_number r = i"
  then obtain r' where r': "List.find (\<lambda>r. row_number r = i) rs = Some r'"
    by (cases "List.find (\<lambda>r. row_number r = i) rs") (auto simp: find_None_conv)
  then show "List.find (\<lambda>r. row_number r = i) rs = Some r"
    using find_SomeD[OF r'] r row_unique[OF assms, of r' r] by simp
qed (auto dest: find_SomeD)

lemma getRow_eq: "distinct (row_ids vt t) \<Longrightarrow> getRowOriginData vt t i = Some r \<longleftrightarrow> r \<in> set (vt_records vt t) \<and> row_number r = i"
  unfolding getRowOriginData_def row_ids_def by (rule find_by_number)

lemma shown_in_records: "shown_at vt t row r \<Longrightarrow> r \<in> set (vt_records vt t)"
  by (auto simp: shown_at_def getSortedOrFilteredData_def split: option.splits if_splits)

lemma shown_rows_in_records: "Some r \<in> set (getSortedOrFilteredData vt t) \<Longrightarrow> r \<in> set (vt_records vt t)"
  by (auto simp: getSortedOrFilteredData_def split: option.splits if_splits)

lemma shown_at_in: "shown_at vt t row r \<Longrightarrow> Some r \<in> set (getSortedOrFilteredData vt t)"
  unfolding shown_at_def by (metis nth_mem)

lemma shown_iff: "(\<exists>row. shown_at vt t row r) \<longleftrightarrow> Some r \<in> set (getSortedOrFilteredData vt t)"
proof
  assume "Some r \<in> set (getSortedOrFilteredData vt t)"
  then obtain k where "k < length (getSortedOrFilteredData vt t)" "getSortedOrFilteredData vt t ! k = Some r"
    by (auto simp: in_set_conv_nth)
  then show "\<exists>row. shown_at vt t row r" by (intro exI[of _ "int k + 1"]) (simp add: shown_at_def)
qed (auto intro: shown_at_in)

lemma row_number_found:
  assumes "shown_at vt t row r" "distinct (row_ids vt t)"
  shows "shown_at vt t (findRowNumberById vt t (row_number r)) r"
proof -
  let ?shown = "getSortedOrFilteredData vt t"
  let ?P = "\<lambda>x. map_option row_number x = Some (row_number r)"
  have "Some r \<in> set ?shown" by (rule shown_at_in[OF assms(1)])
  then have "find_index ?P ?shown \<noteq> None" unfolding find_index_None by force
  then obtain k where k: "find_index ?P ?shown = Some k" by blast
  obtain r' where r': "?shown ! k = Some r'" "row_number r' = row_number r" "k < length ?shown"
    using find_index_bound[OF k] by auto
  have "r' = r"
    using r' nth_mem[OF r'(3)] shown_rows_in_records[of r' vt t] shown_in_records[OF assms(1)] assms(2) row_unique[of "vt_records vt t" r' r]
    by (simp add: row_ids_def)
  then show ?thesis using k r' by (simp add: findRowNumberById_def shown_at_def)
qed

text \<open>A row updated in place stays where it is shown.\<close>

lemma shown_after_update:
  assumes "vt_records vt t' = update_row i g (vt_records vt t)" "same_view vt t t'" "distinct (row_ids vt t)"
  shows "getSortedOrFilteredData vt t' = map (map_option (\<lambda>r. if row_number r = i then g r else r)) (getSortedOrFilteredData vt t)"
  using assms by (auto simp: getSortedOrFilteredData_def same_view_def row_ids_def update_row_map split: option.splits)

lemma shown_at_after_update:
  assumes "vt_records vt t' = update_row i g (vt_records vt t)" "same_view vt t t'" "distinct (row_ids vt t)" "shown_at vt t row r"
  shows "shown_at vt t' row (if row_number r = i then g r else r)"
  using assms(4) shown_after_update[OF assms(1-3)] by (simp add: shown_at_def)

lemma same_view_trans: "same_view vt a b \<Longrightarrow> same_view vt b c \<Longrightarrow> same_view vt a c"
  by (simp add: same_view_def)

lemma same_rows_shown:
  "vt_records vt t' = vt_records vt t \<Longrightarrow> same_view vt t t' \<Longrightarrow> getSortedOrFilteredData vt t' = getSortedOrFilteredData vt t"
  by (auto simp: getSortedOrFilteredData_def same_view_def split: option.splits)

section \<open>Restoring a cell\<close>

definition large_cell :: "ResultRow \<Rightarrow> string \<Rightarrow> bool" where
  "large_cell r f =
     (case (js_Number (Some f), row_meta r) of
        (Some i, Some cs) \<Rightarrow> 0 \<le> i \<and> nat i < length cs \<and> is_large (cs ! nat i) | _ \<Rightarrow> False)"

lemma change_effect:
  assumes "vtable_laws vt" "shown_at vt t row r" "1 \<le> col" "distinct (row_ids vt t)" "vt_getHeaderField vt t col row = Str f"
  shows "vt_records vt (vt_changeCellValue vt col row v t) = update_row (row_number r) (set_cell f v) (vt_records vt t)"
    "same_view vt t (vt_changeCellValue vt col row v t)"
    "shown_at vt (vt_changeCellValue vt col row v t) row (set_cell f v r)"
proof -
  show *: "vt_records vt (vt_changeCellValue vt col row v t) = update_row (row_number r) (set_cell f v) (vt_records vt t)"
    "same_view vt t (vt_changeCellValue vt col row v t)"
    using assms by (auto simp: vtable_laws_def laws_of_cells_def)
  show "shown_at vt (vt_changeCellValue vt col row v t) row (set_cell f v r)"
    using shown_at_after_update[OF * assms(4,2)] by simp
qed

lemma listener_reports:
  assumes "vtable_laws vt" "shown_at vt t row r" "vt_getHeaderField vt t col row = Str f" "f \<noteq> []" "f \<notin> ro" "\<not> large_cell r f"
  shows "onChangeCellValue vt ro t col row a b =
    (if a = b then IgnoreChange
     else ReportChange \<lparr>cg_field = f, cg_rowId = row_number r, cg_currentValue = a, cg_changedValue = b, cg_restoreValue = None, cg_restoreCellMeta = None\<rparr>)"
proof -
  have "vt_getRecordByCell vt t col row = Some r" using assms by (auto simp: vtable_laws_def laws_of_cells_def)
  then show ?thesis
    using assms(3-6) by (auto simp: onChangeCellValue_def Let_def getResultCellMetaAtTableColumn_def getResultFieldAtTableColumn_def
      normalizeField_def large_cell_def split: option.splits)
qed

lemma large_cell_set [simp]: "large_cell (set_cell g v r) f = large_cell r f"
  by (simp add: large_cell_def)

lemma paused_change_effect:
  assumes "vtable_laws vt" "shown_at vt t row r" "1 \<le> col" "distinct (row_ids vt t)" "vt_getHeaderField vt t col row = Str f"
    and "f \<noteq> []" "f \<notin> ro" "\<not> large_cell r f"
  shows "change_while_paused vt ro col row v t = vt_changeCellValue vt col row v t"
proof -
  have "vt_getHeaderField vt (vt_changeCellValue vt col row v t) col row = Str f"
    using change_effect(2)[OF assms(1-5)] assms(5) by (simp add: same_view_def)
  then show ?thesis
    unfolding change_while_paused_def Let_def
    using listener_reports[OF assms(1) change_effect(3)[OF assms(1-5)], where col = col and ro = ro] assms(6-8) by simp
qed

lemma restore_effect:
  assumes "vtable_laws vt" "distinct (row_ids vt t)" "shown_at vt t row r" "f \<notin> ro" "\<not> large_cell r f"
  shows "vt_records vt (handleRevocationCellStyle vt ro f (row_number r) (Some v) None t) = update_row (row_number r) (set_cell f v) (vt_records vt t)
     \<and> same_view vt t (handleRevocationCellStyle vt ro f (row_number r) (Some v) None t)"
proof (cases "1 \<le> vt_getTableIndexByField vt t f")
  case True
  let ?col = "vt_getTableIndexByField vt t f" and ?row = "findRowNumberById vt t (row_number r)"
  let ?t = "vt_arrangeCustomCellStyle vt (StyleCell ?col ?row) [] t"
  have styled: "vt_records vt ?t = vt_records vt t" "same_view vt t ?t" using assms(1) by (auto simp: vtable_laws_def laws_of_rows_def)
  have ids: "distinct (row_ids vt ?t)" using assms(2) styled(1) by (simp add: row_ids_def)
  have "getSortedOrFilteredData vt ?t = getSortedOrFilteredData vt t" by (rule same_rows_shown[OF styled])
  then have shown: "shown_at vt ?t ?row r" using row_number_found[OF assms(3,2)] by (simp add: shown_at_def)
  have header: "f \<noteq> []" "vt_getHeaderField vt ?t ?col ?row = Str f"
    using assms(1) True styled(2) by (auto simp: vtable_laws_def laws_of_cells_def same_view_def)
  have "handleRevocationCellStyle vt ro f (row_number r) (Some v) None t = vt_changeCellValue vt ?col ?row v ?t"
    using True paused_change_effect[OF assms(1) shown True ids header(2,1) assms(4,5)]
    by (simp add: handleRevocationCellStyle_def Let_def findColNumberById_def)
  then show ?thesis
    using change_effect(1,2)[OF assms(1) shown True ids header(2)] styled same_view_trans[OF styled(2)] by simp
next
  case False
  have "getRowOriginData vt t (row_number r) \<noteq> None"
    using getRow_eq[OF assms(2), of "row_number r" r] shown_in_records[OF assms(3)] by auto
  then show ?thesis
    using False assms(1) by (auto simp: handleRevocationCellStyle_def Let_def findColNumberById_def mutate_row_def vtable_laws_def laws_of_rows_def)
qed

section \<open>The lists describe the difference to the loaded rows\<close>

definition cell_key :: "ICellChangeRecord \<Rightarrow> string \<times> string" where
  "cell_key r = (cg_rowId r, cg_field r)"

text \<open>A row as loaded, with the recorded changes.\<close>

definition row_as :: "ICellChangeRecord set \<Rightarrow> ResultRow \<Rightarrow> ResultRow \<Rightarrow> bool" where
  "row_as C orig row \<longleftrightarrow> row_number row = row_number orig \<and> row_meta row = row_meta orig
     \<and> (\<forall>f. (\<forall>r \<in> C. cell_key r = (row_number orig, f) \<longrightarrow> cell_of row f = Some (cg_changedValue r))
          \<and> ((\<forall>r \<in> C. cell_key r \<noteq> (row_number orig, f)) \<longrightarrow> cell_of row f = cell_of orig f))"

definition change_ok :: "string set \<Rightarrow> ResultRow list \<Rightarrow> string list \<Rightarrow> ICellChangeRecord \<Rightarrow> bool" where
  "change_ok ro loaded deletes r \<longleftrightarrow>
     cg_rowId r \<notin> set deletes \<and> cg_field r \<notin> ro \<and> cg_restoreValue r = None \<and> cg_restoreCellMeta r = None
     \<and> cg_currentValue r \<noteq> cg_changedValue r
     \<and> (\<exists>orig \<in> set loaded. row_number orig = cg_rowId r \<and> \<not> large_cell orig (cg_field r) \<and> cell_of orig (cg_field r) = Some (cg_currentValue r))"

definition edits_ok ::
  "string set \<Rightarrow> ResultRow list \<Rightarrow> ResultRow list \<Rightarrow> ICellChangeRecord set \<Rightarrow> string list \<Rightarrow> string list \<Rightarrow> bool" where
  "edits_ok ro loaded rs C creates deletes \<longleftrightarrow>
     distinct (map row_number rs) \<and> distinct (map row_number loaded) \<and> inj_on cell_key C
     \<and> (\<forall>r \<in> C. change_ok ro loaded deletes r)
     \<and> distinct creates \<and> distinct deletes \<and> set deletes \<subseteq> row_number ` set loaded
     \<and> set creates \<inter> row_number ` set loaded = {} \<and> set creates \<subseteq> row_number ` set rs
     \<and> list_all2 (row_as C) loaded (filter (\<lambda>r. row_number r \<notin> set creates) rs)"

lemma filter_update_row:
  assumes "distinct (map row_number rs)" "\<And>r. row_number (g r) = row_number r"
  shows "filter (\<lambda>r. P (row_number r)) (update_row i g rs) = map (\<lambda>r. if row_number r = i then g r else r) (filter (\<lambda>r. P (row_number r)) rs)"
  using assms by (simp add: update_row_map filter_map o_def if_distrib cong: if_cong)

lemma image_update_row:
  assumes "\<And>r. row_number (g r) = row_number r"
  shows "row_number ` set (update_row i g rs) = row_number ` set rs"
  using update_row_numbers[of g i rs, OF assms] by (metis image_set)

text \<open>Setting a cell: the records of the cell are replaced by at most one.\<close>

lemma row_as_set:
  assumes "row_as C orig row" "\<forall>r \<in> C'. cell_key r \<noteq> (i, f) \<longrightarrow> r \<in> C" "\<forall>r \<in> C. cell_key r \<noteq> (i, f) \<longrightarrow> r \<in> C'"
    and "row_number orig = i \<Longrightarrow> (\<forall>r \<in> C'. cell_key r = (i, f) \<longrightarrow> cg_changedValue r = v)"
    and "row_number orig = i \<Longrightarrow> (\<forall>r \<in> C'. cell_key r \<noteq> (i, f)) \<Longrightarrow> cell_of orig f = Some v"
  shows "row_as C' orig (if row_number row = i then set_cell f v row else row)"
proof -
  have number: "row_number row = row_number orig" using assms(1) by (simp add: row_as_def)
  have key: "(\<forall>r \<in> C'. cell_key r = (row_number orig, g) \<longrightarrow> cell_of row g = Some (cg_changedValue r))
      \<and> ((\<forall>r \<in> C'. cell_key r \<noteq> (row_number orig, g)) \<longrightarrow> cell_of row g = cell_of orig g)"
    if "row_number orig \<noteq> i \<or> g \<noteq> f" for g
    using assms(1-3) that unfolding row_as_def by (metis prod.inject)
  show ?thesis
  proof (cases "row_number orig = i")
    case True
    then show ?thesis
      using assms(1,4,5) number key by (auto simp: row_as_def cell_of_set_cell)
  next
    case False
    then show ?thesis using assms(1) number key by (auto simp: row_as_def)
  qed
qed

lemma edits_ok_set:
  assumes ok: "edits_ok ro loaded rs C creates deletes"
    and C': "\<forall>r \<in> C'. cell_key r \<noteq> (i, f) \<longrightarrow> r \<in> C" "\<forall>r \<in> C. cell_key r \<noteq> (i, f) \<longrightarrow> r \<in> C'"
    and at: "inj_on cell_key C'" "\<forall>r \<in> C'. cell_key r = (i, f) \<longrightarrow> change_ok ro loaded deletes' r \<and> cg_changedValue r = v"
      "\<forall>orig \<in> set loaded. row_number orig = i \<longrightarrow> (\<forall>r \<in> C'. cell_key r \<noteq> (i, f)) \<longrightarrow> cell_of orig f = Some v"
    and deletes: "distinct deletes'" "set deletes' \<subseteq> set deletes"
  shows "edits_ok ro loaded (update_row i (set_cell f v) rs) C' creates deletes'"
proof -
  let ?g = "\<lambda>row. if row_number row = i then set_cell f v row else row"
  have d: "distinct (map row_number rs)" using ok by (simp add: edits_ok_def)
  have "list_all2 (row_as C') loaded (map ?g (filter (\<lambda>r. row_number r \<notin> set creates) rs))"
    unfolding list.rel_map
  proof (rule list.rel_mono_strong)
    show "list_all2 (row_as C) loaded (filter (\<lambda>r. row_number r \<notin> set creates) rs)" using ok by (simp add: edits_ok_def)
    fix orig row assume "orig \<in> set loaded" "row_as C orig row"
    then show "row_as C' orig (?g row)" using at C' by (intro row_as_set) auto
  qed
  moreover have "change_ok ro loaded deletes' r" if r: "r \<in> C'" for r
  proof (cases "cell_key r = (i, f)")
    case False
    then have "change_ok ro loaded deletes r" using C' ok r by (auto simp: edits_ok_def)
    then show ?thesis using deletes by (auto simp: change_ok_def)
  qed (use at r in auto)
  ultimately show ?thesis
    using ok at(1) deletes d unfolding edits_ok_def
    by (auto simp: update_row_numbers image_update_row filter_update_row[OF d, of "set_cell f v" "\<lambda>n. n \<notin> set creates"])
qed

lemma edits_ok_restore:
  assumes "edits_ok ro loaded rs C creates deletes" "r \<in> C"
  shows "edits_ok ro loaded (update_row (cg_rowId r) (set_cell (cg_field r) (cg_currentValue r)) rs) (C - {r}) creates deletes"
proof (rule edits_ok_set[OF assms(1)])
  have inj: "inj_on cell_key C" and ok: "change_ok ro loaded deletes r" and d: "distinct (map row_number loaded)"
    using assms by (auto simp: edits_ok_def)
  show "inj_on cell_key (C - {r})" using inj by (rule inj_on_subset) blast
  show "\<forall>x \<in> C - {r}. cell_key x = (cg_rowId r, cg_field r) \<longrightarrow> change_ok ro loaded deletes x \<and> cg_changedValue x = cg_currentValue r"
    using inj assms(2) by (auto simp: cell_key_def inj_on_def)
  show "\<forall>orig \<in> set loaded. row_number orig = cg_rowId r \<longrightarrow> (\<forall>x \<in> C - {r}. cell_key x \<noteq> (cg_rowId r, cg_field r)) \<longrightarrow>
      cell_of orig (cg_field r) = Some (cg_currentValue r)"
    using ok row_unique[OF d] unfolding change_ok_def by metis
qed (use assms in \<open>auto simp: cell_key_def edits_ok_def\<close>)

text \<open>Deleted and new rows.\<close>

lemma edits_ok_add_delete:
  assumes "edits_ok ro loaded rs C creates deletes" "i \<in> row_number ` set loaded" "i \<notin> set deletes" "\<forall>r \<in> C. cg_rowId r \<noteq> i"
  shows "edits_ok ro loaded rs C creates (deletes @ [i])"
  using assms by (auto simp: edits_ok_def change_ok_def)

lemma edits_ok_fewer_deletes:
  assumes "edits_ok ro loaded rs C creates deletes" "distinct deletes'" "set deletes' \<subseteq> set deletes"
  shows "edits_ok ro loaded rs C creates deletes'"
  using assms unfolding edits_ok_def change_ok_def by blast

lemma edits_ok_remove_creates:
  assumes "edits_ok ro loaded rs C creates deletes" "G \<subseteq> set creates"
    and "distinct creates'" "set creates' = set creates - G"
  shows "edits_ok ro loaded (filter (\<lambda>r. row_number r \<notin> G) rs) C creates' deletes"
proof -
  have "filter (\<lambda>r. row_number r \<notin> set creates') (filter (\<lambda>r. row_number r \<notin> G) rs) = filter (\<lambda>r. row_number r \<notin> set creates) rs"
    using assms(2,4) by (auto intro: filter_cong)
  moreover have "distinct (map row_number (filter (\<lambda>r. row_number r \<notin> G) rs))"
    using assms(1) by (auto simp: edits_ok_def intro: distinct_map_filter)
  ultimately show ?thesis using assms unfolding edits_ok_def by auto
qed

lemma edits_ok_add_creates:
  assumes "edits_ok ro loaded rs C creates deletes" "map row_number new = ids" "distinct ids"
    and "set ids \<inter> row_number ` set rs = {}" "set ids \<inter> row_number ` set loaded = {}"
  shows "edits_ok ro loaded (rs @ new) C (creates @ ids) deletes"
proof -
  have "filter (\<lambda>r. row_number r \<notin> set (creates @ ids)) (rs @ new) = filter (\<lambda>r. row_number r \<notin> set creates) rs"
  proof -
    have "filter (\<lambda>r. row_number r \<notin> set (creates @ ids)) new = []" using assms(2) by (auto simp: filter_empty_conv)
    moreover have "filter (\<lambda>r. row_number r \<notin> set (creates @ ids)) rs = filter (\<lambda>r. row_number r \<notin> set creates) rs"
      using assms(4) by (intro filter_cong) (auto simp: disjoint_iff)
    ultimately show ?thesis by simp
  qed
  moreover have "set ids \<inter> set creates = {}" using assms(1,4) by (auto simp: edits_ok_def)
  ultimately show ?thesis using assms unfolding edits_ok_def by (auto simp del: filter_append)
qed

text \<open>Only the cells of a row matter, not the order in which they are stored.\<close>

lemma edits_ok_same:
  assumes "edits_ok ro loaded rs C creates deletes"
    and "\<And>r. r \<in> set rs \<Longrightarrow> row_number (g r) = row_number r \<and> row_meta (g r) = row_meta r \<and> cell_of (g r) = cell_of r"
  shows "edits_ok ro loaded (map g rs) C creates deletes"
proof -
  have numbers: "map row_number (map g rs) = map row_number rs" using assms(2) by simp
  then have ids: "row_number ` set (map g rs) = row_number ` set rs" by (metis image_set)
  have "filter (\<lambda>r. row_number r \<notin> set creates) (map g rs) = map g (filter (\<lambda>r. row_number r \<notin> set creates) rs)"
    using assms(2) by (simp add: filter_map o_def cong: filter_cong)
  moreover have "list_all2 (row_as C) loaded (map g (filter (\<lambda>r. row_number r \<notin> set creates) rs))"
    unfolding list.rel_map
  proof (rule list.rel_mono_strong)
    show "list_all2 (row_as C) loaded (filter (\<lambda>r. row_number r \<notin> set creates) rs)" using assms(1) by (simp add: edits_ok_def)
  qed (use assms(2) in \<open>auto simp: row_as_def\<close>)
  ultimately show ?thesis
    using assms(1) unfolding edits_ok_def numbers ids by simp
qed

section \<open>Every operation keeps the description\<close>

definition edit_inv :: "'t vtable \<Rightarrow> string set \<Rightarrow> ResultRow list \<Rightarrow> 't EditState \<Rightarrow> bool" where
  "edit_inv vt ro loaded st \<longleftrightarrow>
     es_listen st \<and> es_cellState st = es_cells st \<and> es_createState st = es_creates st \<and> es_deleteState st = es_deletes st
     \<and> distinct (map cell_key (es_cells st))
     \<and> edits_ok ro loaded (vt_records vt (es_table st)) (set (es_cells st)) (es_creates st) (es_deletes st)"

lemma edit_inv_ids: "edit_inv vt ro loaded st \<Longrightarrow> distinct (row_ids vt (es_table st))"
  by (simp add: edit_inv_def edits_ok_def row_ids_def)

lemma edit_inv_table:
  assumes "edit_inv vt ro loaded st" "edits_ok ro loaded (vt_records vt t) (set (es_cells st)) (es_creates st) (es_deletes st)"
  shows "edit_inv vt ro loaded (st\<lparr>es_table := t\<rparr>)"
  using assms by (simp add: edit_inv_def)

lemma loaded_row:
  assumes "edits_ok ro loaded rs C creates deletes" "r \<in> set rs" "row_number r \<notin> set creates"
  obtains orig where "orig \<in> set loaded" "row_as C orig r"
proof -
  have l: "list_all2 (row_as C) loaded (filter (\<lambda>r. row_number r \<notin> set creates) rs)" using assms(1) by (simp add: edits_ok_def)
  have "r \<in> set (filter (\<lambda>r. row_number r \<notin> set creates) rs)" using assms by simp
  then obtain k where "k < length (filter (\<lambda>r. row_number r \<notin> set creates) rs)" "filter (\<lambda>r. row_number r \<notin> set creates) rs ! k = r"
    by (metis in_set_conv_nth)
  then show thesis using l that[of "loaded ! k"] by (metis list_all2_conv_all_nth nth_mem)
qed

lemma same_cell_key: "same_cell a b \<longleftrightarrow> cell_key a = cell_key b"
  by (auto simp: same_cell_def cell_key_def)

lemma splice_out_key:
  assumes "distinct (map cell_key recs)" "k < length recs"
  shows "set (splice_out k recs) = set recs - {recs ! k}" "distinct (map cell_key (splice_out k recs))"
proof -
  have e: "recs = take k recs @ recs ! k # drop (Suc k) recs" using assms(2) by (simp add: id_take_nth_drop)
  have "distinct (map cell_key (take k recs @ recs ! k # drop (Suc k) recs))" using assms(1) e by simp
  then have d: "recs ! k \<notin> set (take k recs) \<union> set (drop (Suc k) recs)" "distinct (map cell_key (take k recs @ drop (Suc k) recs))"
    by auto
  show "distinct (map cell_key (splice_out k recs))" using d(2) by (simp add: splice_out_def)
  have "set recs = insert (recs ! k) (set (take k recs) \<union> set (drop (Suc k) recs))"
    by (subst e) auto
  then show "set (splice_out k recs) = set recs - {recs ! k}" using d(1) by (auto simp: splice_out_def)
qed

text \<open>The records after a reported change, on every branch of \<open>handleCellValueChange\<close>.\<close>

definition changes_after :: "ICellChangeRecord \<Rightarrow> ICellChangeRecord list \<Rightarrow> ICellChangeRecord list" where
  "changes_after r recs =
     (case find_index (same_cell r) recs of
        None \<Rightarrow> recs @ [r]
      | Some k \<Rightarrow> if cg_currentValue (recs ! k) = cg_changedValue r then splice_out k recs else splice_out k recs @ [merge_change (recs ! k) r])"

lemma merge_change_key [simp]: "cell_key (merge_change p r) = cell_key r"
  by (simp add: merge_change_def cell_key_def)

lemma changes_after_cases:
  assumes "distinct (map cell_key recs)"
  obtains "\<forall>x \<in> set recs. cell_key x \<noteq> cell_key r" "changes_after r recs = recs @ [r]"
  | p where "p \<in> set recs" "cell_key p = cell_key r" "distinct (map cell_key (changes_after r recs))"
      "set (changes_after r recs) = set recs - {p} \<union> (if cg_currentValue p = cg_changedValue r then {} else {merge_change p r})"
proof (cases "find_index (same_cell r) recs")
  case None
  then have "\<forall>x \<in> set recs. cell_key x \<noteq> cell_key r" by (auto simp: find_index_None same_cell_key)
  then show thesis using that(1) None by (simp add: changes_after_def)
next
  case (Some k)
  let ?p = "recs ! k"
  have k: "k < length recs" "cell_key ?p = cell_key r" using find_index_bound[OF Some] by (auto simp: same_cell_key)
  note rest = splice_out_key[OF assms k(1)]
  have "cell_key r \<notin> cell_key ` set (splice_out k recs)"
    unfolding rest(1) using assms k by (auto simp: distinct_map inj_on_def)
  then show thesis
    using that(2)[of ?p] k rest by (auto simp: changes_after_def Some)
qed

lemma changes_after_distinct:
  assumes "distinct (map cell_key recs)"
  shows "distinct (map cell_key (changes_after r recs))"
  using changes_after_cases[OF assms, of r] assms by cases (auto simp: image_iff)

text \<open>A reported change of a loaded row.\<close>

lemma edits_ok_change:
  assumes ok: "edits_ok ro loaded rs (set recs) creates deletes" and d: "distinct (map cell_key recs)"
    and row: "row \<in> set rs" "row_number row \<notin> set creates" "cell_of row f = Some a" "f \<notin> ro" "\<not> large_cell row f" "a \<noteq> v"
    and r: "r = \<lparr>cg_field = f, cg_rowId = row_number row, cg_currentValue = a, cg_changedValue = v, cg_restoreValue = None, cg_restoreCellMeta = None\<rparr>"
  shows "edits_ok ro loaded (update_row (row_number row) (set_cell f v) rs) (set (changes_after r recs)) creates
    (filter (\<lambda>i. i \<noteq> row_number row) deletes)"
proof -
  obtain orig where orig: "orig \<in> set loaded" "row_as (set recs) orig row" using loaded_row[OF ok row(1,2)] .
  have number: "row_number row = row_number orig" "large_cell orig f = large_cell row f" using orig(2) by (auto simp: row_as_def large_cell_def)
  have unique: "x = orig" if "x \<in> set loaded" "row_number x = row_number row" for x
    using ok row_unique[of loaded x orig] that orig(1) number by (simp add: edits_ok_def)
  have key: "cell_key r = (row_number row, f)" by (simp add: r cell_key_def)
  from changes_after_cases[OF d, of r] show ?thesis
  proof cases
    case 1
    have "cell_of orig f = Some a" using orig(2) 1(1) row(3) number key by (auto simp: row_as_def)
    then have "change_ok ro loaded (filter (\<lambda>i. i \<noteq> row_number row) deletes) r"
      using row orig(1) number by (auto simp: r change_ok_def)
    then show ?thesis
      using 1 ok by (intro edits_ok_set[OF ok]) (auto simp: r cell_key_def edits_ok_def)
  next
    case (2 p)
    have p: "change_ok ro loaded deletes p" using ok 2(1) by (simp add: edits_ok_def)
    then have "cell_of orig f = Some (cg_currentValue p)"
      using unique 2(2) key by (auto simp: change_ok_def cell_key_def)
    moreover have "change_ok ro loaded (filter (\<lambda>i. i \<noteq> row_number row) deletes) (merge_change p r)" if "cg_currentValue p \<noteq> v"
      using p that 2(2) key by (auto simp: change_ok_def merge_change_def r cell_key_def)
    moreover have "\<forall>x \<in> set recs - {p}. cell_key x \<noteq> (row_number row, f)"
      using d 2(1,2) key by (auto simp: distinct_map inj_on_def)
    moreover have "merge_change p r \<in> C \<Longrightarrow> cg_changedValue (merge_change p r) = v" for C by (simp add: merge_change_def r)
    ultimately show ?thesis
      using 2 key ok unique
      by (intro edits_ok_set[OF ok]) (auto simp: edits_ok_def r distinct_map split: if_splits)
  qed
qed

lemma style_keeps:
  assumes "vtable_laws vt"
  shows "vt_records vt (vt_arrangeCustomCellStyle vt target style t) = vt_records vt t" "same_view vt t (vt_arrangeCustomCellStyle vt target style t)"
    "vt_records vt (handleRevocationRowStyle vt i t) = vt_records vt t" "same_view vt t (handleRevocationRowStyle vt i t)"
  using assms by (auto simp: vtable_laws_def laws_of_rows_def handleRevocationRowStyle_def Let_def)

lemma restyle_keeps:
  "vtable_laws vt \<Longrightarrow> vt_records vt (handleRevocationCellStyle vt ro f i None None t) = vt_records vt t"
  by (simp add: handleRevocationCellStyle_def Let_def style_keeps)

lemma handle_change_effect:
  assumes laws: "vtable_laws vt" and inv: "es_listen st" "es_cellState st = es_cells st" "es_createState st = es_creates st" "es_deleteState st = es_deletes st"
    and row: "getRowOriginData vt (es_table st) (cg_rowId r) = Some row" "row_number row \<notin> set (es_creates st)"
    and plain: "cg_restoreValue r = None" "cg_restoreCellMeta r = None" "\<forall>x \<in> set (es_cells st). cg_restoreValue x = None \<and> cg_restoreCellMeta x = None"
  obtains st' where "handleCellValueChange vt ro r st = Some st'" "es_listen st'" "es_cellState st' = es_cells st'" "es_createState st' = es_creates st'"
    "es_deleteState st' = es_deletes st'" "vt_records vt (es_table st') = vt_records vt (es_table st)" "es_cells st' = changes_after r (es_cells st)"
    "es_creates st' = es_creates st" "es_deletes st' = filter (\<lambda>i. i \<noteq> row_number row) (es_deletes st)"
proof -
  let ?i = "row_number row"
  define st1 where "st1 = (if ?i \<in> set (es_deletes st)
    then set_deletes (filter (\<lambda>i. i \<noteq> ?i) (es_deletes st)) (st\<lparr>es_table := handleRevocationRowStyle vt ?i (es_table st)\<rparr>) else st)"
  have "filter (\<lambda>i. i \<noteq> ?i) (es_deletes st) = es_deletes st" if "?i \<notin> set (es_deletes st)"
    using that by (auto simp: filter_id_conv)
  then have st1: "es_listen st1" "es_cells st1 = es_cells st" "es_cellState st1 = es_cells st" "es_createState st1 = es_creates st"
    "es_creates st1 = es_creates st" "es_deleteState st1 = filter (\<lambda>i. i \<noteq> ?i) (es_deletes st)" "es_deletes st1 = filter (\<lambda>i. i \<noteq> ?i) (es_deletes st)"
    "vt_records vt (es_table st1) = vt_records vt (es_table st)"
    using inv style_keeps[OF laws] by (auto simp: st1_def set_deletes_def)
  have plain_at: "cg_restoreValue (merge_change (es_cells st ! k) r) = None" "cg_restoreCellMeta (merge_change (es_cells st ! k) r) = None"
    if "find_index (same_cell r) (es_cells st) = Some k" for k
    using find_index_bound[OF that] plain by (auto simp: merge_change_def)
  show thesis
  proof (cases "find_index (same_cell r) (es_cells st)")
    case None
    then have "handleCellValueChange vt ro r st = Some (set_cells (es_cells st @ [r]) st1)"
      using inv(1) row st1(2) by (simp add: handleCellValueChange_def st1_def)
    then show thesis using that st1 None by (simp add: set_cells_def changes_after_def)
  next
    case (Some k)
    let ?n = "merge_change (es_cells st ! k) r"
    have "handleCellValueChange vt ro r st = Some
        (if cg_currentValue (es_cells st ! k) = cg_changedValue r
         then set_cells (splice_out k (es_cells st)) (st1\<lparr>es_table := handleRevocationCellStyle vt ro (cg_field ?n) (cg_rowId ?n) None None (es_table st1)\<rparr>)
         else set_cells (splice_out k (es_cells st) @ [?n]) st1)"
      using inv(1) row st1(2) Some plain_at[OF Some] by (simp add: handleCellValueChange_def Let_def merge_change_def flip: st1_def)
    then show thesis using that st1 Some restyle_keeps[OF laws] by (auto simp: set_cells_def changes_after_def split: if_splits)
  qed
qed

lemma listener_restores:
  assumes "vtable_laws vt" "shown_at vt t row r" "vt_getHeaderField vt t col row = Str f" "f \<noteq> []" "f \<in> ro \<or> large_cell r f" "a \<noteq> b"
  shows "onChangeCellValue vt ro t col row a b = RestoreValue"
proof -
  have "vt_getRecordByCell vt t col row = Some r" using assms by (auto simp: vtable_laws_def laws_of_cells_def)
  then show ?thesis
    using assms(3-6) by (auto simp: onChangeCellValue_def Let_def getResultCellMetaAtTableColumn_def getResultFieldAtTableColumn_def
      normalizeField_def large_cell_def split: option.splits)
qed

lemma edits_ok_created:
  assumes ok: "edits_ok ro loaded rs C creates deletes" and i: "i \<in> set creates"
  shows "edits_ok ro loaded (update_row i (set_cell f v) rs) C creates deletes"
proof (rule edits_ok_set[OF ok])
  have new: "i \<notin> row_number ` set loaded" using ok i by (auto simp: edits_ok_def)
  show "\<forall>r \<in> C. cell_key r = (i, f) \<longrightarrow> change_ok ro loaded deletes r \<and> cg_changedValue r = v"
    using ok new unfolding edits_ok_def change_ok_def cell_key_def by (metis image_eqI prod.inject)
  show "\<forall>orig \<in> set loaded. row_number orig = i \<longrightarrow> (\<forall>r \<in> C. cell_key r \<noteq> (i, f)) \<longrightarrow> cell_of orig f = Some v"
    using new by auto
qed (use ok in \<open>auto simp: edits_ok_def\<close>)

lemma edits_ok_unchanged:
  assumes ok: "edits_ok ro loaded rs C creates deletes" and r: "r \<in> set rs" "cell_of r f = Some a"
  shows "edits_ok ro loaded (update_row (row_number r) (set_cell f a) rs) C creates deletes"
    "edits_ok ro loaded (update_row (row_number r) (set_cell f a) (update_row (row_number r) (set_cell f v) rs)) C creates deletes"
proof -
  have d: "distinct (map row_number rs)" using ok by (simp add: edits_ok_def)
  have same: "x = r" if "x \<in> set rs" "row_number x = row_number r" for x using row_unique[OF d] that r by blast
  have cells: "cell_of (set_cell f a r) = cell_of r" "cell_of (set_cell f a (set_cell f v r)) = cell_of r"
    using r(2) by (auto simp: cell_of_set_cell fun_eq_iff)
  show "edits_ok ro loaded (update_row (row_number r) (set_cell f a) rs) C creates deletes"
    unfolding update_row_map[OF d] using same cells by (intro edits_ok_same[OF ok]) auto
  have twice: "update_row (row_number r) (set_cell f a) (update_row (row_number r) (set_cell f v) rs)
      = map (\<lambda>x. if row_number x = row_number r then set_cell f a (set_cell f v x) else x) rs"
    using d by (simp add: update_row_map o_def if_distrib cong: if_cong)
  show "edits_ok ro loaded (update_row (row_number r) (set_cell f a) (update_row (row_number r) (set_cell f v) rs)) C creates deletes"
    unfolding twice
  proof (rule edits_ok_same[OF ok])
    fix x assume "x \<in> set rs"
    then show "row_number (if row_number x = row_number r then set_cell f a (set_cell f v x) else x) = row_number x
      \<and> row_meta (if row_number x = row_number r then set_cell f a (set_cell f v x) else x) = row_meta x
      \<and> cell_of (if row_number x = row_number r then set_cell f a (set_cell f v x) else x) = cell_of x"
      using same[of x] cells by (cases "row_number x = row_number r") simp_all
  qed
qed

lemma edit_cell_inv:
  assumes laws: "vtable_laws vt" and inv: "edit_inv vt ro loaded st"
    and cell: "shown_at vt (es_table st) row r" "1 \<le> col" "vt_getHeaderField vt (es_table st) col row = Str f" "f \<noteq> []" "cell_of r f = Some a"
  shows "\<exists>st'. edit_cell vt ro col row v st = Some st' \<and> edit_inv vt ro loaded st'"
proof -
  let ?t = "vt_changeCellValue vt col row v (es_table st)" and ?rs = "vt_records vt (es_table st)" and ?i = "row_number r"
  have ok: "edits_ok ro loaded ?rs (set (es_cells st)) (es_creates st) (es_deletes st)" using inv by (simp add: edit_inv_def)
  note ids = edit_inv_ids[OF inv]
  note changed = change_effect[OF laws cell(1,2) ids cell(3), of v]
  have r: "r \<in> set ?rs" by (rule shown_in_records[OF cell(1)])
  have header: "vt_getHeaderField vt ?t col row = Str f" using changed(2) cell(3) by (simp add: same_view_def)
  have ids': "distinct (row_ids vt ?t)" using ids changed(1) by (simp add: row_ids_def update_row_numbers)
  have old: "value_at vt (es_table st) col row = a"
  proof -
    have "vt_getRecordByCell vt (es_table st) col row = Some r" using laws cell(1) by (auto simp: vtable_laws_def laws_of_cells_def)
    then show ?thesis using cell by (simp add: value_at_def)
  qed
  consider "a = v" | "a \<noteq> v" "f \<in> ro \<or> large_cell r f" | "a \<noteq> v" "f \<notin> ro" "\<not> large_cell r f" by blast
  then show ?thesis
  proof cases
    case 1
    then have "edit_cell vt ro col row v st = Some (st\<lparr>es_table := ?t\<rparr>)"
      by (simp add: edit_cell_def Let_def old onChangeCellValue_def)
    then show ?thesis
      using edit_inv_table[OF inv, of ?t] edits_ok_unchanged(1)[OF ok r cell(5)] changed(1) 1 by simp
  next
    case 2
    let ?t' = "vt_changeCellValue vt col row a ?t"
    have "edit_cell vt ro col row v st = Some (st\<lparr>es_table := ?t'\<rparr>)"
      using listener_restores[OF laws changed(3) header cell(4), of ro a v] 2 by (simp add: edit_cell_def Let_def old)
    moreover have "vt_records vt ?t' = update_row ?i (set_cell f a) (update_row ?i (set_cell f v) ?rs)"
      using change_effect(1)[OF laws changed(3) cell(2) ids' header, of a] changed(1) by simp
    ultimately show ?thesis
      using edit_inv_table[OF inv, of ?t'] edits_ok_unchanged(2)[OF ok r cell(5), of v] by simp
  next
    case 3
    let ?r = "\<lparr>cg_field = f, cg_rowId = ?i, cg_currentValue = a, cg_changedValue = v, cg_restoreValue = None, cg_restoreCellMeta = None\<rparr>"
    let ?st = "st\<lparr>es_table := ?t\<rparr>"
    have report: "edit_cell vt ro col row v st = handleCellValueChange vt ro ?r ?st"
      using listener_reports[OF laws changed(3) header cell(4), of ro a v] 3 by (simp add: edit_cell_def Let_def old)
    have found: "getRowOriginData vt ?t ?i = Some (set_cell f v r)"
      using getRow_eq[OF ids', of ?i "set_cell f v r"] shown_in_records[OF changed(3)] by simp
    show ?thesis
    proof (cases "?i \<in> set (es_creates st)")
      case True
      then have "handleCellValueChange vt ro ?r ?st = Some ?st" using found by (simp add: handleCellValueChange_def)
      then show ?thesis using report edit_inv_table[OF inv, of ?t] edits_ok_created[OF ok True] changed(1) by simp
    next
      case False
      have plain: "\<forall>x \<in> set (es_cells st). cg_restoreValue x = None \<and> cg_restoreCellMeta x = None"
        using ok by (auto simp: edits_ok_def change_ok_def)
      obtain st' where st': "handleCellValueChange vt ro ?r ?st = Some st'" "es_listen st'" "es_cellState st' = es_cells st'" "es_createState st' = es_creates st'"
          "es_deleteState st' = es_deletes st'" "vt_records vt (es_table st') = vt_records vt ?t" "es_cells st' = changes_after ?r (es_cells st)"
          "es_creates st' = es_creates st" "es_deletes st' = filter (\<lambda>i. i \<noteq> ?i) (es_deletes st)"
        by (rule handle_change_effect[OF laws, of ?st ?r "set_cell f v r" ro]) (use inv found False plain in \<open>simp_all add: edit_inv_def\<close>)
      have d: "distinct (map cell_key (es_cells st))" using inv by (simp add: edit_inv_def)
      have "edit_inv vt ro loaded st'"
        unfolding edit_inv_def using st' changes_after_distinct[OF d] edits_ok_change[OF ok d r False cell(5) 3(2,3,1) refl] changed(1) by simp
      then show ?thesis using report st'(1) by simp
    qed
  qed
qed

section \<open>Undoing\<close>

definition shown_numbers :: "'t vtable \<Rightarrow> 't \<Rightarrow> string option list" where
  "shown_numbers vt t = map (map_option row_number) (getSortedOrFilteredData vt t)"

lemma shown_numbers_update:
  assumes "vt_records vt t' = update_row i (set_cell f v) (vt_records vt t)" "same_view vt t t'" "distinct (row_ids vt t)"
  shows "shown_numbers vt t' = shown_numbers vt t"
  using shown_after_update[OF assms] by (simp add: shown_numbers_def option.map_comp o_def if_distrib cong: if_cong)

lemma shown_numbers_row:
  assumes "Some n \<in> set (shown_numbers vt t)"
  obtains row r where "shown_at vt t row r" "row_number r = n"
proof -
  obtain r where r: "Some r \<in> set (getSortedOrFilteredData vt t)" "row_number r = n"
    using assms unfolding shown_numbers_def by (auto simp: eq_commute[of "Some n"])
  then show thesis using that shown_iff[of vt t r] by blast
qed

lemma restore_cell_keeps:
  assumes laws: "vtable_laws vt" and ok: "edits_ok ro loaded (vt_records vt t) C creates deletes"
    and x: "x \<in> C" "Some (cg_rowId x) \<in> set (shown_numbers vt t)"
  shows "edits_ok ro loaded (vt_records vt (restore_cell vt ro x t)) (C - {x}) creates deletes"
    "shown_numbers vt (restore_cell vt ro x t) = shown_numbers vt t"
proof -
  have change: "change_ok ro loaded deletes x" using ok x(1) by (simp add: edits_ok_def)
  have ids: "distinct (row_ids vt t)" using ok by (simp add: edits_ok_def row_ids_def)
  obtain row r where r: "shown_at vt t row r" "row_number r = cg_rowId x" using shown_numbers_row[OF x(2)] .
  have "cg_rowId x \<in> row_number ` set loaded" using change by (force simp: change_ok_def)
  then have "row_number r \<notin> set creates" using ok r(2) by (auto simp: edits_ok_def)
  then obtain orig where orig: "orig \<in> set loaded" "row_as C orig r" using loaded_row[OF ok shown_in_records[OF r(1)]] by blast
  have "\<not> large_cell r (cg_field x)"
  proof -
    obtain o' where o': "o' \<in> set loaded" "row_number o' = cg_rowId x" "\<not> large_cell o' (cg_field x)" using change by (auto simp: change_ok_def)
    have "o' = orig" using ok o' orig r(2) row_unique[of loaded o' orig] by (auto simp: edits_ok_def row_as_def)
    then show ?thesis using o'(3) orig(2) by (simp add: row_as_def large_cell_def)
  qed
  moreover have "restore_cell vt ro x t = handleRevocationCellStyle vt ro (cg_field x) (row_number r) (Some (cg_currentValue x)) None t"
    "cg_field x \<notin> ro"
    using change r(2) by (simp_all add: restore_cell_def undo_value_def change_ok_def)
  ultimately have *: "vt_records vt (restore_cell vt ro x t) = update_row (cg_rowId x) (set_cell (cg_field x) (cg_currentValue x)) (vt_records vt t)"
      "same_view vt t (restore_cell vt ro x t)"
    using restore_effect[OF laws ids r(1), of "cg_field x" ro "cg_currentValue x"] r(2) by auto
  show "edits_ok ro loaded (vt_records vt (restore_cell vt ro x t)) (C - {x}) creates deletes"
    unfolding *(1) by (rule edits_ok_restore[OF ok x(1)])
  show "shown_numbers vt (restore_cell vt ro x t) = shown_numbers vt t"
    by (rule shown_numbers_update[OF * ids])
qed

lemma undo_item_keeps:
  assumes laws: "vtable_laws vt" and nums: "Some n \<in> set nums" "map_option row_number (sel_origin item) = Some n"
  shows "distinct (map cell_key recs) \<Longrightarrow> edits_ok ro loaded (vt_records vt t) (set recs) creates deletes \<Longrightarrow> shown_numbers vt t = nums
    \<Longrightarrow> undo_item vt ro item i recs t = (recs', t')
    \<Longrightarrow> distinct (map cell_key recs') \<and> edits_ok ro loaded (vt_records vt t') (set recs') creates deletes \<and> shown_numbers vt t' = nums
      \<and> set recs' \<subseteq> set recs \<and> (\<forall>x \<in> set recs'. cell_key x = (n, sel_field item) \<longrightarrow> x \<in> set (take i recs))"
  using laws nums
proof (induction vt ro item i recs t arbitrary: recs' t' rule: undo_item.induct)
  case (1 vt ro item i recs t)
  note step = undo_item.simps[of vt ro item i recs t]
  let ?hit = "cg_field (recs ! i) = sel_field item \<and> Some (cg_rowId (recs ! i)) = map_option row_number (sel_origin item)"
  show ?case
  proof (cases "length recs \<le> i")
    case True
    then show ?thesis using 1(3-9) step by simp
  next
    case False
    then have i: "i < length recs" by simp
    show ?thesis
    proof (cases ?hit)
      case True
      then have key: "cell_key (recs ! i) = (n, sel_field item)" and rowId: "cg_rowId (recs ! i) = n" using 1(9) by (simp_all add: cell_key_def)
      have rest: "set (splice_out i recs) = set recs - {recs ! i}" "distinct (map cell_key (splice_out i recs))"
        by (rule splice_out_key[OF 1(3) i])+
      have none: "\<forall>x \<in> set (splice_out i recs). cell_key x \<noteq> (n, sel_field item)"
        unfolding rest(1) using 1(3) i key by (auto simp: distinct_map inj_on_def)
      note kept = restore_cell_keeps[OF 1(7,4), of "recs ! i"]
      have IH: "distinct (map cell_key recs') \<and> edits_ok ro loaded (vt_records vt t') (set recs') creates deletes \<and> shown_numbers vt t' = nums
          \<and> set recs' \<subseteq> set (splice_out i recs)
          \<and> (\<forall>x \<in> set recs'. cell_key x = (n, sel_field item) \<longrightarrow> x \<in> set (take (Suc i) (splice_out i recs)))"
        using 1(1)[OF False True rest(2) _ _ _ 1(7-9)] kept rest(1) i 1(8) rowId 1(5,6) step False True by simp
      then show ?thesis using none rest(1) by (auto dest: in_set_takeD)
    next
      case miss: False
      have IH: "distinct (map cell_key recs') \<and> edits_ok ro loaded (vt_records vt t') (set recs') creates deletes \<and> shown_numbers vt t' = nums
          \<and> set recs' \<subseteq> set recs \<and> (\<forall>x \<in> set recs'. cell_key x = (n, sel_field item) \<longrightarrow> x \<in> set (take (Suc i) recs))"
        using 1(2)[OF False miss 1(3-5) _ 1(7-9)] 1(6) step False miss by simp
      have "cell_key (recs ! i) \<noteq> (n, sel_field item)" using miss 1(9) by (auto simp: cell_key_def)
      then show ?thesis using IH i by (auto simp: take_Suc_conv_app_nth)
    qed
  qed
qed

lemma undo_items_keep:
  assumes laws: "vtable_laws vt" and n: "Some n \<in> set nums"
  shows "\<forall>c \<in> set cells. map_option row_number (sel_origin c) = Some n \<Longrightarrow> distinct (map cell_key recs)
    \<Longrightarrow> edits_ok ro loaded (vt_records vt t) (set recs) creates deletes \<Longrightarrow> shown_numbers vt t = nums
    \<Longrightarrow> fold (\<lambda>item (recs, t). undo_item vt ro item 0 recs t) cells (recs, t) = (recs', t')
    \<Longrightarrow> distinct (map cell_key recs') \<and> edits_ok ro loaded (vt_records vt t') (set recs') creates deletes \<and> shown_numbers vt t' = nums
      \<and> set recs' \<subseteq> set recs \<and> (\<forall>x \<in> set recs'. \<forall>c \<in> set cells. cell_key x \<noteq> (n, sel_field c))"
proof (induction cells arbitrary: recs t)
  case (Cons c cells)
  obtain recs1 t1 where first: "undo_item vt ro c 0 recs t = (recs1, t1)" by fastforce
  have c: "map_option row_number (sel_origin c) = Some n" using Cons.prems(1) by simp
  have kept: "distinct (map cell_key recs1)" "edits_ok ro loaded (vt_records vt t1) (set recs1) creates deletes" "shown_numbers vt t1 = nums"
      "set recs1 \<subseteq> set recs" "\<forall>x \<in> set recs1. cell_key x \<noteq> (n, sel_field c)"
    using undo_item_keeps[OF laws n c Cons.prems(2-4) first] by auto
  have "distinct (map cell_key recs') \<and> edits_ok ro loaded (vt_records vt t') (set recs') creates deletes \<and> shown_numbers vt t' = nums
      \<and> set recs' \<subseteq> set recs1 \<and> (\<forall>x \<in> set recs'. \<forall>c \<in> set cells. cell_key x \<noteq> (n, sel_field c))"
    by (rule Cons.IH) (use Cons.prems kept first in auto)
  then show ?case using kept by auto
qed simp

definition undo_inv :: "'t vtable \<Rightarrow> string set \<Rightarrow> ResultRow list \<Rightarrow> string option list \<Rightarrow> 't UndoState \<Rightarrow> bool" where
  "undo_inv vt ro loaded nums u \<longleftrightarrow>
     distinct (map cell_key (un_cells u))
     \<and> edits_ok ro loaded (vt_records vt (un_table u)) (set (un_cells u)) (un_creates u @ un_deleteRows u) (un_deletes u)
     \<and> shown_numbers vt (un_table u) = nums \<and> (\<forall>i \<in> set (un_deleteRows u). Some i \<in> set nums)"

definition fewer_edits :: "'t UndoState \<Rightarrow> 't UndoState \<Rightarrow> bool" where
  "fewer_edits u' u \<longleftrightarrow> set (un_cells u') \<subseteq> set (un_cells u) \<and> set (un_creates u') \<subseteq> set (un_creates u) \<and> set (un_deletes u') \<subseteq> set (un_deletes u)"

text \<open>Nothing of what is selected is recorded any more.\<close>

definition row_undone :: "SelectedCell list \<Rightarrow> ICellChangeRecord list \<Rightarrow> string list \<Rightarrow> string list \<Rightarrow> bool" where
  "row_undone cells recs creates deletes \<longleftrightarrow>
     (\<forall>n. selected_row_id cells = Some n \<longrightarrow>
        n \<notin> set creates \<and> n \<notin> set deletes \<and> (\<forall>x \<in> set recs. \<forall>c \<in> set cells. cell_key x \<noteq> (n, sel_field c)))"

definition selection_ok :: "string option list \<Rightarrow> SelectedCell list \<Rightarrow> bool" where
  "selection_ok nums cells \<longleftrightarrow>
     (\<forall>c \<in> set cells. sel_origin c = sel_origin (hd cells) \<and> (\<forall>r. sel_origin c = Some r \<longrightarrow> Some (row_number r) \<in> set nums))"

lemma edits_ok_creates_cong:
  assumes "edits_ok ro loaded rs C creates deletes" "distinct creates'" "set creates' = set creates"
  shows "edits_ok ro loaded rs C creates' deletes"
  using assms by (simp add: edits_ok_def)

lemma changed_row_loaded:
  assumes "edits_ok ro loaded rs C creates deletes" "x \<in> C"
  shows "cg_rowId x \<in> row_number ` set loaded"
proof -
  have "change_ok ro loaded deletes x" using assms by (simp add: edits_ok_def)
  then show ?thesis by (force simp: change_ok_def)
qed

lemma changed_row_not_listed:
  assumes "edits_ok ro loaded rs C creates deletes" "x \<in> C"
  shows "cg_rowId x \<notin> set creates" "cg_rowId x \<notin> set deletes"
proof -
  show "cg_rowId x \<notin> set creates" using changed_row_loaded[OF assms] assms(1) by (auto simp: edits_ok_def)
  show "cg_rowId x \<notin> set deletes" using assms by (simp add: edits_ok_def change_ok_def)
qed

lemma undo_row_keeps:
  assumes laws: "vtable_laws vt" and inv: "undo_inv vt ro loaded nums u" and sel: "selection_ok nums cells"
  shows "undo_inv vt ro loaded nums (undo_row vt ro cells u)" "fewer_edits (undo_row vt ro cells u) u"
    "let u' = undo_row vt ro cells u in row_undone cells (un_cells u') (un_creates u') (un_deletes u')"
proof -
  have d: "distinct (map cell_key (un_cells u))" and nums: "shown_numbers vt (un_table u) = nums"
    and ok: "edits_ok ro loaded (vt_records vt (un_table u)) (set (un_cells u)) (un_creates u @ un_deleteRows u) (un_deletes u)"
    using inv by (simp_all add: undo_inv_def)
  have lists: "distinct (un_creates u @ un_deleteRows u)" "distinct (un_deletes u)" "set (un_creates u) \<inter> set (un_deletes u) = {}"
    using ok by (auto simp: edits_ok_def)
  have styled: "shown_numbers vt (handleRevocationRowStyle vt i t) = shown_numbers vt t" for i t
    using same_rows_shown[OF style_keeps(3,4)[OF laws]] by (simp add: shown_numbers_def)
  note keep = style_keeps(3)[OF laws]
  have "undo_inv vt ro loaded nums (undo_row vt ro cells u) \<and> fewer_edits (undo_row vt ro cells u) u
    \<and> (let u' = undo_row vt ro cells u in row_undone cells (un_cells u') (un_creates u') (un_deletes u'))"
  proof (cases "selected_row_id cells")
    case None
    then show ?thesis using inv by (simp add: undo_row_def fewer_edits_def row_undone_def)
  next
    case (Some n)
    then have all: "\<forall>c \<in> set cells. map_option row_number (sel_origin c) = Some n" "Some n \<in> set nums"
      using sel by (auto simp: selection_ok_def selected_row_id_def split: list.splits)
    consider "n \<in> set (un_creates u)" | "n \<notin> set (un_creates u)" "n \<in> set (un_deletes u)" | "n \<notin> set (un_creates u)" "n \<notin> set (un_deletes u)" by blast
    then show ?thesis
    proof cases
      case 1
      have "edits_ok ro loaded (vt_records vt (un_table u)) (set (un_cells u)) (remove1 n (un_creates u) @ un_deleteRows u @ [n]) (un_deletes u)"
        by (rule edits_ok_creates_cong[OF ok]) (use lists 1 in auto)
      then show ?thesis
        using 1 Some inv all(2) lists changed_row_not_listed(1)[OF ok]
        by (auto simp: undo_row_def undo_inv_def fewer_edits_def row_undone_def styled keep cell_key_def set_remove1_eq)
    next
      case 2
      have "edits_ok ro loaded (vt_records vt (un_table u)) (set (un_cells u)) (un_creates u @ un_deleteRows u) (remove1 n (un_deletes u))"
        by (rule edits_ok_fewer_deletes[OF ok]) (use lists in \<open>auto simp: set_remove1_eq\<close>)
      then show ?thesis
        using 2 Some inv lists changed_row_not_listed(2)[OF ok]
        by (auto simp: undo_row_def undo_inv_def fewer_edits_def row_undone_def styled keep cell_key_def set_remove1_eq)
    next
      case 3
      obtain recs t where run: "fold (\<lambda>item (recs, t). undo_item vt ro item 0 recs t) cells (un_cells u, un_table u) = (recs, t)" by fastforce
      from undo_items_keep[OF laws all(2,1) d ok nums run] 3 Some inv show ?thesis
        by (auto simp: undo_row_def undo_inv_def fewer_edits_def row_undone_def run)
    qed
  qed
  then show "undo_inv vt ro loaded nums (undo_row vt ro cells u)" "fewer_edits (undo_row vt ro cells u) u"
    "let u' = undo_row vt ro cells u in row_undone cells (un_cells u') (un_creates u') (un_deletes u')" by blast+
qed

lemma undo_rows_keep:
  assumes "vtable_laws vt"
  shows "undo_inv vt ro loaded nums u \<Longrightarrow> \<forall>cells \<in> set rows. selection_ok nums cells \<Longrightarrow> u' = fold (undo_row vt ro) rows u
    \<Longrightarrow> undo_inv vt ro loaded nums u' \<and> fewer_edits u' u \<and> (\<forall>cells \<in> set rows. row_undone cells (un_cells u') (un_creates u') (un_deletes u'))"
proof (induction rows arbitrary: u)
  case Nil
  then show ?case by (simp add: fewer_edits_def)
next
  case (Cons cells rows)
  let ?u = "undo_row vt ro cells u"
  note first = undo_row_keeps[OF assms Cons.prems(1), of cells]
  have rest: "undo_inv vt ro loaded nums u' \<and> fewer_edits u' ?u \<and> (\<forall>cells \<in> set rows. row_undone cells (un_cells u') (un_creates u') (un_deletes u'))"
    by (rule Cons.IH) (use Cons.prems first(1) in auto)
  then have "row_undone cells (un_cells u') (un_creates u') (un_deletes u')"
    using first(3) Cons.prems(2) unfolding row_undone_def fewer_edits_def Let_def by (meson list.set_intros(1) subset_iff)
  then show ?case using rest first(2) Cons.prems(2) by (auto simp: fewer_edits_def)
qed

section \<open>Deleting rows of the table\<close>

lemma shown_position_in: "shown_position vt t p = Some r \<Longrightarrow> r \<in> set (vt_records vt t)"
  unfolding shown_position_def by (metis (no_types, lifting) nth_mem option.distinct(1) shown_rows_in_records)

lemma delete_by_number:
  assumes laws: "vtable_laws vt" and ids: "distinct (row_ids vt t)"
    and G: "G = row_number ` set (List.map_filter (shown_position vt t) ps)"
  shows "vt_records vt (vt_deleteRecords vt ps t) = filter (\<lambda>r. row_number r \<notin> G) (vt_records vt t)"
    "shown_numbers vt (vt_deleteRecords vt ps t) = filter (\<lambda>n. n \<notin> Some ` G) (shown_numbers vt t)"
proof -
  let ?gone = "List.map_filter (shown_position vt t) ps"
  have gone: "set ?gone \<subseteq> set (vt_records vt t)" by (auto simp: List.map_filter_def dest: shown_position_in)
  have same: "r \<in> set ?gone \<longleftrightarrow> row_number r \<in> G" if "r \<in> set (vt_records vt t)" for r
    unfolding G using gone row_unique[of "vt_records vt t"] ids that by (auto simp: row_ids_def image_iff)
  have law: "vt_records vt (vt_deleteRecords vt ps t) = filter (\<lambda>r. r \<notin> set ?gone) (vt_records vt t)"
      "getSortedOrFilteredData vt (vt_deleteRecords vt ps t) = filter (\<lambda>r. r \<notin> Some ` set ?gone) (getSortedOrFilteredData vt t)"
    using laws ids by (auto simp: vtable_laws_def laws_of_lists_def Let_def)
  show "vt_records vt (vt_deleteRecords vt ps t) = filter (\<lambda>r. row_number r \<notin> G) (vt_records vt t)"
    unfolding law(1) using same by (intro filter_cong) auto
  have "x \<in> Some ` set ?gone \<longleftrightarrow> map_option row_number x \<in> Some ` G" if "x \<in> set (getSortedOrFilteredData vt t)" for x
    using same shown_rows_in_records[of _ vt t] that by (cases x) auto
  then show "shown_numbers vt (vt_deleteRecords vt ps t) = filter (\<lambda>n. n \<notin> Some ` G) (shown_numbers vt t)"
    unfolding shown_numbers_def law(2) filter_map o_def by (auto intro!: arg_cong[where f = "map _"] filter_cong)
qed

lemma positions_of_numbers:
  assumes "distinct (row_ids vt t)" "\<forall>i \<in> set ids. Some i \<in> set (shown_numbers vt t)"
  shows "map row_number (List.map_filter (shown_position vt t) (map (\<lambda>row. row - 1) (findRowNumbersByIds vt t ids))) = ids"
  using assms(2)
proof (induction ids)
  case (Cons i ids)
  obtain row r where r: "shown_at vt t row r" "row_number r = i" using shown_numbers_row[of i vt t] Cons.prems by auto
  have "shown_at vt t (findRowNumberById vt t i) r" using row_number_found[OF r(1) assms(1)] r(2) by simp
  then have "shown_position vt t (findRowNumberById vt t i - 1) = Some r" by (simp add: shown_position_def shown_at_def)
  then show ?case using Cons r(2) by (simp add: findRowNumbersByIds_def map_filter_simps)
qed (simp add: findRowNumbersByIds_def map_filter_simps)

lemma selection_shown:
  assumes "vtable_laws vt" "cells \<in> set (vt_getSelectedCellInfos vt t)"
  shows "selection_ok (shown_numbers vt t) cells"
proof -
  have *: "\<forall>c \<in> set cells. sel_origin c = sel_origin (hd cells) \<and> (\<forall>r. sel_origin c = Some r \<longrightarrow> shown_at vt t (sel_row c) r)"
    using assms by (simp add: vtable_laws_def laws_of_selection_def)
  have "Some (row_number r) \<in> set (shown_numbers vt t)" if "shown_at vt t row r" for row r
    using shown_at_in[OF that] by (force simp: shown_numbers_def)
  then show ?thesis using * unfolding selection_ok_def by blast
qed

lemma handleRevocation_keeps:
  assumes laws: "vtable_laws vt" and inv: "edit_inv vt ro loaded st"
  shows "edit_inv vt ro loaded (handleRevocation vt ro st)"
    "\<forall>cells \<in> set (vt_getSelectedCellInfos vt (es_table st)).
       row_undone cells (es_cells (handleRevocation vt ro st)) (es_creates (handleRevocation vt ro st)) (es_deletes (handleRevocation vt ro st))"
    "set (es_cells (handleRevocation vt ro st)) \<subseteq> set (es_cells st) \<and> set (es_creates (handleRevocation vt ro st)) \<subseteq> set (es_creates st)
       \<and> set (es_deletes (handleRevocation vt ro st)) \<subseteq> set (es_deletes st)"
proof -
  let ?rows = "vt_getSelectedCellInfos vt (es_table st)" and ?nums = "shown_numbers vt (es_table st)" and ?st = "handleRevocation vt ro st"
  let ?u0 = "\<lparr>un_creates = es_creates st, un_deletes = es_deletes st, un_cells = es_cells st, un_deleteRows = [], un_table = es_table st\<rparr>"
  define u where "u = fold (undo_row vt ro) ?rows ?u0"
  have "undo_inv vt ro loaded ?nums ?u0" using inv by (simp add: undo_inv_def edit_inv_def)
  then have u: "undo_inv vt ro loaded ?nums u" "fewer_edits u ?u0" "\<forall>cells \<in> set ?rows. row_undone cells (un_cells u) (un_creates u) (un_deletes u)"
    using undo_rows_keep[OF laws, of ro loaded ?nums ?u0 ?rows u] selection_shown[OF laws] by (auto simp: u_def)
  have ok: "edits_ok ro loaded (vt_records vt (un_table u)) (set (un_cells u)) (un_creates u @ un_deleteRows u) (un_deletes u)"
    and ids: "distinct (row_ids vt (un_table u))" and d: "distinct (map cell_key (un_cells u))"
    using u(1) by (simp_all add: undo_inv_def edits_ok_def row_ids_def)
  let ?ps = "map (\<lambda>row. row - 1) (findRowNumbersByIds vt (un_table u) (un_deleteRows u))"
  have "set (un_deleteRows u) = row_number ` set (List.map_filter (shown_position vt (un_table u)) ?ps)"
    using positions_of_numbers[OF ids, of "un_deleteRows u"] u(1) by (metis image_set undo_inv_def)
  note deleted = delete_by_number(1)[OF laws ids this]
  define t where "t = (if un_deleteRows u = [] then un_table u else vt_deleteRecords vt ?ps (un_table u))"
  have "edits_ok ro loaded (filter (\<lambda>r. row_number r \<notin> set (un_deleteRows u)) (vt_records vt (un_table u))) (set (un_cells u)) (un_creates u) (un_deletes u)"
    by (rule edits_ok_remove_creates[OF ok]) (use ok in \<open>auto simp: edits_ok_def\<close>)
  then have final: "edits_ok ro loaded (vt_records vt t) (set (un_cells u)) (un_creates u) (un_deletes u)"
    using deleted by (cases "un_deleteRows u") (simp_all add: t_def)
  have st: "?st = (if ?rows = [] then st else set_cells (un_cells u) (set_creates (un_creates u) (set_deletes (un_deletes u) (st\<lparr>es_table := t\<rparr>))))"
    by (simp add: handleRevocation_def Let_def u_def t_def)
  show "edit_inv vt ro loaded ?st"
    unfolding st using inv final d by (simp add: edit_inv_def set_cells_def set_creates_def set_deletes_def)
  show "\<forall>cells \<in> set ?rows. row_undone cells (es_cells ?st) (es_creates ?st) (es_deletes ?st)"
    unfolding st using u(3) by (simp add: set_cells_def set_creates_def set_deletes_def)
  show "set (es_cells ?st) \<subseteq> set (es_cells st) \<and> set (es_creates ?st) \<subseteq> set (es_creates st) \<and> set (es_deletes ?st) \<subseteq> set (es_deletes st)"
    unfolding st using u(2) by (simp add: fewer_edits_def set_cells_def set_creates_def set_deletes_def)
qed

lemma delete_row_records_effect:
  "distinct rows \<Longrightarrow> distinct (es_creates st) \<Longrightarrow> es_createState st = es_creates st \<Longrightarrow> st' = delete_row_records deleted rows st
   \<Longrightarrow> es_table st' = es_table st \<and> es_cells st' = es_cells st \<and> es_cellState st' = es_cellState st \<and> es_listen st' = es_listen st
     \<and> es_createState st' = es_creates st' \<and> distinct (es_creates st') \<and> set (es_creates st') = set (es_creates st) - set rows
     \<and> es_deletes st' = es_deletes st @ filter (\<lambda>i. i \<notin> set (es_creates st) \<and> i \<notin> set deleted) rows"
proof (induction rows arbitrary: st)
  case (Cons i rows)
  define st1 where "st1 = (if i \<in> set (es_creates st) then set_creates (remove1 i (es_creates st)) st
        else if i \<in> set deleted then st else st\<lparr>es_deletes := es_deletes st @ [i]\<rparr>)"
  have st1: "es_table st1 = es_table st" "es_cells st1 = es_cells st" "es_cellState st1 = es_cellState st" "es_listen st1 = es_listen st"
    "es_createState st1 = es_creates st1" "distinct (es_creates st1)" "set (es_creates st1) = set (es_creates st) - {i}"
    "es_deletes st1 = es_deletes st @ (if i \<notin> set (es_creates st) \<and> i \<notin> set deleted then [i] else [])"
    using Cons.prems by (auto simp: st1_def set_creates_def set_remove1_eq)
  have run: "st' = delete_row_records deleted rows st1" using Cons.prems(4) by (simp add: st1_def)
  have IH: "es_table st' = es_table st1 \<and> es_cells st' = es_cells st1 \<and> es_cellState st' = es_cellState st1 \<and> es_listen st' = es_listen st1
     \<and> es_createState st' = es_creates st' \<and> distinct (es_creates st') \<and> set (es_creates st') = set (es_creates st1) - set rows
     \<and> es_deletes st' = es_deletes st1 @ filter (\<lambda>i. i \<notin> set (es_creates st1) \<and> i \<notin> set deleted) rows"
    by (rule Cons.IH) (use Cons.prems st1 run in auto)
  have "filter (\<lambda>j. j \<notin> set (es_creates st1) \<and> j \<notin> set deleted) rows = filter (\<lambda>j. j \<notin> set (es_creates st) \<and> j \<notin> set deleted) rows"
    using Cons.prems(1) st1(7) by (auto intro!: filter_cong)
  then show ?case using IH st1 by auto
qed simp

lemma restore_all_keeps:
  assumes laws: "vtable_laws vt"
  shows "edits_ok ro loaded (vt_records vt t) C creates deletes \<Longrightarrow> distinct xs \<Longrightarrow> set xs \<subseteq> C
    \<Longrightarrow> \<forall>x \<in> set xs. Some (cg_rowId x) \<in> set (shown_numbers vt t)
    \<Longrightarrow> edits_ok ro loaded (vt_records vt (fold (restore_cell vt ro) xs t)) (C - set xs) creates deletes"
proof (induction xs arbitrary: t C)
  case (Cons x xs)
  have x: "x \<in> C" "Some (cg_rowId x) \<in> set (shown_numbers vt t)" using Cons.prems by auto
  have "edits_ok ro loaded (vt_records vt (fold (restore_cell vt ro) xs (restore_cell vt ro x t))) (C - {x} - set xs) creates deletes"
    using restore_cell_keeps[OF laws Cons.prems(1) x] Cons.prems by (intro Cons.IH) auto
  then show ?case by (simp add: Diff_insert2[of C x "set xs"])
qed simp

lemma edits_ok_add_deletes:
  "edits_ok ro loaded rs C creates deletes \<Longrightarrow> distinct ds \<Longrightarrow> set ds \<subseteq> row_number ` set loaded \<Longrightarrow> set ds \<inter> set deletes = {}
   \<Longrightarrow> \<forall>r \<in> C. cg_rowId r \<notin> set ds \<Longrightarrow> edits_ok ro loaded rs C creates (deletes @ ds)"
proof (induction ds arbitrary: deletes)
  case (Cons i ds)
  have "edits_ok ro loaded rs C creates ((deletes @ [i]) @ ds)"
    using edits_ok_add_delete[OF Cons.prems(1), of i] Cons.prems by (intro Cons.IH) auto
  then show ?case by simp
qed simp

lemma selected_position:
  assumes "vtable_laws vt" "cells \<in> set (vt_getSelectedCellInfos vt t)" "selected_row_id cells = Some n"
  obtains r where "shown_position vt t (sel_row (hd cells) - 1) = Some r" "row_number r = n" "Some n \<in> set (shown_numbers vt t)"
proof -
  obtain c cs r where c: "cells = c # cs" "sel_origin c = Some r" "row_number r = n"
    using assms(3) by (auto simp: selected_row_id_def split: list.splits)
  have "\<forall>c \<in> set cells. \<forall>r. sel_origin c = Some r \<longrightarrow> shown_at vt t (sel_row c) r"
    using assms(1,2) by (simp add: vtable_laws_def laws_of_selection_def)
  then have shown: "shown_at vt t (sel_row c) r" using c by simp
  then have "Some n \<in> set (shown_numbers vt t)" using shown_at_in[OF shown] c(3) by (force simp: shown_numbers_def)
  then show thesis using that[of r] c shown by (simp add: shown_position_def shown_at_def)
qed

text \<open>The positions of the new rows among the selected ones.\<close>

lemma created_positions:
  assumes "vtable_laws vt" "set ids \<subseteq> set (List.map_filter selected_row_id (vt_getSelectedCellInfos vt t))"
  shows "map row_number (List.map_filter (shown_position vt t)
      (List.map_filter (\<lambda>item. map_option (\<lambda>target. sel_row (hd target) - 1)
        (List.find (\<lambda>c. selected_row_id c = Some item) (vt_getSelectedCellInfos vt t))) ids)) = ids"
  using assms(2)
proof (induction ids)
  case (Cons i ids)
  let ?rows = "vt_getSelectedCellInfos vt t"
  have "List.find (\<lambda>c. selected_row_id c = Some i) ?rows \<noteq> None"
    using Cons.prems by (auto simp: find_None_conv List.map_filter_def)
  then obtain cells where cells: "List.find (\<lambda>c. selected_row_id c = Some i) ?rows = Some cells" by blast
  have found: "cells \<in> set ?rows" "selected_row_id cells = Some i" using find_SomeD[OF cells] by auto
  obtain r where r: "shown_position vt t (sel_row (hd cells) - 1) = Some r" "row_number r = i"
    by (rule selected_position[OF assms(1) found])
  then show ?case using Cons cells by (simp add: map_filter_simps)
qed (simp add: map_filter_simps)

lemma handleDeleteRow_keeps:
  assumes laws: "vtable_laws vt" and inv: "edit_inv vt ro loaded st"
  shows "edit_inv vt ro loaded (handleDeleteRow vt ro st)"
proof (cases "vt_getSelectedCellInfos vt (es_table st) = []")
  case True
  then show ?thesis using inv by (simp add: handleDeleteRow_def)
next
  case False
  let ?t = "es_table st" and ?rows = "vt_getSelectedCellInfos vt (es_table st)"
  define D where "D = List.map_filter selected_row_id ?rows"
  define gone where "gone = filter (\<lambda>i. i \<in> set (es_creates st)) D"
  define ps where "ps = List.map_filter (\<lambda>item. map_option (\<lambda>target. sel_row (hd target) - 1) (List.find (\<lambda>c. selected_row_id c = Some item) ?rows)) gone"
  define t1 where "t1 = (if ps \<noteq> [] then vt_deleteRecords vt ps ?t else ?t)"
  define revoked where "revoked = filter (\<lambda>r. cg_rowId r \<in> set D) (es_cells st)"
  define remaining where "remaining = filter (\<lambda>r. cg_rowId r \<notin> set D) (es_cells st)"
  define st1 where "st1 = delete_row_records (es_deletes st) D (st\<lparr>es_table := t1\<rparr>)"
  have ok: "edits_ok ro loaded (vt_records vt ?t) (set (es_cells st)) (es_creates st) (es_deletes st)" and d: "distinct (map cell_key (es_cells st))"
    and mirror: "es_listen st" "es_cellState st = es_cells st" "es_createState st = es_creates st" using inv by (simp_all add: edit_inv_def)
  note ids = edit_inv_ids[OF inv]
  have D: "distinct D" "\<forall>i \<in> set D. Some i \<in> set (shown_numbers vt ?t)"
  proof -
    show "distinct D" using laws by (simp add: D_def vtable_laws_def laws_of_selection_def)
    show "\<forall>i \<in> set D. Some i \<in> set (shown_numbers vt ?t)"
      using selected_position[OF laws] by (auto simp: D_def List.map_filter_def) blast
  qed
  have numbers: "map row_number (List.map_filter (shown_position vt ?t) ps) = gone"
    unfolding ps_def by (rule created_positions[OF laws]) (auto simp: gone_def D_def)
  then have "set gone = row_number ` set (List.map_filter (shown_position vt ?t) ps)" by (metis image_set)
  note deleted = delete_by_number[OF laws ids this]
  have empty: "ps = [] \<Longrightarrow> gone = []" using numbers by (simp add: map_filter_simps)
  have t1: "vt_records vt t1 = filter (\<lambda>r. row_number r \<notin> set gone) (vt_records vt ?t)"
      "shown_numbers vt t1 = filter (\<lambda>n. n \<notin> Some ` set gone) (shown_numbers vt ?t)"
    using deleted empty by (auto simp: t1_def)
  have st1: "es_table st1 = t1" "es_cells st1 = es_cells st" "es_cellState st1 = es_cells st" "es_listen st1"
      "es_createState st1 = es_creates st1" "distinct (es_creates st1)" "set (es_creates st1) = set (es_creates st) - set D"
      "es_deletes st1 = es_deletes st @ filter (\<lambda>i. i \<notin> set (es_creates st) \<and> i \<notin> set (es_deletes st)) D"
    using delete_row_records_effect[OF D(1), of "st\<lparr>es_table := t1\<rparr>" st1 "es_deletes st"] ok mirror by (auto simp: st1_def edits_ok_def)
  have ok1: "edits_ok ro loaded (vt_records vt t1) (set (es_cells st)) (es_creates st1) (es_deletes st)"
    unfolding t1(1) by (rule edits_ok_remove_creates[OF ok _ st1(6)]) (use st1(7) in \<open>auto simp: gone_def\<close>)
  have split: "set (es_cells st) - set revoked = set remaining" "distinct revoked"
    using d by (auto simp: revoked_def remaining_def distinct_map)
  have shown: "\<forall>x \<in> set revoked. Some (cg_rowId x) \<in> set (shown_numbers vt t1)"
    using D(2) changed_row_not_listed(1)[OF ok] by (auto simp: revoked_def t1(2) gone_def)
  have ok2: "edits_ok ro loaded (vt_records vt (fold (restore_cell vt ro) revoked t1)) (set remaining) (es_creates st1) (es_deletes st)"
    using restore_all_keeps[OF laws ok1 split(2) _ shown] split(1) by (auto simp: revoked_def)
  have "i \<in> row_number ` set loaded" if i: "i \<in> set D" "i \<notin> set (es_creates st)" for i
  proof -
    have "Some i \<in> set (shown_numbers vt ?t)" using D(2) i(1) by blast
    then obtain row r where r: "shown_at vt ?t row r" "row_number r = i" by (rule shown_numbers_row)
    obtain orig where "orig \<in> set loaded" "row_as (set (es_cells st)) orig r" using loaded_row[OF ok shown_in_records[OF r(1)]] r(2) i(2) by auto
    then show ?thesis using r(2) by (force simp: row_as_def)
  qed
  then have ok3: "edits_ok ro loaded (vt_records vt (fold (restore_cell vt ro) revoked t1)) (set remaining) (es_creates st1) (es_deletes st1)"
    unfolding st1(8) using D(1) by (intro edits_ok_add_deletes[OF ok2]) (auto simp: remaining_def)
  have "handleDeleteRow vt ro st = (let st1' = set_deletes (es_deletes st1) st1; st2 = (if revoked \<noteq> [] then set_cells remaining st1' else st1')
      in st2\<lparr>es_table := fold (restore_cell vt ro) revoked t1\<rparr>)"
    unfolding handleDeleteRow_def handleDeleteRowRecord_def Let_def D_def[symmetric] gone_def[symmetric] ps_def[symmetric] t1_def[symmetric]
      revoked_def[symmetric] remaining_def[symmetric]
    using False st1(1) by (simp add: set_cells_def set_deletes_def flip: st1_def)
  moreover have "remaining = es_cells st" if "revoked = []" using that by (auto simp: revoked_def remaining_def filter_empty_conv filter_id_conv)
  moreover have "distinct (map cell_key remaining)" using d by (simp add: remaining_def distinct_map_filter)
  ultimately show ?thesis
    using ok3 st1 by (auto simp: edit_inv_def set_cells_def set_deletes_def Let_def)
qed

end
