(* ===== verification/Result_Edit_Sessions.thy ===== *)
theory Result_Edit_Sessions
  imports Result_Edit_Properties
begin

text \<open>
  Sessions of editing, as every interleaving of the operations of \<open>Result_Edits\<close>: undoing everything brings the loaded rows back, and what is
  submitted is true and complete. A small table at the end shows that the laws of the table can be met.
\<close>

section \<open>Sessions of editing\<close>

lemma handleCreate_keeps:
  assumes "edit_inv vt ro loaded st" "vt_records vt t = vt_records vt (es_table st) @ new" "map row_number new = ids" "distinct ids"
    and "set ids \<inter> set (row_ids vt (es_table st)) = {}" "set ids \<inter> row_number ` set loaded = {}"
  shows "edit_inv vt ro loaded (handleCreateRowRecord ids (st\<lparr>es_table := t\<rparr>))"
  using assms edits_ok_add_creates[of ro loaded "vt_records vt (es_table st)" "set (es_cells st)" "es_creates st" "es_deletes st" new ids]
  by (simp add: edit_inv_def handleCreateRowRecord_def set_creates_def row_ids_def)

lemma cloned_rows: "length ids = length rows \<Longrightarrow> map row_number (map (\<lambda>(uuid, row). cloned_row columns uuid row) (zip ids rows)) = ids"
  by (induction ids rows rule: list_induct2) (auto simp: cloned_row_def split: list.splits option.splits)

lemma style_effect_records:
  assumes "vtable_laws vt"
  shows "vt_records vt (es_table (style_effect vt st)) = vt_records vt (es_table st)"
proof -
  have rows: "vt_records vt (style_rows vt style ids t) = vt_records vt t" for style ids t
  proof -
    have "vt_records vt (fold (\<lambda>row t. vt_arrangeCustomCellStyle vt (StyleRange row 0 row (max 0 (vt_colCount vt t - 1))) style t) rs t) = vt_records vt t"
      for rs t by (induction rs arbitrary: t) (simp_all add: style_keeps[OF assms])
    then show ?thesis by (simp add: style_rows_def)
  qed
  have "vt_records vt (fold (style_cell vt) rs t) = vt_records vt t" for rs t
    by (induction rs arbitrary: t) (simp_all add: style_cell_def Let_def style_keeps[OF assms])
  then show ?thesis
    using assms by (simp add: style_effect_def arrange_effect_def create_style_effect_def delete_style_effect_def rows vtable_laws_def laws_of_rows_def)
qed

definition loaded_state :: "'t \<Rightarrow> 't EditState" where
  "loaded_state t = \<lparr>es_table = t, es_cells = [], es_creates = [], es_deletes = [], es_cellState = [], es_createState = [], es_deleteState = [], es_listen = True\<rparr>"

text \<open>
  What can happen between loading and submitting: the user sorts, filters, selects, scrolls or moves columns, edits a cell, undoes, deletes,
  clones or adds rows, and the hook restyles the table after each of it. The user may also freeze and release columns (\<open>ro\<close> are the frozen
  ones), but not a column of which an edit is recorded: \<open>frozen_undo_keeps_value\<close> below shows what happens then. The
  edits of the separate viewer of a cell (\<open>ViewData/index.tsx\<close>), which also replaces large values, are not part of a session.
\<close>

inductive edit_session :: "'t vtable \<Rightarrow> ResultRow list \<Rightarrow> string set \<Rightarrow> 't EditState \<Rightarrow> bool" for vt loaded where
  session_start: "vt_records vt t = loaded \<Longrightarrow> distinct (map row_number loaded) \<Longrightarrow> edit_session vt loaded ro (loaded_state t)"
| session_view: "edit_session vt loaded ro st \<Longrightarrow> vt_records vt t = vt_records vt (es_table st) \<Longrightarrow> edit_session vt loaded ro (st\<lparr>es_table := t\<rparr>)"
| session_edit: "edit_session vt loaded ro st \<Longrightarrow> shown_at vt (es_table st) row r \<Longrightarrow> 1 \<le> col \<Longrightarrow> vt_getHeaderField vt (es_table st) col row = Str f
    \<Longrightarrow> f \<noteq> [] \<Longrightarrow> cell_of r f \<noteq> None \<Longrightarrow> edit_cell vt ro col row v st = Some st' \<Longrightarrow> edit_session vt loaded ro st'"
| session_undo: "edit_session vt loaded ro st \<Longrightarrow> edit_session vt loaded ro (handleRevocation vt ro st)"
| session_delete: "edit_session vt loaded ro st \<Longrightarrow> edit_session vt loaded ro (handleDeleteRow vt ro st)"
| session_clone: "edit_session vt loaded ro st \<Longrightarrow> ids = map uuids [0..<length (vt_getSelectedCellInfos vt (es_table st))] \<Longrightarrow> distinct ids
    \<Longrightarrow> set ids \<inter> set (row_ids vt (es_table st)) = {} \<Longrightarrow> set ids \<inter> row_number ` set loaded = {}
    \<Longrightarrow> edit_session vt loaded ro (handleCloneRow vt uuids st)"
| session_blank: "edit_session vt loaded ro st \<Longrightarrow> row_number blankRow = rowId \<Longrightarrow> rowId \<notin> set (row_ids vt (es_table st)) \<Longrightarrow> rowId \<notin> row_number ` set loaded
    \<Longrightarrow> edit_session vt loaded ro (handleAddBlankRow vt blankRow rowId st)"
| session_style: "edit_session vt loaded ro st \<Longrightarrow> edit_session vt loaded ro (style_effect vt st)"
| session_freeze: "edit_session vt loaded ro st \<Longrightarrow> \<forall>x \<in> set (es_cells st). cg_field x \<notin> ro' \<Longrightarrow> edit_session vt loaded ro' st"
| session_recalculate: "edit_session vt loaded ro st \<Longrightarrow> edit_session vt loaded ro (reCalculateCellStyle vt st)"

lemma edit_session_inv:
  assumes laws: "vtable_laws vt" and "edit_session vt loaded ro st"
  shows "edit_inv vt ro loaded st"
  using assms(2)
proof induction
  case (session_start t ro)
  have "list_all2 (row_as {}) loaded loaded" by (rule list.rel_refl) (simp add: row_as_def)
  then show ?case using session_start by (simp add: edit_inv_def loaded_state_def edits_ok_def)
next
  case (session_view ro st t)
  then show ?case by (simp add: edit_inv_def)
next
  case (session_edit ro st row r col f v st')
  then obtain a where "cell_of r f = Some a" by blast
  then show ?case using edit_cell_inv[OF laws session_edit.IH session_edit(2-5), of a v] session_edit(7) by auto
next
  case (session_undo ro st)
  then show ?case by (intro handleRevocation_keeps(1)[OF laws])
next
  case (session_delete ro st)
  then show ?case by (intro handleDeleteRow_keeps[OF laws])
next
  case (session_clone ro st ids uuids)
  let ?t = "es_table st" and ?rows = "vt_getSelectedCellInfos vt (es_table st)"
  let ?new = "map (\<lambda>(uuid, row). cloned_row (vt_columns vt ?t) uuid row) (zip ids ?rows)"
  have "vt_records vt (vt_scrollToCell vt n (vt_addRecords vt ?new ?t)) = vt_records vt ?t @ ?new" for n
    using laws by (simp add: vtable_laws_def laws_of_rows_def laws_of_lists_def)
  note added = this
  have "length ids = length ?rows" using session_clone(2) by simp
  from handleCreate_keeps[OF session_clone.IH added cloned_rows[OF this] session_clone(3-5)] show ?case
    unfolding handleCloneRow_def Let_def session_clone(2)[symmetric] .
next
  case (session_blank ro st blankRow rowId)
  have "vt_records vt (vt_scrollToCell vt n (vt_addRecords vt [blankRow] (es_table st))) = vt_records vt (es_table st) @ [blankRow]" for n
    using laws by (simp add: vtable_laws_def laws_of_rows_def laws_of_lists_def)
  then show ?case
    using handleCreate_keeps[OF session_blank.IH, of _ "[blankRow]" "[rowId]"] session_blank(2-4) by (simp add: handleAddBlankRow_def Let_def)
next
  case (session_style ro st)
  then show ?case
    using edit_inv_table[OF session_style.IH, of "es_table (style_effect vt st)"] style_effect_records[OF laws, of st]
    by (simp add: edit_inv_def style_effect_def arrange_effect_def create_style_effect_def delete_style_effect_def)
next
  case (session_freeze ro st ro')
  then show ?case by (auto simp: edit_inv_def edits_ok_def change_ok_def)
next
  case (session_recalculate ro st)
  then show ?case
    by (auto simp: edit_inv_def reCalculateCellStyle_def Let_def set_cells_def set_creates_def set_deletes_def style_keeps[OF laws])
qed

section \<open>Undoing everything\<close>

definition everything_selected :: "'t vtable \<Rightarrow> 't EditState \<Rightarrow> bool" where
  "everything_selected vt st \<longleftrightarrow>
     (\<forall>x \<in> set (es_cells st). \<exists>cells \<in> set (vt_getSelectedCellInfos vt (es_table st)).
        selected_row_id cells = Some (cg_rowId x) \<and> (\<exists>c \<in> set cells. sel_field c = cg_field x))
     \<and> (\<forall>n \<in> set (es_creates st) \<union> set (es_deletes st). \<exists>cells \<in> set (vt_getSelectedCellInfos vt (es_table st)). selected_row_id cells = Some n)"

definition same_rows :: "ResultRow list \<Rightarrow> ResultRow list \<Rightarrow> bool" where
  "same_rows rs rs' \<longleftrightarrow> list_all2 (\<lambda>r r'. row_number r' = row_number r \<and> row_meta r' = row_meta r \<and> cell_of r' = cell_of r) rs rs'"

text \<open>
  C20: whatever was edited in the table, deleted, cloned and added in a session, undoing with all of it selected brings the table back to the rows that
  were loaded, and nothing is left to submit. Excepted are sessions in which a column was frozen while an edit of it was recorded, and edits of
  the separate viewer of a cell. The table component keeps the laws that the code relies on.
\<close>

theorem undo_restores_loaded_rows:
  assumes "vtable_laws vt" "edit_session vt loaded ro st" "everything_selected vt st"
  shows "same_rows loaded (vt_records vt (es_table (handleRevocation vt ro st))) \<and> \<not> hasOperationRecord (handleRevocation vt ro st)"
proof -
  let ?st = "handleRevocation vt ro st"
  note inv = edit_session_inv[OF assms(1,2)]
  note kept = handleRevocation_keeps[OF assms(1) inv]
  let ?rows = "vt_getSelectedCellInfos vt (es_table st)"
  have rows: "\<exists>cells \<in> set ?rows. selected_row_id cells = Some n" if "n \<in> set (es_creates st) \<union> set (es_deletes st)" for n
    using assms(3) that by (simp add: everything_selected_def)
  have no_cells: "x \<notin> set (es_cells ?st)" for x
  proof
    assume x: "x \<in> set (es_cells ?st)"
    then have "x \<in> set (es_cells st)" using kept(3) by blast
    then obtain cells c where c: "cells \<in> set ?rows" "selected_row_id cells = Some (cg_rowId x)" "c \<in> set cells" "sel_field c = cg_field x"
      using assms(3) unfolding everything_selected_def by blast
    then have "row_undone cells (es_cells ?st) (es_creates ?st) (es_deletes ?st)" using kept(2) by blast
    then show False using c x unfolding row_undone_def cell_key_def by metis
  qed
  have no_rows: "n \<notin> set (es_creates ?st) \<union> set (es_deletes ?st)" for n
  proof
    assume n: "n \<in> set (es_creates ?st) \<union> set (es_deletes ?st)"
    then obtain cells where "cells \<in> set ?rows" "selected_row_id cells = Some n" using rows[of n] kept(3) by auto
    then show False using kept(2) n unfolding row_undone_def by blast
  qed
  have "es_cells ?st = []" "es_creates ?st = []" "es_deletes ?st = []"
    using no_cells no_rows by (metis UnCI list.set_intros(1) neq_Nil_conv)+
  then have "edits_ok ro loaded (vt_records vt (es_table ?st)) {} [] []" "\<not> hasOperationRecord ?st"
    using kept(1) by (simp_all add: edit_inv_def hasOperationRecord_def)
  then show ?thesis
    by (auto simp: edits_ok_def same_rows_def row_as_def fun_eq_iff elim: list_all2_mono)
qed

section \<open>What is submitted\<close>

lemma cell_of_fold_set:
  assumes "distinct (map cg_field recs)"
  shows "r \<in> set recs \<Longrightarrow> cell_of (fold (\<lambda>r. set_cell (cg_field r) (v r)) recs row) (cg_field r) = Some (v r)"
    "\<forall>r \<in> set recs. cg_field r \<noteq> f \<Longrightarrow> cell_of (fold (\<lambda>r. set_cell (cg_field r) (v r)) recs row) f = cell_of row f"
proof -
  have other: "\<forall>r \<in> set xs. cg_field r \<noteq> f \<Longrightarrow> cell_of (fold (\<lambda>r. set_cell (cg_field r) (v r)) xs row) f = cell_of row f" for xs row f
    by (induction xs arbitrary: row) (auto simp: cell_of_set_cell)
  then show "\<forall>r \<in> set recs. cg_field r \<noteq> f \<Longrightarrow> cell_of (fold (\<lambda>r. set_cell (cg_field r) (v r)) recs row) f = cell_of row f" .
  show "r \<in> set recs \<Longrightarrow> cell_of (fold (\<lambda>r. set_cell (cg_field r) (v r)) recs row) (cg_field r) = Some (v r)"
    using assms
  proof (induction recs arbitrary: row)
    case (Cons x xs)
    show ?case
    proof (cases "r = x")
      case True
      then have "\<forall>y \<in> set xs. cg_field y \<noteq> cg_field x" using Cons.prems by (auto simp: image_iff)
      then show ?thesis using True other[of xs "cg_field x"] by (simp add: cell_of_set_cell)
    qed (use Cons in auto)
  qed simp
qed

lemma has_partial_iff: "has_partial (Some r) \<longleftrightarrow> row_number r = PARTIAL_VALUE \<or> (\<exists>f. cell_of r f = Some (Some PARTIAL_VALUE))"
  by (auto simp: has_partial_def list_ex_iff cell_of_def dest: map_of_SomeD)

lemma fold_set_number: "row_number (fold (\<lambda>r. set_cell (cg_field r) (v r)) recs row) = row_number row"
  by (induction recs arbitrary: row) simp_all

text \<open>The update of a row, with the row as it was loaded and as it is.\<close>

lemma update_operation:
  assumes ok: "edits_ok ro loaded rs (set recs) creates deletes" and d: "distinct (map cell_key recs)"
    and row: "row \<in> set rs" "row_as (set recs) orig row" "orig \<in> set loaded" and op: "op = buildUpdateOperation (row_number row) row recs"
  obtains old new where "ro_oldDataList op = Some old" "cell_of old = cell_of orig" "ro_dataList op = Some new" "cell_of new = cell_of row"
    "has_partial (Some new) = has_partial (Some row)"
proof -
  define mine where "mine = filter (\<lambda>r. cg_rowId r = row_number row) recs"
  let ?old = "fold (\<lambda>r. set_cell (cg_field r) (cg_currentValue r)) mine row"
  let ?new = "fold (\<lambda>r. set_cell (cg_field r) (cg_changedValue r)) mine row"
  have dm: "distinct (map cg_field mine)"
    using d by (auto simp: mine_def distinct_map inj_on_def cell_key_def)
  have number: "row_number row = row_number orig" using row(2) by (simp add: row_as_def)
  have recorded: "cell_of row (cg_field r) = Some (cg_changedValue r) \<and> cell_of orig (cg_field r) = Some (cg_currentValue r)" if r: "r \<in> set mine" for r
  proof -
    have c: "change_ok ro loaded deletes r" "cell_key r = (row_number orig, cg_field r)" using ok r number by (auto simp: mine_def edits_ok_def cell_key_def)
    obtain o' where "o' \<in> set loaded" "row_number o' = row_number orig" "cell_of o' (cg_field r) = Some (cg_currentValue r)"
      using c by (auto simp: change_ok_def cell_key_def)
    then show ?thesis using row_unique[of loaded o' orig] ok row(2,3) c(2) r by (auto simp: edits_ok_def row_as_def mine_def)
  qed
  have rest: "cell_of row f = cell_of orig f" if "\<forall>r \<in> set mine. cg_field r \<noteq> f" for f
    using row(2) that number by (auto simp: row_as_def mine_def cell_key_def)
  have old: "cell_of ?old f = cell_of orig f" for f
  proof (cases "\<exists>r \<in> set mine. cg_field r = f")
    case True
    then show ?thesis using cell_of_fold_set(1)[OF dm] recorded by force
  qed (use cell_of_fold_set(2)[OF dm] rest in auto)
  have new: "cell_of ?new f = cell_of row f" for f
  proof (cases "\<exists>r \<in> set mine. cg_field r = f")
    case True
    then show ?thesis using cell_of_fold_set(1)[OF dm] recorded by force
  qed (use cell_of_fold_set(2)[OF dm] in auto)
  have "has_partial (Some ?new) = has_partial (Some row)" by (simp add: has_partial_iff fold_set_number new)
  then show thesis
    using that[of ?old ?new] old new by (simp add: op buildUpdateOperation_def Let_def fun_eq_iff flip: mine_def)
qed

lemma loaded_row_of:
  assumes "edits_ok ro loaded rs C creates deletes" "orig \<in> set loaded"
  obtains row where "row \<in> set rs" "row_as C orig row" "row_number row \<notin> set creates"
proof -
  have l: "list_all2 (row_as C) loaded (filter (\<lambda>r. row_number r \<notin> set creates) rs)" using assms(1) by (simp add: edits_ok_def)
  obtain k where "k < length loaded" "loaded ! k = orig" using assms(2) by (auto simp: in_set_conv_nth)
  then have "row_as C orig (filter (\<lambda>r. row_number r \<notin> set creates) rs ! k)"
      "filter (\<lambda>r. row_number r \<notin> set creates) rs ! k \<in> set (filter (\<lambda>r. row_number r \<notin> set creates) rs)"
    using l unfolding list_all2_conv_all_nth by (metis, metis nth_mem)
  then show thesis using that by auto
qed

lemma row_of_number:
  assumes "edits_ok ro loaded rs C creates deletes" "n \<in> row_number ` set loaded"
  obtains orig row where "orig \<in> set loaded" "row \<in> set rs" "row_as C orig row" "row_number row = n" "row_number orig = n"
proof -
  obtain orig where orig: "orig \<in> set loaded" "row_number orig = n" using assms(2) by auto
  from loaded_row_of[OF assms(1) orig(1)] obtain row where "row \<in> set rs" "row_as C orig row" .
  then show thesis using that orig by (auto simp: row_as_def)
qed

text \<open>An operation says the truth about its row: as it was loaded, and as it is in the table now.\<close>

definition operation_ok :: "ResultRow list \<Rightarrow> ResultRow list \<Rightarrow> ResultOperation \<Rightarrow> bool" where
  "operation_ok loaded rs op \<longleftrightarrow>
     (case ro_type op of
        UPDATE \<Rightarrow> (\<exists>orig \<in> set loaded. \<exists>row \<in> set rs. row_number orig = ro_rowId op \<and> row_number row = ro_rowId op
          \<and> cell_of row \<noteq> cell_of orig \<and> map_option cell_of (ro_oldDataList op) = Some (cell_of orig)
          \<and> map_option cell_of (ro_dataList op) = Some (cell_of row))
      | DELETE \<Rightarrow> (\<exists>orig \<in> set loaded. row_number orig = ro_rowId op \<and> map_option cell_of (ro_oldDataList op) = Some (cell_of orig))
      | CREATE \<Rightarrow> (\<exists>row \<in> set rs. row_number row = ro_rowId op \<and> ro_rowId op \<notin> row_number ` set loaded \<and> ro_dataList op = Some row))"

lemma update_operation_ok:
  assumes ok: "edits_ok ro loaded rs (set recs) creates deletes" and d: "distinct (map cell_key recs)" and x: "x \<in> set recs"
    and row: "row \<in> set rs" "row_number row = cg_rowId x" "row_as (set recs) orig row" "orig \<in> set loaded"
  shows "operation_ok loaded rs (buildUpdateOperation (cg_rowId x) row recs)"
proof -
  obtain old new where op: "ro_oldDataList (buildUpdateOperation (row_number row) row recs) = Some old" "cell_of old = cell_of orig"
      "ro_dataList (buildUpdateOperation (row_number row) row recs) = Some new" "cell_of new = cell_of row"
    by (rule update_operation[OF ok d row(1,3,4) refl])
  have number: "row_number orig = cg_rowId x" using row(2,3) by (simp add: row_as_def)
  have c: "change_ok ro loaded deletes x" using ok x by (simp add: edits_ok_def)
  obtain o' where "o' \<in> set loaded" "row_number o' = cg_rowId x" "cell_of o' (cg_field x) = Some (cg_currentValue x)" using c by (auto simp: change_ok_def)
  then have "cell_of orig (cg_field x) = Some (cg_currentValue x)" using row_unique[of loaded o' orig] ok row(4) number by (simp add: edits_ok_def)
  moreover have "cell_of row (cg_field x) = Some (cg_changedValue x)" using row(3) x number by (auto simp: row_as_def cell_key_def)
  ultimately have "cell_of row \<noteq> cell_of orig" using c by (auto simp: change_ok_def)
  then show ?thesis
    using op row(1,2,4) number by (auto simp: operation_ok_def buildUpdateOperation_def Let_def)
qed

text \<open>The three kinds of operations of a session.\<close>

lemma session_updates_ok:
  assumes inv: "edit_inv vt ro loaded st" and x: "x \<in> set (es_cells st)"
  shows "operation_ok loaded (vt_records vt (es_table st))
    (buildUpdateOperation (cg_rowId x) (the_default absent_row (getRowOriginData vt (es_table st) (cg_rowId x))) (es_cells st))"
proof -
  have ok: "edits_ok ro loaded (vt_records vt (es_table st)) (set (es_cells st)) (es_creates st) (es_deletes st)" "distinct (map cell_key (es_cells st))"
    using inv by (simp_all add: edit_inv_def)
  obtain orig row where row: "orig \<in> set loaded" "row \<in> set (vt_records vt (es_table st))" "row_as (set (es_cells st)) orig row" "row_number row = cg_rowId x"
    by (rule row_of_number[OF ok(1) changed_row_loaded[OF ok(1) x]])
  then have "getRowOriginData vt (es_table st) (cg_rowId x) = Some row" using getRow_eq[OF edit_inv_ids[OF inv]] by simp
  then show ?thesis using update_operation_ok[OF ok x row(2,4,3,1)] by simp
qed

lemma session_deletes_ok:
  assumes inv: "edit_inv vt ro loaded st" and n: "n \<in> set (es_deletes st)"
  shows "operation_ok loaded (vt_records vt (es_table st))
    \<lparr>ro_rowId = n, ro_type = DELETE, ro_dataList = None, ro_oldDataList = getRowOriginData vt (es_table st) n, ro_selectCols = []\<rparr>"
proof -
  have ok: "edits_ok ro loaded (vt_records vt (es_table st)) (set (es_cells st)) (es_creates st) (es_deletes st)"
    using inv by (simp add: edit_inv_def)
  then have "n \<in> row_number ` set loaded" using n by (auto simp: edits_ok_def)
  then obtain orig row where row: "orig \<in> set loaded" "row \<in> set (vt_records vt (es_table st))" "row_as (set (es_cells st)) orig row"
      "row_number row = n" "row_number orig = n" by (rule row_of_number[OF ok])
  have "\<forall>x \<in> set (es_cells st). cg_rowId x \<noteq> row_number orig" using changed_row_not_listed(2)[OF ok] n row(5) by metis
  then have "cell_of row f = cell_of orig f" for f using row(3) by (auto simp: row_as_def cell_key_def)
  then have "cell_of row = cell_of orig" by (simp add: fun_eq_iff)
  moreover have "getRowOriginData vt (es_table st) n = Some row" using getRow_eq[OF edit_inv_ids[OF inv]] row by simp
  ultimately show ?thesis using row by (auto simp: operation_ok_def)
qed

lemma session_creates_ok:
  assumes inv: "edit_inv vt ro loaded st" and n: "n \<in> set (es_creates st)"
  shows "operation_ok loaded (vt_records vt (es_table st))
    \<lparr>ro_rowId = n, ro_type = CREATE, ro_dataList = getRowOriginData vt (es_table st) n, ro_oldDataList = None, ro_selectCols = []\<rparr>"
proof -
  have "n \<in> row_number ` set (vt_records vt (es_table st))" "n \<notin> row_number ` set loaded" using inv n by (auto simp: edit_inv_def edits_ok_def)
  then obtain row where row: "row \<in> set (vt_records vt (es_table st))" "row_number row = n" by auto
  then have "getRowOriginData vt (es_table st) n = Some row" using getRow_eq[OF edit_inv_ids[OF inv]] by simp
  then show ?thesis using row \<open>n \<notin> row_number ` set loaded\<close> by (auto simp: operation_ok_def)
qed

text \<open>
  C18: what is submitted is true: the old data of an update or a deletion are the row as it was loaded, the new data of an update or a new row
  are the row as the table shows it, an update is only sent for a row that differs, and no row has two operations. This is for sessions of edits in the
  table, without edits of the separate viewer of a cell and without freezing a column of which an edit is recorded.
\<close>

theorem submitted_operations_true:
  assumes "vtable_laws vt" "edit_session vt loaded ro st"
  shows "list_all (operation_ok loaded (vt_records vt (es_table st))) (fst (getOperationChangeDetail vt st))
    \<and> distinct (map ro_rowId (fst (getOperationChangeDetail vt st)))"
proof
  note inv = edit_session_inv[OF assms]
  have ok: "edits_ok ro loaded (vt_records vt (es_table st)) (set (es_cells st)) (es_creates st) (es_deletes st)"
    using inv by (simp add: edit_inv_def)
  show "list_all (operation_ok loaded (vt_records vt (es_table st))) (fst (getOperationChangeDetail vt st))"
    using session_updates_ok[OF inv] session_deletes_ok[OF inv] session_creates_ok[OF inv]
    by (auto simp: getOperationChangeDetail_def Let_def list_all_iff)
  let ?update = "\<lambda>i. buildUpdateOperation i (the_default absent_row (getRowOriginData vt (es_table st) i)) (es_cells st)"
  have "map ro_rowId (fst (getOperationChangeDetail vt st)) =
      filter (\<lambda>i. \<not> has_partial (ro_dataList (?update i))) (uniq (map cg_rowId (es_cells st))) @ es_deletes st
      @ filter (\<lambda>i. \<not> has_partial (getRowOriginData vt (es_table st) i)) (es_creates st)"
    by (simp add: getOperationChangeDetail_def Let_def filter_map o_def buildUpdateOperation_def)
  moreover have "cg_rowId ` set (es_cells st) \<inter> (set (es_deletes st) \<union> set (es_creates st)) = {}"
    using changed_row_not_listed[OF ok] by auto
  moreover have "distinct (es_creates st)" "distinct (es_deletes st)" "set (es_deletes st) \<inter> set (es_creates st) = {}"
    using ok by (auto simp: edits_ok_def)
  ultimately show "distinct (map ro_rowId (fst (getOperationChangeDetail vt st)))" by auto
qed

lemma update_listed:
  assumes "x \<in> set (es_cells st)" "getRowOriginData vt (es_table st) (cg_rowId x) = Some row"
    and "\<not> has_partial (ro_dataList (buildUpdateOperation (cg_rowId x) row (es_cells st)))"
  shows "buildUpdateOperation (cg_rowId x) row (es_cells st) \<in> set (fst (getOperationChangeDetail vt st))"
proof -
  let ?update = "\<lambda>i. buildUpdateOperation i (the_default absent_row (getRowOriginData vt (es_table st) i)) (es_cells st)"
  have "?update (cg_rowId x) \<in> set (map ?update (uniq (map cg_rowId (es_cells st))))" using assms(1) by simp
  then show ?thesis using assms(2,3) by (simp add: getOperationChangeDetail_def Let_def)
qed

text \<open>
  C19: nothing is forgotten: a row that differs from what was loaded is updated, a row that was not loaded is created, and a row that is marked
  is deleted, unless a large value of the row is only partly there. This is for sessions of edits in the
  table, without edits of the separate viewer of a cell and without freezing a column of which an edit is recorded.
\<close>

theorem submitted_operations_complete:
  assumes "vtable_laws vt" "edit_session vt loaded ro st" "row \<in> set (vt_records vt (es_table st))" "\<not> has_partial (Some row)"
    and "\<forall>orig \<in> set loaded. row_number orig = row_number row \<longrightarrow> cell_of orig \<noteq> cell_of row \<or> row_number row \<in> set (es_deletes st)"
  shows "\<exists>op \<in> set (fst (getOperationChangeDetail vt st)). ro_rowId op = row_number row"
proof -
  let ?t = "es_table st"
  note inv = edit_session_inv[OF assms(1,2)]
  have ok: "edits_ok ro loaded (vt_records vt ?t) (set (es_cells st)) (es_creates st) (es_deletes st)" "distinct (map cell_key (es_cells st))"
    using inv by (simp_all add: edit_inv_def)
  have get: "getRowOriginData vt ?t (row_number row) = Some row" using getRow_eq[OF edit_inv_ids[OF inv]] assms(3) by simp
  consider "row_number row \<in> set (es_creates st)" | "row_number row \<in> set (es_deletes st)"
    | "row_number row \<notin> set (es_creates st)" "row_number row \<notin> set (es_deletes st)" by blast
  then show ?thesis
  proof cases
    case 1
    then show ?thesis using get assms(4) by (force simp: getOperationChangeDetail_def Let_def)
  next
    case 2
    then show ?thesis by (force simp: getOperationChangeDetail_def Let_def)
  next
    case 3
    obtain orig where orig: "orig \<in> set loaded" "row_as (set (es_cells st)) orig row" using loaded_row[OF ok(1) assms(3) 3(1)] .
    then have number: "row_number orig = row_number row" by (simp add: row_as_def)
    then have "cell_of orig \<noteq> cell_of row" using assms(5) orig(1) 3(2) by auto
    then obtain f where f: "cell_of row f \<noteq> cell_of orig f" by (metis ext)
    then obtain x where x: "x \<in> set (es_cells st)" "cg_rowId x = row_number row" using orig(2) number by (auto simp: row_as_def cell_key_def)
    obtain new where "ro_dataList (buildUpdateOperation (row_number row) row (es_cells st)) = Some new" "has_partial (Some new) = has_partial (Some row)"
      by (rule update_operation[OF ok assms(3) orig(2,1) refl])
    then have "buildUpdateOperation (row_number row) row (es_cells st) \<in> set (fst (getOperationChangeDetail vt st))"
      using update_listed[OF x(1) get[folded x(2)]] x(2) assms(4) by simp
    then show ?thesis by (force simp: buildUpdateOperation_def Let_def)
  qed
qed

section \<open>A table that meets the laws\<close>

text \<open>Rows in the order of the records, a column for every field, and everything selected.\<close>

record PlainTable =
  pt_rows :: "ResultRow list"
  pt_fields :: "string list"

definition plain_row :: "PlainTable \<Rightarrow> int \<Rightarrow> ResultRow option" where
  "plain_row t p = (if 0 \<le> p \<and> nat p < length (pt_rows t) then Some (pt_rows t ! nat p) else None)"

definition plain_header :: "PlainTable \<Rightarrow> int \<Rightarrow> jsval" where
  "plain_header t col = (if 1 \<le> col \<and> nat (col - 1) < length (pt_fields t) then Str (pt_fields t ! nat (col - 1)) else Undefined)"

definition plain_column :: "PlainTable \<Rightarrow> string \<Rightarrow> int" where
  "plain_column t f = (if f = [] then 0 else case find_index (\<lambda>g. g = f) (pt_fields t) of Some i \<Rightarrow> int i + 1 | None \<Rightarrow> 0)"

definition plain_selection :: "PlainTable \<Rightarrow> SelectedCell list list" where
  "plain_selection t =
     (if distinct (map row_number (pt_rows t))
      then map (\<lambda>(k, r). map (\<lambda>f. \<lparr>sel_row = int k + 1, sel_field = f, sel_origin = Some r\<rparr>) (pt_fields t)) (List.enumerate 0 (pt_rows t))
      else [])"

definition plain_vtable :: "PlainTable vtable" where
  "plain_vtable =
     \<lparr>vt_records = pt_rows, vt_with_records = (\<lambda>rs t. t\<lparr>pt_rows := rs\<rparr>), vt_indexed = (\<lambda>t. Some [0..<length (pt_rows t)]),
       vt_columns = (\<lambda>t. []), vt_colCount = (\<lambda>t. int (length (pt_fields t)) + 1), vt_getTableIndexByField = plain_column,
       vt_getHeaderField = (\<lambda>t col row. plain_header t col), vt_getRecordByCell = (\<lambda>t col row. plain_row t (row - 1)),
       vt_changeCellValue = (\<lambda>col row v t. case plain_row t (row - 1) of None \<Rightarrow> t
         | Some r \<Rightarrow> t\<lparr>pt_rows := update_row (row_number r) (set_cell (js_String (plain_header t col)) v) (pt_rows t)\<rparr>),
       vt_addRecords = (\<lambda>rs t. t\<lparr>pt_rows := pt_rows t @ rs\<rparr>),
       vt_deleteRecords = (\<lambda>ps t. t\<lparr>pt_rows := filter (\<lambda>r. r \<notin> set (List.map_filter (plain_row t) ps)) (pt_rows t)\<rparr>),
       vt_getSelectedCellInfos = plain_selection, vt_arrangeCustomCellStyle = (\<lambda>target style t. t), vt_resetArrangement = (\<lambda>t. t),
       vt_clearSelected = (\<lambda>t. t), vt_scrollToCell = (\<lambda>n t. t)\<rparr>"

lemma plain_fields [simp]:
  "vt_records plain_vtable = pt_rows" "vt_with_records plain_vtable rs t = t\<lparr>pt_rows := rs\<rparr>" "vt_indexed plain_vtable t = Some [0..<length (pt_rows t)]"
  "vt_getTableIndexByField plain_vtable = plain_column" "vt_getHeaderField plain_vtable t = (\<lambda>col row. plain_header t col)"
  "vt_getRecordByCell plain_vtable t col row = plain_row t (row - 1)" "vt_addRecords plain_vtable rs t = t\<lparr>pt_rows := pt_rows t @ rs\<rparr>"
  "vt_deleteRecords plain_vtable ps t = t\<lparr>pt_rows := filter (\<lambda>r. r \<notin> set (List.map_filter (plain_row t) ps)) (pt_rows t)\<rparr>"
  "vt_changeCellValue plain_vtable col row v t = (case plain_row t (row - 1) of None \<Rightarrow> t
     | Some r \<Rightarrow> t\<lparr>pt_rows := update_row (row_number r) (set_cell (js_String (plain_header t col)) v) (pt_rows t)\<rparr>)"
  "vt_getSelectedCellInfos plain_vtable = plain_selection" "vt_arrangeCustomCellStyle plain_vtable target style t = t" "vt_resetArrangement plain_vtable t = t"
  "vt_scrollToCell plain_vtable n t = t"
  by (simp_all add: plain_vtable_def)

lemma plain_shown: "getSortedOrFilteredData plain_vtable t = map Some (pt_rows t)"
  by (rule nth_equalityI) (simp_all add: getSortedOrFilteredData_def)

lemma plain_shown_at: "shown_at plain_vtable t row r \<longleftrightarrow> 1 \<le> row \<and> plain_row t (row - 1) = Some r"
  by (auto simp: shown_at_def plain_shown plain_row_def)

lemma plain_position: "shown_position plain_vtable t = plain_row t"
  by (auto simp: shown_position_def plain_shown plain_row_def fun_eq_iff)

lemma plain_rows: "pt_rows t ! k = r \<Longrightarrow> k < length (pt_rows t) \<Longrightarrow> plain_row t (int k) = Some r"
  by (simp add: plain_row_def)

lemma plain_selected_rows: "List.map_filter selected_row_id (plain_selection t) =
  (if distinct (map row_number (pt_rows t)) \<and> pt_fields t \<noteq> [] then map row_number (pt_rows t) else [])"
proof -
  have "List.map_filter selected_row_id (map (\<lambda>(k, r). map (\<lambda>f. \<lparr>sel_row = int k + 1, sel_field = f, sel_origin = Some r\<rparr>) fs) (List.enumerate n rs))
      = (if fs \<noteq> [] then map row_number rs else [])" for fs rs n
    by (induction rs arbitrary: n) (auto simp: map_filter_simps selected_row_id_def split: list.splits)
  note selected = this[of "pt_fields t" 0 "pt_rows t"]
  show ?thesis
    by (cases "distinct (map row_number (pt_rows t))") (simp_all add: plain_selection_def map_filter_simps selected del: list.map)
qed

lemma plain_view:
  "length rs = length (pt_rows t) \<Longrightarrow> same_view plain_vtable t (t\<lparr>pt_rows := rs\<rparr>)"
  "plain_column (t\<lparr>pt_rows := rs\<rparr>) = plain_column t" "plain_header (t\<lparr>pt_rows := rs\<rparr>) = plain_header t"
  by (auto simp: same_view_def plain_column_def plain_header_def fun_eq_iff)

lemma plain_column_header: "1 \<le> plain_column t f \<Longrightarrow> f \<noteq> [] \<and> plain_header t (plain_column t f) = Str f"
  using find_index_bound[of "\<lambda>g. g = f" "pt_fields t"] by (auto simp: plain_column_def plain_header_def split: if_splits option.splits)

lemma plain_laws_of_cells: "laws_of_cells plain_vtable"
  unfolding laws_of_cells_def plain_shown_at using plain_column_header plain_view(1) by (auto split: option.splits)

lemma plain_laws_of_lists: "laws_of_lists plain_vtable"
proof -
  have "map Some (filter (\<lambda>r. r \<notin> A) xs) = filter (\<lambda>r. r \<notin> Some ` A) (map Some xs)" for A and xs :: "ResultRow list"
    by (induction xs) auto
  then show ?thesis
    unfolding laws_of_lists_def plain_shown plain_position Let_def by (simp add: plain_view)
qed

lemma plain_laws_of_selection: "laws_of_selection plain_vtable"
proof -
  have "cells \<in> set (plain_selection t) \<Longrightarrow> c \<in> set cells \<Longrightarrow>
      sel_origin c = sel_origin (hd cells) \<and> (\<forall>r. sel_origin c = Some r \<longrightarrow> 1 \<le> sel_row c \<and> plain_row t (sel_row c - 1) = Some r)" for t cells c
    by (cases "pt_fields t") (auto simp: plain_selection_def in_set_enumerate_eq plain_row_def split: if_splits)
  then show ?thesis
    unfolding laws_of_selection_def plain_shown_at using plain_selected_rows by simp
qed

lemma plain_laws: "vtable_laws plain_vtable"
  using plain_view plain_laws_of_cells plain_laws_of_lists plain_laws_of_selection
  by (simp add: vtable_laws_def laws_of_rows_def same_view_def)

section \<open>Samples\<close>

definition sample_table :: PlainTable where
  "sample_table = \<lparr>pt_rows = [\<lparr>row_number = ''1'', row_cells = [(''1'', Some ''a''), (''2'', None)], row_meta = None\<rparr>,
     \<lparr>row_number = ''2'', row_cells = [(''1'', Some ''x''), (''2'', Some ''y'')], row_meta = None\<rparr>], pt_fields = [''1'', ''2'']\<rparr>"

definition sample_edit :: "PlainTable EditState" where
  "sample_edit = the (edit_cell plain_vtable {} 1 1 (Some ''b'') (loaded_state sample_table))"

definition sample_session :: "PlainTable EditState" where
  "sample_session = handleAddBlankRow plain_vtable \<lparr>row_number = ''9'', row_cells = [(''1'', None), (''2'', None)], row_meta = None\<rparr> ''9'' sample_edit"

lemma sample_edit_session: "edit_session plain_vtable (pt_rows sample_table) {} sample_edit"
proof (rule session_edit)
  show "edit_session plain_vtable (pt_rows sample_table) {} (loaded_state sample_table)"
    by (rule session_start) (simp_all add: sample_table_def)
  show "shown_at plain_vtable (es_table (loaded_state sample_table)) 1 (hd (pt_rows sample_table))" by code_simp
  show "vt_getHeaderField plain_vtable (es_table (loaded_state sample_table)) 1 1 = Str ''1''" by code_simp
  show "edit_cell plain_vtable {} 1 1 (Some ''b'') (loaded_state sample_table) = Some sample_edit"
  proof -
    have "edit_cell plain_vtable {} 1 1 (Some ''b'') (loaded_state sample_table) \<noteq> None" by code_simp
    then show ?thesis by (simp add: sample_edit_def)
  qed
  show "cell_of (hd (pt_rows sample_table)) ''1'' \<noteq> None" by code_simp
qed simp_all

lemma sample_session_session: "edit_session plain_vtable (pt_rows sample_table) {} sample_session"
  unfolding sample_session_def by (rule session_blank[OF sample_edit_session]) (simp, code_simp+)

theorem undo_restores_loaded_rows_witness:
  "hasOperationRecord sample_session
   \<and> same_rows (pt_rows sample_table) (vt_records plain_vtable (es_table (handleRevocation plain_vtable {} sample_session)))
   \<and> \<not> hasOperationRecord (handleRevocation plain_vtable {} sample_session)"
proof -
  have "hasOperationRecord sample_session" "everything_selected plain_vtable sample_session" by code_simp+
  then show ?thesis using undo_restores_loaded_rows[OF plain_laws sample_session_session] by blast
qed

theorem submitted_operations_true_witness:
  "map ro_type (fst (getOperationChangeDetail plain_vtable sample_session)) = [UPDATE, CREATE]
   \<and> list_all (operation_ok (pt_rows sample_table) (vt_records plain_vtable (es_table sample_session))) (fst (getOperationChangeDetail plain_vtable sample_session))
   \<and> distinct (map ro_rowId (fst (getOperationChangeDetail plain_vtable sample_session)))"
proof -
  have "map ro_type (fst (getOperationChangeDetail plain_vtable sample_session)) = [UPDATE, CREATE]" by code_simp
  then show ?thesis using submitted_operations_true[OF plain_laws sample_session_session] by blast
qed

theorem submitted_operations_complete_witness:
  "\<exists>op \<in> set (fst (getOperationChangeDetail plain_vtable sample_session)). ro_rowId op = ''1''"
proof -
  let ?row = "hd (pt_rows (es_table sample_session))"
  have facts: "?row \<in> set (vt_records plain_vtable (es_table sample_session))" "\<not> has_partial (Some ?row)" "row_number ?row = ''1''"
      "cell_of ?row ''1'' = Some (Some ''b'')" by code_simp+
  have "\<forall>orig \<in> set (pt_rows sample_table). row_number orig = row_number ?row \<longrightarrow> cell_of orig ''1'' \<noteq> cell_of ?row ''1''"
    unfolding facts(3,4) by code_simp
  then have "\<forall>orig \<in> set (pt_rows sample_table). row_number orig = row_number ?row \<longrightarrow>
      cell_of orig \<noteq> cell_of ?row \<or> row_number ?row \<in> set (es_deletes sample_session)" by metis
  from submitted_operations_complete[OF plain_laws sample_session_session facts(1,2) this] show ?thesis unfolding facts(3) .
qed

text \<open>
  When a column is frozen after one of its cells was edited, undoing drops the record of the edit, but the listener of the table puts the
  edited value back: the table keeps showing a value that is not submitted.
\<close>

lemma frozen_undo_keeps_value:
  "es_cells (handleRevocation plain_vtable {''1''} sample_edit) = []
   \<and> cell_of (hd (pt_rows (es_table (handleRevocation plain_vtable {''1''} sample_edit)))) ''1'' = Some (Some ''b'')"
  by code_simp

end
