(* ===== verification/Large_Values.thy ===== *)
theory Large_Values
  imports Js_Uri "HOL-Library.Word"
begin

text \<open>
  Large cell values, which arrive in chunks: \<open>blocks/SearchResult/components/ViewData/largeCellValue.ts\<close> and the reading of a whole value
  for the clipboard, \<open>readCompleteCopyValue\<close> of \<open>ResultSetTable/copyValues.ts\<close>. Chunks carry bytes as base64 text; \<open>atob\<close> of the
  platform is modelled. The streaming UTF-8 decoder is a parameter.
\<close>

section \<open>Modes and limits\<close>

datatype LargeValueType = VText | VJson | VBinary | VImage | VUnknown

datatype LargeCellViewerMode = ViewText | ViewHex | ViewImage

datatype LargeCellDownloadFormat = DownloadRaw | DownloadText | DownloadHex

definition LARGE_CELL_TEXT_EDITOR_LIMIT :: int where
  "LARGE_CELL_TEXT_EDITOR_LIMIT = 10 * 1024 * 1024"

definition LARGE_CELL_BINARY_EDITOR_LIMIT :: int where
  "LARGE_CELL_BINARY_EDITOR_LIMIT = 50 * 1024 * 1024"

definition LARGE_CELL_MAX_CHUNK_SIZE :: int where
  "LARGE_CELL_MAX_CHUNK_SIZE = 1024 * 1024"

definition isBinaryDisplayMode :: "LargeValueType option \<Rightarrow> bool" where
  "isBinaryDisplayMode displayMode \<longleftrightarrow> displayMode = Some VBinary \<or> displayMode = Some VImage"

definition isTextDownloadMode :: "LargeValueType option \<Rightarrow> bool" where
  "isTextDownloadMode displayMode \<longleftrightarrow> displayMode = Some VText \<or> displayMode = Some VJson"

definition getLargeCellEditorLimit :: "LargeValueType option \<Rightarrow> int" where
  "getLargeCellEditorLimit displayMode =
     (if isBinaryDisplayMode displayMode then LARGE_CELL_BINARY_EDITOR_LIMIT else LARGE_CELL_TEXT_EDITOR_LIMIT)"

definition getLargeCellViewerLimit :: "LargeCellViewerMode \<Rightarrow> LargeValueType option \<Rightarrow> int" where
  "getLargeCellViewerLimit viewerMode valueType =
     (if viewerMode = ViewText then getLargeCellEditorLimit valueType else LARGE_CELL_BINARY_EDITOR_LIMIT)"

definition getLargeCellDownloadFormat :: "LargeValueType option \<Rightarrow> LargeCellDownloadFormat" where
  "getLargeCellDownloadFormat displayMode = (if isTextDownloadMode displayMode then DownloadText else DownloadRaw)"

definition getNextLargeCellChunkLimit :: "int \<Rightarrow> int \<Rightarrow> int" where
  "getNextLargeCellChunkLimit loadedSize editorLimit =
     (let remaining = editorLimit - loadedSize
      in if remaining < 3 then 0 else let nextLimit = min LARGE_CELL_MAX_CHUNK_SIZE remaining in nextLimit - nextLimit mod 3)"

definition canSubmitLargeCellEdit ::
  "bool \<Rightarrow> LargeCellViewerMode \<Rightarrow> LargeValueType option \<Rightarrow> bool \<Rightarrow> int \<Rightarrow> int \<Rightarrow> bool" where
  "canSubmitLargeCellEdit isLargeValue viewerMode displayMode eof loadedSize editorLimit \<longleftrightarrow>
     (if \<not> isLargeValue then True
      else viewerMode = ViewText \<and> \<not> isBinaryDisplayMode displayMode \<and> eof \<and> loadedSize \<le> editorLimit)"

definition isLargeCellTokenExpiredError :: "string option \<Rightarrow> bool" where
  "isLargeCellTokenExpiredError errorCode \<longleftrightarrow>
     errorCode = Some ''largeCellValue.tokenExpired'' \<or> errorCode = Some ''largeCellValue.snapshotExpired''
     \<or> errorCode = Some ''largeCellValue.snapshotCellMissing''"

section \<open>Chunks\<close>

type_synonym bytes = "8 word list"

record ILargeCellChunk =
  ch_value :: string
  ch_offset :: int
  ch_nextOffset :: int
  ch_eof :: bool
  ch_contentType :: "string option"
  ch_displayMode :: "LargeValueType option"

record LoadedLargeCellChunk =
  lc_offset :: int
  lc_nextOffset :: int
  lc_eof :: bool
  lc_contentType :: "string option"
  lc_displayMode :: "LargeValueType option"
  lc_bytes :: bytes

definition getLargeCellLoadedBytes :: "ILargeCellChunk list \<Rightarrow> int" where
  "getLargeCellLoadedBytes chunks = foldl (\<lambda>sum chunk. sum + max 0 (ch_nextOffset chunk - ch_offset chunk)) 0 chunks"

text \<open>
  \<open>atob\<close> of the platform: white space is left out; when the rest has a multiple of four characters, up to two \<open>=\<close> at its end are left
  out; every other character has to be of the alphabet. Four characters then give three bytes, three characters at the end two and two
  one, with the spare bits dropped. A single character at the end is an error. \<open>None\<close>: it throws.
\<close>

definition base64_space :: "char \<Rightarrow> bool" where
  "base64_space c \<longleftrightarrow> (let n = (of_char c :: nat) in n = 9 \<or> n = 10 \<or> n = 12 \<or> n = 13 \<or> n = 32)"

fun strip_padding :: "string \<Rightarrow> string" where
  "strip_padding [a, b, c, d] = (if d \<noteq> CHR ''='' then [a, b, c, d] else if c \<noteq> CHR ''='' then [a, b, c] else [a, b])"
| "strip_padding (a # b # c # d # rest) = a # b # c # d # strip_padding rest"
| "strip_padding s = s"

definition base64_value :: "char \<Rightarrow> nat option" where
  "base64_value c = (let n = (of_char c :: nat) in
     if 65 \<le> n \<and> n \<le> 90 then Some (n - 65)
     else if 97 \<le> n \<and> n \<le> 122 then Some (n - 71)
     else if 48 \<le> n \<and> n \<le> 57 then Some (n + 4)
     else if c = CHR ''+'' then Some 62 else if c = CHR ''/'' then Some 63 else None)"

definition first_byte :: "nat \<Rightarrow> nat \<Rightarrow> 8 word" where
  "first_byte i j = of_nat (i * 4 + j div 16)"

definition second_byte :: "nat \<Rightarrow> nat \<Rightarrow> 8 word" where
  "second_byte j k = of_nat ((j mod 16) * 16 + k div 4)"

definition third_byte :: "nat \<Rightarrow> nat \<Rightarrow> 8 word" where
  "third_byte k l = of_nat ((k mod 4) * 64 + l)"

fun sextet_bytes :: "nat list \<Rightarrow> bytes option" where
  "sextet_bytes [] = Some []"
| "sextet_bytes [i] = None"
| "sextet_bytes [i, j] = Some [first_byte i j]"
| "sextet_bytes [i, j, k] = Some [first_byte i j, second_byte j k]"
| "sextet_bytes (i # j # k # l # rest) =
     map_option (\<lambda>bs. first_byte i j # second_byte j k # third_byte k l # bs) (sextet_bytes rest)"

definition atob :: "string \<Rightarrow> bytes option" where
  "atob s = Option.bind (those (map base64_value (strip_padding (filter (\<lambda>c. \<not> base64_space c) s)))) sextet_bytes"

definition decodeLargeCellChunk :: "ILargeCellChunk \<Rightarrow> LoadedLargeCellChunk option" where
  "decodeLargeCellChunk chunk =
     map_option (\<lambda>bytes. \<lparr>lc_offset = ch_offset chunk, lc_nextOffset = ch_nextOffset chunk, lc_eof = ch_eof chunk,
       lc_contentType = ch_contentType chunk, lc_displayMode = ch_displayMode chunk, lc_bytes = bytes\<rparr>) (atob (ch_value chunk))"

definition image_mime_type :: "string option \<Rightarrow> string" where
  "image_mime_type contentType =
     (case contentType of Some t \<Rightarrow> if startsWith t ''image/'' \<and> t \<noteq> ''image/*'' then t else ''image/png'' | None \<Rightarrow> ''image/png'')"

definition getLargeCellImagePreviewBlob ::
  "LargeCellViewerMode \<Rightarrow> LoadedLargeCellChunk list \<Rightarrow> bool \<Rightarrow> string option \<Rightarrow> (bytes \<times> string) option" where
  "getLargeCellImagePreviewBlob viewerMode chunks eof contentType =
     (if viewerMode \<noteq> ViewImage \<or> \<not> eof \<or> chunks = [] then None
      else Some (concat (map lc_bytes chunks), image_mime_type contentType))"

section \<open>Bytes as hexadecimal text\<close>

definition lower_hex :: "nat \<Rightarrow> char" where
  "lower_hex d = (if d < 10 then char_of (48 + d) else char_of (87 + d))"

fun to_radix16 :: "nat \<Rightarrow> string" where
  "to_radix16 n = (if n < 16 then [lower_hex n] else to_radix16 (n div 16) @ [lower_hex (n mod 16)])"

declare to_radix16.simps [simp del]

definition padStart :: "nat \<Rightarrow> char \<Rightarrow> string \<Rightarrow> string" where
  "padStart n c s = replicate (n - length s) c @ s"

definition byte_pair :: "8 word \<Rightarrow> string" where
  "byte_pair b = padStart 2 (CHR ''0'') (to_radix16 (unat b))"

definition HEX_BLOCK_SIZE :: nat where
  "HEX_BLOCK_SIZE = 0x8000"

function hex_blocks :: "bytes \<Rightarrow> nat \<Rightarrow> string \<Rightarrow> string" where
  "hex_blocks bytes offset hex =
     (if offset < length bytes
      then hex_blocks bytes (offset + HEX_BLOCK_SIZE) (hex @ concat (map byte_pair (take HEX_BLOCK_SIZE (drop offset bytes))))
      else hex)"
  by pat_completeness auto
termination by (relation "measure (\<lambda>(bytes, offset, hex). length bytes - offset)") (auto simp: HEX_BLOCK_SIZE_def)

declare hex_blocks.simps [simp del]

definition bytesToHex :: "bytes \<Rightarrow> string" where
  "bytesToHex bytes = toUpperCase (hex_blocks bytes 0 [])"

text \<open>
  The text decoder: its state, and what it gives for the next bytes, with \<open>True\<close> for the last ones. \<open>None\<close>: the bytes are not valid.
\<close>

type_synonym 's text_decoder = "'s \<Rightarrow> bytes \<Rightarrow> bool \<Rightarrow> ('s \<times> string) option"

fun decode_parts :: "'s text_decoder \<Rightarrow> 's \<Rightarrow> bytes list \<Rightarrow> string list" where
  "decode_parts dec s [] = []"
| "decode_parts dec s (bs # rest) =
     (case dec s bs (rest = []) of Some (s', part) \<Rightarrow> part # decode_parts dec s' rest | None \<Rightarrow> [])"

definition getLargeCellViewerValue ::
  "'s text_decoder \<Rightarrow> 's \<Rightarrow> LargeCellViewerMode \<Rightarrow> LoadedLargeCellChunk list \<Rightarrow> string option \<Rightarrow> string" where
  "getLargeCellViewerValue dec s viewerMode chunks preview =
     (if chunks = [] then the_default [] preview
      else case viewerMode of
        ViewImage \<Rightarrow> []
      | ViewHex \<Rightarrow> concat (map (\<lambda>chunk. bytesToHex (lc_bytes chunk)) chunks)
      | ViewText \<Rightarrow> concat (decode_parts dec s (map lc_bytes chunks)))"

section \<open>Reading a whole value\<close>

datatype copy_error = AbortError | FullValueUnsupported | ReadFailed | DecodeError | RequestError string

datatype copy_event = ChunkArrived ILargeCellChunk | RequestFailed string | AbortRequested

record 's CopyRead =
  rd_parts :: "string list"
  rd_offset :: int
  rd_binary :: bool
  rd_decoder :: 's
  rd_aborted :: bool

record LargeRequest =
  rq_largeValueId :: string
  rq_offset :: int
  rq_limit :: int

datatype 's read_state = Reading "'s CopyRead" | ReadDone string int | ReadStopped copy_error

definition COPY_CHUNK_LIMIT :: int where
  "COPY_CHUNK_LIMIT = LARGE_CELL_MAX_CHUNK_SIZE - LARGE_CELL_MAX_CHUNK_SIZE mod 3"

definition begin_read_value :: "'s \<Rightarrow> string option \<Rightarrow> LargeValueType option \<Rightarrow> bool \<Rightarrow> 's read_state" where
  "begin_read_value s largeValueId valueType aborted =
     (if \<not> truthy_str largeValueId then ReadStopped FullValueUnsupported
      else if aborted then ReadStopped AbortError
      else Reading \<lparr>rd_parts = [], rd_offset = 0, rd_binary = isBinaryDisplayMode valueType, rd_decoder = s, rd_aborted = False\<rparr>)"

text \<open>The request that is under way while a value is read.\<close>

definition pending_request :: "string \<Rightarrow> 's CopyRead \<Rightarrow> LargeRequest" where
  "pending_request largeValueId rd = \<lparr>rq_largeValueId = largeValueId, rq_offset = rd_offset rd, rq_limit = COPY_CHUNK_LIMIT\<rparr>"

text \<open>What the loop does with a chunk, up to the next request.\<close>

definition read_chunk :: "'s text_decoder \<Rightarrow> LargeValueType option \<Rightarrow> ILargeCellChunk \<Rightarrow> 's CopyRead \<Rightarrow> 's read_state" where
  "read_chunk dec valueType chunk rd =
     (if rd_aborted rd then ReadStopped AbortError
      else case decodeLargeCellChunk chunk of
        None \<Rightarrow> ReadStopped DecodeError
      | Some loaded \<Rightarrow>
          if ch_offset chunk \<noteq> rd_offset rd \<or> ch_nextOffset chunk \<noteq> rd_offset rd + int (length (lc_bytes loaded))
            \<or> (\<not> ch_eof chunk \<and> lc_bytes loaded = [])
          then ReadStopped ReadFailed
          else
            let binary = isBinaryDisplayMode (if ch_displayMode chunk \<noteq> None then ch_displayMode chunk else valueType);
                decoded = (if binary then Some (rd_decoder rd, bytesToHex (lc_bytes loaded)) else dec (rd_decoder rd) (lc_bytes loaded) (ch_eof chunk))
            in case decoded of
                 None \<Rightarrow> ReadStopped DecodeError
               | Some (s, part) \<Rightarrow>
                   if ch_eof chunk
                   then ReadDone ((if binary then ''0x'' else []) @ concat (rd_parts rd @ [part])) (ch_nextOffset chunk)
                   else Reading \<lparr>rd_parts = rd_parts rd @ [part], rd_offset = ch_nextOffset chunk, rd_binary = binary, rd_decoder = s, rd_aborted = False\<rparr>)"

fun read_event :: "'s text_decoder \<Rightarrow> LargeValueType option \<Rightarrow> 's read_state \<Rightarrow> copy_event \<Rightarrow> 's read_state" where
  "read_event dec valueType (Reading rd) (ChunkArrived chunk) = read_chunk dec valueType chunk rd"
| "read_event dec valueType (Reading rd) (RequestFailed message) = ReadStopped (RequestError message)"
| "read_event dec valueType (Reading rd) AbortRequested = Reading (rd\<lparr>rd_aborted := True\<rparr>)"
| "read_event dec valueType st e = st"

definition readCompleteCopyValue :: "'s text_decoder \<Rightarrow> 's \<Rightarrow> string option \<Rightarrow> LargeValueType option \<Rightarrow> copy_event list \<Rightarrow> 's read_state" where
  "readCompleteCopyValue dec s largeValueId valueType events =
     foldl (read_event dec valueType) (begin_read_value s largeValueId valueType False) events"

section \<open>Hexadecimal text does not depend on blocks or chunks\<close>

definition hex_pair :: "8 word \<Rightarrow> string" where
  "hex_pair b = [hex_char (unat b div 16), hex_char (unat b mod 16)]"

lemma byte_below [simp]: "unat (b :: 8 word) < 256"
  using unsigned_less[of b] by simp

lemma upper_lower_hex: "d < 16 \<Longrightarrow> toUpperCase [lower_hex d] = [hex_char d]"
  by (auto simp: toUpperCase_def upper_char_def lower_hex_def hex_char_def of_char_of Let_def)

lemma toUpperCase_append: "toUpperCase (s @ t) = toUpperCase s @ toUpperCase t"
  by (simp add: toUpperCase_def)

lemma upper_byte_pair: "toUpperCase (byte_pair b) = hex_pair b"
proof (cases "unat b < 16")
  case True
  have "toUpperCase ''0'' = [hex_char 0]" by code_simp
  then have "toUpperCase (CHR ''0'' # [lower_hex (unat b)]) = [hex_char 0, hex_char (unat b)]"
    using upper_lower_hex[OF True] toUpperCase_append[of "''0''" "[lower_hex (unat b)]"] by simp
  then show ?thesis using True by (simp add: byte_pair_def padStart_def to_radix16.simps[of "unat b"] hex_pair_def)
next
  case False
  have d: "unat b div 16 < 16" using byte_below[of b] by linarith
  then have "to_radix16 (unat b) = [lower_hex (unat b div 16)] @ [lower_hex (unat b mod 16)]"
    using False by (simp add: to_radix16.simps[of "unat b"] to_radix16.simps[of "unat b div 16"])
  then show ?thesis
    using upper_lower_hex[OF d] upper_lower_hex[of "unat b mod 16"] toUpperCase_append[of "[lower_hex (unat b div 16)]" "[lower_hex (unat b mod 16)]"]
    by (simp add: byte_pair_def padStart_def hex_pair_def)
qed

lemma hex_blocks_all: "hex_blocks bytes offset hex = hex @ concat (map byte_pair (drop offset bytes))"
proof (induction bytes offset hex rule: hex_blocks.induct)
  case (1 bytes offset hex)
  have "drop offset bytes = take HEX_BLOCK_SIZE (drop offset bytes) @ drop (offset + HEX_BLOCK_SIZE) bytes"
    by (metis append_take_drop_id drop_drop add.commute)
  then have "concat (map byte_pair (drop offset bytes))
      = concat (map byte_pair (take HEX_BLOCK_SIZE (drop offset bytes))) @ concat (map byte_pair (drop (offset + HEX_BLOCK_SIZE) bytes))"
    by (metis concat_append map_append)
  then show ?case using 1 by (cases "offset < length bytes") (simp_all add: hex_blocks.simps[of bytes offset hex])
qed

lemma toUpperCase_concat: "toUpperCase (concat ss) = concat (map toUpperCase ss)"
  by (induction ss) (simp_all add: toUpperCase_append, simp add: toUpperCase_def)

lemma bytesToHex_pairs: "bytesToHex bytes = concat (map hex_pair bytes)"
  by (simp add: bytesToHex_def hex_blocks_all toUpperCase_concat upper_byte_pair o_def)

lemma hex_pair_inj: "hex_pair a = hex_pair b \<longleftrightarrow> a = b"
proof
  have inj: "i < 16 \<Longrightarrow> j < 16 \<Longrightarrow> hex_char i = hex_char j \<Longrightarrow> i = j" for i j using hex_val_char by (metis option.inject)
  assume "hex_pair a = hex_pair b"
  then have "hex_char (unat a div 16) = hex_char (unat b div 16)" "hex_char (unat a mod 16) = hex_char (unat b mod 16)"
    by (simp_all add: hex_pair_def)
  moreover have "unat a div 16 < 16" "unat b div 16 < 16" using byte_below[of a] byte_below[of b] by linarith+
  ultimately have "unat a div 16 = unat b div 16" "unat a mod 16 = unat b mod 16" using inj by auto
  then have "unat a = unat b" by (metis div_mult_mod_eq)
  then show "a = b" by (simp add: word_unat_eq_iff)
qed simp

text \<open>
  the hexadecimal text of bytes determines them, and does not depend on how the bytes are cut, neither into the blocks of the
  conversion nor into the chunks of a value.
\<close>

theorem hex_text_faithful:
  "(bytesToHex a = bytesToHex b \<longleftrightarrow> a = b) \<and> bytesToHex (a @ b) = bytesToHex a @ bytesToHex b"
proof -
  have "concat (map hex_pair a) = concat (map hex_pair b) \<longleftrightarrow> a = b" for a b
  proof (induction a arbitrary: b)
    case Nil
    then show ?case by (cases b) (simp_all add: hex_pair_def)
  next
    case (Cons x a)
    then show ?case
    proof (cases b)
      case (Cons y b')
      have "concat (map hex_pair (x # a)) = concat (map hex_pair (y # b')) \<longleftrightarrow> hex_pair x = hex_pair y \<and> concat (map hex_pair a) = concat (map hex_pair b')"
        by (simp add: hex_pair_def)
      then show ?thesis using Cons.IH[of b'] Cons hex_pair_inj by simp
    qed (simp add: hex_pair_def)
  qed
  then show ?thesis by (simp add: bytesToHex_pairs)
qed

section \<open>Limits\<close>

text \<open>
  the next part of a large value that is requested fits into what the editor may still load, is a multiple of three bytes (so that the
  base64 text of a part has no padding), is at most one chunk, and there is one as long as three bytes fit.
\<close>

theorem next_chunk_limit_fits:
  "let limit = getNextLargeCellChunkLimit loadedSize editorLimit
   in 0 \<le> limit \<and> limit mod 3 = 0 \<and> limit \<le> LARGE_CELL_MAX_CHUNK_SIZE \<and> limit \<le> max 0 (editorLimit - loadedSize)
      \<and> (limit > 0 \<longleftrightarrow> 3 \<le> editorLimit - loadedSize)"
proof -
  have "n - n mod 3 \<le> n \<and> (n - n mod 3) mod 3 = 0 \<and> (n \<ge> 3 \<longrightarrow> n - n mod 3 \<ge> 3)" for n :: int by presburger
  note third = this[of "min LARGE_CELL_MAX_CHUNK_SIZE (editorLimit - loadedSize)"]
  show ?thesis
  proof (cases "editorLimit - loadedSize < 3")
    case False
    define n where "n = min LARGE_CELL_MAX_CHUNK_SIZE (editorLimit - loadedSize)"
    have "3 \<le> n" "n \<le> LARGE_CELL_MAX_CHUNK_SIZE" "n \<le> editorLimit - loadedSize" using False by (auto simp: n_def LARGE_CELL_MAX_CHUNK_SIZE_def)
    moreover have "getNextLargeCellChunkLimit loadedSize editorLimit = n - n mod 3" using False by (simp add: getNextLargeCellChunkLimit_def Let_def n_def)
    ultimately show ?thesis using third[folded n_def] False by (auto simp: Let_def)
  qed (simp add: getNextLargeCellChunkLimit_def LARGE_CELL_MAX_CHUNK_SIZE_def)
qed

section \<open>Base64\<close>

text \<open>What the backend sends for bytes.\<close>

definition base64_char :: "nat \<Rightarrow> char" where
  "base64_char i = (if i < 26 then char_of (65 + i) else if i < 52 then char_of (71 + i) else if i < 62 then char_of (i - 4)
     else if i = 62 then CHR ''+'' else CHR ''/'')"

fun base64 :: "bytes \<Rightarrow> string" where
  "base64 [] = []"
| "base64 [a] = [base64_char (unat a div 4), base64_char ((unat a mod 4) * 16), CHR ''='', CHR ''='']"
| "base64 [a, b] = [base64_char (unat a div 4), base64_char ((unat a mod 4) * 16 + unat b div 16), base64_char ((unat b mod 16) * 4), CHR ''='']"
| "base64 (a # b # c # rest) =
     base64_char (unat a div 4) # base64_char ((unat a mod 4) * 16 + unat b div 16) # base64_char ((unat b mod 16) * 4 + unat c div 64)
     # base64_char (unat c mod 64) # base64 rest"

lemma base64_value_char: "i < 64 \<Longrightarrow> base64_value (base64_char i) = Some i"
  by (auto simp: base64_value_def base64_char_def of_char_of Let_def)

lemma base64_char_no_space: "i < 64 \<Longrightarrow> \<not> base64_space (base64_char i)" "\<not> base64_space (CHR ''='')"
  by (auto simp: base64_space_def base64_char_def of_char_of Let_def)

lemma base64_char_no_pad: "i < 64 \<Longrightarrow> base64_char i \<noteq> CHR ''=''"
  using base64_value_char[of i] by (auto simp: base64_value_def)

lemma sextets:
  fixes a b c :: "8 word"
  shows "unat a div 4 < 64" "(unat a mod 4) * 16 < 64" "(unat a mod 4) * 16 + unat b div 16 < 64" "(unat b mod 16) * 4 < 64"
    "(unat b mod 16) * 4 + unat c div 64 < 64" "unat c mod 64 < 64"
proof -
  have m: "x mod 4 \<le> 3" "x mod 16 \<le> 15" for x :: nat by (simp_all add: less_Suc_eq_le[symmetric])
  have d: "y < 256 \<Longrightarrow> y div 16 \<le> 15" "y < 256 \<Longrightarrow> y div 64 \<le> 3" for y :: nat by simp_all
  have n: "x < 256 \<Longrightarrow> x div 4 < 64" "x mod 4 * 16 < 64" "y < 256 \<Longrightarrow> x mod 4 * 16 + y div 16 < 64" "x mod 16 * 4 < 64"
    "y < 256 \<Longrightarrow> x mod 16 * 4 + y div 64 < 64" "x mod 64 < 64" for x y :: nat
    using m[of x] d[of y] by simp_all
  show "unat a div 4 < 64" "(unat a mod 4) * 16 < 64" "(unat a mod 4) * 16 + unat b div 16 < 64" "(unat b mod 16) * 4 < 64"
    "(unat b mod 16) * 4 + unat c div 64 < 64" "unat c mod 64 < 64" by (simp_all only: n byte_below)
qed

lemma sextet_arith:
  fixes x y z :: nat
  shows "x div 4 * 4 + x mod 4 * 16 div 16 = x" "y < 256 \<Longrightarrow> x div 4 * 4 + (x mod 4 * 16 + y div 16) div 16 = x"
    "y < 256 \<Longrightarrow> (x mod 4 * 16 + y div 16) mod 16 * 16 + y mod 16 * 4 div 4 = y"
    "y < 256 \<Longrightarrow> z < 256 \<Longrightarrow> (x mod 4 * 16 + y div 16) mod 16 * 16 + (y mod 16 * 4 + z div 64) div 4 = y"
    "z < 256 \<Longrightarrow> (y mod 16 * 4 + z div 64) mod 4 * 64 + z mod 64 = z"
proof -
  show "x div 4 * 4 + x mod 4 * 16 div 16 = x" by simp
  assume "y < 256"
  then have y: "y div 16 < 16" by simp
  then have high: "(x mod 4 * 16 + y div 16) div 16 = x mod 4" "(x mod 4 * 16 + y div 16) mod 16 = y div 16" by simp_all
  show "x div 4 * 4 + (x mod 4 * 16 + y div 16) div 16 = x" unfolding high by simp
  show "(x mod 4 * 16 + y div 16) mod 16 * 16 + y mod 16 * 4 div 4 = y" unfolding high by simp
  assume "z < 256"
  then have "z div 64 < 4" by simp
  then have "(y mod 16 * 4 + z div 64) div 4 = y mod 16" by simp
  then show "(x mod 4 * 16 + y div 16) mod 16 * 16 + (y mod 16 * 4 + z div 64) div 4 = y" unfolding high by simp
next
  assume "z < 256"
  then have "(y mod 16 * 4 + z div 64) mod 4 = z div 64" by simp
  then show "(y mod 16 * 4 + z div 64) mod 4 * 64 + z mod 64 = z" by simp
qed

lemma bytes_back:
  fixes a b c :: "8 word"
  shows "first_byte (unat a div 4) ((unat a mod 4) * 16) = a" "first_byte (unat a div 4) ((unat a mod 4) * 16 + unat b div 16) = a"
    "second_byte ((unat a mod 4) * 16 + unat b div 16) ((unat b mod 16) * 4) = b"
    "second_byte ((unat a mod 4) * 16 + unat b div 16) ((unat b mod 16) * 4 + unat c div 64) = b"
    "third_byte ((unat b mod 16) * 4 + unat c div 64) (unat c mod 64) = c"
  unfolding first_byte_def second_byte_def third_byte_def by (simp_all only: sextet_arith byte_below of_nat_unat ucast_id)

lemma base64_no_space: "filter (\<lambda>c. \<not> base64_space c) (base64 bs) = base64 bs"
  by (induction bs rule: base64.induct) (simp_all add: base64_char_no_space sextets)

lemma strip_padding_group: "rest \<noteq> [] \<Longrightarrow> strip_padding (a # b # c # d # rest) = a # b # c # d # strip_padding rest"
  by (cases rest) simp_all

lemma base64_empty: "base64 bs = [] \<longleftrightarrow> bs = []"
  by (cases bs rule: base64.cases) simp_all

lemma those_base64: "Option.bind (those (map base64_value (strip_padding (base64 bs)))) sextet_bytes = Some bs"
proof (induction bs rule: base64.induct)
  case (4 a b c rest)
  show ?case
  proof (cases "rest = []")
    case False
    obtain vs where "those (map base64_value (strip_padding (base64 rest))) = Some vs" "sextet_bytes vs = Some rest"
      using 4 by (auto simp: bind_eq_Some_conv)
    then show ?thesis using False
      by (simp add: strip_padding_group base64_empty base64_value_char sextets bytes_back)
  qed (simp add: base64_char_no_pad base64_value_char sextets bytes_back)
qed (simp_all add: base64_char_no_pad base64_value_char sextets bytes_back)

lemma atob_base64: "atob (base64 bs) = Some bs"
  by (simp add: atob_def base64_no_space those_base64)

section \<open>A value that is read in chunks\<close>

text \<open>A chunk of the value with the given bytes, as the backend answers for any offset: the bytes from the offset on, and whether they are the last.\<close>

definition chunk_of_value :: "bytes \<Rightarrow> ILargeCellChunk \<Rightarrow> bool" where
  "chunk_of_value content chunk \<longleftrightarrow>
     0 \<le> ch_offset chunk \<and> ch_offset chunk \<le> ch_nextOffset chunk \<and> ch_nextOffset chunk \<le> int (length content)
     \<and> ch_value chunk = base64 (take (nat (ch_nextOffset chunk - ch_offset chunk)) (drop (nat (ch_offset chunk)) content))
     \<and> (ch_eof chunk \<longleftrightarrow> ch_nextOffset chunk = int (length content))"

definition chunk_binary :: "LargeValueType option \<Rightarrow> ILargeCellChunk \<Rightarrow> bool" where
  "chunk_binary valueType chunk = isBinaryDisplayMode (if ch_displayMode chunk \<noteq> None then ch_displayMode chunk else valueType)"

fun event_of_value :: "bytes \<Rightarrow> LargeValueType option \<Rightarrow> bool \<Rightarrow> copy_event \<Rightarrow> bool" where
  "event_of_value content valueType binary (ChunkArrived chunk) \<longleftrightarrow> chunk_of_value content chunk \<and> chunk_binary valueType chunk = binary"
| "event_of_value content valueType binary e \<longleftrightarrow> True"

text \<open>
  What a streaming decoder promises: decoding a first part and then the rest is decoding all of it, errors included.
\<close>

definition streaming_decoder :: "'s text_decoder \<Rightarrow> bool" where
  "streaming_decoder dec \<longleftrightarrow>
     (\<forall>s a b eof. dec s (a @ b) eof =
        (case dec s a False of None \<Rightarrow> None | Some (s', p) \<Rightarrow> map_option (\<lambda>(s'', q). (s'', p @ q)) (dec s' b eof)))"

fun read_faithful :: "'s text_decoder \<Rightarrow> 's \<Rightarrow> bytes \<Rightarrow> bool \<Rightarrow> 's read_state \<Rightarrow> bool" where
  "read_faithful dec s content binary (Reading rd) \<longleftrightarrow>
     0 \<le> rd_offset rd \<and> rd_offset rd \<le> int (length content)
     \<and> (if binary then concat (rd_parts rd) = bytesToHex (take (nat (rd_offset rd)) content)
        else (\<forall>b eof. dec s (take (nat (rd_offset rd)) content @ b) eof
                = map_option (\<lambda>(s', q). (s', concat (rd_parts rd) @ q)) (dec (rd_decoder rd) b eof)))"
| "read_faithful dec s content binary (ReadDone value sizeBytes) \<longleftrightarrow>
     sizeBytes = int (length content)
     \<and> (if binary then value = ''0x'' @ bytesToHex content else map_option snd (dec s content True) = Some value)"
| "read_faithful dec s content binary (ReadStopped e) \<longleftrightarrow> True"

lemma bytesToHex_append: "bytesToHex (a @ b) = bytesToHex a @ bytesToHex b"
  by (simp add: bytesToHex_pairs)

lemma chunk_bytes:
  assumes "chunk_of_value content chunk" "decodeLargeCellChunk chunk = Some loaded"
  shows "take (nat (ch_nextOffset chunk)) content = take (nat (ch_offset chunk)) content @ lc_bytes loaded"
    "int (length (lc_bytes loaded)) = ch_nextOffset chunk - ch_offset chunk"
proof -
  have bytes: "lc_bytes loaded = take (nat (ch_nextOffset chunk - ch_offset chunk)) (drop (nat (ch_offset chunk)) content)"
    using assms by (auto simp: decodeLargeCellChunk_def chunk_of_value_def atob_base64)
  have range: "0 \<le> ch_offset chunk" "ch_offset chunk \<le> ch_nextOffset chunk" "ch_nextOffset chunk \<le> int (length content)"
    using assms(1) by (simp_all add: chunk_of_value_def)
  then have "nat (ch_nextOffset chunk) = nat (ch_offset chunk) + nat (ch_nextOffset chunk - ch_offset chunk)" by simp
  then show "take (nat (ch_nextOffset chunk)) content = take (nat (ch_offset chunk)) content @ lc_bytes loaded"
    by (simp add: bytes take_add)
  show "int (length (lc_bytes loaded)) = ch_nextOffset chunk - ch_offset chunk" using range by (auto simp: bytes min_def)
qed

lemma chunk_decodes: "chunk_of_value content chunk \<Longrightarrow> \<exists>loaded. decodeLargeCellChunk chunk = Some loaded"
  by (simp add: decodeLargeCellChunk_def chunk_of_value_def atob_base64)

lemma streaming_decoderD:
  "streaming_decoder dec \<Longrightarrow> dec s (a @ b) eof =
     (case dec s a False of None \<Rightarrow> None | Some (s', p) \<Rightarrow> map_option (\<lambda>(s'', q). (s'', p @ q)) (dec s' b eof))"
  by (simp add: streaming_decoder_def)

lemma read_chunk_faithful:
  assumes dec: "streaming_decoder dec" and inv: "read_faithful dec s content binary (Reading rd)"
    and chunk: "chunk_of_value content chunk" "chunk_binary valueType chunk = binary"
  shows "read_faithful dec s content binary (read_chunk dec valueType chunk rd)"
proof (cases "rd_aborted rd")
  case False
  obtain loaded where loaded: "decodeLargeCellChunk chunk = Some loaded" using chunk_decodes[OF chunk(1)] by blast
  note bytes = chunk_bytes[OF chunk(1) loaded]
  have range: "0 \<le> ch_offset chunk" "ch_offset chunk \<le> ch_nextOffset chunk" "ch_nextOffset chunk \<le> int (length content)"
    and eof: "ch_eof chunk \<longleftrightarrow> ch_nextOffset chunk = int (length content)" using chunk(1) by (simp_all add: chunk_of_value_def)
  show ?thesis
  proof (cases "ch_offset chunk = rd_offset rd")
    case here: True
    have upto: "take (nat (ch_nextOffset chunk)) content = take (nat (rd_offset rd)) content @ lc_bytes loaded" using bytes(1) here by simp
    show ?thesis
    proof (cases binary)
      case True
      have "concat (rd_parts rd) @ bytesToHex (lc_bytes loaded) = bytesToHex (take (nat (ch_nextOffset chunk)) content)"
        using inv True by (simp add: upto bytesToHex_append)
      then show ?thesis using True False loaded chunk(2) range eof
        by (auto simp: read_chunk_def chunk_binary_def Let_def)
    next
      case text_: False
      have step: "dec s (take (nat (ch_nextOffset chunk)) content @ b) e
          = map_option (\<lambda>(s', q). (s', concat (rd_parts rd) @ q)) (dec (rd_decoder rd) (lc_bytes loaded @ b) e)" for b e
        using inv text_ by (simp add: upto)
      show ?thesis
      proof (cases "dec (rd_decoder rd) (lc_bytes loaded) (ch_eof chunk)")
        case None
        then show ?thesis using text_ False loaded chunk(2) by (auto simp: read_chunk_def chunk_binary_def Let_def)
      next
        case (Some r)
        obtain s' part where r: "r = (s', part)" by (cases r)
        show ?thesis
        proof (cases "ch_eof chunk")
          case True
          have "dec s content True = Some (s', concat (rd_parts rd) @ part)"
            using step[of "[]" True] Some r True eof by simp
          then show ?thesis using text_ False loaded chunk(2) Some r True eof by (auto simp: read_chunk_def chunk_binary_def Let_def)
        next
          case more_: False
          have "dec s (take (nat (ch_nextOffset chunk)) content @ b) e
              = map_option (\<lambda>(s'', q). (s'', concat (rd_parts rd @ [part]) @ q)) (dec s' b e)" for b e
            using step[of b e] streaming_decoderD[OF dec, of "rd_decoder rd" "lc_bytes loaded" b e] Some r more_
            by (simp add: option.map_comp comp_def split_def)
          then show ?thesis using text_ False loaded chunk(2) Some r more_ range by (auto simp: read_chunk_def chunk_binary_def Let_def)
        qed
      qed
    qed
  qed (use False loaded in \<open>simp add: read_chunk_def\<close>)
qed (simp add: read_chunk_def)

lemma read_event_faithful:
  assumes "streaming_decoder dec" "read_faithful dec s content binary st" "event_of_value content valueType binary e"
  shows "read_faithful dec s content binary (read_event dec valueType st e)"
proof (cases st)
  case (Reading rd)
  then show ?thesis using assms read_chunk_faithful[of dec s content binary rd] by (cases e) auto
qed (use assms in auto)

text \<open>
  C22: a value is copied whole or not at all. Whatever chunks of a value the backend answers with, in whatever order and how often, among
  failures and cancellations, when the reading returns a text it is the text of all bytes of the value, hexadecimal with a prefix for binary
  values and decoded otherwise, and the size is the number of bytes; a missing, repeated or misplaced chunk is never glued in.
\<close>

theorem copied_value_is_whole:
  assumes "streaming_decoder dec" "list_all (event_of_value content valueType binary) events"
    "readCompleteCopyValue dec s largeValueId valueType events = ReadDone value sizeBytes"
  shows "sizeBytes = int (length content)
    \<and> (if binary then value = ''0x'' @ bytesToHex content else map_option snd (dec s content True) = Some value)"
proof -
  have "list_all (event_of_value content valueType binary) events \<Longrightarrow> read_faithful dec s content binary st
      \<Longrightarrow> read_faithful dec s content binary (foldl (read_event dec valueType) st events)" for st
    by (induction events arbitrary: st) (simp_all add: read_event_faithful[OF assms(1)])
  moreover have "read_faithful dec s content binary (begin_read_value s largeValueId valueType False)"
    by (simp add: begin_read_value_def bytesToHex_pairs option.map_comp comp_def split_def option.map_ident)
  ultimately have "read_faithful dec s content binary (readCompleteCopyValue dec s largeValueId valueType events)"
    using assms(2) by (simp add: readCompleteCopyValue_def)
  then show ?thesis using assms(3) by simp
qed

theorem copied_value_is_whole_witness:
  "let latin1 = (\<lambda>(u :: unit) bytes (eof :: bool). Some (u, map (\<lambda>b. char_of (unat b)) bytes));
       chunk = (\<lambda>value offset upto eof. ChunkArrived \<lparr>ch_value = value, ch_offset = offset, ch_nextOffset = upto, ch_eof = eof,
         ch_contentType = None, ch_displayMode = Some VText\<rparr>);
       events = [chunk ''T3R0'' 0 3 False, chunk ''ZXI='' 3 5 True]
   in streaming_decoder latin1 \<and> list_all (event_of_value [79, 116, 116, 101, 114] None False) events
      \<and> readCompleteCopyValue latin1 () (Some ''v1'') None events = ReadDone ''Otter'' 5"
proof -
  let ?latin1 = "\<lambda>(u :: unit) bytes (eof :: bool). Some (u, map (\<lambda>b. char_of (unat (b :: 8 word))) bytes)"
  let ?chunk = "\<lambda>value offset upto eof. ChunkArrived \<lparr>ch_value = value, ch_offset = offset, ch_nextOffset = upto, ch_eof = eof,
         ch_contentType = None, ch_displayMode = Some VText\<rparr>"
  let ?events = "[?chunk ''T3R0'' 0 3 False, ?chunk ''ZXI='' 3 5 True]"
  have dec: "streaming_decoder ?latin1" by (simp add: streaming_decoder_def)
  have sent: "list_all (event_of_value [79, 116, 116, 101, 114] None False) ?events" by code_simp
  have read: "readCompleteCopyValue ?latin1 () (Some ''v1'') None ?events = ReadDone ''Otter'' 5" by code_simp
  show ?thesis using copied_value_is_whole[OF dec sent read] dec sent read by simp
qed

text \<open>The answers of a backend that serves a value in the given parts.\<close>

fun served_chunks :: "LargeValueType option \<Rightarrow> int \<Rightarrow> bytes list \<Rightarrow> copy_event list" where
  "served_chunks mode offset [] = []"
| "served_chunks mode offset (bytes # rest) =
     ChunkArrived \<lparr>ch_value = base64 bytes, ch_offset = offset, ch_nextOffset = offset + int (length bytes), ch_eof = (rest = []),
       ch_contentType = None, ch_displayMode = mode\<rparr> # served_chunks mode (offset + int (length bytes)) rest"

lemma read_served:
  assumes "parts \<noteq> []" "list_all (\<lambda>bytes. bytes \<noteq> []) (butlast parts)" "isBinaryDisplayMode mode"
    "\<not> rd_aborted rd"
  shows "foldl (read_event dec valueType) (Reading rd) (served_chunks mode (rd_offset rd) parts)
    = ReadDone (''0x'' @ concat (rd_parts rd) @ bytesToHex (concat parts)) (rd_offset rd + int (length (concat parts)))"
  using assms
proof (induction parts arbitrary: rd)
  case (Cons bytes parts)
  have mode: "mode \<noteq> None" using Cons.prems(3) by (auto simp: isBinaryDisplayMode_def)
  show ?case
  proof (cases "parts = []")
    case True
    then show ?thesis using Cons.prems mode by (simp add: read_chunk_def decodeLargeCellChunk_def atob_base64 Let_def)
  next
    case False
    let ?rd = "\<lparr>rd_parts = rd_parts rd @ [bytesToHex bytes], rd_offset = rd_offset rd + int (length bytes), rd_binary = True,
      rd_decoder = rd_decoder rd, rd_aborted = False\<rparr>"
    have "read_event dec valueType (Reading rd) (hd (served_chunks mode (rd_offset rd) (bytes # parts))) = Reading ?rd"
      using Cons.prems mode False by (simp add: read_chunk_def decodeLargeCellChunk_def atob_base64 Let_def)
    then show ?thesis using Cons.IH[of ?rd] Cons.prems False by (simp add: bytesToHex_append)
  qed
qed simp

text \<open>
  a binary value that the backend serves in parts, none of them empty but perhaps the last, is read to its end, in as many requests as
  there are parts, and its text does not depend on the parts.
\<close>

theorem served_value_is_read:
  assumes "parts \<noteq> []" "list_all (\<lambda>bytes. bytes \<noteq> []) (butlast parts)" "isBinaryDisplayMode mode" "largeValueId \<noteq> []"
  shows "readCompleteCopyValue dec s (Some largeValueId) valueType (served_chunks mode 0 parts)
    = ReadDone (''0x'' @ bytesToHex (concat parts)) (int (length (concat parts)))"
  using read_served[of parts mode "\<lparr>rd_parts = [], rd_offset = 0, rd_binary = isBinaryDisplayMode valueType, rd_decoder = s, rd_aborted = False\<rparr>"]
    assms by (simp add: readCompleteCopyValue_def begin_read_value_def truthy_str_def)

theorem served_value_is_read_witness:
  "readCompleteCopyValue (\<lambda>u bytes eof. None) () (Some ''v1'') None (served_chunks (Some VBinary) 0 [[1, 2, 255], [16]])
    = ReadDone ''0x0102FF10'' 4"
proof -
  have "bytesToHex [1, 2, 255, 16] = ''0102FF10''" unfolding bytesToHex_pairs by code_simp
  then show ?thesis
    using served_value_is_read[of "[[1, 2, 255], [16]]" "Some VBinary" "''v1''" "\<lambda>u bytes eof. None" "()" None]
    by (simp add: isBinaryDisplayMode_def)
qed

end
