(* ===== verification/Result_Clipboard.thy ===== *)
theory Result_Clipboard
  imports Large_Values Result_Edits "HOL-Library.Sublist"
begin

text \<open>
  Copying and pasting of result data: \<open>copyValues.ts\<close>, \<open>copyResultData.ts\<close>, \<open>event/onPasteData\<close> and \<open>event/onContextmenuCell\<close> of
  \<open>blocks/SearchResult/components/ResultSetTable\<close>, with \<open>utils/internalClipboard.ts\<close>, \<open>utils/clipboardText.ts\<close> and the clipboard functions
  of \<open>utils/index.ts\<close>. The records of a selection are shared objects: they live in a heap, and cells hold references. The whole values of
  large cells come from a function that reads a value by its id and type (\<open>readCompleteCopyValue\<close> of \<open>Large_Values\<close>).
\<close>

section \<open>The clipboard\<close>

abbreviation TAB :: char where "TAB \<equiv> CHR 0x09"

text \<open>\<open>text.replace(/\r\n?/g, '\n')\<close> and \<open>text.replace(/\r\n|\r|\n/g, '\r\n')\<close>.\<close>

fun cr_to_lf :: "string \<Rightarrow> string" where
  "cr_to_lf [] = []"
| "cr_to_lf (c # cs) =
     (if c = CR then (if cs \<noteq> [] \<and> hd cs = LF then cr_to_lf cs else LF # cr_to_lf cs) else c # cr_to_lf cs)"

fun breaks_to_crlf :: "string \<Rightarrow> string" where
  "breaks_to_crlf [] = []"
| "breaks_to_crlf (c # cs) =
     (if c = CR then (if cs \<noteq> [] \<and> hd cs = LF then breaks_to_crlf cs else CR # LF # breaks_to_crlf cs)
      else if c = LF then CR # LF # breaks_to_crlf cs else c # breaks_to_crlf cs)"

definition is_windows :: "string \<Rightarrow> bool" where
  "is_windows userAgent \<longleftrightarrow> list_ex (\<lambda>w. sublist w (toLowerCase userAgent)) [''windows'', ''win32'', ''win64'']"

definition normalizeClipboardText :: "string \<Rightarrow> string \<Rightarrow> string" where
  "normalizeClipboardText txt userAgent = (if is_windows userAgent then breaks_to_crlf txt else txt)"

record InternalResultGridClipboard =
  ic_text :: string
  ic_rows :: "string list list"

record Clipboards =
  cb_system :: string
  cb_internal :: "InternalResultGridClipboard option"

definition serializeGrid :: "string list list \<Rightarrow> string" where
  "serializeGrid rows = join [LF] (map (join [TAB]) rows)"

definition clearInternalClipboard :: "Clipboards \<Rightarrow> Clipboards" where
  "clearInternalClipboard cb = cb\<lparr>cb_internal := None\<rparr>"

definition setInternalResultGridClipboard :: "string list list \<Rightarrow> Clipboards \<Rightarrow> Clipboards" where
  "setInternalResultGridClipboard rows cb = cb\<lparr>cb_internal := Some \<lparr>ic_text = cr_to_lf (serializeGrid rows), ic_rows = rows\<rparr>\<rparr>"

definition getInternalResultGridClipboard :: "Clipboards \<Rightarrow> string \<Rightarrow> string list list option" where
  "getInternalResultGridClipboard cb txt =
     (case cb_internal cb of
        None \<Rightarrow> None
      | Some grid \<Rightarrow> if ic_text grid \<noteq> cr_to_lf txt then None else Some (ic_rows grid))"

datatype ClipboardData = ClipText string | ClipGrid "string list list"

text \<open>An empty grid has no first row that is an array; the text of the empty list is empty.\<close>

definition getClipboardText :: "ClipboardData \<Rightarrow> string" where
  "getClipboardText d = (case d of ClipText t \<Rightarrow> t | ClipGrid rows \<Rightarrow> join [LF] (map (join [TAB]) rows))"

text \<open>Writing to the clipboard: it forgets the internal grid also when the platform refuses to write.\<close>

definition copyToClipboardAsync :: "string \<Rightarrow> bool \<Rightarrow> ClipboardData \<Rightarrow> Clipboards \<Rightarrow> bool \<times> Clipboards" where
  "copyToClipboardAsync userAgent written d cb =
     (let cleared = clearInternalClipboard cb
      in if written then (True, cleared\<lparr>cb_system := normalizeClipboardText (getClipboardText d) userAgent\<rparr>) else (False, cleared))"

section \<open>A selection that is copied\<close>

record CellMeta =
  cm_value :: cell_value
  cm_largeValue :: bool
  cm_largeValueId :: "string option"
  cm_valueType :: "LargeValueType option"
  cm_loadedBytes :: "int option"
  cm_loadedChars :: "int option"
  cm_truncated :: bool
  cm_unsupportedReason :: "string option"

record ResultCopyRecord =
  cr_rowNumber :: "string option"
  cr_fields :: js_object
  cr_meta :: "CellMeta list option"

record ResultCopyCell =
  cc_row :: int
  cc_col :: int
  cc_field :: "string option"
  cc_value :: jsval
  cc_dataValue :: jsval
  cc_originData :: "nat option"

type_synonym copy_selection = "ResultCopyCell list list"
type_synonym copy_heap = "nat \<rightharpoonup> ResultCopyRecord"

datatype ResultCopyFormat = FormatCells | FormatCreate | FormatUpdate | FormatWhere | FormatInValues | FormatTsv | FormatHeaders
  | FormatTsvWithHeaders | FormatMarkdown

text \<open>\<open>String(cell.field)\<close>\<close>

definition field_text :: "ResultCopyCell \<Rightarrow> string" where
  "field_text cell = (case cc_field cell of Some f \<Rightarrow> f | None \<Rightarrow> ''undefined'')"

text \<open>
  The snapshot copies each record of the selection once, however many cells refer to it: the copies are a heap of their own, with the same
  references.
\<close>

definition snapshotResultCopySelection :: "copy_selection \<Rightarrow> copy_heap \<Rightarrow> copy_selection \<times> copy_heap" where
  "snapshotResultCopySelection selection heap =
     (selection, heap |` set (List.map_filter cc_originData (concat selection)))"

definition in_body :: "ResultCopyCell \<Rightarrow> bool" where
  "in_body cell \<longleftrightarrow> cc_row cell > 0 \<and> cc_col cell > 0"

definition getResultCopyFields :: "ResultCopyCell list \<Rightarrow> ResultCopyFormat \<Rightarrow> string list \<Rightarrow> bool list \<Rightarrow> string list" where
  "getResultCopyFields row format visibleFields primaryKeys =
     (if format = FormatHeaders then []
      else if format = FormatTsv \<or> format = FormatTsvWithHeaders then visibleFields
      else
        let selected = map field_text (filter in_body row) in
        if format \<noteq> FormatUpdate then selected
        else
          let keyFields = map (\<lambda>(index, _). string_of_nat index)
                (filter (\<lambda>(index, primaryKey). index > 0 \<and> primaryKey) (List.enumerate 0 primaryKeys));
              locatorFields = (if keyFields \<noteq> [] then keyFields else map string_of_nat [1..<length primaryKeys])
          in uniq (selected @ locatorFields))"

section \<open>Completing large values\<close>

text \<open>\<open>metadata?.[Number(field)]\<close>\<close>

definition meta_index :: "string \<Rightarrow> nat option" where
  "meta_index field = (case js_Number (Some field) of Some i \<Rightarrow> if 0 \<le> i then Some (nat i) else None | None \<Rightarrow> None)"

definition meta_at :: "ResultCopyRecord \<Rightarrow> string \<Rightarrow> CellMeta option" where
  "meta_at record field =
     (case (cr_meta record, meta_index field) of
        (Some metadata, Some i) \<Rightarrow> if i < length metadata then Some (metadata ! i) else None
      | _ \<Rightarrow> None)"

definition is_partial :: "CellMeta \<Rightarrow> bool" where
  "is_partial meta \<longleftrightarrow> cm_largeValue meta \<or> cm_truncated meta \<or> truthy_str (cm_largeValueId meta)"

type_synonym full_value = "string \<times> int"

definition complete_meta :: "full_value \<Rightarrow> CellMeta \<Rightarrow> CellMeta" where
  "complete_meta full meta = meta\<lparr>cm_value := Some (fst full), cm_largeValue := False, cm_truncated := False, cm_largeValueId := None,
     cm_unsupportedReason := None, cm_loadedBytes := Some (snd full), cm_loadedChars := Some (int (length (fst full)))\<rparr>"

definition complete_record :: "string \<Rightarrow> full_value \<Rightarrow> ResultCopyRecord \<Rightarrow> ResultCopyRecord" where
  "complete_record field full record =
     record\<lparr>cr_fields := AList.update field (Str (fst full)) (cr_fields record),
       cr_meta := map_option (\<lambda>metadata. case meta_index field of Some i \<Rightarrow> metadata[i := complete_meta full (metadata ! i)] | None \<Rightarrow> metadata)
         (cr_meta record)\<rparr>"

record CopyProgress =
  cp_heap :: copy_heap
  cp_values :: "(string \<times> full_value) list"
  cp_loads :: "string list"

type_synonym load_value = "string \<Rightarrow> LargeValueType option \<Rightarrow> copy_error + full_value"

definition complete_field :: "load_value \<Rightarrow> nat \<Rightarrow> string \<Rightarrow> CopyProgress \<Rightarrow> copy_error + CopyProgress" where
  "complete_field load ref field p =
     (case cp_heap p ref of
        None \<Rightarrow> Inr p
      | Some record \<Rightarrow>
          (case meta_at record field of
             None \<Rightarrow> Inr p
           | Some meta \<Rightarrow>
               if \<not> is_partial meta then Inr p
               else (case cm_largeValueId meta of
                   None \<Rightarrow> Inl FullValueUnsupported
                 | Some largeValueId \<Rightarrow>
                     if largeValueId = [] then Inl FullValueUnsupported
                     else (case map_of (cp_values p) largeValueId of
                         Some full \<Rightarrow> Inr (p\<lparr>cp_heap := (cp_heap p)(ref \<mapsto> complete_record field full record)\<rparr>)
                       | None \<Rightarrow>
                           (case load largeValueId (cm_valueType meta) of
                              Inl e \<Rightarrow> Inl e
                            | Inr full \<Rightarrow>
                                Inr \<lparr>cp_heap = (cp_heap p)(ref \<mapsto> complete_record field full record),
                                     cp_values = (largeValueId, full) # cp_values p, cp_loads = cp_loads p @ [largeValueId]\<rparr>)))))"

fun complete_fields :: "load_value \<Rightarrow> nat \<Rightarrow> string list \<Rightarrow> CopyProgress \<Rightarrow> copy_error + CopyProgress" where
  "complete_fields load ref [] p = Inr p"
| "complete_fields load ref (field # rest) p =
     (case complete_field load ref field p of Inl e \<Rightarrow> Inl e | Inr p' \<Rightarrow> complete_fields load ref rest p')"

definition row_record :: "ResultCopyCell list \<Rightarrow> nat option" where
  "row_record row = Option.bind (List.find (\<lambda>cell. cc_row cell > 0 \<and> cc_originData cell \<noteq> None) row) cc_originData"

fun complete_rows :: "load_value \<Rightarrow> (ResultCopyCell list \<times> string list) list \<Rightarrow> CopyProgress \<Rightarrow> copy_error + CopyProgress" where
  "complete_rows load [] p = Inr p"
| "complete_rows load ((row, flds) # rest) p =
     (case row_record row of
        None \<Rightarrow> complete_rows load rest p
      | Some ref \<Rightarrow> (case complete_fields load ref flds p of Inl e \<Rightarrow> Inl e | Inr p' \<Rightarrow> complete_rows load rest p'))"

definition refresh_cell :: "copy_heap \<Rightarrow> ResultCopyCell \<Rightarrow> ResultCopyCell" where
  "refresh_cell heap cell =
     (case (cc_originData cell, cc_field cell) of
        (Some ref, Some field) \<Rightarrow>
          if in_body cell
          then let v = (case heap ref of Some record \<Rightarrow> the_default Undefined (map_of (cr_fields record) field) | None \<Rightarrow> Undefined)
               in cell\<lparr>cc_value := v, cc_dataValue := v\<rparr>
          else cell
      | _ \<Rightarrow> cell)"

definition completeResultCopyValues ::
  "load_value \<Rightarrow> copy_selection \<Rightarrow> string list list \<Rightarrow> copy_heap \<Rightarrow> copy_error + (copy_selection \<times> copy_heap \<times> string list)" where
  "completeResultCopyValues load selection flds heap =
     (case complete_rows load (zip selection flds) \<lparr>cp_heap = heap, cp_values = [], cp_loads = []\<rparr> of
        Inl e \<Rightarrow> Inl e
      | Inr p \<Rightarrow> Inr (map (map (refresh_cell (cp_heap p))) selection, cp_heap p, cp_loads p))"

section \<open>What is copied\<close>

datatype operation_error = EmptySelection | SingleColumnRequired

record ResultCopyOperation =
  op_type :: ResultCopyFormat
  op_rowId :: "string option"
  op_dataList :: ResultCopyRecord
  op_selectCols :: "string list"
  op_selectedCell :: "CellMeta option"

definition copy_operation :: "copy_heap \<Rightarrow> ResultCopyFormat \<Rightarrow> string option \<Rightarrow> ResultCopyCell list \<Rightarrow> operation_error + (ResultCopyOperation \<times> string option)" where
  "copy_operation heap type inField row =
     (let cells = filter in_body row in
      case (case cells of [] \<Rightarrow> None | cell # _ \<Rightarrow> Option.bind (cc_originData cell) heap) of
        None \<Rightarrow> Inl EmptySelection
      | Some record \<Rightarrow>
          let selectCols = map field_text cells in
          if type = FormatInValues \<and> (length selectCols \<noteq> 1 \<or> (inField \<noteq> None \<and> inField \<noteq> Some (hd selectCols)))
          then Inl SingleColumnRequired
          else
            let inField' = (if type = FormatInValues then Some (hd selectCols) else inField)
            in Inr (\<lparr>op_type = type, op_rowId = cr_rowNumber record, op_dataList = record, op_selectCols = selectCols,
                  op_selectedCell = (if type = FormatInValues then Option.bind inField' (meta_at record) else None)\<rparr>, inField'))"

fun copy_operations :: "copy_heap \<Rightarrow> ResultCopyFormat \<Rightarrow> string option \<Rightarrow> copy_selection \<Rightarrow> operation_error + ResultCopyOperation list" where
  "copy_operations heap type inField [] = Inr []"
| "copy_operations heap type inField (row # rest) =
     (case copy_operation heap type inField row of
        Inl e \<Rightarrow> Inl e
      | Inr (operation, inField') \<Rightarrow>
          (case copy_operations heap type inField' rest of Inl e \<Rightarrow> Inl e | Inr ops \<Rightarrow> Inr (operation # ops)))"

definition buildResultCopyOperations :: "copy_heap \<Rightarrow> copy_selection \<Rightarrow> ResultCopyFormat \<Rightarrow> operation_error + ResultCopyOperation list" where
  "buildResultCopyOperations heap selection type = copy_operations heap type None (filter (list_ex (\<lambda>cell. cc_row cell > 0)) selection)"

definition copied_text :: "jsval \<Rightarrow> string" where
  "copied_text v = (if v = Null \<or> v = Undefined then [] else if v = Str [] then [CHR 0x27, CHR 0x27] else js_String v)"

definition place_cell :: "int \<Rightarrow> int \<Rightarrow> string list list \<Rightarrow> ResultCopyCell \<Rightarrow> string list list" where
  "place_cell minRow minCol rows cell =
     (let i = nat (cc_row cell - minRow); j = nat (cc_col cell - minCol)
      in rows[i := (rows ! i)[j := copied_text (cc_value cell)]])"

definition resultCopySelectionToRows :: "copy_selection \<Rightarrow> string list list" where
  "resultCopySelectionToRows selection =
     (let cells = concat selection in
      if cells = [] then []
      else
        let minRow = Min (set (map cc_row cells)); minCol = Min (set (map cc_col cells));
            maxRow = fold max (map cc_row cells) (-1); maxCol = fold max (map cc_col cells) (-1)
        in foldl (place_cell minRow minCol) (replicate (nat (maxRow - minRow + 1)) (replicate (nat (maxCol - minCol + 1)) [])) cells)"

text \<open>The markdown table.\<close>

fun breaks_to_br :: "string \<Rightarrow> string" where
  "breaks_to_br [] = []"
| "breaks_to_br (c # cs) =
     (if c = CR then (if cs \<noteq> [] \<and> hd cs = LF then breaks_to_br cs else ''<br>'' @ breaks_to_br cs)
      else if c = LF then ''<br>'' @ breaks_to_br cs else c # breaks_to_br cs)"

definition replace_char :: "char \<Rightarrow> string \<Rightarrow> string \<Rightarrow> string" where
  "replace_char a b s = concat (map (\<lambda>c. if c = a then b else [c]) s)"

definition BACKSLASH :: char where
  "BACKSLASH = CHR 0x5C"

definition escapeMarkdownCell :: "jsval \<Rightarrow> string" where
  "escapeMarkdownCell v =
     (if v = Null \<or> v = Undefined then ''NULL''
      else
        let s = js_String v;
            s = replace_char (CHR 0x26) ''&amp;'' s;
            s = replace_char (CHR 0x3C) ''&lt;'' s;
            s = replace_char (CHR 0x3E) ''&gt;'' s;
            s = breaks_to_br s;
            s = replace_char BACKSLASH [BACKSLASH, BACKSLASH] s
        in replace_char (CHR 0x7C) [BACKSLASH, CHR 0x7C] s)"

definition markdown_line :: "string list \<Rightarrow> string" where
  "markdown_line cells = ''| '' @ join '' | '' cells @ '' |''"

definition formatSelectionAsMarkdown :: "(ResultCopyCell \<Rightarrow> jsval) \<Rightarrow> copy_selection \<Rightarrow> string option" where
  "formatSelectionAsMarkdown getColumnTitle selection =
     (let cells = filter in_body (concat selection) in
      if cells = [] then None
      else
        let columns = sort (uniq (map cc_col cells));
            rows = sort (uniq (map cc_row cells));
            header = map (\<lambda>col. escapeMarkdownCell
              (case List.find (\<lambda>cell. cc_col cell = col) cells of Some cell \<Rightarrow> getColumnTitle cell | None \<Rightarrow> Str [])) columns;
            body = map (\<lambda>row. map (\<lambda>col.
                case List.find (\<lambda>cell. cc_row cell = row \<and> cc_col cell = col) (rev cells) of
                  None \<Rightarrow> []
                | Some cell \<Rightarrow> escapeMarkdownCell (if cc_dataValue cell \<noteq> Undefined then cc_dataValue cell else cc_value cell)) columns) rows
        in Some (join [LF] (map markdown_line (header # map (\<lambda>_. ''---'') columns # body))))"

section \<open>Copying\<close>

record CopyColumn =
  col_field :: string
  col_hide :: bool
  col_title :: "string option"
  col_name :: "string option"

definition column_name :: "CopyColumn \<Rightarrow> string" where
  "column_name c = (if truthy_str (col_name c) then the (col_name c) else the_default [] (col_title c))"

definition markdown_title :: "CopyColumn list \<Rightarrow> ResultCopyCell \<Rightarrow> jsval" where
  "markdown_title columns cell =
     (case List.find (\<lambda>c. col_field c = field_text cell) columns of
        Some c \<Rightarrow>
          (if truthy_str (col_name c) then Str (the (col_name c))
           else if truthy_str (col_title c) then Str (the (col_title c))
           else (case cc_field cell of Some f \<Rightarrow> Str f | None \<Rightarrow> Undefined))
      | None \<Rightarrow> (case cc_field cell of Some f \<Rightarrow> Str f | None \<Rightarrow> Undefined))"

definition tsv_rows :: "copy_heap \<Rightarrow> string list \<Rightarrow> copy_selection \<Rightarrow> string list list" where
  "tsv_rows heap visibleFields selection =
     map (\<lambda>row.
       let record = Option.bind (Option.bind (List.find (\<lambda>cell. cc_originData cell \<noteq> None) row) cc_originData) heap
       in map (\<lambda>field.
            let v = (case record of Some r \<Rightarrow> the_default Undefined (map_of (cr_fields r) field) | None \<Rightarrow> Undefined)
            in js_String (coalesce v (Str []))) visibleFields)
       (filter (list_ex (\<lambda>cell. cc_row cell > 0)) selection)"

datatype copy_failure = CopyAborted | EmptyCopySelection | SingleColumnCopy | CopyFailed | ReadError copy_error | GenerateError string

fun operation_failure :: "operation_error \<Rightarrow> copy_failure" where
  "operation_failure EmptySelection = EmptyCopySelection"
| "operation_failure SingleColumnRequired = SingleColumnCopy"

text \<open>
  The data a format copies, once the values are complete, and the grid that is remembered for pasting. The SQL formats are generated by the
  backend, from the operations.
\<close>

definition copy_data ::
  "(ResultCopyOperation list \<Rightarrow> copy_failure + string) option \<Rightarrow> ResultCopyFormat \<Rightarrow> CopyColumn list \<Rightarrow> copy_selection \<Rightarrow> copy_heap
     \<Rightarrow> copy_failure + (ClipboardData \<times> string list list option) option" where
  "copy_data generate format columns selection heap =
     (let visibleColumns = filter (\<lambda>c. \<not> col_hide c) columns;
          visibleFields = map col_field visibleColumns
      in case format of
           FormatMarkdown \<Rightarrow> Inr (Some (ClipText (the_default [] (formatSelectionAsMarkdown (markdown_title columns) selection)), None))
         | FormatHeaders \<Rightarrow> Inr (Some (ClipGrid [map column_name visibleColumns], None))
         | FormatTsv \<Rightarrow> (let gridRows = tsv_rows heap visibleFields selection in Inr (Some (ClipGrid gridRows, Some gridRows)))
         | FormatTsvWithHeaders \<Rightarrow>
             (let gridRows = map column_name visibleColumns # tsv_rows heap visibleFields selection in Inr (Some (ClipGrid gridRows, Some gridRows)))
         | FormatCells \<Rightarrow> (let gridRows = resultCopySelectionToRows selection in Inr (Some (ClipGrid gridRows, Some gridRows)))
         | _ \<Rightarrow>
             (case buildResultCopyOperations heap selection format of
                Inl e \<Rightarrow> Inl (operation_failure e)
              | Inr operations \<Rightarrow>
                  (case generate of
                     None \<Rightarrow> Inr None
                   | Some gen \<Rightarrow> (case gen operations of Inl e \<Rightarrow> Inl e | Inr sql \<Rightarrow> Inr (Some (ClipText sql, None))))))"

record CopyWorld =
  cw_load :: load_value
  cw_generate :: "(ResultCopyOperation list \<Rightarrow> copy_failure + string) option"
  cw_userAgent :: string
  cw_written :: bool
  cw_abortedBeforeWrite :: bool
  cw_abortedAfterWrite :: bool

definition prepare_copy :: "CopyWorld \<Rightarrow> ResultCopyFormat \<Rightarrow> CopyColumn list \<Rightarrow> bool list \<Rightarrow> copy_selection \<Rightarrow> copy_heap
    \<Rightarrow> copy_failure + (ClipboardData \<times> string list list option) option" where
  "prepare_copy w format columns primaryKeys selected tableHeap =
     (let (selection, heap) = snapshotResultCopySelection selected tableHeap;
          visibleFields = map col_field (filter (\<lambda>c. \<not> col_hide c) columns)
      in if concat selection = [] then Inr None
         else case (if format = FormatInValues then buildResultCopyOperations heap selection format else Inr []) of
             Inl e \<Rightarrow> Inl (operation_failure e)
           | Inr _ \<Rightarrow>
               (case completeResultCopyValues (cw_load w) selection
                    (map (\<lambda>row. getResultCopyFields row format visibleFields primaryKeys) selection) heap of
                  Inl AbortError \<Rightarrow> Inl CopyAborted
                | Inl e \<Rightarrow> Inl (ReadError e)
                | Inr (selection', heap', _) \<Rightarrow> copy_data (cw_generate w) format columns selection' heap'))"

text \<open>The result, the failure that is reported to the user, and the clipboards.\<close>

definition copyResultData :: "CopyWorld \<Rightarrow> ResultCopyFormat \<Rightarrow> CopyColumn list \<Rightarrow> bool list \<Rightarrow> copy_selection \<Rightarrow> copy_heap \<Rightarrow> Clipboards
    \<Rightarrow> bool \<times> copy_failure option \<times> Clipboards" where
  "copyResultData w format columns primaryKeys selected tableHeap cb =
     (case prepare_copy w format columns primaryKeys selected tableHeap of
        Inl e \<Rightarrow> (False, if e = CopyAborted then None else Some e, cb)
      | Inr None \<Rightarrow> (False, None, cb)
      | Inr (Some (data, gridRows)) \<Rightarrow>
          if cw_abortedBeforeWrite w then (False, None, cb)
          else
            let (written, cb') = copyToClipboardAsync (cw_userAgent w) (cw_written w) data cb in
            if cw_abortedAfterWrite w then (False, None, cb')
            else if \<not> written then (False, Some CopyFailed, cb')
            else (True, None, case gridRows of Some rows \<Rightarrow> setInternalResultGridClipboard rows cb' | None \<Rightarrow> cb'))"

section \<open>Pasting\<close>

definition normalizePastedCellValue :: "string \<Rightarrow> cell_value" where
  "normalizePastedCellValue cell = (if trim cell = [] then None else if cell = [CHR 0x27, CHR 0x27] then Some [] else Some cell)"

datatype ParsedPasteData = PasteCell cell_value | PasteGrid "cell_value list list"

definition getPasteSelectionSize :: "(int \<times> int) list list \<Rightarrow> nat" where
  "getPasteSelectionSize selection = foldl (\<lambda>count row. count + length row) 0 selection"

definition parsePasteData :: "string \<Rightarrow> nat \<Rightarrow> string list list option \<Rightarrow> ParsedPasteData" where
  "parsePasteData txt selectionSize internalClipboardGrid =
     (let grid = the_default [] internalClipboardGrid in
      if internalClipboardGrid \<noteq> None \<and> foldl (\<lambda>count row. count + length row) 0 grid > 1
      then PasteGrid (map (map normalizePastedCellValue) grid)
      else if selectionSize \<le> 1 then PasteCell (normalizePastedCellValue txt)
      else PasteGrid (map (\<lambda>row. map normalizePastedCellValue (split_on TAB row)) (split_line_breaks txt)))"

text \<open>The table that is pasted into: what the code asks of it, and its changes as the list of the cells that are written.\<close>

record PasteTable =
  pt_rowCount :: int
  pt_colCount :: int
  pt_columns :: "TableColumn list"
  pt_getHeaderField :: "int \<Rightarrow> int \<Rightarrow> string option"
  pt_rowId :: "int \<Rightarrow> int \<Rightarrow> string option"

record PasteOptions =
  po_isCreateRow :: "string option \<Rightarrow> bool"
  po_internalClipboardGrid :: "string list list option"
  po_readOnlyFields :: "string list"

type_synonym cell_write = "int \<times> int \<times> cell_value option"

definition isInsideTable :: "PasteTable \<Rightarrow> int \<Rightarrow> int \<Rightarrow> bool" where
  "isInsideTable table row col \<longleftrightarrow> row \<le> pt_rowCount table \<and> col \<le> pt_colCount table"

definition isReadOnlyPasteTarget :: "PasteTable \<Rightarrow> PasteOptions \<Rightarrow> int \<Rightarrow> int \<Rightarrow> bool" where
  "isReadOnlyPasteTarget table options row col =
     (case pt_getHeaderField table col row of Some field \<Rightarrow> field \<in> set (po_readOnlyFields options) | None \<Rightarrow> False)"

definition normalizeCreateRowPasteCell :: "PasteTable \<Rightarrow> PasteOptions \<Rightarrow> int \<Rightarrow> int \<Rightarrow> cell_value option \<Rightarrow> cell_value option" where
  "normalizeCreateRowPasteCell table options row col v =
     (if \<not> po_isCreateRow options (pt_rowId table col row) then v
      else
        let visibleColumns = filter (\<lambda>c. \<not> tc_hide c) (pt_columns table) in
        case (if 1 \<le> col \<and> nat (col - 1) < length visibleColumns then tc_header (visibleColumns ! nat (col - 1)) else None) of
          None \<Rightarrow> v
        | Some header \<Rightarrow> getClonedCreateCellValue header v)"

text \<open>The write of one value, when its target can be written.\<close>

definition paste_cell :: "PasteTable \<Rightarrow> PasteOptions \<Rightarrow> int \<Rightarrow> int \<Rightarrow> cell_value option \<Rightarrow> cell_write list" where
  "paste_cell table options row col v =
     (if \<not> isInsideTable table row col \<or> isReadOnlyPasteTarget table options row col then []
      else [(col, row, normalizeCreateRowPasteCell table options row col v)])"

definition paste_at :: "PasteTable \<Rightarrow> PasteOptions \<Rightarrow> int \<times> int \<Rightarrow> cell_value list list \<Rightarrow> cell_write list" where
  "paste_at table options anchor rows =
     concat (map (\<lambda>(rowOffset, sourceRow).
       concat (map (\<lambda>(colOffset, v). paste_cell table options (fst anchor + int rowOffset) (snd anchor + int colOffset) (Some v))
         (List.enumerate 0 sourceRow))) (List.enumerate 0 rows))"

text \<open>Filling a selection repeats the grid. An index into an empty row is no number, and the value there is \<open>undefined\<close>.\<close>

definition cell_repeated :: "cell_value list list \<Rightarrow> nat \<Rightarrow> nat \<Rightarrow> cell_value option" where
  "cell_repeated rows i j =
     (let row = rows ! (i mod length rows) in if row = [] then None else Some (row ! (j mod length row)))"

definition paste_over :: "PasteTable \<Rightarrow> PasteOptions \<Rightarrow> (int \<times> int) list list \<Rightarrow> cell_value list list \<Rightarrow> cell_write list" where
  "paste_over table options selection rows =
     concat (map (\<lambda>(i, selectedRow).
       concat (map (\<lambda>(j, cell).
           let (row, col) = normalizePasteTargetCell cell in paste_cell table options row col (cell_repeated rows i j))
         (List.enumerate 0 selectedRow))) (List.enumerate 0 selection))"

definition applyPasteData :: "PasteTable \<Rightarrow> (int \<times> int) list list \<Rightarrow> string \<Rightarrow> PasteOptions \<Rightarrow> cell_write list" where
  "applyPasteData table selection txt options =
     (if txt = [] \<or> selection = [] then []
      else
        let selectionSize = getPasteSelectionSize selection in
        case parsePasteData txt selectionSize (po_internalClipboardGrid options) of
          PasteCell v \<Rightarrow>
            (case hd selection of
               [] \<Rightarrow> []
             | firstCell # _ \<Rightarrow> (let (row, col) = normalizePasteTargetCell firstCell in paste_cell table options row col (Some v)))
        | PasteGrid rows \<Rightarrow>
            if selectionSize = 1
            then (case hd selection of [] \<Rightarrow> [] | firstCell # _ \<Rightarrow> paste_at table options (normalizePasteTargetCell firstCell) rows)
            else paste_over table options selection rows)"

definition onPasteData :: "Clipboards \<Rightarrow> PasteTable \<Rightarrow> (int \<times> int) list list \<Rightarrow> (string option \<Rightarrow> bool) \<Rightarrow> string list \<Rightarrow> cell_write list" where
  "onPasteData cb table selectedCells isCreate readOnlyFields =
     (if selectedCells = [] \<or> cb_system cb = [] then []
      else applyPasteData table selectedCells (cb_system cb)
        \<lparr>po_isCreateRow = isCreate, po_internalClipboardGrid = getInternalResultGridClipboard cb (cb_system cb),
         po_readOnlyFields = readOnlyFields\<rparr>)"

text \<open>The entries of the context menu.\<close>

definition menu_paste_values :: "string \<Rightarrow> string list list" where
  "menu_paste_values pastedData =
     map (\<lambda>rowCells. let cells = split_on TAB rowCells in butlast cells @ [trim (last cells)]) (split_on LF pastedData)"

definition handlePaste :: "string \<Rightarrow> PasteTable \<Rightarrow> bool \<Rightarrow> ((int \<times> int) \<times> (int \<times> int)) list \<Rightarrow> (string option \<Rightarrow> bool) option \<Rightarrow> string list
    \<Rightarrow> (int \<times> int \<times> cell_value) list" where
  "handlePaste pastedData table editing ranges isCreate readOnlyFields =
     (if editing then []
      else case ranges of
        [] \<Rightarrow> []
      | ((startCol, startRow), (endCol, endRow)) # _ \<Rightarrow>
          let range = normalizePasteTargetRange startCol startRow endCol endRow;
              vs = normalizeCreateRowPasteValues (map (map Some) (menu_paste_values pastedData)) (pr_col range) (pr_row range)
                (filter (\<lambda>c. \<not> tc_hide c) (pt_columns table)) (\<lambda>targetRow targetCol. pt_rowId table targetCol targetRow) isCreate
          in concat (map (\<lambda>(rowOffset, rowValues).
               concat (map (\<lambda>(colOffset, v).
                   let targetCol = pr_col range + int colOffset; targetRow = pr_row range + int rowOffset;
                       field = (case pt_getHeaderField table targetCol targetRow of Some f \<Rightarrow> f | None \<Rightarrow> ''undefined'')
                   in if targetCol > pt_colCount table \<or> targetRow > pt_rowCount table \<or> field \<in> set readOnlyFields then []
                      else [(targetCol, targetRow, v)])
                 (List.enumerate 0 rowValues))) (List.enumerate 0 vs)))"

definition handleSetNull :: "(int \<Rightarrow> int \<Rightarrow> jsval) \<Rightarrow> (int \<times> int) list list \<Rightarrow> string list \<Rightarrow> (int \<times> int) list" where
  "handleSetNull getHeaderField cells readOnlyFields =
     concat (map (List.map_filter (\<lambda>(row, col).
       let field = getResultFieldAtTableColumn getHeaderField col row in
       if row = 0 \<or> (truthy_str field \<and> the field \<in> set readOnlyFields) then None else Some (col, row))) cells)"

end
