(* ===== verification/Copy_Paste.thy ===== *)
theory Copy_Paste
  imports Result_Clipboard
begin

text \<open>
  What is copied from a result can be pasted again: the rows of a rectangular selection, the internal grid that survives the line breaks of the
  platform's clipboard, and the values that are written.
\<close>

section \<open>Line breaks of the clipboard\<close>






section \<open>The rows of a rectangle\<close>









section \<open>Completing keeps the shape\<close>

lemma refresh_cell_position [simp]: "cc_row (refresh_cell heap cell) = cc_row cell" "cc_col (refresh_cell heap cell) = cc_col cell"
  by (simp_all add: refresh_cell_def Let_def split: option.splits)


section \<open>Copy and paste\<close>















section \<open>Completing large values\<close>

lemma meta_index_string_of_nat [simp]: "meta_index (string_of_nat n) = Some n"
  using js_Number_string_of_int[of "int n"] by (simp add: meta_index_def string_of_int_def)

lemma complete_meta_not_partial [simp]: "\<not> is_partial (complete_meta full meta)"
  by (simp add: is_partial_def complete_meta_def)

lemma complete_record_at:
  assumes "meta_at record (string_of_nat k) = Some meta"
  shows "meta_at (complete_record (string_of_nat k) full record) (string_of_nat n)
      = (if n = k then Some (complete_meta full meta) else meta_at record (string_of_nat n))"
    "map_of (cr_fields (complete_record (string_of_nat k) full record)) (string_of_nat n)
      = (if n = k then Some (Str (fst full)) else map_of (cr_fields record) (string_of_nat n))"
  using assms by (auto simp: meta_at_def complete_record_def update_conv split: option.splits if_splits)

text \<open>How a record may have changed: some fields hold the whole value of their large cell, all others are as they were.\<close>

definition completed_at :: "load_value \<Rightarrow> ResultCopyRecord \<Rightarrow> ResultCopyRecord \<Rightarrow> string \<Rightarrow> bool" where
  "completed_at load before after field \<longleftrightarrow>
     (\<exists>meta largeValueId valueType full. meta_at before field = Some meta \<and> is_partial meta \<and> cm_largeValueId meta = Some largeValueId
        \<and> load largeValueId valueType = Inr full \<and> meta_at after field = Some (complete_meta full meta)
        \<and> map_of (cr_fields after) field = Some (Str (fst full)))"

definition same_at :: "ResultCopyRecord \<Rightarrow> ResultCopyRecord \<Rightarrow> string \<Rightarrow> bool" where
  "same_at before after field \<longleftrightarrow> meta_at after field = meta_at before field \<and> map_of (cr_fields after) field = map_of (cr_fields before) field"

definition evolved :: "load_value \<Rightarrow> copy_heap \<Rightarrow> copy_heap \<Rightarrow> bool" where
  "evolved load heap heap' \<longleftrightarrow> dom heap' = dom heap
     \<and> (\<forall>ref before after n. heap ref = Some before \<longrightarrow> heap' ref = Some after
          \<longrightarrow> same_at before after (string_of_nat n) \<or> completed_at load before after (string_of_nat n))"

definition progress_inv :: "load_value \<Rightarrow> copy_heap \<Rightarrow> CopyProgress \<Rightarrow> bool" where
  "progress_inv load heap p \<longleftrightarrow> distinct (cp_loads p) \<and> set (cp_loads p) = fst ` set (cp_values p)
     \<and> (\<forall>largeValueId full. map_of (cp_values p) largeValueId = Some full \<longrightarrow> (\<exists>valueType. load largeValueId valueType = Inr full))
     \<and> evolved load heap (cp_heap p)"

definition settled :: "nat \<Rightarrow> string \<Rightarrow> CopyProgress \<Rightarrow> bool" where
  "settled ref field p \<longleftrightarrow>
     (\<forall>record meta. cp_heap p ref = Some record \<longrightarrow> meta_at record field = Some meta \<longrightarrow> \<not> is_partial meta)"

text \<open>Either the field was no large one, or its whole value is at hand and stored.\<close>

lemma complete_field_cases:
  assumes "complete_field load ref field p = Inr p'"
  obtains (settled) "p' = p" "settled ref field p"
  | (stored) rcd meta largeValueId full where "cp_heap p ref = Some rcd" "meta_at rcd field = Some meta" "is_partial meta"
      "cm_largeValueId meta = Some largeValueId" "cp_heap p' = (cp_heap p)(ref \<mapsto> complete_record field full rcd)"
      "cp_values p' = cp_values p \<and> cp_loads p' = cp_loads p \<and> map_of (cp_values p) largeValueId = Some full
       \<or> map_of (cp_values p) largeValueId = None \<and> load largeValueId (cm_valueType meta) = Inr full
         \<and> cp_values p' = (largeValueId, full) # cp_values p \<and> cp_loads p' = cp_loads p @ [largeValueId]"
proof (cases "cp_heap p ref")
  case None
  then show ?thesis using assms settled by (simp add: complete_field_def settled_def)
next
  case rec: (Some rcd)
  show ?thesis
  proof (cases "meta_at rcd field")
    case None
    then show ?thesis using assms rec settled by (simp add: complete_field_def settled_def)
  next
    case (Some meta)
    then show ?thesis using assms rec settled stored[OF rec Some]
      by (cases "is_partial meta") (fastforce simp: complete_field_def settled_def split: option.splits if_splits sum.splits)+
  qed
qed

lemma complete_field_inv:
  assumes "complete_field load ref (string_of_nat k) p = Inr p'" "progress_inv load heap p"
  shows "progress_inv load heap p' \<and> settled ref (string_of_nat k) p' \<and> (settled ref' (string_of_nat n) p \<longrightarrow> settled ref' (string_of_nat n) p')"
  using assms(1)
proof (cases rule: complete_field_cases)
  case (stored rcd meta largeValueId full)
  note at = complete_record_at[OF stored(2)]
  have full: "\<exists>valueType. load largeValueId valueType = Inr full" using stored(6) assms(2) unfolding progress_inv_def by blast
  have known: "distinct (cp_loads p)" "set (cp_loads p) = fst ` set (cp_values p)"
    "\<forall>i f. map_of (cp_values p) i = Some f \<longrightarrow> (\<exists>valueType. load i valueType = Inr f)"
    using assms(2) unfolding progress_inv_def by blast+
  have "distinct (cp_loads p') \<and> set (cp_loads p') = fst ` set (cp_values p')" using stored(6) known by (elim disjE) (simp_all add: map_of_eq_None_iff)
  moreover have "\<forall>i f. map_of (cp_values p') i = Some f \<longrightarrow> (\<exists>valueType. load i valueType = Inr f)"
    using stored(6) known(3) full by (elim disjE) (simp, simp split: if_splits del: split_paired_All)
  ultimately have vals: "distinct (cp_loads p')" "set (cp_loads p') = fst ` set (cp_values p')"
    "\<forall>i f. map_of (cp_values p') i = Some f \<longrightarrow> (\<exists>valueType. load i valueType = Inr f)" by blast+
  have evolved: "evolved load heap (cp_heap p)" using assms(2) by (simp add: progress_inv_def)
  obtain before where before: "heap ref = Some before" using evolved stored(1) unfolding evolved_def by (metis domD domI)
  have old: "same_at before rcd (string_of_nat n) \<or> completed_at load before rcd (string_of_nat n)" for n
    using evolved before stored(1) by (auto simp: evolved_def)
  have "same_at before rcd (string_of_nat k)" using old[of k] stored(2,3) by (auto simp: completed_at_def)
  then have here: "completed_at load before (complete_record (string_of_nat k) full rcd) (string_of_nat k)"
    using stored(2,3,4) full at[of full k] unfolding completed_at_def same_at_def by (metis (full_types))
  have "same_at before (complete_record (string_of_nat k) full rcd) (string_of_nat n)
      \<or> completed_at load before (complete_record (string_of_nat k) full rcd) (string_of_nat n)" for n
    using old[of n] here at by (cases "n = k") (simp_all add: same_at_def completed_at_def)
  then have "evolved load heap (cp_heap p')"
    using evolved before stored(1) unfolding evolved_def stored(5) by (auto simp: dom_def)
  moreover have "settled ref' (string_of_nat n) p \<longrightarrow> settled ref' (string_of_nat n) p'" for ref' n
    using stored(1,2) at by (auto simp: settled_def stored(5))
  moreover have "settled ref (string_of_nat k) p'" using at by (simp add: settled_def stored(5))
  ultimately show ?thesis using vals by (simp add: progress_inv_def)
qed (use assms(2) in simp)

lemma complete_fields_inv:
  assumes "complete_fields load ref (map string_of_nat ks) p = Inr p'" "progress_inv load heap p"
  shows "progress_inv load heap p' \<and> (\<forall>k\<in>set ks. settled ref (string_of_nat k) p')
    \<and> (settled ref' (string_of_nat n) p \<longrightarrow> settled ref' (string_of_nat n) p')"
  using assms
proof (induction ks arbitrary: p ref' n)
  case (Cons k ks)
  obtain q where q: "complete_field load ref (string_of_nat k) p = Inr q" "complete_fields load ref (map string_of_nat ks) q = Inr p'"
    using Cons.prems(1) by (auto split: sum.splits)
  have step: "progress_inv load heap q" "settled ref (string_of_nat k) q"
    "settled ref' (string_of_nat n) p \<longrightarrow> settled ref' (string_of_nat n) q" using complete_field_inv[OF q(1) Cons.prems(2)] by blast+
  show ?case using Cons.IH[OF q(2) step(1), of ref k] Cons.IH[OF q(2) step(1), of ref' n] step(2,3) by auto
qed simp

lemma complete_rows_inv:
  assumes "complete_rows load (zip selection (map (map string_of_nat) kss)) p = Inr p'" "progress_inv load heap p" "length selection = length kss"
  shows "progress_inv load heap p'
    \<and> (\<forall>i<length selection. \<forall>ref. row_record (selection ! i) = Some ref \<longrightarrow> (\<forall>k\<in>set (kss ! i). settled ref (string_of_nat k) p'))
    \<and> (settled ref' (string_of_nat n) p \<longrightarrow> settled ref' (string_of_nat n) p')"
  using assms
proof (induction selection arbitrary: kss p ref' n)
  case (Cons row selection)
  then obtain ks kss' where kss: "kss = ks # kss'" by (cases kss) auto
  show ?case
  proof (cases "row_record row")
    case None
    then have rest: "complete_rows load (zip selection (map (map string_of_nat) kss')) p = Inr p'" using Cons.prems(1) kss by simp
    have "length selection = length kss'" using Cons.prems(3) kss by simp
    then show ?thesis using Cons.IH[OF rest Cons.prems(2), of ref' n] None kss by (auto simp: less_Suc_eq_0_disj)
  next
    case (Some ref)
    obtain q where q: "complete_fields load ref (map string_of_nat ks) p = Inr q"
      "complete_rows load (zip selection (map (map string_of_nat) kss')) q = Inr p'"
      using Cons.prems(1) kss Some by (auto split: sum.splits)
    have len: "length selection = length kss'" using Cons.prems(3) kss by simp
    have step: "progress_inv load heap q" "\<forall>k\<in>set ks. settled ref (string_of_nat k) q"
      "settled ref' (string_of_nat n) p \<longrightarrow> settled ref' (string_of_nat n) q" using complete_fields_inv[OF q(1) Cons.prems(2)] by blast+
    note rest = Cons.IH[OF q(2) step(1) len]
    have "\<forall>k\<in>set ks. settled ref (string_of_nat k) p'" using step(2) rest by blast
    then show ?thesis using rest[of ref' n] step(3) Some kss by (auto simp: less_Suc_eq_0_disj)
  qed
qed (simp add: progress_inv_def)

text \<open>
  when a copy goes on with completed values, every field it needs of a row holds its whole value, read under the id of its cell, or is
  unchanged when the cell was not a large one; and no large value is requested twice, however many cells and rows share it.
\<close>

theorem copied_fields_complete:
  assumes "completeResultCopyValues load selection (map (map string_of_nat) kss) heap = Inr (selection', heap', loads)"
    "length selection = length kss" "i < length selection" "row_record (selection ! i) = Some ref" "heap ref = Some before" "k \<in> set (kss ! i)"
  shows "distinct loads \<and> (\<exists>after. heap' ref = Some after
    \<and> (if \<exists>meta. meta_at before (string_of_nat k) = Some meta \<and> is_partial meta
       then completed_at load before after (string_of_nat k) else same_at before after (string_of_nat k)))"
proof -
  obtain p where p: "complete_rows load (zip selection (map (map string_of_nat) kss)) \<lparr>cp_heap = heap, cp_values = [], cp_loads = []\<rparr> = Inr p"
    "heap' = cp_heap p" "loads = cp_loads p" using assms(1) by (auto simp: completeResultCopyValues_def split: sum.splits)
  have start: "progress_inv load heap \<lparr>cp_heap = heap, cp_values = [], cp_loads = []\<rparr>"
    by (auto simp: progress_inv_def evolved_def same_at_def)
  have inv: "progress_inv load heap p" "settled ref (string_of_nat k) p"
    using complete_rows_inv[OF p(1) start assms(2), of undefined undefined] assms(3-6) by blast+
  obtain after where after: "cp_heap p ref = Some after"
    using inv(1) assms(5) unfolding progress_inv_def evolved_def by (metis domD domI)
  have evolved: "evolved load heap (cp_heap p)" using inv(1) by (simp add: progress_inv_def)
  have "same_at before after (string_of_nat k) \<or> completed_at load before after (string_of_nat k)"
    using evolved[unfolded evolved_def] assms(5) after by blast
  moreover have "\<not> same_at before after (string_of_nat k)" if "meta_at before (string_of_nat k) = Some meta" "is_partial meta" for meta
    using that inv(2) after by (auto simp: settled_def same_at_def)
  moreover have "\<not> completed_at load before after (string_of_nat k)"
    if "\<not> (\<exists>meta. meta_at before (string_of_nat k) = Some meta \<and> is_partial meta)"
    using that by (auto simp: completed_at_def)
  ultimately show ?thesis using after inv(1) p(2,3) by (auto simp: progress_inv_def)
qed

text \<open>Two cells of a row show parts of the same large value: it is read once, and both get all of it.\<close>

theorem copied_fields_complete_witness:
  "let meta = \<lparr>cm_value = Some ''Ot'', cm_largeValue = True, cm_largeValueId = Some ''v1'', cm_valueType = None, cm_loadedBytes = None,
         cm_loadedChars = None, cm_truncated = True, cm_unsupportedReason = None\<rparr>;
       before = \<lparr>cr_rowNumber = Some ''1'', cr_fields = [(''0'', Str ''Ot''), (''1'', Str ''Ot'')], cr_meta = Some [meta, meta]\<rparr>;
       cell = \<lparr>cc_row = 1, cc_col = 1, cc_field = Some ''0'', cc_value = Null, cc_dataValue = Null, cc_originData = Some 0\<rparr>
   in \<exists>selection' heap' after. completeResultCopyValues (\<lambda>_ _. Inr (''Otter'', 5)) [[cell]] (map (map string_of_nat) [[0, 1]]) [0 \<mapsto> before]
        = Inr (selection', heap', [''v1'']) \<and> heap' 0 = Some after \<and> map_of (cr_fields after) ''1'' = Some (Str ''Otter'')"
proof -
  let ?meta = "\<lparr>cm_value = Some ''Ot'', cm_largeValue = True, cm_largeValueId = Some ''v1'', cm_valueType = None, cm_loadedBytes = None,
         cm_loadedChars = None, cm_truncated = True, cm_unsupportedReason = None\<rparr>"
  let ?before = "\<lparr>cr_rowNumber = Some ''1'', cr_fields = [(''0'', Str ''Ot''), (''1'', Str ''Ot'')], cr_meta = Some [?meta, ?meta]\<rparr>"
  let ?cell = "\<lparr>cc_row = 1, cc_col = 1, cc_field = Some ''0'', cc_value = Null, cc_dataValue = Null, cc_originData = Some 0\<rparr>"
  let ?load = "\<lambda>_ _. Inr (''Otter'', 5) :: copy_error + full_value"
  have names: "string_of_nat 0 = ''0''" "string_of_nat (Suc 0) = ''1''" by code_simp+
  have at: "meta_index ''0'' = Some 0" "meta_index ''1'' = Some (Suc 0)"
    using meta_index_string_of_nat[of 0] meta_index_string_of_nat[of "Suc 0"] by (simp_all add: names del: meta_index_string_of_nat)
  obtain selection' heap' where run: "completeResultCopyValues ?load [[?cell]] (map (map string_of_nat) [[0, 1]]) [0 \<mapsto> ?before]
      = Inr (selection', heap', [''v1''])"
    by (simp add: completeResultCopyValues_def row_record_def complete_field_def meta_at_def at names is_partial_def complete_record_def complete_meta_def)
  have "row_record ([[?cell]] ! 0) = Some 0" by (simp add: row_record_def)
  moreover have "meta_at ?before (string_of_nat 1) = Some ?meta" by (simp add: meta_at_def at names)
  ultimately obtain after where "heap' 0 = Some after" "completed_at ?load ?before after (string_of_nat 1)"
    using copied_fields_complete[OF run, of 0 0 ?before 1] by (auto simp: is_partial_def)
  moreover have "map_of (cr_fields after) ''1'' = Some (Str ''Otter'')" using calculation(2) by (auto simp: completed_at_def names)
  ultimately show ?thesis using run by (auto simp: Let_def)
qed

end
