(* ===== verification/Sql_In_Tokens.thy ===== *)
theory Sql_In_Tokens
  imports Js_Prelude
begin

text \<open>
  Pasting a copied column as the values of an \<open>IN\<close> list: \<open>utils/sqlInClipboard.ts\<close>. The loops over an index are recursions over the rest of
  the text.
\<close>

abbreviation QUOTE :: char where "QUOTE \<equiv> CHR 0x22"

abbreviation COMMA :: char where "COMMA \<equiv> CHR 0x2C"

abbreviation TABULATOR :: char where "TABULATOR \<equiv> CHR 0x09"

text \<open>Looking back from a quote: the text before it, backwards.\<close>

fun isAtQuotedValueStart :: "string \<Rightarrow> bool" where
  "isAtQuotedValueStart [] = True"
| "isAtQuotedValueStart (c # before) =
     (if c = COMMA \<or> c = TABULATOR \<or> c = LF then True else if c \<noteq> CHR '' '' then False else isAtQuotedValueStart before)"

definition isAtQuotedTokenStart :: "string \<Rightarrow> bool" where
  "isAtQuotedTokenStart current \<longleftrightarrow> length (trim current) = 0"

definition isTokenSeparator :: "char \<Rightarrow> char \<Rightarrow> bool" where
  "isTokenSeparator c delimiter \<longleftrightarrow> (if c = LF then True else c = delimiter)"

text \<open>Whether there are commas and tabulators outside of quotes.\<close>

fun detect_from :: "string \<Rightarrow> string \<Rightarrow> bool \<Rightarrow> bool \<Rightarrow> bool \<Rightarrow> bool \<times> bool" where
  "detect_from before [] inQuotes hasComma hasTab = (hasComma, hasTab)"
| "detect_from before (c # cs) inQuotes hasComma hasTab =
     (if c = QUOTE \<and> (inQuotes \<or> isAtQuotedValueStart before)
      then (case cs of
          d # ds \<Rightarrow>
            if inQuotes \<and> d = QUOTE then detect_from (d # c # before) ds inQuotes hasComma hasTab
            else detect_from (c # before) (d # ds) (\<not> inQuotes) hasComma hasTab
        | [] \<Rightarrow> detect_from (c # before) [] (\<not> inQuotes) hasComma hasTab)
      else if inQuotes then detect_from (c # before) cs inQuotes hasComma hasTab
      else if c = TABULATOR then detect_from (c # before) cs inQuotes hasComma True
      else detect_from (c # before) cs inQuotes (hasComma \<or> c = COMMA) hasTab)"

definition detectDelimiter :: "string \<Rightarrow> char" where
  "detectDelimiter s = (let (hasComma, hasTab) = detect_from [] s False False False in if hasTab then TABULATOR else if hasComma then COMMA else LF)"

fun parse_from :: "char \<Rightarrow> string \<Rightarrow> string \<Rightarrow> bool \<Rightarrow> string list" where
  "parse_from delimiter [] current inQuotes = [current]"
| "parse_from delimiter (c # cs) current inQuotes =
     (if c = QUOTE \<and> (inQuotes \<or> isAtQuotedTokenStart current)
      then (case cs of
          d # ds \<Rightarrow>
            if inQuotes \<and> d = QUOTE then parse_from delimiter ds (current @ [QUOTE]) inQuotes
            else parse_from delimiter (d # ds) current (\<not> inQuotes)
        | [] \<Rightarrow> parse_from delimiter [] current (\<not> inQuotes))
      else if \<not> inQuotes \<and> isTokenSeparator c delimiter then current # parse_from delimiter cs [] inQuotes
      else parse_from delimiter cs (current @ [c]) inQuotes)"

definition parseDelimitedText :: "string \<Rightarrow> char \<Rightarrow> string list" where
  "parseDelimitedText s delimiter = parse_from delimiter s [] False"

definition splitClipboardText :: "string \<Rightarrow> string list" where
  "splitClipboardText s = parseDelimitedText s (detectDelimiter s)"

definition parseClipboardTextToSqlInTokens :: "string \<Rightarrow> string list" where
  "parseClipboardTextToSqlInTokens s =
     (if s = [] then []
      else
        let normalized = trim (map (\<lambda>c. if c = CR then LF else c) (crlf_to_lf s)) in
        if normalized = [] then [] else filter (\<lambda>token. length token > 0) (map trim (splitClipboardText normalized)))"

section \<open>Quoted values are read back\<close>

definition escape_quotes :: "string \<Rightarrow> string" where
  "escape_quotes s = concat (map (\<lambda>c. if c = QUOTE then [QUOTE, QUOTE] else [c]) s)"

definition quote_token :: "string \<Rightarrow> string" where
  "quote_token s = QUOTE # escape_quotes s @ [QUOTE]"

lemma escape_quotes_simps [simp]: "escape_quotes [] = []" "escape_quotes (c # s) = (if c = QUOTE then [QUOTE, QUOTE] else [c]) @ escape_quotes s"
  by (simp_all add: escape_quotes_def)

declare parse_from.simps(2) [simp del] detect_from.simps(2) [simp del]

lemma parse_steps:
  "parse_from delimiter (QUOTE # QUOTE # cs) current True = parse_from delimiter cs (current @ [QUOTE]) True"
  "cs = [] \<or> hd cs \<noteq> QUOTE \<Longrightarrow> parse_from delimiter (QUOTE # cs) current True = parse_from delimiter cs current False"
  "c \<noteq> QUOTE \<Longrightarrow> parse_from delimiter (c # cs) current True = parse_from delimiter cs (current @ [c]) True"
  "parse_from delimiter (QUOTE # cs) [] False = parse_from delimiter cs [] True"
  "c \<noteq> QUOTE \<Longrightarrow> c = LF \<or> c = delimiter \<Longrightarrow> parse_from delimiter (c # cs) current False = current # parse_from delimiter cs [] False"
  by (subst parse_from.simps(2), force simp: isAtQuotedTokenStart_def isTokenSeparator_def split: list.split)+

lemma detect_steps:
  "detect_from before (QUOTE # QUOTE # cs) True hasComma hasTab = detect_from (QUOTE # QUOTE # before) cs True hasComma hasTab"
  "cs = [] \<or> hd cs \<noteq> QUOTE \<Longrightarrow>
    detect_from before (QUOTE # cs) True hasComma hasTab = detect_from (QUOTE # before) cs False hasComma hasTab"
  "c \<noteq> QUOTE \<Longrightarrow> detect_from before (c # cs) True hasComma hasTab = detect_from (c # before) cs True hasComma hasTab"
  "isAtQuotedValueStart before \<Longrightarrow>
    detect_from before (QUOTE # cs) False hasComma hasTab = detect_from (QUOTE # before) cs True hasComma hasTab"
  "c \<noteq> QUOTE \<Longrightarrow> detect_from before (c # cs) False hasComma hasTab
    = detect_from (c # before) cs False (hasComma \<or> c = COMMA) (hasTab \<or> c = TABULATOR)"
  by (subst detect_from.simps(2), force split: list.split)+

lemma parse_quoted:
  assumes "rest = [] \<or> hd rest \<noteq> QUOTE"
  shows "parse_from delimiter (escape_quotes t @ QUOTE # rest) current True = parse_from delimiter rest (current @ t) False"
  using assms by (induction t arbitrary: current) (simp_all add: parse_steps)

lemma detect_quoted:
  assumes "rest = [] \<or> hd rest \<noteq> QUOTE"
  shows "\<exists>before'. detect_from before (escape_quotes t @ QUOTE # rest) True hasComma hasTab = detect_from before' rest False hasComma hasTab"
  using assms by (induction t arbitrary: before) (auto simp: detect_steps)

lemma parse_quote_token:
  assumes "rest = [] \<or> hd rest \<noteq> QUOTE"
  shows "parse_from delimiter (quote_token t @ rest) [] False = parse_from delimiter rest t False"
  using parse_quoted[OF assms] by (simp add: quote_token_def parse_steps)

lemma detect_quote_token:
  assumes "rest = [] \<or> hd rest \<noteq> QUOTE" "isAtQuotedValueStart before"
  shows "\<exists>before'. detect_from before (quote_token t @ rest) False hasComma hasTab = detect_from before' rest False hasComma hasTab"
  using detect_quoted[OF assms(1)] assms(2) by (simp add: quote_token_def detect_steps)

lemma join_cons: "ts \<noteq> [] \<Longrightarrow> join s (t # ts) = t @ s @ join s ts"
  by (cases ts) simp_all

lemma parse_joined:
  assumes "d = delimiter \<or> d = LF" "d \<noteq> QUOTE" "ts \<noteq> []"
  shows "parse_from delimiter (join [d] (map quote_token ts)) [] False = ts"
  using assms(3)
proof (induction ts)
  case (Cons t ts)
  show ?case
  proof (cases "ts = []")
    case True
    then show ?thesis using parse_quote_token[of "[]" delimiter t] by simp
  next
    case False
    have "parse_from delimiter (quote_token t @ d # join [d] (map quote_token ts)) [] False
        = parse_from delimiter (d # join [d] (map quote_token ts)) t False"
      using assms(2) by (intro parse_quote_token) simp
    also have "\<dots> = t # parse_from delimiter (join [d] (map quote_token ts)) [] False" using assms(1,2) by (auto simp: parse_steps)
    finally show ?thesis using Cons.IH False by (simp add: join_cons)
  qed
qed simp

lemma detect_joined:
  assumes "d = COMMA \<or> d = TABULATOR \<or> d = LF" "ts \<noteq> []" "isAtQuotedValueStart before"
  shows "detect_from before (join [d] (map quote_token ts)) False hasComma hasTab
    = (hasComma \<or> d = COMMA \<and> 1 < length ts, hasTab \<or> d = TABULATOR \<and> 1 < length ts)"
  using assms(2,3)
proof (induction ts arbitrary: before hasComma hasTab)
  case (Cons t ts)
  show ?case
  proof (cases "ts = []")
    case True
    then show ?thesis using detect_quote_token[of "[]" before t hasComma hasTab] Cons.prems by auto
  next
    case False
    have q: "d \<noteq> QUOTE" using assms(1) by auto
    obtain before' where "detect_from before (quote_token t @ d # join [d] (map quote_token ts)) False hasComma hasTab
        = detect_from before' (d # join [d] (map quote_token ts)) False hasComma hasTab"
      using detect_quote_token[of "d # join [d] (map quote_token ts)" before t hasComma hasTab] Cons.prems q by auto
    also have "\<dots> = detect_from (d # before') (join [d] (map quote_token ts)) False (hasComma \<or> d = COMMA) (hasTab \<or> d = TABULATOR)"
      by (simp add: detect_steps(5)[OF q])
    also have "\<dots> = (hasComma \<or> d = COMMA, hasTab \<or> d = TABULATOR)"
      using Cons.IH[of "d # before'"] False assms(1) by (auto simp: disj_assoc)
    finally show ?thesis using False by (auto simp: join_cons)
  qed
qed simp

lemma split_joined:
  assumes "d = COMMA \<or> d = TABULATOR \<or> d = LF" "ts \<noteq> []"
  shows "splitClipboardText (join [d] (map quote_token ts)) = ts"
proof (cases "1 < length ts")
  case True
  then have "detectDelimiter (join [d] (map quote_token ts)) = d"
    using detect_joined[OF assms, of "[]"] assms(1) by (auto simp: detectDelimiter_def)
  then show ?thesis using parse_joined[of d d ts] assms by (auto simp: splitClipboardText_def parseDelimitedText_def)
next
  case False
  then obtain t where "ts = [t]" using assms(2) by (cases ts) auto
  then show ?thesis using parse_quote_token[of "[]" _ t] by (simp add: splitClipboardText_def parseDelimitedText_def)
qed

lemma trim_id: "s \<noteq> [] \<Longrightarrow> \<not> is_space (hd s) \<Longrightarrow> \<not> is_space (last s) \<Longrightarrow> trim s = s"
  by (metis dropWhile_eq_self_iff hd_rev rev_rev_ident trim_def trim_end_def trim_start_def)

lemma joined_ends:
  assumes "ts \<noteq> []"
  shows "join [d] (map quote_token ts) \<noteq> [] \<and> hd (join [d] (map quote_token ts)) = QUOTE \<and> last (join [d] (map quote_token ts)) = QUOTE"
  using assms
proof (induction ts)
  case (Cons t ts)
  then show ?case by (cases "ts = []") (auto simp: join_cons quote_token_def)
qed simp

lemma no_cr_normalized: "CR \<notin> set s \<Longrightarrow> map (\<lambda>c. if c = CR then LF else c) (crlf_to_lf s) = s"
  by (induction s rule: crlf_to_lf.induct) auto

lemma joined_no_cr: "d \<noteq> CR \<Longrightarrow> \<forall>t\<in>set ts. CR \<notin> set t \<Longrightarrow> CR \<notin> set (join [d] (map quote_token ts))"
proof (induction ts)
  case (Cons t ts)
  then show ?case by (cases "ts = []") (auto simp: join_cons quote_token_def escape_quotes_def)
qed simp

text \<open>
  values that a spreadsheet or an export quotes are read back as they are, with commas, tabulators, line breaks and quotes inside, whether
  commas, tabulators or line breaks separate them: the delimiter is found and nothing inside quotes is taken for one.
\<close>

theorem quoted_tokens_read_back:
  assumes "list_all (\<lambda>t. t \<noteq> [] \<and> trim t = t \<and> CR \<notin> set t) tokens" "delimiter \<in> {COMMA, TABULATOR, LF}"
  shows "parseClipboardTextToSqlInTokens (join [delimiter] (map quote_token tokens)) = tokens"
proof (cases "tokens = []")
  case False
  let ?s = "join [delimiter] (map quote_token tokens)"
  have "CR \<notin> set ?s" using assms by (intro joined_no_cr) (auto simp: list_all_iff)
  then have normalized: "trim (map (\<lambda>c. if c = CR then LF else c) (crlf_to_lf ?s)) = ?s"
  proof -
    have "\<not> is_space QUOTE" by code_simp
    then show ?thesis using no_cr_normalized[OF \<open>CR \<notin> set ?s\<close>] joined_ends[OF False, of delimiter] trim_id[of ?s] by simp
  qed
  have "splitClipboardText ?s = tokens" using split_joined[of delimiter tokens] assms(2) False by auto
  moreover have "map trim tokens = tokens" "filter (\<lambda>token. length token > 0) tokens = tokens"
    using assms(1) by (auto simp: list_all_iff intro: map_idI filter_True)
  ultimately show ?thesis using normalized joined_ends[OF False, of delimiter] by (simp add: parseClipboardTextToSqlInTokens_def Let_def)
qed (simp add: parseClipboardTextToSqlInTokens_def)

theorem quoted_tokens_read_back_witness:
  "parseClipboardTextToSqlInTokens [QUOTE, CHR ''a'', COMMA, QUOTE, QUOTE, CHR ''b'', QUOTE, TABULATOR, QUOTE, CHR ''c'', QUOTE]
    = [[CHR ''a'', COMMA, QUOTE, CHR ''b''], ''c'']"
  using quoted_tokens_read_back[of "[[CHR ''a'', COMMA, QUOTE, CHR ''b''], ''c'']" TABULATOR]
  by (simp add: quote_token_def trim_def trim_start_def trim_end_def is_space_def)

end
