(* ===== verification/Backend_Messages.thy ===== *)
theory Backend_Messages
  imports Observer
begin

text \<open>
  The messages of the backend: the checks of untyped payloads, the cursor of an event stream and the errors of
  \<open>apps/frontend/src/backend/client.ts\<close>. A payload is a \<open>jsval\<close>. An error that is thrown carries an error payload and, over HTTP, a status.
\<close>

section \<open>Types of values\<close>

fun is_string :: "jsval \<Rightarrow> bool" where
  "is_string (Str s) = True"
| "is_string _ = False"

fun is_boolean :: "jsval \<Rightarrow> bool" where
  "is_boolean (Bool b) = True"
| "is_boolean _ = False"

fun is_number :: "jsval \<Rightarrow> bool" where
  "is_number (Num n) = True"
| "is_number NaN = True"
| "is_number _ = False"

fun isRecord :: "jsval \<Rightarrow> bool" where
  "isRecord (Obj kvs) = True"
| "isRecord _ = False"

text \<open>\<open>Array.isArray(v) && v.every(p)\<close>\<close>

fun array_of :: "(jsval \<Rightarrow> bool) \<Rightarrow> jsval \<Rightarrow> bool" where
  "array_of p (Arr vs) = list_all p vs"
| "array_of p _ = False"

text \<open>\<open>['a', ...].includes(v)\<close>\<close>

fun one_of :: "string list \<Rightarrow> jsval \<Rightarrow> bool" where
  "one_of names (Str s) = List.member names s"
| "one_of names _ = False"

definition isNullableString :: "jsval \<Rightarrow> bool" where
  "isNullableString v \<longleftrightarrow> v = Undefined \<or> v = Null \<or> is_string v"

definition isNullableNumber :: "jsval \<Rightarrow> bool" where
  "isNullableNumber v \<longleftrightarrow> v = Undefined \<or> v = Null \<or> is_number v"

fun isDecimalInteger :: "jsval \<Rightarrow> bool" where
  "isDecimalInteger (Str s) = canonical_number s"
| "isDecimalInteger _ = False"

definition isOptionalNullableString :: "jsval \<Rightarrow> bool" where
  "isOptionalNullableString v \<longleftrightarrow> v = Undefined \<or> v = Null \<or> is_string v"

fun isI32 :: "jsval \<Rightarrow> bool" where
  "isI32 (Num n) \<longleftrightarrow> - 2147483648 \<le> n \<and> n \<le> 2147483647"
| "isI32 _ = False"

fun isU32 :: "jsval \<Rightarrow> bool" where
  "isU32 (Num n) \<longleftrightarrow> 0 \<le> n \<and> n \<le> 4294967295"
| "isU32 _ = False"

definition isOptionalNullableI32 :: "jsval \<Rightarrow> bool" where
  "isOptionalNullableI32 v \<longleftrightarrow> v = Undefined \<or> v = Null \<or> isI32 v"

definition isOptionalNullableU32 :: "jsval \<Rightarrow> bool" where
  "isOptionalNullableU32 v \<longleftrightarrow> v = Undefined \<or> v = Null \<or> isU32 v"

definition isOptionalNullableBoolean :: "jsval \<Rightarrow> bool" where
  "isOptionalNullableBoolean v \<longleftrightarrow> v = Undefined \<or> v = Null \<or> is_boolean v"

section \<open>Errors\<close>

definition isApiErrorDetails :: "jsval \<Rightarrow> bool" where
  "isApiErrorDetails v \<longleftrightarrow> isRecord v \<and>
     (if jget v ''type'' = Str ''revision_conflict'' then is_string (jget v ''expectedRevision'') \<and> isNullableString (jget v ''actualRevision'')
      else if jget v ''type'' = Str ''database'' then
        isNullableString (jget v ''sqlState'') \<and> isNullableNumber (jget v ''vendorCode'')
        \<and> isNullableNumber (jget v ''statementPosition'') \<and> isNullableString (jget v ''constraintName'')
      else if jget v ''type'' = Str ''replay_window'' then
        is_string (jget v ''requestedSequence'') \<and> is_string (jget v ''oldestAvailableSequence'') \<and> is_string (jget v ''latestSequence'')
      else False)"

definition isApiError :: "jsval \<Rightarrow> bool" where
  "isApiError v \<longleftrightarrow> isRecord v \<and> is_string (jget v ''code'') \<and> is_string (jget v ''message'')
     \<and> (jget v ''retryable'' = Undefined \<or> is_boolean (jget v ''retryable''))
     \<and> (jget v ''details'' = Undefined \<or> jget v ''details'' = Null \<or> isApiErrorDetails (jget v ''details''))"

record ApiRequestError =
  are_apiError :: jsval
  are_status :: "int option"

definition api_error :: "string \<Rightarrow> string \<Rightarrow> jsval" where
  "api_error code message = Obj [(''code'', Str code), (''message'', Str message), (''retryable'', Bool False)]"

definition protocolError :: "string \<Rightarrow> int option \<Rightarrow> ApiRequestError" where
  "protocolError message status = \<lparr>are_apiError = api_error ''invalid_transport_response'' message, are_status = status\<rparr>"

text \<open>What a promise is rejected with: an error of a request, the abort of a signal, another \<open>Error\<close> with its message, or a value that is none.\<close>

datatype rejected = RequestRejected ApiRequestError | AbortRejected | ErrorRejected string | OtherRejected jsval

fun normalizeApiError :: "rejected \<Rightarrow> ApiRequestError" where
  "normalizeApiError (RequestRejected e) = e"
| "normalizeApiError (OtherRejected v) =
     (if isApiError v then \<lparr>are_apiError = v, are_status = None\<rparr> else protocolError ''The runtime returned an invalid error response'' None)"
| "normalizeApiError _ = protocolError ''The runtime returned an invalid error response'' None"

section \<open>Cursors\<close>

definition MAX_U64 :: nat where
  "MAX_U64 = 18446744073709551615"

definition invalid_cursor :: ApiRequestError where
  "invalid_cursor =
     \<lparr>are_apiError = api_error ''invalid_last_event_id'' ''Last-Event-ID must be an unsigned decimal integer'', are_status = None\<rparr>"

definition parseOperationCursor :: "string \<Rightarrow> ApiRequestError + nat" where
  "parseOperationCursor v =
     (if v = [] \<or> \<not> list_all is_digit v then Inl invalid_cursor
      else let sequence = nat_of_digits v in if sequence > MAX_U64 then Inl invalid_cursor else Inr sequence)"

definition parseAgentCursor :: "string \<Rightarrow> ApiRequestError + nat" where
  "parseAgentCursor v = parseOperationCursor v"

section \<open>Results\<close>

definition VALUE_TYPES :: "string list" where
  "VALUE_TYPES = [''signed_integer'', ''unsigned_integer'', ''float32'', ''float64'', ''decimal'', ''text'', ''binary'', ''date'', ''time'',
     ''timestamp'', ''timestamp_with_time_zone'', ''json'', ''uuid'']"

definition isJdbcValue :: "jsval \<Rightarrow> bool" where
  "isJdbcValue v \<longleftrightarrow> isRecord v \<and> is_string (jget v ''type'') \<and>
     (if jget v ''type'' = Str ''null'' then True
      else if jget v ''type'' = Str ''boolean'' then is_boolean (jget v ''value'')
      else if jget v ''type'' = Str ''opaque'' then is_string (jget v ''typeName'') \<and> is_string (jget v ''displayValue'')
      else one_of VALUE_TYPES (jget v ''type'') \<and> is_string (jget v ''value''))"

definition isResultColumn :: "jsval \<Rightarrow> bool" where
  "isResultColumn v \<longleftrightarrow> isRecord v \<and> isOptionalNullableString (jget v ''catalogName'') \<and> isOptionalNullableU32 (jget v ''displaySize'')
     \<and> isI32 (jget v ''jdbcType'') \<and> is_string (jget v ''jdbcTypeName'') \<and> is_string (jget v ''label'') \<and> is_string (jget v ''name'')
     \<and> one_of [''unknown'', ''no_nulls'', ''nullable''] (jget v ''nullability'') \<and> isU32 (jget v ''ordinal'')
     \<and> isOptionalNullableU32 (jget v ''precision'') \<and> isOptionalNullableI32 (jget v ''scale'')
     \<and> isOptionalNullableString (jget v ''schemaName'') \<and> isOptionalNullableBoolean (jget v ''signed'')
     \<and> isOptionalNullableString (jget v ''tableName'') \<and> one_of (''boolean'' # VALUE_TYPES @ [''opaque'']) (jget v ''valueType'')"

definition isResultRow :: "jsval \<Rightarrow> bool" where
  "isResultRow v \<longleftrightarrow> isRecord v \<and> array_of isJdbcValue (jget v ''values'')"

section \<open>Agent runs\<close>

definition isAgentRunStatus :: "jsval \<Rightarrow> bool" where
  "isAgentRunStatus v = one_of [''running'', ''waiting_for_permission'', ''completed'', ''failed'', ''cancelled''] v"

definition isAgentPermissionStatus :: "jsval \<Rightarrow> bool" where
  "isAgentPermissionStatus v = one_of [''pending'', ''approved'', ''denied'', ''consumed'', ''expired'', ''revoked''] v"

definition isAgentUsage :: "jsval \<Rightarrow> bool" where
  "isAgentUsage v \<longleftrightarrow> isRecord v \<and> isDecimalInteger (jget v ''inputTokens'') \<and> isDecimalInteger (jget v ''outputTokens'')
     \<and> isDecimalInteger (jget v ''totalTokens'')"

definition isAgentPermissionRequest :: "jsval \<Rightarrow> bool" where
  "isAgentPermissionRequest v \<longleftrightarrow> isRecord v \<and> is_string (jget v ''permissionId'') \<and> is_string (jget v ''runId'')
     \<and> is_string (jget v ''toolCallId'') \<and> is_string (jget v ''toolName'') \<and> is_string (jget v ''argumentsSha256'')
     \<and> is_string (jget v ''summary'') \<and> isDecimalInteger (jget v ''requestedAtMs'') \<and> isDecimalInteger (jget v ''expiresAtMs'')"

definition isAgentPermissionResponse :: "jsval \<Rightarrow> bool" where
  "isAgentPermissionResponse v \<longleftrightarrow> isRecord v \<and> is_string (jget v ''permissionId'') \<and> isAgentPermissionStatus (jget v ''status'')"

definition isAgentToolOutput :: "jsval \<Rightarrow> bool" where
  "isAgentToolOutput v \<longleftrightarrow> isRecord v \<and>
     (if jget v ''type'' = Str ''text'' then is_string (jget v ''content'') \<and> is_boolean (jget v ''truncated'')
      else jget v ''type'' = Str ''result'' \<and>
        (let handle = jget v ''handle'' in
         isRecord handle \<and> is_string (jget handle ''handleId'') \<and> isDecimalInteger (jget handle ''rowCount'')
         \<and> isDecimalInteger (jget handle ''byteCount'') \<and> is_boolean (jget handle ''truncatedByMaxRows'')
         \<and> is_boolean (jget handle ''truncatedByMaxResultBytes'') \<and> isDecimalInteger (jget handle ''createdAtMs'')
         \<and> isDecimalInteger (jget handle ''expiresAtMs'') \<and> array_of isResultColumn (jget handle ''columns'')
         \<and> is_boolean (jget handle ''columnsTruncated'') \<and> array_of isResultRow (jget handle ''sampleRows'')
         \<and> is_boolean (jget handle ''sampleTruncated'')))"

definition isAgentEvent :: "jsval \<Rightarrow> bool" where
  "isAgentEvent v \<longleftrightarrow> isRecord v \<and>
     (let t = jget v ''type'' in
      if t = Str ''started'' then True
      else if t = Str ''text_delta'' then is_string (jget v ''delta'')
      else if t = Str ''tool_started'' then is_string (jget v ''toolCallId'') \<and> is_string (jget v ''name'') \<and> is_string (jget v ''argumentsSha256'')
      else if t = Str ''tool_completed'' then is_string (jget v ''toolCallId'') \<and> is_string (jget v ''name'') \<and> isAgentToolOutput (jget v ''output'')
      else if t = Str ''tool_failed'' then is_string (jget v ''toolCallId'') \<and> is_string (jget v ''name'') \<and> isApiError (jget v ''error'')
      else if t = Str ''permission_requested'' then isAgentPermissionRequest (jget v ''permission'')
      else if t = Str ''permission_resolved'' then is_string (jget v ''permissionId'') \<and> isAgentPermissionStatus (jget v ''status'')
      else if t = Str ''context_compacted'' then
        (jget v ''strategy'' = Str ''summary'' \<or> jget v ''strategy'' = Str ''deterministic_trim'') \<and> isDecimalInteger (jget v ''droppedTurns'')
      else if t = Str ''usage'' then isAgentUsage (jget v ''usage'')
      else if t = Str ''completed'' then is_string (jget v ''messageId'')
      else if t = Str ''failed'' then isApiError (jget v ''error'')
      else if t = Str ''cancelled'' then isOptionalNullableString (jget v ''reason'')
      else False)"

definition isAgentEventEnvelope :: "jsval \<Rightarrow> bool" where
  "isAgentEventEnvelope v \<longleftrightarrow> isRecord v \<and> is_string (jget v ''runId'') \<and> isDecimalInteger (jget v ''sequence'')
     \<and> isDecimalInteger (jget v ''occurredAtMs'') \<and> isAgentEvent (jget v ''event'')"

text \<open>A message of a Tauri channel: an event, an error, or the end.\<close>

definition stream_message :: "(jsval \<Rightarrow> bool) \<Rightarrow> jsval \<Rightarrow> bool" where
  "stream_message isEnvelope v \<longleftrightarrow> isRecord v \<and>
     (if jget v ''type'' = Str ''event'' then isEnvelope (jget v ''event'')
      else if jget v ''type'' = Str ''error'' then isApiError (jget v ''error'')
      else jget v ''type'' = Str ''end'')"

definition isAgentStreamMessage :: "jsval \<Rightarrow> bool" where
  "isAgentStreamMessage v = stream_message isAgentEventEnvelope v"

definition subscription_accepted :: "jsval \<Rightarrow> bool" where
  "subscription_accepted v \<longleftrightarrow> isRecord v \<and> is_string (jget v ''subscriptionId'') \<and> jget v ''subscriptionId'' \<noteq> Str []"

definition isAgentSubscriptionAccepted :: "jsval \<Rightarrow> bool" where
  "isAgentSubscriptionAccepted v = subscription_accepted v"

definition isAgentRunAccepted :: "jsval \<Rightarrow> bool" where
  "isAgentRunAccepted v \<longleftrightarrow> isRecord v \<and> is_string (jget v ''runId'') \<and> is_string (jget v ''sessionId'')"

definition isAgentRunSnapshot :: "jsval \<Rightarrow> bool" where
  "isAgentRunSnapshot v \<longleftrightarrow> isRecord v \<and> is_string (jget v ''runId'') \<and> is_string (jget v ''sessionId'') \<and> isAgentRunStatus (jget v ''status'')
     \<and> isDecimalInteger (jget v ''lastSequence'') \<and> isDecimalInteger (jget v ''startedAtMs'') \<and> isDecimalInteger (jget v ''updatedAtMs'')
     \<and> isDecimalInteger (jget v ''modelRounds'') \<and> isDecimalInteger (jget v ''toolCalls'') \<and> isAgentUsage (jget v ''usage'')
     \<and> (jget v ''pendingPermission'' = Undefined \<or> jget v ''pendingPermission'' = Null \<or> isAgentPermissionRequest (jget v ''pendingPermission''))
     \<and> isOptionalNullableString (jget v ''messageId'')
     \<and> (jget v ''error'' = Undefined \<or> jget v ''error'' = Null \<or> isApiError (jget v ''error''))"

definition isCancelAgentRunResponse :: "jsval \<Rightarrow> bool" where
  "isCancelAgentRunResponse v \<longleftrightarrow> isRecord v \<and> is_string (jget v ''runId'')
     \<and> (jget v ''disposition'' = Str ''accepted'' \<or> jget v ''disposition'' = Str ''already_terminal'' \<or> jget v ''disposition'' = Str ''unknown_operation'')"

section \<open>Operations\<close>

definition isOperationEvent :: "jsval \<Rightarrow> bool" where
  "isOperationEvent v \<longleftrightarrow> isRecord v \<and>
     (let t = jget v ''type'' in
      if t = Str ''started'' then True
      else if t = Str ''progress'' then isDecimalInteger (jget v ''rowCount'') \<and> isDecimalInteger (jget v ''byteCount'')
      else if t = Str ''completed'' then
        isRecord (jget v ''result'') \<and> is_string (jget (jget v ''result'') ''id'') \<and> isDecimalInteger (jget (jget v ''result'') ''rowCount'')
        \<and> isDecimalInteger (jget (jget v ''result'') ''byteCount'')
      else if t = Str ''failed'' then isApiError (jget v ''error'')
      else if t = Str ''cancelled'' then jget v ''reason'' = Undefined \<or> jget v ''reason'' = Null \<or> is_string (jget v ''reason'')
      else False)"

definition isOperationEventEnvelope :: "jsval \<Rightarrow> bool" where
  "isOperationEventEnvelope v \<longleftrightarrow> isRecord v \<and> is_string (jget v ''operationId'') \<and> isDecimalInteger (jget v ''sequence'')
     \<and> isDecimalInteger (jget v ''occurredAtMs'') \<and> isOperationEvent (jget v ''event'')"

definition isOperationStreamMessage :: "jsval \<Rightarrow> bool" where
  "isOperationStreamMessage v = stream_message isOperationEventEnvelope v"

definition isOperationSubscriptionAccepted :: "jsval \<Rightarrow> bool" where
  "isOperationSubscriptionAccepted v = subscription_accepted v"

section \<open>Promises that a signal aborts\<close>

datatype promise_event = PromiseSettled "rejected + jsval" | SignalAborts

text \<open>
  The result of \<open>withAbort(promise, signal)\<close> after what has happened: without a signal it is the promise's; with one, the first of the
  settlement and the abort decides.
\<close>

fun withAbort :: "bool \<Rightarrow> bool \<Rightarrow> promise_event list \<Rightarrow> (rejected + jsval) option" where
  "withAbort hasSignal aborted [] = (if hasSignal \<and> aborted then Some (Inl AbortRejected) else None)"
| "withAbort hasSignal aborted (e # es) =
     (if hasSignal \<and> aborted then Some (Inl AbortRejected)
      else case e of
        PromiseSettled r \<Rightarrow> Some r
      | SignalAborts \<Rightarrow> if hasSignal then Some (Inl AbortRejected) else withAbort hasSignal aborted es)"

section \<open>Properties\<close>

lemma digit_char_0: "digit_char 0 = CHR ''0''"
  by code_simp

lemma digit_char_val: "is_digit c \<Longrightarrow> digit_char (digit_val c) = c"
  by (auto simp: digit_char_def digit_val_def is_digit_def)

lemma digit_val_less: "is_digit c \<Longrightarrow> digit_val c < 10"
  by (auto simp: digit_val_def is_digit_def)

lemma nat_of_digits_snoc: "nat_of_digits (s @ [c]) = 10 * nat_of_digits s + digit_val c"
  by (simp add: nat_of_digits_def)

lemma nat_of_digits_pos: "list_all is_digit s \<Longrightarrow> s \<noteq> [] \<Longrightarrow> hd s \<noteq> CHR ''0'' \<Longrightarrow> 0 < nat_of_digits s"
proof (induction s rule: rev_induct)
  case (snoc c s)
  show ?case
  proof (cases "s = []")
    case True
    have "digit_val c \<noteq> 0"
    proof
      assume "digit_val c = 0"
      then have "c = digit_char 0" using digit_char_val[of c] snoc.prems(1) by simp
      then show False using snoc.prems(3) True by (simp add: digit_char_0)
    qed
    then show ?thesis using True by (simp add: nat_of_digits_def)
  next
    case False
    then show ?thesis using snoc by (simp add: nat_of_digits_snoc)
  qed
qed simp

lemma string_of_digits:
  assumes "list_all is_digit s" "s \<noteq> []" "hd s \<noteq> CHR ''0''"
  shows "string_of_nat (nat_of_digits s) = s"
  using assms
proof (induction s rule: rev_induct)
  case (snoc c s)
  have c: "is_digit c" using snoc.prems(1) by simp
  show ?case
  proof (cases "s = []")
    case True
    then show ?thesis using c by (simp add: nat_of_digits_def string_of_nat.simps[of "digit_val c"] digit_val_less digit_char_val)
  next
    case False
    then have s: "list_all is_digit s" "hd s \<noteq> CHR ''0''" using snoc.prems by simp_all
    have "0 < nat_of_digits s" using nat_of_digits_pos[OF s(1) False s(2)] .
    then show ?thesis using snoc.IH[OF s(1) False s(2)] c digit_val_less[OF c]
      by (simp add: nat_of_digits_snoc string_of_nat.simps[of "10 * nat_of_digits s + digit_val c"] digit_char_val)
  qed
qed simp

lemma string_of_nat_leading: "0 < n \<Longrightarrow> hd (string_of_nat n) \<noteq> CHR ''0''"
proof (induction n rule: string_of_nat.induct)
  case (1 n)
  show ?case
  proof (cases "n < 10")
    case True
    then have "digit_char n \<noteq> digit_char 0" using 1(2) digit_val_digit_char by (metis zero_less_numeral less_numeral_extra(3))
    then show ?thesis using True by (simp add: string_of_nat.simps[of n] digit_char_0)
  next
    case False
    then show ?thesis using 1 by (simp add: string_of_nat.simps[of n] div_greater_zero_iff)
  qed
qed

lemma canonical_number_string: "canonical_number s \<longleftrightarrow> (\<exists>n. s = string_of_nat n)"
proof
  assume "canonical_number s"
  then show "\<exists>n. s = string_of_nat n"
  proof (cases "s = ''0''")
    case True
    have "string_of_nat 0 = ''0''" by code_simp
    then show ?thesis using True by metis
  qed (metis canonical_number_def string_of_digits)
next
  assume "\<exists>n. s = string_of_nat n"
  then obtain n where n: "s = string_of_nat n" by blast
  show "canonical_number s"
  proof (cases n)
    case 0
    have "string_of_nat 0 = ''0''" by code_simp
    then show ?thesis using n 0 by (simp add: canonical_number_def)
  next
    case (Suc m)
    then have "hd s \<noteq> CHR ''0''" using string_of_nat_leading[of n] n by simp
    then show ?thesis using n string_of_nat_digits[of n] by (simp add: canonical_number_def list_all_iff)
  qed
qed

text \<open>
  the numbers in messages are the decimal texts of natural numbers, each in its one form, so that comparing or converting them loses
  nothing. A cursor is accepted exactly up to the largest unsigned 64-bit number, with its value.
\<close>

theorem decimal_texts_exact:
  "(isDecimalInteger v \<longleftrightarrow> (\<exists>n. v = Str (string_of_nat n)))
   \<and> parseOperationCursor (string_of_nat k) = (if k \<le> MAX_U64 then Inr k else Inl invalid_cursor)"
proof -
  have "isDecimalInteger v \<longleftrightarrow> (\<exists>n. v = Str (string_of_nat n))" by (cases v) (simp_all add: canonical_number_string)
  moreover have "parseOperationCursor (string_of_nat k) = (if k \<le> MAX_U64 then Inr k else Inl invalid_cursor)"
    using string_of_nat_digits[of k] by (simp add: parseOperationCursor_def list_all_iff nat_of_digits_string_of_nat Let_def)
  ultimately show ?thesis by blast
qed

lemma api_error_valid [simp]: "isApiError (api_error code message)"
  by (simp add: api_error_def isApiError_def)

lemma protocolError_valid [simp]: "isApiError (are_apiError (protocolError message status))"
  by (simp add: protocolError_def)

lemma parseOperationCursor_cases:
  obtains (valid) n where "parseOperationCursor v = Inr n" "n \<le> MAX_U64" | (invalid) "parseOperationCursor v = Inl invalid_cursor"
proof (cases "v = [] \<or> \<not> list_all is_digit v \<or> nat_of_digits v > MAX_U64")
  case True
  then show ?thesis using invalid by (auto simp: parseOperationCursor_def Let_def)
next
  case False
  then show ?thesis using valid by (simp add: parseOperationCursor_def Let_def)
qed

lemma invalid_cursor_valid [simp]: "isApiError (are_apiError invalid_cursor)"
  by (simp add: invalid_cursor_def)

end
