(* ===== verification/Backend_Calls.thy ===== *)
theory Backend_Calls
  imports Backend_Messages Js_Uri
begin

text \<open>
  The calls of the backend client over its two transports: the requests of \<open>HttpBackendClient\<close> (\<open>apps/frontend/src/backend/http.ts\<close>) and the
  commands of \<open>TauriBackendClient\<close> (\<open>tauri.ts\<close>), one definition per method, and what a method makes of the answer. Subscriptions are in
  \<open>Backend_Streams\<close>. \<open>fetch\<close> and \<open>invoke\<close> are the platform: what they answer is an argument.
\<close>

section \<open>Requests over HTTP\<close>

text \<open>\<open>URLSearchParams\<close>: unreserved characters stay, a blank is a plus sign, others are percent-encoded bytes.\<close>

definition form_char :: "char \<Rightarrow> string" where
  "form_char c = (let n = of_char c in
     if c = CHR '' '' then ''+''
     else if is_word_char c \<or> c \<in> {CHR ''*'', CHR ''-'', CHR ''.''} then [c]
     else if n < 128 then percent n else percent (192 + n div 64) @ percent (128 + n mod 64))"

definition form_text :: "string \<Rightarrow> string" where
  "form_text s = concat (map form_char s)"

definition URLSearchParams :: "(string \<times> string) list \<Rightarrow> string" where
  "URLSearchParams params = join ''&'' (map (\<lambda>(k, v). form_text k @ ''='' @ form_text v) params)"

text \<open>
  The text of \<open>JSON.stringify(value)\<close>: \<open>undefined\<close> has none, is left out of objects and becomes \<open>null\<close> in arrays, as \<open>NaN\<close> does
  everywhere; in a string the quote, the backslash and the control characters are escaped.
\<close>

definition json_hex :: "nat \<Rightarrow> char" where
  "json_hex n = char_of (if n < 10 then 48 + n else 87 + n)"

definition json_char :: "char \<Rightarrow> string" where
  "json_char c = (let n = of_char c :: nat in
     if n = 34 \<or> n = 92 then [CHR 0x5C, c]
     else if n = 8 then [CHR 0x5C, CHR ''b'']
     else if n = 9 then [CHR 0x5C, CHR ''t'']
     else if n = 10 then [CHR 0x5C, CHR ''n'']
     else if n = 12 then [CHR 0x5C, CHR ''f'']
     else if n = 13 then [CHR 0x5C, CHR ''r'']
     else if n < 32 then [CHR 0x5C, CHR ''u'', CHR ''0'', CHR ''0'', json_hex (n div 16), json_hex (n mod 16)]
     else [c])"

definition json_string :: "string \<Rightarrow> string" where
  "json_string s = CHR 0x22 # concat (map json_char s) @ [CHR 0x22]"

fun JSON_stringify :: "jsval \<Rightarrow> string option" where
  "JSON_stringify Undefined = None"
| "JSON_stringify Null = Some ''null''"
| "JSON_stringify NaN = Some ''null''"
| "JSON_stringify (Bool b) = Some (if b then ''true'' else ''false'')"
| "JSON_stringify (Num n) = Some (string_of_int n)"
| "JSON_stringify (Str s) = Some (json_string s)"
| "JSON_stringify (Arr vs) = Some (CHR ''['' # join '','' (map (\<lambda>v. the_default ''null'' (JSON_stringify v)) vs) @ '']'')"
| "JSON_stringify (Obj entries) = Some (CHR ''{'' #
     join '','' (concat (map (\<lambda>(k, v). case JSON_stringify v of None \<Rightarrow> [] | Some t \<Rightarrow> [json_string k @ CHR '':'' # t]) entries)) @ ''}'')"

text \<open>What a method expects of the payload, beyond that there is one.\<close>

datatype payload_kind = AnyPayload | AgentRunAcceptedPayload | AgentRunSnapshotPayload | CancelAgentRunPayload | AgentPermissionPayload

record json_call =
  jc_method :: string
  jc_path :: string
  jc_body :: "string option"
  jc_accepted :: "int list"
  jc_payload :: payload_kind

definition json_call_of :: "string \<Rightarrow> string \<Rightarrow> jsval option \<Rightarrow> int list \<Rightarrow> payload_kind \<Rightarrow> json_call" where
  "json_call_of meth path body accepted payload =
     \<lparr>jc_method = meth, jc_path = path, jc_body = Option.bind body JSON_stringify, jc_accepted = accepted, jc_payload = payload\<rparr>"

definition http_health :: "json_call" where
  "http_health = json_call_of ''GET'' ''/api/v1/system/health'' None [200, 503] AnyPayload"

definition http_listDrivers :: "json_call" where
  "http_listDrivers = json_call_of ''GET'' ''/api/v1/drivers'' None [200] AnyPayload"

definition http_listCommunityPlugins :: "json_call" where
  "http_listCommunityPlugins = json_call_of ''GET'' ''/api/v1/community/plugins'' None [200] AnyPayload"

definition http_listCommunitySchemas :: "jsval \<Rightarrow> json_call" where
  "http_listCommunitySchemas request = json_call_of ''POST'' ''/api/v1/community/metadata/schemas'' (Some request) [200] AnyPayload"

definition http_listCommunityDatabases :: "jsval \<Rightarrow> json_call" where
  "http_listCommunityDatabases request = json_call_of ''POST'' ''/api/v1/community/metadata/databases'' (Some request) [200] AnyPayload"

definition http_listCommunityTables :: "jsval \<Rightarrow> json_call" where
  "http_listCommunityTables request = json_call_of ''POST'' ''/api/v1/community/metadata/tables'' (Some request) [200] AnyPayload"

definition http_listCommunityColumns :: "jsval \<Rightarrow> json_call" where
  "http_listCommunityColumns request = json_call_of ''POST'' ''/api/v1/community/metadata/columns'' (Some request) [200] AnyPayload"

definition http_listCommunityIndexes :: "jsval \<Rightarrow> json_call" where
  "http_listCommunityIndexes request = json_call_of ''POST'' ''/api/v1/community/metadata/indexes'' (Some request) [200] AnyPayload"

definition http_listCommunityViews :: "jsval \<Rightarrow> json_call" where
  "http_listCommunityViews request = json_call_of ''POST'' ''/api/v1/community/metadata/views'' (Some request) [200] AnyPayload"

definition http_listCommunityImportedKeys :: "jsval \<Rightarrow> json_call" where
  "http_listCommunityImportedKeys request = json_call_of ''POST'' ''/api/v1/community/metadata/imported-keys'' (Some request) [200] AnyPayload"

definition http_listCommunityExportedKeys :: "jsval \<Rightarrow> json_call" where
  "http_listCommunityExportedKeys request = json_call_of ''POST'' ''/api/v1/community/metadata/exported-keys'' (Some request) [200] AnyPayload"

definition http_listCommunityPrimaryKeys :: "jsval \<Rightarrow> json_call" where
  "http_listCommunityPrimaryKeys request = json_call_of ''POST'' ''/api/v1/community/metadata/primary-keys'' (Some request) [200] AnyPayload"

definition http_listCommunityFunctions :: "jsval \<Rightarrow> json_call" where
  "http_listCommunityFunctions request = json_call_of ''POST'' ''/api/v1/community/metadata/functions'' (Some request) [200] AnyPayload"

definition http_getCommunityFunction :: "jsval \<Rightarrow> json_call" where
  "http_getCommunityFunction request = json_call_of ''POST'' ''/api/v1/community/metadata/function'' (Some request) [200] AnyPayload"

definition http_listCommunityFunctionParameters :: "jsval \<Rightarrow> json_call" where
  "http_listCommunityFunctionParameters request = json_call_of ''POST'' ''/api/v1/community/metadata/function-parameters'' (Some request) [200] AnyPayload"

definition http_listCommunityProcedures :: "jsval \<Rightarrow> json_call" where
  "http_listCommunityProcedures request = json_call_of ''POST'' ''/api/v1/community/metadata/procedures'' (Some request) [200] AnyPayload"

definition http_getCommunityProcedure :: "jsval \<Rightarrow> json_call" where
  "http_getCommunityProcedure request = json_call_of ''POST'' ''/api/v1/community/metadata/procedure'' (Some request) [200] AnyPayload"

definition http_listCommunityProcedureParameters :: "jsval \<Rightarrow> json_call" where
  "http_listCommunityProcedureParameters request = json_call_of ''POST'' ''/api/v1/community/metadata/procedure-parameters'' (Some request) [200] AnyPayload"

definition http_listCommunityTriggers :: "jsval \<Rightarrow> json_call" where
  "http_listCommunityTriggers request = json_call_of ''POST'' ''/api/v1/community/metadata/triggers'' (Some request) [200] AnyPayload"

definition http_getCommunityTrigger :: "jsval \<Rightarrow> json_call" where
  "http_getCommunityTrigger request = json_call_of ''POST'' ''/api/v1/community/metadata/trigger'' (Some request) [200] AnyPayload"

definition http_buildCommunityCreateSchema :: "jsval \<Rightarrow> json_call" where
  "http_buildCommunityCreateSchema request = json_call_of ''POST'' ''/api/v1/community/sql/build-create-schema'' (Some request) [200] AnyPayload"

definition http_buildCommunityDml :: "jsval \<Rightarrow> json_call" where
  "http_buildCommunityDml request = json_call_of ''POST'' ''/api/v1/community/sql/build-dml'' (Some request) [200] AnyPayload"

definition http_buildCommunityNamespaceSql :: "jsval \<Rightarrow> json_call" where
  "http_buildCommunityNamespaceSql request = json_call_of ''POST'' ''/api/v1/community/sql/build-namespace'' (Some request) [200] AnyPayload"

definition http_parseCommunitySql :: "jsval \<Rightarrow> json_call" where
  "http_parseCommunitySql request = json_call_of ''POST'' ''/api/v1/community/sql/parse'' (Some request) [200] AnyPayload"

definition http_validateCommunitySql :: "jsval \<Rightarrow> json_call" where
  "http_validateCommunitySql request = json_call_of ''POST'' ''/api/v1/community/sql/validate'' (Some request) [200] AnyPayload"

definition http_formatCommunitySql :: "jsval \<Rightarrow> json_call" where
  "http_formatCommunitySql request = json_call_of ''POST'' ''/api/v1/community/sql/format'' (Some request) [200] AnyPayload"

definition http_completeCommunitySql :: "jsval \<Rightarrow> json_call" where
  "http_completeCommunitySql request = json_call_of ''POST'' ''/api/v1/community/sql/complete'' (Some request) [200] AnyPayload"

definition http_startCommunityTablePreview :: "jsval \<Rightarrow> json_call" where
  "http_startCommunityTablePreview request = json_call_of ''POST'' ''/api/v1/community/table-preview'' (Some request) [202] AnyPayload"

definition http_listDatasources :: "json_call" where
  "http_listDatasources = json_call_of ''GET'' ''/api/v1/datasources'' None [200] AnyPayload"

definition http_createDatasource :: "jsval \<Rightarrow> json_call" where
  "http_createDatasource request = json_call_of ''POST'' ''/api/v1/datasources'' (Some request) [201] AnyPayload"

definition http_getDatasource :: "string \<Rightarrow> json_call" where
  "http_getDatasource datasourceId = json_call_of ''GET'' (''/api/v1/datasources/'' @ encodeURIComponent datasourceId) None [200] AnyPayload"

definition http_updateDatasource :: "string \<Rightarrow> jsval \<Rightarrow> json_call" where
  "http_updateDatasource datasourceId request = json_call_of ''PUT'' (''/api/v1/datasources/'' @ encodeURIComponent datasourceId) (Some request) [200] AnyPayload"

definition http_deleteDatasource :: "string \<Rightarrow> string \<Rightarrow> json_call" where
  "http_deleteDatasource datasourceId expectedRevision = json_call_of ''DELETE'' (''/api/v1/datasources/'' @ encodeURIComponent datasourceId @ ''?'' @ URLSearchParams [(''expectedRevision'', expectedRevision)]) None [204] AnyPayload"

definition http_listProviderProfiles :: "json_call" where
  "http_listProviderProfiles = json_call_of ''GET'' ''/api/v1/agent/providers'' None [200] AnyPayload"

definition http_createProviderProfile :: "jsval \<Rightarrow> json_call" where
  "http_createProviderProfile request = json_call_of ''POST'' ''/api/v1/agent/providers'' (Some request) [201] AnyPayload"

definition http_getProviderProfile :: "string \<Rightarrow> json_call" where
  "http_getProviderProfile providerId = json_call_of ''GET'' (''/api/v1/agent/providers/'' @ encodeURIComponent providerId) None [200] AnyPayload"

definition http_updateProviderProfile :: "string \<Rightarrow> jsval \<Rightarrow> json_call" where
  "http_updateProviderProfile providerId request = json_call_of ''PUT'' (''/api/v1/agent/providers/'' @ encodeURIComponent providerId) (Some request) [200] AnyPayload"

definition http_deleteProviderProfile :: "string \<Rightarrow> string \<Rightarrow> json_call" where
  "http_deleteProviderProfile providerId expectedRevision = json_call_of ''DELETE'' (''/api/v1/agent/providers/'' @ encodeURIComponent providerId @ ''?'' @ URLSearchParams [(''expectedRevision'', expectedRevision)]) None [204] AnyPayload"

definition http_listAgentSessions :: "json_call" where
  "http_listAgentSessions = json_call_of ''GET'' ''/api/v1/agent/sessions'' None [200] AnyPayload"

definition http_createAgentSession :: "jsval \<Rightarrow> json_call" where
  "http_createAgentSession request = json_call_of ''POST'' ''/api/v1/agent/sessions'' (Some request) [201] AnyPayload"

definition http_getAgentSession :: "string \<Rightarrow> json_call" where
  "http_getAgentSession sessionId = json_call_of ''GET'' (''/api/v1/agent/sessions/'' @ encodeURIComponent sessionId) None [200] AnyPayload"

definition http_updateAgentSession :: "string \<Rightarrow> jsval \<Rightarrow> json_call" where
  "http_updateAgentSession sessionId request = json_call_of ''PUT'' (''/api/v1/agent/sessions/'' @ encodeURIComponent sessionId) (Some request) [200] AnyPayload"

definition http_deleteAgentSession :: "string \<Rightarrow> string \<Rightarrow> json_call" where
  "http_deleteAgentSession sessionId expectedRevision = json_call_of ''DELETE'' (''/api/v1/agent/sessions/'' @ encodeURIComponent sessionId @ ''?'' @ URLSearchParams [(''expectedRevision'', expectedRevision)]) None [204] AnyPayload"

definition http_listAgentMessages :: "string \<Rightarrow> string \<Rightarrow> string \<Rightarrow> json_call" where
  "http_listAgentMessages sessionId startOrdinal limit = json_call_of ''GET'' (''/api/v1/agent/sessions/'' @ encodeURIComponent sessionId @ ''/messages?'' @ URLSearchParams [(''startOrdinal'', startOrdinal), (''limit'', limit)]) None [200] AnyPayload"

definition http_startAgentRun :: "jsval \<Rightarrow> json_call" where
  "http_startAgentRun request = json_call_of ''POST'' ''/api/v1/agent/runs'' (Some request) [202] AgentRunAcceptedPayload"

definition http_agentRunSnapshot :: "string \<Rightarrow> json_call" where
  "http_agentRunSnapshot runId = json_call_of ''GET'' (''/api/v1/agent/runs/'' @ encodeURIComponent runId) None [200] AgentRunSnapshotPayload"

definition http_cancelAgentRun :: "string \<Rightarrow> json_call" where
  "http_cancelAgentRun runId = json_call_of ''POST'' (''/api/v1/agent/runs/'' @ encodeURIComponent runId @ ''/cancel'') None [200] CancelAgentRunPayload"

definition http_decideAgentPermission :: "string \<Rightarrow> jsval \<Rightarrow> json_call" where
  "http_decideAgentPermission permissionId request = json_call_of ''POST'' (''/api/v1/agent/runs/'' @ encodeURIComponent (js_String (jget request ''runId'')) @ ''/permissions/'' @ encodeURIComponent permissionId @ ''/decision'') (Some request) [200] AgentPermissionPayload"

definition http_startQuery :: "jsval \<Rightarrow> json_call" where
  "http_startQuery request = json_call_of ''POST'' ''/api/v1/queries'' (Some request) [202] AnyPayload"

definition http_operationSnapshot :: "string \<Rightarrow> json_call" where
  "http_operationSnapshot operationId = json_call_of ''GET'' (''/api/v1/operations/'' @ encodeURIComponent operationId) None [200] AnyPayload"

definition http_cancelOperation :: "string \<Rightarrow> json_call" where
  "http_cancelOperation operationId = json_call_of ''POST'' (''/api/v1/operations/'' @ encodeURIComponent operationId @ ''/cancel'') None [200] AnyPayload"

definition http_resultPage :: "string \<Rightarrow> string \<Rightarrow> string \<Rightarrow> string \<Rightarrow> json_call" where
  "http_resultPage resultId offset maxRows maxBytes = json_call_of ''GET'' (''/api/v1/results/'' @ encodeURIComponent resultId @ ''?'' @ URLSearchParams [(''offset'', offset), (''maxRows'', maxRows), (''maxBytes'', maxBytes)]) None [200] AnyPayload"

section \<open>Commands of Tauri\<close>

record tauri_call =
  tc_command :: string
  tc_args :: "js_object option"
  tc_payload :: payload_kind

definition tauri_health :: "tauri_call" where
  "tauri_health = \<lparr>tc_command = ''health'', tc_args = None, tc_payload = AnyPayload\<rparr>"

definition tauri_listDrivers :: "tauri_call" where
  "tauri_listDrivers = \<lparr>tc_command = ''list_drivers'', tc_args = None, tc_payload = AnyPayload\<rparr>"

definition tauri_listCommunityPlugins :: "tauri_call" where
  "tauri_listCommunityPlugins = \<lparr>tc_command = ''list_community_plugins'', tc_args = None, tc_payload = AnyPayload\<rparr>"

definition tauri_listCommunitySchemas :: "jsval \<Rightarrow> tauri_call" where
  "tauri_listCommunitySchemas request = \<lparr>tc_command = ''list_community_schemas'', tc_args = (Some [(''request'', request)]), tc_payload = AnyPayload\<rparr>"

definition tauri_listCommunityDatabases :: "jsval \<Rightarrow> tauri_call" where
  "tauri_listCommunityDatabases request = \<lparr>tc_command = ''list_community_databases'', tc_args = (Some [(''request'', request)]), tc_payload = AnyPayload\<rparr>"

definition tauri_listCommunityTables :: "jsval \<Rightarrow> tauri_call" where
  "tauri_listCommunityTables request = \<lparr>tc_command = ''list_community_tables'', tc_args = (Some [(''request'', request)]), tc_payload = AnyPayload\<rparr>"

definition tauri_listCommunityColumns :: "jsval \<Rightarrow> tauri_call" where
  "tauri_listCommunityColumns request = \<lparr>tc_command = ''list_community_columns'', tc_args = (Some [(''request'', request)]), tc_payload = AnyPayload\<rparr>"

definition tauri_listCommunityIndexes :: "jsval \<Rightarrow> tauri_call" where
  "tauri_listCommunityIndexes request = \<lparr>tc_command = ''list_community_indexes'', tc_args = (Some [(''request'', request)]), tc_payload = AnyPayload\<rparr>"

definition tauri_listCommunityViews :: "jsval \<Rightarrow> tauri_call" where
  "tauri_listCommunityViews request = \<lparr>tc_command = ''list_community_views'', tc_args = (Some [(''request'', request)]), tc_payload = AnyPayload\<rparr>"

definition tauri_listCommunityImportedKeys :: "jsval \<Rightarrow> tauri_call" where
  "tauri_listCommunityImportedKeys request = \<lparr>tc_command = ''list_community_imported_keys'', tc_args = (Some [(''request'', request)]), tc_payload = AnyPayload\<rparr>"

definition tauri_listCommunityExportedKeys :: "jsval \<Rightarrow> tauri_call" where
  "tauri_listCommunityExportedKeys request = \<lparr>tc_command = ''list_community_exported_keys'', tc_args = (Some [(''request'', request)]), tc_payload = AnyPayload\<rparr>"

definition tauri_listCommunityPrimaryKeys :: "jsval \<Rightarrow> tauri_call" where
  "tauri_listCommunityPrimaryKeys request = \<lparr>tc_command = ''list_community_primary_keys'', tc_args = (Some [(''request'', request)]), tc_payload = AnyPayload\<rparr>"

definition tauri_listCommunityFunctions :: "jsval \<Rightarrow> tauri_call" where
  "tauri_listCommunityFunctions request = \<lparr>tc_command = ''list_community_functions'', tc_args = (Some [(''request'', request)]), tc_payload = AnyPayload\<rparr>"

definition tauri_getCommunityFunction :: "jsval \<Rightarrow> tauri_call" where
  "tauri_getCommunityFunction request = \<lparr>tc_command = ''get_community_function'', tc_args = (Some [(''request'', request)]), tc_payload = AnyPayload\<rparr>"

definition tauri_listCommunityFunctionParameters :: "jsval \<Rightarrow> tauri_call" where
  "tauri_listCommunityFunctionParameters request = \<lparr>tc_command = ''list_community_function_parameters'', tc_args = (Some [(''request'', request)]), tc_payload = AnyPayload\<rparr>"

definition tauri_listCommunityProcedures :: "jsval \<Rightarrow> tauri_call" where
  "tauri_listCommunityProcedures request = \<lparr>tc_command = ''list_community_procedures'', tc_args = (Some [(''request'', request)]), tc_payload = AnyPayload\<rparr>"

definition tauri_getCommunityProcedure :: "jsval \<Rightarrow> tauri_call" where
  "tauri_getCommunityProcedure request = \<lparr>tc_command = ''get_community_procedure'', tc_args = (Some [(''request'', request)]), tc_payload = AnyPayload\<rparr>"

definition tauri_listCommunityProcedureParameters :: "jsval \<Rightarrow> tauri_call" where
  "tauri_listCommunityProcedureParameters request = \<lparr>tc_command = ''list_community_procedure_parameters'', tc_args = (Some [(''request'', request)]), tc_payload = AnyPayload\<rparr>"

definition tauri_listCommunityTriggers :: "jsval \<Rightarrow> tauri_call" where
  "tauri_listCommunityTriggers request = \<lparr>tc_command = ''list_community_triggers'', tc_args = (Some [(''request'', request)]), tc_payload = AnyPayload\<rparr>"

definition tauri_getCommunityTrigger :: "jsval \<Rightarrow> tauri_call" where
  "tauri_getCommunityTrigger request = \<lparr>tc_command = ''get_community_trigger'', tc_args = (Some [(''request'', request)]), tc_payload = AnyPayload\<rparr>"

definition tauri_buildCommunityCreateSchema :: "jsval \<Rightarrow> tauri_call" where
  "tauri_buildCommunityCreateSchema request = \<lparr>tc_command = ''build_community_create_schema'', tc_args = (Some [(''request'', request)]), tc_payload = AnyPayload\<rparr>"

definition tauri_buildCommunityDml :: "jsval \<Rightarrow> tauri_call" where
  "tauri_buildCommunityDml request = \<lparr>tc_command = ''build_community_dml'', tc_args = (Some [(''request'', request)]), tc_payload = AnyPayload\<rparr>"

definition tauri_buildCommunityNamespaceSql :: "jsval \<Rightarrow> tauri_call" where
  "tauri_buildCommunityNamespaceSql request = \<lparr>tc_command = ''build_community_namespace_sql'', tc_args = (Some [(''request'', request)]), tc_payload = AnyPayload\<rparr>"

definition tauri_parseCommunitySql :: "jsval \<Rightarrow> tauri_call" where
  "tauri_parseCommunitySql request = \<lparr>tc_command = ''parse_community_sql'', tc_args = (Some [(''request'', request)]), tc_payload = AnyPayload\<rparr>"

definition tauri_validateCommunitySql :: "jsval \<Rightarrow> tauri_call" where
  "tauri_validateCommunitySql request = \<lparr>tc_command = ''validate_community_sql'', tc_args = (Some [(''request'', request)]), tc_payload = AnyPayload\<rparr>"

definition tauri_formatCommunitySql :: "jsval \<Rightarrow> tauri_call" where
  "tauri_formatCommunitySql request = \<lparr>tc_command = ''format_community_sql'', tc_args = (Some [(''request'', request)]), tc_payload = AnyPayload\<rparr>"

definition tauri_completeCommunitySql :: "jsval \<Rightarrow> tauri_call" where
  "tauri_completeCommunitySql request = \<lparr>tc_command = ''complete_community_sql'', tc_args = (Some [(''request'', request)]), tc_payload = AnyPayload\<rparr>"

definition tauri_startCommunityTablePreview :: "jsval \<Rightarrow> tauri_call" where
  "tauri_startCommunityTablePreview request = \<lparr>tc_command = ''start_community_table_preview'', tc_args = (Some [(''request'', request)]), tc_payload = AnyPayload\<rparr>"

definition tauri_listDatasources :: "tauri_call" where
  "tauri_listDatasources = \<lparr>tc_command = ''list_datasources'', tc_args = None, tc_payload = AnyPayload\<rparr>"

definition tauri_createDatasource :: "jsval \<Rightarrow> tauri_call" where
  "tauri_createDatasource request = \<lparr>tc_command = ''create_datasource'', tc_args = (Some [(''request'', request)]), tc_payload = AnyPayload\<rparr>"

definition tauri_getDatasource :: "string \<Rightarrow> tauri_call" where
  "tauri_getDatasource datasourceId = \<lparr>tc_command = ''get_datasource'', tc_args = (Some [(''datasourceId'', Str datasourceId)]), tc_payload = AnyPayload\<rparr>"

definition tauri_updateDatasource :: "string \<Rightarrow> jsval \<Rightarrow> tauri_call" where
  "tauri_updateDatasource datasourceId request = \<lparr>tc_command = ''update_datasource'', tc_args = (Some [(''datasourceId'', Str datasourceId), (''request'', request)]), tc_payload = AnyPayload\<rparr>"

definition tauri_deleteDatasource :: "string \<Rightarrow> string \<Rightarrow> tauri_call" where
  "tauri_deleteDatasource datasourceId expectedRevision = \<lparr>tc_command = ''delete_datasource'', tc_args = (Some [(''datasourceId'', Str datasourceId), (''expectedRevision'', Str expectedRevision)]), tc_payload = AnyPayload\<rparr>"

definition tauri_listProviderProfiles :: "tauri_call" where
  "tauri_listProviderProfiles = \<lparr>tc_command = ''list_provider_profiles'', tc_args = None, tc_payload = AnyPayload\<rparr>"

definition tauri_createProviderProfile :: "jsval \<Rightarrow> tauri_call" where
  "tauri_createProviderProfile request = \<lparr>tc_command = ''create_provider_profile'', tc_args = (Some [(''request'', request)]), tc_payload = AnyPayload\<rparr>"

definition tauri_getProviderProfile :: "string \<Rightarrow> tauri_call" where
  "tauri_getProviderProfile providerId = \<lparr>tc_command = ''get_provider_profile'', tc_args = (Some [(''providerId'', Str providerId)]), tc_payload = AnyPayload\<rparr>"

definition tauri_updateProviderProfile :: "string \<Rightarrow> jsval \<Rightarrow> tauri_call" where
  "tauri_updateProviderProfile providerId request = \<lparr>tc_command = ''update_provider_profile'', tc_args = (Some [(''providerId'', Str providerId), (''request'', request)]), tc_payload = AnyPayload\<rparr>"

definition tauri_deleteProviderProfile :: "string \<Rightarrow> string \<Rightarrow> tauri_call" where
  "tauri_deleteProviderProfile providerId expectedRevision = \<lparr>tc_command = ''delete_provider_profile'', tc_args = (Some [(''providerId'', Str providerId), (''expectedRevision'', Str expectedRevision)]), tc_payload = AnyPayload\<rparr>"

definition tauri_listAgentSessions :: "tauri_call" where
  "tauri_listAgentSessions = \<lparr>tc_command = ''list_agent_sessions'', tc_args = None, tc_payload = AnyPayload\<rparr>"

definition tauri_createAgentSession :: "jsval \<Rightarrow> tauri_call" where
  "tauri_createAgentSession request = \<lparr>tc_command = ''create_agent_session'', tc_args = (Some [(''request'', request)]), tc_payload = AnyPayload\<rparr>"

definition tauri_getAgentSession :: "string \<Rightarrow> tauri_call" where
  "tauri_getAgentSession sessionId = \<lparr>tc_command = ''get_agent_session'', tc_args = (Some [(''sessionId'', Str sessionId)]), tc_payload = AnyPayload\<rparr>"

definition tauri_updateAgentSession :: "string \<Rightarrow> jsval \<Rightarrow> tauri_call" where
  "tauri_updateAgentSession sessionId request = \<lparr>tc_command = ''update_agent_session'', tc_args = (Some [(''sessionId'', Str sessionId), (''request'', request)]), tc_payload = AnyPayload\<rparr>"

definition tauri_deleteAgentSession :: "string \<Rightarrow> string \<Rightarrow> tauri_call" where
  "tauri_deleteAgentSession sessionId expectedRevision = \<lparr>tc_command = ''delete_agent_session'', tc_args = (Some [(''sessionId'', Str sessionId), (''expectedRevision'', Str expectedRevision)]), tc_payload = AnyPayload\<rparr>"

definition tauri_listAgentMessages :: "string \<Rightarrow> string \<Rightarrow> string \<Rightarrow> tauri_call" where
  "tauri_listAgentMessages sessionId startOrdinal limit = \<lparr>tc_command = ''list_agent_messages'', tc_args = (Some [(''sessionId'', Str sessionId), (''startOrdinal'', Str startOrdinal), (''limit'', Str limit)]), tc_payload = AnyPayload\<rparr>"

definition tauri_startAgentRun :: "jsval \<Rightarrow> tauri_call" where
  "tauri_startAgentRun request = \<lparr>tc_command = ''start_agent_run'', tc_args = (Some [(''request'', request)]), tc_payload = AgentRunAcceptedPayload\<rparr>"

definition tauri_agentRunSnapshot :: "string \<Rightarrow> tauri_call" where
  "tauri_agentRunSnapshot runId = \<lparr>tc_command = ''agent_run_snapshot'', tc_args = (Some [(''runId'', Str runId)]), tc_payload = AgentRunSnapshotPayload\<rparr>"

definition tauri_cancelAgentRun :: "string \<Rightarrow> tauri_call" where
  "tauri_cancelAgentRun runId = \<lparr>tc_command = ''cancel_agent_run'', tc_args = (Some [(''runId'', Str runId)]), tc_payload = CancelAgentRunPayload\<rparr>"

definition tauri_decideAgentPermission :: "string \<Rightarrow> jsval \<Rightarrow> tauri_call" where
  "tauri_decideAgentPermission permissionId request = \<lparr>tc_command = ''decide_agent_permission'', tc_args = (Some [(''permissionId'', Str permissionId), (''request'', request)]), tc_payload = AgentPermissionPayload\<rparr>"

definition tauri_startQuery :: "jsval \<Rightarrow> tauri_call" where
  "tauri_startQuery request = \<lparr>tc_command = ''start_query'', tc_args = (Some [(''request'', request)]), tc_payload = AnyPayload\<rparr>"

definition tauri_operationSnapshot :: "string \<Rightarrow> tauri_call" where
  "tauri_operationSnapshot operationId = \<lparr>tc_command = ''operation_snapshot'', tc_args = (Some [(''operationId'', Str operationId)]), tc_payload = AnyPayload\<rparr>"

definition tauri_cancelOperation :: "string \<Rightarrow> tauri_call" where
  "tauri_cancelOperation operationId = \<lparr>tc_command = ''cancel_operation'', tc_args = (Some [(''operationId'', Str operationId)]), tc_payload = AnyPayload\<rparr>"

definition tauri_resultPage :: "string \<Rightarrow> string \<Rightarrow> string \<Rightarrow> string \<Rightarrow> tauri_call" where
  "tauri_resultPage resultId offset maxRows maxBytes = \<lparr>tc_command = ''result_page'', tc_args = (Some [(''resultId'', Str resultId), (''request'', Obj [(''offset'', Str offset), (''maxRows'', Str maxRows), (''maxBytes'', Str maxBytes)])]), tc_payload = AnyPayload\<rparr>"

section \<open>The client\<close>

text \<open>The methods of \<open>BackendClient\<close>, with their arguments.\<close>

datatype (plugins only: code) backend_call =
    Health
  | ListDrivers
  | ListCommunityPlugins
  | ListCommunitySchemas jsval
  | ListCommunityDatabases jsval
  | ListCommunityTables jsval
  | ListCommunityColumns jsval
  | ListCommunityIndexes jsval
  | ListCommunityViews jsval
  | ListCommunityImportedKeys jsval
  | ListCommunityExportedKeys jsval
  | ListCommunityPrimaryKeys jsval
  | ListCommunityFunctions jsval
  | GetCommunityFunction jsval
  | ListCommunityFunctionParameters jsval
  | ListCommunityProcedures jsval
  | GetCommunityProcedure jsval
  | ListCommunityProcedureParameters jsval
  | ListCommunityTriggers jsval
  | GetCommunityTrigger jsval
  | BuildCommunityCreateSchema jsval
  | BuildCommunityDml jsval
  | BuildCommunityNamespaceSql jsval
  | ParseCommunitySql jsval
  | ValidateCommunitySql jsval
  | FormatCommunitySql jsval
  | CompleteCommunitySql jsval
  | StartCommunityTablePreview jsval
  | ListDatasources
  | CreateDatasource jsval
  | GetDatasource string
  | UpdateDatasource string jsval
  | DeleteDatasource string string
  | ListProviderProfiles
  | CreateProviderProfile jsval
  | GetProviderProfile string
  | UpdateProviderProfile string jsval
  | DeleteProviderProfile string string
  | ListAgentSessions
  | CreateAgentSession jsval
  | GetAgentSession string
  | UpdateAgentSession string jsval
  | DeleteAgentSession string string
  | ListAgentMessages string string string
  | StartAgentRun jsval
  | AgentRunSnapshot string
  | CancelAgentRun string
  | DecideAgentPermission string jsval
  | StartQuery jsval
  | OperationSnapshot string
  | CancelOperation string
  | ResultPage string string string string

primrec http_call :: "backend_call \<Rightarrow> json_call" where
  "http_call Health = http_health"
| "http_call ListDrivers = http_listDrivers"
| "http_call ListCommunityPlugins = http_listCommunityPlugins"
| "http_call (ListCommunitySchemas request) = http_listCommunitySchemas request"
| "http_call (ListCommunityDatabases request) = http_listCommunityDatabases request"
| "http_call (ListCommunityTables request) = http_listCommunityTables request"
| "http_call (ListCommunityColumns request) = http_listCommunityColumns request"
| "http_call (ListCommunityIndexes request) = http_listCommunityIndexes request"
| "http_call (ListCommunityViews request) = http_listCommunityViews request"
| "http_call (ListCommunityImportedKeys request) = http_listCommunityImportedKeys request"
| "http_call (ListCommunityExportedKeys request) = http_listCommunityExportedKeys request"
| "http_call (ListCommunityPrimaryKeys request) = http_listCommunityPrimaryKeys request"
| "http_call (ListCommunityFunctions request) = http_listCommunityFunctions request"
| "http_call (GetCommunityFunction request) = http_getCommunityFunction request"
| "http_call (ListCommunityFunctionParameters request) = http_listCommunityFunctionParameters request"
| "http_call (ListCommunityProcedures request) = http_listCommunityProcedures request"
| "http_call (GetCommunityProcedure request) = http_getCommunityProcedure request"
| "http_call (ListCommunityProcedureParameters request) = http_listCommunityProcedureParameters request"
| "http_call (ListCommunityTriggers request) = http_listCommunityTriggers request"
| "http_call (GetCommunityTrigger request) = http_getCommunityTrigger request"
| "http_call (BuildCommunityCreateSchema request) = http_buildCommunityCreateSchema request"
| "http_call (BuildCommunityDml request) = http_buildCommunityDml request"
| "http_call (BuildCommunityNamespaceSql request) = http_buildCommunityNamespaceSql request"
| "http_call (ParseCommunitySql request) = http_parseCommunitySql request"
| "http_call (ValidateCommunitySql request) = http_validateCommunitySql request"
| "http_call (FormatCommunitySql request) = http_formatCommunitySql request"
| "http_call (CompleteCommunitySql request) = http_completeCommunitySql request"
| "http_call (StartCommunityTablePreview request) = http_startCommunityTablePreview request"
| "http_call ListDatasources = http_listDatasources"
| "http_call (CreateDatasource request) = http_createDatasource request"
| "http_call (GetDatasource datasourceId) = http_getDatasource datasourceId"
| "http_call (UpdateDatasource datasourceId request) = http_updateDatasource datasourceId request"
| "http_call (DeleteDatasource datasourceId expectedRevision) = http_deleteDatasource datasourceId expectedRevision"
| "http_call ListProviderProfiles = http_listProviderProfiles"
| "http_call (CreateProviderProfile request) = http_createProviderProfile request"
| "http_call (GetProviderProfile providerId) = http_getProviderProfile providerId"
| "http_call (UpdateProviderProfile providerId request) = http_updateProviderProfile providerId request"
| "http_call (DeleteProviderProfile providerId expectedRevision) = http_deleteProviderProfile providerId expectedRevision"
| "http_call ListAgentSessions = http_listAgentSessions"
| "http_call (CreateAgentSession request) = http_createAgentSession request"
| "http_call (GetAgentSession sessionId) = http_getAgentSession sessionId"
| "http_call (UpdateAgentSession sessionId request) = http_updateAgentSession sessionId request"
| "http_call (DeleteAgentSession sessionId expectedRevision) = http_deleteAgentSession sessionId expectedRevision"
| "http_call (ListAgentMessages sessionId startOrdinal limit) = http_listAgentMessages sessionId startOrdinal limit"
| "http_call (StartAgentRun request) = http_startAgentRun request"
| "http_call (AgentRunSnapshot runId) = http_agentRunSnapshot runId"
| "http_call (CancelAgentRun runId) = http_cancelAgentRun runId"
| "http_call (DecideAgentPermission permissionId request) = http_decideAgentPermission permissionId request"
| "http_call (StartQuery request) = http_startQuery request"
| "http_call (OperationSnapshot operationId) = http_operationSnapshot operationId"
| "http_call (CancelOperation operationId) = http_cancelOperation operationId"
| "http_call (ResultPage resultId offset maxRows maxBytes) = http_resultPage resultId offset maxRows maxBytes"

primrec tauri_call_of :: "backend_call \<Rightarrow> tauri_call" where
  "tauri_call_of Health = tauri_health"
| "tauri_call_of ListDrivers = tauri_listDrivers"
| "tauri_call_of ListCommunityPlugins = tauri_listCommunityPlugins"
| "tauri_call_of (ListCommunitySchemas request) = tauri_listCommunitySchemas request"
| "tauri_call_of (ListCommunityDatabases request) = tauri_listCommunityDatabases request"
| "tauri_call_of (ListCommunityTables request) = tauri_listCommunityTables request"
| "tauri_call_of (ListCommunityColumns request) = tauri_listCommunityColumns request"
| "tauri_call_of (ListCommunityIndexes request) = tauri_listCommunityIndexes request"
| "tauri_call_of (ListCommunityViews request) = tauri_listCommunityViews request"
| "tauri_call_of (ListCommunityImportedKeys request) = tauri_listCommunityImportedKeys request"
| "tauri_call_of (ListCommunityExportedKeys request) = tauri_listCommunityExportedKeys request"
| "tauri_call_of (ListCommunityPrimaryKeys request) = tauri_listCommunityPrimaryKeys request"
| "tauri_call_of (ListCommunityFunctions request) = tauri_listCommunityFunctions request"
| "tauri_call_of (GetCommunityFunction request) = tauri_getCommunityFunction request"
| "tauri_call_of (ListCommunityFunctionParameters request) = tauri_listCommunityFunctionParameters request"
| "tauri_call_of (ListCommunityProcedures request) = tauri_listCommunityProcedures request"
| "tauri_call_of (GetCommunityProcedure request) = tauri_getCommunityProcedure request"
| "tauri_call_of (ListCommunityProcedureParameters request) = tauri_listCommunityProcedureParameters request"
| "tauri_call_of (ListCommunityTriggers request) = tauri_listCommunityTriggers request"
| "tauri_call_of (GetCommunityTrigger request) = tauri_getCommunityTrigger request"
| "tauri_call_of (BuildCommunityCreateSchema request) = tauri_buildCommunityCreateSchema request"
| "tauri_call_of (BuildCommunityDml request) = tauri_buildCommunityDml request"
| "tauri_call_of (BuildCommunityNamespaceSql request) = tauri_buildCommunityNamespaceSql request"
| "tauri_call_of (ParseCommunitySql request) = tauri_parseCommunitySql request"
| "tauri_call_of (ValidateCommunitySql request) = tauri_validateCommunitySql request"
| "tauri_call_of (FormatCommunitySql request) = tauri_formatCommunitySql request"
| "tauri_call_of (CompleteCommunitySql request) = tauri_completeCommunitySql request"
| "tauri_call_of (StartCommunityTablePreview request) = tauri_startCommunityTablePreview request"
| "tauri_call_of ListDatasources = tauri_listDatasources"
| "tauri_call_of (CreateDatasource request) = tauri_createDatasource request"
| "tauri_call_of (GetDatasource datasourceId) = tauri_getDatasource datasourceId"
| "tauri_call_of (UpdateDatasource datasourceId request) = tauri_updateDatasource datasourceId request"
| "tauri_call_of (DeleteDatasource datasourceId expectedRevision) = tauri_deleteDatasource datasourceId expectedRevision"
| "tauri_call_of ListProviderProfiles = tauri_listProviderProfiles"
| "tauri_call_of (CreateProviderProfile request) = tauri_createProviderProfile request"
| "tauri_call_of (GetProviderProfile providerId) = tauri_getProviderProfile providerId"
| "tauri_call_of (UpdateProviderProfile providerId request) = tauri_updateProviderProfile providerId request"
| "tauri_call_of (DeleteProviderProfile providerId expectedRevision) = tauri_deleteProviderProfile providerId expectedRevision"
| "tauri_call_of ListAgentSessions = tauri_listAgentSessions"
| "tauri_call_of (CreateAgentSession request) = tauri_createAgentSession request"
| "tauri_call_of (GetAgentSession sessionId) = tauri_getAgentSession sessionId"
| "tauri_call_of (UpdateAgentSession sessionId request) = tauri_updateAgentSession sessionId request"
| "tauri_call_of (DeleteAgentSession sessionId expectedRevision) = tauri_deleteAgentSession sessionId expectedRevision"
| "tauri_call_of (ListAgentMessages sessionId startOrdinal limit) = tauri_listAgentMessages sessionId startOrdinal limit"
| "tauri_call_of (StartAgentRun request) = tauri_startAgentRun request"
| "tauri_call_of (AgentRunSnapshot runId) = tauri_agentRunSnapshot runId"
| "tauri_call_of (CancelAgentRun runId) = tauri_cancelAgentRun runId"
| "tauri_call_of (DecideAgentPermission permissionId request) = tauri_decideAgentPermission permissionId request"
| "tauri_call_of (StartQuery request) = tauri_startQuery request"
| "tauri_call_of (OperationSnapshot operationId) = tauri_operationSnapshot operationId"
| "tauri_call_of (CancelOperation operationId) = tauri_cancelOperation operationId"
| "tauri_call_of (ResultPage resultId offset maxRows maxBytes) = tauri_resultPage resultId offset maxRows maxBytes"

section \<open>Answers\<close>

definition normalizeBaseUrl :: "string \<Rightarrow> string" where
  "normalizeBaseUrl baseUrl = (if endsWith baseUrl ''/'' then butlast baseUrl else baseUrl)"

record http_message =
  hm_url :: string
  hm_method :: string
  hm_headers :: "(string \<times> string) list"
  hm_body :: "string option"

definition http_message_of :: "string \<Rightarrow> json_call \<Rightarrow> http_message" where
  "http_message_of baseUrl call =
     \<lparr>hm_url = normalizeBaseUrl baseUrl @ jc_path call, hm_method = jc_method call,
      hm_headers = (''Accept'', ''application/json'') # (if jc_body call \<noteq> None then [(''Content-Type'', ''application/json'')] else []),
      hm_body = jc_body call\<rparr>"

text \<open>A response: its status, and its body as JSON (\<open>None\<close>: malformed).\<close>

record http_response =
  rs_status :: int
  rs_json :: "jsval option"

definition parseJson :: "http_response \<Rightarrow> ApiRequestError + jsval" where
  "parseJson response =
     (case rs_json response of
        Some v \<Rightarrow> Inr v
      | None \<Rightarrow> Inl (protocolError ''The runtime returned malformed JSON'' (Some (rs_status response))))"

definition apiFailure :: "http_response \<Rightarrow> ApiRequestError" where
  "apiFailure response =
     (case parseJson response of
        Inl e \<Rightarrow> e
      | Inr payload \<Rightarrow>
          if \<not> isApiError payload then protocolError ''The runtime returned an invalid error response'' (Some (rs_status response))
          else \<lparr>are_apiError = payload, are_status = Some (rs_status response)\<rparr>)"

definition json_answer :: "int list \<Rightarrow> rejected + http_response \<Rightarrow> rejected + jsval" where
  "json_answer acceptedStatuses answer =
     (case answer of
        Inl e \<Rightarrow> Inl e
      | Inr response \<Rightarrow>
          if rs_status response \<notin> set acceptedStatuses then Inl (RequestRejected (apiFailure response))
          else if rs_status response = 204 then Inr Undefined
          else (case parseJson response of Inl e \<Rightarrow> Inl (RequestRejected e) | Inr v \<Rightarrow> Inr v))"

fun payload_valid :: "payload_kind \<Rightarrow> jsval \<Rightarrow> bool" where
  "payload_valid AnyPayload v = True"
| "payload_valid AgentRunAcceptedPayload v = isAgentRunAccepted v"
| "payload_valid AgentRunSnapshotPayload v = isAgentRunSnapshot v"
| "payload_valid CancelAgentRunPayload v = isCancelAgentRunResponse v"
| "payload_valid AgentPermissionPayload v = isAgentPermissionResponse v"

fun payload_name :: "payload_kind \<Rightarrow> string" where
  "payload_name AnyPayload = []"
| "payload_name AgentRunAcceptedPayload = ''acknowledgement''"
| "payload_name AgentRunSnapshotPayload = ''snapshot''"
| "payload_name CancelAgentRunPayload = ''cancellation response''"
| "payload_name AgentPermissionPayload = ''permission response''"

definition payload_message :: "string \<Rightarrow> payload_kind \<Rightarrow> string" where
  "payload_message runtime kind =
     ''The '' @ runtime @ '' returned an invalid agent '' @ (if kind = AgentPermissionPayload then [] else ''run '') @ payload_name kind"

definition checked_payload :: "string \<Rightarrow> payload_kind \<Rightarrow> rejected + jsval \<Rightarrow> rejected + jsval" where
  "checked_payload runtime kind answer =
     (case answer of
        Inl e \<Rightarrow> Inl e
      | Inr v \<Rightarrow> if payload_valid kind v then Inr v else Inl (RequestRejected (protocolError (payload_message runtime kind) None)))"

definition http_result :: "json_call \<Rightarrow> rejected + http_response \<Rightarrow> rejected + jsval" where
  "http_result call answer = checked_payload ''runtime'' (jc_payload call) (json_answer (jc_accepted call) answer)"

definition tauri_request :: "bool \<Rightarrow> bool \<Rightarrow> promise_event list \<Rightarrow> (rejected + jsval) option" where
  "tauri_request hasSignal aborted events =
     map_option (\<lambda>r. case r of
         Inr v \<Rightarrow> Inr v
       | Inl AbortRejected \<Rightarrow> Inl AbortRejected
       | Inl e \<Rightarrow> Inl (RequestRejected (normalizeApiError e))) (withAbort hasSignal aborted events)"

definition tauri_result :: "tauri_call \<Rightarrow> bool \<Rightarrow> bool \<Rightarrow> promise_event list \<Rightarrow> (rejected + jsval) option" where
  "tauri_result call hasSignal aborted events = map_option (checked_payload ''desktop runtime'' (tc_payload call)) (tauri_request hasSignal aborted events)"

section \<open>Results of the calls\<close>

lemmas http_defs = http_health_def http_listDrivers_def http_listCommunityPlugins_def http_listCommunitySchemas_def 
  http_listCommunityDatabases_def http_listCommunityTables_def http_listCommunityColumns_def http_listCommunityIndexes_def 
  http_listCommunityViews_def http_listCommunityImportedKeys_def http_listCommunityExportedKeys_def 
  http_listCommunityPrimaryKeys_def http_listCommunityFunctions_def http_getCommunityFunction_def 
  http_listCommunityFunctionParameters_def http_listCommunityProcedures_def http_getCommunityProcedure_def 
  http_listCommunityProcedureParameters_def http_listCommunityTriggers_def http_getCommunityTrigger_def 
  http_buildCommunityCreateSchema_def http_buildCommunityDml_def http_buildCommunityNamespaceSql_def 
  http_parseCommunitySql_def http_validateCommunitySql_def http_formatCommunitySql_def http_completeCommunitySql_def 
  http_startCommunityTablePreview_def http_listDatasources_def http_createDatasource_def http_getDatasource_def 
  http_updateDatasource_def http_deleteDatasource_def http_listProviderProfiles_def http_createProviderProfile_def 
  http_getProviderProfile_def http_updateProviderProfile_def http_deleteProviderProfile_def http_listAgentSessions_def 
  http_createAgentSession_def http_getAgentSession_def http_updateAgentSession_def http_deleteAgentSession_def 
  http_listAgentMessages_def http_startAgentRun_def http_agentRunSnapshot_def http_cancelAgentRun_def 
  http_decideAgentPermission_def http_startQuery_def http_operationSnapshot_def http_cancelOperation_def 
  http_resultPage_def

lemma no_content_unchecked: "204 \<in> set (jc_accepted (http_call c)) \<Longrightarrow> jc_payload (http_call c) = AnyPayload"
  by (cases c) (simp_all add: http_defs json_call_of_def)

lemma apiFailure_valid: "isApiError (are_apiError (apiFailure response)) \<and> are_status (apiFailure response) = Some (rs_status response)"
  by (simp add: apiFailure_def parseJson_def protocolError_def split: option.splits)

text \<open>
  C8: the answer of a call is well-formed or an error. There is a result exactly when the status is one the method accepts and the payload passes
  its check (or the status says that there is none), and it is the payload; everything else is reported as a well-formed error, with the status
  of the response or, for a payload of the wrong form, without one.
\<close>

theorem http_answers_checked:
  "((\<exists>v. http_result (http_call c) (Inr response) = Inr v) \<longleftrightarrow>
      rs_status response \<in> set (jc_accepted (http_call c))
      \<and> (rs_status response = 204 \<or> (\<exists>v. rs_json response = Some v \<and> payload_valid (jc_payload (http_call c)) v)))
   \<and> (case http_result (http_call c) (Inr response) of
        Inr v \<Rightarrow> if rs_status response = 204 then v = Undefined else rs_json response = Some v
      | Inl (RequestRejected e) \<Rightarrow> isApiError (are_apiError e) \<and> (are_status e = Some (rs_status response) \<or> are_status e = None)
      | Inl _ \<Rightarrow> False)"
proof (cases "rs_status response \<in> set (jc_accepted (http_call c))")
  case True
  show ?thesis
  proof (cases "rs_status response = 204")
    case none: True
    then have "payload_valid (jc_payload (http_call c)) Undefined" using no_content_unchecked[of c] True by simp
    then show ?thesis using True none by (simp add: http_result_def checked_payload_def json_answer_def)
  next
    case False
    then show ?thesis using True
      by (cases "rs_json response") (simp_all add: http_result_def checked_payload_def json_answer_def parseJson_def, simp_all add: protocolError_def)
  qed
next
  case False
  then show ?thesis using apiFailure_valid by (simp add: http_result_def checked_payload_def json_answer_def)
qed

end
