(* ===== verification/Backend_Streams.thy ===== *)
theory Backend_Streams
  imports Backend_Calls
begin

text \<open>
  The event streams of the backend client: \<open>subscribeAgentRun\<close> and \<open>subscribeOperation\<close> of \<open>http.ts\<close> and \<open>tauri.ts\<close> in
  \<open>apps/frontend/src/backend\<close>. The two subscriptions of a transport are one text up to the checks and messages, which are a \<open>stream_kind\<close>.
  What happens to a subscription is an input, and an interleaving is a list of inputs; the calls it makes are logged, oldest first.

  Over HTTP the text of the body is cut into messages by a third-party parser, which is a parameter (\<open>feed\<close>, \<open>flush\<close>), as is
  \<open>JSON.parse\<close>. What the \<open>onEvent\<close> callback does (return, close the subscription, throw) is a parameter too; \<open>onError\<close> and
  \<open>onClose\<close> only return.
\<close>

section \<open>Kinds of streams\<close>

record stream_kind =
  sk_isEventEnvelope :: "jsval \<Rightarrow> bool"
  sk_isStreamMessage :: "jsval \<Rightarrow> bool"
  sk_idField :: string
  sk_noun :: string
  sk_subject :: string
  sk_prefix :: string
  sk_failed :: string
  sk_path :: string
  sk_subscribe :: string
  sk_unsubscribe :: string

definition agent_stream :: stream_kind where
  "agent_stream = \<lparr>sk_isEventEnvelope = isAgentEventEnvelope, sk_isStreamMessage = isAgentStreamMessage, sk_idField = ''runId'',
     sk_noun = ''agent'', sk_subject = ''agent run'', sk_prefix = ''agent '', sk_failed = ''Agent stream failed'', sk_path = ''/api/v1/agent/runs/'',
     sk_subscribe = ''subscribe_agent_run'', sk_unsubscribe = ''unsubscribe_agent_run''\<rparr>"

definition operation_stream :: stream_kind where
  "operation_stream = \<lparr>sk_isEventEnvelope = isOperationEventEnvelope, sk_isStreamMessage = isOperationStreamMessage, sk_idField = ''operationId'',
     sk_noun = ''operation'', sk_subject = ''operation'', sk_prefix = [], sk_failed = ''Operation stream failed'', sk_path = ''/api/v1/operations/'',
     sk_subscribe = ''subscribe_operation'', sk_unsubscribe = ''unsubscribe_operation''\<rparr>"

definition runtime_error :: "string list \<Rightarrow> rejected" where
  "runtime_error parts = RequestRejected (protocolError (concat parts) None)"

text \<open>\<open>BigInt(payload.sequence)\<close>, of a sequence that was checked.\<close>

definition event_sequence :: "jsval \<Rightarrow> nat" where
  "event_sequence payload = nat_of_digits (js_String (jget payload ''sequence''))"

definition not_after :: "nat \<Rightarrow> nat option \<Rightarrow> bool" where
  "not_after sequence lastSequence \<longleftrightarrow> (case lastSequence of None \<Rightarrow> False | Some l \<Rightarrow> sequence \<le> l)"

datatype stream_effect = OnEvent jsval | OnError rejected | OnClose | AbortFetch | UnsubscribeRequest string

datatype callback = CallbackReturns | CallbackCloses | CallbackThrows rejected

fun initial_sequence :: "string option \<Rightarrow> ApiRequestError + nat option" where
  "initial_sequence None = Inr None"
| "initial_sequence (Some v) = (case parseOperationCursor v of Inl e \<Rightarrow> Inl e | Inr n \<Rightarrow> Inr (Some n))"

section \<open>Streams over HTTP\<close>

record sse_message =
  sm_event :: "string option"
  sm_id :: "string option"
  sm_data :: string

record 'p http_stream =
  hs_active :: bool
  hs_lastSequence :: "nat option"
  hs_reading :: bool
  hs_parser :: 'p
  hs_log :: "stream_effect list"

record stream_response =
  sr_status :: int
  sr_json :: "jsval option"
  sr_body :: bool

definition stream_request :: "string \<Rightarrow> stream_kind \<Rightarrow> string \<Rightarrow> string option \<Rightarrow> http_message" where
  "stream_request baseUrl kind i afterSequence =
     \<lparr>hm_url = normalizeBaseUrl baseUrl @ sk_path kind @ encodeURIComponent i @ ''/events'', hm_method = ''GET'',
      hm_headers = (''Accept'', ''text/event-stream'') # (case afterSequence of Some s \<Rightarrow> [(''Last-Event-ID'', s)] | None \<Rightarrow> []), hm_body = None\<rparr>"

definition http_subscribe :: "stream_kind \<Rightarrow> 'p \<Rightarrow> string option \<Rightarrow> rejected + stream_response \<Rightarrow> rejected + 'p http_stream" where
  "http_subscribe kind parser afterSequence answer =
     (case initial_sequence afterSequence of
        Inl e \<Rightarrow> Inl (RequestRejected e)
      | Inr initial \<Rightarrow>
          (case answer of
             Inl e \<Rightarrow> Inl e
           | Inr response \<Rightarrow>
               if sr_status response \<noteq> 200 then Inl (RequestRejected (apiFailure \<lparr>rs_status = sr_status response, rs_json = sr_json response\<rparr>))
               else if \<not> sr_body response
                 then Inl (RequestRejected (protocolError (''The runtime opened an '' @ sk_prefix kind @ ''event stream without a body'') (Some (sr_status response))))
               else Inr \<lparr>hs_active = True, hs_lastSequence = initial, hs_reading = True, hs_parser = parser, hs_log = []\<rparr>))"

definition emit_http :: "stream_effect \<Rightarrow> 'p http_stream \<Rightarrow> 'p http_stream" where
  "emit_http e st = st\<lparr>hs_log := hs_log st @ [e]\<rparr>"

definition http_close :: "'p http_stream \<Rightarrow> 'p http_stream" where
  "http_close st = (if \<not> hs_active st then st else emit_http AbortFetch (st\<lparr>hs_active := False\<rparr>))"

text \<open>The callback of the parser: the state it leaves, and what it throws.\<close>

definition deliver_http :: "(jsval \<Rightarrow> callback) \<Rightarrow> jsval \<Rightarrow> 'p http_stream \<Rightarrow> 'p http_stream \<times> rejected option" where
  "deliver_http react payload st =
     (if \<not> hs_active st then (st, None)
      else
        let st' = emit_http (OnEvent payload) st in
        case react payload of
          CallbackReturns \<Rightarrow> (st', None)
        | CallbackCloses \<Rightarrow> (http_close st', None)
        | CallbackThrows e \<Rightarrow> (st', Some e))"

definition truthy_differs :: "string option \<Rightarrow> jsval \<Rightarrow> bool" where
  "truthy_differs s v \<longleftrightarrow> truthy_str s \<and> Str (the s) \<noteq> v"

definition parser_event :: "stream_kind \<Rightarrow> string \<Rightarrow> (string \<Rightarrow> jsval option) \<Rightarrow> (jsval \<Rightarrow> callback) \<Rightarrow> sse_message \<Rightarrow> 'p http_stream
    \<Rightarrow> 'p http_stream \<times> rejected option" where
  "parser_event kind i json react message st =
     (case json (sm_data message) of
        None \<Rightarrow> (st, Some (runtime_error [''The runtime emitted malformed '', sk_noun kind, '' event JSON'']))
      | Some payload \<Rightarrow>
          if sm_event message = Some ''error''
          then (st, Some (if \<not> isApiError payload then runtime_error [''The runtime emitted an invalid '', sk_prefix kind, ''stream error'']
                          else RequestRejected \<lparr>are_apiError = payload, are_status = None\<rparr>))
          else if \<not> sk_isEventEnvelope kind payload \<or> jget payload (sk_idField kind) \<noteq> Str i
          then (st, Some (runtime_error [''The runtime emitted an invalid '', sk_noun kind, '' event'']))
          else if truthy_differs (sm_id message) (jget payload ''sequence'')
            \<or> truthy_differs (sm_event message) (jget (jget payload ''event'') ''type'')
          then (st, Some (runtime_error [''The runtime emitted inconsistent '', sk_noun kind, '' event metadata'']))
          else if not_after (event_sequence payload) (hs_lastSequence st)
          then (st, Some (runtime_error [''The runtime emitted an out-of-order '', sk_noun kind, '' event'']))
          else deliver_http react payload (st\<lparr>hs_lastSequence := Some (event_sequence payload)\<rparr>))"

fun parser_events :: "stream_kind \<Rightarrow> string \<Rightarrow> (string \<Rightarrow> jsval option) \<Rightarrow> (jsval \<Rightarrow> callback) \<Rightarrow> sse_message list \<Rightarrow> 'p http_stream
    \<Rightarrow> 'p http_stream \<times> rejected option" where
  "parser_events kind i json react [] st = (st, None)"
| "parser_events kind i json react (message # messages) st =
     (case parser_event kind i json react message st of
        (st', Some e) \<Rightarrow> (st', Some e)
      | (st', None) \<Rightarrow> parser_events kind i json react messages st')"

text \<open>The \<open>finally\<close> and the \<open>catch\<close> of the reading loop.\<close>

definition finish_reading :: "'p http_stream \<Rightarrow> 'p http_stream" where
  "finish_reading st = emit_http OnClose (st\<lparr>hs_active := False, hs_reading := False\<rparr>)"

fun is_error :: "rejected \<Rightarrow> bool" where
  "is_error (OtherRejected v) = False"
| "is_error _ = True"

definition catch_reading :: "stream_kind \<Rightarrow> rejected \<Rightarrow> 'p http_stream \<Rightarrow> 'p http_stream" where
  "catch_reading kind e st =
     finish_reading
       (if hs_active st \<and> e \<noteq> AbortRejected
        then emit_http AbortFetch (emit_http (OnError (if is_error e then e else runtime_error [sk_failed kind])) st)
        else st)"

datatype http_input = ReadText string | ReadEnd | ReadFailed rejected | CloseCalled

fun http_step :: "stream_kind \<Rightarrow> string \<Rightarrow> (string \<Rightarrow> jsval option) \<Rightarrow> (jsval \<Rightarrow> callback) \<Rightarrow> ('p \<Rightarrow> string \<Rightarrow> sse_message list \<times> 'p)
    \<Rightarrow> ('p \<Rightarrow> sse_message list) \<Rightarrow> 'p http_stream \<Rightarrow> http_input \<Rightarrow> 'p http_stream" where
  "http_step kind i json react feed flush st CloseCalled = http_close st"
| "http_step kind i json react feed flush st (ReadText s) =
     (if \<not> hs_reading st then st
      else
        let (messages, parser) = feed (hs_parser st) s in
        case parser_events kind i json react messages (st\<lparr>hs_parser := parser\<rparr>) of
          (st', Some e) \<Rightarrow> catch_reading kind e st'
        | (st', None) \<Rightarrow> if hs_active st' then st' else finish_reading st')"
| "http_step kind i json react feed flush st ReadEnd =
     (if \<not> hs_reading st then st
      else case parser_events kind i json react (flush (hs_parser st)) st of
          (st', Some e) \<Rightarrow> catch_reading kind e st'
        | (st', None) \<Rightarrow> finish_reading st')"
| "http_step kind i json react feed flush st (ReadFailed e) = (if \<not> hs_reading st then st else catch_reading kind e st)"

section \<open>Streams of Tauri\<close>

datatype subscribe_phase = Opening | Opened | OpeningFailed rejected

record tauri_stream =
  ts_active :: bool
  ts_subscriptionId :: "string option"
  ts_lastSequence :: "nat option"
  ts_aborted :: bool
  ts_phase :: subscribe_phase
  ts_log :: "stream_effect list"

definition emit_tauri :: "stream_effect \<Rightarrow> tauri_stream \<Rightarrow> tauri_stream" where
  "emit_tauri e st = st\<lparr>ts_log := ts_log st @ [e]\<rparr>"

definition unsubscribe :: "tauri_stream \<Rightarrow> tauri_stream" where
  "unsubscribe st =
     (case ts_subscriptionId st of
        None \<Rightarrow> st
      | Some releasedId \<Rightarrow> emit_tauri (UnsubscribeRequest releasedId) (st\<lparr>ts_subscriptionId := None\<rparr>))"

definition tauri_close :: "tauri_stream \<Rightarrow> tauri_stream" where
  "tauri_close st = (if \<not> ts_active st then st else emit_tauri OnClose (unsubscribe (st\<lparr>ts_active := False\<rparr>)))"

definition tauri_fail :: "rejected \<Rightarrow> tauri_stream \<Rightarrow> tauri_stream" where
  "tauri_fail e st = (if \<not> ts_active st then st else tauri_close (emit_tauri (OnError e) st))"

definition deliver_tauri :: "(jsval \<Rightarrow> callback) \<Rightarrow> jsval \<Rightarrow> tauri_stream \<Rightarrow> tauri_stream" where
  "deliver_tauri react event st =
     (let st' = emit_tauri (OnEvent event) (st\<lparr>ts_lastSequence := Some (event_sequence event)\<rparr>)
      in case react event of CallbackCloses \<Rightarrow> tauri_close st' | _ \<Rightarrow> st')"

definition channel_message :: "stream_kind \<Rightarrow> string \<Rightarrow> (jsval \<Rightarrow> callback) \<Rightarrow> jsval \<Rightarrow> tauri_stream \<Rightarrow> tauri_stream" where
  "channel_message kind i react message st =
     (if \<not> ts_active st then st
      else if \<not> sk_isStreamMessage kind message
      then tauri_fail (runtime_error [''The desktop runtime emitted an invalid '', sk_noun kind, '' stream message'']) st
      else if jget message ''type'' = Str ''error'' then tauri_fail (RequestRejected (normalizeApiError (OtherRejected (jget message ''error'')))) st
      else if jget message ''type'' = Str ''end'' then tauri_close st
      else
        let event = jget message ''event'' in
        if jget event (sk_idField kind) \<noteq> Str i
        then tauri_fail (runtime_error [''The desktop runtime emitted an event for another '', sk_subject kind]) st
        else if not_after (event_sequence event) (ts_lastSequence st)
        then tauri_fail (runtime_error [''The desktop runtime emitted an out-of-order '', sk_noun kind, '' event'']) st
        else deliver_tauri react event st)"

text \<open>Up to the request; when the signal is aborted already, the subscription is closed and the call throws.\<close>

definition tauri_subscribe :: "string option \<Rightarrow> bool \<Rightarrow> ApiRequestError + tauri_stream" where
  "tauri_subscribe afterSequence aborted =
     (case initial_sequence afterSequence of
        Inl e \<Rightarrow> Inl e
      | Inr initial \<Rightarrow>
          let st = \<lparr>ts_active = True, ts_subscriptionId = None, ts_lastSequence = initial, ts_aborted = aborted, ts_phase = Opening, ts_log = []\<rparr>
          in Inr (if aborted then (tauri_close st)\<lparr>ts_phase := OpeningFailed AbortRejected\<rparr> else st))"

text \<open>The answer is what the request gives, its errors normalised.\<close>

definition subscription_answered :: "stream_kind \<Rightarrow> rejected + jsval \<Rightarrow> tauri_stream \<Rightarrow> tauri_stream" where
  "subscription_answered kind answer st =
     (if ts_phase st \<noteq> Opening then st
      else case answer of
        Inl e \<Rightarrow> (tauri_close st)\<lparr>ts_phase := OpeningFailed e\<rparr>
      | Inr accepted \<Rightarrow>
          if \<not> subscription_accepted accepted
          then (tauri_close st)\<lparr>ts_phase :=
                 OpeningFailed (runtime_error [''The desktop runtime returned an invalid '', sk_prefix kind, ''subscription id''])\<rparr>
          else
            let st' = st\<lparr>ts_subscriptionId := Some (js_String (jget accepted ''subscriptionId''))\<rparr>;
                st'' = (if \<not> ts_active st' \<or> ts_aborted st' then unsubscribe st' else st')
            in if ts_aborted st' then (tauri_close st'')\<lparr>ts_phase := OpeningFailed AbortRejected\<rparr> else st''\<lparr>ts_phase := Opened\<rparr>)"

datatype tauri_input = ChannelMessage jsval | SubscriptionAnswered "rejected + jsval" | SignalAborted | CloseRequested

fun tauri_step :: "stream_kind \<Rightarrow> string \<Rightarrow> (jsval \<Rightarrow> callback) \<Rightarrow> tauri_stream \<Rightarrow> tauri_input \<Rightarrow> tauri_stream" where
  "tauri_step kind i react st (ChannelMessage message) = channel_message kind i react message st"
| "tauri_step kind i react st (SubscriptionAnswered answer) = subscription_answered kind answer st"
| "tauri_step kind i react st SignalAborted = tauri_close (st\<lparr>ts_aborted := True\<rparr>)"
| "tauri_step kind i react st CloseRequested = tauri_close st"

end
