(* ===== verification/Backend_Contract.thy ===== *)
theory Backend_Contract
  imports Backend_Streams
begin

text \<open>
  What the subscriptions of the backend client promise, over both transports and for both kinds of streams: the contract \<open>event_subscription\<close>,
  its interpretations, and the composition with the observers, which rely on it.
\<close>

section \<open>The contract\<close>

fun event_of :: "stream_effect \<Rightarrow> jsval option" where
  "event_of (OnEvent v) = Some v"
| "event_of _ = None"

definition delivered :: "stream_effect list \<Rightarrow> jsval list" where
  "delivered log = List.map_filter event_of log"

fun is_callback :: "stream_effect \<Rightarrow> bool" where
  "is_callback (OnEvent v) = True"
| "is_callback (OnError e) = True"
| "is_callback OnClose = True"
| "is_callback _ = False"

text \<open>After an error there are no events and no further error; after the close there are no callbacks at all.\<close>

fun calls_ordered :: "stream_effect list \<Rightarrow> bool" where
  "calls_ordered [] = True"
| "calls_ordered (OnClose # rest) = list_all (\<lambda>e. \<not> is_callback e) rest"
| "calls_ordered (OnError e # rest) = (list_all (\<lambda>e. \<not> is_callback e \<or> e = OnClose) rest \<and> calls_ordered rest)"
| "calls_ordered (e # rest) = calls_ordered rest"

definition events_ordered :: "stream_kind \<Rightarrow> string \<Rightarrow> nat option \<Rightarrow> jsval list \<Rightarrow> bool" where
  "events_ordered kind i afterSequence events \<longleftrightarrow>
     list_all (\<lambda>v. sk_isEventEnvelope kind v \<and> jget v (sk_idField kind) = Str i \<and> \<not> not_after (event_sequence v) afterSequence) events
     \<and> sorted_wrt (<) (map event_sequence events)"

definition stream_log_ok :: "stream_kind \<Rightarrow> string \<Rightarrow> nat option \<Rightarrow> stream_effect list \<Rightarrow> bool" where
  "stream_log_ok kind i afterSequence log \<longleftrightarrow> calls_ordered log \<and> events_ordered kind i afterSequence (delivered log)"

lemma delivered_append [simp]: "delivered (l @ l') = delivered l @ delivered l'"
  by (simp add: delivered_def map_filter_def)

lemma delivered_simps [simp]: "delivered [] = []" "delivered [OnEvent v] = [v]" "delivered [OnError e] = []" "delivered [OnClose] = []"
  "delivered [AbortFetch] = []" "delivered [UnsubscribeRequest s] = []"
  by (simp_all add: delivered_def map_filter_def)

lemma calls_ordered_snoc:
  "calls_ordered (l @ [e]) \<longleftrightarrow> calls_ordered l
     \<and> (is_callback e \<longrightarrow> OnClose \<notin> set l) \<and> (is_callback e \<and> e \<noteq> OnClose \<longrightarrow> (\<forall>x. OnError x \<notin> set l))"
  by (induction l rule: calls_ordered.induct) (cases e; auto)+

text \<open>A subscription starts with an invariant that every input keeps, and the invariant implies the contract.\<close>

locale event_subscription = input_machine step inv
  for step :: "'s \<Rightarrow> 'i \<Rightarrow> 's" and inv :: "'s \<Rightarrow> bool" +
  fixes log_of :: "'s \<Rightarrow> stream_effect list" and is_open :: "'s \<Rightarrow> bool" and kind :: stream_kind and i :: string and afterSequence :: "nat option"
  assumes inv_log: "inv s \<Longrightarrow> stream_log_ok kind i afterSequence (log_of s)"
    and inv_closed: "inv s \<Longrightarrow> is_open s \<longleftrightarrow> OnClose \<notin> set (log_of s)"
begin

lemma run_log_ok: "inv s \<Longrightarrow> stream_log_ok kind i afterSequence (log_of (foldl step s inputs))"
  using inv_log run_keeps by blast

lemma run_closed_once: "inv s \<Longrightarrow> count_list (log_of (foldl step s inputs)) OnClose = (if is_open (foldl step s inputs) then 0 else 1)"
proof -
  assume "inv s"
  then have inv: "inv (foldl step s inputs)" by (rule run_keeps)
  have once: "calls_ordered l \<Longrightarrow> count_list l OnClose = (if OnClose \<in> set l then 1 else 0)" for l
  proof (induction l rule: calls_ordered.induct)
    case (2 rest)
    then have "OnClose \<notin> set rest" by (auto simp: list_all_iff)
    then show ?case by simp
  qed auto
  show ?thesis using once inv_log[OF inv] inv_closed[OF inv] by (auto simp: stream_log_ok_def)
qed

end

section \<open>Streams over HTTP\<close>

definition up_to :: "nat option \<Rightarrow> nat option \<Rightarrow> jsval list \<Rightarrow> bool" where
  "up_to afterSequence lastSequence events \<longleftrightarrow>
     (case lastSequence of
        None \<Rightarrow> afterSequence = None \<and> events = []
      | Some l \<Rightarrow> (case afterSequence of None \<Rightarrow> True | Some a \<Rightarrow> a \<le> l) \<and> list_all (\<lambda>v. event_sequence v \<le> l) events)"

definition http_inv :: "stream_kind \<Rightarrow> string \<Rightarrow> nat option \<Rightarrow> 'p http_stream \<Rightarrow> bool" where
  "http_inv kind i afterSequence st \<longleftrightarrow> stream_log_ok kind i afterSequence (hs_log st) \<and> up_to afterSequence (hs_lastSequence st) (delivered (hs_log st))
     \<and> (hs_reading st \<longleftrightarrow> OnClose \<notin> set (hs_log st)) \<and> (hs_reading st \<longrightarrow> (\<forall>e. OnError e \<notin> set (hs_log st)))
     \<and> (hs_active st \<longrightarrow> hs_reading st)"

lemma next_event:
  assumes "events_ordered kind i afterSequence events" "up_to afterSequence lastSequence events"
    "\<not> not_after (event_sequence v) lastSequence" "sk_isEventEnvelope kind v" "jget v (sk_idField kind) = Str i"
  shows "events_ordered kind i afterSequence (events @ [v])" "up_to afterSequence (Some (event_sequence v)) (events @ [v])"
proof -
  have above: "\<forall>x\<in>set events. event_sequence x < event_sequence v"
    using assms(2,3) by (auto simp: up_to_def not_after_def list_all_iff split: option.splits)
  have start: "\<not> not_after (event_sequence v) afterSequence"
    using assms(2,3) by (auto simp: up_to_def not_after_def split: option.splits)
  show "events_ordered kind i afterSequence (events @ [v])"
    using assms(1,4,5) above start by (auto simp: events_ordered_def sorted_wrt_append)
  show "up_to afterSequence (Some (event_sequence v)) (events @ [v])"
    using above start by (auto simp: up_to_def not_after_def list_all_iff order_less_imp_le split: option.splits)
qed

lemma log_ok_append:
  assumes "stream_log_ok kind i afterSequence log" "\<not> is_callback e \<or> e = OnClose \<and> OnClose \<notin> set log
      \<or> (\<exists>x. e = OnError x) \<and> OnClose \<notin> set log \<and> (\<forall>x. OnError x \<notin> set log)"
  shows "stream_log_ok kind i afterSequence (log @ [e])" "delivered (log @ [e]) = delivered log"
  using assms by (cases e; auto simp: stream_log_ok_def calls_ordered_snoc)+

lemma log_ok_failure:
  assumes "stream_log_ok kind i afterSequence log" "OnClose \<notin> set log" "\<forall>x. OnError x \<notin> set log"
  shows "stream_log_ok kind i afterSequence (log @ [OnError e, AbortFetch, OnClose])" "delivered (log @ [OnError e, AbortFetch, OnClose]) = delivered log"
proof -
  have "stream_log_ok kind i afterSequence (((log @ [OnError e]) @ [AbortFetch]) @ [OnClose])"
    using assms by (intro log_ok_append) auto
  then show "stream_log_ok kind i afterSequence (log @ [OnError e, AbortFetch, OnClose])" by simp
  show "delivered (log @ [OnError e, AbortFetch, OnClose]) = delivered log" by (simp add: delivered_def map_filter_def)
qed

lemma http_close_inv: "http_inv kind i a st \<Longrightarrow> http_inv kind i a (http_close st)"
  by (auto simp: http_inv_def http_close_def emit_http_def log_ok_append)

lemma finish_reading_inv: "http_inv kind i a st \<Longrightarrow> hs_reading st \<Longrightarrow> http_inv kind i a (finish_reading st)"
  by (auto simp: http_inv_def finish_reading_def emit_http_def log_ok_append)

lemma catch_reading_inv: "http_inv kind i a st \<Longrightarrow> hs_reading st \<Longrightarrow> http_inv kind i a (catch_reading kind e st)"
  by (auto simp: http_inv_def catch_reading_def finish_reading_def emit_http_def log_ok_append log_ok_failure
      simp del: delivered_append)

lemma close_reading [simp]: "hs_reading (http_close st) = hs_reading st"
  by (simp add: http_close_def emit_http_def)

lemma deliver_http_inv:
  assumes "http_inv kind i a st" "hs_reading st" "\<not> not_after (event_sequence v) (hs_lastSequence st)" "sk_isEventEnvelope kind v"
    "jget v (sk_idField kind) = Str i"
  shows "http_inv kind i a (fst (deliver_http react v (st\<lparr>hs_lastSequence := Some (event_sequence v)\<rparr>)))"
    "hs_reading (fst (deliver_http react v (st\<lparr>hs_lastSequence := Some (event_sequence v)\<rparr>)))"
proof -
  let ?st = "st\<lparr>hs_lastSequence := Some (event_sequence v)\<rparr>"
  have ordered: "events_ordered kind i a (delivered (hs_log st))" "up_to a (hs_lastSequence st) (delivered (hs_log st))"
    using assms(1) by (simp_all add: http_inv_def stream_log_ok_def)
  note nxt = next_event[OF ordered assms(3-5)]
  have skipped: "http_inv kind i a ?st" if "\<not> hs_active st"
  proof -
    have "up_to a (Some (event_sequence v)) (delivered (hs_log st))" using nxt(2) by (auto simp: up_to_def split: option.splits)
    then show ?thesis using assms(1) by (auto simp: http_inv_def)
  qed
  have emitted: "http_inv kind i a (emit_http (OnEvent v) ?st)"
    using assms(1,2) nxt by (auto simp: http_inv_def emit_http_def stream_log_ok_def calls_ordered_snoc)
  show "http_inv kind i a (fst (deliver_http react v ?st))"
    using skipped emitted http_close_inv[OF emitted] by (auto simp: deliver_http_def Let_def split: callback.splits)
  show "hs_reading (fst (deliver_http react v ?st))"
    using assms(2) by (auto simp: deliver_http_def emit_http_def Let_def split: callback.splits)
qed

lemma parser_event_inv:
  assumes "http_inv kind i a st" "hs_reading st"
  shows "http_inv kind i a (fst (parser_event kind i json react message st)) \<and> hs_reading (fst (parser_event kind i json react message st))"
  using assms deliver_http_inv[OF assms] by (auto simp: parser_event_def split: option.splits)

lemma parser_events_inv:
  assumes "http_inv kind i a st" "hs_reading st"
  shows "http_inv kind i a (fst (parser_events kind i json react messages st)) \<and> hs_reading (fst (parser_events kind i json react messages st))"
  using assms
proof (induction messages arbitrary: st)
  case (Cons message messages)
  obtain st' r where step: "parser_event kind i json react message st = (st', r)" by (cases "parser_event kind i json react message st")
  then have "http_inv kind i a st'" "hs_reading st'" using parser_event_inv[OF Cons.prems, of json react message] by simp_all
  then show ?case using Cons.IH[of st'] step by (cases r) simp_all
qed simp

lemma http_step_inv:
  assumes "http_inv kind i a st"
  shows "http_inv kind i a (http_step kind i json react feed flush st input)"
proof (cases input)
  case (ReadText s)
  show ?thesis
  proof (cases "hs_reading st")
    case True
    obtain messages parser where fed: "feed (hs_parser st) s = (messages, parser)" by (cases "feed (hs_parser st) s")
    have "http_inv kind i a (st\<lparr>hs_parser := parser\<rparr>)" "hs_reading (st\<lparr>hs_parser := parser\<rparr>)" using assms True by (simp_all add: http_inv_def)
    note inv = parser_events_inv[OF this, of json react messages]
    obtain st' r where run: "parser_events kind i json react messages (st\<lparr>hs_parser := parser\<rparr>) = (st', r)"
      by (cases "parser_events kind i json react messages (st\<lparr>hs_parser := parser\<rparr>)")
    then show ?thesis using inv fed True ReadText catch_reading_inv[of kind i a st'] finish_reading_inv[of kind i a st'] by (cases r) auto
  qed (use assms ReadText in simp)
next
  case ReadEnd
  show ?thesis
  proof (cases "hs_reading st")
    case True
    obtain st' r where run: "parser_events kind i json react (flush (hs_parser st)) st = (st', r)"
      by (cases "parser_events kind i json react (flush (hs_parser st)) st")
    then show ?thesis using parser_events_inv[OF assms True, of json react "flush (hs_parser st)"] True ReadEnd
        catch_reading_inv[of kind i a st'] finish_reading_inv[of kind i a st'] by (cases r) auto
  qed (use assms ReadEnd in simp)
qed (use assms catch_reading_inv http_close_inv in auto)

interpretation http_events: event_subscription "http_step kind i json react feed flush" "http_inv kind i a" hs_log hs_reading kind i a
  for kind i json react feed flush a
proof unfold_locales
  fix st input
  show "http_inv kind i a st \<Longrightarrow> http_inv kind i a (http_step kind i json react feed flush st input)" by (rule http_step_inv)
qed (auto simp: http_inv_def)

section \<open>Streams of Tauri\<close>

definition tauri_inv :: "stream_kind \<Rightarrow> string \<Rightarrow> nat option \<Rightarrow> tauri_stream \<Rightarrow> bool" where
  "tauri_inv kind i afterSequence st \<longleftrightarrow> stream_log_ok kind i afterSequence (ts_log st) \<and> up_to afterSequence (ts_lastSequence st) (delivered (ts_log st))
     \<and> (ts_active st \<longleftrightarrow> OnClose \<notin> set (ts_log st)) \<and> (ts_active st \<longrightarrow> (\<forall>e. OnError e \<notin> set (ts_log st)))"

lemma unsubscribe_log:
  "stream_log_ok kind i a (ts_log st) \<Longrightarrow> stream_log_ok kind i a (ts_log (unsubscribe st))"
  "delivered (ts_log (unsubscribe st)) = delivered (ts_log st)"
  "OnClose \<in> set (ts_log (unsubscribe st)) \<longleftrightarrow> OnClose \<in> set (ts_log st)"
  "OnError e \<in> set (ts_log (unsubscribe st)) \<longleftrightarrow> OnError e \<in> set (ts_log st)"
  "ts_active (unsubscribe st) = ts_active st" "ts_lastSequence (unsubscribe st) = ts_lastSequence st"
  by (auto simp: unsubscribe_def emit_tauri_def log_ok_append split: option.splits)

lemma unsubscribe_inv: "tauri_inv kind i a st \<Longrightarrow> tauri_inv kind i a (unsubscribe st)"
  by (simp add: tauri_inv_def unsubscribe_log)

text \<open>Closing needs no more than that the subscription is open.\<close>

lemma close_open_inv:
  assumes "ts_active st" "stream_log_ok kind i a (ts_log st)" "up_to a (ts_lastSequence st) (delivered (ts_log st))" "OnClose \<notin> set (ts_log st)"
  shows "tauri_inv kind i a (tauri_close st)"
proof -
  let ?released = "unsubscribe (st\<lparr>ts_active := False\<rparr>)"
  have "stream_log_ok kind i a (ts_log ?released)" "OnClose \<notin> set (ts_log ?released)" using assms by (simp_all add: unsubscribe_log)
  then show ?thesis using assms by (simp add: tauri_inv_def tauri_close_def emit_tauri_def log_ok_append unsubscribe_log)
qed

lemma tauri_close_inv: "tauri_inv kind i a st \<Longrightarrow> tauri_inv kind i a (tauri_close st)"
  using close_open_inv[of st kind i a] by (cases "ts_active st") (auto simp: tauri_inv_def[of _ _ _ st] tauri_close_def[of st] split: if_splits)

lemma tauri_fail_inv: "tauri_inv kind i a st \<Longrightarrow> tauri_inv kind i a (tauri_fail e st)"
proof (cases "ts_active st")
  case True
  assume inv: "tauri_inv kind i a st"
  have "tauri_inv kind i a (tauri_close (emit_tauri (OnError e) st))"
    using inv True by (intro close_open_inv) (auto simp: tauri_inv_def emit_tauri_def log_ok_append)
  then show ?thesis using True by (simp add: tauri_fail_def)
qed (simp add: tauri_fail_def)

lemma tauri_phase_inv [simp]: "tauri_inv kind i a (st\<lparr>ts_phase := p\<rparr>) = tauri_inv kind i a st" "tauri_inv kind i a (st\<lparr>ts_aborted := b\<rparr>) = tauri_inv kind i a st"
  "tauri_inv kind i a (st\<lparr>ts_subscriptionId := s\<rparr>) = tauri_inv kind i a st"
  by (simp_all add: tauri_inv_def)

lemma deliver_tauri_inv:
  assumes "tauri_inv kind i a st" "ts_active st" "\<not> not_after (event_sequence v) (ts_lastSequence st)" "sk_isEventEnvelope kind v"
    "jget v (sk_idField kind) = Str i"
  shows "tauri_inv kind i a (deliver_tauri react v st)"
proof -
  have ordered: "events_ordered kind i a (delivered (ts_log st))" "up_to a (ts_lastSequence st) (delivered (ts_log st))"
    using assms(1) by (simp_all add: tauri_inv_def stream_log_ok_def)
  have "tauri_inv kind i a (emit_tauri (OnEvent v) (st\<lparr>ts_lastSequence := Some (event_sequence v)\<rparr>))"
    using assms(1,2) next_event[OF ordered assms(3-5)] by (auto simp: tauri_inv_def emit_tauri_def stream_log_ok_def calls_ordered_snoc)
  then show ?thesis using tauri_close_inv by (auto simp: deliver_tauri_def Let_def split: callback.splits)
qed

text \<open>The kinds whose messages carry checked events.\<close>

definition checked_kind :: "stream_kind \<Rightarrow> bool" where
  "checked_kind kind \<longleftrightarrow> sk_isStreamMessage kind = stream_message (sk_isEventEnvelope kind)"

lemma kinds_checked: "checked_kind agent_stream" "checked_kind operation_stream"
  by (simp_all add: checked_kind_def agent_stream_def operation_stream_def fun_eq_iff isAgentStreamMessage_def isOperationStreamMessage_def)

lemma channel_message_inv:
  assumes "checked_kind kind" "tauri_inv kind i a st"
  shows "tauri_inv kind i a (channel_message kind i react message st)"
proof (cases "ts_active st \<and> sk_isStreamMessage kind message \<and> jget message ''type'' \<noteq> Str ''error'' \<and> jget message ''type'' \<noteq> Str ''end''")
  case True
  then have "sk_isEventEnvelope kind (jget message ''event'')" using assms(1) by (auto simp: checked_kind_def stream_message_def split: if_splits)
  then show ?thesis using True assms(2) tauri_fail_inv deliver_tauri_inv by (auto simp: channel_message_def Let_def)
qed (use assms(2) tauri_fail_inv tauri_close_inv in \<open>auto simp: channel_message_def\<close>)

lemma subscription_answered_inv:
  assumes "tauri_inv kind i a st"
  shows "tauri_inv kind i a (subscription_answered kind answer st)"
  using assms tauri_close_inv unsubscribe_inv by (cases answer) (auto simp: subscription_answered_def Let_def)

lemma tauri_step_inv:
  assumes "checked_kind kind" "tauri_inv kind i a st"
  shows "tauri_inv kind i a (tauri_step kind i react st input)"
  using assms channel_message_inv subscription_answered_inv tauri_close_inv by (cases input) simp_all

lemma tauri_inv_contract:
  "tauri_inv kind i a st \<Longrightarrow> stream_log_ok kind i a (ts_log st)" "tauri_inv kind i a st \<Longrightarrow> ts_active st \<longleftrightarrow> OnClose \<notin> set (ts_log st)"
  by (simp_all add: tauri_inv_def)

interpretation tauri_agent_events: event_subscription "tauri_step agent_stream i react" "tauri_inv agent_stream i a" ts_log ts_active agent_stream i a
  for i react a
  by unfold_locales (use tauri_step_inv[OF kinds_checked(1)] tauri_inv_contract in blast)+

interpretation tauri_operation_events: event_subscription "tauri_step operation_stream i react" "tauri_inv operation_stream i a" ts_log ts_active operation_stream i a
  for i react a
  by unfold_locales (use tauri_step_inv[OF kinds_checked(2)] tauri_inv_contract in blast)+

section \<open>Properties\<close>

lemma http_subscribe_inv:
  assumes "http_subscribe kind parser afterSequence answer = Inr st" "initial_sequence afterSequence = Inr a"
  shows "http_inv kind i a st"
  using assms by (auto simp: http_subscribe_def http_inv_def stream_log_ok_def events_ordered_def up_to_def split: sum.splits if_splits option.splits)

text \<open>
  C4: a subscription over HTTP keeps the contract of event streams, whatever the network, the parser and the callbacks do. Every event that is
  delivered was checked, is one of the run or operation that was subscribed to, has a larger sequence than the one before and than the cursor;
  after an error there are no events, after the close no callbacks, and the close is reported exactly once, when reading has ended.
\<close>

theorem http_subscription_contract:
  assumes "http_subscribe kind parser afterSequence answer = Inr st" "initial_sequence afterSequence = Inr a"
  shows "let st' = foldl (http_step kind i json react feed flush) st inputs
    in stream_log_ok kind i a (hs_log st') \<and> count_list (hs_log st') OnClose = (if hs_reading st' then 0 else 1)"
  using http_events.run_log_ok http_events.run_closed_once http_subscribe_inv[OF assms] by (metis (no_types))

text \<open>An operation whose two events arrive in two pieces, after which the connection ends.\<close>

definition example_event :: "string \<Rightarrow> jsval \<Rightarrow> jsval" where
  "example_event sequence event =
     Obj [(''operationId'', Str ''op''), (''sequence'', Str sequence), (''occurredAtMs'', Str ''7''), (''event'', event)]"

theorem http_subscription_contract_witness:
  "let started = example_event ''1'' (Obj [(''type'', Str ''started'')]);
       progress = example_event ''2'' (Obj [(''type'', Str ''progress''), (''rowCount'', Str ''5''), (''byteCount'', Str ''40'')]);
       json = (\<lambda>s. if s = ''s'' then Some started else if s = ''p'' then Some progress else None);
       feed = (\<lambda>(p :: unit) s. ([\<lparr>sm_event = None, sm_id = None, sm_data = s\<rparr>], p));
       st = \<lparr>hs_active = True, hs_lastSequence = Some 0, hs_reading = True, hs_parser = (), hs_log = []\<rparr>;
       st' = foldl (http_step operation_stream ''op'' json (\<lambda>_. CallbackReturns) feed (\<lambda>_. [])) st [ReadText ''s'', ReadText ''p'', ReadEnd]
   in http_subscribe operation_stream () (Some ''0'') (Inr \<lparr>sr_status = 200, sr_json = None, sr_body = True\<rparr>) = Inr st
      \<and> hs_log st' = [OnEvent started, OnEvent progress, OnClose] \<and> stream_log_ok operation_stream ''op'' (Some 0) (hs_log st')"
proof -
  let ?started = "example_event ''1'' (Obj [(''type'', Str ''started'')])"
  let ?progress = "example_event ''2'' (Obj [(''type'', Str ''progress''), (''rowCount'', Str ''5''), (''byteCount'', Str ''40'')])"
  let ?json = "\<lambda>s. if s = ''s'' then Some ?started else if s = ''p'' then Some ?progress else None"
  let ?feed = "\<lambda>(p :: unit) s. ([\<lparr>sm_event = None, sm_id = None, sm_data = s\<rparr>], p)"
  let ?st = "\<lparr>hs_active = True, hs_lastSequence = Some 0, hs_reading = True, hs_parser = (), hs_log = []\<rparr>"
  have opened: "http_subscribe operation_stream () (Some ''0'') (Inr \<lparr>sr_status = 200, sr_json = None, sr_body = True\<rparr>) = Inr ?st"
    by (simp add: http_subscribe_def parseOperationCursor_def is_digit_def nat_of_digits_def digit_val_def MAX_U64_def)
  have cursor: "initial_sequence (Some ''0'') = Inr (Some 0)"
    by (simp add: parseOperationCursor_def is_digit_def nat_of_digits_def digit_val_def MAX_U64_def)
  have "hs_log (foldl (http_step operation_stream ''op'' ?json (\<lambda>_. CallbackReturns) ?feed (\<lambda>_. [])) ?st [ReadText ''s'', ReadText ''p'', ReadEnd])
      = [OnEvent ?started, OnEvent ?progress, OnClose]" by code_simp
  then show ?thesis
    using opened http_subscription_contract[OF opened cursor, of "''op''" ?json "\<lambda>_. CallbackReturns" ?feed "\<lambda>_. []" "[ReadText ''s'', ReadText ''p'', ReadEnd]"]
    unfolding Let_def by blast
qed

lemma tauri_subscribe_inv:
  assumes "tauri_subscribe afterSequence aborted = Inr st" "initial_sequence afterSequence = Inr a"
  shows "tauri_inv kind i a st"
proof -
  let ?st = "\<lparr>ts_active = True, ts_subscriptionId = None, ts_lastSequence = a, ts_aborted = aborted, ts_phase = Opening, ts_log = []\<rparr>"
  have "tauri_inv kind i a ?st" by (simp add: tauri_inv_def stream_log_ok_def events_ordered_def up_to_def split: option.splits)
  then show ?thesis using assms tauri_close_inv[of kind i a ?st] by (auto simp: tauri_subscribe_def Let_def)
qed

text \<open>
  C7: a subscription of the desktop client keeps the same contract, whatever the channel carries, in every interleaving of messages, the answer
  of the request, the abort of the signal and the close.
\<close>

theorem tauri_subscription_contract:
  assumes "tauri_subscribe afterSequence aborted = Inr st" "initial_sequence afterSequence = Inr a" "kind = agent_stream \<or> kind = operation_stream"
  shows "let st' = foldl (tauri_step kind i react) st inputs
    in stream_log_ok kind i a (ts_log st') \<and> count_list (ts_log st') OnClose = (if ts_active st' then 0 else 1)"
  using assms(3) tauri_agent_events.run_log_ok tauri_agent_events.run_closed_once tauri_operation_events.run_log_ok
    tauri_operation_events.run_closed_once tauri_subscribe_inv[OF assms(1,2)] by (metis (no_types))

theorem tauri_subscription_contract_witness:
  "let started = example_event ''1'' (Obj [(''type'', Str ''started'')]);
       st = \<lparr>ts_active = True, ts_subscriptionId = None, ts_lastSequence = None, ts_aborted = False, ts_phase = Opening, ts_log = []\<rparr>;
       message = Obj [(''type'', Str ''event''), (''event'', started)];
       st' = foldl (tauri_step operation_stream ''op'' (\<lambda>_. CallbackReturns)) st [ChannelMessage message, ChannelMessage message]
   in tauri_subscribe None False = Inr st \<and> delivered (ts_log st') = [started] \<and> stream_log_ok operation_stream ''op'' None (ts_log st')"
proof -
  let ?started = "example_event ''1'' (Obj [(''type'', Str ''started'')])"
  let ?st = "\<lparr>ts_active = True, ts_subscriptionId = None, ts_lastSequence = None, ts_aborted = False, ts_phase = Opening, ts_log = []\<rparr>"
  let ?inputs = "[ChannelMessage (Obj [(''type'', Str ''event''), (''event'', ?started)]), ChannelMessage (Obj [(''type'', Str ''event''), (''event'', ?started)])]"
  have opened: "tauri_subscribe None False = Inr ?st" by code_simp
  have "delivered (ts_log (foldl (tauri_step operation_stream ''op'' (\<lambda>_. CallbackReturns)) ?st ?inputs)) = [?started]" by code_simp
  moreover have "initial_sequence None = Inr None" by simp
  ultimately show ?thesis
    using opened tauri_subscription_contract[OF opened, of None operation_stream "''op''" "\<lambda>_. CallbackReturns" ?inputs] unfolding Let_def by blast
qed

section \<open>Subscriptions are released\<close>

definition releases :: "stream_effect list \<Rightarrow> string list" where
  "releases log = List.map_filter (\<lambda>e. case e of UnsubscribeRequest s \<Rightarrow> Some s | _ \<Rightarrow> None) log"

lemma releases_append [simp]: "releases (l @ l') = releases l @ releases l'"
  by (simp add: releases_def map_filter_def)

lemma releases_simps [simp]: "releases [] = []" "releases [OnEvent v] = []" "releases [OnError e] = []" "releases [OnClose] = []"
  "releases (UnsubscribeRequest s # l) = s # releases l"
  by (simp_all add: releases_def map_filter_def)

fun first_answer :: "tauri_input list \<Rightarrow> (rejected + jsval) option" where
  "first_answer [] = None"
| "first_answer (SubscriptionAnswered answer # rest) = Some answer"
| "first_answer (_ # rest) = first_answer rest"

definition holding :: "tauri_stream \<Rightarrow> string option \<times> string list \<times> bool \<times> bool" where
  "holding st = (ts_subscriptionId st, releases (ts_log st), ts_active st, ts_phase st = Opening)"

lemma holding_close:
  "holding (tauri_close st) = (if ts_active st
     then (None, releases (ts_log st) @ (case ts_subscriptionId st of Some s \<Rightarrow> [s] | None \<Rightarrow> []), False, ts_phase st = Opening) else holding st)"
  by (auto simp: holding_def tauri_close_def unsubscribe_def emit_tauri_def split: option.splits)

lemma holding_close_cong: "holding st = holding st' \<Longrightarrow> holding (tauri_close st) = holding (tauri_close st')"
  unfolding holding_close by (auto simp: holding_def)

lemma holding_emit [simp]: "holding (emit_tauri (OnError e) st) = holding st" "holding (emit_tauri (OnEvent v) st) = holding st"
  "holding (st\<lparr>ts_lastSequence := l\<rparr>) = holding st" "holding (st\<lparr>ts_aborted := b\<rparr>) = holding st"
  by (simp_all add: holding_def emit_tauri_def)

lemma holding_fail: "holding (tauri_fail e st) = holding (tauri_close st)"
  using holding_close_cong[of "emit_tauri (OnError e) st" st] by (simp add: tauri_fail_def tauri_close_def[of st])

lemma holding_message: "holding (channel_message kind i react message st) \<in> {holding st, holding (tauri_close st)}"
proof -
  have "holding (deliver_tauri react v st) \<in> {holding st, holding (tauri_close st)}" for v
    using holding_close_cong[of "emit_tauri (OnEvent v) (st\<lparr>ts_lastSequence := Some (event_sequence v)\<rparr>)" st]
    by (auto simp: deliver_tauri_def Let_def split: callback.splits)
  then show ?thesis by (auto simp: channel_message_def holding_fail Let_def)
qed

text \<open>The release of a subscription that was accepted, once the stream is closed.\<close>

definition held :: "string \<Rightarrow> tauri_stream \<Rightarrow> bool" where
  "held x st \<longleftrightarrow> holding st = (if ts_active st then (Some x, [], True, False) else (None, [x], False, False))"

definition unheld :: "bool \<Rightarrow> tauri_stream \<Rightarrow> bool" where
  "unheld opening st \<longleftrightarrow> holding st = (None, [], ts_active st, opening)"

lemma held_step: "held x st \<Longrightarrow> held x (tauri_step kind i react st input)"
proof -
  assume held: "held x st"
  have closed: "held x (tauri_close st)" using held holding_close[of st] by (auto simp: held_def holding_def split: if_splits)
  have same: "holding s = holding st \<Longrightarrow> held x s" "holding s = holding (tauri_close st) \<Longrightarrow> held x s" for s
    using held closed by (auto simp: held_def holding_def split: if_splits)
  show ?thesis
  proof (cases input)
    case (ChannelMessage message)
    then show ?thesis using holding_message[of kind i react message st] same by auto
  next
    case (SubscriptionAnswered answer)
    have "ts_phase st \<noteq> Opening" using held by (auto simp: held_def holding_def split: if_splits)
    then show ?thesis using held SubscriptionAnswered by (simp add: subscription_answered_def)
  next
    case SignalAborted
    have "holding (tauri_close (st\<lparr>ts_aborted := True\<rparr>)) = holding (tauri_close st)" by (rule holding_close_cong) simp
    then show ?thesis using same SignalAborted by simp
  qed (use closed in simp)
qed

lemma unheld_step:
  assumes "unheld opening st" "opening \<longrightarrow> (\<forall>answer. input \<noteq> SubscriptionAnswered answer)"
  shows "unheld opening (tauri_step kind i react st input)"
proof -
  have closed: "unheld opening (tauri_close st)" using assms(1) holding_close[of st] by (auto simp: unheld_def holding_def split: if_splits)
  have same: "holding s = holding st \<Longrightarrow> unheld opening s" "holding s = holding (tauri_close st) \<Longrightarrow> unheld opening s" for s
    using assms(1) closed by (auto simp: unheld_def holding_def)
  show ?thesis
  proof (cases input)
    case (ChannelMessage message)
    then show ?thesis using holding_message[of kind i react message st] same by auto
  next
    case (SubscriptionAnswered answer)
    then show ?thesis using assms by (auto simp: subscription_answered_def unheld_def holding_def)
  next
    case SignalAborted
    have "holding (tauri_close (st\<lparr>ts_aborted := True\<rparr>)) = holding (tauri_close st)" by (rule holding_close_cong) simp
    then show ?thesis using same SignalAborted by simp
  qed (use closed in simp)
qed

lemma answered_holding:
  assumes "unheld True st"
  shows "case answer of Inr v \<Rightarrow> if subscription_accepted v then held (js_String (jget v ''subscriptionId'')) (subscription_answered kind answer st)
       else unheld False (subscription_answered kind answer st) | Inl e \<Rightarrow> unheld False (subscription_answered kind answer st)"
  using assms holding_close[of st]
  by (auto simp: subscription_answered_def unheld_def held_def holding_def tauri_close_def unsubscribe_def emit_tauri_def Let_def split: sum.splits option.splits if_splits)

lemma run_steps:
  assumes "\<And>st input. P st \<Longrightarrow> P (tauri_step kind i react st input)" "P st"
  shows "P (foldl (tauri_step kind i react) st inputs)"
  using assms(2) by (induction inputs arbitrary: st) (simp_all add: assms(1))

lemma first_answer_run:
  assumes "unheld True st"
  shows "case first_answer inputs of
      Some (Inr v) \<Rightarrow> if subscription_accepted v then held (js_String (jget v ''subscriptionId'')) (foldl (tauri_step kind i react) st inputs)
        else unheld False (foldl (tauri_step kind i react) st inputs)
    | Some (Inl e) \<Rightarrow> unheld False (foldl (tauri_step kind i react) st inputs)
    | None \<Rightarrow> unheld True (foldl (tauri_step kind i react) st inputs)"
  using assms
proof (induction inputs arbitrary: st)
  case (Cons input inputs)
  show ?case
  proof (cases "\<exists>answer. input = SubscriptionAnswered answer")
    case True
    then obtain answer where input: "input = SubscriptionAnswered answer" by blast
    have keeps: "held x s \<Longrightarrow> held x (foldl (tauri_step kind i react) s inputs)" "unheld False s \<Longrightarrow> unheld False (foldl (tauri_step kind i react) s inputs)" for x s
      by (rule run_steps; simp add: held_step unheld_step)+
    show ?thesis using answered_holding[OF Cons.prems, of kind answer] keeps input by (auto split: sum.splits if_splits)
  next
    case False
    then have same: "first_answer (input # inputs) = first_answer inputs" by (cases input) auto
    have later: "unheld True (tauri_step kind i react st input)" using unheld_step[of True st input] Cons.prems False by blast
    show ?thesis using Cons.IH[OF later] unfolding same foldl_Cons .
  qed
qed simp

text \<open>
  C5: no subscription of the desktop runtime is leaked, and none is released twice. When the runtime has accepted a subscription, it is released
  exactly when the stream is closed, also when the close (by the caller, a signal, the end of the stream or an error) came before the runtime's
  answer; without an accepted subscription nothing is released.
\<close>

theorem accepted_subscription_released:
  assumes "tauri_subscribe afterSequence False = Inr st"
  shows "let st' = foldl (tauri_step kind i react) st inputs
    in releases (ts_log st') =
      (case first_answer inputs of
         Some (Inr v) \<Rightarrow> if subscription_accepted v \<and> \<not> ts_active st' then [js_String (jget v ''subscriptionId'')] else []
       | _ \<Rightarrow> [])"
proof -
  have "unheld True st" using assms by (auto simp: tauri_subscribe_def unheld_def holding_def split: sum.splits)
  then show ?thesis
    using first_answer_run[of st kind i react inputs]
    by (auto simp: held_def unheld_def holding_def Let_def split: option.splits sum.splits if_splits)
qed

text \<open>The signal aborts while the request is under way: the subscription that is accepted late is released at once.\<close>

theorem accepted_subscription_released_witness:
  "let st = \<lparr>ts_active = True, ts_subscriptionId = None, ts_lastSequence = None, ts_aborted = False, ts_phase = Opening, ts_log = []\<rparr>;
       inputs = [SignalAborted, SubscriptionAnswered (Inr (Obj [(''subscriptionId'', Str ''s1'')])), CloseRequested]
   in tauri_subscribe None False = Inr st \<and> releases (ts_log (foldl (tauri_step agent_stream ''run'' (\<lambda>_. CallbackReturns)) st inputs)) = [''s1'']"
proof -
  let ?st = "\<lparr>ts_active = True, ts_subscriptionId = None, ts_lastSequence = None, ts_aborted = False, ts_phase = Opening, ts_log = []\<rparr>"
  let ?inputs = "[SignalAborted, SubscriptionAnswered (Inr (Obj [(''subscriptionId'', Str ''s1'')])), CloseRequested]"
  have opened: "tauri_subscribe None False = Inr ?st" by code_simp
  have "\<not> ts_active (foldl (tauri_step agent_stream ''run'' (\<lambda>_. CallbackReturns)) ?st ?inputs)" by code_simp
  then show ?thesis
    using opened accepted_subscription_released[OF opened, of agent_stream "''run''" "\<lambda>_. CallbackReturns" ?inputs]
    by (simp add: subscription_accepted_def)
qed

section \<open>The observers on top\<close>

text \<open>What the observer gets of an event.\<close>

definition envelope_of :: "jsval \<Rightarrow> EventEnvelope" where
  "envelope_of v = \<lparr>ee_sequence = js_String (jget v ''sequence''), ee_type = js_String (jget (jget v ''event'') ''type''), ee_payload = v\<rparr>"

lemma checked_sequence:
  assumes "isOperationEventEnvelope v \<or> isAgentEventEnvelope v"
  shows "runtimeSequence (ee_sequence (envelope_of v)) label = Inr (event_sequence v)"
proof -
  have "isDecimalInteger (jget v ''sequence'')" using assms by (auto simp: isOperationEventEnvelope_def isAgentEventEnvelope_def)
  then show ?thesis by (cases "jget v ''sequence''") (simp_all add: runtimeSequence_def envelope_of_def event_sequence_def)
qed

lemma kind_checks:
  assumes "kind = agent_stream \<or> kind = operation_stream" "sk_isEventEnvelope kind v"
  shows "isOperationEventEnvelope v \<or> isAgentEventEnvelope v"
  using assms by (auto simp: agent_stream_def operation_stream_def)

definition handed_on :: "effect list \<Rightarrow> EventEnvelope list" where
  "handed_on log = List.map_filter (\<lambda>e. case e of DeliverEvent event \<Rightarrow> Some event | _ \<Rightarrow> None) log"

lemma handed_on_append [simp]: "handed_on (l @ l') = handed_on l @ handed_on l'"
  by (simp add: handed_on_def map_filter_def)

lemma handed_on_simps [simp]:
  "handed_on [] = []" "handed_on (DeliverEvent e # l) = e # handed_on l" "handed_on (AbortSignal # l) = handed_on l"
  "handed_on (CloseSubscription h # l) = handed_on l" "handed_on (NotifyClose # l) = handed_on l"
  by (simp_all add: handed_on_def map_filter_def)

lemma close_hands_nothing: "handed_on (ob_log (close_observer ob)) = handed_on (ob_log ob)"
  by (simp add: close_observer_def notifyClose_def releaseCurrentSubscription_def emit_def split: option.splits)

text \<open>
  An event ends the observation of its stream if its callback closes the observer, or if it
  is a terminal event and its callback returns. (A callback that throws leaves the stream
  open.) The events up to and including the first such one.
\<close>

definition ends_stream :: "(jsval \<Rightarrow> reaction) \<Rightarrow> jsval \<Rightarrow> bool" where
  "ends_stream react v \<longleftrightarrow> react v = CallsClose
     \<or> react v = NoReaction \<and> js_String (jget (jget v ''event'') ''type'') \<in> {''completed'', ''failed'', ''cancelled''}"

fun until_end :: "('a \<Rightarrow> bool) \<Rightarrow> 'a list \<Rightarrow> 'a list" where
  "until_end P [] = []"
| "until_end P (v # vs) = v # (if P v then [] else until_end P vs)"

definition listening :: "observer \<Rightarrow> bool" where
  "listening ob \<longleftrightarrow> ob_phase ob = Streaming None \<and> \<not> ob_stopped ob"

lemma deaf_to_events:
  "\<not> listening ob \<Longrightarrow>
   foldl (observe_step cfg) ob (map (\<lambda>v. StreamEvent (h v) (f v) (react v)) vs) = ob"
  by (induction vs) (auto simp: onStreamEvent_def listening_def)

lemma observer_takes_event:
  fixes react :: "jsval \<Rightarrow> reaction"
  assumes "listening ob" "runtimeSequence (ee_sequence (envelope_of v)) (oc_eventLabel cfg) = Inr n"
    "\<not> not_after n (ob_cursor ob)"
  defines "ob' \<equiv> observe_step cfg ob (StreamEvent (ob_stream ob) (envelope_of v) (react v))"
  shows "handed_on (ob_log ob') = handed_on (ob_log ob) @ [envelope_of v]"
    and "ob_stream ob' = ob_stream ob" and "ob_cursor ob' = Some n" and "listening ob' \<longleftrightarrow> \<not> ends_stream react v"
proof -
  let ?d = "emit (DeliverEvent (envelope_of v)) (ob\<lparr>ob_cursor := Some n\<rparr>)"
  have fresh: "\<not> (case ob_cursor ob of None \<Rightarrow> False | Some c \<Rightarrow> n \<le> c)" using assms(3) by (simp add: not_after_def)
  have terminal: "isTerminalEvent (envelope_of v) \<longleftrightarrow>
      js_String (jget (jget v ''event'') ''type'') \<in> {''completed'', ''failed'', ''cancelled''}"
    by (simp add: isTerminalEvent_def envelope_of_def)
  have "ob' = (case react v of
      Throws _ \<Rightarrow> ?d
    | CallsClose \<Rightarrow> if isTerminalEvent (envelope_of v) then settle OutcomeTerminal (close_observer ?d) else close_observer ?d
    | NoReaction \<Rightarrow> if isTerminalEvent (envelope_of v) then settle OutcomeTerminal ?d else ?d)"
    using assms(1,2) fresh by (simp add: ob'_def onStreamEvent_def listening_def Let_def)
  then show "handed_on (ob_log ob') = handed_on (ob_log ob) @ [envelope_of v]"
    and "ob_stream ob' = ob_stream ob" and "ob_cursor ob' = Some n" and "listening ob' \<longleftrightarrow> \<not> ends_stream react v"
    using assms(1) terminal close_hands_nothing[of ?d]
    by (auto simp: settle_def emit_def close_observer_def notifyClose_def releaseCurrentSubscription_def
        ends_stream_def listening_def split: reaction.splits option.splits)
qed

text \<open>
  C6: no event gets lost between a subscription and its observer. Take an observer (of a run
  or an operation) that listens to its stream, that is, it has subscribed, the stream is not settled and it
  is not closed, and a stream that keeps the contract of a subscription behind the observer's cursor. Then
  the observer hands on exactly the events that the subscription delivers, once and in the
  order of the stream, up to and including the first one that ends the stream: a terminal
  event, or one whose callback closes the observer. It goes on listening just if there was no such event.
\<close>

theorem observed_events_handed_on:
  fixes react :: "jsval \<Rightarrow> reaction" and cfg :: observer_config
  assumes "kind = agent_stream \<or> kind = operation_stream" "stream_log_ok kind i (ob_cursor ob) log"
    "ob_phase ob = Streaming None" "\<not> ob_stopped ob"
  defines "ob' \<equiv> foldl (observe_step cfg) ob (map (\<lambda>v. StreamEvent (ob_stream ob) (envelope_of v) (react v)) (delivered log))"
  shows "handed_on (ob_log ob') = handed_on (ob_log ob) @ map envelope_of (until_end (ends_stream react) (delivered log))
    \<and> (ob_phase ob' = Streaming None \<and> \<not> ob_stopped ob' \<longleftrightarrow> \<not> list_ex (ends_stream react) (delivered log))"
proof -
  have "handed_on (ob_log (foldl (observe_step cfg) ob (map (\<lambda>v. StreamEvent (ob_stream ob) (envelope_of v) (react v)) vs)))
      = handed_on (ob_log ob) @ map envelope_of (until_end (ends_stream react) vs)
    \<and> (listening (foldl (observe_step cfg) ob (map (\<lambda>v. StreamEvent (ob_stream ob) (envelope_of v) (react v)) vs))
        \<longleftrightarrow> \<not> list_ex (ends_stream react) vs)"
    if "events_ordered kind i (ob_cursor ob) vs" "listening ob" for vs
    using that
  proof (induction vs arbitrary: ob)
    case (Cons v vs)
    let ?ob = "observe_step cfg ob (StreamEvent (ob_stream ob) (envelope_of v) (react v))"
    have "sk_isEventEnvelope kind v" "\<not> not_after (event_sequence v) (ob_cursor ob)"
      using Cons.prems(1) by (auto simp: events_ordered_def)
    note taken = observer_takes_event[OF Cons.prems(2) checked_sequence[OF kind_checks[OF assms(1) this(1)]] this(2), of cfg react]
    have rest: "events_ordered kind i (ob_cursor ?ob) vs"
      using Cons.prems(1) unfolding taken(3) by (auto simp: events_ordered_def not_after_def list_all_iff)
    show ?case
    proof (cases "ends_stream react v")
      case True
      with taken deaf_to_events[of ?ob cfg "\<lambda>_. ob_stream ob" envelope_of react vs] show ?thesis by (simp del: observe_step.simps)
    next
      case False
      with Cons.IH[OF rest] taken show ?thesis by (simp del: observe_step.simps)
    qed
  qed simp
  with assms(2-4) show ?thesis by (simp add: stream_log_ok_def ob'_def listening_def)
qed

theorem observed_events_handed_on_witness:
  "let started = example_event ''1'' (Obj [(''type'', Str ''started'')]); cancelled = example_event ''2'' (Obj [(''type'', Str ''cancelled'')]);
       ob = observe_start operation_config ''op'' \<lparr>oo_afterSequence = None, oo_aborted = False, oo_maxReconnectAttempts = None\<rparr>
   in handed_on (ob_log (foldl (observe_step operation_config) ob
        [StreamEvent (ob_stream ob) (envelope_of started) NoReaction, StreamEvent (ob_stream ob) (envelope_of cancelled) NoReaction]))
      = [envelope_of started, envelope_of cancelled]"
proof -
  let ?started = "example_event ''1'' (Obj [(''type'', Str ''started'')])"
  let ?cancelled = "example_event ''2'' (Obj [(''type'', Str ''cancelled'')])"
  let ?ob = "observe_start operation_config ''op'' \<lparr>oo_afterSequence = None, oo_aborted = False, oo_maxReconnectAttempts = None\<rparr>"
  have log: "stream_log_ok operation_stream ''op'' (ob_cursor ?ob) [OnEvent ?started, OnEvent ?cancelled]" by code_simp
  have ob: "ob_phase ?ob = Streaming None" "\<not> ob_stopped ?ob" "handed_on (ob_log ?ob) = []" by code_simp+
  have vs: "until_end (ends_stream (\<lambda>_. NoReaction)) [?started, ?cancelled] = [?started, ?cancelled]"
    "delivered [OnEvent ?started, OnEvent ?cancelled] = [?started, ?cancelled]" by code_simp+
  from observed_events_handed_on[OF _ log ob(1,2), of operation_config "\<lambda>_. NoReaction"] ob(3) vs show ?thesis
    by (simp add: Let_def del: observe_step.simps)
qed

end
