(* ===== verification/Json_Graph.thy ===== *)
theory Json_Graph
  imports Js_Prelude
begin

text \<open>
  Values that are written to storage as JSON: \<open>JSON.stringify\<close> with a replacer over objects that may be shared or
  cyclic, and the replacer of \<open>store/workspace/utils/workspaceTabPersistence.ts\<close>, which keeps a stack of ancestors.

  Objects live in a heap, since the replacer compares them by identity. \<open>JSON.stringify\<close> is the algorithm of
  the language: it calls the replacer for each property, skips what becomes undefined (in an array it is null), and throws when
  an object contains itself. The text it writes and \<open>JSON.parse\<close> are one step: the result is the parsed tree. Objects with a
  method \<open>toJSON\<close> are not modelled. A reference points into the heap.

  Shown: with this replacer the serialisation never throws, and its result is the unfolding of the graph in
  which exactly the references to an ancestor are left out; a tree is written as it is.
\<close>

section \<open>Objects and JSON.stringify\<close>

datatype graph_value =
    VUndefined
  | VNull
  | VBool bool
  | VNum int
  | VNaN
  | VStr string
  | VFunction
  | VBigInt int
  | VRef nat

datatype heap_object =
    PlainObject "(string \<times> graph_value) list"
  | ArrayObject "graph_value list"
  | DomNode "(string \<times> graph_value) list"

type_synonym object_heap = "(nat \<times> heap_object) list"

fun own_entries :: "heap_object \<Rightarrow> (string \<times> graph_value) list" where
  "own_entries (PlainObject kvs) = kvs"
| "own_entries (DomNode kvs) = kvs"
| "own_entries (ArrayObject vs) = []"

text \<open>The object that holds the property, \<open>this\<close> of the replacer; \<open>None\<close> is the object that wraps the whole value.\<close>

type_synonym 's replacer = "nat option \<Rightarrow> graph_value \<Rightarrow> 's \<Rightarrow> 's \<times> graph_value"

lemma card_new_address:
  assumes "a \<notin> set path" "map_of h a = Some ob"
  shows "card (fst ` set h - insert a (set path)) < card (fst ` set h - set path)"
  using assms by (intro psubset_card_mono) (force dest: map_of_SomeD)+

text \<open>\<open>None\<close> is a thrown \<open>TypeError\<close>; \<open>Some (s, None)\<close> is undefined.\<close>

function (sequential)
  serialize_property :: "'s replacer \<Rightarrow> object_heap \<Rightarrow> nat list \<Rightarrow> nat option \<Rightarrow> graph_value \<Rightarrow> 's \<Rightarrow> ('s \<times> jsval option) option" and
  serialize_entries :: "'s replacer \<Rightarrow> object_heap \<Rightarrow> nat list \<Rightarrow> nat \<Rightarrow> (string \<times> graph_value) list \<Rightarrow> 's \<Rightarrow> ('s \<times> js_object) option" and
  serialize_elements :: "'s replacer \<Rightarrow> object_heap \<Rightarrow> nat list \<Rightarrow> nat \<Rightarrow> graph_value list \<Rightarrow> 's \<Rightarrow> ('s \<times> jsval list) option" where
  "serialize_property replacer h path this v s =
     (case replacer this v s of (s', v') \<Rightarrow>
        (case v' of
           VUndefined \<Rightarrow> Some (s', None)
         | VFunction \<Rightarrow> Some (s', None)
         | VBigInt n \<Rightarrow> None
         | VNull \<Rightarrow> Some (s', Some Null)
         | VNaN \<Rightarrow> Some (s', Some Null)
         | VBool b \<Rightarrow> Some (s', Some (Bool b))
         | VNum n \<Rightarrow> Some (s', Some (Num n))
         | VStr t \<Rightarrow> Some (s', Some (Str t))
         | VRef a \<Rightarrow>
             if a \<in> set path then None
             else case map_of h a of
               None \<Rightarrow> Some (s', None)
             | Some (ArrayObject vs) \<Rightarrow> map_option (\<lambda>(s'', js). (s'', Some (Arr js))) (serialize_elements replacer h (a # path) a vs s')
             | Some ob \<Rightarrow> map_option (\<lambda>(s'', kvs). (s'', Some (Obj kvs))) (serialize_entries replacer h (a # path) a (own_entries ob) s')))"
| "serialize_entries replacer h path this [] s = Some (s, [])"
| "serialize_entries replacer h path this ((k, v) # kvs) s =
     (case serialize_property replacer h path (Some this) v s of
        None \<Rightarrow> None
      | Some (s', out) \<Rightarrow>
          map_option (\<lambda>(s'', rest). (s'', (case out of None \<Rightarrow> rest | Some j \<Rightarrow> (k, j) # rest)))
            (serialize_entries replacer h path this kvs s'))"
| "serialize_elements replacer h path this [] s = Some (s, [])"
| "serialize_elements replacer h path this (v # vs) s =
     (case serialize_property replacer h path (Some this) v s of
        None \<Rightarrow> None
      | Some (s', out) \<Rightarrow>
          map_option (\<lambda>(s'', rest). (s'', (case out of None \<Rightarrow> Null | Some j \<Rightarrow> j) # rest))
            (serialize_elements replacer h path this vs s'))"
  by pat_completeness auto
termination
  by (relation "measures [\<lambda>x. case x of
        Inl (_, h, path, _) \<Rightarrow> card (fst ` set h - set path)
      | Inr (Inl (_, h, path, _)) \<Rightarrow> card (fst ` set h - set path)
      | Inr (Inr (_, h, path, _)) \<Rightarrow> card (fst ` set h - set path),
     \<lambda>x. case x of
        Inl _ \<Rightarrow> 0
      | Inr (Inl (_, h, path, _, kvs, _)) \<Rightarrow> Suc (length kvs)
      | Inr (Inr (_, h, path, _, vs, _)) \<Rightarrow> Suc (length vs)]")
    (auto simp: card_new_address)

definition json_stringify :: "'s replacer \<Rightarrow> object_heap \<Rightarrow> graph_value \<Rightarrow> 's \<Rightarrow> ('s \<times> jsval option) option" where
  "json_stringify replacer h v s = serialize_property replacer h [] None v s"

section \<open>The replacer of the workspace store\<close>

text \<open>The stack of ancestors has its last element first here.\<close>

definition createPersistenceReplacer :: "object_heap \<Rightarrow> nat list replacer" where
  "createPersistenceReplacer h this v ancestors =
     (case v of
        VFunction \<Rightarrow> (ancestors, VUndefined)
      | VBigInt n \<Rightarrow> (ancestors, VUndefined)
      | VRef a \<Rightarrow>
          (case map_of h a of
             Some (DomNode kvs) \<Rightarrow> (ancestors, VUndefined)
           | _ \<Rightarrow>
             let ancestors' = dropWhile (\<lambda>x. Some x \<noteq> this) ancestors
             in if a \<in> set ancestors' then (ancestors', VUndefined) else (a # ancestors', v))
      | _ \<Rightarrow> (ancestors, v))"

section \<open>The unfolding without references to ancestors\<close>

function cut_unfold :: "object_heap \<Rightarrow> nat list \<Rightarrow> graph_value \<Rightarrow> jsval option" where
  "cut_unfold h path v =
     (case v of
        VNull \<Rightarrow> Some Null
      | VNaN \<Rightarrow> Some Null
      | VBool b \<Rightarrow> Some (Bool b)
      | VNum n \<Rightarrow> Some (Num n)
      | VStr t \<Rightarrow> Some (Str t)
      | VRef a \<Rightarrow>
          if a \<in> set path then None
          else (case map_of h a of
            Some (PlainObject kvs) \<Rightarrow>
              Some (Obj (concat (map (\<lambda>(k, w). case cut_unfold h (a # path) w of None \<Rightarrow> [] | Some j \<Rightarrow> [(k, j)]) kvs)))
          | Some (ArrayObject vs) \<Rightarrow>
              Some (Arr (map (\<lambda>w. case cut_unfold h (a # path) w of None \<Rightarrow> Null | Some j \<Rightarrow> j) vs))
          | _ \<Rightarrow> None)
      | _ \<Rightarrow> None)"
  by pat_completeness auto
termination
  by (relation "measure (\<lambda>(h, path, _). card (fst ` set h - set path))") (auto simp: card_new_address)

declare serialize_property.simps [simp del] cut_unfold.simps [simp del]

definition unfold_entries :: "object_heap \<Rightarrow> nat list \<Rightarrow> (string \<times> graph_value) list \<Rightarrow> js_object" where
  "unfold_entries h path kvs = concat (map (\<lambda>(k, w). case cut_unfold h path w of None \<Rightarrow> [] | Some j \<Rightarrow> [(k, j)]) kvs)"

definition unfold_elements :: "object_heap \<Rightarrow> nat list \<Rightarrow> graph_value list \<Rightarrow> jsval list" where
  "unfold_elements h path vs = map (\<lambda>w. case cut_unfold h path w of None \<Rightarrow> Null | Some j \<Rightarrow> j) vs"

lemma cut_unfold_simps [simp]:
  "cut_unfold h path VUndefined = None"
  "cut_unfold h path VFunction = None"
  "cut_unfold h path (VBigInt n) = None"
  "cut_unfold h path VNull = Some Null"
  "cut_unfold h path VNaN = Some Null"
  "cut_unfold h path (VBool b) = Some (Bool b)"
  "cut_unfold h path (VNum n) = Some (Num n)"
  "cut_unfold h path (VStr t) = Some (Str t)"
  "cut_unfold h path (VRef a) =
     (if a \<in> set path then None
      else case map_of h a of
        Some (PlainObject kvs) \<Rightarrow> Some (Obj (unfold_entries h (a # path) kvs))
      | Some (ArrayObject vs) \<Rightarrow> Some (Arr (unfold_elements h (a # path) vs))
      | _ \<Rightarrow> None)"
  by (simp_all add: cut_unfold.simps[of h path] unfold_entries_def unfold_elements_def split: option.split heap_object.split)

lemma unfold_entries_simps [simp]:
  "unfold_entries h path [] = []"
  "unfold_entries h path ((k, v) # kvs) =
     (case cut_unfold h path v of None \<Rightarrow> unfold_entries h path kvs | Some j \<Rightarrow> (k, j) # unfold_entries h path kvs)"
  by (simp_all add: unfold_entries_def split: option.split)

lemma unfold_elements_simps [simp]:
  "unfold_elements h path [] = []"
  "unfold_elements h path (v # vs) = (case cut_unfold h path v of None \<Rightarrow> Null | Some j \<Rightarrow> j) # unfold_elements h path vs"
  by (simp_all add: unfold_elements_def)

section \<open>The replacer cuts exactly the references to ancestors\<close>

text \<open>
  When a property of the innermost object of the path is visited, the stack is the path, below what is
  left of the objects visited before.
\<close>

definition stack_ok :: "nat list \<Rightarrow> nat list \<Rightarrow> bool" where
  "stack_ok path ancestors \<longleftrightarrow> distinct ancestors \<and> (\<exists>left. ancestors = left @ path)"

definition holder_of :: "nat list \<Rightarrow> nat option" where
  "holder_of path = (case path of [] \<Rightarrow> None | a # _ \<Rightarrow> Some a)"

lemma holder_of_simps [simp]: "holder_of [] = None" "holder_of (a # path) = Some a"
  by (simp_all add: holder_of_def)

lemma popped_ancestors:
  assumes "stack_ok path ancestors"
  shows "dropWhile (\<lambda>x. Some x \<noteq> holder_of path) ancestors = path"
proof (cases path)
  case Nil
  then show ?thesis by simp
next
  case (Cons a p)
  obtain left where left: "ancestors = left @ path" and d: "distinct ancestors" using assms by (auto simp: stack_ok_def)
  have "\<forall>x \<in> set left. x \<noteq> a" using d left Cons by auto
  then have "dropWhile (\<lambda>x. x \<noteq> a) (left @ path) = dropWhile (\<lambda>x. x \<noteq> a) path" by (auto intro: dropWhile_append2)
  then show ?thesis using left Cons by simp
qed

lemma stack_ok_push: "stack_ok path ancestors \<Longrightarrow> a \<notin> set path \<Longrightarrow> stack_ok (a # path) (a # path)"
  by (auto simp: stack_ok_def)

lemma stack_ok_pop: "stack_ok (a # path) ancestors \<Longrightarrow> stack_ok path ancestors"
  by (auto simp: stack_ok_def)

lemma stack_ok_path: "stack_ok path ancestors \<Longrightarrow> stack_ok path path"
  by (auto simp: stack_ok_def)

lemma serialization_cuts:
  "stack_ok path ancestors \<Longrightarrow> this = holder_of path \<Longrightarrow>
     \<exists>ancestors'. serialize_property (createPersistenceReplacer h) h path this v ancestors = Some (ancestors', cut_unfold h path v)
       \<and> stack_ok path ancestors'"
  "stack_ok path ancestors \<Longrightarrow> Some holder = holder_of path \<Longrightarrow>
     \<exists>ancestors'. serialize_entries (createPersistenceReplacer h) h path holder kvs ancestors = Some (ancestors', unfold_entries h path kvs)
       \<and> stack_ok path ancestors'"
  "stack_ok path ancestors \<Longrightarrow> Some holder = holder_of path \<Longrightarrow>
     \<exists>ancestors'. serialize_elements (createPersistenceReplacer h) h path holder vs ancestors = Some (ancestors', unfold_elements h path vs)
       \<and> stack_ok path ancestors'"
proof (induction "createPersistenceReplacer h" h path this v ancestors and "createPersistenceReplacer h" h path holder kvs ancestors
    and "createPersistenceReplacer h" h path holder vs ancestors
    rule: serialize_property_serialize_entries_serialize_elements.induct)
  case (1 h path this v ancestors)
  show ?case
  proof (cases v)
    case (VRef a)
    note popped = popped_ancestors[OF "1.prems"(1)]
    show ?thesis
    proof (cases "a \<in> set path")
      case True
      then show ?thesis using "1.prems" popped stack_ok_path[OF "1.prems"(1)]
        by (auto simp: VRef serialize_property.simps createPersistenceReplacer_def split: option.split heap_object.split)
    next
      case False
      note push = stack_ok_push[OF "1.prems"(1) False]
      have keep: "createPersistenceReplacer h this v ancestors = (a # path, v)" if "\<nexists>kvs. map_of h a = Some (DomNode kvs)"
        using that "1.prems" popped False by (auto simp: VRef createPersistenceReplacer_def split: option.split heap_object.split)
      show ?thesis
      proof (cases "map_of h a")
        case None
        then show ?thesis using keep False push by (auto simp: VRef serialize_property.simps dest: stack_ok_pop)
      next
        case (Some ob)
        show ?thesis
        proof (cases ob)
          case (PlainObject kvs)
          have "\<exists>ancestors'. serialize_entries (createPersistenceReplacer h) h (a # path) a kvs (a # path)
              = Some (ancestors', unfold_entries h (a # path) kvs) \<and> stack_ok (a # path) ancestors'"
            using "1.hyps"(1)[OF keep[symmetric] VRef False Some PlainObject push] Some PlainObject by simp
          then show ?thesis using keep Some PlainObject False by (auto simp: VRef serialize_property.simps dest: stack_ok_pop)
        next
          case (ArrayObject vs)
          have "\<exists>ancestors'. serialize_elements (createPersistenceReplacer h) h (a # path) a vs (a # path)
              = Some (ancestors', unfold_elements h (a # path) vs) \<and> stack_ok (a # path) ancestors'"
            using "1.hyps"(2)[OF keep[symmetric] VRef False Some ArrayObject push] Some ArrayObject by simp
          then show ?thesis using keep Some ArrayObject False by (auto simp: VRef serialize_property.simps dest: stack_ok_pop)
        next
          case (DomNode kvs)
          then show ?thesis using Some False "1.prems" by (simp add: VRef serialize_property.simps createPersistenceReplacer_def)
        qed
      qed
    qed
  qed (use "1.prems" in \<open>simp_all add: serialize_property.simps createPersistenceReplacer_def\<close>)
next
  case (3 h path this k v kvs ancestors)
  from "3.hyps"(1)[OF "3.prems"] obtain s' where
    s': "serialize_property (createPersistenceReplacer h) h path (Some this) v ancestors = Some (s', cut_unfold h path v)" "stack_ok path s'"
    by blast
  then show ?case using "3.hyps"(2)[OF s'(1) refl s'(2) "3.prems"(2)] by (auto split: option.split)
next
  case (5 h path this v vs ancestors)
  from "5.hyps"(1)[OF "5.prems"] obtain s' where
    s': "serialize_property (createPersistenceReplacer h) h path (Some this) v ancestors = Some (s', cut_unfold h path v)" "stack_ok path s'"
    by blast
  then show ?case using "5.hyps"(2)[OF s'(1) refl s'(2) "5.prems"(2)] by (auto split: option.split)
qed simp_all

definition stringified :: "object_heap \<Rightarrow> graph_value \<Rightarrow> jsval option option" where
  "stringified h v = map_option snd (json_stringify (createPersistenceReplacer h) h v [])"

lemma stringified_cut: "stringified h v = Some (cut_unfold h [] v)"
  using serialization_cuts(1)[of "[]" "[]" None h v] by (auto simp: stringified_def json_stringify_def stack_ok_def)

section \<open>Trees\<close>

text \<open>The value is the tree in the heap, as \<open>JSON.parse\<close> builds it.\<close>

lemma list_all2_mono_set:
  assumes "list_all2 P xs ys" "\<And>x y. x \<in> set xs \<Longrightarrow> y \<in> set ys \<Longrightarrow> P x y \<Longrightarrow> Q x y"
  shows "list_all2 Q xs ys"
  using assms by (induction rule: list_all2_induct) auto

lemma size_entry: "q \<in> set kjs \<Longrightarrow> size (snd q) < size (Obj kjs)"
  by (induction kjs) auto

lemma size_element: "j \<in> set js \<Longrightarrow> size j < size (Arr js)"
  by (induction js) auto

function (sequential) represents :: "object_heap \<Rightarrow> graph_value \<Rightarrow> jsval \<Rightarrow> bool" where
  "represents h v Undefined = False"
| "represents h v NaN = False"
| "represents h v Null = (v = VNull)"
| "represents h v (Bool b) = (v = VBool b)"
| "represents h v (Num n) = (v = VNum n)"
| "represents h v (Str t) = (v = VStr t)"
| "represents h v (Arr js) =
     (case v of VRef a \<Rightarrow> (case map_of h a of Some (ArrayObject vs) \<Rightarrow> list_all2 (represents h) vs js | _ \<Rightarrow> False) | _ \<Rightarrow> False)"
| "represents h v (Obj kjs) =
     (case v of VRef a \<Rightarrow>
        (case map_of h a of Some (PlainObject kvs) \<Rightarrow> list_all2 (\<lambda>p q. fst p = fst q \<and> represents h (snd p) (snd q)) kvs kjs | _ \<Rightarrow> False)
      | _ \<Rightarrow> False)"
  by pat_completeness auto
termination
  by (relation "measure (\<lambda>(_, _, t). size t)") (auto simp del: jsval.size dest: size_entry size_element)

lemma represents_Arr: "represents h v (Arr js) \<longleftrightarrow> (\<exists>a vs. v = VRef a \<and> map_of h a = Some (ArrayObject vs) \<and> list_all2 (represents h) vs js)"
  by (auto split: graph_value.split option.split heap_object.split)

lemma represents_Obj:
  "represents h v (Obj kjs) \<longleftrightarrow>
     (\<exists>a kvs. v = VRef a \<and> map_of h a = Some (PlainObject kvs) \<and> list_all2 (\<lambda>p q. fst p = fst q \<and> represents h (snd p) (snd q)) kvs kjs)"
  by (auto split: graph_value.split option.split heap_object.split)

declare represents.simps(7,8) [simp del]

lemma represents_primitive [simp]:
  "represents h VNull t \<longleftrightarrow> t = Null"
  "represents h (VBool b) t \<longleftrightarrow> t = Bool b"
  "represents h (VNum n) t \<longleftrightarrow> t = Num n"
  "represents h (VStr x) t \<longleftrightarrow> t = Str x"
  "\<not> represents h VUndefined t" "\<not> represents h VNaN t" "\<not> represents h VFunction t" "\<not> represents h (VBigInt n) t"
  by (cases t; auto simp: represents_Arr represents_Obj)+

lemma represents_unique: "represents h v t \<Longrightarrow> represents h v t' \<Longrightarrow> t = t'"
proof (induction h v t arbitrary: t' rule: represents.induct)
  case (7 h v js)
  then obtain a vs where v: "v = VRef a" "map_of h a = Some (ArrayObject vs)" and all: "list_all2 (represents h) vs js"
    by (auto simp: represents_Arr)
  obtain js' where t': "t' = Arr js'" "list_all2 (represents h) vs js'"
    using "7.prems"(2) v by (cases t') (auto simp: represents_Arr represents_Obj)
  have "js ! i = js' ! i" if "i < length js" for i
  proof -
    have "represents h (vs ! i) (js ! i)" "represents h (vs ! i) (js' ! i)" using that all t'(2) by (auto simp: list_all2_conv_all_nth)
    then show ?thesis using "7.IH"[OF v(1) v(2) refl] all that by (metis list_all2_lengthD nth_mem)
  qed
  then show ?case using all t' by (auto simp: list_all2_conv_all_nth intro!: nth_equalityI)
next
  case (8 h v kjs)
  then obtain a kvs where v: "v = VRef a" "map_of h a = Some (PlainObject kvs)"
    and all: "list_all2 (\<lambda>p q. fst p = fst q \<and> represents h (snd p) (snd q)) kvs kjs"
    by (auto simp: represents_Obj)
  obtain kjs' where t': "t' = Obj kjs'" "list_all2 (\<lambda>p q. fst p = fst q \<and> represents h (snd p) (snd q)) kvs kjs'"
    using "8.prems"(2) v by (cases t') (auto simp: represents_Arr represents_Obj)
  have "kjs ! i = kjs' ! i" if "i < length kjs" for i
  proof -
    have eqs: "fst (kvs ! i) = fst (kjs ! i)" "represents h (snd (kvs ! i)) (snd (kjs ! i))"
      "fst (kvs ! i) = fst (kjs' ! i)" "represents h (snd (kvs ! i)) (snd (kjs' ! i))"
      using that all t'(2) by (auto simp: list_all2_conv_all_nth)
    have "kvs ! i \<in> set kvs" "kjs ! i \<in> set kjs" using that all by (auto dest: list_all2_lengthD)
    then have "snd (kjs ! i) = snd (kjs' ! i)" using "8.IH"[OF v(1) v(2) refl _ _ eqs(2,4)] by blast
    then show ?thesis using eqs by (simp add: prod_eq_iff)
  qed
  then show ?case using all t' by (auto simp: list_all2_conv_all_nth intro!: nth_equalityI)
qed auto

text \<open>What contains an object is larger than the object, so a tree has no reference to an ancestor.\<close>

definition larger_ancestors :: "object_heap \<Rightarrow> nat list \<Rightarrow> jsval \<Rightarrow> bool" where
  "larger_ancestors h path t \<longleftrightarrow> (\<forall>a \<in> set path. \<exists>t'. represents h (VRef a) t' \<and> size t < size t')"

lemma not_own_ancestor: "represents h (VRef a) t \<Longrightarrow> larger_ancestors h path t \<Longrightarrow> a \<notin> set path"
  by (auto simp: larger_ancestors_def dest: represents_unique)

lemma larger_ancestors_push:
  "represents h (VRef a) t \<Longrightarrow> larger_ancestors h path t \<Longrightarrow> size t' < size t \<Longrightarrow> larger_ancestors h (a # path) t'"
  by (auto simp: larger_ancestors_def intro: less_trans)

lemma unfold_elements_all2:
  "list_all2 (\<lambda>v j. cut_unfold h path v = Some j) vs js \<Longrightarrow> unfold_elements h path vs = js"
  by (induction rule: list_all2_induct) auto

lemma unfold_entries_all2:
  "list_all2 (\<lambda>p q. fst p = fst q \<and> cut_unfold h path (snd p) = Some (snd q)) kvs kjs \<Longrightarrow> unfold_entries h path kvs = kjs"
  by (induction rule: list_all2_induct) auto

lemma represents_unfold: "represents h v t \<Longrightarrow> larger_ancestors h path t \<Longrightarrow> cut_unfold h path v = Some t"
proof (induction h v t arbitrary: path rule: represents.induct)
  case (7 h v js)
  then obtain a vs where v: "v = VRef a" "map_of h a = Some (ArrayObject vs)" and all: "list_all2 (represents h) vs js"
    by (auto simp: represents_Arr)
  have rep: "represents h (VRef a) (Arr js)" using "7.prems"(1) v by simp
  have "list_all2 (\<lambda>w j. cut_unfold h (a # path) w = Some j) vs js"
    using all by (rule list_all2_mono_set) (use "7.IH"[OF v(1) v(2) refl] larger_ancestors_push[OF rep "7.prems"(2) size_element] in blast)
  then show ?case using v not_own_ancestor[OF rep "7.prems"(2)] unfold_elements_all2 by auto
next
  case (8 h v kjs)
  then obtain a kvs where v: "v = VRef a" "map_of h a = Some (PlainObject kvs)"
    and all: "list_all2 (\<lambda>p q. fst p = fst q \<and> represents h (snd p) (snd q)) kvs kjs"
    by (auto simp: represents_Obj)
  have rep: "represents h (VRef a) (Obj kjs)" using "8.prems"(1) v by simp
  have "list_all2 (\<lambda>p q. fst p = fst q \<and> cut_unfold h (a # path) (snd p) = Some (snd q)) kvs kjs"
    using all by (rule list_all2_mono_set) (use "8.IH"[OF v(1) v(2) refl] larger_ancestors_push[OF rep "8.prems"(2) size_entry] in blast)
  then show ?case using v not_own_ancestor[OF rep "8.prems"(2)] unfold_entries_all2 by auto
qed auto

text \<open>A tree is written as it is.\<close>

lemma tree_written: "represents h v t \<Longrightarrow> stringified h v = Some (Some t)"
  using represents_unfold[of h v t "[]"] by (simp add: stringified_cut larger_ancestors_def)

section \<open>Result\<close>

text \<open>
  C13: Serialising with the replacer never throws, however the objects refer to each other; the result is the
  unfolding of the value in which exactly the references to an object that contains them (and functions, big integers
  and nodes of the page) are left out. What is shared without being contained in itself is written each time.
\<close>

theorem persisted_graph_cut: "stringified h v = Some (cut_unfold h [] v)"
  by (rule stringified_cut)

end
