(* ===== verification/Workspace_Persistence.thy ===== *)
theory Workspace_Persistence
  imports Json_Graph
begin

text \<open>
  What survives a restart: \<open>store/workspace/utils/workspaceTabPersistence.ts\<close> and how \<open>store/workspace/store.ts\<close> writes and reads
  the state with it.

  The tabs are objects of the heap; lists of tabs are lists of addresses. That serialising fails for a reason outside of the
  replacer (a getter that throws, the depth of the recursion) is the argument \<open>fails\<close>. Writing the text to the storage of the
  browser is a function that may throw.
\<close>

section \<open>Reading and allocating objects\<close>

fun truthy_value :: "graph_value \<Rightarrow> bool" where
  "truthy_value VUndefined = False"
| "truthy_value VNull = False"
| "truthy_value VNaN = False"
| "truthy_value (VBool b) = b"
| "truthy_value (VNum n) = (n \<noteq> 0)"
| "truthy_value (VStr t) = (t \<noteq> [])"
| "truthy_value (VBigInt n) = (n \<noteq> 0)"
| "truthy_value VFunction = True"
| "truthy_value (VRef a) = True"

definition entries_at :: "object_heap \<Rightarrow> graph_value \<Rightarrow> (string \<times> graph_value) list" where
  "entries_at h v = (case v of VRef a \<Rightarrow> (case map_of h a of Some ob \<Rightarrow> own_entries ob | None \<Rightarrow> []) | _ \<Rightarrow> [])"

text \<open>\<open>v?.k\<close>\<close>

definition property_of :: "object_heap \<Rightarrow> graph_value \<Rightarrow> string \<Rightarrow> graph_value" where
  "property_of h v k = the_default VUndefined (map_of (entries_at h v) k)"

definition fresh_address :: "object_heap \<Rightarrow> nat" where
  "fresh_address h = Suc (fold max (map fst h) 0)"

definition alloc :: "heap_object \<Rightarrow> object_heap \<Rightarrow> object_heap \<times> nat" where
  "alloc ob h = ((fresh_address h, ob) # h, fresh_address h)"

section \<open>workspaceTabPersistence.ts\<close>

definition MAX_PERSISTED_TABS :: nat where
  "MAX_PERSISTED_TABS = 100"

definition capPersistedTabs :: "'t list \<Rightarrow> 't list" where
  "capPersistedTabs tabs = (if length tabs > MAX_PERSISTED_TABS then drop (length tabs - MAX_PERSISTED_TABS) tabs else tabs)"

definition stripLocalFileContent :: "nat \<Rightarrow> object_heap \<Rightarrow> object_heap \<times> nat" where
  "stripLocalFileContent tab h =
     (let uniqueData = property_of h (VRef tab) ''uniqueData'' in
      if property_of h (VRef tab) ''type'' \<noteq> VStr ''LocalSQLFile'' \<or> \<not> truthy_value uniqueData then (h, tab)
      else
        let (h1, copy) = alloc (PlainObject (filter (\<lambda>(k, _). k \<noteq> ''ddl'') (entries_at h uniqueData))) h
        in alloc (PlainObject (AList.update ''uniqueData'' (VRef copy) (entries_at h (VRef tab)))) h1)"

fun strip_tabs :: "nat list \<Rightarrow> object_heap \<Rightarrow> object_heap \<times> nat list" where
  "strip_tabs [] h = (h, [])"
| "strip_tabs (tab # tabs) h =
     (let (h1, tab') = stripLocalFileContent tab h; (h2, tabs') = strip_tabs tabs h1 in (h2, tab' # tabs'))"

definition persistable_tab :: "object_heap \<Rightarrow> nat \<Rightarrow> bool" where
  "persistable_tab h tab \<longleftrightarrow> property_of h (VRef tab) ''type'' \<noteq> VStr ''terminal''
     \<and> \<not> truthy_value (property_of h (property_of h (VRef tab) ''uniqueData'') ''filePreviewMimeType'')"

text \<open>The fields that are copied when serialising fails: they are strings and numbers.\<close>

fun plain_value :: "graph_value \<Rightarrow> jsval" where
  "plain_value VNull = Null"
| "plain_value VNaN = NaN"
| "plain_value (VBool b) = Bool b"
| "plain_value (VNum n) = Num n"
| "plain_value (VStr t) = Str t"
| "plain_value _ = Undefined"

definition minimal_tab :: "object_heap \<Rightarrow> nat \<Rightarrow> jsval" where
  "minimal_tab h tab = Obj (map (\<lambda>k. (k, plain_value (property_of h (VRef tab) k))) [''id'', ''type'', ''title''])"

definition serialized_tabs :: "bool \<Rightarrow> object_heap \<Rightarrow> nat list \<Rightarrow> jsval list option" where
  "serialized_tabs fails h tabs =
     (let (h', l) = alloc (ArrayObject (map VRef tabs)) h
      in if fails then None else case stringified h' (VRef l) of Some (Some (Arr js)) \<Rightarrow> Some js | _ \<Rightarrow> None)"

definition getPersistableWorkspaceTabList :: "bool \<Rightarrow> object_heap \<Rightarrow> nat list option \<Rightarrow> jsval list option" where
  "getPersistableWorkspaceTabList fails h workspaceTabList =
     (case workspaceTabList of
        None \<Rightarrow> None
      | Some [] \<Rightarrow> Some []
      | Some tabs \<Rightarrow>
          let (h', persistableTabs) = strip_tabs (filter (persistable_tab h) tabs) h;
              cappedTabs = capPersistedTabs persistableTabs
          in Some (case serialized_tabs fails h' cappedTabs of Some js \<Rightarrow> js | None \<Rightarrow> map (minimal_tab h') cappedTabs))"

definition getPersistableActiveConsoleId :: "jsval \<Rightarrow> jsval list option \<Rightarrow> jsval" where
  "getPersistableActiveConsoleId activeConsoleId workspaceTabList =
     (case workspaceTabList of
        None \<Rightarrow> Null
      | Some [] \<Rightarrow> Null
      | Some (tab # tabs) \<Rightarrow>
          if \<exists>t \<in> set (tab # tabs). strict_eq (jget t ''id'') activeConsoleId then js_or activeConsoleId Null
          else jget tab ''id'')"

record workspace_layout =
  wl_panelLeft :: jsval
  wl_panelLeftWidth :: jsval
  wl_panelRight :: jsval
  wl_panelRightWidth :: jsval

definition initConfigState_layout :: "int \<times> int" where
  "initConfigState_layout = (260, 300)"

fun finite_width :: "jsval \<Rightarrow> int \<Rightarrow> int" where
  "finite_width (Num n) initial = max 0 n"
| "finite_width _ initial = initial"

definition getPersistableWorkspaceLayout :: "workspace_layout \<Rightarrow> workspace_layout" where
  "getPersistableWorkspaceLayout layout =
     (let normalized = finite_width (wl_panelLeftWidth layout) (fst initConfigState_layout);
          panelLeftWidth = (if wl_panelLeft layout = Bool False then 0 else normalized);
          panelRightWidth = finite_width (wl_panelRightWidth layout) (snd initConfigState_layout)
      in \<lparr>wl_panelLeft = Bool (panelLeftWidth > 0), wl_panelLeftWidth = Num panelLeftWidth,
          wl_panelRight = (case wl_panelRight layout of Bool b \<Rightarrow> Bool b | _ \<Rightarrow> Bool False),
          wl_panelRightWidth = Num panelRightWidth\<rparr>)"

definition getHydratedWorkspaceLayout :: "workspace_layout \<Rightarrow> jsval \<Rightarrow> workspace_layout" where
  "getHydratedWorkspaceLayout currentLayout persistedLayout =
     (let stored = (\<lambda>k current. if jhas persistedLayout k then jget persistedLayout k else current)
      in getPersistableWorkspaceLayout
           \<lparr>wl_panelLeft = stored ''panelLeft'' (wl_panelLeft currentLayout),
            wl_panelLeftWidth = stored ''panelLeftWidth'' (wl_panelLeftWidth currentLayout),
            wl_panelRight = stored ''panelRight'' (wl_panelRight currentLayout),
            wl_panelRightWidth = stored ''panelRightWidth'' (wl_panelRightWidth currentLayout)\<rparr>)"

text \<open>A write that throws is reported and otherwise ignored.\<close>

definition safe_setItem :: "(string \<Rightarrow> string \<Rightarrow> 'st \<Rightarrow> jsval + 'st) \<Rightarrow> string \<Rightarrow> string \<Rightarrow> 'st \<Rightarrow> 'st \<times> jsval list" where
  "safe_setItem storage_setItem name text storage =
     (case storage_setItem name text storage of Inr storage' \<Rightarrow> (storage', []) | Inl error \<Rightarrow> (storage, [error]))"

section \<open>store.ts\<close>

text \<open>The state as it lives, as it is written, and as it is read back; \<open>'r\<close> are the parts that are passed on.\<close>

record 'r live_workspace =
  lw_layout :: workspace_layout
  lw_tabs :: "nat list option"
  lw_active :: jsval
  lw_recentlyClosed :: "nat list option"
  lw_rest :: 'r

record 'r stored_workspace =
  sw_layout :: workspace_layout
  sw_tabs :: "jsval list option"
  sw_active :: jsval
  sw_recentlyClosed :: "jsval list"
  sw_rest :: 'r

record 'r read_workspace =
  rw_layout :: jsval
  rw_tabs :: "nat list option"
  rw_active :: jsval
  rw_recentlyClosed :: "nat list option"
  rw_rest :: "'r option"

definition partialize :: "bool \<Rightarrow> bool \<Rightarrow> object_heap \<Rightarrow> 'r live_workspace \<Rightarrow> 'r stored_workspace" where
  "partialize fails failsClosed h state =
     (let workspaceTabList = getPersistableWorkspaceTabList fails h (lw_tabs state)
      in \<lparr>sw_layout = getPersistableWorkspaceLayout (lw_layout state),
          sw_tabs = workspaceTabList,
          sw_active = getPersistableActiveConsoleId (lw_active state) workspaceTabList,
          sw_recentlyClosed = the_default [] (getPersistableWorkspaceTabList failsClosed h (lw_recentlyClosed state)),
          sw_rest = lw_rest state\<rparr>)"

record 'r sanitized_workspace =
  sz_layout :: jsval
  sz_tabs :: "jsval list option"
  sz_active :: jsval
  sz_recentlyClosed :: "jsval list"
  sz_rest :: "'r option"

definition sanitizePersistedWorkspaceTabsState :: "bool \<Rightarrow> bool \<Rightarrow> object_heap \<Rightarrow> 'r read_workspace \<Rightarrow> 'r sanitized_workspace" where
  "sanitizePersistedWorkspaceTabsState fails failsClosed h state =
     (let workspaceTabList = getPersistableWorkspaceTabList fails h (rw_tabs state)
      in \<lparr>sz_layout = rw_layout state,
          sz_tabs = workspaceTabList,
          sz_active = getPersistableActiveConsoleId (rw_active state) workspaceTabList,
          sz_recentlyClosed = the_default [] (getPersistableWorkspaceTabList failsClosed h (rw_recentlyClosed state)),
          sz_rest = rw_rest state\<rparr>)"

text \<open>\<open>persistedState || {}\<close>: nothing may have been stored.\<close>

definition merge_workspace ::
  "bool \<Rightarrow> bool \<Rightarrow> object_heap \<Rightarrow> 'r read_workspace option \<Rightarrow> 'r live_workspace \<Rightarrow> 'r stored_workspace" where
  "merge_workspace fails failsClosed h persistedState currentState =
     (let stored = sanitizePersistedWorkspaceTabsState fails failsClosed h
            (the_default \<lparr>rw_layout = Undefined, rw_tabs = None, rw_active = Undefined, rw_recentlyClosed = None, rw_rest = None\<rparr> persistedState)
      in \<lparr>sw_layout = getHydratedWorkspaceLayout (lw_layout currentState) (sz_layout stored),
          sw_tabs = sz_tabs stored, sw_active = sz_active stored, sw_recentlyClosed = sz_recentlyClosed stored,
          sw_rest = the_default (lw_rest currentState) (sz_rest stored)\<rparr>)"

section \<open>Heaps that grow\<close>

definition value_ok :: "object_heap \<Rightarrow> graph_value \<Rightarrow> bool" where
  "value_ok h v = (case v of VRef a \<Rightarrow> map_of h a \<noteq> None | _ \<Rightarrow> True)"

fun values_of :: "heap_object \<Rightarrow> graph_value list" where
  "values_of (ArrayObject vs) = vs"
| "values_of ob = map snd (own_entries ob)"

definition object_ok :: "object_heap \<Rightarrow> heap_object \<Rightarrow> bool" where
  "object_ok h ob \<longleftrightarrow> distinct (map fst (own_entries ob)) \<and> list_all (value_ok h) (values_of ob)"

text \<open>An object has each key once, and references point into the heap.\<close>

definition heap_ok :: "object_heap \<Rightarrow> bool" where
  "heap_ok h \<longleftrightarrow> list_all (\<lambda>(a, ob). object_ok h ob) h"

lemma fresh_address_new [simp]: "map_of h (fresh_address h) = None"
proof -
  have "m \<le> fold max xs m \<and> (\<forall>x \<in> set xs. x \<le> fold max xs m)" for m :: nat and xs
    by (induction xs arbitrary: m) (auto intro: le_trans[OF max.cobounded1] le_trans[OF max.cobounded2])
  then have "\<forall>x \<in> set (map fst h). x < fresh_address h" by (auto simp: fresh_address_def less_Suc_eq_le)
  then show ?thesis by (auto simp: map_of_eq_None_iff)
qed

lemma alloc_extends: "alloc ob h = (h', a) \<Longrightarrow> map_of h \<subseteq>\<^sub>m map_of h'"
  by (auto simp: alloc_def map_le_def)

lemma alloc_lookup: "alloc ob h = (h', a) \<Longrightarrow> map_of h' a = Some ob"
  by (auto simp: alloc_def)

lemma extends_lookup: "map_of h \<subseteq>\<^sub>m map_of h' \<Longrightarrow> map_of h a = Some ob \<Longrightarrow> map_of h' a = Some ob"
  by (force simp: map_le_def)

lemma extends_value_ok: "map_of h \<subseteq>\<^sub>m map_of h' \<Longrightarrow> value_ok h v \<Longrightarrow> value_ok h' v"
  by (force simp: value_ok_def map_le_def split: graph_value.splits)

lemma extends_object_ok: "map_of h \<subseteq>\<^sub>m map_of h' \<Longrightarrow> object_ok h ob \<Longrightarrow> object_ok h' ob"
  by (auto simp: object_ok_def list_all_iff intro: extends_value_ok)

lemma alloc_heap_ok: "alloc ob h = (h', a) \<Longrightarrow> heap_ok h \<Longrightarrow> object_ok h ob \<Longrightarrow> heap_ok h'"
  using extends_object_ok[OF alloc_extends] by (fastforce simp: heap_ok_def list_all_iff alloc_def)

lemma heap_ok_lookup: "heap_ok h \<Longrightarrow> map_of h a = Some ob \<Longrightarrow> object_ok h ob"
  by (force simp: heap_ok_def list_all_iff dest: map_of_SomeD)

lemma entries_at_extends: "map_of h \<subseteq>\<^sub>m map_of h' \<Longrightarrow> value_ok h v \<Longrightarrow> entries_at h' v = entries_at h v"
  by (force simp: entries_at_def value_ok_def map_le_def split: graph_value.splits)

lemma property_extends: "map_of h \<subseteq>\<^sub>m map_of h' \<Longrightarrow> value_ok h v \<Longrightarrow> property_of h' v k = property_of h v k"
  by (simp add: property_of_def entries_at_extends)

lemma entry_ok:
  assumes "heap_ok h" "(k, w) \<in> set (entries_at h v)"
  shows "value_ok h w"
proof -
  obtain a ob where ob: "map_of h a = Some ob" "(k, w) \<in> set (own_entries ob)"
    using assms(2) by (cases v) (auto simp: entries_at_def split: option.splits intro: that[OF sym])
  then show ?thesis using heap_ok_lookup[OF assms(1) ob(1)] by (cases ob) (force simp: object_ok_def list_all_iff)+
qed

lemma entries_distinct: "heap_ok h \<Longrightarrow> distinct (map fst (entries_at h v))"
  by (auto simp: entries_at_def object_ok_def dest: heap_ok_lookup split: graph_value.splits option.splits)

lemma property_ok: "heap_ok h \<Longrightarrow> value_ok h (property_of h v k)"
  by (auto simp: property_of_def the_default_def value_ok_def[of h VUndefined] split: option.splits dest: map_of_SomeD intro: entry_ok)

section \<open>Tabs before they are written\<close>

text \<open>A tab is an object with an id that is a name or a number other than 0.\<close>

definition tab_ok :: "object_heap \<Rightarrow> nat \<Rightarrow> bool" where
  "tab_ok h tab \<longleftrightarrow> (case map_of h tab of Some (PlainObject kvs) \<Rightarrow> True | _ \<Rightarrow> False)
     \<and> (case property_of h (VRef tab) ''id'' of VStr t \<Rightarrow> t \<noteq> [] | VNum n \<Rightarrow> n \<noteq> 0 | _ \<Rightarrow> False)"

definition bare_tab :: "object_heap \<Rightarrow> nat \<Rightarrow> bool" where
  "bare_tab h tab \<longleftrightarrow> persistable_tab h tab \<and>
     (let uniqueData = property_of h (VRef tab) ''uniqueData''
      in property_of h (VRef tab) ''type'' \<noteq> VStr ''LocalSQLFile'' \<or> \<not> truthy_value uniqueData
        \<or> ''ddl'' \<notin> fst ` set (entries_at h uniqueData) \<and> (\<exists>a kvs. uniqueData = VRef a \<and> map_of h a = Some (PlainObject kvs)))"

lemma tab_ok_value: "tab_ok h tab \<Longrightarrow> value_ok h (VRef tab)"
  by (auto simp: tab_ok_def value_ok_def split: option.splits)

lemma tab_ok_extends: "map_of h \<subseteq>\<^sub>m map_of h' \<Longrightarrow> tab_ok h tab \<Longrightarrow> tab_ok h' tab"
  using property_extends[OF _ tab_ok_value, of h h' tab "''id''"]
  by (force simp: tab_ok_def map_le_def split: option.splits heap_object.splits)

lemma persistable_extends:
  assumes "map_of h \<subseteq>\<^sub>m map_of h'" "heap_ok h" "value_ok h (VRef tab)"
  shows "persistable_tab h' tab = persistable_tab h tab"
  using assms by (simp add: persistable_tab_def property_extends property_ok)

lemma bare_extends:
  assumes "map_of h \<subseteq>\<^sub>m map_of h'" "heap_ok h" "tab_ok h tab" "bare_tab h tab"
  shows "bare_tab h' tab"
  using assms persistable_extends[OF assms(1,2) tab_ok_value[OF assms(3)]]
  by (force simp: bare_tab_def Let_def property_extends tab_ok_value property_ok entries_at_extends map_le_def)

lemma property_at: "map_of h a = Some (PlainObject kvs) \<Longrightarrow> property_of h (VRef a) k = the_default VUndefined (map_of kvs k)"
  by (simp add: property_of_def entries_at_def)

lemma map_of_without: "map_of (filter (\<lambda>(k, _). k \<noteq> d) xs) k = (if k = d then None else map_of xs k)"
  by (induction xs) auto

lemma set_update_subset: "set (AList.update k v xs) \<subseteq> insert (k, v) (set xs)"
  by (induction xs) auto

lemma stripped_tab:
  assumes ok: "heap_ok h" "tab_ok h tab" "persistable_tab h tab" and strip: "stripLocalFileContent tab h = (h', tab')"
  shows "map_of h \<subseteq>\<^sub>m map_of h'" "heap_ok h'" "tab_ok h' tab'" "bare_tab h' tab'"
    "property_of h' (VRef tab') ''id'' = property_of h (VRef tab) ''id''"
proof -
  let ?ud = "property_of h (VRef tab) ''uniqueData''"
  have "map_of h \<subseteq>\<^sub>m map_of h' \<and> heap_ok h' \<and> tab_ok h' tab' \<and> bare_tab h' tab'
    \<and> property_of h' (VRef tab') ''id'' = property_of h (VRef tab) ''id''"
  proof (cases "property_of h (VRef tab) ''type'' \<noteq> VStr ''LocalSQLFile'' \<or> \<not> truthy_value ?ud")
    case True
    then show ?thesis using ok strip by (auto simp: stripLocalFileContent_def bare_tab_def Let_def)
  next
    case False
    define rest where "rest = filter (\<lambda>(k, _). k \<noteq> ''ddl'') (entries_at h ?ud)"
    define fields where "fields copy = AList.update ''uniqueData'' (VRef copy) (entries_at h (VRef tab))" for copy
    obtain h1 copy where a1: "alloc (PlainObject rest) h = (h1, copy)" by (cases "alloc (PlainObject rest) h")
    have a2: "alloc (PlainObject (fields copy)) h1 = (h', tab')"
      using strip False a1 by (simp add: stripLocalFileContent_def rest_def fields_def Let_def)
    have d: "distinct (map fst rest)" using entries_distinct[OF ok(1)] by (simp add: rest_def distinct_map_filter)
    have "object_ok h (PlainObject rest)" using d entry_ok[OF ok(1)] by (fastforce simp: object_ok_def list_all_iff rest_def)
    then have h1: "heap_ok h1" by (rule alloc_heap_ok[OF a1 ok(1)])
    have "object_ok h1 (PlainObject (fields copy))"
      using entries_distinct[OF ok(1)] entry_ok[OF ok(1), of _ _ "VRef tab"] extends_value_ok[OF alloc_extends[OF a1]] alloc_lookup[OF a1]
      by (fastforce simp: object_ok_def list_all_iff fields_def distinct_update value_ok_def[of h1 "VRef copy"] dest: set_update_subset[THEN subsetD])
    then have ok': "heap_ok h'" by (rule alloc_heap_ok[OF a2 h1])
    have ext: "map_of h \<subseteq>\<^sub>m map_of h'" using alloc_extends[OF a1] alloc_extends[OF a2] by (rule map_le_trans)
    have at: "map_of h' tab' = Some (PlainObject (fields copy))" "map_of h' copy = Some (PlainObject rest)"
      using alloc_lookup[OF a2] extends_lookup[OF alloc_extends[OF a2] alloc_lookup[OF a1]] by auto
    have props: "property_of h' (VRef tab') k = (if k = ''uniqueData'' then VRef copy else property_of h (VRef tab) k)" for k
      by (simp add: property_at[OF at(1)] fields_def update_conv' property_of_def[of h])
    have "property_of h' (VRef copy) ''filePreviewMimeType'' = property_of h ?ud ''filePreviewMimeType''"
      by (simp add: property_at[OF at(2)] rest_def map_of_without property_of_def[of h])
    moreover have "''ddl'' \<notin> fst ` set rest" by (auto simp: rest_def)
    ultimately have "bare_tab h' tab'" using ok(3) at(2) by (auto simp: bare_tab_def persistable_tab_def props entries_at_def)
    then show ?thesis using ok(2) ok' ext at(1) by (auto simp: tab_ok_def props split: option.splits heap_object.splits)
  qed
  then show "map_of h \<subseteq>\<^sub>m map_of h'" "heap_ok h'" "tab_ok h' tab'" "bare_tab h' tab'"
    "property_of h' (VRef tab') ''id'' = property_of h (VRef tab) ''id''" by auto
qed

lemma stripped_tabs:
  assumes "heap_ok h" "list_all (tab_ok h) tabs" "list_all (persistable_tab h) tabs" "strip_tabs tabs h = (h', tabs')"
  shows "heap_ok h' \<and> map_of h \<subseteq>\<^sub>m map_of h' \<and> list_all (tab_ok h') tabs' \<and> list_all (bare_tab h') tabs'
    \<and> map (\<lambda>t. property_of h' (VRef t) ''id'') tabs' = map (\<lambda>t. property_of h (VRef t) ''id'') tabs"
  using assms
proof (induction tabs arbitrary: h h' tabs')
  case Nil
  then show ?case by simp
next
  case (Cons tab tabs)
  obtain h1 tab1 where s1: "stripLocalFileContent tab h = (h1, tab1)" by (cases "stripLocalFileContent tab h")
  obtain tabs2 where s2: "strip_tabs tabs h1 = (h', tabs2)" and t: "tabs' = tab1 # tabs2"
    using Cons.prems(4) s1 by (auto simp: Let_def split: prod.splits)
  note one = stripped_tab[OF Cons.prems(1) _ _ s1]
  have ok1: "list_all (tab_ok h) tabs" "tab_ok h tab" "persistable_tab h tab" using Cons.prems(2,3) by auto
  note one = one[OF ok1(2,3)]
  have "list_all (tab_ok h1) tabs" "list_all (persistable_tab h1) tabs"
    using ok1 Cons.prems(3) tab_ok_extends[OF one(1)] persistable_extends[OF one(1) Cons.prems(1) tab_ok_value] by (auto simp: list_all_iff)
  note rest = Cons.IH[OF one(2) this s2]
  have ids: "map (\<lambda>t. property_of h1 (VRef t) ''id'') tabs = map (\<lambda>t. property_of h (VRef t) ''id'') tabs"
    using ok1(1) property_extends[OF one(1) tab_ok_value] by (auto simp: list_all_iff)
  have "tab_ok h' tab1" "bare_tab h' tab1" "property_of h' (VRef tab1) ''id'' = property_of h (VRef tab) ''id''"
    using rest one tab_ok_extends bare_extends property_extends[OF _ tab_ok_value[OF one(3)]] by metis+
  then show ?case using rest one(1) ids t by (auto intro: map_le_trans)
qed

section \<open>Tabs as they are written\<close>

definition persisted_tab :: "jsval \<Rightarrow> bool" where
  "persisted_tab j \<longleftrightarrow> (\<exists>kjs. j = Obj kjs)
     \<and> jget j ''type'' \<noteq> Str ''terminal'' \<and> \<not> truthy (jget (jget j ''uniqueData'') ''filePreviewMimeType'')
     \<and> (jget j ''type'' \<noteq> Str ''LocalSQLFile'' \<or> \<not> truthy (jget j ''uniqueData'')
        \<or> (\<exists>kjs. jget j ''uniqueData'' = Obj kjs \<and> ''ddl'' \<notin> fst ` set kjs))"

lemma map_of_unfold_entries:
  "distinct (map fst kvs) \<Longrightarrow> map_of (unfold_entries h path kvs) k = Option.bind (map_of kvs k) (cut_unfold h path)"
proof (induction kvs)
  case (Cons kv kvs)
  have "k \<notin> fst ` set kvs \<Longrightarrow> map_of (unfold_entries h path kvs) k = None"
    using Cons by (simp add: map_of_eq_None_iff[THEN iffD2])
  then show ?case using Cons by (cases kv) (auto split: option.split)
qed simp

lemma keys_unfold_entries: "(k, j) \<in> set (unfold_entries h path kvs) \<Longrightarrow> k \<in> fst ` set kvs"
  by (induction kvs) (auto split: option.splits)

lemma unfolded_object:
  assumes "heap_ok h" "map_of h a = Some (PlainObject kvs)" "a \<notin> set path"
  shows "cut_unfold h path (VRef a) = Some (Obj (unfold_entries h (a # path) kvs))"
    "jget (Obj (unfold_entries h (a # path) kvs)) k = the_default Undefined (cut_unfold h (a # path) (property_of h (VRef a) k))"
  using assms heap_ok_lookup[OF assms(1,2)]
  by (auto simp: property_at[OF assms(2)] object_ok_def map_of_unfold_entries the_default_def split: option.split)

lemma falsy_unfold: "\<not> truthy_value v \<Longrightarrow> \<not> truthy (the_default Undefined (cut_unfold h path v))"
  by (cases v) auto

lemma unfolded_property_falsy:
  assumes "heap_ok h" "\<not> truthy_value (property_of h v k)"
  shows "\<not> truthy (jget (the_default Undefined (cut_unfold h path v)) k)"
proof (cases v)
  case (VRef a)
  show ?thesis
  proof (cases "\<exists>kvs. map_of h a = Some (PlainObject kvs) \<and> a \<notin> set path")
    case True
    then obtain kvs where "map_of h a = Some (PlainObject kvs)" "a \<notin> set path" by blast
    note u = unfolded_object[OF assms(1) this]
    show ?thesis unfolding VRef u(1) the_default_simps u(2)
      using assms(2) VRef falsy_unfold by blast
  next
    case False
    then show ?thesis by (auto simp: VRef split: option.split heap_object.split)
  qed
qed auto

lemma bare_tab_written:
  assumes ok: "heap_ok h" "tab_ok h tab" "bare_tab h tab" and path: "tab \<notin> set path"
  shows "\<exists>j. cut_unfold h path (VRef tab) = Some j \<and> persisted_tab j \<and> jget j ''id'' = plain_value (property_of h (VRef tab) ''id'')"
proof -
  obtain kvs where kvs: "map_of h tab = Some (PlainObject kvs)" using ok(2) by (auto simp: tab_ok_def split: option.splits heap_object.splits)
  note u = unfolded_object[OF ok(1) kvs path]
  let ?j = "Obj (unfold_entries h (tab # path) kvs)"
  have id: "jget ?j ''id'' = plain_value (property_of h (VRef tab) ''id'')"
    unfolding u(2) using ok(2) by (auto simp: tab_ok_def split: graph_value.splits)
  have type: "jget ?j ''type'' = Str t \<Longrightarrow> property_of h (VRef tab) ''type'' = VStr t" for t
    unfolding u(2) by (cases "property_of h (VRef tab) ''type''") (auto split: if_splits option.splits heap_object.splits)
  have mime: "\<not> truthy (jget (jget ?j ''uniqueData'') ''filePreviewMimeType'')"
    unfolding u(2) using ok(1,3) unfolded_property_falsy by (simp add: bare_tab_def persistable_tab_def)
  have local: "jget ?j ''type'' \<noteq> Str ''LocalSQLFile'' \<or> \<not> truthy (jget ?j ''uniqueData'')
      \<or> (\<exists>kjs. jget ?j ''uniqueData'' = Obj kjs \<and> ''ddl'' \<notin> fst ` set kjs)"
  proof (cases "property_of h (VRef tab) ''type'' = VStr ''LocalSQLFile'' \<and> truthy_value (property_of h (VRef tab) ''uniqueData'')")
    case True
    then obtain a kvs' where a: "property_of h (VRef tab) ''uniqueData'' = VRef a" "map_of h a = Some (PlainObject kvs')" "''ddl'' \<notin> fst ` set kvs'"
      using ok(3) by (auto simp: bare_tab_def Let_def entries_at_def)
    show ?thesis unfolding u(2) using a by (auto simp: a(1) dest: keys_unfold_entries)
  next
    case False
    then show ?thesis using type falsy_unfold unfolding u(2) by blast
  qed
  have "persisted_tab ?j" unfolding persisted_tab_def using type ok(3) mime local by (auto simp: bare_tab_def persistable_tab_def)
  then show ?thesis using u(1) id by blast
qed

lemma serialized_tabs_unfold:
  assumes "list_all (tab_ok h) tabs" "alloc (ArrayObject (map VRef tabs)) h = (h', l)"
  shows "stringified h' (VRef l) = Some (Some (Arr (unfold_elements h' [l] (map VRef tabs))))"
  using alloc_lookup[OF assms(2)] by (simp add: stringified_cut)

lemma address_not_new: "tab_ok h tab \<Longrightarrow> alloc ob h = (h', l) \<Longrightarrow> tab \<noteq> l"
  by (auto simp: alloc_def tab_ok_def)

lemma unfold_elements_written:
  assumes "\<forall>tab \<in> set tabs. \<exists>j. cut_unfold h path (VRef tab) = Some j \<and> persisted_tab j \<and> jget j ''id'' = f tab"
  shows "list_all persisted_tab (unfold_elements h path (map VRef tabs))
    \<and> map (\<lambda>j. jget j ''id'') (unfold_elements h path (map VRef tabs)) = map f tabs"
  using assms by (induction tabs) auto

lemma minimal_tab_persisted: "persistable_tab h tab \<Longrightarrow> persisted_tab (minimal_tab h tab)"
  by (cases "property_of h (VRef tab) ''type''") (auto simp: persisted_tab_def minimal_tab_def persistable_tab_def)

lemma minimal_tab_id: "jget (minimal_tab h tab) ''id'' = plain_value (property_of h (VRef tab) ''id'')"
  by (simp add: minimal_tab_def)

lemma bare_tabs_written:
  assumes ok: "heap_ok h" "list_all (tab_ok h) tabs" "list_all (bare_tab h) tabs"
    and js_def: "js = (case serialized_tabs fails h tabs of Some js \<Rightarrow> js | None \<Rightarrow> map (minimal_tab h) tabs)"
  shows "list_all persisted_tab js \<and> map (\<lambda>j. jget j ''id'') js = map (\<lambda>t. plain_value (property_of h (VRef t) ''id'')) tabs"
proof (cases fails)
  case True
  then show ?thesis using ok(3)
    by (auto simp: js_def serialized_tabs_def list_all_iff bare_tab_def minimal_tab_persisted minimal_tab_id split: prod.splits)
next
  case False
  obtain h' l where a: "alloc (ArrayObject (map VRef tabs)) h = (h', l)" by (cases "alloc (ArrayObject (map VRef tabs)) h")
  note ext = alloc_extends[OF a]
  have "object_ok h (ArrayObject (map VRef tabs))" using ok(2) tab_ok_value by (auto simp: object_ok_def list_all_iff)
  then have h': "heap_ok h'" by (rule alloc_heap_ok[OF a ok(1)])
  have "\<exists>j. cut_unfold h' [l] (VRef tab) = Some j \<and> persisted_tab j \<and> jget j ''id'' = plain_value (property_of h (VRef tab) ''id'')"
    if "tab \<in> set tabs" for tab
  proof -
    have t: "tab_ok h tab" "bare_tab h tab" using that ok by (auto simp: list_all_iff)
    show ?thesis
      using bare_tab_written[OF h' tab_ok_extends[OF ext t(1)] bare_extends[OF ext ok(1) t], of "[l]"] address_not_new[OF t(1) a]
        property_extends[OF ext tab_ok_value[OF t(1)]] by simp
  qed
  then have "list_all persisted_tab (unfold_elements h' [l] (map VRef tabs))
    \<and> map (\<lambda>j. jget j ''id'') (unfold_elements h' [l] (map VRef tabs)) = map (\<lambda>t. plain_value (property_of h (VRef t) ''id'')) tabs"
    by (intro unfold_elements_written) blast
  then show ?thesis using serialized_tabs_unfold[OF ok(2) a] False a by (simp add: js_def serialized_tabs_def)
qed

lemma length_capPersistedTabs: "length (capPersistedTabs tabs) \<le> MAX_PERSISTED_TABS"
  by (simp add: capPersistedTabs_def)

lemma capPersistedTabs_map: "capPersistedTabs (map f tabs) = map f (capPersistedTabs tabs)"
  by (simp add: capPersistedTabs_def drop_map)

lemma list_all_capPersistedTabs: "list_all P tabs \<Longrightarrow> list_all P (capPersistedTabs tabs)"
  by (auto simp: capPersistedTabs_def list_all_iff dest: in_set_dropD)

lemma written_tabs:
  assumes ok: "heap_ok h" "list_all (tab_ok h) tabs" and js: "getPersistableWorkspaceTabList fails h (Some tabs) = Some js"
  shows "length js \<le> MAX_PERSISTED_TABS \<and> list_all persisted_tab js
    \<and> map (\<lambda>j. jget j ''id'') js = map (\<lambda>t. plain_value (property_of h (VRef t) ''id'')) (capPersistedTabs (filter (persistable_tab h) tabs))"
proof (cases "tabs = []")
  case True
  then show ?thesis using js by (auto simp: getPersistableWorkspaceTabList_def capPersistedTabs_def)
next
  case False
  obtain h' ts where s: "strip_tabs (filter (persistable_tab h) tabs) h = (h', ts)" by (cases "strip_tabs (filter (persistable_tab h) tabs) h")
  have "list_all (tab_ok h) (filter (persistable_tab h) tabs)" "list_all (persistable_tab h) (filter (persistable_tab h) tabs)"
    using ok(2) by (auto simp: list_all_iff)
  note st = stripped_tabs[OF ok(1) this s]
  have "js = (case serialized_tabs fails h' (capPersistedTabs ts) of Some js \<Rightarrow> js | None \<Rightarrow> map (minimal_tab h') (capPersistedTabs ts))"
    using js s False by (auto simp: getPersistableWorkspaceTabList_def Let_def split: list.splits)
  then have w: "list_all persisted_tab js \<and> map (\<lambda>j. jget j ''id'') js = map (\<lambda>t. plain_value (property_of h' (VRef t) ''id'')) (capPersistedTabs ts)"
    using bare_tabs_written st list_all_capPersistedTabs by blast
  have "map plain_value (capPersistedTabs (map (\<lambda>t. property_of h' (VRef t) ''id'') ts))
      = map plain_value (capPersistedTabs (map (\<lambda>t. property_of h (VRef t) ''id'') (filter (persistable_tab h) tabs)))" using st by simp
  then have ids: "map (\<lambda>j. jget j ''id'') js = map (\<lambda>t. plain_value (property_of h (VRef t) ''id'')) (capPersistedTabs (filter (persistable_tab h) tabs))"
    using w by (simp add: capPersistedTabs_map comp_def)
  have "length js \<le> MAX_PERSISTED_TABS" using arg_cong[OF ids, of length] length_capPersistedTabs[of "filter (persistable_tab h) tabs"] by simp
  then show ?thesis using ids w by blast
qed

section \<open>Tabs as they are read back\<close>

lemma represents_extends: "represents h v t \<Longrightarrow> map_of h \<subseteq>\<^sub>m map_of h' \<Longrightarrow> represents h' v t"
proof (induction h v t rule: represents.induct)
  case (7 h v js)
  then obtain a vs where v: "v = VRef a" "map_of h a = Some (ArrayObject vs)" and all: "list_all2 (represents h) vs js"
    by (auto simp: represents_Arr)
  have "list_all2 (represents h') vs js" using all by (rule list_all2_mono_set) (use "7.IH"[OF v(1) v(2) refl] "7.prems"(2) in blast)
  then show ?case using v extends_lookup[OF "7.prems"(2)] by (auto simp: represents_Arr)
next
  case (8 h v kjs)
  then obtain a kvs where v: "v = VRef a" "map_of h a = Some (PlainObject kvs)"
    and all: "list_all2 (\<lambda>p q. fst p = fst q \<and> represents h (snd p) (snd q)) kvs kjs" by (auto simp: represents_Obj)
  have "list_all2 (\<lambda>p q. fst p = fst q \<and> represents h' (snd p) (snd q)) kvs kjs"
    using all by (rule list_all2_mono_set) (use "8.IH"[OF v(1) v(2) refl] "8.prems"(2) in blast)
  then show ?case using v extends_lookup[OF "8.prems"(2)] by (auto simp: represents_Obj)
qed auto

lemma represents_truthy: "represents h v j \<Longrightarrow> truthy_value v = truthy j"
  by (cases j) (auto simp: represents_Arr represents_Obj)

lemma represents_keys: "list_all2 (\<lambda>p q. fst p = fst q \<and> R (snd p) (snd q)) kvs kjs \<Longrightarrow> map fst kvs = map fst kjs"
  by (induction rule: list_all2_induct) auto

lemma represents_lookup:
  "list_all2 (\<lambda>p q. fst p = fst q \<and> R (snd p) (snd q)) kvs kjs \<Longrightarrow> rel_option R (map_of kvs k) (map_of kjs k)"
  by (induction rule: list_all2_induct) auto

lemma represents_update:
  assumes "list_all2 (\<lambda>p q. fst p = fst q \<and> R (snd p) (snd q)) kvs kjs" "map_of kjs k = Some j" "R v j"
  shows "list_all2 (\<lambda>p q. fst p = fst q \<and> R (snd p) (snd q)) (AList.update k v kvs) kjs"
  using assms by (induction rule: list_all2_induct) (auto split: if_splits)

lemma represents_property:
  assumes "represents h v j"
  shows "(property_of h v k = VUndefined \<and> jget j k = Undefined) \<or> represents h (property_of h v k) (jget j k)"
proof (cases j)
  case (Obj kjs)
  then obtain a kvs where v: "v = VRef a" "map_of h a = Some (PlainObject kvs)"
    and all: "list_all2 (\<lambda>p q. fst p = fst q \<and> represents h (snd p) (snd q)) kvs kjs" using assms by (auto simp: represents_Obj)
  show ?thesis using represents_lookup[OF all, of k] Obj unfolding v(1) property_at[OF v(2)] by (auto elim!: option.rel_cases)
qed (use assms in \<open>auto simp: property_of_def entries_at_def represents_Arr\<close>)

lemma restored_tab:
  assumes rep: "represents h (VRef tab) j" and j: "persisted_tab j"
  shows "persistable_tab h tab"
    "stripLocalFileContent tab h = (h', tab') \<Longrightarrow> map_of h \<subseteq>\<^sub>m map_of h' \<and> represents h' (VRef tab') j"
proof -
  have type: "property_of h (VRef tab) ''type'' = VStr t \<longleftrightarrow> jget j ''type'' = Str t" for t
    using represents_property[OF rep, of "''type''"] by auto
  note ud = represents_property[OF rep, of "''uniqueData''"]
  have "\<not> truthy_value (property_of h (property_of h (VRef tab) ''uniqueData'') ''filePreviewMimeType'')"
    using ud represents_property[of h "property_of h (VRef tab) ''uniqueData''" "jget j ''uniqueData''" "''filePreviewMimeType''"]
      represents_truthy j by (force simp: persisted_tab_def property_of_def[of h VUndefined] entries_at_def)
  then show "persistable_tab h tab" using type j by (simp add: persistable_tab_def persisted_tab_def)
  assume strip: "stripLocalFileContent tab h = (h', tab')"
  show "map_of h \<subseteq>\<^sub>m map_of h' \<and> represents h' (VRef tab') j"
  proof (cases "property_of h (VRef tab) ''type'' \<noteq> VStr ''LocalSQLFile'' \<or> \<not> truthy_value (property_of h (VRef tab) ''uniqueData'')")
    case True
    then show ?thesis using strip rep by (auto simp: stripLocalFileContent_def Let_def)
  next
    case False
    then have rud: "represents h (property_of h (VRef tab) ''uniqueData'') (jget j ''uniqueData'')" using ud by auto
    then obtain ukjs where u: "jget j ''uniqueData'' = Obj ukjs" "''ddl'' \<notin> fst ` set ukjs"
      using False j type represents_truthy by (auto simp: persisted_tab_def)
    obtain a ukvs where a: "property_of h (VRef tab) ''uniqueData'' = VRef a" "map_of h a = Some (PlainObject ukvs)"
      and uall: "list_all2 (\<lambda>p q. fst p = fst q \<and> represents h (snd p) (snd q)) ukvs ukjs" using rud u(1) by (auto simp: represents_Obj)
    have "''ddl'' \<notin> fst ` set ukvs" using u(2) represents_keys[OF uall] by (metis set_map)
    then have rest: "filter (\<lambda>(k, _). k \<noteq> ''ddl'') (entries_at h (VRef a)) = ukvs"
      using a(2) by (force simp: entries_at_def filter_id_conv)
    obtain kjs where kjs: "j = Obj kjs" using j by (auto simp: persisted_tab_def)
    obtain kvs where kvs: "map_of h tab = Some (PlainObject kvs)"
      and all: "list_all2 (\<lambda>p q. fst p = fst q \<and> represents h (snd p) (snd q)) kvs kjs" using rep kjs by (auto simp: represents_Obj)
    obtain h1 copy where a1: "alloc (PlainObject ukvs) h = (h1, copy)" by (cases "alloc (PlainObject ukvs) h")
    have a2: "alloc (PlainObject (AList.update ''uniqueData'' (VRef copy) kvs)) h1 = (h', tab')"
      using strip False a1 a(1) rest kvs by (simp add: stripLocalFileContent_def Let_def entries_at_def[of h "VRef tab"])
    note e1 = alloc_extends[OF a1] and e2 = alloc_extends[OF a2]
    note ext = map_le_trans[OF e1 e2]
    have mono: "list_all2 (\<lambda>p q. fst p = fst q \<and> represents h' (snd p) (snd q)) xs ys"
      if "list_all2 (\<lambda>p q. fst p = fst q \<and> represents h (snd p) (snd q)) xs ys" for xs ys
      using that by (rule list_all2_mono) (auto intro: represents_extends[OF _ ext])
    have copy: "represents h' (VRef copy) (Obj ukjs)"
      using extends_lookup[OF e2 alloc_lookup[OF a1]] mono[OF uall] by (auto simp: represents_Obj)
    have "map_of kjs ''uniqueData'' = Some (Obj ukjs)" using u(1) kjs by (auto split: option.splits)
    then have "list_all2 (\<lambda>p q. fst p = fst q \<and> represents h' (snd p) (snd q)) (AList.update ''uniqueData'' (VRef copy) kvs) kjs"
      using represents_update[OF mono[OF all]] copy by blast
    then show ?thesis using ext alloc_lookup[OF a2] kjs by (auto simp: represents_Obj)
  qed
qed

abbreviation represent_tabs :: "object_heap \<Rightarrow> nat list \<Rightarrow> jsval list \<Rightarrow> bool" where
  "represent_tabs h \<equiv> list_all2 (\<lambda>t j. represents h (VRef t) j)"

lemma restored_strip_tabs:
  assumes "represent_tabs h tabs js" "list_all persisted_tab js" "strip_tabs tabs h = (h', tabs')"
  shows "represent_tabs h' tabs' js \<and> map_of h \<subseteq>\<^sub>m map_of h'"
  using assms
proof (induction tabs arbitrary: h h' tabs' js)
  case Nil
  then show ?case by simp
next
  case (Cons tab tabs)
  obtain j js' where js: "js = j # js'" "represents h (VRef tab) j" "represent_tabs h tabs js'" using Cons.prems(1) by (auto simp: list_all2_Cons1)
  have p: "persisted_tab j" "list_all persisted_tab js'" using Cons.prems(2) js(1) by auto
  obtain h1 tab1 where s1: "stripLocalFileContent tab h = (h1, tab1)" by (cases "stripLocalFileContent tab h")
  obtain tabs2 where s2: "strip_tabs tabs h1 = (h', tabs2)" and t: "tabs' = tab1 # tabs2"
    using Cons.prems(3) s1 by (auto simp: Let_def split: prod.splits)
  have one: "map_of h \<subseteq>\<^sub>m map_of h1" "represents h1 (VRef tab1) j" using restored_tab(2)[OF js(2) p(1) s1] by auto
  have "represent_tabs h1 tabs js'" using js(3) by (rule list_all2_mono) (rule represents_extends[OF _ one(1)])
  note rest = Cons.IH[OF this p(2) s2]
  then show ?case using represents_extends[OF one(2)] map_le_trans[OF one(1)] js(1) t by auto
qed

lemma list_all2_in_set: "list_all2 P xs ys \<Longrightarrow> x \<in> set xs \<Longrightarrow> \<exists>y \<in> set ys. P x y"
  by (induction rule: list_all2_induct) auto

lemma restored_tabs:
  assumes rep: "represent_tabs h tabs js" and js: "list_all persisted_tab js" "length js \<le> MAX_PERSISTED_TABS"
  shows "getPersistableWorkspaceTabList False h (Some tabs) = Some js"
proof (cases "tabs = []")
  case True
  then show ?thesis using rep by (simp add: getPersistableWorkspaceTabList_def)
next
  case False
  have "\<forall>t \<in> set tabs. persistable_tab h t"
    using list_all2_in_set[OF rep] js(1) restored_tab(1) by (fastforce simp: list_all_iff)
  then have keep: "filter (persistable_tab h) tabs = tabs" by simp
  obtain h1 tabs1 where s: "strip_tabs tabs h = (h1, tabs1)" by (cases "strip_tabs tabs h")
  have rep1: "represent_tabs h1 tabs1 js" using restored_strip_tabs[OF rep js(1) s] by simp
  have cap: "capPersistedTabs tabs1 = tabs1" using js(2) list_all2_lengthD[OF rep1] by (simp add: capPersistedTabs_def)
  obtain h2 l where a: "alloc (ArrayObject (map VRef tabs1)) h1 = (h2, l)" by (cases "alloc (ArrayObject (map VRef tabs1)) h1")
  have "list_all2 (represents h2) (map VRef tabs1) js"
    using rep1 represents_extends[OF _ alloc_extends[OF a]] by (auto simp: list_all2_map1 intro: list_all2_mono)
  then have "represents h2 (VRef l) (Arr js)" using alloc_lookup[OF a] by (auto simp: represents_Arr)
  then have "serialized_tabs False h1 tabs1 = Some js" using tree_written a by (simp add: serialized_tabs_def)
  moreover obtain t ts where "tabs = t # ts" using False by (cases tabs) auto
  ultimately show ?thesis using s keep by (simp add: getPersistableWorkspaceTabList_def cap Let_def)
qed

lemma persistable_layout_stable: "getPersistableWorkspaceLayout (getPersistableWorkspaceLayout l) = getPersistableWorkspaceLayout l"
  by (cases "wl_panelLeftWidth l"; cases "wl_panelRightWidth l"; cases "wl_panelRight l")
    (simp_all add: getPersistableWorkspaceLayout_def initConfigState_layout_def Let_def)

definition id_ok :: "jsval \<Rightarrow> bool" where
  "id_ok i = (case i of Str t \<Rightarrow> t \<noteq> [] | Num n \<Rightarrow> n \<noteq> 0 | _ \<Rightarrow> False)"

lemma id_ok_simps: "id_ok i \<Longrightarrow> truthy i" "id_ok i \<Longrightarrow> strict_eq i i"
  by (auto simp: id_ok_def split: jsval.splits)

lemma active_tab_written:
  assumes "list_all (\<lambda>j. id_ok (jget j ''id'')) js" "js \<noteq> []"
  shows "\<exists>j \<in> set js. getPersistableActiveConsoleId active (Some js) = jget j ''id''"
proof (cases "\<exists>t \<in> set js. strict_eq (jget t ''id'') active")
  case True
  then obtain t where "t \<in> set js" "jget t ''id'' = active" by (auto dest: strict_eq_imp_eq)
  then show ?thesis using True assms by (cases js) (auto simp: getPersistableActiveConsoleId_def js_or_def list_all_iff dest: id_ok_simps)
next
  case False
  then show ?thesis using assms(2) by (cases js) (auto simp: getPersistableActiveConsoleId_def)
qed

lemma active_tab_stable:
  assumes "list_all (\<lambda>j. id_ok (jget j ''id'')) js"
  shows "getPersistableActiveConsoleId (getPersistableActiveConsoleId active (Some js)) (Some js) = getPersistableActiveConsoleId active (Some js)"
proof (cases "js = []")
  case False
  obtain j where j: "j \<in> set js" "getPersistableActiveConsoleId active (Some js) = jget j ''id''" using active_tab_written[OF assms False] by blast
  have "id_ok (jget j ''id'')" using assms j(1) by (auto simp: list_all_iff)
  then show ?thesis unfolding j(2) using id_ok_simps j(1) False by (cases js) (auto simp: getPersistableActiveConsoleId_def js_or_def)
qed (simp add: getPersistableActiveConsoleId_def)

lemma plain_id_ok: "tab_ok h tab \<Longrightarrow> id_ok (plain_value (property_of h (VRef tab) ''id''))"
  by (cases "property_of h (VRef tab) ''id''") (auto simp: tab_ok_def id_ok_def)

lemma written_ids_ok:
  assumes ok: "heap_ok h" "list_all (tab_ok h) tabs" and js: "getPersistableWorkspaceTabList fails h (Some tabs) = Some js"
  shows "list_all (\<lambda>j. id_ok (jget j ''id'')) js"
proof -
  have "list_all (tab_ok h) (capPersistedTabs (filter (persistable_tab h) tabs))" using ok(2)
    by (intro list_all_capPersistedTabs) (auto simp: list_all_iff)
  then have "list_all id_ok (map (\<lambda>t. plain_value (property_of h (VRef t) ''id'')) (capPersistedTabs (filter (persistable_tab h) tabs)))"
    by (auto simp: list_all_iff plain_id_ok)
  then have "list_all id_ok (map (\<lambda>j. jget j ''id'') js)" using written_tabs[OF ok js] by simp
  then show ?thesis by (simp add: list.pred_map comp_def)
qed

section \<open>Results\<close>

definition workspace_ok :: "object_heap \<Rightarrow> 'r live_workspace \<Rightarrow> bool" where
  "workspace_ok h live \<longleftrightarrow> heap_ok h \<and> list_all (tab_ok h) (the_default [] (lw_tabs live))
     \<and> list_all (tab_ok h) (the_default [] (lw_recentlyClosed live))"

definition layout_json :: "workspace_layout \<Rightarrow> jsval" where
  "layout_json l = Obj [(''panelLeft'', wl_panelLeft l), (''panelLeftWidth'', wl_panelLeftWidth l),
     (''panelRight'', wl_panelRight l), (''panelRightWidth'', wl_panelRightWidth l)]"

text \<open>What is read is what was written: the lists of tabs are the written trees, in a heap of their own.\<close>

definition reads_back :: "object_heap \<Rightarrow> 'r read_workspace \<Rightarrow> 'r stored_workspace \<Rightarrow> bool" where
  "reads_back h r w \<longleftrightarrow> rw_layout r = layout_json (sw_layout w) \<and> rel_option (represent_tabs h) (rw_tabs r) (sw_tabs w)
     \<and> rw_active r = sw_active w \<and> rel_option (represent_tabs h) (rw_recentlyClosed r) (Some (sw_recentlyClosed w))
     \<and> rw_rest r = Some (sw_rest w)"

lemma getPersistable_None [simp]: "getPersistableWorkspaceTabList fails h None = None"
  by (simp add: getPersistableWorkspaceTabList_def)

lemma getPersistable_Nil [simp]: "getPersistableWorkspaceTabList fails h (Some []) = Some []"
  by (simp add: getPersistableWorkspaceTabList_def)

lemma getPersistable_total: "\<exists>js. getPersistableWorkspaceTabList fails h (Some tabs) = Some js"
  by (cases tabs) (simp_all add: getPersistableWorkspaceTabList_def Let_def split: prod.split)

lemma hydrated_layout: "getHydratedWorkspaceLayout current (layout_json (getPersistableWorkspaceLayout l)) = getPersistableWorkspaceLayout l"
  using persistable_layout_stable[of l]
  by (cases "getPersistableWorkspaceLayout l") (simp add: getHydratedWorkspaceLayout_def layout_json_def)

lemma reread_tabs:
  assumes ok: "heap_ok h" "list_all (tab_ok h) (the_default [] tabs)"
    and read: "rel_option (represent_tabs h') tabs' (getPersistableWorkspaceTabList fails h tabs)"
  shows "getPersistableWorkspaceTabList False h' tabs' = getPersistableWorkspaceTabList fails h tabs"
proof (cases tabs)
  case (Some ts)
  obtain js where js: "getPersistableWorkspaceTabList fails h (Some ts) = Some js" using getPersistable_total by blast
  obtain ts' where ts': "tabs' = Some ts'" "represent_tabs h' ts' js" using read js Some by (auto simp: option_rel_Some2)
  show ?thesis using written_tabs[OF ok(1) _ js] restored_tabs[OF ts'(2)] ok(2) Some js ts'(1) by simp
qed (use read in simp)

text \<open>
  C12: A restart restores the workspace. When the state that was written is read back, merging it into the state of a
  new session gives what was written: the same tabs in the same order, the same active tab, the same recently closed
  tabs and the same layout, whatever the new session started with. Reading sanitises the tabs a second
  time, and this changes nothing; it does not matter how the objects of the tabs referred to each other when they were
  written, or whether they had to be written in their minimal form.
\<close>

theorem restart_restores_workspace:
  assumes "workspace_ok h live" and "reads_back h' r (partialize fails failsClosed h live)"
  shows "merge_workspace False False h' (Some r) current = partialize fails failsClosed h live"
proof -
  let ?tabs = "getPersistableWorkspaceTabList fails h (lw_tabs live)"
  let ?closed = "getPersistableWorkspaceTabList failsClosed h (lw_recentlyClosed live)"
  have ok: "heap_ok h" "list_all (tab_ok h) (the_default [] (lw_tabs live))" "list_all (tab_ok h) (the_default [] (lw_recentlyClosed live))"
    using assms(1) by (auto simp: workspace_ok_def)
  have r: "rw_layout r = layout_json (getPersistableWorkspaceLayout (lw_layout live))" "rel_option (represent_tabs h') (rw_tabs r) ?tabs"
    "rw_active r = getPersistableActiveConsoleId (lw_active live) ?tabs"
    "rel_option (represent_tabs h') (rw_recentlyClosed r) (Some (the_default [] ?closed))" "rw_rest r = Some (lw_rest live)"
    using assms(2) by (auto simp: reads_back_def partialize_def Let_def)
  have tabs: "getPersistableWorkspaceTabList False h' (rw_tabs r) = ?tabs" by (rule reread_tabs[OF ok(1,2) r(2)])
  have "Some (the_default [] ?closed) = getPersistableWorkspaceTabList failsClosed h (Some (the_default [] (lw_recentlyClosed live)))"
    using getPersistable_total[of failsClosed h] by (cases "lw_recentlyClosed live") (auto dest: sym, metis option.sel the_default_simps(2))
  then have closed: "getPersistableWorkspaceTabList False h' (rw_recentlyClosed r) = Some (the_default [] ?closed)"
    using reread_tabs[OF ok(1), of "Some (the_default [] (lw_recentlyClosed live))" h' "rw_recentlyClosed r" failsClosed] ok(3) r(4) by simp
  have "getPersistableActiveConsoleId (getPersistableActiveConsoleId (lw_active live) ?tabs) ?tabs = getPersistableActiveConsoleId (lw_active live) ?tabs"
  proof (cases "lw_tabs live")
    case (Some ts)
    then show ?thesis using active_tab_stable[OF written_ids_ok[OF ok(1)]] ok(2) getPersistable_total[of fails h ts] by auto
  qed (simp add: getPersistableActiveConsoleId_def)
  then show ?thesis using tabs closed r(1,3,5) hydrated_layout
    by (simp add: merge_workspace_def sanitizePersistedWorkspaceTabsState_def partialize_def Let_def)
qed

text \<open>
  C14: What is written of the tabs is safe: whatever the tabs refer to, and also when serialising fails, one tab is written for each of
  the last 100 tabs (or all, if there are not more) among those that are not terminals and not previews of files, in their
  order and with their ids; what is written is no terminal and no preview, and no tab of a local file carries the content of the file; and the
  active tab is one of them. The tabs are objects with an id that is a non-empty text or a number other than 0, and the objects they refer to have no key twice.
\<close>

theorem persisted_tabs_safe:
  assumes "workspace_ok h live" and "lw_tabs live = Some tabs"
  defines "kept \<equiv> filter (\<lambda>t. property_of h (VRef t) ''type'' \<noteq> VStr ''terminal''
      \<and> \<not> truthy_value (property_of h (property_of h (VRef t) ''uniqueData'') ''filePreviewMimeType'')) tabs"
  shows "\<exists>js. sw_tabs (partialize fails failsClosed h live) = Some js \<and> list_all persisted_tab js
    \<and> length js = min 100 (length kept)
    \<and> map (\<lambda>j. jget j ''id'') js = map (\<lambda>t. plain_value (property_of h (VRef t) ''id'')) (drop (length kept - 100) kept)
    \<and> sw_active (partialize fails failsClosed h live) \<in> (if js = [] then {Null} else (\<lambda>j. jget j ''id'') ` set js)"
proof -
  have ok: "heap_ok h" "list_all (tab_ok h) tabs" using assms(1,2) by (auto simp: workspace_ok_def)
  obtain js where js: "getPersistableWorkspaceTabList fails h (Some tabs) = Some js" using getPersistable_total by blast
  have "filter (persistable_tab h) tabs = kept"
    unfolding kept_def by (rule filter_cong[OF refl]) (simp add: persistable_tab_def)
  then have "capPersistedTabs (filter (persistable_tab h) tabs) = drop (length kept - 100) kept"
    by (simp add: capPersistedTabs_def MAX_PERSISTED_TABS_def)
  then have w: "list_all persisted_tab js"
      "map (\<lambda>j. jget j ''id'') js = map (\<lambda>t. plain_value (property_of h (VRef t) ''id'')) (drop (length kept - 100) kept)"
    using written_tabs[OF ok js] by simp_all
  have "length js = min 100 (length kept)" using arg_cong[OF w(2), of length] by simp
  moreover have "getPersistableActiveConsoleId (lw_active live) (Some js) \<in> (if js = [] then {Null} else (\<lambda>j. jget j ''id'') ` set js)"
    using active_tab_written[OF written_ids_ok[OF ok js]] by (auto simp: getPersistableActiveConsoleId_def)
  ultimately show ?thesis using w js assms(2) by (auto simp: partialize_def Let_def)
qed

text \<open>A terminal and an edited file whose data refers to itself.\<close>

definition sample_heap :: object_heap where
  "sample_heap =
     [(1, PlainObject [(''id'', VNum 7), (''type'', VStr ''LocalSQLFile''), (''title'', VStr ''a.sql''), (''uniqueData'', VRef 2)]),
      (2, PlainObject [(''filePath'', VStr ''/a.sql''), (''ddl'', VStr ''select 1''), (''loadSQL'', VRef 4)]),
      (3, PlainObject [(''id'', VStr ''t''), (''type'', VStr ''terminal''), (''title'', VStr ''Terminal'')]),
      (4, PlainObject [(''run'', VFunction), (''self'', VRef 4), (''n'', VNaN)])]"

definition sample_workspace :: "unit live_workspace" where
  "sample_workspace = \<lparr>lw_layout = \<lparr>wl_panelLeft = Bool False, wl_panelLeftWidth = Num 260, wl_panelRight = Undefined, wl_panelRightWidth = NaN\<rparr>,
     lw_tabs = Some [1, 3], lw_active = Str ''t'', lw_recentlyClosed = None, lw_rest = ()\<rparr>"

definition sample_stored_heap :: object_heap where
  "sample_stored_heap =
     [(1, PlainObject [(''id'', VNum 7), (''type'', VStr ''LocalSQLFile''), (''title'', VStr ''a.sql''), (''uniqueData'', VRef 2)]),
      (2, PlainObject [(''filePath'', VStr ''/a.sql''), (''loadSQL'', VRef 3)]),
      (3, PlainObject [(''n'', VNull)])]"

definition sample_read :: "unit read_workspace" where
  "sample_read = \<lparr>rw_layout = Obj [(''panelLeft'', Bool False), (''panelLeftWidth'', Num 0), (''panelRight'', Bool False), (''panelRightWidth'', Num 300)],
     rw_tabs = Some [1], rw_active = Num 7, rw_recentlyClosed = Some [], rw_rest = Some ()\<rparr>"

theorem restart_restores_workspace_witness:
  "workspace_ok sample_heap sample_workspace
   \<and> reads_back sample_stored_heap sample_read (partialize False False sample_heap sample_workspace)
   \<and> merge_workspace False False sample_stored_heap (Some sample_read) sample_workspace
     = partialize False False sample_heap sample_workspace"
proof -
  have ok: "workspace_ok sample_heap sample_workspace" by code_simp
  have read: "reads_back sample_stored_heap sample_read (partialize False False sample_heap sample_workspace)" by code_simp
  show ?thesis using ok read restart_restores_workspace[OF ok read] by blast
qed

theorem persisted_tabs_safe_witness:
  "workspace_ok sample_heap sample_workspace \<and> lw_tabs sample_workspace = Some [1, 3]
   \<and> (\<exists>js. sw_tabs (partialize True True sample_heap sample_workspace) = Some js \<and> length js \<le> 100 \<and> list_all persisted_tab js)"
proof -
  have ok: "workspace_ok sample_heap sample_workspace" by code_simp
  have tabs: "lw_tabs sample_workspace = Some [1, 3]" by (simp add: sample_workspace_def)
  obtain js where "sw_tabs (partialize True True sample_heap sample_workspace) = Some js" "list_all persisted_tab js" "length js \<le> 100"
    using persisted_tabs_safe[OF ok tabs, of True True] by auto
  with ok tabs show ?thesis by blast
qed

end
