(* ===== verification/Console_Tabs.thy ===== *)
theory Console_Tabs
  imports Workspace_Persistence
begin

text \<open>
  Tabs of consoles and files as values: \<open>consoleTabName.ts\<close>, \<open>localFileWorkspaceTab.ts\<close> and \<open>savedConsoleLifecycle.ts\<close> of
  \<open>store/workspace/utils\<close>. Tabs are objects as they are read from the storage. Shown: a title the user gave is never
  changed by binding a console to another database, a title that was generated follows the binding, and a file whose content was not
  written to the storage is read again.
\<close>

section \<open>consoleTabName.ts\<close>

definition buildConsoleDefaultTabName :: "jsval \<Rightarrow> string" where
  "buildConsoleDefaultTabName boundInfo =
     js_String (js_or (js_or (jget boundInfo ''databaseName'') (jget boundInfo ''schemaName'')) (Str []))
     @ (if truthy (jget boundInfo ''dataSourceName'') then ''['' @ js_String (jget boundInfo ''dataSourceName'') @ '']'' else [])"

definition isConsoleTabNameCustomized :: "jsval \<Rightarrow> jsval \<Rightarrow> bool" where
  "isConsoleTabNameCustomized title boundInfo =
     (case jget boundInfo ''nameCustomized'' of
        Bool b \<Rightarrow> b
      | _ \<Rightarrow> \<not> strict_eq title (Str (buildConsoleDefaultTabName boundInfo)))"

definition applyWorkspaceTabBoundInfo :: "jsval \<Rightarrow> jsval \<Rightarrow> jsval" where
  "applyWorkspaceTabBoundInfo tab data =
     (let uniqueData = jget tab ''uniqueData'';
          nextBoundInfo = Obj (spread (jentries uniqueData) (jentries data))
      in if \<not> strict_eq (jget tab ''type'') (Str ''console'') then jset ''uniqueData'' nextBoundInfo tab
         else
           let nameCustomized = isConsoleTabNameCustomized (jget tab ''title'')
                 (jset ''nameCustomized'' (coalesce (jget data ''nameCustomized'') (jget uniqueData ''nameCustomized'')) uniqueData)
           in jset ''uniqueData'' (jset ''nameCustomized'' (Bool nameCustomized) nextBoundInfo)
                (jset ''title'' (if nameCustomized then jget tab ''title'' else Str (buildConsoleDefaultTabName nextBoundInfo)) tab))"

section \<open>localFileWorkspaceTab.ts\<close>

definition getRestoredLocalFileReadRequest :: "jsval \<Rightarrow> jsval option" where
  "getRestoredLocalFileReadRequest tab =
     (let file = jget tab ''uniqueData''
      in if \<not> strict_eq (jget tab ''type'') (Str ''LocalSQLFile'') \<or> \<not> truthy (jget file ''filePath'') \<or> jget file ''ddl'' \<noteq> Undefined
         then None
         else Some (Obj [(''filePath'', jget file ''filePath''), (''fileExtension'', jget file ''fileExtension''),
           (''context'', Obj [(''rootToken'', jget file ''fileRootToken''), (''relativePath'', jget file ''fileRelativePath''),
              (''charset'', jget file ''fileCharset''), (''workspaceTabId'', jget tab ''id'')])]))"

text \<open>The id of the tab that becomes active, and the tabs.\<close>

definition refreshLocalFileWorkspaceTab ::
  "jsval list option \<Rightarrow> string \<Rightarrow> jsval \<Rightarrow> jsval \<Rightarrow> (jsval \<times> jsval list) option" where
  "refreshLocalFileWorkspaceTab workspaceTabList filePath nextUniqueData targetWorkspaceTabId =
     (case workspaceTabList of
        None \<Rightarrow> None
      | Some tabs \<Rightarrow>
          (case List.find (\<lambda>tab. strict_eq (jget (jget tab ''uniqueData'') ''filePath'') (Str filePath)
                 \<and> (targetWorkspaceTabId = Undefined \<or> strict_eq (jget tab ''id'') targetWorkspaceTabId)) tabs of
             None \<Rightarrow> None
           | Some existingTab \<Rightarrow>
               Some (jget existingTab ''id'',
                 map (\<lambda>tab. if strict_eq (jget tab ''id'') (jget existingTab ''id'')
                      then jset ''uniqueData''
                        (jset ''fileExtension'' (js_or (jget nextUniqueData ''fileExtension'') (jget (jget tab ''uniqueData'') ''fileExtension''))
                          (Obj (spread (jentries (jget tab ''uniqueData'')) (jentries nextUniqueData)))) tab
                      else tab) tabs)))"

section \<open>savedConsoleLifecycle.ts\<close>

datatype SavedConsoleRemovalPlan = KeepDraft jsval | DeleteConsole

definition resolveSavedConsoleRemoval :: "jsval list option \<Rightarrow> int \<Rightarrow> SavedConsoleRemovalPlan" where
  "resolveSavedConsoleRemoval workspaceTabList consoleId =
     (case List.find (\<lambda>item. strict_eq (jget item ''type'') (Str ''console'')
            \<and> strict_eq (coalesce (jget (jget item ''uniqueData'') ''consoleId'') (jget item ''id'')) (Num consoleId)) (the_default [] workspaceTabList) of
        Some openTab \<Rightarrow> KeepDraft (jget openTab ''id'')
      | None \<Rightarrow> DeleteConsole)"

datatype removal_call = UpdateSavedConsole int string | DeleteSavedConsole int | UpdateBoundInfo jsval int string

text \<open>The call that the coordinator runs, and what follows when its result is current.\<close>

fun removal_request :: "int \<Rightarrow> SavedConsoleRemovalPlan \<Rightarrow> removal_call" where
  "removal_request consoleId (KeepDraft tabId) = UpdateSavedConsole consoleId ''DRAFT''"
| "removal_request consoleId DeleteConsole = DeleteSavedConsole consoleId"

fun removal_finished :: "int \<Rightarrow> SavedConsoleRemovalPlan \<Rightarrow> bool \<Rightarrow> removal_call list" where
  "removal_finished consoleId (KeepDraft tabId) current = (if current then [UpdateBoundInfo tabId consoleId ''DRAFT''] else [])"
| "removal_finished consoleId DeleteConsole current = []"

section \<open>Titles\<close>

definition console_tab :: "jsval \<Rightarrow> bool" where
  "console_tab tab \<longleftrightarrow> jget tab ''type'' = Str ''console''"

definition titled_by_user :: "jsval \<Rightarrow> jsval \<Rightarrow> bool" where
  "titled_by_user title tab \<longleftrightarrow> console_tab tab \<and> jget tab ''title'' = title \<and> jget (jget tab ''uniqueData'') ''nameCustomized'' = Bool True"

definition titled_by_default :: "jsval \<Rightarrow> bool" where
  "titled_by_default tab \<longleftrightarrow> console_tab tab \<and> jget tab ''title'' = Str (buildConsoleDefaultTabName (jget tab ''uniqueData''))
     \<and> jget (jget tab ''uniqueData'') ''nameCustomized'' \<noteq> Bool True"

text \<open>A binding that says nothing about the title.\<close>

definition silent_binding :: "jsval \<Rightarrow> bool" where
  "silent_binding data \<longleftrightarrow> nullish (jget data ''nameCustomized'')"

lemma default_name_jset [simp]: "buildConsoleDefaultTabName (jset ''nameCustomized'' v info) = buildConsoleDefaultTabName info"
  by (simp add: buildConsoleDefaultTabName_def)

lemma user_title_kept:
  assumes "titled_by_user title tab" "silent_binding data"
  shows "titled_by_user title (applyWorkspaceTabBoundInfo tab data)"
  using assms by (simp add: titled_by_user_def silent_binding_def console_tab_def applyWorkspaceTabBoundInfo_def
      isConsoleTabNameCustomized_def coalesce_def Let_def)

lemma default_title_follows:
  assumes "titled_by_default tab" "silent_binding data"
  shows "titled_by_default (applyWorkspaceTabBoundInfo tab data)"
proof -
  let ?ud = "jget tab ''uniqueData''"
  have "isConsoleTabNameCustomized (jget tab ''title'') (jset ''nameCustomized'' (jget ?ud ''nameCustomized'') ?ud) = False"
    using assms(1) by (cases "jget ?ud ''nameCustomized''") (auto simp: titled_by_default_def isConsoleTabNameCustomized_def)
  then show ?thesis using assms
    by (simp add: titled_by_default_def silent_binding_def console_tab_def applyWorkspaceTabBoundInfo_def coalesce_def Let_def)
qed

interpretation user_titles: guarded_machine applyWorkspaceTabBoundInfo "titled_by_user title" silent_binding for title
  by unfold_locales (rule user_title_kept)

interpretation default_titles: guarded_machine applyWorkspaceTabBoundInfo titled_by_default silent_binding
  by unfold_locales (rule default_title_follows)

section \<open>Results\<close>

text \<open>
  However often a console is bound to another data source, database or schema, a title the user gave stays, and a generated title is the
  one of the database it is bound to.
\<close>

theorem console_titles_follow_binding:
  assumes "\<forall>data \<in> set bindings. silent_binding data"
  shows "(titled_by_user title tab \<longrightarrow> jget (foldl applyWorkspaceTabBoundInfo tab bindings) ''title'' = title)
    \<and> (titled_by_default tab \<longrightarrow> (let tab' = foldl applyWorkspaceTabBoundInfo tab bindings
         in jget tab' ''title'' = Str (buildConsoleDefaultTabName (jget tab' ''uniqueData''))))"
  using user_titles.allowed_run_keeps[of title tab bindings] default_titles.allowed_run_keeps[of tab bindings] assms
  by (auto simp: titled_by_user_def titled_by_default_def Let_def)

definition sample_console :: jsval where
  "sample_console = Obj [(''id'', Num 1), (''type'', Str ''console''), (''title'', Str ''a[s]''),
     (''uniqueData'', Obj [(''databaseName'', Str ''a''), (''dataSourceName'', Str ''s'')])]"

theorem console_titles_follow_binding_witness:
  "jget (foldl applyWorkspaceTabBoundInfo sample_console [Obj [(''databaseName'', Str ''b'')]]) ''title'' = Str ''b[s]''"
proof -
  have silent: "\<forall>data \<in> set [Obj [(''databaseName'', Str ''b'')]]. silent_binding data" by (simp add: silent_binding_def nullish_def)
  have default: "titled_by_default sample_console"
    by (simp add: titled_by_default_def console_tab_def sample_console_def buildConsoleDefaultTabName_def js_or_def)
  have name: "buildConsoleDefaultTabName (jget (foldl applyWorkspaceTabBoundInfo sample_console [Obj [(''databaseName'', Str ''b'')]]) ''uniqueData'') = ''b[s]''"
    by code_simp
  show ?thesis using console_titles_follow_binding[OF silent, of Undefined sample_console] default name by (simp add: Let_def)
qed

text \<open>
  The content of a file that is not written to the storage comes back from the file: for each tab of a local file that was written with a path,
  reading the state asks for that path.
\<close>

theorem restored_file_is_read:
  assumes "workspace_ok h live" and "sw_tabs (partialize fails failsClosed h live) = Some js" and "j \<in> set js"
    and "jget j ''type'' = Str ''LocalSQLFile''" and "truthy (jget (jget j ''uniqueData'') ''filePath'')"
  shows "\<exists>request. getRestoredLocalFileReadRequest j = Some request \<and> jget request ''filePath'' = jget (jget j ''uniqueData'') ''filePath''
    \<and> jget (jget request ''context'') ''workspaceTabId'' = jget j ''id''"
proof -
  obtain tabs where tabs: "lw_tabs live = Some tabs" "getPersistableWorkspaceTabList fails h (Some tabs) = Some js"
    using assms(2) by (cases "lw_tabs live") (auto simp: partialize_def Let_def)
  have "persisted_tab j" using written_tabs[OF _ _ tabs(2)] assms(1,3) tabs(1) by (auto simp: workspace_ok_def list_all_iff)
  moreover have "truthy (jget j ''uniqueData'')" using assms(5) by (cases "jget j ''uniqueData''") auto
  ultimately obtain kjs where "jget j ''uniqueData'' = Obj kjs" "''ddl'' \<notin> fst ` set kjs" using assms(4) by (auto simp: persisted_tab_def)
  then have "jget (jget j ''uniqueData'') ''ddl'' = Undefined" by (auto split: option.split dest: map_of_SomeD intro: rev_image_eqI)
  then show ?thesis using assms(4,5) by (simp add: getRestoredLocalFileReadRequest_def Let_def)
qed

theorem restored_file_is_read_witness:
  "\<exists>js j request. sw_tabs (partialize False False sample_heap sample_workspace) = Some js \<and> j \<in> set js
     \<and> getRestoredLocalFileReadRequest j = Some request \<and> jget request ''filePath'' = Str ''/a.sql''"
proof -
  define j where "j = Obj [(''id'', Num 7), (''type'', Str ''LocalSQLFile''), (''title'', Str ''a.sql''),
    (''uniqueData'', Obj [(''filePath'', Str ''/a.sql''), (''loadSQL'', Obj [(''n'', Null)])])]"
  have ok: "workspace_ok sample_heap sample_workspace" by code_simp
  have js: "sw_tabs (partialize False False sample_heap sample_workspace) = Some [j]" unfolding j_def by code_simp
  have fields: "jget j ''type'' = Str ''LocalSQLFile''" "jget (jget j ''uniqueData'') ''filePath'' = Str ''/a.sql''" by (simp_all add: j_def)
  then have "truthy (jget (jget j ''uniqueData'') ''filePath'')" by simp
  from restored_file_is_read[OF ok js _ fields(1) this] js fields(2) show ?thesis by auto
qed

end
