(* ===== verification/Result_Tabs.thy ===== *)
theory Result_Tabs
  imports Js_Prelude "HOL-Library.Multiset"
begin

text \<open>
  Which result is shown: \<open>blocks/SearchResult/tabSelection.ts\<close> (the reducer of the active tab), \<open>blocks/SearchResult/resultTabPreferences.ts\<close>
  (stored preferences and the order of the results), \<open>store/workspace/utils/resultInspector.ts\<close> (the inspector of a result) and
  \<open>service/resultTabShortcut.ts\<close> (who closes a tab). Results are untyped values.

  The locale \<open>stored_preference\<close> is what the components that show a preference rely on; it is interpreted on the three stored
  preferences. Shown: the choice of the user is kept while results arrive, the active tab is one that is there, and showing the newest
  batch first permutes batches and nothing else.
\<close>

section \<open>tabSelection.ts\<close>

definition CONSOLE_TAB_ID :: string where "CONSOLE_TAB_ID = ''execution-console''"
definition ABSTRACT_TAB_ID :: string where "ABSTRACT_TAB_ID = ''abstract''"
definition MESSAGES_TAB_ID :: string where "MESSAGES_TAB_ID = ''messages''"

record ActiveTabSelectionState =
  activeTabId :: string
  pendingPreferredTabId :: "string option"
  followPreferredTabs :: bool

datatype ActiveTabSelectionAction =
    Prefer string
  | Activate string
  | ActivateAutomatically string
  | ActivateByUser string
  | StartAutoFollow string
  | ResetPreference
  | TabsChanged "string list"

definition getResultIdentity :: "jsval \<Rightarrow> jsval" where
  "getResultIdentity item =
     js_or (js_or (jget item ''uuid'') (jget (jget item ''extra'') ''resultKey'')) (jget (jget item ''extra'') ''historyKey'')"

definition hasTabularResult :: "jsval \<Rightarrow> bool" where
  "hasTabularResult item \<longleftrightarrow> jlen (jget item ''headerList'') > 1"

definition hasLegacyResultTab :: "jsval \<Rightarrow> bool" where
  "hasLegacyResultTab item \<longleftrightarrow> hasTabularResult item \<or> \<not> truthy (jget item ''success'')"

text \<open>\<open>/^#\d+-\d+\s*/\<close>: what is left behind the match.\<close>

definition after_digits :: "string \<Rightarrow> string option" where
  "after_digits s = (case takeWhile is_digit s of [] \<Rightarrow> None | _ \<Rightarrow> Some (dropWhile is_digit s))"

definition after_coordinates :: "string \<Rightarrow> string option" where
  "after_coordinates s =
     (case s of
        c # s1 \<Rightarrow> if c \<noteq> CHR ''#'' then None
          else (case after_digits s1 of
            Some (d # s2) \<Rightarrow> if d = CHR ''-'' then map_option trim_start (after_digits s2) else None
          | _ \<Rightarrow> None)
      | [] \<Rightarrow> None)"

definition getConsoleResultTabLabel :: "string \<Rightarrow> bool \<Rightarrow> string" where
  "getConsoleResultTabLabel displayName showCoordinates =
     (if showCoordinates then displayName else the_default displayName (after_coordinates displayName))"

definition shouldOpenLegacyMessagesTab :: "jsval \<Rightarrow> bool" where
  "shouldOpenLegacyMessagesTab item \<longleftrightarrow> truthy (jget (jget item ''extra'') ''messageOnly'')
     \<or> (jlen (jget (jget item ''extra'') ''messages'') > 0 \<and> \<not> hasLegacyResultTab item)"

definition getPreferredActiveTabId :: "jsval option \<Rightarrow> bool \<Rightarrow> bool \<Rightarrow> jsval" where
  "getPreferredActiveTabId item consoleMode forceOutputTab =
     (if consoleMode \<and> forceOutputTab then Str CONSOLE_TAB_ID
      else case item of
        None \<Rightarrow> Str (if consoleMode then CONSOLE_TAB_ID else [])
      | Some r \<Rightarrow>
          if \<not> consoleMode \<and> shouldOpenLegacyMessagesTab r then Str MESSAGES_TAB_ID
          else if consoleMode \<and> \<not> truthy (jget r ''success'') then Str CONSOLE_TAB_ID
          else if (if consoleMode then hasTabularResult r else hasLegacyResultTab r)
          then js_or (jget r ''uuid'') (Str (if consoleMode then CONSOLE_TAB_ID else ABSTRACT_TAB_ID))
          else Str (if consoleMode then CONSOLE_TAB_ID else ABSTRACT_TAB_ID))"

definition resolveAvailableActiveTabId :: "string \<Rightarrow> string list \<Rightarrow> string option \<Rightarrow> string" where
  "resolveAvailableActiveTabId currentActiveTabId availableTabIds preferredActiveTabId =
     (case availableTabIds of
        [] \<Rightarrow> []
      | first # _ \<Rightarrow>
          if truthy_str preferredActiveTabId \<and> the preferredActiveTabId \<in> set availableTabIds then the preferredActiveTabId
          else if currentActiveTabId \<noteq> [] \<and> currentActiveTabId \<in> set availableTabIds then currentActiveTabId
          else first)"

fun reduceActiveTabSelection :: "ActiveTabSelectionState \<Rightarrow> ActiveTabSelectionAction \<Rightarrow> ActiveTabSelectionState" where
  "reduceActiveTabSelection st (Prefer tabId) =
     (if \<not> followPreferredTabs st then st else st\<lparr>pendingPreferredTabId := Some tabId\<rparr>)"
| "reduceActiveTabSelection st (Activate tabId) = st\<lparr>activeTabId := tabId, pendingPreferredTabId := None\<rparr>"
| "reduceActiveTabSelection st (ActivateAutomatically tabId) =
     (if followPreferredTabs st then st\<lparr>activeTabId := tabId, pendingPreferredTabId := None\<rparr> else st)"
| "reduceActiveTabSelection st (ActivateByUser tabId) = \<lparr>activeTabId = tabId, pendingPreferredTabId = None, followPreferredTabs = False\<rparr>"
| "reduceActiveTabSelection st (StartAutoFollow tabId) = \<lparr>activeTabId = tabId, pendingPreferredTabId = None, followPreferredTabs = True\<rparr>"
| "reduceActiveTabSelection st ResetPreference =
     (if pendingPreferredTabId st = None then st else st\<lparr>pendingPreferredTabId := None\<rparr>)"
| "reduceActiveTabSelection st (TabsChanged availableTabIds) =
     (let newTabId = resolveAvailableActiveTabId (activeTabId st) availableTabIds (pendingPreferredTabId st);
          pending = (if Some newTabId = pendingPreferredTabId st then None else pendingPreferredTabId st)
      in if newTabId = activeTabId st \<and> pending = pendingPreferredTabId st then st
         else st\<lparr>activeTabId := newTabId, pendingPreferredTabId := pending\<rparr>)"

section \<open>resultTabPreferences.ts: stored preferences\<close>

datatype ResultTabOrder = OldestFirst | NewestFirst

text \<open>A storage, when there is one; reading and writing may throw. Listeners are in the order in which they subscribed.\<close>

record PreferenceStorage =
  pf_items :: "(string \<times> string) list"
  pf_read_throws :: bool
  pf_write_throws :: bool

definition storage_getItem :: "PreferenceStorage option \<Rightarrow> string \<Rightarrow> string option" where
  "storage_getItem storage key =
     (case storage of None \<Rightarrow> None | Some s \<Rightarrow> if pf_read_throws s then None else map_of (pf_items s) key)"

definition storage_setItem :: "PreferenceStorage option \<Rightarrow> string \<Rightarrow> string \<Rightarrow> PreferenceStorage option" where
  "storage_setItem storage key text =
     map_option (\<lambda>s. if pf_write_throws s then s else s\<lparr>pf_items := AList.update key text (pf_items s)\<rparr>) storage"

definition createResultTabKeepHistoryStorageKey :: "string \<Rightarrow> string \<Rightarrow> string" where
  "createResultTabKeepHistoryStorageKey clientEdition runtimeEnv =
     ''chat2db.'' @ clientEdition @ ''.'' @ runtimeEnv @ ''.result-tabs.keep-history.v1''"

definition createResultTabOrderStorageKey :: "string \<Rightarrow> string \<Rightarrow> string" where
  "createResultTabOrderStorageKey clientEdition runtimeEnv =
     ''chat2db.'' @ clientEdition @ ''.'' @ runtimeEnv @ ''.result-tabs.order.v1''"

definition DEFAULT_RESULT_TAB_KEEP_HISTORY :: bool where "DEFAULT_RESULT_TAB_KEEP_HISTORY = True"
definition DEFAULT_RESULT_TAB_ORDER :: ResultTabOrder where "DEFAULT_RESULT_TAB_ORDER = OldestFirst"

definition readResultTabKeepHistory :: "PreferenceStorage option \<Rightarrow> string \<Rightarrow> bool" where
  "readResultTabKeepHistory storage storageKey =
     (case storage_getItem storage storageKey of
        Some t \<Rightarrow> if t = ''true'' then True else if t = ''false'' then False else DEFAULT_RESULT_TAB_KEEP_HISTORY
      | None \<Rightarrow> DEFAULT_RESULT_TAB_KEEP_HISTORY)"

text \<open>Every listener is told the key and the value, also when nothing could be written.\<close>

definition persistResultTabKeepHistory ::
  "PreferenceStorage option \<Rightarrow> string \<Rightarrow> bool \<Rightarrow> nat list \<Rightarrow> PreferenceStorage option \<times> (nat \<times> string \<times> bool) list" where
  "persistResultTabKeepHistory storage storageKey keepHistory listeners =
     (storage_setItem storage storageKey (if keepHistory then ''true'' else ''false''), map (\<lambda>l. (l, storageKey, keepHistory)) listeners)"

fun order_text :: "ResultTabOrder \<Rightarrow> string" where
  "order_text OldestFirst = ''oldest-first''"
| "order_text NewestFirst = ''newest-first''"

definition readResultTabOrder :: "PreferenceStorage option \<Rightarrow> string \<Rightarrow> ResultTabOrder" where
  "readResultTabOrder storage storageKey =
     (case storage_getItem storage storageKey of
        Some t \<Rightarrow> if t = ''oldest-first'' then OldestFirst else if t = ''newest-first'' then NewestFirst else DEFAULT_RESULT_TAB_ORDER
      | None \<Rightarrow> DEFAULT_RESULT_TAB_ORDER)"

definition persistResultTabOrder ::
  "PreferenceStorage option \<Rightarrow> string \<Rightarrow> ResultTabOrder \<Rightarrow> nat list \<Rightarrow> PreferenceStorage option \<times> (nat \<times> string \<times> ResultTabOrder) list" where
  "persistResultTabOrder storage storageKey order listeners =
     (storage_setItem storage storageKey (order_text order), map (\<lambda>l. (l, storageKey, order)) listeners)"

definition subscribe_listener :: "nat \<Rightarrow> nat list \<Rightarrow> nat list" where
  "subscribe_listener listener listeners = (if listener \<in> set listeners then listeners else listeners @ [listener])"

definition unsubscribe_listener :: "nat \<Rightarrow> nat list \<Rightarrow> nat list" where
  "unsubscribe_listener listener listeners = filter (\<lambda>l. l \<noteq> listener) listeners"

section \<open>resultTabPreferences.ts: the order of the results\<close>

definition tab_positiveInteger :: "jsval \<Rightarrow> int option" where
  "tab_positiveInteger v = (case to_number v of Some n \<Rightarrow> if n > 0 then Some n else None | None \<Rightarrow> None)"

definition execution_sequence :: "jsval \<Rightarrow> int option" where
  "execution_sequence result = tab_positiveInteger (jget (jget result ''extra'') ''executionSequence'')"

fun group_result :: "jsval \<Rightarrow> (int \<times> jsval list) list \<times> jsval list \<Rightarrow> (int \<times> jsval list) list \<times> jsval list" where
  "group_result result (executionGroups, legacyResults) =
     (case execution_sequence result of
        None \<Rightarrow> (executionGroups, legacyResults @ [result])
      | Some n \<Rightarrow>
          (case map_of executionGroups n of
             Some grp \<Rightarrow> (AList.update n (grp @ [result]) executionGroups, legacyResults)
           | None \<Rightarrow> (AList.update n [result] executionGroups, legacyResults)))"

definition orderExecutionResultsByBatch :: "jsval list \<Rightarrow> ResultTabOrder \<Rightarrow> jsval list" where
  "orderExecutionResultsByBatch results order =
     (if order = OldestFirst then results
      else let (executionGroups, legacyResults) = fold group_result results ([], [])
           in concat (rev (map snd executionGroups)) @ legacyResults)"

section \<open>resultInspector.ts\<close>

datatype ResultInspectorMode = Sidebar | Modal

datatype ResultInspectorTab = RowTab | ValueTab | AggregatesTab

fun inspector_text :: "ResultInspectorMode \<Rightarrow> string" where
  "inspector_text Sidebar = ''sidebar''"
| "inspector_text Modal = ''modal''"

definition DEFAULT_RESULT_INSPECTOR_MODE :: ResultInspectorMode where "DEFAULT_RESULT_INSPECTOR_MODE = Sidebar"

definition createResultInspectorModeStorageKey :: "string \<Rightarrow> string \<Rightarrow> string" where
  "createResultInspectorModeStorageKey clientEdition runtimeEnv =
     ''chat2db.'' @ clientEdition @ ''.'' @ runtimeEnv @ ''.result-inspector.mode.v1''"

definition readResultInspectorMode :: "PreferenceStorage option \<Rightarrow> string \<Rightarrow> ResultInspectorMode" where
  "readResultInspectorMode storage storageKey =
     (case storage_getItem storage storageKey of
        Some t \<Rightarrow> if t = ''sidebar'' then Sidebar else if t = ''modal'' then Modal else DEFAULT_RESULT_INSPECTOR_MODE
      | None \<Rightarrow> DEFAULT_RESULT_INSPECTOR_MODE)"

definition persistResultInspectorMode ::
  "PreferenceStorage option \<Rightarrow> string \<Rightarrow> ResultInspectorMode \<Rightarrow> nat list
     \<Rightarrow> PreferenceStorage option \<times> (nat \<times> string \<times> ResultInspectorMode) list" where
  "persistResultInspectorMode storage storageKey mode listeners =
     (storage_setItem storage storageKey (inspector_text mode), map (\<lambda>l. (l, storageKey, mode)) listeners)"

definition WORKSPACE_RESULT_INSPECTOR_PREFIX :: string where
  "WORKSPACE_RESULT_INSPECTOR_PREFIX = ''resultInspector:''"

definition getWorkspaceResultInspectorCode :: "string \<Rightarrow> string" where
  "getWorkspaceResultInspectorCode ownerId = WORKSPACE_RESULT_INSPECTOR_PREFIX @ ownerId"

definition isWorkspaceResultInspectorCode :: "string option \<Rightarrow> bool" where
  "isWorkspaceResultInspectorCode code = (case code of None \<Rightarrow> False | Some c \<Rightarrow> startsWith c WORKSPACE_RESULT_INSPECTOR_PREFIX)"

definition shouldClearInactiveResultInspector :: "string option \<Rightarrow> string \<Rightarrow> bool \<Rightarrow> bool" where
  "shouldClearInactiveResultInspector currentWorkspaceExtend inspectorExtendCode active \<longleftrightarrow>
     \<not> active \<and> currentWorkspaceExtend = Some inspectorExtendCode"

text \<open>The result is in half pixels, so that half of an odd width is exact.\<close>

definition getResultInspectorPanelSize :: "int \<Rightarrow> int \<Rightarrow> int" where
  "getResultInspectorPanelSize preferredSize workspaceWidth =
     (if workspaceWidth > 0 then min (2 * preferredSize) workspaceWidth else 2 * preferredSize)"

fun toggleResultInspectorMode :: "ResultInspectorMode \<Rightarrow> ResultInspectorMode" where
  "toggleResultInspectorMode Sidebar = Modal"
| "toggleResultInspectorMode Modal = Sidebar"

definition getResultInspectorTabs :: "ResultInspectorMode \<Rightarrow> ResultInspectorTab list" where
  "getResultInspectorTabs mode = [RowTab, ValueTab, AggregatesTab]"

section \<open>resultTabShortcut.ts\<close>

datatype CloseActiveResultTabHandlerResult = TabClosed | PassThrough | Inactive

text \<open>
  The same handler may be registered twice; what is unregistered is its last registration (\<open>remove_last\<close>). A handler is a number
  here and what it answers is an argument. The result has the handlers that were called.
\<close>

definition registerCloseActiveResultTabHandler :: "nat \<Rightarrow> nat list \<Rightarrow> nat list" where
  "registerCloseActiveResultTabHandler handler handlers = handlers @ [handler]"

fun remove_last :: "nat \<Rightarrow> nat list \<Rightarrow> nat list" where
  "remove_last handler [] = []"
| "remove_last handler (x # xs) = (if x = handler \<and> handler \<notin> set xs then xs else x # remove_last handler xs)"

fun ask_handlers :: "(nat \<Rightarrow> CloseActiveResultTabHandlerResult) \<Rightarrow> nat list \<Rightarrow> bool \<times> nat list" where
  "ask_handlers answer [] = (False, [])"
| "ask_handlers answer (handler # handlers) =
     (case answer handler of
        Inactive \<Rightarrow> (let (closed, asked) = ask_handlers answer handlers in (closed, handler # asked))
      | TabClosed \<Rightarrow> (True, [handler])
      | PassThrough \<Rightarrow> (False, [handler]))"

definition requestCloseActiveResultTab :: "(nat \<Rightarrow> CloseActiveResultTabHandlerResult) \<Rightarrow> nat list \<Rightarrow> bool \<times> nat list" where
  "requestCloseActiveResultTab answer handlers = ask_handlers answer (rev handlers)"

section \<open>Stored preferences: the contract\<close>

locale stored_preference =
  fixes read :: "PreferenceStorage option \<Rightarrow> string \<Rightarrow> 'v"
    and persist :: "PreferenceStorage option \<Rightarrow> string \<Rightarrow> 'v \<Rightarrow> nat list \<Rightarrow> PreferenceStorage option \<times> (nat \<times> string \<times> 'v) list"
    and to_text :: "'v \<Rightarrow> string" and default_value :: 'v
  assumes persist_writes: "fst (persist storage key v listeners) = storage_setItem storage key (to_text v)"
    and persist_tells: "snd (persist storage key v listeners) = map (\<lambda>l. (l, key, v)) listeners"
    and read_text: "storage_getItem storage key = Some (to_text v) \<Longrightarrow> read storage key = v"
    and read_missing: "storage_getItem storage key = None \<Longrightarrow> read storage key = default_value"
    and read_item: "storage_getItem storage key = storage_getItem storage' key' \<Longrightarrow> read storage key = read storage' key'"
begin

lemma read_persisted:
  assumes "\<not> pf_read_throws s" "\<not> pf_write_throws s"
  shows "read (fst (persist (Some s) key v listeners)) key = v"
  using assms by (intro read_text) (simp add: persist_writes storage_getItem_def storage_setItem_def update_conv')

lemma persist_other_key: "key' \<noteq> key \<Longrightarrow> read (fst (persist storage key v listeners)) key' = read storage key'"
  by (rule read_item) (auto simp: persist_writes storage_getItem_def storage_setItem_def update_conv' split: option.split)

lemma restricted_read: "storage = None \<or> pf_read_throws (the storage) \<Longrightarrow> read storage key = default_value"
  by (rule read_missing) (auto simp: storage_getItem_def split: option.split)

end

interpretation keep_history: stored_preference readResultTabKeepHistory persistResultTabKeepHistory
    "\<lambda>b. if b then ''true'' else ''false''" DEFAULT_RESULT_TAB_KEEP_HISTORY
  by unfold_locales (auto simp: readResultTabKeepHistory_def persistResultTabKeepHistory_def)

interpretation result_order: stored_preference readResultTabOrder persistResultTabOrder order_text DEFAULT_RESULT_TAB_ORDER
proof unfold_locales
  fix storage key v
  assume "storage_getItem storage key = Some (order_text v)"
  then show "readResultTabOrder storage key = v" by (cases v) (simp_all add: readResultTabOrder_def)
qed (auto simp: readResultTabOrder_def persistResultTabOrder_def)

interpretation inspector_mode: stored_preference readResultInspectorMode persistResultInspectorMode inspector_text DEFAULT_RESULT_INSPECTOR_MODE
proof unfold_locales
  fix storage key v
  assume "storage_getItem storage key = Some (inspector_text v)"
  then show "readResultInspectorMode storage key = v" by (cases v) (simp_all add: readResultInspectorMode_def)
qed (auto simp: readResultInspectorMode_def persistResultInspectorMode_def)

section \<open>The choice of the user\<close>

definition shows_choice :: "string \<Rightarrow> ActiveTabSelectionState \<Rightarrow> bool" where
  "shows_choice tabId st \<longleftrightarrow> activeTabId st = tabId \<and> \<not> followPreferredTabs st \<and> pendingPreferredTabId st = None"

text \<open>What results do while they arrive: the tab that was chosen stays among the tabs.\<close>

fun arrival_of :: "string \<Rightarrow> ActiveTabSelectionAction \<Rightarrow> bool" where
  "arrival_of tabId (Prefer _) = True"
| "arrival_of tabId (ActivateAutomatically _) = True"
| "arrival_of tabId ResetPreference = True"
| "arrival_of tabId (TabsChanged ids) = (tabId \<in> set ids)"
| "arrival_of tabId _ = False"

lemma choice_kept:
  assumes "tabId \<noteq> []" "shows_choice tabId st" "arrival_of tabId action"
  shows "shows_choice tabId (reduceActiveTabSelection st action)"
  using assms by (cases action) (auto simp: shows_choice_def resolveAvailableActiveTabId_def Let_def split: list.splits)

text \<open>An empty id shows no tab, and there is nothing to keep.\<close>

interpretation user_choice: guarded_machine reduceActiveTabSelection "\<lambda>st. tabId = [] \<or> shows_choice tabId st" "arrival_of tabId" for tabId
  by unfold_locales (use choice_kept in blast)

lemma resolved_tab_available: "ids \<noteq> [] \<Longrightarrow> resolveAvailableActiveTabId current ids preferred \<in> set ids"
  by (auto simp: resolveAvailableActiveTabId_def split: list.splits)

text \<open>
  C36: A tab the user chose stays the active one, whatever results arrive: no sequence of preferred tabs, automatic activations and
  changes of the tabs that keep the chosen tab among them replaces it.
\<close>

theorem user_choice_stays_active:
  assumes "tabId \<noteq> []" and "\<forall>action \<in> set actions. arrival_of tabId action"
  shows "activeTabId (foldl reduceActiveTabSelection (reduceActiveTabSelection st (ActivateByUser tabId)) actions) = tabId"
  using user_choice.allowed_run_keeps[of tabId "reduceActiveTabSelection st (ActivateByUser tabId)" actions] assms
  by (auto simp: shows_choice_def)

theorem user_choice_stays_active_witness:
  "activeTabId (foldl reduceActiveTabSelection
     (reduceActiveTabSelection \<lparr>activeTabId = ''a'', pendingPreferredTabId = Some ''c'', followPreferredTabs = True\<rparr> (ActivateByUser ''b''))
     [Prefer ''c'', TabsChanged [''a'', ''b'', ''c''], ActivateAutomatically ''c'']) = ''b''"
  by (rule user_choice_stays_active) simp_all

text \<open>
  After the tabs changed, the active tab is one of them; a preferred tab that had not been there becomes active as soon as it is,
  and is not preferred any longer.
\<close>

theorem active_result_tab_available:
  assumes "ids \<noteq> []"
  shows "activeTabId (reduceActiveTabSelection st (TabsChanged ids)) \<in> set ids
    \<and> (pendingPreferredTabId st = Some p \<and> p \<noteq> [] \<and> p \<in> set ids \<longrightarrow>
        activeTabId (reduceActiveTabSelection st (TabsChanged ids)) = p \<and> pendingPreferredTabId (reduceActiveTabSelection st (TabsChanged ids)) = None)"
  using resolved_tab_available[OF assms] assms by (auto simp: Let_def resolveAvailableActiveTabId_def split: list.splits)

theorem active_result_tab_available_witness:
  "activeTabId (reduceActiveTabSelection \<lparr>activeTabId = ''a'', pendingPreferredTabId = Some ''c'', followPreferredTabs = True\<rparr>
     (TabsChanged [''b'', ''c''])) \<in> set [''b'', ''c'']"
  using active_result_tab_available[of "[''b'', ''c'']"
      "\<lparr>activeTabId = ''a'', pendingPreferredTabId = Some ''c'', followPreferredTabs = True\<rparr>" "''c''"] by blast

section \<open>The newest batch first\<close>

text \<open>The batches in the order in which they first occur, and the results of one of them.\<close>

definition batches :: "jsval list \<Rightarrow> int list" where
  "batches results = uniq (List.map_filter execution_sequence results)"

definition batch_results :: "jsval list \<Rightarrow> int \<Rightarrow> jsval list" where
  "batch_results results n = filter (\<lambda>r. execution_sequence r = Some n) results"

definition newest_first :: "jsval list \<Rightarrow> jsval list" where
  "newest_first results = concat (map (batch_results results) (rev (batches results))) @ filter (\<lambda>r. execution_sequence r = None) results"

lemma uniq_acc_snoc: "uniq_acc seen (xs @ [x]) = uniq_acc seen xs @ (if x \<in> set seen \<union> set xs then [] else [x])"
  by (induction seen xs rule: uniq_acc.induct) auto

lemma uniq_snoc: "uniq (xs @ [x]) = (if x \<in> set xs then uniq xs else uniq xs @ [x])"
  by (simp add: uniq_def uniq_acc_snoc)

lemma update_in_table: "n \<in> set ns \<Longrightarrow> distinct ns \<Longrightarrow>
    AList.update n v (map (\<lambda>m. (m, f m)) ns) = map (\<lambda>m. (m, if m = n then v else f m)) ns"
  by (induction ns) auto

lemma update_new_key: "n \<notin> set ns \<Longrightarrow> AList.update n v (map (\<lambda>m. (m, f m)) ns) = map (\<lambda>m. (m, f m)) ns @ [(n, v)]"
  by (induction ns) auto

lemma batches_snoc:
  "batches (results @ [r]) =
     (case execution_sequence r of None \<Rightarrow> batches results
      | Some n \<Rightarrow> if n \<in> set (batches results) then batches results else batches results @ [n])"
  by (simp add: batches_def List.map_filter_def uniq_snoc split: option.split)

lemma in_batches: "n \<in> set (batches results) \<longleftrightarrow> (\<exists>r \<in> set results. execution_sequence r = Some n)"
  by (force simp: batches_def List.map_filter_def)

lemma batch_results_snoc:
  "batch_results (results @ [r]) n = (if execution_sequence r = Some n then batch_results results n @ [r] else batch_results results n)"
  by (simp add: batch_results_def)

lemma batch_results_new: "n \<notin> set (batches results) \<Longrightarrow> batch_results results n = []"
  by (auto simp: batch_results_def in_batches filter_empty_conv)

lemma grouped_results:
  "fold group_result results ([], []) =
     (map (\<lambda>n. (n, batch_results results n)) (batches results), filter (\<lambda>r. execution_sequence r = None) results)"
proof (induction results rule: rev_induct)
  case Nil
  then show ?case by (simp add: batches_def uniq_def List.map_filter_def)
next
  case (snoc r results)
  show ?case
  proof (cases "execution_sequence r")
    case None
    then show ?thesis using snoc by (simp add: batches_snoc batch_results_snoc)
  next
    case (Some n)
    have table: "map_of (map (\<lambda>n. (n, batch_results results n)) (batches results)) n
        = (if n \<in> set (batches results) then Some (batch_results results n) else None)"
      by (simp add: map_of_map_restrict)
    have d: "distinct (batches results)" by (simp add: batches_def)
    show ?thesis
    proof (cases "n \<in> set (batches results)")
      case True
      then show ?thesis using snoc Some table update_in_table[OF True d, of _ "batch_results results"]
        by (auto simp: batches_snoc batch_results_snoc)
    next
      case False
      then show ?thesis using snoc Some table update_new_key[OF False, of _ "batch_results results"]
        by (auto simp: batches_snoc batch_results_snoc batch_results_new)
    qed
  qed
qed

lemma mset_batches:
  "distinct ns \<Longrightarrow> mset (concat (map (batch_results results) ns)) = filter_mset (\<lambda>r. \<exists>n \<in> set ns. execution_sequence r = Some n) (mset results)"
proof (induction ns)
  case (Cons n ns)
  have "filter_mset (\<lambda>r. \<exists>m \<in> set (n # ns). execution_sequence r = Some m) (mset results)
    = filter_mset (\<lambda>r. execution_sequence r = Some n) (mset results)
      + filter_mset (\<lambda>r. \<exists>m \<in> set ns. execution_sequence r = Some m) (mset results)"
    using Cons.prems by (induction results) auto
  then show ?case using Cons by (simp add: batch_results_def)
qed simp

lemma newest_first_permutes: "mset (newest_first results) = mset results"
proof -
  have "filter_mset (\<lambda>r. \<exists>n \<in> set (rev (batches results)). execution_sequence r = Some n) (mset results)
      = filter_mset (\<lambda>r. \<not> execution_sequence r = None) (mset results)"
    by (rule filter_mset_cong) (auto simp: in_batches)
  moreover have "distinct (rev (batches results))" by (simp add: batches_def)
  ultimately have "mset (newest_first results)
      = filter_mset (\<lambda>r. \<not> execution_sequence r = None) (mset results) + filter_mset (\<lambda>r. execution_sequence r = None) (mset results)"
    using mset_batches[of "rev (batches results)" results] by (simp only: newest_first_def mset_append mset_filter)
  then show ?thesis by (metis add.commute multiset_partition)
qed

text \<open>
  With the newest batch first the results are the batches in the reverse order of their first result, each with its
  results in their order, followed by the results of no batch; no result is lost or shown twice.
\<close>

theorem newest_batch_first:
  "orderExecutionResultsByBatch results NewestFirst = newest_first results
   \<and> mset (orderExecutionResultsByBatch results order) = mset results"
proof -
  have "orderExecutionResultsByBatch results NewestFirst = newest_first results"
    by (simp add: orderExecutionResultsByBatch_def grouped_results newest_first_def rev_map comp_def)
  then show ?thesis using newest_first_permutes by (cases order) (auto simp: orderExecutionResultsByBatch_def)
qed

text \<open>
  A request to close a tab is answered by the handler registered last among those that are not inactive; the ones
  registered after it are asked in turn, and no other.
\<close>

theorem close_request_answered:
  assumes "handlers = earlier @ h # later" and "answer h \<noteq> Inactive" and "\<forall>x \<in> set later. answer x = Inactive"
  shows "requestCloseActiveResultTab answer handlers = (answer h = TabClosed, rev later @ [h])"
proof -
  have "ask_handlers answer (xs @ h # ys) = (answer h = TabClosed, xs @ [h])" if "\<forall>x \<in> set xs. answer x = Inactive" for xs ys
    using that assms(2) by (induction xs) (auto split: CloseActiveResultTabHandlerResult.split)
  then show ?thesis using assms(1,3) by (simp add: requestCloseActiveResultTab_def)
qed

theorem close_request_answered_witness:
  "requestCloseActiveResultTab (\<lambda>h. if h = 2 then TabClosed else Inactive) [1, 2, 3] = (True, [3, 2])"
  using close_request_answered[of "[1, 2, 3]" "[1]" 2 "[3]" "\<lambda>h. if h = 2 then TabClosed else Inactive"] by simp

text \<open>
  A stored preference is read back as it was stored, the other preferences are as before, and every listener is told.
\<close>

theorem preferences_read_back:
  assumes "\<not> pf_read_throws s" and "\<not> pf_write_throws s"
  shows "readResultTabKeepHistory (fst (persistResultTabKeepHistory (Some s) key keep listeners)) key = keep
    \<and> readResultTabOrder (fst (persistResultTabOrder (Some s) key order listeners)) key = order
    \<and> readResultInspectorMode (fst (persistResultInspectorMode (Some s) key mode listeners)) key = mode
    \<and> (key' \<noteq> key \<longrightarrow> readResultTabOrder (fst (persistResultTabKeepHistory (Some s) key keep listeners)) key' = readResultTabOrder (Some s) key')"
  using assms keep_history.read_persisted result_order.read_persisted inspector_mode.read_persisted
    result_order.persist_other_key[of key' key "Some s" order listeners]
  by (auto simp: readResultTabOrder_def persistResultTabKeepHistory_def storage_getItem_def storage_setItem_def update_conv' split: option.split)

theorem preferences_read_back_witness:
  "readResultTabKeepHistory (fst (persistResultTabKeepHistory
     (Some \<lparr>pf_items = [], pf_read_throws = False, pf_write_throws = False\<rparr>) ''k'' False [1])) ''k'' = False"
  using preferences_read_back[of "\<lparr>pf_items = [], pf_read_throws = False, pf_write_throws = False\<rparr>" "''k''" False "[1]"] by simp

end
