(* ===== verification/Cascade_Guard.thy ===== *)
theory Cascade_Guard
  imports Request_Tracker
begin

text \<open>
  The guard of the selectors of a database and of a schema, \<open>components/SelectBoundInfo/cascadeRequestGuard.ts\<close>: two generation
  counters, and a key of what a request was made for. Each level is a user of the contract \<open>latest_request\<close>.
\<close>

datatype CascadeRequestLevel = DatabaseLevel | SchemaLevel

record CascadeRequestContext =
  cx_dataSourceId :: "int option"
  cx_databaseName :: "string option"

record CascadeRequestToken =
  ct_level :: CascadeRequestLevel
  ct_generation :: int
  ct_contextKey :: string

record CascadeRequestGuard =
  cg_active :: bool
  cg_database :: int
  cg_schema :: int

fun level_generation :: "CascadeRequestLevel \<Rightarrow> CascadeRequestGuard \<Rightarrow> int" where
  "level_generation DatabaseLevel guard = cg_database guard"
| "level_generation SchemaLevel guard = cg_schema guard"

fun set_generation :: "CascadeRequestLevel \<Rightarrow> int \<Rightarrow> CascadeRequestGuard \<Rightarrow> CascadeRequestGuard" where
  "set_generation DatabaseLevel n guard = guard\<lparr>cg_database := n\<rparr>"
| "set_generation SchemaLevel n guard = guard\<lparr>cg_schema := n\<rparr>"

definition createCascadeRequestGuard :: CascadeRequestGuard where
  "createCascadeRequestGuard = \<lparr>cg_active = True, cg_database = 0, cg_schema = 0\<rparr>"

definition getCascadeRequestContextKey :: "CascadeRequestLevel \<Rightarrow> CascadeRequestContext \<Rightarrow> string" where
  "getCascadeRequestContextKey level ctx =
     (let dataSourceId = (case cx_dataSourceId ctx of None \<Rightarrow> [] | Some n \<Rightarrow> string_of_int n)
      in if level = DatabaseLevel then ''datasource:'' @ dataSourceId
         else ''datasource:'' @ dataSourceId @ '':database:'' @ the_default [] (cx_databaseName ctx))"

definition beginCascadeRequest ::
  "CascadeRequestGuard \<Rightarrow> CascadeRequestLevel \<Rightarrow> CascadeRequestContext \<Rightarrow> CascadeRequestToken \<times> CascadeRequestGuard" where
  "beginCascadeRequest guard level ctx =
     (let generation = level_generation level guard + 1
      in (\<lparr>ct_level = level, ct_generation = generation, ct_contextKey = getCascadeRequestContextKey level ctx\<rparr>,
          set_generation level generation guard))"

definition invalidateCascadeRequest :: "CascadeRequestGuard \<Rightarrow> CascadeRequestLevel \<Rightarrow> CascadeRequestGuard" where
  "invalidateCascadeRequest guard level = set_generation level (level_generation level guard + 1) guard"

definition activateCascadeRequestGuard :: "CascadeRequestGuard \<Rightarrow> CascadeRequestGuard" where
  "activateCascadeRequestGuard guard = guard\<lparr>cg_active := True\<rparr>"

definition disposeCascadeRequestGuard :: "CascadeRequestGuard \<Rightarrow> CascadeRequestGuard" where
  "disposeCascadeRequestGuard guard =
     invalidateCascadeRequest (invalidateCascadeRequest (guard\<lparr>cg_active := False\<rparr>) DatabaseLevel) SchemaLevel"

definition isCascadeRequestCurrent :: "CascadeRequestGuard \<Rightarrow> CascadeRequestToken \<Rightarrow> CascadeRequestContext \<Rightarrow> bool" where
  "isCascadeRequestCurrent guard token ctx \<longleftrightarrow>
     cg_active guard \<and> level_generation (ct_level token) guard = ct_generation token
     \<and> ct_contextKey token = getCascadeRequestContextKey (ct_level token) ctx"

section \<open>Each level is a generation counter\<close>

lemma level_set_generation [simp]:
  "level_generation level' (set_generation level n guard) = (if level' = level then n else level_generation level' guard)"
  by (cases level; cases level') auto

lemma cg_active_set_generation [simp]: "cg_active (set_generation level n guard) = cg_active guard"
  by (cases level) auto

lemma level_generation_active [simp]: "level_generation level (guard\<lparr>cg_active := b\<rparr>) = level_generation level guard"
  by (cases level) auto

interpretation cascade: latest_request
    "\<lambda>guard. apfst ct_generation (beginCascadeRequest guard level ctx)" "\<lambda>guard. invalidateCascadeRequest guard level"
    "\<lambda>guard n. level_generation level guard = n" "\<lambda>guard. {..level_generation level guard}" for level ctx
proof unfold_locales
  fix s :: CascadeRequestGuard
  show "{..level_generation level (snd (apfst ct_generation (beginCascadeRequest s level ctx)))} =
      insert (fst (apfst ct_generation (beginCascadeRequest s level ctx))) {..level_generation level s}"
    by (auto simp: beginCascadeRequest_def Let_def)
qed (auto simp: beginCascadeRequest_def invalidateCascadeRequest_def Let_def)

section \<open>Runs\<close>

datatype cascade_op = BeginRequest CascadeRequestLevel CascadeRequestContext | Invalidate CascadeRequestLevel | ActivateGuard | DisposeGuard

fun cascade_step :: "CascadeRequestGuard \<Rightarrow> cascade_op \<Rightarrow> CascadeRequestGuard" where
  "cascade_step guard (BeginRequest level ctx) = snd (beginCascadeRequest guard level ctx)"
| "cascade_step guard (Invalidate level) = invalidateCascadeRequest guard level"
| "cascade_step guard ActivateGuard = activateCascadeRequestGuard guard"
| "cascade_step guard DisposeGuard = disposeCascadeRequestGuard guard"

fun ends_level :: "CascadeRequestLevel \<Rightarrow> cascade_op \<Rightarrow> bool" where
  "ends_level level (BeginRequest level' _) = (level' = level)"
| "ends_level level (Invalidate level') = (level' = level)"
| "ends_level level ActivateGuard = False"
| "ends_level level DisposeGuard = True"

lemma step_generation:
  "level_generation level (cascade_step guard op') = level_generation level guard + (if ends_level level op' then 1 else 0)"
  by (cases op'; cases level)
    (auto simp: beginCascadeRequest_def invalidateCascadeRequest_def activateCascadeRequestGuard_def disposeCascadeRequestGuard_def Let_def)

lemma run_generation:
  "level_generation level (foldl cascade_step guard ops) = level_generation level guard + int (length (filter (ends_level level) ops))"
  by (induction ops arbitrary: guard) (auto simp: step_generation)

text \<open>The last activation or disposal counts.\<close>

fun active_after :: "bool \<Rightarrow> cascade_op list \<Rightarrow> bool" where
  "active_after b [] = b"
| "active_after b (ActivateGuard # ops) = active_after True ops"
| "active_after b (DisposeGuard # ops) = active_after False ops"
| "active_after b (_ # ops) = active_after b ops"

lemma run_active: "cg_active (foldl cascade_step guard ops) = active_after (cg_active guard) ops"
  by (induction "cg_active guard" ops arbitrary: guard rule: active_after.induct)
    (auto simp: beginCascadeRequest_def invalidateCascadeRequest_def activateCascadeRequestGuard_def disposeCascadeRequestGuard_def Let_def)

lemma active_without_disposal: "DisposeGuard \<notin> set ops \<Longrightarrow> active_after True ops"
  by (induction True ops rule: active_after.induct) auto

definition id_text :: "int option \<Rightarrow> string" where
  "id_text i = (case i of None \<Rightarrow> [] | Some n \<Rightarrow> string_of_int n)"

lemma id_text_inj: "id_text i = id_text j \<longleftrightarrow> i = j"
  using string_of_int_not_Nil[THEN not_sym] by (auto simp: id_text_def split: option.splits)

lemma id_text_end: "takeWhile (\<lambda>c. c \<noteq> CHR '':'') (id_text i @ CHR '':'' # rest) = id_text i"
proof -
  have "\<forall>c \<in> set (id_text i). c \<noteq> CHR '':''" using string_of_int_no_colon by (auto simp: id_text_def split: option.splits)
  then show ?thesis by (induction "id_text i") (auto simp: takeWhile_append2)
qed

lemma same_context_key:
  "getCascadeRequestContextKey level ctx = getCascadeRequestContextKey level ctx' \<longleftrightarrow>
     cx_dataSourceId ctx = cx_dataSourceId ctx'
     \<and> (level = SchemaLevel \<longrightarrow> the_default [] (cx_databaseName ctx) = the_default [] (cx_databaseName ctx'))"
proof (cases level)
  case DatabaseLevel
  then show ?thesis using id_text_inj by (auto simp: getCascadeRequestContextKey_def id_text_def)
next
  case SchemaLevel
  have key: "getCascadeRequestContextKey SchemaLevel c
      = ''datasource:'' @ id_text (cx_dataSourceId c) @ CHR '':'' # ''database:'' @ the_default [] (cx_databaseName c)" for c
    by (simp add: getCascadeRequestContextKey_def id_text_def Let_def)
  show ?thesis
  proof
    assume eq: "getCascadeRequestContextKey level ctx = getCascadeRequestContextKey level ctx'"
    then have "id_text (cx_dataSourceId ctx) = id_text (cx_dataSourceId ctx')"
      using id_text_end[of "cx_dataSourceId ctx"] id_text_end[of "cx_dataSourceId ctx'"] unfolding SchemaLevel key by (metis same_append_eq)
    then show "cx_dataSourceId ctx = cx_dataSourceId ctx'
        \<and> (level = SchemaLevel \<longrightarrow> the_default [] (cx_databaseName ctx) = the_default [] (cx_databaseName ctx'))"
      using eq id_text_inj unfolding SchemaLevel key by simp
  qed (simp add: SchemaLevel key)
qed

text \<open>
  C37: An answer is taken exactly when it is still the answer to the question. After a request was begun on an active guard, and
  after whatever was done since, its token is current for a context iff no other request of its level was begun, its level
  was not invalidated and the guard not disposed, and the context asks for the same data source (and, for schemas, the same
  database).
\<close>

theorem cascade_answer_current:
  assumes "cg_active guard" and "beginCascadeRequest guard level ctx = (token, guard')"
  shows "isCascadeRequestCurrent (foldl cascade_step guard' ops) token ctx' \<longleftrightarrow>
    filter (ends_level level) ops = []
    \<and> cx_dataSourceId ctx = cx_dataSourceId ctx'
    \<and> (level = SchemaLevel \<longrightarrow> the_default [] (cx_databaseName ctx) = the_default [] (cx_databaseName ctx'))"
proof -
  have token: "ct_level token = level" "ct_contextKey token = getCascadeRequestContextKey level ctx"
      "level_generation level guard' = ct_generation token" "cg_active guard'"
    using assms by (auto simp: beginCascadeRequest_def Let_def)
  have "active_after True ops" if "filter (ends_level level) ops = []"
    using that by (intro active_without_disposal) (auto simp: filter_empty_conv)
  then show ?thesis using token same_context_key
    by (auto simp: isCascadeRequestCurrent_def run_generation run_active)
qed

theorem cascade_answer_current_witness:
  "let (token, guard) = beginCascadeRequest createCascadeRequestGuard SchemaLevel \<lparr>cx_dataSourceId = Some 1, cx_databaseName = Some ''a''\<rparr>
   in isCascadeRequestCurrent (foldl cascade_step guard [Invalidate DatabaseLevel]) token \<lparr>cx_dataSourceId = Some 1, cx_databaseName = Some ''a''\<rparr>"
  using cascade_answer_current[of createCascadeRequestGuard SchemaLevel "\<lparr>cx_dataSourceId = Some 1, cx_databaseName = Some ''a''\<rparr>" _ _
      "[Invalidate DatabaseLevel]" "\<lparr>cx_dataSourceId = Some 1, cx_databaseName = Some ''a''\<rparr>"]
  by (auto simp: createCascadeRequestGuard_def split: prod.split)

end
