(* ===== verification/Application_Exit.thy ===== *)
theory Application_Exit
  imports Editor_Close
begin

text \<open>
  Leaving the application: \<open>layouts/init/applicationExitCoordinator.ts\<close>, on top of the guards of the editors. The operations
  belong to the environment: what they answer may depend on everything that happened before. A rejected promise is
  \<open>Inl\<close>. The confirmation of the user comes later or never: \<open>onConfirm\<close> is an operation of its own.
\<close>

section \<open>applicationExitCoordinator.ts\<close>

datatype exit_event =
    EditorsPrepared history "jsval + bool"
  | TasksCounted int
  | ConfirmationRequested int
  | ExitCancelled
  | UserExitPrepared bool
  | CloseWindow "jsval + bool"
  | UserExitAborted
  | NativeExitCancelled

type_synonym exit_history = "exit_event list"

record ApplicationExitOperations =
  op_confirmDirtyEditors :: "exit_history \<Rightarrow> history \<times> (jsval + bool)"
  op_shouldManageTasks :: "exit_history \<Rightarrow> bool"
  op_getActiveTaskCount :: "exit_history \<Rightarrow> jsval + int"
  op_prepareUserExit :: "exit_history \<Rightarrow> jsval option"
  op_confirmCloseWindow :: "exit_history \<Rightarrow> jsval + bool"

definition no_pending_exit :: jsval where
  "no_pending_exit = Str ''No pending application exit request''"

text \<open>Aborting and cancelling may fail, which is ignored: their answers do not matter.\<close>

definition give_up :: "bool \<Rightarrow> jsval \<Rightarrow> exit_history \<Rightarrow> exit_history \<times> (jsval + unit)" where
  "give_up manageTasks error h = (h @ (if manageTasks then [UserExitAborted] else []) @ [NativeExitCancelled], Inl error)"

definition close_window :: "ApplicationExitOperations \<Rightarrow> bool \<Rightarrow> exit_history \<Rightarrow> exit_history \<times> (jsval + unit)" where
  "close_window operations manageTasks h =
     (let answer = op_confirmCloseWindow operations h; h' = h @ [CloseWindow answer]
      in case answer of
           Inl error \<Rightarrow> give_up manageTasks error h'
         | Inr confirmed \<Rightarrow> if \<not> confirmed then give_up manageTasks no_pending_exit h' else (h', Inr ()))"

definition finishApplicationExit :: "ApplicationExitOperations \<Rightarrow> bool \<Rightarrow> exit_history \<Rightarrow> exit_history \<times> (jsval + unit)" where
  "finishApplicationExit operations manageTasks h =
     (if manageTasks
      then case op_prepareUserExit operations h of
             Some error \<Rightarrow> give_up True error (h @ [UserExitPrepared False])
           | None \<Rightarrow> close_window operations True (h @ [UserExitPrepared True])
      else close_window operations False h)"

definition coordinateApplicationExit :: "ApplicationExitOperations \<Rightarrow> exit_history \<Rightarrow> exit_history \<times> (jsval + unit)" where
  "coordinateApplicationExit operations h =
     (case op_confirmDirtyEditors operations h of
        (editors, answer) \<Rightarrow>
          let h1 = h @ [EditorsPrepared editors answer]
          in case answer of
               Inl error \<Rightarrow> (h1, Inl error)
             | Inr approved \<Rightarrow>
                 if \<not> approved then (h1 @ [ExitCancelled], Inr ())
                 else if \<not> op_shouldManageTasks operations h1 then finishApplicationExit operations False h1
                 else case op_getActiveTaskCount operations h1 of
                        Inl error \<Rightarrow> (h1, Inl error)
                      | Inr activeTaskCount \<Rightarrow>
                          let h2 = h1 @ [TasksCounted activeTaskCount]
                          in if activeTaskCount > 0 then (h2 @ [ConfirmationRequested activeTaskCount], Inr ())
                             else finishApplicationExit operations True h2)"

definition onConfirm :: "ApplicationExitOperations \<Rightarrow> exit_history \<Rightarrow> exit_history \<times> (jsval + unit)" where
  "onConfirm operations h = finishApplicationExit operations True h"

section \<open>Runs\<close>

text \<open>The user may confirm when a confirmation was requested, and once more when leaving failed.\<close>

inductive exit_run :: "ApplicationExitOperations \<Rightarrow> exit_history \<Rightarrow> bool" for operations where
  Coordinate: "exit_run operations (fst (coordinateApplicationExit operations []))"
| Confirm: "exit_run operations h \<Longrightarrow> ConfirmationRequested n \<in> set h \<Longrightarrow> exit_run operations (fst (onConfirm operations h))"

text \<open>What has happened when the window may be closed.\<close>

definition may_close :: "ApplicationExitOperations \<Rightarrow> exit_history \<Rightarrow> bool" where
  "may_close operations h \<longleftrightarrow> (\<exists>editors rest. h = EditorsPrepared editors (Inr True) # rest
     \<and> (\<not> op_shouldManageTasks operations [EditorsPrepared editors (Inr True)]
        \<or> UserExitPrepared True \<in> set rest \<and> (\<exists>n. TasksCounted n \<in> set rest \<and> (n \<le> 0 \<or> ConfirmationRequested n \<in> set rest))))"

fun closes_from :: "ApplicationExitOperations \<Rightarrow> exit_history \<Rightarrow> exit_history \<Rightarrow> bool" where
  "closes_from operations seen [] = True"
| "closes_from operations seen (e # es) =
     ((case e of CloseWindow a \<Rightarrow> may_close operations seen | _ \<Rightarrow> True) \<and> closes_from operations (seen @ [e]) es)"

abbreviation closes_safely :: "ApplicationExitOperations \<Rightarrow> exit_history \<Rightarrow> bool" where
  "closes_safely operations h \<equiv> closes_from operations [] h"

definition confirmable :: "exit_history \<Rightarrow> bool" where
  "confirmable h \<longleftrightarrow> (\<exists>editors rest. h = EditorsPrepared editors (Inr True) # rest
     \<and> (\<exists>n. TasksCounted n \<in> set rest \<and> (n \<le> 0 \<or> ConfirmationRequested n \<in> set rest)))"

lemma may_close_append: "may_close operations h \<Longrightarrow> may_close operations (h @ rest)"
  by (auto simp: may_close_def)

lemma confirmable_append: "confirmable h \<Longrightarrow> confirmable (h @ rest)"
  by (auto simp: confirmable_def)

lemma confirmable_may_close: "confirmable h \<Longrightarrow> may_close operations (h @ [UserExitPrepared True])"
  by (auto simp: confirmable_def may_close_def)

lemma closes_from_append [simp]:
  "closes_from operations seen (xs @ ys) \<longleftrightarrow> closes_from operations seen xs \<and> closes_from operations (seen @ xs) ys"
  by (induction xs arbitrary: seen) auto

lemma give_up_safe: "closes_safely operations h \<Longrightarrow> closes_safely operations (fst (give_up m e h))"
  by (simp add: give_up_def)

lemma close_window_safe:
  assumes "closes_safely operations h" "may_close operations h"
  shows "closes_safely operations (fst (close_window operations m h))"
  using assms by (auto simp: close_window_def Let_def give_up_safe split: sum.split)

lemma finish_safe:
  assumes "closes_safely operations h" "m \<Longrightarrow> confirmable h" "\<not> m \<Longrightarrow> may_close operations h"
  shows "closes_safely operations (fst (finishApplicationExit operations m h))"
  using assms confirmable_may_close[of h operations]
  by (auto simp: finishApplicationExit_def give_up_safe close_window_safe split: option.split)

lemma finish_extends: "\<exists>rest. fst (finishApplicationExit operations m h) = h @ rest \<and> (\<forall>n. ConfirmationRequested n \<notin> set rest)"
  by (auto simp: finishApplicationExit_def close_window_def give_up_def Let_def split: option.splits sum.splits)

lemma coordinate_safe:
  "closes_safely operations (fst (coordinateApplicationExit operations []))
   \<and> (\<forall>n. ConfirmationRequested n \<in> set (fst (coordinateApplicationExit operations [])) \<longrightarrow> confirmable (fst (coordinateApplicationExit operations [])))"
proof -
  obtain editors answer where e: "op_confirmDirtyEditors operations [] = (editors, answer)" by fastforce
  show ?thesis
  proof (cases "answer = Inr True \<and> op_shouldManageTasks operations [EditorsPrepared editors (Inr True)]")
    case False
    let ?h = "[EditorsPrepared editors (Inr True)]"
    have "closes_safely operations (fst (finishApplicationExit operations False ?h))" if "answer = Inr True"
      using False that by (intro finish_safe) (auto simp: may_close_def)
    then show ?thesis using e False finish_extends[of operations False ?h]
      by (auto simp: coordinateApplicationExit_def Let_def split: sum.splits)
  next
    case True
    show ?thesis
    proof (cases "op_getActiveTaskCount operations [EditorsPrepared editors (Inr True)]")
      case (Inr n)
      let ?h = "[EditorsPrepared editors (Inr True), TasksCounted n]"
      have "closes_safely operations (fst (finishApplicationExit operations True ?h))" if "n \<le> 0"
        using that by (intro finish_safe) (auto simp: confirmable_def)
      then show ?thesis using e True Inr finish_extends[of operations True ?h]
        by (auto simp: coordinateApplicationExit_def Let_def confirmable_def)
    qed (use e True in \<open>auto simp: coordinateApplicationExit_def Let_def\<close>)
  qed
qed

lemma run_safe: "exit_run operations h \<Longrightarrow> closes_safely operations h \<and> (\<forall>n. ConfirmationRequested n \<in> set h \<longrightarrow> confirmable h)"
proof (induction rule: exit_run.induct)
  case Coordinate
  then show ?case by (rule coordinate_safe)
next
  case (Confirm h n)
  then have c: "confirmable h" by blast
  have "closes_safely operations (fst (finishApplicationExit operations True h))" using Confirm c by (intro finish_safe) auto
  then show ?case using c finish_extends[of operations True h] confirmable_append by (auto simp: onConfirm_def)
qed

lemma closed_window: "closes_from operations seen (before @ CloseWindow a # after) \<Longrightarrow> may_close operations (seen @ before)"
  by simp



section \<open>Results\<close>

text \<open>
  The window is only closed when it may be. Whenever the window is told to close, in whatever run, the editors had been prepared
  with success before; and when tasks are managed, leaving had been prepared, and no task was active or the user had been asked.
\<close>

theorem window_closed_safely:
  assumes "exit_run operations (before @ CloseWindow a # after)"
  shows "may_close operations before"
  using closed_window[of operations "[]"] run_safe[OF assms] by simp

text \<open>A desktop application with two running tasks; the user confirms.\<close>

definition sample_operations :: ApplicationExitOperations where
  "sample_operations = \<lparr>op_confirmDirtyEditors = (\<lambda>_. ([], Inr True)), op_shouldManageTasks = (\<lambda>_. True), op_getActiveTaskCount = (\<lambda>_. Inr 2),
     op_prepareUserExit = (\<lambda>_. None), op_confirmCloseWindow = (\<lambda>_. Inr True)\<rparr>"

lemma sample_exit:
  "exit_run sample_operations ([EditorsPrepared [] (Inr True), TasksCounted 2, ConfirmationRequested 2, UserExitPrepared True] @ CloseWindow (Inr True) # [])"
proof -
  have first: "exit_run sample_operations [EditorsPrepared [] (Inr True), TasksCounted 2, ConfirmationRequested 2]"
    using exit_run.Coordinate[of sample_operations] by (simp add: coordinateApplicationExit_def sample_operations_def)
  have "ConfirmationRequested 2 \<in> set [EditorsPrepared [] (Inr True), TasksCounted 2, ConfirmationRequested 2]" by simp
  from exit_run.Confirm[OF first this] show ?thesis
    by (simp add: onConfirm_def finishApplicationExit_def close_window_def sample_operations_def Let_def)
qed

theorem window_closed_safely_witness:
  "may_close sample_operations [EditorsPrepared [] (Inr True), TasksCounted 2, ConfirmationRequested 2, UserExitPrepared True]"
  by (rule window_closed_safely[OF sample_exit])

text \<open>
  Leaving either succeeds, with the window told to close as the last thing, or everything it did is taken back: the preparation of
  the tasks is aborted when they are managed, and the exit cancelled, as the last things.
\<close>

theorem exit_finished_or_undone:
  "(\<exists>rest. finishApplicationExit operations m h = (h @ rest @ [CloseWindow (Inr True)], Inr ()))
   \<or> (\<exists>rest e. finishApplicationExit operations m h = (h @ rest @ (if m then [UserExitAborted] else []) @ [NativeExitCancelled], Inl e)
        \<and> CloseWindow (Inr True) \<notin> set rest)"
  by (auto simp: finishApplicationExit_def close_window_def give_up_def Let_def split: option.splits sum.splits)





end
