(* ===== verification/Command_Line.thy ===== *)
theory Command_Line
  imports Sse_Http
begin

text \<open>
  The desktop bridge, \<open>service/commandLine/commandLine.ts\<close>: a request is recorded in the store (\<open>store/global/slices/request/action.ts\<close>), sent to
  the native side, and answered later by a message with its id, by a timer, by a failure of the native side, or by the hook that
  aborts it (\<open>hooks/useAbortRequest.ts\<close>). The bridge is a machine over these inputs, so every statement is about every order of them. What is logged of
  requests and answers is redacted by \<open>redactForLog.ts\<close>.

  Ids are universally unique, so a request is named by its id; messages are parsed JSON. A promise keeps the first value it is settled
  with. Toasts and notifications are effects; translating their texts is a parameter.
\<close>

section \<open>redactForLog.ts\<close>

fun contains_text :: "string \<Rightarrow> string \<Rightarrow> bool" where
  "contains_text p [] = (p = [])"
| "contains_text p (c # s) = (startsWith (c # s) p \<or> contains_text p s)"

definition SENSITIVE_LOG_KEY :: "string \<Rightarrow> bool" where
  "SENSITIVE_LOG_KEY key \<longleftrightarrow> list_ex (\<lambda>p. contains_text p (toLowerCase key))
     [''password'', ''passphrase'', ''apikey'', ''api_key'', ''api-key'', ''secret'', ''token'', ''authorization'']"

definition jdbc_text :: "string \<Rightarrow> bool" where
  "jdbc_text s = startsWith (toLowerCase (trim_start s)) ''jdbc:''"

definition sensitive_entry :: "js_object \<Rightarrow> bool" where
  "sensitive_entry kvs = (case map_of kvs ''key'' of Some (Str k) \<Rightarrow> SENSITIVE_LOG_KEY k | _ \<Rightarrow> False)"

fun redactForLog :: "jsval \<Rightarrow> jsval" where
  "redactForLog (Str s) = (if jdbc_text s then Str ''***'' else Str s)"
| "redactForLog (Arr vs) = Arr (map redactForLog vs)"
| "redactForLog (Obj kvs) =
     Obj (map (\<lambda>kv. (fst kv, if SENSITIVE_LOG_KEY (fst kv) \<or> (fst kv = ''value'' \<and> sensitive_entry kvs) then Str ''***'' else redactForLog (snd kv))) kvs)"
| "redactForLog v = v"

section \<open>Requests and their records\<close>

datatype IErrorLevel = Toast | Notification | Prompt | Critical | NoErrorMessage

record IOptions =
  op_errorLevel :: IErrorLevel
  op_timeout :: bool
  op_fullResponse :: bool

record ICommandLineRequestListItem =
  rq_requestUrl :: string
  rq_options :: IOptions

datatype promise = Pending | Resolved jsval | Rejected jsval

datatype bridge_effect = SendRequest string | QueryMissing string | AlertText string | NotOnline | ErrorToast jsval | ErrorNotification string jsval jsval

record CommandLine =
  cl_requestList :: "(string \<times> ICommandLineRequestListItem) list"
  cl_promises :: "(string \<times> promise) list"
  cl_timers :: "string list"
  cl_serviceSuccess :: bool
  cl_effects :: "bridge_effect list"

definition addCommandLineRequestListItem :: "string \<Rightarrow> ICommandLineRequestListItem \<Rightarrow> CommandLine \<Rightarrow> CommandLine" where
  "addCommandLineRequestListItem i item st = st\<lparr>cl_requestList := AList.update i item (cl_requestList st)\<rparr>"

definition updateCommandLineRequestListItem :: "string \<Rightarrow> ICommandLineRequestListItem \<Rightarrow> CommandLine \<Rightarrow> CommandLine" where
  "updateCommandLineRequestListItem i item st = st\<lparr>cl_requestList := AList.update i item (cl_requestList st)\<rparr>"

definition removeCommandLineRequestListItem :: "string \<Rightarrow> CommandLine \<Rightarrow> CommandLine" where
  "removeCommandLineRequestListItem i st = st\<lparr>cl_requestList := AList.delete i (cl_requestList st)\<rparr>"

text \<open>Only the first settlement of a promise counts.\<close>

definition settle_promise :: "string \<Rightarrow> promise \<Rightarrow> CommandLine \<Rightarrow> CommandLine" where
  "settle_promise i p st = (if map_of (cl_promises st) i = Some Pending then st\<lparr>cl_promises := AList.update i p (cl_promises st)\<rparr> else st)"

definition bridge_emit :: "bridge_effect \<Rightarrow> CommandLine \<Rightarrow> CommandLine" where
  "bridge_emit e st = st\<lparr>cl_effects := cl_effects st @ [e]\<rparr>"

definition commandLineRequest :: "bool \<Rightarrow> string \<Rightarrow> ICommandLineRequestListItem \<Rightarrow> CommandLine \<Rightarrow> CommandLine" where
  "commandLineRequest javaQuery i item st =
     (let st1 = st\<lparr>cl_promises := AList.update i Pending (cl_promises st)\<rparr>;
          st2 = (if op_timeout (rq_options item) then st1\<lparr>cl_timers := i # cl_timers st1\<rparr> else st1);
          st3 = addCommandLineRequestListItem i item st2
      in bridge_emit (if javaQuery then SendRequest i else QueryMissing i) st3)"

text \<open>The timer of a request fires; a timer that was cleared does not.\<close>

definition requestTimeout :: "string \<Rightarrow> CommandLine \<Rightarrow> CommandLine" where
  "requestTimeout i st =
     (if i \<notin> set (cl_timers st) then st
      else
        let st1 = st\<lparr>cl_timers := removeAll i (cl_timers st)\<rparr>
        in case map_of (cl_requestList st1) i of
             None \<Rightarrow> st1
           | Some item \<Rightarrow> settle_promise i (Rejected (Str (''timeout_error:'' @ rq_requestUrl item))) (removeCommandLineRequestListItem i st1))"

definition onFailure :: "string \<Rightarrow> string \<Rightarrow> CommandLine \<Rightarrow> CommandLine" where
  "onFailure i error_message st = settle_promise i (Rejected (Str error_message)) (bridge_emit (AlertText error_message) st)"

definition abortRequest :: "string \<Rightarrow> CommandLine \<Rightarrow> CommandLine" where
  "abortRequest i st = settle_promise i (Rejected (Obj [(''message'', Str ''signal is aborted without reason'')])) (removeCommandLineRequestListItem i st)"

section \<open>Answers\<close>

definition silent_code :: "jsval \<Rightarrow> bool" where
  "silent_code errorCode \<longleftrightarrow> (\<exists>c \<in> set ErrorCodesWithoutToast. errorCode = Str c)"

definition responseInterceptor :: "jsval \<Rightarrow> CommandLine \<Rightarrow> CommandLine" where
  "responseInterceptor messageData st = (if strict_eq (jget messageData ''errorCode'') (Str ''api.networkError'') then bridge_emit NotOnline st else st)"

definition show_error :: "(jsval \<Rightarrow> jsval) \<Rightarrow> ICommandLineRequestListItem \<Rightarrow> jsval \<Rightarrow> CommandLine \<Rightarrow> CommandLine" where
  "show_error display item messageData st =
     (case op_errorLevel (rq_options item) of
        Toast \<Rightarrow> bridge_emit (ErrorToast (display (jget messageData ''errorMessage''))) st
      | Notification \<Rightarrow> bridge_emit (ErrorNotification (rq_requestUrl item) (jget messageData ''errorCode'') (jget messageData ''errorMessage'')) st
      | _ \<Rightarrow> st)"

definition pushMessageFlow :: "(jsval \<Rightarrow> jsval) \<Rightarrow> jsval \<Rightarrow> CommandLine \<Rightarrow> CommandLine" where
  "pushMessageFlow display data st =
     (if data = Str ''CHAT2DB_IPC_RESPONSE_SERVICE_STATUS_SUCCESS'' then st\<lparr>cl_serviceSuccess := True\<rparr>
      else if \<not> truthy (jget data ''uuid'') then st
      else
        let i = js_String (jget data ''uuid''); messageData = jget data ''message''
        in case map_of (cl_requestList st) i of
             None \<Rightarrow> st
           | Some item \<Rightarrow>
               let st1 = responseInterceptor messageData (st\<lparr>cl_timers := removeAll i (cl_timers st)\<rparr>)
               in if truthy (jget messageData ''success'')
                  then removeCommandLineRequestListItem i
                         (settle_promise i (Resolved (if op_fullResponse (rq_options item) then messageData else jget messageData ''data'')) st1)
                  else
                    let st2 = settle_promise i (Rejected (Obj [(''errorCode'', jget messageData ''errorCode''), (''errorMessage'', jget messageData ''errorMessage'')])) st1
                    in if silent_code (jget messageData ''errorCode'') then st2
                       else removeCommandLineRequestListItem i (show_error display item messageData st2))"

section \<open>The machine\<close>

datatype bridge_input =
    NewRequest bool string ICommandLineRequestListItem
  | Message jsval
  | TimerFires string
  | NativeFailure string string
  | AbortCalled string

fun bridge_step :: "(jsval \<Rightarrow> jsval) \<Rightarrow> CommandLine \<Rightarrow> bridge_input \<Rightarrow> CommandLine" where
  "bridge_step display st (NewRequest javaQuery i item) = commandLineRequest javaQuery i item st"
| "bridge_step display st (Message data) = pushMessageFlow display data st"
| "bridge_step display st (TimerFires i) = requestTimeout i st"
| "bridge_step display st (NativeFailure i error_message) = onFailure i error_message st"
| "bridge_step display st (AbortCalled i) = abortRequest i st"

definition initial_bridge :: CommandLine where
  "initial_bridge = \<lparr>cl_requestList = [], cl_promises = [], cl_timers = [], cl_serviceSuccess = False, cl_effects = []\<rparr>"

section \<open>Nobody waits without a record\<close>

abbreviation promise_of :: "CommandLine \<Rightarrow> string \<Rightarrow> promise option" where
  "promise_of st \<equiv> map_of (cl_promises st)"

abbreviation record_of :: "CommandLine \<Rightarrow> string \<Rightarrow> ICommandLineRequestListItem option" where
  "record_of st \<equiv> map_of (cl_requestList st)"

definition waits_recorded :: "CommandLine \<Rightarrow> bool" where
  "waits_recorded st \<longleftrightarrow> (\<forall>i. promise_of st i = Some Pending \<longrightarrow>
     (\<exists>item. record_of st i = Some item \<and> (op_timeout (rq_options item) \<longrightarrow> i \<in> set (cl_timers st))))"

lemma bridge_emit_simps [simp]:
  "cl_requestList (bridge_emit e st) = cl_requestList st" "cl_promises (bridge_emit e st) = cl_promises st" "cl_timers (bridge_emit e st) = cl_timers st"
  by (simp_all add: bridge_emit_def)

lemma removal_simps [simp]:
  "cl_requestList (removeCommandLineRequestListItem i st) = AList.delete i (cl_requestList st)"
  "cl_promises (removeCommandLineRequestListItem i st) = cl_promises st" "cl_timers (removeCommandLineRequestListItem i st) = cl_timers st"
  by (simp_all add: removeCommandLineRequestListItem_def)

lemma settle_promise_simps [simp]:
  "cl_requestList (settle_promise i p st) = cl_requestList st" "cl_timers (settle_promise i p st) = cl_timers st"
  "promise_of (settle_promise i p st) j = (if j = i \<and> promise_of st i = Some Pending then Some p else promise_of st j)"
  by (auto simp: settle_promise_def update_conv')

lemma interceptor_simps [simp]:
  "cl_requestList (responseInterceptor m st) = cl_requestList st" "cl_promises (responseInterceptor m st) = cl_promises st"
  "cl_timers (responseInterceptor m st) = cl_timers st"
  by (simp_all add: responseInterceptor_def)

lemma show_error_simps [simp]:
  "cl_requestList (show_error d item m st) = cl_requestList st" "cl_promises (show_error d item m st) = cl_promises st"
  "cl_timers (show_error d item m st) = cl_timers st"
  by (simp_all add: show_error_def split: IErrorLevel.split)

lemma request_records: "waits_recorded st \<Longrightarrow> waits_recorded (commandLineRequest javaQuery i item st)"
  by (auto simp: waits_recorded_def commandLineRequest_def addCommandLineRequestListItem_def Let_def update_conv')

lemma message_records: "waits_recorded st \<Longrightarrow> waits_recorded (pushMessageFlow display data st)"
  by (auto simp: waits_recorded_def pushMessageFlow_def Let_def delete_conv' split: option.split)

lemma timeout_records: "waits_recorded st \<Longrightarrow> waits_recorded (requestTimeout i st)"
  by (fastforce simp: waits_recorded_def requestTimeout_def Let_def delete_conv' split: option.split)

lemma failure_records: "waits_recorded st \<Longrightarrow> waits_recorded (onFailure i msg st)"
  by (auto simp: waits_recorded_def onFailure_def)

lemma abort_records: "waits_recorded st \<Longrightarrow> waits_recorded (abortRequest i st)"
  by (auto simp: waits_recorded_def abortRequest_def delete_conv')

interpretation bridge: input_machine "bridge_step display" waits_recorded for display
proof unfold_locales
  fix s i
  show "waits_recorded s \<Longrightarrow> waits_recorded (bridge_step display s i)"
    by (cases i) (simp_all add: request_records message_records timeout_records failure_records abort_records)
qed

lemma initial_records: "waits_recorded initial_bridge"
  by (simp add: waits_recorded_def initial_bridge_def)

section \<open>Inputs of one request\<close>

text \<open>The request an input is about.\<close>

fun about_request :: "string \<Rightarrow> bridge_input \<Rightarrow> bool" where
  "about_request i (NewRequest javaQuery j item) = (j = i)"
| "about_request i (Message data) = (truthy (jget data ''uuid'') \<and> js_String (jget data ''uuid'') = i)"
| "about_request i (TimerFires j) = (j = i)"
| "about_request i (NativeFailure j msg) = (j = i)"
| "about_request i (AbortCalled j) = (j = i)"

lemma other_request_kept:
  assumes "\<not> about_request i input"
  shows "promise_of (bridge_step display st input) i = promise_of st i \<and> record_of (bridge_step display st input) i = record_of st i
    \<and> (i \<in> set (cl_timers (bridge_step display st input)) \<longleftrightarrow> i \<in> set (cl_timers st))"
  using assms
  by (cases input)
    (auto simp: commandLineRequest_def addCommandLineRequestListItem_def pushMessageFlow_def requestTimeout_def onFailure_def abortRequest_def
      Let_def update_conv' delete_conv' split: option.split)

lemma settled_step:
  assumes "promise_of st i = Some p" "p \<noteq> Pending" "\<forall>javaQuery item. input \<noteq> NewRequest javaQuery i item"
  shows "promise_of (bridge_step display st input) i = Some p"
  using assms
  by (cases input)
    (auto simp: commandLineRequest_def addCommandLineRequestListItem_def pushMessageFlow_def requestTimeout_def onFailure_def abortRequest_def
      Let_def update_conv' split: option.split)

interpretation settled: guarded_machine "bridge_step display" "\<lambda>st. promise_of st i = Some p \<and> p \<noteq> Pending"
    "\<lambda>input. \<forall>javaQuery item. input \<noteq> NewRequest javaQuery i item" for display i p
  by unfold_locales (use settled_step in blast)

section \<open>Redacted logs\<close>

text \<open>
  What must not be logged, said without the redactor: a key names a secret if one of the words occurs in it, in any letter case; a text is a
  connection string if it starts, after white space, with \<open>jdbc:\<close> in any letter case; and an object whose \<open>key\<close> is a text that names a secret
  holds the secret in its \<open>value\<close>.
\<close>

definition names_secret :: "string \<Rightarrow> bool" where
  "names_secret k \<longleftrightarrow> (\<exists>w \<in> {''password'', ''passphrase'', ''apikey'', ''api_key'', ''api-key'', ''secret'', ''token'', ''authorization''}.
     \<exists>before after. toLowerCase k = before @ w @ after)"

definition connection_string :: "string \<Rightarrow> bool" where
  "connection_string s \<longleftrightarrow> (\<exists>blank rest. s = blank @ rest \<and> list_all is_space blank \<and> toLowerCase (take 5 rest) = ''jdbc:'')"

definition holds_secret :: "js_object \<Rightarrow> string \<Rightarrow> bool" where
  "holds_secret kvs k \<longleftrightarrow> names_secret k \<or> (k = ''value'' \<and> (\<exists>name. map_of kvs ''key'' = Some (Str name) \<and> names_secret name))"

fun without_secrets :: "jsval \<Rightarrow> bool" where
  "without_secrets (Str s) = (\<not> connection_string s)"
| "without_secrets (Arr vs) = list_all without_secrets vs"
| "without_secrets (Obj kvs) = list_all (\<lambda>kv. without_secrets (snd kv) \<and> (holds_secret kvs (fst kv) \<longrightarrow> snd kv = Str ''***'')) kvs"
| "without_secrets v = True"

lemma contains_text_iff: "contains_text p s \<longleftrightarrow> (\<exists>before after. s = before @ p @ after)"
proof (induction s)
  case (Cons c s)
  have "startsWith (c # s) p \<longleftrightarrow> (\<exists>after. c # s = p @ after)"
    by (auto simp: startsWith_def) (metis append_take_drop_id)
  moreover have "(\<exists>before after. c # s = before @ p @ after)
      \<longleftrightarrow> (\<exists>after. c # s = p @ after) \<or> (\<exists>before after. s = before @ p @ after)"
    by (metis append_Cons append_Nil append_eq_Cons_conv)
  ultimately show ?case using Cons.IH by simp
qed auto

lemma sensitive_key_iff: "SENSITIVE_LOG_KEY k \<longleftrightarrow> names_secret k"
  by (simp add: SENSITIVE_LOG_KEY_def names_secret_def contains_text_iff)

lemma sensitive_entry_iff: "sensitive_entry kvs \<longleftrightarrow> (\<exists>name. map_of kvs ''key'' = Some (Str name) \<and> names_secret name)"
  by (auto simp: sensitive_entry_def sensitive_key_iff split: option.splits jsval.splits)

lemma holds_secret_iff: "SENSITIVE_LOG_KEY k \<or> (k = ''value'' \<and> sensitive_entry kvs) \<longleftrightarrow> holds_secret kvs k"
  by (simp add: holds_secret_def sensitive_entry_iff sensitive_key_iff)

lemma jdbc_text_iff: "jdbc_text s \<longleftrightarrow> connection_string s"
proof
  assume "jdbc_text s"
  then have "toLowerCase (take 5 (dropWhile is_space s)) = ''jdbc:''"
    by (simp add: jdbc_text_def startsWith_def trim_start_def toLowerCase_def take_map numeral_eq_Suc)
  then show "connection_string s"
    unfolding connection_string_def
    by (intro exI[of _ "takeWhile is_space s"] exI[of _ "dropWhile is_space s"]) (auto simp: list_all_iff dest: set_takeWhileD)
next
  assume "connection_string s"
  then obtain blank rest where s: "s = blank @ rest" "list_all is_space blank" "toLowerCase (take 5 rest) = ''jdbc:''"
    by (auto simp: connection_string_def)
  then obtain c t where rest: "rest = c # t" "lower_char c = CHR ''j''" by (cases rest) (auto simp: toLowerCase_def)
  then have "\<not> is_space c" by (auto simp: lower_char_def is_space_def Let_def split: if_splits)
  with s rest have "dropWhile is_space s = rest" by (auto simp: list_all_iff dropWhile_append)
  with s(3) show "jdbc_text s" by (simp add: jdbc_text_def startsWith_def trim_start_def toLowerCase_def take_map numeral_eq_Suc)
qed

lemma redact_object:
  "redactForLog (Obj kvs) = Obj (map (\<lambda>kv. (fst kv, if holds_secret kvs (fst kv) then Str ''***'' else redactForLog (snd kv))) kvs)"
  by (simp add: holds_secret_iff)

lemma stars_plain: "\<not> connection_string ''***''" "\<not> names_secret ''***''" "\<not> names_secret ''key''"
  by (simp_all only: jdbc_text_iff[symmetric] sensitive_key_iff[symmetric]) code_simp+

lemma redacted_text: "redactForLog v = Str s \<Longrightarrow> s = ''***'' \<or> v = Str s"
  by (cases v) (auto split: if_splits)

lemma holds_secret_redacted:
  assumes "holds_secret (map (\<lambda>kv. (fst kv, if holds_secret kvs (fst kv) then Str ''***'' else redactForLog (snd kv))) kvs) k"
  shows "holds_secret kvs k"
proof -
  have "\<not> holds_secret xs ''key''" for xs using stars_plain(3) by (simp add: holds_secret_def)
  then have "map_of (map (\<lambda>kv. (fst kv, if holds_secret xs (fst kv) then Str ''***'' else redactForLog (snd kv))) kvs) ''key''
      = map_option redactForLog (map_of kvs ''key'')" for xs by (induction kvs) auto
  with assms stars_plain(2) redacted_text show ?thesis unfolding holds_secret_def by fastforce
qed

lemma redacted_without_secrets: "without_secrets (redactForLog v)"
proof (induction v rule: redactForLog.induct)
  case (1 s)
  show ?case using stars_plain(1) by (simp add: jdbc_text_iff)
next
  case (3 kvs)
  show ?case
    unfolding redact_object using 3 stars_plain(1) holds_secret_redacted[of kvs]
    by (auto simp: list_all_iff holds_secret_iff)
qed (auto simp: list_all_iff)

lemma redact_fixed: "without_secrets w \<Longrightarrow> redactForLog w = w"
proof (induction w rule: without_secrets.induct)
  case (3 kvs)
  have "(fst kv, if holds_secret kvs (fst kv) then Str ''***'' else redactForLog (snd kv)) = kv" if kv: "kv \<in> set kvs" for kv
    using "3.prems" "3.IH"[OF kv] kv by (auto simp: list_all_iff prod_eq_iff)
  then show ?case unfolding redact_object by (simp add: map_idI)
qed (auto simp: list_all_iff jdbc_text_iff intro!: map_idI)

section \<open>Results\<close>

text \<open>
  C11: No request of the desktop bridge is forgotten. After whatever requests, answers, timers, failures and abortions, in whatever
  order, a request (with a non-empty id) whose promise is pending is recorded. A message with its id settles the promise: a successful answer resolves it
  with the data of the answer, or the whole answer if that was asked for, and any other answer rejects it with its error code and
  message. A failure of the native side and the abortion of the request reject it too; and when it has a timeout, its timer is running, and when it fires the
  promise is rejected.
\<close>

theorem bridge_requests_end:
  assumes "st = foldl (bridge_step display) initial_bridge inputs" and "promise_of st i = Some Pending" and "i \<noteq> []"
  shows "\<exists>item. record_of st i = Some item
    \<and> (\<forall>data. jget data ''uuid'' = Str i \<longrightarrow>
         promise_of (bridge_step display st (Message data)) i =
           Some (let m = jget data ''message'' in
             if truthy (jget m ''success'') then Resolved (if op_fullResponse (rq_options item) then m else jget m ''data'')
             else Rejected (Obj [(''errorCode'', jget m ''errorCode''), (''errorMessage'', jget m ''errorMessage'')])))
    \<and> (\<forall>msg. promise_of (bridge_step display st (NativeFailure i msg)) i = Some (Rejected (Str msg)))
    \<and> (\<exists>reason. promise_of (bridge_step display st (AbortCalled i)) i = Some (Rejected reason))
    \<and> (op_timeout (rq_options item) \<longrightarrow>
         promise_of (bridge_step display st (TimerFires i)) i = Some (Rejected (Str (''timeout_error:'' @ rq_requestUrl item))))"
proof -
  have "waits_recorded st" unfolding assms(1) by (rule bridge.run_keeps[OF initial_records])
  then obtain item where item: "record_of st i = Some item" "op_timeout (rq_options item) \<longrightarrow> i \<in> set (cl_timers st)"
    using assms(2) by (auto simp: waits_recorded_def)
  have "data \<noteq> Str ''CHAT2DB_IPC_RESPONSE_SERVICE_STATUS_SUCCESS''" if "jget data ''uuid'' = Str i" for data
    using that by auto
  then show ?thesis using assms(2,3) item
    by (intro exI[of _ item]) (auto simp: pushMessageFlow_def requestTimeout_def onFailure_def abortRequest_def Let_def)
qed

definition sample_request :: ICommandLineRequestListItem where
  "sample_request = \<lparr>rq_requestUrl = ''/api/x'', rq_options = \<lparr>op_errorLevel = Toast, op_timeout = True, op_fullResponse = False\<rparr>\<rparr>"

theorem bridge_requests_end_witness:
  "promise_of (foldl (bridge_step id) initial_bridge [NewRequest True ''a'' sample_request]) ''a'' = Some Pending
   \<and> (\<exists>item. record_of (foldl (bridge_step id) initial_bridge [NewRequest True ''a'' sample_request]) ''a'' = Some item)
   \<and> promise_of (bridge_step id (foldl (bridge_step id) initial_bridge [NewRequest True ''a'' sample_request]) (NativeFailure ''a'' ''down'')) ''a''
      = Some (Rejected (Str ''down''))"
proof -
  have "promise_of (foldl (bridge_step id) initial_bridge [NewRequest True ''a'' sample_request]) ''a'' = Some Pending" by code_simp
  with bridge_requests_end[OF refl this] show ?thesis by blast
qed

text \<open>
  An answer settles its request and no other, once: an input that is not about a request changes neither its promise nor its record nor its timer,
  and once a promise is settled no later answer, timer, failure or abortion changes it.
\<close>

theorem bridge_answers_apart:
  "(\<not> about_request i input \<longrightarrow> promise_of (bridge_step display st input) i = promise_of st i \<and> record_of (bridge_step display st input) i = record_of st i
      \<and> (i \<in> set (cl_timers (bridge_step display st input)) \<longleftrightarrow> i \<in> set (cl_timers st)))
   \<and> (promise_of st i = Some p \<and> p \<noteq> Pending \<and> (\<forall>x \<in> set inputs. \<forall>javaQuery item. x \<noteq> NewRequest javaQuery i item) \<longrightarrow>
      promise_of (foldl (bridge_step display) st inputs) i = Some p)"
  using other_request_kept[of i input display st] settled.allowed_run_keeps[of st i p inputs display] by blast

theorem bridge_answers_apart_witness:
  "promise_of (foldl (bridge_step id)
     (initial_bridge\<lparr>cl_promises := [(''a'', Resolved Null)]\<rparr>) [Message (Obj [(''uuid'', Str ''a'')]), TimerFires ''a'']) ''a'' = Some (Resolved Null)"
  using bridge_answers_apart[of "''a''" "AbortCalled ''b''" id "initial_bridge\<lparr>cl_promises := [(''a'', Resolved Null)]\<rparr>" "Resolved Null"
      "[Message (Obj [(''uuid'', Str ''a'')]), TimerFires ''a'']"] by simp

text \<open>
  An answer that fails with one of the codes that show no message leaves the record of its request behind: the promise is rejected, but the
  record stays, and the timer that would remove it is cleared.
\<close>

theorem silent_failure_keeps_record:
  assumes "record_of st i = Some item" and "i \<noteq> []" and "\<not> truthy (jget m ''success'')" and "silent_code (jget m ''errorCode'')"
  shows "record_of (pushMessageFlow display (Obj [(''uuid'', Str i), (''message'', m)]) st) i = Some item
    \<and> i \<notin> set (cl_timers (pushMessageFlow display (Obj [(''uuid'', Str i), (''message'', m)]) st))"
  using assms by (simp add: pushMessageFlow_def Let_def)

theorem silent_failure_keeps_record_witness:
  "record_of (pushMessageFlow id (Obj [(''uuid'', Str ''a''), (''message'', Obj [(''errorCode'', Str ''common.needLoggedIn'')])])
     (foldl (bridge_step id) initial_bridge [NewRequest True ''a'' sample_request])) ''a'' = Some sample_request"
proof -
  have rec: "record_of (foldl (bridge_step id) initial_bridge [NewRequest True ''a'' sample_request]) ''a'' = Some sample_request" by code_simp
  have code: "silent_code (jget (Obj [(''errorCode'', Str ''common.needLoggedIn'')]) ''errorCode'')" by code_simp
  show ?thesis using silent_failure_keeps_record[OF rec _ _ code] by simp
qed

text \<open>
  C35: The copies of requests and answers that go to the log have no secrets: in what \<open>redactForLog\<close> makes of a value, at any depth, whatever belongs to a key that names
  a secret, or is the value of an entry whose key names one, is three stars, and no text is a connection string. A value without
  secrets is logged as it is, so redacting twice changes nothing more.
\<close>

theorem logs_without_secrets:
  "without_secrets (redactForLog v) \<and> (without_secrets v \<longleftrightarrow> redactForLog v = v) \<and> redactForLog (redactForLog v) = redactForLog v"
  using redacted_without_secrets[of v] redact_fixed by metis

end
