(* ===== verification/Spec2Isabelle.thy ===== *)
theory Spec2Isabelle
  imports Log_Properties Log_Retention Request_Tracker Result_Batches Result_Stream_Properties
    Execution_Snapshots Observer_Properties Terminal_Placement Terminal_Attachment Column_State
    File_Save Console_Mutations Option_Requests Content_Guard Task_Center Editor_Close Sse_Hook Redis_View
    Insert_Hints Table_Identifiers Sql_Punctuation Tree_Loads Hidden_Nodes Tree_Data Routine_Hints
    Result_Edit_Sessions Copy_Paste Sql_In_Tokens Backend_Contract
    Console_Tabs Result_Tabs Cascade_Guard Application_Exit Command_Line
begin

text \<open>
  Verification of the TypeScript core of the Chat2DB client.

  \<^bold>\<open>The program.\<close> Chat2DB is a database workbench. A Rust backend executes SQL and drives databases;
  the TypeScript client (\<open>apps/community-client\<close>, and the backend access of \<open>apps/frontend\<close>) keeps
  all the state a user sees. The modelled modules are those where that state is decided; the
  React components only call them and render what they return. Unless it begins with
  \<open>apps/\<close>, a path below is relative to \<open>apps/community-client/src\<close>.

  A user runs a statement: the request tracker admits one execution at a time and gives it a
  generation; the backend answers with a stream of events (followed by an observer that reconnects); each event
  is reduced into the execution log and merged into the list of results; the snapshot registry
  remembers what the execution was started against; older batches of results are dropped. The
  results are shown in tables whose columns can be hidden, frozen and moved. All of it lives in
  tabs, arranged in a tree of split panes, where terminals dock and keep their sessions while
  they are moved. Consoles and files that are edited are saved through coordinators which keep slow answers from
  overtaking newer ones. Long imports and exports are tasks that a task center polls. Answers of the assistant are
  streamed as server-sent events. A Redis database is browsed as a tree of its keys.

  \<^bold>\<open>The theories.\<close>

  \<^item> \<open>Js_Prelude\<close>: the JavaScript values, strings, arrays and dictionaries the sources use. The
    locale \<open>js_dictionary\<close> states the laws of a \<open>Map\<close> and is interpreted on association lists. The locales
    \<open>guarded_machine\<close> and \<open>input_machine\<close> are code driven by events: an invariant of one step holds in every
    run, so for every interleaving.
  \<^item> \<open>Js_Uri\<close>: percent encoding. \<open>Js_Sort\<close>: \<open>Array.prototype.sort\<close>; the locale \<open>comparator\<close> derives from a consistent comparator that the
    result is the stable sort. It is interpreted on the comparator of
    execution results, of columns, of tasks and of tree nodes, and on collation.
  \<^item> \<open>Request_Tracker\<close>: \<open>utils/latestRequest.ts\<close>, \<open>service/sqlExecutionRequestTracker.ts\<close>. The locale
    \<open>latest_request\<close> is the contract of a generation counter. One execution at a time; a finished
    or overtaken request cannot touch the tracker again.
  \<^item> \<open>Result_Batches\<close>: \<open>service/sqlExecutionBatch.ts\<close>. Retention keeps whole batches, the newest ones.
  \<^item> \<open>Execution_Events\<close>, \<open>Execution_Log\<close>: \<open>service/sqlExecutionLog.ts\<close>, data first, then every
    operation. \<open>Log_Retention\<close>: what the limits of outputs and records keep. \<open>Log_Invariant\<close>: the
    invariant of the log and that every operation keeps it. \<open>Log_Properties\<close>: reachable logs are
    well formed and have at most 200 records besides running ones, executions do not disturb each other (the limit of records
    evicts at most one, never a running one), a terminal event leaves its record in the final status, a failure always shows, a
    replayed message changes nothing, and a replaced execution is ignored from then on.
  \<^item> \<open>Result_Stream\<close>, \<open>Result_Stream_Properties\<close>: the results of \<open>service/sqlExecutionStream.ts\<close>; rows
    accumulated outside of the list equal rows merged one by one, a result is replaced in place, and results
    are ordered.
  \<^item> \<open>Execution_Snapshots\<close>: \<open>service/dataSourceExecutionSnapshot.ts\<close>; lookup after capture, and
    nothing is left after release.
  \<^item> \<open>Observer\<close>, \<open>Observer_Properties\<close>: \<open>apps/frontend/src/backend/operation.ts\<close> and \<open>agent.ts\<close>. The
    observer is a machine over inputs (\<open>input_machine\<close> is interpreted once for each of three
    invariants), so every statement is about every interleaving of callbacks: strictly
    increasing events, silence after close, a bounded number of reconnects, termination.
  \<^item> \<open>Backend_Messages\<close>, \<open>Backend_Calls\<close>, \<open>Backend_Streams\<close>, \<open>Backend_Contract\<close>: \<open>client.ts\<close>, \<open>http.ts\<close> and \<open>tauri.ts\<close> of the same directory:
    the checks of messages, the calls over both transports, and the subscriptions to streams of events. \<open>fetch\<close>, \<open>invoke\<close>, \<open>JSON.parse\<close>, the
    parser of event streams and the callbacks are parameters. The locale \<open>event_subscription\<close> is what an observer relies on (only
    checked events, in order, nothing after the end); it is interpreted on the subscriptions of both transports, and the
    composition says that an observer hands on the events of a stream up to the one that ends it. Request bodies are the texts of \<open>JSON.stringify\<close>. An accepted subscription is always released.
  \<^item> \<open>Tab_Layout\<close>, \<open>Tab_Drop\<close>, \<open>Terminal_Placement\<close>: \<open>workspaceTabLayout.ts\<close>, \<open>workspaceTabSelection.ts\<close>,
    \<open>workspaceTabContentLayout.ts\<close>, \<open>workspaceTabDrop.ts\<close> and \<open>terminalTabPlacement.ts\<close> of
    \<open>pages/main/workspace/components/WorkspaceTabs\<close>. Moving, dropping and docking tabs neither loses
    nor duplicates one, in layouts where every pane with tabs is in the tree (or there is no tree yet).
  \<^item> \<open>Terminal_Attachment\<close>: \<open>terminalAttachmentLifecycle.ts\<close> of the same directory, with the shared entries in a heap. A leased
    session stays attached under every interleaving of timers and promises.
  \<^item> \<open>Column_State\<close>: \<open>blocks/SearchResult/components/ResultSetTable/columnState.ts\<close>.
  \<^item> \<open>Result_Edits\<close>, \<open>Result_Edit_Properties\<close>, \<open>Result_Edit_Sessions\<close>: \<open>hooks/useOperationRecord.tsx\<close>, \<open>hooks/operationRecord.ts\<close> and
    \<open>event/onChangeCellValue\<close> of the same directory, \<open>blocks/CanvasTable/utils\<close> and \<open>blocks/SearchResult/utils.tsx\<close>: edits of cells, new and
    deleted rows before they are submitted. The table component is third-party code: its methods are a parameter, and the laws the hook relies on are
    the hypothesis \<open>vtable_laws\<close>, met by a small table. Every operation keeps the invariant that the lists describe the difference to the loaded rows;
    so undoing restores these, and what is submitted is true and complete. Sessions are the edits in the table; the edits of the separate viewer of
    cells (\<open>ViewData\<close>) and freezing a column that has a recorded edit, which undoing does not restore, are left out.
  \<^item> \<open>Large_Values\<close>, \<open>Result_Clipboard\<close>, \<open>Copy_Paste\<close>, \<open>Sql_In_Tokens\<close>: \<open>largeCellValue.ts\<close> of \<open>ViewData\<close>, \<open>copyValues.ts\<close>,
    \<open>copyResultData.ts\<close> and the events of pasting and of the context menu of the same directory, \<open>utils/internalClipboard.ts\<close>,
    \<open>utils/clipboardText.ts\<close> and \<open>utils/sqlInClipboard.ts\<close>. A large value is copied whole or not at all, whatever chunks arrive (the streaming decoder
    of the platform is a parameter); what is copied is pasted with the same values, but for blank texts, which become null, and frozen columns; quoted values are read back. The records of a selection are shared: they live in a heap.
  \<^item> \<open>File_Save\<close>: \<open>utils/localFileSaveCoordinator.ts\<close>. \<open>Console_Mutations\<close>:
    \<open>store/workspace/utils/savedConsoleMutationCoordinator.ts\<close>. Queues of asynchronous mutations,
    as step relations over completed calls.
  \<^item> \<open>Option_Requests\<close>: \<open>hooks/selectDatabaseRequestLifecycle.ts\<close>, a second user of
    \<open>latest_request\<close>.
  \<^item> \<open>Content_Diff\<close>, \<open>Content_Guard\<close>: \<open>components/SQLEditor/editor/MonacoEditor/contentDiff.ts\<close> and
    \<open>components/SQLEditor/helper/contentDiffGuard.ts\<close>. The table computes longest common
    subsequences, the alignment keeps one, and the hunks account for every change.
  \<^item> \<open>Sse_Stream\<close>, \<open>Sse_Requests\<close>, \<open>Sse_Http\<close>, \<open>Sse_Hook\<close>: \<open>components/SSERequest\<close> and \<open>hooks/useSSERequest.ts\<close>, from the
    parser up to the component. Events arrive unchanged however the network cuts the text; a request ends
    once whatever callbacks do; an answer over HTTP of well-formed events is delivered complete (the composition of parser, handler and handle);
    a component has one voice, a third user of \<open>latest_request\<close>, and never waits for nothing.
  \<^item> \<open>Task_Merge\<close>, \<open>Task_Center\<close>: \<open>store/importExport/taskCenterUtils.ts\<close> and \<open>index.ts\<close>. The newest version of a task
    wins, finished tasks stay finished whatever arrives late, completions are announced once, and active tasks are
    polled on.
  \<^item> \<open>Editor_Close\<close>, \<open>Application_Exit\<close>: \<open>utils/editorCloseGuard.ts\<close> and \<open>layouts/init/applicationExitCoordinator.ts\<close>; with the confirmation switched on, an edit that is there when its editor has its turn is only given
    up by a decision of the user, also when the application is left, and leaving is completed or undone.
  \<^item> \<open>Json_Graph\<close>, \<open>Workspace_Persistence\<close>, \<open>Console_Tabs\<close>: \<open>workspaceTabPersistence.ts\<close>, \<open>consoleTabName.ts\<close>, \<open>localFileWorkspaceTab.ts\<close> and
    \<open>savedConsoleLifecycle.ts\<close> of \<open>store/workspace/utils\<close>, and how \<open>store/workspace/store.ts\<close> writes and reads the state. The tabs are objects in a
    heap, since they may be shared or cyclic; serialising them equals cutting the references to ancestors. A restart restores what was written.
  \<^item> \<open>Result_Tabs\<close>: \<open>tabSelection.ts\<close> and \<open>resultTabPreferences.ts\<close> of \<open>blocks/SearchResult\<close>, \<open>store/workspace/utils/resultInspector.ts\<close> and
    \<open>service/resultTabShortcut.ts\<close>. The locale \<open>stored_preference\<close> is interpreted on three preferences; the choice of a tab by the user is kept.
  \<^item> \<open>Command_Line\<close>: \<open>service/commandLine\<close>, with its records in \<open>store/global/slices/request\<close>: requests of the desktop client, as a machine over
    answers, timers, failures and abortions. A pending request is always recorded and ends by an answer, a failure, an abort or its timer; answers are kept apart; the redacted copies in
    the log have no value under a secret key and no connection string.
  \<^item> \<open>Cascade_Guard\<close>: \<open>components/SelectBoundInfo/cascadeRequestGuard.ts\<close>, a further user of \<open>latest_request\<close>, once for each level.
  \<^item> \<open>Redis_Keys\<close>, \<open>Redis_View\<close>: \<open>redisKeyTree.ts\<close>, \<open>redisRowIdentity.ts\<close>, \<open>redisDetail.ts\<close>, \<open>redisExpansion.ts\<close>,
    \<open>redisEditSession.ts\<close> and \<open>redisViewMode.ts\<close> of \<open>blocks/RedisAllData\<close>. The tree refines the list of rows in two steps
    (growing groups, then sorted nodes); what the user opens and closes survives reloads and searches.
  \<^item> \<open>Sql_Statements\<close>, \<open>Insert_Hints\<close>, \<open>Table_Identifiers\<close>, \<open>Sql_Punctuation\<close>: the types of \<open>typings/sqlParser.ts\<close> and the helpers
    \<open>insertValueHighlight.ts\<close>, \<open>tableIdentifier.ts\<close> and \<open>sqlInputPunctuation.ts\<close> of \<open>components/SQLEditor/helper\<close>. Markers show exactly the
    rows that do not match, columns and values point at each other, underlined names are the clickable ones, a qualified name is read as it
    is written, and the context of the cursor is that of the token around it, but for two positions where the code errs.
  \<^item> \<open>Value_Defaults\<close>, \<open>Routine_Hints\<close>: \<open>sqlInsertValueDefaults.ts\<close>, \<open>routineParameterHint.ts\<close> and \<open>parameterHint.ts\<close> of the same directory. The
    rows of an insert are found in its text and nowhere else, hints of filled values point at the text of each value, brackets are matched past
    quotes, a list of parameters is cut without loss, and exactly one hint is active.
  \<^item> \<open>Tree_Loads\<close>, \<open>Hidden_Nodes\<close>, \<open>Data_Source_State\<close>, \<open>Tree_Data\<close>: \<open>loadNamespaceTree.ts\<close>, \<open>hiddenTreeNodeState.ts\<close>, \<open>treeDataUpdate.ts\<close>,
    \<open>backgroundRefresh.ts\<close>, \<open>dataSourceList.ts\<close>, \<open>dataSourceIdentity.ts\<close> and \<open>treeNodeLoadState.ts\<close> of \<open>store/tree\<close>, and
    \<open>utils/editorDataSourceLifecycle.ts\<close> and \<open>utils/dataSourceWatermark.ts\<close>. Every caller of a load is answered by the latest one; reads of the
    hidden nodes overlap no write; updates of the tree are local, and the view refers only to nodes that are there.

  \<^bold>\<open>Conventions.\<close> Names are those of the source, with a suffix or prefix where HOL has the name already; fields carry a
  prefix of their record. Strings are lists of characters; white space and case are those of
  ASCII. Numbers are integers, with NaN where a source can meet it; sequence numbers and counts
  stay far below \<open>2 ^ 53\<close>, where JavaScript numbers are exact. Untyped payloads are the type \<open>jsval\<close>. A
  \<open>Map\<close> or object used as a dictionary is an association list, which keeps the insertion order.
  Functions that mutate their argument return it. The clock, fresh ids and user callbacks
  are arguments. A promise is split at its \<open>await\<close>: the code before it and the code after it
  are two operations, and what settles the promise is a step of the environment.
  A thrown error is a value of a sum or option type. There is no fuel: the
  observer, whose source loops until its stream ends, is a step function, and its termination is a
  theorem about its runs; two loops whose end depends on the environment (listing of pages, search for a nested
  error) are partial functions, and that they return is a theorem.

  \<^bold>\<open>Not modelled.\<close> The building of requests (\<open>service/base.tsx\<close>) and the service wrappers of the client, React components and most hooks, most zustand
  stores around service calls, Monaco and its completion providers, the remaining helpers of
  the SQL editor, internationalisation, generated contracts, keyword and theme tables, and the Rust and Java parts of the system.
\<close>

end
